(* ===== verification/Prelude.thy ===== *)
theory Prelude
  imports Main "HOL-Library.AList" "HOL-Library.List_Lexorder" "HOL-Library.Product_Lexorder"
    "HOL-Library.Char_ord"
begin

text \<open>
  Shared vocabulary of the development: the exception classes of \<open>src/src/umcm/errors.py\<close>
  and the built-in Python exceptions the code can let escape, results as sums
  (\<open>Inl\<close> an exception, \<open>Inr\<close> a value), sequencing and traversal of results,
  Python dictionaries as association lists in insertion order, and generic facts about lists.
  The order on strings is the code-point order of Python's \<open>sorted\<close>.
\<close>

section \<open>Exceptions and results\<close>

text \<open>
  One constructor per class of \<open>errors.py\<close>; messages are not modelled. The \<open>Py\<close>
  constructors are built-in exceptions. \<open>Unmodelled\<close> is no exception of the program: a
  definition returns it where the code would go on with a value outside the declared type of a
  field or operand (for example sequence concatenation through \<open>+\<close>); the theorems about
  well-typed inputs show that it is never returned.
\<close>

datatype py_error =
    SchemaError | TraceValidationError | ExpressionTypeError | SerializationError
  | SolverError | BackendUnavailableError | CompletionError | GraphError | AxiomError
  | AbstractionError | CompositionError | CoverageError | SearchError
  | PyKeyError | PyTypeError | PyValueError | PyRecursionError | PyAssertionError
  | Unmodelled

type_synonym 'a res = "py_error + 'a"

text \<open>\<open>except KeyError as exc: raise E\<close>, and the hierarchy below \<open>SolverError\<close>.\<close>

definition is_umcm_error :: "py_error \<Rightarrow> bool" where
  "is_umcm_error e \<longleftrightarrow> e \<in> {SchemaError, TraceValidationError, ExpressionTypeError,
     SerializationError, SolverError, BackendUnavailableError, CompletionError, GraphError,
     AxiomError, AbstractionError, CompositionError, CoverageError, SearchError}"

fun rbind :: "'e + 'a \<Rightarrow> ('a \<Rightarrow> 'e + 'b) \<Rightarrow> 'e + 'b" where
  "rbind (Inl e) f = Inl e"
| "rbind (Inr x) f = f x"

definition require :: "bool \<Rightarrow> 'e \<Rightarrow> 'e + unit" where
  "require c e = (if c then Inr () else Inl e)"

definition or_raise :: "'a option \<Rightarrow> 'e \<Rightarrow> 'e + 'a" where
  "or_raise m e = (case m of None \<Rightarrow> Inl e | Some x \<Rightarrow> Inr x)"

fun traverse :: "('a \<Rightarrow> 'e + 'b) \<Rightarrow> 'a list \<Rightarrow> 'e + 'b list" where
  "traverse f [] = Inr []"
| "traverse f (x # xs) = rbind (f x) (\<lambda>y. rbind (traverse f xs) (\<lambda>ys. Inr (y # ys)))"

text \<open>A loop that updates a state and may raise.\<close>

fun fold_res :: "('s \<Rightarrow> 'a \<Rightarrow> 'e + 's) \<Rightarrow> 's \<Rightarrow> 'a list \<Rightarrow> 'e + 's" where
  "fold_res f s [] = Inr s"
| "fold_res f s (x # xs) = rbind (f s x) (\<lambda>s'. fold_res f s' xs)"

named_theorems res_simps \<open>elimination of results\<close>

lemma rbind_cong [fundef_cong]:
  assumes "r = r'" and "\<And>x. r' = Inr x \<Longrightarrow> f x = g x"
  shows "rbind r f = rbind r' g"
  using assms by (cases r') auto

lemma traverse_cong [fundef_cong]:
  assumes "xs = ys" and "\<And>x. x \<in> set ys \<Longrightarrow> f x = g x"
  shows "traverse f xs = traverse g ys"
  using assms(2) unfolding assms(1) by (induction ys) auto

lemma rbind_Inr_iff [res_simps]: "rbind r f = Inr y \<longleftrightarrow> (\<exists>x. r = Inr x \<and> f x = Inr y)"
  by (cases r) auto

lemma rbind_Inl_iff [res_simps]:
  "rbind r f = Inl e \<longleftrightarrow> r = Inl e \<or> (\<exists>x. r = Inr x \<and> f x = Inl e)"
  by (cases r) auto

lemma rbind_Inr_right [simp]: "rbind r Inr = r"
  by (cases r) auto

lemma rbind_assoc: "rbind (rbind r f) g = rbind r (\<lambda>x. rbind (f x) g)"
  by (cases r) auto

lemma require_Inr_iff [res_simps]: "require c e = Inr u \<longleftrightarrow> c"
  by (simp add: require_def)

lemma require_Inl_iff [res_simps]: "require c e = Inl e' \<longleftrightarrow> \<not> c \<and> e' = e"
  by (auto simp: require_def)

lemma require_True [simp]: "require True e = Inr ()"
  by (simp add: require_def)

lemma require_False [simp]: "require False e = Inl e"
  by (simp add: require_def)

lemma rbind_require: "rbind (require c e) f = (if c then f () else Inl e)"
  by (simp add: require_def)

lemma or_raise_Some [simp]: "or_raise (Some x) e = Inr x"
  by (simp add: or_raise_def)

lemma or_raise_None [simp]: "or_raise None e = Inl e"
  by (simp add: or_raise_def)

lemma or_raise_Inr_iff [res_simps]: "or_raise m e = Inr x \<longleftrightarrow> m = Some x"
  by (cases m) auto

lemma or_raise_Inl_iff [res_simps]: "or_raise m e = Inl e' \<longleftrightarrow> m = None \<and> e' = e"
  by (cases m) auto

lemma fold_res_cong [fundef_cong]:
  assumes "s = s'" and "xs = ys" and "\<And>t x. x \<in> set ys \<Longrightarrow> f t x = g t x"
  shows "fold_res f s xs = fold_res g s' ys"
  using assms(3) unfolding assms(1,2) by (induction ys arbitrary: s') (auto intro!: rbind_cong)

lemma fold_res_inv:
  assumes "fold_res f s xs = Inr t" and "I s"
    and "\<And>s s' x. x \<in> set xs \<Longrightarrow> I s \<Longrightarrow> f s x = Inr s' \<Longrightarrow> I s'"
  shows "I t"
  using assms by (induction xs arbitrary: s) (auto simp: rbind_Inr_iff)

lemma fold_res_append: "fold_res f s (xs @ ys) = rbind (fold_res f s xs) (\<lambda>s'. fold_res f s' ys)"
  by (induction xs arbitrary: s) (auto simp: rbind_assoc)

lemma traverse_Inr_iff:
  "traverse f xs = Inr ys \<longleftrightarrow> list_all2 (\<lambda>x y. f x = Inr y) xs ys"
  by (induction xs arbitrary: ys) (auto simp: res_simps list_all2_Cons1)

lemma traverse_Inr_map: "(\<And>x. x \<in> set xs \<Longrightarrow> f x = Inr (g x)) \<Longrightarrow> traverse f xs = Inr (map g xs)"
  by (induction xs) auto

lemma traverse_map: "traverse f (map g xs) = traverse (f \<circ> g) xs"
  by (induction xs) auto

lemma traverse_error_mem: "traverse f xs = Inl e \<Longrightarrow> \<exists>x \<in> set xs. f x = Inl e"
  by (induction xs) (auto simp: res_simps)

lemma traverse_InrI: "(\<And>x. x \<in> set xs \<Longrightarrow> \<exists>y. f x = Inr y) \<Longrightarrow> \<exists>ys. traverse f xs = Inr ys"
proof (induction xs)
  case Nil
  show ?case by simp
next
  case (Cons x xs)
  then obtain y ys where "f x = Inr y" "traverse f xs = Inr ys" by (metis list.set_intros)
  then show ?case by simp
qed

lemma traverse_Inr_memD: "traverse f xs = Inr ys \<Longrightarrow> x \<in> set xs \<Longrightarrow> \<exists>y \<in> set ys. f x = Inr y"
  by (induction xs arbitrary: ys) (auto simp: res_simps)

lemma traverse_Inr_imageD: "traverse f xs = Inr ys \<Longrightarrow> y \<in> set ys \<Longrightarrow> \<exists>x \<in> set xs. f x = Inr y"
  by (induction xs arbitrary: ys) (auto simp: res_simps)

lemma traverse_ok_iff: "(\<exists>ys. traverse f xs = Inr ys) \<longleftrightarrow> (\<forall>x \<in> set xs. \<exists>y. f x = Inr y)"
  by (induction xs) (auto simp: res_simps)

lemma traverse_length: "traverse f xs = Inr ys \<Longrightarrow> length ys = length xs"
  by (auto simp: traverse_Inr_iff dest: list_all2_lengthD)

section \<open>Python dictionaries in insertion order\<close>

text \<open>
  A dictionary is an association list with distinct keys in insertion order: \<open>d.get(k)\<close> is
  \<^const>\<open>map_of\<close>, \<open>d[k] = v\<close> is \<^const>\<open>AList.update\<close> (in place when the key
  exists, at the end otherwise). \<open>dict_of\<close> is a dictionary built by successive stores and
  \<open>dict_append\<close> is \<open>d.setdefault(k, []).append(x)\<close>.
\<close>

definition dict_of :: "('k \<times> 'v) list \<Rightarrow> ('k \<times> 'v) list" where
  "dict_of kvs = foldl (\<lambda>d (k, v). AList.update k v d) [] kvs"

definition dict_append :: "'k \<Rightarrow> 'v \<Rightarrow> ('k \<times> 'v list) list \<Rightarrow> ('k \<times> 'v list) list" where
  "dict_append k x d =
     AList.update k ((case map_of d k of None \<Rightarrow> [] | Some xs \<Rightarrow> xs) @ [x]) d"

definition dict_list :: "('k \<times> 'v list) list \<Rightarrow> 'k \<Rightarrow> 'v list" where
  "dict_list d k = (case map_of d k of None \<Rightarrow> [] | Some xs \<Rightarrow> xs)"

definition group_by :: "('a \<Rightarrow> 'k) \<Rightarrow> 'a list \<Rightarrow> ('k \<times> 'a list) list" where
  "group_by f xs = foldl (\<lambda>d x. dict_append (f x) x d) [] xs"

lemma map_of_foldl_update:
  "map_of (foldl (\<lambda>d (k, v). AList.update k v d) d0 kvs) = map_of d0 ++ map_of (rev kvs)"
  by (induction kvs arbitrary: d0) (auto simp: update_conv' map_add_def fun_eq_iff split: option.splits)

lemma map_of_dict_of: "map_of (dict_of kvs) = map_of (rev kvs)"
  by (simp add: dict_of_def map_of_foldl_update)

lemma distinct_keys_foldl_update:
  "distinct (map fst d0) \<Longrightarrow>
   distinct (map fst (foldl (\<lambda>d (k, v). AList.update k v d) d0 kvs))"
  by (induction kvs arbitrary: d0) (auto simp: distinct_update)

lemma distinct_keys_dict_of [simp]: "distinct (map fst (dict_of kvs))"
  by (simp add: dict_of_def distinct_keys_foldl_update)

lemma update_new: "k \<notin> fst ` set d \<Longrightarrow> AList.update k v d = d @ [(k, v)]"
  by (induction d) auto

lemma dict_of_foldl_distinct:
  "distinct (map fst (d0 @ kvs)) \<Longrightarrow>
   foldl (\<lambda>d (k, v). AList.update k v d) d0 kvs = d0 @ kvs"
proof (induction kvs arbitrary: d0)
  case Nil
  show ?case by simp
next
  case (Cons p kvs)
  obtain k v where p: "p = (k, v)" by fastforce
  have "k \<notin> fst ` set d0" using Cons.prems p by auto
  then have "AList.update k v d0 = d0 @ [(k, v)]" by (rule update_new)
  moreover have "distinct (map fst ((d0 @ [(k, v)]) @ kvs))" using Cons.prems p by simp
  ultimately show ?case using Cons.IH [of "d0 @ [(k, v)]"] p by simp
qed

lemma dict_of_distinct: "distinct (map fst kvs) \<Longrightarrow> dict_of kvs = kvs"
  by (simp add: dict_of_def dict_of_foldl_distinct)

lemma set_dict_of: "set (dict_of kvs) \<subseteq> set kvs"
proof
  fix p assume "p \<in> set (dict_of kvs)"
  then have "map_of (dict_of kvs) (fst p) = Some (snd p)" by (simp add: map_of_is_SomeI)
  then show "p \<in> set kvs" by (auto simp: map_of_dict_of dest!: map_of_SomeD)
qed

lemma dict_of_map_fst:
  "distinct (map f xs) \<Longrightarrow> dict_of (map (\<lambda>x. (f x, x)) xs) = map (\<lambda>x. (f x, x)) xs"
  by (rule dict_of_distinct) (simp add: o_def)

lemma dict_list_append:
  "dict_list (dict_append k x d) k' = dict_list d k' @ (if k = k' then [x] else [])"
  by (simp add: dict_list_def dict_append_def update_conv' split: option.splits)

lemma dict_list_group_foldl:
  "dict_list (foldl (\<lambda>d x. dict_append (f x) x d) d0 xs) k =
     dict_list d0 k @ filter (\<lambda>x. f x = k) xs"
  by (induction xs arbitrary: d0) (auto simp: dict_list_append)

lemma dict_list_group_by: "dict_list (group_by f xs) k = filter (\<lambda>x. f x = k) xs"
  using dict_list_group_foldl [of f "[]" xs k] by (simp add: group_by_def dict_list_def [of "[]"])

lemma dom_group_foldl:
  "fst ` set (foldl (\<lambda>d x. dict_append (f x) x d) d0 xs) = fst ` set d0 \<union> f ` set xs"
  by (induction xs arbitrary: d0) (auto simp: dict_append_def dom_update)

lemma dom_group_by: "fst ` set (group_by f xs) = f ` set xs"
  by (simp add: group_by_def dom_group_foldl)

lemma distinct_group_foldl:
  "distinct (map fst d0) \<Longrightarrow> distinct (map fst (foldl (\<lambda>d x. dict_append (f x) x d) d0 xs))"
  by (induction xs arbitrary: d0) (auto simp: dict_append_def distinct_update)

lemma distinct_group_by [simp]: "distinct (map fst (group_by f xs))"
  by (simp add: group_by_def distinct_group_foldl)

lemma map_of_group_by:
  "map_of (group_by f xs) k =
     (if k \<in> f ` set xs then Some (filter (\<lambda>x. f x = k) xs) else None)"
proof (cases "map_of (group_by f xs) k")
  case None
  then have "k \<notin> f ` set xs" using dom_group_by [of f xs] by (auto simp: map_of_eq_None_iff)
  with None show ?thesis by simp
next
  case (Some ys)
  then have "k \<in> f ` set xs" using dom_group_by [of f xs] by (force dest: map_of_SomeD)
  with Some show ?thesis using dict_list_group_by [of f xs k] by (simp add: dict_list_def)
qed

section \<open>Lists\<close>

text \<open>\<open>for index, left in enumerate(xs): for right in xs[index + 1:]\<close>.\<close>

fun ordered_pairs :: "'a list \<Rightarrow> ('a \<times> 'a) list" where
  "ordered_pairs [] = []"
| "ordered_pairs (x # xs) = map (Pair x) xs @ ordered_pairs xs"

lemma ordered_pairs_nth:
  "(x, y) \<in> set (ordered_pairs xs) \<longleftrightarrow>
     (\<exists>i j. i < j \<and> j < length xs \<and> x = xs ! i \<and> y = xs ! j)"
proof (induction xs)
  case Nil
  show ?case by simp
next
  case (Cons a xs)
  have "(\<exists>i j. i < j \<and> j < length (a # xs) \<and> x = (a # xs) ! i \<and> y = (a # xs) ! j) \<longleftrightarrow>
      (x = a \<and> y \<in> set xs) \<or> (\<exists>i j. i < j \<and> j < length xs \<and> x = xs ! i \<and> y = xs ! j)"
    (is "?L \<longleftrightarrow> ?R")
  proof
    assume ?L
    then obtain i j where ij: "i < j" "j < length (a # xs)" "x = (a # xs) ! i" "y = (a # xs) ! j"
      by blast
    then obtain j' where j: "j = Suc j'" by (cases j) auto
    show ?R
    proof (cases i)
      case 0
      then show ?thesis using ij j by auto
    next
      case (Suc i')
      then show ?thesis using ij j by auto
    qed
  next
    assume ?R
    then show ?L
    proof
      assume "x = a \<and> y \<in> set xs"
      then obtain j where "j < length xs" "y = xs ! j" "x = a" by (auto simp: in_set_conv_nth)
      then show ?L by (intro exI [of _ 0] exI [of _ "Suc j"]) simp
    next
      assume "\<exists>i j. i < j \<and> j < length xs \<and> x = xs ! i \<and> y = xs ! j"
      then obtain i j where "i < j" "j < length xs" "x = xs ! i" "y = xs ! j" by blast
      then show ?L by (intro exI [of _ "Suc i"] exI [of _ "Suc j"]) simp
    qed
  qed
  then show ?case using Cons.IH by auto
qed

lemma ordered_pairs_mem: "(x, y) \<in> set (ordered_pairs xs) \<Longrightarrow> x \<in> set xs \<and> y \<in> set xs"
  by (induction xs) auto

lemma ordered_pairs_total:
  "x \<in> set xs \<Longrightarrow> y \<in> set xs \<Longrightarrow> x \<noteq> y \<Longrightarrow>
   (x, y) \<in> set (ordered_pairs xs) \<or> (y, x) \<in> set (ordered_pairs xs)"
  by (induction xs) auto

lemma ordered_pairs_asym:
  "distinct xs \<Longrightarrow> (x, y) \<in> set (ordered_pairs xs) \<Longrightarrow> (y, x) \<notin> set (ordered_pairs xs)"
  by (induction xs) (auto dest: ordered_pairs_mem)

lemma ordered_pairs_irrefl: "distinct xs \<Longrightarrow> (x, x) \<notin> set (ordered_pairs xs)"
  by (induction xs) auto

lemma ordered_pairs_trans:
  "distinct xs \<Longrightarrow> (x, y) \<in> set (ordered_pairs xs) \<Longrightarrow> (y, z) \<in> set (ordered_pairs xs) \<Longrightarrow>
   (x, z) \<in> set (ordered_pairs xs)"
  by (induction xs) (auto dest: ordered_pairs_mem)

lemma ordered_pairs_sorted:
  "sorted_wrt r xs \<Longrightarrow> (x, y) \<in> set (ordered_pairs xs) \<Longrightarrow> r x y"
  by (induction xs) auto

text \<open>\<open>itertools.product(*lists)\<close> is \<^const>\<open>product_lists\<close>: the last position varies fastest.\<close>

lemma product_lists_iff:
  "ys \<in> set (product_lists xss) \<longleftrightarrow> list_all2 (\<lambda>y xs. y \<in> set xs) ys xss"
  by (induction xss arbitrary: ys) (auto simp: list_all2_Cons2)

lemma length_product_lists: "length (product_lists xss) = prod_list (map length xss)"
  by (induction xss) (auto simp: length_concat o_def sum_list_triv)

end
