(* ===== verification/RelAlg.thy ===== *)
theory RelAlg
  imports Prelude
begin

text \<open>
  \<open>src/src/umcm/graph/relation.py\<close>: named finite relations over node identifiers, the relation
  algebra and transitive closure by depth-first search with an explicit stack. A frozenset of edges
  is a list of its members in the order in which Python would iterate over it; nothing is assumed
  about that order. The lemmas: each operation computes the set it names, and the closure is the
  transitive closure. The cycle search of the same file is in \<open>CycleSearch\<close>.
\<close>

section \<open>Relations\<close>

type_synonym edge = "string \<times> string"

record relation =
  rel_name :: string
  rel_edges :: "edge list"

definition wf_relation :: "relation \<Rightarrow> bool" where
  "wf_relation r \<longleftrightarrow> rel_name r \<noteq> [] \<and> distinct (rel_edges r) \<and>
     list_all (\<lambda>(a, b). a \<noteq> [] \<and> b \<noteq> []) (rel_edges r)"

definition from_edges :: "string \<Rightarrow> edge list \<Rightarrow> relation res" where
  "from_edges name es =
     rbind (require (name \<noteq> []) GraphError) (\<lambda>_.
     rbind (require (list_all (\<lambda>(a, b). a \<noteq> [] \<and> b \<noteq> []) es) GraphError) (\<lambda>_.
       Inr \<lparr>rel_name = name, rel_edges = remdups es\<rparr>))"

definition contains :: "relation \<Rightarrow> string \<Rightarrow> string \<Rightarrow> bool" where
  "contains r a b \<longleftrightarrow> (a, b) \<in> set (rel_edges r)"

definition sorted_edges :: "relation \<Rightarrow> edge list" where
  "sorted_edges r = sort (rel_edges r)"

text \<open>\<open>name or default\<close>.\<close>

definition name_or :: "string option \<Rightarrow> string \<Rightarrow> string" where
  "name_or name d = (case name of None \<Rightarrow> d | Some n \<Rightarrow> if n = [] then d else n)"

definition inverse_rel :: "relation \<Rightarrow> string option \<Rightarrow> relation res" where
  "inverse_rel r name =
     from_edges (name_or name (rel_name r @ ''^-1'')) (map (\<lambda>(a, b). (b, a)) (rel_edges r))"

definition union_rel :: "relation \<Rightarrow> relation list \<Rightarrow> string option \<Rightarrow> relation res" where
  "union_rel r others name =
     from_edges (name_or name (rel_name r)) (rel_edges r @ concat (map rel_edges others))"

definition intersection_rel :: "relation \<Rightarrow> relation \<Rightarrow> string option \<Rightarrow> relation res" where
  "intersection_rel r s name =
     from_edges (name_or name (rel_name r)) (filter (\<lambda>e. e \<in> set (rel_edges s)) (rel_edges r))"

definition difference_rel :: "relation \<Rightarrow> relation \<Rightarrow> string option \<Rightarrow> relation res" where
  "difference_rel r s name =
     from_edges (name_or name (rel_name r)) (filter (\<lambda>e. e \<notin> set (rel_edges s)) (rel_edges r))"

definition successors :: "edge list \<Rightarrow> string \<Rightarrow> string list" where
  "successors es a = remdups (map snd (filter (\<lambda>e. fst e = a) es))"

definition compose_rel :: "relation \<Rightarrow> relation \<Rightarrow> string option \<Rightarrow> relation res" where
  "compose_rel r s name =
     from_edges (name_or name (rel_name r @ '';'' @ rel_name s))
       (concat (map (\<lambda>(a, m). map (Pair a) (successors (rel_edges s) m)) (rel_edges r)))"

definition edge_nodes :: "edge list \<Rightarrow> string list" where
  "edge_nodes es = remdups (concat (map (\<lambda>(a, b). [a, b]) es))"

lemma set_successors [simp]: "set (successors es a) = {b. (a, b) \<in> set es}"
  by (force simp: successors_def)

lemma set_edge_nodes: "set (edge_nodes es) = fst ` set es \<union> snd ` set es"
  by (force simp: edge_nodes_def)

text \<open>
  The inner loop of \<open>transitive_closure\<close>. The head of the list is the top of the stack; a popped
  node that was not seen pushes its successors.
\<close>

function reach_loop :: "edge list \<Rightarrow> string list \<Rightarrow> string list \<Rightarrow> string list" where
  "reach_loop es [] seen = seen"
| "reach_loop es (t # stack) seen =
     (if t \<in> set seen then reach_loop es stack seen
      else reach_loop es (rev (successors es t) @ stack) (t # seen))"
  by pat_completeness auto

termination
proof (relation "measures
    [\<lambda>(es, stack, seen). card ((set (edge_nodes es) \<union> set stack) - set seen),
     \<lambda>(es, stack, seen). length stack]")
  fix es t stack and seen :: "string list"
  assume t: "t \<in> set seen"
  have "set (edge_nodes es) \<union> set stack - set seen = set (edge_nodes es) \<union> set (t # stack) - set seen"
    using t by auto
  then show "((es, stack, seen), es, t # stack, seen) \<in> measures
    [\<lambda>(es, stack, seen). card ((set (edge_nodes es) \<union> set stack) - set seen),
     \<lambda>(es, stack, seen). length stack]" by simp
next
  fix es t stack and seen :: "string list"
  assume t: "t \<notin> set seen"
  have "set (edge_nodes es) \<union> set (rev (successors es t) @ stack) - set (t # seen)
      \<subset> set (edge_nodes es) \<union> set (t # stack) - set seen"
    using t by (force simp: set_edge_nodes)
  then have "card (set (edge_nodes es) \<union> set (rev (successors es t) @ stack) - set (t # seen))
      < card (set (edge_nodes es) \<union> set (t # stack) - set seen)"
    by (intro psubset_card_mono) auto
  then show "((es, rev (successors es t) @ stack, t # seen), es, t # stack, seen) \<in> measures
    [\<lambda>(es, stack, seen). card ((set (edge_nodes es) \<union> set stack) - set seen),
     \<lambda>(es, stack, seen). length stack]" by simp
qed simp

definition closure_edges :: "edge list \<Rightarrow> string list \<Rightarrow> edge list" where
  "closure_edges es nodes =
     concat (map (\<lambda>a. map (Pair a) (reach_loop es (rev (successors es a)) []))
       (sort (remdups (nodes @ edge_nodes es))))"

definition transitive_closure :: "relation \<Rightarrow> string list \<Rightarrow> string option \<Rightarrow> relation res" where
  "transitive_closure r nodes name =
     from_edges (name_or name (rel_name r @ ''+'')) (closure_edges (rel_edges r) nodes)"

definition union_relations :: "string \<Rightarrow> relation list \<Rightarrow> relation res" where
  "union_relations name rs = from_edges name (concat (map rel_edges rs))"

text \<open>\<open>relation_map\<close> rejects a repeated name.\<close>

definition relation_map :: "relation list \<Rightarrow> (string \<times> relation) list res" where
  "relation_map rs =
     foldl (\<lambda>acc r. rbind acc (\<lambda>d.
         if rel_name r \<in> fst ` set d then Inl GraphError else Inr (d @ [(rel_name r, r)])))
       (Inr []) rs"

section \<open>The algebra computes the sets it names\<close>

lemma from_edges_Inr_iff [res_simps]:
  "from_edges n es = Inr r \<longleftrightarrow> n \<noteq> [] \<and> list_all (\<lambda>(a, b). a \<noteq> [] \<and> b \<noteq> []) es \<and>
     r = \<lparr>rel_name = n, rel_edges = remdups es\<rparr>"
  by (auto simp: from_edges_def res_simps)

lemma from_edges_Inl_iff:
  "from_edges n es = Inl e \<longleftrightarrow> (n = [] \<or> \<not> list_all (\<lambda>(a, b). a \<noteq> [] \<and> b \<noteq> []) es) \<and> e = GraphError"
  by (auto simp: from_edges_def res_simps)

lemma from_edges_wf: "from_edges n es = Inr r \<Longrightarrow> wf_relation r"
  by (auto simp: from_edges_Inr_iff wf_relation_def list_all_iff)

lemma from_edges_set: "from_edges n es = Inr r \<Longrightarrow> set (rel_edges r) = set es \<and> rel_name r = n"
  by (auto simp: from_edges_Inr_iff)

definition edges_ok :: "edge list \<Rightarrow> bool" where
  "edges_ok es \<longleftrightarrow> list_all (\<lambda>(a, b). a \<noteq> [] \<and> b \<noteq> []) es"

lemma edges_ok_iff: "edges_ok es \<longleftrightarrow> (\<forall>(a, b) \<in> set es. a \<noteq> [] \<and> b \<noteq> [])"
  by (simp add: edges_ok_def list_all_iff)

lemma from_edges_ok:
  "n \<noteq> [] \<Longrightarrow> edges_ok es \<Longrightarrow> from_edges n es = Inr \<lparr>rel_name = n, rel_edges = remdups es\<rparr>"
  by (simp add: from_edges_def edges_ok_def)

lemma wf_relation_iff:
  "wf_relation r \<longleftrightarrow> rel_name r \<noteq> [] \<and> distinct (rel_edges r) \<and> edges_ok (rel_edges r)"
  by (simp add: wf_relation_def edges_ok_def)

lemma name_or_nonempty: "d \<noteq> [] \<Longrightarrow> name_or n d \<noteq> []"
  by (simp add: name_or_def split: option.split)

definition yields :: "relation res \<Rightarrow> string \<Rightarrow> edge set \<Rightarrow> bool" where
  "yields m n E \<longleftrightarrow> (\<exists>r. m = Inr r \<and> wf_relation r \<and> rel_name r = n \<and> set (rel_edges r) = E)"

lemma from_edges_yields: "n \<noteq> [] \<Longrightarrow> edges_ok es \<Longrightarrow> E = set es \<Longrightarrow> yields (from_edges n es) n E"
  using from_edges_wf [of n es] by (simp add: yields_def from_edges_ok)

lemma inverse_rel_edges:
  "wf_relation r \<Longrightarrow> yields (inverse_rel r n) (name_or n (rel_name r @ ''^-1'')) ((set (rel_edges r))\<inverse>)"
  unfolding inverse_rel_def
  by (intro from_edges_yields) (auto simp: wf_relation_iff edges_ok_iff name_or_nonempty image_iff)

lemma union_rel_edges:
  "wf_relation r \<Longrightarrow> \<forall>s \<in> set others. wf_relation s \<Longrightarrow>
   yields (union_rel r others n) (name_or n (rel_name r)) (set (rel_edges r) \<union> (\<Union>s \<in> set others. set (rel_edges s)))"
  unfolding union_rel_def
  by (intro from_edges_yields) (fastforce simp: wf_relation_iff edges_ok_iff name_or_nonempty)+

lemma intersection_rel_edges:
  "wf_relation r \<Longrightarrow>
   yields (intersection_rel r s n) (name_or n (rel_name r)) (set (rel_edges r) \<inter> set (rel_edges s))"
  unfolding intersection_rel_def
  by (intro from_edges_yields) (auto simp: wf_relation_iff edges_ok_iff name_or_nonempty)

lemma difference_rel_edges:
  "wf_relation r \<Longrightarrow>
   yields (difference_rel r s n) (name_or n (rel_name r)) (set (rel_edges r) - set (rel_edges s))"
  unfolding difference_rel_def
  by (intro from_edges_yields) (auto simp: wf_relation_iff edges_ok_iff name_or_nonempty)

lemma compose_rel_edges:
  "wf_relation r \<Longrightarrow> wf_relation s \<Longrightarrow>
   yields (compose_rel r s n) (name_or n (rel_name r @ '';'' @ rel_name s))
     (set (rel_edges r) O set (rel_edges s))"
  unfolding compose_rel_def
  by (intro from_edges_yields) (fastforce simp: wf_relation_iff edges_ok_iff name_or_nonempty)+

lemma union_relations_edges:
  "n \<noteq> [] \<Longrightarrow> \<forall>r \<in> set rs. wf_relation r \<Longrightarrow>
   yields (union_relations n rs) n (\<Union>r \<in> set rs. set (rel_edges r))"
  unfolding union_relations_def
  by (intro from_edges_yields) (fastforce simp: wf_relation_iff edges_ok_iff)+

section \<open>The closure is the transitive closure\<close>

lemma seen_closed:
  assumes "\<forall>x \<in> S. \<forall>y. (x, y) \<in> E \<longrightarrow> y \<in> S \<union> T" and "(x, y) \<in> E\<^sup>*" and "x \<in> S"
  shows "y \<in> S \<union> E\<^sup>* `` T"
  using assms(2)
proof induction
  case base
  show ?case using assms(3) by simp
next
  case (step y z)
  then show ?case using assms(1) by (auto intro: rtrancl_into_rtrancl)
qed

lemma reach_loop_set:
  "\<forall>x \<in> set seen. \<forall>y. (x, y) \<in> set es \<longrightarrow> y \<in> set seen \<union> set stack \<Longrightarrow>
   set (reach_loop es stack seen) = set seen \<union> (set es)\<^sup>* `` set stack"
proof (induction es stack seen rule: reach_loop.induct)
  case (1 es seen)
  show ?case by simp
next
  case (2 es t stack seen)
  let ?E = "set es"
  show ?case
  proof (cases "t \<in> set seen")
    case True
    have "\<forall>x \<in> set seen. \<forall>y. (x, y) \<in> ?E \<longrightarrow> y \<in> set seen \<union> set stack"
      using "2.prems" True by auto
    moreover have "?E\<^sup>* `` {t} \<subseteq> set seen \<union> ?E\<^sup>* `` set stack"
      using seen_closed [OF calculation _ True] by blast
    ultimately show ?thesis using "2.IH"(1) True by auto
  next
    case False
    have "\<forall>x \<in> set (t # seen). \<forall>y. (x, y) \<in> ?E \<longrightarrow>
        y \<in> set (t # seen) \<union> set (rev (successors es t) @ stack)"
      using "2.prems" by auto
    then have "set (reach_loop es (t # stack) seen) =
        set (t # seen) \<union> ?E\<^sup>* `` set (rev (successors es t) @ stack)"
      using "2.IH"(2) False by simp
    moreover have "?E\<^sup>* `` {t} = {t} \<union> ?E\<^sup>* `` (?E `` {t})"
      by (auto elim: converse_rtranclE intro: converse_rtrancl_into_rtrancl)
    ultimately show ?thesis by auto
  qed
qed

lemma reach_loop_trancl:
  "set (reach_loop es (rev (successors es a)) []) = {b. (a, b) \<in> (set es)\<^sup>+}"
  using reach_loop_set [of "[]" es "rev (successors es a)"]
  by (auto simp: trancl_unfold_left)

lemma closure_edges_set: "set (closure_edges es nodes) = (set es)\<^sup>+"
proof -
  have "a \<in> set (edge_nodes es)" if "(a, b) \<in> (set es)\<^sup>+" for a b
    using that by (cases rule: converse_tranclE) (force simp: set_edge_nodes)+
  then show ?thesis by (auto simp: closure_edges_def reach_loop_trancl image_iff)
qed

lemma transitive_closure_edges:
  assumes "wf_relation r"
  shows "yields (transitive_closure r nodes n) (name_or n (rel_name r @ ''+'')) ((set (rel_edges r))\<^sup>+)"
  unfolding transitive_closure_def
proof (rule from_edges_yields)
  have "a \<noteq> [] \<and> b \<noteq> []" if "(a, b) \<in> (set (rel_edges r))\<^sup>+" for a b
  proof -
    have "(a, b) \<in> set (rel_edges r) O (set (rel_edges r))\<^sup>* \<inter> (set (rel_edges r))\<^sup>* O set (rel_edges r)"
      using that by (metis IntI trancl_unfold_left trancl_unfold_right)
    then show ?thesis using assms by (auto simp: wf_relation_iff edges_ok_iff)
  qed
  then show "edges_ok (closure_edges (rel_edges r) nodes)"
    by (auto simp: edges_ok_iff closure_edges_set)
qed (simp_all add: closure_edges_set name_or_nonempty)

end
