(* ===== verification/PyValues.thy ===== *)
theory PyValues
  imports Prelude
begin

text \<open>
  The Python values the program handles: scalars, sorts (\<open>ir/sort.py\<close>), expression nodes
  (\<open>ir/expression.py\<close>) and, as \<open>pyval\<close>, everything a field, an annotation or a parsed
  YAML/JSON document can hold. The four types are declared together because a \<open>Literal\<close>
  holds a scalar and a value may be an expression. Then the Python operations the program applies
  to arbitrary values: \<open>==\<close>, truthiness, \<open>str\<close>, \<open>repr\<close>, \<open>int\<close>, hashability and the
  comparison operators. Floats do not occur: the only place the code mentions them is the set of
  types a domain sort accepts.
\<close>

section \<open>Data\<close>

datatype scalar = SNone | SBool bool | SInt int | SStr string

record pysort =
  sort_name :: string
  sort_width :: "int option"
  sort_signed :: "bool option"

datatype expr =
    Literal scalar pysort
  | Symbol string pysort
  | EventField string string pysort
  | Unary string expr
  | Binary string expr expr
  | Nary string "expr list"
  | Ite expr expr expr
  | Call string "expr list" pysort

datatype pyval =
    VScalar scalar
  | VList "pyval list"
  | VMap "(string \<times> pyval) list"
  | VExpr expr

abbreviation VNone :: pyval where "VNone \<equiv> VScalar SNone"
abbreviation VBool :: "bool \<Rightarrow> pyval" where "VBool b \<equiv> VScalar (SBool b)"
abbreviation VInt :: "int \<Rightarrow> pyval" where "VInt i \<equiv> VScalar (SInt i)"
abbreviation VStr :: "string \<Rightarrow> pyval" where "VStr s \<equiv> VScalar (SStr s)"

lemma size_pairs_norm:
  "size_list (size_prod (\<lambda>x. 0) size) kvs = size_list (\<lambda>x. Suc (size (snd x))) kvs"
  by (induction kvs) auto

lemma size_map_of:
  "map_of kvs k = Some v \<Longrightarrow> size v < Suc (size_list (\<lambda>x. Suc (size (snd x))) kvs)"
  by (induction kvs) (auto split: if_splits)

section \<open>Equality, truth and numbers\<close>

text \<open>
  Python's \<open>==\<close> identifies \<open>True\<close> with \<open>1\<close> and \<open>False\<close> with \<open>0\<close>, ignores the
  order of dictionary keys, and compares dataclasses field by field. \<open>canon\<close> is a normal
  form; two values are equal iff their normal forms are the same.
\<close>

fun canon_scalar :: "scalar \<Rightarrow> scalar" where
  "canon_scalar (SBool b) = SInt (if b then 1 else 0)"
| "canon_scalar s = s"

fun canon_expr :: "expr \<Rightarrow> expr" where
  "canon_expr (Literal v s) = Literal (canon_scalar v) s"
| "canon_expr (Symbol n s) = Symbol n s"
| "canon_expr (EventField e f s) = EventField e f s"
| "canon_expr (Unary op a) = Unary op (canon_expr a)"
| "canon_expr (Binary op a b) = Binary op (canon_expr a) (canon_expr b)"
| "canon_expr (Nary op as) = Nary op (map canon_expr as)"
| "canon_expr (Ite c a b) = Ite (canon_expr c) (canon_expr a) (canon_expr b)"
| "canon_expr (Call f as s) = Call f (map canon_expr as) s"

fun canon :: "pyval \<Rightarrow> pyval" where
  "canon (VScalar s) = VScalar (canon_scalar s)"
| "canon (VList vs) = VList (map canon vs)"
| "canon (VMap kvs) = VMap (sort_key fst (map (\<lambda>(k, v). (k, canon v)) kvs))"
| "canon (VExpr e) = VExpr (canon_expr e)"

definition py_eq :: "pyval \<Rightarrow> pyval \<Rightarrow> bool" where
  "py_eq a b \<longleftrightarrow> canon a = canon b"

lemma py_eq_refl [simp]: "py_eq a a"
  by (simp add: py_eq_def)

lemma py_eq_sym: "py_eq a b \<longleftrightarrow> py_eq b a"
  by (auto simp: py_eq_def)

lemma py_eq_trans: "py_eq a b \<Longrightarrow> py_eq b c \<Longrightarrow> py_eq a c"
  by (simp add: py_eq_def)

lemma py_eq_VBool [simp]: "py_eq (VBool a) (VBool b) \<longleftrightarrow> a = b"
  by (simp add: py_eq_def)

lemma py_eq_VInt [simp]: "py_eq (VInt a) (VInt b) \<longleftrightarrow> a = b"
  by (simp add: py_eq_def)

lemma py_eq_VStr [simp]: "py_eq (VStr a) (VStr b) \<longleftrightarrow> a = b"
  by (simp add: py_eq_def)

lemma py_eq_bool_int: "py_eq (VBool True) (VInt 1)"
  by (simp add: py_eq_def)

text \<open>A Python set of hashable values, as the list of its distinct members.\<close>

fun py_mem :: "pyval \<Rightarrow> pyval list \<Rightarrow> bool" where
  "py_mem v [] = False"
| "py_mem v (x # xs) = (py_eq v x \<or> py_mem v xs)"

fun py_set :: "pyval list \<Rightarrow> pyval list" where
  "py_set [] = []"
| "py_set (x # xs) = x # filter (\<lambda>y. \<not> py_eq x y) (py_set xs)"

lemma py_mem_iff: "py_mem v xs \<longleftrightarrow> (\<exists>x \<in> set xs. py_eq v x)"
  by (induction xs) auto

fun truthy :: "pyval \<Rightarrow> bool" where
  "truthy VNone = False"
| "truthy (VBool b) = b"
| "truthy (VInt i) = (i \<noteq> 0)"
| "truthy (VStr s) = (s \<noteq> [])"
| "truthy (VList vs) = (vs \<noteq> [])"
| "truthy (VMap kvs) = (kvs \<noteq> [])"
| "truthy (VExpr e) = True"

text \<open>\<open>isinstance(v, int)\<close> holds for booleans too; \<open>as_int\<close> is the numeric value.\<close>

fun as_int :: "pyval \<Rightarrow> int option" where
  "as_int (VInt i) = Some i"
| "as_int (VBool b) = Some (if b then 1 else 0)"
| "as_int _ = None"

definition is_pyint :: "pyval \<Rightarrow> bool" where
  "is_pyint v \<longleftrightarrow> as_int v \<noteq> None"

text \<open>\<open>isinstance(v, int) and not isinstance(v, bool)\<close>.\<close>

fun strict_int :: "pyval \<Rightarrow> int option" where
  "strict_int (VInt i) = Some i"
| "strict_int _ = None"

fun hashable :: "pyval \<Rightarrow> bool" where
  "hashable (VList _) = False"
| "hashable (VMap _) = False"
| "hashable _ = True"

text \<open>
  \<open><\<close>, \<open><=\<close>, \<open>>\<close>, \<open>>=\<close>: numbers with numbers, strings with strings, lists by the
  first difference; everything else raises \<open>TypeError\<close>. Lists are not ordered by the program
  and count as unmodelled.
\<close>

definition py_order :: "(int \<Rightarrow> int \<Rightarrow> bool) \<Rightarrow> (string \<Rightarrow> string \<Rightarrow> bool) \<Rightarrow>
    pyval \<Rightarrow> pyval \<Rightarrow> bool res" where
  "py_order ri rs a b =
     (case (as_int a, as_int b) of
        (Some i, Some j) \<Rightarrow> Inr (ri i j)
      | _ \<Rightarrow> (case (a, b) of
                (VStr s, VStr t) \<Rightarrow> Inr (rs s t)
              | (VList _, VList _) \<Rightarrow> Inl Unmodelled
              | _ \<Rightarrow> Inl PyTypeError))"

definition py_lt :: "pyval \<Rightarrow> pyval \<Rightarrow> bool res" where "py_lt = py_order (<) (<)"
definition py_le :: "pyval \<Rightarrow> pyval \<Rightarrow> bool res" where "py_le = py_order (\<le>) (\<le>)"
definition py_gt :: "pyval \<Rightarrow> pyval \<Rightarrow> bool res" where "py_gt = py_order (>) (>)"
definition py_ge :: "pyval \<Rightarrow> pyval \<Rightarrow> bool res" where "py_ge = py_order (\<ge>) (\<ge>)"

lemmas py_order_defs = py_lt_def py_le_def py_gt_def py_ge_def

section \<open>str, repr and int\<close>

fun dec_nat :: "nat \<Rightarrow> string" where
  "dec_nat n = (if n < 10 then [char_of (48 + n)] else dec_nat (n div 10) @ [char_of (48 + n mod 10)])"

declare dec_nat.simps [simp del]

definition dec_int :: "int \<Rightarrow> string" where
  "dec_int i = (if i < 0 then CHR ''-'' # dec_nat (nat (- i)) else dec_nat (nat i))"

definition hex_digit :: "nat \<Rightarrow> char" where
  "hex_digit n = (if n < 10 then char_of (48 + n) else char_of (87 + n))"

text \<open>\<open>repr\<close> of a string: single quotes unless it holds a single and no double quote.\<close>

definition repr_char :: "char \<Rightarrow> char \<Rightarrow> string" where
  "repr_char q c =
     (let n = (of_char c :: nat) in
      if c = q \<or> c = CHR 0x5C then [CHR 0x5C, c]
      else if n = 9 then [CHR 0x5C, CHR ''t'']
      else if n = 10 then [CHR 0x5C, CHR ''n'']
      else if n = 13 then [CHR 0x5C, CHR ''r'']
      else if n < 32 \<or> (127 \<le> n \<and> n \<le> 160) \<or> n = 173
        then [CHR 0x5C, CHR ''x'', hex_digit (n div 16), hex_digit (n mod 16)]
      else [c])"

definition py_repr_str :: "string \<Rightarrow> string" where
  "py_repr_str s =
     (let q = (if CHR 0x27 \<in> set s \<and> CHR 0x22 \<notin> set s then CHR 0x22 else CHR 0x27)
      in [q] @ concat (map (repr_char q) s) @ [q])"

fun join :: "string \<Rightarrow> string list \<Rightarrow> string" where
  "join sep [] = []"
| "join sep [s] = s"
| "join sep (s # ss) = s @ sep @ join sep ss"

fun repr_scalar :: "scalar \<Rightarrow> string" where
  "repr_scalar SNone = ''None''"
| "repr_scalar (SBool b) = (if b then ''True'' else ''False'')"
| "repr_scalar (SInt i) = dec_int i"
| "repr_scalar (SStr s) = py_repr_str s"

definition repr_sort :: "pysort \<Rightarrow> string" where
  "repr_sort s = ''Sort(name='' @ py_repr_str (sort_name s)
     @ '', width='' @ (case sort_width s of None \<Rightarrow> ''None'' | Some w \<Rightarrow> dec_int w)
     @ '', signed='' @ (case sort_signed s of None \<Rightarrow> ''None'' | Some b \<Rightarrow> repr_scalar (SBool b))
     @ '')''"

definition repr_tuple :: "string list \<Rightarrow> string" where
  "repr_tuple ss = (case ss of [s] \<Rightarrow> ''('' @ s @ '',)'' | _ \<Rightarrow> ''('' @ join '', '' ss @ '')'')"

fun repr_expr :: "expr \<Rightarrow> string" where
  "repr_expr (Literal v s) =
     ''Literal(value='' @ repr_scalar v @ '', literal_sort='' @ repr_sort s @ '')''"
| "repr_expr (Symbol n s) =
     ''Symbol(name='' @ py_repr_str n @ '', symbol_sort='' @ repr_sort s @ '')''"
| "repr_expr (EventField e f s) =
     ''EventField(event_id='' @ py_repr_str e @ '', field='' @ py_repr_str f
       @ '', field_sort='' @ repr_sort s @ '')''"
| "repr_expr (Unary op a) =
     ''Unary(op='' @ py_repr_str op @ '', operand='' @ repr_expr a @ '')''"
| "repr_expr (Binary op a b) =
     ''Binary(op='' @ py_repr_str op @ '', left='' @ repr_expr a @ '', right='' @ repr_expr b @ '')''"
| "repr_expr (Nary op as) =
     ''Nary(op='' @ py_repr_str op @ '', operands='' @ repr_tuple (map repr_expr as) @ '')''"
| "repr_expr (Ite c a b) =
     ''Ite(condition='' @ repr_expr c @ '', then_expr='' @ repr_expr a
       @ '', else_expr='' @ repr_expr b @ '')''"
| "repr_expr (Call f as s) =
     ''Call(function='' @ py_repr_str f @ '', arguments='' @ repr_tuple (map repr_expr as)
       @ '', return_sort='' @ repr_sort s @ '')''"

fun py_repr :: "pyval \<Rightarrow> string" where
  "py_repr (VScalar s) = repr_scalar s"
| "py_repr (VList vs) = ''['' @ join '', '' (map py_repr vs) @ '']''"
| "py_repr (VMap kvs) =
     ''{'' @ join '', '' (map (\<lambda>(k, v). py_repr_str k @ '': '' @ py_repr v) kvs) @ ''}''"
| "py_repr (VExpr e) = repr_expr e"

definition py_str :: "pyval \<Rightarrow> string" where
  "py_str v = (case v of VStr s \<Rightarrow> s | _ \<Rightarrow> py_repr v)"

lemma py_str_VStr [simp]: "py_str (VStr s) = s"
  by (simp add: py_str_def)

text \<open>
  \<open>int(v)\<close>: a number, or a string with an optional sign, decimal digits and single underscores
  between them, surrounded by blanks. Other strings raise \<open>ValueError\<close>, other values
  \<open>TypeError\<close>.
\<close>

definition is_digit :: "char \<Rightarrow> bool" where
  "is_digit c \<longleftrightarrow> CHR ''0'' \<le> c \<and> c \<le> CHR ''9''"

definition is_blank :: "char \<Rightarrow> bool" where
  "is_blank c \<longleftrightarrow> of_char c \<in> {9, 10, 11, 12, 13, 28, 29, 30, 31, 32, 133, 160 :: nat}"

fun parse_digits :: "nat \<Rightarrow> string \<Rightarrow> nat option" where
  "parse_digits acc [] = Some acc"
| "parse_digits acc (c # cs) =
     (if is_digit c then parse_digits (10 * acc + (of_char c - 48)) cs
      else if c = CHR ''_'' \<and> cs \<noteq> [] \<and> is_digit (hd cs) then parse_digits acc cs
      else None)"

definition strip :: "string \<Rightarrow> string" where
  "strip s = rev (dropWhile is_blank (rev (dropWhile is_blank s)))"

definition parse_int :: "string \<Rightarrow> int option" where
  "parse_int s0 =
     (let s = strip s0;
          neg = (s \<noteq> [] \<and> hd s = CHR ''-'');
          body = (if s \<noteq> [] \<and> (hd s = CHR ''-'' \<or> hd s = CHR ''+'') then tl s else s)
      in if body \<noteq> [] \<and> is_digit (hd body)
         then map_option (\<lambda>n. if neg then - int n else int n) (parse_digits 0 body)
         else None)"

definition py_int :: "pyval \<Rightarrow> int res" where
  "py_int v =
     (case as_int v of
        Some i \<Rightarrow> Inr i
      | None \<Rightarrow> (case v of VStr s \<Rightarrow> or_raise (parse_int s) PyValueError | _ \<Rightarrow> Inl PyTypeError))"

lemma py_int_VInt [simp]: "py_int (VInt i) = Inr i"
  by (simp add: py_int_def)

text \<open>\<open>.lower()\<close> on the characters modelled.\<close>

definition lower_char :: "char \<Rightarrow> char" where
  "lower_char c =
     (let n = (of_char c :: nat) in
      if (65 \<le> n \<and> n \<le> 90) \<or> (192 \<le> n \<and> n \<le> 222 \<and> n \<noteq> 215) then char_of (n + 32) else c)"

definition py_lower :: "string \<Rightarrow> string" where
  "py_lower s = map lower_char s"

text \<open>\<open>type(v).__name__\<close>.\<close>

fun type_name :: "pyval \<Rightarrow> string" where
  "type_name (VScalar SNone) = ''NoneType''"
| "type_name (VScalar (SBool b)) = ''bool''"
| "type_name (VScalar (SInt i)) = ''int''"
| "type_name (VScalar (SStr s)) = ''str''"
| "type_name (VList vs) = ''list''"
| "type_name (VMap d) = ''dict''"
| "type_name (VExpr (Literal v s)) = ''Literal''"
| "type_name (VExpr (Symbol n s)) = ''Symbol''"
| "type_name (VExpr (EventField e f s)) = ''EventField''"
| "type_name (VExpr (Unary op a)) = ''Unary''"
| "type_name (VExpr (Binary op a b)) = ''Binary''"
| "type_name (VExpr (Nary op as)) = ''Nary''"
| "type_name (VExpr (Ite c a b)) = ''Ite''"
| "type_name (VExpr (Call f as s)) = ''Call''"

section \<open>Dictionary access on parsed data\<close>

text \<open>\<open>data[key]\<close>, \<open>data.get(key, default)\<close> and \<open>isinstance(value, Sequence)\<close>.\<close>

definition get_key :: "(string \<times> pyval) list \<Rightarrow> string \<Rightarrow> py_error \<Rightarrow> pyval res" where
  "get_key kvs k err = or_raise (map_of kvs k) err"

definition get_default :: "(string \<times> pyval) list \<Rightarrow> string \<Rightarrow> pyval \<Rightarrow> pyval" where
  "get_default kvs k d = (case map_of kvs k of None \<Rightarrow> d | Some v \<Rightarrow> v)"

fun as_sequence :: "pyval \<Rightarrow> pyval list option" where
  "as_sequence (VList vs) = Some vs"
| "as_sequence (VStr s) = Some (map (\<lambda>c. VStr [c]) s)"
| "as_sequence _ = None"

lemma get_key_Inr_iff [res_simps]: "get_key kvs k err = Inr v \<longleftrightarrow> map_of kvs k = Some v"
  by (simp add: get_key_def or_raise_Inr_iff)

lemma get_key_Inl_iff [res_simps]:
  "get_key kvs k err = Inl e \<longleftrightarrow> map_of kvs k = None \<and> e = err"
  by (auto simp: get_key_def or_raise_Inl_iff)

lemma size_get_key [termination_simp]:
  "get_key kvs k err = Inr v \<Longrightarrow> size v < Suc (size_list (\<lambda>x. Suc (size (snd x))) kvs)"
  by (simp add: get_key_Inr_iff size_map_of)

lemma size_as_sequence: "as_sequence v = Some vs \<Longrightarrow> x \<in> set vs \<Longrightarrow> size x \<le> size v"
proof (cases v rule: as_sequence.cases)
  case (1 ws)
  moreover have "x \<in> set ws \<Longrightarrow> size x \<le> size_list size ws"
    by (simp add: size_list_estimation')
  ultimately show "as_sequence v = Some vs \<Longrightarrow> x \<in> set vs \<Longrightarrow> size x \<le> size v"
    by auto
qed auto

lemma size_sequence_key [termination_simp]:
  assumes "or_raise (as_sequence (get_default kvs k d)) err = Inr vs" and "x \<in> set vs"
    and "d = VNone \<or> d = VList []"
  shows "size x < Suc (size_list (\<lambda>x. Suc (size (snd x))) kvs)"
proof (cases "map_of kvs k")
  case None
  then show ?thesis using assms by (auto simp: get_default_def or_raise_Inr_iff)
next
  case (Some v)
  then have "size x \<le> size v" using assms
    by (auto simp: get_default_def or_raise_Inr_iff dest: size_as_sequence)
  then show ?thesis using size_map_of [OF Some] by simp
qed

lemma get_key_Cons [simp]:
  "get_key ((k', v) # kvs) k err = (if k' = k then Inr v else get_key kvs k err)"
  by (simp add: get_key_def)

lemma get_default_Cons [simp]:
  "get_default ((k', v) # kvs) k d = (if k' = k then v else get_default kvs k d)"
  by (simp add: get_default_def)

lemma get_default_Nil [simp]: "get_default [] k d = d"
  by (simp add: get_default_def)

lemma get_key_Nil [simp]: "get_key [] k err = Inl err"
  by (simp add: get_key_def)

lemma get_default_append [simp]:
  "get_default (xs @ ys) k d = get_default xs k (get_default ys k d)"
  by (simp add: get_default_def map_add_def split: option.splits)

text \<open>The parsing steps the \<open>from_dict\<close> methods share: unknown keys are refused, values default and lists are checked.\<close>

definition known_keys :: "(string \<times> pyval) list \<Rightarrow> string list \<Rightarrow> unit res" where
  "known_keys d allowed = require (list_all (\<lambda>(k, v). k \<in> set allowed) d) SerializationError"

definition str_default :: "(string \<times> pyval) list \<Rightarrow> string \<Rightarrow> string \<Rightarrow> string" where
  "str_default d k s = py_str (get_default d k (VStr s))"

definition str_option :: "(string \<times> pyval) list \<Rightarrow> string \<Rightarrow> string option" where
  "str_option d k = (case get_default d k VNone of VScalar SNone \<Rightarrow> None | v \<Rightarrow> Some (py_str v))"

definition list_field :: "(string \<times> pyval) list \<Rightarrow> string \<Rightarrow> pyval list \<Rightarrow> pyval list res" where
  "list_field d k ds = (case get_default d k (VList ds) of VList vs \<Rightarrow> Inr vs | _ \<Rightarrow> Inl SerializationError)"

definition map_field :: "(string \<times> pyval) list \<Rightarrow> string \<Rightarrow> (string \<times> pyval) list res" where
  "map_field d k = (case get_default d k (VMap []) of VMap m \<Rightarrow> Inr m | _ \<Rightarrow> Inl SerializationError)"

definition with_map :: "pyval \<Rightarrow> ((string \<times> pyval) list \<Rightarrow> 'a res) \<Rightarrow> 'a res" where
  "with_map v f = (case v of VMap d \<Rightarrow> f d | _ \<Rightarrow> Inl SerializationError)"

lemma with_map_VMap [simp]: "with_map (VMap d) f = f d"
  by (simp add: with_map_def)

lemma with_map_Inr [res_simps]: "with_map v f = Inr x \<longleftrightarrow> (\<exists>d. v = VMap d \<and> f d = Inr x)"
  by (cases v) (simp_all add: with_map_def)

lemma known_keys_Inr [res_simps]: "known_keys d ks = Inr u \<longleftrightarrow> fst ` set d \<subseteq> set ks"
  by (auto simp: known_keys_def require_Inr_iff list_all_iff)

lemma known_keys_ok: "fst ` set d \<subseteq> set ks \<Longrightarrow> known_keys d ks = Inr ()"
  by (simp add: known_keys_Inr)

lemma py_str_map [simp]: "map (py_str \<circ> VStr) xs = xs"
  by (induction xs) auto

lemma pairs_roundtrip [simp]: "map (\<lambda>(k, x). (k, py_str x)) (map (\<lambda>(k, x). (k, VStr x)) kvs) = kvs"
  by (induction kvs) auto

lemmas field_defs = str_default_def str_option_def list_field_def map_field_def

text \<open>Optional entries of a dictionary: written only when they differ from what is read by default.\<close>

lemma get_default_if [simp]:
  "get_default (if c then [] else [(k', v)]) k d = (if k' = k \<and> \<not> c then v else d)"
  "get_default (if c then [(k', v)] else []) k d = (if k' = k \<and> c then v else d)"
  by simp_all

lemma optional_list [simp]: "(if xs \<noteq> [] then VList (map f xs) else VList []) = VList (map f xs)"
  by simp

lemma optional_str [simp]: "(if s \<noteq> t then VStr s else VStr t) = VStr s"
  by simp

lemma optional_bool [simp]: "truthy (if b then VBool True else VBool False) = b"
  by simp

end
