(* ===== verification/ExecGraph.thy ===== *)
theory ExecGraph
  imports RelAlg PyValues
begin

text \<open>
  \<open>src/src/umcm/graph/execution.py\<close>: the nodes of an execution graph and the graph itself, with
  the checks of their constructors and their serialisation. A graph maps operation identifiers to
  operations and relation names to relations; the constructor checks that keys and names agree and
  that every edge joins two operations of the graph (\<open>wf_graph\<close>). The lemmas: construction
  succeeds exactly on well-formed data, adding relations keeps the invariant, and a graph written
  out and read back has the same operations, relations and annotations.
\<close>

section \<open>Memory operations\<close>

datatype op_kind = INIT_WRITE | READ | WRITE | AMO

fun kind_value :: "op_kind \<Rightarrow> string" where
  "kind_value INIT_WRITE = ''init_write''"
| "kind_value READ = ''read''"
| "kind_value WRITE = ''write''"
| "kind_value AMO = ''amo''"

definition kind_of :: "string \<Rightarrow> op_kind option" where
  "kind_of s = List.find (\<lambda>k. kind_value k = s) [INIT_WRITE, READ, WRITE, AMO]"

text \<open>\<open>write_value\<close> is \<open>VNone\<close> when absent.\<close>

record memory_op =
  mo_id :: string
  mo_kind :: op_kind
  mo_address :: pyval
  mo_value :: pyval
  mo_write_value :: pyval
  mo_hart :: "int option"
  mo_index :: "int option"
  mo_source_event :: string
  mo_commit_event :: string
  mo_metadata :: "(string \<times> pyval) list"

definition is_read_kind :: "op_kind \<Rightarrow> bool" where
  "is_read_kind k \<longleftrightarrow> k = READ \<or> k = AMO"

definition is_read :: "memory_op \<Rightarrow> bool" where
  "is_read m \<longleftrightarrow> is_read_kind (mo_kind m)"

definition is_write :: "memory_op \<Rightarrow> bool" where
  "is_write m \<longleftrightarrow> mo_kind m = WRITE \<or> mo_kind m = INIT_WRITE \<or> mo_kind m = AMO"

definition mk_operation :: "memory_op \<Rightarrow> memory_op res" where
  "mk_operation m =
     rbind (require (mo_id m \<noteq> []) GraphError) (\<lambda>_.
     rbind (require (mo_kind m = AMO \<longrightarrow> mo_write_value m \<noteq> VNone) GraphError) (\<lambda>_.
     rbind (require (mo_kind m \<noteq> INIT_WRITE \<longrightarrow> mo_hart m \<noteq> None \<and> mo_index m \<noteq> None) GraphError) (\<lambda>_.
     rbind (require (is_read m \<longrightarrow> mo_commit_event m \<noteq> []) GraphError) (\<lambda>_.
       Inr m))))"

definition wf_op :: "memory_op \<Rightarrow> bool" where
  "wf_op m \<longleftrightarrow> mk_operation m = Inr m"

definition read_value :: "memory_op \<Rightarrow> pyval res" where
  "read_value m = (if \<not> is_read m then Inl GraphError else Inr (mo_value m))"

definition stored_value :: "memory_op \<Rightarrow> pyval res" where
  "stored_value m =
     (if \<not> is_write m then Inl GraphError
      else if mo_kind m = AMO then Inr (mo_write_value m) else Inr (mo_value m))"

definition atomic_kind :: "memory_op \<Rightarrow> string" where
  "atomic_kind m =
     (if mo_kind m = AMO then ''amo''
      else py_lower (py_str (get_default (mo_metadata m) ''atomic_kind'' (VStr ''ordinary''))))"

definition op_to_dict :: "memory_op \<Rightarrow> pyval" where
  "op_to_dict m = VMap ([(''id'', VStr (mo_id m)), (''kind'', VStr (kind_value (mo_kind m))),
       (''address'', mo_address m), (''value'', mo_value m)]
     @ (if mo_kind m = AMO then [(''write_value'', mo_write_value m)] else [])
     @ (case mo_hart m of None \<Rightarrow> [] | Some h \<Rightarrow> [(''hart'', VInt h)])
     @ (case mo_index m of None \<Rightarrow> [] | Some i \<Rightarrow> [(''program_index'', VInt i)])
     @ (if mo_source_event m = [] then [] else [(''source_event_id'', VStr (mo_source_event m))])
     @ (if mo_commit_event m = [] then [] else [(''commit_event_id'', VStr (mo_commit_event m))])
     @ (if mo_metadata m = [] then [] else [(''metadata'', VMap (mo_metadata m))]))"

text \<open>\<open>except (KeyError, ValueError)\<close>: only these two are turned into a serialisation error.\<close>

definition catch_lookup :: "'a res \<Rightarrow> 'a res" where
  "catch_lookup r =
     (case r of Inl e \<Rightarrow> Inl (if e = PyKeyError \<or> e = PyValueError then SerializationError else e)
      | Inr x \<Rightarrow> Inr x)"

definition optional_int :: "pyval \<Rightarrow> int option res" where
  "optional_int v = (if v = VNone then Inr None else rbind (py_int v) (\<lambda>i. Inr (Some i)))"

definition op_from_dict :: "pyval \<Rightarrow> memory_op res" where
  "op_from_dict v =
     (case v of
        VMap d \<Rightarrow> catch_lookup (
          (case get_default d ''metadata'' (VMap []) of
             VMap md \<Rightarrow>
               rbind (get_key d ''id'' PyKeyError) (\<lambda>i.
               rbind (get_key d ''kind'' PyKeyError) (\<lambda>k.
               rbind (or_raise (kind_of (py_str k)) PyValueError) (\<lambda>kind.
               rbind (get_key d ''address'' PyKeyError) (\<lambda>address.
               rbind (get_key d ''value'' PyKeyError) (\<lambda>val.
               rbind (optional_int (get_default d ''hart'' VNone)) (\<lambda>hart.
               rbind (optional_int (get_default d ''program_index'' VNone)) (\<lambda>index.
                 mk_operation \<lparr>mo_id = py_str i, mo_kind = kind, mo_address = address,
                   mo_value = val, mo_write_value = get_default d ''write_value'' VNone,
                   mo_hart = hart, mo_index = index,
                   mo_source_event = py_str (get_default d ''source_event_id'' (VStr [])),
                   mo_commit_event = py_str (get_default d ''commit_event_id'' (VStr [])),
                   mo_metadata = md\<rparr>)))))))
           | _ \<Rightarrow> Inl SerializationError))
      | _ \<Rightarrow> Inl SerializationError)"

section \<open>Execution graphs\<close>

record exec_graph =
  eg_operations :: "(string \<times> memory_op) list"
  eg_relations :: "(string \<times> relation) list"
  eg_candidate :: int
  eg_metadata :: "(string \<times> pyval) list"
  eg_version :: string

definition EXECUTION_GRAPH_SCHEMA_VERSION :: string where
  "EXECUTION_GRAPH_SCHEMA_VERSION = ''umcm.execution_graph.v0.2''"

definition known_edges :: "(string \<times> memory_op) list \<Rightarrow> relation \<Rightarrow> bool" where
  "known_edges ops r \<longleftrightarrow>
     list_all (\<lambda>(a, b). a \<in> fst ` set ops \<and> b \<in> fst ` set ops) (rel_edges r)"

definition mk_graph :: "exec_graph \<Rightarrow> exec_graph res" where
  "mk_graph g =
     rbind (require (list_all (\<lambda>(k, m). k = mo_id m) (eg_operations g)) GraphError) (\<lambda>_.
     rbind (traverse (\<lambda>(n, r).
         rbind (require (n = rel_name r) GraphError) (\<lambda>_.
           require (known_edges (eg_operations g) r) GraphError)) (eg_relations g)) (\<lambda>_.
       Inr g))"

definition graph_relation :: "exec_graph \<Rightarrow> string \<Rightarrow> relation res" where
  "graph_relation g n = or_raise (map_of (eg_relations g) n) GraphError"

definition edge_to_dict :: "edge \<Rightarrow> pyval" where
  "edge_to_dict e = VMap [(''from'', VStr (fst e)), (''to'', VStr (snd e))]"

definition rel_to_dict :: "relation \<Rightarrow> pyval" where
  "rel_to_dict r =
     VMap [(''name'', VStr (rel_name r)), (''edges'', VList (map edge_to_dict (sorted_edges r)))]"

definition sorted_items :: "(string \<times> 'v) list \<Rightarrow> 'v list" where
  "sorted_items d = map snd (sort_key fst d)"

definition graph_to_dict :: "exec_graph \<Rightarrow> pyval" where
  "graph_to_dict g = VMap [(''schema_version'', VStr (eg_version g)),
     (''candidate_id'', VInt (eg_candidate g)), (''metadata'', VMap (eg_metadata g)),
     (''operations'', VList (map op_to_dict (sorted_items (eg_operations g)))),
     (''relations'', VList (map rel_to_dict (sorted_items (eg_relations g))))]"

definition edge_from_dict :: "pyval \<Rightarrow> edge res" where
  "edge_from_dict v =
     (case v of
        VMap d \<Rightarrow>
          rbind (get_key d ''from'' SerializationError) (\<lambda>a.
          rbind (get_key d ''to'' SerializationError) (\<lambda>b. Inr (py_str a, py_str b)))
      | _ \<Rightarrow> Inl SerializationError)"

definition rel_from_dict :: "pyval \<Rightarrow> relation res" where
  "rel_from_dict v =
     (case v of
        VMap d \<Rightarrow>
          (case get_default d ''edges'' (VList []) of
             VList es \<Rightarrow>
               rbind (traverse edge_from_dict es) (\<lambda>edges.
                 from_edges (py_str (get_default d ''name'' (VStr []))) edges)
           | _ \<Rightarrow> Inl SerializationError)
      | _ \<Rightarrow> Inl SerializationError)"

definition graph_from_dict :: "pyval \<Rightarrow> exec_graph res" where
  "graph_from_dict v =
     (case v of
        VMap d \<Rightarrow>
          (case (get_default d ''operations'' (VList []), get_default d ''relations'' (VList [])) of
             (VList raw_ops, VList raw_rels) \<Rightarrow>
               rbind (traverse op_from_dict raw_ops) (\<lambda>ops.
               rbind (traverse rel_from_dict raw_rels) (\<lambda>rels.
                 (case get_default d ''metadata'' (VMap []) of
                    VMap md \<Rightarrow>
                      rbind (py_int (get_default d ''candidate_id'' (VInt 0))) (\<lambda>cid.
                        mk_graph \<lparr>eg_operations = dict_of (map (\<lambda>m. (mo_id m, m)) ops),
                          eg_relations = dict_of (map (\<lambda>r. (rel_name r, r)) rels),
                          eg_candidate = cid, eg_metadata = md,
                          eg_version = py_str (get_default d ''schema_version''
                            (VStr EXECUTION_GRAPH_SCHEMA_VERSION))\<rparr>)
                  | _ \<Rightarrow> Inl SerializationError)))
           | _ \<Rightarrow> Inl SerializationError)
      | _ \<Rightarrow> Inl SerializationError)"

definition relation_counts :: "exec_graph \<Rightarrow> (string \<times> nat) list" where
  "relation_counts g = map (\<lambda>(n, r). (n, length (rel_edges r))) (eg_relations g)"

definition with_relations :: "exec_graph \<Rightarrow> relation list \<Rightarrow> exec_graph res" where
  "with_relations g rs =
     mk_graph (g\<lparr>eg_relations := foldl (\<lambda>d r. AList.update (rel_name r) r d) (eg_relations g) rs\<rparr>)"

section \<open>Operations: invariant and round trip\<close>

lemma mk_operation_Inr_iff [res_simps]: "mk_operation m = Inr m' \<longleftrightarrow> m' = m \<and> wf_op m"
  by (auto simp: wf_op_def mk_operation_def res_simps)

lemma wf_op_iff:
  "wf_op m \<longleftrightarrow> mo_id m \<noteq> [] \<and> (mo_kind m = AMO \<longrightarrow> mo_write_value m \<noteq> VNone) \<and>
     (mo_kind m \<noteq> INIT_WRITE \<longrightarrow> mo_hart m \<noteq> None \<and> mo_index m \<noteq> None) \<and>
     (is_read m \<longrightarrow> mo_commit_event m \<noteq> [])"
  by (auto simp: wf_op_def mk_operation_def res_simps)

lemma mk_operation_wf [simp]: "wf_op m \<Longrightarrow> mk_operation m = Inr m"
  by (simp add: wf_op_def)

lemma kind_of_value [simp]: "kind_of (kind_value k) = Some k"
  by (cases k) (simp_all add: kind_of_def)

lemma kind_of_names [simp]:
  "kind_of ''init_write'' = Some INIT_WRITE" "kind_of ''read'' = Some READ"
  "kind_of ''write'' = Some WRITE" "kind_of ''amo'' = Some AMO"
  by (simp_all add: kind_of_def)

lemma catch_lookup_Inr [simp]: "catch_lookup r = Inr x \<longleftrightarrow> r = Inr x"
  by (simp add: catch_lookup_def split: sum.splits)

lemma optional_int_simps [simp]: "optional_int VNone = Inr None" "optional_int (VInt i) = Inr (Some i)"
  by (simp_all add: optional_int_def)

text \<open>\<open>to_dict\<close> writes \<open>write_value\<close> for an AMO only.\<close>

definition storable_op :: "memory_op \<Rightarrow> bool" where
  "storable_op m \<longleftrightarrow> wf_op m \<and> (mo_kind m \<noteq> AMO \<longrightarrow> mo_write_value m = VNone)"

lemma op_roundtrip: "storable_op m \<Longrightarrow> op_from_dict (op_to_dict m) = Inr m"
proof -
  assume m: "storable_op m"
  then have wf: "wf_op m" by (simp add: storable_op_def)
  obtain i k a v w h p s c md where e: "m = \<lparr>mo_id = i, mo_kind = k, mo_address = a, mo_value = v,
      mo_write_value = w, mo_hart = h, mo_index = p, mo_source_event = s, mo_commit_event = c,
      mo_metadata = md\<rparr>" by (cases m)
  have w: "k = AMO \<or> w = VNone" using m e by (auto simp: storable_op_def)
  define f where "f = (\<lambda>w h p s c md. mk_operation \<lparr>mo_id = i, mo_kind = k, mo_address = a,
      mo_value = v, mo_write_value = w, mo_hart = h, mo_index = p, mo_source_event = s,
      mo_commit_event = c, mo_metadata = md\<rparr>)"
  have "f w h p s c md = Inr m" using wf by (simp add: e f_def)
  then show ?thesis using w
    by (cases h; cases p; cases "k = AMO"; cases "s = []"; cases "c = []"; cases "md = []")
      (simp_all add: op_to_dict_def op_from_dict_def e f_def)
qed

lemma op_from_dict_wf: "op_from_dict v = Inr m \<Longrightarrow> wf_op m"
  by (cases v) (auto simp: op_from_dict_def res_simps split: pyval.splits)

section \<open>Graphs: invariant\<close>

definition wf_graph :: "exec_graph \<Rightarrow> bool" where
  "wf_graph g \<longleftrightarrow>
     distinct (map fst (eg_operations g)) \<and> distinct (map fst (eg_relations g)) \<and>
     (\<forall>(k, m) \<in> set (eg_operations g). k = mo_id m \<and> wf_op m) \<and>
     (\<forall>(n, r) \<in> set (eg_relations g). n = rel_name r \<and> wf_relation r \<and> known_edges (eg_operations g) r)"

lemma mk_graph_Inr_iff [res_simps]:
  "mk_graph g = Inr g' \<longleftrightarrow> g' = g \<and> (\<forall>(k, m) \<in> set (eg_operations g). k = mo_id m) \<and>
     (\<forall>(n, r) \<in> set (eg_relations g). n = rel_name r \<and> known_edges (eg_operations g) r)"
proof -
  let ?f = "\<lambda>(n, r). rbind (require (n = rel_name r) GraphError) (\<lambda>_.
      require (known_edges (eg_operations g) r) GraphError)"
  have "(\<exists>us. traverse ?f (eg_relations g) = Inr us) \<longleftrightarrow>
      (\<forall>(n, r) \<in> set (eg_relations g). n = rel_name r \<and> known_edges (eg_operations g) r)"
    unfolding traverse_ok_iff by (auto simp: res_simps)
  then show ?thesis unfolding mk_graph_def rbind_Inr_iff require_Inr_iff list_all_iff by auto
qed

lemma mk_graph_error: "mk_graph g = Inl e \<Longrightarrow> e = GraphError"
  by (auto simp: mk_graph_def res_simps dest!: traverse_error_mem)

lemma mk_graph_wf [simp]: "wf_graph g \<Longrightarrow> mk_graph g = Inr g"
  by (auto simp: mk_graph_Inr_iff wf_graph_def)

lemma rel_from_dict_wf: "rel_from_dict v = Inr r \<Longrightarrow> wf_relation r"
  by (cases v) (auto simp: rel_from_dict_def rbind_Inr_iff split: pyval.splits intro: from_edges_wf)

lemma parse_graph_wf:
  assumes "traverse op_from_dict raw_ops = Inr ops" "traverse rel_from_dict raw_rels = Inr rels"
    and "eg_operations g = dict_of (map (\<lambda>m. (mo_id m, m)) ops)"
    and "eg_relations g = dict_of (map (\<lambda>r. (rel_name r, r)) rels)" and "mk_graph g = Inr g"
  shows "wf_graph g"
proof -
  have "wf_op m" if "(k, m) \<in> set (eg_operations g)" for k m
    using that assms(1,3) set_dict_of [of "map (\<lambda>m. (mo_id m, m)) ops"]
    by (auto dest!: traverse_Inr_imageD dest: op_from_dict_wf)
  moreover have "wf_relation r" if "(n, r) \<in> set (eg_relations g)" for n r
    using that assms(2,4) set_dict_of [of "map (\<lambda>r. (rel_name r, r)) rels"]
    by (auto dest!: traverse_Inr_imageD dest: rel_from_dict_wf)
  ultimately show ?thesis using assms(3-5) by (auto simp: wf_graph_def mk_graph_Inr_iff)
qed

lemma graph_from_dict_wf:
  assumes "graph_from_dict v = Inr g" shows "wf_graph g"
proof -
  obtain d where v: "v = VMap d" using assms by (cases v) (simp_all add: graph_from_dict_def)
  obtain raw_ops where o: "get_default d ''operations'' (VList []) = VList raw_ops"
    using assms by (cases "get_default d ''operations'' (VList [])") (simp_all add: graph_from_dict_def v)
  obtain raw_rels where r: "get_default d ''relations'' (VList []) = VList raw_rels"
    using assms by (cases "get_default d ''relations'' (VList [])") (simp_all add: graph_from_dict_def v o)
  obtain ops rels where t: "traverse op_from_dict raw_ops = Inr ops"
    "traverse rel_from_dict raw_rels = Inr rels"
    using assms by (auto simp: graph_from_dict_def v o r rbind_Inr_iff)
  obtain md where m: "get_default d ''metadata'' (VMap []) = VMap md"
    using assms by (cases "get_default d ''metadata'' (VMap [])") (simp_all add: graph_from_dict_def v o r t)
  show ?thesis
    by (rule parse_graph_wf [OF t]) (use assms in \<open>auto simp: graph_from_dict_def v o r t m rbind_Inr_iff mk_graph_Inr_iff\<close>)
qed

lemma distinct_foldl_relations:
  "distinct (map fst d) \<Longrightarrow> distinct (map fst (foldl (\<lambda>d r. AList.update (rel_name r) r d) d rs))"
  by (induction rs arbitrary: d) (auto simp: distinct_update)

lemma map_of_foldl_relations:
  "map_of (foldl (\<lambda>d r. AList.update (rel_name r) r d) d rs) =
     map_of d ++ map_of (rev (map (\<lambda>r. (rel_name r, r)) rs))"
  by (induction rs arbitrary: d) (auto simp: update_conv' map_add_def fun_eq_iff split: option.splits)

lemma with_relations_wf:
  assumes "wf_graph g" "\<forall>r \<in> set rs. wf_relation r \<and> known_edges (eg_operations g) r"
  shows "\<exists>g'. with_relations g rs = Inr g' \<and> wf_graph g' \<and> eg_operations g' = eg_operations g \<and>
    (\<forall>n. map_of (eg_relations g') n =
       (case map_of (rev (map (\<lambda>r. (rel_name r, r)) rs)) n of None \<Rightarrow> map_of (eg_relations g) n | Some r \<Rightarrow> Some r))"
proof -
  let ?d = "foldl (\<lambda>d r. AList.update (rel_name r) r d) (eg_relations g) rs"
  let ?g = "g\<lparr>eg_relations := ?d\<rparr>"
  have dist: "distinct (map fst ?d)" using assms(1) by (simp add: wf_graph_def distinct_foldl_relations)
  have "n = rel_name r \<and> wf_relation r \<and> known_edges (eg_operations g) r" if "(n, r) \<in> set ?d" for n r
  proof -
    have "map_of ?d n = Some r" using that dist by simp
    then have "map_of (rev (map (\<lambda>r. (rel_name r, r)) rs)) n = Some r \<or> map_of (eg_relations g) n = Some r"
      unfolding map_of_foldl_relations by (auto simp: map_add_Some_iff)
    then show ?thesis
    proof
      assume "map_of (rev (map (\<lambda>r. (rel_name r, r)) rs)) n = Some r"
      then show ?thesis using assms(2) by (auto dest!: map_of_SomeD)
    next
      assume "map_of (eg_relations g) n = Some r"
      then show ?thesis using assms(1) by (auto simp: wf_graph_def dest!: map_of_SomeD)
    qed
  qed
  then have wf: "wf_graph ?g" using assms(1) dist unfolding wf_graph_def by auto
  have "with_relations g rs = Inr ?g" unfolding with_relations_def using wf by simp
  then show ?thesis using wf by (auto simp: map_of_foldl_relations map_add_def)
qed

section \<open>Graphs: round trip\<close>

lemma edges_roundtrip: "traverse edge_from_dict (map edge_to_dict es) = Inr es"
  by (induction es) (auto simp: edge_from_dict_def edge_to_dict_def)

text \<open>The edges come back sorted.\<close>

lemma rel_roundtrip:
  "wf_relation r \<Longrightarrow> rel_from_dict (rel_to_dict r) = Inr (r\<lparr>rel_edges := sorted_edges r\<rparr>)"
  by (cases r) (simp add: rel_from_dict_def rel_to_dict_def edges_roundtrip wf_relation_iff
      from_edges_ok edges_ok_iff sorted_edges_def distinct_remdups_id)

lemma sorted_items_keys:
  assumes "\<forall>(k, x) \<in> set d. k = f x"
  shows "map (\<lambda>x. (f x, x)) (sorted_items d) = sort_key fst d"
proof -
  have "map (\<lambda>x. (f x, x)) (map snd xs) = xs" if "\<forall>(k, x) \<in> set xs. k = f x" for xs
    using that by (induction xs) auto
  then show ?thesis using assms by (simp add: sorted_items_def)
qed

lemma distinct_sort_key: "distinct (map fst d) \<Longrightarrow> distinct (map fst (sort_key fst d))"
  by (simp add: distinct_map)

lemma map_of_sort_key: "distinct (map fst d) \<Longrightarrow> map_of (sort_key fst d) = map_of d"
  by (simp add: map_of_inject_set distinct_sort_key)

definition sort_relation :: "relation \<Rightarrow> relation" where
  "sort_relation r = r\<lparr>rel_edges := sorted_edges r\<rparr>"

lemma sort_relation_simps [simp]:
  "rel_name (sort_relation r) = rel_name r" "rel_edges (sort_relation r) = sorted_edges r"
  "wf_relation (sort_relation r) = wf_relation r" "known_edges ops (sort_relation r) = known_edges ops r"
  by (auto simp: sort_relation_def wf_relation_iff sorted_edges_def edges_ok_iff known_edges_def list_all_iff)

text \<open>The graph that is read back: dictionaries in key order, edges sorted.\<close>

definition sort_graph :: "exec_graph \<Rightarrow> exec_graph" where
  "sort_graph g = g\<lparr>eg_operations := sort_key fst (eg_operations g),
     eg_relations := map (\<lambda>(n, r). (n, sort_relation r)) (sort_key fst (eg_relations g))\<rparr>"

lemma fst_sort_relations [simp]: "map fst (map (\<lambda>(n, r). (n, sort_relation r)) rs) = map fst rs"
  by (induction rs) auto

lemma sort_graph_wf: "wf_graph g \<Longrightarrow> wf_graph (sort_graph g)"
proof -
  assume wf: "wf_graph g"
  have k: "known_edges (sort_key fst ops) r = known_edges ops r" for ops r by (simp add: known_edges_def)
  show ?thesis using wf unfolding wf_graph_def sort_graph_def
    by (auto simp: distinct_sort_key k simp del: map_map)
qed

lemma sorted_relations_items:
  assumes "\<forall>(n, r) \<in> set rs. n = rel_name r"
  shows "map (\<lambda>r. (rel_name r, r)) (map sort_relation (sorted_items rs)) =
    map (\<lambda>(n, r). (n, sort_relation r)) (sort_key fst rs)"
proof -
  have "map (\<lambda>r. (rel_name r, r)) (map sort_relation (map snd xs)) = map (\<lambda>(n, r). (n, sort_relation r)) xs"
    if "\<forall>(n, r) \<in> set xs. n = rel_name r" for xs
    using that by (induction xs) auto
  then show ?thesis using assms by (simp add: sorted_items_def)
qed

lemma graph_roundtrip:
  assumes wf: "wf_graph g" and st: "\<forall>(k, m) \<in> set (eg_operations g). storable_op m"
  shows "graph_from_dict (graph_to_dict g) = Inr (sort_graph g)"
proof -
  have ops: "traverse op_from_dict (map op_to_dict (sorted_items (eg_operations g))) =
      Inr (sorted_items (eg_operations g))"
    unfolding traverse_map using st
    by (intro traverse_Inr_map [where g = "\<lambda>m. m", simplified]) (auto simp: sorted_items_def op_roundtrip)
  have rels: "traverse rel_from_dict (map rel_to_dict (sorted_items (eg_relations g))) =
      Inr (map sort_relation (sorted_items (eg_relations g)))"
    unfolding traverse_map using wf
    by (intro traverse_Inr_map) (auto simp: sorted_items_def rel_roundtrip sort_relation_def wf_graph_def)
  have keys: "map (\<lambda>m. (mo_id m, m)) (sorted_items (eg_operations g)) = sort_key fst (eg_operations g)"
    "map (\<lambda>r. (rel_name r, r)) (map sort_relation (sorted_items (eg_relations g))) =
      map (\<lambda>(n, r). (n, sort_relation r)) (sort_key fst (eg_relations g))"
    using wf by (intro sorted_items_keys sorted_relations_items; force simp: wf_graph_def)+
  have "dict_of (sort_key fst (eg_operations g)) = sort_key fst (eg_operations g)"
    "dict_of (map (\<lambda>(n, r). (n, sort_relation r)) (sort_key fst (eg_relations g))) =
      map (\<lambda>(n, r). (n, sort_relation r)) (sort_key fst (eg_relations g))"
    using wf by (intro dict_of_distinct; simp add: wf_graph_def distinct_sort_key del: map_map)+
  note dicts = this
  have eta: "\<lparr>eg_operations = os, eg_relations = rs, eg_candidate = eg_candidate g,
      eg_metadata = eg_metadata g, eg_version = eg_version g\<rparr> = g\<lparr>eg_operations := os, eg_relations := rs\<rparr>" for os rs
    by simp
  show ?thesis
    using mk_graph_wf [OF sort_graph_wf [OF wf]]
    by (simp add: graph_from_dict_def graph_to_dict_def ops rels keys dicts eta sort_graph_def del: map_map mk_graph_wf)
qed

lemma sort_graph_same:
  assumes "wf_graph g"
  shows "map_of (eg_operations (sort_graph g)) = map_of (eg_operations g)"
    "map_of (eg_relations (sort_graph g)) n = map_option sort_relation (map_of (eg_relations g) n)"
proof -
  show "map_of (eg_operations (sort_graph g)) = map_of (eg_operations g)"
    using assms by (simp add: sort_graph_def wf_graph_def map_of_sort_key)
  show "map_of (eg_relations (sort_graph g)) n = map_option sort_relation (map_of (eg_relations g) n)"
    using assms by (simp add: sort_graph_def wf_graph_def map_of_map map_of_sort_key)
qed

end
