(* ===== verification/CycleSearch.thy ===== *)
theory CycleSearch
  imports RelAlg
begin

text \<open>
  \<open>find_labeled_cycle\<close> of \<open>src/src/umcm/graph/relation.py\<close>: a recursive depth-first search with
  three colours, the stack of open nodes and their positions. The lemmas: the search ends, returns
  \<open>None\<close> exactly when the union of the relations is acyclic, and otherwise a genuine cycle whose
  edges carry the name of the first relation that holds them. The locale \<open>cycle_finder\<close> is the
  contract on which the axiom checker and the coherence check rest.
\<close>

section \<open>The labelled cycle search\<close>

record labeled_edge =
  le_source :: string
  le_relation :: string
  le_target :: string

text \<open>
  \<open>find_labeled_cycle\<close> builds \<open>labels\<close> with \<open>setdefault\<close>, so the first relation that holds an
  edge names it; \<open>adjacency\<close> is the union.
\<close>

definition edge_labels :: "relation list \<Rightarrow> (edge \<times> string) list" where
  "edge_labels rs = concat (map (\<lambda>r. map (\<lambda>e. (e, rel_name r)) (sorted_edges r)) rs)"

definition all_edges :: "relation list \<Rightarrow> edge list" where
  "all_edges rs = concat (map rel_edges rs)"

definition sorted_succs :: "relation list \<Rightarrow> string \<Rightarrow> string list" where
  "sorted_succs rs a = sort (successors (all_edges rs) a)"

text \<open>
  \<open>dfs_color\<close> is 0 for a node not visited, 1 for a node on the stack, 2 for a finished one.
\<close>

record dfs_state =
  dfs_color :: "string \<Rightarrow> nat"
  dfs_stack :: "string list"
  dfs_position :: "string \<Rightarrow> nat option"

definition enter_node :: "string \<Rightarrow> dfs_state \<Rightarrow> dfs_state" where
  "enter_node v st = st\<lparr>dfs_color := (dfs_color st)(v := 1),
     dfs_position := (dfs_position st)(v \<mapsto> length (dfs_stack st)),
     dfs_stack := dfs_stack st @ [v]\<rparr>"

definition leave_node :: "string \<Rightarrow> dfs_state \<Rightarrow> dfs_state" where
  "leave_node v st = st\<lparr>dfs_stack := butlast (dfs_stack st),
     dfs_position := (dfs_position st)(v := None),
     dfs_color := (dfs_color st)(v := 2)\<rparr>"

fun label_path :: "(edge \<times> string) list \<Rightarrow> string list \<Rightarrow> labeled_edge list res" where
  "label_path labels (a # b # vs) =
     rbind (or_raise (map_of labels (a, b)) PyKeyError) (\<lambda>l.
     rbind (label_path labels (b # vs)) (\<lambda>es.
       Inr (\<lparr>le_source = a, le_relation = l, le_target = b\<rparr> # es)))"
| "label_path labels vs = Inr []"

definition close_cycle :: "relation list \<Rightarrow> string \<Rightarrow> dfs_state \<Rightarrow> labeled_edge list res" where
  "close_cycle rs t st =
     rbind (or_raise (dfs_position st t) PyKeyError) (\<lambda>start.
       label_path (edge_labels rs) (drop start (dfs_stack st) @ [t]))"

text \<open>
  \<open>dfs\<close> recurses to a depth bounded by the number of nodes; the first argument counts that depth
  and running out of it is the error \<open>PyRecursionError\<close>, which \<open>find_labeled_cycle_total\<close>
  excludes for the fuel \<open>find_labeled_cycle\<close> passes.
\<close>

function (sequential)
  dfs :: "nat \<Rightarrow> relation list \<Rightarrow> string \<Rightarrow> dfs_state \<Rightarrow> (labeled_edge list option \<times> dfs_state) res" and
  dfs_targets :: "nat \<Rightarrow> relation list \<Rightarrow> string list \<Rightarrow> dfs_state \<Rightarrow>
    (labeled_edge list option \<times> dfs_state) res" where
  "dfs 0 rs v st = Inl PyRecursionError"
| "dfs (Suc n) rs v st =
     rbind (dfs_targets n rs (sorted_succs rs v) (enter_node v st)) (\<lambda>(found, st').
       case found of Some c \<Rightarrow> Inr (Some c, st') | None \<Rightarrow> Inr (None, leave_node v st'))"
| "dfs_targets n rs [] st = Inr (None, st)"
| "dfs_targets n rs (t # ts) st =
     (if dfs_color st t = 0 then
        rbind (dfs n rs t st) (\<lambda>(found, st').
          case found of Some c \<Rightarrow> Inr (Some c, st') | None \<Rightarrow> dfs_targets n rs ts st')
      else if dfs_color st t = 1 then
        rbind (close_cycle rs t st) (\<lambda>c. Inr (Some c, st))
      else dfs_targets n rs ts st)"
  by pat_completeness auto
termination
  by (relation "measures [\<lambda>x. case x of Inl (n, _) \<Rightarrow> n | Inr (n, _) \<Rightarrow> n,
      \<lambda>x. case x of Inl _ \<Rightarrow> 0 | Inr (_, _, ts, _) \<Rightarrow> Suc (length ts)]") auto

fun dfs_roots :: "nat \<Rightarrow> relation list \<Rightarrow> string list \<Rightarrow> dfs_state \<Rightarrow> labeled_edge list option res" where
  "dfs_roots n rs [] st = Inr None"
| "dfs_roots n rs (v # vs) st =
     (if dfs_color st v = 0 then
        rbind (dfs n rs v st) (\<lambda>(found, st').
          case found of Some c \<Rightarrow> Inr (Some c) | None \<Rightarrow> dfs_roots n rs vs st')
      else dfs_roots n rs vs st)"

definition initial_dfs :: dfs_state where
  "initial_dfs = \<lparr>dfs_color = (\<lambda>_. 0), dfs_stack = [], dfs_position = (\<lambda>_. None)\<rparr>"

definition find_labeled_cycle :: "relation list \<Rightarrow> labeled_edge list option res" where
  "find_labeled_cycle rs =
     (let nodes = edge_nodes (all_edges rs)
      in dfs_roots (length nodes) rs (sort nodes) initial_dfs)"


section \<open>Labels\<close>

definition edge_set :: "relation list \<Rightarrow> edge set" where
  "edge_set rs = (\<Union>r \<in> set rs. set (rel_edges r))"

lemma set_all_edges [simp]: "set (all_edges rs) = edge_set rs"
  by (auto simp: all_edges_def edge_set_def)

lemma set_sorted_succs [simp]: "set (sorted_succs rs a) = {b. (a, b) \<in> edge_set rs}"
  by (simp add: sorted_succs_def)

text \<open>\<open>first_holder\<close> is the label the docstring promises: the first relation that has the edge.\<close>

definition first_holder :: "relation list \<Rightarrow> edge \<Rightarrow> string option" where
  "first_holder rs e = map_option rel_name (find (\<lambda>r. e \<in> set (rel_edges r)) rs)"

lemma map_of_const: "map_of (map (\<lambda>e. (e, n)) es) e = (if e \<in> set es then Some n else None)"
  by (induction es) auto

lemma edge_labels_first: "map_of (edge_labels rs) e = first_holder rs e"
  by (induction rs) (auto simp: edge_labels_def first_holder_def map_add_def map_of_const
      sorted_edges_def split: option.splits)

lemma first_holder_None: "first_holder rs e = None \<longleftrightarrow> e \<notin> edge_set rs"
  by (auto simp: first_holder_def edge_set_def find_None_iff)

definition le_edge :: "labeled_edge \<Rightarrow> edge" where
  "le_edge l = (le_source l, le_target l)"

definition labeled_cycle :: "relation list \<Rightarrow> labeled_edge list \<Rightarrow> bool" where
  "labeled_cycle rs c \<longleftrightarrow> c \<noteq> [] \<and> le_target (last c) = le_source (hd c) \<and>
     successively (\<lambda>x y. le_target x = le_source y) c \<and>
     (\<forall>l \<in> set c. first_holder rs (le_edge l) = Some (le_relation l))"

lemma label_path_edges:
  assumes "successively (\<lambda>a b. (a, b) \<in> edge_set rs) (a # b # vs)"
  shows "\<exists>c. label_path (edge_labels rs) (a # b # vs) = Inr c \<and> c \<noteq> [] \<and> le_source (hd c) = a \<and>
    le_target (last c) = last (b # vs) \<and> successively (\<lambda>x y. le_target x = le_source y) c \<and>
    (\<forall>l \<in> set c. first_holder rs (le_edge l) = Some (le_relation l))"
  using assms
proof (induction vs arbitrary: a b)
  case Nil
  then obtain l where "first_holder rs (a, b) = Some l" using first_holder_None by fastforce
  then show ?case by (simp add: edge_labels_first le_edge_def)
next
  case (Cons v vs)
  then obtain l where l: "first_holder rs (a, b) = Some l" using first_holder_None by fastforce
  from Cons obtain c where c: "label_path (edge_labels rs) (b # v # vs) = Inr c" "c \<noteq> []"
    "le_source (hd c) = b" "le_target (last c) = last (v # vs)"
    "successively (\<lambda>x y. le_target x = le_source y) c"
    "\<forall>l \<in> set c. first_holder rs (le_edge l) = Some (le_relation l)"
    by fastforce
  then show ?case using l by (simp add: edge_labels_first le_edge_def successively_Cons)
qed

lemma labeled_cycle_cyclic:
  assumes "labeled_cycle rs c" shows "\<not> acyclic (edge_set rs)"
proof -
  have E: "le_edge l \<in> edge_set rs" if "l \<in> set c" for l
    using assms that first_holder_None [of rs "le_edge l"] by (auto simp: labeled_cycle_def)
  have path: "(le_source (hd d), le_target (last d)) \<in> (edge_set rs)\<^sup>+"
    if "d \<noteq> []" "successively (\<lambda>x y. le_target x = le_source y) d" "set d \<subseteq> set c" for d
    using that
  proof (induction d)
    case (Cons l d)
    then have l: "(le_source l, le_target l) \<in> edge_set rs" using E by (force simp: le_edge_def)
    show ?case
    proof (cases d)
      case Nil
      then show ?thesis using l by auto
    next
      case (Cons m d')
      then have "(le_target l, le_target (last d)) \<in> (edge_set rs)\<^sup>+"
        using Cons.IH Cons.prems by simp
      then show ?thesis using l Cons by (simp add: trancl_into_trancl2)
    qed
  qed simp
  show ?thesis using path [of c] assms by (auto simp: labeled_cycle_def acyclic_def)
qed

section \<open>Correctness of the search\<close>

text \<open>
  The invariant: the stack is a path of distinct nodes, exactly the nodes of colour 1, with their
  positions; the nodes of colour 2 are closed under successors and no cycle runs through them.
\<close>

definition black :: "dfs_state \<Rightarrow> string set" where
  "black st = {v. dfs_color st v = 2}"

definition white :: "relation list \<Rightarrow> dfs_state \<Rightarrow> string set" where
  "white rs st = {v \<in> set (edge_nodes (all_edges rs)). dfs_color st v = 0}"

definition dfs_inv :: "relation list \<Rightarrow> dfs_state \<Rightarrow> bool" where
  "dfs_inv rs st \<longleftrightarrow> distinct (dfs_stack st) \<and>
     (\<forall>v. dfs_color st v \<in> {0, 1, 2}) \<and>
     (\<forall>v. dfs_color st v = 1 \<longleftrightarrow> v \<in> set (dfs_stack st)) \<and>
     (\<forall>v i. dfs_position st v = Some i \<longleftrightarrow> i < length (dfs_stack st) \<and> dfs_stack st ! i = v) \<and>
     successively (\<lambda>a b. (a, b) \<in> edge_set rs) (dfs_stack st) \<and>
     edge_set rs `` black st \<subseteq> black st \<and>
     acyclic (edge_set rs \<inter> black st \<times> UNIV)"

definition color_le :: "dfs_state \<Rightarrow> dfs_state \<Rightarrow> bool" where
  "color_le st st' \<longleftrightarrow> (\<forall>v. dfs_color st v \<noteq> 0 \<longrightarrow> dfs_color st' v = dfs_color st v)"

lemma color_le_refl: "color_le st st" and
  color_le_trans: "color_le st st' \<Longrightarrow> color_le st' st'' \<Longrightarrow> color_le st st''"
  by (auto simp: color_le_def)

lemma finite_white [simp]: "finite (white rs st)"
  by (simp add: white_def)

lemma white_mono: "color_le st st' \<Longrightarrow> white rs st' \<subseteq> white rs st"
  by (auto simp: white_def color_le_def)

lemma acyclic_extend:
  assumes "acyclic (E \<inter> B \<times> UNIV)" "E `` B \<subseteq> B" "E `` {v} \<subseteq> B" "v \<notin> B"
  shows "acyclic (E \<inter> insert v B \<times> UNIV)"
proof (rule acyclicI, intro allI notI)
  fix x assume "(x, x) \<in> (E \<inter> insert v B \<times> UNIV)\<^sup>+"
  moreover have "b \<in> B" if "(a, b) \<in> (E \<inter> insert v B \<times> UNIV)\<^sup>+" for a b
    using that assms(2,3) by (cases rule: tranclE) auto
  moreover have "(a, b) \<in> (E \<inter> B \<times> UNIV)\<^sup>+ \<and> b \<in> B"
    if "(a, b) \<in> (E \<inter> insert v B \<times> UNIV)\<^sup>+" "a \<in> B" for a b
    using that
  proof (induction rule: trancl_induct)
    case (base y)
    then show ?case using assms(2) by auto
  next
    case (step y z)
    then show ?case using assms(2) by (auto intro: trancl_into_trancl)
  qed
  ultimately show False using assms(1) unfolding acyclic_def by blast
qed

lemma inv_grey: "dfs_inv rs st \<Longrightarrow> v \<in> set (dfs_stack st) \<Longrightarrow> dfs_color st v = Suc 0"
  unfolding dfs_inv_def by (metis One_nat_def)

lemma inv_colors: "dfs_inv rs st \<Longrightarrow> dfs_color st v = 0 \<or> dfs_color st v = 1 \<or> dfs_color st v = 2"
  unfolding dfs_inv_def by blast

lemma enter_inv:
  assumes inv: "dfs_inv rs st" and v: "dfs_color st v = 0"
    and path: "dfs_stack st \<noteq> [] \<Longrightarrow> (last (dfs_stack st), v) \<in> edge_set rs"
  shows "dfs_inv rs (enter_node v st)"
proof -
  have nv: "v \<notin> set (dfs_stack st)" using inv_grey [OF inv, of v] v by auto
  have b: "black (enter_node v st) = black st" using v by (auto simp: black_def enter_node_def)
  have pos: "dfs_position (enter_node v st) w = Some i \<longleftrightarrow>
      i < length (dfs_stack st @ [v]) \<and> (dfs_stack st @ [v]) ! i = w" for w i
    using inv nv by (auto simp: dfs_inv_def enter_node_def nth_append less_Suc_eq)
  have "successively (\<lambda>a b. (a, b) \<in> edge_set rs) (dfs_stack st @ [v])"
    using inv path by (auto simp: dfs_inv_def successively_append_iff)
  moreover have "dfs_color (enter_node v st) w \<in> {0, 1, 2}" for w
    using inv_colors [OF inv, of w] by (auto simp: enter_node_def)
  moreover have "dfs_color (enter_node v st) w = 1 \<longleftrightarrow> w \<in> set (dfs_stack st @ [v])" for w
    using inv v by (simp add: dfs_inv_def enter_node_def)
  moreover have "dfs_stack (enter_node v st) = dfs_stack st @ [v]" by (simp add: enter_node_def)
  ultimately show ?thesis
    using inv nv pos unfolding dfs_inv_def b by simp
qed

lemma leave_inv:
  assumes inv: "dfs_inv rs st" and st: "dfs_stack st = vs @ [v]"
    and succ: "\<forall>w. (v, w) \<in> edge_set rs \<longrightarrow> dfs_color st w = 2"
  shows "dfs_inv rs (leave_node v st)"
proof -
  have nv: "v \<notin> set vs" "distinct vs" using inv st by (auto simp: dfs_inv_def)
  have gv: "dfs_color st v = Suc 0" using inv_grey [OF inv, of v] st by simp
  have b: "black (leave_node v st) = insert v (black st)" by (auto simp: black_def leave_node_def)
  have cl: "edge_set rs `` insert v (black st) \<subseteq> insert v (black st)"
    using inv succ by (auto simp: dfs_inv_def black_def)
  have ac: "acyclic (edge_set rs \<inter> insert v (black st) \<times> UNIV)"
  proof (rule acyclic_extend)
    show "acyclic (edge_set rs \<inter> black st \<times> UNIV)" "edge_set rs `` black st \<subseteq> black st"
      using inv by (simp_all add: dfs_inv_def)
  qed (use succ gv in \<open>auto simp: black_def\<close>)
  have "successively (\<lambda>a b. (a, b) \<in> edge_set rs) vs"
    using inv st by (auto simp: dfs_inv_def successively_append_iff)
  moreover have "dfs_position (leave_node v st) w = Some i \<longleftrightarrow> i < length vs \<and> vs ! i = w" for w i
  proof -
    have "dfs_position st w = Some i \<longleftrightarrow> i < length (vs @ [v]) \<and> (vs @ [v]) ! i = w"
      using inv st unfolding dfs_inv_def by simp
    then show ?thesis using nv by (auto simp: leave_node_def nth_append less_Suc_eq)
  qed
  moreover have "dfs_stack (leave_node v st) = vs" using st by (simp add: leave_node_def)
  moreover have "dfs_color (leave_node v st) w = 1 \<longleftrightarrow> w \<in> set vs" for w
    using inv st nv by (auto simp: dfs_inv_def leave_node_def)
  moreover have "dfs_color (leave_node v st) w \<in> {0, 1, 2}" for w
    using inv_colors [OF inv, of w] by (auto simp: leave_node_def)
  ultimately show ?thesis using nv cl ac unfolding dfs_inv_def b by simp
qed

lemma close_cycle_found:
  assumes inv: "dfs_inv rs st" and t: "dfs_color st t = 1"
    and e: "(last (dfs_stack st), t) \<in> edge_set rs"
  shows "\<exists>c. close_cycle rs t st = Inr c \<and> labeled_cycle rs c"
proof -
  have "t \<in> set (dfs_stack st)" using inv t by (auto simp: dfs_inv_def)
  then obtain i where i: "i < length (dfs_stack st)" "dfs_stack st ! i = t"
    by (auto simp: in_set_conv_nth)
  have pos: "dfs_position st t = Some i" using inv i by (auto simp: dfs_inv_def)
  have d: "drop i (dfs_stack st) = t # drop (Suc i) (dfs_stack st)"
    using i by (metis Cons_nth_drop_Suc)
  have "successively (\<lambda>a b. (a, b) \<in> edge_set rs) (take i (dfs_stack st) @ drop i (dfs_stack st))"
    using inv by (simp add: dfs_inv_def)
  then have "successively (\<lambda>a b. (a, b) \<in> edge_set rs) (drop i (dfs_stack st))"
    by (simp only: successively_append_iff)
  moreover have "last (drop i (dfs_stack st)) = last (dfs_stack st)" using i by simp
  ultimately have "successively (\<lambda>a b. (a, b) \<in> edge_set rs) (drop i (dfs_stack st) @ [t])"
    using e by (simp add: successively_append_iff)
  moreover obtain b vs where p: "drop i (dfs_stack st) @ [t] = t # b # vs" "last (b # vs) = t"
    using d by (cases "drop (Suc i) (dfs_stack st)") auto
  ultimately obtain c where "label_path (edge_labels rs) (t # b # vs) = Inr c" "labeled_cycle rs c"
    using label_path_edges [of rs t b vs] by (auto simp: labeled_cycle_def)
  then show ?thesis using pos p by (simp add: close_cycle_def)
qed

definition dfs_result :: "relation list \<Rightarrow> dfs_state \<Rightarrow> string list \<Rightarrow>
    (labeled_edge list option \<times> dfs_state) res \<Rightarrow> bool" where
  "dfs_result rs st vs r \<longleftrightarrow>
     (\<exists>c st'. r = Inr (Some c, st') \<and> labeled_cycle rs c) \<or>
     (\<exists>st'. r = Inr (None, st') \<and> dfs_inv rs st' \<and> dfs_stack st' = dfs_stack st \<and> color_le st st' \<and>
        (\<forall>v \<in> set vs. dfs_color st' v = 2))"

lemma dfs_correct:
  "dfs_inv rs st \<Longrightarrow> dfs_color st v = 0 \<Longrightarrow> v \<in> set (edge_nodes (all_edges rs)) \<Longrightarrow>
   (dfs_stack st \<noteq> [] \<Longrightarrow> (last (dfs_stack st), v) \<in> edge_set rs) \<Longrightarrow>
   card (white rs st) \<le> n \<Longrightarrow> dfs_result rs st [v] (dfs n rs v st)"
  "dfs_inv rs st \<Longrightarrow> dfs_stack st \<noteq> [] \<Longrightarrow> (\<forall>t \<in> set ts. (last (dfs_stack st), t) \<in> edge_set rs) \<Longrightarrow>
   card (white rs st) \<le> n \<Longrightarrow> dfs_result rs st ts (dfs_targets n rs ts st)"
proof (induction n rs v st and n rs ts st rule: dfs_dfs_targets.induct)
  case (1 rs v st)
  then have "v \<in> white rs st" by (simp add: white_def)
  then have "0 < card (white rs st)" by (auto simp: card_gt_0_iff)
  then show ?case using 1 by simp
next
  case (2 n rs v st)
  let ?st = "enter_node v st"
  have inv: "dfs_inv rs ?st" using enter_inv "2.prems" by blast
  have "white rs ?st \<subset> white rs st" using "2.prems" by (auto simp: white_def enter_node_def)
  then have "card (white rs ?st) < card (white rs st)" by (intro psubset_card_mono) auto
  then have "dfs_result rs ?st (sorted_succs rs v) (dfs_targets n rs (sorted_succs rs v) ?st)"
    using "2.IH" inv "2.prems"(5) by (simp add: enter_node_def)
  then consider c st' where "dfs_targets n rs (sorted_succs rs v) ?st = Inr (Some c, st')" "labeled_cycle rs c"
    | st' where "dfs_targets n rs (sorted_succs rs v) ?st = Inr (None, st')" "dfs_inv rs st'"
        "dfs_stack st' = dfs_stack st @ [v]" "color_le ?st st'"
        "\<forall>w. (v, w) \<in> edge_set rs \<longrightarrow> dfs_color st' w = 2"
    unfolding dfs_result_def by (auto simp: enter_node_def)
  then show ?case
  proof cases
    case 1
    then show ?thesis by (simp add: dfs_result_def)
  next
    case (2 st')
    have "color_le st (leave_node v st')"
      using 2(4) "2.prems"(2) by (auto simp: color_le_def enter_node_def leave_node_def split: if_splits)
    then show ?thesis using 2 leave_inv [OF 2(2,3,5)] by (simp add: dfs_result_def leave_node_def)
  qed
next
  case (3 n rs st)
  then show ?case by (simp add: dfs_result_def color_le_refl)
next
  case (4 n rs t ts st)
  consider "dfs_color st t = 0" | "dfs_color st t = 1" | "dfs_color st t = 2"
    using inv_colors [OF "4.prems"(1)] by metis
  then show ?case
  proof cases
    case 1
    have "(last (dfs_stack st), t) \<in> edge_set rs" using "4.prems"(3) by simp
    then have "t \<in> set (edge_nodes (all_edges rs))" by (force simp: set_edge_nodes)
    then have "dfs_result rs st [t] (dfs n rs t st)"
      using "4.IH"(1) [OF 1] "4.prems" 1 by simp
    then consider c st' where "dfs n rs t st = Inr (Some c, st')" "labeled_cycle rs c"
      | st' where "dfs n rs t st = Inr (None, st')" "dfs_inv rs st'"
          "dfs_stack st' = dfs_stack st" "color_le st st'" "dfs_color st' t = 2"
      unfolding dfs_result_def by auto
    then show ?thesis
    proof cases
      case (1 c st')
      then show ?thesis using \<open>dfs_color st t = 0\<close> by (simp add: dfs_result_def)
    next
      case (2 st')
      have "card (white rs st') \<le> n"
        using white_mono [OF 2(4), of rs] "4.prems"(4) by (meson card_mono finite_white le_trans)
      then have r: "dfs_result rs st' ts (dfs_targets n rs ts st')"
        using "4.IH"(2) [OF \<open>dfs_color st t = 0\<close> 2(1) refl] 2 "4.prems" by simp
      have "color_le st st''" "dfs_color st'' t = 2" if "color_le st' st''" for st''
        using that 2 color_le_trans by (auto simp: color_le_def)
      then show ?thesis using r 2 \<open>dfs_color st t = 0\<close> unfolding dfs_result_def by auto
    qed
  next
    case 2
    then show ?thesis using close_cycle_found [OF "4.prems"(1) 2] "4.prems"(3)
      by (auto simp: dfs_result_def)
  next
    case 3
    then have r: "dfs_result rs st ts (dfs_targets n rs ts st)" using "4.IH"(3) "4.prems" by simp
    have "dfs_color st'' t = 2" if "color_le st st''" for st''
      using that 3 by (auto simp: color_le_def)
    then show ?thesis using r 3 unfolding dfs_result_def by auto
  qed
qed

lemma dfs_roots_correct:
  assumes "dfs_inv rs st" "dfs_stack st = []" "set vs \<subseteq> set (edge_nodes (all_edges rs))"
    "card (white rs st) \<le> n" "edge_nodes (all_edges rs) = ns"
    "\<forall>v \<in> set ns. v \<in> set vs \<or> dfs_color st v = 2"
  shows "(\<exists>c. dfs_roots n rs vs st = Inr (Some c) \<and> labeled_cycle rs c) \<or>
    dfs_roots n rs vs st = Inr None \<and> acyclic (edge_set rs)"
  using assms
proof (induction vs arbitrary: st)
  case Nil
  have "edge_set rs \<inter> black st \<times> UNIV = edge_set rs"
    using Nil.prems(5,6) by (force simp: black_def set_edge_nodes)
  then show ?case using Nil.prems(1) by (simp add: dfs_inv_def)
next
  case (Cons v vs)
  show ?case
  proof (cases "dfs_color st v = 0")
    case True
    have "dfs_result rs st [v] (dfs n rs v st)"
      by (rule dfs_correct(1)) (use Cons.prems True in auto)
    then consider c st' where "dfs n rs v st = Inr (Some c, st')" "labeled_cycle rs c"
      | st' where "dfs n rs v st = Inr (None, st')" "dfs_inv rs st'"
          "dfs_stack st' = []" "color_le st st'" "dfs_color st' v = 2"
      unfolding dfs_result_def using Cons.prems(2) by auto
    then show ?thesis
    proof cases
      case (1 c st')
      then show ?thesis using True by simp
    next
      case (2 st')
      have "card (white rs st') \<le> n"
        using white_mono [OF 2(4), of rs] Cons.prems(4) by (meson card_mono finite_white le_trans)
      moreover have "\<forall>u \<in> set ns. u \<in> set vs \<or> dfs_color st' u = 2"
        using Cons.prems(6) 2(4,5) by (auto simp: color_le_def)
      ultimately show ?thesis using Cons.IH [of st'] 2 True Cons.prems by simp
    qed
  next
    case False
    moreover have "dfs_color st v \<noteq> 1" using Cons.prems(1,2) by (simp add: dfs_inv_def)
    ultimately have "dfs_color st v = 2" using inv_colors [OF Cons.prems(1)] by metis
    then have "\<forall>u \<in> set ns. u \<in> set vs \<or> dfs_color st u = 2" using Cons.prems(6) by auto
    then show ?thesis using Cons.IH [of st] Cons.prems False by simp
  qed
qed

lemma initial_inv: "dfs_inv rs initial_dfs"
  by (simp add: dfs_inv_def initial_dfs_def black_def acyclic_def)

lemma find_labeled_cycle_cases:
  obtains (cycle) c where "find_labeled_cycle rs = Inr (Some c)" "labeled_cycle rs c"
  | (none) "find_labeled_cycle rs = Inr None" "acyclic (edge_set rs)"
proof -
  let ?ns = "edge_nodes (all_edges rs)"
  have "distinct ?ns" by (simp add: edge_nodes_def)
  moreover have "white rs initial_dfs \<subseteq> set ?ns" by (auto simp: white_def)
  ultimately have "card (white rs initial_dfs) \<le> length ?ns"
    by (metis card_mono distinct_card finite_set)
  then have "(\<exists>c. find_labeled_cycle rs = Inr (Some c) \<and> labeled_cycle rs c) \<or>
      find_labeled_cycle rs = Inr None \<and> acyclic (edge_set rs)"
    unfolding find_labeled_cycle_def Let_def
    by (intro dfs_roots_correct [OF initial_inv]) (auto simp: initial_dfs_def)
  then show thesis using cycle none by blast
qed

section \<open>The contract\<close>

text \<open>What the axiom checker and the coherence check need of a cycle search.\<close>

locale cycle_finder =
  fixes find :: "relation list \<Rightarrow> labeled_edge list option res"
  assumes find_total: "\<exists>r. find rs = Inr r"
    and find_cycle: "find rs = Inr (Some c) \<Longrightarrow> labeled_cycle rs c"
    and find_none: "find rs = Inr None \<Longrightarrow> acyclic (edge_set rs)"
begin

lemma find_none_iff: "find rs = Inr None \<longleftrightarrow> acyclic (edge_set rs)"
proof
  assume "acyclic (edge_set rs)"
  moreover obtain r where "find rs = Inr r" using find_total by blast
  ultimately show "find rs = Inr None"
    using find_cycle labeled_cycle_cyclic by (cases r) blast+
qed (rule find_none)

lemma find_some_iff: "(\<exists>c. find rs = Inr (Some c)) \<longleftrightarrow> \<not> acyclic (edge_set rs)"
  using find_total [of rs] find_none_iff [of rs] by (metis option.exhaust sum.inject(2) option.distinct(1))

lemma find_no_error: "find rs \<noteq> Inl e"
  using find_total [of rs] by auto

end

interpretation dfs: cycle_finder find_labeled_cycle
proof unfold_locales
  fix rs c
  show "\<exists>r. find_labeled_cycle rs = Inr r" by (cases rule: find_labeled_cycle_cases [of rs]) auto
  show "find_labeled_cycle rs = Inr (Some c) \<Longrightarrow> labeled_cycle rs c"
    by (cases rule: find_labeled_cycle_cases [of rs]) auto
  show "find_labeled_cycle rs = Inr None \<Longrightarrow> acyclic (edge_set rs)"
    by (cases rule: find_labeled_cycle_cases [of rs]) auto
qed

end
