(* ===== verification/TopoOrder.thy ===== *)
theory TopoOrder
  imports CycleSearch
begin

text \<open>
  \<open>_topological_total_order\<close> of \<open>src/src/umcm/graph/rvwmo.py\<close>: Kahn's algorithm with a sorted
  ready list, which produces the global-memory-order witness. The lemmas: on nodes that contain
  every edge the algorithm ends without error; it returns a total order exactly when the union of
  the relations is acyclic, and then the order lists every node once and respects every edge. The
  locale \<open>total_orderer\<close> is what the RVWMO completion relies on.
\<close>

section \<open>Kahn's algorithm\<close>

text \<open>\<open>indegree\<close> counts, for each node, the distinct predecessors not yet ordered.\<close>

definition predecessors :: "edge list \<Rightarrow> string \<Rightarrow> string list" where
  "predecessors es b = remdups (map fst (filter (\<lambda>e. snd e = b) es))"

definition initial_indegree :: "relation list \<Rightarrow> string \<Rightarrow> int" where
  "initial_indegree rs b = int (length (predecessors (all_edges rs) b))"

fun release :: "string list \<Rightarrow> string list \<Rightarrow> (string \<Rightarrow> int) \<Rightarrow> string list \<Rightarrow>
    ((string \<Rightarrow> int) \<times> string list) res" where
  "release nodes [] d ready = Inr (d, ready)"
| "release nodes (t # ts) d ready =
     (if t \<notin> set nodes then Inl PyKeyError
      else let d' = d(t := d t - 1)
           in release nodes ts d' (if d' t = 0 then sort (ready @ [t]) else ready))"

lemma release_measure:
  "release nodes ts d ready = Inr (d', ready') \<Longrightarrow>
   length ready' + card {v \<in> set nodes. 0 < d' v} \<le> length ready + card {v \<in> set nodes. 0 < d v}"
proof (induction nodes ts d ready arbitrary: d' ready' rule: release.induct)
  case (2 nodes t ts d ready)
  let ?d = "d(t := d t - 1)"
  have t: "t \<in> set nodes" using "2.prems" by (simp split: if_splits)
  have r: "release nodes ts ?d (if ?d t = 0 then sort (ready @ [t]) else ready) = Inr (d', ready')"
    using "2.prems" t by (simp add: Let_def)
  note ih = "2.IH" [OF _ refl r]
  show ?case
  proof (cases "d t = 1")
    case True
    then have "{v \<in> set nodes. 0 < d v} = insert t {v \<in> set nodes. 0 < ?d v}" using t by auto
    then have "card {v \<in> set nodes. 0 < d v} = Suc (card {v \<in> set nodes. 0 < ?d v})"
      using True by (simp add: card_insert_if)
    then show ?thesis using ih t True by simp
  next
    case False
    have "card {v \<in> set nodes. 0 < ?d v} \<le> card {v \<in> set nodes. 0 < d v}"
      by (rule card_mono) (auto split: if_splits)
    then show ?thesis using ih t False by simp
  qed
qed simp

function kahn_loop :: "string list \<Rightarrow> relation list \<Rightarrow> (string \<Rightarrow> int) \<Rightarrow> string list \<Rightarrow> string list \<Rightarrow>
    string list res" where
  "kahn_loop nodes rs d [] order = Inr order"
| "kahn_loop nodes rs d (v # ready) order =
     rbind (release nodes (sorted_succs rs v) d ready) (\<lambda>(d', ready').
       kahn_loop nodes rs d' ready' (order @ [v]))"
  by pat_completeness auto
termination
  by (relation "measure (\<lambda>(nodes, rs, d, ready, order). length ready + card {v \<in> set nodes. 0 < d v})")
    (auto dest!: release_measure)

definition topological_total_order :: "string list \<Rightarrow> relation list \<Rightarrow> string list option res" where
  "topological_total_order node_ids rs =
     (let nodes = remdups node_ids in
      rbind (require (list_all (\<lambda>e. snd e \<in> set nodes) (all_edges rs)) PyKeyError) (\<lambda>_.
      rbind (kahn_loop nodes rs (initial_indegree rs)
          (sort (filter (\<lambda>v. initial_indegree rs v = 0) nodes)) []) (\<lambda>order.
        Inr (if length order = length nodes then Some order else None))))"

section \<open>Invariant\<close>

lemma set_predecessors [simp]: "set (predecessors es b) = {a. (a, b) \<in> set es}"
  by (force simp: predecessors_def)

definition pending :: "relation list \<Rightarrow> string set \<Rightarrow> string \<Rightarrow> string set" where
  "pending rs done b = {a. (a, b) \<in> edge_set rs \<and> a \<notin> done}"

lemma finite_edge_set [simp]: "finite (edge_set rs)"
  by (simp add: edge_set_def)

lemma finite_pending [simp]: "finite (pending rs S b)"
  by (rule finite_subset [of _ "fst ` edge_set rs"]) (force simp: pending_def)+

definition obeys :: "edge set \<Rightarrow> string list \<Rightarrow> bool" where
  "obeys E xs \<longleftrightarrow> (\<forall>(a, b) \<in> E. b \<in> set xs \<longrightarrow> (a, b) \<in> set (ordered_pairs xs))"

text \<open>
  Every node waits for the predecessors not ordered yet; the ready nodes are those that wait for
  none; the order built so far respects the edges.
\<close>

definition kahn_inv :: "string list \<Rightarrow> relation list \<Rightarrow> (string \<Rightarrow> int) \<Rightarrow> string list \<Rightarrow> string list \<Rightarrow> bool" where
  "kahn_inv nodes rs d ready order \<longleftrightarrow>
     distinct order \<and> distinct ready \<and> set order \<subseteq> set nodes \<and>
     (\<forall>v \<in> set nodes. d v = int (card (pending rs (set order) v))) \<and>
     set ready = {v \<in> set nodes. v \<notin> set order \<and> pending rs (set order) v = {}} \<and>
     obeys (edge_set rs) order"

lemma ordered_pairs_snoc: "set (ordered_pairs (xs @ [x])) = set (ordered_pairs xs) \<union> set xs \<times> {x}"
  by (induction xs) auto

lemma obeys_snoc:
  "obeys E xs \<Longrightarrow> v \<notin> set xs \<Longrightarrow> \<forall>a. (a, v) \<in> E \<longrightarrow> a \<in> set xs \<Longrightarrow> obeys E (xs @ [v])"
  by (auto simp: obeys_def ordered_pairs_snoc)

text \<open>The inner loop: each successor of the popped node loses one predecessor.\<close>

lemma release_spec:
  assumes "set ts \<subseteq> set nodes" "distinct ts" "distinct ready" "set ts \<inter> set ready = {}"
  shows "\<exists>ready'. release nodes ts d ready =
      Inr (\<lambda>w. if w \<in> set ts then d w - 1 else d w, ready') \<and>
    distinct ready' \<and> set ready' = set ready \<union> {t \<in> set ts. d t = 1}"
  using assms
proof (induction ts arbitrary: d ready)
  case (Cons t ts)
  let ?d = "d(t := d t - 1)" and ?r = "if d t = 1 then sort (ready @ [t]) else ready"
  have "distinct ?r" "set ts \<inter> set ?r = {}" using Cons.prems by auto
  then have "\<exists>ready'. release nodes ts ?d ?r =
      Inr (\<lambda>w. if w \<in> set ts then ?d w - 1 else ?d w, ready') \<and> distinct ready' \<and>
      set ready' = set ?r \<union> {u \<in> set ts. ?d u = 1}"
    using Cons.prems(1,2) by (intro Cons.IH) simp_all
  then obtain ready' where r: "release nodes ts ?d ?r =
      Inr (\<lambda>w. if w \<in> set ts then ?d w - 1 else ?d w, ready')" "distinct ready'"
    "set ready' = set ?r \<union> {u \<in> set ts. ?d u = 1}" by blast
  have f: "(\<lambda>w. if w \<in> set ts then ?d w - 1 else ?d w) = (\<lambda>w. if w \<in> set (t # ts) then d w - 1 else d w)"
    using Cons.prems(2) by auto
  have s: "set ?r \<union> {u \<in> set ts. ?d u = 1} = set ready \<union> {u \<in> set (t # ts). d u = 1}"
    using Cons.prems(2) by auto
  have "release nodes (t # ts) d ready = release nodes ts ?d ?r"
    using Cons.prems(1) by (simp add: Let_def)
  then show ?case using r(2) unfolding r(1) f r(3) [unfolded s, symmetric] by blast
qed simp

lemma pending_insert:
  "pending rs (insert v S) w = pending rs S w - {v}"
  by (auto simp: pending_def)

lemma kahn_step:
  assumes inv: "kahn_inv nodes rs d (v # ready) order" and E: "edge_set rs \<subseteq> set nodes \<times> set nodes"
  shows "\<exists>d' ready'. release nodes (sorted_succs rs v) d ready = Inr (d', ready') \<and>
    kahn_inv nodes rs d' ready' (order @ [v])"
proof -
  have v: "v \<in> set nodes" "v \<notin> set order" "pending rs (set order) v = {}"
    and rd: "distinct ready" "v \<notin> set ready" using inv by (auto simp: kahn_inv_def)
  have dv: "d w = int (card (pending rs (set order) w))" if "w \<in> set nodes" for w
    using inv that by (simp add: kahn_inv_def)
  have ready: "set ready = {w \<in> set nodes. w \<notin> set order \<and> pending rs (set order) w = {}} - {v}"
    using inv by (auto simp: kahn_inv_def)
  have succ: "v \<in> pending rs (set order) w" if "(v, w) \<in> edge_set rs" for w
    using that v(2) by (simp add: pending_def)
  have "set (sorted_succs rs v) \<subseteq> set nodes" using E by auto
  moreover have "distinct (sorted_succs rs v)" by (simp add: sorted_succs_def successors_def)
  moreover have "set (sorted_succs rs v) \<inter> set ready = {}" using succ ready by auto
  ultimately obtain ready' where r: "release nodes (sorted_succs rs v) d ready =
      Inr (\<lambda>w. if w \<in> set (sorted_succs rs v) then d w - 1 else d w, ready')" "distinct ready'"
    "set ready' = set ready \<union> {t \<in> set (sorted_succs rs v). d t = 1}"
    using release_spec [OF _ _ rd(1)] by blast
  have card: "(if (v, w) \<in> edge_set rs then d w - 1 else d w) = int (card (pending rs (insert v (set order)) w))"
    if "w \<in> set nodes" for w
  proof (cases "(v, w) \<in> edge_set rs")
    case True
    then have "Suc (card (pending rs (set order) w - {v})) = card (pending rs (set order) w)"
      using card_Suc_Diff1 [OF finite_pending succ] by blast
    then show ?thesis using True dv [OF that] by (simp add: pending_insert)
  next
    case False
    then have "v \<notin> pending rs (set order) w" by (simp add: pending_def)
    then show ?thesis using False dv [OF that] by (simp add: pending_insert)
  qed
  have one: "d w = 1 \<longleftrightarrow> pending rs (set order) w = {v}" if "(v, w) \<in> edge_set rs" for w
  proof -
    have "w \<in> set nodes" using that E by auto
    then have "d w = 1 \<longleftrightarrow> card (pending rs (set order) w) = 1" using dv by simp
    also have "\<dots> \<longleftrightarrow> pending rs (set order) w = {v}"
    proof
      assume "card (pending rs (set order) w) = 1"
      then obtain x where x: "pending rs (set order) w = {x}" by (rule card_1_singletonE)
      then have "x = v" using succ [OF that] by simp
      then show "pending rs (set order) w = {v}" using x by simp
    qed simp
    finally show ?thesis .
  qed
  have loop: "(v, v) \<notin> edge_set rs" using v(2,3) by (auto simp: pending_def)
  have "set ready' = {w \<in> set nodes. w \<notin> set (order @ [v]) \<and> pending rs (set (order @ [v])) w = {}}"
  proof (rule set_eqI)
    fix w
    have "w \<notin> set order" if "(v, w) \<in> edge_set rs"
    proof
      assume "w \<in> set order"
      then have "(v, w) \<in> set (ordered_pairs order)"
        using inv that by (auto simp: kahn_inv_def obeys_def)
      then show False using v(2) by (auto dest: ordered_pairs_mem)
    qed
    note fresh = this
    have p: "pending rs (set (order @ [v])) u = pending rs (set order) u - {v}" for u
      by (auto simp: pending_def)
    show "w \<in> set ready' \<longleftrightarrow> w \<in> {w \<in> set nodes. w \<notin> set (order @ [v]) \<and> pending rs (set (order @ [v])) w = {}}"
    proof (cases "(v, w) \<in> edge_set rs")
      case True
      then have "w \<in> set nodes" "w \<notin> set order" "w \<noteq> v" "v \<in> pending rs (set order) w"
        using E fresh loop succ by auto
      then show ?thesis unfolding r(3) ready p using True one by auto
    next
      case False
      then have "v \<notin> pending rs (set order) w" by (simp add: pending_def)
      then show ?thesis unfolding r(3) ready p using False by auto
    qed
  qed
  moreover have "obeys (edge_set rs) (order @ [v])"
    using inv v by (intro obeys_snoc) (auto simp: kahn_inv_def pending_def)
  moreover have "distinct (order @ [v])" "set (order @ [v]) \<subseteq> set nodes"
    using inv v by (auto simp: kahn_inv_def)
  ultimately show ?thesis using r card by (auto simp: kahn_inv_def)
qed

lemma kahn_loop_inv:
  "kahn_inv nodes rs d ready order \<Longrightarrow> edge_set rs \<subseteq> set nodes \<times> set nodes \<Longrightarrow>
   \<exists>d' order'. kahn_loop nodes rs d ready order = Inr order' \<and> kahn_inv nodes rs d' [] order'"
proof (induction nodes rs d ready order rule: kahn_loop.induct)
  case (2 nodes rs d v ready order)
  obtain d' ready' where r: "release nodes (sorted_succs rs v) d ready = Inr (d', ready')"
    "kahn_inv nodes rs d' ready' (order @ [v])" using kahn_step "2.prems" by blast
  then show ?case using "2.IH" [OF r(1) refl] "2.prems" by simp
qed auto

lemma kahn_initial:
  assumes "distinct nodes"
  shows "kahn_inv nodes rs (initial_indegree rs) (sort (filter (\<lambda>v. initial_indegree rs v = 0) nodes)) []"
proof -
  have "initial_indegree rs v = int (card (pending rs {} v))" for v
  proof -
    have "distinct (predecessors (all_edges rs) v)" by (simp add: predecessors_def)
    from distinct_card [OF this] show ?thesis by (simp add: initial_indegree_def pending_def)
  qed
  then show ?thesis using assms by (auto simp: kahn_inv_def obeys_def)
qed

text \<open>When the loop stops early, every node left waits for another one: there is a cycle.\<close>

lemma kahn_stuck:
  assumes "kahn_inv nodes rs d [] order" "set order \<noteq> set nodes"
    "edge_set rs \<subseteq> set nodes \<times> set nodes"
  shows "\<not> acyclic (edge_set rs)"
proof
  assume "acyclic (edge_set rs)"
  then have wf: "wf (edge_set rs)" by (intro finite_acyclic_wf) simp_all
  obtain v where "v \<in> set nodes - set order" using assms(1,2) by (auto simp: kahn_inv_def)
  then obtain w where w: "w \<in> set nodes - set order"
    "\<And>u. (u, w) \<in> edge_set rs \<Longrightarrow> u \<notin> set nodes - set order"
    using wfE_min [OF wf] by metis
  then have "pending rs (set order) w = {}" using assms(3) by (auto simp: pending_def)
  then show False using assms(1) w(1) by (auto simp: kahn_inv_def)
qed

lemma ordered_acyclic:
  assumes "distinct xs" "E \<subseteq> set (ordered_pairs xs)" shows "acyclic E"
proof -
  have "trans (set (ordered_pairs xs))" using assms(1) by (auto intro: transI ordered_pairs_trans)
  then have "(set (ordered_pairs xs))\<^sup>+ = set (ordered_pairs xs)" by (rule trancl_id)
  then have "acyclic (set (ordered_pairs xs))"
    using ordered_pairs_irrefl [OF assms(1)] by (simp add: acyclic_def)
  then show ?thesis using assms(2) by (rule acyclic_subset)
qed

section \<open>The contract\<close>

text \<open>\<open>total_order_of nodes E xs\<close>: \<open>xs\<close> lists the nodes once each and respects \<open>E\<close>.\<close>

definition total_order_of :: "string list \<Rightarrow> edge set \<Rightarrow> string list \<Rightarrow> bool" where
  "total_order_of nodes E xs \<longleftrightarrow> distinct xs \<and> set xs = set nodes \<and> E \<subseteq> set (ordered_pairs xs)"

locale total_orderer =
  fixes tsort :: "string list \<Rightarrow> relation list \<Rightarrow> string list option res"
  assumes tsort_total: "edge_set rs \<subseteq> set nodes \<times> set nodes \<Longrightarrow> \<exists>r. tsort nodes rs = Inr r"
    and tsort_some: "edge_set rs \<subseteq> set nodes \<times> set nodes \<Longrightarrow> tsort nodes rs = Inr (Some xs) \<Longrightarrow>
      total_order_of nodes (edge_set rs) xs"
    and tsort_none: "edge_set rs \<subseteq> set nodes \<times> set nodes \<Longrightarrow> tsort nodes rs = Inr None \<Longrightarrow>
      \<not> acyclic (edge_set rs)"
begin

lemma tsort_some_iff:
  assumes "edge_set rs \<subseteq> set nodes \<times> set nodes"
  shows "(\<exists>xs. tsort nodes rs = Inr (Some xs)) \<longleftrightarrow> acyclic (edge_set rs)"
proof
  assume "\<exists>xs. tsort nodes rs = Inr (Some xs)"
  then show "acyclic (edge_set rs)"
    using tsort_some [OF assms] ordered_acyclic by (auto simp: total_order_of_def)
next
  assume "acyclic (edge_set rs)"
  then show "\<exists>xs. tsort nodes rs = Inr (Some xs)"
    using tsort_total [OF assms] tsort_none [OF assms] by (metis not_None_eq)
qed

end

lemma topological_cases:
  assumes E: "edge_set rs \<subseteq> set nodes \<times> set nodes"
  obtains (order) xs where "topological_total_order nodes rs = Inr (Some xs)"
      "total_order_of nodes (edge_set rs) xs"
  | (none) "topological_total_order nodes rs = Inr None" "\<not> acyclic (edge_set rs)"
proof -
  let ?ns = "remdups nodes" and ?d = "initial_indegree rs"
  have E': "edge_set rs \<subseteq> set ?ns \<times> set ?ns" using E by simp
  obtain d' xs where k: "kahn_loop ?ns rs ?d (sort (filter (\<lambda>v. ?d v = 0) ?ns)) [] = Inr xs"
    "kahn_inv ?ns rs d' [] xs"
    using kahn_loop_inv [OF kahn_initial E'] by auto
  have t: "topological_total_order nodes rs = Inr (if length xs = length ?ns then Some xs else None)"
  proof -
    have "list_all (\<lambda>e. snd e \<in> set ?ns) (all_edges rs)" using E by (auto simp: list_all_iff)
    then show ?thesis using k(1) by (simp only: topological_total_order_def Let_def require_True rbind.simps)
  qed
  have d: "distinct xs" "set xs \<subseteq> set nodes" using k(2) by (auto simp: kahn_inv_def)
  then have len: "length xs = length ?ns \<longleftrightarrow> set xs = set nodes"
    by (metis card_subset_eq distinct_card distinct_remdups finite_set set_remdups)
  show thesis
  proof (cases "set xs = set nodes")
    case True
    then have "edge_set rs \<subseteq> set (ordered_pairs xs)"
      using k(2) E by (auto simp: kahn_inv_def obeys_def)
    then have "total_order_of nodes (edge_set rs) xs" using True d by (simp add: total_order_of_def)
    then show thesis using order t len True by simp
  next
    case False
    then have "\<not> acyclic (edge_set rs)" using kahn_stuck [OF k(2) _ E'] by simp
    then show thesis using none t len False by simp
  qed
qed

interpretation kahn: total_orderer topological_total_order
proof unfold_locales
  fix rs nodes xs
  assume E: "edge_set rs \<subseteq> set nodes \<times> set nodes"
  show "\<exists>r. topological_total_order nodes rs = Inr r" by (cases rule: topological_cases [OF E]) auto
  show "topological_total_order nodes rs = Inr (Some xs) \<Longrightarrow> total_order_of nodes (edge_set rs) xs"
    by (cases rule: topological_cases [OF E]) auto
  show "topological_total_order nodes rs = Inr None \<Longrightarrow> \<not> acyclic (edge_set rs)"
    by (cases rule: topological_cases [OF E]) auto
qed

end
