(* ===== verification/Rvwmo.thy ===== *)
theory Rvwmo
  imports ExecGraph TopoOrder
begin

text \<open>
  \<open>src/src/umcm/graph/rvwmo.py\<close>: footprints and ordering annotations of operations, the
  validation of program order, reads-from and coherence, the thirteen preserved-program-order
  rules, the completion of a graph with its derived relations and one global-memory-order witness,
  and the checks of the RVWMO axioms. Everything here is the code; what it means is proved in
  \<open>RvwmoFacts\<close> and \<open>RvwmoSpec\<close>.
\<close>

unbundle bit_operations_syntax

section \<open>Footprints\<close>

fun bit_length :: "nat \<Rightarrow> nat" where
  "bit_length n = (if n = 0 then 0 else Suc (bit_length (n div 2)))"

declare bit_length.simps [simp del]

definition mask_offsets :: "int \<Rightarrow> nat list" where
  "mask_offsets m = filter (\<lambda>k. m AND push_bit k 1 \<noteq> 0) [0..<bit_length (nat m)]"

text \<open>The members of the frozenset; it is only intersected and compared.\<close>

definition footprint :: "memory_op \<Rightarrow> pyval list res" where
  "footprint m =
     (case get_default (mo_metadata m) ''byte_addresses'' VNone of
        VScalar SNone \<Rightarrow>
          (case (as_int (mo_address m),
                 as_int (get_default (mo_metadata m) ''byte_mask'' VNone),
                 as_int (get_default (mo_metadata m) ''size'' (VInt 1))) of
             (Some a, Some bm, _) \<Rightarrow>
               if bm \<le> 0 then Inl GraphError
               else Inr (map (\<lambda>k. VInt (a + int k)) (mask_offsets bm))
           | (Some a, None, Some n) \<Rightarrow>
               if n \<le> 0 then Inl GraphError
               else Inr (map (\<lambda>k. VInt (a + int k)) [0..<nat n])
           | _ \<Rightarrow> if hashable (mo_address m) then Inr [mo_address m] else Inl GraphError)
      | VList vs \<Rightarrow>
          if vs = [] \<or> \<not> list_all hashable vs then Inl GraphError else Inr vs
      | _ \<Rightarrow> Inl GraphError)"

definition meets :: "pyval list \<Rightarrow> pyval list \<Rightarrow> bool" where
  "meets xs ys \<longleftrightarrow> list_ex (\<lambda>x. py_mem x ys) xs"

definition same_members :: "pyval list \<Rightarrow> pyval list \<Rightarrow> bool" where
  "same_members xs ys \<longleftrightarrow> list_all (\<lambda>x. py_mem x ys) xs \<and> list_all (\<lambda>y. py_mem y xs) ys"

definition overlap :: "memory_op \<Rightarrow> memory_op \<Rightarrow> bool res" where
  "overlap l r = rbind (footprint l) (\<lambda>xs. rbind (footprint r) (\<lambda>ys. Inr (meets xs ys)))"

definition same_location :: "memory_op \<Rightarrow> memory_op \<Rightarrow> bool res" where
  "same_location l r =
     rbind (footprint l) (\<lambda>xs. rbind (footprint r) (\<lambda>ys. Inr (same_members xs ys)))"

text \<open>\<open>_footprint(source) & _footprint(target) & _footprint(middle)\<close> is not empty.\<close>

definition common_overlap :: "memory_op \<Rightarrow> memory_op \<Rightarrow> memory_op \<Rightarrow> bool res" where
  "common_overlap s t m =
     rbind (footprint s) (\<lambda>xs. rbind (footprint t) (\<lambda>ys. rbind (footprint m) (\<lambda>zs.
       Inr (meets (filter (\<lambda>x. py_mem x ys) xs) zs))))"

section \<open>Annotations\<close>

definition metadata_of :: "memory_op \<Rightarrow> string \<Rightarrow> pyval \<Rightarrow> pyval" where
  "metadata_of m k d = get_default (mo_metadata m) k d"

definition regular :: "memory_op \<Rightarrow> bool" where
  "regular m \<longleftrightarrow> py_lower (py_str (metadata_of m ''memory_region'' (VStr ''main'')))
     \<in> {''main'', ''regular'', ''memory''}"

definition tokens :: "memory_op \<Rightarrow> string list" where
  "tokens m =
     map (\<lambda>v. map (\<lambda>c. if c = CHR ''-'' then CHR ''_'' else c) (py_lower (py_str v)))
       (case metadata_of m ''ordering'' (VList []) of
          VStr s \<Rightarrow> [VStr s] | VList vs \<Rightarrow> vs | _ \<Rightarrow> [])"

definition has_token :: "memory_op \<Rightarrow> string list \<Rightarrow> bool" where
  "has_token m ts \<longleftrightarrow> list_ex (\<lambda>t. t \<in> set ts) (tokens m)"

definition acquire :: "memory_op \<Rightarrow> bool" where
  "acquire m \<longleftrightarrow> truthy (metadata_of m ''acquire'' (VBool False)) \<or>
     has_token m [''acquire'', ''acquire_rcpc'', ''acquire_rcsc'', ''aq'']"

definition release_op :: "memory_op \<Rightarrow> bool" where
  "release_op m \<longleftrightarrow> truthy (metadata_of m ''release'' (VBool False)) \<or>
     has_token m [''release'', ''release_rcpc'', ''release_rcsc'', ''rl'']"

definition rcsc :: "memory_op \<Rightarrow> bool" where
  "rcsc m \<longleftrightarrow> truthy (metadata_of m ''rcsc'' (VBool False)) \<or>
     has_token m [''acquire_rcsc'', ''release_rcsc'', ''rcsc'', ''aq'', ''rl'']"

section \<open>Program order\<close>

type_synonym op_map = "(string \<times> memory_op) list"
type_synonym rel_map = "(string \<times> relation) list"

definition ops_list :: "op_map \<Rightarrow> memory_op list" where
  "ops_list ops = map snd ops"

definition rel_or_empty :: "rel_map \<Rightarrow> string \<Rightarrow> relation" where
  "rel_or_empty rels n = (case map_of rels n of None \<Rightarrow> \<lparr>rel_name = n, rel_edges = []\<rparr> | Some r \<Rightarrow> r)"

text \<open>
  \<open>sorted(..., key=(program_index, id))\<close> compares \<open>None\<close> with a number only when a hart has
  both; two operations without an index count as a repeated index.
\<close>

definition order_hart :: "memory_op list \<Rightarrow> memory_op list res" where
  "order_hart ms =
     (if list_ex (\<lambda>m. mo_index m = None) ms \<and> list_ex (\<lambda>m. mo_index m \<noteq> None) ms then Inl PyTypeError
      else let ordered = sort_key (\<lambda>m. (case mo_index m of None \<Rightarrow> 0 | Some i \<Rightarrow> i, mo_id m)) ms
           in if distinct (map mo_index ordered) then Inr ordered else Inl GraphError)"

definition harts :: "op_map \<Rightarrow> (int option \<times> memory_op list) list" where
  "harts ops = group_by mo_hart (filter (\<lambda>m. mo_hart m \<noteq> None) (ops_list ops))"

definition canonical_po :: "op_map \<Rightarrow> relation res" where
  "canonical_po ops =
     rbind (traverse (\<lambda>(h, ms). order_hart ms) (harts ops)) (\<lambda>orders.
       from_edges ''po'' (concat (map (\<lambda>ms. map (\<lambda>(a, b). (mo_id a, mo_id b)) (ordered_pairs ms)) orders)))"

section \<open>Reads-from and coherence\<close>

fun all_res :: "('a \<Rightarrow> bool res) \<Rightarrow> py_error \<Rightarrow> 'a list \<Rightarrow> unit res" where
  "all_res p e [] = Inr ()"
| "all_res p e (x # xs) = rbind (p x) (\<lambda>b. if b then all_res p e xs else Inl e)"

fun any_res :: "('a \<Rightarrow> bool res) \<Rightarrow> 'a list \<Rightarrow> bool res" where
  "any_res p [] = Inr False"
| "any_res p (x # xs) = rbind (p x) (\<lambda>b. if b then Inr True else any_res p xs)"

definition validate_scalar_locations :: "op_map \<Rightarrow> unit res" where
  "validate_scalar_locations ops =
     all_res (\<lambda>(l, r). rbind (overlap l r) (\<lambda>o1. if o1 then same_location l r else Inr True)) GraphError
       (ordered_pairs (ops_list ops))"

definition rf_edge_ok :: "op_map \<Rightarrow> edge \<Rightarrow> bool res" where
  "rf_edge_ok ops e =
     (case (map_of ops (fst e), map_of ops (snd e)) of
        (Some w, Some r) \<Rightarrow>
          if \<not> is_write w \<or> \<not> is_read r \<or> fst e = snd e then Inr False
          else rbind (same_location w r) (\<lambda>same.
            if \<not> same then Inr False
            else rbind (stored_value w) (\<lambda>v. rbind (read_value r) (\<lambda>u. Inr (py_eq v u))))
      | _ \<Rightarrow> Inr False)"

definition rf_sources :: "op_map \<Rightarrow> relation \<Rightarrow> (string \<times> string) list res" where
  "rf_sources ops rf =
     rbind (all_res (rf_edge_ok ops) GraphError (rel_edges rf)) (\<lambda>_.
       traverse (\<lambda>r.
         (case map fst (filter (\<lambda>e. snd e = mo_id r) (rel_edges rf)) of
            [w] \<Rightarrow> Inr (mo_id r, w)
          | _ \<Rightarrow> Inl GraphError)) (filter is_read (ops_list ops)))"

definition co_edge_ok :: "op_map \<Rightarrow> edge \<Rightarrow> bool res" where
  "co_edge_ok ops e =
     (case (map_of ops (fst e), map_of ops (snd e)) of
        (Some a, Some b) \<Rightarrow>
          if \<not> is_write a \<or> \<not> is_write b \<or> fst e = snd e then Inr False else same_location a b
      | _ \<Rightarrow> Inr False)"

definition validate_co :: "op_map \<Rightarrow> relation \<Rightarrow> unit res" where
  "validate_co ops co =
     (let writes = filter is_write (ops_list ops) in
      rbind (all_res (co_edge_ok ops) GraphError (rel_edges co)) (\<lambda>_.
      rbind (all_res (\<lambda>(l, r).
          rbind (same_location l r) (\<lambda>same.
            Inr (same \<longrightarrow> (contains co (mo_id l) (mo_id r)) \<noteq> (contains co (mo_id r) (mo_id l)))))
        GraphError (ordered_pairs writes)) (\<lambda>_.
      rbind (find_labeled_cycle [co]) (\<lambda>cyc.
      rbind (require (cyc = None) GraphError) (\<lambda>_.
        all_res (\<lambda>(i, w).
            if mo_id w = mo_id i then Inr True
            else rbind (same_location i w) (\<lambda>same. Inr (same \<longrightarrow> contains co (mo_id i) (mo_id w))))
          GraphError
          (concat (map (\<lambda>i. map (Pair i) writes) (filter (\<lambda>w. mo_kind w = INIT_WRITE) writes))))))))"

section \<open>Preserved program order\<close>

definition between :: "memory_op \<Rightarrow> memory_op \<Rightarrow> memory_op \<Rightarrow> bool" where
  "between s m t \<longleftrightarrow> mo_hart s \<noteq> None \<and> mo_hart s = mo_hart m \<and> mo_hart m = mo_hart t \<and>
     (case (mo_index s, mo_index m, mo_index t) of
        (Some i, Some j, Some k) \<Rightarrow> i < j \<and> j < k | _ \<Rightarrow> False)"

definition RVWMO_INPUT_RELATIONS :: "string list" where
  "RVWMO_INPUT_RELATIONS = [''addr'', ''data'', ''ctrl'', ''fence'', ''pair'', ''pipeline'']"

definition validate_input_edges :: "relation \<Rightarrow> relation \<Rightarrow> op_map \<Rightarrow> unit res" where
  "validate_input_edges r po ops =
     require (list_all (\<lambda>e. fst e \<in> fst ` set ops \<and> snd e \<in> fst ` set ops \<and>
       e \<in> set (rel_edges po)) (rel_edges r)) GraphError"

type_synonym source_map = "(string \<times> string) list"

definition source_of :: "source_map \<Rightarrow> string \<Rightarrow> string res" where
  "source_of rf i = or_raise (map_of rf i) PyKeyError"

definition ppo_rule1 :: "memory_op \<Rightarrow> memory_op \<Rightarrow> bool res" where
  "ppo_rule1 s t = (if is_write t then overlap s t else Inr False)"

definition ppo_rule2 :: "op_map \<Rightarrow> source_map \<Rightarrow> memory_op \<Rightarrow> memory_op \<Rightarrow> bool res" where
  "ppo_rule2 ops rf s t =
     (if is_read s \<and> is_read t then
        rbind (overlap s t) (\<lambda>ov.
          if \<not> ov then Inr False
          else rbind (any_res (\<lambda>m. if is_write m \<and> between s m t then common_overlap s t m else Inr False)
                 (ops_list ops)) (\<lambda>intervening.
            if intervening then Inr False
            else rbind (source_of rf (mo_id s)) (\<lambda>a. rbind (source_of rf (mo_id t)) (\<lambda>b. Inr (a \<noteq> b)))))
      else Inr False)"

definition ppo_rule3 :: "source_map \<Rightarrow> memory_op \<Rightarrow> memory_op \<Rightarrow> bool res" where
  "ppo_rule3 rf s t =
     (if (atomic_kind s = ''amo'' \<or> atomic_kind s = ''sc'') \<and> is_read t
      then rbind (source_of rf (mo_id t)) (\<lambda>a. Inr (a = mo_id s)) else Inr False)"

definition ppo_rule12 :: "op_map \<Rightarrow> rel_map \<Rightarrow> source_map \<Rightarrow> memory_op \<Rightarrow> memory_op \<Rightarrow> bool res" where
  "ppo_rule12 ops rels rf s t =
     (if is_read t then
        any_res (\<lambda>m. if is_write m \<and> between s m t
            then rbind (source_of rf (mo_id t)) (\<lambda>a. Inr (a = mo_id m \<and>
              (contains (rel_or_empty rels ''addr'') (mo_id s) (mo_id m) \<or>
               contains (rel_or_empty rels ''data'') (mo_id s) (mo_id m))))
            else Inr False) (ops_list ops)
      else Inr False)"

definition ppo_rule13 :: "op_map \<Rightarrow> rel_map \<Rightarrow> memory_op \<Rightarrow> memory_op \<Rightarrow> bool" where
  "ppo_rule13 ops rels s t \<longleftrightarrow> is_write t \<and>
     (contains (rel_or_empty rels ''pipeline'') (mo_id s) (mo_id t) \<or>
      list_ex (\<lambda>m. between s m t \<and> contains (rel_or_empty rels ''addr'') (mo_id s) (mo_id m)) (ops_list ops))"

text \<open>Which of the thirteen rules order one program-order edge; none when a side is not regular memory.\<close>

definition ppo_rules :: "op_map \<Rightarrow> rel_map \<Rightarrow> source_map \<Rightarrow> memory_op \<Rightarrow> memory_op \<Rightarrow> bool list res" where
  "ppo_rules ops rels rf s t =
     (let in_rel = (\<lambda>n. contains (rel_or_empty rels n) (mo_id s) (mo_id t)) in
      traverse (\<lambda>r. r)
        [ppo_rule1 s t, ppo_rule2 ops rf s t, ppo_rule3 rf s t,
         Inr (in_rel ''fence''), Inr (acquire s), Inr (release_op t), Inr (rcsc s \<and> rcsc t),
         Inr (in_rel ''pair''), Inr (in_rel ''addr''),
         Inr (is_write t \<and> in_rel ''data''), Inr (is_write t \<and> in_rel ''ctrl''),
         ppo_rule12 ops rels rf s t, Inr (ppo_rule13 ops rels s t)])"

definition ppo_flags :: "op_map \<Rightarrow> rel_map \<Rightarrow> source_map \<Rightarrow> edge \<Rightarrow> bool list res" where
  "ppo_flags ops rels rf e =
     rbind (or_raise (map_of ops (fst e)) PyKeyError) (\<lambda>s.
     rbind (or_raise (map_of ops (snd e)) PyKeyError) (\<lambda>t.
       if regular s \<and> regular t then ppo_rules ops rels rf s t else Inr (replicate 13 False)))"

definition ppo_rule_name :: "nat \<Rightarrow> string" where
  "ppo_rule_name i = ''ppo_rule'' @ dec_nat i"

definition derive_ppo :: "op_map \<Rightarrow> rel_map \<Rightarrow> source_map \<Rightarrow> relation list res" where
  "derive_ppo ops rels rf =
     (let po = rel_or_empty rels ''po'' in
      rbind (traverse (\<lambda>n. validate_input_edges (rel_or_empty rels n) po ops) RVWMO_INPUT_RELATIONS) (\<lambda>_.
      rbind (traverse (ppo_flags ops rels rf) (rel_edges po)) (\<lambda>flags.
      rbind (traverse (\<lambda>i. from_edges (ppo_rule_name (Suc i))
          (map fst (filter (\<lambda>(e, fl). fl ! i) (zip (rel_edges po) flags)))) [0..<13]) (\<lambda>named.
      rbind (union_relations ''ppo'' named) (\<lambda>u. Inr (named @ [u]))))))"

section \<open>Completion\<close>

definition RVWMO_ORDER_RELATIONS :: "string list" where
  "RVWMO_ORDER_RELATIONS = [''ppo'', ''rfe'', ''co'', ''fr'']"

definition hart_of :: "op_map \<Rightarrow> string \<Rightarrow> int option res" where
  "hart_of ops i = rbind (or_raise (map_of ops i) PyKeyError) (\<lambda>m. Inr (mo_hart m))"

text \<open>The edges of a relation whose two sides run on the same hart.\<close>

definition internal_edges :: "op_map \<Rightarrow> edge list \<Rightarrow> edge list res" where
  "internal_edges ops es =
     rbind (traverse (\<lambda>e. rbind (hart_of ops (fst e)) (\<lambda>a. rbind (hart_of ops (snd e)) (\<lambda>b. Inr (a = b)))) es) (\<lambda>bs.
       Inr (map fst (filter snd (zip es bs))))"

definition fr_edges :: "relation \<Rightarrow> relation \<Rightarrow> edge list" where
  "fr_edges rf co =
     concat (map (\<lambda>(w, r). map (\<lambda>(b, l). (r, l)) (filter (\<lambda>(b, l). b = w \<and> l \<noteq> r) (rel_edges co)))
       (rel_edges rf))"

definition update_relations :: "rel_map \<Rightarrow> relation list \<Rightarrow> rel_map" where
  "update_relations d rs = foldl (\<lambda>d r. AList.update (rel_name r) r d) d rs"

definition complete_rvwmo_relations :: "exec_graph \<Rightarrow> exec_graph res" where
  "complete_rvwmo_relations g =
     (let ops = eg_operations g in
      rbind (require (list_all regular (ops_list ops)) GraphError) (\<lambda>_.
      rbind (validate_scalar_locations ops) (\<lambda>_.
      rbind (canonical_po ops) (\<lambda>po.
      rbind (require (case map_of (eg_relations g) ''po'' of None \<Rightarrow> True
          | Some r \<Rightarrow> set (rel_edges r) = set (rel_edges po)) GraphError) (\<lambda>_.
      let rels = AList.update ''po'' po (eg_relations g) in
      rbind (or_raise (map_of rels ''rf'') GraphError) (\<lambda>rf.
      rbind (or_raise (map_of rels ''co'') GraphError) (\<lambda>co.
      rbind (rf_sources ops rf) (\<lambda>srcs.
      rbind (validate_co ops co) (\<lambda>_.
      rbind (rbind (internal_edges ops (rel_edges rf)) (from_edges ''rfi'')) (\<lambda>rfi.
      rbind (from_edges ''rfe'' (filter (\<lambda>e. e \<notin> set (rel_edges rfi)) (rel_edges rf))) (\<lambda>rfe.
      rbind (from_edges ''fr'' (fr_edges rf co)) (\<lambda>fr.
      rbind (rbind (internal_edges ops (rel_edges fr)) (from_edges ''fri'')) (\<lambda>fri.
      rbind (from_edges ''fre'' (filter (\<lambda>e. e \<notin> set (rel_edges fri)) (rel_edges fr))) (\<lambda>fre.
      let rels = update_relations rels [rfi, rfe, fr, fri, fre] in
      rbind (derive_ppo ops rels srcs) (\<lambda>ppos.
      let rels = update_relations rels ppos in
      rbind (traverse (\<lambda>n. or_raise (map_of rels n) PyKeyError) RVWMO_ORDER_RELATIONS) (\<lambda>orders.
      rbind (topological_total_order (map fst ops) orders) (\<lambda>gmo_order.
      rbind (from_edges ''gmo'' (case gmo_order of None \<Rightarrow> [] | Some xs \<Rightarrow> ordered_pairs xs)) (\<lambda>gmo.
        mk_graph \<lparr>eg_operations = ops, eg_relations = AList.update ''gmo'' gmo rels,
          eg_candidate = eg_candidate g,
          eg_metadata = AList.update ''gmo_order''
            (VList (case gmo_order of None \<Rightarrow> [] | Some xs \<Rightarrow> map VStr xs))
            (AList.update ''builtin_model'' (VStr ''rvwmo'') (eg_metadata g)),
          eg_version = eg_version g\<rparr>))))))))))))))))))"

section \<open>Checks\<close>

definition gmo_order_of :: "exec_graph \<Rightarrow> string list res" where
  "gmo_order_of g =
     (case get_default (eg_metadata g) ''gmo_order'' VNone of
        VList vs \<Rightarrow> traverse (\<lambda>v. case v of VStr s \<Rightarrow> Inr s | _ \<Rightarrow> Inl Unmodelled) vs
      | v \<Rightarrow> if truthy v then Inl Unmodelled else Inr [])"

definition position :: "string list \<Rightarrow> string \<Rightarrow> nat res" where
  "position order i = or_raise (map_of (rev (zip order [0..<length order])) i) PyKeyError"

text \<open>The writes a load may take its value from: earlier in memory order or in program order.\<close>

definition eligible_write :: "string list \<Rightarrow> relation \<Rightarrow> memory_op \<Rightarrow> memory_op \<Rightarrow> bool res" where
  "eligible_write order po r w =
     (if \<not> is_write w \<or> mo_id w = mo_id r then Inr False
      else rbind (same_location w r) (\<lambda>same.
        if \<not> same then Inr False
        else rbind (position order (mo_id w)) (\<lambda>i. rbind (position order (mo_id r)) (\<lambda>j.
          Inr (i < j \<or> contains po (mo_id w) (mo_id r))))))"

fun filter_res :: "('a \<Rightarrow> bool res) \<Rightarrow> 'a list \<Rightarrow> 'a list res" where
  "filter_res p [] = Inr []"
| "filter_res p (x # xs) = rbind (p x) (\<lambda>b. rbind (filter_res p xs) (\<lambda>ys. Inr (if b then x # ys else ys)))"

text \<open>\<open>max(xs, key=f)\<close>: the first element with the greatest key.\<close>

fun max_by :: "('a \<Rightarrow> nat) \<Rightarrow> 'a \<Rightarrow> 'a list \<Rightarrow> 'a" where
  "max_by f m [] = m"
| "max_by f m (x # xs) = max_by f (if f m < f x then x else m) xs"

definition load_offense :: "op_map \<Rightarrow> string list \<Rightarrow> relation \<Rightarrow> source_map \<Rightarrow> memory_op \<Rightarrow> edge list res" where
  "load_offense ops order po srcs r =
     rbind (filter_res (eligible_write order po r) (ops_list ops)) (\<lambda>eligible.
     rbind (source_of srcs (mo_id r)) (\<lambda>src.
       case eligible of
         [] \<Rightarrow> Inr [(src, mo_id r)]
       | w # ws \<Rightarrow>
           rbind (traverse (\<lambda>x. position order (mo_id x)) (w # ws)) (\<lambda>ps.
             let latest = max_by snd (w, hd ps) (zip ws (tl ps))
             in Inr (if mo_id (fst latest) \<noteq> src then [(src, mo_id r)] else []))))"

definition load_value_offenses :: "exec_graph \<Rightarrow> edge list res" where
  "load_value_offenses g =
     rbind (gmo_order_of g) (\<lambda>order.
       if order = [] then Inr []
       else
         rbind (graph_relation g ''po'') (\<lambda>po.
         rbind (graph_relation g ''rf'') (\<lambda>rf.
         rbind (rf_sources (eg_operations g) rf) (\<lambda>srcs.
         rbind (traverse (load_offense (eg_operations g) order po srcs)
             (filter is_read (ops_list (eg_operations g)))) (\<lambda>offs.
           Inr (sort (concat offs)))))))"

definition amo_offense :: "op_map \<Rightarrow> relation \<Rightarrow> source_map \<Rightarrow> memory_op \<Rightarrow> edge list res" where
  "amo_offense ops co srcs a =
     (if \<not> (is_read a \<and> is_write a) then Inr [(mo_id a, mo_id a)]
      else rbind (source_of srcs (mo_id a)) (\<lambda>src.
        if \<not> contains co src (mo_id a) then Inr [(src, mo_id a)]
        else rbind (any_res (\<lambda>w.
            if is_write w \<and> mo_id w \<noteq> src \<and> mo_id w \<noteq> mo_id a
            then rbind (same_location w a) (\<lambda>same.
              Inr (same \<and> contains co src (mo_id w) \<and> contains co (mo_id w) (mo_id a)))
            else Inr False) (ops_list ops)) (\<lambda>intervening.
          Inr (if intervening then [(src, mo_id a)] else []))))"

definition amo_offenses :: "exec_graph \<Rightarrow> edge list res" where
  "amo_offenses g =
     rbind (graph_relation g ''co'') (\<lambda>co.
     rbind (graph_relation g ''rf'') (\<lambda>rf.
     rbind (rf_sources (eg_operations g) rf) (\<lambda>srcs.
     rbind (traverse (amo_offense (eg_operations g) co srcs)
         (filter (\<lambda>m. atomic_kind m = ''amo'') (ops_list (eg_operations g)))) (\<lambda>offs.
       Inr (sort (concat offs))))))"

definition sc_offense :: "op_map \<Rightarrow> relation \<Rightarrow> source_map \<Rightarrow> edge \<Rightarrow> edge list res" where
  "sc_offense ops co srcs e =
     rbind (or_raise (map_of ops (fst e)) PyKeyError) (\<lambda>lr.
     rbind (or_raise (map_of ops (snd e)) PyKeyError) (\<lambda>sc.
     rbind (require (atomic_kind lr = ''lr'' \<and> atomic_kind sc = ''sc'') GraphError) (\<lambda>_.
     rbind (source_of srcs (fst e)) (\<lambda>src.
       if \<not> contains co src (snd e) then Inr [e]
       else rbind (any_res (\<lambda>w.
           if is_write w \<and> mo_id w \<noteq> src \<and> mo_id w \<noteq> snd e \<and> mo_hart w \<noteq> mo_hart lr
           then rbind (overlap w lr) (\<lambda>ov.
             Inr (ov \<and> contains co src (mo_id w) \<and> contains co (mo_id w) (snd e)))
           else Inr False) (ops_list ops)) (\<lambda>intervening.
         Inr (if intervening then [e] else []))))))"

definition lr_sc_offenses :: "exec_graph \<Rightarrow> edge list res" where
  "lr_sc_offenses g =
     rbind (graph_relation g ''co'') (\<lambda>co.
     let pair = rel_or_empty (eg_relations g) ''pair'' in
     rbind (graph_relation g ''rf'') (\<lambda>rf.
     rbind (rf_sources (eg_operations g) rf) (\<lambda>srcs.
     let unpaired = map (\<lambda>m. (mo_id m, mo_id m)) (filter (\<lambda>m. atomic_kind m = ''sc'' \<and>
           length (filter (\<lambda>e. snd e = mo_id m) (rel_edges pair)) \<noteq> 1) (ops_list (eg_operations g))) in
     rbind (require (distinct (map fst (rel_edges pair))) GraphError) (\<lambda>_.
     rbind (traverse (sc_offense (eg_operations g) co srcs) (rel_edges pair)) (\<lambda>offs.
       Inr (sort (unpaired @ concat offs)))))))"

record rvwmo_outcome =
  oc_name :: string
  oc_satisfied :: bool
  oc_kind :: string
  oc_relations :: "string list"
  oc_cycle :: "labeled_edge list"
  oc_offending :: "edge list"

definition offense_outcome :: "string \<Rightarrow> string \<Rightarrow> string list \<Rightarrow> edge list \<Rightarrow> rvwmo_outcome" where
  "offense_outcome n k rels offs =
     \<lparr>oc_name = n, oc_satisfied = (offs = []), oc_kind = k, oc_relations = rels, oc_cycle = [],
      oc_offending = offs\<rparr>"

definition rvwmo_outcomes :: "labeled_edge list option \<Rightarrow> edge list \<Rightarrow> edge list \<Rightarrow> edge list \<Rightarrow> rvwmo_outcome list" where
  "rvwmo_outcomes cyc lv amo lrsc =
     [\<lparr>oc_name = ''rvwmo_global_memory_order'', oc_satisfied = (cyc = None), oc_kind = ''acyclic'',
        oc_relations = RVWMO_ORDER_RELATIONS,
        oc_cycle = (case cyc of None \<Rightarrow> [] | Some c \<Rightarrow> c), oc_offending = []\<rparr>,
      offense_outcome ''rvwmo_load_value'' ''latest-visible-write'' [''po'', ''rf'', ''co'', ''gmo''] lv,
      offense_outcome ''rvwmo_amo_atomicity'' ''atomicity'' [''rf'', ''co''] amo,
      offense_outcome ''rvwmo_lr_sc_atomicity'' ''atomicity'' [''pair'', ''rf'', ''co''] lrsc,
      offense_outcome ''rvwmo_progress_finite'' ''finite-progress'' [''gmo''] []]"

definition check_rvwmo :: "exec_graph \<Rightarrow> rvwmo_outcome list res" where
  "check_rvwmo g =
     rbind (traverse (graph_relation g) RVWMO_ORDER_RELATIONS) (\<lambda>orders.
     rbind (find_labeled_cycle orders) (\<lambda>cyc.
     rbind (load_value_offenses g) (\<lambda>lv.
     rbind (amo_offenses g) (\<lambda>amo.
     rbind (lr_sc_offenses g) (\<lambda>lrsc. Inr (rvwmo_outcomes cyc lv amo lrsc))))))"

end
