(* ===== verification/RvwmoFacts.thy ===== *)
theory RvwmoFacts
  imports Rvwmo
begin

text \<open>
  What the validation steps of \<open>src/src/umcm/graph/rvwmo.py\<close> establish once they succeed: program
  order is the order of the program indexes of each hart, reads-from is a function from reads to
  writes of the same location and value, coherence is a strict total order on the writes of each
  location, and \<open>derive_ppo\<close> yields the union of the thirteen rules.
\<close>

section \<open>Sequenced tests\<close>

lemma all_res_Inr: "all_res p e xs = Inr u \<longleftrightarrow> (\<forall>x \<in> set xs. p x = Inr True)"
  by (induction xs) (auto simp: res_simps split: if_splits)

lemma any_res_Inr: "any_res p xs = Inr b \<Longrightarrow> b \<longleftrightarrow> (\<exists>x \<in> set xs. p x = Inr True)"
  by (induction xs) (auto simp: res_simps split: if_splits)

lemma any_res_False: "any_res p xs = Inr False \<Longrightarrow> x \<in> set xs \<Longrightarrow> p x = Inr False"
  by (induction xs) (auto simp: res_simps split: if_splits)

lemma any_res_total: "(\<And>x. x \<in> set xs \<Longrightarrow> p x = Inr (q x)) \<Longrightarrow> any_res p xs = Inr (\<exists>x \<in> set xs. q x)"
  by (induction xs) auto

lemma filter_res_Inr: "filter_res p xs = Inr ys \<Longrightarrow> ys = filter (\<lambda>x. p x = Inr True) xs"
  by (induction xs arbitrary: ys) (auto simp: res_simps)

lemma filter_res_defined: "filter_res p xs = Inr ys \<Longrightarrow> x \<in> set xs \<Longrightarrow> \<exists>b. p x = Inr b"
  by (induction xs arbitrary: ys) (auto simp: res_simps)

section \<open>Locations\<close>

text \<open>The set of byte addresses an operation touches, up to Python equality.\<close>

definition fp :: "memory_op \<Rightarrow> pyval set" where
  "fp m = (case footprint m of Inl _ \<Rightarrow> {} | Inr vs \<Rightarrow> canon ` set vs)"

lemma py_mem_canon: "py_mem v xs \<longleftrightarrow> canon v \<in> canon ` set xs"
  by (auto simp: py_mem_iff py_eq_def)

lemma meets_canon: "meets xs ys \<longleftrightarrow> canon ` set xs \<inter> canon ` set ys \<noteq> {}"
  by (auto simp: meets_def list_ex_iff py_mem_canon)

lemma same_members_canon: "same_members xs ys \<longleftrightarrow> canon ` set xs = canon ` set ys"
  by (auto simp: same_members_def list_all_iff py_mem_canon)

lemma fp_Inr: "footprint m = Inr vs \<Longrightarrow> fp m = canon ` set vs"
  by (simp add: fp_def)

lemma canon_filter_mem:
  "canon ` set (filter (\<lambda>x. py_mem x ys) xs) = canon ` set xs \<inter> canon ` set ys"
proof -
  have "canon ` {x \<in> X. canon x \<in> Y} = canon ` X \<inter> Y" for X Y by auto
  then show ?thesis by (simp add: py_mem_canon)
qed

lemma same_location_Inr: "same_location a b = Inr s \<Longrightarrow> s \<longleftrightarrow> fp a = fp b"
  unfolding same_location_def rbind_Inr_iff same_members_canon by (elim exE conjE) (simp add: fp_Inr)

lemma overlap_Inr: "overlap a b = Inr s \<Longrightarrow> s \<longleftrightarrow> fp a \<inter> fp b \<noteq> {}"
  unfolding overlap_def rbind_Inr_iff meets_canon by (elim exE conjE) (simp add: fp_Inr)

lemma common_overlap_Inr: "common_overlap s t m = Inr b \<Longrightarrow> b \<longleftrightarrow> fp s \<inter> fp t \<inter> fp m \<noteq> {}"
  unfolding common_overlap_def rbind_Inr_iff meets_canon canon_filter_mem
  by (elim exE conjE) (simp add: fp_Inr)

lemma less_bit_length: "n < 2 ^ bit_length n"
proof (induction n rule: bit_length.induct)
  case (1 n)
  then show ?case by (cases "n = 0") (auto simp: bit_length.simps [of n])
qed

lemma and_bit_iff: "(m :: int) AND push_bit k 1 \<noteq> 0 \<longleftrightarrow> bit m k"
  by (simp add: and_exp_eq_0_iff_not_bit flip: push_bit_eq_mult)

lemma mask_offsets_nonempty: "0 < m \<Longrightarrow> mask_offsets m \<noteq> []"
proof
  assume m: "0 < m" and "mask_offsets m = []"
  then have "\<not> bit m k" if "k < bit_length (nat m)" for k
    using that unfolding mask_offsets_def filter_empty_conv and_bit_iff by simp
  then have "take_bit (bit_length (nat m)) m = 0" by (intro bit_eqI) (simp add: bit_take_bit_iff)
  moreover have "m < 2 ^ bit_length (nat m)"
    using less_bit_length [of "nat m"] m by (simp add: nat_less_iff)
  moreover have "take_bit (bit_length (nat m)) m = m" using calculation(2) m by (intro take_bit_int_eq_self) simp_all
  ultimately show False using m by simp
qed

text \<open>Every footprint that exists has at least one byte.\<close>

lemma footprint_nonempty: "footprint m = Inr vs \<Longrightarrow> fp m \<noteq> {}"
  by (auto simp: fp_Inr footprint_def mask_offsets_nonempty split: pyval.splits scalar.splits option.splits if_splits)

lemma same_location_nonempty: "same_location a b = Inr s \<Longrightarrow> fp a \<noteq> {}"
  by (auto simp: same_location_def rbind_Inr_iff dest: footprint_nonempty)

section \<open>Operation maps\<close>

definition wf_ops :: "op_map \<Rightarrow> bool" where
  "wf_ops ops \<longleftrightarrow> distinct (map fst ops) \<and> (\<forall>(k, m) \<in> set ops. k = mo_id m \<and> wf_op m)"

lemma wf_graph_ops: "wf_graph g \<Longrightarrow> wf_ops (eg_operations g)"
  by (auto simp: wf_graph_def wf_ops_def)

lemma set_ops_list: "wf_ops ops \<Longrightarrow> m \<in> set (ops_list ops) \<longleftrightarrow> map_of ops (mo_id m) = Some m"
  by (force simp: wf_ops_def ops_list_def)

lemma map_of_ops: "wf_ops ops \<Longrightarrow> map_of ops i = Some m \<Longrightarrow> mo_id m = i \<and> wf_op m"
  by (auto simp: wf_ops_def dest!: map_of_SomeD)

lemma ops_list_I: "wf_ops ops \<Longrightarrow> map_of ops i = Some m \<Longrightarrow> m \<in> set (ops_list ops)"
  using set_ops_list map_of_ops by metis

lemma ball_ops:
  assumes "wf_ops ops"
  shows "(\<forall>m \<in> set (ops_list ops). P (mo_id m) m) \<longleftrightarrow> (\<forall>i m. map_of ops i = Some m \<longrightarrow> P i m)"
proof
  assume *: "\<forall>m \<in> set (ops_list ops). P (mo_id m) m"
  show "\<forall>i m. map_of ops i = Some m \<longrightarrow> P i m"
  proof (intro allI impI)
    fix i m assume m: "map_of ops i = Some m"
    show "P i m" using bspec [OF * ops_list_I [OF assms m]] map_of_ops [OF assms m] by simp
  qed
qed (simp add: set_ops_list [OF assms])

lemma wf_ops_ids: "wf_ops ops \<Longrightarrow> map mo_id (ops_list ops) = map fst ops"
  by (auto simp: wf_ops_def ops_list_def)

lemma distinct_ops_list: "wf_ops ops \<Longrightarrow> distinct (ops_list ops)"
  by (metis wf_ops_ids wf_ops_def distinct_map)

lemma same_id_op:
  "wf_ops ops \<Longrightarrow> m \<in> set (ops_list ops) \<Longrightarrow> m' \<in> set (ops_list ops) \<Longrightarrow> mo_id m = mo_id m' \<Longrightarrow> m = m'"
  by (simp add: set_ops_list)

section \<open>Program order\<close>

definition index_less :: "memory_op \<Rightarrow> memory_op \<Rightarrow> bool" where
  "index_less s t \<longleftrightarrow> (case (mo_index s, mo_index t) of (Some i, Some j) \<Rightarrow> i < j | _ \<Rightarrow> False)"

definition po_before :: "memory_op \<Rightarrow> memory_op \<Rightarrow> bool" where
  "po_before s t \<longleftrightarrow> mo_hart s \<noteq> None \<and> mo_hart s = mo_hart t \<and> index_less s t"

lemma between_iff: "between s m t \<longleftrightarrow> po_before s m \<and> po_before m t"
  by (auto simp: between_def po_before_def index_less_def split: option.splits)

lemma order_hart_pairs:
  assumes "order_hart ms = Inr os" "s \<in> set ms" "t \<in> set ms"
  shows "(s, t) \<in> set (ordered_pairs os) \<longleftrightarrow> index_less s t"
proof -
  let ?key = "\<lambda>m. (case mo_index m of None \<Rightarrow> 0 | Some i \<Rightarrow> i, mo_id m)"
  have os: "os = sort_key ?key ms" and d: "distinct (map mo_index os)"
    and mixed: "(\<forall>m \<in> set ms. mo_index m = None) \<or> (\<forall>m \<in> set ms. mo_index m \<noteq> None)"
    using assms(1) by (auto simp: order_hart_def Let_def list_ex_iff split: if_splits)
  have st: "s \<in> set os" "t \<in> set os" and dos: "distinct os"
    using assms(2,3) os d by (simp_all add: distinct_map)
  have sorted: "sorted_wrt (\<lambda>a b. ?key a \<le> ?key b) os"
    using os sorted_sort_key [of ?key ms] by (simp add: sorted_map)
  have less: "index_less x y" if "(x, y) \<in> set (ordered_pairs os)" for x y
  proof -
    have xy: "x \<in> set ms" "y \<in> set ms" "x \<noteq> y"
      using ordered_pairs_mem [OF that] os that ordered_pairs_irrefl [OF dos] by auto
    then have neq: "mo_index x \<noteq> mo_index y" using d ordered_pairs_mem [OF that] by (auto simp: distinct_map inj_on_def)
    have "?key x \<le> ?key y" using ordered_pairs_sorted [OF sorted that] .
    then show ?thesis using neq mixed xy
      by (cases "mo_index x"; cases "mo_index y") (auto simp: index_less_def less_eq_prod_def)
  qed
  show ?thesis
  proof
    assume "index_less s t"
    then have "s \<noteq> t" "\<not> index_less t s" by (auto simp: index_less_def split: option.splits)
    then show "(s, t) \<in> set (ordered_pairs os)" using ordered_pairs_total [OF st] less by blast
  qed (rule less)
qed

lemma order_hart_set: "order_hart ms = Inr os \<Longrightarrow> set os = set ms"
  by (auto simp: order_hart_def Let_def split: if_splits)

lemma harts_mem:
  "(h, ms) \<in> set (harts ops) \<Longrightarrow>
   h \<noteq> None \<and> set ms = {m \<in> set (ops_list ops). mo_hart m = h}"
proof -
  assume "(h, ms) \<in> set (harts ops)"
  then have "map_of (harts ops) h = Some ms" by (simp add: harts_def)
  then show ?thesis by (auto simp: harts_def map_of_group_by split: if_splits)
qed

lemma harts_complete:
  "m \<in> set (ops_list ops) \<Longrightarrow> mo_hart m \<noteq> None \<Longrightarrow> \<exists>ms. (mo_hart m, ms) \<in> set (harts ops)"
proof -
  assume "m \<in> set (ops_list ops)" "mo_hart m \<noteq> None"
  then have "mo_hart m \<in> fst ` set (harts ops)" unfolding harts_def dom_group_by by simp
  then show ?thesis by (metis imageE surjective_pairing)
qed

lemma canonical_po_orders:
  assumes "canonical_po ops = Inr po"
  obtains orders where "traverse (\<lambda>(h, ms). order_hart ms) (harts ops) = Inr orders"
    "set (rel_edges po) = (\<Union>ms \<in> set orders. (\<lambda>(a, b). (mo_id a, mo_id b)) ` set (ordered_pairs ms))"
proof -
  obtain orders where o: "traverse (\<lambda>(h, ms). order_hart ms) (harts ops) = Inr orders"
    "from_edges ''po'' (concat (map (\<lambda>ms. map (\<lambda>(a, b). (mo_id a, mo_id b)) (ordered_pairs ms)) orders)) = Inr po"
    using assms unfolding canonical_po_def rbind_Inr_iff by (elim exE conjE) (rule that)
  show thesis using from_edges_set [OF o(2)] by (intro that [OF o(1)]) simp
qed

lemma canonical_po_edges:
  assumes "wf_ops ops" "canonical_po ops = Inr po"
  shows "set (rel_edges po) =
    {(a, b). \<exists>s t. map_of ops a = Some s \<and> map_of ops b = Some t \<and> po_before s t}"
proof -
  obtain orders where o: "traverse (\<lambda>(h, ms). order_hart ms) (harts ops) = Inr orders"
    and e: "set (rel_edges po) = (\<Union>ms \<in> set orders. (\<lambda>(a, b). (mo_id a, mo_id b)) ` set (ordered_pairs ms))"
    using canonical_po_orders [OF assms(2)] by blast
  have id: "map_of ops (mo_id m) = Some m" if "m \<in> set (ops_list ops)" for m
    using that assms(1) by (simp add: set_ops_list)
  show ?thesis
  proof (rule set_eqI, clarify)
    fix a b
    show "(a, b) \<in> set (rel_edges po) \<longleftrightarrow>
      (a, b) \<in> {(a, b). \<exists>s t. map_of ops a = Some s \<and> map_of ops b = Some t \<and> po_before s t}"
    proof
      assume "(a, b) \<in> set (rel_edges po)"
      then obtain os s t where os: "os \<in> set orders" "(s, t) \<in> set (ordered_pairs os)"
        and ab: "a = mo_id s" "b = mo_id t" unfolding e by auto
      obtain h ms where h: "(h, ms) \<in> set (harts ops)" "order_hart ms = Inr os"
        using traverse_Inr_imageD [OF o os(1)] by auto
      have st: "s \<in> set ms" "t \<in> set ms"
        using ordered_pairs_mem [OF os(2)] order_hart_set [OF h(2)] by auto
      then show "(a, b) \<in> {(a, b). \<exists>s t. map_of ops a = Some s \<and> map_of ops b = Some t \<and> po_before s t}"
        using harts_mem [OF h(1)] order_hart_pairs [OF h(2) st] os(2) id ab
        by (auto simp: po_before_def)
    next
      assume "(a, b) \<in> {(a, b). \<exists>s t. map_of ops a = Some s \<and> map_of ops b = Some t \<and> po_before s t}"
      then obtain s t where st: "map_of ops a = Some s" "map_of ops b = Some t" "po_before s t" by auto
      have m: "s \<in> set (ops_list ops)" "t \<in> set (ops_list ops)" using st ops_list_I [OF assms(1)] by auto
      obtain ms where h: "(mo_hart s, ms) \<in> set (harts ops)"
        using harts_complete [OF m(1)] st(3) by (auto simp: po_before_def)
      then have sm: "s \<in> set ms" "t \<in> set ms"
        using harts_mem m st(3) by (auto simp: po_before_def)
      obtain os where os: "os \<in> set orders" "order_hart ms = Inr os"
        using traverse_Inr_memD [OF o h] by auto
      have "(s, t) \<in> set (ordered_pairs os)"
        using order_hart_pairs [OF os(2) sm] st(3) by (simp add: po_before_def)
      then show "(a, b) \<in> set (rel_edges po)"
        unfolding e using os(1) map_of_ops [OF assms(1) st(1)] map_of_ops [OF assms(1) st(2)]
        by (intro UN_I [OF os(1)] image_eqI [where x = "(s, t)"]) simp_all
    qed
  qed
qed

lemma canonical_po_total:
  assumes "wf_ops ops" "canonical_po ops = Inr po" "s \<in> set (ops_list ops)" "t \<in> set (ops_list ops)"
    and "mo_hart s \<noteq> None" "mo_hart s = mo_hart t" "s \<noteq> t"
  shows "po_before s t \<or> po_before t s"
proof -
  obtain orders where o: "traverse (\<lambda>(h, ms). order_hart ms) (harts ops) = Inr orders"
    using assms(2) by (auto simp: canonical_po_def rbind_Inr_iff)
  obtain ms where h: "(mo_hart s, ms) \<in> set (harts ops)" using harts_complete assms(3,5) by blast
  then have sm: "s \<in> set ms" "t \<in> set ms" using harts_mem assms(3,4,6) by auto
  obtain os where os: "order_hart ms = Inr os" using traverse_Inr_memD [OF o h] by auto
  have "s \<in> set os" "t \<in> set os" using sm order_hart_set [OF os] by auto
  then show ?thesis using ordered_pairs_total [of s os t] order_hart_pairs [OF os] sm assms(5-7)
    by (auto simp: po_before_def)
qed

section \<open>Reads-from\<close>

definition rf_valid :: "op_map \<Rightarrow> edge set \<Rightarrow> source_map \<Rightarrow> bool" where
  "rf_valid ops rf srcs \<longleftrightarrow>
     (\<forall>(w, r) \<in> rf. \<exists>a b. map_of ops w = Some a \<and> map_of ops r = Some b \<and> is_write a \<and> is_read b \<and>
        w \<noteq> r \<and> fp a = fp b \<and> fp a \<noteq> {} \<and> (\<exists>u v. stored_value a = Inr u \<and> read_value b = Inr v \<and> py_eq u v)) \<and>
     (\<forall>w r. (w, r) \<in> rf \<longleftrightarrow> map_of srcs r = Some w) \<and>
     (\<forall>r b. map_of ops r = Some b \<longrightarrow> is_read b \<longrightarrow> (\<exists>w. (w, r) \<in> rf))"

lemma rf_edge_ok_True:
  assumes "rf_edge_ok ops (w, r) = Inr True"
  shows "\<exists>a b. map_of ops w = Some a \<and> map_of ops r = Some b \<and> is_write a \<and> is_read b \<and>
    w \<noteq> r \<and> fp a = fp b \<and> fp a \<noteq> {} \<and> (\<exists>u v. stored_value a = Inr u \<and> read_value b = Inr v \<and> py_eq u v)"
proof -
  obtain a b where ab: "map_of ops w = Some a" "map_of ops r = Some b"
    using assms by (auto simp: rf_edge_ok_def split: option.splits)
  then have k: "is_write a" "is_read b" "w \<noteq> r" using assms by (auto simp: rf_edge_ok_def split: if_splits)
  then obtain same where same: "same_location a b = Inr same"
    using assms ab by (cases "same_location a b") (auto simp: rf_edge_ok_def)
  then have "same" using assms ab k by (cases same) (auto simp: rf_edge_ok_def)
  then show ?thesis using assms ab k same same_location_Inr [OF same] same_location_nonempty [OF same]
    by (auto simp: rf_edge_ok_def res_simps)
qed

lemma rf_sources_keys:
  assumes "traverse (\<lambda>r. case g r of [w] \<Rightarrow> Inr (mo_id r, w) | _ \<Rightarrow> Inl GraphError) rs = Inr srcs"
  shows "map fst srcs = map mo_id rs \<and> (\<forall>r \<in> set rs. \<exists>w. g r = [w] \<and> (mo_id r, w) \<in> set srcs)"
  using assms
proof (induction rs arbitrary: srcs)
  case (Cons r rs)
  obtain w srcs' where "g r = [w]" "srcs = (mo_id r, w) # srcs'"
    "traverse (\<lambda>r. case g r of [w] \<Rightarrow> Inr (mo_id r, w) | _ \<Rightarrow> Inl GraphError) rs = Inr srcs'"
    using Cons.prems by (auto simp: res_simps split: list.splits)
  then show ?case using Cons.IH by fastforce
qed simp

lemma rf_sources_valid:
  assumes wf: "wf_ops ops" and rf: "rf_sources ops rf = Inr srcs"
  shows "rf_valid ops (set (rel_edges rf)) srcs"
proof -
  let ?g = "\<lambda>r. map fst (filter (\<lambda>e. snd e = mo_id r) (rel_edges rf))"
  let ?rs = "filter is_read (ops_list ops)"
  have ok: "\<forall>e \<in> set (rel_edges rf). rf_edge_ok ops e = Inr True"
    and t: "traverse (\<lambda>r. case ?g r of [w] \<Rightarrow> Inr (mo_id r, w) | _ \<Rightarrow> Inl GraphError) ?rs = Inr srcs"
    using rf by (auto simp: rf_sources_def rbind_Inr_iff all_res_Inr)
  note keys = rf_sources_keys [OF t]
  have dist: "distinct (map fst srcs)"
    using keys wf wf_ops_ids [OF wf] by (metis distinct_map_filter wf_ops_def)
  have edge: "\<exists>a b. map_of ops w = Some a \<and> map_of ops r = Some b \<and> is_write a \<and> is_read b \<and>
      w \<noteq> r \<and> fp a = fp b \<and> fp a \<noteq> {} \<and> (\<exists>u v. stored_value a = Inr u \<and> read_value b = Inr v \<and> py_eq u v)"
    if "(w, r) \<in> set (rel_edges rf)" for w r
    using that ok rf_edge_ok_True by blast
  have src: "(w, mo_id b) \<in> set (rel_edges rf) \<longleftrightarrow> map_of srcs (mo_id b) = Some w" if "b \<in> set ?rs" for b w
  proof -
    note b = that
    obtain v where v: "?g b = [v]" "(mo_id b, v) \<in> set srcs" using bspec [OF conjunct2 [OF keys] b] by (elim exE conjE) (rule that)
    then have "map_of srcs (mo_id b) = Some v" using dist by simp
    moreover have "(w, mo_id b) \<in> set (rel_edges rf) \<longleftrightarrow> w \<in> set (?g b)" by force
    ultimately show ?thesis using v(1) by auto
  qed
  have iff: "(w, r) \<in> set (rel_edges rf) \<longleftrightarrow> map_of srcs r = Some w" for w r
  proof (cases "\<exists>b \<in> set ?rs. mo_id b = r")
    case True
    then show ?thesis using src by blast
  next
    case False
    have "r \<notin> set (map fst srcs)" using keys False by auto
    then have "map_of srcs r = None" by (auto simp: map_of_eq_None_iff)
    moreover have "(w, r) \<notin> set (rel_edges rf)"
    proof
      assume "(w, r) \<in> set (rel_edges rf)"
      then obtain b where "map_of ops r = Some b" "is_read b" using edge by blast
      then show False using False ops_list_I [OF wf] map_of_ops [OF wf] by fastforce
    qed
    ultimately show ?thesis by simp
  qed
  have ex: "\<exists>w. (w, r) \<in> set (rel_edges rf)" if "map_of ops r = Some b" "is_read b" for r b
  proof -
    have b: "b \<in> set ?rs" "mo_id b = r" using that ops_list_I [OF wf] map_of_ops [OF wf] by auto
    obtain v where "?g b = [v]" using bspec [OF conjunct2 [OF keys] b(1)] by (elim exE conjE) (rule that)
    then have "v \<in> set (?g b)" by simp
    then show ?thesis using b by auto
  qed
  show ?thesis unfolding rf_valid_def using edge iff ex by blast
qed

lemma rf_valid_fun: "rf_valid ops rf srcs \<Longrightarrow> (w, r) \<in> rf \<Longrightarrow> (w', r) \<in> rf \<Longrightarrow> w = w'"
  unfolding rf_valid_def by (metis option.inject)

section \<open>Coherence\<close>

definition co_valid :: "op_map \<Rightarrow> edge set \<Rightarrow> bool" where
  "co_valid ops co \<longleftrightarrow>
     (\<forall>(a, b) \<in> co. \<exists>x y. map_of ops a = Some x \<and> map_of ops b = Some y \<and> is_write x \<and> is_write y \<and>
        a \<noteq> b \<and> fp x = fp y) \<and>
     acyclic co \<and>
     (\<forall>a b x y. map_of ops a = Some x \<longrightarrow> map_of ops b = Some y \<longrightarrow> is_write x \<longrightarrow> is_write y \<longrightarrow>
        a \<noteq> b \<longrightarrow> fp x = fp y \<longrightarrow> (a, b) \<in> co \<or> (b, a) \<in> co) \<and>
     (\<forall>a b x y. map_of ops a = Some x \<longrightarrow> map_of ops b = Some y \<longrightarrow> mo_kind x = INIT_WRITE \<longrightarrow>
        is_write y \<longrightarrow> a \<noteq> b \<longrightarrow> fp x = fp y \<longrightarrow> (a, b) \<in> co)"

lemma co_edge_ok_True:
  "co_edge_ok ops (a, b) = Inr True \<Longrightarrow>
   \<exists>x y. map_of ops a = Some x \<and> map_of ops b = Some y \<and> is_write x \<and> is_write y \<and> a \<noteq> b \<and> fp x = fp y"
  by (auto simp: co_edge_ok_def split: option.splits if_splits dest: same_location_Inr)

lemma validate_co_valid:
  assumes wf: "wf_ops ops" and v: "validate_co ops co = Inr u"
  shows "co_valid ops (set (rel_edges co))"
proof -
  let ?ws = "filter is_write (ops_list ops)"
  let ?tot = "\<lambda>(l, r). rbind (same_location l r) (\<lambda>same.
      Inr (same \<longrightarrow> (contains co (mo_id l) (mo_id r)) \<noteq> (contains co (mo_id r) (mo_id l))))"
  let ?ini = "\<lambda>(i, w). if mo_id w = mo_id i then Inr True
      else rbind (same_location i w) (\<lambda>same. Inr (same \<longrightarrow> contains co (mo_id i) (mo_id w)))"
  have e: "\<forall>e \<in> set (rel_edges co). co_edge_ok ops e = Inr True"
    and t: "\<forall>p \<in> set (ordered_pairs ?ws). ?tot p = Inr True"
    and c: "find_labeled_cycle [co] = Inr None"
    and i: "\<forall>i \<in> set ?ws. mo_kind i = INIT_WRITE \<longrightarrow> (\<forall>w \<in> set ?ws. ?ini (i, w) = Inr True)"
    using v unfolding validate_co_def Let_def rbind_Inr_iff all_res_Inr require_Inr_iff by auto
  have ac: "acyclic (set (rel_edges co))" using dfs.find_none [OF c] by (simp add: edge_set_def)
  have mem: "x \<in> set ?ws \<and> mo_id x = a" if "map_of ops a = Some x" "is_write x" for a x
    using that ops_list_I [OF wf] map_of_ops [OF wf] by auto
  have tot: "(a, b) \<in> set (rel_edges co) \<or> (b, a) \<in> set (rel_edges co)"
    if "map_of ops a = Some x" "map_of ops b = Some y" "is_write x" "is_write y" "a \<noteq> b" "fp x = fp y" for a b x y
  proof -
    note h = that
    have m: "x \<in> set ?ws" "mo_id x = a" "y \<in> set ?ws" "mo_id y = b" using mem h by auto
    then consider "(x, y) \<in> set (ordered_pairs ?ws)" | "(y, x) \<in> set (ordered_pairs ?ws)"
      using ordered_pairs_total [of x ?ws y] h(5) by blast
    then show ?thesis
    proof cases
      case 1
      then have "?tot (x, y) = Inr True" using t by blast
      then show ?thesis using h(6) m by (auto simp: rbind_Inr_iff contains_def dest: same_location_Inr)
    next
      case 2
      then have "?tot (y, x) = Inr True" using t by blast
      then show ?thesis using h(6) m by (auto simp: rbind_Inr_iff contains_def dest: same_location_Inr)
    qed
  qed
  have ini: "(a, b) \<in> set (rel_edges co)"
    if "map_of ops a = Some x" "map_of ops b = Some y" "mo_kind x = INIT_WRITE" "is_write y" "a \<noteq> b" "fp x = fp y" for a b x y
  proof -
    have "is_write x" using that(3) by (simp add: is_write_def)
    then have m: "x \<in> set ?ws" "mo_id x = a" "y \<in> set ?ws" "mo_id y = b" using mem that by auto
    then have "?ini (x, y) = Inr True" using i that(3) by blast
    then show ?thesis using that(5,6) m by (auto simp: rbind_Inr_iff contains_def dest: same_location_Inr)
  qed
  have edge: "\<exists>x y. map_of ops a = Some x \<and> map_of ops b = Some y \<and> is_write x \<and> is_write y \<and>
      a \<noteq> b \<and> fp x = fp y" if "(a, b) \<in> set (rel_edges co)" for a b
    using bspec [OF e that] by (rule co_edge_ok_True)
  show ?thesis unfolding co_valid_def
  proof (intro conjI allI impI)
    show "\<forall>(a, b) \<in> set (rel_edges co). \<exists>x y. map_of ops a = Some x \<and> map_of ops b = Some y \<and>
        is_write x \<and> is_write y \<and> a \<noteq> b \<and> fp x = fp y" using edge by blast
  qed (fact ac | rule tot; assumption | rule ini; assumption)+
qed

lemma co_valid_irrefl: "co_valid ops co \<Longrightarrow> (a, a) \<notin> co"
  unfolding co_valid_def by blast

lemma co_valid_asym: "co_valid ops co \<Longrightarrow> (a, b) \<in> co \<Longrightarrow> (b, a) \<notin> co"
  unfolding co_valid_def acyclic_def by (meson r_into_trancl trancl_into_trancl)

lemma co_valid_writes:
  "co_valid ops co \<Longrightarrow> (a, b) \<in> co \<Longrightarrow> \<exists>x y. map_of ops a = Some x \<and> map_of ops b = Some y \<and>
     is_write x \<and> is_write y \<and> a \<noteq> b \<and> fp x = fp y"
  unfolding co_valid_def by blast

lemma co_valid_total:
  "co_valid ops co \<Longrightarrow> map_of ops a = Some x \<Longrightarrow> map_of ops b = Some y \<Longrightarrow> is_write x \<Longrightarrow> is_write y \<Longrightarrow>
   a \<noteq> b \<Longrightarrow> fp x = fp y \<Longrightarrow> (a, b) \<in> co \<or> (b, a) \<in> co"
  unfolding co_valid_def by blast

lemma co_valid_trans: "co_valid ops co \<Longrightarrow> trans co"
proof (rule transI)
  fix a b c assume v: "co_valid ops co" and ab: "(a, b) \<in> co" and bc: "(b, c) \<in> co"
  have "a \<noteq> c" using co_valid_asym [OF v ab] bc by auto
  moreover obtain x y z where "map_of ops a = Some x" "map_of ops b = Some y" "map_of ops c = Some z"
    "is_write x" "is_write z" "fp x = fp y" "fp y = fp z"
    using co_valid_writes [OF v ab] co_valid_writes [OF v bc] by auto
  ultimately have "(a, c) \<in> co \<or> (c, a) \<in> co" using co_valid_total [OF v] by metis
  moreover have "(c, a) \<notin> co"
  proof
    assume "(c, a) \<in> co"
    then have "(a, a) \<in> co\<^sup>+" using ab bc by (meson r_into_trancl trancl_into_trancl)
    then show False using v by (auto simp: co_valid_def acyclic_def)
  qed
  ultimately show "(a, c) \<in> co" by blast
qed

end
