(* ===== verification/RvwmoPpo.thy ===== *)
theory RvwmoPpo
  imports RvwmoFacts
begin

text \<open>
  \<open>derive_ppo\<close> of \<open>src/src/umcm/graph/rvwmo.py\<close> against a declarative reading of the thirteen
  preserved-program-order rules: \<open>ppo_ruleset\<close> states each rule over the sets of addresses and
  the edges of the input relations, and \<open>derive_ppo_edges\<close> shows that rule \<open>i\<close> orders exactly the
  program-order edges for which it holds and that \<open>ppo\<close> is their union.
\<close>

section \<open>The thirteen rules\<close>

definition rel_has :: "rel_map \<Rightarrow> string \<Rightarrow> memory_op \<Rightarrow> memory_op \<Rightarrow> bool" where
  "rel_has rels n s t \<longleftrightarrow> (mo_id s, mo_id t) \<in> set (rel_edges (rel_or_empty rels n))"

text \<open>
  1 overlapping address before a store; 2 two loads of a common byte with no store between them and
  different sources; 3 load from an AMO or store-conditional; 4 fence; 5 acquire; 6 release;
  7 RCsc pair; 8 LR/SC pair; 9 address, 10 data, 11 control dependency; 12 dependency into a store
  that the load reads from; 13 address dependency into an operation before the store.
\<close>

definition ppo_ruleset :: "op_map \<Rightarrow> rel_map \<Rightarrow> source_map \<Rightarrow> memory_op \<Rightarrow> memory_op \<Rightarrow> bool list" where
  "ppo_ruleset ops rels rf s t =
     [is_write t \<and> fp s \<inter> fp t \<noteq> {},
      is_read s \<and> is_read t \<and> fp s \<inter> fp t \<noteq> {} \<and>
        \<not> (\<exists>m \<in> set (ops_list ops). is_write m \<and> po_before s m \<and> po_before m t \<and> fp s \<inter> fp t \<inter> fp m \<noteq> {}) \<and>
        map_of rf (mo_id s) \<noteq> map_of rf (mo_id t),
      (atomic_kind s = ''amo'' \<or> atomic_kind s = ''sc'') \<and> is_read t \<and> map_of rf (mo_id t) = Some (mo_id s),
      rel_has rels ''fence'' s t,
      acquire s,
      release_op t,
      rcsc s \<and> rcsc t,
      rel_has rels ''pair'' s t,
      rel_has rels ''addr'' s t,
      is_write t \<and> rel_has rels ''data'' s t,
      is_write t \<and> rel_has rels ''ctrl'' s t,
      is_read t \<and> (\<exists>m \<in> set (ops_list ops). is_write m \<and> po_before s m \<and> po_before m t \<and>
        map_of rf (mo_id t) = Some (mo_id m) \<and> (rel_has rels ''addr'' s m \<or> rel_has rels ''data'' s m)),
      is_write t \<and> (rel_has rels ''pipeline'' s t \<or>
        (\<exists>m \<in> set (ops_list ops). po_before s m \<and> po_before m t \<and> rel_has rels ''addr'' s m))]"

lemma contains_rel_has: "contains (rel_or_empty rels n) (mo_id s) (mo_id t) = rel_has rels n s t"
  by (simp add: contains_def rel_has_def)

lemma source_of_Inr: "source_of rf i = Inr w \<longleftrightarrow> map_of rf i = Some w"
  by (simp add: source_of_def or_raise_Inr_iff)

lemma rule1_Inr: "ppo_rule1 s t = Inr b \<Longrightarrow> b \<longleftrightarrow> is_write t \<and> fp s \<inter> fp t \<noteq> {}"
  by (auto simp: ppo_rule1_def dest: overlap_Inr split: if_splits)

lemma any_between_Inr:
  assumes "any_res (\<lambda>m. if is_write m \<and> between s m t then common_overlap s t m else Inr False) ms = Inr b"
  shows "b \<longleftrightarrow> (\<exists>m \<in> set ms. is_write m \<and> po_before s m \<and> po_before m t \<and> fp s \<inter> fp t \<inter> fp m \<noteq> {})"
  using assms
proof (induction ms arbitrary: b)
  case (Cons m ms)
  obtain c where c: "(if is_write m \<and> between s m t then common_overlap s t m else Inr False) = Inr c"
    "if c then b = True else
      any_res (\<lambda>m. if is_write m \<and> between s m t then common_overlap s t m else Inr False) ms = Inr b"
    using Cons.prems by (auto simp: rbind_Inr_iff split: if_splits)
  have "c \<longleftrightarrow> is_write m \<and> po_before s m \<and> po_before m t \<and> fp s \<inter> fp t \<inter> fp m \<noteq> {}"
    using c(1) common_overlap_Inr by (auto simp: between_iff split: if_splits)
  then show ?case using c(2) Cons.IH by (auto split: if_splits)
qed simp

lemma rule2_Inr:
  assumes "ppo_rule2 ops rf s t = Inr b"
  shows "b \<longleftrightarrow> is_read s \<and> is_read t \<and> fp s \<inter> fp t \<noteq> {} \<and>
    \<not> (\<exists>m \<in> set (ops_list ops). is_write m \<and> po_before s m \<and> po_before m t \<and> fp s \<inter> fp t \<inter> fp m \<noteq> {}) \<and>
    map_of rf (mo_id s) \<noteq> map_of rf (mo_id t)"
proof (cases "is_read s \<and> is_read t")
  case True
  then obtain ov where ov: "overlap s t = Inr ov"
    using assms by (cases "overlap s t") (auto simp: ppo_rule2_def)
  show ?thesis
  proof (cases ov)
    case True
    obtain iv where iv: "any_res (\<lambda>m. if is_write m \<and> between s m t then common_overlap s t m else Inr False)
        (ops_list ops) = Inr iv" "if iv then \<not> b else
          \<exists>p q. map_of rf (mo_id s) = Some p \<and> map_of rf (mo_id t) = Some q \<and> b = (p \<noteq> q)"
      using assms \<open>is_read s \<and> is_read t\<close> ov True
      by (auto simp: ppo_rule2_def rbind_Inr_iff source_of_Inr split: if_splits)
    show ?thesis using any_between_Inr [OF iv(1)] iv(2) overlap_Inr [OF ov] True \<open>is_read s \<and> is_read t\<close>
      by (auto split: if_splits)
  next
    case False
    then show ?thesis using assms ov overlap_Inr [OF ov] \<open>is_read s \<and> is_read t\<close> by (auto simp: ppo_rule2_def)
  qed
next
  case False
  then show ?thesis using assms by (auto simp: ppo_rule2_def)
qed

lemma rule3_Inr:
  "ppo_rule3 rf s t = Inr b \<Longrightarrow>
   b \<longleftrightarrow> (atomic_kind s = ''amo'' \<or> atomic_kind s = ''sc'') \<and> is_read t \<and> map_of rf (mo_id t) = Some (mo_id s)"
  by (auto simp: ppo_rule3_def rbind_Inr_iff source_of_Inr split: if_splits)

lemma rule12_Inr:
  assumes "ppo_rule12 ops rels rf s t = Inr b"
  shows "b \<longleftrightarrow> is_read t \<and> (\<exists>m \<in> set (ops_list ops). is_write m \<and> po_before s m \<and> po_before m t \<and>
    map_of rf (mo_id t) = Some (mo_id m) \<and> (rel_has rels ''addr'' s m \<or> rel_has rels ''data'' s m))"
proof (cases "is_read t")
  case True
  let ?p = "\<lambda>m. if is_write m \<and> between s m t
      then rbind (source_of rf (mo_id t)) (\<lambda>a. Inr (a = mo_id m \<and> (rel_has rels ''addr'' s m \<or> rel_has rels ''data'' s m)))
      else Inr False"
  have r: "any_res ?p (ops_list ops) = Inr b"
    using assms True unfolding ppo_rule12_def contains_rel_has by simp
  have "?p m = Inr True \<longleftrightarrow> is_write m \<and> po_before s m \<and> po_before m t \<and>
      map_of rf (mo_id t) = Some (mo_id m) \<and> (rel_has rels ''addr'' s m \<or> rel_has rels ''data'' s m)" for m
    by (auto simp: rbind_Inr_iff source_of_Inr between_iff)
  then show ?thesis using any_res_Inr [OF r] True by blast
next
  case False
  then show ?thesis using assms by (simp add: ppo_rule12_def)
qed

lemma ppo_rules_Inr: "ppo_rules ops rels rf s t = Inr bs \<Longrightarrow> bs = ppo_ruleset ops rels rf s t"
  unfolding ppo_rules_def Let_def contains_rel_has
  by (auto simp: rbind_Inr_iff ppo_ruleset_def ppo_rule13_def contains_rel_has between_iff list_ex_iff
      dest!: rule1_Inr rule2_Inr rule3_Inr rule12_Inr)

section \<open>The derived relations\<close>

definition ppo_holds :: "op_map \<Rightarrow> rel_map \<Rightarrow> source_map \<Rightarrow> nat \<Rightarrow> edge \<Rightarrow> bool" where
  "ppo_holds ops rels rf i e \<longleftrightarrow>
     (\<exists>s t. map_of ops (fst e) = Some s \<and> map_of ops (snd e) = Some t \<and> regular s \<and> regular t \<and>
        ppo_ruleset ops rels rf s t ! i)"

lemma ppo_flags_Inr:
  assumes "ppo_flags ops rels rf e = Inr bs" "i < 13"
  shows "bs ! i \<longleftrightarrow> ppo_holds ops rels rf i e"
proof -
  obtain s t where st: "map_of ops (fst e) = Some s" "map_of ops (snd e) = Some t"
    "(if regular s \<and> regular t then ppo_rules ops rels rf s t else Inr (replicate 13 False)) = Inr bs"
    using assms(1) by (auto simp: ppo_flags_def res_simps)
  then show ?thesis using assms(2) by (auto simp: ppo_holds_def dest: ppo_rules_Inr split: if_splits)
qed

lemma zip_filter_edges:
  assumes "traverse f es = Inr fl"
  shows "set (map fst (filter (\<lambda>(e, b). P b) (zip es fl))) = {e \<in> set es. \<exists>b. f e = Inr b \<and> P b}"
  using assms
proof (induction es arbitrary: fl)
  case (Cons e es)
  obtain b fl' where b: "f e = Inr b" "traverse f es = Inr fl'" "fl = b # fl'"
    using Cons.prems by (auto simp: res_simps)
  have "set (map fst (filter (\<lambda>(e, b). P b) (zip (e # es) fl))) =
      (if P b then {e} else {}) \<union> set (map fst (filter (\<lambda>(e, b). P b) (zip es fl')))"
    by (simp add: b)
  also have "\<dots> = {x \<in> set (e # es). \<exists>b. f x = Inr b \<and> P b}"
    unfolding Cons.IH [OF b(2)] using b(1) by auto
  finally show ?case .
qed simp

lemma derive_ppo_edges:
  assumes "derive_ppo ops rels rf = Inr rs"
  shows "length rs = 14"
    and "\<And>i. i < 13 \<Longrightarrow> rel_name (rs ! i) = ppo_rule_name (Suc i) \<and>
      set (rel_edges (rs ! i)) = {e \<in> set (rel_edges (rel_or_empty rels ''po'')). ppo_holds ops rels rf i e}"
    and "rel_name (rs ! 13) = ''ppo''"
    and "set (rel_edges (rs ! 13)) =
      {e \<in> set (rel_edges (rel_or_empty rels ''po'')). \<exists>i < 13. ppo_holds ops rels rf i e}"
proof -
  let ?po = "rel_or_empty rels ''po''"
  obtain fl named u where fl: "traverse (ppo_flags ops rels rf) (rel_edges ?po) = Inr fl"
    and named: "traverse (\<lambda>i. from_edges (ppo_rule_name (Suc i))
          (map fst (filter (\<lambda>(e, b). b ! i) (zip (rel_edges ?po) fl)))) [0..<13] = Inr named"
    and u: "union_relations ''ppo'' named = Inr u" and rs: "rs = named @ [u]"
    using assms unfolding derive_ppo_def Let_def rbind_Inr_iff by blast
  have len: "length named = 13" using traverse_length [OF named] by simp
  have f: "from_edges (ppo_rule_name (Suc i)) (map fst (filter (\<lambda>(e, b). b ! i) (zip (rel_edges ?po) fl))) =
      Inr (named ! i)" if "i < 13" for i
    using named that unfolding traverse_Inr_iff list_all2_conv_all_nth by simp
  have holds: "e \<in> set (rel_edges ?po) \<Longrightarrow> i < 13 \<Longrightarrow>
      (\<exists>b. ppo_flags ops rels rf e = Inr b \<and> b ! i) \<longleftrightarrow> ppo_holds ops rels rf i e" for e i
    using ppo_flags_Inr traverse_Inr_memD [OF fl] by blast
  have e: "set (rel_edges (named ! i)) = {e \<in> set (rel_edges ?po). ppo_holds ops rels rf i e}"
    "rel_name (named ! i) = ppo_rule_name (Suc i)" if "i < 13" for i
  proof -
    have "set (rel_edges (named ! i)) = set (map fst (filter (\<lambda>(e, b). b ! i) (zip (rel_edges ?po) fl)))"
      using from_edges_set [OF f [OF that]] by blast
    also have "\<dots> = {e \<in> set (rel_edges ?po). \<exists>b. ppo_flags ops rels rf e = Inr b \<and> b ! i}"
      by (rule zip_filter_edges [OF fl])
    finally show "set (rel_edges (named ! i)) = {e \<in> set (rel_edges ?po). ppo_holds ops rels rf i e}"
      using holds [OF _ that] by blast
    show "rel_name (named ! i) = ppo_rule_name (Suc i)" using from_edges_set [OF f [OF that]] by blast
  qed
  show "length rs = 14" using rs len by simp
  show "rel_name (rs ! i) = ppo_rule_name (Suc i) \<and>
      set (rel_edges (rs ! i)) = {e \<in> set (rel_edges ?po). ppo_holds ops rels rf i e}" if "i < 13" for i
    using e [OF that] that rs len by (simp add: nth_append)
  have last: "rs ! 13 = u" using rs len by (simp add: nth_append)
  show "rel_name (rs ! 13) = ''ppo''" using u from_edges_set last by (simp add: union_relations_def)
  have "set (rel_edges u) = (\<Union>r \<in> set named. set (rel_edges r))"
    using u from_edges_set by (simp add: union_relations_def)
  also have "\<dots> = (\<Union>i \<in> {..<13}. set (rel_edges (named ! i)))"
    using len by (auto simp: set_conv_nth)
  also have "\<dots> = {e \<in> set (rel_edges ?po). \<exists>i < 13. ppo_holds ops rels rf i e}" using e(1) by auto
  finally show "set (rel_edges (rs ! 13)) =
      {e \<in> set (rel_edges ?po). \<exists>i < 13. ppo_holds ops rels rf i e}" using last by simp
qed

end
