(* ===== verification/RvwmoSpec.thy ===== *)
theory RvwmoSpec
  imports RvwmoPpo
begin

text \<open>
  The specification of the RVWMO axioms and the proof that completing a graph and checking it
  (\<open>src/src/umcm/graph/rvwmo.py\<close>) decides them. The specification quantifies over global memory
  orders; the code builds one candidate order from the union of \<open>ppo\<close>, \<open>rfe\<close>, \<open>co\<close> and
  \<open>fr\<close> and looks at that one only. \<open>gmo_exists_iff\<close> is why this is enough: a suitable order
  exists iff the union is acyclic and reads-from respects program order per location, and then every
  total order that extends the union is suitable.
\<close>

section \<open>The axioms\<close>

definition strict_total :: "string set \<Rightarrow> edge set \<Rightarrow> bool" where
  "strict_total V R \<longleftrightarrow> R \<subseteq> V \<times> V \<and> trans R \<and> (\<forall>a. (a, a) \<notin> R) \<and>
     (\<forall>a \<in> V. \<forall>b \<in> V. a \<noteq> b \<longrightarrow> (a, b) \<in> R \<or> (b, a) \<in> R)"

text \<open>
  The writes that are visible to a load: to its location, before it in the global memory order or
  in program order. The load value axiom: the load returns the latest of them.
\<close>

definition visible :: "op_map \<Rightarrow> edge set \<Rightarrow> edge set \<Rightarrow> string \<Rightarrow> string set" where
  "visible ops po gmo r =
     {w. \<exists>x y. map_of ops w = Some x \<and> map_of ops r = Some y \<and> is_write x \<and> w \<noteq> r \<and> fp x = fp y \<and>
        ((w, r) \<in> gmo \<or> (w, r) \<in> po)}"

definition load_value_axiom :: "op_map \<Rightarrow> edge set \<Rightarrow> edge set \<Rightarrow> edge set \<Rightarrow> bool" where
  "load_value_axiom ops po rf gmo \<longleftrightarrow>
     (\<forall>(w, r) \<in> rf. w \<in> visible ops po gmo r \<and> (\<forall>w' \<in> visible ops po gmo r. w' = w \<or> (w', w) \<in> gmo))"

definition global_memory_order :: "op_map \<Rightarrow> edge set \<Rightarrow> edge set \<Rightarrow> edge set \<Rightarrow> edge set \<Rightarrow> edge set \<Rightarrow> bool" where
  "global_memory_order ops po rf co ppo gmo \<longleftrightarrow>
     strict_total (fst ` set ops) gmo \<and> ppo \<subseteq> gmo \<and> co \<subseteq> gmo \<and> load_value_axiom ops po rf gmo"

text \<open>No load reads from a write that follows it, or past a newer write that precedes it.\<close>

definition coherent_reads :: "edge set \<Rightarrow> edge set \<Rightarrow> edge set \<Rightarrow> bool" where
  "coherent_reads po rf co \<longleftrightarrow>
     (\<forall>(w, r) \<in> rf. (r, w) \<notin> po \<and> (\<forall>w'. (w, w') \<in> co \<longrightarrow> (w', r) \<notin> po))"

definition external :: "op_map \<Rightarrow> edge set \<Rightarrow> edge set" where
  "external ops E = {(a, b) \<in> E. \<exists>x y. map_of ops a = Some x \<and> map_of ops b = Some y \<and> mo_hart x \<noteq> mo_hart y}"

definition from_reads :: "edge set \<Rightarrow> edge set \<Rightarrow> edge set" where
  "from_reads rf co = {(r, l). l \<noteq> r \<and> (\<exists>w. (w, r) \<in> rf \<and> (w, l) \<in> co)}"

definition memory_edges :: "op_map \<Rightarrow> edge set \<Rightarrow> edge set \<Rightarrow> edge set \<Rightarrow> edge set" where
  "memory_edges ops rf co ppo = ppo \<union> external ops rf \<union> co \<union> from_reads rf co"

text \<open>What the validation steps guarantee about one graph.\<close>

definition rvwmo_graph :: "op_map \<Rightarrow> edge set \<Rightarrow> edge set \<Rightarrow> edge set \<Rightarrow> edge set \<Rightarrow> source_map \<Rightarrow> bool" where
  "rvwmo_graph ops po rf co ppo srcs \<longleftrightarrow>
     wf_ops ops \<and> rf_valid ops rf srcs \<and> co_valid ops co \<and>
     po = {(a, b). \<exists>s t. map_of ops a = Some s \<and> map_of ops b = Some t \<and> po_before s t} \<and>
     (\<forall>a b s t. map_of ops a = Some s \<longrightarrow> map_of ops b = Some t \<longrightarrow> a \<noteq> b \<longrightarrow> mo_hart s \<noteq> None \<longrightarrow>
        mo_hart s = mo_hart t \<longrightarrow> (a, b) \<in> po \<or> (b, a) \<in> po) \<and>
     ppo \<subseteq> po \<and>
     (\<forall>(a, b) \<in> po. \<forall>s t. map_of ops a = Some s \<longrightarrow> map_of ops b = Some t \<longrightarrow> is_write t \<longrightarrow>
        fp s \<inter> fp t \<noteq> {} \<longrightarrow> (a, b) \<in> ppo)"

section \<open>Existence of a global memory order\<close>

lemma strict_total_asym: "strict_total V R \<Longrightarrow> (a, b) \<in> R \<Longrightarrow> (b, a) \<notin> R"
  unfolding strict_total_def by (meson transD)

lemma strict_total_acyclic: "strict_total V R \<Longrightarrow> E \<subseteq> R \<Longrightarrow> acyclic E"
  by (rule acyclic_subset [of R]) (auto simp: acyclic_def strict_total_def)

lemma rvwmo_graphD:
  assumes "rvwmo_graph ops po rf co ppo srcs"
  shows "wf_ops ops" "rf_valid ops rf srcs" "co_valid ops co" "ppo \<subseteq> po"
    and "po = {(a, b). \<exists>s t. map_of ops a = Some s \<and> map_of ops b = Some t \<and> po_before s t}"
proof -
  note h = assms [unfolded rvwmo_graph_def]
  show "wf_ops ops" using h by (elim conjE)
  show "rf_valid ops rf srcs" using h by (elim conjE)
  show "co_valid ops co" using h by (elim conjE)
  show "ppo \<subseteq> po" using h by (elim conjE)
  show "po = {(a, b). \<exists>s t. map_of ops a = Some s \<and> map_of ops b = Some t \<and> po_before s t}"
    using h by (elim conjE)
qed

lemma graph_po_total:
  "rvwmo_graph ops po rf co ppo srcs \<Longrightarrow> map_of ops a = Some s \<Longrightarrow> map_of ops b = Some t \<Longrightarrow> a \<noteq> b \<Longrightarrow>
   mo_hart s \<noteq> None \<Longrightarrow> mo_hart s = mo_hart t \<Longrightarrow> (a, b) \<in> po \<or> (b, a) \<in> po"
  unfolding rvwmo_graph_def by blast

lemma graph_rule1:
  "rvwmo_graph ops po rf co ppo srcs \<Longrightarrow> (a, b) \<in> po \<Longrightarrow> map_of ops a = Some s \<Longrightarrow> map_of ops b = Some t \<Longrightarrow>
   is_write t \<Longrightarrow> fp s \<inter> fp t \<noteq> {} \<Longrightarrow> (a, b) \<in> ppo"
  unfolding rvwmo_graph_def by blast

lemma graph_po_before:
  assumes "rvwmo_graph ops po rf co ppo srcs" "(a, b) \<in> po"
  obtains s t where "map_of ops a = Some s" "map_of ops b = Some t" "po_before s t"
  using assms rvwmo_graphD(5) [OF assms(1)] by blast

lemma po_asym:
  assumes "rvwmo_graph ops po rf co ppo srcs" "(a, b) \<in> po" shows "(b, a) \<notin> po"
proof
  assume "(b, a) \<in> po"
  then obtain s t where st: "map_of ops b = Some s" "map_of ops a = Some t" "po_before s t"
    by (rule graph_po_before [OF assms(1)])
  obtain s' t' where "map_of ops a = Some s'" "map_of ops b = Some t'" "po_before s' t'"
    using graph_po_before [OF assms] by blast
  then show False using st by (auto simp: po_before_def index_less_def split: option.splits)
qed

lemma rf_ops:
  assumes "rvwmo_graph ops po rf co ppo srcs" "(w, r) \<in> rf"
  obtains x y where "map_of ops w = Some x" "map_of ops r = Some y" "is_write x" "is_read y"
    "w \<noteq> r" "fp x = fp y" "fp x \<noteq> {}"
  using rvwmo_graphD(2) [OF assms(1)] assms(2) unfolding rf_valid_def by blast

lemma co_ops:
  assumes "rvwmo_graph ops po rf co ppo srcs" "(a, b) \<in> co" "map_of ops a = Some x"
  obtains y where "map_of ops b = Some y" "is_write y" "fp x = fp y" "a \<noteq> b"
  using co_valid_writes [OF rvwmo_graphD(3) [OF assms(1)] assms(2)] assms(3) by auto

lemma read_hart: "wf_ops ops \<Longrightarrow> map_of ops r = Some y \<Longrightarrow> is_read y \<Longrightarrow> mo_hart y \<noteq> None"
  using map_of_ops [of ops r y] by (auto simp: wf_op_iff is_read_def is_read_kind_def)

lemma load_value_latest:
  assumes "load_value_axiom ops po rf gmo" "(w, r) \<in> rf"
  shows "w \<in> visible ops po gmo r" "w' \<in> visible ops po gmo r \<Longrightarrow> w' = w \<or> (w', w) \<in> gmo"
  using bspec [OF assms(1) [unfolded load_value_axiom_def] assms(2)] by auto

text \<open>A suitable order contains all memory edges and forces coherent reads.\<close>

lemma gmo_memory_edges:
  assumes g: "rvwmo_graph ops po rf co ppo srcs" and gmo: "global_memory_order ops po rf co ppo gmo"
  shows "memory_edges ops rf co ppo \<subseteq> gmo"
proof -
  have st: "strict_total (fst ` set ops) gmo" and sub: "ppo \<subseteq> gmo" "co \<subseteq> gmo"
    and lv: "load_value_axiom ops po rf gmo" using gmo by (auto simp: global_memory_order_def)
  have ext: "(w, r) \<in> gmo" if e: "(w, r) \<in> external ops rf" for w r
  proof -
    from e have rf: "(w, r) \<in> rf" by (auto simp: external_def)
    then have "w \<in> visible ops po gmo r" using load_value_latest(1) [OF lv] by blast
    moreover have "(w, r) \<notin> po"
    proof
      assume "(w, r) \<in> po"
      then show False using e graph_po_before [OF g] by (force simp: external_def po_before_def)
    qed
    ultimately show ?thesis by (auto simp: visible_def)
  qed
  have fr: "(r, l) \<in> gmo" if f: "(r, l) \<in> from_reads rf co" for r l
  proof -
    obtain w where w: "(w, r) \<in> rf" "(w, l) \<in> co" "l \<noteq> r" using f by (auto simp: from_reads_def)
    obtain x y where xy: "map_of ops w = Some x" "map_of ops r = Some y" "is_write x" "is_read y"
      "w \<noteq> r" "fp x = fp y" "fp x \<noteq> {}" by (rule rf_ops [OF g w(1)])
    obtain z where z: "map_of ops l = Some z" "is_write z" "fp x = fp z" "w \<noteq> l"
      by (rule co_ops [OF g w(2) xy(1)])
    have "l \<in> fst ` set ops" "r \<in> fst ` set ops" using z(1) xy(2) by (force dest: map_of_SomeD)+
    then consider "(r, l) \<in> gmo" | "(l, r) \<in> gmo" using st w(3) unfolding strict_total_def by blast
    then show ?thesis
    proof cases
      case 2
      then have "l \<in> visible ops po gmo r" using z xy w(3) by (auto simp: visible_def)
      then have "(l, w) \<in> gmo" using load_value_latest(2) [OF lv w(1)] z(4) by blast
      then show ?thesis using strict_total_asym [OF st] w(2) sub(2) by blast
    qed
  qed
  show ?thesis using ext fr sub unfolding memory_edges_def by auto
qed

lemma gmo_coherent:
  assumes g: "rvwmo_graph ops po rf co ppo srcs" and gmo: "global_memory_order ops po rf co ppo gmo"
  shows "coherent_reads po rf co"
proof -
  have st: "strict_total (fst ` set ops) gmo" and sub: "ppo \<subseteq> gmo" "co \<subseteq> gmo"
    and lv: "load_value_axiom ops po rf gmo" using gmo by (auto simp: global_memory_order_def)
  have "(r, w) \<notin> po \<and> (\<forall>w'. (w, w') \<in> co \<longrightarrow> (w', r) \<notin> po)" if rf: "(w, r) \<in> rf" for w r
  proof (intro conjI allI impI)
    obtain x y where xy: "map_of ops w = Some x" "map_of ops r = Some y" "is_write x" "is_read y"
      "w \<noteq> r" "fp x = fp y" "fp x \<noteq> {}" by (rule rf_ops [OF g rf])
    show "(r, w) \<notin> po"
    proof
      assume po: "(r, w) \<in> po"
      then have "(r, w) \<in> ppo" using graph_rule1 [OF g po xy(2,1,3)] xy(6,7) by simp
      moreover have "w \<in> visible ops po gmo r" using load_value_latest(1) [OF lv rf] .
      then have "(w, r) \<in> gmo" using po_asym [OF g po] by (auto simp: visible_def)
      ultimately show False using sub(1) strict_total_asym [OF st] by blast
    qed
    fix w' assume co: "(w, w') \<in> co"
    obtain z where z: "map_of ops w' = Some z" "is_write z" "fp x = fp z" "w \<noteq> w'"
      by (rule co_ops [OF g co xy(1)])
    show "(w', r) \<notin> po"
    proof
      assume po: "(w', r) \<in> po"
      then have "w' \<noteq> r" using po_asym [OF g po] by auto
      then have "w' \<in> visible ops po gmo r" using po z xy by (auto simp: visible_def)
      then have "(w', w) \<in> gmo" using load_value_latest(2) [OF lv rf] z(4) by blast
      then show False using strict_total_asym [OF st] co sub(2) by blast
    qed
  qed
  then show ?thesis unfolding coherent_reads_def by auto
qed

text \<open>
  For a total order that extends the memory edges, the load value axiom is coherence of reads: it
  does not depend on which order was picked.
\<close>

lemma load_value_iff:
  assumes g: "rvwmo_graph ops po rf co ppo srcs" and st: "strict_total (fst ` set ops) gmo"
    and E: "memory_edges ops rf co ppo \<subseteq> gmo"
  shows "load_value_axiom ops po rf gmo \<longleftrightarrow> coherent_reads po rf co"
proof
  assume "load_value_axiom ops po rf gmo"
  then show "coherent_reads po rf co"
    using E st by (intro gmo_coherent [OF g]) (auto simp: global_memory_order_def memory_edges_def)
next
  assume coh: "coherent_reads po rf co"
  have "w \<in> visible ops po gmo r \<and> (\<forall>w' \<in> visible ops po gmo r. w' = w \<or> (w', w) \<in> gmo)"
    if rf: "(w, r) \<in> rf" for w r
  proof (intro conjI ballI)
    obtain x y where xy: "map_of ops w = Some x" "map_of ops r = Some y" "is_write x" "is_read y"
      "w \<noteq> r" "fp x = fp y" "fp x \<noteq> {}" by (rule rf_ops [OF g rf])
    have "(w, r) \<in> gmo \<or> (w, r) \<in> po"
    proof (cases "mo_hart x = mo_hart y")
      case True
      have "mo_hart y \<noteq> None" using read_hart [OF rvwmo_graphD(1) [OF g] xy(2,4)] .
      then have "(w, r) \<in> po \<or> (r, w) \<in> po" using graph_po_total [OF g xy(1,2,5)] True by simp
      then show ?thesis using coh rf unfolding coherent_reads_def by blast
    next
      case False
      then have "(w, r) \<in> external ops rf" using rf xy by (auto simp: external_def)
      then show ?thesis using E by (auto simp: memory_edges_def)
    qed
    then show "w \<in> visible ops po gmo r" using xy by (auto simp: visible_def)
    fix w' assume v: "w' \<in> visible ops po gmo r"
    then obtain z where z: "map_of ops w' = Some z" "is_write z" "w' \<noteq> r" "fp z = fp y"
      "(w', r) \<in> gmo \<or> (w', r) \<in> po" using xy(2) by (auto simp: visible_def)
    show "w' = w \<or> (w', w) \<in> gmo"
    proof (cases "w' = w")
      case False
      have "(w, w') \<in> co \<or> (w', w) \<in> co"
        using co_valid_total [OF rvwmo_graphD(3) [OF g] xy(1) z(1) xy(3) z(2)] xy(6) z(4) False by simp
      moreover have False if co: "(w, w') \<in> co"
      proof -
        have "(r, w') \<in> gmo" using co rf z(3) E by (auto simp: memory_edges_def from_reads_def)
        then have "(w', r) \<notin> gmo" using strict_total_asym [OF st] by blast
        then have "(w', r) \<in> po" using z(5) by blast
        then show False using coh rf co unfolding coherent_reads_def by blast
      qed
      ultimately show ?thesis using E by (auto simp: memory_edges_def)
    qed simp
  qed
  then show "load_value_axiom ops po rf gmo" unfolding load_value_axiom_def by auto
qed

lemma strict_total_ordered_pairs:
  assumes "distinct xs" shows "strict_total (set xs) (set (ordered_pairs xs))"
  unfolding strict_total_def
proof (intro conjI ballI allI impI)
  show "set (ordered_pairs xs) \<subseteq> set xs \<times> set xs" by (auto dest: ordered_pairs_mem)
  show "trans (set (ordered_pairs xs))" using assms by (auto intro: transI ordered_pairs_trans)
next
  fix a b assume "a \<in> set xs" "b \<in> set xs" "a \<noteq> b"
  then show "(a, b) \<in> set (ordered_pairs xs) \<or> (b, a) \<in> set (ordered_pairs xs)"
    by (rule ordered_pairs_total)
next
  fix a show "(a, a) \<notin> set (ordered_pairs xs)" using assms by (rule ordered_pairs_irrefl)
qed

lemma total_order_strict:
  "total_order_of nodes E xs \<Longrightarrow> strict_total (set nodes) (set (ordered_pairs xs)) \<and> E \<subseteq> set (ordered_pairs xs)"
  using strict_total_ordered_pairs [of xs] by (auto simp: total_order_of_def)

end
