(* ===== verification/RvwmoCheck.thy ===== *)
theory RvwmoCheck
  imports RvwmoSpec
begin

text \<open>
  \<open>complete_rvwmo_relations\<close> and \<open>check_rvwmo\<close> of \<open>src/src/umcm/graph/rvwmo.py\<close> connected to
  the specification: what a completed graph contains, and what each outcome of the check says about
  the reads-from and coherence the caller supplied.
\<close>

section \<open>The completed graph\<close>

definition edges_of :: "exec_graph \<Rightarrow> string \<Rightarrow> edge set" where
  "edges_of g n = (case map_of (eg_relations g) n of None \<Rightarrow> {} | Some r \<Rightarrow> set (rel_edges r))"

lemma internal_edges_set:
  assumes "internal_edges ops es = Inr xs"
  shows "set xs = {(a, b) \<in> set es. \<exists>x y. map_of ops a = Some x \<and> map_of ops b = Some y \<and> mo_hart x = mo_hart y}"
proof -
  let ?f = "\<lambda>e. rbind (hart_of ops (fst e)) (\<lambda>a. rbind (hart_of ops (snd e)) (\<lambda>b. Inr (a = b)))"
  obtain bs where bs: "traverse ?f es = Inr bs" "xs = map fst (filter snd (zip es bs))"
    using assms by (auto simp: internal_edges_def rbind_Inr_iff)
  have "set xs = {e \<in> set es. \<exists>b. ?f e = Inr b \<and> b}"
    using zip_filter_edges [OF bs(1), of "\<lambda>b. b"] bs(2) by (simp add: case_prod_unfold)
  then show ?thesis by (auto simp: hart_of_def res_simps)
qed

lemma fr_edges_set: "set (fr_edges rf co) = from_reads (set (rel_edges rf)) (set (rel_edges co))"
  by (force simp: fr_edges_def from_reads_def)

lemma map_of_update_relations:
  "map_of (update_relations d rs) = map_of d ++ map_of (rev (map (\<lambda>r. (rel_name r, r)) rs))"
  unfolding update_relations_def by (rule map_of_foldl_relations)

lemma update_relations_other:
  "n \<notin> rel_name ` set rs \<Longrightarrow> map_of (update_relations d rs) n = map_of d n"
proof -
  assume "n \<notin> rel_name ` set rs"
  then have "map_of (rev (map (\<lambda>r. (rel_name r, r)) rs)) n = None"
    by (auto simp: map_of_eq_None_iff image_image)
  then show ?thesis by (simp add: map_of_update_relations map_add_def)
qed

lemma update_relations_last: "map_of (update_relations d (rs @ [r])) (rel_name r) = Some r"
  by (simp add: map_of_update_relations)

lemma complete_steps:
  assumes "complete_rvwmo_relations g = Inr g'"
  obtains po rf co srcs rfi rfe fr fri fre ppos orders gmo_order gmo where
    "list_all regular (ops_list (eg_operations g))"
    "canonical_po (eg_operations g) = Inr po"
    "map_of (AList.update ''po'' po (eg_relations g)) ''rf'' = Some rf"
    "map_of (AList.update ''po'' po (eg_relations g)) ''co'' = Some co"
    "rf_sources (eg_operations g) rf = Inr srcs"
    "validate_co (eg_operations g) co = Inr ()"
    "rbind (internal_edges (eg_operations g) (rel_edges rf)) (from_edges ''rfi'') = Inr rfi"
    "from_edges ''rfe'' (filter (\<lambda>e. e \<notin> set (rel_edges rfi)) (rel_edges rf)) = Inr rfe"
    "from_edges ''fr'' (fr_edges rf co) = Inr fr"
    "rbind (internal_edges (eg_operations g) (rel_edges fr)) (from_edges ''fri'') = Inr fri"
    "from_edges ''fre'' (filter (\<lambda>e. e \<notin> set (rel_edges fri)) (rel_edges fr)) = Inr fre"
    "derive_ppo (eg_operations g)
       (update_relations (AList.update ''po'' po (eg_relations g)) [rfi, rfe, fr, fri, fre]) srcs = Inr ppos"
    "traverse (\<lambda>n. or_raise (map_of (update_relations (update_relations
       (AList.update ''po'' po (eg_relations g)) [rfi, rfe, fr, fri, fre]) ppos) n) PyKeyError)
       RVWMO_ORDER_RELATIONS = Inr orders"
    "topological_total_order (map fst (eg_operations g)) orders = Inr gmo_order"
    "from_edges ''gmo'' (case gmo_order of None \<Rightarrow> [] | Some xs \<Rightarrow> ordered_pairs xs) = Inr gmo"
    "g' = \<lparr>eg_operations = eg_operations g,
       eg_relations = AList.update ''gmo'' gmo (update_relations (update_relations
         (AList.update ''po'' po (eg_relations g)) [rfi, rfe, fr, fri, fre]) ppos),
       eg_candidate = eg_candidate g,
       eg_metadata = AList.update ''gmo_order''
         (VList (case gmo_order of None \<Rightarrow> [] | Some xs \<Rightarrow> map VStr xs))
         (AList.update ''builtin_model'' (VStr ''rvwmo'') (eg_metadata g)),
       eg_version = eg_version g\<rparr>"
    "mk_graph g' = Inr g'"
proof -
  note steps = assms [unfolded complete_rvwmo_relations_def Let_def rbind_Inr_iff [where f = "\<lambda>x. rbind (f x) (h x)" for f h]
      rbind_Inr_iff [where f = "\<lambda>x. mk_graph (f x)" for f] require_Inr_iff or_raise_Inr_iff mk_graph_Inr_iff]
  from steps show thesis by (elim exE conjE) (rule that; (assumption | (simp; fail) | (simp add: mk_graph_Inr_iff; fail)))
qed

text \<open>
  The relations of the completed graph: \<open>po\<close> from the program indexes, \<open>rf\<close> and \<open>co\<close> as
  supplied, the derived ones by their definitions; and the order the check will use.
\<close>

definition completed :: "exec_graph \<Rightarrow> exec_graph \<Rightarrow> source_map \<Rightarrow> relation list \<Rightarrow> string list option \<Rightarrow> bool" where
  "completed g g' srcs orders gmo_order \<longleftrightarrow>
     eg_operations g' = eg_operations g \<and>
     (\<forall>n \<in> {''po'', ''rf'', ''co'', ''rfe'', ''fr'', ''ppo''}. map_of (eg_relations g') n \<noteq> None) \<and>
     edges_of g' ''rf'' = edges_of g ''rf'' \<and> edges_of g' ''co'' = edges_of g ''co'' \<and>
     (\<forall>rf. map_of (eg_relations g') ''rf'' = Some rf \<longrightarrow> rf_sources (eg_operations g) rf = Inr srcs) \<and>
     rvwmo_graph (eg_operations g) (edges_of g' ''po'') (edges_of g' ''rf'') (edges_of g' ''co'')
       (edges_of g' ''ppo'') srcs \<and>
     edges_of g' ''rfe'' = external (eg_operations g) (edges_of g' ''rf'') \<and>
     edges_of g' ''fr'' = from_reads (edges_of g' ''rf'') (edges_of g' ''co'') \<and>
     traverse (graph_relation g') RVWMO_ORDER_RELATIONS = Inr orders \<and>
     edge_set orders = memory_edges (eg_operations g) (edges_of g' ''rf'') (edges_of g' ''co'') (edges_of g' ''ppo'') \<and>
     topological_total_order (map fst (eg_operations g)) orders = Inr gmo_order \<and>
     gmo_order_of g' = Inr (case gmo_order of None \<Rightarrow> [] | Some xs \<Rightarrow> xs)"

lemma completedD:
  assumes "completed g g' srcs orders gmo_order"
  shows "eg_operations g' = eg_operations g"
    and "edges_of g' ''rf'' = edges_of g ''rf''" and "edges_of g' ''co'' = edges_of g ''co''"
    and "edges_of g' ''rfe'' = external (eg_operations g) (edges_of g' ''rf'')"
    and "edges_of g' ''fr'' = from_reads (edges_of g' ''rf'') (edges_of g' ''co'')"
    and "rvwmo_graph (eg_operations g) (edges_of g' ''po'') (edges_of g' ''rf'') (edges_of g' ''co'')
      (edges_of g' ''ppo'') srcs"
proof -
  note d = assms [unfolded completed_def]
  show "eg_operations g' = eg_operations g"
    using d by (elim conjE)
  show "edges_of g' ''rf'' = edges_of g ''rf''"
    using d by (elim conjE)
  show "edges_of g' ''co'' = edges_of g ''co''"
    using d by (elim conjE)
  show "edges_of g' ''rfe'' = external (eg_operations g) (edges_of g' ''rf'')"
    using d by (elim conjE)
  show "edges_of g' ''fr'' = from_reads (edges_of g' ''rf'') (edges_of g' ''co'')"
    using d by (elim conjE)
  show "rvwmo_graph (eg_operations g) (edges_of g' ''po'') (edges_of g' ''rf'') (edges_of g' ''co'')
      (edges_of g' ''ppo'') srcs"
    using d by (elim conjE)
qed

lemma ppo_names:
  assumes "derive_ppo ops rels rf = Inr rs" shows "r \<in> set rs \<Longrightarrow> take 3 (rel_name r) = ''ppo''"
proof -
  assume "r \<in> set rs"
  then obtain i where i: "i < 14" "r = rs ! i" using derive_ppo_edges(1) [OF assms] by (auto simp: in_set_conv_nth)
  show ?thesis
  proof (cases "i < 13")
    case True
    then show ?thesis using derive_ppo_edges(2) [OF assms True] i by (simp add: ppo_rule_name_def)
  next
    case False
    then have "i = 13" using i by simp
    then show ?thesis using derive_ppo_edges(3) [OF assms] i by simp
  qed
qed

lemma gmo_order_parse:
  "traverse (\<lambda>v. case v of VStr s \<Rightarrow> Inr s | _ \<Rightarrow> Inl Unmodelled) (map VStr xs) = Inr xs"
  by (induction xs) auto

lemma gmo_edges_ppo:
  assumes "canonical_po ops = Inr po" "derive_ppo ops rels srcs = Inr ppos" "rel_or_empty rels ''po'' = po"
    and "list_all regular (ops_list ops)" "wf_ops ops"
    and "(a, b) \<in> set (rel_edges po)" "map_of ops a = Some s" "map_of ops b = Some t" "is_write t" "fp s \<inter> fp t \<noteq> {}"
  shows "(a, b) \<in> set (rel_edges (ppos ! 13))"
proof -
  have "regular s" "regular t"
    using assms(4) ops_list_I [OF assms(5)] assms(7,8) by (auto simp: list_all_iff)
  then have "ppo_holds ops rels srcs 0 (a, b)"
    using assms(7-10) by (simp add: ppo_holds_def ppo_ruleset_def)
  then have "\<exists>i < 13. ppo_holds ops rels srcs i (a, b)" by (intro exI [of _ 0]) simp
  then show ?thesis unfolding derive_ppo_edges(4) [OF assms(2)] using assms(3,6) by simp
qed

lemma last_element: "length xs = Suc n \<Longrightarrow> xs = butlast xs @ [xs ! n]"
  by (cases xs rule: rev_cases) auto

lemma complete_completed:
  assumes wf: "wf_graph g" and c: "complete_rvwmo_relations g = Inr g'"
  obtains srcs orders gmo_order where "completed g g' srcs orders gmo_order"
proof -
  let ?ops = "eg_operations g"
  have wo: "wf_ops ?ops" using wf by (rule wf_graph_ops)
  obtain po rf co srcs rfi rfe fr fri fre ppos orders gmo_order gmo where
    reg: "list_all regular (ops_list ?ops)" and po: "canonical_po ?ops = Inr po"
    and rf: "map_of (AList.update ''po'' po (eg_relations g)) ''rf'' = Some rf"
    and co: "map_of (AList.update ''po'' po (eg_relations g)) ''co'' = Some co"
    and srcs: "rf_sources ?ops rf = Inr srcs" and vco: "validate_co ?ops co = Inr ()"
    and rfi: "rbind (internal_edges ?ops (rel_edges rf)) (from_edges ''rfi'') = Inr rfi"
    and rfe: "from_edges ''rfe'' (filter (\<lambda>e. e \<notin> set (rel_edges rfi)) (rel_edges rf)) = Inr rfe"
    and fr: "from_edges ''fr'' (fr_edges rf co) = Inr fr"
    and fri: "rbind (internal_edges ?ops (rel_edges fr)) (from_edges ''fri'') = Inr fri"
    and fre: "from_edges ''fre'' (filter (\<lambda>e. e \<notin> set (rel_edges fri)) (rel_edges fr)) = Inr fre"
    and ppos: "derive_ppo ?ops
       (update_relations (AList.update ''po'' po (eg_relations g)) [rfi, rfe, fr, fri, fre]) srcs = Inr ppos"
    and orders: "traverse (\<lambda>n. or_raise (map_of (update_relations (update_relations
       (AList.update ''po'' po (eg_relations g)) [rfi, rfe, fr, fri, fre]) ppos) n) PyKeyError)
       RVWMO_ORDER_RELATIONS = Inr orders"
    and topo: "topological_total_order (map fst ?ops) orders = Inr gmo_order"
    and gmo: "from_edges ''gmo'' (case gmo_order of None \<Rightarrow> [] | Some xs \<Rightarrow> ordered_pairs xs) = Inr gmo"
    and g': "g' = \<lparr>eg_operations = ?ops,
       eg_relations = AList.update ''gmo'' gmo (update_relations (update_relations
         (AList.update ''po'' po (eg_relations g)) [rfi, rfe, fr, fri, fre]) ppos),
       eg_candidate = eg_candidate g,
       eg_metadata = AList.update ''gmo_order''
         (VList (case gmo_order of None \<Rightarrow> [] | Some xs \<Rightarrow> map VStr xs))
         (AList.update ''builtin_model'' (VStr ''rvwmo'') (eg_metadata g)),
       eg_version = eg_version g\<rparr>"
    by (rule complete_steps [OF c])
  define rels where "rels = update_relations (AList.update ''po'' po (eg_relations g)) [rfi, rfe, fr, fri, fre]"
  define rels' where "rels' = update_relations rels ppos"
  have names: "rel_name rfi = ''rfi''" "rel_name rfe = ''rfe''" "rel_name fr = ''fr''"
    "rel_name fri = ''fri''" "rel_name fre = ''fre''" "rel_name gmo = ''gmo''"
    using rfi rfe fr fri fre gmo by (auto simp: rbind_Inr_iff dest: from_edges_set)
  have base: "map_of rels ''po'' = Some po" "map_of rels ''rf'' = Some rf" "map_of rels ''co'' = Some co"
    "map_of rels ''rfe'' = Some rfe" "map_of rels ''fr'' = Some fr"
    using rf co unfolding rels_def by (simp_all add: map_of_update_relations names map_add_def update_conv')
  have other: "map_of rels' n = map_of rels n" if "take 3 n \<noteq> ''ppo''" for n
    unfolding rels'_def using ppo_names [OF ppos] that by (intro update_relations_other) auto
  have ppo: "map_of rels' ''ppo'' = Some (ppos ! 13)"
  proof -
    have "ppos = butlast ppos @ [ppos ! 13]"
      using derive_ppo_edges(1) [OF ppos] by (intro last_element) simp
    then show ?thesis unfolding rels'_def
      using update_relations_last [of rels "butlast ppos" "ppos ! 13"] derive_ppo_edges(3) [OF ppos] by metis
  qed
  have look: "map_of (eg_relations g') ''po'' = Some po" "map_of (eg_relations g') ''rf'' = Some rf"
    "map_of (eg_relations g') ''co'' = Some co" "map_of (eg_relations g') ''rfe'' = Some rfe"
    "map_of (eg_relations g') ''fr'' = Some fr" "map_of (eg_relations g') ''ppo'' = Some (ppos ! 13)"
    unfolding g' using other base ppo by (simp_all add: update_conv' flip: rels_def rels'_def)
  have E: "edges_of g' ''po'' = set (rel_edges po)" "edges_of g' ''rf'' = set (rel_edges rf)"
    "edges_of g' ''co'' = set (rel_edges co)" "edges_of g' ''rfe'' = set (rel_edges rfe)"
    "edges_of g' ''fr'' = set (rel_edges fr)" "edges_of g' ''ppo'' = set (rel_edges (ppos ! 13))"
    using look by (simp_all add: edges_of_def)
  have rfv: "rf_valid ?ops (set (rel_edges rf)) srcs" by (rule rf_sources_valid [OF wo srcs])
  have ppo_po: "set (rel_edges (ppos ! 13)) \<subseteq> set (rel_edges po)"
    using derive_ppo_edges(4) [OF ppos] base(1) by (auto simp: rel_or_empty_def simp flip: rels_def)
  have graph: "rvwmo_graph ?ops (edges_of g' ''po'') (edges_of g' ''rf'') (edges_of g' ''co'') (edges_of g' ''ppo'') srcs"
    unfolding rvwmo_graph_def E
  proof (intro conjI)
    show "wf_ops ?ops" by (fact wo)
    show "rf_valid ?ops (set (rel_edges rf)) srcs" by (fact rfv)
    show "co_valid ?ops (set (rel_edges co))" by (rule validate_co_valid [OF wo vco])
    show "set (rel_edges po) = {(a, b). \<exists>s t. map_of ?ops a = Some s \<and> map_of ?ops b = Some t \<and> po_before s t}"
      by (rule canonical_po_edges [OF wo po])
    show "set (rel_edges (ppos ! 13)) \<subseteq> set (rel_edges po)" by (fact ppo_po)
    show "\<forall>a b s t. map_of ?ops a = Some s \<longrightarrow> map_of ?ops b = Some t \<longrightarrow> a \<noteq> b \<longrightarrow> mo_hart s \<noteq> None \<longrightarrow>
        mo_hart s = mo_hart t \<longrightarrow> (a, b) \<in> set (rel_edges po) \<or> (b, a) \<in> set (rel_edges po)"
    proof (intro allI impI)
      fix a b s t assume h: "map_of ?ops a = Some s" "map_of ?ops b = Some t" "a \<noteq> b" "mo_hart s \<noteq> None"
        "mo_hart s = mo_hart t"
      have "s \<noteq> t" using h map_of_ops [OF wo h(1)] map_of_ops [OF wo h(2)] by auto
      then have "po_before s t \<or> po_before t s"
        using canonical_po_total [OF wo po] ops_list_I [OF wo] h by blast
      then show "(a, b) \<in> set (rel_edges po) \<or> (b, a) \<in> set (rel_edges po)"
        using h unfolding canonical_po_edges [OF wo po] by auto
    qed
    show "\<forall>(a, b) \<in> set (rel_edges po). \<forall>s t. map_of ?ops a = Some s \<longrightarrow> map_of ?ops b = Some t \<longrightarrow>
        is_write t \<longrightarrow> fp s \<inter> fp t \<noteq> {} \<longrightarrow> (a, b) \<in> set (rel_edges (ppos ! 13))"
    proof (intro ballI, clarify)
      have "rel_or_empty rels ''po'' = po" using base(1) by (simp add: rel_or_empty_def)
      note in_ppo = gmo_edges_ppo [OF po ppos [folded rels_def] this reg wo]
      fix a b s t assume "(a, b) \<in> set (rel_edges po)" "map_of ?ops a = Some s" "map_of ?ops b = Some t"
        "is_write t" "fp s \<inter> fp t \<noteq> {}"
      then show "(a, b) \<in> set (rel_edges (ppos ! 13))" by (rule in_ppo)
    qed
  qed
  have rfi_set: "set (rel_edges rfi) = {(a, b) \<in> set (rel_edges rf).
      \<exists>x y. map_of ?ops a = Some x \<and> map_of ?ops b = Some y \<and> mo_hart x = mo_hart y}"
    using rfi by (auto simp: rbind_Inr_iff dest!: from_edges_set internal_edges_set)
  have "set (rel_edges rfe) = {e \<in> set (rel_edges rf). e \<notin> set (rel_edges rfi)}"
    using from_edges_set [OF rfe] by simp
  also have "\<dots> = external ?ops (set (rel_edges rf))"
    unfolding rfi_set external_def using rfv unfolding rf_valid_def by fastforce
  finally have ext: "edges_of g' ''rfe'' = external ?ops (edges_of g' ''rf'')" by (simp add: E)
  have frs: "edges_of g' ''fr'' = from_reads (edges_of g' ''rf'') (edges_of g' ''co'')"
    using from_edges_set [OF fr] by (simp add: E fr_edges_set)
  have ord: "orders = [ppos ! 13, rfe, co, fr]"
    using orders other base ppo
    by (simp add: RVWMO_ORDER_RELATIONS_def res_simps flip: rels_def rels'_def)
  have "completed g g' srcs orders gmo_order"
    unfolding completed_def
  proof (intro conjI)
    show "eg_operations g' = ?ops" by (simp add: g')
    show "\<forall>n \<in> {''po'', ''rf'', ''co'', ''rfe'', ''fr'', ''ppo''}. map_of (eg_relations g') n \<noteq> None"
      using look by simp
    show "edges_of g' ''rf'' = edges_of g ''rf''" "edges_of g' ''co'' = edges_of g ''co''"
      using rf co by (simp_all add: E update_conv' edges_of_def [of g])
    show "\<forall>rf. map_of (eg_relations g') ''rf'' = Some rf \<longrightarrow> rf_sources ?ops rf = Inr srcs"
      using look srcs by simp
    show "traverse (graph_relation g') RVWMO_ORDER_RELATIONS = Inr orders"
      by (simp add: RVWMO_ORDER_RELATIONS_def graph_relation_def look ord)
    show "edge_set orders = memory_edges ?ops (edges_of g' ''rf'') (edges_of g' ''co'') (edges_of g' ''ppo'')"
      using ext frs by (auto simp: ord edge_set_def memory_edges_def E)
    show "gmo_order_of g' = Inr (case gmo_order of None \<Rightarrow> [] | Some xs \<Rightarrow> xs)"
      by (simp add: gmo_order_of_def g' get_default_def update_conv' gmo_order_parse split: option.split)
  qed (fact graph ext frs topo)+
  then show thesis by (rule that)
qed

lemma set_update_relations:
  "set (update_relations d rs) \<subseteq> set d \<union> (\<lambda>r. (rel_name r, r)) ` set rs"
proof (induction rs arbitrary: d)
  case (Cons r rs)
  have "set (AList.update (rel_name r) r d) \<subseteq> insert (rel_name r, r) (set d)"
    by (induction d) auto
  then show ?case using Cons.IH [of "AList.update (rel_name r) r d"] by (auto simp: update_relations_def)
qed (simp add: update_relations_def)

lemma set_update: "set (AList.update k v d) \<subseteq> insert (k, v) (set d)"
  by (induction d) auto

lemma derive_ppo_wf: "derive_ppo ops rels rf = Inr rs \<Longrightarrow> r \<in> set rs \<Longrightarrow> wf_relation r"
  unfolding derive_ppo_def Let_def rbind_Inr_iff union_relations_def
  by (auto dest!: traverse_Inr_imageD intro: from_edges_wf)

lemma canonical_po_wf: "canonical_po ops = Inr po \<Longrightarrow> wf_relation po"
  by (auto simp: canonical_po_def rbind_Inr_iff intro: from_edges_wf)

text \<open>Completion keeps the invariant of execution graphs.\<close>

lemma complete_wf:
  assumes wf: "wf_graph g" and c: "complete_rvwmo_relations g = Inr g'" shows "wf_graph g'"
proof -
  let ?ops = "eg_operations g" and ?d = "\<lambda>po. AList.update ''po'' po (eg_relations g)"
  obtain po rf co srcs rfi rfe fr fri fre ppos orders gmo_order gmo where
    po: "canonical_po ?ops = Inr po"
    and rfi: "rbind (internal_edges ?ops (rel_edges rf)) (from_edges ''rfi'') = Inr rfi"
    and rfe: "from_edges ''rfe'' (filter (\<lambda>e. e \<notin> set (rel_edges rfi)) (rel_edges rf)) = Inr rfe"
    and fr: "from_edges ''fr'' (fr_edges rf co) = Inr fr"
    and fri: "rbind (internal_edges ?ops (rel_edges fr)) (from_edges ''fri'') = Inr fri"
    and fre: "from_edges ''fre'' (filter (\<lambda>e. e \<notin> set (rel_edges fri)) (rel_edges fr)) = Inr fre"
    and ppos: "derive_ppo ?ops (update_relations (?d po) [rfi, rfe, fr, fri, fre]) srcs = Inr ppos"
    and gmo: "from_edges ''gmo'' (case gmo_order of None \<Rightarrow> [] | Some xs \<Rightarrow> ordered_pairs xs) = Inr gmo"
    and g': "g' = \<lparr>eg_operations = ?ops,
       eg_relations = AList.update ''gmo'' gmo (update_relations (update_relations (?d po)
         [rfi, rfe, fr, fri, fre]) ppos),
       eg_candidate = eg_candidate g,
       eg_metadata = AList.update ''gmo_order''
         (VList (case gmo_order of None \<Rightarrow> [] | Some xs \<Rightarrow> map VStr xs))
         (AList.update ''builtin_model'' (VStr ''rvwmo'') (eg_metadata g)),
       eg_version = eg_version g\<rparr>"
    and mk: "mk_graph g' = Inr g'"
    by (rule complete_steps [OF c])
  have new: "\<forall>r \<in> {po, rfi, rfe, fr, fri, fre, gmo} \<union> set ppos. wf_relation r"
    using canonical_po_wf [OF po] rfi rfe fr fri fre gmo derive_ppo_wf [OF ppos]
    by (auto simp: rbind_Inr_iff intro: from_edges_wf)
  have "set (eg_relations g') \<subseteq> set (eg_relations g) \<union> (UNIV \<times> ({po, rfi, rfe, fr, fri, fre, gmo} \<union> set ppos))"
  proof
    fix p assume "p \<in> set (eg_relations g')"
    then have "p = (''gmo'', gmo) \<or> p \<in> set (update_relations (update_relations (?d po) [rfi, rfe, fr, fri, fre]) ppos)"
      using set_update [of "''gmo''" gmo] unfolding g' by auto
    then have "snd p \<in> {po, rfi, rfe, fr, fri, fre, gmo} \<union> set ppos \<or> p \<in> set (eg_relations g)"
      by (auto dest!: set_update_relations [THEN subsetD] set_update [THEN subsetD])
    then show "p \<in> set (eg_relations g) \<union> (UNIV \<times> ({po, rfi, rfe, fr, fri, fre, gmo} \<union> set ppos))"
      by (cases p) auto
  qed
  then have "\<forall>(n, r) \<in> set (eg_relations g'). wf_relation r" using new wf by (fastforce simp: wf_graph_def)
  moreover have "distinct (map fst (eg_relations g'))"
    using wf unfolding g' update_relations_def
    by (simp add: distinct_update distinct_foldl_relations wf_graph_def)
  moreover have "eg_operations g' = ?ops" by (simp add: g')
  ultimately show ?thesis using mk wf by (auto simp: wf_graph_def mk_graph_Inr_iff)
qed

section \<open>The load value check\<close>

lemma position_iff:
  assumes "distinct xs" shows "position xs a = Inr i \<longleftrightarrow> i < length xs \<and> xs ! i = a"
proof -
  have "distinct (map fst (rev (zip xs [0..<length xs])))" using assms by (simp add: rev_map [symmetric])
  then have "map_of (rev (zip xs [0..<length xs])) a = Some i \<longleftrightarrow> (a, i) \<in> set (zip xs [0..<length xs])"
    by (simp only: map_of_eq_Some_iff set_rev)
  then show ?thesis by (auto simp: position_def or_raise_Inr_iff set_zip)
qed

lemma ordered_pairs_position:
  assumes "distinct xs" "position xs a = Inr i" "position xs b = Inr j"
  shows "(a, b) \<in> set (ordered_pairs xs) \<longleftrightarrow> i < j"
  using assms unfolding position_iff [OF assms(1)] ordered_pairs_nth
  by (metis nth_eq_iff_index_eq order_less_trans)

lemma max_by_spec:
  "max_by f m xs \<in> set (m # xs) \<and> (\<forall>x \<in> set (m # xs). f x \<le> f (max_by f m xs))"
proof (induction xs arbitrary: m)
  case (Cons x xs)
  let ?m = "if f m < f x then x else m"
  have "max_by f ?m xs \<in> set (?m # xs)" "\<forall>y \<in> set (?m # xs). f y \<le> f (max_by f ?m xs)"
    using Cons.IH [of ?m] by blast+
  then show ?case by (auto split: if_splits)
qed simp

lemma eligible_write_iff:
  assumes "wf_ops ops" "distinct xs" "eligible_write xs po y x = Inr b"
    and "map_of ops r = Some y" "map_of ops w = Some x"
  shows "b \<longleftrightarrow> w \<in> visible ops (set (rel_edges po)) (set (ordered_pairs xs)) r"
proof -
  have id: "mo_id y = r" "mo_id x = w" using map_of_ops [OF assms(1)] assms(4,5) by auto
  show ?thesis
  proof (cases "is_write x \<and> w \<noteq> r")
    case True
    then obtain same where same: "same_location x y = Inr same"
      using assms(3) id by (auto simp: eligible_write_def rbind_Inr_iff split: if_splits)
    show ?thesis
    proof (cases same)
      case True
      then obtain i j where ij: "position xs w = Inr i" "position xs r = Inr j"
        "b = (i < j \<or> contains po w r)"
        using assms(3) same \<open>is_write x \<and> w \<noteq> r\<close> id by (auto simp: eligible_write_def rbind_Inr_iff)
      show ?thesis
        using ij(3) ordered_pairs_position [OF assms(2) ij(1,2)] same_location_Inr [OF same] True
          assms(4,5) \<open>is_write x \<and> w \<noteq> r\<close> by (auto simp: visible_def contains_def)
    next
      case False
      then show ?thesis using assms(3-5) same \<open>is_write x \<and> w \<noteq> r\<close> id same_location_Inr [OF same]
        by (auto simp: eligible_write_def visible_def)
    qed
  next
    case False
    then show ?thesis using assms(3-5) id by (auto simp: eligible_write_def visible_def)
  qed
qed

lemma load_offense_iff:
  assumes wf: "wf_ops ops" and d: "distinct xs" and r: "map_of ops r = Some y" and src: "map_of srcs r = Some w"
    and off: "load_offense ops xs po srcs y = Inr offs"
  defines "V \<equiv> visible ops (set (rel_edges po)) (set (ordered_pairs xs)) r"
  shows "offs = [] \<longleftrightarrow> w \<in> V \<and> (\<forall>w' \<in> V. w' = w \<or> (w', w) \<in> set (ordered_pairs xs))"
proof -
  have id: "mo_id y = r" using map_of_ops [OF wf r] by simp
  obtain el where el: "filter_res (eligible_write xs po y) (ops_list ops) = Inr el"
    and rest: "(case el of [] \<Rightarrow> Inr [(w, r)]
       | x # ws \<Rightarrow> rbind (traverse (\<lambda>x. position xs (mo_id x)) (x # ws)) (\<lambda>ps.
             let latest = max_by snd (x, hd ps) (zip ws (tl ps))
             in Inr (if mo_id (fst latest) \<noteq> w then [(w, r)] else []))) = Inr offs"
    using off src id by (auto simp: load_offense_def rbind_Inr_iff source_of_Inr)
  have elV: "x \<in> set el \<longleftrightarrow> mo_id x \<in> V" if "x \<in> set (ops_list ops)" for x
    using filter_res_Inr [OF el] filter_res_defined [OF el that] that
      eligible_write_iff [OF wf d _ r, of po x _ "mo_id x"] set_ops_list [OF wf]
    unfolding V_def by auto
  have el_ops: "set el \<subseteq> set (ops_list ops)" using filter_res_Inr [OF el] by auto
  have V_el: "\<exists>x \<in> set el. mo_id x = v" if "v \<in> V" for v
  proof -
    obtain x where "map_of ops v = Some x" using \<open>v \<in> V\<close> by (auto simp: V_def visible_def)
    then show ?thesis using elV [of x] ops_list_I [OF wf] map_of_ops [OF wf] \<open>v \<in> V\<close> by metis
  qed
  show ?thesis
  proof (cases el)
    case Nil
    then show ?thesis using rest V_el by auto
  next
    case (Cons x ws)
    obtain ps where ps: "traverse (\<lambda>x. position xs (mo_id x)) el = Inr ps"
      "offs = (if mo_id (fst (max_by snd (x, hd ps) (zip ws (tl ps)))) \<noteq> w then [(w, r)] else [])"
      using rest Cons by (auto simp: rbind_Inr_iff Let_def)
    define latest where "latest = max_by snd (x, hd ps) (zip ws (tl ps))"
    have zip: "(x, hd ps) # zip ws (tl ps) = zip el ps"
      using traverse_length [OF ps(1)] Cons by (cases ps) auto
    have pos: "position xs (mo_id z) = Inr p" if "(z, p) \<in> set (zip el ps)" for z p
      using ps(1) that unfolding traverse_Inr_iff by (auto simp: list_all2_iff)
    have lat: "latest \<in> set (zip el ps)" "\<And>q. q \<in> set (zip el ps) \<Longrightarrow> snd q \<le> snd latest"
      using max_by_spec [of snd "(x, hd ps)" "zip ws (tl ps)"] unfolding latest_def [symmetric] zip by auto
    obtain l pl where l: "latest = (l, pl)" by fastforce
    have lel: "l \<in> set el" and lpos: "position xs (mo_id l) = Inr pl"
      using lat(1) pos l by (auto dest: set_zip_leftD)
    have lV: "mo_id l \<in> V" using elV lel el_ops by blast
    have le: "\<exists>p. position xs v = Inr p \<and> p \<le> pl" if "v \<in> V" for v
    proof -
      note v = that
      obtain z where z: "z \<in> set el" "mo_id z = v" using V_el [OF v] by blast
      then obtain k where k: "k < length el" "el ! k = z" by (auto simp: in_set_conv_nth)
      then have "(z, ps ! k) \<in> set (zip el ps)" using traverse_length [OF ps(1)] by (force simp: set_zip)
      then show ?thesis using pos lat(2) l z by fastforce
    qed
    have "offs = [] \<longleftrightarrow> mo_id l = w" using ps(2) l by (simp add: latest_def)
    also have "\<dots> \<longleftrightarrow> w \<in> V \<and> (\<forall>w' \<in> V. w' = w \<or> (w', w) \<in> set (ordered_pairs xs))"
    proof
      assume lw: "mo_id l = w"
      have "w' = w \<or> (w', w) \<in> set (ordered_pairs xs)" if "w' \<in> V" for w'
      proof -
        note w' = that
        obtain p where p: "position xs w' = Inr p" "p \<le> pl" using le [OF w'] by blast
        then have "p = pl \<longrightarrow> w' = w" using lpos lw position_iff [OF d] by metis
        then show ?thesis using ordered_pairs_position [OF d p(1), of w pl] lpos lw p(2) by auto
      qed
      then show "w \<in> V \<and> (\<forall>w' \<in> V. w' = w \<or> (w', w) \<in> set (ordered_pairs xs))" using lV lw by blast
    next
      assume a: "w \<in> V \<and> (\<forall>w' \<in> V. w' = w \<or> (w', w) \<in> set (ordered_pairs xs))"
      then obtain p where p: "position xs w = Inr p" "p \<le> pl" using le by blast
      then show "mo_id l = w" using a lV ordered_pairs_position [OF d lpos p(1)] by auto
    qed
    finally show ?thesis .
  qed
qed

lemma sort_Nil_iff [simp]: "sort xs = [] \<longleftrightarrow> xs = []"
  by (metis length_0_conv length_sort)

lemma load_value_offenses_iff:
  assumes c: "completed g g' srcs orders (Some xs)" and off: "load_value_offenses g' = Inr offs"
    and d: "distinct xs" "set xs = fst ` set (eg_operations g)"
  shows "offs = [] \<longleftrightarrow> load_value_axiom (eg_operations g) (edges_of g' ''po'') (edges_of g' ''rf'') (set (ordered_pairs xs))"
proof -
  let ?ops = "eg_operations g" and ?rf = "edges_of g' ''rf''"
  have gr: "rvwmo_graph ?ops (edges_of g' ''po'') ?rf (edges_of g' ''co'') (edges_of g' ''ppo'') srcs"
    and ops: "eg_operations g' = ?ops" and gmo: "gmo_order_of g' = Inr xs"
    using c by (auto simp: completed_def)
  note wf = rvwmo_graphD(1) [OF gr] and rfv = rvwmo_graphD(2) [OF gr]
  obtain po rf where po: "map_of (eg_relations g') ''po'' = Some po" "edges_of g' ''po'' = set (rel_edges po)"
    and rf: "map_of (eg_relations g') ''rf'' = Some rf" "rf_sources ?ops rf = Inr srcs"
    using c by (fastforce simp: completed_def edges_of_def)
  have rf_iff: "(w, r) \<in> ?rf \<longleftrightarrow> map_of srcs r = Some w" for w r using rfv unfolding rf_valid_def by blast
  have reads: "\<exists>y. map_of ?ops r = Some y \<and> is_read y" if "(w, r) \<in> ?rf" for w r
    using rfv that unfolding rf_valid_def by blast
  have src: "\<exists>w. (w, r) \<in> ?rf" if "map_of ?ops r = Some y" "is_read y" for r y
    using rfv that unfolding rf_valid_def by blast
  show ?thesis
  proof (cases "xs = []")
    case True
    then have "?ops = []" using d(2) by auto
    then have "?rf = {}" using reads by auto
    then show ?thesis using off gmo True by (simp add: load_value_offenses_def load_value_axiom_def)
  next
    case False
    obtain os where os: "traverse (load_offense ?ops xs po srcs) (filter is_read (ops_list ?ops)) = Inr os"
      "offs = sort (concat os)"
      using off gmo False po(1) rf by (auto simp: load_value_offenses_def ops graph_relation_def rbind_Inr_iff)
    have "offs = [] \<longleftrightarrow> (\<forall>o' \<in> set os. o' = [])" using os(2) by simp
    also have "\<dots> \<longleftrightarrow> (\<forall>y \<in> set (ops_list ?ops). is_read y \<longrightarrow> load_offense ?ops xs po srcs y = Inr [])"
      using traverse_Inr_memD [OF os(1)] traverse_Inr_imageD [OF os(1)] by fastforce
    also have "\<dots> \<longleftrightarrow> (\<forall>(w, r) \<in> ?rf. w \<in> visible ?ops (edges_of g' ''po'') (set (ordered_pairs xs)) r \<and>
        (\<forall>w' \<in> visible ?ops (edges_of g' ''po'') (set (ordered_pairs xs)) r. w' = w \<or> (w', w) \<in> set (ordered_pairs xs)))"
      (is "?L \<longleftrightarrow> (\<forall>(w, r) \<in> ?rf. ?P w r)")
    proof -
      have P: "load_offense ?ops xs po srcs y = Inr [] \<longleftrightarrow> ?P w r"
        if "(w, r) \<in> ?rf" "map_of ?ops r = Some y" "is_read y" for w r y
      proof -
        have "y \<in> set (filter is_read (ops_list ?ops))" using that ops_list_I [OF wf] by simp
        then obtain o' where o: "load_offense ?ops xs po srcs y = Inr o'" using traverse_Inr_memD [OF os(1)] by blast
        then show ?thesis using load_offense_iff [OF wf d(1) that(2) _ o, of w] that(1) rf_iff po(2) by auto
      qed
      show ?thesis
      proof
        assume L: ?L
        have "?P w r" if "(w, r) \<in> ?rf" for w r
          using reads [OF that] P [OF that] L ops_list_I [OF wf] by blast
        then show "\<forall>(w, r) \<in> ?rf. ?P w r" by blast
      next
        assume R: "\<forall>(w, r) \<in> ?rf. ?P w r"
        show ?L
        proof (intro ballI impI)
          fix y assume y: "y \<in> set (ops_list ?ops)" "is_read y"
          then have m: "map_of ?ops (mo_id y) = Some y" using set_ops_list [OF wf] by blast
          obtain w where w: "(w, mo_id y) \<in> ?rf" using src [OF m y(2)] by blast
          then have "?P w (mo_id y)" using R by blast
          then show "load_offense ?ops xs po srcs y = Inr []" using P [OF w m y(2)] by blast
        qed
      qed
    qed
    finally show ?thesis by (simp add: load_value_axiom_def)
  qed
qed

section \<open>The outcomes\<close>

lemma check_steps:
  assumes "check_rvwmo g = Inr ocs"
  obtains orders cyc lv amo lrsc where
    "traverse (graph_relation g) RVWMO_ORDER_RELATIONS = Inr orders" "find_labeled_cycle orders = Inr cyc"
    "load_value_offenses g = Inr lv" "amo_offenses g = Inr amo" "lr_sc_offenses g = Inr lrsc"
    "length ocs = 5" "oc_satisfied (ocs ! 0) = (cyc = None)"
    "oc_satisfied (ocs ! 1) = (lv = [])" "oc_satisfied (ocs ! 2) = (amo = [])"
    "oc_satisfied (ocs ! 3) = (lrsc = [])" "oc_satisfied (ocs ! 4)"
proof -
  obtain orders cyc lv amo lrsc where h:
    "traverse (graph_relation g) RVWMO_ORDER_RELATIONS = Inr orders" "find_labeled_cycle orders = Inr cyc"
    "load_value_offenses g = Inr lv" "amo_offenses g = Inr amo" "lr_sc_offenses g = Inr lrsc"
    and o: "ocs = rvwmo_outcomes cyc lv amo lrsc"
    using assms unfolding check_rvwmo_def by (auto simp: rbind_Inr_iff)
  show thesis by (rule that [OF h]) (simp_all add: o rvwmo_outcomes_def offense_outcome_def)
qed

lemma completed_nodes:
  assumes c: "completed g g' srcs orders gmo_order"
  shows "edge_set orders \<subseteq> set (map fst (eg_operations g)) \<times> set (map fst (eg_operations g))"
proof -
  let ?ops = "eg_operations g"
  have gr: "rvwmo_graph ?ops (edges_of g' ''po'') (edges_of g' ''rf'') (edges_of g' ''co'') (edges_of g' ''ppo'') srcs"
    and E: "edge_set orders = memory_edges ?ops (edges_of g' ''rf'') (edges_of g' ''co'') (edges_of g' ''ppo'')"
    using c by (auto simp: completed_def)
  have N: "map_of ?ops a = Some x \<Longrightarrow> a \<in> fst ` set ?ops" for a x by (force dest: map_of_SomeD)
  have "a \<in> fst ` set ?ops \<and> b \<in> fst ` set ?ops" if "(a, b) \<in> edges_of g' ''ppo''" for a b
    using that rvwmo_graphD(4) [OF gr] graph_po_before [OF gr, of a b] N by blast
  moreover have rf: "a \<in> fst ` set ?ops \<and> b \<in> fst ` set ?ops" if "(a, b) \<in> edges_of g' ''rf''" for a b
    using rf_ops [OF gr that] N by metis
  moreover have co: "a \<in> fst ` set ?ops \<and> b \<in> fst ` set ?ops" if "(a, b) \<in> edges_of g' ''co''" for a b
    using co_valid_writes [OF rvwmo_graphD(3) [OF gr] that] N by blast
  ultimately show ?thesis unfolding E memory_edges_def external_def from_reads_def by auto
qed

lemma completed_order:
  assumes c: "completed g g' srcs orders gmo_order" and wf: "wf_graph g"
  obtains (order) xs where "gmo_order = Some xs" "distinct xs" "set xs = fst ` set (eg_operations g)"
      "strict_total (fst ` set (eg_operations g)) (set (ordered_pairs xs))"
      "edge_set orders \<subseteq> set (ordered_pairs xs)" "acyclic (edge_set orders)"
  | (cyclic) "gmo_order = None" "\<not> acyclic (edge_set orders)"
proof -
  note N = completed_nodes [OF c]
  have t: "topological_total_order (map fst (eg_operations g)) orders = Inr gmo_order"
    using c by (simp add: completed_def)
  show thesis
  proof (cases gmo_order)
    case None
    then show thesis using kahn.tsort_none [OF N] t cyclic by simp
  next
    case (Some xs)
    then have o: "total_order_of (map fst (eg_operations g)) (edge_set orders) xs"
      using kahn.tsort_some [OF N] t by simp
    then have "acyclic (edge_set orders)" using ordered_acyclic by (auto simp: total_order_of_def)
    then show thesis using order [OF Some] o total_order_strict [OF o] by (simp add: total_order_of_def)
  qed
qed

text \<open>The first outcome is acyclicity of the memory edges.\<close>

lemma order_outcome:
  assumes "completed g g' srcs orders gmo_order" "check_rvwmo g' = Inr ocs"
  shows "oc_satisfied (ocs ! 0) \<longleftrightarrow> acyclic (edge_set orders)"
proof -
  obtain orders' cyc where "traverse (graph_relation g') RVWMO_ORDER_RELATIONS = Inr orders'"
    "find_labeled_cycle orders' = Inr cyc" "oc_satisfied (ocs ! 0) = (cyc = None)"
    by (rule check_steps [OF assms(2)])
  then show ?thesis using assms(1) dfs.find_none_iff [of orders] by (auto simp: completed_def)
qed

text \<open>
  The first two outcomes hold iff some global memory order satisfies the axioms for the given
  reads-from and coherence.
\<close>

lemma order_and_load_value:
  assumes wf: "wf_graph g" and c: "completed g g' srcs orders gmo_order" and ck: "check_rvwmo g' = Inr ocs"
  shows "oc_satisfied (ocs ! 0) \<and> oc_satisfied (ocs ! 1) \<longleftrightarrow>
    (\<exists>gmo. global_memory_order (eg_operations g) (edges_of g' ''po'') (edges_of g ''rf'')
      (edges_of g ''co'') (edges_of g' ''ppo'') gmo)"
proof -
  let ?ops = "eg_operations g" and ?po = "edges_of g' ''po''" and ?rf = "edges_of g' ''rf''"
    and ?co = "edges_of g' ''co''" and ?ppo = "edges_of g' ''ppo''"
  have gr: "rvwmo_graph ?ops ?po ?rf ?co ?ppo srcs"
    and E: "edge_set orders = memory_edges ?ops ?rf ?co ?ppo"
    and same: "edges_of g ''rf'' = ?rf" "edges_of g ''co'' = ?co"
    using c by (auto simp: completed_def)
  obtain lv where lv: "load_value_offenses g' = Inr lv" "oc_satisfied (ocs ! 1) = (lv = [])"
    by (rule check_steps [OF ck])
  note first = order_outcome [OF c ck]
  show ?thesis unfolding same
  proof (cases rule: completed_order [OF c wf, case_names order cyclic])
    case (order xs)
    have "oc_satisfied (ocs ! 1) \<longleftrightarrow> load_value_axiom ?ops ?po ?rf (set (ordered_pairs xs))"
      using load_value_offenses_iff [OF c [unfolded order(1)] lv(1) order(2,3)] lv(2) by simp
    moreover have "load_value_axiom ?ops ?po ?rf (set (ordered_pairs xs)) \<longleftrightarrow> coherent_reads ?po ?rf ?co"
      by (rule load_value_iff [OF gr order(4)]) (use order(5) E in simp)
    moreover have "global_memory_order ?ops ?po ?rf ?co ?ppo (set (ordered_pairs xs)) \<longleftrightarrow>
        load_value_axiom ?ops ?po ?rf (set (ordered_pairs xs))"
      using order(4,5) unfolding E by (auto simp: global_memory_order_def memory_edges_def)
    ultimately show "oc_satisfied (ocs ! 0) \<and> oc_satisfied (ocs ! 1) \<longleftrightarrow>
        (\<exists>gmo. global_memory_order ?ops ?po ?rf ?co ?ppo gmo)"
      using first order(6) gmo_coherent [OF gr] by blast
  next
    case cyclic
    have "\<not> global_memory_order ?ops ?po ?rf ?co ?ppo gmo" for gmo
    proof
      assume gmo: "global_memory_order ?ops ?po ?rf ?co ?ppo gmo"
      then have "strict_total (fst ` set ?ops) gmo" by (simp add: global_memory_order_def)
      then have "acyclic (memory_edges ?ops ?rf ?co ?ppo)"
        using gmo_memory_edges [OF gr gmo] by (rule strict_total_acyclic)
      then show False using cyclic(2) E by simp
    qed
    then show "oc_satisfied (ocs ! 0) \<and> oc_satisfied (ocs ! 1) \<longleftrightarrow>
        (\<exists>gmo. global_memory_order ?ops ?po ?rf ?co ?ppo gmo)" using first cyclic(2) by simp
  qed
qed

section \<open>Atomicity\<close>

text \<open>An AMO reads the write that immediately precedes it in coherence order.\<close>

definition amo_atomic :: "op_map \<Rightarrow> edge set \<Rightarrow> edge set \<Rightarrow> bool" where
  "amo_atomic ops rf co \<longleftrightarrow>
     (\<forall>a x. map_of ops a = Some x \<longrightarrow> atomic_kind x = ''amo'' \<longrightarrow>
        mo_kind x = AMO \<and>
        (\<forall>w. (w, a) \<in> rf \<longrightarrow> (w, a) \<in> co \<and> \<not> (\<exists>v. (w, v) \<in> co \<and> (v, a) \<in> co)))"

lemma amo_offense_iff:
  assumes gr: "rvwmo_graph ops po rf (set (rel_edges co)) ppo srcs" and a: "map_of ops i = Some a"
    and off: "amo_offense ops co srcs a = Inr offs"
  shows "offs = [] \<longleftrightarrow> mo_kind a = AMO \<and>
    (\<forall>w. (w, i) \<in> rf \<longrightarrow> (w, i) \<in> set (rel_edges co) \<and>
      \<not> (\<exists>v. (w, v) \<in> set (rel_edges co) \<and> (v, i) \<in> set (rel_edges co)))"
proof -
  let ?co = "set (rel_edges co)"
  note wf = rvwmo_graphD(1) [OF gr] and cov = rvwmo_graphD(3) [OF gr]
  have id: "mo_id a = i" using map_of_ops [OF wf a] by simp
  have rf_iff: "(w, r) \<in> rf \<longleftrightarrow> map_of srcs r = Some w" for w r
    using rvwmo_graphD(2) [OF gr] unfolding rf_valid_def by blast
  show ?thesis
  proof (cases "is_read a \<and> is_write a")
    case True
    then have k: "mo_kind a = AMO" by (auto simp: is_read_def is_read_kind_def is_write_def)
    obtain src where src: "map_of srcs i = Some src"
      using off True id by (auto simp: amo_offense_def rbind_Inr_iff source_of_Inr)
    show ?thesis
    proof (cases "contains co src i")
      case True
      then have c: "(src, i) \<in> ?co" by (simp add: contains_def)
      let ?p = "\<lambda>w. if is_write w \<and> mo_id w \<noteq> src \<and> mo_id w \<noteq> i
            then rbind (same_location w a) (\<lambda>same.
              Inr (same \<and> contains co src (mo_id w) \<and> contains co (mo_id w) i))
            else Inr False"
      obtain b where b: "any_res ?p (ops_list ops) = Inr b" "offs = (if b then [(src, i)] else [])"
        using off True \<open>is_read a \<and> is_write a\<close> id src
        by (auto simp: amo_offense_def rbind_Inr_iff source_of_Inr)
      have f1: "(src, mo_id w) \<in> ?co \<and> (mo_id w, i) \<in> ?co" if "?p w = Inr True" for w
        using that by (auto simp: rbind_Inr_iff contains_def split: if_splits)
      have f2: "\<exists>w \<in> set (ops_list ops). ?p w = Inr True" if v: "(src, v) \<in> ?co" "(v, i) \<in> ?co" for v
      proof -
        obtain w y where w: "map_of ops v = Some w" "is_write w" "map_of ops i = Some y" "fp w = fp y" "v \<noteq> i"
          using co_valid_writes [OF cov v(2)] by blast
        have m: "w \<in> set (ops_list ops)" "mo_id w = v" using ops_list_I [OF wf w(1)] map_of_ops [OF wf w(1)] by auto
        have "v \<noteq> src" using v(1) co_valid_irrefl [OF cov] by auto
        have "?p w \<noteq> Inr False"
        proof
          assume n: "?p w = Inr False"
          then obtain same where same: "same_location w a = Inr same"
            using w(2,5) m(2) \<open>v \<noteq> src\<close> by (auto simp: rbind_Inr_iff)
          then have same using same_location_Inr [OF same] w(3,4) a by simp
          then show False using n same w(2,5) m(2) \<open>v \<noteq> src\<close> v by (simp add: contains_def)
        qed
        then show ?thesis using any_res_Inr [OF b(1)] any_res_False [of ?p "ops_list ops" w] b(1) m(1)
          by (cases b) auto
      qed
      have "b \<longleftrightarrow> (\<exists>v. (src, v) \<in> ?co \<and> (v, i) \<in> ?co)"
        unfolding any_res_Inr [OF b(1)] using f1 f2 by blast
      then show ?thesis using b(2) c k src rf_iff by auto
    next
      case False
      then show ?thesis using off True id src rf_iff by (auto simp: amo_offense_def source_of_Inr contains_def rbind_Inr_iff source_of_def)
    qed
  next
    case False
    then have "mo_kind a \<noteq> AMO" by (auto simp: is_read_def is_read_kind_def is_write_def)
    then show ?thesis using off False by (auto simp: amo_offense_def)
  qed
qed

lemma sorted_concat_Nil:
  assumes "traverse f xs = Inr os" shows "sort (concat os) = [] \<longleftrightarrow> (\<forall>x \<in> set xs. f x = Inr [])"
  using traverse_Inr_memD [OF assms] traverse_Inr_imageD [OF assms] by fastforce

lemma amo_outcome:
  assumes c: "completed g g' srcs orders gmo_order" and ck: "check_rvwmo g' = Inr ocs"
  shows "oc_satisfied (ocs ! 2) \<longleftrightarrow> amo_atomic (eg_operations g) (edges_of g ''rf'') (edges_of g ''co'')"
proof -
  let ?ops = "eg_operations g" and ?rf = "edges_of g' ''rf''"
  have gr: "rvwmo_graph ?ops (edges_of g' ''po'') ?rf (edges_of g' ''co'') (edges_of g' ''ppo'') srcs"
    and ops: "eg_operations g' = ?ops" and same: "edges_of g ''rf'' = ?rf" "edges_of g ''co'' = edges_of g' ''co''"
    using c by (auto simp: completed_def)
  note wf = rvwmo_graphD(1) [OF gr]
  obtain co rf where co: "map_of (eg_relations g') ''co'' = Some co" "edges_of g' ''co'' = set (rel_edges co)"
    and rf: "map_of (eg_relations g') ''rf'' = Some rf" "rf_sources ?ops rf = Inr srcs"
    using c by (fastforce simp: completed_def edges_of_def)
  obtain offs where offs: "amo_offenses g' = Inr offs" "oc_satisfied (ocs ! 2) = (offs = [])"
    by (rule check_steps [OF ck])
  obtain os where os: "traverse (amo_offense ?ops co srcs) (filter (\<lambda>m. atomic_kind m = ''amo'') (ops_list ?ops)) = Inr os"
    "offs = sort (concat os)"
    using offs(1) co(1) rf by (auto simp: amo_offenses_def ops graph_relation_def rbind_Inr_iff)
  let ?P = "\<lambda>i a. mo_kind a = AMO \<and> (\<forall>w. (w, i) \<in> ?rf \<longrightarrow> (w, i) \<in> set (rel_edges co) \<and>
      \<not> (\<exists>v. (w, v) \<in> set (rel_edges co) \<and> (v, i) \<in> set (rel_edges co)))"
  have "amo_offense ?ops co srcs a = Inr [] \<longleftrightarrow> ?P (mo_id a) a"
    if a: "a \<in> set (filter (\<lambda>m. atomic_kind m = ''amo'') (ops_list ?ops))" for a
  proof -
    obtain o' where o: "amo_offense ?ops co srcs a = Inr o'" using traverse_Inr_memD [OF os(1) a] by blast
    have "map_of ?ops (mo_id a) = Some a" using a set_ops_list [OF wf] by simp
    then show ?thesis using amo_offense_iff [OF gr [unfolded co(2)] _ o] o by simp
  qed
  then have "oc_satisfied (ocs ! 2) \<longleftrightarrow>
      (\<forall>a \<in> set (ops_list ?ops). atomic_kind a = ''amo'' \<longrightarrow> ?P (mo_id a) a)"
    unfolding offs(2) os(2) sorted_concat_Nil [OF os(1)] by auto
  also have "\<dots> \<longleftrightarrow> amo_atomic ?ops ?rf (set (rel_edges co))"
    unfolding amo_atomic_def
    by (rule ball_ops [OF wf, of "\<lambda>i a. atomic_kind a = ''amo'' \<longrightarrow> ?P i a"])
  finally show ?thesis by (simp add: same co(2))
qed

text \<open>
  Every store-conditional is paired with one load-reserved, follows the write the load-reserved
  reads from, and no write of another hart to a common byte comes between them.
\<close>

definition lr_sc_atomic :: "op_map \<Rightarrow> edge set \<Rightarrow> edge set \<Rightarrow> edge set \<Rightarrow> bool" where
  "lr_sc_atomic ops rf co pair \<longleftrightarrow>
     (\<forall>s x. map_of ops s = Some x \<longrightarrow> atomic_kind x = ''sc'' \<longrightarrow> (\<exists>!l. (l, s) \<in> pair)) \<and>
     (\<forall>(l, s) \<in> pair. \<forall>w. (w, l) \<in> rf \<longrightarrow> (w, s) \<in> co \<and>
        \<not> (\<exists>v x y. map_of ops v = Some x \<and> map_of ops l = Some y \<and> mo_hart x \<noteq> mo_hart y \<and>
             fp x \<inter> fp y \<noteq> {} \<and> (w, v) \<in> co \<and> (v, s) \<in> co))"

lemma sc_offense_iff:
  assumes gr: "rvwmo_graph ops po rf (set (rel_edges co)) ppo srcs"
    and off: "sc_offense ops co srcs (l, s) = Inr offs"
  shows "offs = [] \<longleftrightarrow> (\<forall>w. (w, l) \<in> rf \<longrightarrow> (w, s) \<in> set (rel_edges co) \<and>
     \<not> (\<exists>v x y. map_of ops v = Some x \<and> map_of ops l = Some y \<and> mo_hart x \<noteq> mo_hart y \<and>
          fp x \<inter> fp y \<noteq> {} \<and> (w, v) \<in> set (rel_edges co) \<and> (v, s) \<in> set (rel_edges co)))"
proof -
  let ?co = "set (rel_edges co)"
  note wf = rvwmo_graphD(1) [OF gr] and cov = rvwmo_graphD(3) [OF gr]
  have rf_iff: "(w, r) \<in> rf \<longleftrightarrow> map_of srcs r = Some w" for w r
    using rvwmo_graphD(2) [OF gr] unfolding rf_valid_def by blast
  let ?p = "\<lambda>src lr w. if is_write w \<and> mo_id w \<noteq> src \<and> mo_id w \<noteq> s \<and> mo_hart w \<noteq> mo_hart lr
      then rbind (overlap w lr) (\<lambda>ov. Inr (ov \<and> contains co src (mo_id w) \<and> contains co (mo_id w) s))
      else Inr False"
  obtain lr src where lr: "map_of ops l = Some lr" and src: "map_of srcs l = Some src"
    and rest: "(if \<not> contains co src s then Inr [(l, s)]
      else rbind (any_res (?p src lr) (ops_list ops)) (\<lambda>b. Inr (if b then [(l, s)] else []))) = Inr offs"
    using off unfolding sc_offense_def fst_conv snd_conv rbind_Inr_iff or_raise_Inr_iff source_of_Inr
    by (elim exE conjE) (rule that; assumption)
  show ?thesis
  proof (cases "contains co src s")
    case True
    then have c: "(src, s) \<in> ?co" by (simp add: contains_def)
    obtain b where b: "any_res (?p src lr) (ops_list ops) = Inr b" "offs = (if b then [(l, s)] else [])"
      using rest True by (auto simp: rbind_Inr_iff)
    have f1: "mo_hart w \<noteq> mo_hart lr \<and> fp w \<inter> fp lr \<noteq> {} \<and> (src, mo_id w) \<in> ?co \<and> (mo_id w, s) \<in> ?co"
      if "?p src lr w = Inr True" for w
      using that by (auto simp: rbind_Inr_iff contains_def dest: overlap_Inr split: if_splits)
    have f2: "\<exists>w \<in> set (ops_list ops). ?p src lr w = Inr True"
      if v: "map_of ops v = Some x" "mo_hart x \<noteq> mo_hart lr" "fp x \<inter> fp lr \<noteq> {}" "(src, v) \<in> ?co" "(v, s) \<in> ?co" for v x
    proof -
      have m: "x \<in> set (ops_list ops)" "mo_id x = v" using ops_list_I [OF wf v(1)] map_of_ops [OF wf v(1)] by auto
      have w: "is_write x" "v \<noteq> src" "v \<noteq> s"
        using co_valid_writes [OF cov v(5)] co_valid_irrefl [OF cov] v(1,4,5) by auto
      have "?p src lr x \<noteq> Inr False"
      proof
        assume n: "?p src lr x = Inr False"
        then obtain ov where ov: "overlap x lr = Inr ov" using w m(2) v(2) by (auto simp: rbind_Inr_iff)
        then have ov' : ov using overlap_Inr [OF ov] v(3) by simp
        then show False using n ov w m(2) v by (simp add: contains_def)
      qed
      then show ?thesis using any_res_Inr [OF b(1)] any_res_False [of "?p src lr" "ops_list ops" x] b(1) m(1)
        by (cases b) auto
    qed
    have "b \<longleftrightarrow> (\<exists>v x. map_of ops v = Some x \<and> mo_hart x \<noteq> mo_hart lr \<and> fp x \<inter> fp lr \<noteq> {} \<and>
        (src, v) \<in> ?co \<and> (v, s) \<in> ?co)"
      unfolding any_res_Inr [OF b(1)]
    proof
      assume "\<exists>w \<in> set (ops_list ops). ?p src lr w = Inr True"
      then obtain w where w: "w \<in> set (ops_list ops)" "?p src lr w = Inr True" by blast
      then show "\<exists>v x. map_of ops v = Some x \<and> mo_hart x \<noteq> mo_hart lr \<and> fp x \<inter> fp lr \<noteq> {} \<and>
        (src, v) \<in> ?co \<and> (v, s) \<in> ?co" using f1 [OF w(2)] set_ops_list [OF wf] by blast
    next
      assume "\<exists>v x. map_of ops v = Some x \<and> mo_hart x \<noteq> mo_hart lr \<and> fp x \<inter> fp lr \<noteq> {} \<and>
        (src, v) \<in> ?co \<and> (v, s) \<in> ?co"
      then show "\<exists>w \<in> set (ops_list ops). ?p src lr w = Inr True" using f2 by (elim exE conjE)
    qed
    moreover have "offs = [] \<longleftrightarrow> \<not> b" using b(2) by simp
    ultimately show ?thesis using c src lr by (simp only: rf_iff option.inject) blast
  next
    case False
    then show ?thesis using rest src rf_iff by (auto simp: contains_def)
  qed
qed

lemma one_incoming:
  assumes "distinct es"
  shows "length (filter (\<lambda>e. snd e = s) es) = 1 \<longleftrightarrow> (\<exists>!l. (l, s) \<in> set es)"
proof -
  have "length (filter (\<lambda>e. snd e = s) es) = card {e \<in> set es. snd e = s}"
    using assms by (metis distinct_card distinct_filter set_filter)
  also have "{e \<in> set es. snd e = s} = (\<lambda>l. (l, s)) ` {l. (l, s) \<in> set es}" by force
  also have "card \<dots> = card {l. (l, s) \<in> set es}" by (rule card_image) (simp add: inj_on_def)
  finally show ?thesis by (simp add: card_1_singleton_iff set_eq_iff) metis
qed

lemma lr_sc_outcome:
  assumes c: "completed g g' srcs orders gmo_order" and wg: "wf_graph g'" and ck: "check_rvwmo g' = Inr ocs"
  shows "oc_satisfied (ocs ! 3) \<longleftrightarrow>
    lr_sc_atomic (eg_operations g) (edges_of g ''rf'') (edges_of g ''co'') (edges_of g' ''pair'')"
proof -
  let ?ops = "eg_operations g" and ?rf = "edges_of g' ''rf''" and ?pair = "rel_or_empty (eg_relations g') ''pair''"
  have gr: "rvwmo_graph ?ops (edges_of g' ''po'') ?rf (edges_of g' ''co'') (edges_of g' ''ppo'') srcs"
    and ops: "eg_operations g' = ?ops" and same: "edges_of g ''rf'' = ?rf" "edges_of g ''co'' = edges_of g' ''co''"
    using c by (auto simp: completed_def)
  note wf = rvwmo_graphD(1) [OF gr]
  have pair: "edges_of g' ''pair'' = set (rel_edges ?pair)" "distinct (rel_edges ?pair)"
    using wg by (auto simp: edges_of_def rel_or_empty_def wf_graph_def wf_relation_iff
        split: option.split dest!: map_of_SomeD)
  obtain co rf where co: "map_of (eg_relations g') ''co'' = Some co" "edges_of g' ''co'' = set (rel_edges co)"
    and rf: "map_of (eg_relations g') ''rf'' = Some rf" "rf_sources ?ops rf = Inr srcs"
    using c by (fastforce simp: completed_def edges_of_def)
  obtain offs where offs: "lr_sc_offenses g' = Inr offs" "oc_satisfied (ocs ! 3) = (offs = [])"
    by (rule check_steps [OF ck])
  let ?un = "filter (\<lambda>m. atomic_kind m = ''sc'' \<and>
      length (filter (\<lambda>e. snd e = mo_id m) (rel_edges ?pair)) \<noteq> 1) (ops_list ?ops)"
  obtain os where os: "traverse (sc_offense ?ops co srcs) (rel_edges ?pair) = Inr os"
    "offs = sort (map (\<lambda>m. (mo_id m, mo_id m)) ?un @ concat os)"
    using offs(1) co(1) rf by (auto simp: lr_sc_offenses_def ops graph_relation_def rbind_Inr_iff Let_def)
  have "oc_satisfied (ocs ! 3) \<longleftrightarrow> ?un = [] \<and> sort (concat os) = []" using offs(2) os(2) by simp
  also have "?un = [] \<longleftrightarrow> (\<forall>s x. map_of ?ops s = Some x \<longrightarrow> atomic_kind x = ''sc'' \<longrightarrow> (\<exists>!l. (l, s) \<in> set (rel_edges ?pair)))"
    unfolding filter_empty_conv one_incoming [OF pair(2)]
    using ball_ops [OF wf, of "\<lambda>s x. \<not> (atomic_kind x = ''sc'' \<and> \<not> (\<exists>!l. (l, s) \<in> set (rel_edges ?pair)))"]
    by simp
  also have "sort (concat os) = [] \<longleftrightarrow> (\<forall>(l, s) \<in> set (rel_edges ?pair). \<forall>w. (w, l) \<in> ?rf \<longrightarrow> (w, s) \<in> set (rel_edges co) \<and>
     \<not> (\<exists>v x y. map_of ?ops v = Some x \<and> map_of ?ops l = Some y \<and> mo_hart x \<noteq> mo_hart y \<and>
          fp x \<inter> fp y \<noteq> {} \<and> (w, v) \<in> set (rel_edges co) \<and> (v, s) \<in> set (rel_edges co)))"
    unfolding sorted_concat_Nil [OF os(1)]
  proof (intro ball_cong refl, clarify)
    fix l s assume "(l, s) \<in> set (rel_edges ?pair)"
    then obtain o' where o: "sc_offense ?ops co srcs (l, s) = Inr o'" using traverse_Inr_memD [OF os(1)] by blast
    show "sc_offense ?ops co srcs (l, s) = Inr [] \<longleftrightarrow> (\<forall>w. (w, l) \<in> ?rf \<longrightarrow> (w, s) \<in> set (rel_edges co) \<and>
      \<not> (\<exists>v x y. map_of ?ops v = Some x \<and> map_of ?ops l = Some y \<and> mo_hart x \<noteq> mo_hart y \<and>
          fp x \<inter> fp y \<noteq> {} \<and> (w, v) \<in> set (rel_edges co) \<and> (v, s) \<in> set (rel_edges co)))"
      using sc_offense_iff [OF gr [unfolded co(2)] o] o by simp
  qed
  finally show ?thesis unfolding lr_sc_atomic_def same co(2) pair(1) by blast
qed

end
