(* ===== verification/SortIR.thy ===== *)
theory SortIR
  imports PyValues
begin

text \<open>
  \<open>src/src/umcm/ir/sort.py\<close>: sorts of event fields and expressions. \<open>mk_sort\<close> is the
  constructor with the checks of \<open>__post_init__\<close>; \<open>wf_sort\<close> is the class invariant those
  checks establish. The last section states the interface every serialised class of the
  program follows (\<open>to_dict\<close> / \<open>from_dict\<close>) as a locale and interprets it for sorts.
\<close>

section \<open>Construction\<close>

definition mk_sort :: "string \<Rightarrow> int option \<Rightarrow> bool option \<Rightarrow> pysort res" where
  "mk_sort name width signed =
     rbind (require (strip name \<noteq> []) SchemaError) (\<lambda>_.
     rbind (require (case width of None \<Rightarrow> True | Some w \<Rightarrow> 0 < w) SchemaError) (\<lambda>_.
     rbind (require (\<not> (name \<in> {''bool'', ''string''} \<and> width \<noteq> None)) SchemaError) (\<lambda>_.
     rbind (require (\<not> (name = ''bv'' \<and> width = None)) SchemaError) (\<lambda>_.
     rbind (require (\<not> (signed \<noteq> None \<and> name \<notin> {''int'', ''bv''})) SchemaError) (\<lambda>_.
       Inr \<lparr>sort_name = name, sort_width = width, sort_signed = signed\<rparr>)))))"

definition wf_sort :: "pysort \<Rightarrow> bool" where
  "wf_sort s \<longleftrightarrow>
     strip (sort_name s) \<noteq> [] \<and>
     (case sort_width s of None \<Rightarrow> True | Some w \<Rightarrow> 0 < w) \<and>
     (sort_name s \<in> {''bool'', ''string''} \<longrightarrow> sort_width s = None) \<and>
     (sort_name s = ''bv'' \<longrightarrow> sort_width s \<noteq> None) \<and>
     (sort_signed s \<noteq> None \<longrightarrow> sort_name s \<in> {''int'', ''bv''})"

definition BOOL_SORT :: pysort where
  "BOOL_SORT = \<lparr>sort_name = ''bool'', sort_width = None, sort_signed = None\<rparr>"
definition INT_SORT :: pysort where
  "INT_SORT = \<lparr>sort_name = ''int'', sort_width = None, sort_signed = None\<rparr>"
definition STRING_SORT :: pysort where
  "STRING_SORT = \<lparr>sort_name = ''string'', sort_width = None, sort_signed = None\<rparr>"

definition bitvec :: "int \<Rightarrow> bool \<Rightarrow> pysort res" where
  "bitvec width signed = mk_sort ''bv'' (Some width) (Some signed)"
definition address :: "int \<Rightarrow> pysort res" where
  "address width = mk_sort ''address'' (Some width) None"
definition value_sort :: "int \<Rightarrow> pysort res" where
  "value_sort width = mk_sort ''value'' (Some width) None"
definition identifier_sort :: "string \<Rightarrow> pysort res" where
  "identifier_sort name = mk_sort name None None"

definition is_bool :: "pysort \<Rightarrow> bool" where "is_bool s \<longleftrightarrow> sort_name s = ''bool''"
definition is_int :: "pysort \<Rightarrow> bool" where "is_int s \<longleftrightarrow> sort_name s = ''int''"
definition is_string :: "pysort \<Rightarrow> bool" where "is_string s \<longleftrightarrow> sort_name s = ''string''"
definition is_bitvector :: "pysort \<Rightarrow> bool" where "is_bitvector s \<longleftrightarrow> sort_name s = ''bv''"

lemmas sort_kind_defs = is_bool_def is_int_def is_string_def is_bitvector_def

definition compatible_with :: "pysort \<Rightarrow> pysort \<Rightarrow> bool" where
  "compatible_with s t \<longleftrightarrow> s = t"

section \<open>Literals\<close>

definition accepts_literal :: "pysort \<Rightarrow> pyval \<Rightarrow> bool" where
  "accepts_literal s v =
     (if is_bool s then (case v of VBool _ \<Rightarrow> True | _ \<Rightarrow> False)
      else if is_int s then strict_int v \<noteq> None
      else if is_string s then (case v of VStr _ \<Rightarrow> True | _ \<Rightarrow> False)
      else if is_bitvector s then
        (case strict_int v of
           None \<Rightarrow> False
         | Some i \<Rightarrow> \<not> i < 0 \<and> (case sort_width s of None \<Rightarrow> False | Some w \<Rightarrow> i < 2 ^ nat w))
      else (case v of VScalar _ \<Rightarrow> True | _ \<Rightarrow> False))"

section \<open>Serialisation\<close>

definition sort_to_dict :: "pysort \<Rightarrow> pyval" where
  "sort_to_dict s = VMap ([(''name'', VStr (sort_name s))]
     @ (case sort_width s of None \<Rightarrow> [] | Some w \<Rightarrow> [(''width'', VInt w)])
     @ (case sort_signed s of None \<Rightarrow> [] | Some b \<Rightarrow> [(''signed'', VBool b)]))"

text \<open>
  \<open>width\<close> is compared with 0 before anything else looks at it, so a width that is no number
  raises \<open>TypeError\<close>. \<open>signed\<close> is stored unchecked; a non-boolean one is unmodelled.
\<close>

definition width_of :: "pyval \<Rightarrow> int option res" where
  "width_of v = (case v of VNone \<Rightarrow> Inr None
     | _ \<Rightarrow> (case as_int v of Some i \<Rightarrow> Inr (Some i) | None \<Rightarrow> Inl PyTypeError))"

definition sort_from_dict :: "pyval \<Rightarrow> pysort res" where
  "sort_from_dict v =
     (case v of
        VStr s \<Rightarrow> mk_sort s None None
      | VMap kvs \<Rightarrow>
          rbind (get_key kvs ''name'' SchemaError) (\<lambda>name.
          rbind (require (strip (py_str name) \<noteq> []) SchemaError) (\<lambda>_.
          rbind (width_of (get_default kvs ''width'' VNone)) (\<lambda>width.
            (case get_default kvs ''signed'' VNone of
               VNone \<Rightarrow> mk_sort (py_str name) width None
             | VBool b \<Rightarrow> mk_sort (py_str name) width (Some b)
             | _ \<Rightarrow> rbind (mk_sort (py_str name) width (Some True)) (\<lambda>_. Inl Unmodelled)))))
      | _ \<Rightarrow> Inl SchemaError)"

section \<open>Lemmas\<close>

lemma mk_sort_Inr_iff [res_simps]:
  "mk_sort n w g = Inr s \<longleftrightarrow> s = \<lparr>sort_name = n, sort_width = w, sort_signed = g\<rparr> \<and> wf_sort s"
proof -
  have "mk_sort n w g = (if wf_sort \<lparr>sort_name = n, sort_width = w, sort_signed = g\<rparr>
      then Inr \<lparr>sort_name = n, sort_width = w, sort_signed = g\<rparr> else Inl SchemaError)"
    unfolding mk_sort_def wf_sort_def rbind_require pysort.simps by argo
  then show ?thesis by auto
qed

lemma mk_sort_wf: "wf_sort s \<Longrightarrow> mk_sort (sort_name s) (sort_width s) (sort_signed s) = Inr s"
  by (simp add: mk_sort_Inr_iff)

lemma wf_BOOL [simp]: "wf_sort BOOL_SORT" and wf_INT_SORT [simp]: "wf_sort INT_SORT" and
  wf_STRING [simp]: "wf_sort STRING_SORT"
  by (simp_all add: wf_sort_def BOOL_SORT_def INT_SORT_def STRING_SORT_def) code_simp+

lemma kind_BOOL [simp]: "is_bool BOOL_SORT" "\<not> is_int BOOL_SORT" "\<not> is_string BOOL_SORT" "\<not> is_bitvector BOOL_SORT"
  by (simp_all add: sort_kind_defs BOOL_SORT_def)

lemma kind_INT [simp]: "\<not> is_bool INT_SORT" "is_int INT_SORT" "\<not> is_string INT_SORT" "\<not> is_bitvector INT_SORT"
  by (simp_all add: sort_kind_defs INT_SORT_def)

lemma kind_STRING [simp]:
  "\<not> is_bool STRING_SORT" "\<not> is_int STRING_SORT" "is_string STRING_SORT" "\<not> is_bitvector STRING_SORT"
  by (simp_all add: sort_kind_defs STRING_SORT_def)

lemma wf_bool_unique: "wf_sort s \<Longrightarrow> is_bool s \<Longrightarrow> s = BOOL_SORT"
  by (cases s) (auto simp: wf_sort_def is_bool_def BOOL_SORT_def)

lemma sort_kinds_exclusive:
  "is_bool s \<Longrightarrow> \<not> is_int s \<and> \<not> is_string s \<and> \<not> is_bitvector s"
  "is_int s \<Longrightarrow> \<not> is_bool s \<and> \<not> is_string s \<and> \<not> is_bitvector s"
  "is_string s \<Longrightarrow> \<not> is_bool s \<and> \<not> is_int s \<and> \<not> is_bitvector s"
  "is_bitvector s \<Longrightarrow> \<not> is_bool s \<and> \<not> is_int s \<and> \<not> is_string s"
  by (simp_all add: sort_kind_defs)

lemma accepts_bool: "is_bool s \<Longrightarrow> accepts_literal s v \<longleftrightarrow> (\<exists>b. v = VBool b)"
  by (auto simp: accepts_literal_def split: pyval.splits scalar.splits)

lemma strict_int_iff: "strict_int v = Some i \<longleftrightarrow> v = VInt i"
  by (cases v rule: strict_int.cases) auto

lemma accepts_int: "is_int s \<Longrightarrow> accepts_literal s v \<longleftrightarrow> (\<exists>i. v = VInt i)"
  using strict_int_iff [of v] by (auto simp: accepts_literal_def dest: sort_kinds_exclusive(2))

lemma accepts_string: "is_string s \<Longrightarrow> accepts_literal s v \<longleftrightarrow> (\<exists>t. v = VStr t)"
  by (auto simp: accepts_literal_def dest: sort_kinds_exclusive(3)
      split: pyval.splits scalar.splits)

lemma accepts_bitvector:
  "is_bitvector s \<Longrightarrow> accepts_literal s v \<longleftrightarrow>
     (\<exists>i w. v = VInt i \<and> sort_width s = Some w \<and> 0 \<le> i \<and> i < 2 ^ nat w)"
  by (cases "strict_int v") (auto simp: accepts_literal_def strict_int_iff
      dest: sort_kinds_exclusive(4) split: option.splits)

lemma accepts_scalar: "accepts_literal s v \<Longrightarrow> \<exists>c. v = VScalar c"
  by (cases v) (auto simp: accepts_literal_def split: if_splits)

section \<open>The serialisation interface\<close>

text \<open>
  A class with \<open>to_dict\<close> and \<open>from_dict\<close>: decoding what was encoded from a well-formed
  object gives the object back. Lists of such objects are then round-tripped element by element,
  as every container of the program does. A \<open>codec\<close> also guarantees that whatever is decoded is
  well-formed.
\<close>

locale encoder =
  fixes enc :: "'a \<Rightarrow> pyval" and dec :: "pyval \<Rightarrow> 'a res" and wf :: "'a \<Rightarrow> bool"
  assumes dec_enc: "wf x \<Longrightarrow> dec (enc x) = Inr x"
begin

lemma traverse_enc: "\<forall>x \<in> set xs. wf x \<Longrightarrow> traverse dec (map enc xs) = Inr xs"
  by (induction xs) (auto simp: dec_enc)

lemma enc_inj: "wf x \<Longrightarrow> wf y \<Longrightarrow> enc x = enc y \<Longrightarrow> x = y"
  by (metis dec_enc sum.inject(2))

end

locale codec = encoder +
  assumes dec_wf: "dec v = Inr x \<Longrightarrow> wf x"
begin

lemma traverse_wf: "traverse dec vs = Inr xs \<Longrightarrow> \<forall>x \<in> set xs. wf x"
  by (auto dest!: traverse_Inr_imageD dest: dec_wf)

lemma dec_stable: "dec v = Inr x \<Longrightarrow> dec (enc x) = Inr x"
  by (rule dec_enc) (rule dec_wf)

end

lemma width_of_simps [simp]: "width_of VNone = Inr None" "width_of (VInt w) = Inr (Some w)"
  by (simp_all add: width_of_def)

lemma sort_dec_enc: "wf_sort s \<Longrightarrow> sort_from_dict (sort_to_dict s) = Inr s"
proof -
  assume wf: "wf_sort s"
  then have ne: "strip (sort_name s) \<noteq> []" by (simp add: wf_sort_def)
  obtain n w g where s: "s = \<lparr>sort_name = n, sort_width = w, sort_signed = g\<rparr>" by (cases s)
  have mk: "mk_sort n w g = Inr s" using wf s by (simp add: mk_sort_Inr_iff)
  show ?thesis
  proof (cases w; cases g)
  qed (use mk ne in \<open>simp_all add: sort_to_dict_def sort_from_dict_def s\<close>)
qed

lemma sort_dec_wf: "sort_from_dict v = Inr s \<Longrightarrow> wf_sort s"
proof -
  have signed: "wf_sort s" if "(case g of VNone \<Rightarrow> mk_sort n w None | VBool b \<Rightarrow> mk_sort n w (Some b)
      | _ \<Rightarrow> rbind (mk_sort n w (Some True)) (\<lambda>_. Inl Unmodelled)) = Inr s" for g n w
    using that by (cases g rule: truthy.cases) (auto simp: mk_sort_Inr_iff res_simps)
  assume "sort_from_dict v = Inr s"
  then show ?thesis
    by (cases v rule: truthy.cases)
      (auto simp: sort_from_dict_def rbind_Inr_iff mk_sort_Inr_iff dest!: signed)
qed

interpretation sort_codec: codec sort_to_dict sort_from_dict wf_sort
  by unfold_locales (auto simp: sort_dec_enc dest: sort_dec_wf)

end
