(* ===== verification/ExprIR.thy ===== *)
theory ExprIR
  imports SortIR
begin

text \<open>
  \<open>src/src/umcm/ir/expression.py\<close> and the value codec of \<open>src/src/umcm/serialization.py\<close>:
  the checking constructors of the expression nodes (\<open>__post_init__\<close>), the class invariant
  \<open>wf_expr\<close> they establish, the iterators, substitution of event identifiers, conjunction and
  disjunction, and the dictionary form of expressions and values.
\<close>

section \<open>Sorts of expressions and checking constructors\<close>

definition bool_binary_ops :: "string list" where
  "bool_binary_ops = [''and'', ''or'', ''implies'', ''xor'']"
definition equality_ops :: "string list" where "equality_ops = [''eq'', ''ne'']"
definition order_ops :: "string list" where "order_ops = [''lt'', ''le'', ''gt'', ''ge'']"
definition arith_ops :: "string list" where
  "arith_ops = [''add'', ''sub'', ''mul'', ''div'', ''mod'']"

fun expr_sort :: "expr \<Rightarrow> pysort" where
  "expr_sort (Literal v s) = s"
| "expr_sort (Symbol n s) = s"
| "expr_sort (EventField e f s) = s"
| "expr_sort (Unary op a) = (if op = ''not'' then BOOL_SORT else expr_sort a)"
| "expr_sort (Binary op a b) =
     (if op \<in> set (bool_binary_ops @ equality_ops @ order_ops) then BOOL_SORT else expr_sort a)"
| "expr_sort (Nary op as) = BOOL_SORT"
| "expr_sort (Ite c a b) = expr_sort a"
| "expr_sort (Call f as s) = s"

definition expr_is_bool :: "expr \<Rightarrow> bool" where
  "expr_is_bool e \<longleftrightarrow> is_bool (expr_sort e)"
definition expr_is_numeric :: "expr \<Rightarrow> bool" where
  "expr_is_numeric e \<longleftrightarrow> is_int (expr_sort e) \<or> is_bitvector (expr_sort e)"
definition expr_compatible :: "expr \<Rightarrow> expr \<Rightarrow> bool" where
  "expr_compatible a b \<longleftrightarrow> compatible_with (expr_sort a) (expr_sort b)"

definition infer_literal_sort :: "pyval \<Rightarrow> pysort res" where
  "infer_literal_sort v =
     (case v of
        VBool _ \<Rightarrow> Inr BOOL_SORT
      | VInt _ \<Rightarrow> Inr INT_SORT
      | VStr _ \<Rightarrow> Inr STRING_SORT
      | _ \<Rightarrow> Inl ExpressionTypeError)"

definition mk_literal :: "pyval \<Rightarrow> pysort option \<Rightarrow> expr res" where
  "mk_literal v so =
     rbind (case so of Some s \<Rightarrow> Inr s | None \<Rightarrow> infer_literal_sort v) (\<lambda>s.
       if \<not> accepts_literal s v then Inl ExpressionTypeError
       else (case v of VScalar c \<Rightarrow> Inr (Literal c s) | _ \<Rightarrow> Inl ExpressionTypeError))"

definition mk_symbol :: "string \<Rightarrow> pysort \<Rightarrow> expr res" where
  "mk_symbol n s = (if n = [] then Inl ExpressionTypeError else Inr (Symbol n s))"

definition mk_event_field :: "string \<Rightarrow> string \<Rightarrow> pysort \<Rightarrow> expr res" where
  "mk_event_field e f s =
     (if e = [] \<or> f = [] then Inl ExpressionTypeError else Inr (EventField e f s))"

definition unary_ok :: "string \<Rightarrow> expr \<Rightarrow> bool" where
  "unary_ok op a =
     (if op = ''not'' then expr_is_bool a
      else if op = ''neg'' then expr_is_numeric a
      else False)"

definition binary_ok :: "string \<Rightarrow> expr \<Rightarrow> expr \<Rightarrow> bool" where
  "binary_ok op a b =
     (if op \<in> set bool_binary_ops then expr_is_bool a \<and> expr_is_bool b
      else if op \<in> set equality_ops then expr_compatible a b
      else if op \<in> set order_ops then expr_compatible a b \<and> expr_is_numeric a
      else if op \<in> set arith_ops then expr_compatible a b \<and> expr_is_numeric a
      else False)"

definition nary_ok :: "string \<Rightarrow> expr list \<Rightarrow> bool" where
  "nary_ok op as =
     (case as of
        [] \<Rightarrow> False
      | a # rest \<Rightarrow>
          if op \<in> {''and'', ''or''} then list_all expr_is_bool as
          else if op = ''distinct'' then list_all (expr_compatible a) rest
          else False)"

definition ite_ok :: "expr \<Rightarrow> expr \<Rightarrow> expr \<Rightarrow> bool" where
  "ite_ok c a b \<longleftrightarrow> expr_is_bool c \<and> expr_compatible a b"

definition mk_unary :: "string \<Rightarrow> expr \<Rightarrow> expr res" where
  "mk_unary op a = (if unary_ok op a then Inr (Unary op a) else Inl ExpressionTypeError)"
definition mk_binary :: "string \<Rightarrow> expr \<Rightarrow> expr \<Rightarrow> expr res" where
  "mk_binary op a b = (if binary_ok op a b then Inr (Binary op a b) else Inl ExpressionTypeError)"
definition mk_nary :: "string \<Rightarrow> expr list \<Rightarrow> expr res" where
  "mk_nary op as = (if nary_ok op as then Inr (Nary op as) else Inl ExpressionTypeError)"
definition mk_ite :: "expr \<Rightarrow> expr \<Rightarrow> expr \<Rightarrow> expr res" where
  "mk_ite c a b = (if ite_ok c a b then Inr (Ite c a b) else Inl ExpressionTypeError)"
definition mk_call :: "string \<Rightarrow> expr list \<Rightarrow> pysort \<Rightarrow> expr res" where
  "mk_call f as s = (if f = [] then Inl ExpressionTypeError else Inr (Call f as s))"

fun wf_expr :: "expr \<Rightarrow> bool" where
  "wf_expr (Literal v s) = (wf_sort s \<and> accepts_literal s (VScalar v))"
| "wf_expr (Symbol n s) = (wf_sort s \<and> n \<noteq> [])"
| "wf_expr (EventField e f s) = (wf_sort s \<and> e \<noteq> [] \<and> f \<noteq> [])"
| "wf_expr (Unary op a) = (unary_ok op a \<and> wf_expr a)"
| "wf_expr (Binary op a b) = (binary_ok op a b \<and> wf_expr a \<and> wf_expr b)"
| "wf_expr (Nary op as) = (nary_ok op as \<and> (\<forall>a \<in> set as. wf_expr a))"
| "wf_expr (Ite c a b) = (ite_ok c a b \<and> wf_expr c \<and> wf_expr a \<and> wf_expr b)"
| "wf_expr (Call f as s) = (wf_sort s \<and> f \<noteq> [] \<and> (\<forall>a \<in> set as. wf_expr a))"

section \<open>Dictionary form\<close>

fun expr_to_dict :: "expr \<Rightarrow> pyval" where
  "expr_to_dict (Literal v s) =
     VMap [(''node'', VStr ''literal''), (''sort'', sort_to_dict s), (''value'', VScalar v)]"
| "expr_to_dict (Symbol n s) =
     VMap [(''node'', VStr ''symbol''), (''name'', VStr n), (''sort'', sort_to_dict s)]"
| "expr_to_dict (EventField e f s) =
     VMap [(''node'', VStr ''event_field''), (''event_id'', VStr e), (''field'', VStr f),
           (''sort'', sort_to_dict s)]"
| "expr_to_dict (Unary op a) =
     VMap [(''node'', VStr ''unary''), (''op'', VStr op), (''operand'', expr_to_dict a)]"
| "expr_to_dict (Binary op a b) =
     VMap [(''node'', VStr ''binary''), (''op'', VStr op), (''left'', expr_to_dict a),
           (''right'', expr_to_dict b)]"
| "expr_to_dict (Nary op as) =
     VMap [(''node'', VStr ''nary''), (''op'', VStr op),
           (''operands'', VList (map expr_to_dict as))]"
| "expr_to_dict (Ite c a b) =
     VMap [(''node'', VStr ''ite''), (''condition'', expr_to_dict c), (''then'', expr_to_dict a),
           (''else'', expr_to_dict b)]"
| "expr_to_dict (Call f as s) =
     VMap [(''node'', VStr ''call''), (''function'', VStr f),
           (''arguments'', VList (map expr_to_dict as)), (''sort'', sort_to_dict s)]"

fun expr_from_dict :: "pyval \<Rightarrow> expr res" where
  "expr_from_dict (VMap kvs) =
     (let node = get_default kvs ''node'' VNone; E = SerializationError in
      if node = VStr ''literal'' then
        rbind (get_key kvs ''sort'' E) (\<lambda>sv. rbind (sort_from_dict sv) (\<lambda>s.
          mk_literal (get_default kvs ''value'' VNone) (Some s)))
      else if node = VStr ''symbol'' then
        rbind (get_key kvs ''name'' E) (\<lambda>n. rbind (get_key kvs ''sort'' E) (\<lambda>sv.
        rbind (sort_from_dict sv) (\<lambda>s. mk_symbol (py_str n) s)))
      else if node = VStr ''event_field'' then
        rbind (get_key kvs ''event_id'' E) (\<lambda>i. rbind (get_key kvs ''field'' E) (\<lambda>f.
        rbind (get_key kvs ''sort'' E) (\<lambda>sv. rbind (sort_from_dict sv) (\<lambda>s.
          mk_event_field (py_str i) (py_str f) s))))
      else if node = VStr ''unary'' then
        rbind (get_key kvs ''op'' E) (\<lambda>op. rbind (get_key kvs ''operand'' E) (\<lambda>av.
        rbind (expr_from_dict av) (\<lambda>a. mk_unary (py_str op) a)))
      else if node = VStr ''binary'' then
        rbind (get_key kvs ''op'' E) (\<lambda>op. rbind (get_key kvs ''left'' E) (\<lambda>av.
        rbind (expr_from_dict av) (\<lambda>a. rbind (get_key kvs ''right'' E) (\<lambda>bv.
        rbind (expr_from_dict bv) (\<lambda>b. mk_binary (py_str op) a b)))))
      else if node = VStr ''nary'' then
        rbind (or_raise (as_sequence (get_default kvs ''operands'' VNone)) E) (\<lambda>items.
        rbind (get_key kvs ''op'' E) (\<lambda>op. rbind (traverse expr_from_dict items) (\<lambda>as.
          mk_nary (py_str op) as)))
      else if node = VStr ''ite'' then
        rbind (get_key kvs ''condition'' E) (\<lambda>cv. rbind (expr_from_dict cv) (\<lambda>c.
        rbind (get_key kvs ''then'' E) (\<lambda>av. rbind (expr_from_dict av) (\<lambda>a.
        rbind (get_key kvs ''else'' E) (\<lambda>bv. rbind (expr_from_dict bv) (\<lambda>b. mk_ite c a b))))))
      else if node = VStr ''call'' then
        rbind (or_raise (as_sequence (get_default kvs ''arguments'' (VList []))) E) (\<lambda>items.
        rbind (get_key kvs ''function'' E) (\<lambda>f. rbind (traverse expr_from_dict items) (\<lambda>as.
        rbind (get_key kvs ''sort'' E) (\<lambda>sv. rbind (sort_from_dict sv) (\<lambda>s.
          mk_call (py_str f) as s)))))
      else Inl E)"
| "expr_from_dict _ = Inl SerializationError"

declare expr_from_dict.simps(1) [simp del]

lemmas mk_node_defs = mk_symbol_def mk_event_field_def mk_unary_def mk_binary_def mk_nary_def
  mk_ite_def mk_call_def
lemmas mk_expr_defs = mk_literal_def mk_node_defs

lemma mk_literal_Inr_iff:
  "mk_literal v (Some s) = Inr e \<longleftrightarrow> (\<exists>c. v = VScalar c \<and> accepts_literal s v \<and> e = Literal c s)"
  by (cases v) (auto simp: mk_literal_def dest: accepts_scalar)

lemma expr_dec_enc: "wf_expr e \<Longrightarrow> expr_from_dict (expr_to_dict e) = Inr e"
proof (induction e)
  case (Literal v s)
  then show ?case by (simp add: expr_from_dict.simps Let_def sort_dec_enc mk_literal_def)
next
  case (Nary op as)
  then have "traverse expr_from_dict (map expr_to_dict as) = Inr as"
    by (simp add: traverse_map traverse_Inr_map [where g = "\<lambda>x. x"])
  with Nary show ?case by (simp add: expr_from_dict.simps Let_def mk_nary_def)
next
  case (Call f as s)
  then have "traverse expr_from_dict (map expr_to_dict as) = Inr as"
    by (simp add: traverse_map traverse_Inr_map [where g = "\<lambda>x. x"])
  with Call show ?case by (simp add: expr_from_dict.simps Let_def mk_call_def sort_dec_enc)
qed (simp_all add: expr_from_dict.simps Let_def mk_expr_defs sort_dec_enc)

lemma traverse_dec_wf:
  "traverse expr_from_dict vs = Inr as \<Longrightarrow>
   (\<And>v e. v \<in> set vs \<Longrightarrow> expr_from_dict v = Inr e \<Longrightarrow> wf_expr e) \<Longrightarrow> \<forall>a \<in> set as. wf_expr a"
  by (auto dest: traverse_Inr_imageD)

lemma expr_dec_wf: "expr_from_dict v = Inr e \<Longrightarrow> wf_expr e"
proof (induction v arbitrary: e rule: measure_induct_rule [of size])
  case (less v)
  show ?case
  proof (cases v rule: expr_from_dict.cases)
    case (1 kvs)
    let ?E = SerializationError
    have key: "wf_expr a" if "get_key kvs k ?E = Inr w" "expr_from_dict w = Inr a" for k w a
      using less.IH [of w a] size_get_key [OF that(1)] that(2) "1" by (simp add: size_pairs_norm)
    have item_list: "\<forall>a \<in> set as. wf_expr a"
      if "or_raise (as_sequence (get_default kvs k d)) ?E = Inr ws"
        "traverse expr_from_dict ws = Inr as" "d = VNone \<or> d = VList []" for k d ws as
    proof (rule traverse_dec_wf [OF that(2)])
      fix w a
      assume "w \<in> set ws" "expr_from_dict w = Inr a"
      then show "wf_expr a"
        using less.IH [of w a] size_sequence_key [OF that(1) _ that(3)] "1" by (simp add: size_pairs_norm)
    qed
    note items = item_list [where d = VNone, simplified] item_list [where d = "VList []", simplified]
    show ?thesis
      using less.prems unfolding "1" expr_from_dict.simps Let_def
      by (simp only: rbind_Inr_iff mk_literal_Inr_iff mk_node_defs split: if_split_asm)
        (auto dest!: sort_dec_wf dest: key bspec [OF items(1)] bspec [OF items(2)])
  qed (use less.prems in auto)
qed

interpretation expr_codec: codec expr_to_dict expr_from_dict wf_expr
  by unfold_locales (auto simp: expr_dec_enc dest: expr_dec_wf)

section \<open>Traversals\<close>

fun iter_event_fields :: "expr \<Rightarrow> (string \<times> string \<times> pysort) list" where
  "iter_event_fields (EventField e f s) = [(e, f, s)]"
| "iter_event_fields (Unary op a) = iter_event_fields a"
| "iter_event_fields (Binary op a b) = iter_event_fields a @ iter_event_fields b"
| "iter_event_fields (Nary op as) = concat (map iter_event_fields as)"
| "iter_event_fields (Ite c a b) =
     iter_event_fields c @ iter_event_fields a @ iter_event_fields b"
| "iter_event_fields (Call f as s) = concat (map iter_event_fields as)"
| "iter_event_fields _ = []"

fun iter_symbols :: "expr \<Rightarrow> (string \<times> pysort) list" where
  "iter_symbols (Symbol n s) = [(n, s)]"
| "iter_symbols (Unary op a) = iter_symbols a"
| "iter_symbols (Binary op a b) = iter_symbols a @ iter_symbols b"
| "iter_symbols (Nary op as) = concat (map iter_symbols as)"
| "iter_symbols (Ite c a b) = iter_symbols c @ iter_symbols a @ iter_symbols b"
| "iter_symbols (Call f as s) = concat (map iter_symbols as)"
| "iter_symbols _ = []"

fun iter_literals :: "expr \<Rightarrow> (scalar \<times> pysort) list" where
  "iter_literals (Literal v s) = [(v, s)]"
| "iter_literals (Unary op a) = iter_literals a"
| "iter_literals (Binary op a b) = iter_literals a @ iter_literals b"
| "iter_literals (Nary op as) = concat (map iter_literals as)"
| "iter_literals (Ite c a b) = iter_literals c @ iter_literals a @ iter_literals b"
| "iter_literals (Call f as s) = concat (map iter_literals as)"
| "iter_literals _ = []"

section \<open>Substitution of event identifiers\<close>

text \<open>
  The code rebuilds every node through its constructor. For a well-formed expression and a
  mapping onto non-empty identifiers these checks succeed (\<open>wf_subst\<close> below), so the model
  rebuilds directly.
\<close>

definition rename :: "(string \<times> string) list \<Rightarrow> string \<Rightarrow> string" where
  "rename m e = (case map_of m e of None \<Rightarrow> e | Some e' \<Rightarrow> e')"

fun substitute_event_ids :: "(string \<times> string) list \<Rightarrow> expr \<Rightarrow> expr" where
  "substitute_event_ids m (EventField e f s) = EventField (rename m e) f s"
| "substitute_event_ids m (Unary op a) = Unary op (substitute_event_ids m a)"
| "substitute_event_ids m (Binary op a b) =
     Binary op (substitute_event_ids m a) (substitute_event_ids m b)"
| "substitute_event_ids m (Nary op as) = Nary op (map (substitute_event_ids m) as)"
| "substitute_event_ids m (Ite c a b) =
     Ite (substitute_event_ids m c) (substitute_event_ids m a) (substitute_event_ids m b)"
| "substitute_event_ids m (Call f as s) = Call f (map (substitute_event_ids m) as) s"
| "substitute_event_ids m e = e"

lemma expr_sort_subst [simp]: "expr_sort (substitute_event_ids m e) = expr_sort e"
  by (induction e) auto

lemma kind_subst [simp]:
  "expr_is_bool (substitute_event_ids m e) = expr_is_bool e"
  "expr_is_numeric (substitute_event_ids m e) = expr_is_numeric e"
  "expr_compatible (substitute_event_ids m a) (substitute_event_ids m b) = expr_compatible a b"
  by (simp_all add: expr_is_bool_def expr_is_numeric_def expr_compatible_def)

lemma ok_subst [simp]:
  "unary_ok op (substitute_event_ids m a) = unary_ok op a"
  "binary_ok op (substitute_event_ids m a) (substitute_event_ids m b) = binary_ok op a b"
  "nary_ok op (map (substitute_event_ids m) as) = nary_ok op as"
  "ite_ok (substitute_event_ids m c) (substitute_event_ids m a) (substitute_event_ids m b) =
     ite_ok c a b"
  by (auto simp: unary_ok_def binary_ok_def nary_ok_def ite_ok_def list_all_iff split: list.splits)

lemma wf_subst:
  "wf_expr e \<Longrightarrow> (\<forall>k i. map_of m k = Some i \<longrightarrow> i \<noteq> []) \<Longrightarrow> wf_expr (substitute_event_ids m e)"
  by (induction e) (auto simp: rename_def split: option.splits)

lemma event_fields_subst:
  "iter_event_fields (substitute_event_ids m e) =
     map (\<lambda>(i, f, s). (rename m i, f, s)) (iter_event_fields e)"
  by (induction e) (auto simp: map_concat o_def cong: map_cong)

lemma symbols_subst: "iter_symbols (substitute_event_ids m e) = iter_symbols e"
  by (induction e) (auto simp: o_def cong: map_cong)

lemma literals_subst: "iter_literals (substitute_event_ids m e) = iter_literals e"
  by (induction e) (auto simp: o_def cong: map_cong)

lemma subst_ident:
  "(\<forall>(i, f, s) \<in> set (iter_event_fields e). rename m i = i) \<Longrightarrow> substitute_event_ids m e = e"
  by (induction e) (auto simp: map_idI)

lemma subst_cong:
  "(\<forall>(i, f, s) \<in> set (iter_event_fields e). rename m i = rename m' i) \<Longrightarrow>
   substitute_event_ids m e = substitute_event_ids m' e"
  by (induction e) auto

section \<open>Conjunction and disjunction\<close>

definition conjunction :: "expr list \<Rightarrow> expr" where
  "conjunction items =
     (case items of [] \<Rightarrow> Literal (SBool True) BOOL_SORT | [e] \<Rightarrow> e | _ \<Rightarrow> Nary ''and'' items)"

definition disjunction :: "expr list \<Rightarrow> expr" where
  "disjunction items =
     (case items of [] \<Rightarrow> Literal (SBool False) BOOL_SORT | [e] \<Rightarrow> e | _ \<Rightarrow> Nary ''or'' items)"

lemma wf_conjunction:
  "\<forall>e \<in> set es. wf_expr e \<and> expr_is_bool e \<Longrightarrow> wf_expr (conjunction es) \<and> expr_is_bool (conjunction es)"
  by (auto simp: conjunction_def nary_ok_def expr_is_bool_def accepts_bool list_all_iff
      split: list.splits)

lemma wf_disjunction:
  "\<forall>e \<in> set es. wf_expr e \<and> expr_is_bool e \<Longrightarrow> wf_expr (disjunction es) \<and> expr_is_bool (disjunction es)"
  by (auto simp: disjunction_def nary_ok_def expr_is_bool_def accepts_bool list_all_iff
      split: list.splits)

section \<open>Values of fields, annotations and metadata\<close>

definition expr_key :: string where "expr_key = ''$expr''"

fun encode_value :: "pyval \<Rightarrow> pyval" where
  "encode_value (VExpr e) = VMap [(expr_key, expr_to_dict e)]"
| "encode_value (VMap kvs) = VMap (map (\<lambda>(k, v). (k, encode_value v)) kvs)"
| "encode_value (VList vs) = VList (map encode_value vs)"
| "encode_value (VScalar c) = VScalar c"

fun decode_value :: "pyval \<Rightarrow> pyval res" where
  "decode_value (VMap kvs) =
     (if fst ` set kvs = {expr_key} then
        (case map_of kvs expr_key of
           Some (VMap p) \<Rightarrow> rbind (expr_from_dict (VMap p)) (\<lambda>e. Inr (VExpr e))
         | _ \<Rightarrow> Inl SerializationError)
      else rbind (traverse (\<lambda>(k, v). rbind (decode_value v) (\<lambda>w. Inr (k, w))) kvs)
             (\<lambda>kws. Inr (VMap kws)))"
| "decode_value (VList vs) = rbind (traverse decode_value vs) (\<lambda>ws. Inr (VList ws))"
| "decode_value v = Inr v"

text \<open>
  What survives a round trip: expressions must be well-formed and no mapping may have
  \<open>$expr\<close> as its only key, since the decoder reads such a mapping as an expression.
\<close>

fun encodable :: "pyval \<Rightarrow> bool" where
  "encodable (VExpr e) = wf_expr e"
| "encodable (VMap kvs) = (fst ` set kvs \<noteq> {expr_key} \<and> (\<forall>(k, v) \<in> set kvs. encodable v))"
| "encodable (VList vs) = (\<forall>v \<in> set vs. encodable v)"
| "encodable (VScalar c) = True"

lemma expr_to_dict_VMap: "\<exists>p. expr_to_dict e = VMap p"
  by (cases e) auto

lemma decode_encode: "encodable v \<Longrightarrow> decode_value (encode_value v) = Inr v"
proof (induction v rule: encodable.induct)
  case (1 e)
  then show ?case using expr_to_dict_VMap [of e] expr_dec_enc [of e] by auto
next
  case (2 kvs)
  let ?enc = "\<lambda>(k, v). (k, encode_value v)"
  let ?dec = "\<lambda>(k, v). rbind (decode_value v) (\<lambda>w. Inr (k, w))"
  have keys: "fst ` set (map ?enc kvs) = fst ` set kvs" by force
  have "traverse (?dec \<circ> ?enc) kvs = Inr (map (\<lambda>x. x) kvs)"
    using 2 by (intro traverse_Inr_map) auto
  then have "traverse ?dec (map ?enc kvs) = Inr kvs" by (simp add: traverse_map)
  then show ?case using "2.prems" keys by (simp del: set_map)
next
  case (3 vs)
  then have "traverse (decode_value \<circ> encode_value) vs = Inr (map (\<lambda>x. x) vs)"
    by (intro traverse_Inr_map) auto
  then show ?case by (simp add: traverse_map)
qed auto

text \<open>
  Every expression object of the program passed the checks of its constructors. \<open>wf_data\<close> says so
  for the expressions inside a value; decoding keeps it.
\<close>

fun wf_data :: "pyval \<Rightarrow> bool" where
  "wf_data (VExpr e) = wf_expr e"
| "wf_data (VMap kvs) = (\<forall>(k, v) \<in> set kvs. wf_data v)"
| "wf_data (VList vs) = (\<forall>v \<in> set vs. wf_data v)"
| "wf_data (VScalar c) = True"

lemma decode_value_wf: "wf_data v \<Longrightarrow> decode_value v = Inr w \<Longrightarrow> wf_data w"
proof (induction v arbitrary: w rule: wf_data.induct)
  case (2 kvs)
  have "\<forall>(k, w) \<in> set kws. wf_data w"
    if "traverse (\<lambda>(k, v). rbind (decode_value v) (\<lambda>w. Inr (k, w))) kvs = Inr kws" for kws
    using 2 that by (fastforce simp: rbind_Inr_iff dest!: traverse_Inr_imageD)
  then show ?case using "2.prems"
    by (auto simp: rbind_Inr_iff dest: expr_dec_wf split: if_splits option.splits pyval.splits)
next
  case (3 vs)
  then obtain ws where ws: "traverse decode_value vs = Inr ws" "w = VList ws"
    by (auto simp: rbind_Inr_iff)
  have "wf_data y" if "y \<in> set ws" for y
    using "3.IH" "3.prems"(1) traverse_Inr_imageD [OF ws(1) that] by auto
  then show ?case using ws(2) by simp
qed auto

lemma wf_data_get_key: "get_key d k err = Inr v \<Longrightarrow> wf_data (VMap d) \<Longrightarrow> wf_data v"
  by (auto simp: get_key_Inr_iff dest: map_of_SomeD)

lemma expr_key_map_not_encodable:
  "decode_value (encode_value (VMap [(expr_key, VInt 1)])) = Inl SerializationError"
  by simp

end
