(* ===== verification/EventIR.thy ===== *)
theory EventIR
  imports ExprIR
begin

text \<open>
  \<open>src/src/umcm/ir/event.py\<close>: field specifications, event types, event instances and the
  event catalog, with the checks of their constructors, validation of instances against the
  catalog, and their dictionary forms.
\<close>

section \<open>Field specifications and event types\<close>

datatype visibility = INTERNAL | PUBLIC | ARCHITECTURAL

record field_spec =
  fs_name :: string
  fs_sort :: pysort
  fs_required :: bool
  fs_identity :: bool
  fs_description :: string

record event_type =
  et_name :: string
  et_module :: string
  et_layer :: string
  et_fields :: "field_spec list"
  et_visibility :: visibility
  et_description :: string
  et_tags :: "string list"

definition mk_field_spec :: "field_spec \<Rightarrow> field_spec res" where
  "mk_field_spec f = (if fs_name f = [] then Inl SchemaError else Inr f)"

definition wf_field_spec :: "field_spec \<Rightarrow> bool" where
  "wf_field_spec f \<longleftrightarrow> fs_name f \<noteq> [] \<and> wf_sort (fs_sort f)"

definition mk_event_type :: "event_type \<Rightarrow> event_type res" where
  "mk_event_type t =
     rbind (require (et_name t \<noteq> [] \<and> CHR ''.'' \<in> set (et_name t)) SchemaError) (\<lambda>_.
     rbind (require (et_module t \<noteq> []) SchemaError) (\<lambda>_.
     rbind (require (et_layer t \<noteq> []) SchemaError) (\<lambda>_.
     rbind (require (distinct (map fs_name (et_fields t))) SchemaError) (\<lambda>_. Inr t))))"

definition wf_event_type :: "event_type \<Rightarrow> bool" where
  "wf_event_type t \<longleftrightarrow>
     et_name t \<noteq> [] \<and> CHR ''.'' \<in> set (et_name t) \<and> et_module t \<noteq> [] \<and> et_layer t \<noteq> [] \<and>
     distinct (map fs_name (et_fields t)) \<and> (\<forall>f \<in> set (et_fields t). wf_field_spec f)"

definition field_map :: "event_type \<Rightarrow> (string \<times> field_spec) list" where
  "field_map t = dict_of (map (\<lambda>f. (fs_name f, f)) (et_fields t))"

definition field_to_dict :: "field_spec \<Rightarrow> pyval" where
  "field_to_dict f = VMap (
     [(''name'', VStr (fs_name f)), (''sort'', sort_to_dict (fs_sort f)),
      (''required'', VBool (fs_required f))]
     @ (if fs_identity f then [(''identity'', VBool True)] else [])
     @ (if fs_description f \<noteq> [] then [(''description'', VStr (fs_description f))] else []))"

definition field_from_dict :: "pyval \<Rightarrow> field_spec res" where
  "field_from_dict v =
     (case v of
        VMap d \<Rightarrow>
          rbind (get_key d ''name'' SchemaError) (\<lambda>n.
          rbind (get_key d ''sort'' SchemaError) (\<lambda>sv.
          rbind (sort_from_dict sv) (\<lambda>s.
            mk_field_spec \<lparr>fs_name = py_str n, fs_sort = s,
              fs_required = truthy (get_default d ''required'' (VBool True)),
              fs_identity = truthy (get_default d ''identity'' (VBool False)),
              fs_description = py_str (get_default d ''description'' (VStr []))\<rparr>)))
      | _ \<Rightarrow> Inl SchemaError)"

fun visibility_value :: "visibility \<Rightarrow> string" where
  "visibility_value INTERNAL = ''internal''"
| "visibility_value PUBLIC = ''public''"
| "visibility_value ARCHITECTURAL = ''architectural''"

definition visibility_of :: "string \<Rightarrow> visibility option" where
  "visibility_of s =
     (if s = ''internal'' then Some INTERNAL
      else if s = ''public'' then Some PUBLIC
      else if s = ''architectural'' then Some ARCHITECTURAL
      else None)"

text \<open>Iteration over a parsed value: \<open>tuple(str(item) for item in value)\<close>.\<close>

definition iterate :: "pyval \<Rightarrow> pyval list res" where
  "iterate v =
     (case v of
        VList vs \<Rightarrow> Inr vs
      | VStr s \<Rightarrow> Inr (map (\<lambda>c. VStr [c]) s)
      | VMap kvs \<Rightarrow> Inr (map (\<lambda>(k, _). VStr k) kvs)
      | _ \<Rightarrow> Inl PyTypeError)"

definition str_tuple :: "pyval \<Rightarrow> string list res" where
  "str_tuple v = rbind (iterate v) (\<lambda>vs. Inr (map py_str vs))"

definition event_type_to_dict :: "event_type \<Rightarrow> pyval" where
  "event_type_to_dict t = VMap (
     [(''name'', VStr (et_name t)), (''module'', VStr (et_module t)), (''layer'', VStr (et_layer t)),
      (''visibility'', VStr (visibility_value (et_visibility t))),
      (''fields'', VList (map field_to_dict (et_fields t)))]
     @ (if et_description t \<noteq> [] then [(''description'', VStr (et_description t))] else [])
     @ (if et_tags t \<noteq> [] then [(''tags'', VList (map VStr (et_tags t)))] else []))"

definition event_type_from_dict :: "pyval \<Rightarrow> event_type res" where
  "event_type_from_dict v =
     (case v of
        VMap d \<Rightarrow>
          (case get_default d ''fields'' (VList []) of
             VList raw \<Rightarrow>
               rbind (get_key d ''name'' SchemaError) (\<lambda>n.
               rbind (get_key d ''module'' SchemaError) (\<lambda>m.
               rbind (get_key d ''layer'' SchemaError) (\<lambda>l.
               rbind (traverse field_from_dict raw) (\<lambda>fs.
               rbind (or_raise (visibility_of
                  (py_str (get_default d ''visibility'' (VStr ''internal'')))) SchemaError) (\<lambda>vis.
               rbind (str_tuple (get_default d ''tags'' (VList []))) (\<lambda>tags.
                 mk_event_type \<lparr>et_name = py_str n, et_module = py_str m, et_layer = py_str l,
                   et_fields = fs, et_visibility = vis,
                   et_description = py_str (get_default d ''description'' (VStr [])),
                   et_tags = tags\<rparr>))))))
           | _ \<Rightarrow> Inl SchemaError)
      | _ \<Rightarrow> Inl SchemaError)"

section \<open>Event instances\<close>

text \<open>\<open>cycle\<close> is an integer, an expression or \<open>None\<close>; \<open>occurs\<close> a boolean or an expression.\<close>

record event_instance =
  ei_id :: string
  ei_type :: string
  ei_fields :: "(string \<times> pyval) list"
  ei_cycle :: pyval
  ei_occurs :: pyval
  ei_annotations :: "(string \<times> pyval) list"

definition cycle_ok :: "pyval \<Rightarrow> bool" where
  "cycle_ok v =
     (case v of
        VInt i \<Rightarrow> \<not> i < 0
      | VExpr e \<Rightarrow> compatible_with (expr_sort e) INT_SORT
      | VNone \<Rightarrow> True
      | _ \<Rightarrow> False)"

definition occurs_ok :: "pyval \<Rightarrow> bool" where
  "occurs_ok v =
     (case v of
        VExpr e \<Rightarrow> compatible_with (expr_sort e) BOOL_SORT
      | VBool _ \<Rightarrow> True
      | _ \<Rightarrow> False)"

definition mk_event_instance :: "event_instance \<Rightarrow> event_instance res" where
  "mk_event_instance ev =
     rbind (require (ei_id ev \<noteq> []) TraceValidationError) (\<lambda>_.
     rbind (require (ei_type ev \<noteq> []) TraceValidationError) (\<lambda>_.
     rbind (require (cycle_ok (ei_cycle ev)) TraceValidationError) (\<lambda>_.
     rbind (require (occurs_ok (ei_occurs ev)) TraceValidationError) (\<lambda>_. Inr ev))))"

definition wf_event :: "event_instance \<Rightarrow> bool" where
  "wf_event ev \<longleftrightarrow> ei_id ev \<noteq> [] \<and> ei_type ev \<noteq> [] \<and> cycle_ok (ei_cycle ev) \<and> occurs_ok (ei_occurs ev)"

definition value_fits :: "pysort \<Rightarrow> pyval \<Rightarrow> bool" where
  "value_fits s v =
     (case v of VExpr e \<Rightarrow> compatible_with (expr_sort e) s | _ \<Rightarrow> accepts_literal s v)"

definition missing_fields :: "event_type \<Rightarrow> (string \<times> pyval) list \<Rightarrow> string list" where
  "missing_fields t fds =
     map fs_name (filter (\<lambda>s. fs_required s \<and> map_of fds (fs_name s) = None) (et_fields t))"

definition get_spec :: "event_type \<Rightarrow> string \<Rightarrow> py_error \<Rightarrow> field_spec res" where
  "get_spec t name err = or_raise (map_of (field_map t) name) err"

definition validate_against :: "event_type \<Rightarrow> bool \<Rightarrow> event_instance \<Rightarrow> unit res" where
  "validate_against t partial ev =
     rbind (require (ei_type ev = et_name t) TraceValidationError) (\<lambda>_.
     rbind (require (fst ` set (ei_fields ev) \<subseteq> fst ` set (field_map t)) TraceValidationError) (\<lambda>_.
     rbind (require (partial \<or> missing_fields t (ei_fields ev) = []) TraceValidationError) (\<lambda>_.
     rbind (traverse (\<lambda>(name, v).
              rbind (get_spec t name PyKeyError) (\<lambda>spec.
                require (value_fits (fs_sort spec) v) TraceValidationError)) (ei_fields ev)) (\<lambda>_.
       Inr ()))))"

definition event_to_dict :: "event_instance \<Rightarrow> pyval" where
  "event_to_dict ev = VMap (
     [(''id'', VStr (ei_id ev)), (''type'', VStr (ei_type ev)),
      (''occurs'', encode_value (ei_occurs ev)), (''fields'', encode_value (VMap (ei_fields ev)))]
     @ (if ei_cycle ev \<noteq> VNone then [(''cycle'', encode_value (ei_cycle ev))] else [])
     @ (if ei_annotations ev \<noteq> [] then [(''annotations'', encode_value (VMap (ei_annotations ev)))]
        else []))"

text \<open>\<open>isinstance(value, dict)\<close> on a decoded value.\<close>

definition as_dict :: "pyval \<Rightarrow> py_error \<Rightarrow> (string \<times> pyval) list res" where
  "as_dict v err = (case v of VMap d \<Rightarrow> Inr d | _ \<Rightarrow> Inl err)"

definition event_from_dict :: "pyval \<Rightarrow> event_instance res" where
  "event_from_dict v =
     (case v of
        VMap d \<Rightarrow>
          rbind (decode_value (get_default d ''fields'' (VMap []))) (\<lambda>fv.
          rbind (decode_value (get_default d ''annotations'' (VMap []))) (\<lambda>av.
          rbind (as_dict fv SerializationError) (\<lambda>fields.
          rbind (as_dict av SerializationError) (\<lambda>annotations.
          rbind (get_key d ''id'' SerializationError) (\<lambda>i.
          rbind (get_key d ''type'' SerializationError) (\<lambda>t.
          rbind (decode_value (get_default d ''cycle'' VNone)) (\<lambda>cycle.
          rbind (decode_value (get_default d ''occurs'' (VBool True))) (\<lambda>occurs.
            mk_event_instance \<lparr>ei_id = py_str i, ei_type = py_str t, ei_fields = fields,
              ei_cycle = cycle, ei_occurs = occurs, ei_annotations = annotations\<rparr>))))))))
      | _ \<Rightarrow> Inl SerializationError)"

section \<open>The event catalog\<close>

record event_catalog =
  ec_types :: "(string \<times> event_type) list"
  ec_version :: string
  ec_metadata :: "(string \<times> pyval) list"

definition EVENT_CATALOG_SCHEMA_VERSION :: string where
  "EVENT_CATALOG_SCHEMA_VERSION = ''umcm.events.v0.1''"

definition mk_catalog :: "event_catalog \<Rightarrow> event_catalog res" where
  "mk_catalog c =
     (if list_all (\<lambda>(n, t). n = et_name t) (ec_types c) then Inr c else Inl SchemaError)"

definition wf_catalog :: "event_catalog \<Rightarrow> bool" where
  "wf_catalog c \<longleftrightarrow> distinct (map fst (ec_types c)) \<and>
     (\<forall>(n, t) \<in> set (ec_types c). n = et_name t \<and> wf_event_type t)"

definition register :: "event_catalog \<Rightarrow> event_type \<Rightarrow> event_catalog res" where
  "register c t =
     (if map_of (ec_types c) (et_name t) \<noteq> None then Inl SchemaError
      else Inr (c\<lparr>ec_types := AList.update (et_name t) t (ec_types c)\<rparr>))"

definition resolve :: "event_catalog \<Rightarrow> string \<Rightarrow> event_type res" where
  "resolve c name = or_raise (map_of (ec_types c) name) TraceValidationError"

definition validate_events :: "event_catalog \<Rightarrow> bool \<Rightarrow> event_instance list \<Rightarrow> unit res" where
  "validate_events c partial evs =
     rbind (traverse (\<lambda>ev. rbind (resolve c (ei_type ev)) (\<lambda>t. validate_against t partial ev)) evs)
       (\<lambda>_. Inr ())"

definition catalog_to_dict :: "event_catalog \<Rightarrow> pyval res" where
  "catalog_to_dict c =
     rbind (traverse (\<lambda>n. or_raise (map_of (ec_types c) n) PyKeyError)
              (sort (map fst (ec_types c)))) (\<lambda>ts.
       Inr (VMap [(''schema_version'', VStr (ec_version c)),
                  (''metadata'', encode_value (VMap (ec_metadata c))),
                  (''events'', VList (map event_type_to_dict ts))]))"

fun register_all :: "(string \<times> event_type) list \<Rightarrow> pyval list \<Rightarrow> (string \<times> event_type) list res" where
  "register_all d [] = Inr d"
| "register_all d (v # vs) =
     rbind (event_type_from_dict v) (\<lambda>t.
       if map_of d (et_name t) \<noteq> None then Inl SchemaError
       else register_all (AList.update (et_name t) t d) vs)"

definition catalog_from_dict :: "pyval \<Rightarrow> event_catalog res" where
  "catalog_from_dict v =
     (case v of
        VMap d \<Rightarrow>
          (case get_default d ''events'' (VList []) of
             VList raw \<Rightarrow>
               rbind (register_all [] raw) (\<lambda>types.
               rbind (decode_value (get_default d ''metadata'' (VMap []))) (\<lambda>mv.
               rbind (as_dict mv SerializationError) (\<lambda>metadata.
                 mk_catalog \<lparr>ec_types = types,
                   ec_version = py_str (get_default d ''schema_version''
                     (VStr EVENT_CATALOG_SCHEMA_VERSION)),
                   ec_metadata = metadata\<rparr>)))
           | _ \<Rightarrow> Inl SerializationError)
      | _ \<Rightarrow> Inl SerializationError)"


section \<open>Lemmas\<close>

lemma mk_event_type_Inr_iff [res_simps]:
  "mk_event_type t = Inr t' \<longleftrightarrow> t' = t \<and> et_name t \<noteq> [] \<and> CHR ''.'' \<in> set (et_name t) \<and>
     et_module t \<noteq> [] \<and> et_layer t \<noteq> [] \<and> distinct (map fs_name (et_fields t))"
  by (auto simp: mk_event_type_def rbind_require)

lemma wf_event_type_mk: "wf_event_type t \<Longrightarrow> mk_event_type t = Inr t"
  by (simp add: mk_event_type_Inr_iff wf_event_type_def)

lemma mk_field_spec_Inr_iff [res_simps]:
  "mk_field_spec f = Inr g \<longleftrightarrow> g = f \<and> fs_name f \<noteq> []"
  by (auto simp: mk_field_spec_def)

lemma mk_event_instance_Inr_iff [res_simps]:
  "mk_event_instance e = Inr e' \<longleftrightarrow> e' = e \<and> wf_event e"
  by (auto simp: mk_event_instance_def rbind_require wf_event_def)

lemma map_of_field_map:
  "distinct (map fs_name (et_fields t)) \<Longrightarrow>
   map_of (field_map t) n = Some f \<longleftrightarrow> f \<in> set (et_fields t) \<and> fs_name f = n"
proof -
  assume d: "distinct (map fs_name (et_fields t))"
  let ?kvs = "map (\<lambda>f. (fs_name f, f)) (et_fields t)"
  have "distinct (map fst ?kvs)" using d by (simp add: o_def)
  then have "map_of (field_map t) n = Some f \<longleftrightarrow> (n, f) \<in> set ?kvs"
    unfolding field_map_def by (simp add: dict_of_distinct)
  then show ?thesis by auto
qed

lemma keys_field_map: "fst ` set (field_map t) = fs_name ` set (et_fields t)"
proof -
  have "dom (map_of (field_map t)) = dom (map_of (rev (map (\<lambda>f. (fs_name f, f)) (et_fields t))))"
    by (simp add: field_map_def map_of_dict_of)
  then show ?thesis by (simp add: dom_map_of_conv_image_fst image_image)
qed

lemma visibility_roundtrip [simp]: "visibility_of (visibility_value v) = Some v"
  by (cases v) (simp_all add: visibility_of_def)

lemma field_dec_enc: "wf_field_spec f \<Longrightarrow> field_from_dict (field_to_dict f) = Inr f"
  by (cases f) (auto simp: field_to_dict_def field_from_dict_def wf_field_spec_def sort_dec_enc
      mk_field_spec_def)

lemma field_dec_wf: "field_from_dict v = Inr f \<Longrightarrow> wf_field_spec f"
  by (cases v) (auto simp: field_from_dict_def res_simps wf_field_spec_def dest: sort_dec_wf)

interpretation field_codec: codec field_to_dict field_from_dict wf_field_spec
  by unfold_locales (auto simp: field_dec_enc dest: field_dec_wf)

lemma str_tuple_VStr: "str_tuple (VList (map VStr ss)) = Inr ss"
  by (simp add: str_tuple_def iterate_def o_def)

lemma event_type_dec_enc: "wf_event_type t \<Longrightarrow> event_type_from_dict (event_type_to_dict t) = Inr t"
proof -
  assume wf: "wf_event_type t"
  obtain n m l fs vis desc tags where t: "t = \<lparr>et_name = n, et_module = m, et_layer = l,
      et_fields = fs, et_visibility = vis, et_description = desc, et_tags = tags\<rparr>"
    by (cases t)
  have "traverse field_from_dict (map field_to_dict fs) = Inr fs"
    using wf t by (intro field_codec.traverse_enc) (simp add: wf_event_type_def)
  moreover have "mk_event_type t = Inr t" using wf by (rule wf_event_type_mk)
  moreover have "str_tuple (VList []) = Inr []" using str_tuple_VStr [of "[]"] by simp
  ultimately show ?thesis
    unfolding t event_type_from_dict_def event_type_to_dict_def
    by (auto simp: str_tuple_VStr)
qed

lemma event_type_dec_wf: "event_type_from_dict v = Inr t \<Longrightarrow> wf_event_type t"
proof (cases v)
  case (VMap d)
  assume h: "event_type_from_dict v = Inr t"
  then obtain raw where raw: "get_default d ''fields'' (VList []) = VList raw"
    using VMap by (auto simp: event_type_from_dict_def split: pyval.splits)
  with h VMap show ?thesis
    by (auto simp: event_type_from_dict_def res_simps wf_event_type_def
        dest: bspec [OF field_codec.traverse_wf])
qed (simp_all add: event_type_from_dict_def)

interpretation event_type_codec: codec event_type_to_dict event_type_from_dict wf_event_type
  by unfold_locales (auto simp: event_type_dec_enc dest: event_type_dec_wf)

definition encodable_event :: "event_instance \<Rightarrow> bool" where
  "encodable_event e \<longleftrightarrow> wf_event e \<and> encodable (VMap (ei_fields e)) \<and>
     encodable (VMap (ei_annotations e)) \<and> encodable (ei_cycle e) \<and> encodable (ei_occurs e)"

lemma decode_empty_map [simp]: "decode_value (VMap []) = Inr (VMap [])"
  by simp

lemma as_dict_VMap [simp]: "as_dict (VMap d) err = Inr d"
  by (simp add: as_dict_def)

lemma event_dec_enc: "encodable_event e \<Longrightarrow> event_from_dict (event_to_dict e) = Inr e"
proof -
  assume enc: "encodable_event e"
  obtain i t fs c oc an where e: "e = \<lparr>ei_id = i, ei_type = t, ei_fields = fs, ei_cycle = c,
      ei_occurs = oc, ei_annotations = an\<rparr>" by (cases e)
  have mk: "mk_event_instance e = Inr e"
    using enc by (simp add: mk_event_instance_Inr_iff encodable_event_def)
  have rt: "decode_value (encode_value (VMap fs)) = Inr (VMap fs)"
    "decode_value (encode_value (VMap an)) = Inr (VMap an)"
    "decode_value (encode_value c) = Inr c" "decode_value (encode_value oc) = Inr oc"
    using enc e by (simp_all only: decode_encode encodable_event_def event_instance.simps)
  show ?thesis
    using mk rt unfolding e event_from_dict_def event_to_dict_def
    by (auto simp del: encode_value.simps decode_value.simps(1))
qed

lemma resolve_Inr_iff [res_simps]:
  "resolve c n = Inr t \<longleftrightarrow> map_of (ec_types c) n = Some t"
  by (simp add: resolve_def or_raise_Inr_iff)

lemma register_resolve:
  "register c t = Inr c' \<Longrightarrow>
   resolve c' n = (if n = et_name t then Inr t else resolve c n)"
  by (auto simp: register_def resolve_def update_conv' split: if_splits)

lemma register_wf: "wf_catalog c \<Longrightarrow> wf_event_type t \<Longrightarrow> register c t = Inr c' \<Longrightarrow> wf_catalog c'"
  by (auto simp: register_def wf_catalog_def distinct_update update_new map_of_eq_None_iff
      split: if_splits)

text \<open>What a successful validation guarantees for one event.\<close>

definition event_conforms :: "event_type \<Rightarrow> bool \<Rightarrow> event_instance \<Rightarrow> bool" where
  "event_conforms t partial e \<longleftrightarrow>
     ei_type e = et_name t \<and>
     (\<forall>(n, v) \<in> set (ei_fields e). \<exists>f \<in> set (et_fields t). fs_name f = n \<and> value_fits (fs_sort f) v) \<and>
     (\<not> partial \<longrightarrow> (\<forall>f \<in> set (et_fields t). fs_required f \<longrightarrow> fs_name f \<in> fst ` set (ei_fields e)))"

lemma missing_fields_Nil:
  "missing_fields t fds = [] \<longleftrightarrow>
     (\<forall>f \<in> set (et_fields t). fs_required f \<longrightarrow> fs_name f \<in> fst ` set fds)"
  by (auto simp: missing_fields_def filter_empty_conv map_of_eq_None_iff)

lemma validate_against_iff:
  assumes "wf_event_type t"
  shows "validate_against t partial e = Inr () \<longleftrightarrow> event_conforms t partial e"
proof -
  have d: "distinct (map fs_name (et_fields t))" using assms by (simp add: wf_event_type_def)
  have spec: "(\<exists>u. rbind (get_spec t n PyKeyError) (\<lambda>s. require (value_fits (fs_sort s) v) E) = Inr u)
      \<longleftrightarrow> (\<exists>f \<in> set (et_fields t). fs_name f = n \<and> value_fits (fs_sort f) v)" for n v E
    using map_of_field_map [OF d, of n] by (auto simp: get_spec_def res_simps)
  have "validate_against t partial e = Inr () \<longleftrightarrow>
      ei_type e = et_name t \<and> fst ` set (ei_fields e) \<subseteq> fs_name ` set (et_fields t) \<and>
      (partial \<or> missing_fields t (ei_fields e) = []) \<and>
      (\<forall>(n, v) \<in> set (ei_fields e). \<exists>f \<in> set (et_fields t). fs_name f = n \<and> value_fits (fs_sort f) v)"
    unfolding spec [of _ _ TraceValidationError, symmetric] validate_against_def
    by (auto simp: rbind_require res_simps keys_field_map dest: traverse_Inr_memD
        intro!: traverse_InrI)
  then show ?thesis
    by (fastforce simp: event_conforms_def missing_fields_Nil)
qed

lemma validate_events_iff:
  assumes "wf_catalog c"
  shows "validate_events c partial evs = Inr () \<longleftrightarrow>
    (\<forall>e \<in> set evs. \<exists>t. map_of (ec_types c) (ei_type e) = Some t \<and> event_conforms t partial e)"
proof -
  have wf: "wf_event_type t" if "map_of (ec_types c) n = Some t" for n t
    using assms that by (auto simp: wf_catalog_def dest!: map_of_SomeD)
  have one: "(\<exists>u. rbind (resolve c (ei_type e)) (\<lambda>t. validate_against t partial e) = Inr u) \<longleftrightarrow>
      (\<exists>t. map_of (ec_types c) (ei_type e) = Some t \<and> event_conforms t partial e)" for e
    using validate_against_iff [OF wf] by (auto simp: res_simps)
  show ?thesis
    unfolding one [symmetric] validate_events_def
    by (auto simp: res_simps dest: traverse_Inr_memD intro!: traverse_InrI)
qed

end
