(* ===== verification/Evaluator.thy ===== *)
theory Evaluator
  imports EventIR
begin

text \<open>
  \<open>src/src/umcm/solver/evaluator.py\<close>: three-valued evaluation of expressions under a possibly
  partial assignment. A result \<open>Inr None\<close> is the code's \<open>UNKNOWN\<close>. An event field may hold an
  expression that mentions other events, so evaluation can recurse through the event map for ever;
  \<open>fuel\<close> counts the event dereferences and running out of it is Python's \<open>RecursionError\<close>.
  The lemmas: more fuel never changes a result, a rank on event attributes gives enough fuel,
  and evaluation is sound for the sorts. Monotonicity in the assignment is in \<open>EvalMono\<close>.
\<close>

unbundle bit_operations_syntax

section \<open>The built-in functions\<close>

type_synonym pyfun = "pyval list \<Rightarrow> pyval res"

definition all_equal :: pyfun where
  "all_equal args =
     (case args of [] \<Rightarrow> Inr (VBool True) | a # rest \<Rightarrow> Inr (VBool (list_all (\<lambda>x. py_eq x a) rest)))"

definition same_block :: pyfun where
  "same_block args =
     (case args of
        [l, r] \<Rightarrow> Inr (VBool (py_eq l r))
      | [l, r, blk] \<Rightarrow>
          (case (as_int l, as_int r, as_int blk) of
             (Some i, Some j, Some n) \<Rightarrow>
               if n \<le> 0 then Inl SolverError else Inr (VBool (i div n = j div n))
           | _ \<Rightarrow> Inr (VBool (py_eq l r)))
      | _ \<Rightarrow> Inl SolverError)"

definition mask_overlap :: pyfun where
  "mask_overlap args =
     (case args of
        [l, r] \<Rightarrow> rbind (py_int l) (\<lambda>i. rbind (py_int r) (\<lambda>j. Inr (VBool (i AND j \<noteq> 0))))
      | _ \<Rightarrow> Inl SolverError)"

definition mask_covers :: pyfun where
  "mask_covers args =
     (case args of
        [p, c] \<Rightarrow> rbind (py_int p) (\<lambda>i. rbind (py_int c) (\<lambda>j. Inr (VBool (i AND j = j))))
      | _ \<Rightarrow> Inl SolverError)"

definition default_functions :: "(string \<times> pyfun) list" where
  "default_functions =
     [(''same_address'', all_equal), (''same_identity'', all_equal), (''same_op'', all_equal),
      (''same_value'', all_equal), (''same_block'', same_block),
      (''mask_overlap'', mask_overlap), (''mask_covers'', mask_covers)]"

section \<open>Contexts and operators\<close>

record eval_context =
  ctx_events :: "(string \<times> event_instance) list"
  ctx_assignment :: "string \<Rightarrow> pyval option"
  ctx_functions :: "(string \<times> pyfun) list"

definition stored_attribute :: "event_instance \<Rightarrow> string \<Rightarrow> pyval option" where
  "stored_attribute ev f =
     (if f = ''occurs'' then Some (ei_occurs ev)
      else if f = ''cycle'' then Some (ei_cycle ev)
      else map_of (ei_fields ev) f)"

definition event_attribute :: "eval_context \<Rightarrow> string \<Rightarrow> string \<Rightarrow> pyval option res" where
  "event_attribute c e f =
     rbind (or_raise (map_of (ctx_events c) e) TraceValidationError) (\<lambda>ev.
       Inr (stored_attribute ev f))"

definition arith :: "(int \<Rightarrow> int \<Rightarrow> int) \<Rightarrow> (pyval \<Rightarrow> pyval \<Rightarrow> bool) \<Rightarrow> pyval \<Rightarrow> pyval \<Rightarrow> pyval res" where
  "arith f sequence_op l r =
     (case (as_int l, as_int r) of
        (Some i, Some j) \<Rightarrow> Inr (VInt (f i j))
      | _ \<Rightarrow> if sequence_op l r then Inl Unmodelled else Inl PyTypeError)"

definition is_sequence :: "pyval \<Rightarrow> bool" where
  "is_sequence v = (case v of VStr _ \<Rightarrow> True | VList _ \<Rightarrow> True | _ \<Rightarrow> False)"

definition is_str :: "pyval \<Rightarrow> bool" where
  "is_str v = (case v of VStr _ \<Rightarrow> True | _ \<Rightarrow> False)"

definition eval_unary :: "string \<Rightarrow> pyval \<Rightarrow> pyval res" where
  "eval_unary op v =
     (if op = ''not'' then Inr (VBool (\<not> truthy v))
      else if op = ''neg'' then
        (case as_int v of Some i \<Rightarrow> Inr (VInt (- i)) | None \<Rightarrow> Inl PyTypeError)
      else Inl SolverError)"

text \<open>The operators that need both values.\<close>

definition eval_strict :: "string \<Rightarrow> pyval \<Rightarrow> pyval \<Rightarrow> pyval res" where
  "eval_strict op l r =
     (let truth = (\<lambda>b. rbind b (\<lambda>x. Inr (VBool x))) in
      if op = ''eq'' then Inr (VBool (py_eq l r))
      else if op = ''ne'' then Inr (VBool (\<not> py_eq l r))
      else if op = ''lt'' then truth (py_lt l r)
      else if op = ''le'' then truth (py_le l r)
      else if op = ''gt'' then truth (py_gt l r)
      else if op = ''ge'' then truth (py_ge l r)
      else if op = ''add'' then
        arith (+) (\<lambda>a b. is_sequence a \<and> is_sequence b \<and> is_str a = is_str b) l r
      else if op = ''sub'' then arith (-) (\<lambda>a b. False) l r
      else if op = ''mul'' then
        arith (*) (\<lambda>a b. is_sequence a \<and> is_pyint b \<or> is_pyint a \<and> is_sequence b) l r
      else if op = ''div'' then
        (if py_eq r (VInt 0) then Inl SolverError else arith (div) (\<lambda>a b. False) l r)
      else if op = ''mod'' then
        (if py_eq r (VInt 0) then Inl SolverError else arith (mod) (\<lambda>a b. is_str a) l r)
      else Inl SolverError)"

definition is_True :: "pyval option \<Rightarrow> bool" where "is_True v \<longleftrightarrow> v = Some (VBool True)"
definition is_False :: "pyval option \<Rightarrow> bool" where "is_False v \<longleftrightarrow> v = Some (VBool False)"

definition eval_binary :: "string \<Rightarrow> pyval option \<Rightarrow> pyval option \<Rightarrow> pyval option res" where
  "eval_binary op l r =
     (if op = ''and'' then
        (if is_False l \<or> is_False r then Inr (Some (VBool False))
         else if is_True l \<and> is_True r then Inr (Some (VBool True)) else Inr None)
      else if op = ''or'' then
        (if is_True l \<or> is_True r then Inr (Some (VBool True))
         else if is_False l \<and> is_False r then Inr (Some (VBool False)) else Inr None)
      else if op = ''implies'' then
        (if is_False l \<or> is_True r then Inr (Some (VBool True))
         else if is_True l \<and> is_False r then Inr (Some (VBool False)) else Inr None)
      else (case (l, r) of
          (Some x, Some y) \<Rightarrow>
            (if op = ''xor'' then Inr (Some (VBool (truthy x \<noteq> truthy y)))
             else rbind (eval_strict op x y) (\<lambda>v. Inr (Some v)))
        | _ \<Rightarrow> Inr None))"

definition known :: "pyval option list \<Rightarrow> pyval list" where
  "known vs = map the (filter (\<lambda>v. v \<noteq> None) vs)"

definition eval_nary :: "string \<Rightarrow> pyval option list \<Rightarrow> pyval option res" where
  "eval_nary op vs =
     (if op = ''and'' then
        (if list_ex is_False vs then Inr (Some (VBool False))
         else if list_all is_True vs then Inr (Some (VBool True)) else Inr None)
      else if op = ''or'' then
        (if list_ex is_True vs then Inr (Some (VBool True))
         else if list_all is_False vs then Inr (Some (VBool False)) else Inr None)
      else if op = ''distinct'' then
        (if \<not> list_all hashable (known vs) then Inl PyTypeError
         else if length (known vs) \<noteq> length (py_set (known vs)) then Inr (Some (VBool False))
         else if length (known vs) = length vs then Inr (Some (VBool True)) else Inr None)
      else Inl SolverError)"

definition eval_call :: "(string \<times> pyfun) list \<Rightarrow> string \<Rightarrow> pyval option list \<Rightarrow> pyval option res" where
  "eval_call functions f vs =
     (if list_ex (\<lambda>v. v = None) vs then Inr None
      else rbind (or_raise (map_of functions f) SolverError) (\<lambda>g.
           rbind (g (map the vs)) (\<lambda>v. Inr (Some v))))"

text \<open>An undecided \<open>ite\<close> still has a value when both branches agree.\<close>

definition join_known :: "pyval option \<Rightarrow> pyval option \<Rightarrow> pyval option" where
  "join_known x y =
     (case (x, y) of (Some p, Some q) \<Rightarrow> (if py_eq p q then Some p else None) | _ \<Rightarrow> None)"

fun eval_at :: "nat \<Rightarrow> eval_context \<Rightarrow> expr \<Rightarrow> pyval option res" where
  "eval_at n c (Literal v s) = Inr (Some (VScalar v))"
| "eval_at n c (Symbol name s) = Inr (ctx_assignment c name)"
| "eval_at n c (EventField e f s) =
     rbind (event_attribute c e f) (\<lambda>a.
       case a of
         None \<Rightarrow> Inr None
       | Some v \<Rightarrow>
           (case v of
              VExpr x \<Rightarrow> (case n of 0 \<Rightarrow> Inl PyRecursionError | Suc m \<Rightarrow> eval_at m c x)
            | _ \<Rightarrow> Inr (Some v)))"
| "eval_at n c (Unary op a) =
     rbind (eval_at n c a) (\<lambda>v.
       case v of None \<Rightarrow> Inr None | Some x \<Rightarrow> rbind (eval_unary op x) (\<lambda>y. Inr (Some y)))"
| "eval_at n c (Binary op a b) =
     rbind (eval_at n c a) (\<lambda>l. rbind (eval_at n c b) (\<lambda>r. eval_binary op l r))"
| "eval_at n c (Nary op as) = rbind (traverse (eval_at n c) as) (\<lambda>vs. eval_nary op vs)"
| "eval_at n c (Ite g a b) =
     rbind (eval_at n c g) (\<lambda>v.
       if is_True v then eval_at n c a
       else if is_False v then eval_at n c b
       else rbind (eval_at n c a) (\<lambda>x. rbind (eval_at n c b) (\<lambda>y. Inr (join_known x y))))"
| "eval_at n c (Call f as s) =
     rbind (traverse (eval_at n c) as) (\<lambda>vs. eval_call (ctx_functions c) f vs)"

section \<open>Fuel\<close>

lemma traverse_agree:
  "traverse f xs \<noteq> Inl E \<Longrightarrow> (\<And>x. x \<in> set xs \<Longrightarrow> f x \<noteq> Inl E \<Longrightarrow> g x = f x) \<Longrightarrow>
   traverse g xs = traverse f xs"
proof (induction xs)
  case Nil
  show ?case by simp
next
  case (Cons x xs)
  then have "g x = f x" by (cases "f x") auto
  moreover have "f x = Inr b \<Longrightarrow> traverse f xs \<noteq> Inl E" for b using Cons.prems(1) by auto
  ultimately show ?case using Cons by (cases "f x") auto
qed

lemma rbind_agree:
  "rbind r f \<noteq> Inl E \<Longrightarrow> (r \<noteq> Inl E \<Longrightarrow> r' = r) \<Longrightarrow> (\<And>x. r = Inr x \<Longrightarrow> f x \<noteq> Inl E \<Longrightarrow> g x = f x) \<Longrightarrow>
   rbind r' g = rbind r f"
  by (cases r) auto

lemma eval_at_fuel:
  "eval_at n c e \<noteq> Inl PyRecursionError \<Longrightarrow> n \<le> m \<Longrightarrow> eval_at m c e = eval_at n c e"
proof (induction n c e arbitrary: m rule: eval_at.induct)
  case (3 n c e f s)
  show ?case
  proof (cases "event_attribute c e f")
    case (Inr a)
    show ?thesis
    proof (cases "\<exists>x. a = Some (VExpr x)")
      case True
      then obtain x where a: "a = Some (VExpr x)" ..
      then obtain n' where n: "n = Suc n'" using "3.prems" Inr by (cases n) auto
      then obtain m' where m: "m = Suc m'" "n' \<le> m'" using "3.prems" by (cases m) auto
      then show ?thesis using "3.IH" [OF Inr a refl n, of m'] "3.prems" Inr a n by simp
    next
      case False
      then show ?thesis using Inr by (auto split: option.splits pyval.splits)
    qed
  qed simp
next
  case (4 n c op a)
  then show ?case by (auto intro!: rbind_agree)
next
  case (5 n c op a b)
  then show ?case by (auto intro!: rbind_agree)
next
  case (6 n c op as)
  then show ?case by (auto intro!: rbind_agree traverse_agree)
next
  case (7 n c g a b)
  have g: "eval_at m c g = eval_at n c g" if "eval_at n c g \<noteq> Inl PyRecursionError"
    using "7.IH"(1) "7.prems"(2) that by blast
  show ?case
  proof (cases "eval_at n c g")
    case (Inl d)
    then show ?thesis using "7.prems"(1) g by simp
  next
    case (Inr v)
    then have g': "eval_at m c g = Inr v" using g by simp
    consider "is_True v" | "\<not> is_True v" "is_False v" | "\<not> is_True v" "\<not> is_False v" by blast
    then show ?thesis
    proof cases
      case 1
      then show ?thesis using "7.prems" "7.IH"(2) [OF Inr 1, of m] Inr g' by simp
    next
      case 2
      then show ?thesis using "7.prems" "7.IH"(3) [OF Inr 2, of m] Inr g' by simp
    next
      case 3
      have "rbind (eval_at m c a) (\<lambda>x. rbind (eval_at m c b) (\<lambda>y. Inr (join_known x y))) =
        rbind (eval_at n c a) (\<lambda>x. rbind (eval_at n c b) (\<lambda>y. Inr (join_known x y)))"
      proof (rule rbind_agree [where E = PyRecursionError])
        show "rbind (eval_at n c a) (\<lambda>x. rbind (eval_at n c b) (\<lambda>y. Inr (join_known x y)))
          \<noteq> Inl PyRecursionError" using "7.prems"(1) Inr 3 by simp
        show "eval_at n c a \<noteq> Inl PyRecursionError \<Longrightarrow> eval_at m c a = eval_at n c a"
          using "7.IH"(4) [OF Inr 3, of m] "7.prems"(2) by blast
        show "rbind (eval_at m c b) (\<lambda>y. Inr (join_known x y)) =
            rbind (eval_at n c b) (\<lambda>y. Inr (join_known x y))"
          if "eval_at n c a = Inr x"
            "rbind (eval_at n c b) (\<lambda>y. Inr (join_known x y)) \<noteq> Inl PyRecursionError" for x
          using "7.IH"(5) [OF Inr 3 that(1), of m] "7.prems"(2) that(2) by (cases "eval_at n c b") auto
      qed
      then show ?thesis using Inr g' 3 by simp
    qed
  qed
next
  case (8 n c f as s)
  then show ?case by (auto intro!: rbind_agree traverse_agree)
qed simp_all

section \<open>Typing\<close>

definition conforms :: "pysort \<Rightarrow> pyval \<Rightarrow> bool" where
  "conforms s v =
     (if is_bool s then (case v of VBool _ \<Rightarrow> True | _ \<Rightarrow> False)
      else if is_int s \<or> is_bitvector s then (case v of VInt _ \<Rightarrow> True | _ \<Rightarrow> False)
      else if is_string s then (case v of VStr _ \<Rightarrow> True | _ \<Rightarrow> False)
      else (case v of VScalar _ \<Rightarrow> True | _ \<Rightarrow> False))"

definition attribute_typed :: "eval_context \<Rightarrow> string \<times> string \<times> pysort \<Rightarrow> bool" where
  "attribute_typed c r =
     (case r of (e, f, s) \<Rightarrow>
       (case map_of (ctx_events c) e of
          None \<Rightarrow> False
        | Some ev \<Rightarrow> (case stored_attribute ev f of None \<Rightarrow> True | Some v \<Rightarrow> value_fits s v)))"

definition symbol_typed :: "eval_context \<Rightarrow> string \<times> pysort \<Rightarrow> bool" where
  "symbol_typed c r =
     (case r of (n, s) \<Rightarrow> (case ctx_assignment c n of None \<Rightarrow> True | Some v \<Rightarrow> conforms s v))"

fun calls_bool :: "expr \<Rightarrow> bool" where
  "calls_bool (Unary op a) = calls_bool a"
| "calls_bool (Binary op a b) = (calls_bool a \<and> calls_bool b)"
| "calls_bool (Nary op as) = (\<forall>a \<in> set as. calls_bool a)"
| "calls_bool (Ite c a b) = (calls_bool c \<and> calls_bool a \<and> calls_bool b)"
| "calls_bool (Call f as s) = (is_bool s \<and> (\<forall>a \<in> set as. calls_bool a))"
| "calls_bool _ = True"

text \<open>
  \<open>typed c e\<close>: \<open>e\<close> satisfies the class invariant, every event field it reads exists with the
  sort the reference declares, every assigned symbol has a value of its sort, and calls return
  booleans, as every built-in function does. \<open>typed_context\<close> asks this of the expressions
  stored in the events.
\<close>

definition typed :: "eval_context \<Rightarrow> expr \<Rightarrow> bool" where
  "typed c e \<longleftrightarrow> wf_expr e \<and> calls_bool e \<and>
     (\<forall>r \<in> set (iter_event_fields e). attribute_typed c r) \<and>
     (\<forall>r \<in> set (iter_symbols e). symbol_typed c r)"

definition event_values :: "event_instance \<Rightarrow> pyval list" where
  "event_values ev = ei_occurs ev # ei_cycle ev # map snd (ei_fields ev)"

definition typed_value :: "eval_context \<Rightarrow> pyval \<Rightarrow> bool" where
  "typed_value c v = (case v of VExpr x \<Rightarrow> typed c x | _ \<Rightarrow> True)"

definition typed_context :: "eval_context \<Rightarrow> bool" where
  "typed_context c \<longleftrightarrow> ctx_functions c = default_functions \<and>
     (\<forall>(i, ev) \<in> set (ctx_events c). \<forall>v \<in> set (event_values ev). typed_value c v)"

lemma typed_simps:
  "typed c (Literal v s) \<longleftrightarrow> wf_sort s \<and> accepts_literal s (VScalar v)"
  "typed c (Symbol n s) \<longleftrightarrow> wf_sort s \<and> n \<noteq> [] \<and> symbol_typed c (n, s)"
  "typed c (EventField i f s) \<longleftrightarrow> wf_sort s \<and> i \<noteq> [] \<and> f \<noteq> [] \<and> attribute_typed c (i, f, s)"
  "typed c (Unary op a) \<longleftrightarrow> unary_ok op a \<and> typed c a"
  "typed c (Binary op a b) \<longleftrightarrow> binary_ok op a b \<and> typed c a \<and> typed c b"
  "typed c (Nary op as) \<longleftrightarrow> nary_ok op as \<and> (\<forall>a \<in> set as. typed c a)"
  "typed c (Ite g a b) \<longleftrightarrow> ite_ok g a b \<and> typed c g \<and> typed c a \<and> typed c b"
  "typed c (Call f as s) \<longleftrightarrow> wf_sort s \<and> f \<noteq> [] \<and> is_bool s \<and> (\<forall>a \<in> set as. typed c a)"
  by (auto simp: typed_def)

lemma stored_attribute_values: "stored_attribute ev f = Some v \<Longrightarrow> v \<in> set (event_values ev)"
  by (auto simp: stored_attribute_def event_values_def dest!: map_of_SomeD intro: rev_image_eqI
      split: if_splits)

lemma stored_expr_typed:
  assumes "typed_context c" and "map_of (ctx_events c) i = Some ev"
    and "stored_attribute ev f = Some (VExpr x)"
  shows "typed c x"
proof -
  have "(i, ev) \<in> set (ctx_events c)" using assms(2) by (rule map_of_SomeD)
  then have "typed_value c (VExpr x)"
    using assms(1) stored_attribute_values [OF assms(3)] by (fastforce simp: typed_context_def)
  then show ?thesis by (simp add: typed_value_def)
qed

lemma conforms_bool: "is_bool s \<Longrightarrow> conforms s v \<longleftrightarrow> (\<exists>b. v = VBool b)"
  by (auto simp: conforms_def split: pyval.splits scalar.splits)

lemma conforms_BOOL [simp]: "conforms BOOL_SORT (VBool b)"
  by (simp add: conforms_bool)

lemma conforms_numeric: "is_int s \<or> is_bitvector s \<Longrightarrow> conforms s v \<longleftrightarrow> (\<exists>i. v = VInt i)"
  by (auto simp: conforms_def sort_kind_defs split: pyval.splits scalar.splits)

lemma conforms_scalar: "conforms s v \<Longrightarrow> \<exists>c. v = VScalar c"
  by (cases v) (auto simp: conforms_def split: if_splits)

lemma accepts_conforms: "accepts_literal s v \<Longrightarrow> conforms s v"
  using accepts_scalar [of s v] sort_kinds_exclusive(3) [of s]
  by (auto simp: accepts_literal_def conforms_def strict_int_iff
      split: if_splits option.splits scalar.splits)

section \<open>Soundness for the sorts\<close>

definition eval_errors :: "py_error list" where
  "eval_errors = [SolverError, PyRecursionError, PyTypeError, PyValueError]"

definition sound_result :: "pysort \<Rightarrow> pyval option res \<Rightarrow> bool" where
  "sound_result s r =
     (case r of
        Inl e \<Rightarrow> e \<in> set eval_errors
      | Inr None \<Rightarrow> True
      | Inr (Some v) \<Rightarrow> conforms s v)"

lemma sound_simps [simp]:
  "sound_result s (Inr None)"
  "sound_result s (Inr (Some v)) = conforms s v"
  "sound_result s (Inl SolverError)"
  "sound_result s (Inl PyRecursionError)"
  by (simp_all add: sound_result_def eval_errors_def)

lemma sound_InlD: "sound_result s (Inl e) \<Longrightarrow> sound_result t (Inl e)"
  by (simp add: sound_result_def)

lemma sound_rbind:
  "sound_result s r \<Longrightarrow> (\<And>x. r = Inr x \<Longrightarrow> sound_result t (f x)) \<Longrightarrow> sound_result t (rbind r f)"
  by (cases r) (auto intro: sound_InlD [of s])

lemma sound_traverse:
  "(\<And>x. x \<in> set xs \<Longrightarrow> sound_result (st x) (f x)) \<Longrightarrow> (\<And>vs. traverse f xs = Inr vs \<Longrightarrow> sound_result t (g vs)) \<Longrightarrow>
   sound_result t (rbind (traverse f xs) g)"
proof (cases "traverse f xs")
  case (Inl d)
  then obtain x where "x \<in> set xs" "f x = Inl d" using traverse_error_mem [OF Inl] by blast
  assume *: "\<And>x. x \<in> set xs \<Longrightarrow> sound_result (st x) (f x)"
  from * [OF \<open>x \<in> set xs\<close>] have "sound_result (st x) (f x)" .
  with \<open>f x = Inl d\<close> have "sound_result (st x) (Inl d)" by simp
  then have "sound_result t (Inl d)" by (rule sound_InlD)
  with Inl show ?thesis by simp
qed simp

lemma sound_unary:
  "unary_ok op a \<Longrightarrow> conforms (expr_sort a) v \<Longrightarrow>
   sound_result (expr_sort (Unary op a)) (rbind (eval_unary op v) (\<lambda>y. Inr (Some y)))"
  by (auto simp: unary_ok_def eval_unary_def expr_is_numeric_def conforms_numeric split: if_splits)

lemma order_numeric:
  "py_lt (VInt i) (VInt j) = Inr (i < j)" "py_le (VInt i) (VInt j) = Inr (i \<le> j)"
  "py_gt (VInt i) (VInt j) = Inr (j < i)" "py_ge (VInt i) (VInt j) = Inr (j \<le> i)"
  by (simp_all add: py_order_defs py_order_def)

lemmas op_lists = bool_binary_ops_def equality_ops_def order_ops_def arith_ops_def

lemma eval_strict_eq [simp]:
  "eval_strict ''eq'' l r = Inr (VBool (py_eq l r))"
  "eval_strict ''ne'' l r = Inr (VBool (\<not> py_eq l r))"
  by (simp_all add: eval_strict_def)

lemma eval_strict_order:
  "op \<in> set order_ops \<Longrightarrow> \<exists>b. eval_strict op (VInt i) (VInt j) = Inr (VBool b)"
  by (auto simp: order_ops_def eval_strict_def order_numeric)

lemma eval_strict_arith:
  "op \<in> set arith_ops \<Longrightarrow>
   eval_strict op (VInt i) (VInt j) = Inl SolverError \<or> (\<exists>k. eval_strict op (VInt i) (VInt j) = Inr (VInt k))"
  by (auto simp: arith_ops_def eval_strict_def arith_def)

lemma sound_strict:
  assumes ok: "binary_ok op a b" and ca: "conforms (expr_sort a) v" and cb: "conforms (expr_sort b) w"
    and nb: "op \<notin> set bool_binary_ops"
  shows "sound_result (expr_sort (Binary op a b)) (rbind (eval_strict op v w) (\<lambda>y. Inr (Some y)))"
proof -
  consider "op \<in> set equality_ops"
    | "op \<notin> set equality_ops" "op \<in> set order_ops" "expr_compatible a b" "expr_is_numeric a"
    | "op \<notin> set equality_ops" "op \<notin> set order_ops" "op \<in> set arith_ops" "expr_compatible a b"
        "expr_is_numeric a"
    using ok nb unfolding binary_ok_def by (auto split: if_splits)
  then show ?thesis
  proof cases
    case 1
    then show ?thesis by (auto simp: equality_ops_def)
  next
    case 2
    then obtain i j where "v = VInt i" "w = VInt j"
      using ca cb by (auto simp: expr_is_numeric_def expr_compatible_def compatible_with_def conforms_numeric)
    then show ?thesis using 2 eval_strict_order [of op i j] by auto
  next
    case 3
    then obtain i j where "v = VInt i" "w = VInt j"
      using ca cb by (auto simp: expr_is_numeric_def expr_compatible_def compatible_with_def conforms_numeric)
    then show ?thesis using 3 nb eval_strict_arith [of op i j]
      by (auto simp: expr_is_numeric_def conforms_numeric)
  qed
qed

lemma default_functions_cases:
  assumes "map_of default_functions f = Some g"
  obtains "g = all_equal" | "g = same_block" | "g = mask_overlap" | "g = mask_covers"
  using map_of_SomeD [OF assms] unfolding default_functions_def by auto

lemma py_int_error: "py_int v = Inl e \<Longrightarrow> e \<in> set eval_errors"
  by (auto simp: py_int_def eval_errors_def or_raise_Inl_iff
      split: option.splits pyval.splits scalar.splits)

definition bool_or_error :: "pyval res \<Rightarrow> bool" where
  "bool_or_error r \<longleftrightarrow> (case r of Inl e \<Rightarrow> e \<in> set eval_errors | Inr v \<Rightarrow> (\<exists>b. v = VBool b))"

lemma bool_or_error_simps [simp]:
  "bool_or_error (Inr (VBool b))" "bool_or_error (Inl SolverError)"
  by (simp_all add: bool_or_error_def eval_errors_def)

lemma bool_or_error_int: "(\<And>i. bool_or_error (f i)) \<Longrightarrow> bool_or_error (rbind (py_int v) f)"
  by (cases "py_int v") (auto simp: bool_or_error_def dest: py_int_error)

lemma default_function_result:
  "map_of default_functions f = Some g \<Longrightarrow> bool_or_error (g vs)"
  by (erule default_functions_cases)
    (auto simp: all_equal_def same_block_def mask_overlap_def mask_covers_def
      intro!: bool_or_error_int split: list.splits option.splits)

lemma sound_call:
  assumes "is_bool s"
  shows "sound_result s (eval_call default_functions f vs)"
proof (cases "list_ex (\<lambda>v. v = None) vs")
  case False
  show ?thesis
  proof (cases "map_of default_functions f")
    case None
    then show ?thesis using False by (simp add: eval_call_def)
  next
    case (Some g)
    then have "bool_or_error (g (map the vs))" by (rule default_function_result)
    then show ?thesis using False Some assms
      by (cases "g (map the vs)")
        (auto simp: eval_call_def bool_or_error_def conforms_bool sound_result_def)
  qed
qed (simp add: eval_call_def)

lemma eval_binary_bool_op:
  assumes "op \<in> set bool_binary_ops"
  shows "\<exists>r. eval_binary op x y = Inr r \<and> (\<forall>v. r = Some v \<longrightarrow> (\<exists>b. v = VBool b))"
proof -
  consider "op = ''and''" | "op = ''or''" | "op = ''implies''" | "op = ''xor''"
    using assms by (auto simp: bool_binary_ops_def)
  then show ?thesis
    by cases (auto simp: eval_binary_def split: option.split)
qed

lemma eval_binary_other:
  "op \<notin> set bool_binary_ops \<Longrightarrow> eval_binary op x y =
     (case (x, y) of (Some v, Some w) \<Rightarrow> rbind (eval_strict op v w) (\<lambda>u. Inr (Some u)) | _ \<Rightarrow> Inr None)"
  by (auto simp: bool_binary_ops_def eval_binary_def split: option.splits)

lemma sound_binary:
  assumes ok: "binary_ok op a b"
    and "\<And>v. x = Some v \<Longrightarrow> conforms (expr_sort a) v" "\<And>w. y = Some w \<Longrightarrow> conforms (expr_sort b) w"
  shows "sound_result (expr_sort (Binary op a b)) (eval_binary op x y)"
proof (cases "op \<in> set bool_binary_ops")
  case True
  then obtain r where r: "eval_binary op x y = Inr r" "\<forall>v. r = Some v \<longrightarrow> (\<exists>b. v = VBool b)"
    using eval_binary_bool_op by blast
  show ?thesis
  proof (cases r)
    case (Some v)
    then show ?thesis using True r by auto
  qed (use r in simp)
next
  case False
  show ?thesis
  proof (cases "\<exists>v w. x = Some v \<and> y = Some w")
    case True
    then obtain v w where "x = Some v" "y = Some w" by blast
    then show ?thesis
      unfolding eval_binary_other [OF False] using sound_strict [OF ok _ _ False, of v w] assms by simp
  next
    case False
    then show ?thesis unfolding eval_binary_other [OF \<open>op \<notin> set bool_binary_ops\<close>]
      by (auto split: option.splits)
  qed
qed

lemma sound_nary:
  assumes "nary_ok op as" and "list_all hashable (known vs)"
  shows "sound_result BOOL_SORT (eval_nary op vs)"
  using assms by (auto simp: nary_ok_def eval_nary_def split: list.splits)

lemma conforms_hashable: "conforms s v \<Longrightarrow> hashable v"
  by (auto dest: conforms_scalar)

lemma event_field_cases:
  assumes "typed c (EventField i f s)"
  obtains ev where "map_of (ctx_events c) i = Some ev"
    "event_attribute c i f = Inr (stored_attribute ev f)"
    "\<And>v. stored_attribute ev f = Some v \<Longrightarrow> value_fits s v"
  using assms by (auto simp: typed_simps attribute_typed_def event_attribute_def split: option.splits)

theorem eval_at_sound:
  "typed_context c \<Longrightarrow> typed c e \<Longrightarrow> sound_result (expr_sort e) (eval_at n c e)"
proof (induction n c e rule: eval_at.induct)
  case (1 n c v s)
  then show ?case by (simp add: typed_simps accepts_conforms)
next
  case (2 n c name s)
  then show ?case by (cases "ctx_assignment c name") (auto simp: typed_simps symbol_typed_def)
next
  case (3 n c i f s)
  then obtain ev where ev: "map_of (ctx_events c) i = Some ev"
    "event_attribute c i f = Inr (stored_attribute ev f)"
    "\<And>v. stored_attribute ev f = Some v \<Longrightarrow> value_fits s v" using event_field_cases by blast
  show ?case
  proof (cases "stored_attribute ev f")
    case None
    then show ?thesis using ev by simp
  next
    case (Some v)
    show ?thesis
    proof (cases v)
      case (VExpr x)
      then have x: "expr_sort x = s" "typed c x"
        using ev Some stored_expr_typed [OF "3.prems"(1) ev(1)]
        by (auto simp: value_fits_def compatible_with_def)
      show ?thesis
      proof (cases n)
        case (Suc m)
        then show ?thesis using "3.IH" [OF ev(2) Some VExpr Suc "3.prems"(1) x(2)] ev Some VExpr x
          by simp
      qed (use ev Some VExpr in simp)
    qed (use ev Some in \<open>auto simp: value_fits_def accepts_conforms\<close>)
  qed
next
  case (4 n c op a)
  then have "sound_result (expr_sort a) (eval_at n c a)" by (simp add: typed_simps)
  then show ?case unfolding eval_at.simps
  proof (rule sound_rbind)
    fix v assume "eval_at n c a = Inr v"
    then show "sound_result (expr_sort (Unary op a)) (case v of None \<Rightarrow> Inr None
        | Some x \<Rightarrow> rbind (eval_unary op x) (\<lambda>y. Inr (Some y)))"
      using 4 \<open>sound_result (expr_sort a) (eval_at n c a)\<close> sound_unary [of op a]
      by (cases v) (simp_all add: typed_simps)
  qed
next
  case (5 n c op a b)
  then have sa: "sound_result (expr_sort a) (eval_at n c a)" by (simp add: typed_simps)
  show ?case unfolding eval_at.simps
  proof (rule sound_rbind [OF sa])
    fix x assume x: "eval_at n c a = Inr x"
    then have sb: "sound_result (expr_sort b) (eval_at n c b)" using 5 by (simp add: typed_simps)
    show "sound_result (expr_sort (Binary op a b)) (rbind (eval_at n c b) (eval_binary op x))"
      by (rule sound_rbind [OF sb], rule sound_binary) (use 5 sa sb x in \<open>auto simp: typed_simps\<close>)
  qed
next
  case (6 n c op as)
  then have sa: "sound_result (expr_sort a) (eval_at n c a)" if "a \<in> set as" for a
    using that by (simp add: typed_simps)
  show ?case unfolding eval_at.simps
  proof (rule sound_traverse [OF sa])
    fix vs assume vs: "traverse (eval_at n c) as = Inr vs"
    have "hashable v" if "Some v \<in> set vs" for v
      using traverse_Inr_imageD [OF vs that] sa by (metis conforms_hashable sound_simps(2))
    then have "list_all hashable (known vs)" by (auto simp: known_def list_all_iff)
    then show "sound_result (expr_sort (Nary op as)) (eval_nary op vs)"
      using 6 sound_nary [of op as vs] by (simp add: typed_simps)
  qed
next
  case (7 n c g a b)
  then have ty: "typed c g" "typed c a" "typed c b" "expr_sort b = expr_sort a"
    by (auto simp: typed_simps ite_ok_def expr_compatible_def compatible_with_def)
  have sg: "sound_result (expr_sort g) (eval_at n c g)" using 7 ty by simp
  show ?case unfolding eval_at.simps
  proof (rule sound_rbind [OF sg])
    fix v assume v: "eval_at n c g = Inr v"
    consider "is_True v" | "\<not> is_True v" "is_False v" | "\<not> is_True v" "\<not> is_False v" by blast
    then show "sound_result (expr_sort (Ite g a b)) (if is_True v then eval_at n c a
      else if is_False v then eval_at n c b
      else rbind (eval_at n c a) (\<lambda>x. rbind (eval_at n c b) (\<lambda>y. Inr (join_known x y))))"
    proof cases
      case 1
      then show ?thesis using "7.IH"(2) [OF v 1] "7.prems" ty by simp
    next
      case 2
      then show ?thesis using "7.IH"(3) [OF v 2] "7.prems" ty by simp
    next
      case 3
      have sa: "sound_result (expr_sort a) (eval_at n c a)" using "7.IH"(4) [OF v 3] "7.prems" ty by simp
      have "sound_result (expr_sort a)
        (rbind (eval_at n c a) (\<lambda>x. rbind (eval_at n c b) (\<lambda>y. Inr (join_known x y))))"
      proof (rule sound_rbind [OF sa])
        fix x assume x: "eval_at n c a = Inr x"
        have sb: "sound_result (expr_sort a) (eval_at n c b)"
          using "7.IH"(5) [OF v 3 x] "7.prems" ty by simp
        show "sound_result (expr_sort a) (rbind (eval_at n c b) (\<lambda>y. Inr (join_known x y)))"
          by (rule sound_rbind [OF sb])
            (use sa x in \<open>auto simp: join_known_def split: option.splits\<close>)
      qed
      then show ?thesis using 3 by simp
    qed
  qed
next
  case (8 n c f as s)
  have sa: "sound_result (expr_sort a) (eval_at n c a)" if "a \<in> set as" for a
    using 8 that by (simp add: typed_simps)
  show ?case unfolding eval_at.simps
    by (rule sound_traverse [OF sa]) (use 8 in \<open>auto simp: typed_simps typed_context_def sound_call\<close>)
qed

lemma eval_bool_value:
  assumes "typed_context c" "typed c e" "expr_is_bool e" "eval_at n c e = Inr (Some v)"
  shows "\<exists>b. v = VBool b"
  using eval_at_sound [OF assms(1,2), of n] assms(3,4) by (simp add: expr_is_bool_def conforms_bool)

section \<open>Enough fuel\<close>

text \<open>
  A rank on event attributes that falls along every reference of a stored expression rules out
  infinite recursion: fuel above the ranks an expression mentions is enough. A context whose stored
  expressions mention no event fields at all, as materialised traces are, needs one unit.
\<close>

definition ranked :: "(string \<Rightarrow> string \<Rightarrow> nat) \<Rightarrow> eval_context \<Rightarrow> bool" where
  "ranked rk c \<longleftrightarrow>
     (\<forall>i ev f x. map_of (ctx_events c) i = Some ev \<longrightarrow> stored_attribute ev f = Some (VExpr x) \<longrightarrow>
        (\<forall>(j, g, s) \<in> set (iter_event_fields x). rk j g < rk i f))"

lemma traverse_no_recursion:
  "(\<And>x. x \<in> set xs \<Longrightarrow> f x \<noteq> Inl E) \<Longrightarrow> traverse f xs \<noteq> Inl E"
  by (auto dest: traverse_error_mem)

lemma eval_unary_no_recursion: "eval_unary op v \<noteq> Inl PyRecursionError"
  by (simp add: eval_unary_def split: option.split)

lemma eval_strict_no_recursion: "eval_strict op v w \<noteq> Inl PyRecursionError"
proof -
  have o: "rbind (py_order ri rs v w) (\<lambda>x. Inr (VBool x)) \<noteq> Inl PyRecursionError" for ri rs
    by (auto simp: py_order_def rbind_Inl_iff split: option.splits pyval.splits scalar.splits)
  have a: "arith f q v w \<noteq> Inl PyRecursionError" for f q
    by (auto simp: arith_def split: option.splits)
  show ?thesis using o a by (simp add: eval_strict_def Let_def py_order_defs)
qed

lemma eval_binary_no_recursion: "eval_binary op x y \<noteq> Inl PyRecursionError"
proof (cases "op \<in> set bool_binary_ops")
  case True
  then show ?thesis using eval_binary_bool_op [of op x y] by auto
next
  case False
  then show ?thesis unfolding eval_binary_other [OF False]
    by (auto simp: rbind_Inl_iff eval_strict_no_recursion split: option.splits)
qed

lemma eval_nary_no_recursion: "eval_nary op vs \<noteq> Inl PyRecursionError"
  by (simp add: eval_nary_def)

lemma py_int_no_recursion: "py_int v \<noteq> Inl PyRecursionError"
  by (auto simp: py_int_def or_raise_Inl_iff split: option.splits pyval.splits scalar.splits)

lemma default_function_no_recursion:
  "map_of default_functions f = Some g \<Longrightarrow> g vs \<noteq> Inl PyRecursionError"
  by (erule default_functions_cases)
    (auto simp: all_equal_def same_block_def mask_overlap_def mask_covers_def rbind_Inl_iff
      py_int_no_recursion split: list.splits option.splits)

lemma eval_call_no_recursion: "eval_call default_functions f vs \<noteq> Inl PyRecursionError"
  by (auto simp: eval_call_def rbind_Inl_iff or_raise_Inl_iff or_raise_Inr_iff
      dest: default_function_no_recursion)

lemma rbind_no_recursion:
  "r \<noteq> Inl E \<Longrightarrow> (\<And>x. r = Inr x \<Longrightarrow> f x \<noteq> Inl E) \<Longrightarrow> rbind r f \<noteq> Inl E"
  by (cases r) auto

lemma eval_at_enough_fuel:
  assumes "ranked rk c" and "ctx_functions c = default_functions"
    and "\<forall>(i, f, s) \<in> set (iter_event_fields e). rk i f < n"
  shows "eval_at n c e \<noteq> Inl PyRecursionError"
  using assms
proof (induction n c e rule: eval_at.induct)
  case (3 n c i f s)
  have "\<not> (event_attribute c i f = Inr (Some (VExpr x)) \<and> n = 0)" for x using "3.prems"(3) by auto
  moreover have "eval_at m c x \<noteq> Inl PyRecursionError"
    if "event_attribute c i f = Inr (Some (VExpr x))" "n = Suc m" for x m
  proof (rule "3.IH" [OF that(1) refl refl that(2) "3.prems"(1,2)])
    note h = that(1)
    obtain ev where "map_of (ctx_events c) i = Some ev" "stored_attribute ev f = Some (VExpr x)"
      using h by (auto simp: event_attribute_def res_simps)
    then have "\<forall>(j, g, t) \<in> set (iter_event_fields x). rk j g < rk i f"
      using "3.prems"(1) unfolding ranked_def by blast
    then show "\<forall>(j, g, t) \<in> set (iter_event_fields x). rk j g < m"
      using "3.prems"(3) that(2) by fastforce
  qed
  moreover have "event_attribute c i f \<noteq> Inl PyRecursionError"
    by (simp add: event_attribute_def rbind_Inl_iff or_raise_Inl_iff)
  ultimately show ?case
    by (cases "event_attribute c i f")
      (auto split: option.splits pyval.splits nat.splits)
next
  case (4 n c op a)
  then show ?case
    by (auto simp: rbind_Inl_iff eval_unary_no_recursion split: option.splits)
next
  case (5 n c op a b)
  then show ?case by (auto simp: rbind_Inl_iff eval_binary_no_recursion)
next
  case (6 n c op as)
  then have "eval_at n c a \<noteq> Inl PyRecursionError" if "a \<in> set as" for a using that by fastforce
  then show ?case by (auto simp: rbind_Inl_iff eval_nary_no_recursion dest: traverse_error_mem)
next
  case (7 n c g a b)
  then show ?case by (fastforce simp: rbind_Inl_iff split: if_splits)
next
  case (8 n c f as s)
  then have "eval_at n c a \<noteq> Inl PyRecursionError" if "a \<in> set as" for a using that by fastforce
  then show ?case using 8 by (auto simp: rbind_Inl_iff eval_call_no_recursion dest: traverse_error_mem)
qed simp_all

definition flat_context :: "eval_context \<Rightarrow> bool" where
  "flat_context c \<longleftrightarrow> ctx_functions c = default_functions \<and>
     (\<forall>(i, ev) \<in> set (ctx_events c). \<forall>v \<in> set (event_values ev).
        case v of VExpr x \<Rightarrow> iter_event_fields x = [] | _ \<Rightarrow> True)"

lemma flat_ranked: "flat_context c \<Longrightarrow> ranked (\<lambda>_ _. 0) c"
  unfolding ranked_def
proof (intro allI impI)
  fix i ev f x
  assume "flat_context c" "map_of (ctx_events c) i = Some ev" "stored_attribute ev f = Some (VExpr x)"
  then have "iter_event_fields x = []"
    using stored_attribute_values [of ev f "VExpr x"]
    by (fastforce simp: flat_context_def dest: map_of_SomeD)
  then show "\<forall>(j, g, s) \<in> set (iter_event_fields x). 0 < (0::nat)" by simp
qed

lemma eval_flat: "flat_context c \<Longrightarrow> 0 < n \<Longrightarrow> eval_at n c e \<noteq> Inl PyRecursionError"
  by (rule eval_at_enough_fuel [OF flat_ranked]) (auto simp: flat_context_def)

end
