(* ===== verification/EvalMono.thy ===== *)
theory EvalMono
  imports Evaluator
begin

text \<open>
  Evaluation is monotone in the assignment (\<open>solver/evaluator.py\<close>): a value found under a
  partial assignment is never revised when more symbols are assigned. This is what lets the finite
  solver prune a branch as soon as one constraint is \<open>False\<close>.
\<close>

section \<open>The order on results\<close>

text \<open>
  \<open>val_le\<close>: a result may become known, and a known one may only be replaced by an equal value.
  Equal is Python's \<open>==\<close>: an undecided \<open>ite\<close> whose branches are \<open>True\<close> and \<open>1\<close> returns the
  first and, once decided, may return the second.
\<close>

definition val_le :: "pyval option \<Rightarrow> pyval option \<Rightarrow> bool" where
  "val_le x y = (case x of None \<Rightarrow> True | Some v \<Rightarrow> (case y of None \<Rightarrow> False | Some w \<Rightarrow> py_eq v w))"

lemma val_le_simps [simp]:
  "val_le None y" "\<not> val_le (Some v) None" "val_le (Some v) (Some w) = py_eq v w"
  by (simp_all add: val_le_def)

lemma val_le_refl [simp]: "val_le x x"
  by (cases x) auto

lemma val_le_trans: "val_le x y \<Longrightarrow> val_le y z \<Longrightarrow> val_le x z"
  by (cases x; cases y; cases z) (auto intro: py_eq_trans)

lemma py_eq_scalars [simp]: "py_eq (VScalar a) (VScalar b) \<longleftrightarrow> canon_scalar a = canon_scalar b"
  by (simp add: py_eq_def)

lemma as_int_cong: "py_eq v w \<Longrightarrow> as_int v = as_int w"
  by (cases v rule: as_int.cases; cases w rule: as_int.cases) (auto simp: py_eq_def)

lemma truthy_cong: "canon_scalar a = canon_scalar b \<Longrightarrow> truthy (VScalar a) = truthy (VScalar b)"
  by (cases a; cases b) (auto split: if_splits)

lemma str_cong: "canon_scalar a = canon_scalar b \<Longrightarrow> a = SStr s \<longleftrightarrow> b = SStr s"
  by (cases a; cases b) auto

lemma sequence_cong:
  "canon_scalar a = canon_scalar b \<Longrightarrow> is_str (VScalar a) = is_str (VScalar b)"
  "canon_scalar a = canon_scalar b \<Longrightarrow> is_sequence (VScalar a) = is_sequence (VScalar b)"
  by (cases a; cases b; simp add: is_str_def is_sequence_def)+

lemma is_pyint_cong: "py_eq v w \<Longrightarrow> is_pyint v = is_pyint w"
  by (simp add: is_pyint_def as_int_cong)

lemma py_int_cong:
  assumes "canon_scalar a = canon_scalar b" shows "py_int (VScalar a) = py_int (VScalar b)"
proof -
  have "as_int (VScalar a) = as_int (VScalar b)" using assms by (simp add: as_int_cong)
  then show ?thesis using assms by (cases a; cases b) (auto simp: py_int_def)
qed

lemma py_eq_both: "py_eq v v' \<Longrightarrow> py_eq w w' \<Longrightarrow> py_eq v w = py_eq v' w'"
  by (simp add: py_eq_def)

lemma py_order_cong:
  assumes "canon_scalar a = canon_scalar a'" "canon_scalar b = canon_scalar b'"
  shows "py_order ri rs (VScalar a) (VScalar b) = py_order ri rs (VScalar a') (VScalar b')"
proof -
  have i: "as_int (VScalar a) = as_int (VScalar a')" "as_int (VScalar b) = as_int (VScalar b')"
    using assms by (simp_all add: as_int_cong)
  show ?thesis
  proof (cases "\<exists>s t. a = SStr s \<and> b = SStr t")
    case True
    then have "a' = a" "b' = b" using str_cong [OF assms(1)] str_cong [OF assms(2)] by metis+
    then show ?thesis by simp
  next
    case False
    then have "\<not> (\<exists>s t. a' = SStr s \<and> b' = SStr t)"
      using str_cong [OF assms(1)] str_cong [OF assms(2)] by metis
    then have "py_order ri rs (VScalar a') (VScalar b') =
        (case (as_int (VScalar a'), as_int (VScalar b')) of (Some i, Some j) \<Rightarrow> Inr (ri i j) | _ \<Rightarrow> Inl PyTypeError)"
      by (auto simp: py_order_def split: option.splits scalar.splits)
    moreover have "py_order ri rs (VScalar a) (VScalar b) =
        (case (as_int (VScalar a), as_int (VScalar b)) of (Some i, Some j) \<Rightarrow> Inr (ri i j) | _ \<Rightarrow> Inl PyTypeError)"
      using False by (auto simp: py_order_def split: option.splits scalar.splits)
    ultimately show ?thesis using i by simp
  qed
qed

lemma arith_cong:
  assumes "canon_scalar a = canon_scalar a'" "canon_scalar b = canon_scalar b'"
    and "q (VScalar a) (VScalar b) = q (VScalar a') (VScalar b')"
  shows "arith f q (VScalar a) (VScalar b) = arith f q (VScalar a') (VScalar b')"
  using assms as_int_cong [of "VScalar a" "VScalar a'"] as_int_cong [of "VScalar b" "VScalar b'"]
  by (simp add: arith_def)

lemma eval_strict_cong:
  assumes "canon_scalar a = canon_scalar a'" "canon_scalar b = canon_scalar b'"
  shows "eval_strict op (VScalar a) (VScalar b) = eval_strict op (VScalar a') (VScalar b')"
proof -
  have e: "py_eq (VScalar a) (VScalar b) = py_eq (VScalar a') (VScalar b')"
    "py_eq (VScalar b) (VInt 0) = py_eq (VScalar b') (VInt 0)" using assms by simp_all
  have p: "is_pyint (VScalar a) = is_pyint (VScalar a')" "is_pyint (VScalar b) = is_pyint (VScalar b')"
    using assms by (simp_all add: is_pyint_cong)
  note q = sequence_cong [OF assms(1)] sequence_cong [OF assms(2)] p
  have A: "arith f (\<lambda>a b. is_sequence a \<and> is_sequence b \<and> is_str a = is_str b) (VScalar a) (VScalar b) =
      arith f (\<lambda>a b. is_sequence a \<and> is_sequence b \<and> is_str a = is_str b) (VScalar a') (VScalar b')"
    "arith f (\<lambda>a b. False) (VScalar a) (VScalar b) = arith f (\<lambda>a b. False) (VScalar a') (VScalar b')"
    "arith f (\<lambda>a b. is_sequence a \<and> is_pyint b \<or> is_pyint a \<and> is_sequence b) (VScalar a) (VScalar b) =
      arith f (\<lambda>a b. is_sequence a \<and> is_pyint b \<or> is_pyint a \<and> is_sequence b) (VScalar a') (VScalar b')"
    "arith f (\<lambda>a b. is_str a) (VScalar a) (VScalar b) = arith f (\<lambda>a b. is_str a) (VScalar a') (VScalar b')"
    for f
    by (rule arith_cong [OF assms]; simp only: q)+
  show ?thesis
    unfolding eval_strict_def Let_def py_order_defs e py_order_cong [OF assms] A ..
qed

lemma eval_unary_cong:
  "canon_scalar a = canon_scalar b \<Longrightarrow> eval_unary op (VScalar a) = eval_unary op (VScalar b)"
  using as_int_cong [of "VScalar a" "VScalar b"] truthy_cong [of a b] by (simp add: eval_unary_def)

definition scalar_opt :: "pyval option \<Rightarrow> bool" where
  "scalar_opt x \<longleftrightarrow> (\<forall>v. x = Some v \<longrightarrow> (\<exists>c. v = VScalar c))"

definition bool_opt :: "pyval option \<Rightarrow> bool" where
  "bool_opt x \<longleftrightarrow> (\<forall>v. x = Some v \<longrightarrow> (\<exists>b. v = VBool b))"

lemma val_le_bool: "val_le x y \<Longrightarrow> bool_opt x \<Longrightarrow> bool_opt y \<Longrightarrow> x = None \<or> y = x"
  by (cases x; cases y) (auto simp: bool_opt_def split: if_splits)

lemma bool_opt_cases: "bool_opt x \<Longrightarrow> x = None \<or> is_True x \<or> is_False x"
  by (cases x) (auto simp: bool_opt_def is_True_def is_False_def)

lemma eval_binary_connectives:
  "eval_binary ''and'' l r = Inr (if is_False l \<or> is_False r then Some (VBool False)
     else if is_True l \<and> is_True r then Some (VBool True) else None)"
  "eval_binary ''or'' l r = Inr (if is_True l \<or> is_True r then Some (VBool True)
     else if is_False l \<and> is_False r then Some (VBool False) else None)"
  "eval_binary ''implies'' l r = Inr (if is_False l \<or> is_True r then Some (VBool True)
     else if is_True l \<and> is_False r then Some (VBool False) else None)"
  "eval_binary ''xor'' l r = Inr (case (l, r) of
     (Some x, Some y) \<Rightarrow> Some (VBool (truthy x \<noteq> truthy y)) | _ \<Rightarrow> None)"
  by (simp_all add: eval_binary_def split: option.split)

lemma eval_binary_mono:
  assumes le: "val_le x x'" "val_le y y'"
    and sc: "scalar_opt x" "scalar_opt x'" "scalar_opt y" "scalar_opt y'"
    and bl: "op \<in> set bool_binary_ops \<Longrightarrow> bool_opt x \<and> bool_opt x' \<and> bool_opt y \<and> bool_opt y'"
    and r: "eval_binary op x y = Inr r" "eval_binary op x' y' = Inr r'"
  shows "val_le r r'"
proof (cases "op \<in> set bool_binary_ops")
  case True
  then have xy: "x \<noteq> None \<Longrightarrow> x' = x" "y \<noteq> None \<Longrightarrow> y' = y"
    using bl le val_le_bool by blast+
  have nn: "\<not> is_True None" "\<not> is_False None" by (simp_all add: is_True_def is_False_def)
  consider "op = ''and''" | "op = ''or''" | "op = ''implies''" | "op = ''xor''"
    using True by (auto simp: bool_binary_ops_def)
  then have "r = None \<or> r' = r"
    by cases (use r xy in \<open>cases "x = None"; cases "y = None";
      simp add: eval_binary_connectives nn split: if_splits option.splits\<close>)+
  then show ?thesis by auto
next
  case False
  note E = eval_binary_other [OF False]
  show ?thesis
  proof (cases "\<exists>v w. x = Some v \<and> y = Some w")
    case True
    then obtain a b where xy: "x = Some (VScalar a)" "y = Some (VScalar b)"
      using sc by (auto simp: scalar_opt_def)
    then obtain a' b' where xy': "x' = Some (VScalar a')" "y' = Some (VScalar b')"
      using le sc by (cases x'; cases y') (auto simp: scalar_opt_def)
    have "eval_strict op (VScalar a) (VScalar b) = eval_strict op (VScalar a') (VScalar b')"
      using le xy xy' by (intro eval_strict_cong) auto
    then have "eval_binary op x y = eval_binary op x' y'" unfolding E xy xy' by simp
    then show ?thesis using r by simp
  next
    case False
    then have "r = None" using r(1) unfolding E by (auto split: option.splits)
    then show ?thesis by simp
  qed
qed

definition py_distinct :: "pyval list \<Rightarrow> bool" where
  "py_distinct xs \<longleftrightarrow> length xs = length (py_set xs)"

lemma length_py_set: "length (py_set xs) \<le> length xs"
  by (induction xs) (auto intro: order_trans [OF length_filter_le])

lemma set_py_set: "set (py_set xs) \<subseteq> set xs"
  by (induction xs) auto

lemma py_set_complete: "v \<in> set xs \<Longrightarrow> \<exists>w \<in> set (py_set xs). py_eq v w"
proof (induction xs)
  case (Cons x xs)
  show ?case
  proof (cases "py_eq x v")
    case True
    then show ?thesis by (auto simp: py_eq_sym)
  next
    case False
    then have "v \<in> set xs" using Cons.prems by auto
    then obtain w where w: "w \<in> set (py_set xs)" "py_eq v w" using Cons.IH by blast
    then have "\<not> py_eq x w" using False by (auto simp: py_eq_def)
    then show ?thesis using w by auto
  qed
qed simp

lemma py_distinct_Cons:
  "py_distinct (x # xs) \<longleftrightarrow> (\<forall>y \<in> set xs. \<not> py_eq x y) \<and> py_distinct xs"
proof
  assume d: "py_distinct (x # xs)"
  then have e: "length (filter (\<lambda>y. \<not> py_eq x y) (py_set xs)) = length (py_set xs)"
    "length xs = length (py_set xs)"
    using d length_py_set [of xs] length_filter_le [of "\<lambda>y. \<not> py_eq x y" "py_set xs"]
    by (simp_all add: py_distinct_def)
  from e(1) have "\<forall>y \<in> set (py_set xs). \<not> py_eq x y"
    by (metis filter_id_conv length_filter_less not_less_iff_gr_or_eq)
  then have "\<not> py_eq x y" if "y \<in> set xs" for y
    using py_set_complete [OF that] by (auto intro: py_eq_trans)
  then show "(\<forall>y \<in> set xs. \<not> py_eq x y) \<and> py_distinct xs" using e by (simp add: py_distinct_def)
next
  assume d: "(\<forall>y \<in> set xs. \<not> py_eq x y) \<and> py_distinct xs"
  then have "filter (\<lambda>y. \<not> py_eq x y) (py_set xs) = py_set xs"
    using set_py_set by (intro filter_True) blast
  then show "py_distinct (x # xs)" using d by (simp add: py_distinct_def)
qed

lemma known_simps [simp]:
  "known [] = []" "known (None # vs) = known vs" "known (Some v # vs) = v # known vs"
  by (simp_all add: known_def)

lemma set_known: "v \<in> set (known vs) \<longleftrightarrow> Some v \<in> set vs"
  by (force simp: known_def)

lemma py_distinct_mono:
  "list_all2 val_le vs ws \<Longrightarrow> py_distinct (known ws) \<Longrightarrow> py_distinct (known vs)"
proof (induction rule: list_all2_induct)
  case (Cons x vs y ws)
  show ?case
  proof (cases x)
    case None
    then show ?thesis using Cons by (cases y) (auto simp: py_distinct_Cons)
  next
    case (Some v)
    then obtain w where w: "y = Some w" "py_eq v w" using Cons.hyps by (cases y) auto
    have "\<not> py_eq v u" if "u \<in> set (known vs)" for u
    proof
      assume "py_eq v u"
      from that have "Some u \<in> set vs" by (simp add: set_known)
      then obtain i where i: "i < length vs" "vs ! i = Some u" by (auto simp: in_set_conv_nth)
      then have "val_le (Some u) (ws ! i)" "i < length ws"
        using Cons.hyps(2) by (auto simp: list_all2_conv_all_nth)
      then obtain u' where u': "ws ! i = Some u'" "py_eq u u'" by (cases "ws ! i") auto
      then have "u' \<in> set (known ws)" using \<open>i < length ws\<close> by (metis nth_mem set_known)
      moreover have "py_eq w u'" using w u' \<open>py_eq v u\<close> by (simp add: py_eq_def)
      ultimately show False using Cons.prems w by (simp add: py_distinct_Cons)
    qed
    then show ?thesis using Cons Some w by (simp add: py_distinct_Cons)
  qed
qed simp

lemma list_val_le_known:
  "list_all2 val_le vs ws \<Longrightarrow> None \<notin> set vs \<Longrightarrow> None \<notin> set ws \<and> list_all2 val_le ws vs"
proof (induction rule: list_all2_induct)
  case (Cons x vs y ws)
  then obtain v w where "x = Some v" "y = Some w" by (cases x; cases y) auto
  then show ?case using Cons by (auto simp: py_eq_sym)
qed simp

lemma length_known_le: "length (known vs) \<le> length vs"
  by (simp add: known_def)

lemma length_known: "length (known vs) = length vs \<longleftrightarrow> None \<notin> set vs"
proof (induction vs)
  case (Cons v vs)
  then show ?case using length_known_le [of vs] by (cases v) auto
qed simp

lemma eval_nary_mono:
  assumes le: "list_all2 val_le vs ws"
    and bl: "op \<in> {''and'', ''or''} \<Longrightarrow> (\<forall>x \<in> set vs. bool_opt x) \<and> (\<forall>x \<in> set ws. bool_opt x)"
    and r: "eval_nary op vs = Inr r" "eval_nary op ws = Inr r'"
  shows "val_le r r'"
proof -
  have step: "vs ! i = None \<or> ws ! i = vs ! i"
    if "op \<in> {''and'', ''or''}" "i < length vs" for i
  proof -
    have "val_le (vs ! i) (ws ! i)" "i < length ws"
      using le that by (auto simp: list_all2_conv_all_nth)
    then show ?thesis using bl [OF that(1)] that(2) val_le_bool by (metis nth_mem)
  qed
  have len: "length ws = length vs" using le by (simp add: list_all2_lengthD)
  have ex: "list_ex P ws" if "list_ex P vs" "\<not> P None" "op \<in> {''and'', ''or''}" for P
    using that step len by (auto simp: list_ex_length) metis+
  have all: "list_all P ws" if "list_all P vs" "\<not> P None" "op \<in> {''and'', ''or''}" for P
    using that step len by (auto simp: list_all_length) metis+
  have nn: "\<not> is_True None" "\<not> is_False None" by (simp_all add: is_True_def is_False_def)
  have excl: "\<not> (is_True x \<and> is_False x)" for x by (auto simp: is_True_def is_False_def)
  have tf: "\<not> list_ex is_False xs" if "list_all is_True xs" for xs
    using that excl by (auto simp: list_all_iff list_ex_iff)
  have ft: "\<not> list_ex is_True xs" if "list_all is_False xs" for xs
    using that excl by (auto simp: list_all_iff list_ex_iff)
  consider "op = ''and''" | "op = ''or''" | "op = ''distinct''"
    using r by (auto simp: eval_nary_def split: if_splits)
  then show ?thesis
  proof cases
    case 1
    then show ?thesis using r ex [of is_False] all [of is_True] tf nn
      by (auto simp: eval_nary_def split: if_splits)
  next
    case 2
    then show ?thesis using r ex [of is_True] all [of is_False] ft nn
      by (auto simp: eval_nary_def split: if_splits)
  next
    case 3
    have R: "r = (if \<not> py_distinct (known vs) then Some (VBool False)
        else if length (known vs) = length vs then Some (VBool True) else None)"
      "r' = (if \<not> py_distinct (known ws) then Some (VBool False)
        else if length (known ws) = length ws then Some (VBool True) else None)"
      using r 3 by (auto simp: eval_nary_def py_distinct_def split: if_splits)
    have "r' = Some (VBool False)" if "\<not> py_distinct (known vs)"
      using py_distinct_mono [OF le] that R(2) by auto
    moreover have "r' = Some (VBool True)" if "py_distinct (known vs)" "None \<notin> set vs"
      using list_val_le_known [OF le that(2)] py_distinct_mono that(1) R(2)
      by (auto simp: length_known)
    ultimately show ?thesis using R(1) by (auto simp: length_known)
  qed
qed

lemma scalar_list_cong:
  "list_all2 val_le vs ws \<Longrightarrow> None \<notin> set vs \<Longrightarrow> \<forall>x \<in> set vs. scalar_opt x \<Longrightarrow> \<forall>x \<in> set ws. scalar_opt x \<Longrightarrow>
   \<exists>as bs. map the vs = map VScalar as \<and> map the ws = map VScalar bs \<and>
     map canon_scalar as = map canon_scalar bs"
proof (induction rule: list_all2_induct)
  case (Cons x vs y ws)
  then obtain as bs where "map the vs = map VScalar as" "map the ws = map VScalar bs"
    "map canon_scalar as = map canon_scalar bs" by auto
  moreover obtain a b where "x = Some (VScalar a)" "y = Some (VScalar b)"
    using Cons.hyps(1) Cons.prems by (cases x; cases y) (auto simp: scalar_opt_def)
  ultimately show ?case using Cons.hyps(1)
    by (intro exI [of _ "a # as"] exI [of _ "b # bs"]) simp
qed simp

lemma py_eq_scalar_list:
  "list_all (\<lambda>x. py_eq x (VScalar a)) (map VScalar as) \<longleftrightarrow>
   list_all (\<lambda>c. c = canon_scalar a) (map canon_scalar as)"
  by (induction as) auto

lemma py_eq_scalar_lists:
  "map canon_scalar as = map canon_scalar bs \<Longrightarrow> canon_scalar a = canon_scalar b \<Longrightarrow>
   list_all (\<lambda>x. py_eq x (VScalar a)) (map VScalar as) = list_all (\<lambda>x. py_eq x (VScalar b)) (map VScalar bs)"
  by (simp only: py_eq_scalar_list)

lemma length_two: "length xs = 2 \<longleftrightarrow> (\<exists>x y. xs = [x, y])"
  by (auto simp: numeral_2_eq_2 length_Suc_conv)

lemma length_three: "length xs = 3 \<longleftrightarrow> (\<exists>x y z. xs = [x, y, z])"
  by (auto simp: numeral_3_eq_3 length_Suc_conv)

lemma same_block_other: "length xs \<noteq> 2 \<Longrightarrow> length xs \<noteq> 3 \<Longrightarrow> same_block xs = Inl SolverError"
  by (auto simp: same_block_def split: list.splits)

lemma default_function_cong:
  assumes g: "map_of default_functions f = Some g" and ab: "map canon_scalar as = map canon_scalar bs"
  shows "g (map VScalar as) = g (map VScalar bs)"
  using g
proof (rule default_functions_cases)
  assume "g = all_equal"
  then show ?thesis using ab by (cases as; cases bs) (auto simp: all_equal_def dest: py_eq_scalar_lists)
next
  have len: "length as = length bs" using ab map_eq_imp_length_eq by blast
  {
    assume "g = same_block"
    moreover consider "\<exists>x y. as = [x, y]" | "\<exists>x y z. as = [x, y, z]" | "length as \<noteq> 2" "length as \<noteq> 3"
      using length_two [of as] length_three [of as] by blast
    then show ?thesis
    proof cases
      case 1
      then show ?thesis using ab \<open>g = same_block\<close> by (auto simp: same_block_def map_eq_Cons_conv Cons_eq_map_conv)
    next
      case 2
      then obtain x y z x' y' z' where l: "as = [x, y, z]" "bs = [x', y', z']" and
        c: "canon_scalar x = canon_scalar x'" "canon_scalar y = canon_scalar y'"
          "canon_scalar z = canon_scalar z'" using ab by (auto simp: Cons_eq_map_conv)
      have "as_int (VScalar x) = as_int (VScalar x')" "as_int (VScalar y) = as_int (VScalar y')"
        "as_int (VScalar z) = as_int (VScalar z')" using c by (simp_all add: as_int_cong)
      moreover have "py_eq (VScalar x) (VScalar y) = py_eq (VScalar x') (VScalar y')" using c by simp
      ultimately show ?thesis
        unfolding l \<open>g = same_block\<close> same_block_def by (simp only: list.map list.case)
    next
      case 3
      then show ?thesis using len \<open>g = same_block\<close> by (simp add: same_block_other)
    qed
  }
  have two: "(case map VScalar as of [l, r] \<Rightarrow> rbind (py_int l) (\<lambda>i. rbind (py_int r) (h i)) | _ \<Rightarrow> Inl SolverError) =
      (case map VScalar bs of [l, r] \<Rightarrow> rbind (py_int l) (\<lambda>i. rbind (py_int r) (h i)) | _ \<Rightarrow> Inl SolverError)"
    for h :: "int \<Rightarrow> int \<Rightarrow> pyval res"
  proof (cases "\<exists>x y. as = [x, y]")
    case True
    then obtain x y x' y' where l: "as = [x, y]" "bs = [x', y']" and
      c: "canon_scalar x = canon_scalar x'" "canon_scalar y = canon_scalar y'"
      using ab by (auto simp: Cons_eq_map_conv)
    then show ?thesis using py_int_cong [OF c(1)] py_int_cong [OF c(2)] by simp
  next
    case False
    then have "\<forall>x y. bs \<noteq> [x, y]" using ab by (auto simp: map_eq_Cons_conv)
    then show ?thesis using False by (auto split: list.splits)
  qed
  show "g = mask_overlap \<Longrightarrow> ?thesis" using two by (simp add: mask_overlap_def)
  show "g = mask_covers \<Longrightarrow> ?thesis" using two by (simp add: mask_covers_def)
qed

lemma eval_call_mono:
  assumes le: "list_all2 val_le vs ws" and sc: "\<forall>x \<in> set vs. scalar_opt x" "\<forall>x \<in> set ws. scalar_opt x"
    and r: "eval_call default_functions f vs = Inr r" "eval_call default_functions f ws = Inr r'"
  shows "val_le r r'"
proof (cases "None \<in> set vs")
  case True
  then have "r = None" using r(1) by (auto simp: eval_call_def list_ex_iff)
  then show ?thesis by simp
next
  case False
  then have ws: "None \<notin> set ws" using list_val_le_known [OF le] by blast
  obtain as bs where ab: "map the vs = map VScalar as" "map the ws = map VScalar bs"
    "map canon_scalar as = map canon_scalar bs" using scalar_list_cong [OF le False sc] by blast
  have nex: "\<not> list_ex (\<lambda>v. v = None) vs" "\<not> list_ex (\<lambda>v. v = None) ws"
    using False ws by (auto simp: list_ex_iff)
  obtain g where g: "map_of default_functions f = Some g"
    using r(1) nex by (auto simp: eval_call_def res_simps)
  have "g (map the vs) = g (map the ws)" using default_function_cong [OF g ab(3)] ab by simp
  then have "r = r'" using r g nex by (auto simp: eval_call_def res_simps)
  then show ?thesis by simp
qed

section \<open>Monotonicity of evaluation\<close>

definition assignment_le :: "(string \<Rightarrow> pyval option) \<Rightarrow> (string \<Rightarrow> pyval option) \<Rightarrow> bool" where
  "assignment_le a b \<longleftrightarrow> (\<forall>n v. a n = Some v \<longrightarrow> b n = Some v)"

definition context_le :: "eval_context \<Rightarrow> eval_context \<Rightarrow> bool" where
  "context_le c c' \<longleftrightarrow> ctx_events c' = ctx_events c \<and> typed_context c \<and> typed_context c' \<and>
     assignment_le (ctx_assignment c) (ctx_assignment c')"

lemma eval_scalar_opt: "typed_context c \<Longrightarrow> typed c e \<Longrightarrow> eval_at n c e = Inr r \<Longrightarrow> scalar_opt r"
  using eval_at_sound [of c e n] conforms_scalar by (fastforce simp: scalar_opt_def)

lemma eval_bool_opt:
  "typed_context c \<Longrightarrow> typed c e \<Longrightarrow> expr_is_bool e \<Longrightarrow> eval_at n c e = Inr r \<Longrightarrow> bool_opt r"
  using eval_bool_value by (fastforce simp: bool_opt_def)

lemma traverse_val_le:
  assumes "traverse f xs = Inr vs" "traverse g xs = Inr ws"
    and "\<And>x r r'. x \<in> set xs \<Longrightarrow> f x = Inr r \<Longrightarrow> g x = Inr r' \<Longrightarrow> val_le r r'"
  shows "list_all2 val_le vs ws"
  using assms
proof (induction xs arbitrary: vs ws)
  case (Cons x xs)
  obtain v vs' w ws' where "f x = Inr v" "traverse f xs = Inr vs'" "vs = v # vs'"
    "g x = Inr w" "traverse g xs = Inr ws'" "ws = w # ws'"
    using Cons.prems(1,2) by (auto simp: res_simps)
  moreover have "list_all2 val_le vs' ws'"
    by (rule Cons.IH) (use calculation Cons.prems(3) in auto)
  moreover have "val_le v w" by (rule Cons.prems(3) [of x]) (use calculation in auto)
  ultimately show ?case by simp
qed simp

lemma join_known_le: "val_le (join_known x y) x" "val_le (join_known x y) y"
  by (simp_all add: join_known_def py_eq_sym split: option.split)

lemma join_known_mono: "val_le x x' \<Longrightarrow> val_le y y' \<Longrightarrow> val_le (join_known x y) (join_known x' y')"
  by (cases x; cases y; cases x'; cases y') (auto simp: join_known_def py_eq_def)

lemma binary_ok_bool:
  "binary_ok op a b \<Longrightarrow> op \<in> set bool_binary_ops \<Longrightarrow> expr_is_bool a \<and> expr_is_bool b"
  by (auto simp: binary_ok_def)

lemma nary_ok_bool:
  "nary_ok op as \<Longrightarrow> op \<in> {''and'', ''or''} \<Longrightarrow> a \<in> set as \<Longrightarrow> expr_is_bool a"
  by (cases as) (auto simp: nary_ok_def list_all_iff split: if_splits)

lemma eval_at_mono:
  "context_le c c' \<Longrightarrow> typed c e \<Longrightarrow> typed c' e \<Longrightarrow> eval_at n c e = Inr r \<Longrightarrow> eval_at n c' e = Inr r' \<Longrightarrow>
   val_le r r'"
proof (induction n c e arbitrary: r r' rule: eval_at.induct)
  case (2 n c name s)
  then show ?case by (cases "ctx_assignment c name") (auto simp: context_le_def assignment_le_def)
next
  case (3 n c i f s)
  then obtain ev where ev: "map_of (ctx_events c) i = Some ev"
    "event_attribute c i f = Inr (stored_attribute ev f)" using event_field_cases by blast
  have ev': "map_of (ctx_events c') i = Some ev" "event_attribute c' i f = Inr (stored_attribute ev f)"
    using ev "3.prems"(1) by (simp_all add: context_le_def event_attribute_def)
  have tc: "typed_context c" "typed_context c'" using "3.prems"(1) by (simp_all add: context_le_def)
  show ?case
  proof (cases "\<exists>x. stored_attribute ev f = Some (VExpr x)")
    case True
    then obtain x where x: "stored_attribute ev f = Some (VExpr x)" ..
    then obtain m where n: "n = Suc m" using "3.prems"(4) ev by (cases n) auto
    show ?thesis
      by (rule "3.IH" [OF ev(2) x refl n "3.prems"(1) stored_expr_typed [OF tc(1) ev(1) x]
            stored_expr_typed [OF tc(2) ev'(1) x]])
        (use "3.prems"(4,5) ev ev' x n in simp_all)
  next
    case False
    then have "r = r'" using "3.prems"(4,5) ev ev' by (auto split: option.splits pyval.splits)
    then show ?thesis by simp
  qed
next
  case (4 n c op a)
  obtain x x' where x: "eval_at n c a = Inr x" "eval_at n c' a = Inr x'"
    using "4.prems"(4,5) by (auto simp: res_simps)
  have "val_le x x'" using 4 x by (simp add: typed_simps)
  moreover have "scalar_opt x" "scalar_opt x'"
    using "4.prems"(1-3) x eval_scalar_opt by (auto simp: context_le_def typed_simps)
  ultimately consider "x = None"
    | p q where "x = Some (VScalar p)" "x' = Some (VScalar q)" "canon_scalar p = canon_scalar q"
    by (cases x; cases x') (auto simp: scalar_opt_def)
  then show ?case
  proof cases
    case (2 p q)
    then show ?thesis using "4.prems"(4,5) x eval_unary_cong [OF 2(3), of op] by simp
  qed (use "4.prems"(4) x in simp)
next
  case (5 n c op a b)
  obtain x y x' y' where x: "eval_at n c a = Inr x" "eval_at n c' a = Inr x'"
    and y: "eval_at n c b = Inr y" "eval_at n c' b = Inr y'"
    and r: "eval_binary op x y = Inr r" "eval_binary op x' y' = Inr r'"
    using "5.prems"(4,5) by (auto simp: res_simps)
  have le: "val_le x x'" "val_le y y'" using 5 x y by (simp_all add: typed_simps)
  have ty: "typed_context c" "typed_context c'" "typed c a" "typed c' a" "typed c b" "typed c' b"
    using "5.prems"(1-3) by (simp_all add: context_le_def typed_simps)
  have bl: "bool_opt x \<and> bool_opt x' \<and> bool_opt y \<and> bool_opt y'" if "op \<in> set bool_binary_ops"
    using binary_ok_bool [OF _ that, of a b] "5.prems"(2) ty x y eval_bool_opt
    by (auto simp: typed_simps)
  show ?case using eval_binary_mono [OF le _ _ _ _ bl r] ty x y eval_scalar_opt by blast
next
  case (6 n c op as)
  obtain vs ws where v: "traverse (eval_at n c) as = Inr vs" "traverse (eval_at n c') as = Inr ws"
    and r: "eval_nary op vs = Inr r" "eval_nary op ws = Inr r'"
    using "6.prems"(4,5) by (auto simp: res_simps)
  have le: "list_all2 val_le vs ws"
    by (rule traverse_val_le [OF v]) (use 6 in \<open>auto simp: typed_simps\<close>)
  have bl: "(\<forall>x \<in> set vs. bool_opt x) \<and> (\<forall>x \<in> set ws. bool_opt x)" if "op \<in> {''and'', ''or''}"
    using nary_ok_bool [OF _ that, of as] "6.prems"(1-3) eval_bool_opt
    by (auto simp: typed_simps context_le_def dest!: traverse_Inr_imageD [OF v(1)] traverse_Inr_imageD [OF v(2)])
  show ?case by (rule eval_nary_mono [OF le bl r])
next
  case (7 n c g a b)
  obtain v v' where v: "eval_at n c g = Inr v" "eval_at n c' g = Inr v'"
    using "7.prems"(4,5) by (auto simp: res_simps)
  have tc: "typed_context c" "typed_context c'" using "7.prems"(1) by (simp_all add: context_le_def)
  have ty: "typed c g" "typed c a" "typed c b" "typed c' g" "typed c' a" "typed c' b"
    "expr_is_bool g" using "7.prems"(2,3) by (auto simp: typed_simps ite_ok_def)
  have lg: "val_le v v'" using "7.IH"(1) "7.prems"(1) ty v by blast
  have bo: "bool_opt v" "bool_opt v'" using eval_bool_opt tc ty v by blast+
  then have vv: "v = None \<or> v' = v" using val_le_bool lg by blast
  note excl = is_True_def is_False_def
  consider "is_True v" | "\<not> is_True v" "is_False v" | "\<not> is_True v" "\<not> is_False v" by blast
  then show ?case
  proof cases
    case 1
    then have "v' = v" using vv by (auto simp: excl)
    then show ?thesis using 1 "7.IH"(2) [OF v(1) 1 "7.prems"(1) ty(2,5)] "7.prems"(4,5) v by simp
  next
    case 2
    then have "v' = v" using vv by (auto simp: excl)
    then show ?thesis using 2 "7.IH"(3) [OF v(1) 2 "7.prems"(1) ty(3,6)] "7.prems"(4,5) v by simp
  next
    case 3
    obtain x y where x: "eval_at n c a = Inr x" and y: "eval_at n c b = Inr y"
      and r: "r = join_known x y" using "7.prems"(4) v 3 by (auto simp: res_simps)
    have A: "val_le x x'" if "eval_at n c' a = Inr x'" for x'
      by (rule "7.IH"(4) [OF v(1) 3 "7.prems"(1) ty(2,5) x that])
    have B: "val_le y y'" if "eval_at n c' b = Inr y'" for y'
      by (rule "7.IH"(5) [OF v(1) 3 x "7.prems"(1) ty(3,6) y that])
    consider "is_True v'" | "\<not> is_True v'" "is_False v'" | "\<not> is_True v'" "\<not> is_False v'" by blast
    then show ?thesis
    proof cases
      case 1
      then have "val_le x r'" using A "7.prems"(5) v by simp
      then show ?thesis unfolding r using join_known_le(1) val_le_trans by blast
    next
      case 2
      then have "val_le y r'" using B "7.prems"(5) v by simp
      then show ?thesis unfolding r using join_known_le(2) val_le_trans by blast
    next
      case 3
      then obtain x' y' where "eval_at n c' a = Inr x'" "eval_at n c' b = Inr y'" "r' = join_known x' y'"
        using "7.prems"(5) v by (auto simp: res_simps)
      then show ?thesis unfolding r using A B join_known_mono by simp
    qed
  qed
next
  case (8 n c f as s)
  have fn: "ctx_functions c = default_functions" "ctx_functions c' = default_functions"
    using "8.prems"(1) by (auto simp: context_le_def typed_context_def)
  obtain vs ws where v: "traverse (eval_at n c) as = Inr vs" "traverse (eval_at n c') as = Inr ws"
    and r: "eval_call default_functions f vs = Inr r" "eval_call default_functions f ws = Inr r'"
    using "8.prems"(4,5) fn by (auto simp: res_simps)
  have le: "list_all2 val_le vs ws"
    by (rule traverse_val_le [OF v]) (use 8 in \<open>auto simp: typed_simps\<close>)
  have "\<forall>x \<in> set vs. scalar_opt x" "\<forall>x \<in> set ws. scalar_opt x"
    using "8.prems"(1-3) eval_scalar_opt
    by (auto simp: typed_simps context_le_def dest!: traverse_Inr_imageD [OF v(1)] traverse_Inr_imageD [OF v(2)])
  then show ?case by (rule eval_call_mono [OF le _ _ r])
qed simp_all

text \<open>A boolean that is decided under a partial assignment keeps its value.\<close>

lemma eval_bool_stable:
  assumes "context_le c c'" "typed c e" "typed c' e" "expr_is_bool e"
    and "eval_at n c e = Inr (Some v)" "eval_at n c' e = Inr r"
  shows "r = Some v"
proof -
  have "val_le (Some v) r" by (rule eval_at_mono [OF assms(1-3,5,6)])
  moreover have "bool_opt (Some v)" "bool_opt r"
    using assms eval_bool_opt unfolding context_le_def by blast+
  ultimately show ?thesis using val_le_bool by blast
qed

end
