(* ===== verification/GraphModel.thy ===== *)
theory GraphModel
  imports SortIR
begin

text \<open>
  \<open>src/src/umcm/graph/model.py\<close>: the loadable description of a graph model (which events project
  to which operations, the hints, the derived relations and the axioms), with the checks of each
  constructor and the serialisation of each class. Every class is an instance of the \<open>codec\<close>
  contract: what is written out is read back unchanged, and what is read satisfies the checks.
\<close>

section \<open>Hints\<close>

record rf_hint =
  rh_event :: string
  rh_read :: string
  rh_write :: string
  rh_address :: string
  rh_value :: string

definition rf_hint_from_dict :: "pyval \<Rightarrow> rf_hint res" where
  "rf_hint_from_dict v = with_map v (\<lambda>d.
     rbind (known_keys d [''event_type'', ''read_id_field'', ''write_id_field'', ''address_field'', ''value_field'']) (\<lambda>_.
     rbind (get_key d ''event_type'' SerializationError) (\<lambda>e.
       Inr \<lparr>rh_event = py_str e, rh_read = str_default d ''read_id_field'' ''op_id'',
         rh_write = str_default d ''write_id_field'' ''source_op_id'',
         rh_address = str_default d ''address_field'' ''address'',
         rh_value = str_default d ''value_field'' ''value''\<rparr>)))"

definition rf_hint_to_dict :: "rf_hint \<Rightarrow> pyval" where
  "rf_hint_to_dict h = VMap [(''event_type'', VStr (rh_event h)), (''read_id_field'', VStr (rh_read h)),
     (''write_id_field'', VStr (rh_write h)), (''address_field'', VStr (rh_address h)),
     (''value_field'', VStr (rh_value h))]"

record co_hint =
  ch_event :: string
  ch_before :: string
  ch_after :: string
  ch_address :: string

definition co_hint_from_dict :: "pyval \<Rightarrow> co_hint res" where
  "co_hint_from_dict v = with_map v (\<lambda>d.
     rbind (known_keys d [''event_type'', ''before_write_id_field'', ''after_write_id_field'', ''address_field'']) (\<lambda>_.
     rbind (get_key d ''event_type'' SerializationError) (\<lambda>e.
       Inr \<lparr>ch_event = py_str e, ch_before = str_default d ''before_write_id_field'' ''before_write_id'',
         ch_after = str_default d ''after_write_id_field'' ''after_write_id'',
         ch_address = str_default d ''address_field'' ''address''\<rparr>)))"

definition co_hint_to_dict :: "co_hint \<Rightarrow> pyval" where
  "co_hint_to_dict h = VMap [(''event_type'', VStr (ch_event h)),
     (''before_write_id_field'', VStr (ch_before h)), (''after_write_id_field'', VStr (ch_after h)),
     (''address_field'', VStr (ch_address h))]"

record relation_hint =
  lh_name :: string
  lh_event :: string
  lh_source :: string
  lh_target :: string

definition reserved_relation :: "string \<Rightarrow> bool" where
  "reserved_relation n \<longleftrightarrow>
     n \<in> {''po'', ''rf'', ''rfi'', ''rfe'', ''co'', ''fr'', ''fri'', ''fre'', ''ppo'', ''gmo''} \<or>
     take 8 n = ''ppo_rule''"

definition mk_relation_hint :: "relation_hint \<Rightarrow> relation_hint res" where
  "mk_relation_hint h =
     rbind (require (lh_name h \<noteq> []) AxiomError) (\<lambda>_.
     rbind (require (\<not> reserved_relation (lh_name h)) AxiomError) (\<lambda>_. Inr h))"

definition wf_relation_hint :: "relation_hint \<Rightarrow> bool" where
  "wf_relation_hint h \<longleftrightarrow> mk_relation_hint h = Inr h"

definition relation_hint_from_dict :: "pyval \<Rightarrow> relation_hint res" where
  "relation_hint_from_dict v = with_map v (\<lambda>d.
     rbind (known_keys d [''name'', ''event_type'', ''source_id_field'', ''target_id_field'']) (\<lambda>_.
     rbind (get_key d ''name'' SerializationError) (\<lambda>n.
     rbind (get_key d ''event_type'' SerializationError) (\<lambda>e.
       mk_relation_hint \<lparr>lh_name = py_str n, lh_event = py_str e,
         lh_source = str_default d ''source_id_field'' ''source_op_id'',
         lh_target = str_default d ''target_id_field'' ''target_op_id''\<rparr>))))"

definition relation_hint_to_dict :: "relation_hint \<Rightarrow> pyval" where
  "relation_hint_to_dict h = VMap [(''name'', VStr (lh_name h)), (''event_type'', VStr (lh_event h)),
     (''source_id_field'', VStr (lh_source h)), (''target_id_field'', VStr (lh_target h))]"

section \<open>Projection\<close>

record projection_spec =
  pj_init :: string
  pj_load :: string
  pj_store :: string
  pj_commit :: string
  pj_id :: string
  pj_address :: string
  pj_value :: string
  pj_hart :: string
  pj_index :: string
  pj_require_committed :: bool
  pj_amo :: "string option"
  pj_lr :: "string option"
  pj_sc :: "string option"
  pj_write_value :: string
  pj_metadata :: "(string \<times> string) list"
  pj_rf_hints :: "rf_hint list"
  pj_co_hints :: "co_hint list"
  pj_relation_hints :: "relation_hint list"

definition PROJECTION_KEYS :: "string list" where
  "PROJECTION_KEYS = [''init_write_event'', ''load_event'', ''store_event'', ''load_commit_event'',
     ''id_field'', ''address_field'', ''value_field'', ''hart_field'', ''program_index_field'',
     ''require_committed_loads'', ''amo_event'', ''lr_event'', ''sc_event'', ''write_value_field'',
     ''metadata_fields'', ''rf_hints'', ''co_hints'', ''relation_hints'']"

definition projection_from_dict :: "pyval \<Rightarrow> projection_spec res" where
  "projection_from_dict v = with_map v (\<lambda>d.
     rbind (known_keys d PROJECTION_KEYS) (\<lambda>_.
     rbind (list_field d ''rf_hints'' []) (\<lambda>rfs.
     rbind (list_field d ''co_hints'' []) (\<lambda>cos.
     rbind (list_field d ''relation_hints'' []) (\<lambda>rels.
     rbind (map_field d ''metadata_fields'') (\<lambda>md.
     rbind (get_key d ''init_write_event'' SerializationError) (\<lambda>i.
     rbind (get_key d ''load_event'' SerializationError) (\<lambda>l.
     rbind (get_key d ''store_event'' SerializationError) (\<lambda>s.
     rbind (get_key d ''load_commit_event'' SerializationError) (\<lambda>c.
     rbind (traverse rf_hint_from_dict rfs) (\<lambda>rf_hints.
     rbind (traverse co_hint_from_dict cos) (\<lambda>co_hints.
     rbind (traverse relation_hint_from_dict rels) (\<lambda>rel_hints.
       Inr \<lparr>pj_init = py_str i, pj_load = py_str l, pj_store = py_str s, pj_commit = py_str c,
         pj_id = str_default d ''id_field'' ''op_id'',
         pj_address = str_default d ''address_field'' ''address'',
         pj_value = str_default d ''value_field'' ''value'',
         pj_hart = str_default d ''hart_field'' ''hart'',
         pj_index = str_default d ''program_index_field'' ''program_index'',
         pj_require_committed = truthy (get_default d ''require_committed_loads'' (VBool True)),
         pj_amo = str_option d ''amo_event'', pj_lr = str_option d ''lr_event'',
         pj_sc = str_option d ''sc_event'',
         pj_write_value = str_default d ''write_value_field'' ''write_value'',
         pj_metadata = map (\<lambda>(k, x). (k, py_str x)) md,
         pj_rf_hints = rf_hints, pj_co_hints = co_hints, pj_relation_hints = rel_hints\<rparr>)))))))))))))"

definition option_value :: "string option \<Rightarrow> pyval" where
  "option_value s = (case s of None \<Rightarrow> VNone | Some x \<Rightarrow> VStr x)"

definition projection_to_dict :: "projection_spec \<Rightarrow> pyval" where
  "projection_to_dict p = VMap [(''init_write_event'', VStr (pj_init p)), (''load_event'', VStr (pj_load p)),
     (''store_event'', VStr (pj_store p)), (''load_commit_event'', VStr (pj_commit p)),
     (''id_field'', VStr (pj_id p)), (''address_field'', VStr (pj_address p)),
     (''value_field'', VStr (pj_value p)), (''hart_field'', VStr (pj_hart p)),
     (''program_index_field'', VStr (pj_index p)),
     (''require_committed_loads'', VBool (pj_require_committed p)),
     (''amo_event'', option_value (pj_amo p)), (''lr_event'', option_value (pj_lr p)),
     (''sc_event'', option_value (pj_sc p)), (''write_value_field'', VStr (pj_write_value p)),
     (''metadata_fields'', VMap (map (\<lambda>(k, x). (k, VStr x)) (pj_metadata p))),
     (''rf_hints'', VList (map rf_hint_to_dict (pj_rf_hints p))),
     (''co_hints'', VList (map co_hint_to_dict (pj_co_hints p))),
     (''relation_hints'', VList (map relation_hint_to_dict (pj_relation_hints p)))]"

definition wf_projection :: "projection_spec \<Rightarrow> bool" where
  "wf_projection p \<longleftrightarrow> (\<forall>h \<in> set (pj_relation_hints p). wf_relation_hint h)"

section \<open>Derived relations and axioms\<close>

record derived_spec =
  dv_name :: string
  dv_op :: string
  dv_relations :: "string list"

definition mk_derived :: "derived_spec \<Rightarrow> derived_spec res" where
  "mk_derived s =
     (let arity = length (dv_relations s) in
      rbind (require (dv_name s \<noteq> []) AxiomError) (\<lambda>_.
      rbind (require (dv_op s \<in> {''union'', ''intersection'', ''difference'', ''inverse'', ''compose'',
        ''transitive_closure''}) AxiomError) (\<lambda>_.
      rbind (require (dv_op s \<in> {''inverse'', ''transitive_closure''} \<longrightarrow> arity = 1) AxiomError) (\<lambda>_.
      rbind (require (dv_op s \<in> {''intersection'', ''difference'', ''compose''} \<longrightarrow> arity = 2) AxiomError) (\<lambda>_.
      rbind (require (dv_op s = ''union'' \<longrightarrow> 1 \<le> arity) AxiomError) (\<lambda>_. Inr s))))))"

definition wf_derived :: "derived_spec \<Rightarrow> bool" where
  "wf_derived s \<longleftrightarrow> mk_derived s = Inr s"

definition derived_from_dict :: "pyval \<Rightarrow> derived_spec res" where
  "derived_from_dict v = with_map v (\<lambda>d.
     rbind (known_keys d [''name'', ''op'', ''relations'']) (\<lambda>_.
     rbind (list_field d ''relations'' []) (\<lambda>rels.
     rbind (get_key d ''name'' SerializationError) (\<lambda>n.
     rbind (get_key d ''op'' SerializationError) (\<lambda>op.
       mk_derived \<lparr>dv_name = py_str n, dv_op = py_str op, dv_relations = map py_str rels\<rparr>)))))"

definition derived_to_dict :: "derived_spec \<Rightarrow> pyval" where
  "derived_to_dict s = VMap [(''name'', VStr (dv_name s)), (''op'', VStr (dv_op s)),
     (''relations'', VList (map VStr (dv_relations s)))]"

record axiom_spec =
  ax_name :: string
  ax_kind :: string
  ax_relations :: "string list"
  ax_description :: string

definition mk_axiom :: "axiom_spec \<Rightarrow> axiom_spec res" where
  "mk_axiom a =
     rbind (require (ax_name a \<noteq> []) AxiomError) (\<lambda>_.
     rbind (require (ax_kind a \<in> {''acyclic'', ''irreflexive'', ''empty''}) AxiomError) (\<lambda>_.
     rbind (require (ax_relations a \<noteq> []) AxiomError) (\<lambda>_. Inr a)))"

definition wf_axiom :: "axiom_spec \<Rightarrow> bool" where
  "wf_axiom a \<longleftrightarrow> mk_axiom a = Inr a"

definition axiom_from_dict :: "pyval \<Rightarrow> axiom_spec res" where
  "axiom_from_dict v = with_map v (\<lambda>d.
     rbind (known_keys d [''name'', ''kind'', ''relations'', ''description'']) (\<lambda>_.
     rbind (list_field d ''relations'' []) (\<lambda>rels.
     rbind (get_key d ''name'' SerializationError) (\<lambda>n.
     rbind (get_key d ''kind'' SerializationError) (\<lambda>k.
       mk_axiom \<lparr>ax_name = py_str n, ax_kind = py_str k, ax_relations = map py_str rels,
         ax_description = str_default d ''description'' []\<rparr>)))))"

definition axiom_to_dict :: "axiom_spec \<Rightarrow> pyval" where
  "axiom_to_dict a = VMap ([(''name'', VStr (ax_name a)), (''kind'', VStr (ax_kind a)),
     (''relations'', VList (map VStr (ax_relations a)))]
     @ (if ax_description a = [] then [] else [(''description'', VStr (ax_description a))]))"

section \<open>The model\<close>

record graph_model =
  gm_model :: string
  gm_projection :: projection_spec
  gm_derived :: "derived_spec list"
  gm_axioms :: "axiom_spec list"
  gm_builtin :: "string option"
  gm_ppo_rules :: "string list"
  gm_metadata :: "(string \<times> pyval) list"
  gm_version :: string

definition GRAPH_MODEL_SCHEMA_VERSION :: string where
  "GRAPH_MODEL_SCHEMA_VERSION = ''umcm.graph_model.v0.3''"

definition mk_graph_model :: "graph_model \<Rightarrow> graph_model res" where
  "mk_graph_model m =
     rbind (require (gm_model m \<noteq> []) AxiomError) (\<lambda>_.
     rbind (require (gm_builtin m \<in> {None, Some ''rvwmo''}) AxiomError) (\<lambda>_.
     rbind (require (set (gm_ppo_rules m) \<subseteq> {''load_load_different_write''}) AxiomError) (\<lambda>_.
     rbind (require (distinct (map dv_name (gm_derived m))) AxiomError) (\<lambda>_.
     rbind (require (distinct (map ax_name (gm_axioms m))) AxiomError) (\<lambda>_. Inr m)))))"

definition wf_graph_model :: "graph_model \<Rightarrow> bool" where
  "wf_graph_model m \<longleftrightarrow> mk_graph_model m = Inr m \<and> wf_projection (gm_projection m) \<and>
     (\<forall>s \<in> set (gm_derived m). wf_derived s) \<and> (\<forall>a \<in> set (gm_axioms m). wf_axiom a)"

definition graph_model_from_dict :: "pyval \<Rightarrow> graph_model res" where
  "graph_model_from_dict v = with_map v (\<lambda>d.
     rbind (known_keys d [''schema_version'', ''model'', ''metadata'', ''projection'', ''builtin_model'',
       ''ppo_rules'', ''derived_relations'', ''axioms'']) (\<lambda>_.
     rbind (list_field d ''derived_relations'' []) (\<lambda>ders.
     rbind (list_field d ''axioms'' []) (\<lambda>axs.
     rbind (list_field d ''ppo_rules'' [VStr ''load_load_different_write'']) (\<lambda>ppo.
     rbind (map_field d ''metadata'') (\<lambda>md.
     rbind (get_key d ''model'' SerializationError) (\<lambda>m.
     rbind (get_key d ''projection'' SerializationError) (\<lambda>p.
     rbind (projection_from_dict p) (\<lambda>proj.
     rbind (traverse derived_from_dict ders) (\<lambda>derived.
     rbind (traverse axiom_from_dict axs) (\<lambda>axioms.
       mk_graph_model \<lparr>gm_model = py_str m, gm_projection = proj, gm_derived = derived,
         gm_axioms = axioms, gm_builtin = str_option d ''builtin_model'',
         gm_ppo_rules = map py_str ppo, gm_metadata = md,
         gm_version = str_default d ''schema_version'' GRAPH_MODEL_SCHEMA_VERSION\<rparr>)))))))))))"

definition graph_model_to_dict :: "graph_model \<Rightarrow> pyval" where
  "graph_model_to_dict m = VMap [(''schema_version'', VStr (gm_version m)), (''model'', VStr (gm_model m)),
     (''metadata'', VMap (gm_metadata m)), (''projection'', projection_to_dict (gm_projection m)),
     (''builtin_model'', option_value (gm_builtin m)),
     (''ppo_rules'', VList (map VStr (gm_ppo_rules m))),
     (''derived_relations'', VList (map derived_to_dict (gm_derived m))),
     (''axioms'', VList (map axiom_to_dict (gm_axioms m)))]"

section \<open>Round trips\<close>

lemma option_value_simps [simp]:
  "(case option_value s of VScalar SNone \<Rightarrow> None | v \<Rightarrow> Some (py_str v)) = s"
  by (cases s) (simp_all add: option_value_def)

lemma mk_relation_hint_Inr [res_simps]: "mk_relation_hint h = Inr h' \<longleftrightarrow> h' = h \<and> wf_relation_hint h"
  by (auto simp: wf_relation_hint_def mk_relation_hint_def res_simps)

lemma mk_derived_Inr [res_simps]: "mk_derived s = Inr s' \<longleftrightarrow> s' = s \<and> wf_derived s"
  unfolding wf_derived_def mk_derived_def Let_def rbind_Inr_iff require_Inr_iff by blast

lemma mk_axiom_Inr [res_simps]: "mk_axiom a = Inr a' \<longleftrightarrow> a' = a \<and> wf_axiom a"
  by (auto simp: wf_axiom_def mk_axiom_def res_simps)

lemma mk_graph_model_Inr [res_simps]: "mk_graph_model m = Inr m' \<longleftrightarrow> m' = m \<and> mk_graph_model m = Inr m"
  by (auto simp: mk_graph_model_def res_simps)

interpretation rf_hint_codec: codec rf_hint_to_dict rf_hint_from_dict "\<lambda>_. True"
  by unfold_locales (simp_all add: rf_hint_to_dict_def rf_hint_from_dict_def known_keys_ok field_defs)

interpretation co_hint_codec: codec co_hint_to_dict co_hint_from_dict "\<lambda>_. True"
  by unfold_locales (simp_all add: co_hint_to_dict_def co_hint_from_dict_def known_keys_ok field_defs)

lemma relation_hint_dec_enc: "wf_relation_hint h \<Longrightarrow> relation_hint_from_dict (relation_hint_to_dict h) = Inr h"
  by (cases h) (simp add: relation_hint_to_dict_def relation_hint_from_dict_def known_keys_ok field_defs
      mk_relation_hint_Inr)

lemma relation_hint_dec_wf: "relation_hint_from_dict v = Inr x \<Longrightarrow> wf_relation_hint x"
  by (auto simp: relation_hint_from_dict_def res_simps)

interpretation relation_hint_codec: codec relation_hint_to_dict relation_hint_from_dict wf_relation_hint
  by unfold_locales (rule relation_hint_dec_enc, assumption, rule relation_hint_dec_wf)

lemma derived_dec_enc: "wf_derived s \<Longrightarrow> derived_from_dict (derived_to_dict s) = Inr s"
  by (cases s) (simp add: derived_to_dict_def derived_from_dict_def known_keys_ok field_defs mk_derived_Inr)

lemma derived_dec_wf: "derived_from_dict v = Inr x \<Longrightarrow> wf_derived x"
  by (auto simp: derived_from_dict_def res_simps)

interpretation derived_codec: codec derived_to_dict derived_from_dict wf_derived
  by unfold_locales (rule derived_dec_enc, assumption, rule derived_dec_wf)

lemma axiom_dec_enc: "wf_axiom a \<Longrightarrow> axiom_from_dict (axiom_to_dict a) = Inr a"
  by (cases a) (auto simp: axiom_to_dict_def axiom_from_dict_def known_keys_ok field_defs mk_axiom_Inr)

lemma axiom_dec_wf: "axiom_from_dict v = Inr x \<Longrightarrow> wf_axiom x"
  by (auto simp: axiom_from_dict_def res_simps)

interpretation axiom_codec: codec axiom_to_dict axiom_from_dict wf_axiom
  by unfold_locales (rule axiom_dec_enc, assumption, rule axiom_dec_wf)

lemma projection_dec_wf: "projection_from_dict v = Inr p \<Longrightarrow> wf_projection p"
  by (auto simp: projection_from_dict_def wf_projection_def with_map_Inr rbind_Inr_iff
      dest: relation_hint_codec.traverse_wf)

lemma projection_dec_enc: "wf_projection p \<Longrightarrow> projection_from_dict (projection_to_dict p) = Inr p"
  unfolding projection_from_dict_def projection_to_dict_def with_map_VMap wf_projection_def
  by (subst known_keys_ok)
    (simp_all add: PROJECTION_KEYS_def field_defs rf_hint_codec.traverse_enc co_hint_codec.traverse_enc
      relation_hint_codec.traverse_enc del: map_map)

interpretation projection_codec: codec projection_to_dict projection_from_dict wf_projection
  by unfold_locales (auto simp: projection_dec_enc dest: projection_dec_wf)

lemma wf_graph_modelI:
  "mk_graph_model c = Inr m \<Longrightarrow> wf_projection (gm_projection c) \<Longrightarrow> \<forall>s \<in> set (gm_derived c). wf_derived s \<Longrightarrow>
   \<forall>a \<in> set (gm_axioms c). wf_axiom a \<Longrightarrow> wf_graph_model m"
  using mk_graph_model_Inr [of c m] by (auto simp: wf_graph_model_def)

lemma graph_model_dec_wf: "graph_model_from_dict v = Inr m \<Longrightarrow> wf_graph_model m"
  unfolding graph_model_from_dict_def with_map_Inr rbind_Inr_iff
  by (elim exE conjE, rule wf_graph_modelI, assumption; simp only: graph_model.select_convs)
    (erule projection_dec_wf derived_codec.traverse_wf axiom_codec.traverse_wf)+

lemma graph_model_dec_enc: "wf_graph_model m \<Longrightarrow> graph_model_from_dict (graph_model_to_dict m) = Inr m"
  unfolding graph_model_from_dict_def graph_model_to_dict_def with_map_VMap wf_graph_model_def
  by (cases m, subst known_keys_ok)
    (simp_all add: field_defs derived_codec.traverse_enc axiom_codec.traverse_enc projection_dec_enc)

interpretation graph_model_codec: codec graph_model_to_dict graph_model_from_dict wf_graph_model
  by unfold_locales (auto simp: graph_model_dec_enc dest: graph_model_dec_wf)

end
