(* ===== verification/TraceIR.thy ===== *)
theory TraceIR
  imports Evaluator
begin

text \<open>
  \<open>src/src/umcm/ir/trace.py\<close>: partial traces, their structural check, validation against a
  catalog, lookup, observations and serialisation. The main lemma: in a validated trace every event
  field that a constraint reads exists and holds a value of the sort the reference declares, which
  is what the evaluator's soundness asks of a context.
\<close>

section \<open>Construction\<close>

record trace =
  tr_events :: "event_instance list"
  tr_constraints :: "expr list"
  tr_partial :: bool
  tr_metadata :: "(string \<times> pyval) list"
  tr_version :: string

definition TRACE_SCHEMA_VERSION :: string where
  "TRACE_SCHEMA_VERSION = ''umcm.trace.v0.1''"

definition validate_structure :: "trace \<Rightarrow> unit res" where
  "validate_structure t =
     rbind (require (distinct (map ei_id (tr_events t))) TraceValidationError) (\<lambda>_.
       require (list_all expr_is_bool (tr_constraints t)) TraceValidationError)"

definition mk_trace :: "trace \<Rightarrow> trace res" where
  "mk_trace t = rbind (validate_structure t) (\<lambda>_. Inr t)"

definition event_map :: "trace \<Rightarrow> (string \<times> event_instance) list" where
  "event_map t = dict_of (map (\<lambda>e. (ei_id e, e)) (tr_events t))"

section \<open>Validation\<close>

text \<open>The sort a reference to an attribute of an event must have.\<close>

definition expected_sort :: "event_catalog \<Rightarrow> event_instance \<Rightarrow> string \<Rightarrow> pysort res" where
  "expected_sort c ev f =
     (if f = ''cycle'' then Inr INT_SORT
      else if f = ''occurs'' then Inr BOOL_SORT
      else rbind (resolve c (ei_type ev)) (\<lambda>t.
           rbind (get_spec t f TraceValidationError) (\<lambda>s. Inr (fs_sort s))))"

definition check_reference :: "event_catalog \<Rightarrow> (string \<times> event_instance) list \<Rightarrow>
    string \<times> string \<times> pysort \<Rightarrow> unit res" where
  "check_reference c evs r =
     (case r of (e, f, s) \<Rightarrow>
        rbind (or_raise (map_of evs e) TraceValidationError) (\<lambda>ev.
        rbind (expected_sort c ev f) (\<lambda>expected.
          require (compatible_with s expected) TraceValidationError)))"

definition validate_trace :: "event_catalog \<Rightarrow> bool option \<Rightarrow> trace \<Rightarrow> unit res" where
  "validate_trace c partial t =
     rbind (validate_structure t) (\<lambda>_.
     rbind (validate_events c (case partial of None \<Rightarrow> tr_partial t | Some p \<Rightarrow> p) (tr_events t)) (\<lambda>_.
     rbind (traverse (\<lambda>e. traverse (check_reference c (event_map t)) (iter_event_fields e)) (tr_constraints t)) (\<lambda>_.
       Inr ())))"

section \<open>Access\<close>

definition get_event :: "trace \<Rightarrow> string \<Rightarrow> event_instance res" where
  "get_event t i = or_raise (find (\<lambda>e. ei_id e = i) (tr_events t)) TraceValidationError"

definition events_of_type :: "trace \<Rightarrow> string \<Rightarrow> event_instance list" where
  "events_of_type t ty = filter (\<lambda>e. ei_type e = ty) (tr_events t)"

record observation =
  ob_event :: string
  ob_path :: string
  ob_value :: pyval

definition observe_event :: "event_instance \<Rightarrow> observation list" where
  "observe_event e =
     [\<lparr>ob_event = ei_id e, ob_path = ''occurs'', ob_value = ei_occurs e\<rparr>]
     @ (if ei_cycle e = VNone then []
        else [\<lparr>ob_event = ei_id e, ob_path = ''cycle'', ob_value = ei_cycle e\<rparr>])
     @ map (\<lambda>(n, v). \<lparr>ob_event = ei_id e, ob_path = ''fields.'' @ n, ob_value = v\<rparr>)
         (sort_key fst (ei_fields e))"

definition observations :: "trace \<Rightarrow> observation list" where
  "observations t = concat (map observe_event (tr_events t))"

fun event_references :: "expr \<Rightarrow> string set" where
  "event_references (EventField e f s) = {e}"
| "event_references (Unary op a) = event_references a"
| "event_references (Binary op a b) = event_references a \<union> event_references b"
| "event_references (Nary op as) = (\<Union>a \<in> set as. event_references a)"
| "event_references (Ite c a b) = event_references c \<union> event_references a \<union> event_references b"
| "event_references (Call f as s) = (\<Union>a \<in> set as. event_references a)"
| "event_references _ = {}"

section \<open>Serialisation\<close>

definition trace_to_dict :: "trace \<Rightarrow> pyval" where
  "trace_to_dict t = VMap [(''schema_version'', VStr (tr_version t)), (''partial'', VBool (tr_partial t)),
     (''metadata'', encode_value (VMap (tr_metadata t))),
     (''events'', VList (map event_to_dict (tr_events t))),
     (''constraints'', VList (map expr_to_dict (tr_constraints t)))]"

definition trace_from_dict :: "pyval \<Rightarrow> trace res" where
  "trace_from_dict v =
     (case v of
        VMap d \<Rightarrow>
          (case (get_default d ''events'' (VList []), get_default d ''constraints'' (VList [])) of
             (VList raw_events, VList raw_constraints) \<Rightarrow>
               rbind (decode_value (get_default d ''metadata'' (VMap []))) (\<lambda>mv.
               rbind (as_dict mv SerializationError) (\<lambda>metadata.
               rbind (traverse event_from_dict raw_events) (\<lambda>events.
               rbind (traverse expr_from_dict raw_constraints) (\<lambda>constraints.
                 mk_trace \<lparr>tr_events = events, tr_constraints = constraints,
                   tr_partial = truthy (get_default d ''partial'' (VBool True)), tr_metadata = metadata,
                   tr_version = py_str (get_default d ''schema_version'' (VStr TRACE_SCHEMA_VERSION))\<rparr>))))
           | _ \<Rightarrow> Inl SerializationError)
      | _ \<Rightarrow> Inl SerializationError)"

section \<open>Lemmas\<close>

definition wf_trace :: "trace \<Rightarrow> bool" where
  "wf_trace t \<longleftrightarrow> distinct (map ei_id (tr_events t)) \<and> (\<forall>e \<in> set (tr_events t). wf_event e) \<and>
     (\<forall>e \<in> set (tr_constraints t). wf_expr e \<and> expr_is_bool e)"

lemma validate_structure_Inr [res_simps]:
  "validate_structure t = Inr u \<longleftrightarrow>
     distinct (map ei_id (tr_events t)) \<and> (\<forall>e \<in> set (tr_constraints t). expr_is_bool e)"
  by (simp add: validate_structure_def rbind_require require_Inr_iff list_all_iff)

lemma mk_trace_Inr [res_simps]:
  "mk_trace t = Inr t' \<longleftrightarrow> t' = t \<and> distinct (map ei_id (tr_events t)) \<and>
     (\<forall>e \<in> set (tr_constraints t). expr_is_bool e)"
  by (auto simp: mk_trace_def rbind_Inr_iff validate_structure_Inr)

lemma event_from_dict_wf: "event_from_dict v = Inr e \<Longrightarrow> wf_event e"
  by (cases v) (auto simp: event_from_dict_def rbind_Inr_iff mk_event_instance_Inr_iff)

lemma map_of_event_map:
  "distinct (map ei_id (tr_events t)) \<Longrightarrow> map_of (event_map t) i = Some e \<longleftrightarrow> e \<in> set (tr_events t) \<and> ei_id e = i"
  by (auto simp: event_map_def dict_of_map_fst o_def map_of_eq_Some_iff)

lemma get_event_Inr:
  "distinct (map ei_id (tr_events t)) \<Longrightarrow> get_event t i = Inr e \<longleftrightarrow> e \<in> set (tr_events t) \<and> ei_id e = i"
proof -
  assume d: "distinct (map ei_id (tr_events t))"
  have "find (\<lambda>e. ei_id e = i) es = Some e \<longleftrightarrow> e \<in> set es \<and> ei_id e = i" if "distinct (map ei_id es)" for es
    using that by (induction es) auto
  then show ?thesis using d by (simp add: get_event_def or_raise_Inr_iff)
qed

lemma event_references_iter: "event_references e = fst ` set (iter_event_fields e)"
  by (induction e) (auto simp: image_Un)

lemma trace_from_dict_wf:
  assumes "trace_from_dict v = Inr t" shows "wf_trace t"
proof -
  obtain d where v: "v = VMap d" using assms by (cases v) (simp_all add: trace_from_dict_def)
  obtain es where e: "get_default d ''events'' (VList []) = VList es"
    using assms by (cases "get_default d ''events'' (VList [])") (simp_all add: trace_from_dict_def v)
  obtain cs where c: "get_default d ''constraints'' (VList []) = VList cs"
    using assms by (cases "get_default d ''constraints'' (VList [])") (simp_all add: trace_from_dict_def v e)
  obtain evs cons where t: "traverse event_from_dict es = Inr evs" "traverse expr_from_dict cs = Inr cons"
    and ok: "mk_trace t = Inr t" "tr_events t = evs" "tr_constraints t = cons"
    using assms by (auto simp: trace_from_dict_def v e c rbind_Inr_iff mk_trace_Inr)
  have "\<forall>x \<in> set evs. wf_event x" using t(1) by (auto dest!: traverse_Inr_imageD dest: event_from_dict_wf)
  moreover have "\<forall>x \<in> set cons. wf_expr x" by (rule expr_codec.traverse_wf [OF t(2)])
  ultimately show ?thesis using ok by (simp add: wf_trace_def mk_trace_Inr)
qed

definition encodable_trace :: "trace \<Rightarrow> bool" where
  "encodable_trace t \<longleftrightarrow> wf_trace t \<and> (\<forall>e \<in> set (tr_events t). encodable_event e) \<and> encodable (VMap (tr_metadata t))"

lemma trace_roundtrip: "encodable_trace t \<Longrightarrow> trace_from_dict (trace_to_dict t) = Inr t"
proof -
  assume enc: "encodable_trace t"
  have es: "traverse event_from_dict (map event_to_dict (tr_events t)) = Inr (tr_events t)"
    using enc unfolding traverse_map
    by (intro traverse_Inr_map [where g = "\<lambda>x. x", simplified]) (simp add: encodable_trace_def event_dec_enc)
  have cs: "traverse expr_from_dict (map expr_to_dict (tr_constraints t)) = Inr (tr_constraints t)"
    using enc by (intro expr_codec.traverse_enc) (simp add: encodable_trace_def wf_trace_def)
  have md: "decode_value (encode_value (VMap (tr_metadata t))) = Inr (VMap (tr_metadata t))"
    using enc by (simp add: encodable_trace_def decode_encode del: encode_value.simps encodable.simps)
  show ?thesis using enc
    by (simp add: trace_from_dict_def trace_to_dict_def es cs md mk_trace_Inr encodable_trace_def wf_trace_def
        del: encode_value.simps decode_value.simps(1))
qed

text \<open>
  Validation types every reference of every constraint; a reference to \<open>cycle\<close> also needs the
  event to have one, since an absent cycle is stored as \<open>None\<close> and evaluates to it.
\<close>

definition cycles_known :: "trace \<Rightarrow> bool" where
  "cycles_known t \<longleftrightarrow> (\<forall>e \<in> set (tr_events t). ei_cycle e \<noteq> VNone)"

lemma stored_attribute_expected:
  assumes "wf_catalog c" "wf_event ev" "ei_cycle ev \<noteq> VNone" "expected_sort c ev f = Inr s"
    and "map_of (ec_types c) (ei_type ev) = Some t" "event_conforms t p ev" "stored_attribute ev f = Some v"
  shows "value_fits s v"
proof -
  have wt: "distinct (map fs_name (et_fields t))"
    using assms(1,5) by (auto simp: wf_catalog_def wf_event_type_def dest!: map_of_SomeD)
  consider "f = ''cycle''" | "f = ''occurs''" | "f \<noteq> ''cycle''" "f \<noteq> ''occurs''" by blast
  then show ?thesis
  proof cases
    case 1
    then show ?thesis using assms(2,3,4,7)
      by (auto simp: expected_sort_def stored_attribute_def wf_event_def cycle_ok_def value_fits_def accepts_int
          split: pyval.splits scalar.splits)
  next
    case 2
    then show ?thesis using assms(2,4,7)
      by (auto simp: expected_sort_def stored_attribute_def wf_event_def occurs_ok_def value_fits_def accepts_bool
          split: pyval.splits scalar.splits)
  next
    case 3
    then obtain fs where fs: "map_of (field_map t) f = Some fs" "s = fs_sort fs"
      using assms(4,5) by (auto simp: expected_sort_def get_spec_def res_simps)
    have "(f, v) \<in> set (ei_fields ev)" using 3 assms(7) by (auto simp: stored_attribute_def dest: map_of_SomeD)
    then obtain fs' where fs': "fs' \<in> set (et_fields t)" "fs_name fs' = f" "value_fits (fs_sort fs') v"
      using assms(6) by (fastforce simp: event_conforms_def)
    then show ?thesis using fs map_of_field_map [OF wt, of f fs'] by simp
  qed
qed

lemma validated_reference:
  assumes "validate_trace c p t = Inr ()" and "e \<in> set (tr_constraints t)" and "(i, f, s) \<in> set (iter_event_fields e)"
  obtains ev where "map_of (event_map t) i = Some ev" "expected_sort c ev f = Inr s"
proof -
  have "\<exists>us. traverse (\<lambda>e. traverse (check_reference c (event_map t)) (iter_event_fields e)) (tr_constraints t) = Inr us"
    using assms(1) by (auto simp: validate_trace_def rbind_Inr_iff)
  then have "\<exists>us. traverse (check_reference c (event_map t)) (iter_event_fields e) = Inr us"
    using assms(2) unfolding traverse_ok_iff by blast
  then have "\<exists>u. check_reference c (event_map t) (i, f, s) = Inr u" using assms(3) unfolding traverse_ok_iff by blast
  then show thesis by (auto simp: check_reference_def res_simps compatible_with_def intro: that)
qed

lemma validated_attribute_typed:
  assumes "wf_catalog c" "wf_trace t" "validate_trace c p t = Inr ()" "cycles_known t"
    and "e \<in> set (tr_constraints t)" "r \<in> set (iter_event_fields e)" "ctx_events ctx = event_map t"
  shows "attribute_typed ctx r"
proof -
  obtain i f s where r: "r = (i, f, s)" by (cases r)
  obtain pt where ve: "validate_events c pt (tr_events t) = Inr ()"
    using assms(3) by (auto simp: validate_trace_def rbind_Inr_iff)
  obtain ev where ev: "map_of (event_map t) i = Some ev" and ex: "expected_sort c ev f = Inr s"
    using validated_reference [OF assms(3,5) assms(6) [unfolded r]] .
  have mem: "ev \<in> set (tr_events t)" using ev map_of_event_map assms(2) unfolding wf_trace_def by blast
  then obtain ty where ty: "map_of (ec_types c) (ei_type ev) = Some ty" "event_conforms ty pt ev"
    using ve validate_events_iff [OF assms(1)] by blast
  have "value_fits s v" if "stored_attribute ev f = Some v" for v
    by (rule stored_attribute_expected [OF assms(1) _ _ ex ty that])
      (use mem assms(2,4) in \<open>auto simp: wf_trace_def cycles_known_def\<close>)
  then show ?thesis using ev by (auto simp: attribute_typed_def r assms(7) split: option.split)
qed

end
