(* ===== verification/GraphBuilder.thy ===== *)
theory GraphBuilder
  imports Rvwmo GraphModel TraceIR
begin

text \<open>
  \<open>src/src/umcm/graph/builder.py\<close>: projection of a concrete trace to memory operations, the
  evidence of reads-from and coherence hints, the space of candidate source writes and coherence
  orders, and the execution graphs built from every combination. A generator is the list of what it
  yields; the consumer in \<open>GraphChecker\<close> builds and checks the graphs one at a time, as the
  code does.
\<close>

section \<open>Projection\<close>

text \<open>\<open>hasattr(value, "sort")\<close> holds for expressions, and for lists because of \<open>list.sort\<close>.\<close>

definition has_sort :: "pyval \<Rightarrow> bool" where
  "has_sort v = (case v of VExpr _ \<Rightarrow> True | VList _ \<Rightarrow> True | _ \<Rightarrow> False)"

definition concrete_event :: "event_instance \<Rightarrow> bool res" where
  "concrete_event ev =
     (if ei_occurs ev \<noteq> VBool True then Inr False
      else if list_ex (\<lambda>(k, v). has_sort v) (ei_fields ev) then Inl GraphError
      else Inr True)"

definition field_of :: "event_instance \<Rightarrow> string \<Rightarrow> pyval res" where
  "field_of ev name = or_raise (map_of (ei_fields ev) name) GraphError"

definition str_field :: "event_instance \<Rightarrow> string \<Rightarrow> string res" where
  "str_field ev name = rbind (field_of ev name) (\<lambda>v. Inr (py_str v))"

definition int_field :: "event_instance \<Rightarrow> string \<Rightarrow> int res" where
  "int_field ev name = rbind (field_of ev name) py_int"

definition add_commit :: "projection_spec \<Rightarrow> (string \<times> event_instance) list \<Rightarrow> event_instance \<Rightarrow>
    (string \<times> event_instance) list res" where
  "add_commit p d ev =
     (if ei_type ev \<noteq> pj_commit p then Inr d
      else rbind (str_field ev (pj_id p)) (\<lambda>i.
        if map_of d i \<noteq> None then Inl GraphError else Inr (AList.update i ev d)))"

definition projected_metadata :: "projection_spec \<Rightarrow> event_instance \<Rightarrow> string option \<Rightarrow> (string \<times> pyval) list" where
  "projected_metadata p ev atomic =
     (let result = List.map_filter (\<lambda>(k, f). map_option (Pair k) (map_of (ei_fields ev) f)) (pj_metadata p)
      in case atomic of None \<Rightarrow> result | Some a \<Rightarrow> AList.update ''atomic_kind'' (VStr a) result)"

definition add_operation :: "op_map \<Rightarrow> memory_op \<Rightarrow> op_map res" where
  "add_operation ops m =
     rbind (mk_operation m) (\<lambda>m.
       if map_of ops (mo_id m) \<noteq> None then Inl GraphError else Inr (AList.update (mo_id m) m ops))"

definition project_init :: "projection_spec \<Rightarrow> op_map \<Rightarrow> event_instance \<Rightarrow> op_map res" where
  "project_init p ops ev =
     rbind (str_field ev (pj_id p)) (\<lambda>i.
     rbind (field_of ev (pj_address p)) (\<lambda>a.
     rbind (field_of ev (pj_value p)) (\<lambda>v.
       add_operation ops \<lparr>mo_id = i, mo_kind = INIT_WRITE, mo_address = a, mo_value = v,
         mo_write_value = VNone, mo_hart = None, mo_index = None, mo_source_event = ei_id ev,
         mo_commit_event = [], mo_metadata = projected_metadata p ev None\<rparr>)))"

text \<open>An operation without its commit event is an error, or skipped when commits are not required.\<close>

definition with_commit :: "projection_spec \<Rightarrow> (string \<times> event_instance) list \<Rightarrow> op_map \<Rightarrow> string \<Rightarrow>
    (event_instance \<Rightarrow> op_map res) \<Rightarrow> op_map res" where
  "with_commit p commits ops i f =
     (case map_of commits i of
        None \<Rightarrow> if pj_require_committed p then Inl GraphError else Inr ops
      | Some commit \<Rightarrow> f commit)"

definition project_amo :: "projection_spec \<Rightarrow> (string \<times> event_instance) list \<Rightarrow> op_map \<Rightarrow> event_instance \<Rightarrow> op_map res" where
  "project_amo p commits ops ev =
     rbind (str_field ev (pj_id p)) (\<lambda>i. with_commit p commits ops i (\<lambda>commit.
     rbind (field_of ev (pj_address p)) (\<lambda>a.
     rbind (field_of commit (pj_value p)) (\<lambda>v.
     rbind (field_of ev (pj_write_value p)) (\<lambda>w.
     rbind (int_field ev (pj_hart p)) (\<lambda>h.
     rbind (int_field ev (pj_index p)) (\<lambda>n.
       add_operation ops \<lparr>mo_id = i, mo_kind = AMO, mo_address = a, mo_value = v,
         mo_write_value = w, mo_hart = Some h, mo_index = Some n, mo_source_event = ei_id ev,
         mo_commit_event = ei_id commit, mo_metadata = projected_metadata p ev (Some ''amo'')\<rparr>)))))))"

definition project_store :: "projection_spec \<Rightarrow> op_map \<Rightarrow> event_instance \<Rightarrow> op_map res" where
  "project_store p ops ev =
     rbind (str_field ev (pj_id p)) (\<lambda>i.
     rbind (field_of ev (pj_address p)) (\<lambda>a.
     rbind (field_of ev (pj_value p)) (\<lambda>v.
     rbind (int_field ev (pj_hart p)) (\<lambda>h.
     rbind (int_field ev (pj_index p)) (\<lambda>n.
       add_operation ops \<lparr>mo_id = i, mo_kind = WRITE, mo_address = a, mo_value = v,
         mo_write_value = VNone, mo_hart = Some h, mo_index = Some n, mo_source_event = ei_id ev,
         mo_commit_event = [], mo_metadata = projected_metadata p ev
           (if pj_sc p = Some (ei_type ev) then Some ''sc'' else None)\<rparr>)))))"

definition project_load :: "projection_spec \<Rightarrow> (string \<times> event_instance) list \<Rightarrow> op_map \<Rightarrow> event_instance \<Rightarrow> op_map res" where
  "project_load p commits ops ev =
     rbind (str_field ev (pj_id p)) (\<lambda>i. with_commit p commits ops i (\<lambda>commit.
     rbind (field_of commit (pj_value p)) (\<lambda>v.
     rbind (field_of ev (pj_address p)) (\<lambda>a.
     rbind (int_field ev (pj_hart p)) (\<lambda>h.
     rbind (int_field ev (pj_index p)) (\<lambda>n.
       add_operation ops \<lparr>mo_id = i, mo_kind = READ, mo_address = a, mo_value = v,
         mo_write_value = VNone, mo_hart = Some h, mo_index = Some n, mo_source_event = ei_id ev,
         mo_commit_event = ei_id commit, mo_metadata = projected_metadata p ev
           (if pj_lr p = Some (ei_type ev) then Some ''lr'' else None)\<rparr>))))))"

definition project_event :: "projection_spec \<Rightarrow> (string \<times> event_instance) list \<Rightarrow> op_map \<Rightarrow> event_instance \<Rightarrow> op_map res" where
  "project_event p commits ops ev =
     (if ei_type ev = pj_init p then project_init p ops ev
      else if pj_amo p = Some (ei_type ev) then project_amo p commits ops ev
      else if ei_type ev = pj_store p \<or> pj_sc p = Some (ei_type ev) then project_store p ops ev
      else if ei_type ev = pj_load p \<or> pj_lr p = Some (ei_type ev) then project_load p commits ops ev
      else Inr ops)"

definition project_operations :: "trace \<Rightarrow> projection_spec \<Rightarrow> op_map res" where
  "project_operations t p =
     rbind (filter_res concrete_event (tr_events t)) (\<lambda>events.
     rbind (fold_res (add_commit p) [] events) (\<lambda>commits.
     rbind (fold_res (project_event p commits) [] events) (\<lambda>ops.
     rbind (require (ops \<noteq> []) GraphError) (\<lambda>_. Inr ops))))"

section \<open>Hints\<close>

text \<open>\<open>for event in trace.events_of_type(...): if not _concrete_event(event): continue\<close>.\<close>

definition hint_events :: "trace \<Rightarrow> string \<Rightarrow> ('s \<Rightarrow> event_instance \<Rightarrow> 's res) \<Rightarrow> 's \<Rightarrow> 's res" where
  "hint_events t ty f s = fold_res (\<lambda>s ev. rbind (concrete_event ev) (\<lambda>c. if c then f s ev else Inr s)) s
     (events_of_type t ty)"

record rf_evidence =
  re_write :: string
  re_address :: pyval
  re_value :: pyval
  re_event :: string

definition same_rf_evidence :: "rf_evidence \<Rightarrow> rf_evidence \<Rightarrow> bool" where
  "same_rf_evidence a b \<longleftrightarrow> re_write a = re_write b \<and> py_eq (re_address a) (re_address b) \<and>
     py_eq (re_value a) (re_value b)"

definition add_rf_hint :: "rf_hint \<Rightarrow> (string \<times> rf_evidence) list \<Rightarrow> event_instance \<Rightarrow> (string \<times> rf_evidence) list res" where
  "add_rf_hint h d ev =
     rbind (str_field ev (rh_read h)) (\<lambda>r.
     rbind (str_field ev (rh_write h)) (\<lambda>w.
     rbind (field_of ev (rh_address h)) (\<lambda>a.
     rbind (field_of ev (rh_value h)) (\<lambda>v.
       let e = \<lparr>re_write = w, re_address = a, re_value = v, re_event = ei_id ev\<rparr> in
       if (case map_of d r of None \<Rightarrow> False | Some prev \<Rightarrow> \<not> same_rf_evidence prev e)
       then Inl GraphError else Inr (AList.update r e d)))))"

definition rf_hints :: "trace \<Rightarrow> graph_model \<Rightarrow> (string \<times> rf_evidence) list res" where
  "rf_hints t m = fold_res (\<lambda>d h. hint_events t (rh_event h) (add_rf_hint h) d) [] (pj_rf_hints (gm_projection m))"

record co_evidence =
  ce_before :: string
  ce_after :: string
  ce_address :: pyval
  ce_event :: string

definition same_co_evidence :: "co_evidence \<Rightarrow> co_evidence \<Rightarrow> bool" where
  "same_co_evidence a b \<longleftrightarrow> ce_before a = ce_before b \<and> ce_after a = ce_after b \<and>
     py_eq (ce_address a) (ce_address b)"

definition add_co_hint :: "co_hint \<Rightarrow> co_evidence list \<Rightarrow> event_instance \<Rightarrow> co_evidence list res" where
  "add_co_hint h es ev =
     rbind (str_field ev (ch_before h)) (\<lambda>b.
     rbind (str_field ev (ch_after h)) (\<lambda>a.
     rbind (field_of ev (ch_address h)) (\<lambda>addr.
     rbind (require (hashable addr) PyTypeError) (\<lambda>_.
       let e = \<lparr>ce_before = b, ce_after = a, ce_address = addr, ce_event = ei_id ev\<rparr> in
       Inr (if list_ex (same_co_evidence e) es then es else es @ [e])))))"

definition co_hint_key :: "co_evidence \<Rightarrow> string" where
  "co_hint_key e = repr_tuple [py_repr_str (ce_before e), py_repr_str (ce_after e), py_repr (ce_address e)]"

definition co_hints :: "trace \<Rightarrow> graph_model \<Rightarrow> co_evidence list res" where
  "co_hints t m =
     rbind (fold_res (\<lambda>es h. hint_events t (ch_event h) (add_co_hint h) es) [] (pj_co_hints (gm_projection m)))
       (\<lambda>es. Inr (sort_key co_hint_key es))"

definition add_relation_hint :: "op_map \<Rightarrow> relation_hint \<Rightarrow> (string \<times> edge) list \<Rightarrow> event_instance \<Rightarrow>
    (string \<times> edge) list res" where
  "add_relation_hint ops h es ev =
     rbind (str_field ev (lh_source h)) (\<lambda>s.
     rbind (str_field ev (lh_target h)) (\<lambda>t.
     rbind (require (map_of ops s \<noteq> None \<and> map_of ops t \<noteq> None) GraphError) (\<lambda>_.
       Inr (es @ [(lh_name h, (s, t))]))))"

definition relation_hints :: "trace \<Rightarrow> graph_model \<Rightarrow> op_map \<Rightarrow> rel_map res" where
  "relation_hints t m ops =
     (let hints = pj_relation_hints (gm_projection m) in
      rbind (fold_res (\<lambda>es h. hint_events t (lh_event h) (add_relation_hint ops h) es) [] hints) (\<lambda>es.
        traverse (\<lambda>n. rbind (from_edges n (map snd (filter (\<lambda>(k, e). k = n) es))) (\<lambda>r. Inr (n, r)))
          (sort (remdups (map lh_name hints)))))"

section \<open>Candidates\<close>

record candidate_space =
  cs_operations :: op_map
  cs_rf_choices :: "(string \<times> string list) list"
  cs_co_orders :: "(pyval \<times> string list list) list"
  cs_relation_hints :: rel_map

definition estimated_candidates :: "candidate_space \<Rightarrow> nat" where
  "estimated_candidates s =
     prod_list (map (\<lambda>(k, cs). length cs) (cs_rf_choices s)) * prod_list (map (\<lambda>(k, os). length os) (cs_co_orders s))"

definition rf_candidate :: "memory_op \<Rightarrow> memory_op \<Rightarrow> bool res" where
  "rf_candidate r w =
     (if mo_id w = mo_id r \<or> \<not> py_eq (mo_address w) (mo_address r) then Inr False
      else rbind (stored_value w) (\<lambda>v. rbind (read_value r) (\<lambda>u. Inr (py_eq v u))))"

definition apply_rf_hint :: "op_map \<Rightarrow> memory_op \<Rightarrow> string list \<Rightarrow> rf_evidence \<Rightarrow> string list res" where
  "apply_rf_hint ops r cands e =
     (case map_of ops (re_write e) of
        None \<Rightarrow> Inl GraphError
      | Some w \<Rightarrow>
          rbind (require (is_write w) GraphError) (\<lambda>_.
          rbind (require (py_eq (re_address e) (mo_address r) \<and> py_eq (re_address e) (mo_address w)) GraphError) (\<lambda>_.
          rbind (read_value r) (\<lambda>u. rbind (stored_value w) (\<lambda>v.
          rbind (require (py_eq (re_value e) u \<and> py_eq (re_value e) v) GraphError) (\<lambda>_.
          rbind (require (re_write e \<in> set cands) GraphError) (\<lambda>_. Inr [re_write e])))))))"

definition rf_choice :: "op_map \<Rightarrow> (string \<times> rf_evidence) list \<Rightarrow> memory_op \<Rightarrow> (string \<times> string list) res" where
  "rf_choice ops hints r =
     rbind (filter_res (rf_candidate r) (filter is_write (ops_list ops))) (\<lambda>ws.
     rbind (case map_of hints (mo_id r) of
         None \<Rightarrow> Inr (map mo_id ws) | Some e \<Rightarrow> apply_rf_hint ops r (map mo_id ws) e) (\<lambda>cands.
     rbind (require (cands \<noteq> []) GraphError) (\<lambda>_. Inr (mo_id r, sort cands))))"

text \<open>\<open>writes_by_address[write.address].append(write)\<close>: the key is the first equal address.\<close>

fun add_write :: "(pyval \<times> memory_op list) list \<Rightarrow> memory_op \<Rightarrow> (pyval \<times> memory_op list) list" where
  "add_write [] w = [(mo_address w, [w])]"
| "add_write ((a, ws) # gs) w = (if py_eq (mo_address w) a then (a, ws @ [w]) # gs else (a, ws) # add_write gs w)"

definition writes_by_address :: "memory_op list \<Rightarrow> (pyval \<times> memory_op list) list res" where
  "writes_by_address ws =
     rbind (require (list_all (\<lambda>w. hashable (mo_address w)) ws) PyTypeError) (\<lambda>_. Inr (foldl add_write [] ws))"

text \<open>\<open>itertools.permutations\<close>, in its order: each element first, followed by those of the rest.\<close>

fun picks :: "'a list \<Rightarrow> ('a \<times> 'a list) list" where
  "picks [] = []"
| "picks (x # xs) = (x, xs) # map (\<lambda>(y, ys). (y, x # ys)) (picks xs)"

lemma length_picks: "(y, ys) \<in> set (picks xs) \<Longrightarrow> length xs = Suc (length ys)"
  by (induction xs arbitrary: y ys) auto

function permutations :: "'a list \<Rightarrow> 'a list list" where
  "permutations xs =
     (if xs = [] then [[]]
      else concat (map (\<lambda>(y, ys). map ((#) y) (permutations ys)) (picks xs)))"
  by pat_completeness auto
termination
  by (relation "measure length") (auto dest: length_picks)

declare permutations.simps [simp del]

definition check_co_hint :: "op_map \<Rightarrow> pyval \<Rightarrow> co_evidence \<Rightarrow> unit res" where
  "check_co_hint ops addr h =
     rbind (traverse (\<lambda>i. case map_of ops i of
         None \<Rightarrow> Inl GraphError
       | Some m \<Rightarrow> require (is_write m \<and> py_eq (mo_address m) addr) GraphError)
       [ce_before h, ce_after h]) (\<lambda>_.
       require (ce_before h \<noteq> ce_after h) GraphError)"

text \<open>\<open>order.index(i)\<close> raises \<open>ValueError\<close> for a write that the order does not hold.\<close>

definition index_of :: "string list \<Rightarrow> string \<Rightarrow> nat res" where
  "index_of order i = or_raise (map_of (zip order [0..<length order]) i) PyValueError"

fun obeys_hints :: "co_evidence list \<Rightarrow> string list \<Rightarrow> bool res" where
  "obeys_hints [] order = Inr True"
| "obeys_hints (h # hs) order =
     rbind (index_of order (ce_before h)) (\<lambda>i. rbind (index_of order (ce_after h)) (\<lambda>j.
       if i < j then obeys_hints hs order else Inr False))"

definition co_choice :: "op_map \<Rightarrow> co_evidence list \<Rightarrow> pyval \<times> memory_op list \<Rightarrow> (pyval \<times> string list list) res" where
  "co_choice ops hints g =
     (case g of (addr, ws) \<Rightarrow>
        let inits = sort (map mo_id (filter (\<lambda>w. mo_kind w = INIT_WRITE) ws));
            ordinary = sort (map mo_id (filter (\<lambda>w. mo_kind w = WRITE) ws));
            relevant = filter (\<lambda>h. py_eq (ce_address h) addr) hints in
        rbind (require (length inits \<le> 1) GraphError) (\<lambda>_.
        rbind (traverse (check_co_hint ops addr) relevant) (\<lambda>_.
        rbind (filter_res (obeys_hints relevant) (map ((@) inits) (permutations ordinary))) (\<lambda>orders.
        rbind (require (orders \<noteq> []) GraphError) (\<lambda>_. Inr (addr, orders))))))"

definition build_candidate_space :: "trace \<Rightarrow> graph_model \<Rightarrow> candidate_space res" where
  "build_candidate_space t m =
     rbind (project_operations t (gm_projection m)) (\<lambda>ops.
     rbind (rf_hints t m) (\<lambda>hints.
     rbind (co_hints t m) (\<lambda>cos.
     rbind (traverse (rf_choice ops hints) (sort_key mo_id (filter is_read (ops_list ops)))) (\<lambda>rf_choices.
     rbind (writes_by_address (filter is_write (ops_list ops))) (\<lambda>groups.
     rbind (traverse (co_choice ops cos) groups) (\<lambda>co_orders.
     rbind (require (list_all (\<lambda>h. list_ex (\<lambda>(a, ws). py_eq (ce_address h) a) groups) cos) GraphError) (\<lambda>_.
     rbind (relation_hints t m ops) (\<lambda>rels.
       Inr \<lparr>cs_operations = ops, cs_rf_choices = rf_choices, cs_co_orders = co_orders,
         cs_relation_hints = rels\<rparr>))))))))"

section \<open>Relations of one candidate\<close>

text \<open>\<open>_po_relation\<close> is the same code as \<open>_canonical_po\<close> of \<open>rvwmo.py\<close>.\<close>

definition po_relation :: "op_map \<Rightarrow> relation res" where
  "po_relation ops = canonical_po ops"

definition co_relation :: "string list list \<Rightarrow> relation res" where
  "co_relation orders = from_edges ''co'' (concat (map ordered_pairs orders))"

definition rfe_relation :: "relation \<Rightarrow> op_map \<Rightarrow> relation res" where
  "rfe_relation rf ops =
     rbind (filter_res (\<lambda>e. rbind (hart_of ops (fst e)) (\<lambda>a. rbind (hart_of ops (snd e)) (\<lambda>b. Inr (a \<noteq> b))))
       (rel_edges rf)) (from_edges ''rfe'')"

definition intervening_store :: "op_map \<Rightarrow> memory_op \<Rightarrow> memory_op \<Rightarrow> bool" where
  "intervening_store ops s t \<longleftrightarrow> list_ex (\<lambda>m. mo_kind m = WRITE \<and> mo_hart m = mo_hart s \<and>
     py_eq (mo_address m) (mo_address s) \<and>
     (case (mo_index s, mo_index m, mo_index t) of
        (Some i, Some j, Some k) \<Rightarrow> i < j \<and> j < k | _ \<Rightarrow> False)) (ops_list ops)"

definition ppo_edge :: "op_map \<Rightarrow> source_map \<Rightarrow> edge \<Rightarrow> bool res" where
  "ppo_edge ops srcs e =
     rbind (or_raise (map_of ops (fst e)) PyKeyError) (\<lambda>s.
     rbind (or_raise (map_of ops (snd e)) PyKeyError) (\<lambda>t.
       if \<not> is_read s \<or> \<not> is_read t \<or> \<not> py_eq (mo_address s) (mo_address t) then Inr False
       else rbind (source_of srcs (mo_id s)) (\<lambda>a. rbind (source_of srcs (mo_id t)) (\<lambda>b.
         if a = b then Inr False
         else rbind (require (mo_hart s = mo_hart t) PyAssertionError) (\<lambda>_.
           rbind (require (mo_index s \<noteq> None \<and> mo_index t \<noteq> None) PyAssertionError) (\<lambda>_.
             Inr (\<not> intervening_store ops s t)))))))"

definition ppo_relation :: "relation \<Rightarrow> source_map \<Rightarrow> op_map \<Rightarrow> string list \<Rightarrow> relation res" where
  "ppo_relation po srcs ops rules =
     (if ''load_load_different_write'' \<notin> set rules then from_edges ''ppo'' []
      else rbind (filter_res (ppo_edge ops srcs) (rel_edges po)) (from_edges ''ppo''))"

definition derive_relation :: "derived_spec \<Rightarrow> rel_map \<Rightarrow> string list \<Rightarrow> relation res" where
  "derive_relation s rels nodes =
     rbind (traverse (\<lambda>n. or_raise (map_of rels n) GraphError) (dv_relations s)) (\<lambda>operands.
       if dv_op s = ''union'' then union_relations (dv_name s) operands
       else if dv_op s = ''intersection'' then intersection_rel (operands ! 0) (operands ! 1) (Some (dv_name s))
       else if dv_op s = ''difference'' then difference_rel (operands ! 0) (operands ! 1) (Some (dv_name s))
       else if dv_op s = ''inverse'' then inverse_rel (operands ! 0) (Some (dv_name s))
       else if dv_op s = ''compose'' then compose_rel (operands ! 0) (operands ! 1) (Some (dv_name s))
       else if dv_op s = ''transitive_closure'' then transitive_closure (operands ! 0) nodes (Some (dv_name s))
       else Inl GraphError)"

definition add_derived :: "op_map \<Rightarrow> rel_map \<Rightarrow> derived_spec \<Rightarrow> rel_map res" where
  "add_derived ops rels s =
     rbind (derive_relation s rels (map fst ops)) (\<lambda>r.
     rbind (require (map_of rels (rel_name r) = None) GraphError) (\<lambda>_.
       Inr (AList.update (rel_name r) r rels)))"

section \<open>Enumeration\<close>

text \<open>
  A candidate is its number, the source write of each read and one coherence order per address;
  addresses are ordered by their \<open>repr\<close>. The reads-from choices vary slowest.
\<close>

type_synonym candidate = "nat \<times> source_map \<times> (pyval \<times> string list) list"

definition read_ids :: "candidate_space \<Rightarrow> string list" where
  "read_ids s = sort (map fst (cs_rf_choices s))"

definition co_entries :: "candidate_space \<Rightarrow> (pyval \<times> string list list) list" where
  "co_entries s = sort_key (\<lambda>(a, os). py_repr a) (cs_co_orders s)"

definition rf_assignments :: "candidate_space \<Rightarrow> source_map list" where
  "rf_assignments s =
     map (zip (read_ids s)) (product_lists (map (dict_list (cs_rf_choices s)) (read_ids s)))"

definition co_selections :: "candidate_space \<Rightarrow> (pyval \<times> string list) list list" where
  "co_selections s = map (zip (map fst (co_entries s))) (product_lists (map snd (co_entries s)))"

definition candidates :: "candidate_space \<Rightarrow> candidate list" where
  "candidates s =
     zip [0..<length (rf_assignments s) * length (co_selections s)]
       (concat (map (\<lambda>rf. map (Pair rf) (co_selections s)) (rf_assignments s)))"

definition candidate_metadata :: "graph_model \<Rightarrow> candidate \<Rightarrow> (string \<times> pyval) list" where
  "candidate_metadata m c =
     (case c of (n, srcs, cos) \<Rightarrow>
        [(''graph_model'', VStr (gm_model m)),
         (''rf_assignment'', VMap (map (\<lambda>(r, w). (r, VStr w)) (sort_key fst srcs))),
         (''co_orders'', VMap (dict_of (map (\<lambda>(a, os). (py_str a, VList (map VStr os))) cos)))])"

definition base_graph :: "graph_model \<Rightarrow> candidate_space \<Rightarrow> relation \<Rightarrow> candidate \<Rightarrow> exec_graph res" where
  "base_graph m s po c =
     (case c of (n, srcs, cos) \<Rightarrow>
        rbind (from_edges ''rf'' (map (\<lambda>(r, w). (w, r)) srcs)) (\<lambda>rf.
        rbind (co_relation (map snd cos)) (\<lambda>co.
        rbind (inverse_rel rf (Some ''rf_inv'')) (\<lambda>inv.
        rbind (compose_rel inv co (Some ''fr'')) (\<lambda>fr.
        rbind (rfe_relation rf (cs_operations s)) (\<lambda>rfe.
        rbind (ppo_relation po srcs (cs_operations s) (gm_ppo_rules m)) (\<lambda>ppo.
          mk_graph \<lparr>eg_operations = cs_operations s,
            eg_relations = foldl (\<lambda>d (n, r). AList.update n r d)
              (map (\<lambda>r. (rel_name r, r)) [po, rf, rfe, co, fr, ppo]) (cs_relation_hints s),
            eg_candidate = int n, eg_metadata = candidate_metadata m c,
            eg_version = EXECUTION_GRAPH_SCHEMA_VERSION\<rparr>)))))))"

definition build_graph :: "graph_model \<Rightarrow> candidate_space \<Rightarrow> relation \<Rightarrow> candidate \<Rightarrow> exec_graph res" where
  "build_graph m s po c =
     rbind (base_graph m s po c) (\<lambda>g0.
     rbind (if gm_builtin m = Some ''rvwmo'' then complete_rvwmo_relations g0 else Inr g0) (\<lambda>g.
     rbind (fold_res (add_derived (cs_operations s)) (eg_relations g) (gm_derived m)) (\<lambda>rels.
       mk_graph \<lparr>eg_operations = cs_operations s, eg_relations = rels, eg_candidate = int (fst c),
         eg_metadata = eg_metadata g, eg_version = EXECUTION_GRAPH_SCHEMA_VERSION\<rparr>)))"

definition prepare_candidates :: "trace \<Rightarrow> graph_model \<Rightarrow> int \<Rightarrow> (candidate_space \<times> relation) res" where
  "prepare_candidates t m max_candidates =
     rbind (require (0 < max_candidates) GraphError) (\<lambda>_.
     rbind (build_candidate_space t m) (\<lambda>s.
     rbind (require (int (estimated_candidates s) \<le> max_candidates) GraphError) (\<lambda>_.
     rbind (po_relation (cs_operations s)) (\<lambda>po. Inr (s, po)))))"

definition iter_execution_graphs :: "trace \<Rightarrow> graph_model \<Rightarrow> int \<Rightarrow> exec_graph list res" where
  "iter_execution_graphs t m max_candidates =
     rbind (prepare_candidates t m max_candidates) (\<lambda>(s, po). traverse (build_graph m s po) (candidates s))"

end
