(* ===== verification/GraphBuilderFacts.thy ===== *)
theory GraphBuilderFacts
  imports GraphBuilder RvwmoCheck "HOL-Library.Multiset"
begin

text \<open>
  What the builder guarantees: projected operations form a well-formed operation map; the source
  choices of a read are exactly the writes that match its address and value, narrowed by a hint;
  the coherence orders of an address are exactly the permutations of its writes that obey the hints;
  the enumeration contains every combination once; and every graph it yields satisfies the graph
  invariant and carries the chosen reads-from and coherence edges.
\<close>

section \<open>Permutations\<close>

lemma picks_iff: "(y, ys) \<in> set (picks xs) \<longleftrightarrow> (\<exists>us vs. xs = us @ y # vs \<and> ys = us @ vs)"
proof (induction xs arbitrary: y ys)
  case Nil
  show ?case by simp
next
  case (Cons x xs)
  have "(y, ys) \<in> set (picks (x # xs)) \<longleftrightarrow> (y = x \<and> ys = xs) \<or> (\<exists>zs. ys = x # zs \<and> (y, zs) \<in> set (picks xs))"
    by auto
  also have "\<dots> \<longleftrightarrow> (\<exists>us vs. x # xs = us @ y # vs \<and> ys = us @ vs)" (is "?L \<longleftrightarrow> ?R")
  proof
    assume ?L
    then show ?R
    proof
      assume "y = x \<and> ys = xs"
      then show ?R by (intro exI [of _ "[]"] exI [of _ xs]) simp
    next
      assume "\<exists>zs. ys = x # zs \<and> (y, zs) \<in> set (picks xs)"
      then obtain us vs where "ys = x # us @ vs" "xs = us @ y # vs" using Cons.IH by blast
      then show ?R by (intro exI [of _ "x # us"] exI [of _ vs]) simp
    qed
  next
    assume ?R
    then obtain us vs where h: "x # xs = us @ y # vs" "ys = us @ vs" by blast
    then show ?L using Cons.IH by (cases us) auto
  qed
  finally show ?case .
qed

lemma picks_mset: "(y, ys) \<in> set (picks xs) \<Longrightarrow> mset xs = add_mset y (mset ys)"
  by (auto simp: picks_iff)

lemma picks_exists: "y \<in> set xs \<Longrightarrow> \<exists>ys. (y, ys) \<in> set (picks xs)"
  by (auto simp: picks_iff dest: split_list)

lemma permutations_Cons:
  "xs \<noteq> [] \<Longrightarrow> ys \<in> set (permutations xs) \<longleftrightarrow>
     (\<exists>y zs ps. (y, zs) \<in> set (picks xs) \<and> ps \<in> set (permutations zs) \<and> ys = y # ps)"
  by (subst permutations.simps) auto

lemma set_permutations: "set (permutations xs) = {ys. mset ys = mset xs}"
proof (induction xs rule: permutations.induct)
  case (1 xs)
  show ?case
  proof (cases "xs = []")
    case False
    have "ys \<in> set (permutations xs) \<longleftrightarrow> mset ys = mset xs" for ys
    proof
      assume "ys \<in> set (permutations xs)"
      then obtain y zs ps where h: "(y, zs) \<in> set (picks xs)" "ps \<in> set (permutations zs)" "ys = y # ps"
        using permutations_Cons [OF False] by blast
      then have "mset ps = mset zs" using "1.IH" [OF False h(1) refl] by simp
      then show "mset ys = mset xs" using picks_mset [OF h(1)] h(3) by simp
    next
      assume m: "mset ys = mset xs"
      then obtain y ps where ys: "ys = y # ps" using False by (cases ys) auto
      then have "y \<in> set xs" using mset_eq_setD [OF m] by auto
      then obtain zs where zs: "(y, zs) \<in> set (picks xs)" by (rule picks_exists [THEN exE])
      then have "mset ps = mset zs" using m ys picks_mset [OF zs] by simp
      then have "ps \<in> set (permutations zs)" using "1.IH" [OF False zs refl] by simp
      then show "ys \<in> set (permutations xs)" using permutations_Cons [OF False] zs ys by blast
    qed
    then show ?thesis by blast
  qed (simp add: permutations.simps)
qed

section \<open>Projection\<close>

lemma add_operation_Inr:
  "add_operation ops m = Inr ops' \<longleftrightarrow>
     wf_op m \<and> map_of ops (mo_id m) = None \<and> ops' = ops @ [(mo_id m, m)]"
  by (auto simp: add_operation_def rbind_Inr_iff mk_operation_Inr_iff update_new map_of_eq_None_iff
      split: if_splits)

text \<open>Where an operation comes from.\<close>

definition projected_from :: "event_instance list \<Rightarrow> op_map \<Rightarrow> bool" where
  "projected_from evs ops \<longleftrightarrow> (\<forall>(i, m) \<in> set ops. \<exists>ev \<in> set evs. mo_source_event m = ei_id ev)"

definition grown :: "event_instance \<Rightarrow> op_map \<Rightarrow> op_map \<Rightarrow> bool" where
  "grown ev ops ops' \<longleftrightarrow> ops' = ops \<or>
     (\<exists>m. wf_op m \<and> map_of ops (mo_id m) = None \<and> mo_source_event m = ei_id ev \<and> ops' = ops @ [(mo_id m, m)])"

lemma grown_refl: "grown ev ops ops"
  by (simp add: grown_def)

lemma grown_add: "add_operation ops m = Inr ops' \<Longrightarrow> mo_source_event m = ei_id ev \<Longrightarrow> grown ev ops ops'"
  by (auto simp: add_operation_Inr grown_def)

lemma with_commit_Inr:
  "with_commit p commits ops i f = Inr ops' \<Longrightarrow> ops' = ops \<or> (\<exists>c. map_of commits i = Some c \<and> f c = Inr ops')"
  by (auto simp: with_commit_def split: option.splits if_splits)

lemma project_event_grown: "project_event p commits ops ev = Inr ops' \<Longrightarrow> grown ev ops ops'"
  unfolding project_event_def project_init_def project_amo_def project_store_def project_load_def
  by (auto simp: rbind_Inr_iff grown_refl split: if_splits dest!: with_commit_Inr elim!: grown_add)

lemma grown_wf: "grown ev ops ops' \<Longrightarrow> wf_ops ops \<Longrightarrow> wf_ops ops'"
  by (auto simp: grown_def wf_ops_def map_of_eq_None_iff)

lemma grown_from: "grown ev ops ops' \<Longrightarrow> ev \<in> set evs \<Longrightarrow> projected_from evs ops \<Longrightarrow> projected_from evs ops'"
  by (auto simp: grown_def projected_from_def)

lemma concrete_True: "concrete_event ev = Inr True \<Longrightarrow> ei_occurs ev = VBool True"
  by (simp add: concrete_event_def split: if_splits)

lemma project_operations_wf:
  assumes "project_operations t p = Inr ops"
  shows "wf_ops ops" "ops \<noteq> []" "projected_from (filter (\<lambda>e. ei_occurs e = VBool True) (tr_events t)) ops"
proof -
  let ?evs = "filter (\<lambda>e. ei_occurs e = VBool True) (tr_events t)"
  obtain events commits where ev: "filter_res concrete_event (tr_events t) = Inr events"
    and ops: "fold_res (project_event p commits) [] events = Inr ops" and ne: "ops \<noteq> []"
    using assms unfolding project_operations_def rbind_Inr_iff require_Inr_iff by auto
  have sub: "set events \<subseteq> set ?evs" using filter_res_Inr [OF ev] concrete_True by auto
  have "wf_ops ops \<and> projected_from ?evs ops"
  proof (rule fold_res_inv [OF ops])
    show "wf_ops [] \<and> projected_from ?evs []" by (simp add: wf_ops_def projected_from_def)
    fix s s' x
    assume x: "x \<in> set events" and I: "wf_ops s \<and> projected_from ?evs s" and "project_event p commits s x = Inr s'"
    then have g: "grown x s s'" by (blast dest: project_event_grown)
    have "x \<in> set ?evs" using x sub by blast
    then show "wf_ops s' \<and> projected_from ?evs s'"
      using grown_wf [OF g] grown_from [OF g] I by blast
  qed
  then show "wf_ops ops" "ops \<noteq> []" "projected_from ?evs ops" using ne by blast+
qed

section \<open>Sources of a read\<close>

definition matching_write :: "op_map \<Rightarrow> memory_op \<Rightarrow> string \<Rightarrow> bool" where
  "matching_write ops r i \<longleftrightarrow> (\<exists>w v. map_of ops i = Some w \<and> is_write w \<and> i \<noteq> mo_id r \<and>
     py_eq (mo_address w) (mo_address r) \<and> stored_value w = Inr v \<and> py_eq v (mo_value r))"

lemma rf_candidate_True:
  "is_read r \<Longrightarrow> rf_candidate r w = Inr True \<longleftrightarrow> mo_id w \<noteq> mo_id r \<and> py_eq (mo_address w) (mo_address r) \<and>
     (\<exists>v. stored_value w = Inr v \<and> py_eq v (mo_value r))"
  by (auto simp: rf_candidate_def rbind_Inr_iff read_value_def)

lemma rf_choice_spec:
  assumes wf: "wf_ops ops" and r: "is_read r" and c: "rf_choice ops hints r = Inr (i, cs)"
  shows "i = mo_id r" "cs \<noteq> []" "\<forall>w \<in> set cs. matching_write ops r w"
    and "map_of hints i = None \<Longrightarrow> set cs = {w. matching_write ops r w}"
    and "map_of hints i = Some e \<Longrightarrow> cs = [re_write e]"
proof -
  obtain ws cands where ws: "filter_res (rf_candidate r) (filter is_write (ops_list ops)) = Inr ws"
    and cands: "(case map_of hints (mo_id r) of None \<Rightarrow> Inr (map mo_id ws)
      | Some e \<Rightarrow> apply_rf_hint ops r (map mo_id ws) e) = Inr cands"
    and ics: "cands \<noteq> []" "i = mo_id r" "cs = sort cands"
    using c by (auto simp: rf_choice_def rbind_Inr_iff require_Inr_iff)
  have m: "x \<in> set (map mo_id ws) \<longleftrightarrow> matching_write ops r x" for x
  proof -
    have "x \<in> set (map mo_id ws) \<longleftrightarrow>
        (\<exists>w. w \<in> set (ops_list ops) \<and> mo_id w = x \<and> is_write w \<and> rf_candidate r w = Inr True)"
      unfolding filter_res_Inr [OF ws] by auto
    also have "\<dots> \<longleftrightarrow> (\<exists>w. map_of ops x = Some w \<and> is_write w \<and> rf_candidate r w = Inr True)"
      using set_ops_list [OF wf] map_of_ops [OF wf] by metis
    finally show ?thesis
      unfolding rf_candidate_True [OF r] matching_write_def using map_of_ops [OF wf] by blast
  qed
  show "i = mo_id r" by (rule ics)
  show "cs \<noteq> []" using ics by (metis length_0_conv length_sort)
  have h: "cands = [re_write e] \<and> re_write e \<in> set (map mo_id ws)" if "map_of hints (mo_id r) = Some e" for e
    using cands that by (auto simp: apply_rf_hint_def rbind_Inr_iff require_Inr_iff split: option.splits)
  then have "set cands \<subseteq> set (map mo_id ws)"
    using cands by (cases "map_of hints (mo_id r)") (simp, fastforce)
  then show "\<forall>w \<in> set cs. matching_write ops r w" using m ics(3) by auto
  show "map_of hints i = None \<Longrightarrow> set cs = {w. matching_write ops r w}"
  proof -
    assume "map_of hints i = None"
    then have "cands = map mo_id ws" using cands ics(2) by simp
    then show ?thesis using m ics(3) by (simp only: set_sort) blast
  qed
  show "map_of hints i = Some e \<Longrightarrow> cs = [re_write e]" using h ics by simp
qed

section \<open>Coherence orders\<close>

lemma index_of_Inr:
  "distinct order \<Longrightarrow> index_of order x = Inr i \<longleftrightarrow> i < length order \<and> order ! i = x"
  by (auto simp: index_of_def or_raise_Inr_iff map_of_zip_nth dest!: map_of_SomeD simp: set_zip)

lemma obeys_hints_True:
  assumes "distinct order"
  shows "obeys_hints hs order = Inr True \<longleftrightarrow>
    (\<forall>h \<in> set hs. (ce_before h, ce_after h) \<in> set (ordered_pairs order))"
proof (induction hs)
  case (Cons h hs)
  have "(ce_before h, ce_after h) \<in> set (ordered_pairs order) \<longleftrightarrow>
      (\<exists>i j. index_of order (ce_before h) = Inr i \<and> index_of order (ce_after h) = Inr j \<and> i < j)"
    unfolding ordered_pairs_nth index_of_Inr [OF assms] by (metis order.strict_trans)
  then show ?case using Cons.IH by (auto simp: rbind_Inr_iff split: if_splits)
qed simp

definition inits_of :: "memory_op list \<Rightarrow> string list" where
  "inits_of ws = sort (map mo_id (filter (\<lambda>w. mo_kind w = INIT_WRITE) ws))"

definition stores_of :: "memory_op list \<Rightarrow> string list" where
  "stores_of ws = map mo_id (filter (\<lambda>w. mo_kind w = WRITE) ws)"

lemma co_choice_spec:
  assumes c: "co_choice ops hints (addr, ws) = Inr (a, orders)" and d: "distinct (map mo_id ws)"
  shows "a = addr" "orders \<noteq> []" "length (inits_of ws) \<le> 1"
    and "set orders = {inits_of ws @ p |p. mset p = mset (stores_of ws) \<and>
      (\<forall>h \<in> set hints. py_eq (ce_address h) addr \<longrightarrow>
        (ce_before h, ce_after h) \<in> set (ordered_pairs (inits_of ws @ p)))}"
proof -
  let ?rel = "filter (\<lambda>h. py_eq (ce_address h) addr) hints"
  obtain os where os: "filter_res (obeys_hints ?rel) (map ((@) (inits_of ws)) (permutations (sort (stores_of ws)))) = Inr os"
    and r: "length (inits_of ws) \<le> 1" "orders \<noteq> []" "a = addr" "orders = os"
    using c unfolding co_choice_def Let_def prod.case rbind_Inr_iff require_Inr_iff
      inits_of_def [symmetric] stores_of_def [symmetric]
    by (elim exE conjE) (rule that; simp)
  show "a = addr" "orders \<noteq> []" "length (inits_of ws) \<le> 1" using r by auto
  have dist: "distinct (inits_of ws @ p)" if "mset p = mset (stores_of ws)" for p
  proof -
    have "distinct p" using that d mset_eq_imp_distinct_iff [OF that]
      by (simp add: stores_of_def distinct_map inj_on_def)
    moreover have "distinct (inits_of ws)" using d by (simp add: inits_of_def distinct_map inj_on_def)
    moreover have "set (inits_of ws) \<inter> set p = {}"
      using d mset_eq_setD [OF that] by (fastforce simp: inits_of_def stores_of_def distinct_map inj_on_def)
    ultimately show ?thesis by simp
  qed
  have mem: "p \<in> set orders \<longleftrightarrow> (\<exists>q. p = inits_of ws @ q \<and> mset q = mset (stores_of ws) \<and>
      obeys_hints ?rel (inits_of ws @ q) = Inr True)" for p
    unfolding r(4) filter_res_Inr [OF os] by (auto simp: set_permutations)
  have iff: "p \<in> set orders \<longleftrightarrow> (\<exists>q. p = inits_of ws @ q \<and> mset q = mset (stores_of ws) \<and>
      (\<forall>h \<in> set ?rel. (ce_before h, ce_after h) \<in> set (ordered_pairs (inits_of ws @ q))))" for p
    unfolding mem by (intro ex_cong1 conj_cong refl) (rule obeys_hints_True [OF dist])
  show "set orders = {inits_of ws @ p |p. mset p = mset (stores_of ws) \<and>
      (\<forall>h \<in> set hints. py_eq (ce_address h) addr \<longrightarrow>
        (ce_before h, ce_after h) \<in> set (ordered_pairs (inits_of ws @ p)))}"
    by (rule set_eqI, unfold iff mem_Collect_eq) (simp add: imp_conjL Ball_def)
qed

end
