(* ===== verification/CandidateGraphs.thy ===== *)
theory CandidateGraphs
  imports GraphBuilderFacts
begin

text \<open>
  The candidate space of \<open>build_candidate_space\<close> and the graphs built from it: every write belongs
  to exactly one address group, every candidate assigns each read one of its sources and each
  address one of its orders, and a built graph satisfies the graph invariant and carries exactly
  these edges. Coherence orders hold initial and ordinary writes only, so a graph with an atomic
  memory operation never passes the RVWMO validation (\<open>amo_candidate_rejected\<close>).
\<close>

section \<open>Grouping writes by address\<close>

definition groups_ok :: "memory_op list \<Rightarrow> (pyval \<times> memory_op list) list \<Rightarrow> bool" where
  "groups_ok ws gs \<longleftrightarrow>
     sorted_wrt (\<lambda>x y. \<not> py_eq (fst x) (fst y)) gs \<and>
     (\<forall>(a, xs) \<in> set gs. xs \<noteq> [] \<and> xs = filter (\<lambda>w. py_eq (mo_address w) a) ws) \<and>
     (\<forall>w \<in> set ws. \<exists>(a, xs) \<in> set gs. py_eq (mo_address w) a)"

lemma add_write_new:
  "\<forall>(a, xs) \<in> set gs. \<not> py_eq (mo_address w) a \<Longrightarrow> add_write gs w = gs @ [(mo_address w, [w])]"
  by (induction gs w rule: add_write.induct) auto

lemma add_write_old:
  assumes "sorted_wrt (\<lambda>x y. \<not> py_eq (fst x) (fst y)) gs" "\<exists>(a, xs) \<in> set gs. py_eq (mo_address w) a"
  shows "add_write gs w = map (\<lambda>(a, xs). (a, if py_eq (mo_address w) a then xs @ [w] else xs)) gs"
  using assms
proof (induction gs w rule: add_write.induct)
  case (2 a ws gs w)
  show ?case
  proof (cases "py_eq (mo_address w) a")
    case True
    have "\<not> py_eq (mo_address w) b" if "(b, xs) \<in> set gs" for b xs
    proof -
      have "\<not> py_eq a b" using "2.prems"(1) that by auto
      then show ?thesis using True by (simp add: py_eq_def)
    qed
    then have "map (\<lambda>(a, xs). (a, if py_eq (mo_address w) a then xs @ [w] else xs)) gs = gs"
      by (intro map_idI) auto
    then show ?thesis using True by simp
  next
    case False
    then show ?thesis using 2 by simp
  qed
qed simp

lemma groups_ok_step:
  assumes "groups_ok ws gs" shows "groups_ok (ws @ [w]) (add_write gs w)"
proof -
  note h = assms [unfolded groups_ok_def]
  have s: "sorted_wrt (\<lambda>x y. \<not> py_eq (fst x) (fst y)) gs" using h by (elim conjE)
  have g0: "\<forall>(a, xs) \<in> set gs. xs \<noteq> [] \<and> xs = filter (\<lambda>w. py_eq (mo_address w) a) ws" using h by (elim conjE)
  have g: "xs \<noteq> [] \<and> xs = filter (\<lambda>w. py_eq (mo_address w) a) ws" if "(a, xs) \<in> set gs" for a xs
    using bspec [OF g0 that] unfolding prod.case .
  have c0: "\<forall>v \<in> set ws. \<exists>(a, xs) \<in> set gs. py_eq (mo_address v) a" using h by (elim conjE)
  have c: "\<exists>(a, xs) \<in> set gs. py_eq (mo_address v) a" if "v \<in> set ws" for v
    using c0 that by (rule bspec)
  show ?thesis
  proof (cases "\<exists>(a, xs) \<in> set gs. py_eq (mo_address w) a")
    case True
    note eq = add_write_old [OF s True]
    have "sorted_wrt (\<lambda>x y. \<not> py_eq (fst x) (fst y)) (add_write gs w)"
      unfolding eq sorted_wrt_map by (rule sorted_wrt_mono_rel [OF _ s]) (auto split: prod.splits)
    moreover have "xs \<noteq> [] \<and> xs = filter (\<lambda>w. py_eq (mo_address w) a) (ws @ [w])"
      if "(a, xs) \<in> set (add_write gs w)" for a xs
    proof -
      note mem = that [unfolded eq]
      obtain ys where "(a, ys) \<in> set gs" "xs = (if py_eq (mo_address w) a then ys @ [w] else ys)"
        using mem by auto
      then show ?thesis using g [of a ys] by auto
    qed
    moreover have "\<exists>(a, xs) \<in> set (add_write gs w). py_eq (mo_address v) a" if "v \<in> set (ws @ [w])" for v
    proof -
      have "\<exists>(a, xs) \<in> set gs. py_eq (mo_address v) a" using that c True by auto
      then show ?thesis unfolding eq by fastforce
    qed
    ultimately show ?thesis unfolding groups_ok_def by blast
  next
    case False
    then have eq: "add_write gs w = gs @ [(mo_address w, [w])]" by (intro add_write_new) blast
    have none: "\<not> py_eq (mo_address w) a" if "(a, xs) \<in> set gs" for a xs using False that by blast
    have none': False if "(a, xs) \<in> set gs" "canon a = canon (mo_address w)" for a xs
      using none [OF that(1)] that(2) by (simp add: py_eq_def)
    have "filter (\<lambda>v. py_eq (mo_address v) (mo_address w)) ws = []"
    proof -
      have "\<not> py_eq (mo_address v) (mo_address w)" if "v \<in> set ws" for v
      proof -
        note mem = that
        obtain a xs where "(a, xs) \<in> set gs" "py_eq (mo_address v) a" using c [OF mem] by blast
        then show ?thesis using none [of a xs] by (auto simp: py_eq_def)
      qed
      then show ?thesis by (simp add: filter_empty_conv)
    qed
    moreover have "sorted_wrt (\<lambda>x y. \<not> py_eq (fst x) (fst y)) (add_write gs w)"
      using s unfolding eq by (auto simp: sorted_wrt_append py_eq_def dest: none')
    moreover have "\<exists>(a, xs) \<in> set (add_write gs w). py_eq (mo_address v) a" if "v \<in> set (ws @ [w])" for v
      using that c [of v] unfolding eq by auto
    ultimately show ?thesis unfolding groups_ok_def eq using g none by auto
  qed
qed

lemma foldl_groups_ok: "groups_ok us gs \<Longrightarrow> groups_ok (us @ ws) (foldl add_write gs ws)"
proof (induction ws arbitrary: us gs)
  case (Cons w ws)
  show ?case using Cons.IH [OF groups_ok_step [OF Cons.prems, of w]] by simp
qed simp

lemma writes_by_address_ok: "writes_by_address ws = Inr gs \<Longrightarrow> groups_ok ws gs"
  using foldl_groups_ok [of "[]" "[]" ws] by (auto simp: writes_by_address_def rbind_Inr_iff groups_ok_def)

section \<open>The candidate space\<close>

text \<open>
  What the parts of a candidate space are: \<open>rf_choices\<close> lists the reads in order of identifier with
  matching writes, \<open>co_orders\<close> has one entry per address group of writes.
\<close>

definition reads_of :: "op_map \<Rightarrow> memory_op list" where
  "reads_of ops = sort_key mo_id (filter is_read (ops_list ops))"

definition writes_of :: "op_map \<Rightarrow> memory_op list" where
  "writes_of ops = filter is_write (ops_list ops)"

definition order_of_group :: "memory_op list \<Rightarrow> string list \<Rightarrow> bool" where
  "order_of_group ws os \<longleftrightarrow> length (inits_of ws) \<le> 1 \<and>
     (\<exists>p. mset p = mset (stores_of ws) \<and> os = inits_of ws @ p)"

definition space_ok :: "candidate_space \<Rightarrow> bool" where
  "space_ok s \<longleftrightarrow> wf_ops (cs_operations s) \<and>
     map fst (cs_rf_choices s) = map mo_id (reads_of (cs_operations s)) \<and>
     (\<forall>r \<in> set (reads_of (cs_operations s)). \<forall>ws. (mo_id r, ws) \<in> set (cs_rf_choices s) \<longrightarrow>
        ws \<noteq> [] \<and> (\<forall>w \<in> set ws. matching_write (cs_operations s) r w)) \<and>
     (\<exists>gs. groups_ok (writes_of (cs_operations s)) gs \<and>
        list_all2 (\<lambda>(a, ws) (b, os). a = b \<and> os \<noteq> [] \<and> (\<forall>o' \<in> set os. order_of_group ws o')) gs (cs_co_orders s)) \<and>
     (\<forall>(n, r) \<in> set (cs_relation_hints s). n = rel_name r \<and> wf_relation r) \<and>
     distinct (map fst (cs_relation_hints s))"

lemma space_okD:
  assumes "space_ok s"
  shows "wf_ops (cs_operations s)" "map fst (cs_rf_choices s) = map mo_id (reads_of (cs_operations s))"
    and "r \<in> set (reads_of (cs_operations s)) \<Longrightarrow> (mo_id r, ws) \<in> set (cs_rf_choices s) \<Longrightarrow> ws \<noteq> []"
    and "r \<in> set (reads_of (cs_operations s)) \<Longrightarrow> (mo_id r, ws) \<in> set (cs_rf_choices s) \<Longrightarrow> w \<in> set ws \<Longrightarrow>
      matching_write (cs_operations s) r w"
  using assms unfolding space_ok_def by blast+

lemma groups_ok_sub: "groups_ok ws gs \<Longrightarrow> (a, xs) \<in> set gs \<Longrightarrow> set xs \<subseteq> set ws"
  unfolding groups_ok_def by fastforce

lemma distinct_group: "groups_ok ws gs \<Longrightarrow> (a, xs) \<in> set gs \<Longrightarrow> distinct (map mo_id ws) \<Longrightarrow> distinct (map mo_id xs)"
proof -
  assume g: "groups_ok ws gs" "(a, xs) \<in> set gs" and d: "distinct (map mo_id ws)"
  have "xs = filter (\<lambda>w. py_eq (mo_address w) a) ws" using g unfolding groups_ok_def by fastforce
  then show ?thesis using d by (metis distinct_map_filter)
qed

lemma relation_hints_ok:
  assumes "relation_hints t m ops = Inr rels"
  shows "\<forall>(n, r) \<in> set rels. n = rel_name r \<and> wf_relation r" "distinct (map fst rels)"
    and "set (map fst rels) = lh_name ` set (pj_relation_hints (gm_projection m))"
proof -
  let ?names = "sort (remdups (map lh_name (pj_relation_hints (gm_projection m))))"
  obtain es where tr: "traverse (\<lambda>n. rbind (from_edges n (map snd (filter (\<lambda>(k, e). k = n) es))) (\<lambda>r. Inr (n, r)))
      ?names = Inr rels"
    using assms by (auto simp: relation_hints_def Let_def rbind_Inr_iff)
  show "\<forall>(n, r) \<in> set rels. n = rel_name r \<and> wf_relation r"
  proof (clarify)
    fix n r
    assume "(n, r) \<in> set rels"
    then have "from_edges n (map snd (filter (\<lambda>(k, e). k = n) es)) = Inr r"
      by (auto dest!: traverse_Inr_imageD [OF tr] simp: rbind_Inr_iff)
    then show "n = rel_name r \<and> wf_relation r" using from_edges_wf from_edges_set by blast
  qed
  have k: "map fst rels = ?names" using tr unfolding traverse_Inr_iff
    by (induction rule: list_all2_induct) (auto simp: rbind_Inr_iff)
  show "distinct (map fst rels)" "set (map fst rels) = lh_name ` set (pj_relation_hints (gm_projection m))"
    unfolding k by auto
qed


lemma build_candidate_space_ok:
  assumes "build_candidate_space t m = Inr s"
  shows "space_ok s" "set (map fst (cs_relation_hints s)) = lh_name ` set (pj_relation_hints (gm_projection m))"
proof -
  obtain ops hints cos rfc groups coo rels where
    ops: "project_operations t (gm_projection m) = Inr ops"
    and rfc: "traverse (rf_choice ops hints) (reads_of ops) = Inr rfc"
    and gs: "writes_by_address (writes_of ops) = Inr groups"
    and coo: "traverse (co_choice ops cos) groups = Inr coo"
    and rels: "relation_hints t m ops = Inr rels"
    and s': "Inr \<lparr>cs_operations = ops, cs_rf_choices = rfc, cs_co_orders = coo, cs_relation_hints = rels\<rparr> =
      (Inr s :: candidate_space res)"
    using assms unfolding build_candidate_space_def rbind_Inr_iff require_Inr_iff reads_of_def [symmetric]
      writes_of_def [symmetric] by (elim exE conjE) (rule that; assumption)
  have s: "s = \<lparr>cs_operations = ops, cs_rf_choices = rfc, cs_co_orders = coo, cs_relation_hints = rels\<rparr>"
    using s' by simp
  note wf = project_operations_wf(1) [OF ops] and ro = relation_hints_ok [OF rels] and gok = writes_by_address_ok [OF gs]
  have d: "distinct (map mo_id (writes_of ops))"
    using wf_ops_ids [OF wf] wf by (simp add: writes_of_def wf_ops_def distinct_map_filter)
  have read: "is_read r" if "r \<in> set (reads_of ops)" for r using that by (simp add: reads_of_def)
  have fst: "map fst rfc = map mo_id (reads_of ops)"
  proof -
    have "list_all2 (\<lambda>r c. rf_choice ops hints r = Inr c) (reads_of ops) rfc" using rfc by (simp add: traverse_Inr_iff)
    then have "list_all2 (\<lambda>r c. fst c = mo_id r) (reads_of ops) rfc"
      by (rule list.rel_mono_strong) (metis rf_choice_spec(1) [OF wf read] prod.collapse)
    then show ?thesis by (induction rule: list_all2_induct) auto
  qed
  have choice: "ws \<noteq> [] \<and> (\<forall>w \<in> set ws. matching_write ops r w)"
    if "r \<in> set (reads_of ops)" "(mo_id r, ws) \<in> set rfc" for r ws
  proof -
    note h = that
    obtain r' where r': "r' \<in> set (reads_of ops)" "rf_choice ops hints r' = Inr (mo_id r, ws)"
      using traverse_Inr_imageD [OF rfc h(2)] by blast
    then have "mo_id r = mo_id r'" using rf_choice_spec(1) [OF wf read] by blast
    then have "r' = r" using h(1) r'(1) same_id_op [OF wf] by (simp add: reads_of_def)
    then show ?thesis using rf_choice_spec(2,3) [OF wf read [OF r'(1)] r'(2)] by simp
  qed
  have orders: "list_all2 (\<lambda>(a, ws) (b, os). a = b \<and> os \<noteq> [] \<and> (\<forall>o' \<in> set os. order_of_group ws o')) groups coo"
  proof (rule list.rel_mono_strong [of "\<lambda>g c. co_choice ops cos g = Inr c"])
    show "list_all2 (\<lambda>g c. co_choice ops cos g = Inr c) groups coo" using coo by (simp add: traverse_Inr_iff)
    fix g c
    assume g: "g \<in> set groups" and c: "co_choice ops cos g = Inr c"
    obtain a ws b os where gc: "g = (a, ws)" "c = (b, os)" by (metis surj_pair)
    note spec = co_choice_spec [OF c [unfolded gc] distinct_group [OF gok g [unfolded gc] d]]
    show "(\<lambda>(a, ws) (b, os). a = b \<and> os \<noteq> [] \<and> (\<forall>o' \<in> set os. order_of_group ws o')) g c"
      using spec unfolding gc order_of_group_def by auto
  qed
  show "space_ok s" unfolding space_ok_def s candidate_space.simps
    using wf fst choice gok orders ro(1,2) by blast
  show "set (map fst (cs_relation_hints s)) = lh_name ` set (pj_relation_hints (gm_projection m))"
    unfolding s candidate_space.simps by (rule ro(3))
qed

section \<open>Enumeration\<close>

lemma snd_candidates:
  "map snd (candidates s) = concat (map (\<lambda>rf. map (Pair rf) (co_selections s)) (rf_assignments s))"
  by (simp add: candidates_def length_concat o_def sum_list_triv)

lemma length_candidates: "length (candidates s) = length (rf_assignments s) * length (co_selections s)"
  using arg_cong [OF snd_candidates, of length] by (simp add: length_concat o_def sum_list_triv)

lemma dict_list_keys: "distinct (map fst d) \<Longrightarrow> map (dict_list d) (map fst d) = map snd d"
  by (induction d) (auto simp: dict_list_def image_iff)

lemma read_ids_eq:
  assumes "space_ok s" shows "read_ids s = map fst (cs_rf_choices s)" "distinct (map fst (cs_rf_choices s))"
proof -
  have k: "map fst (cs_rf_choices s) = map mo_id (reads_of (cs_operations s))" and wf: "wf_ops (cs_operations s)"
    using assms unfolding space_ok_def by blast+
  have "sorted (map mo_id (reads_of (cs_operations s)))" by (simp add: reads_of_def)
  then show "read_ids s = map fst (cs_rf_choices s)" by (simp add: read_ids_def k sorted_sort_id)
  have "distinct (map mo_id (filter is_read (ops_list (cs_operations s))))"
    using wf_ops_ids [OF wf] wf by (simp add: wf_ops_def distinct_map_filter)
  then show "distinct (map fst (cs_rf_choices s))"
    unfolding k reads_of_def by (simp add: distinct_map)
qed

lemma choice_lists:
  assumes "space_ok s" shows "map (dict_list (cs_rf_choices s)) (read_ids s) = map snd (cs_rf_choices s)"
  unfolding read_ids_eq(1) [OF assms] by (rule dict_list_keys [OF read_ids_eq(2) [OF assms]])

lemma length_rf_assignments:
  "space_ok s \<Longrightarrow> length (rf_assignments s) = prod_list (map (\<lambda>(k, cs). length cs) (cs_rf_choices s))"
  by (simp add: rf_assignments_def length_product_lists choice_lists o_def case_prod_unfold)

lemma length_co_selections: "length (co_selections s) = prod_list (map (\<lambda>(k, os). length os) (cs_co_orders s))"
proof -
  have "mset (map (\<lambda>(k, os). length os) (co_entries s)) = mset (map (\<lambda>(k, os). length os) (cs_co_orders s))"
    by (simp add: co_entries_def mset_map)
  then have "prod_list (map (\<lambda>(k, os). length os) (co_entries s)) = prod_list (map (\<lambda>(k, os). length os) (cs_co_orders s))"
    by (metis prod_mset_prod_list)
  then show ?thesis by (simp add: co_selections_def length_product_lists o_def case_prod_unfold)
qed

lemma length_candidates_estimate: "space_ok s \<Longrightarrow> length (candidates s) = estimated_candidates s"
  by (simp add: length_candidates length_rf_assignments length_co_selections estimated_candidates_def)

text \<open>Choosing a source for every read and an order for every address.\<close>

definition rf_assignment_of :: "candidate_space \<Rightarrow> source_map \<Rightarrow> bool" where
  "rf_assignment_of s srcs \<longleftrightarrow> list_all2 (\<lambda>(r, w) (r', ws). r = r' \<and> w \<in> set ws) srcs (cs_rf_choices s)"

definition co_selection_of :: "candidate_space \<Rightarrow> (pyval \<times> string list) list \<Rightarrow> bool" where
  "co_selection_of s cos \<longleftrightarrow> list_all2 (\<lambda>(a, os) (a', oss). a = a' \<and> os \<in> set oss) cos (co_entries s)"

lemma zip_choices:
  "(\<exists>ys. list_all2 (\<lambda>y zs. y \<in> set zs) ys (map snd d) \<and> xs = zip (map fst d) ys) \<longleftrightarrow>
   list_all2 (\<lambda>(k, y) (k', zs). k = k' \<and> y \<in> set zs) xs d"
proof (induction d arbitrary: xs)
  case (Cons e d)
  obtain k zs where e: "e = (k, zs)" by (cases e)
  have "(\<exists>ys. list_all2 (\<lambda>y zs. y \<in> set zs) ys (map snd (e # d)) \<and> xs = zip (map fst (e # d)) ys) \<longleftrightarrow>
      (\<exists>y xs'. xs = (k, y) # xs' \<and> y \<in> set zs \<and>
        (\<exists>ys. list_all2 (\<lambda>y zs. y \<in> set zs) ys (map snd d) \<and> xs' = zip (map fst d) ys))"
    by (force simp: e list_all2_Cons2)
  then show ?case unfolding Cons.IH by (auto simp: e list_all2_Cons2)
qed auto

lemma candidates_iff:
  assumes "space_ok s"
  shows "(srcs, cos) \<in> snd ` set (candidates s) \<longleftrightarrow> rf_assignment_of s srcs \<and> co_selection_of s cos"
proof -
  have "srcs \<in> set (rf_assignments s) \<longleftrightarrow> rf_assignment_of s srcs"
    unfolding rf_assignments_def choice_lists [OF assms] rf_assignment_of_def zip_choices [symmetric] set_map
      image_iff Bex_def product_lists_iff read_ids_eq(1) [OF assms] dict_list_keys [OF read_ids_eq(2) [OF assms]] ..
  moreover have "cos \<in> set (co_selections s) \<longleftrightarrow> co_selection_of s cos"
    unfolding co_selections_def co_selection_of_def zip_choices [symmetric] set_map image_iff Bex_def
      product_lists_iff ..
  moreover have "(srcs, cos) \<in> snd ` set (candidates s) \<longleftrightarrow> srcs \<in> set (rf_assignments s) \<and> cos \<in> set (co_selections s)"
    unfolding set_map [symmetric] snd_candidates by auto
  ultimately show ?thesis by simp
qed

end
