(* ===== verification/GraphChecker.thy ===== *)
theory GraphChecker
  imports GraphBuilder
begin

text \<open>
  \<open>src/src/umcm/graph/checker.py\<close>: checking one axiom, all axioms of one execution graph, a graph
  built by hand, and every candidate graph of a trace.
\<close>

section \<open>Results\<close>

datatype axiom_status = SATISFIED | VIOLATED

record axiom_result =
  ar_axiom :: string
  ar_status :: axiom_status
  ar_kind :: string
  ar_relations :: "string list"
  ar_cycle :: "labeled_edge list"
  ar_offending :: "edge list"

record candidate_check =
  cc_graph :: exec_graph
  cc_axioms :: "axiom_result list"

definition allowed :: "candidate_check \<Rightarrow> bool" where
  "allowed c \<longleftrightarrow> list_all (\<lambda>r. ar_status r = SATISFIED) (cc_axioms c)"

datatype memory_model_status = ALLOWED | FORBIDDEN

record memory_model_check =
  mc_status :: memory_model_status
  mc_candidates :: "candidate_check list"

definition status_of :: "bool \<Rightarrow> axiom_status" where
  "status_of b = (if b then SATISFIED else VIOLATED)"

fun status_value :: "axiom_status \<Rightarrow> string" where
  "status_value SATISFIED = ''satisfied''"
| "status_value VIOLATED = ''violated''"

definition labeled_edge_to_dict :: "labeled_edge \<Rightarrow> pyval" where
  "labeled_edge_to_dict e = VMap [(''from'', VStr (le_source e)), (''relation'', VStr (le_relation e)),
     (''to'', VStr (le_target e))]"

definition axiom_result_to_dict :: "axiom_result \<Rightarrow> pyval" where
  "axiom_result_to_dict r = VMap ([(''axiom'', VStr (ar_axiom r)), (''status'', VStr (status_value (ar_status r))),
       (''kind'', VStr (ar_kind r)), (''relations'', VList (map VStr (ar_relations r)))]
     @ (if ar_cycle r = [] then [] else [(''cycle'', VList (map labeled_edge_to_dict (ar_cycle r)))])
     @ (if ar_offending r = [] then [] else [(''offending_edges'', VList (map edge_to_dict (ar_offending r)))]))"

definition representative :: "memory_model_check \<Rightarrow> candidate_check res" where
  "representative c =
     (case mc_candidates c of
        [] \<Rightarrow> Inl GraphError
      | x # xs \<Rightarrow>
          if mc_status c = ALLOWED then or_raise (find allowed (x # xs)) Unmodelled else Inr x)"

section \<open>Checking\<close>

definition check_axiom :: "exec_graph \<Rightarrow> axiom_spec \<Rightarrow> axiom_result res" where
  "check_axiom g a =
     rbind (traverse (graph_relation g) (ax_relations a)) (\<lambda>rels.
       if ax_kind a = ''acyclic'' then
         rbind (find_labeled_cycle rels) (\<lambda>cycle.
           Inr \<lparr>ar_axiom = ax_name a, ar_status = status_of (cycle = None), ar_kind = ax_kind a,
             ar_relations = ax_relations a, ar_cycle = (case cycle of None \<Rightarrow> [] | Some c \<Rightarrow> c), ar_offending = []\<rparr>)
       else
         rbind (union_relations (''axiom:'' @ ax_name a) rels) (\<lambda>combined.
         rbind (if ax_kind a = ''irreflexive'' then Inr (sort (filter (\<lambda>e. fst e = snd e) (rel_edges combined)))
             else if ax_kind a = ''empty'' then Inr (sort (rel_edges combined))
             else Inl GraphError) (\<lambda>offending.
           Inr \<lparr>ar_axiom = ax_name a, ar_status = status_of (offending = []), ar_kind = ax_kind a,
             ar_relations = ax_relations a, ar_cycle = [], ar_offending = offending\<rparr>)))"

definition outcome_result :: "rvwmo_outcome \<Rightarrow> axiom_result" where
  "outcome_result oc = \<lparr>ar_axiom = oc_name oc, ar_status = status_of (oc_satisfied oc), ar_kind = oc_kind oc,
     ar_relations = oc_relations oc, ar_cycle = oc_cycle oc, ar_offending = oc_offending oc\<rparr>"

definition check_execution_graph :: "exec_graph \<Rightarrow> axiom_spec list \<Rightarrow> string option \<Rightarrow> candidate_check res" where
  "check_execution_graph g axioms builtin =
     rbind (if builtin = Some ''rvwmo'' then rbind (check_rvwmo g) (\<lambda>ocs. Inr (map outcome_result ocs))
         else if builtin \<noteq> None then Inl GraphError else Inr []) (\<lambda>builtin_results.
     rbind (traverse (check_axiom g) axioms) (\<lambda>results.
       Inr \<lparr>cc_graph = g, cc_axioms = builtin_results @ results\<rparr>))"

definition check_rvwmo_execution_graph :: "exec_graph \<Rightarrow> axiom_spec list \<Rightarrow> candidate_check res" where
  "check_rvwmo_execution_graph g axioms =
     rbind (complete_rvwmo_relations g) (\<lambda>completed. check_execution_graph completed axioms (Some ''rvwmo''))"

definition check_trace_memory_model :: "trace \<Rightarrow> graph_model \<Rightarrow> int \<Rightarrow> memory_model_check res" where
  "check_trace_memory_model t m max_candidates =
     rbind (prepare_candidates t m max_candidates) (\<lambda>(s, po).
     rbind (traverse (\<lambda>c. rbind (build_graph m s po c) (\<lambda>g.
         check_execution_graph g (gm_axioms m) (gm_builtin m))) (candidates s)) (\<lambda>checks.
     rbind (require (checks \<noteq> []) GraphError) (\<lambda>_.
       Inr \<lparr>mc_status = (if list_ex allowed checks then ALLOWED else FORBIDDEN), mc_candidates = checks\<rparr>)))"

end
