(* ===== verification/CandidateChecks.thy ===== *)
theory CandidateChecks
  imports CandidateGraphs GraphChecker
begin

text \<open>
  From candidates to verdicts: a graph built from a candidate satisfies the graph invariant and has
  exactly the chosen reads-from and coherence edges; the axiom checks decide acyclicity,
  irreflexivity and emptiness; a trace is allowed iff some choice of sources and coherence orders
  passes every check; and no candidate with an atomic memory operation passes the validation of the
  built-in RVWMO model.
\<close>

section \<open>One candidate\<close>

lemma derive_relation_wf: "derive_relation d rels nodes = Inr r \<Longrightarrow> wf_relation r"
  unfolding derive_relation_def union_relations_def intersection_rel_def difference_rel_def
    inverse_rel_def compose_rel_def transitive_closure_def
  by (auto simp: rbind_Inr_iff split: if_splits intro: from_edges_wf)

definition rels_ok :: "rel_map \<Rightarrow> bool" where
  "rels_ok rels \<longleftrightarrow> distinct (map fst rels) \<and> (\<forall>(n, r) \<in> set rels. wf_relation r)"

lemma add_derived_ok:
  assumes "add_derived ops rels d = Inr rels'" "rels_ok rels"
  shows "rels_ok rels'" "\<And>n r. map_of rels n = Some r \<Longrightarrow> map_of rels' n = Some r"
proof -
  obtain r where r: "wf_relation r" "map_of rels (rel_name r) = None" "rels' = AList.update (rel_name r) r rels"
    using assms(1) by (auto simp: add_derived_def rbind_Inr_iff require_Inr_iff dest: derive_relation_wf)
  then show "rels_ok rels'" using assms(2)
    by (auto simp: rels_ok_def update_new map_of_eq_None_iff)
  show "map_of rels n = Some q \<Longrightarrow> map_of rels' n = Some q" for n q using r(2,3) by (auto simp: update_conv')
qed

lemma derived_ok:
  assumes "fold_res (add_derived ops) rels ds = Inr rels'" "rels_ok rels"
  shows "rels_ok rels'" "\<And>n r. map_of rels n = Some r \<Longrightarrow> map_of rels' n = Some r"
proof -
  have "rels_ok rels' \<and> (\<forall>n r. map_of rels n = Some r \<longrightarrow> map_of rels' n = Some r)"
    by (rule fold_res_inv [OF assms(1)]) (use assms(2) add_derived_ok in blast)+
  then show "rels_ok rels'" "\<And>n r. map_of rels n = Some r \<Longrightarrow> map_of rels' n = Some r" by blast+
qed

definition chosen_rf :: "source_map \<Rightarrow> edge set" where
  "chosen_rf srcs = {(w, r). (r, w) \<in> set srcs}"

definition chosen_co :: "(pyval \<times> string list) list \<Rightarrow> edge set" where
  "chosen_co cos = (\<Union>(a, os) \<in> set cos. set (ordered_pairs os))"

lemma hint_names_free:
  "set (map fst hints) = lh_name ` set hs \<Longrightarrow> \<forall>h \<in> set hs. wf_relation_hint h \<Longrightarrow>
   n \<in> {''po'', ''rf'', ''co'', ''rfe'', ''fr'', ''ppo''} \<Longrightarrow> n \<notin> fst ` set hints"
  by (auto simp: wf_relation_hint_def mk_relation_hint_def reserved_relation_def rbind_require split: if_splits)

lemma base_graph_ok:
  assumes s: "space_ok s" and po: "canonical_po (cs_operations s) = Inr po"
    and free: "\<forall>n \<in> {''po'', ''rf'', ''co'', ''rfe'', ''fr'', ''ppo''}. n \<notin> fst ` set (cs_relation_hints s)"
    and g: "base_graph m s po (n, srcs, cos) = Inr g"
  shows "wf_graph g" "eg_operations g = cs_operations s" "edges_of g ''rf'' = chosen_rf srcs"
    and "edges_of g ''co'' = chosen_co cos" "edges_of g ''po'' = set (rel_edges po)"
    and "map_of (eg_relations g) ''rf'' \<noteq> None" "map_of (eg_relations g) ''co'' \<noteq> None"
    and "map_of (eg_relations g) ''po'' \<noteq> None"
proof -
  let ?hints = "cs_relation_hints s"
  obtain rf co inv fr rfe ppo where
    rf: "from_edges ''rf'' (map (\<lambda>(r, w). (w, r)) srcs) = Inr rf"
    and co: "co_relation (map snd cos) = Inr co" and fr: "compose_rel inv co (Some ''fr'') = Inr fr"
    and rfe: "rfe_relation rf (cs_operations s) = Inr rfe"
    and ppo: "ppo_relation po srcs (cs_operations s) (gm_ppo_rules m) = Inr ppo"
    and mk: "mk_graph \<lparr>eg_operations = cs_operations s,
            eg_relations = foldl (\<lambda>d (n, r). AList.update n r d)
              (map (\<lambda>r. (rel_name r, r)) [po, rf, rfe, co, fr, ppo]) ?hints,
            eg_candidate = int n, eg_metadata = candidate_metadata m (n, srcs, cos),
            eg_version = EXECUTION_GRAPH_SCHEMA_VERSION\<rparr> = Inr g"
    using g unfolding base_graph_def prod.case rbind_Inr_iff by (elim exE conjE) (rule that; assumption)
  have names: "rel_name po = ''po''" "rel_name rf = ''rf''" "rel_name rfe = ''rfe''" "rel_name co = ''co''"
    "rel_name fr = ''fr''" "rel_name ppo = ''ppo''"
    using po rf rfe co fr ppo
    by (auto simp: canonical_po_def rfe_relation_def co_relation_def compose_rel_def ppo_relation_def
        name_or_def rbind_Inr_iff dest: from_edges_set split: if_splits)
  have wfr: "\<forall>r \<in> set [po, rf, rfe, co, fr, ppo]. wf_relation r"
    using canonical_po_wf [OF po] rf rfe co fr ppo
    by (auto simp: rfe_relation_def co_relation_def compose_rel_def ppo_relation_def
        rbind_Inr_iff dest: from_edges_wf split: if_splits)
  let ?L = "map (\<lambda>r. (rel_name r, r)) [po, rf, rfe, co, fr, ppo]"
  have dist: "distinct (map fst (?L @ ?hints))" using s free by (auto simp: names space_ok_def)
  have rels: "eg_relations g = ?L @ ?hints" and ops: "eg_operations g = cs_operations s"
    using mk dict_of_foldl_distinct [OF dist] by (auto simp: mk_graph_Inr_iff)
  show "eg_operations g = cs_operations s" by (rule ops)
  have "wf_relation r" if "(n, r) \<in> set (eg_relations g)" for n r
    using that s wfr unfolding rels by (auto simp: space_ok_def)
  moreover have "distinct (map fst (eg_relations g))" using dist unfolding rels .
  moreover have "wf_ops (eg_operations g)" using s by (simp add: ops space_ok_def)
  ultimately show "wf_graph g" using mk unfolding wf_graph_def wf_ops_def by (auto simp: mk_graph_Inr_iff)
  have look: "map_of (eg_relations g) ''rf'' = Some rf" "map_of (eg_relations g) ''co'' = Some co"
    "map_of (eg_relations g) ''po'' = Some po" by (simp_all add: rels names)
  show "map_of (eg_relations g) ''rf'' \<noteq> None" "map_of (eg_relations g) ''co'' \<noteq> None"
    "map_of (eg_relations g) ''po'' \<noteq> None" using look by simp_all
  show "edges_of g ''rf'' = chosen_rf srcs"
    using look from_edges_set [OF rf] by (auto simp: edges_of_def chosen_rf_def)
  show "edges_of g ''co'' = chosen_co cos"
    using look co from_edges_set unfolding co_relation_def by (force simp: edges_of_def chosen_co_def)
  show "edges_of g ''po'' = set (rel_edges po)" using look by (simp add: edges_of_def)
qed

lemma wf_graph_rels_ok: "wf_graph g \<Longrightarrow> rels_ok (eg_relations g)"
  by (auto simp: wf_graph_def rels_ok_def)

lemma edges_of_kept:
  "(\<And>n r. map_of (eg_relations g) n = Some r \<Longrightarrow> map_of (eg_relations g') n = Some r) \<Longrightarrow>
   map_of (eg_relations g) n \<noteq> None \<Longrightarrow> edges_of g' n = edges_of g n"
  by (auto simp: edges_of_def)

lemma prepare_ok:
  assumes "wf_graph_model m" "prepare_candidates t m k = Inr (s, po)"
  shows "space_ok s" "canonical_po (cs_operations s) = Inr po" "int (length (candidates s)) \<le> k"
    and "\<forall>n \<in> {''po'', ''rf'', ''co'', ''rfe'', ''fr'', ''ppo''}. n \<notin> fst ` set (cs_relation_hints s)"
proof -
  have h: "build_candidate_space t m = Inr s" "canonical_po (cs_operations s) = Inr po"
    "int (estimated_candidates s) \<le> k"
    using assms(2) by (auto simp: prepare_candidates_def po_relation_def rbind_Inr_iff require_Inr_iff)
  show "space_ok s" "canonical_po (cs_operations s) = Inr po" by (rule build_candidate_space_ok(1) [OF h(1)], rule h(2))
  then show "int (length (candidates s)) \<le> k" using h(3) by (simp add: length_candidates_estimate)
  have "\<forall>x \<in> set (pj_relation_hints (gm_projection m)). wf_relation_hint x"
    using assms(1) by (simp add: wf_graph_model_def wf_projection_def)
  then show "\<forall>n \<in> {''po'', ''rf'', ''co'', ''rfe'', ''fr'', ''ppo''}. n \<notin> fst ` set (cs_relation_hints s)"
    using hint_names_free [OF build_candidate_space_ok(2) [OF h(1)]] by blast
qed

text \<open>The built graph agrees with its base graph on the three input relations.\<close>

lemma build_graph_steps:
  assumes "build_graph m s po c = Inr g"
  obtains g0 g1 rels where "base_graph m s po c = Inr g0"
    "(if gm_builtin m = Some ''rvwmo'' then complete_rvwmo_relations g0 else Inr g0) = Inr g1"
    "fold_res (add_derived (cs_operations s)) (eg_relations g1) (gm_derived m) = Inr rels"
    "eg_relations g = rels" "eg_operations g = cs_operations s" "mk_graph g = Inr g"
proof -
  obtain g0 g1 rels where h: "base_graph m s po c = Inr g0"
    "(if gm_builtin m = Some ''rvwmo'' then complete_rvwmo_relations g0 else Inr g0) = Inr g1"
    "fold_res (add_derived (cs_operations s)) (eg_relations g1) (gm_derived m) = Inr rels"
    and mk: "mk_graph \<lparr>eg_operations = cs_operations s, eg_relations = rels, eg_candidate = int (fst c),
         eg_metadata = eg_metadata g1, eg_version = EXECUTION_GRAPH_SCHEMA_VERSION\<rparr> = Inr g"
    using assms unfolding build_graph_def rbind_Inr_iff by (elim exE conjE) (rule that; assumption)
  show thesis by (rule that [OF h]) (use mk in \<open>auto simp: mk_graph_Inr_iff\<close>)
qed

lemma built_graph_ok:
  assumes m: "wf_graph_model m" and p: "prepare_candidates t m k = Inr (s, po)"
    and b: "build_graph m s po (n, srcs, cos) = Inr g"
  shows "wf_graph g" "eg_operations g = cs_operations s"
    and "edges_of g ''rf'' = chosen_rf srcs" "edges_of g ''co'' = chosen_co cos"
    and "edges_of g ''po'' = set (rel_edges po)"
proof -
  obtain g0 g1 where g0: "base_graph m s po (n, srcs, cos) = Inr g0"
    and g1: "(if gm_builtin m = Some ''rvwmo'' then complete_rvwmo_relations g0 else Inr g0) = Inr g1"
    and d: "fold_res (add_derived (cs_operations s)) (eg_relations g1) (gm_derived m) = Inr (eg_relations g)"
    and ops: "eg_operations g = cs_operations s" and mk: "mk_graph g = Inr g"
    by (rule build_graph_steps [OF b]) blast
  note base = base_graph_ok [OF prepare_ok(1,2) [OF m p] prepare_ok(4) [OF m p] g0]
  have found: "wf_graph g1 \<and> (\<forall>x \<in> {''rf'', ''co'', ''po''}. map_of (eg_relations g1) x \<noteq> None \<and>
      edges_of g1 x = edges_of g0 x)"
  proof (cases "gm_builtin m = Some ''rvwmo''")
    case True
    then have c: "complete_rvwmo_relations g0 = Inr g1" using g1 by simp
    obtain srcs' orders gmo where cg: "completed g0 g1 srcs' orders gmo" by (rule complete_completed [OF base(1) c])
    have "\<forall>x \<in> {''rf'', ''co'', ''po''}. map_of (eg_relations g1) x \<noteq> None" using cg unfolding completed_def by blast
    moreover have "edges_of g1 ''po'' = edges_of g0 ''po''"
      using rvwmo_graphD(5) [OF completedD(6) [OF cg]] canonical_po_edges [OF _ prepare_ok(2) [OF m p]]
        prepare_ok(1) [OF m p] base(2,5) unfolding space_ok_def by simp
    ultimately show ?thesis using complete_wf [OF base(1) c] completedD(2,3) [OF cg] by simp
  next
    case False
    then have "g1 = g0" using g1 by simp
    moreover have "map_of (eg_relations g0) x \<noteq> None" if "x \<in> {''rf'', ''co'', ''po''}" for x
      using base(6-8) that by auto
    ultimately show ?thesis using base(1) by simp
  qed
  note der = derived_ok [OF d wf_graph_rels_ok [OF conjunct1 [OF found]]]
  have keep: "edges_of g x = edges_of g0 x" if "x \<in> {''rf'', ''co'', ''po''}" for x
    using edges_of_kept [of g1 g x] der(2) found that by metis
  show "edges_of g ''rf'' = chosen_rf srcs" "edges_of g ''co'' = chosen_co cos" "edges_of g ''po'' = set (rel_edges po)"
    using keep base(3-5) by simp_all
  show "eg_operations g = cs_operations s" by (rule ops)
  have "wf_ops (eg_operations g)" using prepare_ok(1) [OF m p] by (simp add: ops space_ok_def)
  then show "wf_graph g" using der(1) mk unfolding wf_graph_def wf_ops_def rels_ok_def by (auto simp: mk_graph_Inr_iff)
qed

section \<open>Axioms\<close>

definition axiom_holds :: "exec_graph \<Rightarrow> axiom_spec \<Rightarrow> bool" where
  "axiom_holds g a \<longleftrightarrow>
     (let E = (\<Union>n \<in> set (ax_relations a). edges_of g n) in
      if ax_kind a = ''acyclic'' then acyclic E
      else if ax_kind a = ''irreflexive'' then \<forall>x. (x, x) \<notin> E
      else E = {})"

lemma graph_relations_edges:
  assumes "traverse (graph_relation g) ns = Inr rs"
  shows "edge_set rs = (\<Union>n \<in> set ns. edges_of g n)"
proof -
  have "list_all2 (\<lambda>n r. map_of (eg_relations g) n = Some r) ns rs"
    using assms by (simp add: traverse_Inr_iff graph_relation_def or_raise_Inr_iff)
  then show ?thesis by (induction rule: list_all2_induct) (auto simp: edge_set_def edges_of_def)
qed

lemma check_axiom_iff:
  assumes "check_axiom g a = Inr r"
  shows "ar_status r = SATISFIED \<longleftrightarrow> axiom_holds g a"
proof -
  obtain rs where rs: "traverse (graph_relation g) (ax_relations a) = Inr rs"
    using assms by (auto simp: check_axiom_def rbind_Inr_iff)
  note E = graph_relations_edges [OF rs]
  show ?thesis
  proof (cases "ax_kind a = ''acyclic''")
    case True
    then obtain c where "find_labeled_cycle rs = Inr c" "ar_status r = status_of (c = None)"
      using assms rs by (auto simp: check_axiom_def rbind_Inr_iff)
    then show ?thesis using dfs.find_none_iff [of rs] True E by (auto simp: status_of_def axiom_holds_def)
  next
    case False
    then obtain u off where u: "union_relations (''axiom:'' @ ax_name a) rs = Inr u"
      and off: "(if ax_kind a = ''irreflexive'' then Inr (sort (filter (\<lambda>e. fst e = snd e) (rel_edges u)))
             else if ax_kind a = ''empty'' then Inr (sort (rel_edges u)) else Inl GraphError) = Inr off"
      and st: "ar_status r = status_of (off = [])"
      using assms rs by (auto simp: check_axiom_def rbind_Inr_iff)
    have "set (rel_edges u) = edge_set rs"
      using u from_edges_set by (fastforce simp: union_relations_def edge_set_def)
    then have U: "set (rel_edges u) = (\<Union>n \<in> set (ax_relations a). edges_of g n)" using E by simp
    consider "ax_kind a = ''irreflexive''" | "ax_kind a = ''empty''" using off by (auto split: if_splits)
    then show ?thesis
    proof cases
      case 1
      then have "off = [] \<longleftrightarrow> (\<forall>x. (x, x) \<notin> set (rel_edges u))"
        using off by (force simp: filter_empty_conv)
      then show ?thesis using st 1 unfolding U by (simp add: status_of_def axiom_holds_def Let_def)
    next
      case 2
      then have "off = [] \<longleftrightarrow> set (rel_edges u) = {}" using off by auto
      then show ?thesis using st 2 unfolding U by (simp add: status_of_def axiom_holds_def Let_def)
    qed
  qed
qed

lemma check_axiom_total:
  assumes "wf_graph g" "wf_axiom a" "\<forall>n \<in> set (ax_relations a). map_of (eg_relations g) n \<noteq> None"
  shows "\<exists>r. check_axiom g a = Inr r"
proof -
  obtain rs where rs: "traverse (graph_relation g) (ax_relations a) = Inr rs"
    using assms(3) traverse_ok_iff [of "graph_relation g" "ax_relations a"]
    by (auto simp: graph_relation_def or_raise_Inr_iff)
  have "\<forall>r \<in> set rs. wf_relation r"
    using traverse_Inr_imageD [OF rs] assms(1)
    by (fastforce simp: graph_relation_def or_raise_Inr_iff wf_graph_def dest: map_of_SomeD)
  then have "edges_ok (concat (map rel_edges rs))" by (auto simp: edges_ok_iff wf_relation_iff)
  then have "\<exists>u. union_relations (''axiom:'' @ ax_name a) rs = Inr u"
    by (simp add: union_relations_def from_edges_ok)
  moreover obtain c where "find_labeled_cycle rs = Inr c" using dfs.find_total by blast
  moreover have "ax_kind a \<in> {''acyclic'', ''irreflexive'', ''empty''}"
    using assms(2) by (simp add: wf_axiom_def mk_axiom_def rbind_require split: if_splits)
  ultimately show ?thesis by (auto simp: check_axiom_def rs rbind_Inr_iff)
qed

section \<open>Traces\<close>

text \<open>A graph passes a model when the built-in outcomes, if any, are satisfied and every axiom holds.\<close>

definition passes :: "graph_model \<Rightarrow> exec_graph \<Rightarrow> bool" where
  "passes m g \<longleftrightarrow>
     (gm_builtin m = Some ''rvwmo'' \<longrightarrow> (\<exists>ocs. check_rvwmo g = Inr ocs \<and> (\<forall>oc \<in> set ocs. oc_satisfied oc))) \<and>
     (\<forall>a \<in> set (gm_axioms m). axiom_holds g a)"

lemma check_graph_allowed:
  assumes "check_execution_graph g (gm_axioms m) (gm_builtin m) = Inr cc"
  shows "cc_graph cc = g" "allowed cc \<longleftrightarrow> passes m g"
proof -
  obtain bs rs where bs: "(if gm_builtin m = Some ''rvwmo'' then rbind (check_rvwmo g) (\<lambda>ocs. Inr (map outcome_result ocs))
         else if gm_builtin m \<noteq> None then Inl GraphError else Inr []) = Inr bs"
    and rs: "traverse (check_axiom g) (gm_axioms m) = Inr rs" and cc: "cc = \<lparr>cc_graph = g, cc_axioms = bs @ rs\<rparr>"
    using assms by (auto simp: check_execution_graph_def rbind_Inr_iff)
  show "cc_graph cc = g" by (simp add: cc)
  have "(\<forall>r \<in> set rs. ar_status r = SATISFIED) \<longleftrightarrow> (\<forall>a \<in> set (gm_axioms m). axiom_holds g a)"
    using rs check_axiom_iff by (blast dest: traverse_Inr_imageD traverse_Inr_memD)
  moreover have "(\<forall>r \<in> set bs. ar_status r = SATISFIED) \<longleftrightarrow>
      (gm_builtin m = Some ''rvwmo'' \<longrightarrow> (\<exists>ocs. check_rvwmo g = Inr ocs \<and> (\<forall>oc \<in> set ocs. oc_satisfied oc)))"
    using bs by (auto simp: rbind_Inr_iff outcome_result_def status_of_def split: if_splits)
  ultimately show "allowed cc \<longleftrightarrow> passes m g" by (auto simp: allowed_def cc list_all_iff passes_def)
qed

lemma candidates_nonempty: assumes "space_ok s" shows "candidates s \<noteq> []"
proof -
  have rc: "cs \<noteq> []" if "(i, cs) \<in> set (cs_rf_choices s)" for i cs
  proof -
    have "i \<in> set (map fst (cs_rf_choices s))" using that by force
    then obtain r where r: "r \<in> set (reads_of (cs_operations s))" "i = mo_id r"
      unfolding space_okD(2) [OF assms] by auto
    show ?thesis by (rule space_okD(3) [OF assms r(1) that [unfolded r(2)]])
  qed
  obtain gs where "list_all2 (\<lambda>(a, ws) (b, os). a = b \<and> os \<noteq> [] \<and> (\<forall>o' \<in> set os. order_of_group ws o'))
      gs (cs_co_orders s)"
    using assms unfolding space_ok_def by blast
  then have "\<forall>c \<in> set (cs_co_orders s). snd c \<noteq> []" by (induction rule: list_all2_induct) auto
  then have "0 < estimated_candidates s" unfolding estimated_candidates_def
    using rc by (auto simp: prod_list_zero_iff neq0_conv [symmetric] simp del: neq0_conv)
  then show ?thesis using length_candidates_estimate [OF assms] by auto
qed

lemma check_trace_steps:
  assumes "check_trace_memory_model t m k = Inr mc"
  obtains s po where "prepare_candidates t m k = Inr (s, po)"
    "traverse (\<lambda>c. rbind (build_graph m s po c) (\<lambda>g.
         check_execution_graph g (gm_axioms m) (gm_builtin m))) (candidates s) = Inr (mc_candidates mc)"
    "mc_status mc = ALLOWED \<longleftrightarrow> (\<exists>cc \<in> set (mc_candidates mc). allowed cc)"
  using assms by (auto simp: check_trace_memory_model_def rbind_Inr_iff list_ex_iff)

lemma check_trace_iff:
  assumes m: "wf_graph_model m" and ck: "check_trace_memory_model t m k = Inr mc"
    and p: "prepare_candidates t m k = Inr (s, po)"
  shows "mc_status mc = ALLOWED \<longleftrightarrow> (\<exists>srcs cos n g. rf_assignment_of s srcs \<and> co_selection_of s cos \<and>
       (n, srcs, cos) \<in> set (candidates s) \<and> build_graph m s po (n, srcs, cos) = Inr g \<and> passes m g)"
proof -
  let ?f = "\<lambda>c. rbind (build_graph m s po c) (\<lambda>g. check_execution_graph g (gm_axioms m) (gm_builtin m))"
  obtain s' po' where p': "prepare_candidates t m k = Inr (s', po')"
    and tr': "traverse (\<lambda>c. rbind (build_graph m s' po' c) (\<lambda>g.
         check_execution_graph g (gm_axioms m) (gm_builtin m))) (candidates s') = Inr (mc_candidates mc)"
    and st: "mc_status mc = ALLOWED \<longleftrightarrow> (\<exists>cc \<in> set (mc_candidates mc). allowed cc)"
    by (rule check_trace_steps [OF ck])
  have tr: "traverse ?f (candidates s) = Inr (mc_candidates mc)" using tr' p p' by simp
  have one: "(\<exists>cc. ?f c = Inr cc \<and> allowed cc) \<longleftrightarrow> (\<exists>g. build_graph m s po c = Inr g \<and> passes m g)"
    if "c \<in> set (candidates s)" for c
  proof -
    note mem = that
    obtain cc where "?f c = Inr cc" using traverse_Inr_memD [OF tr mem] by blast
    then show ?thesis using check_graph_allowed(2) by (auto simp: rbind_Inr_iff)
  qed
  have "(\<exists>cc \<in> set (mc_candidates mc). allowed cc) \<longleftrightarrow>
      (\<exists>c \<in> set (candidates s). \<exists>cc. ?f c = Inr cc \<and> allowed cc)"
    using traverse_Inr_imageD [OF tr] traverse_Inr_memD [OF tr] by fastforce
  then have "mc_status mc = ALLOWED \<longleftrightarrow>
      (\<exists>c \<in> set (candidates s). \<exists>g. build_graph m s po c = Inr g \<and> passes m g)"
    using st one by blast
  moreover have "(srcs, cos) \<in> snd ` set (candidates s)" if "(n, srcs, cos) \<in> set (candidates s)" for n srcs cos
    using that by force
  ultimately show ?thesis using candidates_iff [OF prepare_ok(1) [OF m p]] by (auto simp: Bex_def) blast+
qed

section \<open>Atomic memory operations under the built-in model\<close>

lemma order_of_group_kinds:
  assumes "order_of_group ws os" "x \<in> set os"
  shows "\<exists>w \<in> set ws. mo_id w = x \<and> mo_kind w \<noteq> AMO"
proof -
  obtain p where p: "mset p = mset (stores_of ws)" "os = inits_of ws @ p"
    using assms(1) by (auto simp: order_of_group_def)
  have "x \<in> set (inits_of ws) \<or> x \<in> set (stores_of ws)" using assms(2) p mset_eq_setD [OF p(1)] by auto
  then show ?thesis by (auto simp: inits_of_def stores_of_def)
qed

lemma chosen_co_kinds:
  assumes s: "space_ok s" and sel: "co_selection_of s cos" and e: "(a, b) \<in> chosen_co cos" and x: "x \<in> {a, b}"
  shows "\<exists>w. map_of (cs_operations s) x = Some w \<and> mo_kind w \<noteq> AMO"
proof -
  obtain ad os where os: "(ad, os) \<in> set cos" "(a, b) \<in> set (ordered_pairs os)"
    using e by (auto simp: chosen_co_def)
  have xo: "x \<in> set os" using ordered_pairs_mem [OF os(2)] x by auto
  obtain oss where "(ad, oss) \<in> set (co_entries s)" "os \<in> set oss"
    using sel os(1) unfolding co_selection_of_def by (fastforce simp: list_all2_conv_all_nth in_set_conv_nth)
  then have oss: "(ad, oss) \<in> set (cs_co_orders s)" "os \<in> set oss" by (simp_all add: co_entries_def)
  obtain gs where gs: "groups_ok (writes_of (cs_operations s)) gs"
    "list_all2 (\<lambda>(a, ws) (b, os). a = b \<and> os \<noteq> [] \<and> (\<forall>o' \<in> set os. order_of_group ws o')) gs (cs_co_orders s)"
    using s unfolding space_ok_def by blast
  obtain i where i: "i < length gs" "cs_co_orders s ! i = (ad, oss)"
    using oss(1) gs(2) by (auto simp: in_set_conv_nth list_all2_lengthD)
  obtain ws where ws: "gs ! i = (ad, ws)" "order_of_group ws os"
    using list_all2_nthD [OF gs(2) i(1)] i(2) oss(2) by (cases "gs ! i") auto
  then obtain w where "w \<in> set ws" "mo_id w = x" "mo_kind w \<noteq> AMO" using order_of_group_kinds [OF _ xo] by blast
  moreover have "set ws \<subseteq> set (writes_of (cs_operations s))"
    using groups_ok_sub [OF gs(1)] nth_mem [OF i(1)] ws(1) by metis
  ultimately show ?thesis
    using set_ops_list s unfolding space_ok_def writes_of_def by fastforce
qed

lemma rf_valid_read:
  "rf_valid ops rf srcs \<Longrightarrow> map_of ops r = Some b \<Longrightarrow> is_read b \<Longrightarrow> \<exists>w. (w, r) \<in> rf"
  unfolding rf_valid_def by (elim conjE) simp

lemma amo_candidate_rejected:
  assumes m: "wf_graph_model m" "gm_builtin m = Some ''rvwmo''" and p: "prepare_candidates t m k = Inr (s, po)"
    and c: "c \<in> set (candidates s)" and amo: "map_of (cs_operations s) a = Some x" "mo_kind x = AMO"
  shows "\<exists>e. build_graph m s po c = Inl e"
proof (rule ccontr)
  assume "\<nexists>e. build_graph m s po c = Inl e"
  then obtain g where "build_graph m s po c = Inr g" by (cases "build_graph m s po c") auto
  then obtain g0 g1 where g0: "base_graph m s po c = Inr g0" and g1: "complete_rvwmo_relations g0 = Inr g1"
    using m(2) by (auto elim: build_graph_steps)
  obtain n srcs cos where cc: "c = (n, srcs, cos)" by (cases c)
  note sp = prepare_ok(1) [OF m(1) p]
  note base = base_graph_ok [OF sp prepare_ok(2) [OF m(1) p] prepare_ok(4) [OF m(1) p] g0 [unfolded cc]]
  have sel: "co_selection_of s cos" using candidates_iff [OF sp] c cc by force
  obtain srcs' orders gmo where cg: "completed g0 g1 srcs' orders gmo" by (rule complete_completed [OF base(1) g1])
  note gr = completedD(6) [OF cg, unfolded base(2)] and same = completedD(2,3) [OF cg]
  have read: "is_read x" using amo(2) by (simp add: is_read_def is_read_kind_def)
  obtain w where w: "(w, a) \<in> edges_of g1 ''rf''"
    by (rule rf_valid_read [OF rvwmo_graphD(2) [OF gr] amo(1) read, THEN exE])
  obtain y x' where y: "map_of (cs_operations s) w = Some y" "map_of (cs_operations s) a = Some x'" "is_write y"
    "w \<noteq> a" "fp y = fp x'"
    by (rule rf_ops [OF gr w])
  have x': "x' = x" using amo(1) y(2) by simp
  have "is_write x" using amo(2) by (simp add: is_write_def)
  then have "(w, a) \<in> edges_of g1 ''co'' \<or> (a, w) \<in> edges_of g1 ''co''"
    by (rule co_valid_total [OF rvwmo_graphD(3) [OF gr] y(1) amo(1) y(3) _ y(4) y(5) [unfolded x']])
  then have "(w, a) \<in> chosen_co cos \<or> (a, w) \<in> chosen_co cos" by (simp add: same base(4))
  then have "\<exists>z. map_of (cs_operations s) a = Some z \<and> mo_kind z \<noteq> AMO"
    by (elim disjE) (rule chosen_co_kinds [OF sp sel], assumption, simp)+
  then show False using amo by simp
qed

end
