(* ===== verification/Litmus.thy ===== *)
theory Litmus
  imports RvwmoCheck EvalMono CandidateChecks
begin

text \<open>
  Concrete inputs: a litmus graph with a load-reserved/store-conditional pair on one hart and an
  atomic memory operation on another, an evaluation context, a catalog with one event type, and a
  small graph model. Every property with a hypothesis is applied to one of them.
\<close>

section \<open>An execution graph\<close>

definition litmus_op :: "string \<Rightarrow> op_kind \<Rightarrow> int \<Rightarrow> pyval \<Rightarrow> int option \<Rightarrow> int option \<Rightarrow> string \<Rightarrow> memory_op" where
  "litmus_op i k v w h n atomic = \<lparr>mo_id = i, mo_kind = k, mo_address = VInt 0, mo_value = VInt v,
     mo_write_value = w, mo_hart = h, mo_index = n, mo_source_event = [], mo_commit_event = i,
     mo_metadata = (if atomic = [] then [] else [(''atomic_kind'', VStr atomic)])\<rparr>"

definition litmus_ops :: op_map where
  "litmus_ops = map (\<lambda>m. (mo_id m, m))
     [litmus_op ''i'' INIT_WRITE 0 VNone None None [], litmus_op ''l'' READ 0 VNone (Some 0) (Some 0) ''lr'',
      litmus_op ''s'' WRITE 1 VNone (Some 0) (Some 1) ''sc'',
      litmus_op ''a'' AMO 1 (VInt 2) (Some 1) (Some 0) []]"

definition litmus_rel :: "string \<Rightarrow> edge list \<Rightarrow> string \<times> relation" where
  "litmus_rel n es = (n, \<lparr>rel_name = n, rel_edges = es\<rparr>)"

definition litmus_graph :: exec_graph where
  "litmus_graph = \<lparr>eg_operations = litmus_ops,
     eg_relations = [litmus_rel ''rf'' [(''i'', ''l''), (''s'', ''a'')],
       litmus_rel ''co'' [(''i'', ''s''), (''i'', ''a''), (''s'', ''a'')],
       litmus_rel ''pair'' [(''l'', ''s'')]],
     eg_candidate = 0, eg_metadata = [], eg_version = ''v''\<rparr>"

lemma litmus_wf: "wf_graph litmus_graph"
  by code_simp

lemma litmus_storable: "\<forall>(k, m) \<in> set (eg_operations litmus_graph). storable_op m"
  by code_simp

definition litmus_verdicts :: "bool list res" where
  "litmus_verdicts = rbind (complete_rvwmo_relations litmus_graph) (\<lambda>g'.
     rbind (check_rvwmo g') (\<lambda>ocs. Inr (map oc_satisfied ocs)))"

lemma litmus_verdicts_ok: "litmus_verdicts = Inr [True, True, True, True, True]"
  by code_simp

lemma litmus_runs:
  obtains g' ocs where "complete_rvwmo_relations litmus_graph = Inr g'" "check_rvwmo g' = Inr ocs"
    "map oc_satisfied ocs = [True, True, True, True, True]"
  using litmus_verdicts_ok by (auto simp: litmus_verdicts_def rbind_Inr_iff simp del: map_eq_Cons_conv)

lemma litmus_run_nth:
  "map oc_satisfied ocs = [True, True, True, True, True] \<Longrightarrow> i < 4 \<Longrightarrow> oc_satisfied (ocs ! i)"
  by (auto simp: map_eq_Cons_conv less_Suc_eq numeral_eq_Suc)

section \<open>An evaluation context\<close>

definition sample_event :: event_instance where
  "sample_event = \<lparr>ei_id = ''e'', ei_type = ''core.load'',
     ei_fields = [(''addr'', VExpr (Symbol ''a'' INT_SORT)), (''size'', VInt 4)],
     ei_cycle = VInt 0, ei_occurs = VBool True, ei_annotations = []\<rparr>"

definition sample_context :: "(string \<Rightarrow> pyval option) \<Rightarrow> eval_context" where
  "sample_context a = \<lparr>ctx_events = [(''e'', sample_event)], ctx_assignment = a,
     ctx_functions = default_functions\<rparr>"

definition sample_expr :: expr where
  "sample_expr = Nary ''and''
     [Binary ''lt'' (EventField ''e'' ''addr'' INT_SORT) (Literal (SInt 8) INT_SORT),
      Binary ''eq'' (EventField ''e'' ''size'' INT_SORT) (Literal (SInt 4) INT_SORT)]"

definition a_is_three :: "string \<Rightarrow> pyval option" where
  "a_is_three n = (if n = ''a'' then Some (VInt 3) else None)"

lemma sample_context_typed:
  "typed_context (sample_context a_is_three)" "typed_context (sample_context (\<lambda>_. None))"
  by (simp_all add: typed_context_def sample_context_def sample_event_def event_values_def
      typed_value_def typed_simps symbol_typed_def a_is_three_def conforms_numeric)

lemma sample_expr_typed:
  "typed (sample_context a_is_three) sample_expr" "typed (sample_context (\<lambda>_. None)) sample_expr"
  by code_simp+

lemma sample_flat: "flat_context (sample_context a_is_three)"
  by (simp add: flat_context_def sample_context_def sample_event_def event_values_def)

definition sample_or :: expr where
  "sample_or = Nary ''or''
     [Binary ''lt'' (EventField ''e'' ''addr'' INT_SORT) (Literal (SInt 8) INT_SORT),
      Binary ''eq'' (EventField ''e'' ''size'' INT_SORT) (Literal (SInt 4) INT_SORT)]"

lemma sample_or_typed:
  "typed (sample_context a_is_three) sample_or" "typed (sample_context (\<lambda>_. None)) sample_or"
  "expr_is_bool sample_or"
  by code_simp+

lemma sample_context_le: "context_le (sample_context (\<lambda>_. None)) (sample_context a_is_three)"
  by (simp add: context_le_def sample_context_typed) (simp add: sample_context_def assignment_le_def)

lemma sample_event_encodable: "encodable_event sample_event"
  by code_simp

section \<open>A catalog and a graph model\<close>

definition sample_type :: event_type where
  "sample_type = \<lparr>et_name = ''core.load'', et_module = ''core'', et_layer = ''isa'',
     et_fields = [\<lparr>fs_name = ''addr'', fs_sort = INT_SORT, fs_required = True, fs_identity = False,
         fs_description = []\<rparr>,
       \<lparr>fs_name = ''size'', fs_sort = INT_SORT, fs_required = False, fs_identity = False,
         fs_description = []\<rparr>],
     et_visibility = PUBLIC, et_description = [], et_tags = []\<rparr>"

definition sample_catalog :: event_catalog where
  "sample_catalog = \<lparr>ec_types = [(''core.load'', sample_type)],
     ec_version = EVENT_CATALOG_SCHEMA_VERSION, ec_metadata = []\<rparr>"

lemma sample_catalog_wf: "wf_catalog sample_catalog"
  by code_simp

lemma sample_event_valid: "validate_events sample_catalog False [sample_event] = Inr ()"
  by code_simp

definition sample_projection :: projection_spec where
  "sample_projection = \<lparr>pj_init = ''m.init'', pj_load = ''m.load'', pj_store = ''m.store'',
     pj_commit = ''m.commit'', pj_id = ''op_id'', pj_address = ''address'', pj_value = ''value'',
     pj_hart = ''hart'', pj_index = ''program_index'', pj_require_committed = True, pj_amo = None,
     pj_lr = None, pj_sc = None, pj_write_value = ''write_value'', pj_metadata = [],
     pj_rf_hints = [], pj_co_hints = [],
     pj_relation_hints = [\<lparr>lh_name = ''fence'', lh_event = ''m.fence'', lh_source = ''a'', lh_target = ''b''\<rparr>]\<rparr>"

definition sample_model :: graph_model where
  "sample_model = \<lparr>gm_model = ''sc'', gm_projection = sample_projection,
     gm_derived = [\<lparr>dv_name = ''com'', dv_op = ''union'', dv_relations = [''rf'', ''co'', ''fr'']\<rparr>],
     gm_axioms = [\<lparr>ax_name = ''sc'', ax_kind = ''acyclic'', ax_relations = [''po'', ''com''], ax_description = []\<rparr>],
     gm_builtin = None, gm_ppo_rules = [], gm_metadata = [], gm_version = GRAPH_MODEL_SCHEMA_VERSION\<rparr>"

lemma sample_model_wf: "wf_graph_model sample_model"
  by code_simp

section \<open>A trace\<close>

definition litmus_event :: "string \<Rightarrow> string \<Rightarrow> (string \<times> pyval) list \<Rightarrow> event_instance" where
  "litmus_event i ty fs = \<lparr>ei_id = i, ei_type = ty, ei_fields = fs, ei_cycle = VInt 0,
     ei_occurs = VBool True, ei_annotations = []\<rparr>"

definition litmus_access :: "string \<Rightarrow> int \<Rightarrow> int \<Rightarrow> (string \<times> pyval) list" where
  "litmus_access i h n = [(''op_id'', VStr i), (''address'', VStr ''x''), (''hart'', VInt h), (''program_index'', VInt n)]"

definition litmus_trace :: trace where
  "litmus_trace = \<lparr>tr_events =
       [litmus_event ''e0'' ''m.init'' [(''op_id'', VStr ''i''), (''address'', VStr ''x''), (''value'', VInt 0)],
        litmus_event ''e1'' ''m.store'' (litmus_access ''s'' 0 0 @ [(''value'', VInt 1)]),
        litmus_event ''e2'' ''m.load'' (litmus_access ''l'' 1 0),
        litmus_event ''e3'' ''m.commit'' [(''op_id'', VStr ''l''), (''value'', VInt 1)]],
     tr_constraints = [Binary ''eq'' (EventField ''e1'' ''cycle'' INT_SORT) (Literal (SInt 0) INT_SORT)],
     tr_partial = False, tr_metadata = [], tr_version = TRACE_SCHEMA_VERSION\<rparr>"

definition litmus_space :: "(candidate_space \<times> relation) res" where
  "litmus_space = prepare_candidates litmus_trace sample_model 10"

definition litmus_status :: "memory_model_status res" where
  "litmus_status = rbind (check_trace_memory_model litmus_trace sample_model 10) (\<lambda>mc. Inr (mc_status mc))"

lemma litmus_status_allowed: "litmus_status = Inr ALLOWED"
  by code_simp

text \<open>The same accesses with an atomic memory operation instead of the load, under built-in RVWMO.\<close>

definition amo_trace :: trace where
  "amo_trace = litmus_trace\<lparr>tr_events :=
       [litmus_event ''e0'' ''m.init'' [(''op_id'', VStr ''i''), (''address'', VStr ''x''), (''value'', VInt 0)],
        litmus_event ''e2'' ''m.amo'' (litmus_access ''a'' 1 0 @ [(''write_value'', VInt 2)]),
        litmus_event ''e3'' ''m.commit'' [(''op_id'', VStr ''a''), (''value'', VInt 0)]]\<rparr>"

definition amo_model :: graph_model where
  "amo_model = sample_model\<lparr>gm_builtin := Some ''rvwmo'',
     gm_projection := sample_projection\<lparr>pj_amo := Some ''m.amo''\<rparr>\<rparr>"

definition amo_prepared :: "(candidate_space \<times> relation) res" where
  "amo_prepared = prepare_candidates amo_trace amo_model 10"

definition amo_facts :: "(nat \<times> (string \<times> op_kind) list) res" where
  "amo_facts = rbind amo_prepared (\<lambda>(s, po). Inr (length (candidates s), map (\<lambda>(i, m). (i, mo_kind m)) (cs_operations s)))"

lemma amo_facts_val: "amo_facts = Inr (1, [(''i'', INIT_WRITE), (''a'', AMO)])"
  by code_simp

lemma amo_model_wf: "wf_graph_model amo_model"
  by code_simp

definition litmus_type :: "string \<Rightarrow> string \<times> event_type" where
  "litmus_type n = (n, \<lparr>et_name = n, et_module = ''m'', et_layer = ''arch'',
     et_fields = map (\<lambda>(f, s). \<lparr>fs_name = f, fs_sort = s, fs_required = False, fs_identity = False,
         fs_description = []\<rparr>)
       [(''op_id'', STRING_SORT), (''address'', STRING_SORT), (''value'', INT_SORT), (''hart'', INT_SORT),
        (''program_index'', INT_SORT)],
     et_visibility = ARCHITECTURAL, et_description = [], et_tags = []\<rparr>)"

definition litmus_catalog :: event_catalog where
  "litmus_catalog = \<lparr>ec_types = map litmus_type [''m.init'', ''m.store'', ''m.load'', ''m.commit''],
     ec_version = EVENT_CATALOG_SCHEMA_VERSION, ec_metadata = []\<rparr>"

lemma litmus_catalog_wf: "wf_catalog litmus_catalog"
  by code_simp

lemma litmus_trace_wf: "wf_trace litmus_trace" "encodable_trace litmus_trace" "cycles_known litmus_trace"
  by code_simp+

lemma litmus_trace_valid: "validate_trace litmus_catalog None litmus_trace = Inr ()"
  by code_simp

lemma litmus_spaceE:
  obtains s po c g where "prepare_candidates litmus_trace sample_model 10 = Inr (s, po)"
    "c \<in> set (candidates s)" "build_graph sample_model s po c = Inr g"
proof -
  have "(case rbind litmus_space (\<lambda>(s, po). traverse (build_graph sample_model s po) (candidates s)) of
      Inr (g # gs) \<Rightarrow> True | _ \<Rightarrow> False)" by code_simp
  then obtain s po g gs where h: "litmus_space = Inr (s, po)"
    "traverse (build_graph sample_model s po) (candidates s) = Inr (g # gs)"
    by (auto simp: rbind_Inr_iff split: sum.splits list.splits)
  then obtain c where "c \<in> set (candidates s)" "build_graph sample_model s po c = Inr g"
    using traverse_Inr_imageD [OF h(2), of g] by auto
  then show thesis using that h(1) by (auto simp: litmus_space_def)
qed

end
