(* ===== verification/StateIR.thy ===== *)
theory StateIR
  imports EventIR
begin

text \<open>
  \<open>src/src/umcm/ir/state.py\<close>: persistent state cells, requirements on the state before a cycle
  and updates of the state after it, with the checks of their constructors and their dictionary
  forms. The classes are instances of the \<open>encoder\<close> and \<open>codec\<close> contracts.
\<close>

section \<open>State variables\<close>

record state_variable =
  sv_name :: string
  sv_sort :: pysort
  sv_initial :: pyval
  sv_description :: string

definition mk_state_variable :: "state_variable \<Rightarrow> state_variable res" where
  "mk_state_variable v =
     rbind (require (sv_name v \<noteq> [] \<and> CHR ''.'' \<in> set (sv_name v)) SchemaError) (\<lambda>_.
     rbind (require (value_fits (sv_sort v) (sv_initial v)) SchemaError) (\<lambda>_. Inr v))"

definition description_entry :: "string \<Rightarrow> (string \<times> pyval) list" where
  "description_entry s = (if s = [] then [] else [(''description'', VStr s)])"

definition state_variable_to_dict :: "state_variable \<Rightarrow> pyval" where
  "state_variable_to_dict v = VMap ([(''name'', VStr (sv_name v)), (''sort'', sort_to_dict (sv_sort v)),
     (''initial'', encode_value (sv_initial v))] @ description_entry (sv_description v))"

definition state_variable_from_dict :: "pyval \<Rightarrow> state_variable res" where
  "state_variable_from_dict v = with_map v (\<lambda>d.
     rbind (get_key d ''name'' SerializationError) (\<lambda>n.
     rbind (get_key d ''sort'' SerializationError) (\<lambda>sv.
     rbind (sort_from_dict sv) (\<lambda>s.
     rbind (get_key d ''initial'' SerializationError) (\<lambda>iv.
     rbind (decode_value iv) (\<lambda>i.
       mk_state_variable \<lparr>sv_name = py_str n, sv_sort = s, sv_initial = i,
         sv_description = str_default d ''description'' []\<rparr>))))))"

text \<open>The class invariant: what the constructor checks, on well-formed components.\<close>

definition wf_state_variable :: "state_variable \<Rightarrow> bool" where
  "wf_state_variable v \<longleftrightarrow> sv_name v \<noteq> [] \<and> CHR ''.'' \<in> set (sv_name v) \<and> wf_sort (sv_sort v) \<and>
     value_fits (sv_sort v) (sv_initial v) \<and> wf_data (sv_initial v)"

section \<open>Requirements and updates\<close>

record state_requirement =
  rq_state :: string
  rq_at :: string
  rq_op :: string
  rq_value :: expr
  rq_description :: string

record state_update =
  up_state :: string
  up_at :: string
  up_value :: expr
  up_description :: string

definition comparison_ops :: "string list" where
  "comparison_ops = [''eq'', ''ne'', ''lt'', ''le'', ''gt'', ''ge'']"

definition mk_requirement :: "state_requirement \<Rightarrow> state_requirement res" where
  "mk_requirement r =
     rbind (require (rq_state r \<noteq> []) SchemaError) (\<lambda>_.
     rbind (require (rq_at r \<noteq> []) SchemaError) (\<lambda>_.
     rbind (require (rq_op r \<in> set comparison_ops) SchemaError) (\<lambda>_. Inr r)))"

definition requirement_to_dict :: "state_requirement \<Rightarrow> pyval" where
  "requirement_to_dict r = VMap ([(''state'', VStr (rq_state r)), (''at'', VStr (rq_at r)),
     (''op'', VStr (rq_op r)), (''value'', expr_to_dict (rq_value r))] @ description_entry (rq_description r))"

definition requirement_from_dict :: "pyval \<Rightarrow> state_requirement res" where
  "requirement_from_dict v = with_map v (\<lambda>d.
     rbind (get_key d ''state'' SerializationError) (\<lambda>s.
     rbind (get_key d ''at'' SerializationError) (\<lambda>a.
     rbind (get_key d ''value'' SerializationError) (\<lambda>ev.
     rbind (expr_from_dict ev) (\<lambda>e.
       mk_requirement \<lparr>rq_state = py_str s, rq_at = py_str a, rq_op = str_default d ''op'' ''eq'',
         rq_value = e, rq_description = str_default d ''description'' []\<rparr>)))))"

definition mk_update :: "state_update \<Rightarrow> state_update res" where
  "mk_update u =
     rbind (require (up_state u \<noteq> []) SchemaError) (\<lambda>_.
     rbind (require (up_at u \<noteq> []) SchemaError) (\<lambda>_. Inr u))"

definition update_to_dict :: "state_update \<Rightarrow> pyval" where
  "update_to_dict u = VMap ([(''state'', VStr (up_state u)), (''at'', VStr (up_at u)),
     (''value'', expr_to_dict (up_value u))] @ description_entry (up_description u))"

definition update_from_dict :: "pyval \<Rightarrow> state_update res" where
  "update_from_dict v = with_map v (\<lambda>d.
     rbind (get_key d ''state'' SerializationError) (\<lambda>s.
     rbind (get_key d ''at'' SerializationError) (\<lambda>a.
     rbind (get_key d ''value'' SerializationError) (\<lambda>ev.
     rbind (expr_from_dict ev) (\<lambda>e.
       mk_update \<lparr>up_state = py_str s, up_at = py_str a, up_value = e,
         up_description = str_default d ''description'' []\<rparr>)))))"

definition wf_requirement :: "state_requirement \<Rightarrow> bool" where
  "wf_requirement r \<longleftrightarrow> rq_state r \<noteq> [] \<and> rq_at r \<noteq> [] \<and> rq_op r \<in> set comparison_ops \<and> wf_expr (rq_value r)"

definition wf_update :: "state_update \<Rightarrow> bool" where
  "wf_update u \<longleftrightarrow> up_state u \<noteq> [] \<and> up_at u \<noteq> [] \<and> wf_expr (up_value u)"

section \<open>Lemmas\<close>

lemma mk_state_variable_Inr [res_simps]:
  "mk_state_variable v = Inr v' \<longleftrightarrow> v' = v \<and> sv_name v \<noteq> [] \<and> CHR ''.'' \<in> set (sv_name v) \<and>
     value_fits (sv_sort v) (sv_initial v)"
  by (auto simp: mk_state_variable_def rbind_require)

lemma mk_requirement_Inr [res_simps]:
  "mk_requirement r = Inr r' \<longleftrightarrow> r' = r \<and> rq_state r \<noteq> [] \<and> rq_at r \<noteq> [] \<and> rq_op r \<in> set comparison_ops"
  by (auto simp: mk_requirement_def rbind_require)

lemma mk_update_Inr [res_simps]: "mk_update u = Inr u' \<longleftrightarrow> u' = u \<and> up_state u \<noteq> [] \<and> up_at u \<noteq> []"
  by (auto simp: mk_update_def rbind_require)

lemma str_default_description [simp]:
  "str_default (description_entry s) ''description'' [] = s"
  by (simp add: str_default_def description_entry_def)

lemma str_default_Cons [simp]:
  "str_default ((k', v) # d) k s = (if k' = k then py_str v else str_default d k s)"
  by (simp add: str_default_def)

lemma value_fits_encodable: "value_fits s v \<Longrightarrow> wf_data v \<Longrightarrow> encodable v"
  by (cases v) (auto simp: value_fits_def dest: accepts_scalar)

lemma state_variable_dec_enc:
  "wf_state_variable v \<Longrightarrow> state_variable_from_dict (state_variable_to_dict v) = Inr v"
proof -
  assume wf: "wf_state_variable v"
  have "decode_value (encode_value (sv_initial v)) = Inr (sv_initial v)"
    using wf by (intro decode_encode value_fits_encodable [of "sv_sort v"]) (simp_all add: wf_state_variable_def)
  moreover have "sort_from_dict (sort_to_dict (sv_sort v)) = Inr (sv_sort v)"
    using wf by (simp add: sort_dec_enc wf_state_variable_def)
  ultimately show ?thesis using wf
    by (simp add: state_variable_from_dict_def state_variable_to_dict_def mk_state_variable_Inr wf_state_variable_def)
qed

lemma state_variable_dec_wf: "wf_data v \<Longrightarrow> state_variable_from_dict v = Inr x \<Longrightarrow> wf_state_variable x"
  by (auto simp: state_variable_from_dict_def with_map_Inr rbind_Inr_iff mk_state_variable_Inr
      wf_state_variable_def simp del: wf_data.simps dest: sort_dec_wf decode_value_wf [OF wf_data_get_key])

interpretation state_variable_codec: encoder state_variable_to_dict state_variable_from_dict wf_state_variable
  by unfold_locales (rule state_variable_dec_enc)

interpretation requirement_codec: codec requirement_to_dict requirement_from_dict wf_requirement
  by unfold_locales (auto simp: requirement_from_dict_def requirement_to_dict_def expr_dec_enc res_simps
      wf_requirement_def dest: expr_dec_wf)

interpretation update_codec: codec update_to_dict update_from_dict wf_update
  by unfold_locales (auto simp: update_from_dict_def update_to_dict_def expr_dec_enc res_simps
      wf_update_def dest: expr_dec_wf)

end
