(* ===== verification/TransformIR.thy ===== *)
theory TransformIR
  imports StateIR
begin

text \<open>
  \<open>src/src/umcm/ir/transformation.py\<close>: role-based operational rules, the checks of their
  constructor, their validation against a catalog and the declared state cells, and their
  dictionary form. \<open>validate_transformation_iff\<close> reads the validation declaratively.
\<close>

section \<open>Roles and transformations\<close>

record event_role =
  ro_name :: string
  ro_type :: string

definition mk_role :: "event_role \<Rightarrow> event_role res" where
  "mk_role r =
     rbind (require (ro_name r \<noteq> []) SchemaError) (\<lambda>_.
     rbind (require (ro_type r \<noteq> []) SchemaError) (\<lambda>_. Inr r))"

definition role_to_dict :: "event_role \<Rightarrow> pyval" where
  "role_to_dict r = VMap [(''role'', VStr (ro_name r)), (''type'', VStr (ro_type r))]"

definition role_from_dict :: "pyval \<Rightarrow> event_role res" where
  "role_from_dict v = with_map v (\<lambda>d.
     rbind (get_key d ''role'' SerializationError) (\<lambda>n.
     rbind (get_key d ''type'' SerializationError) (\<lambda>t.
       mk_role \<lparr>ro_name = py_str n, ro_type = py_str t\<rparr>)))"

definition wf_role :: "event_role \<Rightarrow> bool" where
  "wf_role r \<longleftrightarrow> ro_name r \<noteq> [] \<and> ro_type r \<noteq> []"

record transformation =
  tf_name :: string
  tf_inputs :: "event_role list"
  tf_outputs :: "event_role list"
  tf_when :: expr
  tf_output_when :: expr
  tf_ensure :: "expr list"
  tf_requirements :: "state_requirement list"
  tf_updates :: "state_update list"
  tf_exact :: bool
  tf_state_mode :: string
  tf_description :: string
  tf_tags :: "string list"

definition tf_roles :: "transformation \<Rightarrow> event_role list" where
  "tf_roles t = tf_inputs t @ tf_outputs t"

definition mk_transformation :: "transformation \<Rightarrow> transformation res" where
  "mk_transformation t =
     rbind (require (tf_name t \<noteq> []) SchemaError) (\<lambda>_.
     rbind (require (distinct (map ro_name (tf_roles t))) SchemaError) (\<lambda>_.
     rbind (require (expr_is_bool (tf_when t)) SchemaError) (\<lambda>_.
     rbind (require (expr_is_bool (tf_output_when t)) SchemaError) (\<lambda>_.
     rbind (require (list_all expr_is_bool (tf_ensure t)) SchemaError) (\<lambda>_.
     rbind (require (\<not> (tf_exact t \<and> length (tf_outputs t) \<noteq> 1)) SchemaError) (\<lambda>_.
     rbind (require (tf_state_mode t \<in> {''require'', ''guard''}) SchemaError) (\<lambda>_.
     rbind (require (tf_state_mode t = ''guard'' \<longrightarrow> tf_outputs t \<noteq> []) SchemaError) (\<lambda>_.
     rbind (require (tf_state_mode t = ''guard'' \<longrightarrow> tf_updates t = []) SchemaError) (\<lambda>_. Inr t)))))))))"

definition role_map :: "transformation \<Rightarrow> (string \<times> event_role) list" where
  "role_map t = dict_of (map (\<lambda>r. (ro_name r, r)) (tf_roles t))"

definition is_stateful :: "transformation \<Rightarrow> bool" where
  "is_stateful t \<longleftrightarrow> tf_requirements t \<noteq> [] \<or> tf_updates t \<noteq> []"

section \<open>Validation\<close>

text \<open>The sort of an attribute of an event of a given type.\<close>

definition attribute_sort :: "event_type \<Rightarrow> string \<Rightarrow> py_error \<Rightarrow> pysort res" where
  "attribute_sort t f err =
     (if f = ''occurs'' then Inr BOOL_SORT
      else if f = ''cycle'' then Inr INT_SORT
      else rbind (get_spec t f err) (\<lambda>s. Inr (fs_sort s)))"

definition validate_role_reference :: "(string \<times> event_role) list \<Rightarrow> event_catalog \<Rightarrow>
    string \<times> string \<times> pysort \<Rightarrow> unit res" where
  "validate_role_reference roles c r =
     (case r of (e, f, s) \<Rightarrow>
        rbind (or_raise (map_of roles e) SchemaError) (\<lambda>role.
        rbind (resolve c (ro_type role)) (\<lambda>t.
        rbind (attribute_sort t f SchemaError) (\<lambda>expected.
          require (compatible_with s expected) SchemaError))))"

definition validate_role_expression :: "(string \<times> event_role) list \<Rightarrow> event_catalog \<Rightarrow> expr \<Rightarrow> unit res" where
  "validate_role_expression roles c e =
     rbind (traverse (validate_role_reference roles c) (iter_event_fields e)) (\<lambda>_. Inr ())"

definition resolve_state :: "(string \<times> state_variable) list \<Rightarrow> string \<Rightarrow> state_variable res" where
  "resolve_state vars name = or_raise (map_of vars name) SchemaError"

text \<open>One requirement or update: its anchor is a role, its cell is declared, its value has the cell's sort.\<close>

definition validate_effect :: "(string \<times> event_role) list \<Rightarrow> event_catalog \<Rightarrow>
    (string \<times> state_variable) list \<Rightarrow> string \<times> string \<times> expr \<Rightarrow> unit res" where
  "validate_effect roles c vars eff =
     (case eff of (anchor, st, e) \<Rightarrow>
        rbind (require (map_of roles anchor \<noteq> None) SchemaError) (\<lambda>_.
        rbind (resolve_state vars st) (\<lambda>v.
        rbind (require (compatible_with (expr_sort e) (sv_sort v)) SchemaError) (\<lambda>_.
          validate_role_expression roles c e))))"

definition references_only :: "expr \<Rightarrow> event_role list \<Rightarrow> bool" where
  "references_only e roles \<longleftrightarrow>
     list_all (\<lambda>r. fst r \<in> set (map ro_name roles)) (iter_event_fields e)"

definition validate_transformation :: "event_catalog \<Rightarrow> (string \<times> state_variable) list \<Rightarrow>
    transformation \<Rightarrow> unit res" where
  "validate_transformation c vars t =
     (let roles = role_map t in
      rbind (traverse (\<lambda>(_, r). resolve c (ro_type r)) roles) (\<lambda>_.
      rbind (require (references_only (tf_when t) (tf_inputs t)) SchemaError) (\<lambda>_.
      rbind (require (references_only (tf_output_when t) (tf_outputs t)) SchemaError) (\<lambda>_.
      rbind (traverse (validate_role_expression roles c) (tf_when t # tf_output_when t # tf_ensure t)) (\<lambda>_.
      rbind (require (\<not> (is_stateful t \<and> vars = [])) SchemaError) (\<lambda>_.
      rbind (traverse (\<lambda>r. validate_effect roles c vars (rq_at r, rq_state r, rq_value r)) (tf_requirements t)) (\<lambda>_.
      rbind (traverse (\<lambda>u. validate_effect roles c vars (up_at u, up_state u, up_value u)) (tf_updates t)) (\<lambda>_.
        Inr ()))))))))"

section \<open>Serialisation\<close>

definition TRUE_EXPR :: expr where "TRUE_EXPR = Literal (SBool True) BOOL_SORT"

definition transformation_to_dict :: "transformation \<Rightarrow> pyval" where
  "transformation_to_dict t = VMap ([(''name'', VStr (tf_name t)),
     (''inputs'', VList (map role_to_dict (tf_inputs t))),
     (''outputs'', VList (map role_to_dict (tf_outputs t))),
     (''when'', expr_to_dict (tf_when t)), (''output_when'', expr_to_dict (tf_output_when t)),
     (''ensure'', VList (map expr_to_dict (tf_ensure t)))]
     @ (if tf_requirements t = [] then []
        else [(''state_requirements'', VList (map requirement_to_dict (tf_requirements t)))])
     @ (if tf_updates t = [] then [] else [(''state_updates'', VList (map update_to_dict (tf_updates t)))])
     @ (if tf_exact t then [(''exact'', VBool True)] else [])
     @ (if tf_state_mode t = ''require'' then [] else [(''state_mode'', VStr (tf_state_mode t))])
     @ description_entry (tf_description t)
     @ (if tf_tags t = [] then [] else [(''tags'', VList (map VStr (tf_tags t)))]))"

definition TRANSFORMATION_KEYS :: "string list" where
  "TRANSFORMATION_KEYS = [''name'', ''inputs'', ''outputs'', ''when'', ''output_when'', ''ensure'',
     ''state_requirements'', ''state_updates'', ''exact'', ''state_mode'', ''description'', ''tags'']"

definition transformation_from_dict :: "pyval \<Rightarrow> transformation res" where
  "transformation_from_dict v = with_map v (\<lambda>d.
     rbind (known_keys d TRANSFORMATION_KEYS) (\<lambda>_.
     rbind (list_field d ''inputs'' []) (\<lambda>ins.
     rbind (list_field d ''outputs'' []) (\<lambda>outs.
     rbind (list_field d ''ensure'' []) (\<lambda>ens.
     rbind (list_field d ''state_requirements'' []) (\<lambda>reqs.
     rbind (list_field d ''state_updates'' []) (\<lambda>ups.
     rbind (get_key d ''name'' SerializationError) (\<lambda>n.
     rbind (traverse role_from_dict ins) (\<lambda>inputs.
     rbind (traverse role_from_dict outs) (\<lambda>outputs.
     rbind (expr_from_dict (get_default d ''when'' (expr_to_dict TRUE_EXPR))) (\<lambda>guard.
     rbind (expr_from_dict (get_default d ''output_when'' (expr_to_dict TRUE_EXPR))) (\<lambda>output_guard.
     rbind (traverse expr_from_dict ens) (\<lambda>ensure.
     rbind (traverse requirement_from_dict reqs) (\<lambda>requirements.
     rbind (traverse update_from_dict ups) (\<lambda>updates.
     rbind (str_tuple (get_default d ''tags'' (VList []))) (\<lambda>tags.
       mk_transformation \<lparr>tf_name = py_str n, tf_inputs = inputs, tf_outputs = outputs,
         tf_when = guard, tf_output_when = output_guard, tf_ensure = ensure,
         tf_requirements = requirements, tf_updates = updates,
         tf_exact = truthy (get_default d ''exact'' (VBool False)),
         tf_state_mode = str_default d ''state_mode'' ''require'',
         tf_description = str_default d ''description'' [], tf_tags = tags\<rparr>))))))))))))))))"

section \<open>Lemmas\<close>

lemma mk_role_Inr [res_simps]: "mk_role r = Inr r' \<longleftrightarrow> r' = r \<and> wf_role r"
  by (auto simp: mk_role_def rbind_require wf_role_def)

interpretation role_codec: codec role_to_dict role_from_dict wf_role
  by unfold_locales (auto simp: role_to_dict_def role_from_dict_def with_map_Inr rbind_Inr_iff mk_role_Inr wf_role_def)

definition wf_transformation :: "transformation \<Rightarrow> bool" where
  "wf_transformation t \<longleftrightarrow> mk_transformation t = Inr t \<and> (\<forall>r \<in> set (tf_roles t). wf_role r) \<and>
     wf_expr (tf_when t) \<and> wf_expr (tf_output_when t) \<and> (\<forall>e \<in> set (tf_ensure t). wf_expr e) \<and>
     (\<forall>r \<in> set (tf_requirements t). wf_requirement r) \<and> (\<forall>u \<in> set (tf_updates t). wf_update u)"

lemma mk_transformation_Inr [res_simps]:
  "mk_transformation t = Inr t' \<longleftrightarrow> t' = t \<and> mk_transformation t = Inr t"
  by (auto simp: mk_transformation_def rbind_require)

lemma transformation_dec_wf: "transformation_from_dict v = Inr t \<Longrightarrow> wf_transformation t"
proof -
  assume "transformation_from_dict v = Inr t"
  then obtain c where mk: "mk_transformation c = Inr t" and wf: "\<forall>r \<in> set (tf_inputs c). wf_role r"
    "\<forall>r \<in> set (tf_outputs c). wf_role r" "wf_expr (tf_when c)" "wf_expr (tf_output_when c)"
    "\<forall>e \<in> set (tf_ensure c). wf_expr e" "\<forall>r \<in> set (tf_requirements c). wf_requirement r"
    "\<forall>u \<in> set (tf_updates c). wf_update u"
    unfolding transformation_from_dict_def with_map_Inr rbind_Inr_iff
    by (elim exE conjE)
      (erule that; simp only: transformation.select_convs; (erule role_codec.traverse_wf expr_dec_wf
        expr_codec.traverse_wf requirement_codec.traverse_wf update_codec.traverse_wf))
  have "t = c" using mk mk_transformation_Inr by blast
  then show ?thesis using mk wf by (auto simp: wf_transformation_def tf_roles_def)
qed

lemma str_tuple_strings [simp]: "str_tuple (VList (map VStr ss)) = Inr ss" "str_tuple (VList []) = Inr []"
  using str_tuple_VStr [of ss] str_tuple_VStr [of "[]"] by simp_all

lemma transformation_dec_enc: "wf_transformation t \<Longrightarrow> transformation_from_dict (transformation_to_dict t) = Inr t"
proof -
  assume wf: "wf_transformation t"
  have enc: "traverse role_from_dict (map role_to_dict (tf_inputs t)) = Inr (tf_inputs t)"
    "traverse role_from_dict (map role_to_dict (tf_outputs t)) = Inr (tf_outputs t)"
    "traverse expr_from_dict (map expr_to_dict (tf_ensure t)) = Inr (tf_ensure t)"
    "traverse requirement_from_dict (map requirement_to_dict (tf_requirements t)) = Inr (tf_requirements t)"
    "traverse update_from_dict (map update_to_dict (tf_updates t)) = Inr (tf_updates t)"
    "expr_from_dict (expr_to_dict (tf_when t)) = Inr (tf_when t)"
    "expr_from_dict (expr_to_dict (tf_output_when t)) = Inr (tf_output_when t)"
    using wf by (simp_all add: wf_transformation_def tf_roles_def role_codec.traverse_enc
        expr_codec.traverse_enc requirement_codec.traverse_enc update_codec.traverse_enc expr_dec_enc)
  have mk: "mk_transformation t = Inr t" using wf by (simp add: wf_transformation_def)
  have rec: "\<lparr>tf_name = tf_name t, tf_inputs = tf_inputs t, tf_outputs = tf_outputs t,
      tf_when = tf_when t, tf_output_when = tf_output_when t, tf_ensure = tf_ensure t,
      tf_requirements = tf_requirements t, tf_updates = tf_updates t, tf_exact = tf_exact t,
      tf_state_mode = tf_state_mode t, tf_description = tf_description t, tf_tags = tf_tags t\<rparr> = t" by simp
  have keys: "known_keys d TRANSFORMATION_KEYS = Inr ()" if "transformation_to_dict t = VMap d" for d
    using that by (intro known_keys_ok) (auto simp: transformation_to_dict_def TRANSFORMATION_KEYS_def
        description_entry_def split: if_splits)
  show ?thesis
    using keys enc mk unfolding transformation_from_dict_def transformation_to_dict_def with_map_VMap
    by (simp add: list_field_def str_default_def description_entry_def rec split del: if_split)
qed

interpretation transformation_codec: codec transformation_to_dict transformation_from_dict wf_transformation
  by unfold_locales (rule transformation_dec_enc, assumption, rule transformation_dec_wf)

section \<open>What validation guarantees\<close>

text \<open>
  A declarative reading of \<open>validate\<close>: every reference of every expression names a role of the
  rule and an attribute of the role's event type, with that attribute's sort.
\<close>

definition attribute_has_sort :: "event_type \<Rightarrow> string \<Rightarrow> pysort \<Rightarrow> bool" where
  "attribute_has_sort t f s \<longleftrightarrow>
     (if f = ''occurs'' then s = BOOL_SORT else if f = ''cycle'' then s = INT_SORT
      else \<exists>spec \<in> set (et_fields t). fs_name spec = f \<and> fs_sort spec = s)"

definition reference_typed :: "event_role list \<Rightarrow> event_catalog \<Rightarrow> string \<times> string \<times> pysort \<Rightarrow> bool" where
  "reference_typed roles c r \<longleftrightarrow> (case r of (e, f, s) \<Rightarrow>
     \<exists>role \<in> set roles. ro_name role = e \<and>
       (\<exists>t. map_of (ec_types c) (ro_type role) = Some t \<and> attribute_has_sort t f s))"

definition expression_typed :: "event_role list \<Rightarrow> event_catalog \<Rightarrow> expr \<Rightarrow> bool" where
  "expression_typed roles c e \<longleftrightarrow> (\<forall>r \<in> set (iter_event_fields e). reference_typed roles c r)"

definition effect_typed :: "event_role list \<Rightarrow> event_catalog \<Rightarrow> (string \<times> state_variable) list \<Rightarrow>
    string \<times> string \<times> expr \<Rightarrow> bool" where
  "effect_typed roles c vars eff \<longleftrightarrow> (case eff of (anchor, st, e) \<Rightarrow>
     anchor \<in> ro_name ` set roles \<and> (\<exists>v. map_of vars st = Some v \<and> expr_sort e = sv_sort v) \<and>
     expression_typed roles c e)"

definition transformation_typed :: "event_catalog \<Rightarrow> (string \<times> state_variable) list \<Rightarrow> transformation \<Rightarrow> bool" where
  "transformation_typed c vars t \<longleftrightarrow>
     (\<forall>r \<in> set (tf_roles t). map_of (ec_types c) (ro_type r) \<noteq> None) \<and>
     references_only (tf_when t) (tf_inputs t) \<and> references_only (tf_output_when t) (tf_outputs t) \<and>
     (\<forall>e \<in> set (tf_when t # tf_output_when t # tf_ensure t). expression_typed (tf_roles t) c e) \<and>
     (\<forall>r \<in> set (tf_requirements t). effect_typed (tf_roles t) c vars (rq_at r, rq_state r, rq_value r)) \<and>
     (\<forall>u \<in> set (tf_updates t). effect_typed (tf_roles t) c vars (up_at u, up_state u, up_value u))"

lemma attribute_sort_Inr:
  "distinct (map fs_name (et_fields t)) \<Longrightarrow> attribute_sort t f err = Inr s \<longleftrightarrow> attribute_has_sort t f s"
  by (auto simp: attribute_sort_def attribute_has_sort_def get_spec_def res_simps map_of_field_map)

lemma map_of_role_map:
  "distinct (map ro_name (tf_roles t)) \<Longrightarrow> map_of (role_map t) n = Some r \<longleftrightarrow> r \<in> set (tf_roles t) \<and> ro_name r = n"
  by (auto simp: role_map_def dict_of_map_fst o_def map_of_eq_Some_iff)

lemma wf_catalog_fields:
  "wf_catalog c \<Longrightarrow> map_of (ec_types c) n = Some t \<Longrightarrow> distinct (map fs_name (et_fields t))"
  by (auto simp: wf_catalog_def wf_event_type_def dest!: map_of_SomeD)

lemma validate_role_reference_iff:
  assumes "wf_catalog c" and "distinct (map ro_name (tf_roles t))"
  shows "validate_role_reference (role_map t) c r = Inr u \<longleftrightarrow> reference_typed (tf_roles t) c r"
  using wf_catalog_fields [OF assms(1)]
  by (cases r) (auto simp: validate_role_reference_def reference_typed_def res_simps map_of_role_map [OF assms(2)]
      attribute_sort_Inr compatible_with_def)

lemma traverse_unit_ok:
  assumes "\<And>x u. x \<in> set xs \<Longrightarrow> f x = Inr u \<longleftrightarrow> P x"
  shows "(\<exists>us. traverse f xs = Inr (us :: unit list)) \<longleftrightarrow> (\<forall>x \<in> set xs. P x)"
  unfolding traverse_ok_iff using assms by blast

lemma validate_role_expression_iff:
  assumes "wf_catalog c" and "distinct (map ro_name (tf_roles t))"
  shows "validate_role_expression (role_map t) c e = Inr u \<longleftrightarrow> expression_typed (tf_roles t) c e"
  unfolding validate_role_expression_def rbind_Inr_iff expression_typed_def
  by (simp add: traverse_unit_ok [OF validate_role_reference_iff [OF assms]])

lemma validate_effect_iff:
  assumes "wf_catalog c" and "distinct (map ro_name (tf_roles t))"
  shows "validate_effect (role_map t) c vars eff = Inr u \<longleftrightarrow> effect_typed (tf_roles t) c vars eff"
proof -
  have "map_of (role_map t) a \<noteq> None \<longleftrightarrow> a \<in> ro_name ` set (tf_roles t)" for a
    using map_of_role_map [OF assms(2)] by fastforce
  then show ?thesis
    by (cases eff) (auto simp: validate_effect_def effect_typed_def resolve_state_def rbind_Inr_iff
        require_Inr_iff or_raise_Inr_iff compatible_with_def validate_role_expression_iff [OF assms])
qed

lemma validate_transformation_iff:
  assumes "wf_catalog c" and "distinct (map ro_name (tf_roles t))"
  shows "validate_transformation c vars t = Inr () \<longleftrightarrow> transformation_typed c vars t"
proof -
  note d = assms(2)
  have roles: "(\<exists>us. traverse (\<lambda>(_, r). resolve c (ro_type r)) (role_map t) = Inr us) \<longleftrightarrow>
      (\<forall>r \<in> set (tf_roles t). map_of (ec_types c) (ro_type r) \<noteq> None)"
    unfolding traverse_ok_iff
    using d by (force simp: role_map_def dict_of_map_fst res_simps)
  have stateful: "is_stateful t \<longrightarrow> vars \<noteq> []"
    if "\<forall>r \<in> set (tf_requirements t). effect_typed (tf_roles t) c vars (rq_at r, rq_state r, rq_value r)"
      "\<forall>u \<in> set (tf_updates t). effect_typed (tf_roles t) c vars (up_at u, up_state u, up_value u)"
    using that by (cases "tf_requirements t"; cases "tf_updates t") (auto simp: is_stateful_def effect_typed_def)
  have reqs: "(\<exists>us. traverse (\<lambda>r. validate_effect (role_map t) c vars (rq_at r, rq_state r, rq_value r)) (tf_requirements t) = Inr us)
      \<longleftrightarrow> (\<forall>r \<in> set (tf_requirements t). effect_typed (tf_roles t) c vars (rq_at r, rq_state r, rq_value r))"
    by (rule traverse_unit_ok) (rule validate_effect_iff [OF assms])
  have upds: "(\<exists>us. traverse (\<lambda>u. validate_effect (role_map t) c vars (up_at u, up_state u, up_value u)) (tf_updates t) = Inr us)
      \<longleftrightarrow> (\<forall>u \<in> set (tf_updates t). effect_typed (tf_roles t) c vars (up_at u, up_state u, up_value u))"
    by (rule traverse_unit_ok) (rule validate_effect_iff [OF assms])
  have exprs: "(\<exists>us. traverse (validate_role_expression (role_map t) c) es = Inr us) \<longleftrightarrow>
      (\<forall>e \<in> set es. expression_typed (tf_roles t) c e)" for es
    by (rule traverse_unit_ok) (rule validate_role_expression_iff [OF assms])
  show ?thesis
    unfolding validate_transformation_def Let_def transformation_typed_def rbind_Inr_iff require_Inr_iff
    using roles stateful reqs upds exprs [of "tf_when t # tf_output_when t # tf_ensure t"] by meson
qed

end
