(* ===== verification/CompletionIR.thy ===== *)
theory CompletionIR
  imports TransformIR TraceIR
begin

text \<open>
  \<open>src/src/umcm/ir/completion.py\<close>: event slots and completion specifications. A slot becomes a
  symbolic event; \<open>materialize_conforms\<close> shows that the event of a validated slot conforms to its
  type. Loading and dumping files is not modelled.
\<close>

section \<open>Event slots\<close>

record event_slot =
  sl_id :: string
  sl_type :: string
  sl_fields :: "(string \<times> pyval) list"
  sl_required :: bool
  sl_cycle :: pyval
  sl_annotations :: "(string \<times> pyval) list"

definition mk_slot :: "event_slot \<Rightarrow> event_slot res" where
  "mk_slot s =
     rbind (require (sl_id s \<noteq> []) SchemaError) (\<lambda>_.
     rbind (require (sl_type s \<noteq> []) SchemaError) (\<lambda>_. Inr s))"

definition validate_slot :: "event_catalog \<Rightarrow> event_slot \<Rightarrow> unit res" where
  "validate_slot c s =
     rbind (resolve c (sl_type s)) (\<lambda>t.
     rbind (require (fst ` set (sl_fields s) \<subseteq> fst ` set (field_map t)) SchemaError) (\<lambda>_.
     rbind (traverse (\<lambda>(name, v).
              rbind (get_spec t name PyKeyError) (\<lambda>spec.
                require (value_fits (fs_sort spec) v) SchemaError)) (sl_fields s)) (\<lambda>_.
       Inr ())))"

text \<open>
  \<open>values[name] = Symbol(...)\<close> for every required field without a value; \<open>prefix\<close> is the text
  before the field's name. The loop over observed events in \<open>problem.py\<close> is the same.
\<close>

definition fill_required :: "string \<Rightarrow> event_type \<Rightarrow> (string \<times> pyval) list \<Rightarrow> (string \<times> pyval) list res" where
  "fill_required prefix t fds =
     fold_res (\<lambda>vals spec.
       if fs_required spec \<and> map_of vals (fs_name spec) = None
       then rbind (mk_symbol (prefix @ fs_name spec) (fs_sort spec)) (\<lambda>e.
              Inr (AList.update (fs_name spec) (VExpr e) vals))
       else Inr vals) fds (et_fields t)"

definition set_default :: "string \<Rightarrow> pyval \<Rightarrow> (string \<times> pyval) list \<Rightarrow> (string \<times> pyval) list" where
  "set_default k v d = (if map_of d k = None then AList.update k v d else d)"

definition materialize_slot :: "event_catalog \<Rightarrow> event_slot \<Rightarrow> event_instance res" where
  "materialize_slot c s =
     rbind (resolve c (sl_type s)) (\<lambda>t.
     rbind (fill_required (''slot::'' @ sl_id s @ ''::field::'') t (sl_fields s)) (\<lambda>vals.
     rbind (if sl_cycle s \<noteq> VNone then Inr (sl_cycle s)
            else rbind (mk_symbol (''slot::'' @ sl_id s @ ''::cycle'') INT_SORT) (\<lambda>e. Inr (VExpr e))) (\<lambda>cycle.
     rbind (if sl_required s then Inr (VBool True)
            else rbind (mk_symbol (''slot::'' @ sl_id s @ ''::occurs'') BOOL_SORT) (\<lambda>e. Inr (VExpr e))) (\<lambda>occurs.
       mk_event_instance \<lparr>ei_id = sl_id s, ei_type = sl_type s, ei_fields = vals, ei_cycle = cycle,
         ei_occurs = occurs,
         ei_annotations = set_default ''required_slot'' (VBool (sl_required s))
           (set_default ''completion_slot'' (VBool True) (sl_annotations s))\<rparr>))))"

definition slot_to_dict :: "event_slot \<Rightarrow> pyval" where
  "slot_to_dict s = VMap ([(''id'', VStr (sl_id s)), (''type'', VStr (sl_type s)),
     (''required'', VBool (sl_required s)), (''fields'', encode_value (VMap (sl_fields s)))]
     @ (if sl_cycle s = VNone then [] else [(''cycle'', encode_value (sl_cycle s))])
     @ (if sl_annotations s = [] then [] else [(''annotations'', encode_value (VMap (sl_annotations s)))]))"

definition slot_from_dict :: "pyval \<Rightarrow> event_slot res" where
  "slot_from_dict v = with_map v (\<lambda>d.
     rbind (decode_value (get_default d ''fields'' (VMap []))) (\<lambda>fv.
     rbind (decode_value (get_default d ''annotations'' (VMap []))) (\<lambda>av.
     rbind (as_dict fv SerializationError) (\<lambda>fields.
     rbind (as_dict av SerializationError) (\<lambda>annotations.
     rbind (get_key d ''id'' SerializationError) (\<lambda>i.
     rbind (get_key d ''type'' SerializationError) (\<lambda>t.
     rbind (decode_value (get_default d ''cycle'' VNone)) (\<lambda>cycle.
       mk_slot \<lparr>sl_id = py_str i, sl_type = py_str t, sl_fields = fields,
         sl_required = truthy (get_default d ''required'' (VBool False)), sl_cycle = cycle,
         sl_annotations = annotations\<rparr>))))))))"

section \<open>Completion specifications\<close>

record completion_spec =
  cs_slots :: "event_slot list"
  cs_transformations :: "transformation list"
  cs_state_variables :: "state_variable list"
  cs_constraints :: "expr list"
  cs_horizon :: int
  cs_metadata :: "(string \<times> pyval) list"
  cs_version :: string

definition COMPLETION_SCHEMA_VERSION :: string where
  "COMPLETION_SCHEMA_VERSION = ''umcm.completion.v0.6.0''"

definition reject_duplicates :: "string list \<Rightarrow> unit res" where
  "reject_duplicates xs = require (filter (\<lambda>x. 1 < count_list xs x) xs = []) SchemaError"

definition mk_completion_spec :: "completion_spec \<Rightarrow> completion_spec res" where
  "mk_completion_spec s =
     rbind (require (\<not> cs_horizon s < 0) SchemaError) (\<lambda>_.
     rbind (reject_duplicates (map sl_id (cs_slots s))) (\<lambda>_.
     rbind (reject_duplicates (map tf_name (cs_transformations s))) (\<lambda>_.
     rbind (reject_duplicates (map sv_name (cs_state_variables s))) (\<lambda>_.
     rbind (require (list_all expr_is_bool (cs_constraints s)) SchemaError) (\<lambda>_. Inr s)))))"

definition state_map :: "completion_spec \<Rightarrow> (string \<times> state_variable) list" where
  "state_map s = dict_of (map (\<lambda>v. (sv_name v, v)) (cs_state_variables s))"

text \<open>A reference of a completion constraint, checked against the types of all event identifiers.\<close>

definition check_constraint_reference :: "(string \<times> event_type) list \<Rightarrow> string \<times> string \<times> pysort \<Rightarrow> unit res" where
  "check_constraint_reference types r =
     (case r of (e, f, s) \<Rightarrow>
        rbind (or_raise (map_of types e) TraceValidationError) (\<lambda>t.
        rbind (attribute_sort t f TraceValidationError) (\<lambda>expected.
          require (compatible_with s expected) TraceValidationError)))"

definition typed_ids :: "event_catalog \<Rightarrow> (string \<times> string) list \<Rightarrow> (string \<times> event_type) list res" where
  "typed_ids c ids = traverse (\<lambda>(i, n). rbind (resolve c n) (\<lambda>t. Inr (i, t))) ids"

definition validate_spec :: "event_catalog \<Rightarrow> trace \<Rightarrow> completion_spec \<Rightarrow> unit res" where
  "validate_spec c t s =
     rbind (require (set (map ei_id (tr_events t)) \<inter> set (map sl_id (cs_slots s)) = {}) TraceValidationError) (\<lambda>_.
     rbind (traverse (validate_slot c) (cs_slots s)) (\<lambda>_.
     rbind (traverse (validate_transformation c (state_map s)) (cs_transformations s)) (\<lambda>_.
     rbind (typed_ids c (map (\<lambda>e. (ei_id e, ei_type e)) (tr_events t))) (\<lambda>observed.
     rbind (typed_ids c (map (\<lambda>x. (sl_id x, sl_type x)) (cs_slots s))) (\<lambda>slots.
     rbind (traverse (\<lambda>e. traverse (check_constraint_reference (dict_of (observed @ slots))) (iter_event_fields e))
             (cs_constraints s)) (\<lambda>_.
       Inr ()))))))"

definition completion_spec_to_dict :: "completion_spec \<Rightarrow> pyval" where
  "completion_spec_to_dict s = VMap [(''schema_version'', VStr (cs_version s)), (''horizon'', VInt (cs_horizon s)),
     (''metadata'', encode_value (VMap (cs_metadata s))), (''slots'', VList (map slot_to_dict (cs_slots s))),
     (''state_variables'', VList (map state_variable_to_dict (cs_state_variables s))),
     (''transformations'', VList (map transformation_to_dict (cs_transformations s))),
     (''constraints'', VList (map expr_to_dict (cs_constraints s)))]"

definition completion_spec_from_dict :: "pyval \<Rightarrow> completion_spec res" where
  "completion_spec_from_dict v = with_map v (\<lambda>d.
     rbind (known_keys d [''schema_version'', ''horizon'', ''metadata'', ''slots'', ''state_variables'',
       ''transformations'', ''constraints'']) (\<lambda>_.
     rbind (list_field d ''slots'' []) (\<lambda>raw_slots.
     rbind (list_field d ''transformations'' []) (\<lambda>raw_transformations.
     rbind (list_field d ''state_variables'' []) (\<lambda>raw_variables.
     rbind (list_field d ''constraints'' []) (\<lambda>raw_constraints.
     rbind (decode_value (get_default d ''metadata'' (VMap []))) (\<lambda>mv.
     rbind (as_dict mv SerializationError) (\<lambda>metadata.
     rbind (traverse slot_from_dict raw_slots) (\<lambda>slots.
     rbind (traverse transformation_from_dict raw_transformations) (\<lambda>transformations.
     rbind (traverse state_variable_from_dict raw_variables) (\<lambda>variables.
     rbind (traverse expr_from_dict raw_constraints) (\<lambda>constraints.
     rbind (py_int (get_default d ''horizon'' (VInt 8))) (\<lambda>horizon.
       mk_completion_spec \<lparr>cs_slots = slots, cs_transformations = transformations,
         cs_state_variables = variables, cs_constraints = constraints, cs_horizon = horizon,
         cs_metadata = metadata,
         cs_version = str_default d ''schema_version'' COMPLETION_SCHEMA_VERSION\<rparr>)))))))))))))"

section \<open>Construction and round trips\<close>

lemma reject_duplicates_Inr [res_simps]: "reject_duplicates xs = Inr u \<longleftrightarrow> distinct xs"
proof -
  have "(\<forall>x \<in> set xs. \<not> 1 < count_list xs x) \<longleftrightarrow> distinct xs"
    by (induction xs) (auto simp: count_list_0_iff)
  then show ?thesis by (auto simp: reject_duplicates_def require_Inr_iff filter_empty_conv)
qed

lemma mk_slot_Inr [res_simps]: "mk_slot s = Inr s' \<longleftrightarrow> s' = s \<and> sl_id s \<noteq> [] \<and> sl_type s \<noteq> []"
  by (auto simp: mk_slot_def rbind_require)

lemma mk_completion_spec_Inr [res_simps]:
  "mk_completion_spec s = Inr s' \<longleftrightarrow> s' = s \<and> 0 \<le> cs_horizon s \<and> distinct (map sl_id (cs_slots s)) \<and>
     distinct (map tf_name (cs_transformations s)) \<and> distinct (map sv_name (cs_state_variables s)) \<and>
     (\<forall>e \<in> set (cs_constraints s). expr_is_bool e)"
  by (auto simp: mk_completion_spec_def rbind_Inr_iff require_Inr_iff reject_duplicates_Inr list_all_iff)

definition wf_slot :: "event_slot \<Rightarrow> bool" where
  "wf_slot s \<longleftrightarrow> sl_id s \<noteq> [] \<and> sl_type s \<noteq> [] \<and> distinct (map fst (sl_fields s)) \<and> wf_data (VMap (sl_fields s)) \<and>
     wf_data (sl_cycle s)"

definition wf_spec :: "completion_spec \<Rightarrow> bool" where
  "wf_spec s \<longleftrightarrow> mk_completion_spec s = Inr s \<and> (\<forall>x \<in> set (cs_slots s). wf_slot x) \<and>
     (\<forall>t \<in> set (cs_transformations s). wf_transformation t) \<and>
     (\<forall>v \<in> set (cs_state_variables s). wf_state_variable v) \<and> (\<forall>e \<in> set (cs_constraints s). wf_expr e)"

definition encodable_slot :: "event_slot \<Rightarrow> bool" where
  "encodable_slot s \<longleftrightarrow> sl_id s \<noteq> [] \<and> sl_type s \<noteq> [] \<and> encodable (VMap (sl_fields s)) \<and>
     encodable (VMap (sl_annotations s)) \<and> encodable (sl_cycle s)"

definition encodable_spec :: "completion_spec \<Rightarrow> bool" where
  "encodable_spec s \<longleftrightarrow> wf_spec s \<and> (\<forall>x \<in> set (cs_slots s). encodable_slot x) \<and> encodable (VMap (cs_metadata s))"

lemma slot_dec_enc: "encodable_slot s \<Longrightarrow> slot_from_dict (slot_to_dict s) = Inr s"
proof -
  assume enc: "encodable_slot s"
  have rt: "decode_value (encode_value (VMap (sl_fields s))) = Inr (VMap (sl_fields s))"
    "decode_value (encode_value (VMap (sl_annotations s))) = Inr (VMap (sl_annotations s))"
    "decode_value (encode_value (sl_cycle s)) = Inr (sl_cycle s)"
    using enc by (simp_all only: decode_encode encodable_slot_def)
  show ?thesis
    using enc rt by (cases "sl_annotations s = []"; cases "sl_cycle s = VNone")
      (simp_all add: slot_from_dict_def slot_to_dict_def mk_slot_Inr encodable_slot_def
        del: encode_value.simps decode_value.simps(1))
qed

interpretation slot_codec: encoder slot_to_dict slot_from_dict encodable_slot
  by unfold_locales (rule slot_dec_enc)

lemma completion_spec_dec_enc:
  "encodable_spec s \<Longrightarrow> completion_spec_from_dict (completion_spec_to_dict s) = Inr s"
proof -
  assume enc: "encodable_spec s"
  have rt: "traverse slot_from_dict (map slot_to_dict (cs_slots s)) = Inr (cs_slots s)"
    "traverse transformation_from_dict (map transformation_to_dict (cs_transformations s)) = Inr (cs_transformations s)"
    "traverse state_variable_from_dict (map state_variable_to_dict (cs_state_variables s)) = Inr (cs_state_variables s)"
    "traverse expr_from_dict (map expr_to_dict (cs_constraints s)) = Inr (cs_constraints s)"
    using enc by (simp_all add: encodable_spec_def wf_spec_def slot_codec.traverse_enc
        transformation_codec.traverse_enc state_variable_codec.traverse_enc expr_codec.traverse_enc)
  have md: "decode_value (encode_value (VMap (cs_metadata s))) = Inr (VMap (cs_metadata s))"
    using enc by (simp only: decode_encode encodable_spec_def)
  have mk: "mk_completion_spec s = Inr s" using enc by (simp add: encodable_spec_def wf_spec_def)
  have rec: "\<lparr>cs_slots = cs_slots s, cs_transformations = cs_transformations s,
      cs_state_variables = cs_state_variables s, cs_constraints = cs_constraints s,
      cs_horizon = cs_horizon s, cs_metadata = cs_metadata s, cs_version = cs_version s\<rparr> = s" by simp
  show ?thesis unfolding completion_spec_from_dict_def completion_spec_to_dict_def with_map_VMap
    by (subst known_keys_ok)
      (simp_all add: list_field_def rt md mk str_default_def rec del: encode_value.simps decode_value.simps(1))
qed

interpretation completion_spec_codec: encoder completion_spec_to_dict completion_spec_from_dict encodable_spec
  by unfold_locales (rule completion_spec_dec_enc)

section \<open>Materialised slots\<close>

text \<open>What filling does: names stay distinct, given values stay, required fields end up present.\<close>

lemma fill_step:
  assumes "distinct (map fst vals)" and "map_of vals n = None"
  shows "map_of (AList.update n v vals) = (map_of vals)(n \<mapsto> v)" "distinct (map fst (AList.update n v vals))"
  using assms by (simp_all add: update_conv' distinct_update)

lemma fill_required_spec:
  assumes "fill_required prefix t fds = Inr vals"
  shows "\<forall>n v. map_of fds n = Some v \<longrightarrow> map_of vals n = Some v"
    and "\<forall>spec \<in> set (et_fields t). fs_required spec \<longrightarrow> map_of vals (fs_name spec) \<noteq> None"
    and "distinct (map fst fds) \<longrightarrow> distinct (map fst vals)"
    and "\<forall>n v. map_of vals n = Some v \<longrightarrow> map_of fds n = Some v \<or>
      (\<exists>spec \<in> set (et_fields t). fs_required spec \<and> fs_name spec = n \<and>
         v = VExpr (Symbol (prefix @ n) (fs_sort spec)))"
proof -
  let ?f = "\<lambda>vals spec. if fs_required spec \<and> map_of vals (fs_name spec) = None
       then rbind (mk_symbol (prefix @ fs_name spec) (fs_sort spec)) (\<lambda>e.
              Inr (AList.update (fs_name spec) (VExpr e) vals))
       else Inr vals"
  have "(\<forall>n v. map_of a n = Some v \<longrightarrow> map_of b n = Some v) \<and>
      (\<forall>spec \<in> set specs. fs_required spec \<longrightarrow> map_of b (fs_name spec) \<noteq> None) \<and>
      (distinct (map fst a) \<longrightarrow> distinct (map fst b)) \<and>
      (\<forall>n v. map_of b n = Some v \<longrightarrow> map_of a n = Some v \<or>
        (\<exists>spec \<in> set specs. fs_required spec \<and> fs_name spec = n \<and> v = VExpr (Symbol (prefix @ n) (fs_sort spec))))"
    if "fold_res ?f a specs = Inr b" for a b specs
    using that
  proof (induction specs arbitrary: a)
    case Nil
    then show ?case by simp
  next
    case (Cons spec specs)
    then obtain a' where a': "?f a spec = Inr a'" and b: "fold_res ?f a' specs = Inr b"
      by (auto simp: rbind_Inr_iff)
    have step: "a' = a \<and> (fs_required spec \<longrightarrow> map_of a (fs_name spec) \<noteq> None) \<or>
        (fs_required spec \<and> map_of a (fs_name spec) = None \<and>
         a' = AList.update (fs_name spec) (VExpr (Symbol (prefix @ fs_name spec) (fs_sort spec))) a)"
      using a' by (auto simp: mk_symbol_def rbind_Inr_iff split: if_splits)
    have new: "map_of a' n = (if map_of a n = None \<and> fs_required spec \<and> n = fs_name spec
        then Some (VExpr (Symbol (prefix @ n) (fs_sort spec))) else map_of a n)" for n
      using step by (auto simp: update_conv')
    have dist: "distinct (map fst a) \<longrightarrow> distinct (map fst a')" using step by (auto simp: distinct_update)
    note IH = Cons.IH [OF b]
    have req: "fs_required spec \<longrightarrow> map_of a' (fs_name spec) \<noteq> None" using step by (auto simp: update_conv')
    show ?case
    proof (intro conjI allI impI ballI)
      show "map_of b n = Some v" if "map_of a n = Some v" for n v
        using IH that new [of n] by simp
      show "map_of b (fs_name s) \<noteq> None" if "s \<in> set (spec # specs)" "fs_required s" for s
        using IH req that by (cases "map_of a' (fs_name s)") auto
      show "distinct (map fst b)" if "distinct (map fst a)" using IH dist that by blast
      show "map_of a n = Some v \<or> (\<exists>s \<in> set (spec # specs). fs_required s \<and> fs_name s = n \<and>
          v = VExpr (Symbol (prefix @ n) (fs_sort s)))" if "map_of b n = Some v" for n v
      proof -
        have "map_of a' n = Some v \<or> (\<exists>s \<in> set specs. fs_required s \<and> fs_name s = n \<and>
            v = VExpr (Symbol (prefix @ n) (fs_sort s)))" using IH that by blast
        then show ?thesis using new [of n] by (elim disjE) (auto split: if_splits)
      qed
    qed
  qed
  from this [OF assms [unfolded fill_required_def]] show
    "\<forall>n v. map_of fds n = Some v \<longrightarrow> map_of vals n = Some v"
    "\<forall>spec \<in> set (et_fields t). fs_required spec \<longrightarrow> map_of vals (fs_name spec) \<noteq> None"
    "distinct (map fst fds) \<longrightarrow> distinct (map fst vals)"
    "\<forall>n v. map_of vals n = Some v \<longrightarrow> map_of fds n = Some v \<or>
      (\<exists>spec \<in> set (et_fields t). fs_required spec \<and> fs_name spec = n \<and>
         v = VExpr (Symbol (prefix @ n) (fs_sort spec)))"
    by blast+
qed

text \<open>
  Filled fields conform: an event whose given fields fit the catalog and whose missing required
  fields were filled satisfies the validation of complete events.
\<close>

lemma fill_required_fits:
  assumes fill: "fill_required prefix t fds = Inr vals" and "distinct (map fst fds)"
    and fits: "\<forall>(n, v) \<in> set fds. \<exists>f \<in> set (et_fields t). fs_name f = n \<and> value_fits (fs_sort f) v"
  shows "\<forall>(n, v) \<in> set vals. \<exists>f \<in> set (et_fields t). fs_name f = n \<and> value_fits (fs_sort f) v"
    and "\<forall>f \<in> set (et_fields t). fs_required f \<longrightarrow> fs_name f \<in> fst ` set vals"
proof -
  note spec = fill_required_spec [OF fill]
  have "\<exists>f \<in> set (et_fields t). fs_name f = n \<and> value_fits (fs_sort f) v" if "(n, v) \<in> set vals" for n v
  proof -
    have "map_of vals n = Some v" using that spec(3) assms(2) by simp
    then consider "map_of fds n = Some v" | s where "s \<in> set (et_fields t)" "fs_name s = n"
      "v = VExpr (Symbol (prefix @ n) (fs_sort s))" using spec(4) by blast
    then show ?thesis
    proof cases
      case 1
      then have "(n, v) \<in> set fds" by (rule map_of_SomeD)
      then show ?thesis using fits by blast
    next
      case 2
      then show ?thesis by (auto simp: value_fits_def compatible_with_def)
    qed
  qed
  then show "\<forall>(n, v) \<in> set vals. \<exists>f \<in> set (et_fields t). fs_name f = n \<and> value_fits (fs_sort f) v" by blast
  show "\<forall>f \<in> set (et_fields t). fs_required f \<longrightarrow> fs_name f \<in> fst ` set vals"
    using spec(2) by (metis map_of_eq_None_iff)
qed

lemma validate_slot_fits:
  assumes "wf_catalog c" and "validate_slot c s = Inr ()" and "map_of (ec_types c) (sl_type s) = Some t"
  shows "\<forall>(n, v) \<in> set (sl_fields s). \<exists>f \<in> set (et_fields t). fs_name f = n \<and> value_fits (fs_sort f) v"
proof -
  have "\<exists>us. traverse (\<lambda>(name, v). rbind (get_spec t name PyKeyError) (\<lambda>spec.
      require (value_fits (fs_sort spec) v) SchemaError)) (sl_fields s) = Inr us"
    using assms(2,3) by (auto simp: validate_slot_def rbind_Inr_iff resolve_Inr_iff)
  then show ?thesis
    using map_of_field_map [OF wf_catalog_fields [OF assms(1,3)]]
    unfolding traverse_ok_iff by (fastforce simp: rbind_Inr_iff get_spec_def or_raise_Inr_iff require_Inr_iff)
qed

lemma materialize_conforms:
  assumes "wf_catalog c" and "distinct (map fst (sl_fields s))"
    and "validate_slot c s = Inr ()" and "materialize_slot c s = Inr e"
  shows "ei_id e = sl_id s" and "ei_type e = sl_type s" and "wf_event e"
    and "\<exists>t. map_of (ec_types c) (sl_type s) = Some t \<and> event_conforms t False e"
    and "ei_cycle e \<noteq> VNone" and "ei_occurs e = VBool True \<longleftrightarrow> sl_required s"
proof -
  obtain t vals cyc occ where t: "map_of (ec_types c) (sl_type s) = Some t"
    and vals: "fill_required (''slot::'' @ sl_id s @ ''::field::'') t (sl_fields s) = Inr vals"
    and cyc_r: "(if sl_cycle s \<noteq> VNone then Inr (sl_cycle s)
      else rbind (mk_symbol (''slot::'' @ sl_id s @ ''::cycle'') INT_SORT) (\<lambda>e. Inr (VExpr e))) = Inr cyc"
    and occ_r: "(if sl_required s then Inr (VBool True)
      else rbind (mk_symbol (''slot::'' @ sl_id s @ ''::occurs'') BOOL_SORT) (\<lambda>e. Inr (VExpr e))) = Inr occ"
    and e: "ei_id e = sl_id s" "ei_type e = sl_type s" "ei_fields e = vals" "ei_cycle e = cyc" "ei_occurs e = occ"
    and wf: "wf_event e"
    using assms(4) unfolding materialize_slot_def rbind_Inr_iff [of "resolve c (sl_type s)"]
      rbind_Inr_iff [of "fill_required _ _ _"] rbind_Inr_iff [of "If _ _ _"] resolve_Inr_iff mk_event_instance_Inr_iff
    by (elim exE conjE) (erule that; simp)
  have cyc: "cyc \<noteq> VNone" using cyc_r by (auto simp: rbind_Inr_iff split: if_splits)
  have occ: "occ = VBool True \<longleftrightarrow> sl_required s" using occ_r by (auto simp: rbind_Inr_iff split: if_splits)
  have "sl_type s = et_name t" using assms(1) t by (auto simp: wf_catalog_def dest: map_of_SomeD)
  then have "event_conforms t False e"
    using fill_required_fits [OF vals assms(2) validate_slot_fits [OF assms(1,3) t]] e
    by (simp add: event_conforms_def)
  then show "ei_id e = sl_id s" "ei_type e = sl_type s" "wf_event e"
    "\<exists>t. map_of (ec_types c) (sl_type s) = Some t \<and> event_conforms t False e"
    "ei_cycle e \<noteq> VNone" "ei_occurs e = VBool True \<longleftrightarrow> sl_required s"
    using e wf t cyc occ by auto
qed

end
