(* ===== verification/Template.thy ===== *)
theory Template
  imports TraceIR
begin

text \<open>
  The template language of \<open>src/src/umcm/composition/parameterization.py\<close>: placeholders
  \<open>${role.value}\<close> in nested raw data, resolved in a context of nested mappings, and paths into
  trace events. A mapping key that renders to something else than a string is outside the model,
  whose mappings have string keys.
\<close>

section \<open>Placeholders\<close>

text \<open>
  The scanner for \<open>[$][{]([A-Za-z_][A-Za-z0-9_.-]*)[}]\<close>. The class of the name excludes the closing
  brace, so the longest name is the only candidate.
\<close>

definition name_start :: "char \<Rightarrow> bool" where
  "name_start c \<longleftrightarrow> (CHR ''A'' \<le> c \<and> c \<le> CHR ''Z'') \<or> (CHR ''a'' \<le> c \<and> c \<le> CHR ''z'') \<or> c = CHR ''_''"

definition name_char :: "char \<Rightarrow> bool" where
  "name_char c \<longleftrightarrow> name_start c \<or> is_digit c \<or> c = CHR ''.'' \<or> c = CHR ''-''"

definition placeholder_at :: "string \<Rightarrow> (string \<times> string) option" where
  "placeholder_at s =
     (case s of
        a # b # body \<Rightarrow>
          let name = takeWhile name_char body; rest = dropWhile name_char body in
          if a = CHR ''$'' \<and> b = CHR ''{'' \<and> name \<noteq> [] \<and> name_start (hd name) \<and> rest \<noteq> [] \<and> hd rest = CHR ''}''
          then Some (name, tl rest) else None
      | _ \<Rightarrow> None)"

datatype part = Text char | Hole string

lemma placeholder_at_shorter [termination_simp]: "placeholder_at s = Some (name, rest) \<Longrightarrow> length rest < length s"
proof -
  assume a: "placeholder_at s = Some (name, rest)"
  then obtain x y body where s: "s = x # y # body" and r: "rest = tl (dropWhile name_char body)"
    by (auto simp: placeholder_at_def Let_def split: list.splits if_splits)
  have "length (dropWhile name_char body) \<le> length body" by (rule length_dropWhile_le)
  then show ?thesis by (simp add: s r)
qed

function parts :: "string \<Rightarrow> part list" where
  "parts s =
     (case placeholder_at s of
        Some (name, rest) \<Rightarrow> Hole name # parts rest
      | None \<Rightarrow> (case s of [] \<Rightarrow> [] | c # cs \<Rightarrow> Text c # parts cs))"
  by pat_completeness auto
termination
  by (relation "measure length") (auto dest: placeholder_at_shorter)

declare parts.simps [simp del]

definition hole_names :: "part list \<Rightarrow> string list" where
  "hole_names ps = concat (map (\<lambda>p. case p of Hole n \<Rightarrow> [n] | Text c \<Rightarrow> []) ps)"

text \<open>\<open>template_placeholders\<close>; the code collects a set.\<close>

fun placeholders :: "pyval \<Rightarrow> string list" where
  "placeholders (VMap kvs) = concat (map (\<lambda>(k, v). hole_names (parts k) @ placeholders v) kvs)"
| "placeholders (VList vs) = concat (map placeholders vs)"
| "placeholders (VScalar s) = (case s of SStr t \<Rightarrow> hole_names (parts t) | _ \<Rightarrow> [])"
| "placeholders (VExpr e) = []"

section \<open>Paths\<close>

function split_at :: "char \<Rightarrow> string \<Rightarrow> string list" where
  "split_at d s =
     (let rest = dropWhile (\<lambda>c. c \<noteq> d) s in
      takeWhile (\<lambda>c. c \<noteq> d) s # (if rest = [] then [] else split_at d (tl rest)))"
  by pat_completeness auto
termination
proof (relation "measure (\<lambda>(d, s). length s)", goal_cases)
  case (2 d s rest)
  have "length rest \<le> length s" unfolding 2(1) by (rule length_dropWhile_le)
  then show ?case using 2(2) by (cases rest) simp_all
qed simp

declare split_at.simps [simp del]

fun walk :: "pyval \<Rightarrow> string list \<Rightarrow> pyval res" where
  "walk v [] = Inr v"
| "walk v (p # ps) =
     (case v of VMap d \<Rightarrow> rbind (or_raise (map_of d p) CompositionError) (\<lambda>w. walk w ps) | _ \<Rightarrow> Inl CompositionError)"

definition resolve_context_path :: "(string \<times> pyval) list \<Rightarrow> string \<Rightarrow> pyval res" where
  "resolve_context_path ctx path = walk (VMap ctx) (split_at (CHR ''.'') path)"

definition resolve_event_path :: "event_instance \<Rightarrow> string \<Rightarrow> pyval res" where
  "resolve_event_path e path =
     (let ps = split_at (CHR ''.'') path; head = hd ps in
      if head = ''id'' then walk (VStr (ei_id e)) (tl ps)
      else if head = ''type'' \<or> head = ''event_type'' then walk (VStr (ei_type e)) (tl ps)
      else if head = ''cycle'' then walk (ei_cycle e) (tl ps)
      else if head = ''occurs'' then walk (ei_occurs e) (tl ps)
      else if head = ''fields'' then walk (VMap (ei_fields e)) (tl ps)
      else if head = ''annotations'' then walk (VMap (ei_annotations e)) (tl ps)
      else walk (VMap (ei_fields e)) ps)"

section \<open>Rendering\<close>

definition render_string :: "(string \<times> pyval) list \<Rightarrow> string \<Rightarrow> pyval res" where
  "render_string ctx s =
     (case parts s of
        [Hole n] \<Rightarrow> resolve_context_path ctx n
      | ps \<Rightarrow>
          rbind (traverse (\<lambda>p. case p of
              Text c \<Rightarrow> Inr [c]
            | Hole n \<Rightarrow> rbind (resolve_context_path ctx n) (\<lambda>v. Inr (py_str v))) ps) (\<lambda>ss.
            Inr (VStr (concat ss))))"

definition rendered_key :: "pyval \<Rightarrow> string res" where
  "rendered_key v = (case v of VStr s \<Rightarrow> Inr s | _ \<Rightarrow> Inl Unmodelled)"

fun render_template :: "(string \<times> pyval) list \<Rightarrow> pyval \<Rightarrow> pyval res" where
  "render_template ctx (VMap kvs) =
     rbind (fold_res (\<lambda>acc (k, v).
       rbind (render_string ctx k) (\<lambda>kv.
       rbind (rendered_key kv) (\<lambda>k'.
       rbind (require (k' \<notin> fst ` set acc) CompositionError) (\<lambda>_.
       rbind (render_template ctx v) (\<lambda>w. Inr (acc @ [(k', w)])))))) [] kvs) (\<lambda>d. Inr (VMap d))"
| "render_template ctx (VList vs) = rbind (traverse (render_template ctx) vs) (\<lambda>ws. Inr (VList ws))"
| "render_template ctx (VScalar s) = (case s of SStr t \<Rightarrow> render_string ctx t | _ \<Rightarrow> Inr (VScalar s))"
| "render_template ctx (VExpr e) = Inr (VExpr e)"

section \<open>Properties\<close>

text \<open>Data without placeholders is left alone, in any context.\<close>

lemma parts_Nil [simp]: "parts [] = []"
  by (simp add: parts.simps placeholder_at_def)

lemma no_holes: "hole_names (parts s) = [] \<Longrightarrow> parts s = map Text s"
proof (induction s rule: parts.induct)
  case (1 s)
  show ?case
  proof (cases "placeholder_at s")
    case (Some p)
    then have False using "1.prems" by (cases p) (simp add: parts.simps [of s] hole_names_def)
    then show ?thesis ..
  next
    case None
    show ?thesis
    proof (cases s)
      case (Cons c cs)
      then have "parts s = Text c # parts cs" using None by (simp add: parts.simps [of "c # cs"])
      then show ?thesis using 1(1) [OF None Cons] "1.prems" Cons by (simp add: hole_names_def)
    qed (simp add: parts.simps placeholder_at_def)
  qed
qed

lemma render_string_plain: "hole_names (parts s) = [] \<Longrightarrow> render_string ctx s = Inr (VStr s)"
proof -
  assume "hole_names (parts s) = []"
  then have p: "parts s = map Text s" by (rule no_holes)
  have t: "traverse (\<lambda>p. case p of Text c \<Rightarrow> Inr [c]
      | Hole n \<Rightarrow> rbind (resolve_context_path ctx n) (\<lambda>v. Inr (py_str v))) (map Text s) = Inr (map (\<lambda>c. [c]) s)"
    by (induction s) simp_all
  have c: "concat (map (\<lambda>c. [c]) s) = s" by (induction s) simp_all
  show ?thesis unfolding render_string_def p using t c
    by (auto split: list.splits part.splits)
qed

fun regular_keys :: "pyval \<Rightarrow> bool" where
  "regular_keys (VMap kvs) \<longleftrightarrow> distinct (map fst kvs) \<and> (\<forall>(k, v) \<in> set kvs. regular_keys v)"
| "regular_keys (VList vs) \<longleftrightarrow> (\<forall>v \<in> set vs. regular_keys v)"
| "regular_keys _ \<longleftrightarrow> True"

lemma render_plain: "placeholders v = [] \<Longrightarrow> regular_keys v \<Longrightarrow> render_template ctx v = Inr v"
proof (induction ctx v rule: render_template.induct)
  case (1 ctx kvs)
  have "fold_res (\<lambda>acc (k, v).
       rbind (render_string ctx k) (\<lambda>kv.
       rbind (rendered_key kv) (\<lambda>k'.
       rbind (require (k' \<notin> fst ` set acc) CompositionError) (\<lambda>_.
       rbind (render_template ctx v) (\<lambda>w. Inr (acc @ [(k', w)])))))) acc xs = Inr (acc @ xs)"
    if "set xs \<subseteq> set kvs" "distinct (map fst (acc @ xs))" for acc xs
    using that
  proof (induction xs arbitrary: acc)
    case (Cons x xs)
    obtain k v where x: "x = (k, v)" by (cases x)
    have mem: "(k, v) \<in> set kvs" using Cons.prems(1) x by simp
    have plain: "hole_names (parts k) = []" "placeholders v = []" "regular_keys v" using "1.prems" mem by auto
    then have "render_string ctx k = Inr (VStr k)" by (simp add: render_string_plain)
    moreover have new: "k \<notin> fst ` set acc" using Cons.prems(2) x by auto
    moreover have "render_template ctx v = Inr v"
      by (rule "1.IH" [OF mem refl \<open>render_string ctx k = _\<close>, of k acc]) (use plain new in \<open>simp_all add: rendered_key_def\<close>)
    ultimately show ?case using Cons.IH [of "acc @ [(k, v)]"] Cons.prems x by (simp add: rendered_key_def)
  qed simp
  from this [of kvs "[]"] show ?case using "1.prems" by simp
next
  case (2 ctx vs)
  then have "traverse (render_template ctx) vs = Inr (map (\<lambda>v. v) vs)" by (intro traverse_Inr_map) auto
  then show ?case by simp
next
  case (3 ctx s)
  then show ?case by (cases s) (simp_all add: render_string_plain)
qed simp

text \<open>Rendering looks at the context only through the placeholders, and needs each of them.\<close>

lemma render_string_cong:
  "\<forall>n \<in> set (hole_names (parts s)). resolve_context_path ctx n = resolve_context_path ctx' n \<Longrightarrow>
   render_string ctx s = render_string ctx' s"
proof -
  assume same: "\<forall>n \<in> set (hole_names (parts s)). resolve_context_path ctx n = resolve_context_path ctx' n"
  then have "(case p of Text c \<Rightarrow> Inr [c] | Hole n \<Rightarrow> rbind (resolve_context_path ctx n) (\<lambda>v. Inr (py_str v))) =
      (case p of Text c \<Rightarrow> Inr [c] | Hole n \<Rightarrow> rbind (resolve_context_path ctx' n) (\<lambda>v. Inr (py_str v)))"
    if "p \<in> set (parts s)" for p
    using that by (cases p) (force simp: hole_names_def)+
  then have "traverse (\<lambda>p. case p of Text c \<Rightarrow> Inr [c] | Hole n \<Rightarrow> rbind (resolve_context_path ctx n) (\<lambda>v. Inr (py_str v))) (parts s) =
      traverse (\<lambda>p. case p of Text c \<Rightarrow> Inr [c] | Hole n \<Rightarrow> rbind (resolve_context_path ctx' n) (\<lambda>v. Inr (py_str v))) (parts s)"
    by (rule traverse_cong [OF refl])
  then show ?thesis using same unfolding render_string_def
    by (auto simp: hole_names_def split: list.split part.split)
qed

lemma render_cong:
  "\<forall>n \<in> set (placeholders v). resolve_context_path ctx n = resolve_context_path ctx' n \<Longrightarrow>
   render_template ctx v = render_template ctx' v"
proof (induction v)
  case (VMap kvs)
  have k: "render_string ctx k = render_string ctx' k" if "(k, v) \<in> set kvs" for k v
  proof (rule render_string_cong, intro ballI)
    fix n assume "n \<in> set (hole_names (parts k))"
    then have "n \<in> set (placeholders (VMap kvs))" using that by (auto intro!: bexI [of _ "(k, v)"])
    then show "resolve_context_path ctx n = resolve_context_path ctx' n" using VMap.prems by blast
  qed
  have v: "render_template ctx v = render_template ctx' v" if "(k, v) \<in> set kvs" for k v
  proof (rule VMap.IH [OF that], simp, intro ballI)
    fix n assume "n \<in> set (placeholders v)"
    then have "n \<in> set (placeholders (VMap kvs))" using that by (auto intro!: bexI [of _ "(k, v)"])
    then show "resolve_context_path ctx n = resolve_context_path ctx' n" using VMap.prems by blast
  qed
  have "fold_res (\<lambda>acc (k, v). rbind (render_string ctx k) (\<lambda>kv. rbind (rendered_key kv) (\<lambda>k'.
       rbind (require (k' \<notin> fst ` set acc) CompositionError) (\<lambda>_.
       rbind (render_template ctx v) (\<lambda>w. Inr (acc @ [(k', w)])))))) [] kvs =
     fold_res (\<lambda>acc (k, v). rbind (render_string ctx' k) (\<lambda>kv. rbind (rendered_key kv) (\<lambda>k'.
       rbind (require (k' \<notin> fst ` set acc) CompositionError) (\<lambda>_.
       rbind (render_template ctx' v) (\<lambda>w. Inr (acc @ [(k', w)])))))) [] kvs"
    by (rule fold_res_cong [OF refl refl]) (use k v in \<open>auto split: prod.split\<close>)
  then show ?case by simp
next
  case (VList vs)
  have "traverse (render_template ctx) vs = traverse (render_template ctx') vs"
    by (rule traverse_cong [OF refl]) (use VList in auto)
  then show ?case by simp
next
  case (VScalar s)
  then show ?case by (cases s) (simp_all add: render_string_cong)
qed simp

lemma render_string_needs:
  assumes "render_string ctx s = Inr w" and "n \<in> set (hole_names (parts s))"
  shows "\<exists>v. resolve_context_path ctx n = Inr v"
proof -
  have mem: "Hole n \<in> set (parts s)" using assms(2) by (auto simp: hole_names_def split: part.splits)
  show ?thesis
  proof (cases "parts s = [Hole n]")
    case True
    then show ?thesis using assms(1) by (auto simp: render_string_def)
  next
    case False
    then obtain ss where "traverse (\<lambda>p. case p of Text c \<Rightarrow> Inr [c]
        | Hole n \<Rightarrow> rbind (resolve_context_path ctx n) (\<lambda>v. Inr (py_str v))) (parts s) = Inr ss"
      using assms(1) mem by (auto simp: render_string_def rbind_Inr_iff split: list.splits part.splits)
    from traverse_Inr_memD [OF this mem] show ?thesis by (auto simp: rbind_Inr_iff)
  qed
qed

end
