(* ===== verification/TraceRoles.thy ===== *)
theory TraceRoles
  imports Template
begin

text \<open>
  Trace roles of \<open>src/src/umcm/composition/parameterization.py\<close>: a role selects observed events and
  exports values of them into the context in which module templates are rendered. The derived
  exports are raw mappings, as in the class, checked by its constructor.
\<close>

section \<open>Specifications\<close>

datatype role_types = OneType string | TypeList "string list"

record trace_role =
  tl_name :: string
  tl_types :: role_types
  tl_where :: "(string \<times> pyval) list"
  tl_exports :: "(string \<times> string) list"
  tl_derived :: "(string \<times> (string \<times> pyval) list) list"
  tl_event_id :: "string option"
  tl_occurring :: bool
  tl_cardinality :: string
  tl_min :: int
  tl_copies :: int
  tl_copy_exports :: "(string \<times> string) list"
  tl_distinct_by :: "string option"
  tl_description :: string

definition nonempty_str :: "pyval \<Rightarrow> bool" where
  "nonempty_str v = (case v of VStr s \<Rightarrow> s \<noteq> [] | _ \<Rightarrow> False)"

definition choice_ok :: "pyval \<Rightarrow> bool" where
  "choice_ok c = (case c of
       VScalar SNone \<Rightarrow> True
     | VMap d \<Rightarrow> fst ` set d = {''value''} \<or> (fst ` set d = {''path''} \<and> nonempty_str (get_default d ''path'' VNone))
     | _ \<Rightarrow> False)"

definition group_paths :: "(string \<times> pyval) list \<Rightarrow> pyval list option" where
  "group_paths d = (case get_default d ''group_by'' (VList []) of
       VStr s \<Rightarrow> Some [VStr s] | VList ps \<Rightarrow> Some ps | _ \<Rightarrow> None)"

definition derived_ok :: "(string \<times> pyval) list \<Rightarrow> bool" where
  "derived_ok d =
     (let kind = py_str (get_default d ''kind'' (VStr [])) in
      if kind = ''constant'' then map_of d ''value'' \<noteq> None
      else if kind = ''switch'' then
        nonempty_str (get_default d ''path'' VNone) \<and>
        (case get_default d ''cases'' VNone of
           VMap cs \<Rightarrow> cs \<noteq> [] \<and> list_all choice_ok (map snd cs @ [get_default d ''default'' VNone])
         | _ \<Rightarrow> False)
      else if kind = ''queue_index'' then
        (case (as_int (get_default d ''capacity'' VNone), as_int (get_default d ''start'' (VInt 0))) of
           (Some n, Some s) \<Rightarrow> 0 < n \<and> 0 \<le> s \<and> s < n \<and>
             (case group_paths d of Some ps \<Rightarrow> list_all nonempty_str ps | None \<Rightarrow> False)
         | _ \<Rightarrow> False)
      else False)"

definition mk_trace_role :: "trace_role \<Rightarrow> trace_role res" where
  "mk_trace_role r =
     rbind (require (tl_name r \<noteq> []) SchemaError) (\<lambda>_.
     rbind (require (case tl_types r of OneType t \<Rightarrow> t \<noteq> [] | TypeList ts \<Rightarrow> ts \<noteq> [] \<and> [] \<notin> set ts) SchemaError) (\<lambda>_.
     rbind (require (tl_cardinality r \<in> {''one'', ''many''}) SchemaError) (\<lambda>_.
     rbind (require (\<not> tl_min r < 0) SchemaError) (\<lambda>_.
     rbind (require (\<not> tl_copies r \<le> 0) SchemaError) (\<lambda>_.
     rbind (require (tl_cardinality r = ''many'' \<or> tl_copies r = 1) SchemaError) (\<lambda>_.
     rbind (require (tl_copy_exports r = [] \<or> tl_copies r \<noteq> 1) SchemaError) (\<lambda>_.
     rbind (require (list_all (\<lambda>(a, t). (a \<in> fst ` set (tl_exports r) \<or> a \<in> fst ` set (tl_derived r)) \<and> t \<noteq> [])
       (tl_copy_exports r)) SchemaError) (\<lambda>_.
     rbind (require (fst ` set (tl_exports r) \<inter> fst ` set (tl_derived r) = {}) SchemaError) (\<lambda>_.
     rbind (require (list_all (\<lambda>(a, p). a \<noteq> [] \<and> p \<noteq> []) (tl_exports r)) SchemaError) (\<lambda>_.
     rbind (require (list_all (\<lambda>(a, d). a \<noteq> [] \<and> derived_ok d) (tl_derived r)) SchemaError) (\<lambda>_.
       Inr r)))))))))))"

definition string_map :: "(string \<times> string) list \<Rightarrow> pyval" where
  "string_map m = VMap (map (\<lambda>(k, v). (k, VStr v)) m)"

definition types_value :: "role_types \<Rightarrow> pyval" where
  "types_value t = (case t of OneType s \<Rightarrow> VStr s | TypeList ts \<Rightarrow> VList (map VStr ts))"

definition trace_role_to_dict :: "trace_role \<Rightarrow> pyval" where
  "trace_role_to_dict r = VMap ([(''name'', VStr (tl_name r)), (''event_type'', types_value (tl_types r)),
       (''where'', encode_value (VMap (tl_where r))), (''exports'', string_map (tl_exports r)),
       (''derived'', VMap (map (\<lambda>(a, d). (a, VMap d)) (tl_derived r))),
       (''occurring_only'', VBool (tl_occurring r)), (''cardinality'', VStr (tl_cardinality r)),
       (''min_matches'', VInt (tl_min r))]
     @ (if tl_copies r \<noteq> 1 then [(''copies'', VInt (tl_copies r))] else [])
     @ (if tl_copy_exports r \<noteq> [] then [(''copy_exports'', string_map (tl_copy_exports r))] else [])
     @ (case tl_event_id r of None \<Rightarrow> [] | Some i \<Rightarrow> [(''event_id'', VStr i)])
     @ (case tl_distinct_by r of None \<Rightarrow> [] | Some p \<Rightarrow> [(''distinct_by'', VStr p)])
     @ (if tl_description r \<noteq> [] then [(''description'', VStr (tl_description r))] else []))"

definition trace_role_from_dict :: "pyval \<Rightarrow> trace_role res" where
  "trace_role_from_dict v = with_map v (\<lambda>d.
     rbind (known_keys d [''name'', ''event_type'', ''where'', ''exports'', ''derived'', ''event_id'',
       ''occurring_only'', ''cardinality'', ''min_matches'', ''copies'', ''copy_exports'', ''distinct_by'',
       ''description'']) (\<lambda>_.
     rbind (decode_value (get_default d ''where'' (VMap []))) (\<lambda>wv.
     rbind (as_dict wv SerializationError) (\<lambda>conds.
     rbind (map_field d ''exports'') (\<lambda>exports.
     rbind (map_field d ''derived'') (\<lambda>derived.
     rbind (map_field d ''copy_exports'') (\<lambda>copies.
     rbind (traverse (\<lambda>(a, s). rbind (as_dict s SerializationError) (\<lambda>m. Inr (a, m))) derived) (\<lambda>ders.
     rbind (get_key d ''name'' SerializationError) (\<lambda>n.
     rbind (get_key d ''event_type'' SerializationError) (\<lambda>t.
     rbind (py_int (get_default d ''min_matches'' (VInt 1))) (\<lambda>lo.
     rbind (py_int (get_default d ''copies'' (VInt 1))) (\<lambda>k.
       mk_trace_role \<lparr>tl_name = py_str n,
         tl_types = (case t of VList ts \<Rightarrow> TypeList (map py_str ts) | _ \<Rightarrow> OneType (py_str t)),
         tl_where = conds, tl_exports = map (\<lambda>(a, p). (a, py_str p)) exports, tl_derived = ders,
         tl_event_id = str_option d ''event_id'', tl_occurring = truthy (get_default d ''occurring_only'' (VBool True)),
         tl_cardinality = str_default d ''cardinality'' ''one'', tl_min = lo, tl_copies = k,
         tl_copy_exports = map (\<lambda>(a, p). (a, py_str p)) copies, tl_distinct_by = str_option d ''distinct_by'',
         tl_description = str_default d ''description'' []\<rparr>))))))))))))"

section \<open>Matching events\<close>

definition accepts_type :: "role_types \<Rightarrow> string \<Rightarrow> bool" where
  "accepts_type ts t = (case ts of OneType s \<Rightarrow> t = s | TypeList l \<Rightarrow> t \<in> set l)"

definition where_holds :: "(string \<times> pyval) list \<Rightarrow> event_instance \<Rightarrow> bool" where
  "where_holds conds e \<longleftrightarrow> list_all (\<lambda>(path, x).
     case resolve_event_path e path of Inr v \<Rightarrow> py_eq v x | Inl _ \<Rightarrow> False) conds"

definition role_accepts :: "trace_role \<Rightarrow> (string \<times> pyval) list \<Rightarrow> event_instance \<Rightarrow> bool" where
  "role_accepts r conds e \<longleftrightarrow> accepts_type (tl_types r) (ei_type e) \<and>
     (case tl_event_id r of None \<Rightarrow> True | Some i \<Rightarrow> ei_id e = i) \<and>
     (tl_occurring r \<longrightarrow> ei_occurs e = VBool True) \<and> where_holds conds e"

definition role_key :: "event_instance \<Rightarrow> int \<times> string" where
  "role_key e = (case as_int (ei_cycle e) of Some i \<Rightarrow> i | None \<Rightarrow> 10 ^ 18, ei_id e)"

definition same_marker :: "pyval \<Rightarrow> pyval \<Rightarrow> bool" where
  "same_marker a b \<longleftrightarrow> type_name a = type_name b \<and> py_eq a b"

text \<open>The first event of each marker; the second component of the state is the set of markers.\<close>

definition dedupe :: "string \<Rightarrow> event_instance list \<Rightarrow> event_instance list res" where
  "dedupe path es =
     rbind (fold_res (\<lambda>(kept, seen) e.
       rbind (resolve_event_path e path) (\<lambda>k.
       rbind (require (hashable k) CompositionError) (\<lambda>_.
         if list_ex (same_marker k) seen then Inr (kept, seen) else Inr (kept @ [e], seen @ [k])))) ([], []) es)
       (\<lambda>(kept, _). Inr kept)"

section \<open>Exports\<close>

definition derive_switch :: "(string \<times> pyval) list \<Rightarrow> event_instance \<Rightarrow> pyval res" where
  "derive_switch spec e =
     rbind (get_key spec ''path'' PyKeyError) (\<lambda>p.
     rbind (resolve_event_path e (py_str p)) (\<lambda>sel.
     rbind (require (hashable sel) PyTypeError) (\<lambda>_.
     rbind (rbind (get_key spec ''cases'' PyKeyError) (\<lambda>v. as_dict v PyTypeError)) (\<lambda>cs.
     let fallback = get_default spec ''default'' VNone;
         choice = (case sel of VStr s \<Rightarrow> get_default cs s fallback | _ \<Rightarrow> fallback) in
     rbind (require (choice \<noteq> VNone) CompositionError) (\<lambda>_.
     rbind (as_dict choice PyTypeError) (\<lambda>c.
       case map_of c ''path'' of
         Some q \<Rightarrow> resolve_event_path e (py_str q)
       | None \<Rightarrow> get_key c ''value'' PyKeyError))))))"

text \<open>The number of earlier events of the same group, modulo the capacity.\<close>

definition derive_queue :: "(string \<times> pyval) list \<Rightarrow> event_instance list \<Rightarrow> pyval list res" where
  "derive_queue spec es =
     rbind (py_int (get_default spec ''start'' (VInt 0))) (\<lambda>start.
     rbind (rbind (get_key spec ''capacity'' PyKeyError) py_int) (\<lambda>capacity.
     rbind (or_raise (group_paths spec) Unmodelled) (\<lambda>paths.
     rbind (fold_res (\<lambda>(out, groups) e.
       rbind (traverse (\<lambda>p. resolve_event_path e (py_str p)) paths) (\<lambda>g.
       rbind (require (list_all hashable g) PyTypeError) (\<lambda>_.
         let ordinal = length (filter (py_eq (VList g)) groups) in
         Inr (out @ [VInt ((start + int ordinal) mod capacity)], groups @ [VList g])))) ([], []) es) (\<lambda>(out, _).
       Inr out))))"

definition derive_export :: "(string \<times> pyval) list \<Rightarrow> event_instance list \<Rightarrow> pyval list res" where
  "derive_export spec es =
     rbind (get_key spec ''kind'' PyKeyError) (\<lambda>kind.
       if kind = VStr ''constant'' then
         rbind (get_key spec ''value'' PyKeyError) (\<lambda>v. Inr (map (\<lambda>_. v) es))
       else if kind = VStr ''switch'' then traverse (derive_switch spec) es
       else derive_queue spec es)"

definition derive_exports :: "trace_role \<Rightarrow> event_instance list \<Rightarrow> (string \<times> pyval) list list res" where
  "derive_exports r es =
     fold_res (\<lambda>ds (a, spec).
       rbind (derive_export spec es) (\<lambda>vs. Inr (map (\<lambda>(d, v). AList.update a v d) (zip ds vs))))
       (map (\<lambda>_. []) es) (tl_derived r)"

definition export_event :: "trace_role \<Rightarrow> event_instance \<Rightarrow> (string \<times> pyval) list \<Rightarrow> (string \<times> pyval) list res" where
  "export_event r e derived =
     rbind (fold_res (\<lambda>out (a, path).
       rbind (resolve_event_path e path) (\<lambda>v.
       rbind (require (case v of VExpr x \<Rightarrow> False | _ \<Rightarrow> True) CompositionError) (\<lambda>_. Inr (AList.update a v out))))
       [(''event_id'', VStr (ei_id e)), (''event_type'', VStr (ei_type e))] (tl_exports r)) (\<lambda>out.
       Inr (foldl (\<lambda>d (a, v). AList.update a v d) out derived))"

definition copy_item :: "trace_role \<Rightarrow> (string \<times> pyval) list \<Rightarrow> int \<Rightarrow> pyval res" where
  "copy_item r item k =
     rbind (fold_res (\<lambda>copied (a, t).
       rbind (render_template [(''copy'', VMap copied)] (VStr t)) (\<lambda>v. Inr (AList.update a v copied)))
       (AList.update ''copy_index'' (VInt k) item) (tl_copy_exports r)) (\<lambda>d. Inr (VMap d))"

section \<open>Resolving roles\<close>

definition role_matches :: "trace \<Rightarrow> trace_role \<Rightarrow> (string \<times> pyval) list \<Rightarrow> event_instance list res" where
  "role_matches t r ctx =
     rbind (rbind (render_template ctx (VMap (tl_where r))) (\<lambda>v. as_dict v Unmodelled)) (\<lambda>conds.
     let found = sort_key role_key (filter (role_accepts r conds) (tr_events t)) in
       (case tl_distinct_by r of None \<Rightarrow> Inr found | Some p \<Rightarrow> dedupe p found))"

definition resolve_role :: "trace \<Rightarrow> (string \<times> pyval) list \<Rightarrow> trace_role \<Rightarrow> (string \<times> pyval) list res" where
  "resolve_role t ctx r =
     rbind (require (map_of ctx (tl_name r) = None) CompositionError) (\<lambda>_.
     rbind (role_matches t r ctx) (\<lambda>found.
       if tl_cardinality r = ''one'' then
         rbind (require (length found = 1) CompositionError) (\<lambda>_.
         rbind (derive_exports r found) (\<lambda>ds.
         rbind (export_event r (hd found) (hd ds)) (\<lambda>d.
           Inr (AList.update (tl_name r) (VMap d) ctx))))
       else
         rbind (require (\<not> int (length found) < tl_min r) CompositionError) (\<lambda>_.
         rbind (derive_exports r found) (\<lambda>ds.
         rbind (traverse (\<lambda>(e, d). export_event r e d) (zip found ds)) (\<lambda>items.
         rbind (traverse (\<lambda>item. traverse (copy_item r item) [0..tl_copies r - 1]) items) (\<lambda>copies.
           Inr (AList.update (tl_name r) (VList (concat copies)) ctx)))))))"

definition resolve_trace_roles :: "trace \<Rightarrow> trace_role list \<Rightarrow> (string \<times> pyval) list \<Rightarrow> (string \<times> pyval) list res" where
  "resolve_trace_roles t roles ctx = fold_res (resolve_role t) ctx roles"

end
