(* ===== verification/RoleFacts.thy ===== *)
theory RoleFacts
  imports TraceRoles
begin

text \<open>
  Properties of \<open>composition/parameterization.py\<close>: role specifications survive serialisation, derived
  queue indices are the slots of a bounded queue per group, and roles resolve in order into a context
  that keeps what it had.
\<close>

section \<open>Serialisation\<close>

definition printable_trace_role :: "trace_role \<Rightarrow> bool" where
  "printable_trace_role r \<longleftrightarrow> mk_trace_role r = Inr r \<and> encodable (VMap (tl_where r))"

lemma mk_trace_role_Inr: "mk_trace_role r = Inr r' \<Longrightarrow> r' = r"
  by (simp add: mk_trace_role_def rbind_require split: if_splits)

definition ROLE_KEYS :: "string list" where
  "ROLE_KEYS = [''name'', ''event_type'', ''where'', ''exports'', ''derived'', ''event_id'',
     ''occurring_only'', ''cardinality'', ''min_matches'', ''copies'', ''copy_exports'', ''distinct_by'', ''description'']"

lemma get_default_option [simp]:
  "get_default (case x of None \<Rightarrow> [] | Some i \<Rightarrow> [(k', f i)]) k d = (case x of None \<Rightarrow> d | Some i \<Rightarrow> if k' = k then f i else d)"
  by (cases x) simp_all

lemma types_value_roundtrip:
  "(case types_value t of VList ts \<Rightarrow> TypeList (map py_str ts) | _ \<Rightarrow> OneType (py_str (types_value t))) = t"
  by (cases t) (simp_all add: types_value_def)

lemma trace_role_dec_enc: "printable_trace_role r \<Longrightarrow> trace_role_from_dict (trace_role_to_dict r) = Inr r"
proof -
  assume ok: "printable_trace_role r"
  have rt: "decode_value (encode_value (VMap (tl_where r))) = Inr (VMap (tl_where r))"
    using ok by (simp only: decode_encode printable_trace_role_def)
  have ders: "traverse (\<lambda>(a, s). rbind (as_dict s SerializationError) (\<lambda>m. Inr (a, m)))
      (map (\<lambda>(a, d). (a, VMap d)) ds) = Inr ds" for ds :: "(string \<times> (string \<times> pyval) list) list"
    by (induction ds) auto
  obtain d where d: "trace_role_to_dict r = VMap d" "fst ` set d \<subseteq> set ROLE_KEYS"
    "get_default d ''where'' (VMap []) = encode_value (VMap (tl_where r))"
    "map_field d ''exports'' = Inr (map (\<lambda>(k, v). (k, VStr v)) (tl_exports r))"
    "map_field d ''derived'' = Inr (map (\<lambda>(a, d). (a, VMap d)) (tl_derived r))"
    "map_field d ''copy_exports'' = Inr (map (\<lambda>(k, v). (k, VStr v)) (tl_copy_exports r))"
    "get_key d ''name'' SerializationError = Inr (VStr (tl_name r))"
    "get_key d ''event_type'' SerializationError = Inr (types_value (tl_types r))"
    "get_default d ''min_matches'' (VInt 1) = VInt (tl_min r)" "get_default d ''copies'' (VInt 1) = VInt (tl_copies r)"
    "str_option d ''event_id'' = tl_event_id r" "get_default d ''occurring_only'' (VBool True) = VBool (tl_occurring r)"
    "str_default d ''cardinality'' ''one'' = tl_cardinality r" "str_option d ''distinct_by'' = tl_distinct_by r"
    "str_default d ''description'' [] = tl_description r"
    by (rule that [OF trace_role_to_dict_def])
      (auto simp: ROLE_KEYS_def map_field_def string_map_def str_option_def str_default_def get_key_def
        simp del: encode_value.simps split: option.splits)
  have rec: "\<lparr>tl_name = tl_name r, tl_types = tl_types r, tl_where = tl_where r, tl_exports = tl_exports r,
      tl_derived = tl_derived r, tl_event_id = tl_event_id r, tl_occurring = tl_occurring r,
      tl_cardinality = tl_cardinality r, tl_min = tl_min r, tl_copies = tl_copies r,
      tl_copy_exports = tl_copy_exports r, tl_distinct_by = tl_distinct_by r, tl_description = tl_description r\<rparr> = r"
    by simp
  have mk: "mk_trace_role r = Inr r" using ok by (simp add: printable_trace_role_def)
  show ?thesis unfolding trace_role_from_dict_def d(1) with_map_VMap
    by (subst known_keys_ok [OF d(2) [unfolded ROLE_KEYS_def]])
      (simp only: d(3-) rt rbind.simps as_dict_def pyval.case ders [unfolded as_dict_def] pairs_roundtrip types_value_roundtrip py_int_VInt truthy.simps
        py_str_VStr mk rec)
qed

interpretation trace_role_codec: encoder trace_role_to_dict trace_role_from_dict printable_trace_role
  by unfold_locales (rule trace_role_dec_enc)

section \<open>Queue indices\<close>

definition group_of :: "pyval list \<Rightarrow> event_instance \<Rightarrow> pyval list res" where
  "group_of paths e = traverse (\<lambda>p. resolve_event_path e (py_str p)) paths"

definition ordinal :: "pyval list list \<Rightarrow> nat \<Rightarrow> nat" where
  "ordinal gs i = length (filter (\<lambda>g. py_eq (VList (gs ! i)) (VList g)) (take i gs))"

lemma filter_map_VList: "length (filter (py_eq (VList g)) (map VList gs)) = length (filter (\<lambda>h. py_eq (VList g) (VList h)) gs)"
  by (induction gs) auto

lemma ordinal_append: "i < length gs \<Longrightarrow> ordinal (gs @ hs) i = ordinal gs i"
  by (simp add: ordinal_def nth_append)

lemma ordinal_last: "ordinal (gs @ [g]) (length gs) = length (filter (\<lambda>h. py_eq (VList g) (VList h)) gs)"
  by (simp add: ordinal_def)

lemma derive_queue_spec:
  assumes "derive_queue spec es = Inr vs"
  obtains start capacity paths gs where "py_int (get_default spec ''start'' (VInt 0)) = Inr start"
    "rbind (get_key spec ''capacity'' PyKeyError) py_int = Inr capacity" "group_paths spec = Some paths"
    "traverse (group_of paths) es = Inr gs"
    "vs = map (\<lambda>i. VInt ((start + int (ordinal gs i)) mod capacity)) [0..<length gs]"
proof -
  obtain start capacity paths where s: "py_int (get_default spec ''start'' (VInt 0)) = Inr start"
    and c: "rbind (get_key spec ''capacity'' PyKeyError) py_int = Inr capacity" and p: "group_paths spec = Some paths"
    using assms by (auto simp: derive_queue_def rbind_Inr_iff or_raise_Inr_iff)
  let ?f = "\<lambda>(out, groups) e. rbind (traverse (\<lambda>p. resolve_event_path e (py_str p)) paths) (\<lambda>g.
       rbind (require (list_all hashable g) PyTypeError) (\<lambda>_.
         let ordinal = length (filter (py_eq (VList g)) groups) in
         Inr (out @ [VInt ((start + int ordinal) mod capacity)], groups @ [VList g])))"
  let ?idx = "\<lambda>gs. map (\<lambda>i. VInt ((start + int (ordinal gs i)) mod capacity)) [0..<length gs]"
  have step: "\<exists>hs. traverse (group_of paths) es = Inr hs \<and> out' = ?idx (gs @ hs)"
    if "fold_res ?f (?idx gs, map VList gs) es = Inr (out', groups')" for gs es out' groups'
    using that
  proof (induction es arbitrary: gs)
    case (Cons e es)
    then obtain g where g: "group_of paths e = Inr g"
      and rest: "fold_res ?f (?idx gs @ [VInt ((start + int (length (filter (py_eq (VList g)) (map VList gs)))) mod capacity)],
        map VList gs @ [VList g]) es = Inr (out', groups')"
      by (auto simp: rbind_Inr_iff group_of_def Let_def)
    have a: "?idx gs @ [VInt ((start + int (length (filter (py_eq (VList g)) (map VList gs)))) mod capacity)] = ?idx (gs @ [g])"
      by (simp only: filter_map_VList ordinal_last [symmetric]) (simp add: ordinal_append)
    have m: "map VList gs @ [VList g] = map VList (gs @ [g])" by simp
    from Cons.IH [OF rest [unfolded a m]] show ?case using g by auto
  qed simp
  obtain groups' where "fold_res ?f ([], []) es = Inr (vs, groups')"
    using assms s c p by (auto simp: derive_queue_def rbind_Inr_iff or_raise_Inr_iff)
  with step [of "[]" es vs groups'] obtain hs where "traverse (group_of paths) es = Inr hs" "vs = ?idx hs" by auto
  then show ?thesis by (rule that [OF s c p])
qed

lemma ordinal_mono:
  assumes "i < j" and "j < length gs" and "py_eq (VList (gs ! i)) (VList (gs ! j))"
  shows "ordinal gs i < ordinal gs j"
proof -
  have same: "py_eq (VList (gs ! i)) (VList g) \<longleftrightarrow> py_eq (VList (gs ! j)) (VList g)" for g
    using assms(3) by (auto simp: py_eq_def)
  have "take j gs = take i gs @ gs ! i # drop (Suc i) (take j gs)"
    using assms(1,2) id_take_nth_drop [of i "take j gs"] by (simp add: min_def)
  then have "ordinal gs j = length (filter (\<lambda>g. py_eq (VList (gs ! j)) (VList g)) (take i gs @ gs ! i # drop (Suc i) (take j gs)))"
    by (simp add: ordinal_def)
  then show ?thesis using assms(3) by (simp add: ordinal_def same [symmetric] py_eq_def)
qed

lemma queue_no_clash:
  assumes "i < j" and "j < length gs" and "py_eq (VList (gs ! i)) (VList (gs ! j))"
    and "int (ordinal gs j) < int (ordinal gs i) + capacity"
  shows "(start + int (ordinal gs i)) mod capacity \<noteq> (start + int (ordinal gs j)) mod capacity"
proof
  assume eq: "(start + int (ordinal gs i)) mod capacity = (start + int (ordinal gs j)) mod capacity"
  let ?d = "int (ordinal gs j) - int (ordinal gs i)"
  have pos: "0 < ?d" using ordinal_mono [OF assms(1-3)] by simp
  have "capacity dvd (start + int (ordinal gs j)) - (start + int (ordinal gs i))"
    using eq [symmetric] by (simp only: mod_eq_dvd_iff)
  then have "capacity dvd ?d" by simp
  then show False using zdvd_imp_le [of capacity ?d] pos assms(4) by simp
qed

text \<open>
  The \<open>queue_index\<close> values of the events: within the capacity, and different for two events of a group
  unless at least a capacity's worth of the group's events lies between them.
\<close>

lemma queue_slots:
  assumes "derive_queue spec es = Inr vs" and "derived_ok spec" and "map_of spec ''kind'' = Some (VStr ''queue_index'')"
  shows "\<exists>capacity paths gs. as_int (get_default spec ''capacity'' VNone) = Some capacity \<and> group_paths spec = Some paths \<and>
    traverse (group_of paths) es = Inr gs \<and> length vs = length es \<and>
    (\<forall>i < length es. \<exists>k. vs ! i = VInt k \<and> 0 \<le> k \<and> k < capacity) \<and>
    (\<forall>i j. i < j \<and> j < length es \<and> py_eq (VList (gs ! i)) (VList (gs ! j)) \<and>
       int (ordinal gs j) < int (ordinal gs i) + capacity \<longrightarrow> vs ! i \<noteq> vs ! j)"
proof -
  obtain start capacity paths gs where r: "py_int (get_default spec ''start'' (VInt 0)) = Inr start"
    "rbind (get_key spec ''capacity'' PyKeyError) py_int = Inr capacity" "group_paths spec = Some paths"
    "traverse (group_of paths) es = Inr gs"
    "vs = map (\<lambda>i. VInt ((start + int (ordinal gs i)) mod capacity)) [0..<length gs]"
    by (rule derive_queue_spec [OF assms(1)])
  obtain n where n: "as_int (get_default spec ''capacity'' VNone) = Some n" "0 < n"
    using assms(2,3) by (auto simp: derived_ok_def get_default_def split: option.splits)
  have "py_int v = Inr k" if "as_int v = Some k" for v k
    using that by (cases v rule: truthy.cases) (auto simp: py_int_def split: if_splits)
  then have "capacity = n" using r(2) n(1) by (auto simp: get_key_def get_default_def rbind_Inr_iff or_raise_Inr_iff)
  then show ?thesis using r(3-5) n traverse_length [OF r(4)] queue_no_clash by auto
qed

section \<open>Contexts\<close>

lemma export_event_lookup:
  assumes "export_event r e ds = Inr d" and "distinct (map fst (tl_exports r))" and "(a, path) \<in> set (tl_exports r)"
    and "a \<notin> fst ` set ds"
  shows "resolve_event_path e path = or_raise (map_of d a) CompositionError"
proof -
  let ?f = "\<lambda>out (a, path). rbind (resolve_event_path e path) (\<lambda>v.
       rbind (require (case v of VExpr x \<Rightarrow> False | _ \<Rightarrow> True) CompositionError) (\<lambda>_. Inr (AList.update a v out)))"
  have keep: "map_of out' a = map_of out a" if "fold_res ?f out xs = Inr out'" "a \<notin> fst ` set xs" for out xs out'
    using that by (induction xs arbitrary: out) (auto simp: rbind_Inr_iff update_conv')
  have found: "\<exists>v. resolve_event_path e path = Inr v \<and> map_of out' a = Some v"
    if "fold_res ?f out xs = Inr out'" "distinct (map fst xs)" "(a, path) \<in> set xs" for out xs out'
    using that
  proof (induction xs arbitrary: out)
    case (Cons x xs)
    obtain b q v where x: "x = (b, q)" and v: "resolve_event_path e q = Inr v"
      and rest: "fold_res ?f (AList.update b v out) xs = Inr out'"
      using Cons.prems(1) by (cases x) (auto simp: rbind_Inr_iff)
    show ?case
    proof (cases "(a, path) \<in> set xs")
      case True
      then show ?thesis using Cons.IH [OF rest] Cons.prems(2) by simp
    next
      case False
      then have "b = a" "q = path" "a \<notin> fst ` set xs" using Cons.prems(2,3) x by auto
      then show ?thesis using keep [OF rest] v by (simp add: update_conv')
    qed
  qed simp
  obtain out where out: "fold_res ?f [(''event_id'', VStr (ei_id e)), (''event_type'', VStr (ei_type e))] (tl_exports r) = Inr out"
    and d: "d = foldl (\<lambda>d (a, v). AList.update a v d) out ds"
    using assms(1) by (auto simp: export_event_def rbind_Inr_iff)
  have "map_of d a = map_of out a" using assms(4) unfolding d
    by (induction ds arbitrary: out) (auto simp: update_conv')
  then show ?thesis using found [OF out assms(2,3)] by (auto simp: or_raise_def)
qed

lemma derive_export_length: "derive_export spec es = Inr vs \<Longrightarrow> length vs = length es"
  by (auto simp: derive_export_def rbind_Inr_iff dest: traverse_length elim!: derive_queue_spec split: if_splits)

lemma derive_exports_keys:
  assumes "derive_exports r es = Inr ds"
  shows "length ds = length es \<and> (\<forall>d \<in> set ds. fst ` set d \<subseteq> fst ` set (tl_derived r))"
proof -
  let ?f = "\<lambda>ds (a, spec). rbind (derive_export spec es) (\<lambda>vs. Inr (map (\<lambda>(d, v). AList.update a v d) (zip ds vs)))"
  let ?I = "\<lambda>ds. length ds = length es \<and> (\<forall>d \<in> set ds. fst ` set d \<subseteq> fst ` set (tl_derived r))"
  have "?I ds" if "fold_res ?f (map (\<lambda>_. []) es) (tl_derived r) = Inr ds"
  proof (rule fold_res_inv [OF that])
    fix s s' x assume x: "x \<in> set (tl_derived r)" and s: "?I s" and step: "?f s x = Inr s'"
    obtain a spec where ax: "x = (a, spec)" by (cases x)
    obtain vs where vs: "derive_export spec es = Inr vs" and s': "s' = map (\<lambda>(d, v). AList.update a v d) (zip s vs)"
      using step ax by (auto simp: rbind_Inr_iff)
    have a: "a \<in> fst ` set (tl_derived r)" using x ax by force
    have "fst ` set d' \<subseteq> fst ` set (tl_derived r)" if mem: "d' \<in> set s'" for d'
    proof -
      obtain d v where d: "d \<in> set s" "d' = AList.update a v d" using mem s' by (auto dest: set_zip_leftD)
      then have "fst ` set d' = insert a (fst ` set d)" by (simp add: dom_update)
      then show ?thesis using s d(1) a by blast
    qed
    then show "?I s'" using s s' derive_export_length [OF vs] by simp
  qed auto
  then show ?thesis using assms by (simp add: derive_exports_def)
qed

lemma dedupe_subset: "dedupe path es = Inr kept \<Longrightarrow> set kept \<subseteq> set es"
proof -
  let ?f = "\<lambda>(kept, seen) e. rbind (resolve_event_path e path) (\<lambda>k. rbind (require (hashable k) CompositionError) (\<lambda>_.
       if list_ex (same_marker k) seen then Inr (kept, seen) else Inr (kept @ [e], seen @ [k])))"
  have step: "set kept' \<subseteq> insert e (set kept)" if "?f (kept, seen) e = Inr (kept', seen')" for kept seen e kept' seen'
    using that by (auto simp: rbind_Inr_iff split: if_splits)
  have "set kept' \<subseteq> set kept \<union> set es" if "fold_res ?f (kept, seen) es = Inr (kept', seen')" for kept seen kept' seen'
    using that
  proof (induction es arbitrary: kept seen)
    case (Cons e es)
    then obtain k s where s: "?f (kept, seen) e = Inr (k, s)" and rest: "fold_res ?f (k, s) es = Inr (kept', seen')"
      by (auto simp: rbind_Inr_iff)
    show ?case using step [OF s] Cons.IH [OF rest] by auto
  qed simp
  moreover assume "dedupe path es = Inr kept"
  then obtain p where "fold_res ?f ([], []) es = Inr p" "fst p = kept" unfolding dedupe_def rbind_Inr_iff by fastforce
  ultimately show ?thesis by (cases p) fastforce
qed

lemma role_matches_found:
  assumes "role_matches t r ctx = Inr found"
  shows "\<exists>conds. render_template ctx (VMap (tl_where r)) = Inr (VMap conds) \<and>
    set found \<subseteq> {e \<in> set (tr_events t). role_accepts r conds e} \<and>
    (tl_distinct_by r = None \<longrightarrow> found = sort_key role_key (filter (role_accepts r conds) (tr_events t)))"
proof -
  obtain v conds where r: "render_template ctx (VMap (tl_where r)) = Inr v" "as_dict v Unmodelled = Inr conds"
    and f: "(let found = sort_key role_key (filter (role_accepts r conds) (tr_events t)) in
       (case tl_distinct_by r of None \<Rightarrow> Inr found | Some p \<Rightarrow> dedupe p found)) = Inr found"
    using assms unfolding role_matches_def rbind_Inr_iff by blast
  have "v = VMap conds" using r(2) by (cases v) (auto simp: as_dict_def)
  moreover have "set found \<subseteq> {e \<in> set (tr_events t). role_accepts r conds e}"
    using f dedupe_subset by (cases "tl_distinct_by r") (fastforce simp: Let_def)+
  ultimately show ?thesis using r(1) f by (auto simp: Let_def)
qed

text \<open>
  What a resolved singular role gives a template: the context holds, under the role and an exported
  name, the value of the exported path in the one event that the role selects.
\<close>

definition selects_event :: "trace \<Rightarrow> (string \<times> pyval) list \<Rightarrow> trace_role \<Rightarrow> event_instance \<Rightarrow> bool" where
  "selects_event t ctx r e \<longleftrightarrow> (\<exists>conds. render_template ctx (VMap (tl_where r)) = Inr (VMap conds) \<and>
     e \<in> set (tr_events t) \<and> role_accepts r conds e \<and>
     (tl_distinct_by r = None \<longrightarrow> filter (role_accepts r conds) (tr_events t) = [e]))"

lemma sort_key_single: "sort_key f xs = [x] \<longleftrightarrow> xs = [x]"
proof
  assume s: "sort_key f xs = [x]"
  then have "length xs = 1" "set xs = {x}" using length_sort [of f xs] set_sort [of f xs] by simp_all
  then show "xs = [x]" by (cases xs) auto
qed simp

lemma resolve_role_adds:
  assumes "resolve_role t ctx r = Inr ctx'"
  shows "map_of ctx (tl_name r) = None" and "\<exists>v. map_of ctx' = (map_of ctx)(tl_name r \<mapsto> v)"
    and "tl_cardinality r = ''one'' \<Longrightarrow> mk_trace_role r = Inr r \<Longrightarrow> distinct (map fst (tl_exports r)) \<Longrightarrow>
      \<exists>e. selects_event t ctx r e \<and> (\<forall>(a, path) \<in> set (tl_exports r).
        walk (VMap ctx') [tl_name r, a] = resolve_event_path e path)"
    and "tl_cardinality r \<noteq> ''one'' \<Longrightarrow> \<exists>found items. role_matches t r ctx = Inr found \<and>
      tl_min r \<le> int (length found) \<and> map_of ctx' (tl_name r) = Some (VList items) \<and>
      length items = length found * nat (tl_copies r)"
proof -
  show new: "map_of ctx (tl_name r) = None" using assms by (auto simp: resolve_role_def rbind_Inr_iff require_Inr_iff)
  obtain found where found: "role_matches t r ctx = Inr found" using assms by (auto simp: resolve_role_def rbind_Inr_iff)
  show "\<exists>v. map_of ctx' = (map_of ctx)(tl_name r \<mapsto> v)"
    using assms by (auto simp: resolve_role_def rbind_Inr_iff update_conv' split: if_splits)
  show "\<exists>e. selects_event t ctx r e \<and> (\<forall>(a, path) \<in> set (tl_exports r).
        walk (VMap ctx') [tl_name r, a] = resolve_event_path e path)"
    if one: "tl_cardinality r = ''one''" and mk: "mk_trace_role r = Inr r" and d: "distinct (map fst (tl_exports r))"
  proof -
    obtain ds d where l: "length found = 1" and ds: "derive_exports r found = Inr ds"
      and ex: "export_event r (hd found) (hd ds) = Inr d" and c': "ctx' = AList.update (tl_name r) (VMap d) ctx"
      using assms one found by (auto simp: resolve_role_def rbind_Inr_iff require_Inr_iff)
    obtain e where e: "found = [e]" using l by (cases found) auto
    have sel: "selects_event t ctx r e" using role_matches_found [OF found]
      by (auto simp: selects_event_def e sort_key_single eq_commute [of "[e]"])
    have dis: "fst ` set (tl_exports r) \<inter> fst ` set (tl_derived r) = {}"
      using mk by (simp add: mk_trace_role_def rbind_require split: if_splits)
    have "fst ` set (hd ds) \<subseteq> fst ` set (tl_derived r)" using derive_exports_keys [OF ds] e by (cases ds) auto
    then have "walk (VMap ctx') [tl_name r, a] = resolve_event_path e path" if "(a, path) \<in> set (tl_exports r)" for a path
      using export_event_lookup [OF ex d that] dis that e c' by (force simp: update_conv' or_raise_def)
    then show ?thesis using sel by blast
  qed
  show "\<exists>found items. role_matches t r ctx = Inr found \<and>
      tl_min r \<le> int (length found) \<and> map_of ctx' (tl_name r) = Some (VList items) \<and>
      length items = length found * nat (tl_copies r)" if many: "tl_cardinality r \<noteq> ''one''"
  proof -
    obtain ds items copies where ds: "derive_exports r found = Inr ds" and lo: "tl_min r \<le> int (length found)"
      and items: "traverse (\<lambda>(e, d). export_event r e d) (zip found ds) = Inr items"
      and copies: "traverse (\<lambda>item. traverse (copy_item r item) [0..tl_copies r - 1]) items = Inr copies"
      and c': "ctx' = AList.update (tl_name r) (VList (concat copies)) ctx"
      using assms many found by (auto simp: resolve_role_def rbind_Inr_iff require_Inr_iff)
    have "length (concat copies) = length items * nat (tl_copies r)"
      using copies by (induction items arbitrary: copies) (auto simp: rbind_Inr_iff dest: traverse_length)
    moreover have "length items = length found"
      using traverse_length [OF items] derive_exports_keys [OF ds] by simp
    ultimately show ?thesis using found lo c' by (auto simp: update_conv')
  qed
qed

text \<open>Roles resolve in order: names are new, and what the context had stays.\<close>

lemma resolve_roles_keep:
  assumes "resolve_trace_roles t roles ctx = Inr ctx'"
  shows "distinct (map tl_name roles) \<and> dom (map_of ctx') = dom (map_of ctx) \<union> tl_name ` set roles \<and>
    dom (map_of ctx) \<inter> tl_name ` set roles = {} \<and> map_of ctx \<subseteq>\<^sub>m map_of ctx'"
  using assms unfolding resolve_trace_roles_def
proof (induction roles arbitrary: ctx)
  case (Cons r rs)
  then obtain c where c: "resolve_role t ctx r = Inr c" and rest: "fold_res (resolve_role t) c rs = Inr ctx'"
    by (auto simp: rbind_Inr_iff)
  obtain v where v: "map_of c = (map_of ctx)(tl_name r \<mapsto> v)" using resolve_role_adds(2) [OF c] by blast
  have new: "map_of ctx (tl_name r) = None" by (rule resolve_role_adds(1) [OF c])
  have "map_of ctx \<subseteq>\<^sub>m map_of c" using v new by (auto simp: map_le_def)
  then have "map_of ctx \<subseteq>\<^sub>m map_of ctx'" using Cons.IH [OF rest] map_le_trans by blast
  moreover have dc: "dom (map_of c) = insert (tl_name r) (dom (map_of ctx))" using v by simp
  moreover have "tl_name r \<notin> dom (map_of ctx)" using new by (simp add: domIff)
  ultimately show ?case using Cons.IH [OF rest, unfolded dc]
    by (simp only: list.map distinct.simps set_map list.set image_insert) blast
qed simp

text \<open>Each singular role of the resolved context.\<close>

lemma resolve_roles_singular:
  assumes "resolve_trace_roles t roles ctx = Inr ctx'" and "r \<in> set roles" and "tl_cardinality r = ''one''"
    and "mk_trace_role r = Inr r" and "distinct (map fst (tl_exports r))"
  shows "\<exists>c e. map_of c \<subseteq>\<^sub>m map_of ctx' \<and> selects_event t c r e \<and> (\<forall>(a, path) \<in> set (tl_exports r).
    walk (VMap ctx') [tl_name r, a] = resolve_event_path e path)"
proof -
  obtain before after where roles: "roles = before @ r # after" using assms(2) by (meson split_list)
  obtain c c' where c: "resolve_trace_roles t before ctx = Inr c" and r: "resolve_role t c r = Inr c'"
    and rest: "resolve_trace_roles t after c' = Inr ctx'"
    using assms(1) by (auto simp: resolve_trace_roles_def roles fold_res_append rbind_Inr_iff)
  obtain e where e: "selects_event t c r e" "\<forall>(a, path) \<in> set (tl_exports r). walk (VMap c') [tl_name r, a] = resolve_event_path e path"
    using resolve_role_adds(3) [OF r assms(3-5)] by blast
  have le: "map_of c' \<subseteq>\<^sub>m map_of ctx'" using resolve_roles_keep [OF rest] by blast
  obtain v where v: "map_of c' = (map_of c)(tl_name r \<mapsto> v)" using resolve_role_adds(2) [OF r] by blast
  have "map_of c \<subseteq>\<^sub>m map_of c'" using v resolve_role_adds(1) [OF r] by (auto simp: map_le_def)
  moreover have "map_of ctx' (tl_name r) = map_of c' (tl_name r)" using le v by (auto simp: map_le_def)
  then have "walk (VMap ctx') [tl_name r, a] = walk (VMap c') [tl_name r, a]" for a by simp
  ultimately show ?thesis using e map_le_trans [OF _ le] by (intro exI [of _ c] exI [of _ e]) (simp only:; blast)
qed

end
