(* ===== verification/CompositionIR.thy ===== *)
theory CompositionIR
  imports CompletionIR RoleFacts
begin

text \<open>
  \<open>src/src/umcm/composition/model.py\<close>: modules with their ports, connections and compositions, with the
  checks of their constructors, their validation and their dictionary form.
  \<open>validate_module_iff\<close> reads the validation of a module as its encapsulation: a module uses only the
  event types of its own ports, slots and internal events and only its own state cells.
\<close>

section \<open>Ports and modules\<close>

datatype direction = INPUT | OUTPUT

definition direction_value :: "direction \<Rightarrow> string" where
  "direction_value d = (case d of INPUT \<Rightarrow> ''input'' | OUTPUT \<Rightarrow> ''output'')"

definition parse_direction :: "string \<Rightarrow> direction res" where
  "parse_direction s = (if s = ''input'' then Inr INPUT else if s = ''output'' then Inr OUTPUT else Inl SerializationError)"

datatype connection_mode = SHARED_EVENT | EVENT_MAP

definition mode_value :: "connection_mode \<Rightarrow> string" where
  "mode_value m = (case m of SHARED_EVENT \<Rightarrow> ''shared_event'' | EVENT_MAP \<Rightarrow> ''event_map'')"

definition parse_mode :: "string \<Rightarrow> connection_mode res" where
  "parse_mode s = (if s = ''shared_event'' then Inr SHARED_EVENT
     else if s = ''event_map'' then Inr EVENT_MAP else Inl SerializationError)"

record module_port =
  po_name :: string
  po_direction :: direction
  po_type :: string
  po_required :: bool
  po_description :: string
  po_tags :: "string list"

definition mk_port :: "module_port \<Rightarrow> module_port res" where
  "mk_port p =
     rbind (require (po_name p \<noteq> []) SchemaError) (\<lambda>_.
     rbind (require (po_type p \<noteq> []) SchemaError) (\<lambda>_. Inr p))"

definition port_to_dict :: "module_port \<Rightarrow> pyval" where
  "port_to_dict p = VMap ([(''name'', VStr (po_name p)), (''direction'', VStr (direction_value (po_direction p))),
     (''event_type'', VStr (po_type p)), (''required_connection'', VBool (po_required p))]
     @ description_entry (po_description p)
     @ (if po_tags p = [] then [] else [(''tags'', VList (map VStr (po_tags p)))]))"

definition port_from_dict :: "pyval \<Rightarrow> module_port res" where
  "port_from_dict v = with_map v (\<lambda>d.
     rbind (known_keys d [''name'', ''direction'', ''event_type'', ''required_connection'', ''description'', ''tags'']) (\<lambda>_.
     rbind (get_key d ''direction'' SerializationError) (\<lambda>dv.
     rbind (parse_direction (py_str dv)) (\<lambda>dir.
     rbind (get_key d ''name'' SerializationError) (\<lambda>n.
     rbind (get_key d ''event_type'' SerializationError) (\<lambda>t.
     rbind (str_tuple (get_default d ''tags'' (VList []))) (\<lambda>tags.
       mk_port \<lparr>po_name = py_str n, po_direction = dir, po_type = py_str t,
         po_required = truthy (get_default d ''required_connection'' (VBool (dir = INPUT))),
         po_description = str_default d ''description'' [], po_tags = tags\<rparr>)))))))"

record module_spec =
  mo_label :: string
  mo_ports :: "module_port list"
  mo_internal :: "string list"
  mo_slots :: "event_slot list"
  mo_transformations :: "transformation list"
  mo_states :: "state_variable list"
  mo_constraints :: "expr list"
  mo_attributes :: "(string \<times> pyval) list"
  mo_version :: string

definition MODULE_SCHEMA_VERSION :: string where
  "MODULE_SCHEMA_VERSION = ''umcm.module.v0.15.0''"

definition unique_names :: "string list \<Rightarrow> unit res" where
  "unique_names xs = require (filter (\<lambda>x. 1 < count_list xs x) xs = []) CompositionError"

definition mk_module :: "module_spec \<Rightarrow> module_spec res" where
  "mk_module m =
     rbind (require (mo_label m \<noteq> []) SchemaError) (\<lambda>_.
     rbind (unique_names (map po_name (mo_ports m))) (\<lambda>_.
     rbind (unique_names (mo_internal m)) (\<lambda>_.
     rbind (unique_names (map sl_id (mo_slots m))) (\<lambda>_.
     rbind (unique_names (map tf_name (mo_transformations m))) (\<lambda>_.
     rbind (unique_names (map sv_name (mo_states m))) (\<lambda>_.
     rbind (require (list_all expr_is_bool (mo_constraints m)) SchemaError) (\<lambda>_. Inr m)))))))"

definition port_map :: "module_spec \<Rightarrow> (string \<times> module_port) list" where
  "port_map m = dict_of (map (\<lambda>p. (po_name p, p)) (mo_ports m))"

definition module_state_map :: "module_spec \<Rightarrow> (string \<times> state_variable) list" where
  "module_state_map m = dict_of (map (\<lambda>v. (sv_name v, v)) (mo_states m))"

definition surface_types :: "module_spec \<Rightarrow> string list" where
  "surface_types m = map po_type (mo_ports m) @ mo_internal m @ map sl_type (mo_slots m)"

definition validate_module :: "event_catalog \<Rightarrow> module_spec \<Rightarrow> unit res" where
  "validate_module c m =
     rbind (traverse (\<lambda>p. resolve c (po_type p)) (mo_ports m)) (\<lambda>_.
     rbind (traverse (resolve c) (mo_internal m)) (\<lambda>_.
     rbind (traverse (validate_slot c) (mo_slots m)) (\<lambda>_.
     rbind (traverse (\<lambda>t.
        rbind (require (ro_type ` set (tf_roles t) \<subseteq> set (surface_types m)) SchemaError) (\<lambda>_.
          validate_transformation c (module_state_map m) t)) (mo_transformations m)) (\<lambda>_. Inr ()))))"

definition module_to_dict :: "module_spec \<Rightarrow> pyval" where
  "module_to_dict m = VMap [(''schema_version'', VStr (mo_version m)), (''name'', VStr (mo_label m)),
     (''metadata'', encode_value (VMap (mo_attributes m))), (''ports'', VList (map port_to_dict (mo_ports m))),
     (''internal_events'', VList (map VStr (mo_internal m))), (''slots'', VList (map slot_to_dict (mo_slots m))),
     (''state_variables'', VList (map state_variable_to_dict (mo_states m))),
     (''transformations'', VList (map transformation_to_dict (mo_transformations m))),
     (''constraints'', VList (map expr_to_dict (mo_constraints m)))]"

text \<open>Ports with \<open>enabled: false\<close> are left out.\<close>

definition enabled_ports :: "pyval list \<Rightarrow> module_port list res" where
  "enabled_ports raws =
     fold_res (\<lambda>ports raw. with_map raw (\<lambda>d.
       case get_default d ''enabled'' (VBool True) of
         VBool b \<Rightarrow> if b then rbind (port_from_dict (VMap (AList.delete ''enabled'' d))) (\<lambda>p. Inr (ports @ [p])) else Inr ports
       | _ \<Rightarrow> Inl SerializationError)) [] raws"

definition module_from_dict :: "pyval \<Rightarrow> module_spec res" where
  "module_from_dict v = with_map v (\<lambda>d.
     rbind (known_keys d [''schema_version'', ''name'', ''metadata'', ''ports'', ''internal_events'', ''slots'',
       ''state_variables'', ''transformations'', ''constraints'']) (\<lambda>_.
     rbind (list_field d ''ports'' []) (\<lambda>raw_ports.
     rbind (list_field d ''internal_events'' []) (\<lambda>raw_internal.
     rbind (list_field d ''slots'' []) (\<lambda>raw_slots.
     rbind (list_field d ''state_variables'' []) (\<lambda>raw_states.
     rbind (list_field d ''transformations'' []) (\<lambda>raw_transformations.
     rbind (list_field d ''constraints'' []) (\<lambda>raw_constraints.
     rbind (decode_value (get_default d ''metadata'' (VMap []))) (\<lambda>mv.
     rbind (as_dict mv SerializationError) (\<lambda>metadata.
     rbind (get_key d ''name'' SerializationError) (\<lambda>n.
     rbind (enabled_ports raw_ports) (\<lambda>ports.
     rbind (traverse slot_from_dict raw_slots) (\<lambda>slots.
     rbind (traverse state_variable_from_dict raw_states) (\<lambda>states.
     rbind (traverse transformation_from_dict raw_transformations) (\<lambda>transformations.
     rbind (traverse expr_from_dict raw_constraints) (\<lambda>constraints.
       mk_module \<lparr>mo_label = py_str n, mo_ports = ports, mo_internal = map py_str raw_internal, mo_slots = slots,
         mo_transformations = transformations, mo_states = states, mo_constraints = constraints,
         mo_attributes = metadata,
         mo_version = str_default d ''schema_version'' MODULE_SCHEMA_VERSION\<rparr>))))))))))))))))"

section \<open>Connections\<close>

record module_reference =
  mr_name :: string
  mr_path :: string

definition mk_reference :: "module_reference \<Rightarrow> module_reference res" where
  "mk_reference r =
     rbind (require (mr_name r \<noteq> []) SchemaError) (\<lambda>_.
     rbind (require (mr_path r \<noteq> []) SchemaError) (\<lambda>_. Inr r))"

definition reference_to_dict :: "module_reference \<Rightarrow> pyval" where
  "reference_to_dict r = VMap [(''name'', VStr (mr_name r)), (''path'', VStr (mr_path r))]"

definition reference_from_dict :: "pyval \<Rightarrow> module_reference res" where
  "reference_from_dict v = with_map v (\<lambda>d.
     rbind (get_key d ''name'' SerializationError) (\<lambda>n.
     rbind (get_key d ''path'' SerializationError) (\<lambda>p. mk_reference \<lparr>mr_name = py_str n, mr_path = py_str p\<rparr>)))"

record endpoint =
  en_module :: string
  en_port :: string

definition mk_endpoint :: "endpoint \<Rightarrow> endpoint res" where
  "mk_endpoint e = rbind (require (en_module e \<noteq> [] \<and> en_port e \<noteq> []) SchemaError) (\<lambda>_. Inr e)"

definition endpoint_to_dict :: "endpoint \<Rightarrow> pyval" where
  "endpoint_to_dict e = VMap [(''module'', VStr (en_module e)), (''port'', VStr (en_port e))]"

definition endpoint_from_dict :: "pyval \<Rightarrow> endpoint res" where
  "endpoint_from_dict v = with_map v (\<lambda>d.
     rbind (get_key d ''module'' SerializationError) (\<lambda>m.
     rbind (get_key d ''port'' SerializationError) (\<lambda>p. mk_endpoint \<lparr>en_module = py_str m, en_port = py_str p\<rparr>)))"

definition qualified_name :: "endpoint \<Rightarrow> string" where
  "qualified_name e = en_module e @ ''.'' @ en_port e"

text \<open>The field map is keyed by target fields; its values are source fields.\<close>

record connection =
  cn_name :: string
  cn_source :: endpoint
  cn_target :: endpoint
  cn_mode :: connection_mode
  cn_fields :: "(string \<times> string) list"
  cn_same_cycle :: bool
  cn_exact :: bool
  cn_description :: string

definition mk_connection :: "connection \<Rightarrow> connection res" where
  "mk_connection c =
     rbind (require (cn_name c \<noteq> []) SchemaError) (\<lambda>_.
     rbind (require (cn_source c \<noteq> cn_target c) SchemaError) (\<lambda>_.
     rbind (require (\<not> (cn_mode c = SHARED_EVENT \<and> cn_fields c \<noteq> [])) SchemaError) (\<lambda>_. Inr c)))"

definition connection_to_dict :: "connection \<Rightarrow> pyval" where
  "connection_to_dict c = VMap ([(''name'', VStr (cn_name c)), (''source'', endpoint_to_dict (cn_source c)),
     (''target'', endpoint_to_dict (cn_target c)), (''mode'', VStr (mode_value (cn_mode c))),
     (''same_cycle'', VBool (cn_same_cycle c)), (''exact'', VBool (cn_exact c))]
     @ (if cn_fields c = [] then [] else [(''field_map'', string_map (cn_fields c))])
     @ description_entry (cn_description c))"

definition connection_from_dict :: "pyval \<Rightarrow> connection res" where
  "connection_from_dict v = with_map v (\<lambda>d.
     rbind (known_keys d [''name'', ''source'', ''target'', ''mode'', ''field_map'', ''same_cycle'', ''exact'',
       ''description'']) (\<lambda>_.
     rbind (map_field d ''field_map'') (\<lambda>fm.
     rbind (get_key d ''name'' SerializationError) (\<lambda>n.
     rbind (rbind (get_key d ''source'' SerializationError) endpoint_from_dict) (\<lambda>src.
     rbind (rbind (get_key d ''target'' SerializationError) endpoint_from_dict) (\<lambda>tgt.
     rbind (parse_mode (str_default d ''mode'' ''shared_event'')) (\<lambda>mode.
       mk_connection \<lparr>cn_name = py_str n, cn_source = src, cn_target = tgt, cn_mode = mode,
         cn_fields = map (\<lambda>(k, x). (k, py_str x)) fm,
         cn_same_cycle = truthy (get_default d ''same_cycle'' (VBool True)),
         cn_exact = truthy (get_default d ''exact'' (VBool True)),
         cn_description = str_default d ''description'' []\<rparr>)))))))"

section \<open>Compositions\<close>

record composition =
  cp_name :: string
  cp_modules :: "module_reference list"
  cp_connections :: "connection list"
  cp_roles :: "trace_role list"
  cp_parameters :: "(string \<times> pyval) list"
  cp_constraints :: "expr list"
  cp_horizon :: int
  cp_metadata :: "(string \<times> pyval) list"
  cp_version :: string
  cp_source :: "string option"

definition COMPOSITION_SCHEMA_VERSION :: string where
  "COMPOSITION_SCHEMA_VERSION = ''umcm.composition.v0.15.0''"

definition mk_composition :: "composition \<Rightarrow> composition res" where
  "mk_composition s =
     rbind (require (cp_name s \<noteq> []) SchemaError) (\<lambda>_.
     rbind (require (\<not> cp_horizon s < 0) SchemaError) (\<lambda>_.
     rbind (unique_names (map mr_name (cp_modules s))) (\<lambda>_.
     rbind (require (fst ` set (cp_parameters s) \<inter> tl_name ` set (cp_roles s) = {}) SchemaError) (\<lambda>_.
     rbind (unique_names (map cn_name (cp_connections s))) (\<lambda>_.
     rbind (unique_names (map tl_name (cp_roles s))) (\<lambda>_.
     rbind (require (list_all expr_is_bool (cp_constraints s)) SchemaError) (\<lambda>_. Inr s)))))))"

text \<open>
  \<open>base_dir\<close> and \<open>resolve_module_path\<close>: an absolute path stands for itself, another is relative to the
  directory of the composition's file, or to the working directory. A source path is absolute.
\<close>

definition parent_dir :: "string \<Rightarrow> string" where
  "parent_dir p = (let d = rev (tl (dropWhile (\<lambda>c. c \<noteq> CHR ''/'') (rev p))) in if d = [] then ''/'' else d)"

definition base_dir :: "string \<Rightarrow> composition \<Rightarrow> string" where
  "base_dir cwd s = (case cp_source s of None \<Rightarrow> cwd | Some p \<Rightarrow> parent_dir p)"

definition resolve_module_path :: "string \<Rightarrow> composition \<Rightarrow> module_reference \<Rightarrow> string" where
  "resolve_module_path cwd s r =
     (if take 1 (mr_path r) = ''/'' then mr_path r
      else if base_dir cwd s = ''/'' then ''/'' @ mr_path r
      else base_dir cwd s @ ''/'' @ mr_path r)"

definition composition_to_dict :: "composition \<Rightarrow> pyval" where
  "composition_to_dict s = VMap [(''schema_version'', VStr (cp_version s)), (''name'', VStr (cp_name s)),
     (''horizon'', VInt (cp_horizon s)), (''metadata'', encode_value (VMap (cp_metadata s))),
     (''modules'', VList (map reference_to_dict (cp_modules s))),
     (''connections'', VList (map connection_to_dict (cp_connections s))),
     (''roles'', VList (map trace_role_to_dict (cp_roles s))),
     (''parameters'', encode_value (VMap (cp_parameters s))),
     (''constraints'', VList (map expr_to_dict (cp_constraints s)))]"

definition composition_from_dict :: "pyval \<Rightarrow> composition res" where
  "composition_from_dict v = with_map v (\<lambda>d.
     rbind (known_keys d [''schema_version'', ''name'', ''horizon'', ''metadata'', ''modules'', ''connections'',
       ''roles'', ''parameters'', ''constraints'']) (\<lambda>_.
     rbind (list_field d ''modules'' []) (\<lambda>raw_modules.
     rbind (list_field d ''connections'' []) (\<lambda>raw_connections.
     rbind (list_field d ''roles'' []) (\<lambda>raw_roles.
     rbind (list_field d ''constraints'' []) (\<lambda>raw_constraints.
     rbind (decode_value (get_default d ''metadata'' (VMap []))) (\<lambda>mv.
     rbind (decode_value (get_default d ''parameters'' (VMap []))) (\<lambda>pv.
     rbind (as_dict mv SerializationError) (\<lambda>metadata.
     rbind (as_dict pv SerializationError) (\<lambda>parameters.
     rbind (get_key d ''name'' SerializationError) (\<lambda>n.
     rbind (traverse reference_from_dict raw_modules) (\<lambda>modules.
     rbind (traverse connection_from_dict raw_connections) (\<lambda>connections.
     rbind (traverse trace_role_from_dict raw_roles) (\<lambda>roles.
     rbind (traverse expr_from_dict raw_constraints) (\<lambda>constraints.
     rbind (py_int (get_default d ''horizon'' (VInt 8))) (\<lambda>horizon.
       mk_composition \<lparr>cp_name = py_str n, cp_modules = modules, cp_connections = connections, cp_roles = roles,
         cp_parameters = parameters, cp_constraints = constraints, cp_horizon = horizon, cp_metadata = metadata,
         cp_version = str_default d ''schema_version'' COMPOSITION_SCHEMA_VERSION,
         cp_source = None\<rparr>))))))))))))))))"

section \<open>Construction\<close>

lemma unique_names_Inr [res_simps]: "unique_names xs = Inr u \<longleftrightarrow> distinct xs"
proof -
  have "unique_names xs = Inr u \<longleftrightarrow> reject_duplicates xs = Inr u"
    by (simp add: unique_names_def reject_duplicates_def require_Inr_iff)
  then show ?thesis by (simp add: reject_duplicates_Inr)
qed

lemma mk_port_Inr [res_simps]: "mk_port p = Inr p' \<longleftrightarrow> p' = p \<and> po_name p \<noteq> [] \<and> po_type p \<noteq> []"
  by (auto simp: mk_port_def rbind_require)

lemma mk_reference_Inr [res_simps]: "mk_reference r = Inr r' \<longleftrightarrow> r' = r \<and> mr_name r \<noteq> [] \<and> mr_path r \<noteq> []"
  by (auto simp: mk_reference_def rbind_require)

lemma mk_endpoint_Inr [res_simps]: "mk_endpoint e = Inr e' \<longleftrightarrow> e' = e \<and> en_module e \<noteq> [] \<and> en_port e \<noteq> []"
  by (auto simp: mk_endpoint_def rbind_require)

lemma mk_connection_Inr [res_simps]:
  "mk_connection c = Inr c' \<longleftrightarrow> c' = c \<and> cn_name c \<noteq> [] \<and> cn_source c \<noteq> cn_target c \<and>
     (cn_mode c = SHARED_EVENT \<longrightarrow> cn_fields c = [])"
  by (auto simp: mk_connection_def rbind_require)

lemma mk_module_Inr [res_simps]:
  "mk_module m = Inr m' \<longleftrightarrow> m' = m \<and> mo_label m \<noteq> [] \<and> distinct (map po_name (mo_ports m)) \<and>
     distinct (mo_internal m) \<and> distinct (map sl_id (mo_slots m)) \<and> distinct (map tf_name (mo_transformations m)) \<and>
     distinct (map sv_name (mo_states m)) \<and> (\<forall>e \<in> set (mo_constraints m). expr_is_bool e)"
  by (auto simp: mk_module_def rbind_Inr_iff require_Inr_iff unique_names_Inr list_all_iff)

lemma mk_composition_Inr [res_simps]:
  "mk_composition s = Inr s' \<longleftrightarrow> s' = s \<and> cp_name s \<noteq> [] \<and> 0 \<le> cp_horizon s \<and> distinct (map mr_name (cp_modules s)) \<and>
     fst ` set (cp_parameters s) \<inter> tl_name ` set (cp_roles s) = {} \<and> distinct (map cn_name (cp_connections s)) \<and>
     distinct (map tl_name (cp_roles s)) \<and> (\<forall>e \<in> set (cp_constraints s). expr_is_bool e)"
  by (auto simp: mk_composition_def rbind_Inr_iff require_Inr_iff unique_names_Inr list_all_iff)

section \<open>Encapsulation\<close>

definition module_encapsulated :: "event_catalog \<Rightarrow> module_spec \<Rightarrow> bool" where
  "module_encapsulated c m \<longleftrightarrow> set (surface_types m) \<subseteq> dom (map_of (ec_types c)) \<and>
     (\<forall>s \<in> set (mo_slots m). validate_slot c s = Inr ()) \<and>
     (\<forall>t \<in> set (mo_transformations m). ro_type ` set (tf_roles t) \<subseteq> set (surface_types m) \<and>
        transformation_typed c (module_state_map m) t)"

lemma validate_module_iff:
  assumes c: "wf_catalog c" and roles: "\<forall>t \<in> set (mo_transformations m). distinct (map ro_name (tf_roles t))"
  shows "validate_module c m = Inr () \<longleftrightarrow> module_encapsulated c m"
proof -
  have slot: "validate_slot c s = Inr () \<Longrightarrow> sl_type s \<in> dom (map_of (ec_types c))" for s
    by (auto simp: validate_slot_def rbind_Inr_iff resolve_Inr_iff)
  have u: "(\<exists>us. traverse f xs = Inr (us :: unit list)) \<longleftrightarrow> (\<forall>x \<in> set xs. f x = Inr ())" for f and xs :: "'x list"
    unfolding traverse_ok_iff by auto
  have ports: "(\<exists>us. traverse (\<lambda>p. resolve c (po_type p)) (mo_ports m) = Inr us) \<longleftrightarrow>
      po_type ` set (mo_ports m) \<subseteq> dom (map_of (ec_types c))"
    unfolding traverse_ok_iff by (auto simp: resolve_Inr_iff)
  have internal: "(\<exists>us. traverse (resolve c) (mo_internal m) = Inr us) \<longleftrightarrow> set (mo_internal m) \<subseteq> dom (map_of (ec_types c))"
    unfolding traverse_ok_iff by (auto simp: resolve_Inr_iff)
  have "validate_module c m = Inr () \<longleftrightarrow> po_type ` set (mo_ports m) \<subseteq> dom (map_of (ec_types c)) \<and>
      set (mo_internal m) \<subseteq> dom (map_of (ec_types c)) \<and> (\<forall>s \<in> set (mo_slots m). validate_slot c s = Inr ()) \<and>
      (\<forall>t \<in> set (mo_transformations m). ro_type ` set (tf_roles t) \<subseteq> set (surface_types m) \<and>
        validate_transformation c (module_state_map m) t = Inr ())"
    unfolding validate_module_def ports [symmetric] internal [symmetric] u [symmetric]
    by (auto simp: rbind_Inr_iff rbind_require u)
  moreover have "(\<forall>t \<in> set (mo_transformations m). ro_type ` set (tf_roles t) \<subseteq> set (surface_types m) \<and>
        validate_transformation c (module_state_map m) t = Inr ()) \<longleftrightarrow>
      (\<forall>t \<in> set (mo_transformations m). ro_type ` set (tf_roles t) \<subseteq> set (surface_types m) \<and>
        transformation_typed c (module_state_map m) t)"
    by (rule ball_cong [OF refl]) (use validate_transformation_iff [OF c] roles in blast)
  moreover have "set (surface_types m) = po_type ` set (mo_ports m) \<union> set (mo_internal m) \<union> sl_type ` set (mo_slots m)"
    by (auto simp: surface_types_def)
  moreover have "sl_type ` set (mo_slots m) \<subseteq> dom (map_of (ec_types c))"
    if "\<forall>s \<in> set (mo_slots m). validate_slot c s = Inr ()" using slot that by blast
  ultimately show ?thesis unfolding module_encapsulated_def by (metis (no_types, lifting) Un_subset_iff)
qed

section \<open>Round trips\<close>

lemma port_dec_enc: "po_name p \<noteq> [] \<and> po_type p \<noteq> [] \<Longrightarrow> port_from_dict (port_to_dict p) = Inr p"
  by (cases p; cases "po_direction p"; cases "po_description p = []"; cases "po_tags p = []")
    (auto simp: port_from_dict_def port_to_dict_def known_keys_ok direction_value_def parse_direction_def mk_port_Inr
      str_default_def description_entry_def str_tuple_VStr)

interpretation port_codec: encoder port_to_dict port_from_dict "\<lambda>p. po_name p \<noteq> [] \<and> po_type p \<noteq> []"
  by unfold_locales (rule port_dec_enc)

interpretation reference_codec: codec reference_to_dict reference_from_dict "\<lambda>r. mr_name r \<noteq> [] \<and> mr_path r \<noteq> []"
  by unfold_locales (auto simp: reference_from_dict_def reference_to_dict_def with_map_Inr rbind_Inr_iff mk_reference_Inr)

interpretation endpoint_codec: codec endpoint_to_dict endpoint_from_dict "\<lambda>e. en_module e \<noteq> [] \<and> en_port e \<noteq> []"
  by unfold_locales (auto simp: endpoint_from_dict_def endpoint_to_dict_def with_map_Inr rbind_Inr_iff mk_endpoint_Inr)

lemma string_map_roundtrip [simp]: "map ((\<lambda>(k, x). (k, py_str x)) \<circ> (\<lambda>(k, v). (k, VStr v))) kvs = kvs"
  by (induction kvs) auto

lemma connection_dec_enc:
  assumes "mk_connection c = Inr c" "mk_endpoint (cn_source c) = Inr (cn_source c)" "mk_endpoint (cn_target c) = Inr (cn_target c)"
  shows "connection_from_dict (connection_to_dict c) = Inr c"
  using assms endpoint_codec.dec_enc [of "cn_source c"] endpoint_codec.dec_enc [of "cn_target c"]
  by (cases c; cases "cn_mode c"; cases "cn_description c = []"; cases "cn_fields c = []")
    (auto simp: connection_from_dict_def connection_to_dict_def known_keys_ok mode_value_def parse_mode_def
      mk_connection_Inr mk_endpoint_Inr str_default_def description_entry_def map_field_def string_map_def)

definition printable_connection :: "connection \<Rightarrow> bool" where
  "printable_connection c \<longleftrightarrow> mk_connection c = Inr c \<and> mk_endpoint (cn_source c) = Inr (cn_source c) \<and>
     mk_endpoint (cn_target c) = Inr (cn_target c)"

interpretation connection_codec: encoder connection_to_dict connection_from_dict printable_connection
  by unfold_locales (simp add: printable_connection_def connection_dec_enc)

lemma enabled_ports_enc:
  "\<forall>p \<in> set ps. po_name p \<noteq> [] \<and> po_type p \<noteq> [] \<Longrightarrow> enabled_ports (map port_to_dict ps) = Inr ps"
proof -
  have step: "fold_res (\<lambda>ports raw. with_map raw (\<lambda>d. case get_default d ''enabled'' (VBool True) of
         VBool b \<Rightarrow> if b then rbind (port_from_dict (VMap (AList.delete ''enabled'' d))) (\<lambda>p. Inr (ports @ [p])) else Inr ports
       | _ \<Rightarrow> Inl SerializationError)) acc (map port_to_dict ps) = Inr (acc @ ps)"
    if "\<forall>p \<in> set ps. po_name p \<noteq> [] \<and> po_type p \<noteq> []" for acc ps
    using that
  proof (induction ps arbitrary: acc)
    case (Cons p ps)
    obtain d where d: "port_to_dict p = VMap d" "get_default d ''enabled'' (VBool True) = VBool True"
      "AList.delete ''enabled'' d = d"
      by (simp add: port_to_dict_def description_entry_def AList.delete_eq)
    then show ?case using Cons port_codec.dec_enc [of p] by simp
  qed simp
  assume "\<forall>p \<in> set ps. po_name p \<noteq> [] \<and> po_type p \<noteq> []"
  from step [OF this, of "[]"] show ?thesis by (simp add: enabled_ports_def)
qed

definition printable_module :: "module_spec \<Rightarrow> bool" where
  "printable_module m \<longleftrightarrow> mk_module m = Inr m \<and> (\<forall>p \<in> set (mo_ports m). po_name p \<noteq> [] \<and> po_type p \<noteq> []) \<and>
     (\<forall>s \<in> set (mo_slots m). encodable_slot s) \<and> (\<forall>t \<in> set (mo_transformations m). wf_transformation t) \<and>
     (\<forall>v \<in> set (mo_states m). wf_state_variable v) \<and> (\<forall>e \<in> set (mo_constraints m). wf_expr e) \<and>
     encodable (VMap (mo_attributes m))"

lemma module_dec_enc: "printable_module m \<Longrightarrow> module_from_dict (module_to_dict m) = Inr m"
proof -
  assume ok: "printable_module m"
  have rt: "decode_value (encode_value (VMap (mo_attributes m))) = Inr (VMap (mo_attributes m))"
    using ok by (simp only: decode_encode printable_module_def)
  show ?thesis using ok rt
    by (cases m) (simp add: module_from_dict_def module_to_dict_def known_keys_ok list_field_def
        printable_module_def str_default_def enabled_ports_enc slot_codec.traverse_enc state_variable_codec.traverse_enc
        transformation_codec.traverse_enc expr_codec.traverse_enc
        del: encode_value.simps decode_value.simps(1))
qed

interpretation module_codec: encoder module_to_dict module_from_dict printable_module
  by unfold_locales (rule module_dec_enc)

definition printable_composition :: "composition \<Rightarrow> bool" where
  "printable_composition s \<longleftrightarrow> mk_composition s = Inr s \<and> cp_source s = None \<and>
     (\<forall>r \<in> set (cp_modules s). mr_name r \<noteq> [] \<and> mr_path r \<noteq> []) \<and>
     (\<forall>c \<in> set (cp_connections s). printable_connection c) \<and> (\<forall>r \<in> set (cp_roles s). printable_trace_role r) \<and>
     (\<forall>e \<in> set (cp_constraints s). wf_expr e) \<and> encodable (VMap (cp_metadata s)) \<and> encodable (VMap (cp_parameters s))"

lemma composition_dec_enc: "printable_composition s \<Longrightarrow> composition_from_dict (composition_to_dict s) = Inr s"
proof -
  assume ok: "printable_composition s"
  have rt: "decode_value (encode_value (VMap (cp_metadata s))) = Inr (VMap (cp_metadata s))"
    "decode_value (encode_value (VMap (cp_parameters s))) = Inr (VMap (cp_parameters s))"
    using ok by (simp_all only: decode_encode printable_composition_def)
  show ?thesis using ok rt
    by (cases s) (simp add: composition_from_dict_def composition_to_dict_def known_keys_ok list_field_def
        printable_composition_def str_default_def reference_codec.traverse_enc connection_codec.traverse_enc
        trace_role_codec.traverse_enc expr_codec.traverse_enc
        del: encode_value.simps decode_value.simps(1))
qed

interpretation composition_codec: encoder composition_to_dict composition_from_dict printable_composition
  by unfold_locales (rule composition_dec_enc)

end
