(* ===== verification/Repeats.thy ===== *)
theory Repeats
  imports CompositionIR
begin

text \<open>
  \<open>expand_module_repeats\<close> of \<open>src/src/umcm/composition/parameterization.py\<close>: fragments of a raw module
  are rendered once per item of a collection role, or once per tuple of items, and appended to the
  module's lists. The code appends to the lists of the given data in place; its callers do not read
  them again. Expansion only appends (\<open>expand_repeats_appends\<close>).
\<close>

section \<open>Fragments\<close>

definition SECTIONS :: "string list" where
  "SECTIONS = [''ports'', ''slots'', ''state_variables'', ''transformations'', ''constraints'']"

definition composition_map :: "pyval \<Rightarrow> (string \<times> pyval) list res" where
  "composition_map v = as_dict v CompositionError"

definition composition_list :: "pyval \<Rightarrow> pyval list res" where
  "composition_list v = (case v of VList vs \<Rightarrow> Inr vs | _ \<Rightarrow> Inl CompositionError)"

definition only_keys :: "(string \<times> pyval) list \<Rightarrow> string list \<Rightarrow> unit res" where
  "only_keys d allowed = require (fst ` set d \<subseteq> set allowed) CompositionError"

definition append_section :: "(string \<times> pyval) list \<Rightarrow> string \<times> pyval \<Rightarrow> (string \<times> pyval) list res" where
  "append_section data entry =
     (case entry of (name, v) \<Rightarrow>
        rbind (composition_list v) (\<lambda>new.
        rbind (composition_list (get_default data name (VList []))) (\<lambda>current.
          Inr (AList.update name (VList (current @ new)) data))))"

text \<open>One rendering of a fragment in a local context.\<close>

definition append_fragment :: "(string \<times> pyval) list \<Rightarrow> (string \<times> pyval) list \<Rightarrow> (string \<times> pyval) list \<Rightarrow>
    (string \<times> pyval) list res" where
  "append_fragment fragment ctx data =
     rbind (rbind (render_template ctx (VMap fragment)) composition_map) (\<lambda>rendered.
       fold_res append_section data rendered)"

section \<open>Repeats over one collection\<close>

definition repeat_item :: "(string \<times> pyval) list \<Rightarrow> string \<Rightarrow> nat \<times> pyval \<Rightarrow> (string \<times> pyval) list res" where
  "repeat_item ctx alias entry =
     (case entry of (i, item) \<Rightarrow>
        rbind (composition_map item) (\<lambda>d.
          Inr (AList.update alias (VMap (AList.update ''repeat_index'' (VInt (int i)) d)) ctx)))"

definition expand_repeat :: "(string \<times> pyval) list \<Rightarrow> (string \<times> pyval) list \<Rightarrow> pyval \<Rightarrow> (string \<times> pyval) list res" where
  "expand_repeat ctx data raw =
     rbind (composition_map raw) (\<lambda>spec.
     rbind (only_keys spec [''over'', ''as'', ''include'']) (\<lambda>_.
     rbind (get_key spec ''over'' CompositionError) (\<lambda>over.
     rbind (get_key spec ''as'' CompositionError) (\<lambda>alias.
     rbind (get_key spec ''include'' CompositionError) (\<lambda>fragment.
     rbind (require (py_str alias \<noteq> []) CompositionError) (\<lambda>_.
     rbind (rbind (resolve_context_path ctx (py_str over)) composition_list) (\<lambda>items.
     rbind (composition_map fragment) (\<lambda>inc.
     rbind (only_keys inc SECTIONS) (\<lambda>_.
       fold_res (\<lambda>data entry. rbind (repeat_item ctx (py_str alias) entry) (\<lambda>c. append_fragment inc c data))
         data (enumerate 0 items))))))))))"

section \<open>Repeats over a product of collections\<close>

definition parse_axes :: "(string \<times> pyval) list \<Rightarrow> pyval list \<Rightarrow> (string \<times> pyval list) list res" where
  "parse_axes ctx raws =
     fold_res (\<lambda>axes raw.
       rbind (composition_map raw) (\<lambda>axis.
       rbind (only_keys axis [''over'', ''as'']) (\<lambda>_.
       rbind (get_key axis ''over'' CompositionError) (\<lambda>over.
       rbind (get_key axis ''as'' CompositionError) (\<lambda>alias.
       rbind (require (py_str alias \<noteq> [] \<and> py_str alias \<notin> fst ` set axes) CompositionError) (\<lambda>_.
       rbind (rbind (resolve_context_path ctx (py_str over)) composition_list) (\<lambda>items.
         Inr (axes @ [(py_str alias, items)])))))))) [] raws"

definition product_context :: "(string \<times> pyval) list \<Rightarrow> string list \<Rightarrow> nat \<times> (nat \<times> pyval) list \<Rightarrow> (string \<times> pyval) list res" where
  "product_context ctx aliases entry =
     (case entry of (k, items) \<Rightarrow>
        rbind (fold_res (\<lambda>c (alias, i, item).
          rbind (composition_map item) (\<lambda>d.
            Inr (AList.update alias (VMap (AList.update ''product_index'' (VInt (int k))
              (AList.update ''repeat_index'' (VInt (int i)) d))) c))) ctx (zip aliases items)) (\<lambda>c.
        Inr (AList.update ''product'' (VMap [(''repeat_index'', VInt (int k))]) c)))"

definition expand_product :: "(string \<times> pyval) list \<Rightarrow> (string \<times> pyval) list \<Rightarrow> pyval \<Rightarrow> (string \<times> pyval) list res" where
  "expand_product ctx data raw =
     rbind (composition_map raw) (\<lambda>spec.
     rbind (only_keys spec [''axes'', ''include'']) (\<lambda>_.
     rbind (composition_list (get_default spec ''axes'' VNone)) (\<lambda>raws.
     rbind (require (raws \<noteq> []) CompositionError) (\<lambda>_.
     rbind (composition_map (get_default spec ''include'' VNone)) (\<lambda>inc.
     rbind (only_keys inc SECTIONS) (\<lambda>_.
     rbind (parse_axes ctx raws) (\<lambda>axes.
       fold_res (\<lambda>data entry. rbind (product_context ctx (map fst axes) entry) (\<lambda>c. append_fragment inc c data))
         data (enumerate 0 (product_lists (map (\<lambda>(_, items). enumerate 0 items) axes))))))))))"

definition expand_module_repeats :: "pyval \<Rightarrow> (string \<times> pyval) list \<Rightarrow> (string \<times> pyval) list res" where
  "expand_module_repeats raw ctx =
     rbind (composition_map raw) (\<lambda>d.
     let repeats = get_default d ''repeat'' (VList []); products = get_default d ''repeat_product'' (VList []);
         data = AList.delete ''repeat_product'' (AList.delete ''repeat'' d) in
     if \<not> truthy repeats \<and> \<not> truthy products then Inr data
     else
       rbind (composition_list repeats) (\<lambda>rs.
       rbind (composition_list products) (\<lambda>ps.
       rbind (fold_res (expand_repeat ctx) data rs) (\<lambda>data.
         fold_res (expand_product ctx) data ps))))"

section \<open>Expansion only appends\<close>

text \<open>What is kept of the template: other entries as they are, and the given lists as prefixes.\<close>

definition keeps_data :: "(string \<times> pyval) list \<Rightarrow> (string \<times> pyval) list \<Rightarrow> bool" where
  "keeps_data data data' \<longleftrightarrow> (\<forall>k v. map_of data k = Some v \<longrightarrow>
     map_of data' k = Some v \<or> (\<exists>xs ys. v = VList xs \<and> map_of data' k = Some (VList (xs @ ys))))"

lemma keeps_refl: "keeps_data data data"
  by (simp add: keeps_data_def)

lemma keeps_trans: "keeps_data a b \<Longrightarrow> keeps_data b c \<Longrightarrow> keeps_data a c"
  unfolding keeps_data_def
proof (intro allI impI)
  fix k v
  assume ab: "\<forall>k v. map_of a k = Some v \<longrightarrow> map_of b k = Some v \<or> (\<exists>xs ys. v = VList xs \<and> map_of b k = Some (VList (xs @ ys)))"
    and bc: "\<forall>k v. map_of b k = Some v \<longrightarrow> map_of c k = Some v \<or> (\<exists>xs ys. v = VList xs \<and> map_of c k = Some (VList (xs @ ys)))"
    and v: "map_of a k = Some v"
  from ab v consider "map_of b k = Some v" | xs ys where "v = VList xs" "map_of b k = Some (VList (xs @ ys))" by blast
  then show "map_of c k = Some v \<or> (\<exists>xs ys. v = VList xs \<and> map_of c k = Some (VList (xs @ ys)))"
  proof cases
    case 1
    then show ?thesis using bc by blast
  next
    case 2
    from bc 2(2) consider "map_of c k = Some (VList (xs @ ys))" | zs where "map_of c k = Some (VList ((xs @ ys) @ zs))"
      by blast
    then show ?thesis using 2(1) by cases (auto intro: exI [of _ "ys @ _"])
  qed
qed

lemma fold_keeps:
  assumes "fold_res f data xs = Inr data'" and "\<And>s x s'. f s x = Inr s' \<Longrightarrow> keeps_data s s'"
  shows "keeps_data data data'"
  using assms(1) by (rule fold_res_inv) (auto intro: keeps_refl keeps_trans assms(2))

lemma append_section_keeps: "append_section data entry = Inr data' \<Longrightarrow> keeps_data data data'"
  by (auto simp: append_section_def rbind_Inr_iff composition_list_def keeps_data_def update_conv' get_default_def
      split: prod.splits pyval.splits option.splits)

lemma append_fragment_keeps: "append_fragment inc c data = Inr data' \<Longrightarrow> keeps_data data data'"
  by (auto simp: append_fragment_def rbind_Inr_iff intro: fold_keeps append_section_keeps)

lemma expand_repeat_keeps:
  assumes "expand_repeat ctx data raw = Inr data'"
  shows "keeps_data data data'"
proof -
  obtain inc nm items where "fold_res (\<lambda>data entry. rbind (repeat_item ctx nm entry) (\<lambda>c. append_fragment inc c data))
      data (enumerate 0 items) = Inr data'"
    using assms unfolding expand_repeat_def rbind_Inr_iff by blast
  then show ?thesis by (rule fold_keeps) (auto simp: rbind_Inr_iff intro: append_fragment_keeps)
qed

lemma expand_product_keeps:
  assumes "expand_product ctx data raw = Inr data'"
  shows "keeps_data data data'"
proof -
  obtain inc axes where "fold_res (\<lambda>data entry. rbind (product_context ctx (map fst axes) entry) (\<lambda>c. append_fragment inc c data))
      data (enumerate 0 (product_lists (map (\<lambda>(_, items). enumerate 0 items) axes))) = Inr data'"
    using assms unfolding expand_product_def rbind_Inr_iff by blast
  then show ?thesis by (rule fold_keeps) (auto simp: rbind_Inr_iff intro: append_fragment_keeps)
qed

lemma expand_repeats_appends:
  assumes "expand_module_repeats (VMap d) ctx = Inr data"
  shows "keeps_data (AList.delete ''repeat_product'' (AList.delete ''repeat'' d)) data"
proof (cases "\<not> truthy (get_default d ''repeat'' (VList [])) \<and> \<not> truthy (get_default d ''repeat_product'' (VList []))")
  case True
  then show ?thesis using assms by (simp add: expand_module_repeats_def composition_map_def as_dict_def keeps_refl)
next
  case False
  let ?data = "AList.delete ''repeat_product'' (AList.delete ''repeat'' d)"
  have "rbind (composition_list (get_default d ''repeat'' (VList []))) (\<lambda>rs.
       rbind (composition_list (get_default d ''repeat_product'' (VList []))) (\<lambda>ps.
       rbind (fold_res (expand_repeat ctx) ?data rs) (\<lambda>data. fold_res (expand_product ctx) data ps))) = Inr data"
    using assms False by (simp only: expand_module_repeats_def composition_map_def as_dict_def pyval.case rbind.simps Let_def
      if_not_P [OF False] if_False)
  then obtain rs ps mid where r: "fold_res (expand_repeat ctx) ?data rs = Inr mid"
    and p: "fold_res (expand_product ctx) mid ps = Inr data"
    by (auto simp: rbind_Inr_iff)
  show ?thesis
    by (rule keeps_trans [OF fold_keeps [OF r expand_repeat_keeps] fold_keeps [OF p expand_product_keeps]])
qed

end
