(* ===== verification/Compose.thy ===== *)
theory Compose
  imports Repeats
begin

text \<open>
  \<open>src/src/umcm/composition/engine.py\<close>: loading and instantiating the modules of a composition, checking
  their connections and merging them into one completion specification. Reading a file is the
  parameter \<open>read\<close> (\<open>None\<close> where there is no file), \<open>Path.resolve\<close> the parameter \<open>real_path\<close> and the working
  directory \<open>cwd\<close>.
\<close>

section \<open>Loading modules\<close>

record loaded_module =
  lm_reference :: string
  lm_path :: string
  lm_spec :: module_spec

definition repeats_requested :: "pyval \<Rightarrow> bool" where
  "repeats_requested raw = (case raw of VMap d \<Rightarrow> truthy (get_default d ''repeat'' VNone) | _ \<Rightarrow> False)"

definition instantiate_module :: "(string \<times> pyval) list \<Rightarrow> pyval \<Rightarrow> pyval res" where
  "instantiate_module ctx raw =
     rbind (if repeats_requested raw
            then rbind (require (ctx \<noteq> []) CompositionError) (\<lambda>_.
                 rbind (expand_module_repeats raw ctx) (\<lambda>d. Inr (VMap d)))
            else Inr raw) (\<lambda>raw.
       if placeholders raw = [] then Inr raw
       else rbind (require (ctx \<noteq> []) CompositionError) (\<lambda>_.
            rbind (render_template ctx raw) (\<lambda>raw.
            rbind (require (placeholders raw = []) CompositionError) (\<lambda>_. Inr raw))))"

definition load_module :: "(string \<Rightarrow> pyval res option) \<Rightarrow> (string \<Rightarrow> string) \<Rightarrow> string \<Rightarrow> event_catalog \<Rightarrow> composition \<Rightarrow>
    (string \<times> pyval) list \<Rightarrow> module_reference \<Rightarrow> loaded_module res" where
  "load_module read real_path cwd c cp ctx r =
     (let path = real_path (resolve_module_path cwd cp r) in
      rbind (or_raise (read path) CompositionError) (\<lambda>content.
      rbind content (\<lambda>raw.
      rbind (instantiate_module ctx raw) (\<lambda>raw.
      rbind (module_from_dict raw) (\<lambda>m.
      rbind (require (mo_label m = mr_name r) CompositionError) (\<lambda>_.
      rbind (validate_module c m) (\<lambda>_.
        Inr \<lparr>lm_reference = mr_name r, lm_path = path, lm_spec = m\<rparr>)))))))"

section \<open>Connections\<close>

definition resolve_port :: "(string \<times> module_spec) list \<Rightarrow> endpoint \<Rightarrow> module_port res" where
  "resolve_port ms e =
     rbind (or_raise (map_of ms (en_module e)) CompositionError) (\<lambda>m.
       or_raise (map_of (port_map m) (en_port e)) CompositionError)"

text \<open>The explicit field map, or equal names; pairs are a target and a source field.\<close>

definition connection_fields :: "connection \<Rightarrow> event_type \<Rightarrow> event_type \<Rightarrow> (string \<times> string) list" where
  "connection_fields k src tgt =
     (if cn_fields k \<noteq> [] then cn_fields k
      else map (\<lambda>n. (n, n)) (filter (\<lambda>n. n \<in> fst ` set (field_map tgt)) (map fst (field_map src))))"

definition validate_field_map :: "connection \<Rightarrow> event_type \<Rightarrow> event_type \<Rightarrow> unit res" where
  "validate_field_map k src tgt =
     rbind (traverse (\<lambda>(a, b).
       rbind (get_spec tgt a CompositionError) (\<lambda>t.
       rbind (get_spec src b CompositionError) (\<lambda>s.
         require (compatible_with (fs_sort t) (fs_sort s)) CompositionError))) (connection_fields k src tgt)) (\<lambda>_. Inr ())"

definition endpoint_types :: "event_catalog \<Rightarrow> module_port \<Rightarrow> module_port \<Rightarrow> (event_type \<times> event_type) res" where
  "endpoint_types c sp tp =
     rbind (resolve c (po_type sp)) (\<lambda>st. rbind (resolve c (po_type tp)) (\<lambda>tt. Inr (st, tt)))"

definition validate_connection :: "(string \<times> module_spec) list \<Rightarrow> event_catalog \<Rightarrow> endpoint list \<Rightarrow> connection \<Rightarrow>
    endpoint list res" where
  "validate_connection ms c targets k =
     rbind (resolve_port ms (cn_source k)) (\<lambda>sp.
     rbind (resolve_port ms (cn_target k)) (\<lambda>tp.
     rbind (require (po_direction sp = OUTPUT) CompositionError) (\<lambda>_.
     rbind (require (po_direction tp = INPUT) CompositionError) (\<lambda>_.
     rbind (require (cn_target k \<notin> set targets) CompositionError) (\<lambda>_.
     rbind (endpoint_types c sp tp) (\<lambda>(st, tt).
     rbind (if cn_mode k = SHARED_EVENT then require (et_name st = et_name tt) CompositionError
            else validate_field_map k st tt) (\<lambda>_. Inr (targets @ [cn_target k]))))))))"

definition connected :: "connection list \<Rightarrow> endpoint \<Rightarrow> bool" where
  "connected ks e \<longleftrightarrow> list_ex (\<lambda>k. cn_source k = e \<or> cn_target k = e) ks"

definition validate_connections :: "(string \<times> module_spec) list \<Rightarrow> connection list \<Rightarrow> event_catalog \<Rightarrow> unit res" where
  "validate_connections ms ks c =
     rbind (fold_res (validate_connection ms c) [] ks) (\<lambda>_.
       require (list_all (\<lambda>(n, m). list_all (\<lambda>p. po_required p \<longrightarrow> connected ks \<lparr>en_module = n, en_port = po_name p\<rparr>)
         (mo_ports m)) ms) CompositionError)"

text \<open>The transformation generated for a connection between different event types.\<close>

definition field_equation :: "string \<Rightarrow> string \<Rightarrow> pysort \<Rightarrow> string \<Rightarrow> pysort \<Rightarrow> expr res" where
  "field_equation op a s b t =
     rbind (mk_event_field ''target'' a s) (\<lambda>x. rbind (mk_event_field ''source'' b t) (\<lambda>y. mk_binary op x y))"

definition connection_ensures :: "connection \<Rightarrow> event_type \<Rightarrow> event_type \<Rightarrow> expr list res" where
  "connection_ensures k src tgt =
     rbind (if cn_same_cycle k then rbind (field_equation ''eq'' ''cycle'' INT_SORT ''cycle'' INT_SORT) (\<lambda>e. Inr [e])
            else Inr []) (\<lambda>cycle.
     rbind (traverse (\<lambda>(a, b).
       rbind (get_spec tgt a PyKeyError) (\<lambda>t.
       rbind (get_spec src b PyKeyError) (\<lambda>s.
         field_equation ''eq'' a (fs_sort t) b (fs_sort s)))) (sort (connection_fields k src tgt))) (\<lambda>es.
       Inr (cycle @ es)))"

definition connection_rule :: "connection \<Rightarrow> event_role \<Rightarrow> event_role \<Rightarrow> expr list \<Rightarrow> transformation" where
  "connection_rule k input output es = \<lparr>tf_name = ''connection.'' @ cn_name k, tf_inputs = [input], tf_outputs = [output],
     tf_when = TRUE_EXPR, tf_output_when = TRUE_EXPR, tf_ensure = es, tf_requirements = [], tf_updates = [],
     tf_exact = cn_exact k, tf_state_mode = ''require'',
     tf_description = (if cn_description k = [] then ''Generated event mapping for '' @ cn_name k @ ''.''
       else cn_description k),
     tf_tags = [''connection'', ''source:'' @ qualified_name (cn_source k), ''target:'' @ qualified_name (cn_target k)]\<rparr>"

definition mapped_transformation :: "(string \<times> module_spec) list \<Rightarrow> connection \<Rightarrow> event_catalog \<Rightarrow> transformation res" where
  "mapped_transformation ms k c =
     rbind (resolve_port ms (cn_source k)) (\<lambda>sp.
     rbind (resolve_port ms (cn_target k)) (\<lambda>tp.
     rbind (endpoint_types c sp tp) (\<lambda>(st, tt).
     rbind (connection_ensures k st tt) (\<lambda>es.
     rbind (mk_role \<lparr>ro_name = ''source'', ro_type = po_type sp\<rparr>) (\<lambda>input.
     rbind (mk_role \<lparr>ro_name = ''target'', ro_type = po_type tp\<rparr>) (\<lambda>output.
       mk_transformation (connection_rule k input output es)))))))"

section \<open>Merging\<close>

definition public_ports :: "module_spec \<Rightarrow> event_slot \<Rightarrow> string list" where
  "public_ports m s = sort (map po_name (filter (\<lambda>p. po_type p = sl_type s) (mo_ports m)))"

definition annotate_slot :: "string \<Rightarrow> module_spec \<Rightarrow> event_slot \<Rightarrow> event_slot" where
  "annotate_slot name m s =
     (let ports = public_ports m s;
          a = set_default ''module_visibility'' (VStr (if ports \<noteq> [] then ''public'' else ''private''))
                (set_default ''module_spec'' (VStr name) (sl_annotations s)) in
      s\<lparr>sl_annotations := if ports \<noteq> [] then set_default ''interface_ports'' (VList (map VStr ports)) a else a\<rparr>)"

definition first_occurrences :: "string list \<Rightarrow> string list" where
  "first_occurrences xs = foldl (\<lambda>acc x. if x \<in> set acc then acc else acc @ [x]) [] xs"

definition tag_transformation :: "string \<Rightarrow> transformation \<Rightarrow> transformation" where
  "tag_transformation name t = t\<lparr>tf_tags := first_occurrences (tf_tags t @ [''module:'' @ name])\<rparr>"

text \<open>The lists of the completion under construction.\<close>

record merged =
  mg_slots :: "event_slot list"
  mg_states :: "state_variable list"
  mg_transformations :: "transformation list"
  mg_constraints :: "expr list"

definition add_unique :: "('a \<Rightarrow> string) \<Rightarrow> 'a list \<Rightarrow> 'a \<Rightarrow> 'a list res" where
  "add_unique name xs x = rbind (require (name x \<notin> set (map name xs)) CompositionError) (\<lambda>_. Inr (xs @ [x]))"

definition merge_module :: "merged \<Rightarrow> loaded_module \<Rightarrow> merged res" where
  "merge_module g l =
     (let name = lm_reference l; m = lm_spec l in
      rbind (fold_res (\<lambda>ss s. rbind (mk_slot (annotate_slot name m s)) (add_unique sl_id ss)) (mg_slots g) (mo_slots m)) (\<lambda>slots.
      rbind (fold_res (add_unique sv_name) (mg_states g) (mo_states m)) (\<lambda>states.
      rbind (fold_res (\<lambda>ts t. rbind (mk_transformation (tag_transformation name t)) (add_unique tf_name ts))
        (mg_transformations g) (mo_transformations m)) (\<lambda>ts.
        Inr \<lparr>mg_slots = slots, mg_states = states, mg_transformations = ts,
          mg_constraints = mg_constraints g @ mo_constraints m\<rparr>))))"

definition generate_connections :: "(string \<times> module_spec) list \<Rightarrow> event_catalog \<Rightarrow> transformation list \<Rightarrow>
    connection list \<Rightarrow> transformation list res" where
  "generate_connections ms c ts ks =
     fold_res (\<lambda>ts k. rbind (mapped_transformation ms k c) (add_unique tf_name ts)) ts
       (filter (\<lambda>k. cn_mode k = EVENT_MAP) ks)"

text \<open>
  \<open>private[slot.id] = owner\<close>: constraints of the composition may not mention the slots annotated private.
\<close>

definition private_slot :: "event_slot \<Rightarrow> bool" where
  "private_slot s \<longleftrightarrow> (case map_of (sl_annotations s) ''module_visibility'' of Some v \<Rightarrow> v = VStr ''private'' | None \<Rightarrow> False)"

definition check_encapsulation :: "expr list \<Rightarrow> event_slot list \<Rightarrow> unit res" where
  "check_encapsulation es slots =
     (let private = map sl_id (filter private_slot slots) in
      require (list_all (\<lambda>e. list_all (\<lambda>r. fst r \<notin> set private) (iter_event_fields e)) es) CompositionError)"

section \<open>Manifests\<close>

definition str_list :: "string list \<Rightarrow> pyval" where
  "str_list xs = VList (map VStr xs)"

definition public_types :: "module_spec \<Rightarrow> string list" where
  "public_types m = sort (remdups (map po_type (mo_ports m)))"

definition private_slots :: "module_spec \<Rightarrow> event_slot list" where
  "private_slots m = filter (\<lambda>s. sl_type s \<notin> set (map po_type (mo_ports m))) (mo_slots m)"

definition private_types :: "module_spec \<Rightarrow> string list" where
  "private_types m = sort (remdups (mo_internal m @ map sl_type (private_slots m)))"

definition boundary_metadata :: "module_spec \<Rightarrow> pyval" where
  "boundary_metadata m = VMap [(''public_ports'', VList (map port_to_dict (mo_ports m))),
     (''public_event_types'', str_list (public_types m)),
     (''private_slot_ids'', str_list (sort (map sl_id (private_slots m)))),
     (''private_event_types'', str_list (private_types m)),
     (''private_state_names'', str_list (sort (map sv_name (mo_states m)))),
     (''private_transformation_names'', str_list (sort (map tf_name (mo_transformations m))))]"

text \<open>\<open>_copy_role_context\<close> copies two levels of containers; as a value the copy is the context.\<close>

definition copy_role_context :: "(string \<times> pyval) list \<Rightarrow> pyval" where
  "copy_role_context ctx = VMap (map (\<lambda>(k, v). (k,
     case v of VMap d \<Rightarrow> VMap d
     | VList vs \<Rightarrow> VList (map (\<lambda>x. case x of VMap d \<Rightarrow> VMap d | _ \<Rightarrow> x) vs)
     | _ \<Rightarrow> v)) ctx)"

definition connection_summary :: "connection \<Rightarrow> pyval" where
  "connection_summary k = VMap [(''name'', VStr (cn_name k)), (''mode'', VStr (mode_value (cn_mode k))),
     (''source'', VStr (qualified_name (cn_source k))), (''target'', VStr (qualified_name (cn_target k)))]"

definition composed_metadata :: "composition \<Rightarrow> (string \<times> pyval) list \<Rightarrow> loaded_module list \<Rightarrow> string list \<Rightarrow>
    (string \<times> pyval) list" where
  "composed_metadata cp ctx loaded generated =
     AList.update ''hierarchy'' (VMap [(''policy'', VStr ''ports-only-public-surface''),
         (''modules'', VMap (dict_of (map (\<lambda>l. (lm_reference l, boundary_metadata (lm_spec l))) loaded)))])
       (AList.update ''composition'' (VMap [(''name'', VStr (cp_name cp)), (''resolved_roles'', copy_role_context ctx),
           (''modules'', str_list (map lm_reference loaded)),
           (''connections'', VList (map connection_summary (cp_connections cp))),
           (''generated_transformations'', str_list generated)])
         (cp_metadata cp))"

section \<open>Composition\<close>

record composition_result =
  co_spec :: composition
  co_modules :: "loaded_module list"
  co_completion :: completion_spec
  co_generated :: "string list"
  co_roles :: "(string \<times> pyval) list"

definition module_table :: "loaded_module list \<Rightarrow> (string \<times> module_spec) list" where
  "module_table loaded = dict_of (map (\<lambda>l. (lm_reference l, lm_spec l)) loaded)"

definition composition_context :: "composition \<Rightarrow> trace option \<Rightarrow> (string \<times> pyval) list res" where
  "composition_context cp t =
     (if cp_roles cp = [] then Inr (cp_parameters cp)
      else rbind (or_raise t CompositionError) (\<lambda>t. resolve_trace_roles t (cp_roles cp) (cp_parameters cp)))"

definition compose_modules :: "(string \<Rightarrow> pyval res option) \<Rightarrow> (string \<Rightarrow> string) \<Rightarrow> string \<Rightarrow> event_catalog \<Rightarrow> composition \<Rightarrow>
    trace option \<Rightarrow> composition_result res" where
  "compose_modules read real_path cwd c cp t =
     rbind (composition_context cp t) (\<lambda>ctx.
     rbind (traverse (load_module read real_path cwd c cp ctx) (cp_modules cp)) (\<lambda>loaded.
     let ms = module_table loaded in
     rbind (validate_connections ms (cp_connections cp) c) (\<lambda>_.
     rbind (fold_res merge_module \<lparr>mg_slots = [], mg_states = [], mg_transformations = [], mg_constraints = []\<rparr> loaded) (\<lambda>g.
     rbind (generate_connections ms c (mg_transformations g) (cp_connections cp)) (\<lambda>ts.
     let generated = map tf_name (drop (length (mg_transformations g)) ts) in
     rbind (if str_default (cp_metadata cp) ''encapsulation'' ''legacy'' = ''strict''
            then check_encapsulation (cp_constraints cp) (mg_slots g) else Inr ()) (\<lambda>_.
     rbind (mk_completion_spec \<lparr>cs_slots = mg_slots g, cs_transformations = ts, cs_state_variables = mg_states g,
         cs_constraints = mg_constraints g @ cp_constraints cp, cs_horizon = cp_horizon cp,
         cs_metadata = composed_metadata cp ctx loaded generated,
         cs_version = ''umcm.completion.v0.15.0''\<rparr>) (\<lambda>spec.
       Inr \<lparr>co_spec = cp, co_modules = loaded, co_completion = spec, co_generated = generated, co_roles = ctx\<rparr>)))))))"

definition module_manifest :: "loaded_module \<Rightarrow> pyval" where
  "module_manifest l = (let m = lm_spec l; count = \<lambda>n. VInt (int n) in
     VMap [(''name'', VStr (lm_reference l)), (''declared_name'', VStr (mo_label m)), (''path'', VStr (lm_path l)),
       (''ports'', count (length (mo_ports m))), (''internal_event_types'', count (length (mo_internal m))),
       (''slots'', count (length (mo_slots m))), (''state_variables'', count (length (mo_states m))),
       (''transformations'', count (length (mo_transformations m))),
       (''constraints'', count (length (mo_constraints m)))])"

definition manifest :: "composition_result \<Rightarrow> pyval" where
  "manifest r = (let s = co_completion r; count = \<lambda>n. VInt (int n) in
     VMap [(''composition'', VStr (cp_name (co_spec r))), (''modules'', VList (map module_manifest (co_modules r))),
       (''connections'', VList (map connection_to_dict (cp_connections (co_spec r)))),
       (''generated_transformations'', str_list (co_generated r)),
       (''resolved_roles'', copy_role_context (co_roles r)),
       (''totals'', VMap [(''slots'', count (length (cs_slots s))),
         (''state_variables'', count (length (cs_state_variables s))),
         (''transformations'', count (length (cs_transformations s))),
         (''constraints'', count (length (cs_constraints s))), (''horizon'', VInt (cs_horizon s))])])"

end
