(* ===== verification/BoundedProblem.thy ===== *)
theory BoundedProblem
  imports CompletionIR
begin

text \<open>
  \<open>src/src/umcm/solver/problem.py\<close>: instantiation of role-based transformations over the events of
  a trace and the slots of a specification. Expressions are put together with the node
  constructors directly: their checks succeed on a validated specification, as
  \<open>ProblemFacts.build_problem_typed\<close> shows. A role an effect anchors to is looked up in the binding and
  may raise \<open>KeyError\<close>.
\<close>

section \<open>The problem\<close>

type_synonym binding = "(string \<times> string) list"

record named_constraint =
  nc_name :: string
  nc_expr :: expr
  nc_origin :: string

record requirement_instance =
  ri_name :: string
  ri_state :: string
  ri_cycle :: expr
  ri_activation :: expr
  ri_op :: string
  ri_expected :: expr
  ri_origin :: string

record update_instance =
  ui_name :: string
  ui_state :: string
  ui_cycle :: expr
  ui_activation :: expr
  ui_value :: expr
  ui_origin :: string

record guard_predicate =
  gp_state :: string
  gp_cycle :: expr
  gp_op :: string
  gp_expected :: expr

record guarded_forward =
  gf_name :: string
  gf_antecedent :: expr
  gf_predicates :: "guard_predicate list"
  gf_consequent :: expr
  gf_origin :: string

record support_candidate =
  sc_expr :: expr
  sc_predicates :: "guard_predicate list"

record guarded_support =
  gs_name :: string
  gs_antecedent :: expr
  gs_supports :: "support_candidate list"
  gs_origin :: string

record activation =
  ac_name :: string
  ac_transformation :: string
  ac_binding :: binding
  ac_expr :: expr
  ac_predicates :: "guard_predicate list"

record bounded_problem =
  bp_catalog :: event_catalog
  bp_trace :: trace
  bp_spec :: completion_spec
  bp_events :: "event_instance list"
  bp_constraints :: "named_constraint list"
  bp_requirements :: "requirement_instance list"
  bp_updates :: "update_instance list"
  bp_forwards :: "guarded_forward list"
  bp_supports :: "guarded_support list"
  bp_activations :: "activation list"
  bp_slot_ids :: "string list"

record rule_instances =
  in_constraints :: "named_constraint list"
  in_requirements :: "requirement_instance list"
  in_updates :: "update_instance list"
  in_forwards :: "guarded_forward list"
  in_supports :: "guarded_support list"
  in_activations :: "activation list"

definition problem_event_map :: "bounded_problem \<Rightarrow> (string \<times> event_instance) list" where
  "problem_event_map p = dict_of (map (\<lambda>e. (ei_id e, e)) (bp_events p))"

section \<open>Bindings of roles to events\<close>

definition role_bindings :: "event_role list \<Rightarrow> (string \<times> event_instance list) list \<Rightarrow> binding list" where
  "role_bindings roles by_type =
     map (\<lambda>chosen. dict_of (zip (map ro_name roles) (map ei_id chosen)))
       (product_lists (map (\<lambda>r. dict_list by_type (ro_type r)) roles))"

definition distinct_ids :: "binding \<Rightarrow> bool" where
  "distinct_ids b \<longleftrightarrow> distinct (map snd b)"

definition occurs_of :: "binding \<Rightarrow> expr list" where
  "occurs_of b = map (\<lambda>(_, i). EventField i ''occurs'' BOOL_SORT) b"

definition cycle_of :: "binding \<Rightarrow> string \<Rightarrow> expr res" where
  "cycle_of m role = rbind (or_raise (map_of m role) PyKeyError) (\<lambda>i. Inr (EventField i ''cycle'' INT_SORT))"

definition merge_bindings :: "binding \<Rightarrow> binding \<Rightarrow> binding" where
  "merge_bindings ib ob = dict_of (ib @ ob)"

section \<open>Instances of one transformation\<close>

definition ensured :: "transformation \<Rightarrow> binding \<Rightarrow> expr list" where
  "ensured t m = map (substitute_event_ids m) (tf_ensure t)"

definition antecedent :: "transformation \<Rightarrow> binding \<Rightarrow> expr" where
  "antecedent t ib = conjunction (occurs_of ib @ [substitute_event_ids ib (tf_when t)])"

definition output_alternative :: "transformation \<Rightarrow> binding \<Rightarrow> binding \<Rightarrow> expr" where
  "output_alternative t ib ob =
     (let m = merge_bindings ib ob in
      conjunction (occurs_of ob @ [substitute_event_ids m (tf_output_when t)] @ ensured t m))"

definition full_activation :: "transformation \<Rightarrow> binding \<Rightarrow> binding \<Rightarrow> expr" where
  "full_activation t ib ob =
     (let m = merge_bindings ib ob in
      conjunction (occurs_of ib @ [substitute_event_ids ib (tf_when t)] @ occurs_of ob
        @ [substitute_event_ids m (tf_output_when t)] @ ensured t m))"

definition input_support :: "transformation \<Rightarrow> binding \<Rightarrow> binding \<Rightarrow> expr" where
  "input_support t ib ob =
     (let m = merge_bindings ib ob in
      conjunction (occurs_of ib @ [substitute_event_ids m (tf_when t)] @ ensured t m))"

definition guard_predicates :: "transformation \<Rightarrow> binding \<Rightarrow> guard_predicate list res" where
  "guard_predicates t m =
     traverse (\<lambda>r. rbind (cycle_of m (rq_at r)) (\<lambda>c.
       Inr \<lparr>gp_state = rq_state r, gp_cycle = c, gp_op = rq_op r,
         gp_expected = substitute_event_ids m (rq_value r)\<rparr>)) (tf_requirements t)"

definition rule_origin :: "transformation \<Rightarrow> string" where
  "rule_origin t = ''transformation:'' @ tf_name t"

definition requirement_instances :: "transformation \<Rightarrow> string \<Rightarrow> binding \<Rightarrow> expr \<Rightarrow> requirement_instance list res" where
  "requirement_instances t prefix m act =
     traverse (\<lambda>(k, r). rbind (cycle_of m (rq_at r)) (\<lambda>c.
       Inr \<lparr>ri_name = prefix @ ''.requirement.'' @ dec_nat k, ri_state = rq_state r, ri_cycle = c,
         ri_activation = act, ri_op = rq_op r, ri_expected = substitute_event_ids m (rq_value r),
         ri_origin = rule_origin t\<rparr>)) (enumerate 0 (tf_requirements t))"

definition update_instances :: "transformation \<Rightarrow> string \<Rightarrow> binding \<Rightarrow> expr \<Rightarrow> update_instance list res" where
  "update_instances t prefix m act =
     traverse (\<lambda>(k, u). rbind (cycle_of m (up_at u)) (\<lambda>c.
       Inr \<lparr>ui_name = prefix @ ''.update.'' @ dec_nat k, ui_state = up_state u, ui_cycle = c,
         ui_activation = act, ui_value = substitute_event_ids m (up_value u),
         ui_origin = rule_origin t\<rparr>)) (enumerate 0 (tf_updates t))"

definition activation_instance :: "transformation \<Rightarrow> nat \<Rightarrow> binding \<Rightarrow> nat \<times> binding \<Rightarrow> activation res" where
  "activation_instance t k ib job =
     (case job of (j, ob) \<Rightarrow>
        let m = merge_bindings ib ob in
        rbind (if tf_state_mode t = ''guard'' then guard_predicates t m else Inr []) (\<lambda>preds.
          Inr \<lparr>ac_name = ''transformation.'' @ tf_name t @ ''.activation.'' @ dec_nat k @ ''.'' @ dec_nat j,
            ac_transformation = tf_name t, ac_binding = m, ac_expr = full_activation t ib ob,
            ac_predicates = preds\<rparr>))"

definition ids_text :: "string \<Rightarrow> binding \<Rightarrow> string" where
  "ids_text none b = (if b = [] then none else join '','' (map snd b))"

definition usable_outputs :: "binding \<Rightarrow> binding list \<Rightarrow> (nat \<times> binding) list" where
  "usable_outputs ib obs = filter (\<lambda>(_, ob). distinct_ids (ib @ ob)) (enumerate 0 obs)"

definition effect_instances :: "transformation \<Rightarrow> string \<Rightarrow> binding \<Rightarrow> (nat \<times> binding) list \<Rightarrow>
    (requirement_instance list \<times> update_instance list) list res" where
  "effect_instances t forward ib outs =
     traverse (\<lambda>(j, ob).
       let m = merge_bindings ib ob; act = full_activation t ib ob;
           prefix = forward @ ''.instance.'' @ dec_nat j @ ''.'' @ ids_text ''no-output'' ob in
       rbind (requirement_instances t prefix m act) (\<lambda>rs.
       rbind (update_instances t prefix m act) (\<lambda>us. Inr (rs, us)))) outs"

definition empty_instantiation :: rule_instances where
  "empty_instantiation = \<lparr>in_constraints = [], in_requirements = [], in_updates = [],
     in_forwards = [], in_supports = [], in_activations = []\<rparr>"

text \<open>The body of the loop over input bindings.\<close>

definition instantiate_input :: "transformation \<Rightarrow> binding list \<Rightarrow> nat \<times> binding \<Rightarrow> rule_instances res" where
  "instantiate_input t obs kib =
     (case kib of (k, ib) \<Rightarrow>
        if \<not> distinct_ids ib then Inr empty_instantiation
        else
          let outs = usable_outputs ib obs;
              alternatives = map (\<lambda>(_, ob). output_alternative t ib ob) outs;
              name = ''transformation.'' @ tf_name t @ ''.forward.'' @ dec_nat k @ ''.'' @ ids_text ''global'' ib in
          rbind (traverse (activation_instance t k ib) outs) (\<lambda>acts.
          if tf_state_mode t = ''guard'' then
            (if list_all (\<lambda>r. rq_at r \<in> fst ` set ib) (tf_requirements t) then
               rbind (guard_predicates t ib) (\<lambda>preds.
                 Inr (empty_instantiation\<lparr>in_activations := acts,
                   in_forwards := [\<lparr>gf_name = name, gf_antecedent = antecedent t ib, gf_predicates = preds,
                     gf_consequent = disjunction alternatives, gf_origin = rule_origin t\<rparr>]\<rparr>))
             else Inr (empty_instantiation\<lparr>in_activations := acts\<rparr>))
          else
            rbind (if is_stateful t then effect_instances t name ib outs else Inr []) (\<lambda>effects.
              Inr (empty_instantiation\<lparr>in_activations := acts,
                in_constraints := [\<lparr>nc_name = name,
                  nc_expr = Binary ''implies'' (antecedent t ib) (disjunction alternatives),
                  nc_origin = rule_origin t\<rparr>],
                in_requirements := concat (map fst effects),
                in_updates := concat (map snd effects)\<rparr>))))"

text \<open>The body of the loop over output bindings of an exact transformation.\<close>

definition support_scope :: "transformation \<Rightarrow> binding \<Rightarrow> expr" where
  "support_scope t ob =
     conjunction [conjunction (occurs_of ob), substitute_event_ids ob (tf_output_when t)]"

definition instantiate_output :: "transformation \<Rightarrow> binding list \<Rightarrow> nat \<times> binding \<Rightarrow> rule_instances res" where
  "instantiate_output t ibs job =
     (case job of (j, ob) \<Rightarrow>
        if \<not> distinct_ids ob then Inr empty_instantiation
        else
          let ins = filter (\<lambda>ib. distinct_ids (ib @ ob)) ibs;
              name = ''transformation.'' @ tf_name t @ ''.support.'' @ dec_nat j @ ''.'' @ ids_text ''global'' ob in
          if tf_state_mode t = ''guard'' then
            rbind (traverse (\<lambda>ib. rbind (guard_predicates t (merge_bindings ib ob)) (\<lambda>preds.
                Inr \<lparr>sc_expr = input_support t ib ob, sc_predicates = preds\<rparr>)) ins) (\<lambda>candidates.
              Inr (empty_instantiation\<lparr>in_supports := [\<lparr>gs_name = name, gs_antecedent = support_scope t ob,
                gs_supports = candidates, gs_origin = rule_origin t\<rparr>]\<rparr>))
          else
            Inr (empty_instantiation\<lparr>in_constraints := [\<lparr>nc_name = name,
              nc_expr = Binary ''implies'' (support_scope t ob)
                (disjunction (map (\<lambda>ib. input_support t ib ob) ins)),
              nc_origin = rule_origin t\<rparr>]\<rparr>))"

definition join_instantiations :: "rule_instances list \<Rightarrow> rule_instances" where
  "join_instantiations xs = \<lparr>in_constraints = concat (map in_constraints xs),
     in_requirements = concat (map in_requirements xs), in_updates = concat (map in_updates xs),
     in_forwards = concat (map in_forwards xs), in_supports = concat (map in_supports xs),
     in_activations = concat (map in_activations xs)\<rparr>"

definition input_bindings :: "transformation \<Rightarrow> event_instance list \<Rightarrow> binding list" where
  "input_bindings t events = role_bindings (tf_inputs t) (group_by ei_type events)"

definition output_bindings :: "transformation \<Rightarrow> event_instance list \<Rightarrow> binding list" where
  "output_bindings t events = role_bindings (tf_outputs t) (group_by ei_type events)"

definition instantiate_transformation :: "event_instance list \<Rightarrow> transformation \<Rightarrow> rule_instances res" where
  "instantiate_transformation events t =
     (let ibs = input_bindings t events; obs = output_bindings t events in
      rbind (traverse (instantiate_input t obs) (enumerate 0 ibs)) (\<lambda>fwd.
      rbind (if tf_exact t then traverse (instantiate_output t ibs) (enumerate 0 obs) else Inr []) (\<lambda>sup.
        Inr (join_instantiations (fwd @ sup)))))"

section \<open>Building the problem\<close>

definition materialize_partial_event :: "event_catalog \<Rightarrow> event_instance \<Rightarrow> event_instance res" where
  "materialize_partial_event c ev =
     rbind (resolve c (ei_type ev)) (\<lambda>t.
     rbind (fill_required (''trace::'' @ ei_id ev @ ''::field::'') t (ei_fields ev)) (\<lambda>vals.
       mk_event_instance (ev\<lparr>ei_fields := vals\<rparr>)))"

definition cycle_bound :: "int \<Rightarrow> event_instance \<Rightarrow> named_constraint" where
  "cycle_bound horizon ev =
     (let cycle = EventField (ei_id ev) ''cycle'' INT_SORT in
      \<lparr>nc_name = ''cycle.bound.'' @ ei_id ev,
       nc_expr = Binary ''implies'' (EventField (ei_id ev) ''occurs'' BOOL_SORT)
         (conjunction [Binary ''le'' (Literal (SInt 0) INT_SORT) cycle,
                       Binary ''le'' cycle (Literal (SInt horizon) INT_SORT)]),
       nc_origin = ''completion''\<rparr>)"

definition numbered_constraints :: "string \<Rightarrow> string \<Rightarrow> expr list \<Rightarrow> named_constraint list" where
  "numbered_constraints prefix origin es =
     map (\<lambda>(k, e). \<lparr>nc_name = prefix @ dec_nat k, nc_expr = e, nc_origin = origin\<rparr>) (enumerate 0 es)"

definition build_problem :: "event_catalog \<Rightarrow> trace \<Rightarrow> completion_spec \<Rightarrow> bounded_problem res" where
  "build_problem c t s =
     rbind (validate_trace c None t) (\<lambda>_.
     rbind (validate_spec c t s) (\<lambda>_.
     rbind (traverse (materialize_partial_event c) (tr_events t)) (\<lambda>observed.
     rbind (traverse (materialize_slot c) (cs_slots s)) (\<lambda>slots.
     let events = observed @ slots in
     rbind (traverse (instantiate_transformation events) (cs_transformations s)) (\<lambda>insts.
       let inst = join_instantiations insts in
       Inr \<lparr>bp_catalog = c, bp_trace = t, bp_spec = s, bp_events = events,
         bp_constraints = numbered_constraints ''trace.constraint.'' ''trace'' (tr_constraints t)
           @ numbered_constraints ''completion.constraint.'' ''completion'' (cs_constraints s)
           @ map (cycle_bound (cs_horizon s)) (filter (\<lambda>e. ei_cycle e \<noteq> VNone) events)
           @ in_constraints inst,
         bp_requirements = in_requirements inst, bp_updates = in_updates inst,
         bp_forwards = in_forwards inst, bp_supports = in_supports inst,
         bp_activations = in_activations inst, bp_slot_ids = map sl_id (cs_slots s)\<rparr>)))))"

end
