(* ===== verification/ProblemFacts.thy ===== *)
theory ProblemFacts
  imports BoundedProblem
begin

text \<open>
  What \<open>build_problem\<close> (\<open>solver/problem.py\<close>) guarantees: the bindings are exactly the assignments of
  roles to events of their types, every event of the problem conforms to its type, every
  constraint is well-formed and refers to events and attributes that exist, and the constraints
  of a transformation hold in a context iff the rule its documentation states does.
\<close>

section \<open>Bindings\<close>

definition binding_of :: "event_role list \<Rightarrow> event_instance list \<Rightarrow> binding \<Rightarrow> bool" where
  "binding_of roles events b \<longleftrightarrow>
     list_all2 (\<lambda>(n, i) r. n = ro_name r \<and> (\<exists>e \<in> set events. ei_id e = i \<and> ei_type e = ro_type r)) b roles"

lemma binding_of_names: "binding_of roles events b \<Longrightarrow> map fst b = map ro_name roles"
  unfolding binding_of_def by (induction b roles rule: list_all2_induct) auto

lemma binding_of_append:
  "binding_of rs events b \<Longrightarrow> binding_of rs' events b' \<Longrightarrow> binding_of (rs @ rs') events (b @ b')"
  unfolding binding_of_def by (rule list_all2_appendI)

lemma binding_of_lookup:
  assumes "binding_of roles events b" and "distinct (map ro_name roles)" and "r \<in> set roles"
  shows "\<exists>e \<in> set events. map_of b (ro_name r) = Some (ei_id e) \<and> ei_type e = ro_type r"
proof -
  have "distinct (map fst b)" using binding_of_names [OF assms(1)] assms(2) by simp
  moreover obtain k where k: "k < length roles" "roles ! k = r" using assms(3) by (auto simp: in_set_conv_nth)
  note nth = list_all2_nthD2 [OF assms(1) [unfolded binding_of_def] k(1)]
  have kb: "k < length b" using k assms(1) by (simp add: binding_of_def list_all2_lengthD)
  obtain e where "b ! k = (ro_name r, ei_id e)" "e \<in> set events" "ei_type e = ro_type r"
    using nth k(2) by (cases "b ! k") auto
  moreover have "b ! k \<in> set b" using kb by simp
  ultimately show ?thesis by (metis map_of_is_SomeI)
qed

lemma binding_of_zip:
  "(\<exists>chosen. list_all2 (\<lambda>e r. e \<in> set events \<and> ei_type e = ro_type r) chosen roles \<and>
      b = zip (map ro_name roles) (map ei_id chosen)) \<longleftrightarrow> binding_of roles events b"
proof (induction roles arbitrary: b)
  case Nil
  show ?case by (auto simp: binding_of_def)
next
  case (Cons r roles)
  have "(\<exists>chosen. list_all2 (\<lambda>e r. e \<in> set events \<and> ei_type e = ro_type r) chosen (r # roles) \<and>
      b = zip (map ro_name (r # roles)) (map ei_id chosen)) \<longleftrightarrow>
    (\<exists>e b'. e \<in> set events \<and> ei_type e = ro_type r \<and> b = (ro_name r, ei_id e) # b' \<and>
      (\<exists>chosen. list_all2 (\<lambda>e r. e \<in> set events \<and> ei_type e = ro_type r) chosen roles \<and>
        b' = zip (map ro_name roles) (map ei_id chosen)))"
    unfolding list_all2_Cons2 by fastforce
  also have "\<dots> \<longleftrightarrow> binding_of (r # roles) events b"
    unfolding Cons.IH by (auto simp: binding_of_def list_all2_Cons2)
  finally show ?case .
qed

lemma role_bindings_mem:
  assumes "distinct (map ro_name roles)"
  shows "b \<in> set (role_bindings roles (group_by ei_type events)) \<longleftrightarrow> binding_of roles events b"
proof -
  have "chosen \<in> set (product_lists (map (\<lambda>r. dict_list (group_by ei_type events) (ro_type r)) roles)) \<longleftrightarrow>
      list_all2 (\<lambda>e r. e \<in> set events \<and> ei_type e = ro_type r) chosen roles" for chosen
    by (auto simp: product_lists_iff dict_list_group_by list_all2_conv_all_nth)
  moreover have "dict_of (zip (map ro_name roles) (map ei_id chosen)) = zip (map ro_name roles) (map ei_id chosen)"
    if "list_all2 (\<lambda>e r. e \<in> set events \<and> ei_type e = ro_type r) chosen roles" for chosen
    using that assms by (intro dict_of_distinct) (simp add: list_all2_lengthD)
  ultimately show ?thesis
    unfolding binding_of_zip [symmetric] role_bindings_def by (auto simp: image_iff)
qed

lemma merge_bindings_append:
  "binding_of rs events ib \<Longrightarrow> binding_of rs' events ob \<Longrightarrow> distinct (map ro_name (rs @ rs')) \<Longrightarrow>
   merge_bindings ib ob = ib @ ob"
  unfolding merge_bindings_def
  by (rule dict_of_distinct) (use binding_of_names [of rs events ib] binding_of_names [of rs' events ob] in
    \<open>simp add: map_eq_conv flip: set_map\<close>)

section \<open>Truth of the connectives\<close>

definition holds :: "nat \<Rightarrow> eval_context \<Rightarrow> expr \<Rightarrow> bool" where
  "holds n c e \<longleftrightarrow> eval_at n c e = Inr (Some (VBool True))"

definition decided :: "nat \<Rightarrow> eval_context \<Rightarrow> expr \<Rightarrow> bool" where
  "decided n c e \<longleftrightarrow> (\<exists>b. eval_at n c e = Inr (Some (VBool b)))"

lemma holds_decided: "holds n c e \<Longrightarrow> decided n c e"
  by (auto simp: holds_def decided_def)

lemma decided_traverse:
  "\<forall>e \<in> set es. decided n c e \<Longrightarrow>
   traverse (eval_at n c) es = Inr (map (\<lambda>e. Some (VBool (holds n c e))) es)"
  by (rule traverse_Inr_map) (auto simp: decided_def holds_def)

lemma nary_and: "list_all is_True (map (\<lambda>e. Some (VBool (P e))) es) \<longleftrightarrow> (\<forall>e \<in> set es. P e)"
  and nary_or: "list_ex is_True (map (\<lambda>e. Some (VBool (P e))) es) \<longleftrightarrow> (\<exists>e \<in> set es. P e)"
  and nary_nand: "list_ex is_False (map (\<lambda>e. Some (VBool (P e))) es) \<longleftrightarrow> (\<exists>e \<in> set es. \<not> P e)"
  and nary_nor: "list_all is_False (map (\<lambda>e. Some (VBool (P e))) es) \<longleftrightarrow> (\<forall>e \<in> set es. \<not> P e)"
  by (induction es) (auto simp: is_True_def is_False_def)

lemma eval_conjunction:
  assumes "\<forall>e \<in> set es. decided n c e"
  shows "eval_at n c (conjunction es) = Inr (Some (VBool (\<forall>e \<in> set es. holds n c e)))"
proof -
  note t = decided_traverse [OF assms]
  consider "es = []" | e where "es = [e]" | a b rest where "es = a # b # rest"
    by (cases es; cases "tl es") auto
  then show ?thesis
  proof cases
    case 3
    then have "conjunction es = Nary ''and'' es" by (simp add: conjunction_def)
    then show ?thesis
      by (simp add: t eval_nary_def nary_and nary_nand del: list.map)
  qed (use assms in \<open>auto simp: conjunction_def decided_def holds_def\<close>)
qed

lemma eval_disjunction:
  assumes "\<forall>e \<in> set es. decided n c e"
  shows "eval_at n c (disjunction es) = Inr (Some (VBool (\<exists>e \<in> set es. holds n c e)))"
proof -
  note t = decided_traverse [OF assms]
  consider "es = []" | e where "es = [e]" | a b rest where "es = a # b # rest"
    by (cases es; cases "tl es") auto
  then show ?thesis
  proof cases
    case 3
    then have "disjunction es = Nary ''or'' es" by (simp add: disjunction_def)
    then show ?thesis
      by (simp add: t eval_nary_def nary_or nary_nor del: list.map)
  qed (use assms in \<open>auto simp: disjunction_def decided_def holds_def\<close>)
qed

lemma eval_implies:
  assumes "decided n c a" and "decided n c b"
  shows "eval_at n c (Binary ''implies'' a b) = Inr (Some (VBool (holds n c a \<longrightarrow> holds n c b)))"
  using assms by (auto simp: decided_def holds_def eval_binary_def is_True_def is_False_def)

lemmas eval_connectives = eval_conjunction eval_disjunction eval_implies

lemma decided_connectives:
  "\<forall>e \<in> set es. decided n c e \<Longrightarrow> decided n c (conjunction es)"
  "\<forall>e \<in> set es. decided n c e \<Longrightarrow> decided n c (disjunction es)"
  "decided n c a \<Longrightarrow> decided n c b \<Longrightarrow> decided n c (Binary ''implies'' a b)"
  using eval_conjunction [of es n c] eval_disjunction [of es n c] eval_implies [of n c a b]
  unfolding decided_def [of n c "conjunction es"] decided_def [of n c "disjunction es"]
    decided_def [of n c "Binary ''implies'' a b"] by blast+

lemma holds_connectives:
  "\<forall>e \<in> set es. decided n c e \<Longrightarrow> holds n c (conjunction es) \<longleftrightarrow> (\<forall>e \<in> set es. holds n c e)"
  "\<forall>e \<in> set es. decided n c e \<Longrightarrow> holds n c (disjunction es) \<longleftrightarrow> (\<exists>e \<in> set es. holds n c e)"
  "decided n c a \<Longrightarrow> decided n c b \<Longrightarrow> holds n c (Binary ''implies'' a b) \<longleftrightarrow> (holds n c a \<longrightarrow> holds n c b)"
  using eval_conjunction [of es n c] eval_disjunction [of es n c] eval_implies [of n c a b]
  unfolding holds_def [of n c "conjunction es"] holds_def [of n c "disjunction es"]
    holds_def [of n c "Binary ''implies'' a b"] by (simp_all del: eval_at.simps)

section \<open>The rule a transformation states\<close>

definition happens :: "nat \<Rightarrow> eval_context \<Rightarrow> binding \<Rightarrow> bool" where
  "happens n c b \<longleftrightarrow> (\<forall>e \<in> set (occurs_of b). holds n c e)"

text \<open>
  The documentation of \<open>Transformation\<close>: every occurring tuple of inputs satisfying \<open>when\<close> has an
  occurring tuple of outputs satisfying \<open>output_when\<close> and \<open>ensure\<close>; an exact transformation
  also has an enabled input tuple for every occurring output in its scope. No event plays two roles.
\<close>

definition forward_rule :: "nat \<Rightarrow> eval_context \<Rightarrow> transformation \<Rightarrow> event_instance list \<Rightarrow> bool" where
  "forward_rule n c t events \<longleftrightarrow>
     (\<forall>ib. binding_of (tf_inputs t) events ib \<and> distinct_ids ib \<and> happens n c ib \<and>
           holds n c (substitute_event_ids ib (tf_when t)) \<longrightarrow>
        (\<exists>ob. binding_of (tf_outputs t) events ob \<and> distinct_ids (ib @ ob) \<and> happens n c ob \<and>
           holds n c (substitute_event_ids (ib @ ob) (tf_output_when t)) \<and>
           (\<forall>e \<in> set (tf_ensure t). holds n c (substitute_event_ids (ib @ ob) e))))"

definition support_rule :: "nat \<Rightarrow> eval_context \<Rightarrow> transformation \<Rightarrow> event_instance list \<Rightarrow> bool" where
  "support_rule n c t events \<longleftrightarrow>
     (\<forall>ob. binding_of (tf_outputs t) events ob \<and> distinct_ids ob \<and> happens n c ob \<and>
           holds n c (substitute_event_ids ob (tf_output_when t)) \<longrightarrow>
        (\<exists>ib. binding_of (tf_inputs t) events ib \<and> distinct_ids (ib @ ob) \<and> happens n c ib \<and>
           holds n c (substitute_event_ids (ib @ ob) (tf_when t)) \<and>
           (\<forall>e \<in> set (tf_ensure t). holds n c (substitute_event_ids (ib @ ob) e))))"

text \<open>Every expression of the rule has a truth value under every binding.\<close>

definition rule_decided :: "nat \<Rightarrow> eval_context \<Rightarrow> transformation \<Rightarrow> event_instance list \<Rightarrow> bool" where
  "rule_decided n c t events \<longleftrightarrow>
     (\<forall>ib. binding_of (tf_inputs t) events ib \<longrightarrow>
        (\<forall>e \<in> set (occurs_of ib). decided n c e) \<and> decided n c (substitute_event_ids ib (tf_when t))) \<and>
     (\<forall>ob. binding_of (tf_outputs t) events ob \<longrightarrow>
        (\<forall>e \<in> set (occurs_of ob). decided n c e) \<and> decided n c (substitute_event_ids ob (tf_output_when t))) \<and>
     (\<forall>ib ob. binding_of (tf_inputs t) events ib \<longrightarrow> binding_of (tf_outputs t) events ob \<longrightarrow>
        (\<forall>e \<in> set (tf_when t # tf_output_when t # tf_ensure t). decided n c (substitute_event_ids (ib @ ob) e)))"

lemma tf_roles_distinct:
  "distinct (map ro_name (tf_roles t)) \<Longrightarrow>
     distinct (map ro_name (tf_inputs t)) \<and> distinct (map ro_name (tf_outputs t))"
  by (simp add: tf_roles_def)

lemma holds_antecedent:
  assumes "rule_decided n c t events" and "binding_of (tf_inputs t) events ib"
  shows "decided n c (antecedent t ib)"
    and "holds n c (antecedent t ib) \<longleftrightarrow> happens n c ib \<and> holds n c (substitute_event_ids ib (tf_when t))"
proof -
  have "\<forall>e \<in> set (occurs_of ib @ [substitute_event_ids ib (tf_when t)]). decided n c e"
    using assms by (auto simp: rule_decided_def)
  note d = this
  show "decided n c (antecedent t ib)" unfolding antecedent_def by (rule decided_connectives(1) [OF d])
  show "holds n c (antecedent t ib) \<longleftrightarrow> happens n c ib \<and> holds n c (substitute_event_ids ib (tf_when t))"
    unfolding antecedent_def holds_connectives(1) [OF d] by (auto simp: happens_def)
qed

lemma holds_output_alternative:
  assumes "rule_decided n c t events" and roles: "distinct (map ro_name (tf_roles t))"
    and b: "binding_of (tf_inputs t) events ib" "binding_of (tf_outputs t) events ob"
  shows "decided n c (output_alternative t ib ob)"
    and "holds n c (output_alternative t ib ob) \<longleftrightarrow> happens n c ob \<and>
      holds n c (substitute_event_ids (ib @ ob) (tf_output_when t)) \<and>
      (\<forall>e \<in> set (tf_ensure t). holds n c (substitute_event_ids (ib @ ob) e))"
proof -
  have m: "merge_bindings ib ob = ib @ ob"
    by (rule merge_bindings_append [OF b]) (use roles in \<open>simp add: tf_roles_def\<close>)
  have d: "\<forall>e \<in> set (occurs_of ob @ [substitute_event_ids (ib @ ob) (tf_output_when t)] @ ensured t (ib @ ob)). decided n c e"
    using assms(1) b by (auto simp: rule_decided_def ensured_def)
  show "decided n c (output_alternative t ib ob)"
    unfolding output_alternative_def m Let_def by (rule decided_connectives(1) [OF d])
  show "holds n c (output_alternative t ib ob) \<longleftrightarrow> happens n c ob \<and>
      holds n c (substitute_event_ids (ib @ ob) (tf_output_when t)) \<and>
      (\<forall>e \<in> set (tf_ensure t). holds n c (substitute_event_ids (ib @ ob) e))"
    unfolding output_alternative_def m Let_def holds_connectives(1) [OF d] by (auto simp: happens_def ensured_def)
qed

lemma holds_input_support:
  assumes "rule_decided n c t events" and roles: "distinct (map ro_name (tf_roles t))"
    and b: "binding_of (tf_inputs t) events ib" "binding_of (tf_outputs t) events ob"
  shows "decided n c (input_support t ib ob)"
    and "holds n c (input_support t ib ob) \<longleftrightarrow> happens n c ib \<and>
      holds n c (substitute_event_ids (ib @ ob) (tf_when t)) \<and>
      (\<forall>e \<in> set (tf_ensure t). holds n c (substitute_event_ids (ib @ ob) e))"
proof -
  have m: "merge_bindings ib ob = ib @ ob"
    by (rule merge_bindings_append [OF b]) (use roles in \<open>simp add: tf_roles_def\<close>)
  have d: "\<forall>e \<in> set (occurs_of ib @ [substitute_event_ids (ib @ ob) (tf_when t)] @ ensured t (ib @ ob)). decided n c e"
    using assms(1) b by (auto simp: rule_decided_def ensured_def)
  show "decided n c (input_support t ib ob)"
    unfolding input_support_def m Let_def by (rule decided_connectives(1) [OF d])
  show "holds n c (input_support t ib ob) \<longleftrightarrow> happens n c ib \<and>
      holds n c (substitute_event_ids (ib @ ob) (tf_when t)) \<and>
      (\<forall>e \<in> set (tf_ensure t). holds n c (substitute_event_ids (ib @ ob) e))"
    unfolding input_support_def m Let_def holds_connectives(1) [OF d] by (auto simp: happens_def ensured_def)
qed

lemma holds_support_scope:
  assumes "rule_decided n c t events" and "binding_of (tf_outputs t) events ob"
  shows "decided n c (support_scope t ob)"
    and "holds n c (support_scope t ob) \<longleftrightarrow> happens n c ob \<and> holds n c (substitute_event_ids ob (tf_output_when t))"
proof -
  have o: "\<forall>e \<in> set (occurs_of ob). decided n c e" using assms by (auto simp: rule_decided_def)
  have d: "\<forall>e \<in> set [conjunction (occurs_of ob), substitute_event_ids ob (tf_output_when t)]. decided n c e"
    using assms decided_connectives(1) [OF o] by (auto simp: rule_decided_def)
  show "decided n c (support_scope t ob)"
    unfolding support_scope_def by (rule decided_connectives(1) [OF d])
  show "holds n c (support_scope t ob) \<longleftrightarrow> happens n c ob \<and> holds n c (substitute_event_ids ob (tf_output_when t))"
    unfolding support_scope_def holds_connectives(1) [OF d] happens_def
    by (simp add: holds_connectives(1) [OF o])
qed

text \<open>The constraints the code emits for a rule whose state effects are not guards.\<close>

lemma instantiate_input_constraints:
  assumes "instantiate_input t obs (k, ib) = Inr inst" and "tf_state_mode t \<noteq> ''guard''"
  shows "map nc_expr (in_constraints inst) = (if distinct_ids ib then
    [Binary ''implies'' (antecedent t ib)
      (disjunction (map (output_alternative t ib) (filter (\<lambda>ob. distinct_ids (ib @ ob)) obs)))] else [])"
proof (cases "distinct_ids ib")
  case True
  have "map (\<lambda>(j, ob). output_alternative t ib ob) (usable_outputs ib obs) =
      map (output_alternative t ib) (filter (\<lambda>ob. distinct_ids (ib @ ob)) obs)"
  proof -
    have "map snd (filter (\<lambda>(j, ob). distinct_ids (ib @ ob)) (enumerate m obs)) =
        filter (\<lambda>ob. distinct_ids (ib @ ob)) obs" for m
      by (induction obs arbitrary: m) auto
    from this [of 0] show ?thesis
      unfolding usable_outputs_def by (metis (no_types, lifting) case_prod_unfold map_cong map_map o_apply)
  qed
  then show ?thesis using assms True
    by (auto simp: instantiate_input_def Let_def rbind_Inr_iff)
next
  case False
  then show ?thesis using assms by (auto simp: instantiate_input_def empty_instantiation_def)
qed

lemma instantiate_output_constraints:
  assumes "instantiate_output t ibs (j, ob) = Inr inst" and "tf_state_mode t \<noteq> ''guard''"
  shows "map nc_expr (in_constraints inst) = (if distinct_ids ob then
    [Binary ''implies'' (support_scope t ob)
      (disjunction (map (\<lambda>ib. input_support t ib ob) (filter (\<lambda>ib. distinct_ids (ib @ ob)) ibs)))] else [])"
  using assms by (auto simp: instantiate_output_def empty_instantiation_def Let_def split: if_splits)

lemma traverse_enumerate:
  assumes "traverse f (enumerate m xs) = Inr ys"
  shows "\<forall>x \<in> set xs. \<exists>k. \<exists>y \<in> set ys. f (k, x) = Inr y"
    and "\<forall>y \<in> set ys. \<exists>k. \<exists>x \<in> set xs. f (k, x) = Inr y"
proof -
  have "\<exists>k. (k, x) \<in> set (enumerate m xs)" if x: "x \<in> set xs" for x
  proof -
    obtain i where "i < length xs" "x = xs ! i" using x by (auto simp: in_set_conv_nth)
    then have "(m + i, x) \<in> set (enumerate m xs)" by (simp add: in_set_enumerate_eq)
    then show ?thesis ..
  qed
  moreover have "x \<in> set xs" if "(k, x) \<in> set (enumerate m xs)" for k x
    using that by (auto simp: in_set_enumerate_eq)
  ultimately show "\<forall>x \<in> set xs. \<exists>k. \<exists>y \<in> set ys. f (k, x) = Inr y"
    "\<forall>y \<in> set ys. \<exists>k. \<exists>x \<in> set xs. f (k, x) = Inr y"
    using traverse_Inr_memD [OF assms] traverse_Inr_imageD [OF assms] by (meson, metis prod.exhaust)
qed

lemma instantiated_constraints:
  assumes inst: "instantiate_transformation events t = Inr inst" and mode: "tf_state_mode t \<noteq> ''guard''"
  shows "nc_expr ` set (in_constraints inst) =
    {Binary ''implies'' (antecedent t ib) (disjunction (map (output_alternative t ib)
        (filter (\<lambda>ob. distinct_ids (ib @ ob)) (output_bindings t events)))) |
      ib. ib \<in> set (input_bindings t events) \<and> distinct_ids ib} \<union>
    {Binary ''implies'' (support_scope t ob) (disjunction (map (\<lambda>ib. input_support t ib ob)
        (filter (\<lambda>ib. distinct_ids (ib @ ob)) (input_bindings t events)))) |
      ob. tf_exact t \<and> ob \<in> set (output_bindings t events) \<and> distinct_ids ob}" (is "_ = ?F \<union> ?S")
proof -
  obtain fwd sup where f: "traverse (instantiate_input t (output_bindings t events)) (enumerate 0 (input_bindings t events)) = Inr fwd"
    and s: "(if tf_exact t then traverse (instantiate_output t (input_bindings t events)) (enumerate 0 (output_bindings t events))
      else Inr []) = Inr sup" and inst_eq: "inst = join_instantiations (fwd @ sup)"
    using inst unfolding instantiate_transformation_def Let_def rbind_Inr_iff by (auto simp del: enumerate_simps)
  note fc = instantiate_input_constraints [OF _ mode] and sc = instantiate_output_constraints [OF _ mode]
  have "(\<Union>i \<in> set fwd. nc_expr ` set (in_constraints i)) = ?F" (is "?L = _")
  proof (intro equalityI subsetI)
    fix e assume "e \<in> ?L"
    then obtain i where i: "i \<in> set fwd" "e \<in> set (map nc_expr (in_constraints i))" by auto
    then obtain k ib where "ib \<in> set (input_bindings t events)"
      "instantiate_input t (output_bindings t events) (k, ib) = Inr i"
      using traverse_enumerate(2) [OF f] by blast
    then show "e \<in> ?F" using i(2) fc by (auto split: if_splits)
  next
    fix e assume "e \<in> ?F"
    then obtain ib where ib: "ib \<in> set (input_bindings t events)" "distinct_ids ib"
      "e = Binary ''implies'' (antecedent t ib) (disjunction (map (output_alternative t ib)
        (filter (\<lambda>ob. distinct_ids (ib @ ob)) (output_bindings t events))))" by blast
    then obtain k i where "i \<in> set fwd" "instantiate_input t (output_bindings t events) (k, ib) = Inr i"
      using traverse_enumerate(1) [OF f] by blast
    moreover from this(2) have "e \<in> set (map nc_expr (in_constraints i))" using fc ib by simp
    ultimately show "e \<in> ?L" by auto
  qed
  moreover have "(\<Union>i \<in> set sup. nc_expr ` set (in_constraints i)) = ?S" (is "?L = _")
  proof (cases "tf_exact t")
    case True
    with s have s': "traverse (instantiate_output t (input_bindings t events)) (enumerate 0 (output_bindings t events)) = Inr sup"
      by simp
    show ?thesis
    proof (intro equalityI subsetI)
      fix e assume "e \<in> ?L"
      then obtain i where i: "i \<in> set sup" "e \<in> set (map nc_expr (in_constraints i))" by auto
      then obtain k ob where "ob \<in> set (output_bindings t events)"
        "instantiate_output t (input_bindings t events) (k, ob) = Inr i"
        using traverse_enumerate(2) [OF s'] by blast
      then show "e \<in> ?S" using i(2) sc True by (auto split: if_splits)
    next
      fix e assume "e \<in> ?S"
      then obtain ob where ob: "ob \<in> set (output_bindings t events)" "distinct_ids ob"
        "e = Binary ''implies'' (support_scope t ob) (disjunction (map (\<lambda>ib. input_support t ib ob)
          (filter (\<lambda>ib. distinct_ids (ib @ ob)) (input_bindings t events))))" by blast
      then obtain k i where "i \<in> set sup" "instantiate_output t (input_bindings t events) (k, ob) = Inr i"
        using traverse_enumerate(1) [OF s'] by blast
      moreover from this(2) have "e \<in> set (map nc_expr (in_constraints i))" using sc ob by simp
      ultimately show "e \<in> ?L" by auto
    qed
  qed (use s in auto)
  ultimately show ?thesis unfolding inst_eq join_instantiations_def by (simp add: image_UN image_Un)
qed

lemma input_bindings_mem:
  "distinct (map ro_name (tf_roles t)) \<Longrightarrow> ib \<in> set (input_bindings t events) \<longleftrightarrow> binding_of (tf_inputs t) events ib"
  and output_bindings_mem:
  "distinct (map ro_name (tf_roles t)) \<Longrightarrow> ob \<in> set (output_bindings t events) \<longleftrightarrow> binding_of (tf_outputs t) events ob"
  by (simp_all add: input_bindings_def output_bindings_def role_bindings_mem tf_roles_distinct)

lemma holds_forward:
  assumes d: "rule_decided n c t events" and r: "distinct (map ro_name (tf_roles t))"
    and ib: "binding_of (tf_inputs t) events ib"
  shows "holds n c (Binary ''implies'' (antecedent t ib) (disjunction (map (output_alternative t ib)
        (filter (\<lambda>ob. distinct_ids (ib @ ob)) (output_bindings t events))))) \<longleftrightarrow>
    (happens n c ib \<and> holds n c (substitute_event_ids ib (tf_when t)) \<longrightarrow>
      (\<exists>ob. binding_of (tf_outputs t) events ob \<and> distinct_ids (ib @ ob) \<and> happens n c ob \<and>
           holds n c (substitute_event_ids (ib @ ob) (tf_output_when t)) \<and>
           (\<forall>e \<in> set (tf_ensure t). holds n c (substitute_event_ids (ib @ ob) e))))"
proof -
  have alts: "\<forall>e \<in> set (map (output_alternative t ib)
      (filter (\<lambda>ob. distinct_ids (ib @ ob)) (output_bindings t events))). decided n c e"
    using holds_output_alternative(1) [OF d r ib] output_bindings_mem [OF r] by auto
  show ?thesis
    unfolding holds_connectives(3) [OF holds_antecedent(1) [OF d ib] decided_connectives(2) [OF alts]]
      holds_connectives(2) [OF alts] holds_antecedent(2) [OF d ib]
    using holds_output_alternative(2) [OF d r ib] output_bindings_mem [OF r] by auto
qed

lemma holds_support:
  assumes d: "rule_decided n c t events" and r: "distinct (map ro_name (tf_roles t))"
    and ob: "binding_of (tf_outputs t) events ob"
  shows "holds n c (Binary ''implies'' (support_scope t ob) (disjunction (map (\<lambda>ib. input_support t ib ob)
        (filter (\<lambda>ib. distinct_ids (ib @ ob)) (input_bindings t events))))) \<longleftrightarrow>
    (happens n c ob \<and> holds n c (substitute_event_ids ob (tf_output_when t)) \<longrightarrow>
      (\<exists>ib. binding_of (tf_inputs t) events ib \<and> distinct_ids (ib @ ob) \<and> happens n c ib \<and>
           holds n c (substitute_event_ids (ib @ ob) (tf_when t)) \<and>
           (\<forall>e \<in> set (tf_ensure t). holds n c (substitute_event_ids (ib @ ob) e))))"
proof -
  have sups: "\<forall>e \<in> set (map (\<lambda>ib. input_support t ib ob)
      (filter (\<lambda>ib. distinct_ids (ib @ ob)) (input_bindings t events))). decided n c e"
    using holds_input_support(1) [OF d r _ ob] input_bindings_mem [OF r] by auto
  show ?thesis
    unfolding holds_connectives(3) [OF holds_support_scope(1) [OF d ob] decided_connectives(2) [OF sups]]
      holds_connectives(2) [OF sups] holds_support_scope(2) [OF d ob]
    using holds_input_support(2) [OF d r _ ob] input_bindings_mem [OF r] by auto
qed

lemma transformation_constraints_iff:
  assumes inst: "instantiate_transformation events t = Inr inst" and mode: "tf_state_mode t \<noteq> ''guard''"
    and r: "distinct (map ro_name (tf_roles t))" and d: "rule_decided n c t events"
  shows "(\<forall>k \<in> set (in_constraints inst). holds n c (nc_expr k)) \<longleftrightarrow>
    forward_rule n c t events \<and> (tf_exact t \<longrightarrow> support_rule n c t events)"
proof -
  have "(\<forall>k \<in> set (in_constraints inst). holds n c (nc_expr k)) \<longleftrightarrow>
      (\<forall>e \<in> nc_expr ` set (in_constraints inst). holds n c e)" by blast
  also have "\<dots> \<longleftrightarrow>
      (\<forall>ib. binding_of (tf_inputs t) events ib \<and> distinct_ids ib \<longrightarrow>
        holds n c (Binary ''implies'' (antecedent t ib) (disjunction (map (output_alternative t ib)
          (filter (\<lambda>ob. distinct_ids (ib @ ob)) (output_bindings t events)))))) \<and>
      (\<forall>ob. tf_exact t \<and> binding_of (tf_outputs t) events ob \<and> distinct_ids ob \<longrightarrow>
        holds n c (Binary ''implies'' (support_scope t ob) (disjunction (map (\<lambda>ib. input_support t ib ob)
          (filter (\<lambda>ib. distinct_ids (ib @ ob)) (input_bindings t events))))))"
    unfolding instantiated_constraints [OF inst mode] input_bindings_mem [OF r] output_bindings_mem [OF r] by blast
  also have "\<dots> \<longleftrightarrow> forward_rule n c t events \<and> (tf_exact t \<longrightarrow> support_rule n c t events)"
    unfolding forward_rule_def support_rule_def
    by (intro arg_cong2 [where f = "(\<and>)"])
      (simp_all add: holds_forward [OF d r] holds_support [OF d r] imp_conjL imp_conjR)
  finally show ?thesis .
qed

section \<open>The events of a problem\<close>

text \<open>
  Well-formed input: a dictionary has distinct keys, and the objects of the program passed the checks
  of their constructors.
\<close>

definition wf_input :: "event_catalog \<Rightarrow> trace \<Rightarrow> completion_spec \<Rightarrow> bool" where
  "wf_input c t s \<longleftrightarrow> wf_catalog c \<and> wf_trace t \<and> wf_spec s \<and>
     (\<forall>e \<in> set (tr_events t). distinct (map fst (ei_fields e)))"

lemma build_problem_cases:
  assumes "build_problem c t s = Inr p"
  obtains observed slots insts where "validate_trace c None t = Inr ()" and "validate_spec c t s = Inr ()"
    and "traverse (materialize_partial_event c) (tr_events t) = Inr observed"
    and "traverse (materialize_slot c) (cs_slots s) = Inr slots"
    and "bp_events p = observed @ slots" and "bp_catalog p = c" and "bp_trace p = t" and "bp_spec p = s"
    and "bp_slot_ids p = map sl_id (cs_slots s)"
    and "traverse (instantiate_transformation (observed @ slots)) (cs_transformations s) = Inr insts"
    and "bp_constraints p = numbered_constraints ''trace.constraint.'' ''trace'' (tr_constraints t)
           @ numbered_constraints ''completion.constraint.'' ''completion'' (cs_constraints s)
           @ map (cycle_bound (cs_horizon s)) (filter (\<lambda>e. ei_cycle e \<noteq> VNone) (bp_events p))
           @ in_constraints (join_instantiations insts)"
    and "bp_requirements p = in_requirements (join_instantiations insts)"
    and "bp_updates p = in_updates (join_instantiations insts)"
  using assms unfolding build_problem_def Let_def rbind_Inr_iff
  by (elim exE conjE) (drule sum.inject(2) [THEN iffD1, THEN sym], rule that, simp_all)

lemma materialize_partial_conforms:
  assumes c: "wf_catalog c" and wf: "wf_event ev" "distinct (map fst (ei_fields ev))"
    and conf: "map_of (ec_types c) (ei_type ev) = Some t" "event_conforms t partial ev"
    and m: "materialize_partial_event c ev = Inr e"
  shows "ei_id e = ei_id ev" "ei_type e = ei_type ev" "ei_cycle e = ei_cycle ev" "ei_occurs e = ei_occurs ev"
    and "wf_event e" and "event_conforms t False e" and "distinct (map fst (ei_fields e))"
    and "\<forall>n v. map_of (ei_fields ev) n = Some v \<longrightarrow> map_of (ei_fields e) n = Some v"
proof -
  obtain vals where vals: "fill_required (''trace::'' @ ei_id ev @ ''::field::'') t (ei_fields ev) = Inr vals"
    and e: "e = ev\<lparr>ei_fields := vals\<rparr>" and we: "wf_event e"
    using m conf(1) by (auto simp: materialize_partial_event_def rbind_Inr_iff resolve_Inr_iff mk_event_instance_Inr_iff)
  have fits: "\<forall>(n, v) \<in> set (ei_fields ev). \<exists>f \<in> set (et_fields t). fs_name f = n \<and> value_fits (fs_sort f) v"
    using conf(2) by (simp add: event_conforms_def)
  have "event_conforms t False e"
    using fill_required_fits [OF vals wf(2) fits] conf(2) e by (simp add: event_conforms_def)
  then show "ei_id e = ei_id ev" "ei_type e = ei_type ev" "ei_cycle e = ei_cycle ev" "ei_occurs e = ei_occurs ev"
    "wf_event e" "event_conforms t False e" "distinct (map fst (ei_fields e))"
    "\<forall>n v. map_of (ei_fields ev) n = Some v \<longrightarrow> map_of (ei_fields e) n = Some v"
    using e we fill_required_spec(1,3) [OF vals] wf(2) by auto
qed

lemma traverse_same_ids:
  assumes "traverse f xs = Inr ys" and "\<And>x y. x \<in> set xs \<Longrightarrow> f x = Inr y \<Longrightarrow> g y = h x"
  shows "map g ys = map h xs"
  using assms by (induction xs arbitrary: ys) (auto simp: rbind_Inr_iff)

text \<open>Every event of the problem is complete, has a cycle where it had one, and has its own identifier.\<close>

definition event_complete :: "event_catalog \<Rightarrow> event_instance \<Rightarrow> bool" where
  "event_complete c e \<longleftrightarrow> wf_event e \<and> (\<exists>t. map_of (ec_types c) (ei_type e) = Some t \<and> event_conforms t False e)"

lemma observed_event:
  assumes "wf_input c t s" and "validate_trace c None t = Inr ()" and "ev \<in> set (tr_events t)"
    and "materialize_partial_event c ev = Inr e"
  shows "ei_id e = ei_id ev \<and> ei_type e = ei_type ev \<and> ei_cycle e = ei_cycle ev \<and> ei_occurs e = ei_occurs ev \<and>
    event_complete c e \<and> distinct (map fst (ei_fields e))"
proof -
  have "wf_catalog c" "wf_event ev" "distinct (map fst (ei_fields ev))"
    using assms(1,3) by (auto simp: wf_input_def wf_trace_def)
  moreover obtain pt where "validate_events c pt (tr_events t) = Inr ()"
    using assms(2) by (auto simp: validate_trace_def rbind_Inr_iff)
  then obtain ty where "map_of (ec_types c) (ei_type ev) = Some ty" "event_conforms ty pt ev"
    using validate_events_iff \<open>wf_catalog c\<close> assms(3) by blast
  ultimately show ?thesis
    using materialize_partial_conforms [of c ev ty pt e] assms(4) by (auto simp: event_complete_def)
qed

lemma slot_event:
  assumes "wf_input c t s" and "validate_spec c t s = Inr ()" and "sl \<in> set (cs_slots s)"
    and "materialize_slot c sl = Inr e"
  shows "ei_id e = sl_id sl \<and> ei_type e = sl_type sl \<and> ei_cycle e \<noteq> VNone \<and> event_complete c e"
proof -
  have "wf_catalog c" "distinct (map fst (sl_fields sl))"
    using assms(1,3) by (auto simp: wf_input_def wf_spec_def wf_slot_def)
  moreover have "validate_slot c sl = Inr ()"
    using assms(2,3) by (auto simp: validate_spec_def rbind_Inr_iff dest: traverse_Inr_memD)
  ultimately show ?thesis
    using materialize_conforms [of c sl e] assms(4) by (auto simp: event_complete_def)
qed

lemma problem_events:
  assumes inp: "wf_input c t s" and "build_problem c t s = Inr p"
  shows "map ei_id (bp_events p) = map ei_id (tr_events t) @ map sl_id (cs_slots s)"
    and "map ei_type (bp_events p) = map ei_type (tr_events t) @ map sl_type (cs_slots s)"
    and "distinct (map ei_id (bp_events p))"
    and "\<forall>e \<in> set (bp_events p). event_complete c e"
proof -
  obtain observed slots where vt: "validate_trace c None t = Inr ()" and vs: "validate_spec c t s = Inr ()"
    and o: "traverse (materialize_partial_event c) (tr_events t) = Inr observed"
    and sl: "traverse (materialize_slot c) (cs_slots s) = Inr slots" and ev: "bp_events p = observed @ slots"
    by (rule build_problem_cases [OF assms(2)])
  note oe = observed_event [OF inp vt] and se = slot_event [OF inp vs]
  show ids: "map ei_id (bp_events p) = map ei_id (tr_events t) @ map sl_id (cs_slots s)"
    unfolding ev map_append
    by (intro arg_cong2 [where f = "(@)"] traverse_same_ids [OF o] traverse_same_ids [OF sl]) (use oe se in blast)+
  show "map ei_type (bp_events p) = map ei_type (tr_events t) @ map sl_type (cs_slots s)"
    unfolding ev map_append
    by (intro arg_cong2 [where f = "(@)"] traverse_same_ids [OF o] traverse_same_ids [OF sl]) (use oe se in blast)+
  have "distinct (map ei_id (tr_events t))" "distinct (map sl_id (cs_slots s))"
    using inp by (simp_all add: wf_input_def wf_trace_def wf_spec_def mk_completion_spec_Inr)
  moreover have "set (map ei_id (tr_events t)) \<inter> set (map sl_id (cs_slots s)) = {}"
    using vs by (auto simp: validate_spec_def rbind_Inr_iff require_Inr_iff)
  ultimately show "distinct (map ei_id (bp_events p))" unfolding ids distinct_append by blast
  show "\<forall>e \<in> set (bp_events p). event_complete c e"
    unfolding ev set_append using traverse_Inr_imageD [OF o] traverse_Inr_imageD [OF sl] oe se by blast
qed

section \<open>The constraints of a problem\<close>

text \<open>
  A reference is valid when its event is in the problem and its attribute is one of the event's type,
  with the sort the reference declares.
\<close>

definition reference_valid :: "event_catalog \<Rightarrow> event_instance list \<Rightarrow> string \<times> string \<times> pysort \<Rightarrow> bool" where
  "reference_valid c events r \<longleftrightarrow> (case r of (i, f, s) \<Rightarrow>
     \<exists>e \<in> set events. ei_id e = i \<and>
       (\<exists>t. map_of (ec_types c) (ei_type e) = Some t \<and> attribute_has_sort t f s))"

definition condition_valid :: "event_catalog \<Rightarrow> event_instance list \<Rightarrow> expr \<Rightarrow> bool" where
  "condition_valid c events e \<longleftrightarrow> wf_expr e \<and> expr_is_bool e \<and>
     (\<forall>r \<in> set (iter_event_fields e). reference_valid c events r)"

lemma iter_connectives:
  "set (iter_event_fields (conjunction es)) = (\<Union>e \<in> set es. set (iter_event_fields e))"
  "set (iter_event_fields (disjunction es)) = (\<Union>e \<in> set es. set (iter_event_fields e))"
  by (auto simp: conjunction_def disjunction_def split: list.splits)

lemma condition_valid_connectives:
  "\<forall>e \<in> set es. condition_valid c events e \<Longrightarrow> condition_valid c events (conjunction es)"
  "\<forall>e \<in> set es. condition_valid c events e \<Longrightarrow> condition_valid c events (disjunction es)"
  "condition_valid c events a \<Longrightarrow> condition_valid c events b \<Longrightarrow> condition_valid c events (Binary ''implies'' a b)"
  using wf_conjunction [of es] wf_disjunction [of es]
  by (auto simp: condition_valid_def iter_connectives binary_ok_def bool_binary_ops_def expr_is_bool_def)

lemma binding_ids_nonempty:
  assumes "binding_of roles events m" and "\<forall>e \<in> set events. wf_event e" and "(n, i) \<in> set m"
  shows "i \<noteq> []" and "\<exists>e \<in> set events. ei_id e = i"
proof -
  have "\<exists>e \<in> set events. ei_id e = i"
    using assms(1,3) unfolding binding_of_def by (induction m roles rule: list_all2_induct) auto
  then show "i \<noteq> []" "\<exists>e \<in> set events. ei_id e = i" using assms(2) by (auto simp: wf_event_def)
qed

lemma subst_valid:
  assumes b: "binding_of roles events m" and d: "distinct (map ro_name roles)"
    and ev: "\<forall>e \<in> set events. event_complete c e"
    and e: "wf_expr e" "expr_is_bool e" "expression_typed roles c e"
  shows "condition_valid c events (substitute_event_ids m e)"
proof -
  have "\<forall>e \<in> set events. wf_event e" using ev by (simp add: event_complete_def)
  then have "\<forall>k i. map_of m k = Some i \<longrightarrow> i \<noteq> []"
    using binding_ids_nonempty(1) [OF b] by (auto dest: map_of_SomeD)
  then have wf: "wf_expr (substitute_event_ids m e)" using wf_subst e(1) by blast
  have "reference_valid c events (rename m i, f, s)" if r: "(i, f, s) \<in> set (iter_event_fields e)" for i f s
  proof -
    obtain role t where role: "role \<in> set roles" "ro_name role = i"
      "map_of (ec_types c) (ro_type role) = Some t" "attribute_has_sort t f s"
      using e(3) r by (auto simp: expression_typed_def reference_typed_def)
    then obtain x where "x \<in> set events" "map_of m i = Some (ei_id x)" "ei_type x = ro_type role"
      using binding_of_lookup [OF b d] by blast
    then show ?thesis using role by (auto simp: reference_valid_def rename_def)
  qed
  then show ?thesis using wf e(2) by (auto simp: condition_valid_def event_fields_subst)
qed

lemma occurs_valid:
  assumes b: "binding_of roles events m" and ev: "\<forall>e \<in> set events. event_complete c e"
    and e: "e \<in> set (occurs_of m)"
  shows "condition_valid c events e"
proof -
  obtain n i where i: "(n, i) \<in> set m" "e = EventField i ''occurs'' BOOL_SORT"
    using e by (auto simp: occurs_of_def)
  have wf: "\<forall>e \<in> set events. wf_event e" using ev by (simp add: event_complete_def)
  note ids = binding_ids_nonempty [OF b wf i(1)]
  from ids(2) obtain x where "x \<in> set events" "ei_id x = i" ..
  moreover obtain t where "map_of (ec_types c) (ei_type x) = Some t"
    using ev \<open>x \<in> set events\<close> by (auto simp: event_complete_def)
  ultimately show ?thesis using ids(1)
    by (auto simp: i(2) condition_valid_def reference_valid_def attribute_has_sort_def expr_is_bool_def)
qed

lemma expression_typed_only:
  assumes "expression_typed (tf_roles t) c e" and "references_only e rs" and "set rs \<subseteq> set (tf_roles t)"
    and "distinct (map ro_name (tf_roles t))"
  shows "expression_typed rs c e"
proof -
  have "reference_typed rs c (i, f, s)" if r: "(i, f, s) \<in> set (iter_event_fields e)" for i f s
  proof -
    obtain role ty where role: "role \<in> set (tf_roles t)" "ro_name role = i"
      "map_of (ec_types c) (ro_type role) = Some ty" "attribute_has_sort ty f s"
      using assms(1) r by (auto simp: expression_typed_def reference_typed_def)
    obtain role' where "role' \<in> set rs" "ro_name role' = i"
      using assms(2) r by (force simp: references_only_def list_all_iff)
    moreover have "role' = role"
      using assms(3,4) role(1,2) calculation by (auto simp: distinct_map inj_on_def)
    ultimately show ?thesis using role(3,4) by (auto simp: reference_typed_def)
  qed
  then show ?thesis by (auto simp: expression_typed_def)
qed

lemma expression_typed_mono: "expression_typed rs c e \<Longrightarrow> set rs \<subseteq> set rs' \<Longrightarrow> expression_typed rs' c e"
  by (fastforce simp: expression_typed_def reference_typed_def)

text \<open>Every constraint a validated transformation gives rise to is a valid condition.\<close>

lemma instantiated_valid:
  assumes t: "wf_transformation t" "transformation_typed c vars t"
    and ev: "\<forall>e \<in> set events. event_complete c e"
    and inst: "instantiate_transformation events t = Inr inst" and mode: "tf_state_mode t \<noteq> ''guard''"
    and k: "k \<in> set (in_constraints inst)"
  shows "condition_valid c events (nc_expr k)"
proof -
  have r: "distinct (map ro_name (tf_roles t))"
    using t(1) by (simp add: wf_transformation_def mk_transformation_def rbind_require split: if_splits)
  have bools: "expr_is_bool (tf_when t)" "expr_is_bool (tf_output_when t)" "\<forall>e \<in> set (tf_ensure t). expr_is_bool e"
    using t(1) by (simp_all add: wf_transformation_def mk_transformation_def rbind_require list_all_iff split: if_splits)
  have wfs: "wf_expr (tf_when t)" "wf_expr (tf_output_when t)" "\<forall>e \<in> set (tf_ensure t). wf_expr e"
    using t(1) by (simp_all add: wf_transformation_def)
  have ty: "expression_typed (tf_roles t) c (tf_when t)" "expression_typed (tf_roles t) c (tf_output_when t)"
    "\<forall>e \<in> set (tf_ensure t). expression_typed (tf_roles t) c e"
    using t(2) by (simp_all add: transformation_typed_def)
  have only: "expression_typed (tf_inputs t) c (tf_when t)" "expression_typed (tf_outputs t) c (tf_output_when t)"
    using t(2) expression_typed_only [OF ty(1) _ _ r] expression_typed_only [OF ty(2) _ _ r]
    by (auto simp: transformation_typed_def tf_roles_def)
  have both: "condition_valid c events (substitute_event_ids (merge_bindings ib ob) e)"
    if "binding_of (tf_inputs t) events ib" "binding_of (tf_outputs t) events ob"
      "e \<in> {tf_when t, tf_output_when t} \<union> set (tf_ensure t)" for ib ob e
  proof -
    have "merge_bindings ib ob = ib @ ob" using merge_bindings_append [OF that(1,2)] r by (simp add: tf_roles_def)
    moreover have "binding_of (tf_roles t) events (ib @ ob)"
      unfolding tf_roles_def by (rule binding_of_append [OF that(1,2)])
    ultimately show ?thesis using subst_valid [OF _ r ev] that(3) wfs bools ty by auto
  qed
  note one = subst_valid [OF _ _ ev] tf_roles_distinct [OF r]
  have ins: "condition_valid c events (antecedent t ib)" if "binding_of (tf_inputs t) events ib" for ib
    unfolding antecedent_def using that occurs_valid [OF that ev] one wfs(1) bools(1) only(1)
    by (intro condition_valid_connectives) auto
  have outs: "condition_valid c events (support_scope t ob)" if "binding_of (tf_outputs t) events ob" for ob
    unfolding support_scope_def using that occurs_valid [OF that ev] one wfs(2) bools(2) only(2)
    by (auto intro!: condition_valid_connectives)
  have alt: "condition_valid c events (output_alternative t ib ob)" "condition_valid c events (input_support t ib ob)"
    if "binding_of (tf_inputs t) events ib" "binding_of (tf_outputs t) events ob" for ib ob
    unfolding output_alternative_def input_support_def Let_def ensured_def
    using that occurs_valid [OF that(1) ev] occurs_valid [OF that(2) ev] both [OF that]
    by (auto intro!: condition_valid_connectives)
  have "nc_expr k \<in> nc_expr ` set (in_constraints inst)" using k by blast
  then show ?thesis unfolding instantiated_constraints [OF inst mode]
    using ins outs alt input_bindings_mem [OF r] output_bindings_mem [OF r]
    by (auto intro!: condition_valid_connectives)
qed

lemma guard_no_constraints:
  assumes "tf_state_mode t = ''guard''" and "instantiate_transformation events t = Inr inst"
  shows "in_constraints inst = []"
proof -
  have i: "in_constraints x = []" if "instantiate_input t obs kib = Inr x" for obs kib x
    using that assms(1) by (cases kib) (auto simp: instantiate_input_def empty_instantiation_def Let_def
        rbind_Inr_iff split: if_splits)
  have o: "in_constraints x = []" if "instantiate_output t ibs job = Inr x" for ibs job x
    using that assms(1) by (cases job) (auto simp: instantiate_output_def empty_instantiation_def Let_def
        rbind_Inr_iff split: if_splits)
  obtain fwd sup where f: "traverse (instantiate_input t (output_bindings t events)) (enumerate 0 (input_bindings t events)) = Inr fwd"
    and s: "(if tf_exact t then traverse (instantiate_output t (input_bindings t events)) (enumerate 0 (output_bindings t events))
      else Inr []) = Inr sup" and inst_eq: "inst = join_instantiations (fwd @ sup)"
    using assms(2) unfolding instantiate_transformation_def Let_def rbind_Inr_iff by (auto simp del: enumerate_simps)
  have "\<forall>x \<in> set fwd. in_constraints x = []" using traverse_Inr_imageD [OF f] i by blast
  moreover have "\<forall>x \<in> set sup. in_constraints x = []"
  proof (cases "tf_exact t")
    case True
    with s have "traverse (instantiate_output t (input_bindings t events)) (enumerate 0 (output_bindings t events)) = Inr sup"
      by simp
    from traverse_Inr_imageD [OF this] show ?thesis using o by blast
  qed (use s in simp)
  ultimately show ?thesis by (auto simp: inst_eq join_instantiations_def)
qed

text \<open>
  Every constraint of a built problem is a well-formed boolean expression whose references are valid:
  the checks of the expression constructors the code runs cannot fail, and evaluation never meets
  an unknown event or a value of another sort.
\<close>

lemma numbered_mem: "k \<in> set (numbered_constraints p o' es) \<Longrightarrow> nc_expr k \<in> set es"
  by (auto simp: numbered_constraints_def in_set_enumerate_eq)

lemma cycle_bound_valid:
  assumes "e \<in> set events" and "event_complete c e"
  shows "condition_valid c events (nc_expr (cycle_bound h e))"
proof -
  have id: "ei_id e \<noteq> []" and ty: "\<exists>t. map_of (ec_types c) (ei_type e) = Some t"
    using assms(2) by (auto simp: event_complete_def wf_event_def)
  have "reference_valid c events (ei_id e, ''occurs'', BOOL_SORT)" "reference_valid c events (ei_id e, ''cycle'', INT_SORT)"
    using assms(1) ty by (auto simp: reference_valid_def attribute_has_sort_def)
  then show ?thesis using id
    by (auto simp: cycle_bound_def Let_def condition_valid_def iter_connectives conjunction_def nary_ok_def
        binary_ok_def op_lists expr_is_bool_def expr_is_numeric_def expr_compatible_def compatible_with_def accepts_int)
qed

lemma attribute_sort_trace:
  assumes "wf_catalog c" and "expected_sort c ev f = Inr s" and "map_of (ec_types c) (ei_type ev) = Some t"
  shows "attribute_has_sort t f s"
  using assms(2) map_of_field_map [OF wf_catalog_fields [OF assms(1,3)]] assms(3)
  by (auto simp: expected_sort_def attribute_has_sort_def get_spec_def res_simps split: if_splits)

lemma trace_constraint_valid:
  assumes inp: "wf_input c t s" and v: "validate_trace c None t = Inr ()" and e: "e \<in> set (tr_constraints t)"
    and ids: "map ei_id events = map ei_id (tr_events t) @ is" "map ei_type events = map ei_type (tr_events t) @ ts"
    and ev: "\<forall>e \<in> set events. event_complete c e"
  shows "condition_valid c events e"
proof -
  have wf: "wf_expr e" "expr_is_bool e" using inp e by (simp_all add: wf_input_def wf_trace_def)
  have "reference_valid c events (i, f, s)" if r: "(i, f, s) \<in> set (iter_event_fields e)" for i f s
  proof -
    obtain x where x: "map_of (event_map t) i = Some x" "expected_sort c x f = Inr s"
      using validated_reference [OF v e r] .
    have "distinct (map ei_id (tr_events t))" using inp by (simp add: wf_input_def wf_trace_def)
    then have mem: "x \<in> set (tr_events t)" "ei_id x = i" using map_of_event_map x(1) by blast+
    then obtain k where k: "k < length (tr_events t)" "tr_events t ! k = x" by (auto simp: in_set_conv_nth)
    have len: "length events = length (tr_events t) + length is" using arg_cong [OF ids(1), of length] by simp
    have "map ei_id events ! k = i" "map ei_type events ! k = ei_type x"
      unfolding ids using k mem(2) by (simp_all add: nth_append)
    then have y: "events ! k \<in> set events" "ei_id (events ! k) = i" "ei_type (events ! k) = ei_type x"
      using k(1) len by simp_all
    then obtain ty where ty: "map_of (ec_types c) (ei_type x) = Some ty" using ev by (auto simp: event_complete_def)
    have "wf_catalog c" using inp by (simp add: wf_input_def)
    then show ?thesis using attribute_sort_trace [OF _ x(2) ty] y ty by (auto simp: reference_valid_def)
  qed
  then show ?thesis using wf by (auto simp: condition_valid_def)
qed

lemma typed_ids_mem:
  "typed_ids c ids = Inr ts \<Longrightarrow> (i, ty) \<in> set ts \<Longrightarrow> \<exists>n. (i, n) \<in> set ids \<and> map_of (ec_types c) n = Some ty"
  unfolding typed_ids_def by (drule (1) traverse_Inr_imageD) (auto simp: rbind_Inr_iff resolve_Inr_iff)

lemma spec_constraint_valid:
  assumes inp: "wf_input c t s" and v: "validate_spec c t s = Inr ()" and e: "e \<in> set (cs_constraints s)"
    and ids: "map (\<lambda>e. (ei_id e, ei_type e)) events =
      map (\<lambda>e. (ei_id e, ei_type e)) (tr_events t) @ map (\<lambda>x. (sl_id x, sl_type x)) (cs_slots s)"
  shows "condition_valid c events e"
proof -
  have wf: "wf_expr e" "expr_is_bool e"
    using inp e by (simp_all add: wf_input_def wf_spec_def mk_completion_spec_Inr)
  obtain obs sls where o: "typed_ids c (map (\<lambda>e. (ei_id e, ei_type e)) (tr_events t)) = Inr obs"
    and sl: "typed_ids c (map (\<lambda>x. (sl_id x, sl_type x)) (cs_slots s)) = Inr sls"
    and chk: "\<exists>us. traverse (\<lambda>e. traverse (check_constraint_reference (dict_of (obs @ sls))) (iter_event_fields e)) (cs_constraints s) = Inr us"
    using v by (auto simp: validate_spec_def rbind_Inr_iff)
  have "reference_valid c events (i, f, s)" if r: "(i, f, s) \<in> set (iter_event_fields e)" for i f s
  proof -
    have "\<exists>u. check_constraint_reference (dict_of (obs @ sls)) (i, f, s) = Inr u"
      using chk e r unfolding traverse_ok_iff by blast
    then obtain ty where ty: "map_of (dict_of (obs @ sls)) i = Some ty"
      and srt: "attribute_sort ty f TraceValidationError = Inr s"
      by (auto simp: check_constraint_reference_def res_simps compatible_with_def)
    have "(i, ty) \<in> set (obs @ sls)" using map_of_SomeD [OF ty] set_dict_of by (rule set_mp [rotated])
    then consider "(i, ty) \<in> set obs" | "(i, ty) \<in> set sls" by auto
    then have "\<exists>n. (i, n) \<in> set (map (\<lambda>e. (ei_id e, ei_type e)) events) \<and> map_of (ec_types c) n = Some ty"
      unfolding ids set_append by cases (use typed_ids_mem [OF o] typed_ids_mem [OF sl] in blast)+
    then obtain n where n: "(i, n) \<in> set (map (\<lambda>e. (ei_id e, ei_type e)) events)" "map_of (ec_types c) n = Some ty"
      by blast
    have "wf_catalog c" using inp by (simp add: wf_input_def)
    then have "attribute_has_sort ty f s" using attribute_sort_Inr [OF wf_catalog_fields] n(2) srt by blast
    then show ?thesis using n by (auto simp: reference_valid_def)
  qed
  then show ?thesis using wf by (auto simp: condition_valid_def)
qed

lemma map_pair_zip: "map (\<lambda>x. (f x, g x)) xs = zip (map f xs) (map g xs)"
  by (induction xs) auto

lemma build_problem_typed:
  assumes inp: "wf_input c t s" and b: "build_problem c t s = Inr p"
  shows "\<forall>k \<in> set (bp_constraints p). condition_valid c (bp_events p) (nc_expr k)"
proof -
  note pe = problem_events [OF inp b]
  show ?thesis
  proof (rule build_problem_cases [OF b], intro ballI)
    fix observed slots insts k
    assume vt: "validate_trace c None t = Inr ()" and vs: "validate_spec c t s = Inr ()"
      and ev: "bp_events p = observed @ slots"
      and insts: "traverse (instantiate_transformation (observed @ slots)) (cs_transformations s) = Inr insts"
      and con: "bp_constraints p = numbered_constraints ''trace.constraint.'' ''trace'' (tr_constraints t)
           @ numbered_constraints ''completion.constraint.'' ''completion'' (cs_constraints s)
           @ map (cycle_bound (cs_horizon s)) (filter (\<lambda>e. ei_cycle e \<noteq> VNone) (bp_events p))
           @ in_constraints (join_instantiations insts)"
      and k: "k \<in> set (bp_constraints p)"
    have pairs: "map (\<lambda>e. (ei_id e, ei_type e)) (bp_events p) =
        map (\<lambda>e. (ei_id e, ei_type e)) (tr_events t) @ map (\<lambda>x. (sl_id x, sl_type x)) (cs_slots s)"
      unfolding map_pair_zip [of ei_id ei_type] map_pair_zip [of sl_id sl_type] pe(1,2) by simp
    from k consider "nc_expr k \<in> set (tr_constraints t)" | "nc_expr k \<in> set (cs_constraints s)"
      | e where "e \<in> set (bp_events p)" "k = cycle_bound (cs_horizon s) e"
      | i where "i \<in> set insts" "k \<in> set (in_constraints i)"
      unfolding con by (auto simp: join_instantiations_def dest: numbered_mem)
    then show "condition_valid c (bp_events p) (nc_expr k)"
    proof cases
      case 1
      then show ?thesis by (rule trace_constraint_valid [OF inp vt _ pe(1,2,4)])
    next
      case 2
      then show ?thesis by (rule spec_constraint_valid [OF inp vs _ pairs])
    next
      case 3
      then show ?thesis using cycle_bound_valid pe(4) by blast
    next
      case 4
      then obtain tf where tf: "tf \<in> set (cs_transformations s)" "instantiate_transformation (bp_events p) tf = Inr i"
        using traverse_Inr_imageD [OF insts] ev by auto
      have wf: "wf_transformation tf" "wf_catalog c"
        using inp tf(1) by (auto simp: wf_input_def wf_spec_def)
      then have r: "distinct (map ro_name (tf_roles tf))"
        by (simp add: wf_transformation_def mk_transformation_def rbind_require split: if_splits)
      have "validate_transformation c (state_map s) tf = Inr ()"
        using vs tf(1) by (auto simp: validate_spec_def rbind_Inr_iff dest: traverse_Inr_memD)
      then have ty: "transformation_typed c (state_map s) tf" using validate_transformation_iff [OF wf(2) r] by blast
      have "tf_state_mode tf \<noteq> ''guard''" using guard_no_constraints [OF _ tf(2)] 4(2) by auto
      then show ?thesis using instantiated_valid [OF wf(1) ty pe(4) tf(2) _ 4(2)] by blast
    qed
  qed
qed

end
