(* ===== verification/ComposeFacts.thy ===== *)
theory ComposeFacts
  imports Compose ProblemFacts
begin

text \<open>
  What \<open>compose_modules\<close> guarantees: the completion specification has the modules' slots, cells and
  transformations under unique names, each typed in the merged state; modules are isolated; the
  connections are well-directed; and a generated connection transformation carries fields across.
\<close>

section \<open>Merging\<close>

lemma add_unique_Inr [res_simps]: "add_unique name xs x = Inr zs \<longleftrightarrow> zs = xs @ [x] \<and> name x \<notin> name ` set xs"
  by (auto simp: add_unique_def rbind_require)

lemma add_unique_fold:
  assumes "fold_res (\<lambda>xs x. rbind (mk x) (add_unique name xs)) acc xs = Inr zs" and "\<And>x y. mk x = Inr y \<Longrightarrow> y = f x"
  shows "zs = acc @ map f xs \<and> (distinct (map name acc) \<longrightarrow> distinct (map name zs))"
  using assms(1)
proof (induction xs arbitrary: acc)
  case (Cons x xs)
  then obtain y where y: "mk x = Inr y" "name y \<notin> name ` set acc"
    and rest: "fold_res (\<lambda>xs x. rbind (mk x) (add_unique name xs)) (acc @ [y]) xs = Inr zs"
    by (auto simp: rbind_Inr_iff add_unique_Inr)
  have d: "distinct (map name (acc @ [y]))" if "distinct (map name acc)" using that y(2) by simp
  show ?case
  proof (intro conjI impI)
    show "zs = acc @ map f (x # xs)" using Cons.IH [OF rest] assms(2) [OF y(1)] by simp
    show "distinct (map name zs)" if "distinct (map name acc)" using Cons.IH [OF rest] d [OF that] by blast
  qed
qed simp

definition module_slots :: "loaded_module \<Rightarrow> event_slot list" where
  "module_slots l = map (annotate_slot (lm_reference l) (lm_spec l)) (mo_slots (lm_spec l))"

definition module_rules :: "loaded_module \<Rightarrow> transformation list" where
  "module_rules l = map (tag_transformation (lm_reference l)) (mo_transformations (lm_spec l))"

definition module_cells :: "loaded_module \<Rightarrow> state_variable list" where
  "module_cells l = mo_states (lm_spec l)"

definition unique_merged :: "merged \<Rightarrow> bool" where
  "unique_merged g \<longleftrightarrow> distinct (map sl_id (mg_slots g)) \<and> distinct (map sv_name (mg_states g)) \<and>
     distinct (map tf_name (mg_transformations g))"

lemma merge_module_Inr:
  assumes "merge_module g l = Inr g'"
  shows "mg_slots g' = mg_slots g @ module_slots l" and "mg_states g' = mg_states g @ module_cells l"
    and "mg_transformations g' = mg_transformations g @ module_rules l"
    and "mg_constraints g' = mg_constraints g @ mo_constraints (lm_spec l)"
    and "unique_merged g \<Longrightarrow> unique_merged g'"
proof -
  obtain slots states ts where s: "fold_res (\<lambda>ss s. rbind (mk_slot (annotate_slot (lm_reference l) (lm_spec l) s)) (add_unique sl_id ss))
      (mg_slots g) (mo_slots (lm_spec l)) = Inr slots"
    and v: "fold_res (add_unique sv_name) (mg_states g) (mo_states (lm_spec l)) = Inr states"
    and t: "fold_res (\<lambda>ts t. rbind (mk_transformation (tag_transformation (lm_reference l) t)) (add_unique tf_name ts))
      (mg_transformations g) (mo_transformations (lm_spec l)) = Inr ts"
    and g': "g' = \<lparr>mg_slots = slots, mg_states = states, mg_transformations = ts,
      mg_constraints = mg_constraints g @ mo_constraints (lm_spec l)\<rparr>"
    using assms by (auto simp: merge_module_def Let_def rbind_Inr_iff)
  have mk: "mk_transformation x = Inr y \<Longrightarrow> y = x" "mk_slot p = Inr q \<Longrightarrow> q = p" for x y p q
    using mk_transformation_Inr mk_slot_Inr by blast+
  have S: "slots = mg_slots g @ module_slots l \<and> (distinct (map sl_id (mg_slots g)) \<longrightarrow> distinct (map sl_id slots))"
    unfolding module_slots_def by (rule add_unique_fold [OF s]) (rule mk)
  have T: "ts = mg_transformations g @ module_rules l \<and>
      (distinct (map tf_name (mg_transformations g)) \<longrightarrow> distinct (map tf_name ts))"
    unfolding module_rules_def by (rule add_unique_fold [OF t]) (rule mk)
  have V: "states = mg_states g @ map id (mo_states (lm_spec l)) \<and>
      (distinct (map sv_name (mg_states g)) \<longrightarrow> distinct (map sv_name states))"
    by (rule add_unique_fold [where mk = Inr]) (use v in simp_all)
  show "mg_slots g' = mg_slots g @ module_slots l" "mg_states g' = mg_states g @ module_cells l"
    "mg_transformations g' = mg_transformations g @ module_rules l"
    "mg_constraints g' = mg_constraints g @ mo_constraints (lm_spec l)"
    using S T V by (simp_all add: g' module_cells_def)
  show "unique_merged g \<Longrightarrow> unique_merged g'"
    using S T V unfolding g' unique_merged_def merged.select_convs by blast
qed

lemma merge_modules_Inr:
  assumes "fold_res merge_module g ls = Inr g'"
  shows "mg_slots g' = mg_slots g @ concat (map module_slots ls) \<and> mg_states g' = mg_states g @ concat (map module_cells ls) \<and>
    mg_transformations g' = mg_transformations g @ concat (map module_rules ls) \<and>
    mg_constraints g' = mg_constraints g @ concat (map (\<lambda>l. mo_constraints (lm_spec l)) ls) \<and>
    (unique_merged g \<longrightarrow> unique_merged g')"
  using assms
proof (induction ls arbitrary: g)
  case (Cons l ls)
  then obtain h where h: "merge_module g l = Inr h" and rest: "fold_res merge_module h ls = Inr g'"
    by (auto simp: rbind_Inr_iff)
  show ?case using Cons.IH [OF rest] merge_module_Inr [OF h] by simp
qed simp

lemma generate_connections_Inr:
  assumes "generate_connections ms c ts ks = Inr ts'"
  shows "\<exists>gs. traverse (\<lambda>k. mapped_transformation ms k c) (filter (\<lambda>k. cn_mode k = EVENT_MAP) ks) = Inr gs \<and>
    ts' = ts @ gs \<and> (distinct (map tf_name ts) \<longrightarrow> distinct (map tf_name ts'))"
proof -
  have "\<exists>gs. traverse (\<lambda>k. mapped_transformation ms k c) ks = Inr gs \<and> ts' = ts @ gs \<and>
      (distinct (map tf_name ts) \<longrightarrow> distinct (map tf_name ts'))"
    if "fold_res (\<lambda>ts k. rbind (mapped_transformation ms k c) (add_unique tf_name ts)) ts ks = Inr ts'" for ts ks
    using that
  proof (induction ks arbitrary: ts)
    case (Cons k ks)
    then obtain t where t: "mapped_transformation ms k c = Inr t" "tf_name t \<notin> tf_name ` set ts"
      and rest: "fold_res (\<lambda>ts k. rbind (mapped_transformation ms k c) (add_unique tf_name ts)) (ts @ [t]) ks = Inr ts'"
      by (auto simp: rbind_Inr_iff add_unique_Inr)
    have "distinct (map tf_name (ts @ [t]))" if "distinct (map tf_name ts)" using that t(2) by simp
    moreover obtain gs where "traverse (\<lambda>k. mapped_transformation ms k c) ks = Inr gs" "ts' = (ts @ [t]) @ gs"
      "distinct (map tf_name (ts @ [t])) \<longrightarrow> distinct (map tf_name ts')" using Cons.IH [OF rest] by blast
    ultimately show ?case using t(1) by (intro exI [of _ "t # gs"]) simp
  qed simp
  then show ?thesis using assms by (simp add: generate_connections_def)
qed

section \<open>The composed specification\<close>

lemma module_from_dict_wf:
  assumes "module_from_dict v = Inr m"
  shows "mk_module m = Inr m" and "\<forall>t \<in> set (mo_transformations m). wf_transformation t"
proof -
  obtain c where c: "mk_module c = Inr m" "\<forall>t \<in> set (mo_transformations c). wf_transformation t"
    using assms unfolding module_from_dict_def with_map_Inr rbind_Inr_iff
    by (elim exE conjE) (erule that; simp only: module_spec.select_convs; erule transformation_codec.traverse_wf)
  then show "mk_module m = Inr m" "\<forall>t \<in> set (mo_transformations m). wf_transformation t"
    by (auto simp: mk_module_Inr)
qed

lemma load_module_Inr:
  assumes "load_module rd real_path cwd c cp ctx r = Inr l"
  shows "lm_reference l = mr_name r" and "mo_label (lm_spec l) = mr_name r" and "validate_module c (lm_spec l) = Inr ()"
    and "\<forall>t \<in> set (mo_transformations (lm_spec l)). wf_transformation t"
  using assms module_from_dict_wf(2) by (auto simp: load_module_def Let_def rbind_Inr_iff require_Inr_iff)

definition composed :: "event_catalog \<Rightarrow> composition \<Rightarrow> composition_result \<Rightarrow> transformation list \<Rightarrow> bool" where
  "composed c cp r gs \<longleftrightarrow>
     (let s = co_completion r; ls = co_modules r; ms = module_table ls in
      map lm_reference ls = map mr_name (cp_modules cp) \<and>
      (\<forall>l \<in> set ls. validate_module c (lm_spec l) = Inr () \<and> (\<forall>t \<in> set (mo_transformations (lm_spec l)). wf_transformation t)) \<and>
      validate_connections ms (cp_connections cp) c = Inr () \<and>
      traverse (\<lambda>k. mapped_transformation ms k c) (filter (\<lambda>k. cn_mode k = EVENT_MAP) (cp_connections cp)) = Inr gs \<and>
      cs_slots s = concat (map module_slots ls) \<and> cs_state_variables s = concat (map module_cells ls) \<and>
      cs_transformations s = concat (map module_rules ls) @ gs \<and>
      cs_constraints s = concat (map (\<lambda>l. mo_constraints (lm_spec l)) ls) @ cp_constraints cp \<and>
      mk_completion_spec s = Inr s)"

lemma compose_modules_composed:
  assumes "compose_modules rd real_path cwd c cp t = Inr r"
  shows "\<exists>gs. composed c cp r gs"
proof -
  obtain ctx ls g ts where ls: "traverse (load_module rd real_path cwd c cp ctx) (cp_modules cp) = Inr ls"
    and v: "validate_connections (module_table ls) (cp_connections cp) c = Inr ()"
    and g: "fold_res merge_module \<lparr>mg_slots = [], mg_states = [], mg_transformations = [], mg_constraints = []\<rparr> ls = Inr g"
    and ts: "generate_connections (module_table ls) c (mg_transformations g) (cp_connections cp) = Inr ts"
    and s: "mk_completion_spec (co_completion r) = Inr (co_completion r)" "co_modules r = ls"
      "cs_slots (co_completion r) = mg_slots g" "cs_transformations (co_completion r) = ts"
      "cs_state_variables (co_completion r) = mg_states g"
      "cs_constraints (co_completion r) = mg_constraints g @ cp_constraints cp"
    using assms unfolding compose_modules_def Let_def rbind_Inr_iff
    by (elim exE conjE) (erule that; simp; auto simp: mk_completion_spec_Inr)
  obtain gs where gs: "traverse (\<lambda>k. mapped_transformation (module_table ls) k c)
      (filter (\<lambda>k. cn_mode k = EVENT_MAP) (cp_connections cp)) = Inr gs" "ts = mg_transformations g @ gs"
    using generate_connections_Inr [OF ts] by blast
  have "map lm_reference ls = map mr_name (cp_modules cp)"
    using ls by (auto simp: traverse_Inr_iff list_all2_conv_all_nth list_eq_iff_nth_eq dest!: load_module_Inr(1))
  moreover have "\<forall>l \<in> set ls. validate_module c (lm_spec l) = Inr () \<and>
      (\<forall>t \<in> set (mo_transformations (lm_spec l)). wf_transformation t)"
    using traverse_Inr_imageD [OF ls] load_module_Inr(3,4) by blast
  ultimately have "composed c cp r gs" using v gs s merge_modules_Inr [OF g] by (simp add: composed_def)
  then show ?thesis ..
qed

section \<open>Connections\<close>

definition fields_compatible :: "connection \<Rightarrow> event_type \<Rightarrow> event_type \<Rightarrow> bool" where
  "fields_compatible k src tgt \<longleftrightarrow> (\<forall>(a, b) \<in> set (connection_fields k src tgt).
     \<exists>t s. map_of (field_map tgt) a = Some t \<and> map_of (field_map src) b = Some s \<and> fs_sort t = fs_sort s)"

definition connection_ok :: "(string \<times> module_spec) list \<Rightarrow> event_catalog \<Rightarrow> connection \<Rightarrow> bool" where
  "connection_ok ms c k \<longleftrightarrow> (\<exists>sp tp src tgt. resolve_port ms (cn_source k) = Inr sp \<and> resolve_port ms (cn_target k) = Inr tp \<and>
     po_direction sp = OUTPUT \<and> po_direction tp = INPUT \<and>
     map_of (ec_types c) (po_type sp) = Some src \<and> map_of (ec_types c) (po_type tp) = Some tgt \<and>
     (if cn_mode k = SHARED_EVENT then et_name src = et_name tgt else fields_compatible k src tgt))"

definition connections_ok :: "(string \<times> module_spec) list \<Rightarrow> connection list \<Rightarrow> event_catalog \<Rightarrow> bool" where
  "connections_ok ms ks c \<longleftrightarrow> (\<forall>k \<in> set ks. connection_ok ms c k) \<and> distinct (map cn_target ks) \<and>
     (\<forall>(n, m) \<in> set ms. \<forall>p \<in> set (mo_ports m). po_required p \<longrightarrow>
        (\<exists>k \<in> set ks. cn_source k = \<lparr>en_module = n, en_port = po_name p\<rparr> \<or> cn_target k = \<lparr>en_module = n, en_port = po_name p\<rparr>))"

lemma validate_field_map_iff: "validate_field_map k src tgt = Inr () \<longleftrightarrow> fields_compatible k src tgt"
proof -
  have "(\<exists>us. traverse (\<lambda>(a, b). rbind (get_spec tgt a CompositionError) (\<lambda>t. rbind (get_spec src b CompositionError) (\<lambda>s.
      require (compatible_with (fs_sort t) (fs_sort s)) CompositionError))) xs = Inr us) \<longleftrightarrow>
    (\<forall>(a, b) \<in> set xs. \<exists>t s. map_of (field_map tgt) a = Some t \<and> map_of (field_map src) b = Some s \<and> fs_sort t = fs_sort s)" for xs
    by (subst traverse_unit_ok [where P = "\<lambda>(a, b). \<exists>t s. map_of (field_map tgt) a = Some t \<and>
        map_of (field_map src) b = Some s \<and> fs_sort t = fs_sort s"])
      (auto simp: rbind_Inr_iff get_spec_def or_raise_Inr_iff require_Inr_iff compatible_with_def split: prod.splits)
  then show ?thesis by (simp add: validate_field_map_def rbind_Inr_iff fields_compatible_def)
qed

lemma validate_connection_Inr:
  "validate_connection ms c ts k = Inr ts' \<longleftrightarrow> connection_ok ms c k \<and> cn_target k \<notin> set ts \<and> ts' = ts @ [cn_target k]"
proof -
  show ?thesis
  proof (cases "cn_mode k = SHARED_EVENT")
    case True
    then show ?thesis
      by (cases "resolve_port ms (cn_source k)"; cases "resolve_port ms (cn_target k)")
        (auto simp: validate_connection_def connection_ok_def endpoint_types_def rbind_require resolve_def or_raise_def
          split: option.split)
  next
    case False
    then show ?thesis
      by (cases "resolve_port ms (cn_source k)"; cases "resolve_port ms (cn_target k)")
        (auto simp: validate_connection_def connection_ok_def endpoint_types_def rbind_require resolve_def or_raise_def
          rbind_Inr_iff validate_field_map_iff split: option.split)
  qed
qed

lemma validate_connections_iff: "validate_connections ms ks c = Inr () \<longleftrightarrow> connections_ok ms ks c"
proof -
  have "(\<exists>ts'. fold_res (validate_connection ms c) ts ks = Inr ts') \<longleftrightarrow> (\<forall>k \<in> set ks. connection_ok ms c k) \<and>
      distinct (map cn_target ks) \<and> set ts \<inter> cn_target ` set ks = {}" for ts
  proof (induction ks arbitrary: ts)
    case (Cons k ks)
    have "(\<exists>ts'. fold_res (validate_connection ms c) ts (k # ks) = Inr ts') \<longleftrightarrow>
      connection_ok ms c k \<and> cn_target k \<notin> set ts \<and> (\<exists>ts'. fold_res (validate_connection ms c) (ts @ [cn_target k]) ks = Inr ts')"
      by (auto simp: rbind_Inr_iff validate_connection_Inr)
    then show ?case unfolding Cons.IH by auto
  qed simp
  from this [of "[]"] show ?thesis
    unfolding validate_connections_def rbind_Inr_iff connections_ok_def connected_def
    by (simp add: require_Inr_iff list_all_iff list_ex_iff)
qed

section \<open>Generated transformations\<close>

text \<open>No declared field hides the attributes \<open>cycle\<close> and \<open>occurs\<close> of events.\<close>

definition plain_fields :: "event_catalog \<Rightarrow> bool" where
  "plain_fields c \<longleftrightarrow> (\<forall>(n, t) \<in> set (ec_types c). fs_name ` set (et_fields t) \<inter> {''cycle'', ''occurs''} = {})"

lemma field_equation_Inr:
  "field_equation op a s b t = Inr e \<longleftrightarrow> a \<noteq> [] \<and> b \<noteq> [] \<and> binary_ok op (EventField ''target'' a s) (EventField ''source'' b t) \<and>
     e = Binary op (EventField ''target'' a s) (EventField ''source'' b t)"
  by (auto simp: field_equation_def mk_event_field_def mk_binary_def)

lemma connection_ensures_Inr:
  assumes "connection_ensures k src tgt = Inr es"
  shows "e \<in> set es \<longleftrightarrow>
    cn_same_cycle k \<and> e = Binary ''eq'' (EventField ''target'' ''cycle'' INT_SORT) (EventField ''source'' ''cycle'' INT_SORT) \<or>
    (\<exists>(a, b) \<in> set (connection_fields k src tgt). \<exists>t s. map_of (field_map tgt) a = Some t \<and> map_of (field_map src) b = Some s \<and>
       e = Binary ''eq'' (EventField ''target'' a (fs_sort t)) (EventField ''source'' b (fs_sort s)))"
proof -
  let ?f = "\<lambda>(a, b). rbind (get_spec tgt a PyKeyError) (\<lambda>t. rbind (get_spec src b PyKeyError) (\<lambda>s.
         field_equation ''eq'' a (fs_sort t) b (fs_sort s)))"
  let ?C = "Binary ''eq'' (EventField ''target'' ''cycle'' INT_SORT) (EventField ''source'' ''cycle'' INT_SORT)"
  obtain fs where fs: "traverse ?f (sort (connection_fields k src tgt)) = Inr fs"
    and es: "es = (if cn_same_cycle k then [?C] else []) @ fs"
    using assms by (auto simp: connection_ensures_def rbind_Inr_iff field_equation_Inr split: if_splits)
  have f: "?f (a, b) = Inr e \<longrightarrow> (\<exists>t s. map_of (field_map tgt) a = Some t \<and> map_of (field_map src) b = Some s \<and>
       e = Binary ''eq'' (EventField ''target'' a (fs_sort t)) (EventField ''source'' b (fs_sort s)))" for a b e
    by (auto simp: rbind_Inr_iff get_spec_def or_raise_Inr_iff field_equation_Inr)
  have "e \<in> set fs \<longleftrightarrow> (\<exists>(a, b) \<in> set (connection_fields k src tgt). \<exists>t s. map_of (field_map tgt) a = Some t \<and>
      map_of (field_map src) b = Some s \<and>
      e = Binary ''eq'' (EventField ''target'' a (fs_sort t)) (EventField ''source'' b (fs_sort s)))"
  proof
    assume "e \<in> set fs"
    then show "\<exists>(a, b) \<in> set (connection_fields k src tgt). \<exists>t s. map_of (field_map tgt) a = Some t \<and>
      map_of (field_map src) b = Some s \<and>
      e = Binary ''eq'' (EventField ''target'' a (fs_sort t)) (EventField ''source'' b (fs_sort s))"
      using traverse_Inr_imageD [OF fs] f by fastforce
  next
    assume "\<exists>(a, b) \<in> set (connection_fields k src tgt). \<exists>t s. map_of (field_map tgt) a = Some t \<and>
      map_of (field_map src) b = Some s \<and>
      e = Binary ''eq'' (EventField ''target'' a (fs_sort t)) (EventField ''source'' b (fs_sort s))"
    then obtain a b t s where m: "(a, b) \<in> set (sort (connection_fields k src tgt))"
      "map_of (field_map tgt) a = Some t" "map_of (field_map src) b = Some s"
      "e = Binary ''eq'' (EventField ''target'' a (fs_sort t)) (EventField ''source'' b (fs_sort s))" by auto
    obtain e' where "e' \<in> set fs" "?f (a, b) = Inr e'" using traverse_Inr_memD [OF fs m(1)] by blast
    then show "e \<in> set fs" using f [of a b e'] m by auto
  qed
  then show ?thesis unfolding es by auto
qed

lemma connection_ensures_cases:
  assumes "connection_ensures k src tgt = Inr es" and "e \<in> set es"
  obtains "cn_same_cycle k" "e = Binary ''eq'' (EventField ''target'' ''cycle'' INT_SORT) (EventField ''source'' ''cycle'' INT_SORT)"
    | f g u v where "(f, g) \<in> set (connection_fields k src tgt)" "map_of (field_map tgt) f = Some u" "map_of (field_map src) g = Some v"
      "e = Binary ''eq'' (EventField ''target'' f (fs_sort u)) (EventField ''source'' g (fs_sort v))"
proof -
  from assms(2) [unfolded connection_ensures_Inr [OF assms(1)]] show thesis
  proof (elim disjE)
    assume "cn_same_cycle k \<and> e = Binary ''eq'' (EventField ''target'' ''cycle'' INT_SORT) (EventField ''source'' ''cycle'' INT_SORT)"
    then show thesis using that(1) by simp
  next
    assume "\<exists>(f, g) \<in> set (connection_fields k src tgt). \<exists>u v. map_of (field_map tgt) f = Some u \<and> map_of (field_map src) g = Some v \<and>
       e = Binary ''eq'' (EventField ''target'' f (fs_sort u)) (EventField ''source'' g (fs_sort v))"
    then obtain p u v where "p \<in> set (connection_fields k src tgt)" "map_of (field_map tgt) (fst p) = Some u"
      "map_of (field_map src) (snd p) = Some v"
      "e = Binary ''eq'' (EventField ''target'' (fst p) (fs_sort u)) (EventField ''source'' (snd p) (fs_sort v))"
      by (auto simp: case_prod_beta)
    then show thesis using that(2) [of "fst p" "snd p" u v] by simp
  qed
qed

lemma connection_ensures_fields:
  assumes "connection_ensures k src tgt = Inr es" and "(a, b) \<in> set (connection_fields k src tgt)"
  shows "\<exists>t s. map_of (field_map tgt) a = Some t \<and> map_of (field_map src) b = Some s"
proof -
  obtain fs where fs: "traverse (\<lambda>(a, b). rbind (get_spec tgt a PyKeyError) (\<lambda>t. rbind (get_spec src b PyKeyError) (\<lambda>s.
         field_equation ''eq'' a (fs_sort t) b (fs_sort s)))) (sort (connection_fields k src tgt)) = Inr fs"
    using assms(1) by (auto simp: connection_ensures_def rbind_Inr_iff)
  have "(a, b) \<in> set (sort (connection_fields k src tgt))" using assms(2) by simp
  from traverse_Inr_memD [OF fs this] show ?thesis by (auto simp: rbind_Inr_iff get_spec_def or_raise_Inr_iff)
qed

lemma mapped_transformation_Inr:
  assumes "mapped_transformation ms k c = Inr t"
  obtains sp tp src tgt where "resolve_port ms (cn_source k) = Inr sp" "resolve_port ms (cn_target k) = Inr tp"
    "map_of (ec_types c) (po_type sp) = Some src" "map_of (ec_types c) (po_type tp) = Some tgt"
    "connection_ensures k src tgt = Inr (tf_ensure t)"
    "tf_inputs t = [\<lparr>ro_name = ''source'', ro_type = po_type sp\<rparr>]"
    "tf_outputs t = [\<lparr>ro_name = ''target'', ro_type = po_type tp\<rparr>]"
    "tf_when t = TRUE_EXPR" "tf_output_when t = TRUE_EXPR" "tf_requirements t = []" "tf_updates t = []"
    "tf_exact t = cn_exact k" "tf_state_mode t = ''require''" "tf_name t = ''connection.'' @ cn_name k"
proof -
  obtain sp tp src tgt es where p: "resolve_port ms (cn_source k) = Inr sp" "resolve_port ms (cn_target k) = Inr tp"
    and ty: "map_of (ec_types c) (po_type sp) = Some src" "map_of (ec_types c) (po_type tp) = Some tgt"
    and es: "connection_ensures k src tgt = Inr es"
    and t: "mk_transformation (connection_rule k \<lparr>ro_name = ''source'', ro_type = po_type sp\<rparr>
      \<lparr>ro_name = ''target'', ro_type = po_type tp\<rparr> es) = Inr t"
    using assms by (auto simp: mapped_transformation_def endpoint_types_def rbind_Inr_iff resolve_Inr_iff mk_role_Inr)
  have "t = connection_rule k \<lparr>ro_name = ''source'', ro_type = po_type sp\<rparr>
      \<lparr>ro_name = ''target'', ro_type = po_type tp\<rparr> es"
    using t mk_transformation_Inr by blast
  then show thesis using p ty es by (intro that [of sp tp src tgt]) (simp_all add: connection_rule_def)
qed

lemma field_attribute:
  assumes "wf_catalog c" and "plain_fields c" and "map_of (ec_types c) n = Some t" and "map_of (field_map t) f = Some s"
  shows "attribute_has_sort t f (fs_sort s)"
proof -
  have "s \<in> set (et_fields t)" "fs_name s = f"
    using assms(4) map_of_field_map [OF wf_catalog_fields [OF assms(1,3)]] by auto
  moreover have "fs_name ` set (et_fields t) \<inter> {''cycle'', ''occurs''} = {}"
    using assms(2) map_of_SomeD [OF assms(3)] by (auto simp: plain_fields_def)
  ultimately have "f \<noteq> ''cycle''" "f \<noteq> ''occurs''" "\<exists>spec \<in> set (et_fields t). fs_name spec = f \<and> fs_sort spec = fs_sort s"
    by blast+
  then show ?thesis by (simp add: attribute_has_sort_def)
qed

lemma mapped_transformation_typed:
  assumes "wf_catalog c" and "plain_fields c" and "mapped_transformation ms k c = Inr t"
  shows "transformation_typed c vars t"
proof -
  obtain sp tp src tgt where p: "resolve_port ms (cn_source k) = Inr sp" "resolve_port ms (cn_target k) = Inr tp"
    and t: "map_of (ec_types c) (po_type sp) = Some src" "map_of (ec_types c) (po_type tp) = Some tgt"
    "connection_ensures k src tgt = Inr (tf_ensure t)"
    "tf_inputs t = [\<lparr>ro_name = ''source'', ro_type = po_type sp\<rparr>]"
    "tf_outputs t = [\<lparr>ro_name = ''target'', ro_type = po_type tp\<rparr>]"
    "tf_when t = TRUE_EXPR" "tf_output_when t = TRUE_EXPR" "tf_requirements t = []" "tf_updates t = []"
    by (rule mapped_transformation_Inr [OF assms(3)]) (rule that; assumption)
  note attr = field_attribute [OF assms(1,2)]
  have target: "reference_typed (tf_roles t) c (''target'', f, s)" if "attribute_has_sort tgt f s" for f s
    using that t(2,4,5) by (simp add: reference_typed_def tf_roles_def)
  have source: "reference_typed (tf_roles t) c (''source'', f, s)" if "attribute_has_sort src f s" for f s
    using that t(1,4,5) by (simp add: reference_typed_def tf_roles_def)
  have "expression_typed (tf_roles t) c e" if "e \<in> set (tf_ensure t)" for e
  proof -
    from t(3) that show ?thesis
    proof (cases rule: connection_ensures_cases)
      case 1
      then show ?thesis using target source by (simp add: expression_typed_def attribute_has_sort_def)
    next
      case 2
      then show ?thesis using target source attr [OF t(1)] attr [OF t(2)] by (simp add: expression_typed_def)
    qed
  qed
  then show ?thesis using t by (simp add: transformation_typed_def tf_roles_def references_only_def TRUE_EXPR_def expression_typed_def)
qed

text \<open>Two attributes of events are known and equal; an event occurs.\<close>

definition attributes_equal :: "nat \<Rightarrow> eval_context \<Rightarrow> string \<times> string \<Rightarrow> string \<times> string \<Rightarrow> bool" where
  "attributes_equal n ctx p q \<longleftrightarrow> (\<exists>v w. eval_at n ctx (EventField (fst p) (snd p) INT_SORT) = Inr (Some v) \<and>
     eval_at n ctx (EventField (fst q) (snd q) INT_SORT) = Inr (Some w) \<and> py_eq v w)"

definition takes_place :: "nat \<Rightarrow> eval_context \<Rightarrow> event_instance \<Rightarrow> bool" where
  "takes_place n ctx e \<longleftrightarrow> holds n ctx (EventField (ei_id e) ''occurs'' BOOL_SORT)"

text \<open>What a mapped connection requires of a target event \<open>b\<close> of a source event \<open>a\<close>.\<close>

definition carried :: "nat \<Rightarrow> eval_context \<Rightarrow> connection \<Rightarrow> event_type \<Rightarrow> event_type \<Rightarrow> event_instance \<Rightarrow> event_instance \<Rightarrow> bool" where
  "carried n ctx k src tgt a b \<longleftrightarrow>
     (cn_same_cycle k \<longrightarrow> attributes_equal n ctx (ei_id b, ''cycle'') (ei_id a, ''cycle'')) \<and>
     (\<forall>(f, g) \<in> set (connection_fields k src tgt). attributes_equal n ctx (ei_id b, f) (ei_id a, g))"

lemma holds_equal:
  "holds n ctx (Binary ''eq'' (EventField i f s) (EventField j g t)) \<longleftrightarrow> attributes_equal n ctx (i, f) (j, g)"
proof -
  have same: "eval_at n ctx (EventField i f s) = eval_at n ctx (EventField i f INT_SORT)" for i f s by simp
  have "rbind l (\<lambda>x. rbind r (\<lambda>y. eval_binary ''eq'' x y)) = Inr (Some (VBool True)) \<longleftrightarrow>
      (\<exists>v w. l = Inr (Some v) \<and> r = Inr (Some w) \<and> py_eq v w)" for l r
    by (cases l; cases r) (auto simp: eval_binary_def eval_strict_def split: option.splits)
  then show ?thesis unfolding holds_def attributes_equal_def eval_at.simps(5) same [of i f s] same [of j g t] by simp
qed

text \<open>The rules of a generated transformation, read on events.\<close>

lemma binding_of_single: "binding_of [r] events b \<longleftrightarrow> (\<exists>e \<in> set events. ei_type e = ro_type r \<and> b = [(ro_name r, ei_id e)])"
  by (auto simp: binding_of_def list_all2_Cons2)

lemma happens_single: "happens n ctx [(r, ei_id e)] \<longleftrightarrow> takes_place n ctx e"
  by (simp add: happens_def occurs_of_def takes_place_def)

lemma mapped_transformation_rules:
  assumes "mapped_transformation ms k c = Inr t"
  obtains sp tp src tgt where "resolve_port ms (cn_source k) = Inr sp" "resolve_port ms (cn_target k) = Inr tp"
    "map_of (ec_types c) (po_type sp) = Some src" "map_of (ec_types c) (po_type tp) = Some tgt"
    "\<And>n ctx events. forward_rule n ctx t events \<longleftrightarrow>
      (\<forall>a \<in> set events. ei_type a = po_type sp \<and> takes_place n ctx a \<longrightarrow>
        (\<exists>b \<in> set events. ei_type b = po_type tp \<and> ei_id a \<noteq> ei_id b \<and> takes_place n ctx b \<and> carried n ctx k src tgt a b))"
    "\<And>n ctx events. support_rule n ctx t events \<longleftrightarrow>
      (\<forall>b \<in> set events. ei_type b = po_type tp \<and> takes_place n ctx b \<longrightarrow>
        (\<exists>a \<in> set events. ei_type a = po_type sp \<and> ei_id a \<noteq> ei_id b \<and> takes_place n ctx a \<and> carried n ctx k src tgt a b))"
proof -
  obtain sp tp src tgt where p: "resolve_port ms (cn_source k) = Inr sp" "resolve_port ms (cn_target k) = Inr tp"
    "map_of (ec_types c) (po_type sp) = Some src" "map_of (ec_types c) (po_type tp) = Some tgt"
    and es: "connection_ensures k src tgt = Inr (tf_ensure t)"
    and t: "tf_inputs t = [\<lparr>ro_name = ''source'', ro_type = po_type sp\<rparr>]"
    "tf_outputs t = [\<lparr>ro_name = ''target'', ro_type = po_type tp\<rparr>]" "tf_when t = TRUE_EXPR" "tf_output_when t = TRUE_EXPR"
    by (rule mapped_transformation_Inr [OF assms]) (rule that; assumption)
  have true: "holds n ctx (substitute_event_ids m TRUE_EXPR)" for n ctx m
    by (simp add: TRUE_EXPR_def holds_def)
  have ens: "(\<forall>e \<in> set (tf_ensure t). holds n ctx (substitute_event_ids ([(''source'', ei_id a)] @ [(''target'', ei_id b)]) e)) \<longleftrightarrow>
      carried n ctx k src tgt a b" for n ctx a b
  proof -
    have subst: "substitute_event_ids ([(''source'', ei_id a)] @ [(''target'', ei_id b)])
        (Binary ''eq'' (EventField ''target'' f s) (EventField ''source'' g s')) =
        Binary ''eq'' (EventField (ei_id b) f s) (EventField (ei_id a) g s')" for f g s s'
      by (simp add: rename_def)
    show ?thesis
    proof
      assume all: "\<forall>e \<in> set (tf_ensure t). holds n ctx (substitute_event_ids ([(''source'', ei_id a)] @ [(''target'', ei_id b)]) e)"
      have "attributes_equal n ctx (ei_id b, ''cycle'') (ei_id a, ''cycle'')" if "cn_same_cycle k"
      proof -
        have "Binary ''eq'' (EventField ''target'' ''cycle'' INT_SORT) (EventField ''source'' ''cycle'' INT_SORT) \<in> set (tf_ensure t)"
          using connection_ensures_Inr [OF es] that by blast
        from bspec [OF all this] show ?thesis by (simp only: subst holds_equal)
      qed
      moreover have "attributes_equal n ctx (ei_id b, f) (ei_id a, g)" if m: "(f, g) \<in> set (connection_fields k src tgt)" for f g
      proof -
        obtain u v where "map_of (field_map tgt) f = Some u" "map_of (field_map src) g = Some v"
          using connection_ensures_fields [OF es m] by blast
        then have "Binary ''eq'' (EventField ''target'' f (fs_sort u)) (EventField ''source'' g (fs_sort v)) \<in> set (tf_ensure t)"
          unfolding connection_ensures_Inr [OF es] using m by (intro disjI2 bexI [of _ "(f, g)"]) auto
        from bspec [OF all this] show ?thesis by (simp only: subst holds_equal)
      qed
      ultimately show "carried n ctx k src tgt a b" by (auto simp: carried_def)
    next
      assume c: "carried n ctx k src tgt a b"
      show "\<forall>e \<in> set (tf_ensure t). holds n ctx (substitute_event_ids ([(''source'', ei_id a)] @ [(''target'', ei_id b)]) e)"
      proof
        fix e assume "e \<in> set (tf_ensure t)"
        with es show "holds n ctx (substitute_event_ids ([(''source'', ei_id a)] @ [(''target'', ei_id b)]) e)"
        proof (cases rule: connection_ensures_cases)
          case 1
          then show ?thesis using c by (simp only: subst holds_equal carried_def)
        next
          case (2 f g u v)
          then show ?thesis using c by (simp only: subst holds_equal carried_def) blast
        qed
      qed
    qed
  qed
  have ids: "distinct_ids [(x, i)]" "distinct_ids ([(x, i)] @ [(y, j)]) \<longleftrightarrow> i \<noteq> j" for x y i j :: string
    by (simp_all add: distinct_ids_def)
  have every: "(\<forall>z. (\<exists>a \<in> A. P a \<and> z = F a) \<and> Q z \<longrightarrow> R z) \<longleftrightarrow> (\<forall>a \<in> A. P a \<and> Q (F a) \<longrightarrow> R (F a))"
    for A :: "event_instance set" and P Q R and F :: "event_instance \<Rightarrow> binding" by blast
  have some: "(\<exists>z. (\<exists>a \<in> A. P a \<and> z = F a) \<and> Q z) \<longleftrightarrow> (\<exists>a \<in> A. P a \<and> Q (F a))"
    for A :: "event_instance set" and P Q and F :: "event_instance \<Rightarrow> binding" by blast
  note simps = t binding_of_single event_role.select_convs every some ids true happens_single ens simp_thms
  have forward: "forward_rule n ctx t events \<longleftrightarrow>
      (\<forall>a \<in> set events. ei_type a = po_type sp \<and> takes_place n ctx a \<longrightarrow>
        (\<exists>b \<in> set events. ei_type b = po_type tp \<and> ei_id a \<noteq> ei_id b \<and> takes_place n ctx b \<and> carried n ctx k src tgt a b))" for n ctx events
    by (simp only: forward_rule_def simps)
  have support: "support_rule n ctx t events \<longleftrightarrow>
      (\<forall>b \<in> set events. ei_type b = po_type tp \<and> takes_place n ctx b \<longrightarrow>
        (\<exists>a \<in> set events. ei_type a = po_type sp \<and> ei_id a \<noteq> ei_id b \<and> takes_place n ctx a \<and> carried n ctx k src tgt a b))" for n ctx events
    by (simp only: support_rule_def simps)
  show thesis by (rule that [OF p forward support])
qed

section \<open>Composition of valid modules\<close>

lemma validate_annotated_slot: "validate_slot c (annotate_slot n m s) = validate_slot c s"
  by (simp add: validate_slot_def annotate_slot_def Let_def)

lemma tagged_typed: "transformation_typed c vars (tag_transformation n t) = transformation_typed c vars t"
  by (simp add: transformation_typed_def tag_transformation_def tf_roles_def)

lemma transformation_typed_mono:
  assumes "transformation_typed c vars t" and "map_of vars \<subseteq>\<^sub>m map_of vars'"
  shows "transformation_typed c vars' t"
proof -
  have "map_of vars' n = Some v" if "map_of vars n = Some v" for n v
    using assms(2) that by (force simp: map_le_def)
  then have "effect_typed roles c vars eff \<Longrightarrow> effect_typed roles c vars' eff" for roles eff
    by (auto simp: effect_typed_def)
  then show ?thesis using assms(1) by (auto simp: transformation_typed_def)
qed

lemma cells_disjoint:
  "distinct (map f (concat (map g ls))) \<Longrightarrow> l \<in> set ls \<Longrightarrow> l' \<in> set ls \<Longrightarrow> l \<noteq> l' \<Longrightarrow> f ` set (g l) \<inter> f ` set (g l') = {}"
proof (induction ls)
  case (Cons x ls)
  have rest: "distinct (map f (concat (map g ls)))" using Cons.prems(1) by simp
  have apart: "f ` set (g x) \<inter> f ` set (g y) = {}" if "y \<in> set ls" for y
    using Cons.prems(1) that by auto
  show ?case
  proof (cases "l = x \<or> l' = x")
    case True
    then show ?thesis using apart Cons.prems(2-4) by auto
  next
    case False
    then show ?thesis using Cons.IH [OF rest] Cons.prems(2-4) by simp
  qed
qed simp

text \<open>The cells a transformation reads or writes.\<close>

definition touched_cells :: "transformation \<Rightarrow> string set" where
  "touched_cells t = rq_state ` set (tf_requirements t) \<union> up_state ` set (tf_updates t)"

definition isolated :: "composition_result \<Rightarrow> bool" where
  "isolated r \<longleftrightarrow> (\<forall>l \<in> set (co_modules r). \<forall>t \<in> set (mo_transformations (lm_spec l)).
     touched_cells t \<subseteq> sv_name ` set (module_cells l) \<and>
     (\<forall>l' \<in> set (co_modules r). l' \<noteq> l \<longrightarrow> touched_cells t \<inter> sv_name ` set (module_cells l') = {}))"

definition spec_typed :: "event_catalog \<Rightarrow> completion_spec \<Rightarrow> bool" where
  "spec_typed c s \<longleftrightarrow> mk_completion_spec s = Inr s \<and> (\<forall>x \<in> set (cs_slots s). validate_slot c x = Inr ()) \<and>
     (\<forall>t \<in> set (cs_transformations s). transformation_typed c (state_map s) t)"

lemma composed_module_typed:
  assumes "wf_catalog c" and "composed c cp r gs" and "l \<in> set (co_modules r)" and "t \<in> set (mo_transformations (lm_spec l))"
  shows "transformation_typed c (module_state_map (lm_spec l)) t"
proof -
  have "validate_module c (lm_spec l) = Inr ()" "\<forall>t \<in> set (mo_transformations (lm_spec l)). wf_transformation t"
    using assms(2,3) by (auto simp: composed_def Let_def)
  moreover have "distinct (map ro_name (tf_roles t))" if "wf_transformation t" for t
    using that by (auto simp: wf_transformation_def mk_transformation_def rbind_require split: if_splits)
  ultimately show ?thesis using validate_module_iff [OF assms(1)] assms(4) by (auto simp: module_encapsulated_def)
qed

lemma composed_spec_typed:
  assumes c: "wf_catalog c" "plain_fields c" and r: "composed c cp r gs"
  shows "spec_typed c (co_completion r)" and "isolated r"
proof -
  let ?s = "co_completion r" and ?ls = "co_modules r"
  have parts: "cs_slots ?s = concat (map module_slots ?ls)" "cs_state_variables ?s = concat (map module_cells ?ls)"
    "cs_transformations ?s = concat (map module_rules ?ls) @ gs" "mk_completion_spec ?s = Inr ?s"
    "traverse (\<lambda>k. mapped_transformation (module_table ?ls) k c) (filter (\<lambda>k. cn_mode k = EVENT_MAP) (cp_connections cp)) = Inr gs"
    and valid: "\<forall>l \<in> set ?ls. validate_module c (lm_spec l) = Inr ()"
    using r by (auto simp: composed_def Let_def)
  have cells: "distinct (map sv_name (concat (map module_cells ?ls)))"
    using parts(4) by (simp add: mk_completion_spec_Inr parts(2))
  have lookup: "map_of (dict_of (map (\<lambda>v. (sv_name v, v)) vs)) n = Some v \<longleftrightarrow> v \<in> set vs \<and> sv_name v = n"
    if "distinct (map sv_name vs)" for vs n v
    using that by (auto simp: dict_of_map_fst o_def map_of_eq_Some_iff)
  have local: "distinct (map sv_name (module_cells l))" if "l \<in> set ?ls" for l
    using cells split_list [OF that] by auto
  have le: "map_of (module_state_map (lm_spec l)) \<subseteq>\<^sub>m map_of (state_map ?s)" if "l \<in> set ?ls" for l
  proof -
    have "map_of (state_map ?s) n = Some v" if "map_of (module_state_map (lm_spec l)) n = Some v" for n v
      using that lookup [OF local [OF \<open>l \<in> set ?ls\<close>], of n v] lookup [OF cells, of n v] \<open>l \<in> set ?ls\<close>
      by (auto simp: module_state_map_def state_map_def module_cells_def parts(2))
    then show ?thesis by (auto simp: map_le_def dom_def)
  qed
  have "\<forall>x \<in> set (cs_slots ?s). validate_slot c x = Inr ()"
  proof
    fix x assume "x \<in> set (cs_slots ?s)"
    then obtain l s where l: "l \<in> set ?ls" "s \<in> set (mo_slots (lm_spec l))" "x = annotate_slot (lm_reference l) (lm_spec l) s"
      by (auto simp: parts(1) module_slots_def)
    have "validate_module c (lm_spec l) = Inr ()" using valid l(1) by blast
    then obtain us where us: "traverse (validate_slot c) (mo_slots (lm_spec l)) = Inr us"
      by (auto simp: validate_module_def rbind_Inr_iff)
    show "validate_slot c x = Inr ()" using traverse_Inr_memD [OF us l(2)] l(3) by (auto simp: validate_annotated_slot)
  qed
  moreover have "transformation_typed c (state_map ?s) t" if t: "t \<in> set (cs_transformations ?s)" for t
  proof (cases "t \<in> set gs")
    case True
    then show ?thesis using traverse_Inr_imageD [OF parts(5)] mapped_transformation_typed [OF c] by blast
  next
    case False
    then obtain l u where l: "l \<in> set ?ls" "u \<in> set (mo_transformations (lm_spec l))" "t = tag_transformation (lm_reference l) u"
      using t by (auto simp: parts(3) module_rules_def)
    show ?thesis using transformation_typed_mono [OF composed_module_typed [OF c(1) r l(1,2)] le [OF l(1)]]
      by (simp add: l(3) tagged_typed)
  qed
  ultimately show "spec_typed c ?s" using parts(4) by (simp add: spec_typed_def)
  have "touched_cells t \<subseteq> sv_name ` set (module_cells l)" if "l \<in> set ?ls" "t \<in> set (mo_transformations (lm_spec l))" for l t
  proof -
    note ty = composed_module_typed [OF c(1) r that]
    have "st \<in> sv_name ` set (module_cells l)" if "effect_typed (tf_roles t) c (module_state_map (lm_spec l)) (a, st, e)" for a st e
      using that lookup [OF local [OF \<open>l \<in> set ?ls\<close>], of st]
      by (auto simp: effect_typed_def module_state_map_def module_cells_def)
    then show ?thesis using ty by (auto simp: touched_cells_def transformation_typed_def)
  qed
  then show "isolated r" using cells_disjoint [OF cells] unfolding isolated_def by blast
qed

lemma composed_connections:
  "composed c cp r gs \<Longrightarrow> connections_ok (module_table (co_modules r)) (cp_connections cp) c"
  by (simp add: composed_def Let_def validate_connections_iff)

end
