(* ===== verification/Projection.thy ===== *)
theory Projection
  imports ComposeFacts
begin

text \<open>
  \<open>src/src/umcm/hierarchy/interface.py\<close>: the public contracts of composed modules and the projection of
  a trace to their interfaces, which hides the private events of modules. Projection keeps the
  visible events as they are and in order, and keeps a valid trace valid (\<open>project_correct\<close>).
\<close>

section \<open>Contracts\<close>

record port_contract =
  pc_name :: string
  pc_direction :: string
  pc_type :: string
  pc_required :: bool

definition port_contract_to_dict :: "port_contract \<Rightarrow> pyval" where
  "port_contract_to_dict p = VMap [(''name'', VStr (pc_name p)), (''direction'', VStr (pc_direction p)),
     (''event_type'', VStr (pc_type p)), (''required_connection'', VBool (pc_required p))]"

record interface_contract =
  ic_module :: string
  ic_ports :: "port_contract list"
  ic_public :: "string list"
  ic_slots :: "string list"
  ic_private :: "string list"
  ic_states :: "string list"
  ic_transformations :: "string list"

definition contract_to_dict :: "interface_contract \<Rightarrow> pyval" where
  "contract_to_dict k = VMap [(''module'', VStr (ic_module k)), (''ports'', VList (map port_contract_to_dict (ic_ports k))),
     (''public_event_types'', str_list (ic_public k)), (''private_slot_ids'', str_list (ic_slots k)),
     (''private_event_types'', str_list (ic_private k)), (''private_state_names'', str_list (ic_states k)),
     (''private_transformation_names'', str_list (ic_transformations k))]"

definition build_interface_contracts :: "composition_result \<Rightarrow> interface_contract list" where
  "build_interface_contracts r = map (\<lambda>l. let m = lm_spec l in
     \<lparr>ic_module = lm_reference l,
      ic_ports = map (\<lambda>p. \<lparr>pc_name = po_name p, pc_direction = direction_value (po_direction p), pc_type = po_type p,
        pc_required = po_required p\<rparr>) (mo_ports m),
      ic_public = public_types m, ic_slots = sort (map sl_id (private_slots m)), ic_private = private_types m,
      ic_states = sort (map sv_name (mo_states m)),
      ic_transformations = sort (map tf_name (mo_transformations m))\<rparr>) (co_modules r)"

section \<open>Visibility\<close>

text \<open>The modules that own a private type, when no module makes it public.\<close>

definition private_owners :: "interface_contract list \<Rightarrow> string \<Rightarrow> string list" where
  "private_owners ks ty =
     (if ty \<in> set (concat (map ic_public ks)) then []
      else sort (remdups (map ic_module (filter (\<lambda>k. ty \<in> set (ic_private k)) ks))))"

definition slot_visibility :: "completion_spec \<Rightarrow> (string \<times> string \<times> string option) list" where
  "slot_visibility s = dict_of (map (\<lambda>x.
     (sl_id x, str_default (sl_annotations x) ''module_visibility'' ''private'', str_option (sl_annotations x) ''module_spec''))
     (cs_slots s))"

text \<open>The visibility and the owner of an event; an event without an owner is external.\<close>

definition event_visibility :: "composition_result \<Rightarrow> event_instance \<Rightarrow> string option \<times> string option" where
  "event_visibility r e =
     (let (vis, owner) = (case map_of (slot_visibility (co_completion r)) (ei_id e) of
            Some (v, own) \<Rightarrow> (Some v, own)
          | None \<Rightarrow> (str_option (ei_annotations e) ''module_visibility'', str_option (ei_annotations e) ''module_spec''));
          owners = private_owners (build_interface_contracts r) (ei_type e)
      in if owner = None \<and> owners \<noteq> [] then (Some ''private'', Some (join ''+'' owners)) else (vis, owner))"

definition visible :: "composition_result \<Rightarrow> event_instance \<Rightarrow> bool" where
  "visible r e = (case event_visibility r e of (vis, owner) \<Rightarrow> owner = None \<or> vis = Some ''public'')"

section \<open>Projection\<close>

record projection_certificate =
  pj_composition :: string
  pj_source_count :: nat
  pj_projected_count :: nat
  pj_retained :: "string list"
  pj_hidden :: "string list"
  pj_by_module :: "(string \<times> string list) list"

definition projection_certificate_to_dict :: "projection_certificate \<Rightarrow> pyval" where
  "projection_certificate_to_dict k = VMap [(''composition'', VStr (pj_composition k)),
     (''source_event_count'', VInt (int (pj_source_count k))), (''projected_event_count'', VInt (int (pj_projected_count k))),
     (''retained_event_ids'', str_list (pj_retained k)), (''hidden_event_ids'', str_list (pj_hidden k)),
     (''hidden_by_module'', VMap (map (\<lambda>(n, ids). (n, str_list ids)) (sort_key fst (pj_by_module k))))]"

record projection_result =
  pj_trace :: trace
  pj_certificate :: projection_certificate

text \<open>The loop over the events: retained copies, hidden identifiers, and these by owner.\<close>

definition project_event :: "composition_result \<Rightarrow> event_instance list \<times> string list \<times> (string \<times> string list) list \<Rightarrow>
    event_instance \<Rightarrow> (event_instance list \<times> string list \<times> (string \<times> string list) list) res" where
  "project_event r st e =
     (case st of (kept, hidden, by_module) \<Rightarrow>
        (case event_visibility r e of (vis, owner) \<Rightarrow>
           (case owner of
              None \<Rightarrow> rbind (mk_event_instance e) (\<lambda>e'. Inr (kept @ [e'], hidden, by_module))
            | Some n \<Rightarrow>
                if vis = Some ''public'' then rbind (mk_event_instance e) (\<lambda>e'. Inr (kept @ [e'], hidden, by_module))
                else Inr (kept, hidden @ [ei_id e], dict_append n (ei_id e) by_module))))"

definition project_interface_trace :: "trace \<Rightarrow> composition_result \<Rightarrow> projection_result res" where
  "project_interface_trace t r =
     rbind (fold_res (project_event r) ([], [], []) (tr_events t)) (\<lambda>(kept, hidden, by_module).
     let ids = map ei_id kept;
         constraints = filter (\<lambda>e. list_all (\<lambda>x. fst x \<in> set ids) (iter_event_fields e)) (tr_constraints t);
         count = \<lambda>n. VInt (int n);
         metadata = AList.update ''interface_projection'' (VMap [(''composition'', VStr (cp_name (co_spec r))),
           (''source_event_count'', count (length (tr_events t))), (''projected_event_count'', count (length kept)),
           (''hidden_event_count'', count (length hidden)),
           (''dropped_constraint_count'', count (length (tr_constraints t) - length constraints))]) (tr_metadata t) in
     rbind (mk_trace \<lparr>tr_events = kept, tr_constraints = constraints, tr_partial = tr_partial t, tr_metadata = metadata,
       tr_version = tr_version t\<rparr>) (\<lambda>p.
       Inr \<lparr>pj_trace = p, pj_certificate = \<lparr>pj_composition = cp_name (co_spec r), pj_source_count = length (tr_events t),
         pj_projected_count = length kept, pj_retained = ids, pj_hidden = hidden, pj_by_module = sort_key fst by_module\<rparr>\<rparr>))"

section \<open>Correctness\<close>

lemma project_events:
  assumes "\<forall>e \<in> set es. wf_event e"
  shows "\<exists>by_module'. fold_res (project_event r) (kept, hidden, by_module) es =
    Inr (kept @ filter (visible r) es, hidden @ map ei_id (filter (\<lambda>e. \<not> visible r e) es), by_module')"
  using assms
proof (induction es arbitrary: kept hidden by_module)
  case (Cons e es)
  have e: "wf_event e" "\<forall>e \<in> set es. wf_event e" using Cons.prems by auto
  then have mk: "mk_event_instance e = Inr e" by (simp add: mk_event_instance_Inr_iff)
  have step: "\<exists>by_module'. project_event r (kept, hidden, by_module) e =
      Inr (if visible r e then (kept @ [e], hidden, by_module') else (kept, hidden @ [ei_id e], by_module'))"
    by (auto simp: project_event_def visible_def mk split: prod.split option.split)
  show ?case
  proof (cases "visible r e")
    case True
    then obtain m where m: "project_event r (kept, hidden, by_module) e = Inr (kept @ [e], hidden, m)" using step by auto
    from Cons.IH [OF e(2), of "kept @ [e]" hidden m] show ?thesis using True by (simp add: m)
  next
    case False
    then obtain m where m: "project_event r (kept, hidden, by_module) e = Inr (kept, hidden @ [ei_id e], m)" using step by auto
    from Cons.IH [OF e(2), of kept "hidden @ [ei_id e]" m] show ?thesis using False by (simp add: m)
  qed
qed simp

lemma project_correct:
  assumes wf: "\<forall>e \<in> set (tr_events t). wf_event e" and valid: "validate_trace c p t = Inr ()"
  shows "\<exists>res. project_interface_trace t r = Inr res \<and> tr_events (pj_trace res) = filter (visible r) (tr_events t) \<and>
    pj_hidden (pj_certificate res) = map ei_id (filter (\<lambda>e. \<not> visible r e) (tr_events t)) \<and>
    tr_constraints (pj_trace res) = filter (\<lambda>e. \<forall>x \<in> set (iter_event_fields e).
      fst x \<in> ei_id ` {ev \<in> set (tr_events t). visible r ev}) (tr_constraints t) \<and>
    validate_trace c p (pj_trace res) = Inr ()"
proof -
  let ?kept = "filter (visible r) (tr_events t)"
  let ?cs = "filter (\<lambda>e. list_all (\<lambda>x. fst x \<in> set (map ei_id ?kept)) (iter_event_fields e)) (tr_constraints t)"
  have struct: "distinct (map ei_id (tr_events t))" "list_all expr_is_bool (tr_constraints t)"
    and events: "validate_events c (case p of None \<Rightarrow> tr_partial t | Some p \<Rightarrow> p) (tr_events t) = Inr ()"
    using valid by (auto simp: validate_trace_def rbind_Inr_iff validate_structure_def require_Inr_iff)
  obtain m where fold: "fold_res (project_event r) ([], [], []) (tr_events t) =
      Inr (?kept, map ei_id (filter (\<lambda>e. \<not> visible r e) (tr_events t)), m)"
    using project_events [OF wf, of r "[]" "[]" "[]"] by auto
  have dist: "distinct (map ei_id ?kept)" using struct(1) by (rule distinct_map_filter)
  have bool: "list_all expr_is_bool ?cs" using struct(2) by (auto simp: list_all_iff)
  obtain res where res: "project_interface_trace t r = Inr res" and tr: "tr_events (pj_trace res) = ?kept"
    "tr_constraints (pj_trace res) = ?cs" "tr_partial (pj_trace res) = tr_partial t"
    and cert: "pj_hidden (pj_certificate res) = map ei_id (filter (\<lambda>e. \<not> visible r e) (tr_events t))"
    using fold dist bool by (auto simp: project_interface_trace_def Let_def mk_trace_def validate_structure_def rbind_require)
  have "validate_events c (case p of None \<Rightarrow> tr_partial t | Some p \<Rightarrow> p) ?kept = Inr ()"
    using events unfolding validate_events_def rbind_Inr_iff
    by (metis (no_types, lifting) filter_is_subset subsetD traverse_ok_iff)
  moreover have "\<exists>us. traverse (\<lambda>e. traverse (check_reference c (event_map (pj_trace res))) (iter_event_fields e)) ?cs = Inr us"
    unfolding traverse_ok_iff
  proof (intro ballI)
    fix e x assume e: "e \<in> set ?cs" and x: "x \<in> set (iter_event_fields e)"
    obtain i f s where ifs: "x = (i, f, s)" by (cases x)
    obtain ev where ev: "map_of (event_map t) i = Some ev" "expected_sort c ev f = Inr s"
      by (rule validated_reference [OF valid, of e i f s]) (use e x ifs in auto)
    have m: "map_of (event_map t) i = Some ev \<longleftrightarrow> ev \<in> set (tr_events t) \<and> ei_id ev = i"
      "map_of (event_map (pj_trace res)) i = Some ev \<longleftrightarrow> ev \<in> set ?kept \<and> ei_id ev = i" for ev
      using struct(1) dist by (auto simp: event_map_def tr dict_of_map_fst o_def map_of_eq_Some_iff)
    have "i \<in> ei_id ` set ?kept" using e x ifs by (auto simp: list_all_iff)
    then obtain ev' where "ev' \<in> set ?kept" "ei_id ev' = i" by blast
    moreover from this have "ev' = ev" using ev(1) m(1) struct(1) by (auto simp: distinct_map dest: inj_onD)
    ultimately have "map_of (event_map (pj_trace res)) i = Some ev" using m(2) by blast
    then show "\<exists>u. check_reference c (event_map (pj_trace res)) x = Inr u"
      using ev(2) by (simp add: ifs check_reference_def or_raise_def compatible_with_def require_def)
  qed
  moreover have "validate_structure (pj_trace res) = Inr ()"
    using dist bool by (simp add: validate_structure_Inr tr list_all_iff)
  ultimately have "validate_trace c p (pj_trace res) = Inr ()"
    unfolding validate_trace_def rbind_Inr_iff tr by blast
  moreover have "?cs = filter (\<lambda>e. \<forall>x \<in> set (iter_event_fields e).
      fst x \<in> ei_id ` {ev \<in> set (tr_events t). visible r ev}) (tr_constraints t)"
    by (auto simp: list_all_iff intro!: filter_cong)
  ultimately show ?thesis using res tr cert by auto
qed

end
