(* ===== verification/AbstractionIR.thy ===== *)
theory AbstractionIR
  imports CompletionIR
begin

text \<open>
  \<open>src/src/umcm/hierarchy/model.py\<close>: abstraction specifications. A rule matches events by roles,
  unifies fields through variables and emits one summary event. A pattern or output value that is
  written as a string starting with \<open>$\<close> is a variable; a mapping has one of the forms of
  \<open>from_data\<close>. The codecs below show for which values printing and parsing agree.
\<close>

section \<open>Patterns and output values\<close>

text \<open>
  The class \<open>MatchValue\<close> has a flag for each form and its constructor refuses every other
  combination; \<open>OutputValue\<close> has a string \<open>kind\<close> with three members.
\<close>

datatype match_value = MatchVar string | MatchLit pyval

datatype output_value = OutVar string | OutField string | OutLit pyval

definition mk_match :: "match_value \<Rightarrow> match_value res" where
  "mk_match m = (case m of
       MatchVar x \<Rightarrow> rbind (require (x \<noteq> []) AbstractionError) (\<lambda>_. Inr m)
     | MatchLit _ \<Rightarrow> Inr m)"

definition mk_output :: "output_value \<Rightarrow> output_value res" where
  "mk_output m = (case m of
       OutVar x \<Rightarrow> rbind (require (x \<noteq> []) AbstractionError) (\<lambda>_. Inr m)
     | OutField x \<Rightarrow> rbind (require (x \<noteq> []) AbstractionError) (\<lambda>_. Inr m)
     | OutLit _ \<Rightarrow> Inr m)"

text \<open>The name after the \<open>$\<close> of a string that starts with it.\<close>

definition dollar_name :: "pyval \<Rightarrow> string option" where
  "dollar_name v = (case v of VStr s \<Rightarrow> (case s of c # cs \<Rightarrow> if c = CHR ''$'' then Some cs else None | [] \<Rightarrow> None)
     | _ \<Rightarrow> None)"

definition match_from_data :: "pyval \<Rightarrow> match_value res" where
  "match_from_data v =
     (case dollar_name v of
        Some x \<Rightarrow> mk_match (MatchVar x)
      | None \<Rightarrow> (case v of
          VMap d \<Rightarrow>
            rbind (require (fst ` set d = {''literal''}) SerializationError) (\<lambda>_.
            rbind (get_key d ''literal'' SerializationError) (\<lambda>w.
            rbind (decode_value w) (\<lambda>x. mk_match (MatchLit x))))
        | _ \<Rightarrow> rbind (decode_value v) (\<lambda>x. mk_match (MatchLit x))))"

definition literal_to_data :: "pyval \<Rightarrow> pyval" where
  "literal_to_data v = (if dollar_name v \<noteq> None then VMap [(''literal'', encode_value v)] else encode_value v)"

definition match_to_data :: "match_value \<Rightarrow> pyval" where
  "match_to_data m = (case m of MatchVar x \<Rightarrow> VStr (CHR ''$'' # x) | MatchLit v \<Rightarrow> literal_to_data v)"

definition output_from_data :: "pyval \<Rightarrow> output_value res" where
  "output_from_data v =
     (case dollar_name v of
        Some x \<Rightarrow> mk_output (OutVar x)
      | None \<Rightarrow> (case v of
          VMap d \<Rightarrow>
            if fst ` set d = {''from''} then
              rbind (get_key d ''from'' SerializationError) (\<lambda>w. mk_output (OutField (py_str w)))
            else
              rbind (require (fst ` set d = {''literal''}) SerializationError) (\<lambda>_.
              rbind (get_key d ''literal'' SerializationError) (\<lambda>w.
              rbind (decode_value w) (\<lambda>x. mk_output (OutLit x))))
        | _ \<Rightarrow> rbind (decode_value v) (\<lambda>x. mk_output (OutLit x))))"

definition output_to_data :: "output_value \<Rightarrow> pyval" where
  "output_to_data m = (case m of
       OutVar x \<Rightarrow> VStr (CHR ''$'' # x)
     | OutField x \<Rightarrow> VMap [(''from'', VStr x)]
     | OutLit v \<Rightarrow> literal_to_data v)"

section \<open>Roles and summary events\<close>

record role_spec =
  rs_name :: string
  rs_type :: string
  rs_fields :: "(string \<times> match_value) list"

definition mk_role_spec :: "role_spec \<Rightarrow> role_spec res" where
  "mk_role_spec r =
     rbind (require (rs_name r \<noteq> []) AbstractionError) (\<lambda>_.
     rbind (require (rs_type r \<noteq> []) AbstractionError) (\<lambda>_. Inr r))"

definition parse_fields :: "(pyval \<Rightarrow> 'a res) \<Rightarrow> (string \<times> pyval) list \<Rightarrow> (string \<times> 'a) list res" where
  "parse_fields f kvs = traverse (\<lambda>(k, v). rbind (f v) (\<lambda>x. Inr (k, x))) kvs"

definition print_fields :: "('a \<Rightarrow> pyval) \<Rightarrow> (string \<times> 'a) list \<Rightarrow> pyval" where
  "print_fields f kvs = VMap (map (\<lambda>(k, x). (k, f x)) kvs)"

definition role_spec_from_dict :: "pyval \<Rightarrow> role_spec res" where
  "role_spec_from_dict v = with_map v (\<lambda>d.
     rbind (known_keys d [''name'', ''event_type'', ''fields'']) (\<lambda>_.
     rbind (map_field d ''fields'') (\<lambda>raw.
     rbind (get_key d ''name'' SerializationError) (\<lambda>n.
     rbind (get_key d ''event_type'' SerializationError) (\<lambda>t.
     rbind (parse_fields match_from_data raw) (\<lambda>fds.
       mk_role_spec \<lparr>rs_name = py_str n, rs_type = py_str t, rs_fields = fds\<rparr>))))))"

definition role_spec_to_dict :: "role_spec \<Rightarrow> pyval" where
  "role_spec_to_dict r = VMap [(''name'', VStr (rs_name r)), (''event_type'', VStr (rs_type r)),
     (''fields'', print_fields match_to_data (rs_fields r))]"

record summary_event =
  se_type :: string
  se_template :: string
  se_fields :: "(string \<times> output_value) list"
  se_cycle_from :: string
  se_annotations :: "(string \<times> pyval) list"

definition mk_summary_event :: "summary_event \<Rightarrow> summary_event res" where
  "mk_summary_event s =
     rbind (require (se_type s \<noteq> []) AbstractionError) (\<lambda>_.
     rbind (require (se_template s \<noteq> []) AbstractionError) (\<lambda>_.
     rbind (require (se_cycle_from s \<noteq> []) AbstractionError) (\<lambda>_. Inr s)))"

definition summary_event_from_dict :: "pyval \<Rightarrow> summary_event res" where
  "summary_event_from_dict v = with_map v (\<lambda>d.
     rbind (known_keys d [''event_type'', ''id'', ''fields'', ''cycle_from'', ''annotations'']) (\<lambda>_.
     rbind (decode_value (get_default d ''annotations'' (VMap []))) (\<lambda>av.
     rbind (map_field d ''fields'') (\<lambda>raw.
     rbind (as_dict av SerializationError) (\<lambda>annotations.
     rbind (get_key d ''event_type'' SerializationError) (\<lambda>t.
     rbind (get_key d ''id'' SerializationError) (\<lambda>i.
     rbind (parse_fields output_from_data raw) (\<lambda>fds.
       mk_summary_event \<lparr>se_type = py_str t, se_template = py_str i, se_fields = fds,
         se_cycle_from = str_default d ''cycle_from'' ''last'', se_annotations = annotations\<rparr>))))))))"

definition summary_event_to_dict :: "summary_event \<Rightarrow> pyval" where
  "summary_event_to_dict s = VMap ([(''event_type'', VStr (se_type s)), (''id'', VStr (se_template s)),
     (''cycle_from'', VStr (se_cycle_from s)), (''fields'', print_fields output_to_data (se_fields s))]
     @ (if se_annotations s = [] then [] else [(''annotations'', encode_value (VMap (se_annotations s)))]))"

section \<open>Rules\<close>

record summary_rule =
  su_name :: string
  su_roles :: "role_spec list"
  su_output :: summary_event
  su_ordered :: bool
  su_strict :: bool
  su_distinct :: bool
  su_hide :: bool
  su_min :: int
  su_max :: int

definition mk_summary_rule :: "summary_rule \<Rightarrow> summary_rule res" where
  "mk_summary_rule r =
     rbind (require (su_name r \<noteq> []) AbstractionError) (\<lambda>_.
     rbind (require (su_roles r \<noteq> []) AbstractionError) (\<lambda>_.
     rbind (require (distinct (map rs_name (su_roles r))) AbstractionError) (\<lambda>_.
     rbind (require (\<not> su_min r < 0) AbstractionError) (\<lambda>_.
     rbind (require (\<not> (su_max r \<le> 0 \<or> su_max r < su_min r)) AbstractionError) (\<lambda>_. Inr r)))))"

definition summary_rule_from_dict :: "pyval \<Rightarrow> summary_rule res" where
  "summary_rule_from_dict v = with_map v (\<lambda>d.
     rbind (known_keys d [''name'', ''roles'', ''output'', ''ordered'', ''strict_order'', ''distinct_events'',
       ''hide_sources'', ''min_matches'', ''max_matches'']) (\<lambda>_.
     rbind (list_field d ''roles'' []) (\<lambda>raw.
     rbind (get_key d ''name'' SerializationError) (\<lambda>n.
     rbind (traverse role_spec_from_dict raw) (\<lambda>roles.
     rbind (get_key d ''output'' SerializationError) (\<lambda>ov.
     rbind (summary_event_from_dict ov) (\<lambda>out.
     rbind (py_int (get_default d ''min_matches'' (VInt 0))) (\<lambda>lo.
     rbind (py_int (get_default d ''max_matches'' (VInt 10000))) (\<lambda>hi.
       mk_summary_rule \<lparr>su_name = py_str n, su_roles = roles, su_output = out,
         su_ordered = truthy (get_default d ''ordered'' (VBool True)),
         su_strict = truthy (get_default d ''strict_order'' (VBool False)),
         su_distinct = truthy (get_default d ''distinct_events'' (VBool True)),
         su_hide = truthy (get_default d ''hide_sources'' (VBool True)),
         su_min = lo, su_max = hi\<rparr>)))))))))"

definition summary_rule_to_dict :: "summary_rule \<Rightarrow> pyval" where
  "summary_rule_to_dict r = VMap [(''name'', VStr (su_name r)),
     (''roles'', VList (map role_spec_to_dict (su_roles r))), (''output'', summary_event_to_dict (su_output r)),
     (''ordered'', VBool (su_ordered r)), (''strict_order'', VBool (su_strict r)),
     (''distinct_events'', VBool (su_distinct r)), (''hide_sources'', VBool (su_hide r)),
     (''min_matches'', VInt (su_min r)), (''max_matches'', VInt (su_max r))]"

section \<open>Specifications\<close>

record retain_spec =
  rt_types :: "string list"
  rt_ids :: "string list"
  rt_visibilities :: "string list"

definition retain_from_dict :: "pyval \<Rightarrow> retain_spec res" where
  "retain_from_dict v = with_map v (\<lambda>d.
     rbind (known_keys d [''event_types'', ''event_ids'', ''visibilities'']) (\<lambda>_.
     rbind (list_field d ''event_types'' []) (\<lambda>ts.
     rbind (list_field d ''event_ids'' []) (\<lambda>ids.
     rbind (list_field d ''visibilities'' []) (\<lambda>vs.
       Inr \<lparr>rt_types = map py_str ts, rt_ids = map py_str ids, rt_visibilities = map py_str vs\<rparr>)))))"

definition retain_to_dict :: "retain_spec \<Rightarrow> pyval" where
  "retain_to_dict r = VMap [(''event_types'', VList (map VStr (rt_types r))),
     (''event_ids'', VList (map VStr (rt_ids r))), (''visibilities'', VList (map VStr (rt_visibilities r)))]"

record abstraction_spec =
  as_name :: string
  as_source :: string
  as_target :: string
  as_retain :: retain_spec
  as_summaries :: "summary_rule list"
  as_default :: string
  as_retain_metadata :: "string list"
  as_metadata :: "(string \<times> pyval) list"
  as_version :: string

definition ABSTRACTION_SCHEMA_VERSION :: string where
  "ABSTRACTION_SCHEMA_VERSION = ''umcm.abstraction.v0.1''"

definition mk_abstraction :: "abstraction_spec \<Rightarrow> abstraction_spec res" where
  "mk_abstraction s =
     rbind (require (as_name s \<noteq> []) AbstractionError) (\<lambda>_.
     rbind (require (as_source s \<noteq> [] \<and> as_target s \<noteq> []) AbstractionError) (\<lambda>_.
     rbind (require (as_default s \<in> {''hide'', ''keep''}) AbstractionError) (\<lambda>_.
     rbind (require (distinct (map su_name (as_summaries s))) AbstractionError) (\<lambda>_. Inr s))))"

definition abstraction_from_dict :: "pyval \<Rightarrow> abstraction_spec res" where
  "abstraction_from_dict v = with_map v (\<lambda>d.
     rbind (known_keys d [''schema_version'', ''name'', ''source_level'', ''target_level'', ''default_action'',
       ''retain'', ''retain_metadata'', ''summaries'', ''metadata'']) (\<lambda>_.
     rbind (decode_value (get_default d ''metadata'' (VMap []))) (\<lambda>mv.
     rbind (list_field d ''summaries'' []) (\<lambda>raw.
     rbind (list_field d ''retain_metadata'' []) (\<lambda>keep.
     rbind (as_dict mv SerializationError) (\<lambda>metadata.
     rbind (get_key d ''name'' SerializationError) (\<lambda>n.
     rbind (get_key d ''source_level'' SerializationError) (\<lambda>sl.
     rbind (get_key d ''target_level'' SerializationError) (\<lambda>tl.
     rbind (retain_from_dict (get_default d ''retain'' (VMap []))) (\<lambda>retain.
     rbind (traverse summary_rule_from_dict raw) (\<lambda>rules.
       mk_abstraction \<lparr>as_name = py_str n, as_source = py_str sl, as_target = py_str tl, as_retain = retain,
         as_summaries = rules, as_default = str_default d ''default_action'' ''hide'',
         as_retain_metadata = map py_str keep, as_metadata = metadata,
         as_version = str_default d ''schema_version'' ABSTRACTION_SCHEMA_VERSION\<rparr>)))))))))))"

definition abstraction_to_dict :: "abstraction_spec \<Rightarrow> pyval" where
  "abstraction_to_dict s = VMap [(''schema_version'', VStr (as_version s)), (''name'', VStr (as_name s)),
     (''source_level'', VStr (as_source s)), (''target_level'', VStr (as_target s)),
     (''default_action'', VStr (as_default s)), (''retain'', retain_to_dict (as_retain s)),
     (''retain_metadata'', VList (map VStr (as_retain_metadata s))),
     (''summaries'', VList (map summary_rule_to_dict (as_summaries s))),
     (''metadata'', encode_value (VMap (as_metadata s)))]"

section \<open>Round trips\<close>

text \<open>
  A literal of a rule survives when it is no mapping and no expression: those print as mappings,
  which the parser takes for one of its own forms.
\<close>

definition printable_literal :: "pyval \<Rightarrow> bool" where
  "printable_literal v \<longleftrightarrow> encodable v \<and> (case v of VMap _ \<Rightarrow> False | VExpr _ \<Rightarrow> False | _ \<Rightarrow> True)"

definition printable_match :: "match_value \<Rightarrow> bool" where
  "printable_match m \<longleftrightarrow> (case m of MatchVar x \<Rightarrow> x \<noteq> [] | MatchLit v \<Rightarrow> printable_literal v)"

definition printable_output :: "output_value \<Rightarrow> bool" where
  "printable_output m \<longleftrightarrow>
     (case m of OutVar x \<Rightarrow> x \<noteq> [] | OutField x \<Rightarrow> x \<noteq> [] | OutLit v \<Rightarrow> printable_literal v)"

lemma dollar_name_Cons [simp]: "dollar_name (VStr (CHR ''$'' # x)) = Some x"
  by (simp add: dollar_name_def)

lemma dollar_name_None [simp]:
  "dollar_name (VMap d) = None" "dollar_name (VList vs) = None" "dollar_name (VExpr e) = None"
  "dollar_name (VInt i) = None" "dollar_name (VBool b) = None" "dollar_name VNone = None"
  by (simp_all add: dollar_name_def)

lemma dollar_name_encode: "dollar_name v = None \<Longrightarrow> dollar_name (encode_value v) = None"
  by (cases v) (simp_all add: dollar_name_def)

lemma dollar_name_Some: "dollar_name v = Some x \<Longrightarrow> v = VStr (CHR ''$'' # x)"
  by (auto simp: dollar_name_def split: pyval.splits scalar.splits list.splits if_splits)

text \<open>What \<open>from_data\<close> reads back from a literal, in both classes.\<close>

lemma literal_cases:
  assumes "printable_literal v"
  obtains (dollar) "literal_to_data v = VMap [(''literal'', v)]" "decode_value v = Inr v"
  | (plain) "literal_to_data v = encode_value v" "dollar_name (encode_value v) = None"
      "decode_value (encode_value v) = Inr v" "\<forall>d. encode_value v \<noteq> VMap d"
proof (cases "dollar_name v")
  case (Some x)
  then show thesis using dollar by (auto simp: literal_to_data_def dest!: dollar_name_Some)
next
  case None
  have "\<forall>d. encode_value v \<noteq> VMap d" using assms by (cases v) (auto simp: printable_literal_def)
  then show thesis using plain None assms
    by (simp add: literal_to_data_def printable_literal_def decode_encode dollar_name_encode)
qed

lemma not_map: "\<forall>d. v \<noteq> VMap d \<Longrightarrow> (case v of VMap d \<Rightarrow> f d | _ \<Rightarrow> x) = x"
  by (cases v) simp_all

lemma match_dec_enc: "printable_match m \<Longrightarrow> match_from_data (match_to_data m) = Inr m"
proof (cases m)
  case (MatchVar x)
  then show "printable_match m \<Longrightarrow> ?thesis"
    by (simp add: match_from_data_def match_to_data_def mk_match_def printable_match_def)
next
  case (MatchLit v)
  assume "printable_match m"
  then have "printable_literal v" by (simp add: printable_match_def MatchLit)
  then show ?thesis
    by (cases rule: literal_cases)
      (simp_all add: match_from_data_def match_to_data_def mk_match_def MatchLit not_map)
qed

lemma output_dec_enc: "printable_output m \<Longrightarrow> output_from_data (output_to_data m) = Inr m"
proof (cases m)
  case (OutLit v)
  assume "printable_output m"
  then have "printable_literal v" by (simp add: printable_output_def OutLit)
  then show ?thesis
    by (cases rule: literal_cases)
      (simp_all add: output_from_data_def output_to_data_def mk_output_def OutLit not_map)
qed (simp_all add: output_from_data_def output_to_data_def mk_output_def printable_output_def)

interpretation match_codec: encoder match_to_data match_from_data printable_match
  by unfold_locales (rule match_dec_enc)

interpretation output_codec: encoder output_to_data output_from_data printable_output
  by unfold_locales (rule output_dec_enc)

text \<open>The other literals do not survive.\<close>

lemma mapping_literal_lost:
  assumes "encodable v" and "\<not> printable_literal v"
  shows "match_from_data (match_to_data (MatchLit v)) \<noteq> Inr (MatchLit v)"
proof (cases v)
  case (VExpr e)
  then show ?thesis
    by (auto simp: match_from_data_def match_to_data_def literal_to_data_def expr_key_def)
next
  case (VMap kvs)
  have enc: "decode_value (encode_value w) = Inr w" if "map_of kvs ''literal'' = Some w" for w
    using assms(1) VMap map_of_SomeD [OF that] by (auto intro: decode_encode)
  have lookup: "map_of (map (\<lambda>(k, v). (k, encode_value v)) kvs) ''literal'' = map_option encode_value (map_of kvs ''literal'')"
    by (simp add: map_of_map)
  have small: "w \<noteq> VMap kvs" if "map_of kvs ''literal'' = Some w" for w
  proof -
    have "size_prod (\<lambda>_. 0) size = (\<lambda>x :: string \<times> pyval. Suc (size (snd x)))" by (auto simp: fun_eq_iff)
    then show ?thesis using size_map_of [OF that] by auto
  qed
  show ?thesis
  proof
    assume "match_from_data (match_to_data (MatchLit v)) = Inr (MatchLit v)"
    then obtain w where "map_of kvs ''literal'' = Some w" "decode_value (encode_value w) = Inr (VMap kvs)"
      by (auto simp: match_from_data_def match_to_data_def literal_to_data_def VMap rbind_Inr_iff get_key_Inr_iff
          lookup mk_match_def)
    then show False using enc small by force
  qed
qed (use assms in \<open>auto simp: printable_literal_def\<close>)

lemma match_roundtrip_iff:
  assumes "case m of MatchVar x \<Rightarrow> x \<noteq> [] | MatchLit v \<Rightarrow> encodable v"
  shows "match_from_data (match_to_data m) = Inr m \<longleftrightarrow> printable_match m"
  using assms mapping_literal_lost match_dec_enc
  by (cases m) (auto simp: printable_match_def)

section \<open>Round trips of rules and specifications\<close>

lemma fields_roundtrip:
  assumes "\<And>x. ok x \<Longrightarrow> dec (enc x) = Inr x" and "\<forall>(k, x) \<in> set kvs. ok x"
  shows "parse_fields dec (map (\<lambda>(k, x). (k, enc x)) kvs) = Inr kvs"
  using assms by (induction kvs) (auto simp: parse_fields_def)

definition printable_role :: "role_spec \<Rightarrow> bool" where
  "printable_role r \<longleftrightarrow> rs_name r \<noteq> [] \<and> rs_type r \<noteq> [] \<and> (\<forall>(k, m) \<in> set (rs_fields r). printable_match m)"

lemma role_spec_dec_enc: "printable_role r \<Longrightarrow> role_spec_from_dict (role_spec_to_dict r) = Inr r"
  by (cases r) (simp add: role_spec_from_dict_def role_spec_to_dict_def known_keys_ok map_field_def print_fields_def
      printable_role_def mk_role_spec_def fields_roundtrip [where ok = printable_match] match_dec_enc)

interpretation role_spec_codec: encoder role_spec_to_dict role_spec_from_dict printable_role
  by unfold_locales (rule role_spec_dec_enc)

definition printable_summary :: "summary_event \<Rightarrow> bool" where
  "printable_summary s \<longleftrightarrow> mk_summary_event s = Inr s \<and> (\<forall>(k, m) \<in> set (se_fields s). printable_output m) \<and>
     encodable (VMap (se_annotations s))"

lemma summary_event_dec_enc: "printable_summary s \<Longrightarrow> summary_event_from_dict (summary_event_to_dict s) = Inr s"
proof -
  assume ok: "printable_summary s"
  have rt: "decode_value (encode_value (VMap (se_annotations s))) = Inr (VMap (se_annotations s))"
    using ok by (simp only: decode_encode printable_summary_def)
  show ?thesis using ok rt
    by (cases s; cases "se_annotations s = []")
      (simp_all add: summary_event_from_dict_def summary_event_to_dict_def known_keys_ok map_field_def print_fields_def
        printable_summary_def str_default_def fields_roundtrip [where ok = printable_output] output_dec_enc
        del: encode_value.simps decode_value.simps(1))
qed

definition printable_rule :: "summary_rule \<Rightarrow> bool" where
  "printable_rule r \<longleftrightarrow> mk_summary_rule r = Inr r \<and> (\<forall>x \<in> set (su_roles r). printable_role x) \<and>
     printable_summary (su_output r)"

lemma summary_rule_dec_enc: "printable_rule r \<Longrightarrow> summary_rule_from_dict (summary_rule_to_dict r) = Inr r"
  by (cases r) (simp add: summary_rule_from_dict_def summary_rule_to_dict_def known_keys_ok list_field_def
      printable_rule_def role_spec_codec.traverse_enc summary_event_dec_enc)

interpretation summary_rule_codec: encoder summary_rule_to_dict summary_rule_from_dict printable_rule
  by unfold_locales (rule summary_rule_dec_enc)

lemma retain_dec_enc: "retain_from_dict (retain_to_dict r) = Inr r"
  by (simp add: retain_from_dict_def retain_to_dict_def known_keys_ok list_field_def)

definition printable_abstraction :: "abstraction_spec \<Rightarrow> bool" where
  "printable_abstraction s \<longleftrightarrow> mk_abstraction s = Inr s \<and> (\<forall>r \<in> set (as_summaries s). printable_rule r) \<and>
     encodable (VMap (as_metadata s))"

lemma abstraction_dec_enc: "printable_abstraction s \<Longrightarrow> abstraction_from_dict (abstraction_to_dict s) = Inr s"
proof -
  assume ok: "printable_abstraction s"
  have rt: "decode_value (encode_value (VMap (as_metadata s))) = Inr (VMap (as_metadata s))"
    using ok by (simp only: decode_encode printable_abstraction_def)
  show ?thesis using ok rt
    by (cases s) (simp add: abstraction_from_dict_def abstraction_to_dict_def known_keys_ok list_field_def
        printable_abstraction_def str_default_def summary_rule_codec.traverse_enc retain_dec_enc
        del: encode_value.simps decode_value.simps(1))
qed

interpretation abstraction_codec: encoder abstraction_to_dict abstraction_from_dict printable_abstraction
  by unfold_locales (rule abstraction_dec_enc)

end
