(* ===== verification/AbstractionRun.thy ===== *)
theory AbstractionRun
  imports AbstractionIR GraphChecker
begin

text \<open>
  \<open>src/src/umcm/hierarchy/engine.py\<close>: deterministic abstraction of a trace with a certificate, the
  refinement check that replays it, and the comparison of the memory-model results before and after.
  \<open>sha256\<close> (\<open>hashlib\<close>, on the UTF-8 bytes of a text) is a parameter. The generator of matches is
  modelled as the list of its results; it could only raise for events with symbolic cycles, which
  \<open>concrete_events\<close> has refused before (\<open>rule_matches_total\<close> in \<open>AbstractionFacts\<close>).
\<close>

section \<open>Canonical JSON\<close>

text \<open>\<open>json.dumps(value, sort_keys=True, separators=(",", ":"), ensure_ascii=False)\<close>.\<close>

definition json_char :: "char \<Rightarrow> string" where
  "json_char c =
     (let n = (of_char c :: nat); bs = CHR 0x5C in
      if n = 34 then [bs, CHR 0x22]
      else if n = 92 then [bs, bs]
      else if n = 10 then [bs, CHR ''n'']
      else if n = 13 then [bs, CHR ''r'']
      else if n = 9 then [bs, CHR ''t'']
      else if n = 12 then [bs, CHR ''f'']
      else if n = 8 then [bs, CHR ''b'']
      else if n < 32 then [bs, CHR ''u'', CHR ''0'', CHR ''0'', hex_digit (n div 16), hex_digit (n mod 16)]
      else [c])"

definition json_string :: "string \<Rightarrow> string" where
  "json_string s = [CHR 0x22] @ concat (map json_char s) @ [CHR 0x22]"

fun json_scalar :: "scalar \<Rightarrow> string" where
  "json_scalar SNone = ''null''"
| "json_scalar (SBool b) = (if b then ''true'' else ''false'')"
| "json_scalar (SInt i) = dec_int i"
| "json_scalar (SStr s) = json_string s"

fun json_text :: "pyval \<Rightarrow> string res" where
  "json_text (VScalar s) = Inr (json_scalar s)"
| "json_text (VList vs) = rbind (traverse json_text vs) (\<lambda>ts. Inr (''['' @ join '','' ts @ '']''))"
| "json_text (VMap kvs) =
     rbind (traverse (\<lambda>(k, v). rbind (json_text v) (\<lambda>t. Inr (k, t))) kvs) (\<lambda>kts.
       Inr (''{'' @ join '','' (map (\<lambda>(k, t). json_string k @ '':'' @ t) (sort_key fst kts)) @ ''}''))"
| "json_text (VExpr e) = Inl PyTypeError"

section \<open>Certificates and results\<close>

record summary_evidence =
  sm_rule :: string
  sm_output :: string
  sm_sources :: "string list"

definition evidence_to_dict :: "summary_evidence \<Rightarrow> pyval" where
  "evidence_to_dict s = VMap [(''rule'', VStr (sm_rule s)), (''output_event_id'', VStr (sm_output s)),
     (''source_event_ids'', VList (map VStr (sm_sources s)))]"

record abstraction_certificate =
  ct_abstraction :: string
  ct_source :: string
  ct_target :: string
  ct_digest :: string
  ct_source_count :: nat
  ct_output_count :: nat
  ct_retained :: "string list"
  ct_hidden :: "string list"
  ct_summaries :: "summary_evidence list"
  ct_preserved :: nat
  ct_dropped :: nat

definition certificate_to_dict :: "abstraction_certificate \<Rightarrow> pyval" where
  "certificate_to_dict c = VMap [(''abstraction'', VStr (ct_abstraction c)),
     (''source_level'', VStr (ct_source c)), (''target_level'', VStr (ct_target c)),
     (''source_trace_sha256'', VStr (ct_digest c)),
     (''source_event_count'', VInt (int (ct_source_count c))),
     (''output_event_count'', VInt (int (ct_output_count c))),
     (''retained_event_ids'', VList (map VStr (ct_retained c))),
     (''hidden_event_ids'', VList (map VStr (ct_hidden c))),
     (''summaries'', VList (map evidence_to_dict (ct_summaries c))),
     (''preserved_constraint_count'', VInt (int (ct_preserved c))),
     (''dropped_constraint_count'', VInt (int (ct_dropped c)))]"

definition trace_digest :: "(string \<Rightarrow> string) \<Rightarrow> trace \<Rightarrow> string res" where
  "trace_digest sha256 t = rbind (json_text (trace_to_dict t)) (\<lambda>s. Inr (sha256 s))"

section \<open>Events of the source\<close>

definition copy_event :: "event_instance \<Rightarrow> event_instance res" where
  "copy_event e = event_from_dict (event_to_dict e)"

text \<open>\<open>hasattr(value, "sort")\<close>: expressions have the attribute, and so do Python lists.\<close>

definition has_sort :: "pyval \<Rightarrow> bool" where
  "has_sort v = (case v of VExpr _ \<Rightarrow> True | VList _ \<Rightarrow> True | _ \<Rightarrow> False)"

definition concrete_events :: "trace \<Rightarrow> event_instance list res" where
  "concrete_events t =
     rbind (traverse (\<lambda>e.
       if ei_occurs e \<noteq> VBool True then Inr []
       else
         rbind (require (ei_cycle e = VNone \<or> as_int (ei_cycle e) \<noteq> None) AbstractionError) (\<lambda>_.
         rbind (require (\<not> list_ex (\<lambda>(_, v). has_sort v) (ei_fields e)) AbstractionError) (\<lambda>_.
           Inr [e]))) (tr_events t)) (\<lambda>ess. Inr (concat ess))"

definition event_key :: "event_instance \<Rightarrow> nat \<times> int \<times> string" where
  "event_key e = (case as_int (ei_cycle e) of None \<Rightarrow> (0, - 1, ei_id e) | Some i \<Rightarrow> (1, i, ei_id e))"

definition events_by_type :: "event_instance list \<Rightarrow> string \<Rightarrow> event_instance list" where
  "events_by_type es t = sort_key event_key (filter (\<lambda>e. ei_type e = t) es)"

section \<open>Matching a rule\<close>

type_synonym bindings = "(string \<times> pyval) list"
type_synonym selection = "(string \<times> event_instance) list"

fun match_fields :: "(string \<times> match_value) list \<Rightarrow> event_instance \<Rightarrow> bindings \<Rightarrow> bindings option" where
  "match_fields [] e b = Some b"
| "match_fields ((f, m) # fs) e b =
     (case map_of (ei_fields e) f of
        None \<Rightarrow> None
      | Some v \<Rightarrow>
          (case m of
             MatchVar x \<Rightarrow>
               (case map_of b x of
                  Some w \<Rightarrow> if py_eq w v then match_fields fs e (AList.update x v b) else None
                | None \<Rightarrow> match_fields fs e (AList.update x v b))
           | MatchLit w \<Rightarrow> if py_eq v w then match_fields fs e b else None))"

definition match_role :: "role_spec \<Rightarrow> event_instance \<Rightarrow> bindings \<Rightarrow> bindings option" where
  "match_role r e b = (if ei_type e \<noteq> rs_type r then None else match_fields (rs_fields r) e b)"

definition cycles_ordered :: "bool \<Rightarrow> event_instance \<Rightarrow> event_instance \<Rightarrow> bool res" where
  "cycles_ordered strict p c =
     (if ei_cycle p = VNone \<or> ei_cycle c = VNone then Inr True
      else case (as_int (ei_cycle p), as_int (ei_cycle c)) of
        (Some i, Some j) \<Rightarrow> Inr (if strict then i < j else i \<le> j)
      | _ \<Rightarrow> Inl AbstractionError)"

fun rule_matches :: "(string \<Rightarrow> event_instance list) \<Rightarrow> summary_rule \<Rightarrow> role_spec list \<Rightarrow> selection \<Rightarrow> bindings \<Rightarrow>
    (selection \<times> bindings) list res" where
  "rule_matches by_type rule [] sel b = Inr [(sel, b)]"
| "rule_matches by_type rule (r # rs) sel b =
     rbind (traverse (\<lambda>e.
       if su_distinct rule \<and> ei_id e \<in> ei_id ` snd ` set sel then Inr []
       else
         rbind (if su_ordered rule \<and> sel \<noteq> [] then cycles_ordered (su_strict rule) (snd (last sel)) e
                else Inr True) (\<lambda>ok.
           if \<not> ok then Inr []
           else (case match_role r e b of
               None \<Rightarrow> Inr []
             | Some b' \<Rightarrow> rule_matches by_type rule rs (sel @ [(rs_name r, e)]) b')))
       (by_type (rs_type r))) (\<lambda>xss. Inr (concat xss))"

section \<open>Summary events\<close>

definition resolve_output :: "output_value \<Rightarrow> bindings \<Rightarrow> selection \<Rightarrow> pyval res" where
  "resolve_output m b sel = (case m of
       OutLit v \<Rightarrow> Inr v
     | OutVar x \<Rightarrow> or_raise (map_of b x) AbstractionError
     | OutField ref \<Rightarrow>
         let role = takeWhile (\<lambda>c. c \<noteq> CHR ''.'') ref; rest = dropWhile (\<lambda>c. c \<noteq> CHR ''.'') ref in
         rbind (require (rest \<noteq> []) AbstractionError) (\<lambda>_.
         rbind (or_raise (map_of sel role) AbstractionError) (\<lambda>e.
           if tl rest = ''cycle'' then Inr (ei_cycle e)
           else if tl rest = ''id'' then Inr (VStr (ei_id e))
           else or_raise (map_of (ei_fields e) (tl rest)) AbstractionError)))"

definition int_cycle :: "event_instance \<Rightarrow> pyval" where
  "int_cycle e = (if as_int (ei_cycle e) = None then VNone else ei_cycle e)"

definition summary_cycle :: "string \<Rightarrow> selection \<Rightarrow> pyval res" where
  "summary_cycle from sel =
     (let cycles = concat (map (\<lambda>(_, e). case as_int (ei_cycle e) of None \<Rightarrow> [] | Some i \<Rightarrow> [i]) sel) in
      if from = ''none'' then Inr VNone
      else if from = ''first'' then Inr (if cycles = [] then VNone else VInt (Min (set cycles)))
      else if from = ''last'' then Inr (if cycles = [] then VNone else VInt (Max (set cycles)))
      else rbind (or_raise (map_of sel from) AbstractionError) (\<lambda>e. Inr (int_cycle e)))"

text \<open>
  \<open>template.format(**values)\<close> for replacement fields that are plain names. Attribute, index,
  conversion and format forms, nested fields and positional fields are outside the model.
\<close>

definition plain_name :: "string \<Rightarrow> bool" where
  "plain_name s \<longleftrightarrow> s \<noteq> [] \<and> \<not> list_all is_digit s \<and> set s \<inter> set ''.[!:{'' = {}"

lemma length_dropWhile_Suc [termination_simp]: "length (tl (dropWhile P xs)) < Suc (length xs)"
  using length_dropWhile_le [of P xs] by simp

function format_template :: "(string \<times> string) list \<Rightarrow> string \<Rightarrow> string res" where
  "format_template vs cs =
     (case cs of
        [] \<Rightarrow> Inr []
      | c # rest \<Rightarrow>
          if c = CHR ''{'' then
            (if rest = [] then Inl PyValueError
             else if hd rest = CHR ''{'' then rbind (format_template vs (tl rest)) (\<lambda>t. Inr (c # t))
             else
               let name = takeWhile (\<lambda>x. x \<noteq> CHR ''}'') rest; after = dropWhile (\<lambda>x. x \<noteq> CHR ''}'') rest in
               if \<not> plain_name name then Inl Unmodelled
               else if after = [] then Inl PyValueError
               else rbind (or_raise (map_of vs name) PyKeyError) (\<lambda>v.
                 rbind (format_template vs (tl after)) (\<lambda>t. Inr (v @ t))))
          else if c = CHR ''}'' then
            (if rest \<noteq> [] \<and> hd rest = CHR ''}'' then rbind (format_template vs (tl rest)) (\<lambda>t. Inr (c # t))
             else Inl PyValueError)
          else rbind (format_template vs rest) (\<lambda>t. Inr (c # t)))"
  by pat_completeness auto
termination
proof (relation "measure (\<lambda>(vs, cs). length cs)", goal_cases)
  case (3 vs cs c rest name after v)
  then show ?case using length_dropWhile_Suc [of "\<lambda>x. x \<noteq> CHR ''}''" rest] by simp
qed (auto split: list.splits)

declare format_template.simps [simp del]

definition render_id :: "string \<Rightarrow> bindings \<Rightarrow> string \<Rightarrow> string res" where
  "render_id template b rule =
     (case format_template (AList.update ''rule'' rule (map (\<lambda>(k, v). (k, py_str v)) b)) template of
        Inl e \<Rightarrow> Inl (if e = PyKeyError then AbstractionError else e)
      | Inr s \<Rightarrow> rbind (require (s \<noteq> []) AbstractionError) (\<lambda>_. Inr s))"

section \<open>Applying the rules\<close>

record abs_state =
  ab_generated :: "event_instance list"
  ab_evidence :: "summary_evidence list"
  ab_hide :: "string list"
  ab_ids :: "string list"

definition source_ids :: "selection \<Rightarrow> string list" where
  "source_ids sel = map (\<lambda>(_, e). ei_id e) sel"

definition abstraction_note :: "abstraction_spec \<Rightarrow> summary_rule \<Rightarrow> selection \<Rightarrow> pyval" where
  "abstraction_note spec rule sel = VMap [(''spec'', VStr (as_name spec)), (''rule'', VStr (su_name rule)),
     (''source_event_ids'', VList (map VStr (source_ids sel))),
     (''source_event_types'', VList (map (\<lambda>(_, e). VStr (ei_type e)) sel))]"

definition resolve_outputs :: "summary_event \<Rightarrow> bindings \<Rightarrow> selection \<Rightarrow> (string \<times> pyval) list res" where
  "resolve_outputs out b sel = traverse (\<lambda>(k, m). rbind (resolve_output m b sel) (\<lambda>v. Inr (k, v))) (se_fields out)"

definition summary_of :: "abstraction_spec \<Rightarrow> summary_rule \<Rightarrow> string \<Rightarrow> selection \<Rightarrow> bindings \<Rightarrow> event_instance res" where
  "summary_of spec rule i sel b =
     (let out = su_output rule in
      rbind (resolve_outputs out b sel) (\<lambda>fds.
      rbind (summary_cycle (se_cycle_from out) sel) (\<lambda>cyc.
        mk_event_instance \<lparr>ei_id = i, ei_type = se_type out, ei_fields = fds, ei_cycle = cyc,
          ei_occurs = VBool True,
          ei_annotations = AList.update ''abstraction'' (abstraction_note spec rule sel) (se_annotations out)\<rparr>)))"

text \<open>
  One match: the first component counts the distinct matches of the rule so far, the second lists
  their sources.
\<close>

definition apply_match :: "event_catalog \<Rightarrow> abstraction_spec \<Rightarrow> summary_rule \<Rightarrow>
    int \<times> string list list \<times> abs_state \<Rightarrow> selection \<times> bindings \<Rightarrow> (int \<times> string list list \<times> abs_state) res" where
  "apply_match c spec rule acc found =
     (case (acc, found) of ((count, seen, st), (sel, b)) \<Rightarrow>
        if source_ids sel \<in> set seen then Inr acc
        else
          rbind (require (\<not> count + 1 > su_max rule) AbstractionError) (\<lambda>_.
          rbind (render_id (se_template (su_output rule)) b (su_name rule)) (\<lambda>i.
          rbind (require (i \<notin> set (ab_ids st)) AbstractionError) (\<lambda>_.
          rbind (summary_of spec rule i sel b) (\<lambda>summary.
          rbind (resolve c (ei_type summary)) (\<lambda>t.
          rbind (validate_against t False summary) (\<lambda>_.
            Inr (count + 1, seen @ [source_ids sel],
              \<lparr>ab_generated = ab_generated st @ [summary],
                ab_evidence = ab_evidence st @ [\<lparr>sm_rule = su_name rule, sm_output = i, sm_sources = source_ids sel\<rparr>],
                ab_hide = ab_hide st @ (if su_hide rule then source_ids sel else []),
                ab_ids = ab_ids st @ [i]\<rparr>))))))))"

definition apply_rule :: "event_catalog \<Rightarrow> abstraction_spec \<Rightarrow> event_instance list \<Rightarrow> abs_state \<Rightarrow> summary_rule \<Rightarrow> abs_state res" where
  "apply_rule c spec events st rule =
     rbind (rule_matches (events_by_type events) rule (su_roles rule) [] []) (\<lambda>found.
     rbind (fold_res (apply_match c spec rule) (0, [], st) found) (\<lambda>(count, seen, st').
     rbind (require (\<not> count < su_min rule) AbstractionError) (\<lambda>_. Inr st')))"

section \<open>Retained events\<close>

definition retained_event :: "event_catalog \<Rightarrow> abstraction_spec \<Rightarrow> string list \<Rightarrow> event_instance \<Rightarrow> bool res" where
  "retained_event c spec hide e =
     rbind (resolve c (ei_type e)) (\<lambda>t.
       let explicit = ei_id e \<in> set (rt_ids (as_retain spec)) \<or> ei_type e \<in> set (rt_types (as_retain spec)) \<or>
             visibility_value (et_visibility t) \<in> set (rt_visibilities (as_retain spec)) in
       Inr ((as_default spec = ''keep'' \<or> explicit) \<and> \<not> (ei_id e \<in> set hide \<and> \<not> explicit)))"

definition retain_events :: "event_catalog \<Rightarrow> abstraction_spec \<Rightarrow> abs_state \<Rightarrow> event_instance list \<Rightarrow>
    (event_instance list \<times> string list) res" where
  "retain_events c spec st events =
     fold_res (\<lambda>(kept, ids) e.
       rbind (retained_event c spec (ab_hide st) e) (\<lambda>keep.
         if \<not> keep then Inr (kept, ids)
         else
           rbind (require (ei_id e \<notin> set ids) AbstractionError) (\<lambda>_.
           rbind (copy_event e) (\<lambda>e'. Inr (kept @ [e'], ids @ [ei_id e]))))) ([], ab_ids st) events"

section \<open>The abstraction\<close>

record abstraction_result =
  ab_trace :: trace
  ab_certificate :: abstraction_certificate

definition references_within :: "string list \<Rightarrow> expr \<Rightarrow> bool" where
  "references_within ids e \<longleftrightarrow> (\<forall>r \<in> set (iter_event_fields e). fst r \<in> set ids)"

definition abstract_trace :: "(string \<Rightarrow> string) \<Rightarrow> trace \<Rightarrow> event_catalog \<Rightarrow> abstraction_spec \<Rightarrow> abstraction_result res" where
  "abstract_trace sha256 t c spec =
     rbind (validate_trace c (Some False) t) (\<lambda>_.
     rbind (concrete_events t) (\<lambda>events.
     rbind (fold_res (apply_rule c spec events) \<lparr>ab_generated = [], ab_evidence = [], ab_hide = [], ab_ids = []\<rparr>
              (as_summaries spec)) (\<lambda>st.
     rbind (retain_events c spec st events) (\<lambda>(kept, _).
     let output = sort_key event_key (kept @ ab_generated st);
         ids = map ei_id output;
         preserved = filter (references_within ids) (tr_constraints t);
         kept_ids = map ei_id kept;
         metadata = dict_of (concat (map (\<lambda>k. case map_of (tr_metadata t) k of None \<Rightarrow> [] | Some v \<Rightarrow> [(k, v)])
           (as_retain_metadata spec))) in
     rbind (trace_digest sha256 t) (\<lambda>digest.
     let certificate = \<lparr>ct_abstraction = as_name spec, ct_source = as_source spec, ct_target = as_target spec,
           ct_digest = digest, ct_source_count = length events, ct_output_count = length output,
           ct_retained = sort kept_ids,
           ct_hidden = sort (map ei_id (filter (\<lambda>e. ei_id e \<notin> set kept_ids) events)),
           ct_summaries = sort_key sm_output (ab_evidence st),
           ct_preserved = length preserved, ct_dropped = length (tr_constraints t) - length preserved\<rparr> in
     rbind (mk_trace \<lparr>tr_events = output, tr_constraints = preserved, tr_partial = False,
         tr_metadata = AList.update ''abstraction_model'' (VMap (as_metadata spec))
           (AList.update ''abstraction'' (certificate_to_dict certificate) metadata),
         tr_version = TRACE_SCHEMA_VERSION\<rparr>) (\<lambda>result.
     rbind (validate_trace c (Some False) result) (\<lambda>_.
       Inr \<lparr>ab_trace = result, ab_certificate = certificate\<rparr>)))))))"

section \<open>Refinement\<close>

datatype refinement_reason = EventsDiffer | ConstraintsDiffer | CertificateDiffers | Refined

record refinement_check =
  rf_valid :: bool
  rf_reason :: refinement_reason
  rf_missing :: "string list"
  rf_extra :: "string list"
  rf_changed :: "string list"

definition event_payloads :: "trace \<Rightarrow> (string \<times> pyval) list" where
  "event_payloads t = dict_of (map (\<lambda>e. (ei_id e, event_to_dict e)) (tr_events t))"

definition same_payload :: "pyval option \<Rightarrow> pyval option \<Rightarrow> bool" where
  "same_payload a b = (case (a, b) of (Some x, Some y) \<Rightarrow> py_eq x y | (None, None) \<Rightarrow> True | _ \<Rightarrow> False)"

definition check_refinement :: "(string \<Rightarrow> string) \<Rightarrow> trace \<Rightarrow> trace \<Rightarrow> event_catalog \<Rightarrow> abstraction_spec \<Rightarrow>
    refinement_check res" where
  "check_refinement sha256 concrete_t abstracted c spec =
     rbind (validate_trace c (Some False) abstracted) (\<lambda>_.
     rbind (abstract_trace sha256 concrete_t c spec) (\<lambda>r.
       let expected = event_payloads (ab_trace r); actual = event_payloads abstracted;
           missing = sort (filter (\<lambda>i. map_of actual i = None) (map fst expected));
           extra = sort (filter (\<lambda>i. map_of expected i = None) (map fst actual));
           changed = sort (filter (\<lambda>i. map_of actual i \<noteq> None \<and> \<not> same_payload (map_of expected i) (map_of actual i))
             (map fst expected)) in
       if missing \<noteq> [] \<or> extra \<noteq> [] \<or> changed \<noteq> [] then
         Inr \<lparr>rf_valid = False, rf_reason = EventsDiffer, rf_missing = missing, rf_extra = extra, rf_changed = changed\<rparr>
       else if map canon_expr (tr_constraints (ab_trace r)) \<noteq> map canon_expr (tr_constraints abstracted) then
         Inr \<lparr>rf_valid = False, rf_reason = ConstraintsDiffer, rf_missing = [], rf_extra = [], rf_changed = []\<rparr>
       else if \<not> py_eq (get_default (tr_metadata (ab_trace r)) ''abstraction'' VNone)
           (get_default (tr_metadata abstracted) ''abstraction'' VNone) then
         Inr \<lparr>rf_valid = False, rf_reason = CertificateDiffers, rf_missing = [], rf_extra = [], rf_changed = []\<rparr>
       else
         Inr \<lparr>rf_valid = True, rf_reason = Refined, rf_missing = [], rf_extra = [], rf_changed = []\<rparr>))"

section \<open>Preservation of the memory-model result\<close>

datatype preservation_reason = StatusChanged | CandidatesChanged | Preserved

record preservation_check =
  pv_preserved :: bool
  pv_concrete :: memory_model_check
  pv_abstract :: memory_model_check
  pv_concrete_signatures :: "string list"
  pv_abstract_signatures :: "string list"
  pv_reason :: preservation_reason

definition optional_number :: "int option \<Rightarrow> pyval" where
  "optional_number n = (case n of None \<Rightarrow> VNone | Some i \<Rightarrow> VInt i)"

definition graph_signature :: "exec_graph \<Rightarrow> string res" where
  "graph_signature g = json_text (VMap
     [(''operations'', VList (map (\<lambda>m. VMap [(''id'', VStr (mo_id m)), (''kind'', VStr (kind_value (mo_kind m))),
        (''address'', mo_address m), (''value'', mo_value m),
        (''hart'', optional_number (mo_hart m)), (''program_index'', optional_number (mo_index m))])
        (sort_key mo_id (map snd (eg_operations g))))),
      (''relations'', VMap (map (\<lambda>(n, r). (n, VList (map (\<lambda>(a, b). VList [VStr a, VStr b]) (sorted_edges r))))
        (sort_key fst (eg_relations g))))])"

definition check_signatures :: "memory_model_check \<Rightarrow> string list res" where
  "check_signatures m =
     rbind (traverse (\<lambda>x. graph_signature (cc_graph x)) (mc_candidates m)) (\<lambda>xs. Inr (sort (remdups xs)))"

definition check_memory_model_preservation :: "trace \<Rightarrow> trace \<Rightarrow> graph_model \<Rightarrow> int \<Rightarrow> preservation_check res" where
  "check_memory_model_preservation concrete_t abstracted m limit =
     rbind (check_trace_memory_model concrete_t m limit) (\<lambda>con.
     rbind (check_trace_memory_model abstracted m limit) (\<lambda>abs.
     rbind (check_signatures con) (\<lambda>cs.
     rbind (check_signatures abs) (\<lambda>as.
       let (ok, reason) = (if mc_status con \<noteq> mc_status abs then (False, StatusChanged)
         else if cs \<noteq> as then (False, CandidatesChanged) else (True, Preserved)) in
       Inr \<lparr>pv_preserved = ok, pv_concrete = con, pv_abstract = abs, pv_concrete_signatures = cs,
         pv_abstract_signatures = as, pv_reason = reason\<rparr>))))"

end
