(* ===== verification/AbstractionFacts.thy ===== *)
theory AbstractionFacts
  imports AbstractionRun
begin

text \<open>
  What an abstraction means: a selection matches a rule when some assignment of the variables
  unifies every pattern, whatever the order in which the code binds them; every event of an
  abstracted trace is a copy of a source event or a summary of a matching selection; and the
  refinement check accepts exactly the traces that agree with the abstraction.
\<close>

section \<open>Unification\<close>

definition field_satisfied :: "(string \<Rightarrow> pyval option) \<Rightarrow> event_instance \<Rightarrow> string \<times> match_value \<Rightarrow> bool" where
  "field_satisfied s e fm \<longleftrightarrow> (case fm of (f, m) \<Rightarrow>
     \<exists>v. map_of (ei_fields e) f = Some v \<and>
       (case m of MatchVar x \<Rightarrow> \<exists>w. s x = Some w \<and> py_eq w v | MatchLit w \<Rightarrow> py_eq v w))"

definition role_satisfied :: "(string \<Rightarrow> pyval option) \<Rightarrow> role_spec \<Rightarrow> event_instance \<Rightarrow> bool" where
  "role_satisfied s r e \<longleftrightarrow> ei_type e = rs_type r \<and> (\<forall>fm \<in> set (rs_fields r). field_satisfied s e fm)"

text \<open>The assignment gives every bound variable an equal value.\<close>

definition agrees_with :: "(string \<Rightarrow> pyval option) \<Rightarrow> bindings \<Rightarrow> bool" where
  "agrees_with s b \<longleftrightarrow> (\<forall>x w. map_of b x = Some w \<longrightarrow> (\<exists>w'. s x = Some w' \<and> py_eq w' w))"

lemma agrees_Nil [simp]: "agrees_with s []"
  by (simp add: agrees_with_def)

lemma agrees_refl [simp]: "agrees_with (map_of b) b"
  by (simp add: agrees_with_def)

lemma all_entries_split:
  "(\<forall>y w. m y = Some w \<longrightarrow> P y w) \<longleftrightarrow> (\<forall>w. m x = Some w \<longrightarrow> P x w) \<and> (\<forall>y w. y \<noteq> x \<and> m y = Some w \<longrightarrow> P y w)"
  (is "?L \<longleftrightarrow> ?X \<and> ?O")
proof
  assume split: "?X \<and> ?O"
  show ?L
  proof (intro allI impI)
    fix y w assume "m y = Some w" then show "P y w" using split by (cases "y = x") blast+
  qed
qed blast

lemma agrees_split:
  "agrees_with s b \<longleftrightarrow> (\<forall>w. map_of b x = Some w \<longrightarrow> (\<exists>w'. s x = Some w' \<and> py_eq w' w)) \<and>
     (\<forall>y w. y \<noteq> x \<and> map_of b y = Some w \<longrightarrow> (\<exists>w'. s y = Some w' \<and> py_eq w' w))"
  unfolding agrees_with_def by (rule all_entries_split)

lemma agrees_update:
  "agrees_with s (AList.update x v b) \<longleftrightarrow> (\<exists>w. s x = Some w \<and> py_eq w v) \<and>
     (\<forall>y w. y \<noteq> x \<and> map_of b y = Some w \<longrightarrow> (\<exists>w'. s y = Some w' \<and> py_eq w' w))"
  unfolding agrees_split [of s _ x] update_conv' by (simp cong: conj_cong)

lemma agrees_bind:
  "agrees_with s b \<and> (\<exists>w. s x = Some w \<and> py_eq w v) \<longleftrightarrow>
   (map_of b x = None \<or> (\<exists>w. map_of b x = Some w \<and> py_eq w v)) \<and> agrees_with s (AList.update x v b)"
proof (cases "map_of b x")
  case None
  show ?thesis unfolding agrees_update agrees_split [of s b x] by (simp add: None conj_commute)
next
  case (Some a)
  have "(\<exists>w'. s x = Some w' \<and> py_eq w' a) \<and> (\<exists>w. s x = Some w \<and> py_eq w v) \<longleftrightarrow>
      py_eq a v \<and> (\<exists>w. s x = Some w \<and> py_eq w v)"
    by (cases "s x") (auto simp: py_eq_def)
  then show ?thesis unfolding agrees_update agrees_split [of s b x] by (simp add: Some) blast
qed

text \<open>The code's bindings are the least ones: an assignment satisfies the fields iff it agrees with them.\<close>

lemma match_fields_unify:
  "agrees_with s b \<and> (\<forall>fm \<in> set fs. field_satisfied s e fm) \<longleftrightarrow>
   (\<exists>b'. match_fields fs e b = Some b' \<and> agrees_with s b')"
proof (induction fs arbitrary: b)
  case Nil
  show ?case by simp
next
  case (Cons fm fs)
  obtain f m where fm: "fm = (f, m)" by (cases fm)
  show ?case
  proof (cases "map_of (ei_fields e) f")
    case None
    then show ?thesis by (simp add: fm field_satisfied_def)
  next
    case (Some v)
    show ?thesis
    proof (cases m)
      case (MatchLit w)
      then show ?thesis using Cons.IH [of b] Some by (auto simp: fm field_satisfied_def)
    next
      case (MatchVar x)
      show ?thesis
        using agrees_bind [of s b x v] Cons.IH [of "AList.update x v b"]
        by (cases "map_of b x") (auto simp: fm field_satisfied_def Some MatchVar)
    qed
  qed
qed

lemma match_role_unify:
  "agrees_with s b \<and> role_satisfied s r e \<longleftrightarrow> (\<exists>b'. match_role r e b = Some b' \<and> agrees_with s b')"
  using match_fields_unify [of s b "rs_fields r" e] by (auto simp: match_role_def role_satisfied_def)

section \<open>Matches of a rule\<close>

definition known_cycle :: "event_instance \<Rightarrow> bool" where
  "known_cycle e \<longleftrightarrow> ei_cycle e = VNone \<or> as_int (ei_cycle e) \<noteq> None"

definition in_order :: "bool \<Rightarrow> event_instance \<Rightarrow> event_instance \<Rightarrow> bool" where
  "in_order strict p c \<longleftrightarrow> (\<forall>i j. as_int (ei_cycle p) = Some i \<and> as_int (ei_cycle c) = Some j \<longrightarrow>
     (if strict then i < j else i \<le> j))"

lemma cycles_ordered_known: "known_cycle p \<Longrightarrow> known_cycle c \<Longrightarrow> cycles_ordered strict p c = Inr (in_order strict p c)"
  by (auto simp: cycles_ordered_def in_order_def known_cycle_def)

text \<open>The conditions a further event must meet, given the events chosen so far.\<close>

definition may_follow :: "summary_rule \<Rightarrow> selection \<Rightarrow> event_instance \<Rightarrow> bool" where
  "may_follow rule sel e \<longleftrightarrow> (su_distinct rule \<longrightarrow> ei_id e \<notin> ei_id ` snd ` set sel) \<and>
     (su_ordered rule \<and> sel \<noteq> [] \<longrightarrow> in_order (su_strict rule) (snd (last sel)) e)"

fun selects :: "(string \<Rightarrow> event_instance list) \<Rightarrow> summary_rule \<Rightarrow> role_spec list \<Rightarrow> selection \<Rightarrow> selection \<Rightarrow> bool" where
  "selects by_type rule [] sel rest \<longleftrightarrow> rest = []"
| "selects by_type rule (r # rs) sel rest \<longleftrightarrow> (\<exists>e rest'. rest = (rs_name r, e) # rest' \<and>
     e \<in> set (by_type (rs_type r)) \<and> may_follow rule sel e \<and> selects by_type rule rs (sel @ [(rs_name r, e)]) rest')"

definition unifies :: "(string \<Rightarrow> pyval option) \<Rightarrow> role_spec list \<Rightarrow> selection \<Rightarrow> bool" where
  "unifies s roles sel \<longleftrightarrow> list_all2 (\<lambda>r p. role_satisfied s r (snd p)) roles sel"

lemma rule_matches_step:
  assumes "\<forall>t. \<forall>e \<in> set (by_type t). known_cycle e" and "\<forall>p \<in> set sel. known_cycle (snd p)"
  shows "rule_matches by_type rule (r # rs) sel b =
     rbind (traverse (\<lambda>e. if may_follow rule sel e then
         (case match_role r e b of None \<Rightarrow> Inr []
          | Some b' \<Rightarrow> rule_matches by_type rule rs (sel @ [(rs_name r, e)]) b') else Inr [])
       (by_type (rs_type r))) (\<lambda>xss. Inr (concat xss))"
proof -
  have "cycles_ordered (su_strict rule) (snd (last sel)) e = Inr (in_order (su_strict rule) (snd (last sel)) e)"
    if "sel \<noteq> []" "e \<in> set (by_type t)" for e t
    using that assms by (auto intro: cycles_ordered_known)
  then show ?thesis unfolding rule_matches.simps
    by (intro arg_cong2 [where f = rbind] traverse_cong refl)
      (auto simp: may_follow_def split: if_splits)
qed

lemma rule_matches_total:
  assumes "\<forall>t. \<forall>e \<in> set (by_type t). known_cycle e" and "\<forall>p \<in> set sel. known_cycle (snd p)"
  shows "\<exists>found. rule_matches by_type rule roles sel b = Inr found"
  using assms(2)
proof (induction roles arbitrary: sel b)
  case (Cons r rs)
  have "\<exists>xs. (if may_follow rule sel e then (case match_role r e b of None \<Rightarrow> Inr []
      | Some b' \<Rightarrow> rule_matches by_type rule rs (sel @ [(rs_name r, e)]) b') else Inr []) = Inr xs"
    if "e \<in> set (by_type (rs_type r))" for e
    using Cons.IH [of "sel @ [(rs_name r, e)]"] Cons.prems assms(1) that by (auto split: option.split)
  then have "\<exists>xss. traverse (\<lambda>e. if may_follow rule sel e then (case match_role r e b of None \<Rightarrow> Inr []
      | Some b' \<Rightarrow> rule_matches by_type rule rs (sel @ [(rs_name r, e)]) b') else Inr []) (by_type (rs_type r)) = Inr xss"
    unfolding traverse_ok_iff by blast
  then show ?case unfolding rule_matches_step [OF assms(1) Cons.prems] by auto
qed simp

lemma rule_matches_mem:
  assumes "\<forall>t. \<forall>e \<in> set (by_type t). known_cycle e" and "\<forall>p \<in> set sel. known_cycle (snd p)"
    and "rule_matches by_type rule roles sel b = Inr found"
  shows "(\<exists>b'. (sel', b') \<in> set found \<and> agrees_with s b') \<longleftrightarrow>
    agrees_with s b \<and> (\<exists>rest. sel' = sel @ rest \<and> selects by_type rule roles sel rest \<and> unifies s roles rest)"
  using assms(2,3)
proof (induction roles arbitrary: sel b found)
  case Nil
  then show ?case by (auto simp: unifies_def)
next
  case (Cons r rs)
  let ?f = "\<lambda>e. if may_follow rule sel e then (case match_role r e b of None \<Rightarrow> Inr []
      | Some b' \<Rightarrow> rule_matches by_type rule rs (sel @ [(rs_name r, e)]) b') else Inr []"
  obtain xss where xss: "traverse ?f (by_type (rs_type r)) = Inr xss" and found: "found = concat xss"
    using Cons.prems(2) unfolding rule_matches_step [OF assms(1) Cons.prems(1)] by (auto simp: rbind_Inr_iff)
  have mem: "(sel', b') \<in> set found \<longleftrightarrow>
      (\<exists>e \<in> set (by_type (rs_type r)). \<exists>xs. ?f e = Inr xs \<and> (sel', b') \<in> set xs)" for b'
  proof
    assume "(sel', b') \<in> set found"
    then obtain xs where "xs \<in> set xss" "(sel', b') \<in> set xs" using found by auto
    then show "\<exists>e \<in> set (by_type (rs_type r)). \<exists>xs. ?f e = Inr xs \<and> (sel', b') \<in> set xs"
      using traverse_Inr_imageD [OF xss] by blast
  next
    assume "\<exists>e \<in> set (by_type (rs_type r)). \<exists>xs. ?f e = Inr xs \<and> (sel', b') \<in> set xs"
    then obtain e xs where e: "e \<in> set (by_type (rs_type r))" "?f e = Inr xs" "(sel', b') \<in> set xs" by blast
    from traverse_Inr_memD [OF xss e(1)] e(2) have "xs \<in> set xss" by auto
    then show "(sel', b') \<in> set found" using e(3) found by auto
  qed
  have one: "(\<exists>b'. (\<exists>xs. ?f e = Inr xs \<and> (sel', b') \<in> set xs) \<and> agrees_with s b') \<longleftrightarrow>
      may_follow rule sel e \<and> agrees_with s b \<and> role_satisfied s r e \<and>
      (\<exists>rest. sel' = (sel @ [(rs_name r, e)]) @ rest \<and> selects by_type rule rs (sel @ [(rs_name r, e)]) rest \<and> unifies s rs rest)"
    if e: "e \<in> set (by_type (rs_type r))" for e
  proof (cases "may_follow rule sel e")
    case follows: True
    show ?thesis
    proof (cases "match_role r e b")
      case None
      then show ?thesis using follows match_role_unify [of s b r e] by auto
    next
      case (Some b1)
      have known: "\<forall>p \<in> set (sel @ [(rs_name r, e)]). known_cycle (snd p)" using Cons.prems(1) assms(1) e by auto
      obtain ys where ys: "rule_matches by_type rule rs (sel @ [(rs_name r, e)]) b1 = Inr ys"
        using rule_matches_total [OF assms(1) known] by blast
      have "(\<exists>b'. (sel', b') \<in> set ys \<and> agrees_with s b') \<longleftrightarrow> agrees_with s b1 \<and>
          (\<exists>rest. sel' = (sel @ [(rs_name r, e)]) @ rest \<and> selects by_type rule rs (sel @ [(rs_name r, e)]) rest \<and> unifies s rs rest)"
        by (rule Cons.IH [OF known ys])
      moreover have "agrees_with s b \<and> role_satisfied s r e \<longleftrightarrow> agrees_with s b1"
        using match_role_unify [of s b r e] Some by auto
      ultimately show ?thesis using follows Some ys by auto
    qed
  qed simp
  have "(\<exists>b'. (sel', b') \<in> set found \<and> agrees_with s b') \<longleftrightarrow>
      (\<exists>e \<in> set (by_type (rs_type r)). \<exists>b'. (\<exists>xs. ?f e = Inr xs \<and> (sel', b') \<in> set xs) \<and> agrees_with s b')"
    unfolding mem by blast
  also have "\<dots> \<longleftrightarrow> (\<exists>e \<in> set (by_type (rs_type r)). may_follow rule sel e \<and> agrees_with s b \<and> role_satisfied s r e \<and>
      (\<exists>rest. sel' = (sel @ [(rs_name r, e)]) @ rest \<and> selects by_type rule rs (sel @ [(rs_name r, e)]) rest \<and> unifies s rs rest))"
    by (rule bex_cong [OF refl]) (rule one)
  also have "\<dots> \<longleftrightarrow> agrees_with s b \<and>
      (\<exists>rest. sel' = sel @ rest \<and> selects by_type rule (r # rs) sel rest \<and> unifies s (r # rs) rest)"
    by (fastforce simp: unifies_def)
  finally show ?case .
qed

text \<open>The selections as a property of the whole list.\<close>

definition well_chosen :: "summary_rule \<Rightarrow> selection \<Rightarrow> bool" where
  "well_chosen rule sel \<longleftrightarrow> (su_distinct rule \<longrightarrow> distinct (source_ids sel)) \<and>
     (su_ordered rule \<longrightarrow> successively (\<lambda>p q. in_order (su_strict rule) (snd p) (snd q)) sel)"

lemma source_ids_simps [simp]:
  "source_ids [] = []" "source_ids (p # sel) = ei_id (snd p) # source_ids sel"
  "source_ids (sel @ sel') = source_ids sel @ source_ids sel'" "set (source_ids sel) = ei_id ` snd ` set sel"
  by (force simp: source_ids_def split: prod.splits)+

lemma well_chosen_snoc: "well_chosen rule (sel @ [p]) \<longleftrightarrow> well_chosen rule sel \<and> may_follow rule sel (snd p)"
  by (auto simp: well_chosen_def may_follow_def successively_append_iff)

lemma well_chosen_prefix: "well_chosen rule (sel @ rest) \<Longrightarrow> well_chosen rule sel"
  by (auto simp: well_chosen_def successively_append_iff)

lemma selects_iff:
  "well_chosen rule sel \<Longrightarrow> selects by_type rule roles sel rest \<longleftrightarrow>
     list_all2 (\<lambda>r p. fst p = rs_name r \<and> snd p \<in> set (by_type (rs_type r))) roles rest \<and> well_chosen rule (sel @ rest)"
proof (induction roles arbitrary: sel rest)
  case (Cons r rs)
  have step: "may_follow rule sel e \<and> selects by_type rule rs (sel @ [(n, e)]) rest' \<longleftrightarrow>
      list_all2 (\<lambda>r p. fst p = rs_name r \<and> snd p \<in> set (by_type (rs_type r))) rs rest' \<and>
      well_chosen rule (sel @ (n, e) # rest')" for e n rest'
    using Cons.IH [of "sel @ [(n, e)]" rest'] Cons.prems well_chosen_snoc [of rule sel "(n, e)"]
      well_chosen_prefix [of rule "sel @ [(n, e)]" rest'] by auto
  show ?case
  proof (cases rest)
    case (Cons p rest')
    then show ?thesis using step [of "snd p" "fst p" rest'] by (cases p) auto
  qed simp
qed auto

definition matches_rule :: "event_instance list \<Rightarrow> summary_rule \<Rightarrow> selection \<Rightarrow> bool" where
  "matches_rule events rule sel \<longleftrightarrow>
     list_all2 (\<lambda>r p. fst p = rs_name r \<and> snd p \<in> set events) (su_roles rule) sel \<and> well_chosen rule sel \<and>
     (\<exists>s. unifies s (su_roles rule) sel)"

lemma events_by_type_mem [simp]: "e \<in> set (events_by_type es t) \<longleftrightarrow> e \<in> set es \<and> ei_type e = t"
  by (simp add: events_by_type_def)

lemma rule_matches_correct:
  assumes "\<forall>e \<in> set events. known_cycle e"
  shows "\<exists>found. rule_matches (events_by_type events) rule (su_roles rule) [] [] = Inr found \<and>
    (\<forall>sel. (\<exists>b. (sel, b) \<in> set found) \<longleftrightarrow> matches_rule events rule sel) \<and>
    (\<forall>(sel, b) \<in> set found. unifies (map_of b) (su_roles rule) sel)"
proof -
  have known: "\<forall>t. \<forall>e \<in> set (events_by_type events t). known_cycle e" using assms by simp
  obtain found where f: "rule_matches (events_by_type events) rule (su_roles rule) [] [] = Inr found"
    using rule_matches_total [OF known, of "[]"] by fastforce
  have start: "well_chosen rule []" by (simp add: well_chosen_def)
  have mem: "(\<exists>b. (sel, b) \<in> set found \<and> agrees_with s b) \<longleftrightarrow>
      list_all2 (\<lambda>r p. fst p = rs_name r \<and> snd p \<in> set (events_by_type events (rs_type r))) (su_roles rule) sel \<and>
      well_chosen rule sel \<and> unifies s (su_roles rule) sel" for s sel
    using rule_matches_mem [OF known _ f, where s = s and sel' = sel] selects_iff [OF start] by auto
  have types: "list_all2 (\<lambda>r p. fst p = rs_name r \<and> snd p \<in> set (events_by_type events (rs_type r))) roles sel \<longleftrightarrow>
      list_all2 (\<lambda>r p. fst p = rs_name r \<and> snd p \<in> set events) roles sel" if "unifies s roles sel" for s roles sel
    using that unfolding unifies_def list_all2_conv_all_nth role_satisfied_def by auto
  have "(\<exists>b. (sel, b) \<in> set found) \<longleftrightarrow> matches_rule events rule sel" for sel
  proof
    assume "\<exists>b. (sel, b) \<in> set found"
    then obtain b where "(sel, b) \<in> set found" by blast
    then have "\<exists>b'. (sel, b') \<in> set found \<and> agrees_with (map_of b) b'" using agrees_refl by blast
    then show "matches_rule events rule sel" unfolding mem matches_rule_def using types by blast
  next
    assume "matches_rule events rule sel"
    then obtain s where "unifies s (su_roles rule) sel"
      "list_all2 (\<lambda>r p. fst p = rs_name r \<and> snd p \<in> set events) (su_roles rule) sel" "well_chosen rule sel"
      by (auto simp: matches_rule_def)
    then show "\<exists>b. (sel, b) \<in> set found" using mem [where s = s and sel = sel] types by blast
  qed
  moreover have "unifies (map_of b) (su_roles rule) sel" if "(sel, b) \<in> set found" for sel b
    using mem [where s = "map_of b" and sel = sel] that agrees_refl by blast
  ultimately show ?thesis using f by auto
qed

section \<open>The abstracted trace\<close>

lemma traverse_filter:
  assumes "traverse (\<lambda>x. if P x then rbind (f x) (\<lambda>_. Inr [x]) else Inr []) xs = Inr ys"
  shows "concat ys = filter P xs" and "\<forall>x \<in> set (filter P xs). \<exists>u. f x = Inr u"
  using assms by (induction xs arbitrary: ys) (auto simp: rbind_Inr_iff split: if_splits)

lemma concrete_events_Inr:
  assumes "concrete_events t = Inr events"
  shows "events = filter (\<lambda>e. ei_occurs e = VBool True) (tr_events t)" and "\<forall>e \<in> set events. known_cycle e"
proof -
  let ?check = "\<lambda>e. rbind (require (ei_cycle e = VNone \<or> as_int (ei_cycle e) \<noteq> None) AbstractionError) (\<lambda>_.
    require (\<not> list_ex (\<lambda>(_, v). has_sort v) (ei_fields e)) AbstractionError)"
  have same: "(if ei_occurs e \<noteq> VBool True then Inr [] else
      rbind (require (ei_cycle e = VNone \<or> as_int (ei_cycle e) \<noteq> None) AbstractionError) (\<lambda>_.
      rbind (require (\<not> list_ex (\<lambda>(_, v). has_sort v) (ei_fields e)) AbstractionError) (\<lambda>_. Inr [e]))) =
    (if ei_occurs e = VBool True then rbind (?check e) (\<lambda>_. Inr [e]) else Inr [])" for e
    by (simp add: rbind_assoc)
  obtain ess where ess: "traverse (\<lambda>e. if ei_occurs e = VBool True then rbind (?check e) (\<lambda>_. Inr [e]) else Inr [])
      (tr_events t) = Inr ess" "events = concat ess"
    using assms unfolding concrete_events_def same rbind_Inr_iff [of "traverse _ _"] by blast
  show "events = filter (\<lambda>e. ei_occurs e = VBool True) (tr_events t)" using traverse_filter(1) [OF ess(1)] ess(2) by simp
  then show "\<forall>e \<in> set events. known_cycle e" using traverse_filter(2) [OF ess(1)]
    by (auto simp: rbind_Inr_iff require_Inr_iff known_cycle_def)
qed

text \<open>An event that a rule of the specification justifies by the named sources.\<close>

definition summarises :: "abstraction_spec \<Rightarrow> event_instance list \<Rightarrow> summary_evidence \<Rightarrow> event_instance \<Rightarrow> bool" where
  "summarises spec events ev e \<longleftrightarrow> ei_id e = sm_output ev \<and>
     (\<exists>rule \<in> set (as_summaries spec). su_name rule = sm_rule ev \<and>
       (\<exists>sel b. matches_rule events rule sel \<and> unifies (map_of b) (su_roles rule) sel \<and> source_ids sel = sm_sources ev \<and>
         render_id (se_template (su_output rule)) b (su_name rule) = Inr (ei_id e) \<and>
         summary_of spec rule (ei_id e) sel b = Inr e))"

definition abs_ok :: "abstraction_spec \<Rightarrow> event_instance list \<Rightarrow> abs_state \<Rightarrow> bool" where
  "abs_ok spec events st \<longleftrightarrow> list_all2 (summarises spec events) (ab_evidence st) (ab_generated st) \<and>
     ab_ids st = map ei_id (ab_generated st) \<and> distinct (ab_ids st)"

lemma summary_of_id: "summary_of spec rule i sel b = Inr e \<Longrightarrow> ei_id e = i"
  by (auto simp: summary_of_def Let_def rbind_Inr_iff mk_event_instance_Inr_iff)

lemma apply_match_ok:
  assumes m: "apply_match c spec rule (n, seen, st) (sel, b) = Inr (n', seen', st')" and ok: "abs_ok spec events st"
    and rule: "rule \<in> set (as_summaries spec)" "matches_rule events rule sel" "unifies (map_of b) (su_roles rule) sel"
  shows "abs_ok spec events st'"
proof (cases "source_ids sel \<in> set seen")
  case True
  then show ?thesis using m ok by (simp add: apply_match_def)
next
  case False
  then obtain i e where i: "render_id (se_template (su_output rule)) b (su_name rule) = Inr i" "i \<notin> set (ab_ids st)"
    and e: "summary_of spec rule i sel b = Inr e" and st': "ab_generated st' = ab_generated st @ [e]"
      "ab_evidence st' = ab_evidence st @ [\<lparr>sm_rule = su_name rule, sm_output = i, sm_sources = source_ids sel\<rparr>]"
      "ab_ids st' = ab_ids st @ [i]"
    using m by (auto simp: apply_match_def rbind_Inr_iff require_Inr_iff)
  have id: "ei_id e = i" using e by (rule summary_of_id)
  have "summarises spec events \<lparr>sm_rule = su_name rule, sm_output = i, sm_sources = source_ids sel\<rparr> e"
    unfolding summarises_def using rule i(1) e id by auto
  then show ?thesis using ok st' id i(2) by (auto simp: abs_ok_def list_all2_appendI)
qed

lemma apply_rule_ok:
  assumes "apply_rule c spec events st rule = Inr st'" and ok: "abs_ok spec events st"
    and rule: "rule \<in> set (as_summaries spec)" and known: "\<forall>e \<in> set events. known_cycle e"
  shows "abs_ok spec events st'"
proof -
  obtain found n seen where found: "rule_matches (events_by_type events) rule (su_roles rule) [] [] = Inr found"
    and fold: "fold_res (apply_match c spec rule) (0, [], st) found = Inr (n, seen, st')"
    using assms(1) by (auto simp: apply_rule_def rbind_Inr_iff)
  have m: "matches_rule events rule sel \<and> unifies (map_of b) (su_roles rule) sel" if "(sel, b) \<in> set found" for sel b
    using rule_matches_correct [OF known, of rule] found that by auto
  have "abs_ok spec events (snd (snd (n, seen, st')))"
    by (rule fold_res_inv [OF fold, where I = "\<lambda>acc. abs_ok spec events (snd (snd acc))"])
      (use ok m apply_match_ok [OF _ _ rule] in \<open>auto split: prod.splits\<close>)
  then show ?thesis by simp
qed

lemma copy_event_id: "copy_event e = Inr e' \<Longrightarrow> ei_id e' = ei_id e"
  by (auto simp: copy_event_def event_to_dict_def event_from_dict_def rbind_Inr_iff mk_event_instance_Inr_iff
      get_key_Inr_iff)

lemma retain_events_ok:
  assumes "retain_events c spec st events = Inr (kept, ids)" and "distinct (ab_ids st)"
  shows "\<forall>e \<in> set kept. \<exists>e0 \<in> set events. copy_event e0 = Inr e" and "ids = ab_ids st @ map ei_id kept" and "distinct ids"
proof -
  let ?I = "\<lambda>(kept, ids). (\<forall>e \<in> set kept. \<exists>e0 \<in> set events. copy_event e0 = Inr e) \<and>
    ids = ab_ids st @ map ei_id kept \<and> distinct ids"
  have "?I (kept, ids)"
    by (rule fold_res_inv [OF assms(1) [unfolded retain_events_def]])
      (use assms(2) in \<open>fastforce simp: rbind_Inr_iff require_Inr_iff copy_event_id split: if_splits prod.splits\<close>)+
  then show "\<forall>e \<in> set kept. \<exists>e0 \<in> set events. copy_event e0 = Inr e" "ids = ab_ids st @ map ei_id kept" "distinct ids"
    unfolding prod.case by blast+
qed

lemma abstract_trace_justified:
  assumes a: "abstract_trace sha256 t c spec = Inr r"
  obtains events where "concrete_events t = Inr events"
    "\<forall>e \<in> set (tr_events (ab_trace r)). (\<exists>e0 \<in> set events. copy_event e0 = Inr e) \<or>
       (\<exists>ev \<in> set (ct_summaries (ab_certificate r)). summarises spec events ev e)"
    "\<forall>ev \<in> set (ct_summaries (ab_certificate r)). \<exists>e \<in> set (tr_events (ab_trace r)). summarises spec events ev e"
    "set (ct_retained (ab_certificate r)) \<union> set (ct_hidden (ab_certificate r)) = ei_id ` set events"
    "set (ct_retained (ab_certificate r)) \<inter> set (ct_hidden (ab_certificate r)) = {}"
    "distinct (map ei_id (tr_events (ab_trace r)))"
    "set (tr_constraints (ab_trace r)) \<subseteq> set (tr_constraints t)"
    "validate_trace c (Some False) (ab_trace r) = Inr ()"
proof -
  obtain events st kept ids where ev: "concrete_events t = Inr events"
    and st: "fold_res (apply_rule c spec events) \<lparr>ab_generated = [], ab_evidence = [], ab_hide = [], ab_ids = []\<rparr>
      (as_summaries spec) = Inr st"
    and kept: "retain_events c spec st events = Inr (kept, ids)"
    and r: "tr_events (ab_trace r) = sort_key event_key (kept @ ab_generated st)"
      "tr_constraints (ab_trace r) = filter (references_within (map ei_id (tr_events (ab_trace r)))) (tr_constraints t)"
      "ct_summaries (ab_certificate r) = sort_key sm_output (ab_evidence st)"
      "ct_retained (ab_certificate r) = sort (map ei_id kept)"
      "ct_hidden (ab_certificate r) = sort (map ei_id (filter (\<lambda>e. ei_id e \<notin> set (map ei_id kept)) events))"
      "validate_trace c (Some False) (ab_trace r) = Inr ()"
    using a by (auto simp: abstract_trace_def rbind_Inr_iff Let_def mk_trace_Inr)
  note known = concrete_events_Inr(2) [OF ev]
  have ok: "abs_ok spec events st"
    by (rule fold_res_inv [OF st]) (auto simp: abs_ok_def [of _ _ "\<lparr>ab_generated = [], ab_evidence = [], ab_hide = [], ab_ids = []\<rparr>"]
        intro: apply_rule_ok [OF _ _ _ known])
  then have ids: "distinct (ab_ids st)" "ab_ids st = map ei_id (ab_generated st)"
    and pairs: "list_all2 (summarises spec events) (ab_evidence st) (ab_generated st)" by (auto simp: abs_ok_def)
  note k = retain_events_ok [OF kept ids(1)]
  have gen: "\<exists>x \<in> set (ab_evidence st). summarises spec events x e" if "e \<in> set (ab_generated st)" for e
    using pairs that by (fastforce simp: list_all2_conv_all_nth in_set_conv_nth)
  have evi: "\<exists>e \<in> set (ab_generated st). summarises spec events x e" if "x \<in> set (ab_evidence st)" for x
    using pairs that by (fastforce simp: list_all2_conv_all_nth in_set_conv_nth)
  have sub: "ei_id ` set kept \<subseteq> ei_id ` set events" using k(1) by (force dest: copy_event_id)
  show thesis
  proof (rule that [OF ev])
    show "\<forall>e \<in> set (tr_events (ab_trace r)). (\<exists>e0 \<in> set events. copy_event e0 = Inr e) \<or>
       (\<exists>ev \<in> set (ct_summaries (ab_certificate r)). summarises spec events ev e)"
      using k(1) gen by (auto simp: r(1,3))
    show "\<forall>ev \<in> set (ct_summaries (ab_certificate r)). \<exists>e \<in> set (tr_events (ab_trace r)). summarises spec events ev e"
      using evi by (auto simp: r(1,3))
    show "set (ct_retained (ab_certificate r)) \<union> set (ct_hidden (ab_certificate r)) = ei_id ` set events"
      "set (ct_retained (ab_certificate r)) \<inter> set (ct_hidden (ab_certificate r)) = {}"
      using sub by (auto simp: r(4,5)) (metis imageI)
    show "distinct (map ei_id (tr_events (ab_trace r)))"
      using r(6) by (auto simp: validate_trace_def rbind_Inr_iff validate_structure_Inr)
    show "set (tr_constraints (ab_trace r)) \<subseteq> set (tr_constraints t)" unfolding r(2) by auto
    show "validate_trace c (Some False) (ab_trace r) = Inr ()" by (rule r(6))
  qed
qed

lemma copy_event_same: "encodable_event e \<Longrightarrow> copy_event e = Inr e"
  by (simp add: copy_event_def event_dec_enc)

section \<open>The refinement check\<close>

definition same_abstraction :: "trace \<Rightarrow> trace \<Rightarrow> bool" where
  "same_abstraction a b \<longleftrightarrow> ei_id ` set (tr_events a) = ei_id ` set (tr_events b) \<and>
     (\<forall>e \<in> set (tr_events a). \<forall>e' \<in> set (tr_events b). ei_id e = ei_id e' \<longrightarrow>
        py_eq (event_to_dict e) (event_to_dict e')) \<and>
     map canon_expr (tr_constraints a) = map canon_expr (tr_constraints b) \<and>
     py_eq (get_default (tr_metadata a) ''abstraction'' VNone) (get_default (tr_metadata b) ''abstraction'' VNone)"

lemma validated_distinct: "validate_trace c p t = Inr u \<Longrightarrow> distinct (map ei_id (tr_events t))"
  by (auto simp: validate_trace_def rbind_Inr_iff validate_structure_Inr)

lemma event_payloads_map:
  assumes "distinct (map ei_id (tr_events t))"
  shows "event_payloads t = map (\<lambda>e. (ei_id e, event_to_dict e)) (tr_events t)"
    and "map_of (event_payloads t) i = Some v \<longleftrightarrow> (\<exists>e \<in> set (tr_events t). ei_id e = i \<and> v = event_to_dict e)"
proof -
  show m: "event_payloads t = map (\<lambda>e. (ei_id e, event_to_dict e)) (tr_events t)"
    unfolding event_payloads_def by (rule dict_of_distinct) (use assms in \<open>simp add: o_def\<close>)
  have "distinct (map fst (map (\<lambda>e. (ei_id e, event_to_dict e)) (tr_events t)))" using assms by (simp add: o_def)
  then show "map_of (event_payloads t) i = Some v \<longleftrightarrow> (\<exists>e \<in> set (tr_events t). ei_id e = i \<and> v = event_to_dict e)"
    unfolding m by (auto simp: map_of_eq_Some_iff)
qed

lemma same_payload_iff:
  assumes "distinct (map ei_id (tr_events a))" and "distinct (map ei_id (tr_events b))"
  shows "(\<forall>i. (map_of (event_payloads a) i = None) = (map_of (event_payloads b) i = None)) \<longleftrightarrow>
      ei_id ` set (tr_events a) = ei_id ` set (tr_events b)"
    and "(\<forall>i. map_of (event_payloads a) i \<noteq> None \<and> map_of (event_payloads b) i \<noteq> None \<longrightarrow>
        same_payload (map_of (event_payloads a) i) (map_of (event_payloads b) i)) \<longleftrightarrow>
      (\<forall>e \<in> set (tr_events a). \<forall>e' \<in> set (tr_events b). ei_id e = ei_id e' \<longrightarrow> py_eq (event_to_dict e) (event_to_dict e'))"
proof -
  have none: "map_of (event_payloads t) i = None \<longleftrightarrow> i \<notin> ei_id ` set (tr_events t)"
    if "distinct (map ei_id (tr_events t))" for t i
    using event_payloads_map(1) [OF that] by (auto simp: map_of_eq_None_iff image_image)
  show "(\<forall>i. (map_of (event_payloads a) i = None) = (map_of (event_payloads b) i = None)) \<longleftrightarrow>
      ei_id ` set (tr_events a) = ei_id ` set (tr_events b)"
    unfolding none [OF assms(1)] none [OF assms(2)] by blast
  show "(\<forall>i. map_of (event_payloads a) i \<noteq> None \<and> map_of (event_payloads b) i \<noteq> None \<longrightarrow>
        same_payload (map_of (event_payloads a) i) (map_of (event_payloads b) i)) \<longleftrightarrow>
      (\<forall>e \<in> set (tr_events a). \<forall>e' \<in> set (tr_events b). ei_id e = ei_id e' \<longrightarrow> py_eq (event_to_dict e) (event_to_dict e'))"
    (is "?L \<longleftrightarrow> ?R")
  proof
    assume l: ?L
    show ?R
    proof (intro ballI impI)
      fix e e' assume e: "e \<in> set (tr_events a)" "e' \<in> set (tr_events b)" "ei_id e = ei_id e'"
      then have "map_of (event_payloads a) (ei_id e) = Some (event_to_dict e)"
        "map_of (event_payloads b) (ei_id e) = Some (event_to_dict e')"
        using event_payloads_map(2) [OF assms(1)] event_payloads_map(2) [OF assms(2)] by auto
      then show "py_eq (event_to_dict e) (event_to_dict e')" using l [rule_format, of "ei_id e"] by (simp add: same_payload_def)
    qed
  next
    assume r: ?R
    show ?L
    proof (intro allI impI, elim conjE)
      fix i assume "map_of (event_payloads a) i \<noteq> None" "map_of (event_payloads b) i \<noteq> None"
      then obtain v w where vw: "map_of (event_payloads a) i = Some v" "map_of (event_payloads b) i = Some w" by blast
      then show "same_payload (map_of (event_payloads a) i) (map_of (event_payloads b) i)"
        using r event_payloads_map(2) [OF assms(1), of i v] event_payloads_map(2) [OF assms(2), of i w]
        by (auto simp: same_payload_def)
    qed
  qed
qed

lemma agreement_split:
  "(\<forall>x. \<not> N x \<longrightarrow> \<not> M x) \<and> (\<forall>x. \<not> M x \<longrightarrow> \<not> N x) \<and> (\<forall>x. \<not> N x \<longrightarrow> \<not> (\<not> M x \<and> \<not> P x)) \<longleftrightarrow>
   (\<forall>i. N i = M i) \<and> (\<forall>i. \<not> N i \<and> \<not> M i \<longrightarrow> P i)"
  by blast

lemma check_refinement_iff:
  assumes "check_refinement sha256 t t' c spec = Inr k"
  shows "rf_valid k \<longleftrightarrow> (\<exists>r. abstract_trace sha256 t c spec = Inr r \<and> same_abstraction (ab_trace r) t')"
proof -
  obtain r where v: "validate_trace c (Some False) t' = Inr ()" and r: "abstract_trace sha256 t c spec = Inr r"
    using assms by (auto simp: check_refinement_def rbind_Inr_iff)
  obtain events where "validate_trace c (Some False) (ab_trace r) = Inr ()" by (rule abstract_trace_justified [OF r])
  note d = validated_distinct [OF this] validated_distinct [OF v]
  let ?a = "event_payloads (ab_trace r)" and ?b = "event_payloads t'"
  have lists: "sort (filter P xs) = [] \<longleftrightarrow> (\<forall>x \<in> set xs. \<not> P x)" for P and xs :: "string list"
    by (metis filter_empty_conv set_sort set_empty)
  have dom: "i \<in> set (map fst d) \<longleftrightarrow> map_of d i \<noteq> None" for i and d :: "(string \<times> pyval) list"
    by (simp add: map_of_eq_None_iff)
  let ?missing = "sort (filter (\<lambda>i. map_of ?b i = None) (map fst ?a))"
    and ?extra = "sort (filter (\<lambda>i. map_of ?a i = None) (map fst ?b))"
    and ?changed = "sort (filter (\<lambda>i. map_of ?b i \<noteq> None \<and> \<not> same_payload (map_of ?a i) (map_of ?b i)) (map fst ?a))"
  have valid: "rf_valid k \<longleftrightarrow> ?missing = [] \<and> ?extra = [] \<and> ?changed = [] \<and>
      map canon_expr (tr_constraints (ab_trace r)) = map canon_expr (tr_constraints t') \<and>
      py_eq (get_default (tr_metadata (ab_trace r)) ''abstraction'' VNone) (get_default (tr_metadata t') ''abstraction'' VNone)"
    using assms unfolding check_refinement_def v r rbind.simps Let_def by (auto split: if_splits)
  have "?missing = [] \<and> ?extra = [] \<and> ?changed = [] \<longleftrightarrow>
      (\<forall>i. (map_of ?a i = None) = (map_of ?b i = None)) \<and>
      (\<forall>i. map_of ?a i \<noteq> None \<and> map_of ?b i \<noteq> None \<longrightarrow> same_payload (map_of ?a i) (map_of ?b i))"
    unfolding lists Ball_def dom by (rule agreement_split)
  then show ?thesis using valid unfolding same_payload_iff [OF d] same_abstraction_def using r by auto
qed

lemma same_abstraction_refl: "distinct (map ei_id (tr_events t)) \<Longrightarrow> same_abstraction t t"
  unfolding same_abstraction_def distinct_map by (metis inj_onD py_eq_refl)

lemma check_refinement_total:
  assumes "abstract_trace sha256 t c spec = Inr r" and "validate_trace c (Some False) t' = Inr ()"
  shows "\<exists>k. check_refinement sha256 t t' c spec = Inr k"
  using assms by (simp add: check_refinement_def Let_def)

lemma abstraction_refines:
  assumes r: "abstract_trace sha256 t c spec = Inr r"
  shows "\<exists>k. check_refinement sha256 t (ab_trace r) c spec = Inr k \<and> rf_valid k"
proof -
  obtain events where v: "validate_trace c (Some False) (ab_trace r) = Inr ()" by (rule abstract_trace_justified [OF r])
  obtain k where k: "check_refinement sha256 t (ab_trace r) c spec = Inr k" using check_refinement_total [OF r v] by blast
  then show ?thesis using check_refinement_iff [OF k] r same_abstraction_refl [OF validated_distinct [OF v]] by blast
qed

end
