(* ===== verification/StateSim.thy ===== *)
theory StateSim
  imports BoundedProblem
begin

text \<open>
  \<open>src/src/umcm/solver/state.py\<close>: simulation of the declared state cells for one assignment.
  Requirements of a cycle read the state before it, the updates of a cycle are applied together
  after it, cells that are not written keep their value. Early returns carry a \<open>rejection\<close>, one
  constructor per returned reason; the texts are not modelled. The step relation the simulation
  refines is in \<open>StateSteps\<close>.
\<close>

section \<open>Results\<close>

type_synonym cells = "(string \<times> pyval) list"

datatype rejection =
    InitialUnresolved string
  | ActivationUnresolved string
  | InvalidCycle string
  | ValueUnresolved string
  | RequirementFailed int string
  | ConflictingWrites int string
  | AntecedentUnresolved string
  | GuardUnresolved string
  | MissingOutput string
  | UnsupportedOutput string

record state_change =
  sg_state :: string
  sg_before :: pyval
  sg_after :: pyval
  sg_origins :: "string list"

record state_step =
  sp_cycle :: int
  sp_before :: cells
  sp_after :: cells
  sp_requirements :: "string list"
  sp_updates :: "string list"
  sp_changes :: "state_change list"

record state_check =
  st_feasible :: bool
  st_initial :: cells
  st_final :: cells
  st_steps :: "state_step list"
  st_reason :: "rejection option"

definition state_change_to_dict :: "state_change \<Rightarrow> pyval" where
  "state_change_to_dict c = VMap [(''state'', VStr (sg_state c)), (''before'', sg_before c),
     (''after'', sg_after c), (''origins'', VList (map VStr (sg_origins c)))]"

definition state_step_to_dict :: "state_step \<Rightarrow> pyval" where
  "state_step_to_dict s = VMap [(''cycle'', VInt (sp_cycle s)), (''before'', VMap (sp_before s)),
     (''after'', VMap (sp_after s)), (''active_requirements'', VList (map VStr (sp_requirements s))),
     (''active_updates'', VList (map VStr (sp_updates s))),
     (''changes'', VList (map state_change_to_dict (sp_changes s)))]"

text \<open>A computation that may raise (\<open>Inl (Inl e)\<close>) or return early (\<open>Inl (Inr r)\<close>).\<close>

definition raising :: "'a res \<Rightarrow> (py_error + 'r) + 'a" where
  "raising r = (case r of Inl e \<Rightarrow> Inl (Inl e) | Inr x \<Rightarrow> Inr x)"

section \<open>Concrete values\<close>

definition problem_context :: "bounded_problem \<Rightarrow> (string \<Rightarrow> pyval option) \<Rightarrow> eval_context" where
  "problem_context p asg = \<lparr>ctx_events = problem_event_map p, ctx_assignment = asg,
     ctx_functions = default_functions\<rparr>"

definition concrete_value :: "nat \<Rightarrow> eval_context \<Rightarrow> pyval \<Rightarrow> pyval option res" where
  "concrete_value n c v = (case v of VExpr e \<Rightarrow> eval_at n c e | _ \<Rightarrow> Inr (Some v))"

definition valid_cycle :: "int \<Rightarrow> pyval option \<Rightarrow> int option" where
  "valid_cycle horizon v =
     (case Option.bind v strict_int of
        Some i \<Rightarrow> if 0 \<le> i \<and> i \<le> horizon then Some i else None
      | None \<Rightarrow> None)"

definition compare_state :: "string \<Rightarrow> pyval \<Rightarrow> pyval \<Rightarrow> bool res" where
  "compare_state op a b =
     (if op = ''eq'' then Inr (py_eq a b)
      else if op = ''ne'' then Inr (\<not> py_eq a b)
      else if op = ''lt'' then py_lt a b
      else if op = ''le'' then py_le a b
      else if op = ''gt'' then py_gt a b
      else if op = ''ge'' then py_ge a b
      else Inl PyKeyError)"

definition initial_cells :: "nat \<Rightarrow> eval_context \<Rightarrow> state_variable list \<Rightarrow> (py_error + rejection) + cells" where
  "initial_cells n c vars =
     fold_res (\<lambda>st v. rbind (raising (concrete_value n c (sv_initial v))) (\<lambda>x.
       case x of None \<Rightarrow> Inl (Inr (InitialUnresolved (sv_name v)))
       | Some w \<Rightarrow> Inr (AList.update (sv_name v) w st))) [] vars"

text \<open>Cycle and value of an active requirement or update; \<open>None\<close> when it is not active.\<close>

definition timed_effect :: "nat \<Rightarrow> eval_context \<Rightarrow> int \<Rightarrow> string \<Rightarrow> expr \<Rightarrow> expr \<Rightarrow> expr \<Rightarrow>
    (py_error + rejection) + (int \<times> pyval) option" where
  "timed_effect n c horizon name act cyc val =
     rbind (raising (eval_at n c act)) (\<lambda>a.
     case a of
       None \<Rightarrow> Inl (Inr (ActivationUnresolved name))
     | Some _ \<Rightarrow>
         if \<not> is_True a then Inr None
         else
           rbind (raising (eval_at n c cyc)) (\<lambda>cv.
           rbind (raising (eval_at n c val)) (\<lambda>v.
             case valid_cycle horizon cv of
               None \<Rightarrow> Inl (Inr (InvalidCycle name))
             | Some i \<Rightarrow> (case v of None \<Rightarrow> Inl (Inr (ValueUnresolved name)) | Some w \<Rightarrow> Inr (Some (i, w))))))"

definition requirement_effect :: "nat \<Rightarrow> eval_context \<Rightarrow> int \<Rightarrow> requirement_instance \<Rightarrow>
    (py_error + rejection) + (int \<times> pyval) option" where
  "requirement_effect n c h r = timed_effect n c h (ri_name r) (ri_activation r) (ri_cycle r) (ri_expected r)"

definition update_effect :: "nat \<Rightarrow> eval_context \<Rightarrow> int \<Rightarrow> update_instance \<Rightarrow>
    (py_error + rejection) + (int \<times> pyval) option" where
  "update_effect n c h u = timed_effect n c h (ui_name u) (ui_activation u) (ui_cycle u) (ui_value u)"

definition by_cycle :: "('a \<Rightarrow> 'e + (int \<times> pyval) option) \<Rightarrow> 'a list \<Rightarrow> 'e + (int \<times> ('a \<times> pyval) list) list" where
  "by_cycle f xs =
     fold_res (\<lambda>d x. rbind (f x) (\<lambda>eff.
       case eff of None \<Rightarrow> Inr d | Some (i, v) \<Rightarrow> Inr (dict_append i (x, v) d))) [] xs"

section \<open>One cycle\<close>

definition check_requirement :: "int \<Rightarrow> cells \<Rightarrow> requirement_instance \<times> pyval \<Rightarrow>
    (py_error + rejection \<times> cells) + unit" where
  "check_requirement cyc st rv =
     (case rv of (r, v) \<Rightarrow>
        rbind (raising (or_raise (map_of st (ri_state r)) PyKeyError)) (\<lambda>a.
        rbind (raising (compare_state (ri_op r) a v)) (\<lambda>ok.
          require ok (Inr (RequirementFailed cyc (ri_name r), st)))))"

text \<open>The writes to one cell: their values form a Python set, which must have one member.\<close>

definition apply_group :: "int \<Rightarrow> cells \<times> string list \<times> state_change list \<Rightarrow>
    string \<times> (update_instance \<times> pyval) list \<Rightarrow>
    (py_error + rejection \<times> cells) + (cells \<times> string list \<times> state_change list)" where
  "apply_group cyc acc grp =
     (case (acc, grp) of ((st, names, changes), (name, writes)) \<Rightarrow>
        let vals = py_set (map snd writes); origins = map (\<lambda>(u, _). ui_name u) writes in
        rbind (require (list_all hashable (map snd writes)) (Inl PyTypeError)) (\<lambda>_.
        rbind (require (length vals = 1) (Inr (ConflictingWrites cyc name, st))) (\<lambda>_.
        rbind (raising (or_raise (map_of st name) PyKeyError)) (\<lambda>old.
          Inr (AList.update name (hd vals) st, names @ origins,
            changes @ (if py_eq old (hd vals) then []
              else [\<lparr>sg_state = name, sg_before = old, sg_after = hd vals, sg_origins = origins\<rparr>]))))))"

definition run_cycle :: "int \<Rightarrow> (requirement_instance \<times> pyval) list \<Rightarrow> (update_instance \<times> pyval) list \<Rightarrow>
    cells \<Rightarrow> (py_error + rejection \<times> cells) + (cells \<times> string list \<times> state_change list)" where
  "run_cycle cyc reqs upds st =
     rbind (traverse (check_requirement cyc st) reqs) (\<lambda>_.
       fold_res (apply_group cyc) (st, [], [])
         (sort_key fst (group_by (\<lambda>(u, _). ui_state u) upds)))"

section \<open>All cycles\<close>

record sim =
  sim_state :: cells
  sim_pre :: "cells list"
  sim_steps :: "state_step list"

fun simulate :: "(int \<Rightarrow> (requirement_instance \<times> pyval) list) \<Rightarrow> (int \<Rightarrow> (update_instance \<times> pyval) list) \<Rightarrow>
    int list \<Rightarrow> int list \<Rightarrow> sim \<Rightarrow> (sim \<times> rejection option) res" where
  "simulate R U active [] s = Inr (s, None)"
| "simulate R U active (cyc # cycles) s =
     (case run_cycle cyc (R cyc) (U cyc) (sim_state s) of
        Inl (Inl e) \<Rightarrow> Inl e
      | Inl (Inr (rej, st)) \<Rightarrow> Inr (s\<lparr>sim_state := st\<rparr>, Some rej)
      | Inr (st, names, changes) \<Rightarrow>
          simulate R U active cycles
            \<lparr>sim_state = st, sim_pre = sim_pre s @ [sim_state s],
             sim_steps = sim_steps s @ (if cyc \<in> set active
               then [\<lparr>sp_cycle = cyc, sp_before = sim_state s, sp_after = st,
                 sp_requirements = map (\<lambda>(r, _). ri_name r) (R cyc), sp_updates = names,
                 sp_changes = changes\<rparr>] else [])\<rparr>)"

section \<open>State-guarded transitions\<close>

text \<open>\<open>None\<close>: a predicate is unresolved. The first predicate that fails decides.\<close>

fun guard_predicates_hold :: "nat \<Rightarrow> eval_context \<Rightarrow> int \<Rightarrow> cells list \<Rightarrow> guard_predicate list \<Rightarrow> bool option res" where
  "guard_predicates_hold n c h pre [] = Inr (Some True)"
| "guard_predicates_hold n c h pre (g # gs) =
     rbind (eval_at n c (gp_cycle g)) (\<lambda>cv.
     rbind (eval_at n c (gp_expected g)) (\<lambda>v.
       case (valid_cycle h cv, v) of
         (Some i, Some w) \<Rightarrow>
           rbind (or_raise (map_of (pre ! nat i) (gp_state g)) PyKeyError) (\<lambda>a.
           rbind (compare_state (gp_op g) a w) (\<lambda>ok.
             if ok then guard_predicates_hold n c h pre gs else Inr (Some False)))
       | _ \<Rightarrow> Inr None))"

definition check_forward :: "nat \<Rightarrow> eval_context \<Rightarrow> int \<Rightarrow> cells list \<Rightarrow> guarded_forward \<Rightarrow> rejection option res" where
  "check_forward n c h pre g =
     rbind (eval_at n c (gf_antecedent g)) (\<lambda>a.
       if a = None then Inr (Some (AntecedentUnresolved (gf_name g)))
       else if \<not> is_True a then Inr None
       else rbind (guard_predicates_hold n c h pre (gf_predicates g)) (\<lambda>ok.
         case ok of
           None \<Rightarrow> Inr (Some (GuardUnresolved (gf_name g)))
         | Some b \<Rightarrow>
             if \<not> b then Inr None
             else rbind (eval_at n c (gf_consequent g)) (\<lambda>v.
               if is_True v then Inr None else Inr (Some (MissingOutput (gf_name g))))))"

fun any_support :: "nat \<Rightarrow> eval_context \<Rightarrow> int \<Rightarrow> cells list \<Rightarrow> support_candidate list \<Rightarrow> bool option res" where
  "any_support n c h pre [] = Inr (Some False)"
| "any_support n c h pre (s # ss) =
     rbind (eval_at n c (sc_expr s)) (\<lambda>v.
       if \<not> is_True v then any_support n c h pre ss
       else rbind (guard_predicates_hold n c h pre (sc_predicates s)) (\<lambda>ok.
         case ok of
           None \<Rightarrow> Inr None
         | Some b \<Rightarrow> if b then Inr (Some True) else any_support n c h pre ss))"

definition check_support :: "nat \<Rightarrow> eval_context \<Rightarrow> int \<Rightarrow> cells list \<Rightarrow> guarded_support \<Rightarrow> rejection option res" where
  "check_support n c h pre g =
     rbind (eval_at n c (gs_antecedent g)) (\<lambda>a.
       if a = None then Inr (Some (AntecedentUnresolved (gs_name g)))
       else if \<not> is_True a then Inr None
       else rbind (any_support n c h pre (gs_supports g)) (\<lambda>ok.
         case ok of
           None \<Rightarrow> Inr (Some (GuardUnresolved (gs_name g)))
         | Some b \<Rightarrow> if b then Inr None else Inr (Some (UnsupportedOutput (gs_name g)))))"

fun first_rejection :: "('a \<Rightarrow> rejection option res) \<Rightarrow> 'a list \<Rightarrow> rejection option res" where
  "first_rejection f [] = Inr None"
| "first_rejection f (x # xs) =
     rbind (f x) (\<lambda>r. case r of Some j \<Rightarrow> Inr (Some j) | None \<Rightarrow> first_rejection f xs)"

definition check_guarded_transitions :: "nat \<Rightarrow> eval_context \<Rightarrow> bounded_problem \<Rightarrow> cells list \<Rightarrow> rejection option res" where
  "check_guarded_transitions n c p pre =
     (let h = cs_horizon (bp_spec p) in
      rbind (first_rejection (check_forward n c h pre) (bp_forwards p)) (\<lambda>r.
        case r of Some j \<Rightarrow> Inr (Some j)
        | None \<Rightarrow> first_rejection (check_support n c h pre) (bp_supports p)))"

section \<open>The check\<close>

definition rejected :: "cells \<Rightarrow> cells \<Rightarrow> state_step list \<Rightarrow> rejection \<Rightarrow> state_check" where
  "rejected ini fin steps j = \<lparr>st_feasible = False, st_initial = ini, st_final = fin, st_steps = steps,
     st_reason = Some j\<rparr>"

text \<open>An early return becomes a result; an exception stays one.\<close>

definition or_reject :: "(py_error + rejection) + 'a \<Rightarrow> (rejection \<Rightarrow> state_check) \<Rightarrow>
    ('a \<Rightarrow> state_check res) \<Rightarrow> state_check res" where
  "or_reject r early f =
     (case r of Inl (Inl e) \<Rightarrow> Inl e | Inl (Inr j) \<Rightarrow> Inr (early j) | Inr x \<Rightarrow> f x)"

definition check_state_semantics :: "nat \<Rightarrow> bounded_problem \<Rightarrow> (string \<Rightarrow> pyval option) \<Rightarrow> state_check res" where
  "check_state_semantics n p asg =
     (let c = problem_context p asg; h = cs_horizon (bp_spec p) in
      or_reject (initial_cells n c (cs_state_variables (bp_spec p))) (rejected [] [] []) (\<lambda>ini.
      or_reject (by_cycle (requirement_effect n c h) (bp_requirements p)) (rejected ini [] []) (\<lambda>reqs.
      or_reject (by_cycle (update_effect n c h) (bp_updates p)) (rejected ini [] []) (\<lambda>upds.
      rbind (simulate (dict_list reqs) (dict_list upds) (map fst reqs @ map fst upds) [0..h]
              \<lparr>sim_state = ini, sim_pre = [], sim_steps = []\<rparr>) (\<lambda>(s, rej).
        case rej of
          Some j \<Rightarrow> Inr (rejected ini (sim_state s) (sim_steps s) j)
        | None \<Rightarrow>
            rbind (check_guarded_transitions n c p (sim_pre s)) (\<lambda>r.
              case r of
                Some j \<Rightarrow> Inr (rejected ini (sim_state s) (sim_steps s) j)
              | None \<Rightarrow> Inr \<lparr>st_feasible = True, st_initial = ini, st_final = sim_state s,
                  st_steps = sim_steps s, st_reason = None\<rparr>))))))"

end
