(* ===== verification/FiniteSolver.thy ===== *)
theory FiniteSolver
  imports StateSim
begin

text \<open>
  \<open>src/src/umcm/solver/finite.py\<close>: the bounded-domain solver. \<open>build_variables\<close> collects the
  symbols of a problem and gives each a finite domain; \<open>search\<close> is the depth-first search over the
  variables, with the closures \<open>constraints_consistent\<close> and the leaf's test as arguments, as in
  the code. The code keeps one assignment and removes a variable when its loop ends, so every
  call sees exactly the choices on its path; the model passes that path.
\<close>

section \<open>Variables and domains\<close>

record finite_variable =
  fv_name :: string
  fv_sort :: pysort
  fv_domain :: "pyval list"

record collected =
  vc_symbols :: "(string \<times> pysort) list"
  vc_concrete :: "(pysort \<times> pyval list) list"

definition record_symbol :: "collected \<Rightarrow> string \<times> pysort \<Rightarrow> collected res" where
  "record_symbol d symbol =
     (case symbol of (name, s) \<Rightarrow>
        rbind (require (map_of (vc_symbols d) name \<in> {None, Some s}) SolverError) (\<lambda>_.
          Inr (d\<lparr>vc_symbols := AList.update name s (vc_symbols d)\<rparr>)))"

text \<open>\<open>concrete.setdefault(sort, set()).add(value)\<close>; an equal member stays as it is.\<close>

definition record_value :: "collected \<Rightarrow> pysort \<times> pyval \<Rightarrow> collected res" where
  "record_value d sv =
     (case sv of (s, v) \<Rightarrow>
        rbind (require (hashable v) PyTypeError) (\<lambda>_.
          let old = dict_list (vc_concrete d) s in
          Inr (d\<lparr>vc_concrete := AList.update s (if py_mem v old then old else old @ [v]) (vc_concrete d)\<rparr>)))"

definition record_expression :: "collected \<Rightarrow> expr \<Rightarrow> collected res" where
  "record_expression d e =
     rbind (fold_res record_symbol d (iter_symbols e)) (\<lambda>d'.
       fold_res record_value d' (map (\<lambda>(v, s). (s, VScalar v)) (iter_literals e)))"

definition record_attribute :: "collected \<Rightarrow> pysort \<Rightarrow> pyval \<Rightarrow> collected res" where
  "record_attribute d s v = (case v of VExpr e \<Rightarrow> record_expression d e | _ \<Rightarrow> record_value d (s, v))"

definition record_event :: "event_catalog \<Rightarrow> collected \<Rightarrow> event_instance \<Rightarrow> collected res" where
  "record_event c d ev =
     rbind (resolve c (ei_type ev)) (\<lambda>t.
     rbind (record_attribute d BOOL_SORT (ei_occurs ev)) (\<lambda>d1.
     rbind (if ei_cycle ev = VNone then Inr d1 else record_attribute d1 INT_SORT (ei_cycle ev)) (\<lambda>d2.
       fold_res (\<lambda>d (name, v). rbind (get_spec t name PyKeyError) (\<lambda>spec. record_attribute d (fs_sort spec) v))
         d2 (ei_fields ev))))"

definition collect_symbols :: "bounded_problem \<Rightarrow> collected res" where
  "collect_symbols p =
     rbind (fold_res (record_event (bp_catalog p)) \<lparr>vc_symbols = [], vc_concrete = []\<rparr> (bp_events p)) (\<lambda>d1.
     rbind (fold_res record_expression d1 (map nc_expr (bp_constraints p))) (\<lambda>d2.
     rbind (fold_res (\<lambda>d v. record_attribute d (sv_sort v) (sv_initial v)) d2
       (cs_state_variables (bp_spec p))) (\<lambda>d3.
     rbind (fold_res record_expression d3
       (concat (map (\<lambda>r. [ri_activation r, ri_cycle r, ri_expected r]) (bp_requirements p)))) (\<lambda>d4.
       fold_res record_expression d4
         (concat (map (\<lambda>u. [ui_activation u, ui_cycle u, ui_value u]) (bp_updates p)))))))"

definition strict_ints :: "pyval list \<Rightarrow> int list" where
  "strict_ints vs = concat (map (\<lambda>v. case strict_int v of Some i \<Rightarrow> [i] | None \<Rightarrow> []) vs)"

definition domain_for :: "pysort \<Rightarrow> pyval list \<Rightarrow> int \<Rightarrow> pyval list res" where
  "domain_for s observed horizon =
     (if is_bool s then Inr [VBool False, VBool True]
      else if is_int s then Inr (map VInt (sort (remdups ([0..horizon] @ strict_ints observed))))
      else if is_bitvector s then
        (case sort_width s of
           None \<Rightarrow> Inl PyAssertionError
         | Some w \<Rightarrow> Inr (map VInt (sort (remdups (strict_ints observed @ [0..min (2 ^ nat w - 1) horizon])))))
      else if observed = [] then Inl SolverError
      else Inr (sort_key (\<lambda>v. (type_name v, py_repr v)) observed))"

definition variable_rank :: "pysort \<Rightarrow> nat" where
  "variable_rank s =
     (if is_bool s then 0
      else if \<not> (is_int s \<or> is_bitvector s \<or> is_string s) then 1
      else if is_string s then 1
      else if is_bitvector s then 2
      else 3)"

definition build_variables :: "bounded_problem \<Rightarrow> finite_variable list res" where
  "build_variables p =
     rbind (collect_symbols p) (\<lambda>d.
     rbind (traverse (\<lambda>(name, s).
         rbind (domain_for s (dict_list (vc_concrete d) s) (cs_horizon (bp_spec p))) (\<lambda>dom.
           Inr \<lparr>fv_name = name, fv_sort = s, fv_domain = dom\<rparr>)) (vc_symbols d)) (\<lambda>vars.
       Inr (sort_key (\<lambda>v. (variable_rank (fv_sort v), length (fv_domain v), fv_name v)) vars)))"

section \<open>Search\<close>

type_synonym assignment = "(string \<times> pyval) list"

datatype leaf_outcome =
    Accepted state_check
  | StateRejected rejection
  | Undecided
  | Falsified

record search_state =
  ss_explored :: int
  ss_unknown :: bool
  ss_failure :: "rejection option"

type_synonym search_result = "((assignment \<times> state_check) option \<times> search_state) res"

definition visit_leaf :: "(assignment \<Rightarrow> leaf_outcome res) \<Rightarrow> assignment \<Rightarrow> search_state \<Rightarrow> search_result" where
  "visit_leaf leaf a st =
     rbind (leaf a) (\<lambda>out.
       case out of
         Accepted r \<Rightarrow> Inr (Some (a, r), st)
       | StateRejected j \<Rightarrow> Inr (None, st\<lparr>ss_failure := Some j\<rparr>)
       | Undecided \<Rightarrow> Inr (None, st\<lparr>ss_unknown := True\<rparr>)
       | Falsified \<Rightarrow> Inr (None, st))"

text \<open>The loop over a domain: stop at a witness or when the node limit is exceeded.\<close>

fun try_values :: "int \<Rightarrow> (pyval \<Rightarrow> search_state \<Rightarrow> search_result) \<Rightarrow> pyval list \<Rightarrow> search_state \<Rightarrow> search_result" where
  "try_values limit f [] st = Inr (None, st)"
| "try_values limit f (v # vs) st =
     rbind (f v st) (\<lambda>(w, st').
       if w \<noteq> None then Inr (w, st')
       else if ss_explored st' > limit then Inr (None, st')
       else try_values limit f vs st')"

fun search :: "(assignment \<Rightarrow> bool res) \<Rightarrow> (assignment \<Rightarrow> leaf_outcome res) \<Rightarrow> int \<Rightarrow> finite_variable list \<Rightarrow>
    assignment \<Rightarrow> search_state \<Rightarrow> search_result" where
  "search consistent leaf limit [] a st0 =
     (let st = st0\<lparr>ss_explored := ss_explored st0 + 1\<rparr> in
      if ss_explored st > limit then Inr (None, st)
      else rbind (consistent a) (\<lambda>ok.
        if \<not> ok then Inr (None, st) else visit_leaf leaf a st))"
| "search consistent leaf limit (x # xs) a st0 =
     (let st = st0\<lparr>ss_explored := ss_explored st0 + 1\<rparr> in
      if ss_explored st > limit then Inr (None, st)
      else rbind (consistent a) (\<lambda>ok.
        if \<not> ok then Inr (None, st)
        else try_values limit (\<lambda>v st'. search consistent leaf limit xs (AList.update (fv_name x) v a) st')
               (fv_domain x) st))"

fun no_constraint_false :: "nat \<Rightarrow> eval_context \<Rightarrow> expr list \<Rightarrow> bool res" where
  "no_constraint_false n c [] = Inr True"
| "no_constraint_false n c (e # es) =
     rbind (eval_at n c e) (\<lambda>v. if is_False v then Inr False else no_constraint_false n c es)"

definition constraints_consistent :: "nat \<Rightarrow> bounded_problem \<Rightarrow> assignment \<Rightarrow> bool res" where
  "constraints_consistent n p a =
     no_constraint_false n (problem_context p (map_of a)) (map nc_expr (bp_constraints p))"

definition test_leaf :: "nat \<Rightarrow> bounded_problem \<Rightarrow> assignment \<Rightarrow> leaf_outcome res" where
  "test_leaf n p a =
     rbind (traverse (eval_at n (problem_context p (map_of a))) (map nc_expr (bp_constraints p))) (\<lambda>vals.
       if list_all is_True vals then
         rbind (check_state_semantics n p (map_of a)) (\<lambda>r.
           if st_feasible r then Inr (Accepted r)
           else (case st_reason r of Some j \<Rightarrow> Inr (StateRejected j) | None \<Rightarrow> Inr Falsified))
       else if list_ex (\<lambda>v. v = None) vals then Inr Undecided
       else Inr Falsified)"

section \<open>The result\<close>

datatype finite_status = Sat | Unsat | Unknown

datatype solve_reason =
    Solved
  | NodeLimitExceeded int
  | UnknownLeaf
  | NoAssignment int "rejection option"

record solve_result =
  fs_status :: finite_status
  fs_assignment :: assignment
  fs_explored :: int
  fs_reason :: solve_reason
  fs_state :: "state_check option"

definition solve_outcome :: "int \<Rightarrow> int \<Rightarrow> (assignment \<times> state_check) option \<times> search_state \<Rightarrow> solve_result" where
  "solve_outcome limit horizon found =
     (case found of (w, st) \<Rightarrow>
        (case w of
           Some (a, r) \<Rightarrow> \<lparr>fs_status = Sat, fs_assignment = a, fs_explored = ss_explored st,
             fs_reason = Solved, fs_state = Some r\<rparr>
         | None \<Rightarrow>
             if ss_explored st > limit then
               \<lparr>fs_status = Unknown, fs_assignment = [], fs_explored = ss_explored st,
                 fs_reason = NodeLimitExceeded limit, fs_state = None\<rparr>
             else if ss_unknown st then
               \<lparr>fs_status = Unknown, fs_assignment = [], fs_explored = ss_explored st,
                 fs_reason = UnknownLeaf, fs_state = None\<rparr>
             else
               \<lparr>fs_status = Unsat, fs_assignment = [], fs_explored = ss_explored st,
                 fs_reason = NoAssignment horizon (ss_failure st), fs_state = None\<rparr>))"

definition solve_finite :: "nat \<Rightarrow> int \<Rightarrow> bounded_problem \<Rightarrow> solve_result res" where
  "solve_finite n limit p =
     rbind (build_variables p) (\<lambda>vars.
     rbind (search (constraints_consistent n p) (test_leaf n p) limit vars []
              \<lparr>ss_explored = 0, ss_unknown = False, ss_failure = None\<rparr>) (\<lambda>found.
       Inr (solve_outcome limit (cs_horizon (bp_spec p)) found)))"

end
