(* ===== verification/StateSteps.thy ===== *)
theory StateSteps
  imports StateSim ProblemFacts
begin

text \<open>
  The contract of \<open>solver/state.py\<close> as a step relation on states (maps from cells to values), and the
  simulation's refinement of it: the code accepts a problem exactly when the relation has a run
  through all cycles, and its states are the states of that run.
\<close>

section \<open>The step relation\<close>

type_synonym store = "string \<Rightarrow> pyval option"
type_synonym timed_requirement = "requirement_instance \<times> pyval"
type_synonym timed_update = "update_instance \<times> pyval"

definition writes_to :: "timed_update list \<Rightarrow> string \<Rightarrow> pyval list" where
  "writes_to upds x = map snd (filter (\<lambda>(u, _). ui_state u = x) upds)"

definition requirements_met :: "timed_requirement list \<Rightarrow> store \<Rightarrow> bool" where
  "requirements_met reqs s \<longleftrightarrow>
     (\<forall>(r, v) \<in> set reqs. \<exists>a. s (ri_state r) = Some a \<and> compare_state (ri_op r) a v = Inr True)"

definition writes_agree :: "timed_update list \<Rightarrow> store \<Rightarrow> bool" where
  "writes_agree upds s \<longleftrightarrow>
     (\<forall>(u, v) \<in> set upds. hashable v \<and> s (ui_state u) \<noteq> None \<and>
        (\<forall>w \<in> set (writes_to upds (ui_state u)). py_eq v w))"

definition written :: "timed_update list \<Rightarrow> store \<Rightarrow> store" where
  "written upds s = (\<lambda>x. case writes_to upds x of [] \<Rightarrow> s x | v # _ \<Rightarrow> Some v)"

inductive cycle_step :: "timed_requirement list \<Rightarrow> timed_update list \<Rightarrow> store \<Rightarrow> store \<Rightarrow> bool" where
  step: "requirements_met reqs s \<Longrightarrow> writes_agree upds s \<Longrightarrow> cycle_step reqs upds s (written upds s)"

inductive_simps cycle_step_iff: "cycle_step reqs upds s s'"

inductive reaches :: "(int \<Rightarrow> timed_requirement list) \<Rightarrow> (int \<Rightarrow> timed_update list) \<Rightarrow> store \<Rightarrow> nat \<Rightarrow> store \<Rightarrow> bool"
  for R U s0 where
  start: "reaches R U s0 0 s0"
| cycle: "reaches R U s0 k s \<Longrightarrow> cycle_step (R (int k)) (U (int k)) s s' \<Longrightarrow> reaches R U s0 (Suc k) s'"

inductive_cases reaches_0E: "reaches R U s0 0 s"
inductive_cases reaches_SucE: "reaches R U s0 (Suc k) s"

lemma cycle_step_det: "cycle_step reqs upds s a \<Longrightarrow> cycle_step reqs upds s b \<Longrightarrow> a = b"
  by (auto simp: cycle_step_iff)

lemma cycle_step_frame: "cycle_step reqs upds s s' \<Longrightarrow> \<forall>(u, v) \<in> set upds. ui_state u \<noteq> x \<Longrightarrow> s' x = s x"
proof -
  assume s: "cycle_step reqs upds s s'" and "\<forall>(u, v) \<in> set upds. ui_state u \<noteq> x"
  then have "writes_to upds x = []" by (auto simp: writes_to_def filter_empty_conv)
  then show ?thesis using s by (simp add: cycle_step_iff written_def)
qed

lemma cycle_step_dom: "cycle_step reqs upds s s' \<Longrightarrow> dom s' = dom s"
proof -
  assume "cycle_step reqs upds s s'"
  then have w: "writes_agree upds s" "s' = written upds s" by (simp_all add: cycle_step_iff)
  have "s' x = None \<longleftrightarrow> s x = None" for x
  proof (cases "writes_to upds x")
    case Nil
    then show ?thesis by (simp add: w(2) written_def)
  next
    case (Cons v vs)
    then have "v \<in> set (writes_to upds x)" by simp
    then obtain u where "(u, v) \<in> set upds" "ui_state u = x" by (auto simp: writes_to_def)
    then show ?thesis using w Cons by (auto simp: written_def writes_agree_def)
  qed
  then show ?thesis by (auto simp: dom_def)
qed

lemma reaches_det: "reaches R U s0 k a \<Longrightarrow> reaches R U s0 k b \<Longrightarrow> a = b"
proof (induction k arbitrary: a b)
  case 0
  then show ?case by (auto elim: reaches_0E)
next
  case (Suc k)
  then show ?case by (metis reaches_SucE cycle_step_det)
qed

lemma reaches_earlier: "reaches R U s0 m s \<Longrightarrow> k \<le> m \<Longrightarrow> \<exists>s'. reaches R U s0 k s'"
proof (induction m arbitrary: s)
  case (Suc m)
  show ?case
  proof (cases "k = Suc m")
    case False
    obtain s' where "reaches R U s0 m s'" using Suc.prems(1) by (rule reaches_SucE)
    then show ?thesis using Suc False by simp
  qed (use Suc.prems in blast)
qed auto

lemma reaches_dom: "reaches R U s0 k s \<Longrightarrow> dom s = dom s0"
  by (induction rule: reaches.induct) (simp_all add: cycle_step_dom)

section \<open>The writes of one cycle\<close>

lemma hd_py_set: "hd (py_set (v # vs)) = v"
  by simp

lemma py_set_single: "vs \<noteq> [] \<Longrightarrow> length (py_set vs) = 1 \<longleftrightarrow> (\<forall>v \<in> set vs. py_eq (hd vs) v)"
proof (cases vs)
  case (Cons v ws)
  have mem: "set (py_set xs) \<subseteq> set xs" for xs by (induction xs) auto
  have rep: "x \<in> set xs \<Longrightarrow> \<exists>y \<in> set (py_set xs). py_eq y x" for x xs
  proof (induction xs)
    case (Cons a xs)
    show ?case
    proof (cases "py_eq a x")
      case False
      then obtain y where y: "y \<in> set (py_set xs)" "py_eq y x" using Cons by auto
      then have "\<not> py_eq a y" using False by (auto simp: py_eq_def)
      then show ?thesis using y by auto
    qed simp
  qed simp
  have "length (py_set vs) = 1 \<longleftrightarrow> (\<forall>y \<in> set (py_set ws). py_eq v y)"
    using Cons by (auto simp: filter_empty_conv)
  also have "\<dots> \<longleftrightarrow> (\<forall>y \<in> set ws. py_eq v y)"
    using mem [of ws] rep [of _ ws] by (meson py_eq_trans subset_iff)
  finally show ?thesis using Cons by simp
qed simp

definition group_ok :: "(update_instance \<times> pyval) list \<Rightarrow> bool" where
  "group_ok ws \<longleftrightarrow> (\<forall>(u, v) \<in> set ws. hashable v \<and> py_eq (snd (hd ws)) v)"

lemma apply_group_Inr:
  assumes "ws \<noteq> []"
  shows "apply_group cyc (st, names, chs) (name, ws) = Inr r \<longleftrightarrow>
    group_ok ws \<and> (\<exists>old. map_of st name = Some old \<and>
      r = (AList.update name (snd (hd ws)) st, names @ map (\<lambda>(u, _). ui_name u) ws,
        chs @ (if py_eq old (snd (hd ws)) then []
          else [\<lparr>sg_state = name, sg_before = old, sg_after = snd (hd ws),
            sg_origins = map (\<lambda>(u, _). ui_name u) ws\<rparr>])))"
proof -
  have ne: "map snd ws \<noteq> []" using assms by simp
  have hd: "hd (py_set (map snd ws)) = snd (hd ws)" using assms by (cases ws) auto
  have one: "list_all hashable (map snd ws) \<and> length (py_set (map snd ws)) = 1 \<longleftrightarrow> group_ok ws"
    unfolding py_set_single [OF ne] group_ok_def using assms by (auto simp: list_all_iff hd_map)
  have "apply_group cyc (st, names, chs) (name, ws) = Inr r \<longleftrightarrow>
    list_all hashable (map snd ws) \<and> length (py_set (map snd ws)) = 1 \<and>
    (\<exists>old. map_of st name = Some old \<and> r = (AList.update name (hd (py_set (map snd ws))) st,
      names @ map (\<lambda>(u, _). ui_name u) ws,
      chs @ (if py_eq old (hd (py_set (map snd ws))) then []
        else [\<lparr>sg_state = name, sg_before = old, sg_after = hd (py_set (map snd ws)),
          sg_origins = map (\<lambda>(u, _). ui_name u) ws\<rparr>])))"
    unfolding apply_group_def Let_def prod.case rbind_Inr_iff require_Inr_iff
    by (auto simp: raising_def or_raise_def simp del: py_set.simps split: option.splits)
  then show ?thesis unfolding hd one [symmetric] by blast
qed

lemma fold_groups:
  assumes "distinct (map fst gs)" and "\<forall>(x, ws) \<in> set gs. ws \<noteq> []"
  shows "(\<exists>r. fold_res (apply_group cyc) (st, names, chs) gs = Inr r) \<longleftrightarrow>
      (\<forall>(x, ws) \<in> set gs. group_ok ws \<and> map_of st x \<noteq> None)"
    and "fold_res (apply_group cyc) (st, names, chs) gs = Inr r \<Longrightarrow>
      map_of (fst r) = (\<lambda>x. case map_of gs x of Some ws \<Rightarrow> Some (snd (hd ws)) | None \<Rightarrow> map_of st x)"
  using assms
proof (induction gs arbitrary: st names chs r)
  case Nil
  case 1
  show ?case by simp
  case 2
  then show ?case by auto
next
  case (Cons g gs)
  obtain x ws where g: "g = (x, ws)" by fastforce
  have ws: "\<forall>(x, ws) \<in> set (g # gs). ws \<noteq> [] \<Longrightarrow> ws \<noteq> []" using g by auto
  {
    case 1
    let ?st = "AList.update x (snd (hd ws)) st"
    have other: "map_of ?st y = map_of st y" if "y \<in> fst ` set gs" "distinct (map fst (g # gs))" for y
      using that g by (auto simp: update_conv')
    have rest: "distinct (map fst gs)" "\<forall>(x, ws) \<in> set gs. ws \<noteq> []" using 1 by auto
    note ag = apply_group_Inr [OF ws [OF 1(2)], of cyc st names chs x]
    show ?case
    proof
      assume "\<exists>r. fold_res (apply_group cyc) (st, names, chs) (g # gs) = Inr r"
      then obtain r r' where r: "apply_group cyc (st, names, chs) (x, ws) = Inr r'"
        "fold_res (apply_group cyc) r' gs = Inr r" by (auto simp: g rbind_Inr_iff)
      have ok: "group_ok ws" "map_of st x \<noteq> None" and "\<exists>n' c'. r' = (?st, n', c')"
        using r(1) unfolding ag by auto
      then obtain n' c' where r': "r' = (?st, n', c')" by blast
      have "\<forall>(y, vs) \<in> set gs. group_ok vs \<and> map_of ?st y \<noteq> None"
        using Cons.IH(1) [OF rest, of ?st n' c'] r(2) unfolding r' by blast
      then show "\<forall>(y, vs) \<in> set (g # gs). group_ok vs \<and> map_of st y \<noteq> None"
        using ok other 1(1) by (fastforce simp: g)
    next
      assume *: "\<forall>(y, vs) \<in> set (g # gs). group_ok vs \<and> map_of st y \<noteq> None"
      then obtain n' c' where r': "apply_group cyc (st, names, chs) (x, ws) = Inr (?st, n', c')"
        unfolding ag by (auto simp: g)
      have "\<forall>(y, vs) \<in> set gs. group_ok vs \<and> map_of ?st y \<noteq> None"
        using * other 1(1) by (fastforce simp: g)
      then show "\<exists>r. fold_res (apply_group cyc) (st, names, chs) (g # gs) = Inr r"
        using Cons.IH(1) [OF rest, of ?st n' c'] r' by (auto simp: g)
    qed
  next
    case 2
    let ?st = "AList.update x (snd (hd ws)) st"
    have other: "map_of ?st y = map_of st y" if "y \<in> fst ` set gs" "distinct (map fst (g # gs))" for y
      using that g by (auto simp: update_conv')
    have rest: "distinct (map fst gs)" "\<forall>(x, ws) \<in> set gs. ws \<noteq> []" using 2 by auto
    note ag = apply_group_Inr [OF ws [OF 2(3)], of cyc st names chs x]
    from 2(1) obtain r' where r': "apply_group cyc (st, names, chs) (x, ws) = Inr r'"
      "fold_res (apply_group cyc) r' gs = Inr r" by (auto simp: g rbind_Inr_iff)
    obtain n' c' where e: "r' = (?st, n', c')" using r'(1) unfolding ag by blast
    have "map_of (fst r) = (\<lambda>y. case map_of gs y of Some vs \<Rightarrow> Some (snd (hd vs)) | None \<Rightarrow> map_of ?st y)"
      using Cons.IH(2) [OF _ rest, of ?st n' c' r] r'(2) unfolding e by simp
    moreover have "map_of gs x = None" using 2(2) by (simp add: g map_of_eq_None_iff)
    ultimately show ?case by (auto simp: g update_conv' fun_eq_iff split: option.split)
  }
qed

lemma sorted_groups_lookup:
  "distinct (map fst kvs) \<Longrightarrow> map_of (sort_key fst kvs) = map_of kvs \<and> distinct (map fst (sort_key fst kvs))"
proof -
  assume d: "distinct (map fst kvs)"
  then have "distinct (map fst (sort_key fst kvs))" by (simp add: distinct_map)
  moreover from this d have "map_of (sort_key fst kvs) = map_of kvs" by (subst map_of_inject_set) simp_all
  ultimately show ?thesis by blast
qed

lemma written_groups:
  "(\<lambda>x. case map_of (group_by (\<lambda>(u, _). ui_state u) upds) x of
      Some ws \<Rightarrow> Some (snd (hd ws)) | None \<Rightarrow> s x) = written upds s"
proof
  fix x
  let ?ws = "filter (\<lambda>(u, _). ui_state u = x) upds"
  have e: "filter (\<lambda>w. (case w of (u, _) \<Rightarrow> ui_state u) = x) upds = ?ws"
    by (rule filter_cong) auto
  show "(case map_of (group_by (\<lambda>(u, _). ui_state u) upds) x of Some ws \<Rightarrow> Some (snd (hd ws)) | None \<Rightarrow> s x)
      = written upds s x"
  proof (cases ?ws)
    case Nil
    then have "x \<notin> (\<lambda>(u, _). ui_state u) ` set upds" by (auto simp: filter_empty_conv)
    then show ?thesis using Nil by (simp add: map_of_group_by written_def writes_to_def)
  next
    case (Cons w ws)
    then have "w \<in> set ?ws" by simp
    then have "x \<in> (\<lambda>(u, _). ui_state u) ` set upds" by (auto simp: image_iff split: prod.splits)
    then show ?thesis using Cons e by (simp add: map_of_group_by written_def writes_to_def)
  qed
qed

lemma groups_agree:
  "(\<forall>(x, ws) \<in> set (group_by (\<lambda>(u, _). ui_state u) upds). group_ok ws \<and> s x \<noteq> None) \<longleftrightarrow> writes_agree upds s"
  (is "?L \<longleftrightarrow> ?R")
proof -
  let ?g = "group_by (\<lambda>(u, _). ui_state u) upds"
  have mem: "(x, ws) \<in> set ?g \<longleftrightarrow> x \<in> (\<lambda>(u, _). ui_state u) ` set upds \<and>
      ws = filter (\<lambda>w. (case w of (u, _) \<Rightarrow> ui_state u) = x) upds" for x ws
    using map_of_eq_Some_iff [OF distinct_group_by [of "\<lambda>(u, _). ui_state u" upds], of x ws]
    by (auto simp: map_of_group_by split: if_splits)
  show ?thesis
  proof
    assume L: ?L
    show ?R unfolding writes_agree_def
    proof (intro ballI, clarify)
      fix u v assume uv: "(u, v) \<in> set upds"
      let ?ws = "filter (\<lambda>w. (case w of (u, _) \<Rightarrow> ui_state u) = ui_state u) upds"
      have "(ui_state u, ?ws) \<in> set ?g" unfolding mem using uv by force
      then have ok: "group_ok ?ws" "s (ui_state u) \<noteq> None" using L by auto
      have all: "hashable w \<and> py_eq (snd (hd ?ws)) w" if "(u', w) \<in> set upds" "ui_state u' = ui_state u" for u' w
        using ok(1) that by (auto simp: group_ok_def)
      have "py_eq v w" if "w \<in> set (writes_to upds (ui_state u))" for w
        using all [OF uv refl] all that unfolding writes_to_def
        by (auto intro: py_eq_trans simp: py_eq_sym)
      then show "hashable v \<and> s (ui_state u) \<noteq> None \<and> (\<forall>w \<in> set (writes_to upds (ui_state u)). py_eq v w)"
        using all [OF uv refl] ok(2) by blast
    qed
  next
    assume R: ?R
    show ?L
    proof (intro ballI, clarify)
      fix x ws assume g: "(x, ws) \<in> set ?g"
      then have ws: "ws = filter (\<lambda>w. (case w of (u, _) \<Rightarrow> ui_state u) = x) upds"
        and x: "x \<in> (\<lambda>(u, _). ui_state u) ` set upds" using mem by auto
      have inws: "(u, v) \<in> set upds \<and> ui_state u = x" if "(u, v) \<in> set ws" for u v using that ws by auto
      obtain u1 v1 where "(u1, v1) \<in> set upds" "ui_state u1 = x" using x by auto
      then have "(u1, v1) \<in> set ws" by (simp add: ws)
      then have ne: "ws \<noteq> []" by auto
      then obtain u0 v0 where hd: "hd ws = (u0, v0)" "(u0, v0) \<in> set ws" by (metis hd_in_set prod.exhaust)
      have "hashable v \<and> py_eq v0 v" if uv: "(u, v) \<in> set ws" for u v
      proof -
        have "v \<in> set (writes_to upds (ui_state u0))"
          using inws [OF uv] inws [OF hd(2)] by (force simp: writes_to_def)
        then show ?thesis using R inws [OF uv] inws [OF hd(2)] unfolding writes_agree_def by blast
      qed
      then have "group_ok ws" by (auto simp: group_ok_def hd(1))
      moreover have "s x \<noteq> None" using R inws [OF hd(2)] unfolding writes_agree_def by blast
      ultimately show "group_ok ws \<and> s x \<noteq> None" by blast
    qed
  qed
qed

section \<open>Refinement\<close>

lemma check_requirements_Inr:
  "(\<exists>us. traverse (check_requirement cyc st) reqs = Inr us) \<longleftrightarrow> requirements_met reqs (map_of st)"
proof -
  have "(\<exists>u. check_requirement cyc st (r, v) = Inr u) \<longleftrightarrow>
      (\<exists>a. map_of st (ri_state r) = Some a \<and> compare_state (ri_op r) a v = Inr True)" for r v
    by (auto simp: check_requirement_def raising_def or_raise_def rbind_Inr_iff require_Inr_iff
        split: option.splits sum.splits)
  then show ?thesis unfolding traverse_ok_iff requirements_met_def by auto
qed

lemma run_cycle_step:
  "(\<exists>r. run_cycle cyc reqs upds st = Inr r) \<longleftrightarrow> (\<exists>s'. cycle_step reqs upds (map_of st) s')"
  "run_cycle cyc reqs upds st = Inr (st', names, chs) \<Longrightarrow> cycle_step reqs upds (map_of st) (map_of st')"
proof -
  let ?g = "group_by (\<lambda>(u, _). ui_state u) upds"
  note srt = sorted_groups_lookup [OF distinct_group_by [of "\<lambda>(u, _). ui_state u" upds]]
  have ne: "\<forall>(x, ws) \<in> set (sort_key fst ?g). ws \<noteq> []"
  proof (clarify)
    fix x assume "(x, []) \<in> set (sort_key fst ?g)"
    then have "map_of ?g x = Some []" by (simp add: map_of_is_SomeI)
    then show False by (auto simp: map_of_group_by filter_empty_conv split: if_splits)
  qed
  note fg = fold_groups [OF conjunct2 [OF srt] ne, of cyc st "[]" "[]"]
  have ok: "(\<exists>r. fold_res (apply_group cyc) (st, [], []) (sort_key fst ?g) = Inr r) \<longleftrightarrow> writes_agree upds (map_of st)"
    unfolding fg(1) set_sort groups_agree ..
  show "(\<exists>r. run_cycle cyc reqs upds st = Inr r) \<longleftrightarrow> (\<exists>s'. cycle_step reqs upds (map_of st) s')"
    unfolding run_cycle_def rbind_Inr_iff cycle_step_iff using ok check_requirements_Inr [of cyc st reqs] by blast
  assume "run_cycle cyc reqs upds st = Inr (st', names, chs)"
  then obtain us where u: "traverse (check_requirement cyc st) reqs = Inr us"
    and f: "fold_res (apply_group cyc) (st, [], []) (sort_key fst ?g) = Inr (st', names, chs)"
    unfolding run_cycle_def rbind_Inr_iff by blast
  have "map_of st' = written upds (map_of st)"
    using fg(2) [OF f] written_groups [where upds = upds and s = "map_of st"] conjunct1 [OF srt] by simp
  then show "cycle_step reqs upds (map_of st) (map_of st')"
    unfolding cycle_step_iff using u f ok check_requirements_Inr [of cyc st reqs] by blast
qed

lemma simulate_sound:
  assumes "simulate R U active (map int [k..<m]) s = Inr (t, None)" and "k \<le> m"
    and "reaches R U s0 k (map_of (sim_state s))"
  shows "reaches R U s0 m (map_of (sim_state t))"
    and "\<exists>new. sim_pre t = sim_pre s @ new \<and> length new = m - k \<and>
      (\<forall>j < m - k. reaches R U s0 (k + j) (map_of (new ! j)))"
proof -
  have "reaches R U s0 m (map_of (sim_state t)) \<and> (\<exists>new. sim_pre t = sim_pre s @ new \<and> length new = m - k \<and>
      (\<forall>j < m - k. reaches R U s0 (k + j) (map_of (new ! j))))"
    using assms
  proof (induction "m - k" arbitrary: k s)
    case 0
    then show ?case by simp
  next
    case (Suc d)
    then have km: "k < m" and up: "[k..<m] = k # [Suc k..<m]" by (simp_all add: upt_conv_Cons)
    obtain st names chs where rc: "run_cycle (int k) (R (int k)) (U (int k)) (sim_state s) = Inr (st, names, chs)"
      using Suc.prems(1) unfolding up by (auto split: sum.splits)
    define s' where "s' = \<lparr>sim_state = st, sim_pre = sim_pre s @ [sim_state s],
        sim_steps = sim_steps s @ (if int k \<in> set active
          then [\<lparr>sp_cycle = int k, sp_before = sim_state s, sp_after = st,
            sp_requirements = map (\<lambda>(r, _). ri_name r) (R (int k)), sp_updates = names,
            sp_changes = chs\<rparr>] else [])\<rparr>"
    have rest: "simulate R U active (map int [Suc k..<m]) s' = Inr (t, None)"
      using Suc.prems(1) unfolding up by (simp add: rc s'_def)
    have reach: "reaches R U s0 (Suc k) (map_of (sim_state s'))"
      using reaches.cycle [OF Suc.prems(3) run_cycle_step(2) [OF rc]] by (simp add: s'_def)
    have "d = m - Suc k" "Suc k \<le> m" using Suc.hyps(2) km by simp_all
    from Suc.hyps(1) [OF this(1) rest this(2) reach] obtain new where IH: "reaches R U s0 m (map_of (sim_state t))" "sim_pre t = sim_pre s' @ new"
      "length new = m - Suc k" "\<forall>j < m - Suc k. reaches R U s0 (Suc k + j) (map_of (new ! j))"
      by blast
    have "reaches R U s0 (k + j) (map_of ((sim_state s # new) ! j))" if "j < m - k" for j
      using that IH(4) Suc.prems(3) by (cases j) auto
    moreover have "sim_pre t = sim_pre s @ (sim_state s # new)" "length (sim_state s # new) = m - k"
      using IH(2,3) km by (simp_all add: s'_def)
    ultimately show ?case using IH(1) by blast
  qed
  then show "reaches R U s0 m (map_of (sim_state t))"
    "\<exists>new. sim_pre t = sim_pre s @ new \<and> length new = m - k \<and>
      (\<forall>j < m - k. reaches R U s0 (k + j) (map_of (new ! j)))" by blast+
qed

lemma simulate_complete:
  assumes "reaches R U s0 m final" and "k \<le> m" and "reaches R U s0 k (map_of (sim_state s))"
  shows "\<exists>t. simulate R U active (map int [k..<m]) s = Inr (t, None)"
  using assms(2,3)
proof (induction "m - k" arbitrary: k s)
  case 0
  then show ?case by simp
next
  case (Suc d)
  then have km: "k < m" and up: "[k..<m] = k # [Suc k..<m]" by (simp_all add: upt_conv_Cons)
  obtain s1 where "reaches R U s0 (Suc k) s1" using reaches_earlier [OF assms(1), of "Suc k"] km by auto
  then obtain s2 where "reaches R U s0 k s2" "cycle_step (R (int k)) (U (int k)) s2 s1" by (rule reaches_SucE)
  then have "cycle_step (R (int k)) (U (int k)) (map_of (sim_state s)) s1"
    using reaches_det Suc.prems(2) by blast
  then obtain st names chs where rc: "run_cycle (int k) (R (int k)) (U (int k)) (sim_state s) = Inr (st, names, chs)"
    using run_cycle_step(1) [where cyc = "int k" and reqs = "R (int k)" and upds = "U (int k)" and st = "sim_state s"] by (metis prod_cases3)
  have "reaches R U s0 (Suc k) (map_of st)"
    by (rule reaches.cycle [OF Suc.prems(2) run_cycle_step(2) [OF rc]])
  then show ?case using Suc.hyps(1) [of "Suc k"] Suc.hyps(2) km unfolding up by (simp add: rc)
qed

lemma cycles_upto: "[0..h] = map int [0..<nat (h + 1)]"
proof -
  have "[0..int m - 1] = map int [0..<m]" for m by (induction m) (simp_all add: upto_rec2)
  from this [of "nat (h + 1)"] show ?thesis by (cases "0 \<le> h + 1") auto
qed

lemma simulate_refines:
  assumes "s = \<lparr>sim_state = ini, sim_pre = [], sim_steps = []\<rparr>" and "0 \<le> h"
  shows "(\<exists>t. simulate R U active [0..h] s = Inr (t, None)) \<longleftrightarrow> (\<exists>final. reaches R U (map_of ini) (nat (h + 1)) final)"
    and "simulate R U active [0..h] s = Inr (t, None) \<Longrightarrow>
      reaches R U (map_of ini) (nat (h + 1)) (map_of (sim_state t)) \<and> length (sim_pre t) = nat (h + 1) \<and>
      (\<forall>j < nat (h + 1). reaches R U (map_of ini) j (map_of (sim_pre t ! j)))"
proof -
  have start: "reaches R U (map_of ini) 0 (map_of (sim_state s))" using assms(1) by (simp add: reaches.start)
  show "(\<exists>t. simulate R U active [0..h] s = Inr (t, None)) \<longleftrightarrow> (\<exists>final. reaches R U (map_of ini) (nat (h + 1)) final)"
    unfolding cycles_upto
    using simulate_complete [OF _ _ start] simulate_sound(1) [OF _ _ start] by blast
  assume *: "simulate R U active [0..h] s = Inr (t, None)"
  note snd = simulate_sound [OF * [unfolded cycles_upto] _ start]
  show "reaches R U (map_of ini) (nat (h + 1)) (map_of (sim_state t)) \<and> length (sim_pre t) = nat (h + 1) \<and>
      (\<forall>j < nat (h + 1). reaches R U (map_of ini) j (map_of (sim_pre t ! j)))"
    using snd assms(1) by auto
qed

section \<open>Active requirements and updates of a cycle\<close>

text \<open>What the grouping by cycle computes: the active items of each cycle, in declaration order.\<close>

definition active_at :: "('a \<Rightarrow> 'e + (int \<times> pyval) option) \<Rightarrow> 'a list \<Rightarrow> int \<Rightarrow> ('a \<times> pyval) list" where
  "active_at f xs i = concat (map (\<lambda>x. case f x of
     Inr (Some (j, v)) \<Rightarrow> if j = i then [(x, v)] else [] | _ \<Rightarrow> []) xs)"

lemma active_at_simps [simp]:
  "active_at f [] i = []"
  "f x = Inr None \<Longrightarrow> active_at f (x # xs) i = active_at f xs i"
  "f x = Inr (Some (j, v)) \<Longrightarrow> active_at f (x # xs) i = (if j = i then (x, v) # active_at f xs i else active_at f xs i)"
  by (simp_all add: active_at_def)

lemma by_cycle_fold:
  "fold_res (\<lambda>d x. rbind (f x) (\<lambda>eff. case eff of None \<Rightarrow> Inr d | Some (i, v) \<Rightarrow> Inr (dict_append i (x, v) d))) d0 xs = Inr d \<Longrightarrow>
   (\<forall>x \<in> set xs. \<exists>e. f x = Inr e) \<and> (\<forall>i. dict_list d i = dict_list d0 i @ active_at f xs i) \<and>
   fst ` set d = fst ` set d0 \<union> {i. active_at f xs i \<noteq> []}"
proof (induction xs arbitrary: d0)
  case (Cons x xs)
  from Cons.prems obtain e where e: "f x = Inr e" by (auto simp: rbind_Inr_iff)
  show ?case
  proof (cases e)
    case None
    then show ?thesis using Cons.IH [of d0] Cons.prems e by simp
  next
    case (Some jv)
    then obtain j v where jv: "e = Some (j, v)" by (cases jv) auto
    have keys: "fst ` set (dict_append j (x, v) d0) = insert j (fst ` set d0)"
      by (auto simp: dict_append_def dom_update)
    show ?thesis using Cons.IH [of "dict_append j (x, v) d0"] Cons.prems e jv
      by (auto simp: dict_list_append keys)
  qed
qed simp

lemma by_cycle_ok: "(\<forall>x \<in> set xs. \<exists>e. f x = Inr e) \<Longrightarrow> \<exists>d. by_cycle f xs = Inr d"
proof -
  have "\<exists>d. fold_res (\<lambda>d x. rbind (f x) (\<lambda>eff. case eff of None \<Rightarrow> Inr d | Some (i, v) \<Rightarrow> Inr (dict_append i (x, v) d))) d0 xs = Inr d"
    if "\<forall>x \<in> set xs. \<exists>e. f x = Inr e" for d0 using that
  proof (induction xs arbitrary: d0)
    case (Cons x xs)
    then obtain e where e: "f x = Inr e" by auto
    then show ?case using Cons by (cases e) auto
  qed simp
  then show "(\<forall>x \<in> set xs. \<exists>e. f x = Inr e) \<Longrightarrow> \<exists>d. by_cycle f xs = Inr d" by (simp add: by_cycle_def)
qed

lemma by_cycle_Inr:
  assumes "by_cycle f xs = Inr d"
  shows "\<forall>x \<in> set xs. \<exists>e. f x = Inr e" and "dict_list d = active_at f xs" and "fst ` set d = {i. active_at f xs i \<noteq> []}"
  using by_cycle_fold [OF assms [unfolded by_cycle_def]] by (auto simp: dict_list_def fun_eq_iff)

section \<open>The whole check\<close>

text \<open>The guards look at the pre-states as maps only.\<close>

definition same_states :: "int \<Rightarrow> cells list \<Rightarrow> cells list \<Rightarrow> bool" where
  "same_states h pre pre' \<longleftrightarrow> (\<forall>j \<le> nat h. map_of (pre ! j) = map_of (pre' ! j))"

lemma valid_cycle_Some: "valid_cycle h v = Some i \<longleftrightarrow> v = Some (VInt i) \<and> 0 \<le> i \<and> i \<le> h"
  by (cases v) (auto simp: valid_cycle_def strict_int_iff split: option.splits if_splits)

lemma guard_predicates_cong:
  assumes s: "same_states h pre pre'"
  shows "guard_predicates_hold n c h pre gs = guard_predicates_hold n c h pre' gs"
proof (induction gs)
  case (Cons g gs)
  have "map_of (pre ! nat i) = map_of (pre' ! nat i)" if "valid_cycle h cv = Some i" for cv i
    using that s by (auto simp: valid_cycle_Some same_states_def nat_mono)
  then show ?case by (auto simp: Cons intro!: rbind_cong split: option.split)
qed simp

lemma any_support_cong:
  "same_states h pre pre' \<Longrightarrow> any_support n c h pre ss = any_support n c h pre' ss"
proof (induction ss)
  case (Cons s ss)
  show ?case
    unfolding any_support.simps guard_predicates_cong [OF Cons.prems] Cons.IH [OF Cons.prems] ..
qed simp

lemma first_rejection_None: "first_rejection f xs = Inr None \<longleftrightarrow> (\<forall>x \<in> set xs. f x = Inr None)"
proof (induction xs)
  case (Cons x xs)
  show ?case
  proof (cases "f x")
    case (Inr r)
    then show ?thesis using Cons by (cases r) auto
  qed simp
qed simp

lemma check_guarded_cong:
  assumes "same_states (cs_horizon (bp_spec p)) pre pre'"
  shows "check_guarded_transitions n c p pre = check_guarded_transitions n c p pre'"
proof -
  have "check_forward n c (cs_horizon (bp_spec p)) pre = check_forward n c (cs_horizon (bp_spec p)) pre'"
    unfolding fun_eq_iff check_forward_def guard_predicates_cong [OF assms] by simp
  moreover have "check_support n c (cs_horizon (bp_spec p)) pre = check_support n c (cs_horizon (bp_spec p)) pre'"
    unfolding fun_eq_iff check_support_def any_support_cong [OF assms] by simp
  ultimately show ?thesis by (simp add: check_guarded_transitions_def)
qed

text \<open>What passing the guarded transitions means.\<close>

lemma is_True_iff: "is_True v \<longleftrightarrow> v = Some (VBool True)"
  by (simp add: is_True_def)

lemma any_support_True:
  "any_support n c h pre ss = Inr (Some True) \<Longrightarrow>
   \<exists>s \<in> set ss. holds n c (sc_expr s) \<and> guard_predicates_hold n c h pre (sc_predicates s) = Inr (Some True)"
  by (induction ss) (auto simp: rbind_Inr_iff is_True_iff holds_def split: if_splits option.splits)

lemma check_forward_None:
  "check_forward n c h pre g = Inr None \<Longrightarrow> holds n c (gf_antecedent g) \<Longrightarrow>
   guard_predicates_hold n c h pre (gf_predicates g) = Inr (Some True) \<Longrightarrow> holds n c (gf_consequent g)"
  by (auto simp: check_forward_def holds_def rbind_Inr_iff is_True_iff split: if_splits)

lemma check_support_None:
  assumes "check_support n c h pre g = Inr None" "holds n c (gs_antecedent g)"
  shows "\<exists>s \<in> set (gs_supports g). holds n c (sc_expr s) \<and>
    guard_predicates_hold n c h pre (sc_predicates s) = Inr (Some True)"
proof -
  have "any_support n c h pre (gs_supports g) = Inr (Some True)"
    using assms by (auto simp: check_support_def holds_def rbind_Inr_iff is_True_iff split: if_splits option.splits)
  then show ?thesis by (rule any_support_True)
qed

text \<open>
  The specification of the check: initial cells and all activations are resolved, the step relation
  has a run through cycle \<open>h\<close>, and the guarded transitions pass on the states of that run.
\<close>

definition state_run :: "nat \<Rightarrow> bounded_problem \<Rightarrow> (string \<Rightarrow> pyval option) \<Rightarrow> cells \<Rightarrow> cells list \<Rightarrow> store \<Rightarrow> bool" where
  "state_run n p asg ini pre final \<longleftrightarrow>
     (let c = problem_context p asg; h = cs_horizon (bp_spec p);
          R = active_at (requirement_effect n c h) (bp_requirements p);
          U = active_at (update_effect n c h) (bp_updates p) in
      initial_cells n c (cs_state_variables (bp_spec p)) = Inr ini \<and>
      (\<forall>r \<in> set (bp_requirements p). \<exists>e. requirement_effect n c h r = Inr e) \<and>
      (\<forall>u \<in> set (bp_updates p). \<exists>e. update_effect n c h u = Inr e) \<and>
      length pre = nat (h + 1) \<and> (\<forall>j < nat (h + 1). reaches R U (map_of ini) j (map_of (pre ! j))) \<and>
      reaches R U (map_of ini) (nat (h + 1)) final \<and>
      check_guarded_transitions n c p pre = Inr None)"

lemma check_state_sound:
  assumes "check_state_semantics n p asg = Inr r" and "st_feasible r" and "0 \<le> cs_horizon (bp_spec p)"
  shows "\<exists>pre. state_run n p asg (st_initial r) pre (map_of (st_final r))"
proof -
  let ?c = "problem_context p asg" and ?h = "cs_horizon (bp_spec p)"
  from assms(1,2) obtain ini reqs upds t where
    i: "initial_cells n ?c (cs_state_variables (bp_spec p)) = Inr ini"
    and rq: "by_cycle (requirement_effect n ?c ?h) (bp_requirements p) = Inr reqs"
    and up: "by_cycle (update_effect n ?c ?h) (bp_updates p) = Inr upds"
    and sm: "simulate (dict_list reqs) (dict_list upds) (map fst reqs @ map fst upds) [0..?h]
              \<lparr>sim_state = ini, sim_pre = [], sim_steps = []\<rparr> = Inr (t, None)"
    and g: "check_guarded_transitions n ?c p (sim_pre t) = Inr None"
    and r: "st_initial r = ini" "st_final r = sim_state t"
    by (auto simp: check_state_semantics_def Let_def or_reject_def rejected_def rbind_Inr_iff
        split: sum.splits option.splits prod.splits)
  note ref = simulate_refines(2) [OF refl assms(3) sm]
  show ?thesis unfolding state_run_def Let_def r
    using i g ref by_cycle_Inr(1,2) [OF rq] by_cycle_Inr(1,2) [OF up] by (intro exI [of _ "sim_pre t"]) simp
qed

lemma check_state_complete:
  assumes "state_run n p asg ini pre final" and "0 \<le> cs_horizon (bp_spec p)"
  shows "\<exists>r. check_state_semantics n p asg = Inr r \<and> st_feasible r \<and> st_initial r = ini \<and> map_of (st_final r) = final"
proof -
  let ?c = "problem_context p asg" and ?h = "cs_horizon (bp_spec p)"
  let ?R = "active_at (requirement_effect n ?c ?h) (bp_requirements p)"
  let ?U = "active_at (update_effect n ?c ?h) (bp_updates p)"
  note run = assms(1) [unfolded state_run_def Let_def]
  obtain reqs where rq: "by_cycle (requirement_effect n ?c ?h) (bp_requirements p) = Inr reqs"
    using by_cycle_ok run by blast
  obtain upds where up: "by_cycle (update_effect n ?c ?h) (bp_updates p) = Inr upds"
    using by_cycle_ok run by blast
  let ?s = "\<lparr>sim_state = ini, sim_pre = [], sim_steps = []\<rparr>"
  have "\<exists>t. simulate ?R ?U (map fst reqs @ map fst upds) [0..?h] ?s = Inr (t, None)"
    unfolding simulate_refines(1) [OF refl assms(2)] using run by blast
  then obtain t where sm: "simulate ?R ?U (map fst reqs @ map fst upds) [0..?h] ?s = Inr (t, None)" ..
  note ref = simulate_refines(2) [OF refl assms(2) sm]
  have "reaches ?R ?U (map_of ini) (nat (?h + 1)) final" using run by blast
  then have fin: "map_of (sim_state t) = final" using reaches_det ref by blast
  have "same_states ?h (sim_pre t) pre" unfolding same_states_def
  proof (intro allI impI)
    fix j assume "j \<le> nat ?h"
    then have j: "j < nat (?h + 1)" using assms(2) by simp
    then have "reaches ?R ?U (map_of ini) j (map_of (pre ! j))" "reaches ?R ?U (map_of ini) j (map_of (sim_pre t ! j))"
      using run ref by blast+
    then show "map_of (sim_pre t ! j) = map_of (pre ! j)" using reaches_det by blast
  qed
  then have "check_guarded_transitions n ?c p (sim_pre t) = Inr None"
    using run check_guarded_cong by metis
  then show ?thesis using run rq up sm fin by_cycle_Inr(2) [OF rq] by_cycle_Inr(2) [OF up]
    by (simp add: check_state_semantics_def Let_def or_reject_def)
qed

end
