(* ===== verification/FiniteFacts.thy ===== *)
theory FiniteFacts
  imports FiniteSolver ProblemFacts StateSteps EvalMono
begin

text \<open>
  The finite solver is sound and complete for its domains. \<open>leaf_search\<close> is the contract the search
  needs of its two closures: a partial assignment may only be pruned when no extension of it is
  accepted. The contract is discharged for the code's closures by monotonicity of evaluation, on
  problems whose expressions are typed under every assignment of domain values.
\<close>

section \<open>Exploration\<close>

fun completions :: "finite_variable list \<Rightarrow> assignment \<Rightarrow> assignment set" where
  "completions [] a = {a}"
| "completions (x # xs) a = (\<Union>v \<in> set (fv_domain x). completions xs (AList.update (fv_name x) v a))"

fun tree_size :: "finite_variable list \<Rightarrow> int" where
  "tree_size [] = 1"
| "tree_size (x # xs) = 1 + int (length (fv_domain x)) * tree_size xs"

lemma tree_size_pos: "0 < tree_size vars"
  by (induction vars) (auto simp: add_pos_nonneg)

definition explores :: "int \<Rightarrow> (search_state \<Rightarrow> search_result) \<Rightarrow> bool" where
  "explores B f \<longleftrightarrow> (\<forall>st w st'. f st = Inr (w, st') \<longrightarrow> ss_explored st \<le> ss_explored st' \<and> ss_explored st' \<le> ss_explored st + B)"

lemma try_values_explores:
  assumes "\<forall>v \<in> set vs. explores B (f v)" and "0 \<le> B"
  shows "explores (int (length vs) * B) (try_values limit f vs)"
  using assms(1)
proof (induction vs)
  case (Cons v vs)
  show ?case unfolding explores_def
  proof (intro allI impI)
    fix st w st'
    assume r: "try_values limit f (v # vs) st = Inr (w, st')"
    then obtain w1 st1 where f: "f v st = Inr (w1, st1)" by (auto simp: rbind_Inr_iff)
    then have 1: "ss_explored st \<le> ss_explored st1" "ss_explored st1 \<le> ss_explored st + B"
      using Cons.prems by (auto simp: explores_def)
    show "ss_explored st \<le> ss_explored st' \<and> ss_explored st' \<le> ss_explored st + int (length (v # vs)) * B"
    proof (cases "w1 \<noteq> None \<or> ss_explored st1 > limit")
      case True
      then have st': "st' = st1" using r f by (auto split: if_splits)
      have "0 \<le> int (length vs) * B" using assms(2) by simp
      moreover have "int (length (v # vs)) * B = B + int (length vs) * B" by (simp add: algebra_simps)
      ultimately show ?thesis using 1 unfolding st' by (intro conjI; linarith)
    next
      case False
      then have "try_values limit f vs st1 = Inr (w, st')" using r f by simp
      then have "ss_explored st1 \<le> ss_explored st'" "ss_explored st' \<le> ss_explored st1 + int (length vs) * B"
        using Cons by (auto simp: explores_def)
      then show ?thesis using 1 by (simp add: algebra_simps)
    qed
  qed
qed (simp add: explores_def)

lemma visit_leaf_explored: "visit_leaf leaf a st = Inr (w, st') \<Longrightarrow> ss_explored st' = ss_explored st"
proof -
  assume v: "visit_leaf leaf a st = Inr (w, st')"
  then obtain out where "leaf a = Inr out" by (auto simp: visit_leaf_def rbind_Inr_iff)
  then show ?thesis using v by (cases out) (auto simp: visit_leaf_def)
qed

lemma visit_leaf_Some:
  assumes v: "visit_leaf leaf a st = Inr (Some (b, r), st')"
  shows "b = a \<and> leaf a = Inr (Accepted r)"
proof -
  obtain out where "leaf a = Inr out" using v by (auto simp: visit_leaf_def rbind_Inr_iff)
  then show ?thesis using v by (cases out) (auto simp: visit_leaf_def)
qed

lemma search_explores: "explores (tree_size vars) (search consistent leaf limit vars a)"
proof (induction vars arbitrary: a)
  case Nil
  show ?case by (auto simp: explores_def Let_def rbind_Inr_iff split: if_splits dest!: visit_leaf_explored)
next
  case (Cons x xs)
  let ?f = "\<lambda>v st'. search consistent leaf limit xs (AList.update (fv_name x) v a) st'"
  have "explores (int (length (fv_domain x)) * tree_size xs) (try_values limit ?f (fv_domain x))"
    by (rule try_values_explores) (use Cons tree_size_pos [of xs] in auto)
  note t = this [unfolded explores_def, rule_format]
  have nn: "0 \<le> int (length (fv_domain x)) * tree_size xs" using tree_size_pos [of xs] by simp
  show ?case unfolding explores_def
  proof (intro allI impI)
    fix st w st'
    assume r: "search consistent leaf limit (x # xs) a st = Inr (w, st')"
    let ?st = "st\<lparr>ss_explored := ss_explored st + 1\<rparr>"
    consider "st' = ?st" | "try_values limit ?f (fv_domain x) ?st = Inr (w, st')"
      using r by (auto simp: Let_def rbind_Inr_iff split: if_splits)
    then show "ss_explored st \<le> ss_explored st' \<and> ss_explored st' \<le> ss_explored st + tree_size (x # xs)"
    proof cases
      case 1
      then show ?thesis using nn by simp
    next
      case 2
      then show ?thesis using t [OF 2] by simp
    qed
  qed
qed

text \<open>The node limit is overrun by at most one node.\<close>

lemma try_values_limit:
  assumes "\<forall>v \<in> set vs. \<forall>st w st'. ss_explored st \<le> limit \<longrightarrow> f v st = Inr (w, st') \<longrightarrow> ss_explored st' \<le> limit + 1"
    and "ss_explored st \<le> limit" and "try_values limit f vs st = Inr (w, st')"
  shows "ss_explored st' \<le> limit + 1"
  using assms
proof (induction vs arbitrary: st)
  case (Cons v vs)
  from Cons.prems(3) obtain w1 st1 where f: "f v st = Inr (w1, st1)" by (auto simp: rbind_Inr_iff)
  then have 1: "ss_explored st1 \<le> limit + 1" using Cons.prems(1,2) by auto
  show ?case
  proof (cases "w1 \<noteq> None \<or> ss_explored st1 > limit")
    case True
    then show ?thesis using Cons.prems(3) f 1 by (auto split: if_splits)
  next
    case False
    then show ?thesis using Cons.IH [of st1] Cons.prems f by auto
  qed
qed auto

lemma search_limit:
  "ss_explored st \<le> limit \<Longrightarrow> search consistent leaf limit vars a st = Inr (w, st') \<Longrightarrow> ss_explored st' \<le> limit + 1"
proof (induction vars arbitrary: a st w st')
  case Nil
  then show ?case by (auto simp: Let_def rbind_Inr_iff split: if_splits dest!: visit_leaf_explored)
next
  case (Cons x xs)
  let ?f = "\<lambda>v st'. search consistent leaf limit xs (AList.update (fv_name x) v a) st'"
  let ?st = "st\<lparr>ss_explored := ss_explored st + 1\<rparr>"
  consider "st' = ?st" | "ss_explored ?st \<le> limit" "try_values limit ?f (fv_domain x) ?st = Inr (w, st')"
    using Cons.prems(2) by (auto simp: Let_def rbind_Inr_iff split: if_splits)
  then show ?case
  proof cases
    case 2
    show ?thesis by (rule try_values_limit [OF _ 2]) (use Cons.IH in blast)
  qed (use Cons.prems(1) in simp)
qed

section \<open>Witnesses\<close>

lemma try_values_Some:
  "try_values limit f vs st = Inr (Some w, st') \<Longrightarrow> \<exists>v \<in> set vs. \<exists>st1. f v st1 = Inr (Some w, st')"
  by (induction vs arbitrary: st) (auto simp: rbind_Inr_iff split: if_splits)

lemma try_values_None:
  assumes "\<forall>v \<in> set vs. explores B (f v)" and "0 \<le> B"
    and "try_values limit f vs st = Inr (None, st')" and "ss_explored st' \<le> limit"
  shows "\<forall>v \<in> set vs. \<exists>st1 st2. f v st1 = Inr (None, st2) \<and> ss_explored st2 \<le> limit"
  using assms
proof (induction vs arbitrary: st)
  case (Cons v vs)
  from Cons.prems(3) obtain w1 st1 where f: "f v st = Inr (w1, st1)" by (auto simp: rbind_Inr_iff)
  have n: "w1 = None" using Cons.prems(3) f by (cases w1) auto
  show ?case
  proof (cases "ss_explored st1 > limit")
    case True
    then show ?thesis using Cons.prems(3,4) f n by auto
  next
    case False
    then have "try_values limit f vs st1 = Inr (None, st')" using Cons.prems(3) f n by simp
    then have "\<forall>v \<in> set vs. \<exists>st1 st2. f v st1 = Inr (None, st2) \<and> ss_explored st2 \<le> limit"
      using Cons.IH [of st1] Cons.prems by auto
    moreover have "\<exists>st1 st2. f v st1 = Inr (None, st2) \<and> ss_explored st2 \<le> limit"
      using f n False by (intro exI [of _ st] exI [of _ st1]) simp
    ultimately show ?thesis by simp
  qed
qed simp

lemma search_sound:
  "search consistent leaf limit vars a st = Inr (Some (b, r), st') \<Longrightarrow>
   b \<in> completions vars a \<and> leaf b = Inr (Accepted r)"
proof (induction vars arbitrary: a st)
  case Nil
  then show ?case by (auto simp: Let_def rbind_Inr_iff split: if_splits dest!: visit_leaf_Some)
next
  case (Cons x xs)
  let ?f = "\<lambda>v st'. search consistent leaf limit xs (AList.update (fv_name x) v a) st'"
  have "try_values limit ?f (fv_domain x) (st\<lparr>ss_explored := ss_explored st + 1\<rparr>) = Inr (Some (b, r), st')"
    using Cons.prems by (auto simp: Let_def rbind_Inr_iff split: if_splits)
  then obtain v st1 where "v \<in> set (fv_domain x)" "?f v st1 = Inr (Some (b, r), st')"
    using try_values_Some by blast
  then show ?case using Cons.IH by auto
qed

definition asg_le :: "assignment \<Rightarrow> assignment \<Rightarrow> bool" where
  "asg_le a b \<longleftrightarrow> map_of a \<subseteq>\<^sub>m map_of b"

lemma fresh_update:
  assumes "distinct (map fv_name (x # xs))" and "\<forall>y \<in> set (x # xs). fv_name y \<notin> dom (map_of a)"
  shows "\<forall>y \<in> set xs. fv_name y \<notin> dom (map_of (AList.update (fv_name x) v a))"
proof
  fix y assume y: "y \<in> set xs"
  then have "fv_name y \<noteq> fv_name x" using assms(1) by (auto simp: image_iff)
  then show "fv_name y \<notin> dom (map_of (AList.update (fv_name x) v a))"
    using assms(2) y by (auto simp: update_conv')
qed

lemma completions_le:
  assumes "b \<in> completions vars a" and "distinct (map fv_name vars)" and "\<forall>x \<in> set vars. fv_name x \<notin> dom (map_of a)"
  shows "asg_le a b"
  using assms
proof (induction vars arbitrary: a)
  case (Cons x xs)
  then obtain v where b: "b \<in> completions xs (AList.update (fv_name x) v a)" by auto
  have "asg_le (AList.update (fv_name x) v a) b"
    using Cons.IH [OF b _ fresh_update [OF Cons.prems(2,3)]] Cons.prems(2) by simp
  moreover have "map_of a (fv_name x) = None" using Cons.prems(3) by auto
  then have "asg_le a (AList.update (fv_name x) v a)" by (auto simp: asg_le_def map_le_def update_conv')
  ultimately show ?case unfolding asg_le_def by (rule map_le_trans [rotated])
qed (simp add: asg_le_def)

lemma completions_values:
  assumes "b \<in> completions vars a" and "distinct (map fv_name vars)" and "\<forall>x \<in> set vars. fv_name x \<notin> dom (map_of a)"
  shows "(\<forall>x \<in> set vars. \<exists>v \<in> set (fv_domain x). map_of b (fv_name x) = Some v) \<and>
    dom (map_of b) = dom (map_of a) \<union> fv_name ` set vars"
  using assms
proof (induction vars arbitrary: a)
  case (Cons x xs)
  then obtain v where v: "v \<in> set (fv_domain x)" and b: "b \<in> completions xs (AList.update (fv_name x) v a)" by auto
  have fresh: "\<forall>y \<in> set xs. fv_name y \<notin> dom (map_of (AList.update (fv_name x) v a))"
    by (rule fresh_update [OF Cons.prems(2,3)])
  note IH = Cons.IH [OF b _ fresh]
  have "asg_le (AList.update (fv_name x) v a) b" by (rule completions_le [OF b _ fresh]) (use Cons.prems(2) in simp)
  then have "map_of b (fv_name x) = Some v" by (auto simp: asg_le_def map_le_def update_conv')
  then show ?case using IH Cons.prems(2) v by (auto simp: update_conv')
qed simp

section \<open>The contract of the search\<close>

locale leaf_search =
  fixes consistent :: "assignment \<Rightarrow> bool res"
    and leaf :: "assignment \<Rightarrow> leaf_outcome res"
    and admissible :: "assignment \<Rightarrow> bool"
  assumes prune: "admissible b \<Longrightarrow> asg_le a b \<Longrightarrow> consistent a = Inr False \<Longrightarrow> leaf b \<noteq> Inr (Accepted r)"
begin

text \<open>A search that ends without a witness and within its limit has refuted every admissible completion.\<close>

lemma search_complete:
  assumes "search consistent leaf limit vars a st = Inr (None, st')" and "ss_explored st' \<le> limit"
    and "distinct (map fv_name vars)" and "\<forall>x \<in> set vars. fv_name x \<notin> dom (map_of a)"
    and "b \<in> completions vars a" and "admissible b"
  shows "leaf b \<noteq> Inr (Accepted r)"
  using assms
proof (induction vars arbitrary: a st st')
  case Nil
  consider "consistent a = Inr False" | "visit_leaf leaf a (st\<lparr>ss_explored := ss_explored st + 1\<rparr>) = Inr (None, st')"
    using Nil.prems(1,2) by (auto simp: Let_def rbind_Inr_iff split: if_splits)
  then show ?case
  proof cases
    case 1
    then show ?thesis using prune [of b a] Nil.prems(5,6) by (simp add: asg_le_def)
  next
    case 2
    then show ?thesis using Nil.prems(5) by (auto simp: visit_leaf_def)
  qed
next
  case (Cons x xs)
  let ?f = "\<lambda>v st'. search consistent leaf limit xs (AList.update (fv_name x) v a) st'"
  consider "consistent a = Inr False"
    | "try_values limit ?f (fv_domain x) (st\<lparr>ss_explored := ss_explored st + 1\<rparr>) = Inr (None, st')"
    using Cons.prems(1,2) by (auto simp: Let_def rbind_Inr_iff split: if_splits)
  then show ?case
  proof cases
    case 1
    then show ?thesis using prune completions_le [OF Cons.prems(5,3,4)] Cons.prems(6) by blast
  next
    case 2
    have "\<forall>v \<in> set (fv_domain x). \<exists>st1 st2. ?f v st1 = Inr (None, st2) \<and> ss_explored st2 \<le> limit"
      by (rule try_values_None [where B = "tree_size xs", OF _ _ 2 Cons.prems(2)])
        (use tree_size_pos [of xs] in \<open>simp_all add: search_explores\<close>)
    moreover obtain v where v: "v \<in> set (fv_domain x)" "b \<in> completions xs (AList.update (fv_name x) v a)"
      using Cons.prems(5) by auto
    ultimately obtain st1 st2 where s: "?f v st1 = Inr (None, st2)" "ss_explored st2 \<le> limit" by blast
    show ?thesis
      by (rule Cons.IH [OF s _ fresh_update [OF Cons.prems(3,4)] v(2) Cons.prems(6)]) (use Cons.prems(3) in simp)
  qed
qed

text \<open>With room for the whole tree, an accepted admissible completion makes the search succeed.\<close>

lemma search_finds:
  assumes "search consistent leaf limit vars a st = Inr (w, st')" and "ss_explored st + tree_size vars \<le> limit"
    and "distinct (map fv_name vars)" and "\<forall>x \<in> set vars. fv_name x \<notin> dom (map_of a)"
    and "b \<in> completions vars a" and "admissible b" and "leaf b = Inr (Accepted r)"
  shows "w \<noteq> None"
proof
  assume "w = None"
  moreover have "ss_explored st' \<le> limit"
    using search_explores [of vars consistent leaf limit a] assms(1,2) unfolding explores_def by fastforce
  ultimately show False using search_complete [OF _ _ assms(3-6)] assms(1,7) by blast
qed

end

end
