(* ===== verification/FiniteTyped.thy ===== *)
theory FiniteTyped
  imports FiniteFacts
begin

text \<open>
  The domains \<open>build_variables\<close> computes hold values of their sorts and cover every symbol, so on a
  well-formed problem every assignment the search tries types every constraint; hence pruning is
  sound and the verdict \<open>UNSAT\<close> is exact over the domains.
\<close>

section \<open>Collected symbols and values\<close>

text \<open>Recording only adds symbols, keeps their sorts and stores values of the sort they are filed under.\<close>

definition grows :: "collected \<Rightarrow> collected \<Rightarrow> bool" where
  "grows d d' \<longleftrightarrow> map_of (vc_symbols d) \<subseteq>\<^sub>m map_of (vc_symbols d')"

definition sorted_values :: "collected \<Rightarrow> bool" where
  "sorted_values d \<longleftrightarrow> distinct (map fst (vc_symbols d)) \<and> (\<forall>s. \<forall>v \<in> set (dict_list (vc_concrete d) s). conforms s v)"

definition symbols_in :: "collected \<Rightarrow> expr \<Rightarrow> bool" where
  "symbols_in d e \<longleftrightarrow> (\<forall>(n, s) \<in> set (iter_symbols e). map_of (vc_symbols d) n = Some s)"

lemma grows_refl [simp]: "grows d d"
  by (simp add: grows_def)

lemma grows_trans: "grows a b \<Longrightarrow> grows b c \<Longrightarrow> grows a c"
  unfolding grows_def by (rule map_le_trans)

lemma symbols_in_mono: "symbols_in d e \<Longrightarrow> grows d d' \<Longrightarrow> symbols_in d' e"
  by (fastforce simp: symbols_in_def grows_def map_le_def dom_def)

lemma fold_res_grows:
  assumes "fold_res f d xs = Inr d'" and "\<forall>x \<in> set xs. \<forall>d d'. f d x = Inr d' \<longrightarrow> grows d d'"
  shows "grows d d' \<and> (\<forall>x \<in> set xs. \<exists>a b. f a x = Inr b \<and> grows b d')"
  using assms
proof (induction xs arbitrary: d)
  case (Cons x xs)
  then obtain d1 where d1: "f d x = Inr d1" "fold_res f d1 xs = Inr d'" by (auto simp: rbind_Inr_iff)
  have IH: "grows d1 d' \<and> (\<forall>x \<in> set xs. \<exists>a b. f a x = Inr b \<and> grows b d')"
    using Cons.IH [OF d1(2)] Cons.prems(2) by simp
  moreover have "grows d d1" using Cons.prems(2) d1(1) by simp
  ultimately show ?case using d1(1) grows_trans by auto
qed simp

lemma record_symbol_grows:
  assumes "record_symbol d (n, s) = Inr d'"
  shows "grows d d'" and "map_of (vc_symbols d') n = Some s" and "vc_concrete d' = vc_concrete d"
    and "distinct (map fst (vc_symbols d)) \<Longrightarrow> distinct (map fst (vc_symbols d'))"
  using assms by (auto simp: record_symbol_def rbind_Inr_iff require_Inr_iff grows_def map_le_def update_conv'
      distinct_update)

lemma record_value_grows:
  assumes "record_value d (s, v) = Inr d'"
  shows "vc_symbols d' = vc_symbols d"
    and "\<forall>t. set (dict_list (vc_concrete d') t) \<subseteq> set (dict_list (vc_concrete d) t) \<union> (if t = s then {v} else {})"
  using assms by (auto simp: record_value_def rbind_Inr_iff Let_def dict_list_def update_conv' split: if_splits option.splits)

lemma fold_record_symbol:
  assumes "fold_res record_symbol d syms = Inr d'"
  shows "grows d d'" and "\<forall>(n, s) \<in> set syms. map_of (vc_symbols d') n = Some s" and "sorted_values d \<Longrightarrow> sorted_values d'"
proof -
  have g: "grows d d' \<and> (\<forall>x \<in> set syms. \<exists>a b. record_symbol a x = Inr b \<and> grows b d')"
    by (rule fold_res_grows [OF assms]) (use record_symbol_grows(1) in fastforce)
  then show "grows d d'" by blast
  show "\<forall>(n, s) \<in> set syms. map_of (vc_symbols d') n = Some s"
  proof (clarify)
    fix n s assume "(n, s) \<in> set syms"
    then obtain a b where "record_symbol a (n, s) = Inr b" "grows b d'" using g by blast
    then show "map_of (vc_symbols d') n = Some s"
      using record_symbol_grows(2) by (fastforce simp: grows_def map_le_def dom_def)
  qed
  assume "sorted_values d"
  with assms show "sorted_values d'"
    by (rule fold_res_inv) (metis prod.exhaust record_symbol_grows(3,4) sorted_values_def)
qed

lemma fold_record_value:
  assumes "fold_res record_value d svs = Inr d'" and "\<forall>(s, v) \<in> set svs. conforms s v"
  shows "vc_symbols d' = vc_symbols d" and "sorted_values d \<Longrightarrow> sorted_values d'"
proof -
  show "vc_symbols d' = vc_symbols d"
    by (rule fold_res_inv [OF assms(1)]) (auto dest: record_value_grows(1))
  assume "sorted_values d"
  with assms(1) show "sorted_values d'"
  proof (rule fold_res_inv)
    fix d d' sv assume m: "sv \<in> set svs" "sorted_values d" "record_value d sv = Inr d'"
    obtain s v where sv: "sv = (s, v)" by fastforce
    have "conforms s v" using assms(2) m(1) sv by auto
    then show "sorted_values d'" using m(2) record_value_grows [OF m(3) [unfolded sv]]
      unfolding sorted_values_def by (auto split: if_splits dest!: spec [where P = "\<lambda>t. _ t \<subseteq> _ t"]) blast+
  qed
qed

lemma literals_conform: "wf_expr e \<Longrightarrow> (v, s) \<in> set (iter_literals e) \<Longrightarrow> conforms s (VScalar v)"
  by (induction e) (auto intro: accepts_conforms)

text \<open>One recorded item: the symbols of its expression are declared, its literals and values are filed.\<close>

lemma record_expression_grows:
  assumes "record_expression d e = Inr d'" and "wf_expr e"
  shows "grows d d'" and "symbols_in d' e" and "sorted_values d \<Longrightarrow> sorted_values d'"
proof -
  obtain d1 where d1: "fold_res record_symbol d (iter_symbols e) = Inr d1"
    "fold_res record_value d1 (map (\<lambda>(v, s). (s, VScalar v)) (iter_literals e)) = Inr d'"
    using assms(1) by (auto simp: record_expression_def rbind_Inr_iff)
  have "\<forall>(s, v) \<in> set (map (\<lambda>(v, s). (s, VScalar v)) (iter_literals e)). conforms s v"
    using literals_conform [OF assms(2)] by auto
  note v = fold_record_value [OF d1(2) this] and s = fold_record_symbol [OF d1(1)]
  show "grows d d'" "symbols_in d' e" "sorted_values d \<Longrightarrow> sorted_values d'"
    using s v by (auto simp: grows_def symbols_in_def)
qed

definition plain_value :: "pyval \<Rightarrow> bool" where
  "plain_value v \<longleftrightarrow> (case v of VExpr e \<Rightarrow> wf_expr e \<and> calls_bool e \<and> iter_event_fields e = [] | _ \<Rightarrow> True)"

definition value_symbols_in :: "collected \<Rightarrow> pyval \<Rightarrow> bool" where
  "value_symbols_in d v \<longleftrightarrow> (case v of VExpr e \<Rightarrow> symbols_in d e | _ \<Rightarrow> True)"

lemma record_attribute_grows:
  assumes "record_attribute d s v = Inr d'" and "plain_value v" and "value_fits s v"
  shows "grows d d'" and "value_symbols_in d' v" and "sorted_values d \<Longrightarrow> sorted_values d'"
proof -
  have "grows d d' \<and> value_symbols_in d' v \<and> (sorted_values d \<longrightarrow> sorted_values d')"
  proof (cases "\<exists>e. v = VExpr e")
    case True
    then obtain e where "v = VExpr e" ..
    then show ?thesis using assms record_expression_grows [of d e d']
      by (auto simp: record_attribute_def plain_value_def value_symbols_in_def)
  next
    case False
    then have r: "fold_res record_value d [(s, v)] = Inr d'" and a: "accepts_literal s v"
      using assms by (auto simp: record_attribute_def value_fits_def split: pyval.splits)
    then have "\<forall>(s, v) \<in> set [(s, v)]. conforms s v" by (simp add: accepts_conforms)
    note fold_record_value [OF r this]
    then show ?thesis using False by (auto simp: grows_def value_symbols_in_def split: pyval.split)
  qed
  then show "grows d d'" "value_symbols_in d' v" "sorted_values d \<Longrightarrow> sorted_values d'" by blast+
qed

section \<open>Problems whose expressions are typed\<close>

text \<open>
  What \<open>build_problem\<close> provides (\<open>build_problem_typed\<close>, \<open>problem_events\<close>), and what it does not check:
  that an observed event has a cycle, that calls return booleans, and that expressions inside
  events do not refer to events.
\<close>

definition typed_problem :: "bounded_problem \<Rightarrow> bool" where
  "typed_problem p \<longleftrightarrow> wf_catalog (bp_catalog p) \<and> distinct (map ei_id (bp_events p)) \<and>
     (\<forall>e \<in> set (bp_events p). event_complete (bp_catalog p) e \<and> ei_cycle e \<noteq> VNone \<and>
        (\<forall>v \<in> set (event_values e). plain_value v)) \<and>
     (\<forall>k \<in> set (bp_constraints p). condition_valid (bp_catalog p) (bp_events p) (nc_expr k) \<and> calls_bool (nc_expr k)) \<and>
     (\<forall>v \<in> set (cs_state_variables (bp_spec p)). wf_state_variable v \<and> plain_value (sv_initial v)) \<and>
     (\<forall>r \<in> set (bp_requirements p). wf_expr (ri_activation r) \<and> wf_expr (ri_cycle r) \<and> wf_expr (ri_expected r)) \<and>
     (\<forall>u \<in> set (bp_updates p). wf_expr (ui_activation u) \<and> wf_expr (ui_cycle u) \<and> wf_expr (ui_value u))"

lemma event_fits:
  assumes "wf_catalog c" and "event_complete c ev" and "map_of (ec_types c) (ei_type ev) = Some t"
  shows "value_fits BOOL_SORT (ei_occurs ev)" and "ei_cycle ev \<noteq> VNone \<Longrightarrow> value_fits INT_SORT (ei_cycle ev)"
    and "(n, v) \<in> set (ei_fields ev) \<Longrightarrow> get_spec t n err = Inr spec \<Longrightarrow> value_fits (fs_sort spec) v"
proof -
  have wf: "wf_event ev" and conf: "event_conforms t False ev"
    using assms(2,3) by (auto simp: event_complete_def)
  show "value_fits BOOL_SORT (ei_occurs ev)" "ei_cycle ev \<noteq> VNone \<Longrightarrow> value_fits INT_SORT (ei_cycle ev)"
    using wf by (auto simp: wf_event_def occurs_ok_def cycle_ok_def value_fits_def accepts_bool accepts_int
        split: pyval.splits scalar.splits)
  assume n: "(n, v) \<in> set (ei_fields ev)" and g: "get_spec t n err = Inr spec"
  obtain f where f: "f \<in> set (et_fields t)" "fs_name f = n" "value_fits (fs_sort f) v"
    using conf n by (fastforce simp: event_conforms_def)
  then have "map_of (field_map t) n = Some f" using map_of_field_map wf_catalog_fields [OF assms(1,3)] by blast
  then show "value_fits (fs_sort spec) v" using g f(3) by (simp add: get_spec_def or_raise_Inr_iff)
qed

lemma record_event_grows:
  assumes r: "record_event c d ev = Inr d'" and c: "wf_catalog c" "event_complete c ev" "ei_cycle ev \<noteq> VNone"
    and plain: "\<forall>v \<in> set (event_values ev). plain_value v"
  shows "grows d d'" and "\<forall>v \<in> set (event_values ev). value_symbols_in d' v" and "sorted_values d \<Longrightarrow> sorted_values d'"
proof -
  let ?f = "\<lambda>t d (name, v). rbind (get_spec t name PyKeyError) (\<lambda>spec. record_attribute d (fs_sort spec) v)"
  obtain t d1 d2 where t: "map_of (ec_types c) (ei_type ev) = Some t"
    and 1: "record_attribute d BOOL_SORT (ei_occurs ev) = Inr d1"
    and 2: "record_attribute d1 INT_SORT (ei_cycle ev) = Inr d2"
    and 3: "fold_res (?f t) d2 (ei_fields ev) = Inr d'"
    using r c(3) by (auto simp: record_event_def rbind_Inr_iff resolve_Inr_iff)
  note fits = event_fits [OF c(1,2) t]
  have pl: "plain_value (ei_occurs ev)" "plain_value (ei_cycle ev)" "\<forall>(n, v) \<in> set (ei_fields ev). plain_value v"
    using plain by (auto simp: event_values_def)
  have step: "grows a b \<and> value_symbols_in b (snd x) \<and> (sorted_values a \<longrightarrow> sorted_values b)"
    if x: "x \<in> set (ei_fields ev)" and f: "?f t a x = Inr b" for x a b
  proof -
    obtain n v spec where "x = (n, v)" "get_spec t n PyKeyError = Inr spec" "record_attribute a (fs_sort spec) v = Inr b"
      using f by (cases x) (auto simp: rbind_Inr_iff)
    then show ?thesis using record_attribute_grows [of a "fs_sort spec" v b] fits(3) [of n v PyKeyError spec] pl(3) x by auto
  qed
  note a1 = record_attribute_grows [OF 1 pl(1) fits(1)] and a2 = record_attribute_grows [OF 2 pl(2) fits(2) [OF c(3)]]
  have a3: "grows d2 d' \<and> (\<forall>x \<in> set (ei_fields ev). \<exists>a b. ?f t a x = Inr b \<and> grows b d')"
    by (rule fold_res_grows [OF 3]) (use step in blast)
  have vmono: "value_symbols_in b v \<Longrightarrow> grows b d' \<Longrightarrow> value_symbols_in d' v" for b v
    by (auto simp: value_symbols_in_def split: pyval.splits intro: symbols_in_mono)
  show "grows d d'" using a1(1) a2(1) a3 grows_trans by blast
  have "value_symbols_in d' (snd x)" if "x \<in> set (ei_fields ev)" for x
    using a3 step [OF that] that vmono by blast
  moreover have "value_symbols_in d' (ei_occurs ev)" "value_symbols_in d' (ei_cycle ev)"
    using vmono a1(2) a2(1,2) a3 grows_trans by blast+
  ultimately show "\<forall>v \<in> set (event_values ev). value_symbols_in d' v" by (auto simp: event_values_def)
  assume "sorted_values d"
  then have "sorted_values d2" using a1(3) a2(3) by blast
  with 3 show "sorted_values d'" by (rule fold_res_inv) (use step in blast)
qed

lemma collect_symbols_spec:
  assumes c: "collect_symbols p = Inr d" and t: "typed_problem p"
  shows "sorted_values d" and "\<forall>k \<in> set (bp_constraints p). symbols_in d (nc_expr k)"
    and "\<forall>e \<in> set (bp_events p). \<forall>v \<in> set (event_values e). value_symbols_in d v"
proof -
  obtain d1 d2 d3 d4 where
    1: "fold_res (record_event (bp_catalog p)) \<lparr>vc_symbols = [], vc_concrete = []\<rparr> (bp_events p) = Inr d1" and
    2: "fold_res record_expression d1 (map nc_expr (bp_constraints p)) = Inr d2" and
    3: "fold_res (\<lambda>d v. record_attribute d (sv_sort v) (sv_initial v)) d2 (cs_state_variables (bp_spec p)) = Inr d3" and
    4: "fold_res record_expression d3
       (concat (map (\<lambda>r. [ri_activation r, ri_cycle r, ri_expected r]) (bp_requirements p))) = Inr d4" and
    5: "fold_res record_expression d4
         (concat (map (\<lambda>u. [ui_activation u, ui_cycle u, ui_value u]) (bp_updates p))) = Inr d"
    using c unfolding collect_symbols_def rbind_Inr_iff by blast
  have ev: "grows a b \<and> (\<forall>v \<in> set (event_values e). value_symbols_in b v) \<and> (sorted_values a \<longrightarrow> sorted_values b)"
    if "e \<in> set (bp_events p)" "record_event (bp_catalog p) a e = Inr b" for e a b
    using record_event_grows [OF that(2)] t that(1) unfolding typed_problem_def by blast
  have var: "grows a b \<and> (sorted_values a \<longrightarrow> sorted_values b)"
    if "v \<in> set (cs_state_variables (bp_spec p))" "record_attribute a (sv_sort v) (sv_initial v) = Inr b" for v a b
    using record_attribute_grows [OF that(2)] t that(1) unfolding typed_problem_def wf_state_variable_def by blast
  have ex: "grows a b \<and> symbols_in b e \<and> (sorted_values a \<longrightarrow> sorted_values b)"
    if "wf_expr e" "record_expression a e = Inr b" for e a b
    using record_expression_grows [OF that(2,1)] by blast
  have w2: "\<forall>e \<in> set (map nc_expr (bp_constraints p)). wf_expr e"
    using t by (auto simp: typed_problem_def condition_valid_def)
  have w4: "\<forall>e \<in> set (concat (map (\<lambda>r. [ri_activation r, ri_cycle r, ri_expected r]) (bp_requirements p))). wf_expr e"
    and w5: "\<forall>e \<in> set (concat (map (\<lambda>u. [ui_activation u, ui_cycle u, ui_value u]) (bp_updates p))). wf_expr e"
    using t by (auto simp: typed_problem_def)
  have g1: "grows \<lparr>vc_symbols = [], vc_concrete = []\<rparr> d1 \<and> (\<forall>x \<in> set (bp_events p). \<exists>a b. record_event (bp_catalog p) a x = Inr b \<and> grows b d1)"
    by (rule fold_res_grows [OF 1]) (use ev in blast)
  have g2: "grows d1 d2 \<and> (\<forall>x \<in> set (map nc_expr (bp_constraints p)). \<exists>a b. record_expression a x = Inr b \<and> grows b d2)"
    by (rule fold_res_grows [OF 2]) (use ex w2 in blast)
  have g3: "grows d2 d3" using fold_res_grows [OF 3] var by blast
  have g4: "grows d3 d4" using fold_res_grows [OF 4] ex w4 by blast
  have g5: "grows d4 d" using fold_res_grows [OF 5] ex w5 by blast
  have "sorted_values \<lparr>vc_symbols = [], vc_concrete = []\<rparr>" by (simp add: sorted_values_def dict_list_def)
  with 1 have "sorted_values d1" by (rule fold_res_inv) (use ev in blast)
  with 2 have "sorted_values d2" by (rule fold_res_inv) (use ex w2 in blast)
  with 3 have "sorted_values d3" by (rule fold_res_inv) (use var in blast)
  with 4 have "sorted_values d4" by (rule fold_res_inv) (use ex w4 in blast)
  with 5 show "sorted_values d" by (rule fold_res_inv) (use ex w5 in blast)
  have g2d: "grows d2 d" and g1d: "grows d1 d" using g2 g3 g4 g5 grows_trans by blast+
  show "\<forall>k \<in> set (bp_constraints p). symbols_in d (nc_expr k)"
  proof
    fix k assume k: "k \<in> set (bp_constraints p)"
    then obtain a b where "record_expression a (nc_expr k) = Inr b" "grows b d2" using g2 by auto
    then show "symbols_in d (nc_expr k)" using ex w2 k symbols_in_mono grows_trans [OF _ g2d] by (metis imageI list.set_map)
  qed
  show "\<forall>e \<in> set (bp_events p). \<forall>v \<in> set (event_values e). value_symbols_in d v"
  proof (intro ballI)
    fix e v assume e: "e \<in> set (bp_events p)" "v \<in> set (event_values e)"
    then obtain a b where ab: "record_event (bp_catalog p) a e = Inr b" "grows b d1" using g1 by blast
    then have "value_symbols_in b v" "grows b d" using ev [OF e(1) ab(1)] e(2) grows_trans [OF ab(2) g1d] by blast+
    then show "value_symbols_in d v"
      by (auto simp: value_symbols_in_def split: pyval.splits intro: symbols_in_mono)
  qed
qed

section \<open>Domains\<close>

lemma domain_conforms:
  assumes "domain_for s obs h = Inr vals" and "\<forall>v \<in> set obs. conforms s v" and "v \<in> set vals"
  shows "conforms s v"
  using assms by (auto simp: domain_for_def conforms_bool conforms_numeric split: if_splits option.splits)

lemma build_variables_spec:
  assumes b: "build_variables p = Inr vars" and t: "typed_problem p"
  obtains d where "collect_symbols p = Inr d" and "distinct (map fv_name vars)"
    and "\<forall>x \<in> set vars. \<forall>v \<in> set (fv_domain x). conforms (fv_sort x) v"
    and "\<forall>n s. map_of (vc_symbols d) n = Some s \<longrightarrow> (\<exists>x \<in> set vars. fv_name x = n \<and> fv_sort x = s)"
proof -
  let ?f = "\<lambda>d (name, s). rbind (domain_for s (dict_list (vc_concrete d) s) (cs_horizon (bp_spec p))) (\<lambda>dom.
           Inr \<lparr>fv_name = name, fv_sort = s, fv_domain = dom\<rparr>)"
  obtain d raw where d: "collect_symbols p = Inr d" and raw: "traverse (?f d) (vc_symbols d) = Inr raw"
    and vars: "vars = sort_key (\<lambda>v. (variable_rank (fv_sort v), length (fv_domain v), fv_name v)) raw"
    using b unfolding build_variables_def rbind_Inr_iff by blast
  have sv: "sorted_values d" by (rule collect_symbols_spec(1) [OF d t])
  have "map (\<lambda>x. (fv_name x, fv_sort x)) raw = map (\<lambda>x. x) (vc_symbols d)"
    by (rule traverse_same_ids [OF raw]) (auto simp: rbind_Inr_iff)
  then have names: "map (\<lambda>x. (fv_name x, fv_sort x)) raw = vc_symbols d" by simp
  then have "map fv_name raw = map fst (vc_symbols d)"
    by (metis (no_types, lifting) comp_apply fst_conv list.map_comp map_eq_conv)
  then have "distinct (map fv_name raw)" using sv by (simp add: sorted_values_def)
  then have "distinct (map fv_name vars)" unfolding vars by (simp add: distinct_map)
  moreover have "\<forall>x \<in> set vars. \<forall>v \<in> set (fv_domain x). conforms (fv_sort x) v"
  proof (intro ballI)
    fix x v assume x: "x \<in> set vars" "v \<in> set (fv_domain x)"
    then obtain ns where "?f d ns = Inr x" using traverse_Inr_imageD [OF raw, of x] by (auto simp: vars)
    then obtain n s where "domain_for s (dict_list (vc_concrete d) s) (cs_horizon (bp_spec p)) = Inr (fv_domain x)" "fv_sort x = s"
      by (cases ns) (auto simp: rbind_Inr_iff)
    then show "conforms (fv_sort x) v" using domain_conforms sv x(2) unfolding sorted_values_def by blast
  qed
  moreover have "\<exists>x \<in> set vars. fv_name x = n \<and> fv_sort x = s" if "map_of (vc_symbols d) n = Some s" for n s
  proof -
    have "(n, s) \<in> set (map (\<lambda>x. (fv_name x, fv_sort x)) raw)" unfolding names using that by (rule map_of_SomeD)
    then show ?thesis by (auto simp: vars)
  qed
  ultimately show ?thesis using that [OF d] by blast
qed

section \<open>Every candidate assignment is typed\<close>

definition typed_under :: "bounded_problem \<Rightarrow> assignment \<Rightarrow> bool" where
  "typed_under p a \<longleftrightarrow> typed_context (problem_context p (map_of a)) \<and>
     (\<forall>k \<in> set (bp_constraints p). typed (problem_context p (map_of a)) (nc_expr k))"

lemma symbol_typed_le:
  "asg_le a b \<Longrightarrow> symbol_typed (problem_context p (map_of b)) r \<Longrightarrow> symbol_typed (problem_context p (map_of a)) r"
  by (cases r) (fastforce simp: symbol_typed_def problem_context_def asg_le_def map_le_def dom_def split: option.splits)

lemma typed_le:
  assumes "asg_le a b" and "typed (problem_context p (map_of b)) e"
  shows "typed (problem_context p (map_of a)) e"
proof -
  have "attribute_typed (problem_context p (map_of a)) r = attribute_typed (problem_context p (map_of b)) r" for r
    by (simp add: attribute_typed_def problem_context_def)
  then show ?thesis using assms symbol_typed_le [OF assms(1)] by (auto simp: typed_def)
qed

lemma typed_under_le: "asg_le a b \<Longrightarrow> typed_under p b \<Longrightarrow> typed_under p a"
proof -
  assume le: "asg_le a b" and b: "typed_under p b"
  have "typed_value (problem_context p (map_of a)) v" if "typed_value (problem_context p (map_of b)) v" for v
    using that typed_le [OF le] by (auto simp: typed_value_def split: pyval.splits)
  then show "typed_under p a" using b typed_le [OF le]
    by (fastforce simp: typed_under_def typed_context_def problem_context_def)
qed

lemma problem_lookup:
  "distinct (map ei_id (bp_events p)) \<Longrightarrow> map_of (problem_event_map p) i = Some e \<longleftrightarrow> e \<in> set (bp_events p) \<and> ei_id e = i"
  by (auto simp: problem_event_map_def dict_of_map_fst o_def map_of_eq_Some_iff)

lemma reference_attribute_typed:
  assumes t: "typed_problem p" and r: "reference_valid (bp_catalog p) (bp_events p) (i, f, s)"
  shows "attribute_typed (problem_context p asg) (i, f, s)"
proof -
  obtain e ty where e: "e \<in> set (bp_events p)" "ei_id e = i"
    "map_of (ec_types (bp_catalog p)) (ei_type e) = Some ty" "attribute_has_sort ty f s"
    using r by (auto simp: reference_valid_def)
  have c: "wf_catalog (bp_catalog p)" "event_complete (bp_catalog p) e" "ei_cycle e \<noteq> VNone"
    and d: "distinct (map ei_id (bp_events p))"
    using t e(1) by (auto simp: typed_problem_def)
  note fits = event_fits [OF c(1,2) e(3)]
  have "value_fits s v" if v: "stored_attribute e f = Some v" for v
  proof -
    consider "f = ''occurs''" "s = BOOL_SORT" "v = ei_occurs e" | "f = ''cycle''" "s = INT_SORT" "v = ei_cycle e"
      | spec where "spec \<in> set (et_fields ty)" "fs_name spec = f" "fs_sort spec = s" "(f, v) \<in> set (ei_fields e)"
      using v e(4) by (auto simp: stored_attribute_def attribute_has_sort_def split: if_splits dest: map_of_SomeD)
    then show ?thesis
    proof cases
      case 3
      then have "get_spec ty f PyKeyError = Inr spec"
        using map_of_field_map [OF wf_catalog_fields [OF c(1) e(3)]] by (simp add: get_spec_def or_raise_Inr_iff)
      then show ?thesis using fits(3) 3 by blast
    qed (use fits(1,2) c(3) in auto)
  qed
  then show ?thesis using problem_lookup [OF d, of i e] e(1,2)
    by (auto simp: attribute_typed_def problem_context_def split: option.split)
qed

lemma completions_typed:
  assumes bv: "build_variables p = Inr vars" and t: "typed_problem p" and b: "b \<in> completions vars []"
  shows "typed_under p b"
proof -
  let ?c = "problem_context p (map_of b)"
  obtain d where d: "collect_symbols p = Inr d" and dist: "distinct (map fv_name vars)"
    and dom: "\<forall>x \<in> set vars. \<forall>v \<in> set (fv_domain x). conforms (fv_sort x) v"
    and cov: "\<forall>n s. map_of (vc_symbols d) n = Some s \<longrightarrow> (\<exists>x \<in> set vars. fv_name x = n \<and> fv_sort x = s)"
    by (rule build_variables_spec [OF bv t])
  note cs = collect_symbols_spec [OF d t]
  have vals: "\<forall>x \<in> set vars. \<exists>v \<in> set (fv_domain x). map_of b (fv_name x) = Some v"
    using completions_values [OF b dist] by simp
  have sym: "symbol_typed ?c (n, s)" if "map_of (vc_symbols d) n = Some s" for n s
    using cov that vals dom by (fastforce simp: symbol_typed_def problem_context_def split: option.split)
  have con: "typed ?c (nc_expr k)" if k: "k \<in> set (bp_constraints p)" for k
    using t k cs(2) sym reference_attribute_typed [OF t]
    by (fastforce simp: typed_problem_def condition_valid_def typed_def symbols_in_def)
  have ev: "typed_value ?c v" if "e \<in> set (bp_events p)" "v \<in> set (event_values e)" for e v
  proof -
    have "plain_value v" "value_symbols_in d v" using t cs(3) that by (auto simp: typed_problem_def)
    then show ?thesis
      using sym by (fastforce simp: plain_value_def value_symbols_in_def typed_value_def typed_def symbols_in_def
          split: pyval.splits)
  qed
  have "set (problem_event_map p) \<subseteq> set (map (\<lambda>e. (ei_id e, e)) (bp_events p))"
    unfolding problem_event_map_def by (rule set_dict_of)
  then have "typed_context ?c"
    using ev by (fastforce simp: typed_context_def problem_context_def)
  then show ?thesis using con by (simp add: typed_under_def)
qed

section \<open>The solver's verdicts\<close>

definition solution :: "nat \<Rightarrow> bounded_problem \<Rightarrow> assignment \<Rightarrow> bool" where
  "solution n p a \<longleftrightarrow>
     (\<forall>k \<in> set (bp_constraints p). holds n (problem_context p (map_of a)) (nc_expr k)) \<and>
     (\<exists>r. check_state_semantics n p (map_of a) = Inr r \<and> st_feasible r)"

lemma test_leaf_Accepted:
  "test_leaf n p a = Inr (Accepted r) \<longleftrightarrow>
     (\<forall>k \<in> set (bp_constraints p). holds n (problem_context p (map_of a)) (nc_expr k)) \<and>
     check_state_semantics n p (map_of a) = Inr r \<and> st_feasible r"
proof -
  let ?ev = "eval_at n (problem_context p (map_of a))"
  have all: "(\<exists>vals. traverse ?ev es = Inr vals \<and> list_all is_True vals) \<longleftrightarrow> (\<forall>e \<in> set es. ?ev e = Inr (Some (VBool True)))" for es
    by (induction es) (auto simp: rbind_Inr_iff is_True_def)
  have "test_leaf n p a = Inr (Accepted r) \<longleftrightarrow>
      (\<exists>vals. traverse ?ev (map nc_expr (bp_constraints p)) = Inr vals \<and> list_all is_True vals) \<and>
      check_state_semantics n p (map_of a) = Inr r \<and> st_feasible r"
    by (auto simp: test_leaf_def rbind_Inr_iff split: if_splits option.splits)
  then show ?thesis unfolding all by (simp add: holds_def)
qed

lemma no_constraint_false_False:
  "no_constraint_false n c es = Inr False \<Longrightarrow> \<exists>e \<in> set es. eval_at n c e = Inr (Some (VBool False))"
  by (induction es) (auto simp: rbind_Inr_iff is_False_def split: if_splits)

interpretation finite_search: leaf_search "constraints_consistent n p" "test_leaf n p" "typed_under p" for n p
proof
  fix a b r
  assume b: "typed_under p b" and le: "asg_le a b" and false: "constraints_consistent n p a = Inr False"
  let ?a = "problem_context p (map_of a)" and ?b = "problem_context p (map_of b)"
  obtain k where k: "k \<in> set (bp_constraints p)" "eval_at n ?a (nc_expr k) = Inr (Some (VBool False))"
    using no_constraint_false_False [OF false [unfolded constraints_consistent_def]] by auto
  have a: "typed_under p a" by (rule typed_under_le [OF le b])
  have ctx: "context_le ?a ?b"
    using a b le by (auto simp: context_le_def typed_under_def problem_context_def assignment_le_def asg_le_def
        map_le_def dom_def)
  show "test_leaf n p b \<noteq> Inr (Accepted r)"
  proof
    assume "test_leaf n p b = Inr (Accepted r)"
    then have "eval_at n ?b (nc_expr k) = Inr (Some (VBool True))"
      unfolding test_leaf_Accepted using k(1) by (auto simp: holds_def)
    then have "val_le (Some (VBool False)) (Some (VBool True))"
      using eval_at_mono [OF ctx _ _ k(2)] a b k(1) unfolding typed_under_def by blast
    then show False by simp
  qed
qed

lemma solve_finite_search:
  assumes "solve_finite n limit p = Inr r"
  obtains vars w st where "build_variables p = Inr vars"
    and "search (constraints_consistent n p) (test_leaf n p) limit vars []
              \<lparr>ss_explored = 0, ss_unknown = False, ss_failure = None\<rparr> = Inr (w, st)"
    and "r = solve_outcome limit (cs_horizon (bp_spec p)) (w, st)"
  using assms unfolding solve_finite_def rbind_Inr_iff by auto

lemma outcome_simps:
  "fs_explored (solve_outcome limit h (w, st)) = ss_explored st"
  "fs_status (solve_outcome limit h (w, st)) = Sat \<longleftrightarrow> w \<noteq> None"
  "fs_status (solve_outcome limit h (w, st)) = Unsat \<Longrightarrow> w = None \<and> ss_explored st \<le> limit"
  by (auto simp: solve_outcome_def split: option.splits if_splits)

lemma solve_finite_Sat:
  assumes r: "solve_finite n limit p = Inr r" and sat: "fs_status r = Sat"
  shows "\<exists>vars. build_variables p = Inr vars \<and> fs_assignment r \<in> completions vars []" and "solution n p (fs_assignment r)"
    and "\<exists>s. fs_state r = Some s \<and> check_state_semantics n p (map_of (fs_assignment r)) = Inr s \<and> st_feasible s"
proof -
  obtain vars w st where v: "build_variables p = Inr vars"
    and s: "search (constraints_consistent n p) (test_leaf n p) limit vars []
              \<lparr>ss_explored = 0, ss_unknown = False, ss_failure = None\<rparr> = Inr (w, st)"
    and out: "r = solve_outcome limit (cs_horizon (bp_spec p)) (w, st)"
    by (rule solve_finite_search [OF r])
  obtain a chk where w: "w = Some (a, chk)" using sat outcome_simps(2) unfolding out by fastforce
  have e: "fs_assignment r = a" "fs_state r = Some chk" by (simp_all add: out w solve_outcome_def)
  note snd = search_sound [OF s [unfolded w]]
  show "\<exists>vars. build_variables p = Inr vars \<and> fs_assignment r \<in> completions vars []" "solution n p (fs_assignment r)"
    "\<exists>s. fs_state r = Some s \<and> check_state_semantics n p (map_of (fs_assignment r)) = Inr s \<and> st_feasible s"
    using snd v e unfolding test_leaf_Accepted by (auto simp: solution_def)
qed

lemma solve_finite_Unsat:
  assumes r: "solve_finite n limit p = Inr r" "fs_status r = Unsat" and t: "typed_problem p"
    and v: "build_variables p = Inr vars" and b: "b \<in> completions vars []"
  shows "\<not> solution n p b"
proof
  assume sol: "solution n p b"
  then obtain s where acc: "test_leaf n p b = Inr (Accepted s)" unfolding solution_def test_leaf_Accepted by blast
  obtain vars' w st where v': "build_variables p = Inr vars'"
    and s: "search (constraints_consistent n p) (test_leaf n p) limit vars' []
              \<lparr>ss_explored = 0, ss_unknown = False, ss_failure = None\<rparr> = Inr (w, st)"
    and out: "r = solve_outcome limit (cs_horizon (bp_spec p)) (w, st)"
    by (rule solve_finite_search [OF r(1)])
  have e: "vars' = vars" using v v' by simp
  have w: "w = None" "ss_explored st \<le> limit" using outcome_simps(3) r(2) unfolding out by blast+
  obtain d where "distinct (map fv_name vars)" by (rule build_variables_spec [OF v t]) blast
  then show False
    using finite_search.search_complete [OF s [unfolded e w(1)] w(2) _ _ b completions_typed [OF v t b]] acc by auto
qed

lemma solve_finite_finds:
  assumes r: "solve_finite n limit p = Inr r" and t: "typed_problem p"
    and v: "build_variables p = Inr vars" and l: "tree_size vars \<le> limit"
    and b: "b \<in> completions vars []" and sol: "solution n p b"
  shows "fs_status r = Sat"
proof -
  obtain s where acc: "test_leaf n p b = Inr (Accepted s)"
    using sol unfolding solution_def test_leaf_Accepted by blast
  obtain vars' w st where v': "build_variables p = Inr vars'"
    and s: "search (constraints_consistent n p) (test_leaf n p) limit vars' []
              \<lparr>ss_explored = 0, ss_unknown = False, ss_failure = None\<rparr> = Inr (w, st)"
    and out: "r = solve_outcome limit (cs_horizon (bp_spec p)) (w, st)"
    by (rule solve_finite_search [OF r])
  have e: "vars' = vars" using v v' by simp
  obtain d where "distinct (map fv_name vars)" by (rule build_variables_spec [OF v t]) blast
  then have "w \<noteq> None"
    using finite_search.search_finds [OF s [unfolded e] _ _ _ b completions_typed [OF v t b] acc] l by simp
  then show ?thesis unfolding out by (simp add: outcome_simps(2))
qed

lemma solve_finite_bound:
  assumes "solve_finite n limit p = Inr r" and "build_variables p = Inr vars" and "0 \<le> limit"
  shows "fs_explored r \<le> tree_size vars" and "fs_explored r \<le> limit + 1"
proof -
  obtain vars' w st where v': "build_variables p = Inr vars'"
    and s: "search (constraints_consistent n p) (test_leaf n p) limit vars' []
              \<lparr>ss_explored = 0, ss_unknown = False, ss_failure = None\<rparr> = Inr (w, st)"
    and out: "r = solve_outcome limit (cs_horizon (bp_spec p)) (w, st)"
    by (rule solve_finite_search [OF assms(1)])
  have x: "fs_explored r = ss_explored st" unfolding out by (rule outcome_simps(1))
  have e: "vars' = vars" using assms(2) v' by simp
  show "fs_explored r \<le> tree_size vars"
    using search_explores [of vars "constraints_consistent n p" "test_leaf n p" limit "[]"] s
    unfolding explores_def x e by fastforce
  show "fs_explored r \<le> limit + 1" unfolding x by (rule search_limit [OF _ s]) (use assms(3) in simp)
qed

end
