(* ===== verification/CompletionRun.thy ===== *)
theory CompletionRun
  imports FiniteTyped
begin

text \<open>
  \<open>src/src/umcm/solver/completion.py\<close>: the public completion of a trace. A solved problem becomes a
  concrete trace, which is validated again; the active transformations are listed from the
  recorded state steps. \<open>solve_z3\<close> (\<open>solver/z3ctypes.py\<close>, whose encoding hands the problem to libz3) is
  a parameter.
\<close>

section \<open>Materialising a solved problem\<close>

definition concrete :: "nat \<Rightarrow> eval_context \<Rightarrow> pyval \<Rightarrow> pyval res" where
  "concrete n c v = rbind (concrete_value n c v) (\<lambda>r. or_raise r CompletionError)"

definition as_bool :: "pyval \<Rightarrow> py_error \<Rightarrow> bool res" where
  "as_bool v err = (case v of VBool b \<Rightarrow> Inr b | _ \<Rightarrow> Inl err)"

definition nonneg_cycle :: "pyval \<Rightarrow> bool" where
  "nonneg_cycle v = (case strict_int v of Some i \<Rightarrow> 0 \<le> i | None \<Rightarrow> False)"

definition concrete_cycle :: "nat \<Rightarrow> eval_context \<Rightarrow> pyval \<Rightarrow> pyval res" where
  "concrete_cycle n c v =
     (if v = VNone then Inr VNone
      else rbind (concrete n c v) (\<lambda>w. rbind (require (nonneg_cycle w) CompletionError) (\<lambda>_. Inr w)))"

definition concrete_fields :: "nat \<Rightarrow> eval_context \<Rightarrow> (string \<times> pyval) list \<Rightarrow> (string \<times> pyval) list res" where
  "concrete_fields n c fds = traverse (\<lambda>(name, v). rbind (concrete n c v) (\<lambda>w. Inr (name, w))) fds"

definition materialize_event :: "nat \<Rightarrow> eval_context \<Rightarrow> string list \<Rightarrow> event_instance \<Rightarrow> event_instance list res" where
  "materialize_event n c slot_ids ev =
     rbind (concrete n c (ei_occurs ev)) (\<lambda>occ.
     rbind (as_bool occ CompletionError) (\<lambda>b.
       if \<not> b then Inr []
       else
         rbind (concrete_cycle n c (ei_cycle ev)) (\<lambda>cyc.
         rbind (concrete_fields n c (ei_fields ev)) (\<lambda>fds.
         rbind (mk_event_instance \<lparr>ei_id = ei_id ev, ei_type = ei_type ev, ei_fields = fds,
             ei_cycle = cyc, ei_occurs = VBool True,
             ei_annotations = (if ei_id ev \<in> set slot_ids
               then AList.update ''completed'' (VBool True) (ei_annotations ev) else ei_annotations ev)\<rparr>) (\<lambda>e.
           Inr [e])))))"

text \<open>\<open>metadata["completion"]\<close>, with the state when the backend simulated it.\<close>

definition completion_metadata :: "bounded_problem \<Rightarrow> string \<Rightarrow> event_instance list \<Rightarrow> state_check option \<Rightarrow>
    (string \<times> pyval) list" where
  "completion_metadata p backend events st =
     [(''backend'', VStr backend), (''horizon'', VInt (cs_horizon (bp_spec p))),
      (''model'', VMap (cs_metadata (bp_spec p))),
      (''selected_slots'', VList (map (\<lambda>e. VStr (ei_id e)) (filter (\<lambda>e. ei_id e \<in> set (bp_slot_ids p)) events)))]
     @ (case st of None \<Rightarrow> []
        | Some s \<Rightarrow> [(''state'', VMap [(''initial'', VMap (st_initial s)), (''final'', VMap (st_final s)),
            (''steps'', VList (map state_step_to_dict (st_steps s)))])])"

definition materialize_trace :: "nat \<Rightarrow> bounded_problem \<Rightarrow> assignment \<Rightarrow> state_check option \<Rightarrow> string \<Rightarrow> trace res" where
  "materialize_trace n p a st backend =
     rbind (traverse (materialize_event n (problem_context p (map_of a)) (bp_slot_ids p)) (bp_events p)) (\<lambda>ess.
       let events = concat ess in
       mk_trace \<lparr>tr_events = events, tr_constraints = tr_constraints (bp_trace p), tr_partial = False,
         tr_metadata = AList.update ''completion'' (VMap (completion_metadata p backend events st))
           (tr_metadata (bp_trace p)),
         tr_version = TRACE_SCHEMA_VERSION\<rparr>)"

section \<open>Active transformations\<close>

text \<open>The state before a cycle, replayed from the recorded steps.\<close>

fun replay :: "cells \<Rightarrow> state_step list \<Rightarrow> int \<Rightarrow> cells" where
  "replay st [] cyc = st"
| "replay st (s # ss) cyc = (if cyc \<le> sp_cycle s then st else replay (sp_after s) ss cyc)"

definition state_before :: "state_check \<Rightarrow> int \<Rightarrow> cells" where
  "state_before r cyc = replay (st_initial r) (sort_key sp_cycle (st_steps r)) cyc"

text \<open>The code builds a dictionary of all six comparisons, so each of them must be defined.\<close>

definition comparison :: "string \<Rightarrow> pyval \<Rightarrow> pyval \<Rightarrow> bool res" where
  "comparison op a b =
     rbind (py_lt a b) (\<lambda>lt. rbind (py_le a b) (\<lambda>le. rbind (py_gt a b) (\<lambda>gt. rbind (py_ge a b) (\<lambda>ge.
       or_raise (map_of [(''eq'', py_eq a b), (''ne'', \<not> py_eq a b), (''lt'', lt), (''le'', le),
         (''gt'', gt), (''ge'', ge)] op) PyKeyError))))"

fun state_predicates_hold :: "nat \<Rightarrow> eval_context \<Rightarrow> state_check \<Rightarrow> guard_predicate list \<Rightarrow> bool res" where
  "state_predicates_hold n c r [] = Inr True"
| "state_predicates_hold n c r (g # gs) =
     rbind (eval_at n c (gp_cycle g)) (\<lambda>cv.
     rbind (eval_at n c (gp_expected g)) (\<lambda>v.
       case Option.bind cv strict_int of
         None \<Rightarrow> Inr False
       | Some i \<Rightarrow>
           (case (map_of (state_before r i) (gp_state g), v) of
              (Some a, Some w) \<Rightarrow>
                rbind (comparison (gp_op g) a w) (\<lambda>ok. if ok then state_predicates_hold n c r gs else Inr False)
            | _ \<Rightarrow> Inr False)))"

record active_transformation =
  at_name :: string
  at_transformation :: string
  at_binding :: binding

definition candidate_active :: "nat \<Rightarrow> eval_context \<Rightarrow> state_check option \<Rightarrow> activation \<Rightarrow> active_transformation list res" where
  "candidate_active n c st a =
     rbind (eval_at n c (ac_expr a)) (\<lambda>v.
       if \<not> is_True v then Inr []
       else rbind (if ac_predicates a = [] then Inr True
                   else (case st of None \<Rightarrow> Inr False | Some r \<Rightarrow> state_predicates_hold n c r (ac_predicates a))) (\<lambda>ok.
         Inr (if ok then [\<lparr>at_name = ac_name a, at_transformation = ac_transformation a,
           at_binding = ac_binding a\<rparr>] else [])))"

definition active_transformations :: "nat \<Rightarrow> bounded_problem \<Rightarrow> assignment \<Rightarrow> state_check option \<Rightarrow>
    active_transformation list res" where
  "active_transformations n p a st =
     rbind (traverse (candidate_active n (problem_context p (map_of a)) st) (bp_activations p)) (\<lambda>xs.
       Inr (sort_key (\<lambda>x. (at_transformation x, at_name x)) (concat xs)))"

definition active_to_value :: "active_transformation \<Rightarrow> pyval" where
  "active_to_value x = VMap [(''name'', VStr (at_name x)), (''transformation'', VStr (at_transformation x)),
     (''binding'', VMap (map (\<lambda>(r, i). (r, VStr i)) (at_binding x)))]"

text \<open>\<open>completed.metadata["completion"]["active_transformations"] = [...]\<close>.\<close>

definition record_active :: "active_transformation list \<Rightarrow> trace \<Rightarrow> trace res" where
  "record_active xs t =
     rbind (get_key (tr_metadata t) ''completion'' PyKeyError) (\<lambda>m.
     rbind (as_dict m PyTypeError) (\<lambda>d.
       Inr (t\<lparr>tr_metadata := AList.update ''completion''
         (VMap (AList.update ''active_transformations'' (VList (map active_to_value xs)) d)) (tr_metadata t)\<rparr>)))"

section \<open>Completion\<close>

datatype completion_status = Feasible | Infeasible | CompletionUnknown

record completion_result =
  cr_status :: completion_status
  cr_backend :: string
  cr_trace :: "trace option"
  cr_assignment :: assignment
  cr_added :: "string list"
  cr_explored :: int
  cr_reason :: "solve_reason option"
  cr_constraints :: nat
  cr_initial :: cells
  cr_final :: cells
  cr_steps :: "pyval list"
  cr_active :: "active_transformation list"

definition no_trace :: "completion_status \<Rightarrow> string \<Rightarrow> bounded_problem \<Rightarrow> solve_result \<Rightarrow> completion_result" where
  "no_trace status backend p solved =
     \<lparr>cr_status = status, cr_backend = backend, cr_trace = None, cr_assignment = [], cr_added = [],
      cr_explored = fs_explored solved, cr_reason = Some (fs_reason solved),
      cr_constraints = length (bp_constraints p), cr_initial = [], cr_final = [], cr_steps = [], cr_active = []\<rparr>"

definition state_of :: "(state_check \<Rightarrow> 'a list) \<Rightarrow> solve_result \<Rightarrow> 'a list" where
  "state_of f solved = (case fs_state solved of None \<Rightarrow> [] | Some s \<Rightarrow> f s)"

text \<open>What \<open>complete_problem\<close> does with the backend's answer.\<close>

definition conclude :: "nat \<Rightarrow> bounded_problem \<Rightarrow> string \<Rightarrow> solve_result \<Rightarrow> completion_result res" where
  "conclude n p backend solved =
     (case fs_status solved of
        Unsat \<Rightarrow> Inr (no_trace Infeasible backend p solved)
      | Unknown \<Rightarrow> Inr (no_trace CompletionUnknown backend p solved)
      | Sat \<Rightarrow>
          rbind (materialize_trace n p (fs_assignment solved) (fs_state solved) backend) (\<lambda>t.
          rbind (validate_trace (bp_catalog p) (Some False) t) (\<lambda>_.
          rbind (active_transformations n p (fs_assignment solved) (fs_state solved)) (\<lambda>active.
          rbind (record_active active t) (\<lambda>t'.
            Inr \<lparr>cr_status = Feasible, cr_backend = backend, cr_trace = Some t',
              cr_assignment = fs_assignment solved,
              cr_added = map ei_id (filter (\<lambda>e. ei_id e \<in> set (bp_slot_ids p)) (tr_events t)),
              cr_explored = fs_explored solved, cr_reason = None,
              cr_constraints = length (bp_constraints p),
              cr_initial = state_of st_initial solved, cr_final = state_of st_final solved,
              cr_steps = state_of (\<lambda>s. map state_step_to_dict (st_steps s)) solved,
              cr_active = active\<rparr>)))))"

definition complete_problem :: "nat \<Rightarrow> (bounded_problem \<Rightarrow> bool \<Rightarrow> solve_result res) \<Rightarrow> string \<Rightarrow> int \<Rightarrow> bool \<Rightarrow>
    bounded_problem \<Rightarrow> completion_result res" where
  "complete_problem n solve_z3 backend node_limit minimize_slots p =
     (let low = py_lower backend; name = (if low = ''auto'' then ''finite'' else low) in
      rbind (require (name \<in> {''finite'', ''z3''}) SolverError) (\<lambda>_.
      rbind (if name = ''z3'' then solve_z3 p minimize_slots else solve_finite n node_limit p) (\<lambda>solved.
        conclude n p name solved)))"

definition complete_trace :: "nat \<Rightarrow> (bounded_problem \<Rightarrow> bool \<Rightarrow> solve_result res) \<Rightarrow> string \<Rightarrow> int \<Rightarrow>
    event_catalog \<Rightarrow> trace \<Rightarrow> completion_spec \<Rightarrow> completion_result res" where
  "complete_trace n solve_z3 backend node_limit c t s =
     rbind (build_problem c t s) (\<lambda>p. complete_problem n solve_z3 backend node_limit True p)"

section \<open>What a completion guarantees\<close>

text \<open>An event of the completed trace is an event of the problem with every value evaluated.\<close>

definition evaluates_to :: "nat \<Rightarrow> eval_context \<Rightarrow> pyval \<Rightarrow> pyval \<Rightarrow> bool" where
  "evaluates_to n c v w \<longleftrightarrow> concrete_value n c v = Inr (Some w)"

definition completed_event :: "nat \<Rightarrow> eval_context \<Rightarrow> event_instance \<Rightarrow> event_instance \<Rightarrow> bool" where
  "completed_event n c ev e \<longleftrightarrow> ei_id e = ei_id ev \<and> ei_type e = ei_type ev \<and> ei_occurs e = VBool True \<and>
     evaluates_to n c (ei_occurs ev) (VBool True) \<and>
     (if ei_cycle ev = VNone then ei_cycle e = VNone
      else evaluates_to n c (ei_cycle ev) (ei_cycle e) \<and> (\<exists>i \<ge> 0. ei_cycle e = VInt i)) \<and>
     list_all2 (\<lambda>(k, v) (k', w). k' = k \<and> evaluates_to n c v w) (ei_fields ev) (ei_fields e)"

definition completes :: "nat \<Rightarrow> bounded_problem \<Rightarrow> assignment \<Rightarrow> event_instance list \<Rightarrow> bool" where
  "completes n p a events \<longleftrightarrow>
     (\<forall>ev \<in> set (bp_events p). \<exists>b. evaluates_to n (problem_context p (map_of a)) (ei_occurs ev) (VBool b)) \<and>
     list_all2 (completed_event n (problem_context p (map_of a)))
       (filter (\<lambda>ev. evaluates_to n (problem_context p (map_of a)) (ei_occurs ev) (VBool True)) (bp_events p)) events"

lemma concrete_Inr: "concrete n c v = Inr w \<longleftrightarrow> evaluates_to n c v w"
  by (auto simp: concrete_def evaluates_to_def rbind_Inr_iff or_raise_Inr_iff)

lemma as_bool_Inr: "as_bool v err = Inr b \<longleftrightarrow> v = VBool b"
  by (auto simp: as_bool_def split: pyval.splits scalar.splits)

lemma concrete_fields_Inr:
  "concrete_fields n c fds = Inr out \<Longrightarrow> list_all2 (\<lambda>(k, v) (k', w). k' = k \<and> evaluates_to n c v w) fds out"
  unfolding concrete_fields_def traverse_Inr_iff
  by (erule list_all2_mono) (auto simp: rbind_Inr_iff concrete_Inr)

lemma materialize_event_Inr:
  assumes "materialize_event n c ids ev = Inr es"
  shows "\<exists>b. evaluates_to n c (ei_occurs ev) (VBool b)"
    and "if evaluates_to n c (ei_occurs ev) (VBool True) then \<exists>e. es = [e] \<and> completed_event n c ev e else es = []"
proof -
  obtain b where b: "evaluates_to n c (ei_occurs ev) (VBool b)"
    using assms by (auto simp: materialize_event_def rbind_Inr_iff concrete_Inr as_bool_Inr)
  then show "\<exists>b. evaluates_to n c (ei_occurs ev) (VBool b)" ..
  have un: "evaluates_to n c (ei_occurs ev) (VBool b') \<longleftrightarrow> b' = b" for b' using b by (auto simp: evaluates_to_def)
  show "if evaluates_to n c (ei_occurs ev) (VBool True) then \<exists>e. es = [e] \<and> completed_event n c ev e else es = []"
  proof (cases b)
    case True
    with assms b obtain cyc fds e where cyc: "concrete_cycle n c (ei_cycle ev) = Inr cyc"
      and fds: "concrete_fields n c (ei_fields ev) = Inr fds" and es: "es = [e]"
      and e: "ei_id e = ei_id ev" "ei_type e = ei_type ev" "ei_fields e = fds" "ei_cycle e = cyc" "ei_occurs e = VBool True"
      by (auto simp: materialize_event_def rbind_Inr_iff concrete_Inr as_bool_Inr un mk_event_instance_Inr_iff)
    have "if ei_cycle ev = VNone then cyc = VNone else evaluates_to n c (ei_cycle ev) cyc \<and> (\<exists>i \<ge> 0. cyc = VInt i)"
      using cyc by (auto simp: concrete_cycle_def rbind_Inr_iff concrete_Inr require_Inr_iff nonneg_cycle_def
          strict_int_iff split: if_splits option.splits)
    then have "completed_event n c ev e"
      using e b True concrete_fields_Inr [OF fds] by (simp add: completed_event_def)
    then show ?thesis using es b True by simp
  next
    case False
    then show ?thesis using assms b
      by (auto simp: materialize_event_def rbind_Inr_iff concrete_Inr as_bool_Inr un)
  qed
qed

lemma materialize_trace_completes:
  assumes "materialize_trace n p a st backend = Inr t"
  shows "completes n p a (tr_events t)" and "tr_partial t = False" and "tr_constraints t = tr_constraints (bp_trace p)"
proof -
  let ?c = "problem_context p (map_of a)"
  obtain ess where ess: "traverse (materialize_event n ?c (bp_slot_ids p)) (bp_events p) = Inr ess"
    and t: "tr_events t = concat ess" "tr_partial t = False" "tr_constraints t = tr_constraints (bp_trace p)"
    using assms by (auto simp: materialize_trace_def rbind_Inr_iff Let_def mk_trace_Inr)
  have "(\<forall>ev \<in> set evs. \<exists>b. evaluates_to n ?c (ei_occurs ev) (VBool b)) \<and>
      list_all2 (completed_event n ?c) (filter (\<lambda>ev. evaluates_to n ?c (ei_occurs ev) (VBool True)) evs) (concat ess)"
    if "traverse (materialize_event n ?c (bp_slot_ids p)) evs = Inr ess" for evs ess
    using that
  proof (induction evs arbitrary: ess)
    case (Cons ev evs)
    then obtain es rest where es: "materialize_event n ?c (bp_slot_ids p) ev = Inr es"
      and rest: "traverse (materialize_event n ?c (bp_slot_ids p)) evs = Inr rest" "ess = es # rest"
      by (auto simp: rbind_Inr_iff)
    note m = materialize_event_Inr [OF es]
    show ?case using m Cons.IH [OF rest(1)] by (auto simp: rest(2) split: if_splits)
  qed simp
  from this [OF ess] show "completes n p a (tr_events t)" by (simp add: completes_def t(1))
  show "tr_partial t = False" "tr_constraints t = tr_constraints (bp_trace p)" using t by simp_all
qed

text \<open>Values that were concrete in the problem are kept; in particular everything that was observed.\<close>

lemma evaluates_to_literal: "evaluates_to n c v w \<Longrightarrow> (\<forall>e. v \<noteq> VExpr e) \<Longrightarrow> w = v"
  by (cases v) (auto simp: evaluates_to_def concrete_value_def)

section \<open>The backend contract\<close>

text \<open>
  What completion relies on: an answer \<open>SAT\<close> comes with an assignment that satisfies every
  constraint and passes the state semantics.
\<close>

locale feasibility_backend =
  fixes solve :: "bounded_problem \<Rightarrow> solve_result res" and n :: nat
  assumes sat_solution: "solve p = Inr r \<Longrightarrow> fs_status r = Sat \<Longrightarrow> solution n p (fs_assignment r)"
begin

lemma conclude_feasible:
  assumes s: "solve p = Inr solved" and c: "conclude n p backend solved = Inr res" and f: "cr_status res = Feasible"
  shows "solution n p (cr_assignment res) \<and> (\<exists>t. cr_trace res = Some t \<and> completes n p (cr_assignment res) (tr_events t) \<and>
    tr_partial t = False \<and> tr_constraints t = tr_constraints (bp_trace p) \<and>
    validate_trace (bp_catalog p) (Some False) t = Inr ())"
proof -
  have sat: "fs_status solved = Sat"
    using c f by (auto simp: conclude_def no_trace_def split: finite_status.splits)
  then obtain t active t' where t: "materialize_trace n p (fs_assignment solved) (fs_state solved) backend = Inr t"
    and v: "validate_trace (bp_catalog p) (Some False) t = Inr ()"
    and t': "record_active active t = Inr t'" and r: "cr_trace res = Some t'" "cr_assignment res = fs_assignment solved"
    using c by (auto simp: conclude_def rbind_Inr_iff)
  have same: "tr_events t' = tr_events t" "tr_partial t' = tr_partial t" "tr_constraints t' = tr_constraints t"
    using t' by (auto simp: record_active_def rbind_Inr_iff)
  then have "validate_trace (bp_catalog p) (Some False) t' = validate_trace (bp_catalog p) (Some False) t"
    by (simp add: validate_trace_def validate_structure_def event_map_def)
  then show ?thesis
    using sat_solution [OF s sat] materialize_trace_completes [OF t] v r same by auto
qed

end

interpretation finite_backend: feasibility_backend "solve_finite n limit" n for n limit
  by unfold_locales (rule solve_finite_Sat(2))

lemma complete_problem_finite:
  assumes c: "complete_problem n solve_z3 backend limit minimize p = Inr res" and f: "cr_status res = Feasible"
    and b: "py_lower backend \<noteq> ''z3''"
  shows "solution n p (cr_assignment res) \<and> (\<exists>t. cr_trace res = Some t \<and> completes n p (cr_assignment res) (tr_events t) \<and>
    tr_partial t = False \<and> tr_constraints t = tr_constraints (bp_trace p) \<and>
    validate_trace (bp_catalog p) (Some False) t = Inr ())"
proof -
  obtain solved name where "solve_finite n limit p = Inr solved" "conclude n p name solved = Inr res"
    using c b by (auto simp: complete_problem_def Let_def rbind_Inr_iff require_Inr_iff split: if_splits)
  then show ?thesis using f by (rule finite_backend.conclude_feasible)
qed

text \<open>
  The completed trace leaves out the events that do not occur but keeps the constraints of the
  source trace, and is validated with them.
\<close>

lemma completes_occurring:
  assumes "completes n p a events" and "e \<in> set events"
  shows "\<exists>ev \<in> set (bp_events p). ei_id ev = ei_id e \<and>
    evaluates_to n (problem_context p (map_of a)) (ei_occurs ev) (VBool True)"
proof -
  have "\<exists>x \<in> set xs. completed_event n c x e" if "list_all2 (completed_event n c) xs ys" "e \<in> set ys" for xs ys c
    using that by (induction rule: list_all2_induct) auto
  from this [OF conjunct2 [OF assms(1) [unfolded completes_def]] assms(2)] show ?thesis
    by (auto simp: completed_event_def)
qed

lemma complete_problem_absent:
  assumes s: "solve_finite n limit p = Inr solved" "fs_status solved = Sat" and b: "py_lower backend \<noteq> ''z3''"
    and e: "e \<in> set (tr_constraints (bp_trace p))" "(i, f, s) \<in> set (iter_event_fields e)"
    and absent: "\<forall>ev \<in> set (bp_events p). ei_id ev = i \<longrightarrow>
      evaluates_to n (problem_context p (map_of (fs_assignment solved))) (ei_occurs ev) (VBool False)"
  shows "\<exists>err. complete_problem n solve_z3 backend limit minimize p = Inl err"
proof (rule ccontr)
  assume no_error: "\<nexists>err. complete_problem n solve_z3 backend limit minimize p = Inl err"
  obtain res where c: "complete_problem n solve_z3 backend limit minimize p = Inr res"
    using no_error by (cases "complete_problem n solve_z3 backend limit minimize p") auto
  obtain name where "conclude n p name solved = Inr res"
    using c b s(1) by (auto simp: complete_problem_def Let_def rbind_Inr_iff require_Inr_iff split: if_splits)
  then have f: "cr_status res = Feasible" and a: "cr_assignment res = fs_assignment solved"
    using s(2) by (auto simp: conclude_def rbind_Inr_iff)
  obtain t where t: "completes n p (fs_assignment solved) (tr_events t)" "tr_constraints t = tr_constraints (bp_trace p)"
    "validate_trace (bp_catalog p) (Some False) t = Inr ()"
    using complete_problem_finite [OF c f b] by (auto simp: a)
  obtain ev where ev: "map_of (event_map t) i = Some ev"
    using validated_reference [OF t(3) _ e(2)] e(1) t(2) by auto
  have "distinct (map ei_id (tr_events t))" using t(3) by (auto simp: validate_trace_def rbind_Inr_iff validate_structure_Inr)
  then have mem: "ev \<in> set (tr_events t)" "ei_id ev = i" using map_of_event_map ev by blast+
  from completes_occurring [OF t(1) mem(1)] show False using absent mem(2) by (auto simp: evaluates_to_def)
qed

lemma complete_problem_infeasible:
  assumes c: "complete_problem n solve_z3 backend limit minimize p = Inr res" and f: "cr_status res = Infeasible"
    and b: "py_lower backend \<noteq> ''z3''"
  shows "\<exists>solved. solve_finite n limit p = Inr solved \<and> fs_status solved = Unsat"
proof -
  obtain solved name where "solve_finite n limit p = Inr solved" "conclude n p name solved = Inr res"
    using c b by (auto simp: complete_problem_def Let_def rbind_Inr_iff require_Inr_iff split: if_splits)
  then show ?thesis using f
    by (auto simp: conclude_def no_trace_def rbind_Inr_iff split: finite_status.splits)
qed

section \<open>Replaying the recorded steps\<close>

lemma replay_sorted:
  "sorted (map sp_cycle ss) \<Longrightarrow> replay st ss cyc =
     (let xs = filter (\<lambda>s. sp_cycle s < cyc) ss in if xs = [] then st else sp_after (last xs))"
proof (induction ss arbitrary: st)
  case (Cons s ss)
  show ?case
  proof (cases "cyc \<le> sp_cycle s")
    case True
    then have "filter (\<lambda>s. sp_cycle s < cyc) (s # ss) = []"
      using Cons.prems by (auto simp: filter_empty_conv)
    then show ?thesis using True by simp
  next
    case False
    then show ?thesis using Cons by (simp add: Let_def)
  qed
qed simp

lemma dict_list_fresh: "k \<notin> fst ` set d \<Longrightarrow> dict_list d k = []"
  by (simp add: dict_list_def map_of_eq_None_iff [THEN iffD2])

lemma replay_snoc:
  assumes "sorted (map sp_cycle ss)" and "\<forall>s \<in> set ss. sp_cycle s \<le> sp_cycle x"
  shows "replay st (ss @ [x]) cyc = (if sp_cycle x < cyc then sp_after x else replay st ss cyc)"
proof -
  have s: "sorted (map sp_cycle (ss @ [x]))" using assms by (auto simp: sorted_append)
  show ?thesis unfolding replay_sorted [OF s] replay_sorted [OF assms(1)]
    by (simp add: Let_def)
qed

text \<open>The steps a simulation records reproduce the state before every cycle.\<close>

definition replays :: "cells \<Rightarrow> nat \<Rightarrow> sim \<Rightarrow> bool" where
  "replays ini k s \<longleftrightarrow> length (sim_pre s) = k \<and> sorted (map sp_cycle (sim_steps s)) \<and>
     (\<forall>x \<in> set (sim_steps s). sp_cycle x < int k) \<and>
     (\<forall>j < k. replay ini (sim_steps s) (int j) = sim_pre s ! j) \<and>
     replay ini (sim_steps s) (int k) = sim_state s"

lemma run_cycle_idle: "run_cycle cyc [] [] st = Inr (st, [], [])"
  by (simp add: run_cycle_def group_by_def)

lemma replay_beyond: "sorted (map sp_cycle ss) \<Longrightarrow> \<forall>x \<in> set ss. sp_cycle x < a \<Longrightarrow> a \<le> b \<Longrightarrow> replay st ss b = replay st ss a"
proof -
  assume s: "sorted (map sp_cycle ss)" and l: "\<forall>x \<in> set ss. sp_cycle x < a" "a \<le> b"
  have "filter (\<lambda>s. sp_cycle s < b) ss = ss" "filter (\<lambda>s. sp_cycle s < a) ss = ss"
    using l by (auto intro!: filter_True)
  then show "replay st ss b = replay st ss a" unfolding replay_sorted [OF s] by simp
qed

lemma simulate_replays:
  assumes "simulate R U active (map int [k..<m]) s = Inr (t, None)" and "k \<le> m" and "replays ini k s"
    and "\<forall>i. i \<notin> set active \<longrightarrow> R i = [] \<and> U i = []"
  shows "replays ini m t"
  using assms(1-3)
proof (induction "m - k" arbitrary: k s)
  case 0
  then show ?case by simp
next
  case (Suc d)
  then have km: "k < m" and up: "[k..<m] = k # [Suc k..<m]" by (simp_all add: upt_conv_Cons)
  obtain st names chs where rc: "run_cycle (int k) (R (int k)) (U (int k)) (sim_state s) = Inr (st, names, chs)"
    using Suc.prems(1) unfolding up by (auto split: sum.splits)
  let ?step = "\<lparr>sp_cycle = int k, sp_before = sim_state s, sp_after = st,
            sp_requirements = map (\<lambda>(r, _). ri_name r) (R (int k)), sp_updates = names, sp_changes = chs\<rparr>"
  define s' where "s' = \<lparr>sim_state = st, sim_pre = sim_pre s @ [sim_state s],
        sim_steps = sim_steps s @ (if int k \<in> set active then [?step] else [])\<rparr>"
  have rest: "simulate R U active (map int [Suc k..<m]) s' = Inr (t, None)"
    using Suc.prems(1) unfolding up by (simp add: rc s'_def)
  note inv = Suc.prems(3) [unfolded replays_def]
  have srt: "sorted (map sp_cycle (sim_steps s))" and lt: "\<forall>x \<in> set (sim_steps s). sp_cycle x < int k" using inv by blast+
  have le: "\<forall>x \<in> set (sim_steps s). sp_cycle x \<le> sp_cycle ?step" using lt by auto
  have old: "replay ini (sim_steps s') (int j) = replay ini (sim_steps s) (int j)" if "j \<le> k" for j
    using that replay_snoc [OF srt le, of ini "int j"] by (simp add: s'_def)
  have new: "replay ini (sim_steps s') (int (Suc k)) = st"
  proof (cases "int k \<in> set active")
    case True
    then show ?thesis using replay_snoc [OF srt le, of ini "int (Suc k)"] by (simp add: s'_def)
  next
    case False
    then have "st = sim_state s" using rc assms(4) run_cycle_idle by simp
    then show ?thesis using False replay_beyond [OF srt lt, of "int (Suc k)" ini] inv by (simp add: s'_def)
  qed
  have "replays ini (Suc k) s'"
    unfolding replays_def
  proof (intro conjI allI impI)
    show "length (sim_pre s') = Suc k" using inv by (simp add: s'_def)
    show "sorted (map sp_cycle (sim_steps s'))" using srt lt by (auto simp: s'_def sorted_append)
    show "\<forall>x \<in> set (sim_steps s'). sp_cycle x < int (Suc k)" using lt by (auto simp: s'_def)
    show "replay ini (sim_steps s') (int j) = sim_pre s' ! j" if "j < Suc k" for j
      using that inv old [of j] by (auto simp: s'_def nth_append less_Suc_eq)
    show "replay ini (sim_steps s') (int (Suc k)) = sim_state s'" using new by (simp add: s'_def)
  qed
  moreover have "d = m - Suc k" "Suc k \<le> m" using Suc.hyps(2) km by simp_all
  ultimately show ?case using Suc.hyps(1) rest by blast
qed

text \<open>
  So the states \<open>completion.py\<close> replays to list the active transformations are the states
  \<open>state.py\<close> checked the guards on.
\<close>

lemma state_before_run:
  assumes "check_state_semantics n p asg = Inr r" and "st_feasible r" and "0 \<le> cs_horizon (bp_spec p)"
  shows "\<exists>pre. state_run n p asg (st_initial r) pre (map_of (st_final r)) \<and>
    (\<forall>j < length pre. state_before r (int j) = pre ! j)"
proof -
  let ?c = "problem_context p asg" and ?h = "cs_horizon (bp_spec p)"
  from assms(1,2) obtain ini reqs upds t where
    i: "initial_cells n ?c (cs_state_variables (bp_spec p)) = Inr ini"
    and rq: "by_cycle (requirement_effect n ?c ?h) (bp_requirements p) = Inr reqs"
    and up: "by_cycle (update_effect n ?c ?h) (bp_updates p) = Inr upds"
    and sm: "simulate (dict_list reqs) (dict_list upds) (map fst reqs @ map fst upds) [0..?h]
              \<lparr>sim_state = ini, sim_pre = [], sim_steps = []\<rparr> = Inr (t, None)"
    and g: "check_guarded_transitions n ?c p (sim_pre t) = Inr None"
    and r: "st_initial r = ini" "st_final r = sim_state t" "st_steps r = sim_steps t"
    by (auto simp: check_state_semantics_def Let_def or_reject_def rejected_def rbind_Inr_iff
        split: sum.splits option.splits prod.splits)
  note ref = simulate_refines(2) [OF refl assms(3) sm]
  have "state_run n p asg ini (sim_pre t) (map_of (sim_state t))"
    unfolding state_run_def Let_def
    using i g ref by_cycle_Inr(1,2) [OF rq] by_cycle_Inr(1,2) [OF up] by simp
  moreover have "replays ini (nat (?h + 1)) t"
  proof (rule simulate_replays [OF sm [unfolded cycles_upto]])
    show "replays ini 0 \<lparr>sim_state = ini, sim_pre = [], sim_steps = []\<rparr>" by (simp add: replays_def)
    show "\<forall>i. i \<notin> set (map fst reqs @ map fst upds) \<longrightarrow> dict_list reqs i = [] \<and> dict_list upds i = []"
      by (simp add: dict_list_fresh)
  qed simp
  then have "sorted (map sp_cycle (sim_steps t))"
    and "\<forall>j < nat (?h + 1). replay ini (sim_steps t) (int j) = sim_pre t ! j" by (simp_all add: replays_def)
  moreover from this(1) have "sort_key sp_cycle (sim_steps t) = sim_steps t" by (rule sort_key_id_if_sorted)
  ultimately show ?thesis using ref by (intro exI [of _ "sim_pre t"]) (simp add: r state_before_def)
qed

end
