(* ===== verification/CompletionExamples.thy ===== *)
theory CompletionExamples
  imports CompletionRun
begin

text \<open>
  A handshake on which the completion properties are evaluated: a request observed in cycle 0, a
  slot for its acknowledgement, an exact transformation that answers a request with the same tag,
  requires the cell \<open>busy\<close> to be 0 and sets it to 1. The same request as an event that does not
  occur shows what happens to a constraint about it.
\<close>

section \<open>A catalog, a trace and a specification\<close>

definition handshake_type :: "string \<Rightarrow> event_type" where
  "handshake_type n = \<lparr>et_name = n, et_module = ''core'', et_layer = ''isa'',
     et_fields = [\<lparr>fs_name = ''tag'', fs_sort = INT_SORT, fs_required = True, fs_identity = True,
       fs_description = []\<rparr>],
     et_visibility = PUBLIC, et_description = [], et_tags = []\<rparr>"

definition handshake_catalog :: event_catalog where
  "handshake_catalog = \<lparr>ec_types = [(''core.req'', handshake_type ''core.req''),
       (''core.ack'', handshake_type ''core.ack'')],
     ec_version = EVENT_CATALOG_SCHEMA_VERSION, ec_metadata = []\<rparr>"

definition request_event :: "pyval \<Rightarrow> event_instance" where
  "request_event occ = \<lparr>ei_id = ''r'', ei_type = ''core.req'', ei_fields = [(''tag'', VInt 1)],
     ei_cycle = VInt 0, ei_occurs = occ, ei_annotations = []\<rparr>"

definition request_trace :: "pyval \<Rightarrow> trace" where
  "request_trace occ = \<lparr>tr_events = [request_event occ],
     tr_constraints = [Binary ''eq'' (EventField ''r'' ''tag'' INT_SORT) (Literal (SInt 1) INT_SORT)],
     tr_partial = True, tr_metadata = [], tr_version = TRACE_SCHEMA_VERSION\<rparr>"

definition answer :: transformation where
  "answer = \<lparr>tf_name = ''answer'', tf_inputs = [\<lparr>ro_name = ''q'', ro_type = ''core.req''\<rparr>],
     tf_outputs = [\<lparr>ro_name = ''p'', ro_type = ''core.ack''\<rparr>],
     tf_when = TRUE_EXPR, tf_output_when = TRUE_EXPR,
     tf_ensure = [Binary ''eq'' (EventField ''q'' ''tag'' INT_SORT) (EventField ''p'' ''tag'' INT_SORT)],
     tf_requirements = [\<lparr>rq_state = ''core.busy'', rq_at = ''q'', rq_op = ''eq'',
       rq_value = Literal (SInt 0) INT_SORT, rq_description = []\<rparr>],
     tf_updates = [\<lparr>up_state = ''core.busy'', up_at = ''q'', up_value = Literal (SInt 1) INT_SORT,
       up_description = []\<rparr>],
     tf_exact = True, tf_state_mode = ''require'', tf_description = [], tf_tags = []\<rparr>"

definition busy_cell :: state_variable where
  "busy_cell = \<lparr>sv_name = ''core.busy'', sv_sort = INT_SORT, sv_initial = VInt 0, sv_description = []\<rparr>"

definition ack_slot :: event_slot where
  "ack_slot = \<lparr>sl_id = ''a'', sl_type = ''core.ack'', sl_fields = [(''tag'', VInt 1)], sl_required = False,
     sl_cycle = VInt 0, sl_annotations = []\<rparr>"

definition handshake_spec :: completion_spec where
  "handshake_spec = \<lparr>cs_slots = [ack_slot], cs_transformations = [answer], cs_state_variables = [busy_cell],
     cs_constraints = [Binary ''le'' (EventField ''a'' ''cycle'' INT_SORT) (Literal (SInt 1) INT_SORT)],
     cs_horizon = 0, cs_metadata = [], cs_version = COMPLETION_SCHEMA_VERSION\<rparr>"

definition absent_spec :: completion_spec where
  "absent_spec = handshake_spec\<lparr>cs_slots := [], cs_transformations := [], cs_constraints := []\<rparr>"

lemma handshake_catalog_wf: "wf_catalog handshake_catalog"
  by code_simp

lemma answer_typed: "validate_transformation handshake_catalog (state_map handshake_spec) answer = Inr ()"
  by code_simp

lemma answer_roles: "distinct (map ro_name (tf_roles answer))"
  by code_simp

lemma handshake_spec_encodable: "encodable_spec handshake_spec"
  by code_simp

lemma handshake_input: "wf_input handshake_catalog (request_trace (VBool True)) handshake_spec"
  by code_simp

section \<open>The bounded problem\<close>

definition handshake_problem :: bounded_problem where
  "handshake_problem = (case build_problem handshake_catalog (request_trace (VBool True)) handshake_spec of Inr p \<Rightarrow> p)"

lemma handshake_built:
  "build_problem handshake_catalog (request_trace (VBool True)) handshake_spec = Inr handshake_problem"
proof -
  have "\<not> isl (build_problem handshake_catalog (request_trace (VBool True)) handshake_spec)" by code_simp
  then show ?thesis by (auto simp: handshake_problem_def isl_def split: sum.splits)
qed

section \<open>Simulating, solving and completing\<close>

lemma event_complete_code [code]:
  "event_complete c e \<longleftrightarrow> wf_event e \<and>
     (case map_of (ec_types c) (ei_type e) of Some t \<Rightarrow> event_conforms t False e | None \<Rightarrow> False)"
  by (simp add: event_complete_def split: option.splits)

lemma reference_valid_code [code]:
  "reference_valid c events r \<longleftrightarrow> (case r of (i, f, s) \<Rightarrow>
     list_ex (\<lambda>e. ei_id e = i \<and>
       (case map_of (ec_types c) (ei_type e) of Some t \<Rightarrow> attribute_has_sort t f s | None \<Rightarrow> False)) events)"
  by (auto simp: reference_valid_def list_ex_iff split: option.splits)

definition acknowledged :: assignment where
  "acknowledged = [(''slot::a::occurs'', VBool True)]"

definition handshake_states :: "(bool \<times> cells \<times> cells) res" where
  "handshake_states = rbind (check_state_semantics 3 handshake_problem (map_of acknowledged))
     (\<lambda>r. Inr (st_feasible r, st_initial r, st_final r))"

lemma handshake_states_ok:
  "handshake_states = Inr (True, [(''core.busy'', VInt 0)], [(''core.busy'', VInt 1)])"
  by code_simp

lemma handshake_checked:
  obtains r where "check_state_semantics 3 handshake_problem (map_of acknowledged) = Inr r" "st_feasible r"
    "st_initial r = [(''core.busy'', VInt 0)]" "st_final r = [(''core.busy'', VInt 1)]"
  using handshake_states_ok by (auto simp: handshake_states_def rbind_Inr_iff)

lemma handshake_horizon: "cs_horizon (bp_spec handshake_problem) = 0"
  by code_simp

text \<open>A request that may occur, or must, alone in its trace, with further constraints.\<close>

definition optional :: pyval where
  "optional = VExpr (Symbol ''s'' BOOL_SORT)"

definition lone_problem :: "expr list \<Rightarrow> pyval \<Rightarrow> bounded_problem" where
  "lone_problem es occ = (case build_problem handshake_catalog (request_trace occ)
     (absent_spec\<lparr>cs_constraints := es\<rparr>) of Inr p \<Rightarrow> p)"

definition wrong_tag :: expr where
  "wrong_tag = Binary ''eq'' (EventField ''r'' ''tag'' INT_SORT) (Literal (SInt 2) INT_SORT)"

lemma lone_typed: "typed_problem (lone_problem [] optional)" "typed_problem (lone_problem [wrong_tag] optional)"
  by code_simp+

lemma lone_variables:
  "build_variables (lone_problem [] optional) =
     Inr [\<lparr>fv_name = ''s'', fv_sort = BOOL_SORT, fv_domain = [VBool False, VBool True]\<rparr>]"
  "build_variables (lone_problem [wrong_tag] optional) =
     Inr [\<lparr>fv_name = ''s'', fv_sort = BOOL_SORT, fv_domain = [VBool False, VBool True]\<rparr>]"
  by code_simp+

definition lone_outcome :: "expr list \<Rightarrow> (finite_status \<times> assignment \<times> int) res" where
  "lone_outcome es = rbind (solve_finite 3 100 (lone_problem es optional))
     (\<lambda>r. Inr (fs_status r, fs_assignment r, fs_explored r))"

lemma lone_outcomes:
  "lone_outcome [] = Inr (Sat, [(''s'', VBool False)], 2)"
  "lone_outcome [wrong_tag] = Inr (Unsat, [], 1)"
  by code_simp+

lemma lone_solved:
  obtains r where "solve_finite 3 100 (lone_problem [] optional) = Inr r" "fs_status r = Sat"
    "fs_assignment r = [(''s'', VBool False)]" "fs_explored r = 2"
  using lone_outcomes(1) by (auto simp: lone_outcome_def rbind_Inr_iff)

lemma lone_unsolved:
  obtains r where "solve_finite 3 100 (lone_problem [wrong_tag] optional) = Inr r" "fs_status r = Unsat"
  using lone_outcomes(2) by (auto simp: lone_outcome_def rbind_Inr_iff)

definition no_backend :: "bounded_problem \<Rightarrow> bool \<Rightarrow> solve_result res" where
  "no_backend p minimize = Inl BackendUnavailableError"

definition lone_completion :: "pyval \<Rightarrow> (completion_status \<times> assignment) res" where
  "lone_completion occ = rbind (complete_problem 3 no_backend ''auto'' 100 True (lone_problem [] occ))
     (\<lambda>r. Inr (cr_status r, cr_assignment r))"

lemma lone_completed:
  obtains r where "complete_problem 3 no_backend ''auto'' 100 True (lone_problem [] (VBool True)) = Inr r"
    "cr_status r = Feasible"
proof -
  have "lone_completion (VBool True) = Inr (Feasible, [])" by code_simp
  then show thesis using that by (auto simp: lone_completion_def rbind_Inr_iff)
qed

section \<open>The rule of the transformation\<close>

lemma rule_decided_code:
  assumes "distinct (map ro_name (tf_roles t))"
  shows "rule_decided n c t events \<longleftrightarrow>
     (\<forall>ib \<in> set (input_bindings t events).
        (\<forall>e \<in> set (occurs_of ib). decided n c e) \<and> decided n c (substitute_event_ids ib (tf_when t))) \<and>
     (\<forall>ob \<in> set (output_bindings t events).
        (\<forall>e \<in> set (occurs_of ob). decided n c e) \<and> decided n c (substitute_event_ids ob (tf_output_when t))) \<and>
     (\<forall>ib \<in> set (input_bindings t events). \<forall>ob \<in> set (output_bindings t events).
        (\<forall>e \<in> set (tf_when t # tf_output_when t # tf_ensure t). decided n c (substitute_event_ids (ib @ ob) e)))"
proof -
  note m = role_bindings_mem [OF conjunct1 [OF tf_roles_distinct [OF assms]]]
    role_bindings_mem [OF conjunct2 [OF tf_roles_distinct [OF assms]]]
  show ?thesis unfolding rule_decided_def input_bindings_def output_bindings_def Ball_def m by blast
qed

lemma decided_code [code]:
  "decided n c e \<longleftrightarrow> (case eval_at n c e of Inr (Some (VBool b)) \<Rightarrow> True | _ \<Rightarrow> False)"
  by (auto simp: decided_def split: sum.splits option.splits pyval.splits scalar.splits)

definition handshake_context :: eval_context where
  "handshake_context = problem_context handshake_problem (map_of acknowledged)"

lemma answer_decided: "rule_decided 3 handshake_context answer (bp_events handshake_problem)"
  unfolding rule_decided_code [OF answer_roles] by code_simp

lemma answer_instantiated:
  obtains inst where "instantiate_transformation (bp_events handshake_problem) answer = Inr inst"
    "\<forall>k \<in> set (in_constraints inst). holds 3 handshake_context (nc_expr k)"
proof -
  have "(case instantiate_transformation (bp_events handshake_problem) answer of
      Inr inst \<Rightarrow> list_all (\<lambda>k. holds 3 handshake_context (nc_expr k)) (in_constraints inst) | _ \<Rightarrow> False)" by code_simp
  then show thesis using that by (auto simp: list_all_iff split: sum.splits)
qed

end
