(* ===== verification/AbstractionExamples.thy ===== *)
theory AbstractionExamples
  imports AbstractionFacts CompletionExamples
begin

text \<open>
  A served handshake: a request and its acknowledgement with the same tag are summarised as one
  event, and the sources are hidden.
\<close>

definition ack_event :: event_instance where
  "ack_event = \<lparr>ei_id = ''a'', ei_type = ''core.ack'', ei_fields = [(''tag'', VInt 1)], ei_cycle = VInt 1,
     ei_occurs = VBool True, ei_annotations = []\<rparr>"

definition served_trace :: trace where
  "served_trace = \<lparr>tr_events = [request_event (VBool True), ack_event], tr_constraints = [], tr_partial = False,
     tr_metadata = [], tr_version = TRACE_SCHEMA_VERSION\<rparr>"

definition serve_rule :: summary_rule where
  "serve_rule = \<lparr>su_name = ''serve'',
     su_roles = [\<lparr>rs_name = ''q'', rs_type = ''core.req'', rs_fields = [(''tag'', MatchVar ''t'')]\<rparr>,
       \<lparr>rs_name = ''p'', rs_type = ''core.ack'', rs_fields = [(''tag'', MatchVar ''t'')]\<rparr>],
     su_output = \<lparr>se_type = ''core.ack'', se_template = ''served{t}'', se_fields = [(''tag'', OutVar ''t'')],
       se_cycle_from = ''last'', se_annotations = []\<rparr>,
     su_ordered = True, su_strict = True, su_distinct = True, su_hide = True, su_min = 1, su_max = 10\<rparr>"

definition serve_spec :: abstraction_spec where
  "serve_spec = \<lparr>as_name = ''serve'', as_source = ''core'', as_target = ''bus'',
     as_retain = \<lparr>rt_types = [], rt_ids = [], rt_visibilities = []\<rparr>, as_summaries = [serve_rule],
     as_default = ''keep'', as_retain_metadata = [], as_metadata = [],
     as_version = ABSTRACTION_SCHEMA_VERSION\<rparr>"

lemma serve_spec_printable: "printable_abstraction serve_spec"
  by code_simp

text \<open>A concrete function in the place of the hash.\<close>

definition short_digest :: "string \<Rightarrow> string" where
  "short_digest s = take 8 s"

definition served_ids :: "(string \<times> string list) list res" where
  "served_ids = rbind (abstract_trace short_digest served_trace handshake_catalog serve_spec)
     (\<lambda>r. Inr (map (\<lambda>e. (ei_id e, ct_hidden (ab_certificate r))) (tr_events (ab_trace r))))"

lemma served_ids_ok: "served_ids = Inr [(''served1'', [''a'', ''r''])]"
  by code_simp

lemma served_abstraction:
  obtains r where "abstract_trace short_digest served_trace handshake_catalog serve_spec = Inr r"
    "map ei_id (tr_events (ab_trace r)) = [''served1'']"
  using served_ids_ok by (auto simp: served_ids_def rbind_Inr_iff)

lemma served_events: "concrete_events served_trace = Inr [request_event (VBool True), ack_event]"
  by code_simp

lemma served_cycles: "\<forall>e \<in> set [request_event (VBool True), ack_event]. known_cycle e"
  by code_simp

end
