(* ===== verification/CompositionExamples.thy ===== *)
theory CompositionExamples
  imports Projection AbstractionExamples
begin

text \<open>
  Two modules joined by a mapped connection: requests leave \<open>cpu\<close> and arrive as acknowledgements at
  \<open>mem\<close>, whose slot is named by a template parameter taken from the trace.
\<close>

definition cpu_module :: module_spec where
  "cpu_module = \<lparr>mo_label = ''cpu'',
     mo_ports = [\<lparr>po_name = ''out'', po_direction = OUTPUT, po_type = ''core.req'', po_required = True,
       po_description = [], po_tags = []\<rparr>],
     mo_internal = [], mo_slots = [],
     mo_transformations = [\<lparr>tf_name = ''issue'', tf_inputs = [\<lparr>ro_name = ''q'', ro_type = ''core.req''\<rparr>], tf_outputs = [],
       tf_when = TRUE_EXPR, tf_output_when = TRUE_EXPR, tf_ensure = [], tf_requirements = [],
       tf_updates = [\<lparr>up_state = ''cpu.busy'', up_at = ''q'', up_value = Literal (SInt 1) INT_SORT, up_description = []\<rparr>],
       tf_exact = False, tf_state_mode = ''require'', tf_description = [], tf_tags = []\<rparr>],
     mo_states = [\<lparr>sv_name = ''cpu.busy'', sv_sort = INT_SORT, sv_initial = VInt 0, sv_description = []\<rparr>],
     mo_constraints = [], mo_attributes = [], mo_version = MODULE_SCHEMA_VERSION\<rparr>"

definition mem_template :: pyval where
  "mem_template = VMap [(''name'', VStr ''mem''),
     (''ports'', VList [VMap [(''name'', VStr ''in''), (''direction'', VStr ''input''), (''event_type'', VStr ''core.ack'')]]),
     (''slots'', VList [VMap [(''id'', VStr ''ack${q.tag}''), (''type'', VStr ''core.ack''),
       (''fields'', VMap [(''tag'', VStr ''${q.tag}'')])]])]"

definition module_files :: "string \<Rightarrow> pyval res option" where
  "module_files path = (if path = ''/m/cpu'' then Some (Inr (module_to_dict cpu_module))
     else if path = ''/m/mem'' then Some (Inr mem_template) else None)"

definition request_role :: trace_role where
  "request_role = \<lparr>tl_name = ''q'', tl_types = OneType ''core.req'', tl_where = [(''tag'', VInt 1)],
     tl_exports = [(''tag'', ''fields.tag'')], tl_derived = [], tl_event_id = None, tl_occurring = True,
     tl_cardinality = ''one'', tl_min = 1, tl_copies = 1, tl_copy_exports = [], tl_distinct_by = None,
     tl_description = []\<rparr>"

definition link :: connection where
  "link = \<lparr>cn_name = ''link'', cn_source = \<lparr>en_module = ''cpu'', en_port = ''out''\<rparr>,
     cn_target = \<lparr>en_module = ''mem'', en_port = ''in''\<rparr>, cn_mode = EVENT_MAP, cn_fields = [], cn_same_cycle = True,
     cn_exact = True, cn_description = []\<rparr>"

definition link_composition :: composition where
  "link_composition = \<lparr>cp_name = ''pair'', cp_modules = [\<lparr>mr_name = ''cpu'', mr_path = ''cpu''\<rparr>,
       \<lparr>mr_name = ''mem'', mr_path = ''/m/mem''\<rparr>],
     cp_connections = [link], cp_roles = [request_role], cp_parameters = [], cp_constraints = [], cp_horizon = 2,
     cp_metadata = [], cp_version = COMPOSITION_SCHEMA_VERSION, cp_source = Some ''/m/pair''\<rparr>"

lemma link_composition_fields [simp]: "cp_connections link_composition = [link]" "cp_roles link_composition = [request_role]"
  by (simp_all add: link_composition_def)

lemma request_role_ok: "mk_trace_role request_role = Inr request_role" "distinct (map fst (tl_exports request_role))"
  "tl_cardinality request_role = ''one''"
  by code_simp+

definition link_context :: "(string \<times> pyval) list" where
  "link_context = [(''q'', VMap [(''event_id'', VStr ''r''), (''event_type'', VStr ''core.req''), (''tag'', VInt 1)])]"

lemma link_context_ok: "composition_context link_composition (Some (request_trace (VBool True))) = Inr link_context"
  by code_simp

definition mem_module :: module_spec where
  "mem_module = \<lparr>mo_label = ''mem'',
     mo_ports = [\<lparr>po_name = ''in'', po_direction = INPUT, po_type = ''core.ack'', po_required = True,
       po_description = [], po_tags = []\<rparr>],
     mo_internal = [], mo_slots = [\<lparr>sl_id = ''ack1'', sl_type = ''core.ack'', sl_fields = [(''tag'', VInt 1)],
       sl_required = False, sl_cycle = VNone, sl_annotations = []\<rparr>],
     mo_transformations = [], mo_states = [], mo_constraints = [], mo_attributes = [], mo_version = MODULE_SCHEMA_VERSION\<rparr>"

definition link_modules :: "loaded_module list" where
  "link_modules = [\<lparr>lm_reference = ''cpu'', lm_path = ''/m/cpu'', lm_spec = cpu_module\<rparr>,
     \<lparr>lm_reference = ''mem'', lm_path = ''/m/mem'', lm_spec = mem_module\<rparr>]"

lemma link_loaded:
  "traverse (load_module module_files (\<lambda>p. p) ''/'' handshake_catalog link_composition link_context)
     (cp_modules link_composition) = Inr link_modules"
  by code_simp

abbreviation link_result :: "composition_result res" where
  "link_result \<equiv> compose_modules module_files (\<lambda>p. p) ''/'' handshake_catalog link_composition (Some (request_trace (VBool True)))"

definition link_merged :: merged where
  "link_merged = \<lparr>mg_slots = concat (map module_slots link_modules), mg_states = mo_states cpu_module,
     mg_transformations = concat (map module_rules link_modules), mg_constraints = []\<rparr>"

definition link_rule :: transformation where
  "link_rule = connection_rule link \<lparr>ro_name = ''source'', ro_type = ''core.req''\<rparr> \<lparr>ro_name = ''target'', ro_type = ''core.ack''\<rparr>
     [Binary ''eq'' (EventField ''target'' ''cycle'' INT_SORT) (EventField ''source'' ''cycle'' INT_SORT),
      Binary ''eq'' (EventField ''target'' ''tag'' INT_SORT) (EventField ''source'' ''tag'' INT_SORT)]"

lemma link_connected: "validate_connections (module_table link_modules) [link] handshake_catalog = Inr ()"
  by code_simp

lemma link_merging:
  "fold_res merge_module \<lparr>mg_slots = [], mg_states = [], mg_transformations = [], mg_constraints = []\<rparr> link_modules = Inr link_merged"
  by code_simp

lemma link_mapped: "mapped_transformation (module_table link_modules) link handshake_catalog = Inr link_rule"
  by code_simp

lemma link_generated:
  "generate_connections (module_table link_modules) handshake_catalog (mg_transformations link_merged) [link] =
     Inr (mg_transformations link_merged @ [link_rule])"
proof -
  have "tf_name link_rule \<notin> tf_name ` set (mg_transformations link_merged)" by code_simp
  then show ?thesis by (simp add: generate_connections_def link_def link_mapped [unfolded link_def] add_unique_def require_def)
qed

lemma link_unique:
  "distinct (map sl_id (mg_slots link_merged))" "distinct (map tf_name (mg_transformations link_merged @ [link_rule]))"
  "distinct (map sv_name (mg_states link_merged))" "mg_constraints link_merged = []"
  by code_simp+

lemma link_composed:
  obtains r where "link_result = Inr r" "co_modules r = link_modules" "cs_slots (co_completion r) = mg_slots link_merged"
    "cs_transformations (co_completion r) = mg_transformations link_merged @ [link_rule]"
proof -
  have "str_default (cp_metadata link_composition) ''encapsulation'' ''legacy'' \<noteq> ''strict''" "cp_constraints link_composition = []"
    "\<not> cp_horizon link_composition < 0" by code_simp+
  moreover have "reject_duplicates xs = Inr ()" if "distinct xs" for xs using that by (simp add: reject_duplicates_Inr)
  ultimately have "\<exists>r. link_result = Inr r \<and> co_modules r = link_modules \<and>
      cs_slots (co_completion r) = mg_slots link_merged \<and>
      cs_transformations (co_completion r) = mg_transformations link_merged @ [link_rule]"
    using link_unique by (simp add: compose_modules_def Let_def link_context_ok link_loaded link_connected link_merging
        link_generated mk_completion_spec_def rbind_require del: map_append)
  then show thesis using that by blast
qed

lemma handshake_plain: "plain_fields handshake_catalog"
  by code_simp

lemma link_printable: "printable_composition (link_composition\<lparr>cp_source := None\<rparr>)" "printable_module cpu_module"
  by code_simp+

end
