(* ===== verification/SearchIR.thy ===== *)
theory SearchIR
  imports CompositionIR
begin

text \<open>
  \<open>src/src/umcm/search/model.py\<close>: the specification of a hierarchical search - the bounds, the
  architectural part with its fixed or generated operations, and the realization stages - with the
  checks of the constructors and the dictionary form.
\<close>

section \<open>Bounds and operations\<close>

definition SEARCH_SCHEMA_VERSION :: string where
  "SEARCH_SCHEMA_VERSION = ''umcm.search.v0.21.0''"

definition domain_values :: "pyval \<Rightarrow> pyval list res" where
  "domain_values v = (let vs = (case v of VList vs \<Rightarrow> vs | _ \<Rightarrow> [v]) in rbind (require (vs \<noteq> []) SearchError) (\<lambda>_. Inr vs))"

definition string_items :: "pyval \<Rightarrow> string list res" where
  "string_items v = (case v of VList vs \<Rightarrow> Inr (map py_str vs) | _ \<Rightarrow> Inl SerializationError)"

record search_bounds =
  sb_harts :: int
  sb_ops :: int
  sb_addresses :: int
  sb_values :: int
  sb_assignments :: int
  sb_candidates :: int

definition mk_bounds :: "search_bounds \<Rightarrow> search_bounds res" where
  "mk_bounds b = rbind (require (list_all (\<lambda>n. 0 < n) [sb_harts b, sb_ops b, sb_addresses b, sb_values b,
     sb_assignments b, sb_candidates b]) SearchError) (\<lambda>_. Inr b)"

definition int_key :: "(string \<times> pyval) list \<Rightarrow> string \<Rightarrow> int res" where
  "int_key d k = rbind (get_key d k SerializationError) py_int"

definition bounds_from_dict :: "pyval \<Rightarrow> search_bounds res" where
  "bounds_from_dict v = with_map v (\<lambda>d.
     rbind (int_key d ''harts'') (\<lambda>h.
     rbind (int_key d ''memory_ops'') (\<lambda>n.
     rbind (int_key d ''addresses'') (\<lambda>a.
     rbind (int_key d ''values'') (\<lambda>w.
     rbind (py_int (get_default d ''max_assignments'' (VInt 10000))) (\<lambda>ma.
     rbind (py_int (get_default d ''max_graph_candidates'' (VInt 10000))) (\<lambda>mg.
       mk_bounds \<lparr>sb_harts = h, sb_ops = n, sb_addresses = a, sb_values = w, sb_assignments = ma,
         sb_candidates = mg\<rparr>)))))))"

definition bounds_to_dict :: "search_bounds \<Rightarrow> pyval" where
  "bounds_to_dict b = VMap [(''harts'', VInt (sb_harts b)), (''memory_ops'', VInt (sb_ops b)),
     (''addresses'', VInt (sb_addresses b)), (''values'', VInt (sb_values b)),
     (''max_assignments'', VInt (sb_assignments b)), (''max_graph_candidates'', VInt (sb_candidates b))]"

record init_write =
  iw_id :: string
  iw_address :: pyval
  iw_value :: pyval

definition mk_init_write :: "init_write \<Rightarrow> init_write res" where
  "mk_init_write w = rbind (require (iw_id w \<noteq> []) SearchError) (\<lambda>_. Inr w)"

definition init_write_from_dict :: "pyval \<Rightarrow> init_write res" where
  "init_write_from_dict v = with_map v (\<lambda>d.
     rbind (get_key d ''id'' SerializationError) (\<lambda>i.
     rbind (get_key d ''address'' SerializationError) (\<lambda>a.
     rbind (get_key d ''value'' SerializationError) (\<lambda>w.
       mk_init_write \<lparr>iw_id = py_str i, iw_address = a, iw_value = w\<rparr>))))"

definition init_write_to_dict :: "init_write \<Rightarrow> pyval" where
  "init_write_to_dict w = VMap [(''id'', VStr (iw_id w)), (''address'', iw_address w), (''value'', iw_value w)]"

record operation_slot =
  os_id :: string
  os_kinds :: "string list"
  os_harts :: "int list"
  os_indexes :: "int list"
  os_addresses :: "pyval list"
  os_values :: "pyval list"
  os_fields :: "(string \<times> pyval) list"

definition mk_operation_slot :: "operation_slot \<Rightarrow> operation_slot res" where
  "mk_operation_slot s =
     rbind (require (os_id s \<noteq> []) SearchError) (\<lambda>_.
     rbind (require (set (os_kinds s) \<subseteq> {''load'', ''store''}) SearchError) (\<lambda>_.
     rbind (require (list_all (\<lambda>h. \<not> h < 0) (os_harts s)) SearchError) (\<lambda>_.
     rbind (require (list_all (\<lambda>i. \<not> i < 0) (os_indexes s)) SearchError) (\<lambda>_. Inr s))))"

definition domain_key :: "(string \<times> pyval) list \<Rightarrow> string \<Rightarrow> pyval list res" where
  "domain_key d k = rbind (get_key d k SerializationError) domain_values"

definition operation_slot_from_dict :: "pyval \<Rightarrow> operation_slot res" where
  "operation_slot_from_dict v = with_map v (\<lambda>d.
     rbind (map_field d ''fields'') (\<lambda>fields.
     rbind (get_key d ''id'' SerializationError) (\<lambda>i.
     rbind (domain_key d ''kind'') (\<lambda>kinds.
     rbind (rbind (domain_key d ''hart'') (traverse py_int)) (\<lambda>harts.
     rbind (rbind (domain_key d ''program_index'') (traverse py_int)) (\<lambda>indexes.
     rbind (domain_key d ''address'') (\<lambda>addresses.
     rbind (domain_key d ''value'') (\<lambda>values.
       mk_operation_slot \<lparr>os_id = py_str i, os_kinds = map py_str kinds, os_harts = harts, os_indexes = indexes,
         os_addresses = addresses, os_values = values, os_fields = fields\<rparr>))))))))"

definition operation_slot_to_dict :: "operation_slot \<Rightarrow> pyval" where
  "operation_slot_to_dict s = VMap [(''id'', VStr (os_id s)), (''kind'', VList (map VStr (os_kinds s))),
     (''hart'', VList (map VInt (os_harts s))), (''program_index'', VList (map VInt (os_indexes s))),
     (''address'', VList (os_addresses s)), (''value'', VList (os_values s)), (''fields'', VMap (os_fields s))]"

section \<open>The architectural part\<close>

record event_names =
  en_init :: string
  en_load :: string
  en_store :: string
  en_commit :: string
  en_defaults :: "(string \<times> (string \<times> pyval) list) list"

definition event_names_from_dict :: "pyval \<Rightarrow> event_names res" where
  "event_names_from_dict v = with_map v (\<lambda>d.
     rbind (map_field d ''defaults'') (\<lambda>raw.
     rbind (traverse (\<lambda>(k, w). with_map w (\<lambda>m. Inr (k, m))) raw) (\<lambda>defaults.
     rbind (get_key d ''init_write'' SerializationError) (\<lambda>i.
     rbind (get_key d ''load'' SerializationError) (\<lambda>l.
     rbind (get_key d ''store'' SerializationError) (\<lambda>s.
     rbind (get_key d ''commit_read'' SerializationError) (\<lambda>c.
       Inr \<lparr>en_init = py_str i, en_load = py_str l, en_store = py_str s, en_commit = py_str c,
         en_defaults = defaults\<rparr>)))))))"

definition event_names_to_dict :: "event_names \<Rightarrow> pyval" where
  "event_names_to_dict m = VMap [(''init_write'', VStr (en_init m)), (''load'', VStr (en_load m)),
     (''store'', VStr (en_store m)), (''commit_read'', VStr (en_commit m)),
     (''defaults'', VMap (map (\<lambda>(k, d). (k, VMap d)) (en_defaults m)))]"

record arch_search =
  sa_model :: string
  sa_target :: string
  sa_events :: event_names
  sa_init :: "init_write list"
  sa_operations :: "operation_slot list"
  sa_generation :: string

definition mk_arch_search :: "arch_search \<Rightarrow> arch_search res" where
  "mk_arch_search a =
     rbind (require (sa_target a \<in> {''allowed'', ''forbidden''}) SearchError) (\<lambda>_.
     rbind (require (sa_generation a \<in> {''explicit'', ''bounded''}) SearchError) (\<lambda>_.
     rbind (require (distinct (map iw_id (sa_init a) @ map os_id (sa_operations a))) SearchError) (\<lambda>_.
     rbind (require (\<not> (sa_generation a = ''explicit'' \<and> (sa_init a = [] \<or> sa_operations a = []))) SearchError) (\<lambda>_.
     rbind (require (\<not> (sa_generation a = ''bounded'' \<and> (sa_init a \<noteq> [] \<or> sa_operations a \<noteq> []))) SearchError) (\<lambda>_.
       Inr a)))))"

definition arch_search_from_dict :: "pyval \<Rightarrow> arch_search res" where
  "arch_search_from_dict v = with_map v (\<lambda>d.
     rbind (list_field d ''init_writes'' []) (\<lambda>raw_init.
     rbind (list_field d ''operations'' []) (\<lambda>raw_ops.
     rbind (get_key d ''model'' SerializationError) (\<lambda>m.
     rbind (rbind (get_key d ''events'' SerializationError) event_names_from_dict) (\<lambda>events.
     rbind (traverse init_write_from_dict raw_init) (\<lambda>inits.
     rbind (traverse operation_slot_from_dict raw_ops) (\<lambda>ops.
       mk_arch_search \<lparr>sa_model = py_str m, sa_target = str_default d ''target'' ''forbidden'', sa_events = events,
         sa_init = inits, sa_operations = ops,
         sa_generation = str_default d ''generation'' ''explicit''\<rparr>)))))))"

definition arch_search_to_dict :: "arch_search \<Rightarrow> pyval" where
  "arch_search_to_dict a = VMap [(''model'', VStr (sa_model a)), (''target'', VStr (sa_target a)),
     (''generation'', VStr (sa_generation a)), (''events'', event_names_to_dict (sa_events a)),
     (''init_writes'', VList (map init_write_to_dict (sa_init a))),
     (''operations'', VList (map operation_slot_to_dict (sa_operations a)))]"

section \<open>Realization stages\<close>

record stage_spec =
  rs_name :: string
  rs_kind :: string
  rs_required :: bool
  rs_catalog :: "string option"
  rs_composition :: "string option"
  rs_core :: "string option"
  rs_inputs :: "string list"
  rs_types :: "(string \<times> string) list"
  rs_start :: int
  rs_stride :: int
  rs_schedules :: int
  rs_reason :: string
  rs_missing :: "string list"

definition given :: "string option \<Rightarrow> bool" where
  "given s \<longleftrightarrow> s \<noteq> None \<and> s \<noteq> Some []"

definition dynamic_stage :: "stage_spec \<Rightarrow> bool" where
  "dynamic_stage s \<longleftrightarrow> rs_kind s \<in> {''coherence_access'', ''boom_end_to_end''}"

definition mk_stage :: "stage_spec \<Rightarrow> stage_spec res" where
  "mk_stage s =
     rbind (require (rs_name s \<noteq> []) SearchError) (\<lambda>_.
     rbind (require (rs_kind s \<in> {''coherence_access'', ''boom_end_to_end'', ''interface_gap''}) SearchError) (\<lambda>_.
       if dynamic_stage s then
         rbind (require (given (rs_catalog s) \<and> given (rs_composition s)) SearchError) (\<lambda>_.
         rbind (require (\<not> (rs_kind s = ''boom_end_to_end'' \<and> \<not> given (rs_core s))) SearchError) (\<lambda>_.
         rbind (require ({''line_init'', ''access'', ''load_result'', ''store_result''} \<subseteq> fst ` set (rs_types s)) SearchError) (\<lambda>_.
         rbind (require (\<not> (rs_start s < 0 \<or> rs_stride s \<le> 0)) SearchError) (\<lambda>_.
         rbind (require (\<not> rs_schedules s \<le> 0) SearchError) (\<lambda>_. Inr s)))))
       else rbind (require (rs_reason s \<noteq> []) SearchError) (\<lambda>_. Inr s)))"

definition stage_from_dict :: "pyval \<Rightarrow> stage_spec res" where
  "stage_from_dict v = with_map v (\<lambda>d.
     rbind (map_field d ''event_types'') (\<lambda>types.
     rbind (get_key d ''name'' SerializationError) (\<lambda>n.
     rbind (get_key d ''kind'' SerializationError) (\<lambda>k.
     rbind (string_items (get_default d ''input_event_types'' (VList []))) (\<lambda>inputs.
     rbind (py_int (get_default d ''cycle_start'' (VInt 1))) (\<lambda>cs.
     rbind (py_int (get_default d ''cycle_stride'' (VInt 9))) (\<lambda>cd.
     rbind (py_int (get_default d ''max_schedules'' (VInt 24))) (\<lambda>ms.
     rbind (string_items (get_default d ''missing_interfaces'' (VList []))) (\<lambda>missing.
       mk_stage \<lparr>rs_name = py_str n, rs_kind = py_str k, rs_required = truthy (get_default d ''required'' (VBool True)),
         rs_catalog = str_option d ''catalog'', rs_composition = str_option d ''composition'',
         rs_core = str_option d ''core_composition'', rs_inputs = inputs,
         rs_types = map (\<lambda>(k, x). (k, py_str x)) types, rs_start = cs, rs_stride = cd, rs_schedules = ms,
         rs_reason = str_default d ''reason'' [], rs_missing = missing\<rparr>)))))))))"

definition option_entry :: "string \<Rightarrow> string option \<Rightarrow> (string \<times> pyval) list" where
  "option_entry k s = (case s of None \<Rightarrow> [] | Some x \<Rightarrow> [(k, VStr x)])"

definition stage_to_dict :: "stage_spec \<Rightarrow> pyval" where
  "stage_to_dict s = VMap ([(''name'', VStr (rs_name s)), (''kind'', VStr (rs_kind s)),
     (''required'', VBool (rs_required s))]
     @ option_entry ''catalog'' (rs_catalog s) @ option_entry ''composition'' (rs_composition s)
     @ option_entry ''core_composition'' (rs_core s)
     @ (if rs_inputs s = [] then [] else [(''input_event_types'', VList (map VStr (rs_inputs s)))])
     @ (if rs_types s = [] then [] else [(''event_types'', string_map (rs_types s))])
     @ (if dynamic_stage s then [(''cycle_start'', VInt (rs_start s)), (''cycle_stride'', VInt (rs_stride s)),
          (''max_schedules'', VInt (rs_schedules s))] else [])
     @ (if rs_reason s = [] then [] else [(''reason'', VStr (rs_reason s))])
     @ (if rs_missing s = [] then [] else [(''missing_interfaces'', VList (map VStr (rs_missing s)))]))"

section \<open>The whole specification\<close>

record search_spec =
  hs_name :: string
  hs_catalog :: string
  hs_bounds :: search_bounds
  hs_arch :: arch_search
  hs_stages :: "stage_spec list"
  hs_metadata :: "(string \<times> pyval) list"
  hs_source :: "string option"
  hs_version :: string

definition hash_set :: "pyval list \<Rightarrow> pyval list res" where
  "hash_set vs = rbind (require (list_all hashable vs) PyTypeError) (\<lambda>_. Inr (py_set vs))"

definition declared_harts :: "arch_search \<Rightarrow> int list" where
  "declared_harts a = concat (map os_harts (sa_operations a))"

definition declared_addresses :: "arch_search \<Rightarrow> pyval list" where
  "declared_addresses a = map iw_address (sa_init a) @ concat (map os_addresses (sa_operations a))"

definition declared_values :: "arch_search \<Rightarrow> pyval list" where
  "declared_values a = map iw_value (sa_init a) @ concat (map os_values (sa_operations a))"

definition mk_search_spec :: "search_spec \<Rightarrow> search_spec res" where
  "mk_search_spec s =
     (let a = hs_arch s; b = hs_bounds s in
      rbind (require (hs_name s \<noteq> []) SearchError) (\<lambda>_.
      rbind (require (\<not> (sa_generation a = ''explicit'' \<and> sb_ops b < int (length (sa_operations a)))) SearchError) (\<lambda>_.
      rbind (require (int (length (remdups (declared_harts a))) \<le> sb_harts b) SearchError) (\<lambda>_.
      rbind (hash_set (declared_addresses a)) (\<lambda>addresses.
      rbind (require (int (length addresses) \<le> sb_addresses b) SearchError) (\<lambda>_.
      rbind (hash_set (declared_values a)) (\<lambda>values.
      rbind (require (int (length values) \<le> sb_values b) SearchError) (\<lambda>_.
      rbind (require (distinct (map rs_name (hs_stages s))) SearchError) (\<lambda>_.
      rbind (require (list_ex rs_required (hs_stages s)) SearchError) (\<lambda>_.
      rbind (require (list_all (\<lambda>h. h < sb_harts b) (declared_harts a)) SearchError) (\<lambda>_. Inr s)))))))))))"

definition search_spec_from_dict :: "pyval \<Rightarrow> search_spec res" where
  "search_spec_from_dict v = with_map v (\<lambda>d.
     rbind (with_map (get_default d ''realization'' (VMap [])) (\<lambda>r. list_field r ''stages'' [])) (\<lambda>raw_stages.
     rbind (map_field d ''metadata'') (\<lambda>metadata.
     rbind (get_key d ''name'' SerializationError) (\<lambda>n.
     rbind (get_key d ''catalog'' SerializationError) (\<lambda>c.
     rbind (rbind (get_key d ''bounds'' SerializationError) bounds_from_dict) (\<lambda>bounds.
     rbind (rbind (get_key d ''architecture'' SerializationError) arch_search_from_dict) (\<lambda>arch.
     rbind (traverse stage_from_dict raw_stages) (\<lambda>stages.
       mk_search_spec \<lparr>hs_name = py_str n, hs_catalog = py_str c, hs_bounds = bounds, hs_arch = arch,
         hs_stages = stages, hs_metadata = metadata, hs_source = None,
         hs_version = str_default d ''schema_version'' SEARCH_SCHEMA_VERSION\<rparr>))))))))"

definition search_spec_to_dict :: "search_spec \<Rightarrow> pyval" where
  "search_spec_to_dict s = VMap [(''schema_version'', VStr (hs_version s)), (''name'', VStr (hs_name s)),
     (''catalog'', VStr (hs_catalog s)), (''metadata'', VMap (hs_metadata s)),
     (''bounds'', bounds_to_dict (hs_bounds s)), (''architecture'', arch_search_to_dict (hs_arch s)),
     (''realization'', VMap [(''stages'', VList (map stage_to_dict (hs_stages s)))])]"

text \<open>
  \<open>load\<close> and \<open>resolve\<close>. Reading a file is the parameter \<open>read\<close> (\<open>None\<close> where there is no file, an error where
  its contents do not parse), \<open>Path.resolve\<close> the parameter \<open>real_path\<close>.
\<close>

definition load_data :: "(string \<Rightarrow> pyval res option) \<Rightarrow> string \<Rightarrow> pyval res" where
  "load_data read path = (case read path of None \<Rightarrow> Inl SerializationError | Some content \<Rightarrow> content)"

definition load_search_spec :: "(string \<Rightarrow> pyval res option) \<Rightarrow> (string \<Rightarrow> string) \<Rightarrow> string \<Rightarrow> search_spec res" where
  "load_search_spec read real_path path =
     (let source = real_path path in
      rbind (load_data read source) (\<lambda>v.
      rbind (search_spec_from_dict v) (\<lambda>s. Inr (s\<lparr>hs_source := Some source\<rparr>))))"

definition join_path :: "string \<Rightarrow> string \<Rightarrow> string" where
  "join_path dir path = (if take 1 path = ''/'' then path else if dir = ''/'' then ''/'' @ path else dir @ ''/'' @ path)"

definition resolve_path :: "(string \<Rightarrow> string) \<Rightarrow> string \<Rightarrow> search_spec \<Rightarrow> string \<Rightarrow> string" where
  "resolve_path real_path cwd s path =
     real_path (join_path (case hs_source s of None \<Rightarrow> cwd | Some p \<Rightarrow> parent_dir p) path)"

section \<open>Construction\<close>

lemma mk_bounds_Inr [res_simps]:
  "mk_bounds b = Inr b' \<longleftrightarrow> b' = b \<and> 0 < sb_harts b \<and> 0 < sb_ops b \<and> 0 < sb_addresses b \<and> 0 < sb_values b \<and>
     0 < sb_assignments b \<and> 0 < sb_candidates b"
  by (auto simp: mk_bounds_def rbind_require)

lemma mk_init_write_Inr [res_simps]: "mk_init_write w = Inr w' \<longleftrightarrow> w' = w \<and> iw_id w \<noteq> []"
  by (auto simp: mk_init_write_def rbind_require)

lemma mk_operation_slot_Inr [res_simps]:
  "mk_operation_slot s = Inr s' \<longleftrightarrow> s' = s \<and> os_id s \<noteq> [] \<and> set (os_kinds s) \<subseteq> {''load'', ''store''} \<and>
     (\<forall>h \<in> set (os_harts s). 0 \<le> h) \<and> (\<forall>i \<in> set (os_indexes s). 0 \<le> i)"
  by (auto simp: mk_operation_slot_def rbind_require list_all_iff not_less)

lemma mk_arch_search_Inr [res_simps]:
  "mk_arch_search a = Inr a' \<longleftrightarrow> a' = a \<and> sa_target a \<in> {''allowed'', ''forbidden''} \<and>
     distinct (map iw_id (sa_init a) @ map os_id (sa_operations a)) \<and>
     (sa_generation a = ''explicit'' \<and> sa_init a \<noteq> [] \<and> sa_operations a \<noteq> [] \<or>
      sa_generation a = ''bounded'' \<and> sa_init a = [] \<and> sa_operations a = [])"
  by (auto simp: mk_arch_search_def rbind_require)

lemma mk_stage_Inr [res_simps]:
  "mk_stage s = Inr s' \<longleftrightarrow> s' = s \<and> rs_name s \<noteq> [] \<and>
     (dynamic_stage s \<and> given (rs_catalog s) \<and> given (rs_composition s) \<and>
        (rs_kind s = ''boom_end_to_end'' \<longrightarrow> given (rs_core s)) \<and>
        {''line_init'', ''access'', ''load_result'', ''store_result''} \<subseteq> fst ` set (rs_types s) \<and>
        0 \<le> rs_start s \<and> 0 < rs_stride s \<and> 0 < rs_schedules s \<or>
      rs_kind s = ''interface_gap'' \<and> rs_reason s \<noteq> [])"
  by (auto simp: mk_stage_def rbind_require dynamic_stage_def)

lemma hash_set_Inr [res_simps]: "hash_set vs = Inr ws \<longleftrightarrow> list_all hashable vs \<and> ws = py_set vs"
  by (auto simp: hash_set_def rbind_require)

text \<open>A specification is accepted iff it has a required stage and keeps to its bounds.\<close>

definition within_bounds :: "arch_search \<Rightarrow> search_bounds \<Rightarrow> bool" where
  "within_bounds a b \<longleftrightarrow>
     (sa_generation a = ''explicit'' \<longrightarrow> int (length (sa_operations a)) \<le> sb_ops b) \<and>
     int (card (set (declared_harts a))) \<le> sb_harts b \<and> (\<forall>h \<in> set (declared_harts a). h < sb_harts b) \<and>
     (\<forall>v \<in> set (declared_addresses a) \<union> set (declared_values a). hashable v) \<and>
     int (card (canon ` set (declared_addresses a))) \<le> sb_addresses b \<and>
     int (card (canon ` set (declared_values a))) \<le> sb_values b"

lemma length_py_set_card: "length (py_set vs) = card (canon ` set vs)"
proof -
  have "canon ` set (py_set xs) = canon ` set xs \<and> distinct (map canon (py_set xs))" for xs
  proof (induction xs)
    case (Cons x xs)
    have "canon ` set (filter (\<lambda>y. \<not> py_eq x y) ys) = canon ` set ys - {canon x}" for ys
      by (auto simp: py_eq_def)
    then have "canon ` set (filter (\<lambda>y. \<not> py_eq x y) (py_set xs)) = canon ` set xs - {canon x}"
      using Cons.IH by simp
    moreover have "distinct (map canon (filter (\<lambda>y. \<not> py_eq x y) (py_set xs)))"
      using Cons.IH by (simp add: distinct_map_filter)
    ultimately show ?case by (auto simp: py_eq_def)
  qed simp
  then show ?thesis by (metis distinct_card length_map set_map)
qed

lemma mk_search_spec_Inr [res_simps]:
  "mk_search_spec s = Inr s' \<longleftrightarrow> s' = s \<and> hs_name s \<noteq> [] \<and> within_bounds (hs_arch s) (hs_bounds s) \<and>
     distinct (map rs_name (hs_stages s)) \<and> (\<exists>st \<in> set (hs_stages s). rs_required st)"
  by (auto simp: mk_search_spec_def Let_def rbind_Inr_iff require_Inr_iff hash_set_Inr within_bounds_def list_all_iff
      list_ex_iff length_remdups_card_conv length_py_set_card)

section \<open>Round trip\<close>

interpretation bounds_codec: codec bounds_to_dict bounds_from_dict "\<lambda>b. mk_bounds b = Inr b"
  by unfold_locales (auto simp: bounds_from_dict_def bounds_to_dict_def int_key_def with_map_Inr rbind_Inr_iff mk_bounds_Inr)

interpretation init_write_codec: codec init_write_to_dict init_write_from_dict "\<lambda>w. iw_id w \<noteq> []"
  by unfold_locales (auto simp: init_write_from_dict_def init_write_to_dict_def with_map_Inr rbind_Inr_iff mk_init_write_Inr)

definition wf_operation_slot :: "operation_slot \<Rightarrow> bool" where
  "wf_operation_slot s \<longleftrightarrow> mk_operation_slot s = Inr s \<and> os_kinds s \<noteq> [] \<and> os_harts s \<noteq> [] \<and> os_indexes s \<noteq> [] \<and>
     os_addresses s \<noteq> [] \<and> os_values s \<noteq> []"

lemma domain_values_Inr [res_simps]: "domain_values v = Inr vs \<longleftrightarrow> vs \<noteq> [] \<and> (v = VList vs \<or> vs = [v] \<and> (\<forall>ws. v \<noteq> VList ws))"
  by (cases v) (auto simp: domain_values_def rbind_require)

lemma domain_values_VList [simp]: "vs \<noteq> [] \<Longrightarrow> domain_values (VList vs) = Inr vs"
  by (simp add: domain_values_Inr)

lemma traverse_py_int [simp]: "traverse py_int (map VInt xs) = Inr xs"
  by (induction xs) auto

interpretation operation_slot_codec: codec operation_slot_to_dict operation_slot_from_dict wf_operation_slot
proof unfold_locales
  show "wf_operation_slot s \<Longrightarrow> operation_slot_from_dict (operation_slot_to_dict s) = Inr s" for s
    by (cases s) (simp add: operation_slot_from_dict_def operation_slot_to_dict_def domain_key_def map_field_def
        wf_operation_slot_def)
  show "wf_operation_slot s" if dec: "operation_slot_from_dict v = Inr s" for v s
  proof -
    obtain d fs i ks hvs hs ivs idx as vs where "domain_key d ''kind'' = Inr ks" "domain_key d ''hart'' = Inr hvs"
      "traverse py_int hvs = Inr hs" "domain_key d ''program_index'' = Inr ivs" "traverse py_int ivs = Inr idx"
      "domain_key d ''address'' = Inr as" "domain_key d ''value'' = Inr vs"
      "mk_operation_slot \<lparr>os_id = i, os_kinds = map py_str ks, os_harts = hs, os_indexes = idx, os_addresses = as,
         os_values = vs, os_fields = fs\<rparr> = Inr s"
      using dec unfolding operation_slot_from_dict_def with_map_Inr rbind_Inr_iff by (elim exE conjE) (rule that; assumption)
    moreover from this have "ks \<noteq> []" "hvs \<noteq> []" "ivs \<noteq> []" "as \<noteq> []" "vs \<noteq> []"
      by (auto simp: domain_key_def rbind_Inr_iff domain_values_Inr)
    ultimately show ?thesis by (auto simp: wf_operation_slot_def mk_operation_slot_Inr dest!: traverse_length)
  qed
qed

lemma event_names_roundtrip: "event_names_from_dict (event_names_to_dict m) = Inr m"
proof -
  have "traverse (\<lambda>(k, w). with_map w (\<lambda>m. Inr (k, m))) (map (\<lambda>(k, d). (k, VMap d)) ds) = Inr ds"
    for ds :: "(string \<times> (string \<times> pyval) list) list" by (induction ds) auto
  then show ?thesis by (cases m) (simp add: event_names_from_dict_def event_names_to_dict_def map_field_def)
qed

definition wf_arch_search :: "arch_search \<Rightarrow> bool" where
  "wf_arch_search a \<longleftrightarrow> mk_arch_search a = Inr a \<and> (\<forall>w \<in> set (sa_init a). iw_id w \<noteq> []) \<and>
     (\<forall>s \<in> set (sa_operations a). wf_operation_slot s)"

interpretation arch_search_codec: codec arch_search_to_dict arch_search_from_dict wf_arch_search
proof unfold_locales
  show "arch_search_from_dict (arch_search_to_dict a) = Inr a" if "wf_arch_search a" for a
    using that by (cases a) (simp add: arch_search_from_dict_def arch_search_to_dict_def wf_arch_search_def list_field_def
        str_default_def event_names_roundtrip init_write_codec.traverse_enc operation_slot_codec.traverse_enc)
  show "wf_arch_search a" if dec: "arch_search_from_dict v = Inr a" for v a
  proof -
    obtain m t es g ri ro inits ops where r: "traverse init_write_from_dict ri = Inr inits"
      "traverse operation_slot_from_dict ro = Inr ops"
      and a: "mk_arch_search \<lparr>sa_model = m, sa_target = t, sa_events = es, sa_init = inits, sa_operations = ops,
         sa_generation = g\<rparr> = Inr a"
      using dec unfolding arch_search_from_dict_def with_map_Inr rbind_Inr_iff by (elim exE conjE) (rule that; assumption)
    then have "mk_arch_search a = Inr a" "sa_init a = inits" "sa_operations a = ops" by (auto simp: mk_arch_search_Inr)
    then show ?thesis using r init_write_codec.traverse_wf operation_slot_codec.traverse_wf unfolding wf_arch_search_def by blast
  qed
qed

text \<open>A stage that only names an interface gap is written without its schedule bounds.\<close>

definition printable_stage :: "stage_spec \<Rightarrow> bool" where
  "printable_stage s \<longleftrightarrow> mk_stage s = Inr s \<and>
     (\<not> dynamic_stage s \<longrightarrow> rs_start s = 1 \<and> rs_stride s = 9 \<and> rs_schedules s = 24)"

lemma get_default_option_entry [simp]:
  "get_default (option_entry k s) k' v = (if k = k' then (case s of None \<Rightarrow> v | Some x \<Rightarrow> VStr x) else v)"
  by (cases s) (simp_all add: option_entry_def)

lemma option_value [simp]:
  "(case (case s of None \<Rightarrow> VNone | Some x \<Rightarrow> VStr x) of VScalar SNone \<Rightarrow> None | v \<Rightarrow> Some (py_str v)) = s"
  by (cases s) simp_all

lemma string_items_VStr [simp]: "string_items (VList (map VStr xs)) = Inr xs"
  by (simp add: string_items_def)

lemma string_items_Nil [simp]: "string_items (VList []) = Inr []"
  by (simp add: string_items_def)

lemma stage_dec_enc: "printable_stage s \<Longrightarrow> stage_from_dict (stage_to_dict s) = Inr s"
proof -
  assume p: "printable_stage s"
  obtain n k r cat cmp core ins tys st sd sc re ms where s: "s = \<lparr>rs_name = n, rs_kind = k, rs_required = r, rs_catalog = cat,
      rs_composition = cmp, rs_core = core, rs_inputs = ins, rs_types = tys, rs_start = st, rs_stride = sd,
      rs_schedules = sc, rs_reason = re, rs_missing = ms\<rparr>" by (cases s)
  have mk: "mk_stage s = Inr s" and "dynamic_stage s \<or> st = 1 \<and> sd = 9 \<and> sc = 24"
    using p by (auto simp: printable_stage_def s)
  then show ?thesis
    by (cases "dynamic_stage s"; cases "ins = []"; cases "tys = []"; cases "re = []"; cases "ms = []")
      (simp_all add: stage_from_dict_def stage_to_dict_def s map_field_def string_map_def str_default_def str_option_def)
qed

interpretation stage_codec: encoder stage_to_dict stage_from_dict printable_stage
  by unfold_locales (rule stage_dec_enc)

lemma stage_from_dict_ok: "stage_from_dict v = Inr s \<Longrightarrow> mk_stage s = Inr s"
proof -
  assume dec: "stage_from_dict v = Inr s"
  obtain x where "mk_stage x = Inr s"
    using dec unfolding stage_from_dict_def with_map_Inr rbind_Inr_iff by (elim exE conjE) (rule that; assumption)
  then show ?thesis by (auto simp: mk_stage_Inr)
qed

definition wf_search_spec :: "search_spec \<Rightarrow> bool" where
  "wf_search_spec s \<longleftrightarrow> mk_search_spec s = Inr s \<and> mk_bounds (hs_bounds s) = Inr (hs_bounds s) \<and>
     wf_arch_search (hs_arch s) \<and> (\<forall>st \<in> set (hs_stages s). mk_stage st = Inr st)"

definition printable_search :: "search_spec \<Rightarrow> bool" where
  "printable_search s \<longleftrightarrow> wf_search_spec s \<and> (\<forall>st \<in> set (hs_stages s). printable_stage st) \<and> hs_source s = None"

lemma search_spec_dec_enc: "printable_search s \<Longrightarrow> search_spec_from_dict (search_spec_to_dict s) = Inr s"
  by (cases s) (simp add: search_spec_from_dict_def search_spec_to_dict_def printable_search_def wf_search_spec_def
      map_field_def list_field_def str_default_def stage_codec.traverse_enc bounds_codec.dec_enc arch_search_codec.dec_enc)

lemma search_spec_from_dict_wf: "search_spec_from_dict v = Inr s \<Longrightarrow> wf_search_spec s"
proof -
  assume dec: "search_spec_from_dict v = Inr s"
  obtain bv b av a rs ss n c md ver where b: "bounds_from_dict bv = Inr b" and a: "arch_search_from_dict av = Inr a"
    and ss: "traverse stage_from_dict rs = Inr ss"
    and mk: "mk_search_spec \<lparr>hs_name = n, hs_catalog = c, hs_bounds = b, hs_arch = a, hs_stages = ss, hs_metadata = md,
      hs_source = None, hs_version = ver\<rparr> = Inr s"
    using dec unfolding search_spec_from_dict_def with_map_Inr rbind_Inr_iff by (elim exE conjE) (rule that; assumption)
  have s: "mk_search_spec s = Inr s" "hs_bounds s = b" "hs_arch s = a" "hs_stages s = ss"
    using mk by (auto simp: mk_search_spec_Inr)
  have "\<forall>st \<in> set ss. mk_stage st = Inr st" using ss stage_from_dict_ok by (auto dest!: traverse_Inr_imageD)
  then show ?thesis using s bounds_codec.dec_wf [OF b] arch_search_codec.dec_wf [OF a] by (simp add: wf_search_spec_def)
qed

end
