(* ===== verification/ArchPrograms.thy ===== *)
theory ArchPrograms
  imports SearchIR GraphChecker
begin

text \<open>
  The programs of the architectural search (\<open>src/src/umcm/search/engine.py\<close>): operation assignments, the
  choices of a fixed slot, the generated programs within the bounds with their canonical form, and the
  trace of an assignment. The generator needs no separate treatment of hart and address names:
  \<open>canonical_renaming\<close> shows that every program with a load and a store is a renaming of a canonical
  program, and \<open>materialize_renamed\<close> that the operations built from it are renamed accordingly.
\<close>

section \<open>Assignments\<close>

record op_assignment =
  oa_id :: string
  oa_kind :: string
  oa_hart :: int
  oa_index :: int
  oa_address :: pyval
  oa_value :: pyval
  oa_fields :: "(string \<times> pyval) list"

definition assignment_to_dict :: "op_assignment \<Rightarrow> pyval" where
  "assignment_to_dict a = VMap [(''id'', VStr (oa_id a)), (''kind'', VStr (oa_kind a)), (''hart'', VInt (oa_hart a)),
     (''program_index'', VInt (oa_index a)), (''address'', oa_address a), (''value'', oa_value a),
     (''fields'', VMap (oa_fields a))]"

definition slot_choices :: "operation_slot \<Rightarrow> op_assignment list" where
  "slot_choices s =
     concat (map (\<lambda>k. concat (map (\<lambda>h. concat (map (\<lambda>i. concat (map (\<lambda>a. map (\<lambda>v.
       \<lparr>oa_id = os_id s, oa_kind = k, oa_hart = h, oa_index = i, oa_address = a, oa_value = v, oa_fields = os_fields s\<rparr>)
       (os_values s)) (os_addresses s))) (os_indexes s))) (os_harts s))) (os_kinds s))"

text \<open>\<open>_valid_program_assignment\<close> collects the positions in a set and stops at the first one seen before.\<close>

fun positions_new :: "(int \<times> int) list \<Rightarrow> op_assignment list \<Rightarrow> bool" where
  "positions_new seen [] = True"
| "positions_new seen (a # as) =
     (if (oa_hart a, oa_index a) \<in> set seen then False else positions_new ((oa_hart a, oa_index a) # seen) as)"

definition valid_program_assignment :: "op_assignment list \<Rightarrow> bool" where
  "valid_program_assignment as = positions_new [] as"

section \<open>Generated programs\<close>

text \<open>An operation before its identifier and program index are chosen: kind, hart, address, value.\<close>

type_synonym raw_op = "string \<times> int \<times> pyval \<times> pyval"

definition bounded_addresses :: "int \<Rightarrow> string list" where
  "bounded_addresses n =
     map (\<lambda>i. if i < 3 then [''x'', ''y'', ''z''] ! nat i else ''x'' @ dec_int i) [0..n - 1]"

text \<open>\<open>str.isalnum\<close> and \<open>str.upper\<close> on the ASCII characters, which is all an address name has.\<close>

definition is_alnum :: "char \<Rightarrow> bool" where
  "is_alnum c \<longleftrightarrow> is_digit c \<or> (CHR ''A'' \<le> c \<and> c \<le> CHR ''Z'') \<or> (CHR ''a'' \<le> c \<and> c \<le> CHR ''z'')"

definition upper_char :: "char \<Rightarrow> char" where
  "upper_char c = (if CHR ''a'' \<le> c \<and> c \<le> CHR ''z'' then char_of ((of_char c :: nat) - 32) else c)"

definition initial_write_id :: "string \<Rightarrow> int \<Rightarrow> string" where
  "initial_write_id a i =
     (let rendered = filter is_alnum a in
      if rendered = [] then ''Init'' @ dec_int i else ''Init'' @ map upper_char (take 1 rendered) @ drop 1 rendered)"

definition bounded_init_writes :: "search_bounds \<Rightarrow> init_write list" where
  "bounded_init_writes b =
     map (\<lambda>(i, a). \<lparr>iw_id = initial_write_id a i, iw_address = VStr a, iw_value = VInt 0\<rparr>)
       (zip [0..sb_addresses b - 1] (bounded_addresses (sb_addresses b)))"

definition raw_choices :: "search_bounds \<Rightarrow> raw_op list" where
  "raw_choices b =
     concat (map (\<lambda>k. concat (map (\<lambda>h. concat (map (\<lambda>a. map (\<lambda>v. (k, h, VStr a, VInt v))
       [0..sb_values b - 1]) (bounded_addresses (sb_addresses b)))) [0..sb_harts b - 1])) [''load'', ''store''])"

text \<open>\<open>product(raw_choices, repeat=count)\<close> for every \<open>count\<close> up to the bound, in this order.\<close>

definition bounded_programs :: "search_bounds \<Rightarrow> raw_op list list" where
  "bounded_programs b =
     concat (map (\<lambda>n. product_lists (replicate n (raw_choices b))) [1..<Suc (nat (sb_ops b))])"

definition estimated_programs :: "search_bounds \<Rightarrow> int" where
  "estimated_programs b =
     (let choice_count = 2 * sb_harts b * int (length (bounded_addresses (sb_addresses b))) * sb_values b in
      sum_list (map (\<lambda>n. choice_count ^ n) [1..<Suc (nat (sb_ops b))]))"

definition candidate_is_canonical :: "raw_op list \<Rightarrow> pyval \<Rightarrow> bool" where
  "candidate_is_canonical raw first =
     (if set (map fst raw) \<noteq> {''load'', ''store''} then False
      else case raw of
        [] \<Rightarrow> False
      | (k, h, a, v) # rest \<Rightarrow> \<not> (h \<noteq> 0 \<or> \<not> py_eq a first))"

fun materialize_ops :: "(int \<times> int) list \<Rightarrow> nat \<Rightarrow> nat \<Rightarrow> raw_op list \<Rightarrow> op_assignment list" where
  "materialize_ops indexes loads stores [] = []"
| "materialize_ops indexes loads stores ((k, h, a, v) # raw) =
     (let i = (case map_of indexes h of None \<Rightarrow> 0 | Some j \<Rightarrow> j) in
      \<lparr>oa_id = (if k = ''load'' then ''L'' @ dec_nat loads else ''W'' @ dec_nat stores), oa_kind = k, oa_hart = h,
        oa_index = i, oa_address = a, oa_value = v, oa_fields = []\<rparr>
      # materialize_ops (AList.update h (i + 1) indexes) (if k = ''load'' then loads + 1 else loads)
          (if k = ''load'' then stores else stores + 1) raw)"

definition materialize_bounded :: "raw_op list \<Rightarrow> op_assignment list" where
  "materialize_bounded raw = materialize_ops [] 0 0 raw"

section \<open>The trace of an assignment\<close>

definition dict_update :: "(string \<times> 'v) list \<Rightarrow> (string \<times> 'v) list \<Rightarrow> (string \<times> 'v) list" where
  "dict_update d kvs = foldl (\<lambda>d (k, v). AList.update k v d) d kvs"

definition new_event :: "string \<Rightarrow> string \<Rightarrow> (string \<times> pyval) list \<Rightarrow> int \<Rightarrow> event_instance res" where
  "new_event i t fds cyc = mk_event_instance \<lparr>ei_id = i, ei_type = t, ei_fields = fds, ei_cycle = VInt cyc,
     ei_occurs = VBool True, ei_annotations = []\<rparr>"

definition event_defaults :: "event_names \<Rightarrow> string \<Rightarrow> (string \<times> pyval) list" where
  "event_defaults m k = (case map_of (en_defaults m) k of None \<Rightarrow> [] | Some d \<Rightarrow> d)"

definition init_event :: "event_names \<Rightarrow> nat \<times> init_write \<Rightarrow> event_instance res" where
  "init_event m iw = (case iw of (i, w) \<Rightarrow>
     new_event (''search_init_'' @ dec_nat i @ ''_'' @ iw_id w) (en_init m)
       (dict_update (event_defaults m ''init_write'')
         [(''op_id'', VStr (iw_id w)), (''address'', iw_address w), (''value'', iw_value w)]) 0)"

definition operation_fields :: "event_names \<Rightarrow> op_assignment \<Rightarrow> (string \<times> pyval) list" where
  "operation_fields m a =
     dict_update (dict_update (event_defaults m (oa_kind a)) (oa_fields a))
       [(''op_id'', VStr (oa_id a)), (''hart'', VInt (oa_hart a)), (''program_index'', VInt (oa_index a)),
        (''address'', oa_address a)]"

definition operation_events :: "event_names \<Rightarrow> nat \<Rightarrow> nat \<times> op_assignment \<Rightarrow> event_instance list res" where
  "operation_events m n ia = (case ia of (i, a) \<Rightarrow>
     if oa_kind a = ''store'' then
       rbind (new_event (''search_store_'' @ dec_nat i @ ''_'' @ oa_id a) (en_store m)
         (AList.update ''value'' (oa_value a) (operation_fields m a)) (int i + 1)) (\<lambda>e. Inr [e])
     else
       rbind (new_event (''search_load_'' @ dec_nat i @ ''_'' @ oa_id a) (en_load m) (operation_fields m a) (int i + 1)) (\<lambda>e.
       rbind (new_event (''search_commit_'' @ dec_nat i @ ''_'' @ oa_id a) (en_commit m)
         (dict_update (event_defaults m ''commit_read'') [(''op_id'', VStr (oa_id a)), (''value'', oa_value a)])
         (int n + int i + 1)) (\<lambda>c. Inr [e, c])))"

definition architecture_trace :: "event_names \<Rightarrow> init_write list \<Rightarrow> op_assignment list \<Rightarrow> trace res" where
  "architecture_trace m inits as =
     rbind (traverse (init_event m) (zip [0..<length inits] inits)) (\<lambda>ies.
     rbind (traverse (operation_events m (length as)) (zip [0..<length as] as)) (\<lambda>oes.
       mk_trace \<lparr>tr_events = ies @ concat oes, tr_constraints = [], tr_partial = False,
         tr_metadata = [(''generated_by'', VStr ''umcm.search.architecture''), (''microarchitecture_hints'', VBool False)],
         tr_version = TRACE_SCHEMA_VERSION\<rparr>))"

section \<open>Choices and positions\<close>

lemma slot_choices_iff:
  "a \<in> set (slot_choices s) \<longleftrightarrow> oa_id a = os_id s \<and> oa_kind a \<in> set (os_kinds s) \<and> oa_hart a \<in> set (os_harts s) \<and>
     oa_index a \<in> set (os_indexes s) \<and> oa_address a \<in> set (os_addresses s) \<and> oa_value a \<in> set (os_values s) \<and>
     oa_fields a = os_fields s"
  by (cases a) (auto simp: slot_choices_def intro!: rev_bexI image_eqI [OF refl])

lemma positions_new_iff:
  "positions_new seen as \<longleftrightarrow> distinct (map (\<lambda>a. (oa_hart a, oa_index a)) as) \<and>
     (\<forall>a \<in> set as. (oa_hart a, oa_index a) \<notin> set seen)"
  proof (induction as arbitrary: seen)
  case (Cons a as)
  then show ?case by (simp add: image_iff) (metis (no_types, lifting))
qed simp

lemma valid_program_assignment_iff:
  "valid_program_assignment as \<longleftrightarrow> distinct (map (\<lambda>a. (oa_hart a, oa_index a)) as)"
  by (simp add: valid_program_assignment_def positions_new_iff)

section \<open>Generated programs\<close>

lemma raw_choices_iff:
  "(k, h, a, v) \<in> set (raw_choices b) \<longleftrightarrow> k \<in> {''load'', ''store''} \<and> 0 \<le> h \<and> h < sb_harts b \<and>
     (\<exists>s \<in> set (bounded_addresses (sb_addresses b)). a = VStr s) \<and> (\<exists>n. 0 \<le> n \<and> n < sb_values b \<and> v = VInt n)"
  by (auto simp: raw_choices_def image_iff)

lemma product_lists_replicate: "ys \<in> set (product_lists (replicate n xs)) \<longleftrightarrow> length ys = n \<and> set ys \<subseteq> set xs"
  unfolding product_lists_iff list_all2_conv_all_nth by (fastforce simp: subset_iff in_set_conv_nth)

lemma bounded_programs_iff:
  "raw \<in> set (bounded_programs b) \<longleftrightarrow> raw \<noteq> [] \<and> int (length raw) \<le> sb_ops b \<and> set raw \<subseteq> set (raw_choices b)"
  by (cases raw) (auto simp: bounded_programs_def product_lists_replicate Suc_le_eq nat_less_iff le_nat_iff less_Suc_eq_le)

lemma candidate_is_canonical_iff:
  "candidate_is_canonical raw first \<longleftrightarrow> fst ` set raw = {''load'', ''store''} \<and>
     (\<exists>k a v rest. raw = (k, 0, a, v) # rest \<and> py_eq a first)"
  by (auto simp: candidate_is_canonical_def split: list.split)

text \<open>
  The \<open>i\<close>-th operation is numbered by the earlier operations of its kind, and its program index counts
  the earlier operations of its hart.
\<close>

definition numbered :: "raw_op list \<Rightarrow> nat \<Rightarrow> op_assignment" where
  "numbered raw i = (case raw ! i of (k, h, a, v) \<Rightarrow>
     \<lparr>oa_id = (if k = ''load'' then ''L'' else ''W'') @
        dec_nat (length (filter (\<lambda>r. (fst r = ''load'') = (k = ''load'')) (take i raw))),
      oa_kind = k, oa_hart = h, oa_index = int (length (filter (\<lambda>r. fst (snd r) = h) (take i raw))),
      oa_address = a, oa_value = v, oa_fields = []\<rparr>)"

lemma materialize_ops_eq:
  assumes "\<forall>h. (case map_of d h of None \<Rightarrow> 0 | Some j \<Rightarrow> j) = int (length (filter (\<lambda>r. fst (snd r) = h) pre))"
    and "l = length (filter (\<lambda>r. fst r = ''load'') pre)" and "s = length (filter (\<lambda>r. fst r \<noteq> ''load'') pre)"
  shows "materialize_ops d l s raw = map (numbered (pre @ raw)) [length pre..<length pre + length raw]"
  using assms
proof (induction raw arbitrary: d l s pre)
  case (Cons x raw)
  obtain k h a v where x: "x = (k, h, a, v)" by (cases x)
  let ?i = "int (length (filter (\<lambda>r. fst (snd r) = h) pre))"
  have "(case map_of (AList.update h (?i + 1) d) h' of None \<Rightarrow> 0 | Some j \<Rightarrow> j) =
      int (length (filter (\<lambda>r. fst (snd r) = h') (pre @ [x])))" for h'
    using Cons.prems(1) by (simp add: update_conv' x)
  then have "materialize_ops (AList.update h (?i + 1) d) (if k = ''load'' then l + 1 else l)
      (if k = ''load'' then s else s + 1) raw =
      map (numbered ((pre @ [x]) @ raw)) [length (pre @ [x])..<length (pre @ [x]) + length raw]"
    by (intro Cons.IH) (use Cons.prems(2,3) in \<open>simp_all add: x\<close>)
  moreover have "numbered (pre @ x # raw) (length pre) =
      \<lparr>oa_id = (if k = ''load'' then ''L'' @ dec_nat l else ''W'' @ dec_nat s), oa_kind = k, oa_hart = h, oa_index = ?i,
        oa_address = a, oa_value = v, oa_fields = []\<rparr>"
    using Cons.prems(2,3) by (simp add: numbered_def x)
  ultimately show ?case using Cons.prems(1) by (simp add: x Let_def upt_rec)
qed simp

lemma materialize_bounded_eq: "materialize_bounded raw = map (numbered raw) [0..<length raw]"
  using materialize_ops_eq [of "[]" "[]" 0 0 raw] by (simp add: materialize_bounded_def)

lemma oa_numbered:
  assumes "raw ! i = (k, h, a, v)"
  shows "oa_kind (numbered raw i) = k" "oa_hart (numbered raw i) = h" "oa_address (numbered raw i) = a"
    "oa_value (numbered raw i) = v" "oa_fields (numbered raw i) = []"
    "oa_index (numbered raw i) = int (length (filter (\<lambda>r. fst (snd r) = h) (take i raw)))"
    "oa_id (numbered raw i) = (if k = ''load'' then ''L'' else ''W'') @
       dec_nat (length (filter (\<lambda>r. (fst r = ''load'') = (k = ''load'')) (take i raw)))"
  using assms by (simp_all add: numbered_def)

text \<open>Decimal numerals are non-empty, hold digits only and determine the number.\<close>

lemma dec_nat_digits: "c \<in> set (dec_nat n) \<Longrightarrow> is_digit c"
proof (induction n rule: dec_nat.induct)
  case (1 n)
  have "is_digit (char_of (48 + m))" if "m < 10" for m :: nat
    using that by (simp add: is_digit_def less_eq_char_def)
  then show ?case using 1 by (cases "n < 10") (auto simp: dec_nat.simps [of n])
qed

lemma dec_nat_nonempty [simp]: "dec_nat n \<noteq> []"
  by (cases "n < 10") (simp_all add: dec_nat.simps [of n])

lemma char_of_digit: "char_of (48 + m) = char_of (48 + n) \<longleftrightarrow> m = n" if "m < 10" "n < 10" for m n :: nat
proof -
  have "48 + m < 256" "48 + n < 256" using that by simp_all
  then have "of_char (char_of (48 + m)) = 48 + m" "of_char (char_of (48 + n)) = 48 + n" by simp_all
  then show ?thesis by (metis add_left_cancel)
qed

lemma dec_nat_inj: "dec_nat m = dec_nat n \<longleftrightarrow> m = n"
proof
  show "dec_nat m = dec_nat n \<Longrightarrow> m = n"
  proof (induction m arbitrary: n rule: dec_nat.induct)
    case (1 m)
    have single: "(\<exists>c. dec_nat k = [c]) \<longleftrightarrow> k < 10" for k
      by (cases "k < 10") (simp_all add: dec_nat.simps [of k])
    show ?case
    proof (cases "m < 10")
      case True
      then have "n < 10" using 1(2) single by metis
      then show ?thesis using 1(2) True by (simp add: dec_nat.simps [of m] dec_nat.simps [of n] char_of_digit)
    next
      case False
      then have n: "\<not> n < 10" using 1(2) single by metis
      then have "dec_nat (m div 10) = dec_nat (n div 10)" and "char_of (48 + m mod 10) = (char_of (48 + n mod 10) :: char)"
        using 1(2) False by (simp_all add: dec_nat.simps [of m] dec_nat.simps [of n])
      then have "m div 10 = n div 10" "m mod 10 = n mod 10" using 1(1) [OF False] by (simp_all add: char_of_digit)
      then show ?thesis by (metis div_mult_mod_eq)
    qed
  qed
qed simp

lemma takeWhile_append_stop: "\<forall>c \<in> set xs. P c \<Longrightarrow> \<not> P d \<Longrightarrow> takeWhile P (xs @ d # ys) = xs"
  by (induction xs) auto

lemma numbered_text_inj: "dec_nat i @ CHR ''_'' # x = dec_nat j @ CHR ''_'' # y \<longleftrightarrow> i = j \<and> x = y"
proof
  assume eq: "dec_nat i @ CHR ''_'' # x = dec_nat j @ CHR ''_'' # y"
  have "takeWhile is_digit (dec_nat k @ CHR ''_'' # z) = dec_nat k" for k z
    by (rule takeWhile_append_stop) (use dec_nat_digits in blast, simp add: is_digit_def less_eq_char_def)
  then have "dec_nat i = dec_nat j" using eq by metis
  then show "i = j \<and> x = y" using eq by (simp add: dec_nat_inj)
qed simp

text \<open>Counts of earlier elements tell equal elements apart.\<close>

lemma earlier_count:
  assumes "i < j" "j \<le> length xs" "P (xs ! i)"
  shows "length (filter P (take i xs)) < length (filter P (take j xs))"
proof -
  have "drop i (take j xs) = xs ! i # drop (Suc i) (take j xs)"
    using assms Cons_nth_drop_Suc [of i "take j xs"] by simp
  moreover have "take j xs = take i xs @ drop i (take j xs)"
    using assms append_take_drop_id [of i "take j xs"] by (simp add: min_def)
  ultimately have "filter P (take j xs) = filter P (take i xs) @ xs ! i # filter P (drop (Suc i) (take j xs))"
    using assms(3) by (metis filter.simps(2) filter_append)
  then show ?thesis by simp
qed

lemma materialized_distinct:
  "distinct (map oa_id (materialize_bounded raw))" "valid_program_assignment (materialize_bounded raw)"
proof -
  have "oa_id (numbered raw i) \<noteq> oa_id (numbered raw j) \<and>
      (oa_hart (numbered raw i), oa_index (numbered raw i)) \<noteq> (oa_hart (numbered raw j), oa_index (numbered raw j))"
    if lt: "i < j" "j < length raw" for i j
  proof -
    obtain k h a v k' h' a' v' where r: "raw ! i = (k, h, a, v)" "raw ! j = (k', h', a', v')"
      by (cases "raw ! i", cases "raw ! j") auto
    note n = oa_numbered [OF r(1)] oa_numbered [OF r(2)]
    show ?thesis using lt r earlier_count [of i j raw "\<lambda>r. fst (snd r) = h"]
        earlier_count [of i j raw "\<lambda>r. (fst r = ''load'') = (k = ''load'')"]
      by (auto simp: n dec_nat_inj)
  qed
  then show "distinct (map oa_id (materialize_bounded raw))" "valid_program_assignment (materialize_bounded raw)"
    by (auto simp: materialize_bounded_eq valid_program_assignment_iff distinct_map o_def inj_on_def
        intro!: inj_onI) (metis linorder_neqE_nat)+
qed

section \<open>Renaming\<close>

definition renamed :: "(int \<Rightarrow> int) \<Rightarrow> (pyval \<Rightarrow> pyval) \<Rightarrow> raw_op list \<Rightarrow> raw_op list" where
  "renamed p q raw = map (\<lambda>(k, h, a, v). (k, p h, q a, v)) raw"

definition rename_op :: "(int \<Rightarrow> int) \<Rightarrow> (pyval \<Rightarrow> pyval) \<Rightarrow> op_assignment \<Rightarrow> op_assignment" where
  "rename_op p q a = a\<lparr>oa_hart := p (oa_hart a), oa_address := q (oa_address a)\<rparr>"

lemma materialize_renamed:
  assumes "inj p"
  shows "materialize_bounded (renamed p q raw) = map (rename_op p q) (materialize_bounded raw)"
proof -
  have "numbered (renamed p q raw) i = rename_op p q (numbered raw i)" if "i < length raw" for i
  proof -
    obtain k h a v where r: "raw ! i = (k, h, a, v)" by (cases "raw ! i")
    then have "renamed p q raw ! i = (k, p h, q a, v)" using that by (simp add: renamed_def)
    moreover have "length (filter P (take i (renamed p q raw))) =
        length (filter (\<lambda>(k, h, a, v). P (k, p h, q a, v)) (take i raw))" for P
      by (simp add: renamed_def take_map filter_map o_def case_prod_unfold)
    ultimately show ?thesis using assms
      by (simp add: numbered_def r rename_op_def case_prod_unfold inj_eq)
  qed
  then show ?thesis by (simp add: materialize_bounded_eq renamed_def)
qed

definition exchange :: "'a \<Rightarrow> 'a \<Rightarrow> 'a \<Rightarrow> 'a" where
  "exchange x y z = (if z = x then y else if z = y then x else z)"

lemma exchange_bij: "bij (exchange x y)"
  by (rule bij_betw_byWitness [where f' = "exchange x y"]) (auto simp: exchange_def)

lemma hd_bounded_addresses: "0 < n \<Longrightarrow> hd (bounded_addresses n) = ''x'' \<and> ''x'' \<in> set (bounded_addresses n)"
  by (simp add: bounded_addresses_def upto_rec1 [of 0])

lemma canonical_renaming:
  assumes raw: "raw \<in> set (bounded_programs b)" and kinds: "fst ` set raw = {''load'', ''store''}"
  shows "\<exists>p q. bij p \<and> bij q \<and> renamed p q raw \<in> set (bounded_programs b) \<and>
    candidate_is_canonical (renamed p q raw) (VStr (hd (bounded_addresses (sb_addresses b))))"
proof -
  obtain k h a v rest where r: "raw = (k, h, a, v) # rest"
    using raw by (cases raw rule: list.exhaust) (auto simp: bounded_programs_iff)
  have all: "set raw \<subseteq> set (raw_choices b)" using raw by (simp add: bounded_programs_iff)
  then have m: "(k, h, a, v) \<in> set (raw_choices b)" by (simp add: r)
  then obtain s where hs: "0 \<le> h" "h < sb_harts b" and s: "s \<in> set (bounded_addresses (sb_addresses b))" "a = VStr s"
    by (auto simp: raw_choices_iff)
  have x: "hd (bounded_addresses (sb_addresses b)) = ''x''" "''x'' \<in> set (bounded_addresses (sb_addresses b))"
    using s(1) hd_bounded_addresses [of "sb_addresses b"] by (force simp: bounded_addresses_def)+
  let ?p = "exchange h 0" and ?q = "exchange a (VStr ''x'')"
  have "(k', ?p h', ?q a', v') \<in> set (raw_choices b)" if "(k', h', a', v') \<in> set raw" for k' h' a' v'
  proof -
    have "(k', h', a', v') \<in> set (raw_choices b)" using that all by blast
    then show ?thesis using hs s x(2) by (auto simp: raw_choices_iff exchange_def)
  qed
  then have "renamed ?p ?q raw \<in> set (bounded_programs b)"
    using raw by (auto simp: bounded_programs_iff renamed_def)
  moreover have "fst ` set (renamed ?p ?q raw) = fst ` set raw" by (force simp: renamed_def)
  then have "candidate_is_canonical (renamed ?p ?q raw) (VStr ''x'')"
    using kinds by (simp add: candidate_is_canonical_iff) (simp add: renamed_def r exchange_def)
  ultimately show ?thesis using exchange_bij x(1) by metis
qed

lemma estimated_programs_length:
  assumes "0 \<le> sb_harts b" "0 \<le> sb_values b"
  shows "estimated_programs b = int (length (bounded_programs b))"
proof -
  have l: "length (concat (map (\<lambda>x. map (f x) ys) xs)) = length xs * length ys" for f :: "'x \<Rightarrow> 'y \<Rightarrow> 'z" and xs ys
    by (induction xs) simp_all
  have "length (raw_choices b) = 2 * nat (sb_harts b) * length (bounded_addresses (sb_addresses b)) * nat (sb_values b)"
    by (simp add: raw_choices_def length_concat o_def sum_list_triv)
  then have "int (length (raw_choices b)) = 2 * sb_harts b * int (length (bounded_addresses (sb_addresses b))) * sb_values b"
    using assms by simp
  moreover have "length (product_lists (replicate n xs)) = length xs ^ n" for n and xs :: "raw_op list"
    by (simp add: length_product_lists prod_list_replicate)
  moreover have "int (sum_list xs) = sum_list (map int xs)" for xs :: "nat list" by (induction xs) simp_all
  ultimately show ?thesis
    by (simp add: estimated_programs_def bounded_programs_def Let_def length_concat o_def)
qed

end
