(* ===== verification/ArchTrace.thy ===== *)
theory ArchTrace
  imports ArchPrograms CandidateChecks
begin

text \<open>
  The trace of an assignment (\<open>_architecture_trace\<close> in \<open>src/src/umcm/search/engine.py\<close>) is well-formed, and
  the graph builder reads the assignment back from it: when the projection of the graph model names the
  event types and fields the search writes, the projected operations are the initial writes and the
  assigned operations, with their harts, program indexes, addresses and values.
\<close>

section \<open>The events\<close>

lemma new_event_Inr:
  "0 \<le> cyc \<Longrightarrow> i \<noteq> [] \<Longrightarrow> new_event i t fds cyc = Inr e \<longleftrightarrow> t \<noteq> [] \<and>
     e = \<lparr>ei_id = i, ei_type = t, ei_fields = fds, ei_cycle = VInt cyc, ei_occurs = VBool True, ei_annotations = []\<rparr>"
  by (auto simp: new_event_def mk_event_instance_Inr_iff wf_event_def cycle_ok_def occurs_ok_def)

definition init_text :: "nat \<times> init_write \<Rightarrow> string" where
  "init_text iw = ''search_init_'' @ dec_nat (fst iw) @ ''_'' @ iw_id (snd iw)"

definition op_texts :: "nat \<times> op_assignment \<Rightarrow> string list" where
  "op_texts ia = (if oa_kind (snd ia) = ''store'' then [''search_store_'' @ dec_nat (fst ia) @ ''_'' @ oa_id (snd ia)]
     else [''search_load_'' @ dec_nat (fst ia) @ ''_'' @ oa_id (snd ia),
           ''search_commit_'' @ dec_nat (fst ia) @ ''_'' @ oa_id (snd ia)])"

lemma distinct_concat_keys:
  assumes "distinct (map fst ps)" and "\<forall>p \<in> set ps. distinct (f p)"
    and "\<forall>p \<in> set ps. \<forall>q \<in> set ps. fst p \<noteq> fst q \<longrightarrow> set (f p) \<inter> set (f q) = {}"
  shows "distinct (concat (map f ps))"
  using assms
proof (induction ps)
  case (Cons p ps)
  have "set (f p) \<inter> set (f q) = {}" if "q \<in> set ps" for q
    using Cons.prems that by (metis (no_types, lifting) distinct.simps(2) image_eqI list.set_intros list.set_map list.simps(9))
  then show ?case using Cons by auto
qed simp

lemma texts_distinct:
  "distinct (map init_text (zip [0..<length inits] inits) @ concat (map op_texts (zip [0..<length as] as)))"
proof -
  have i: "distinct (map init_text (zip [0..<length inits] inits))"
    by (auto simp: distinct_map init_text_def numbered_text_inj distinct_zipI1 inj_on_def set_zip)
  have o: "distinct (concat (map op_texts (zip [0..<length as] as)))"
    by (rule distinct_concat_keys) (auto simp: op_texts_def numbered_text_inj)
  show ?thesis using i o by (auto simp: init_text_def op_texts_def split: if_splits)
qed

text \<open>Every event the search writes, from its assignment.\<close>

definition store_event :: "event_names \<Rightarrow> nat \<times> op_assignment \<Rightarrow> event_instance" where
  "store_event m ia = \<lparr>ei_id = ''search_store_'' @ dec_nat (fst ia) @ ''_'' @ oa_id (snd ia), ei_type = en_store m,
     ei_fields = AList.update ''value'' (oa_value (snd ia)) (operation_fields m (snd ia)), ei_cycle = VInt (int (fst ia) + 1),
     ei_occurs = VBool True, ei_annotations = []\<rparr>"

definition load_event :: "event_names \<Rightarrow> nat \<times> op_assignment \<Rightarrow> event_instance" where
  "load_event m ia = \<lparr>ei_id = ''search_load_'' @ dec_nat (fst ia) @ ''_'' @ oa_id (snd ia), ei_type = en_load m,
     ei_fields = operation_fields m (snd ia), ei_cycle = VInt (int (fst ia) + 1),
     ei_occurs = VBool True, ei_annotations = []\<rparr>"

definition commit_event :: "event_names \<Rightarrow> nat \<Rightarrow> nat \<times> op_assignment \<Rightarrow> event_instance" where
  "commit_event m n ia = \<lparr>ei_id = ''search_commit_'' @ dec_nat (fst ia) @ ''_'' @ oa_id (snd ia), ei_type = en_commit m,
     ei_fields = dict_update (event_defaults m ''commit_read'')
       [(''op_id'', VStr (oa_id (snd ia))), (''value'', oa_value (snd ia))],
     ei_cycle = VInt (int n + int (fst ia) + 1), ei_occurs = VBool True, ei_annotations = []\<rparr>"

definition line_event :: "event_names \<Rightarrow> nat \<times> init_write \<Rightarrow> event_instance" where
  "line_event m iw = \<lparr>ei_id = init_text iw, ei_type = en_init m,
     ei_fields = dict_update (event_defaults m ''init_write'') [(''op_id'', VStr (iw_id (snd iw))),
       (''address'', iw_address (snd iw)), (''value'', iw_value (snd iw))],
     ei_cycle = VInt 0, ei_occurs = VBool True, ei_annotations = []\<rparr>"

definition op_event_list :: "event_names \<Rightarrow> nat \<Rightarrow> nat \<times> op_assignment \<Rightarrow> event_instance list" where
  "op_event_list m n ia = (if oa_kind (snd ia) = ''store'' then [store_event m ia] else [load_event m ia, commit_event m n ia])"

definition named_types :: "event_names \<Rightarrow> bool" where
  "named_types m \<longleftrightarrow> en_init m \<noteq> [] \<and> en_load m \<noteq> [] \<and> en_store m \<noteq> [] \<and> en_commit m \<noteq> []"

definition written_events :: "event_names \<Rightarrow> init_write list \<Rightarrow> op_assignment list \<Rightarrow> event_instance list" where
  "written_events m inits as = map (line_event m) (zip [0..<length inits] inits)
     @ concat (map (op_event_list m (length as)) (zip [0..<length as] as))"

lemma init_event_Inr: "init_event m iw = Inr e \<longleftrightarrow> en_init m \<noteq> [] \<and> e = line_event m iw"
  by (cases iw) (simp add: init_event_def new_event_Inr line_event_def init_text_def)

lemma operation_events_Inr:
  "operation_events m n ia = Inr es \<longleftrightarrow> es = op_event_list m n ia \<and>
     (if oa_kind (snd ia) = ''store'' then en_store m \<noteq> [] else en_load m \<noteq> [] \<and> en_commit m \<noteq> [])"
  by (cases ia) (auto simp: operation_events_def op_event_list_def rbind_Inr_iff new_event_Inr store_event_def
      load_event_def commit_event_def)

lemma traverse_Inr_eq: "(\<And>x y. f x = Inr y \<longleftrightarrow> P x \<and> y = g x) \<Longrightarrow>
  traverse f xs = Inr ys \<longleftrightarrow> (\<forall>x \<in> set xs. P x) \<and> ys = map g xs"
  by (induction xs arbitrary: ys) (auto simp: rbind_Inr_iff)

lemma written_ids: "map ei_id (written_events m inits as) =
  map init_text (zip [0..<length inits] inits) @ concat (map op_texts (zip [0..<length as] as))"
proof -
  have "map ei_id (concat (map (op_event_list m n) ps)) = concat (map op_texts ps)" for n ps
    by (induction ps) (auto simp: op_event_list_def op_texts_def store_event_def load_event_def commit_event_def)
  then show ?thesis by (simp add: written_events_def line_event_def o_def)
qed

lemma architecture_trace_Inr:
  assumes "architecture_trace m inits as = Inr t"
  shows "tr_events t = written_events m inits as" "tr_constraints t = []" "tr_partial t = False"
    and "distinct (map ei_id (tr_events t))"
proof -
  obtain ies oes where i: "traverse (init_event m) (zip [0..<length inits] inits) = Inr ies"
    and o: "traverse (operation_events m (length as)) (zip [0..<length as] as) = Inr oes"
    and t: "tr_events t = ies @ concat oes" "tr_constraints t = []" "tr_partial t = False"
    using assms by (auto simp: architecture_trace_def rbind_Inr_iff mk_trace_Inr)
  have "ies = map (line_event m) (zip [0..<length inits] inits)"
    using i by (subst (asm) traverse_Inr_eq [OF init_event_Inr]) simp
  moreover have "oes = map (op_event_list m (length as)) (zip [0..<length as] as)"
    using o by (subst (asm) traverse_Inr_eq [where P = "\<lambda>ia. if oa_kind (snd ia) = ''store'' then en_store m \<noteq> []
      else en_load m \<noteq> [] \<and> en_commit m \<noteq> []"]) (auto simp: operation_events_Inr)
  ultimately show w: "tr_events t = written_events m inits as" by (simp add: t written_events_def)
  show "tr_constraints t = []" "tr_partial t = False" using t by simp_all
  show "distinct (map ei_id (tr_events t))" unfolding w written_ids by (rule texts_distinct)
qed

lemma architecture_trace_total: "named_types m \<Longrightarrow> \<exists>t. architecture_trace m inits as = Inr t"
proof -
  assume n: "named_types m"
  have i: "traverse (init_event m) (zip [0..<length inits] inits) = Inr (map (line_event m) (zip [0..<length inits] inits))"
    using n by (intro traverse_Inr_map) (simp add: init_event_Inr named_types_def)
  have o: "traverse (operation_events m (length as)) (zip [0..<length as] as) =
      Inr (map (op_event_list m (length as)) (zip [0..<length as] as))"
    using n by (intro traverse_Inr_map) (simp add: operation_events_Inr named_types_def)
  have "distinct (map ei_id (written_events m inits as))" unfolding written_ids by (rule texts_distinct)
  then show ?thesis by (simp add: architecture_trace_def i o mk_trace_Inr written_events_def)
qed

section \<open>What the graph builder reads back\<close>

definition reads_back :: "event_names \<Rightarrow> projection_spec \<Rightarrow> bool" where
  "reads_back m p \<longleftrightarrow> pj_init p = en_init m \<and> pj_load p = en_load m \<and> pj_store p = en_store m \<and> pj_commit p = en_commit m \<and>
     distinct [en_init m, en_load m, en_store m, en_commit m] \<and>
     pj_amo p \<notin> Some ` {en_load m, en_store m, en_commit m} \<and> pj_sc p \<notin> Some ` {en_load m, en_commit m} \<and>
     pj_lr p \<noteq> Some (en_commit m) \<and>
     pj_id p = ''op_id'' \<and> pj_address p = ''address'' \<and> pj_value p = ''value'' \<and> pj_hart p = ''hart'' \<and>
     pj_index p = ''program_index''"

definition initialises :: "init_write \<Rightarrow> memory_op \<Rightarrow> bool" where
  "initialises w op \<longleftrightarrow> mo_id op = iw_id w \<and> mo_kind op = INIT_WRITE \<and> mo_address op = iw_address w \<and> mo_value op = iw_value w"

definition executes :: "op_assignment \<Rightarrow> memory_op \<Rightarrow> bool" where
  "executes a op \<longleftrightarrow> mo_id op = oa_id a \<and> mo_kind op = (if oa_kind a = ''store'' then WRITE else READ) \<and>
     mo_hart op = Some (oa_hart a) \<and> mo_index op = Some (oa_index a) \<and> mo_address op = oa_address a \<and> mo_value op = oa_value a"

lemma map_of_dict_update: "map_of (dict_update d kvs) = map_of d ++ map_of (rev kvs)"
  by (simp add: dict_update_def map_of_foldl_update)

lemma commits_recorded:
  "fold_res (add_commit p) d evs = Inr d' \<Longrightarrow>
     (\<forall>i ev. map_of d i = Some ev \<longrightarrow> map_of d' i = Some ev) \<and>
     (\<forall>ev \<in> set evs. ei_type ev = pj_commit p \<longrightarrow> (\<exists>i. str_field ev (pj_id p) = Inr i \<and> map_of d' i = Some ev))"
proof (induction evs arbitrary: d)
  case (Cons e evs)
  obtain d1 where d1: "add_commit p d e = Inr d1" and rest: "fold_res (add_commit p) d1 evs = Inr d'"
    using Cons.prems by (auto simp: rbind_Inr_iff)
  have "(\<forall>i ev. map_of d i = Some ev \<longrightarrow> map_of d1 i = Some ev) \<and>
      (ei_type e = pj_commit p \<longrightarrow> (\<exists>i. str_field e (pj_id p) = Inr i \<and> map_of d1 i = Some e))"
    using d1 by (auto simp: add_commit_def rbind_Inr_iff update_conv' split: if_splits)
  then show ?case using Cons.IH [OF rest] by auto
qed simp

lemma add_operation_events_Inr:
  "add_operation ops op = Inr ops' \<longleftrightarrow> wf_op op \<and> map_of ops (mo_id op) = None \<and> ops' = AList.update (mo_id op) op ops"
  by (auto simp: add_operation_def rbind_Inr_iff mk_operation_Inr_iff)

text \<open>A step of the projection adds at most one operation, which does not depend on the others.\<close>

definition adds_one :: "(op_map \<Rightarrow> op_map res) \<Rightarrow> bool" where
  "adds_one f \<longleftrightarrow> (\<forall>ops ops'. f ops = Inr ops' \<longrightarrow> ops' = ops \<and> f [] = Inr [] \<or>
     (\<exists>op. ops' = AList.update (mo_id op) op ops \<and> map_of ops (mo_id op) = None \<and> f [] = Inr [(mo_id op, op)]))"

lemma adds_one_intros:
  "adds_one Inr" "adds_one (\<lambda>ops. Inl e)" "adds_one (\<lambda>ops. add_operation ops op)"
  "(\<And>x. adds_one (\<lambda>ops. g x ops)) \<Longrightarrow> adds_one (\<lambda>ops. rbind r (\<lambda>x. g x ops))"
  by (simp_all add: adds_one_def add_operation_events_Inr) (cases r; simp)

lemma adds_one_commit:
  "(\<And>c. adds_one (\<lambda>ops. g c ops)) \<Longrightarrow> adds_one (\<lambda>ops. with_commit p commits ops i (\<lambda>c. g c ops))"
  by (cases "map_of commits i") (auto simp: with_commit_def adds_one_def)

lemma project_event_adds: "adds_one (\<lambda>ops. project_event p commits ops ev)"
proof -
  have "adds_one (\<lambda>ops. project_init p ops ev)" "adds_one (\<lambda>ops. project_amo p commits ops ev)"
    "adds_one (\<lambda>ops. project_store p ops ev)" "adds_one (\<lambda>ops. project_load p commits ops ev)"
    unfolding project_init_def project_amo_def project_store_def project_load_def
    by (intro adds_one_intros adds_one_commit)+
  then show ?thesis using adds_one_intros(1)
    by (cases "ei_type ev = pj_init p"; cases "pj_amo p = Some (ei_type ev)";
        cases "ei_type ev = pj_store p \<or> pj_sc p = Some (ei_type ev)";
        cases "ei_type ev = pj_load p \<or> pj_lr p = Some (ei_type ev)") (simp_all add: project_event_def)
qed

lemma project_event_step:
  "project_event p commits ops ev = Inr ops' \<Longrightarrow> ops' = ops \<and> project_event p commits [] ev = Inr [] \<or>
    (\<exists>op. ops' = AList.update (mo_id op) op ops \<and> map_of ops (mo_id op) = None \<and>
       project_event p commits [] ev = Inr [(mo_id op, op)])"
  using project_event_adds unfolding adds_one_def by blast

lemma projected_events:
  "fold_res (project_event p commits) ops evs = Inr ops' \<Longrightarrow>
     (\<forall>i op. map_of ops i = Some op \<longrightarrow> map_of ops' i = Some op) \<and>
     (\<forall>ev \<in> set evs. project_event p commits [] ev = Inr [] \<or>
        (\<exists>op. project_event p commits [] ev = Inr [(mo_id op, op)] \<and> map_of ops' (mo_id op) = Some op)) \<and>
     (\<forall>i. map_of ops' i \<noteq> None \<longrightarrow> map_of ops i \<noteq> None \<or>
        (\<exists>ev \<in> set evs. \<exists>op. project_event p commits [] ev = Inr [(i, op)]))"
proof (induction evs arbitrary: ops)
  case (Cons e evs)
  obtain ops1 where o: "project_event p commits ops e = Inr ops1" and rest: "fold_res (project_event p commits) ops1 evs = Inr ops'"
    using Cons.prems by (auto simp: rbind_Inr_iff)
  note ih = Cons.IH [OF rest]
  from project_event_step [OF o] show ?case
  proof (elim disjE exE conjE)
    assume "ops1 = ops" "project_event p commits [] e = Inr []"
    then show ?thesis using ih by simp
  next
    fix op assume a: "ops1 = AList.update (mo_id op) op ops" "map_of ops (mo_id op) = None"
      "project_event p commits [] e = Inr [(mo_id op, op)]"
    have old: "\<forall>i x. map_of ops i = Some x \<longrightarrow> map_of ops' i = Some x"
    proof (intro allI impI)
      fix i x assume "map_of ops i = Some x"
      then have "map_of ops1 i = Some x" using a(1,2) by (auto simp: update_conv')
      then show "map_of ops' i = Some x" using ih by blast
    qed
    have new: "map_of ops' (mo_id op) = Some op" using ih a(1) by (auto simp: update_conv')
    have from_event: "map_of ops i \<noteq> None \<or> (\<exists>ev \<in> set (e # evs). \<exists>op. project_event p commits [] ev = Inr [(i, op)])"
      if "map_of ops' i \<noteq> None" for i
    proof (cases "map_of ops1 i = None")
      case True
      then show ?thesis using ih that by (metis list.set_intros(2))
    next
      case False
      then show ?thesis using a(1,3) by (cases "i = mo_id op") (auto simp: update_conv')
    qed
    show ?thesis using old new from_event ih a(3) by (intro conjI) (simp, simp, blast)
  qed
qed simp

lemma line_projected:
  assumes "reads_back m p" "project_event p commits [] (line_event m (i, w)) = Inr ops"
  shows "\<exists>op. ops = [(iw_id w, op)] \<and> initialises w op"
  using assms by (auto simp: project_event_def line_event_def reads_back_def project_init_def str_field_def field_of_def
      rbind_Inr_iff or_raise_Inr_iff map_of_dict_update add_operation_events_Inr initialises_def)

lemma store_projected:
  assumes "reads_back m p" "project_event p commits [] (store_event m (i, a)) = Inr ops" "oa_kind a = ''store''"
  shows "\<exists>op. ops = [(oa_id a, op)] \<and> executes a op"
  using assms by (auto simp: project_event_def store_event_def reads_back_def project_store_def str_field_def field_of_def
      int_field_def rbind_Inr_iff or_raise_Inr_iff map_of_dict_update update_conv' operation_fields_def add_operation_events_Inr
      executes_def)

lemma load_projected:
  assumes "reads_back m p" "project_event p commits [] (load_event m (i, a)) = Inr ops" "oa_kind a \<noteq> ''store''"
    and "map_of commits (oa_id a) = Some (commit_event m n (j, a))"
  shows "\<exists>op. ops = [(oa_id a, op)] \<and> executes a op"
  using assms by (auto simp: project_event_def load_event_def commit_event_def reads_back_def project_load_def str_field_def
      field_of_def int_field_def with_commit_def rbind_Inr_iff or_raise_Inr_iff map_of_dict_update operation_fields_def
      add_operation_events_Inr executes_def)

lemma commit_projected: "reads_back m p \<Longrightarrow> project_event p commits [] (commit_event m n ia) = Inr []"
  by (auto simp: project_event_def commit_event_def reads_back_def)

lemma project_architecture:
  assumes rb: "reads_back m p" and t: "architecture_trace m inits as = Inr t" and o: "project_operations t p = Inr ops"
  shows "\<forall>w \<in> set inits. \<exists>op. map_of ops (iw_id w) = Some op \<and> initialises w op"
    and "\<forall>a \<in> set as. \<exists>op. map_of ops (oa_id a) = Some op \<and> executes a op"
    and "fst ` set ops = iw_id ` set inits \<union> oa_id ` set as"
proof -
  let ?n = "length as" and ?ias = "zip [0..<length as] as" and ?iws = "zip [0..<length inits] inits"
  note evs = architecture_trace_Inr(1) [OF t]
  obtain events commits where f: "filter_res concrete_event (tr_events t) = Inr events"
    and c: "fold_res (add_commit p) [] events = Inr commits"
    and ops: "fold_res (project_event p commits) [] events = Inr ops"
    using o by (auto simp: project_operations_def rbind_Inr_iff)
  have occ: "ei_occurs e = VBool True" if "e \<in> set (written_events m inits as)" for e
    using that by (auto simp: written_events_def op_event_list_def line_event_def store_event_def load_event_def
        commit_event_def split: if_splits)
  have "concrete_event e = Inr True" if "e \<in> set (tr_events t)" for e
    using filter_res_defined [OF f that] occ that by (auto simp: concrete_event_def evs split: if_splits)
  then have events: "events = written_events m inits as"
    using filter_res_Inr [OF f] by (simp add: evs filter_id_conv)
  note pe = projected_events [OF ops]
  have all: "(\<exists>op. project_event p commits [] e = Inr [(mo_id op, op)] \<and> map_of ops (mo_id op) = Some op) \<or>
      project_event p commits [] e = Inr []" if "e \<in> set events" for e
    using pe that by blast
  have line: "line_event m (i, w) \<in> set events" if "(i, w) \<in> set ?iws" for i w
    using that by (force simp: events written_events_def)
  have op: "set (op_event_list m ?n ia) \<subseteq> set events" if "ia \<in> set ?ias" for ia
    using that by (auto simp: events written_events_def)
  have commit: "map_of commits (oa_id a) = Some (commit_event m ?n (i, a))" if m: "(i, a) \<in> set ?ias" "oa_kind a \<noteq> ''store''" for i a
  proof -
    have "commit_event m ?n (i, a) \<in> set events" using op [OF m(1)] m(2) by (simp add: op_event_list_def)
    then obtain k where "str_field (commit_event m ?n (i, a)) (pj_id p) = Inr k" "map_of commits k = Some (commit_event m ?n (i, a))"
      using commits_recorded [OF c] rb by (auto simp: reads_back_def commit_event_def)
    then show ?thesis using rb
      by (auto simp: str_field_def field_of_def rbind_Inr_iff or_raise_Inr_iff commit_event_def map_of_dict_update reads_back_def)
  qed
  show inits: "\<forall>w \<in> set inits. \<exists>op. map_of ops (iw_id w) = Some op \<and> initialises w op"
  proof
    fix w assume "w \<in> set inits"
    then obtain i where "(i, w) \<in> set ?iws" by (metis in_set_impl_in_set_zip2 length_upt diff_zero)
    from all [OF line [OF this]] line_projected [OF rb] show "\<exists>op. map_of ops (iw_id w) = Some op \<and> initialises w op"
      by fastforce
  qed
  have exec: "\<exists>op. map_of ops (oa_id a) = Some op \<and> executes a op" if ia: "(i, a) \<in> set ?ias" for i a
  proof (cases "oa_kind a = ''store''")
    case True
    then have "store_event m (i, a) \<in> set events" using op [OF ia] by (simp add: op_event_list_def)
    from all [OF this] store_projected [OF rb _ True] show ?thesis by fastforce
  next
    case False
    then have "load_event m (i, a) \<in> set events" using op [OF ia] by (simp add: op_event_list_def)
    from all [OF this] load_projected [OF rb _ False commit [OF ia False]] show ?thesis by fastforce
  qed
  show execs: "\<forall>a \<in> set as. \<exists>op. map_of ops (oa_id a) = Some op \<and> executes a op"
    using exec by (metis in_set_impl_in_set_zip2 length_upt diff_zero)
  have "i \<in> iw_id ` set inits \<union> oa_id ` set as" if known: "map_of ops i \<noteq> None" for i
  proof -
    obtain e op where e: "e \<in> set events" "project_event p commits [] e = Inr [(i, op)]" using pe known by auto
    then consider k w where "(k, w) \<in> set ?iws" "e = line_event m (k, w)"
      | k a where "(k, a) \<in> set ?ias" "e \<in> set (op_event_list m ?n (k, a))"
      by (auto simp: events written_events_def)
    then show ?thesis
    proof cases
      case 1
      then show ?thesis using line_projected [OF rb, of commits k w] e(2) by (auto dest: set_zip_rightD)
    next
      case 2
      have "i = oa_id a"
      proof (cases "oa_kind a = ''store''")
        case True
        then show ?thesis using 2(2) e(2) store_projected [OF rb, of commits k a] by (auto simp: op_event_list_def)
      next
        case False
        show ?thesis using 2(2) e(2) False load_projected [OF rb _ False commit [OF 2(1) False]]
            commit_projected [OF rb, of commits ?n "(k, a)"] by (auto simp: op_event_list_def)
      qed
      then show ?thesis using 2(1) by (auto dest: set_zip_rightD)
    qed
  qed
  moreover have "map_of ops i \<noteq> None" if "i \<in> iw_id ` set inits \<union> oa_id ` set as" for i
    using that inits execs by force
  ultimately show "fst ` set ops = iw_id ` set inits \<union> oa_id ` set as" by (auto simp: dom_map_of_conv_image_fst [symmetric])
qed

end
