(* ===== verification/ArchSearch.thy ===== *)
theory ArchSearch
  imports ArchTrace CompletionRun
begin

text \<open>
  The first layer of \<open>src/src/umcm/search/engine.py\<close>: architectural skeletons with their obligations, the
  core-order filter, and the two searches - over the assignments of fixed slots and over the programs
  generated from the bounds. The generator \<open>_bounded_architecture_candidates\<close> is the function that
  returns its next candidate and the programs left.
\<close>

section \<open>Skeletons\<close>

record obligation =
  ag_kind :: string
  ag_data :: "(string \<times> pyval) list"

definition obligation_to_dict :: "obligation \<Rightarrow> pyval" where
  "obligation_to_dict o' = VMap (dict_update [(''kind'', VStr (ag_kind o'))] (ag_data o'))"

record skeleton =
  sk_graph :: exec_graph
  sk_target :: string
  sk_obligations :: "obligation list"
  sk_violations :: "pyval list"
  sk_trace :: trace

definition skeleton_to_dict :: "skeleton \<Rightarrow> pyval" where
  "skeleton_to_dict s =
     (let g = sk_graph s; names = filter (\<lambda>n. map_of (eg_relations g) n \<noteq> None) [''po'', ''rf'', ''co'', ''fr'', ''ppo''] in
      VMap [(''status'', VStr (sk_target s)), (''candidate_id'', VInt (eg_candidate g)),
        (''operations'', VList (map op_to_dict (sorted_items (eg_operations g)))),
        (''relations'', VMap (map (\<lambda>n. (n, VList (map edge_to_dict (sorted_edges (the (map_of (eg_relations g) n)))))) names)),
        (''obligations'', VList (map obligation_to_dict (sk_obligations s))),
        (''violations'', VList (sk_violations s))])"

text \<open>
  \<open>{target: source for source, target in graph.relation("rf").edges}\<close>. A graph the builder returns has
  one source per read, so the order in which the set is traversed does not matter.
\<close>

definition source_table :: "exec_graph \<Rightarrow> (string \<times> string) list res" where
  "source_table g = rbind (graph_relation g ''rf'') (\<lambda>rf. Inr (dict_of (map (\<lambda>(w, r). (r, w)) (rel_edges rf))))"

definition operation_obligations :: "(string \<times> string) list \<Rightarrow> memory_op \<Rightarrow> obligation list res" where
  "operation_obligations sources m =
     rbind (if mo_kind m = INIT_WRITE then
              Inr [\<lparr>ag_kind = ''initial_value'', ag_data = [(''op_id'', VStr (mo_id m)), (''address'', mo_address m), (''value'', mo_value m)]\<rparr>]
            else if is_read m then
              rbind (or_raise (map_of sources (mo_id m)) PyKeyError) (\<lambda>w. rbind (read_value m) (\<lambda>v.
                Inr [\<lparr>ag_kind = ''read_from'', ag_data = [(''read'', VStr (mo_id m)), (''write'', VStr w),
                  (''address'', mo_address m), (''value'', v)]\<rparr>]))
            else Inr []) (\<lambda>os.
     if mo_kind m = WRITE then rbind (stored_value m) (\<lambda>v.
       Inr (os @ [\<lparr>ag_kind = ''write_value'', ag_data = [(''op_id'', VStr (mo_id m)), (''address'', mo_address m), (''value'', v)]\<rparr>]))
     else Inr os)"

definition relation_obligations :: "exec_graph \<Rightarrow> string \<times> string \<Rightarrow> obligation list" where
  "relation_obligations g nk = (case nk of (n, k) \<Rightarrow>
     case map_of (eg_relations g) n of
       None \<Rightarrow> []
     | Some r \<Rightarrow> map (\<lambda>(a, b). \<lparr>ag_kind = k, ag_data = [(''from'', VStr a), (''to'', VStr b)]\<rparr>) (sorted_edges r))"

definition derive_obligations :: "exec_graph \<Rightarrow> obligation list res" where
  "derive_obligations g =
     rbind (source_table g) (\<lambda>sources.
     rbind (traverse (operation_obligations sources) (sort_key mo_id (map snd (eg_operations g)))) (\<lambda>oss.
       Inr (concat oss @ concat (map (relation_obligations g)
         [(''po'', ''program_order''), (''co'', ''coherence_order''), (''fr'', ''from_read''), (''ppo'', ''preserved_order'')]))))"

section \<open>The core-order filter\<close>

text \<open>An operation that is not an initial write has a hart and a program index (\<^const>\<open>mk_operation\<close>), and
  \<^const>\<open>index_less\<close> compares program indexes.\<close>

definition older_store :: "memory_op list \<Rightarrow> memory_op \<Rightarrow> bool" where
  "older_store writes r = list_ex (\<lambda>w. mo_hart w = mo_hart r \<and> py_eq (mo_address w) (mo_address r) \<and> index_less w r) writes"

definition read_possible :: "exec_graph \<Rightarrow> (string \<times> string) list \<Rightarrow> memory_op list \<Rightarrow> memory_op \<Rightarrow> bool res" where
  "read_possible g sources writes r =
     rbind (or_raise (map_of sources (mo_id r)) PyKeyError) (\<lambda>i.
     rbind (or_raise (map_of (eg_operations g) i) PyKeyError) (\<lambda>s.
       if mo_kind s \<noteq> INIT_WRITE \<and> mo_hart s = mo_hart r \<and> index_less r s then Inr False
       else if mo_kind s = INIT_WRITE \<and> older_store writes r then Inr False
       else Inr True))"

fun all_true :: "('a \<Rightarrow> bool res) \<Rightarrow> 'a list \<Rightarrow> bool res" where
  "all_true p [] = Inr True"
| "all_true p (x # xs) = rbind (p x) (\<lambda>b. if b then all_true p xs else Inr False)"

definition stores_possible :: "relation \<Rightarrow> memory_op list \<Rightarrow> bool" where
  "stores_possible co writes = list_all (\<lambda>older. list_all (\<lambda>younger.
     \<not> (mo_hart older = mo_hart younger \<and> py_eq (mo_address older) (mo_address younger) \<and>
        index_less older younger \<and> (mo_id younger, mo_id older) \<in> set (rel_edges co))) writes) writes"

definition core_order_possible :: "exec_graph \<Rightarrow> bool res" where
  "core_order_possible g =
     (let ops = map snd (eg_operations g); writes = filter (\<lambda>m. mo_kind m = WRITE) ops in
      rbind (source_table g) (\<lambda>sources.
      rbind (all_true (read_possible g sources writes) (filter is_read ops)) (\<lambda>b.
        Inr (b \<and> (case map_of (eg_relations g) ''co'' of None \<Rightarrow> True | Some co \<Rightarrow> stores_possible co writes)))))"

section \<open>One assignment\<close>

datatype verdict = Dropped | Missed | Found skeleton

definition model_status_value :: "memory_model_status \<Rightarrow> string" where
  "model_status_value s = (case s of ALLOWED \<Rightarrow> ''allowed'' | FORBIDDEN \<Rightarrow> ''forbidden'')"

definition violations_of :: "candidate_check \<Rightarrow> pyval list" where
  "violations_of c = map axiom_result_to_dict (filter (\<lambda>r. status_value (ar_status r) = ''violated'') (cc_axioms c))"

definition mk_skeleton :: "trace \<Rightarrow> memory_model_check \<Rightarrow> candidate_check \<Rightarrow> skeleton res" where
  "mk_skeleton t chk rep =
     rbind (derive_obligations (cc_graph rep)) (\<lambda>obs.
       Inr \<lparr>sk_graph = cc_graph rep, sk_target = model_status_value (mc_status chk), sk_obligations = obs,
         sk_violations = violations_of rep, sk_trace = t\<rparr>)"

text \<open>\<open>except GraphError\<close>: any error of the graph builder or checker drops the assignment.\<close>

definition examine :: "bool \<Rightarrow> search_spec \<Rightarrow> event_catalog \<Rightarrow> graph_model \<Rightarrow> init_write list \<Rightarrow> op_assignment list \<Rightarrow> verdict res" where
  "examine filtered s c m inits as =
     rbind (architecture_trace (sa_events (hs_arch s)) inits as) (\<lambda>t.
     rbind (validate_trace c (Some False) t) (\<lambda>_.
       case check_trace_memory_model t m (sb_candidates (hs_bounds s)) of
         Inl e \<Rightarrow> if e = GraphError then Inr Dropped else Inl e
       | Inr chk \<Rightarrow>
           if model_status_value (mc_status chk) \<noteq> sa_target (hs_arch s) then Inr Missed
           else rbind (representative chk) (\<lambda>rep.
                rbind (if filtered then core_order_possible (cc_graph rep) else Inr True) (\<lambda>possible.
                  if \<not> possible then Inr Dropped
                  else rbind (mk_skeleton t chk rep) (\<lambda>sk. Inr (Found sk))))))"

section \<open>Fixed slots\<close>

record arch_outcome =
  ao_skeleton :: "skeleton option"
  ao_examined :: int
  ao_rejected :: int
  ao_estimated :: int
  ao_exhausted :: bool

fun explore :: "search_spec \<Rightarrow> event_catalog \<Rightarrow> graph_model \<Rightarrow> int \<Rightarrow> bool \<Rightarrow> op_assignment list list \<Rightarrow> int \<Rightarrow> int \<Rightarrow>
    arch_outcome res" where
  "explore s c m est exh [] ex rej =
     Inr \<lparr>ao_skeleton = None, ao_examined = ex, ao_rejected = rej, ao_estimated = est, ao_exhausted = exh\<rparr>"
| "explore s c m est exh (as # rest) ex rej =
     (if sb_assignments (hs_bounds s) \<le> ex then
        Inr \<lparr>ao_skeleton = None, ao_examined = ex, ao_rejected = rej, ao_estimated = est, ao_exhausted = False\<rparr>
      else if \<not> valid_program_assignment as then explore s c m est exh rest ex (rej + 1)
      else rbind (examine False s c m (sa_init (hs_arch s)) as) (\<lambda>v.
        case v of
          Dropped \<Rightarrow> explore s c m est exh rest (ex + 1) (rej + 1)
        | Missed \<Rightarrow> explore s c m est exh rest (ex + 1) rej
        | Found sk \<Rightarrow> Inr \<lparr>ao_skeleton = Some sk, ao_examined = ex + 1, ao_rejected = rej, ao_estimated = est,
            ao_exhausted = False\<rparr>))"

definition slot_assignments :: "search_spec \<Rightarrow> op_assignment list list" where
  "slot_assignments s = product_lists (map slot_choices (sa_operations (hs_arch s)))"

definition explicit_search :: "search_spec \<Rightarrow> event_catalog \<Rightarrow> graph_model \<Rightarrow> arch_outcome res" where
  "explicit_search s c m =
     (let est = prod_list (map (\<lambda>slot. int (length (slot_choices slot))) (sa_operations (hs_arch s))) in
      explore s c m est (est \<le> sb_assignments (hs_bounds s)) (slot_assignments s) 0 0)"

section \<open>Generated programs\<close>

record counters =
  ct_examined :: int
  ct_rejected :: int
  ct_estimated :: int
  ct_candidates :: int

fun next_candidate :: "search_spec \<Rightarrow> event_catalog \<Rightarrow> graph_model \<Rightarrow> raw_op list list \<Rightarrow> counters \<Rightarrow>
    ((skeleton \<times> raw_op list list) option \<times> counters) res" where
  "next_candidate s c m [] ct = Inr (None, ct)"
| "next_candidate s c m (raw # rest) ct =
     (if sb_assignments (hs_bounds s) \<le> ct_examined ct then Inr (None, ct)
      else if \<not> candidate_is_canonical raw (VStr (hd (bounded_addresses (sb_addresses (hs_bounds s))))) then
        next_candidate s c m rest (ct\<lparr>ct_rejected := ct_rejected ct + 1\<rparr>)
      else
        let ct = ct\<lparr>ct_examined := ct_examined ct + 1\<rparr> in
        rbind (examine True s c m (bounded_init_writes (hs_bounds s)) (materialize_bounded raw)) (\<lambda>v.
          case v of
            Dropped \<Rightarrow> next_candidate s c m rest (ct\<lparr>ct_rejected := ct_rejected ct + 1\<rparr>)
          | Missed \<Rightarrow> next_candidate s c m rest ct
          | Found sk \<Rightarrow> Inr (Some (sk, rest), ct\<lparr>ct_candidates := ct_candidates ct + 1\<rparr>)))"

definition start_counters :: "search_spec \<Rightarrow> counters" where
  "start_counters s = \<lparr>ct_examined = 0, ct_rejected = 0, ct_estimated = estimated_programs (hs_bounds s), ct_candidates = 0\<rparr>"

definition bounded_search :: "search_spec \<Rightarrow> event_catalog \<Rightarrow> graph_model \<Rightarrow> arch_outcome res" where
  "bounded_search s c m =
     rbind (next_candidate s c m (bounded_programs (hs_bounds s)) (start_counters s)) (\<lambda>(r, ct).
       Inr \<lparr>ao_skeleton = map_option fst r, ao_examined = ct_examined ct, ao_rejected = ct_rejected ct,
         ao_estimated = ct_estimated ct,
         ao_exhausted = (case r of None \<Rightarrow> ct_examined ct < sb_assignments (hs_bounds s) | Some _ \<Rightarrow> False)\<rparr>)"

section \<open>The environment and the search\<close>

text \<open>
  What the search takes from outside: reading a file (\<open>None\<close> where there is none), \<open>Path.resolve\<close>, the
  working directory, the SMT backend, the evaluation fuel, the chosen backend and its node limit.
\<close>

record environment =
  ev_read :: "string \<Rightarrow> pyval res option"
  ev_real :: "string \<Rightarrow> string"
  ev_cwd :: string
  ev_z3 :: "bounded_problem \<Rightarrow> bool \<Rightarrow> solve_result res"
  ev_fuel :: nat
  ev_backend :: string
  ev_limit :: int

definition resolved_data :: "environment \<Rightarrow> search_spec \<Rightarrow> string \<Rightarrow> pyval res" where
  "resolved_data env s path = load_data (ev_read env) (resolve_path (ev_real env) (ev_cwd env) s path)"

definition load_catalog :: "environment \<Rightarrow> search_spec \<Rightarrow> string \<Rightarrow> event_catalog res" where
  "load_catalog env s path = rbind (resolved_data env s path) catalog_from_dict"

definition load_graph_model :: "environment \<Rightarrow> search_spec \<Rightarrow> string \<Rightarrow> graph_model res" where
  "load_graph_model env s path = rbind (resolved_data env s path) graph_model_from_dict"

definition search_architecture :: "environment \<Rightarrow> search_spec \<Rightarrow> arch_outcome res" where
  "search_architecture env s =
     rbind (load_catalog env s (hs_catalog s)) (\<lambda>c.
     rbind (load_graph_model env s (sa_model (hs_arch s))) (\<lambda>m.
       if sa_generation (hs_arch s) = ''bounded'' then bounded_search s c m else explicit_search s c m))"

section \<open>What a search result means\<close>

definition finds :: "bool \<Rightarrow> search_spec \<Rightarrow> event_catalog \<Rightarrow> graph_model \<Rightarrow> init_write list \<Rightarrow> op_assignment list \<Rightarrow> skeleton \<Rightarrow> bool" where
  "finds filtered s c m inits as sk \<longleftrightarrow> examine filtered s c m inits as = Inr (Found sk)"

definition refutes :: "bool \<Rightarrow> search_spec \<Rightarrow> event_catalog \<Rightarrow> graph_model \<Rightarrow> init_write list \<Rightarrow> op_assignment list \<Rightarrow> bool" where
  "refutes filtered s c m inits as \<longleftrightarrow> examine filtered s c m inits as \<in> {Inr Dropped, Inr Missed}"

lemma verdict_Inr:
  "(case v of Dropped \<Rightarrow> a | Missed \<Rightarrow> b | Found sk \<Rightarrow> f sk) = Inr y \<longleftrightarrow>
     v = Dropped \<and> a = Inr y \<or> v = Missed \<and> b = Inr y \<or> (\<exists>sk. v = Found sk \<and> f sk = Inr y)"
  by (cases v) auto

lemma explore_result:
  assumes "explore s c m est exh todo ex rej = Inr oc"
  shows "case ao_skeleton oc of
      Some sk \<Rightarrow> \<exists>pre as post. todo = pre @ as # post \<and> valid_program_assignment as \<and>
        finds False s c m (sa_init (hs_arch s)) as sk \<and>
        (\<forall>x \<in> set pre. valid_program_assignment x \<longrightarrow> refutes False s c m (sa_init (hs_arch s)) x)
    | None \<Rightarrow> ao_exhausted oc \<longrightarrow> exh \<and> (\<forall>x \<in> set todo. valid_program_assignment x \<longrightarrow>
        refutes False s c m (sa_init (hs_arch s)) x)"
    and "ex \<le> ao_examined oc" and "ex \<le> sb_assignments (hs_bounds s) \<longrightarrow> ao_examined oc \<le> sb_assignments (hs_bounds s)"
  using assms
proof (induction todo arbitrary: ex rej)
  case (Cons as rest)
  {
    case 1
    have prefix: ?case if r: "explore s c m est exh rest ex' rej' = Inr oc"
      and v: "valid_program_assignment as \<longrightarrow> refutes False s c m (sa_init (hs_arch s)) as" for ex' rej'
    proof (cases "ao_skeleton oc")
      case None
      then show ?thesis using Cons.IH(1) [OF r] v by auto
    next
      case (Some sk)
      then obtain pre x post where "rest = pre @ x # post" "valid_program_assignment x"
        "finds False s c m (sa_init (hs_arch s)) x sk"
        "\<forall>y \<in> set pre. valid_program_assignment y \<longrightarrow> refutes False s c m (sa_init (hs_arch s)) y"
        using Cons.IH(1) [OF r] by auto
      then show ?thesis using Some v by (auto intro!: exI [of _ "as # pre"])
    qed
    show ?case
    proof (cases "sb_assignments (hs_bounds s) \<le> ex")
      case True
      then show ?thesis using 1 by auto
    next
      case False
      show ?thesis
      proof (cases "valid_program_assignment as")
        case True
        then obtain v where v: "examine False s c m (sa_init (hs_arch s)) as = Inr v" using 1 False by (auto simp: rbind_Inr_iff)
        show ?thesis
        proof (cases v)
          case (Found sk)
          then have oc: "oc = \<lparr>ao_skeleton = Some sk, ao_examined = ex + 1, ao_rejected = rej, ao_estimated = est, ao_exhausted = False\<rparr>"
            using 1 v True False by simp
          show ?thesis using v Found True
            by (simp add: oc finds_def) (intro exI [of _ "[]"] exI [of _ as] exI [of _ rest], simp)
        qed (use 1 v True False in \<open>auto simp: refutes_def intro!: prefix\<close>)
      qed (use 1 False in \<open>auto intro!: prefix\<close>)
    qed
  next
    case 2
    then show ?case by (auto simp: rbind_Inr_iff verdict_Inr split: if_splits dest!: Cons.IH(2))
  next
    case 3
    then show ?case by (auto simp: rbind_Inr_iff verdict_Inr split: if_splits dest!: Cons.IH(3))
  }
qed auto

abbreviation canonical :: "search_spec \<Rightarrow> raw_op list \<Rightarrow> bool" where
  "canonical s raw \<equiv> candidate_is_canonical raw (VStr (hd (bounded_addresses (sb_addresses (hs_bounds s)))))"

abbreviation refuted_program :: "search_spec \<Rightarrow> event_catalog \<Rightarrow> graph_model \<Rightarrow> raw_op list \<Rightarrow> bool" where
  "refuted_program s c m raw \<equiv> refutes True s c m (bounded_init_writes (hs_bounds s)) (materialize_bounded raw)"

lemma next_candidate_result:
  assumes "next_candidate s c m todo ct = Inr (r, ct')"
  shows "case r of
      Some (sk, rest) \<Rightarrow> \<exists>pre raw. todo = pre @ raw # rest \<and> canonical s raw \<and>
        finds True s c m (bounded_init_writes (hs_bounds s)) (materialize_bounded raw) sk \<and>
        (\<forall>x \<in> set pre. canonical s x \<longrightarrow> refuted_program s c m x)
    | None \<Rightarrow> ct_examined ct' < sb_assignments (hs_bounds s) \<longrightarrow>
        (\<forall>x \<in> set todo. canonical s x \<longrightarrow> refuted_program s c m x)"
    and "ct_examined ct \<le> ct_examined ct'"
    and "ct_examined ct \<le> sb_assignments (hs_bounds s) \<longrightarrow> ct_examined ct' \<le> sb_assignments (hs_bounds s)"
    and "ct_estimated ct' = ct_estimated ct"
    and "ct_candidates ct' = ct_candidates ct + (if r = None then 0 else 1)"
  using assms
proof (induction todo arbitrary: ct)
  case (Cons raw rest)
  {
    case 1
    have prefix: ?case if n: "next_candidate s c m rest ct1 = Inr (r, ct')" and v: "canonical s raw \<longrightarrow> refuted_program s c m raw"
      for ct1
    proof (cases r)
      case None
      then show ?thesis using Cons.IH(1) [OF n] v by auto
    next
      case (Some x)
      obtain sk post where x: "x = (sk, post)" by (cases x)
      then obtain pre y where "rest = pre @ y # post" "canonical s y"
        "finds True s c m (bounded_init_writes (hs_bounds s)) (materialize_bounded y) sk"
        "\<forall>z \<in> set pre. canonical s z \<longrightarrow> refuted_program s c m z"
        using Cons.IH(1) [OF n] Some by auto
      then show ?thesis using Some x v
        by (auto intro!: exI [of _ "raw # pre"])
    qed
    show ?case
    proof (cases "sb_assignments (hs_bounds s) \<le> ct_examined ct")
      case True
      then show ?thesis using 1 by auto
    next
      case False
      show ?thesis
      proof (cases "canonical s raw")
        case True
        then obtain v where v: "examine True s c m (bounded_init_writes (hs_bounds s)) (materialize_bounded raw) = Inr v"
          using 1 False by (auto simp: rbind_Inr_iff Let_def)
        show ?thesis
        proof (cases v)
          case (Found sk)
          then have r: "r = Some (sk, rest)" using 1 v True False by (simp add: Let_def)
          show ?thesis using v Found True
            by (simp add: r finds_def)
        qed (use 1 v True False in \<open>auto simp: refutes_def Let_def intro!: prefix\<close>)
      qed (use 1 False in \<open>auto intro!: prefix\<close>)
    qed
  next
    case 2
    then show ?case by (auto simp: rbind_Inr_iff Let_def verdict_Inr split: if_splits dest!: Cons.IH(2))
  next
    case 3
    then show ?case by (auto simp: rbind_Inr_iff Let_def verdict_Inr split: if_splits dest!: Cons.IH(3))
  next
    case 4
    then show ?case by (auto simp: rbind_Inr_iff Let_def verdict_Inr split: if_splits dest!: Cons.IH(4))
  next
    case 5
    then show ?case by (auto simp: rbind_Inr_iff Let_def verdict_Inr split: if_splits dest!: Cons.IH(5))
  }
qed auto

text \<open>A skeleton that is found is one execution of the assigned operations with the target status.\<close>

lemma examine_found:
  assumes "finds filtered s c m inits as sk"
  obtains t chk rep where "architecture_trace (sa_events (hs_arch s)) inits as = Inr t" "sk_trace sk = t"
    "validate_trace c (Some False) t = Inr ()"
    "check_trace_memory_model t m (sb_candidates (hs_bounds s)) = Inr chk"
    "model_status_value (mc_status chk) = sa_target (hs_arch s)" "sk_target sk = sa_target (hs_arch s)"
    "representative chk = Inr rep" "sk_graph sk = cc_graph rep"
    "derive_obligations (sk_graph sk) = Inr (sk_obligations sk)" "sk_violations sk = violations_of rep"
    "filtered \<Longrightarrow> core_order_possible (sk_graph sk) = Inr True"
proof -
  obtain t where t: "architecture_trace (sa_events (hs_arch s)) inits as = Inr t" "validate_trace c (Some False) t = Inr ()"
    using assms by (auto simp: finds_def examine_def rbind_Inr_iff)
  obtain chk where chk: "check_trace_memory_model t m (sb_candidates (hs_bounds s)) = Inr chk"
    "model_status_value (mc_status chk) = sa_target (hs_arch s)"
    using assms t by (auto simp: finds_def examine_def split: sum.splits if_splits)
  then obtain rep where "representative chk = Inr rep" "mk_skeleton t chk rep = Inr sk"
    "filtered \<longrightarrow> core_order_possible (cc_graph rep) = Inr True"
    using assms t by (auto simp: finds_def examine_def rbind_Inr_iff split: if_splits)
  then show thesis using t chk by (intro that [of t chk rep]) (auto simp: mk_skeleton_def rbind_Inr_iff)
qed

lemma representative_member: "representative chk = Inr rep \<Longrightarrow> rep \<in> set (mc_candidates chk)"
  by (auto simp: representative_def or_raise_Inr_iff find_Some_iff split: list.splits if_splits)

lemma checked_graph:
  assumes m: "wf_graph_model m" and chk: "check_trace_memory_model t m k = Inr chk" and x: "x \<in> set (mc_candidates chk)"
  obtains sp po n srcs cos where "prepare_candidates t m k = Inr (sp, po)" "(n, srcs, cos) \<in> set (candidates sp)"
    "build_graph m sp po (n, srcs, cos) = Inr (cc_graph x)" "wf_graph (cc_graph x)"
    "eg_operations (cc_graph x) = cs_operations sp"
    "edges_of (cc_graph x) ''rf'' = chosen_rf srcs" "edges_of (cc_graph x) ''co'' = chosen_co cos"
    "project_operations t (gm_projection m) = Inr (cs_operations sp)"
proof -
  obtain sp po checks where p: "prepare_candidates t m k = Inr (sp, po)"
    and cs: "traverse (\<lambda>c. rbind (build_graph m sp po c) (\<lambda>g. check_execution_graph g (gm_axioms m) (gm_builtin m)))
      (candidates sp) = Inr checks" and mem: "x \<in> set checks"
    using chk x by (auto simp: check_trace_memory_model_def rbind_Inr_iff)
  obtain c g where c: "c \<in> set (candidates sp)" "build_graph m sp po c = Inr g"
    "check_execution_graph g (gm_axioms m) (gm_builtin m) = Inr x"
    using traverse_Inr_imageD [OF cs mem] by (auto simp: rbind_Inr_iff)
  have g: "cc_graph x = g" using c(3) by (auto simp: check_execution_graph_def rbind_Inr_iff)
  obtain n srcs cos where cc: "c = (n, srcs, cos)" by (cases c)
  have "project_operations t (gm_projection m) = Inr (cs_operations sp)"
    using p by (auto simp: prepare_candidates_def build_candidate_space_def rbind_Inr_iff)
  with built_graph_ok [OF m p c(2) [unfolded cc]] show thesis
    using p c(1,2) by (intro that [of sp po n srcs cos]) (simp_all add: g cc)
qed

lemma found_executes:
  assumes f: "finds filtered s c m inits as sk" and m: "wf_graph_model m"
    and rb: "reads_back (sa_events (hs_arch s)) (gm_projection m)"
  shows "wf_graph (sk_graph sk)"
    and "\<forall>w \<in> set inits. \<exists>op. map_of (eg_operations (sk_graph sk)) (iw_id w) = Some op \<and> initialises w op"
    and "\<forall>a \<in> set as. \<exists>op. map_of (eg_operations (sk_graph sk)) (oa_id a) = Some op \<and> executes a op"
    and "fst ` set (eg_operations (sk_graph sk)) = iw_id ` set inits \<union> oa_id ` set as"
proof -
  obtain t chk rep where t: "architecture_trace (sa_events (hs_arch s)) inits as = Inr t"
    and chk: "check_trace_memory_model t m (sb_candidates (hs_bounds s)) = Inr chk"
    and rep: "representative chk = Inr rep" "sk_graph sk = cc_graph rep"
    using examine_found [OF f] by metis
  obtain ops where "wf_graph (cc_graph rep)" "eg_operations (cc_graph rep) = ops"
    "project_operations t (gm_projection m) = Inr ops"
    by (rule checked_graph [OF m chk representative_member [OF rep(1)]]) blast
  then show "wf_graph (sk_graph sk)"
    "\<forall>w \<in> set inits. \<exists>op. map_of (eg_operations (sk_graph sk)) (iw_id w) = Some op \<and> initialises w op"
    "\<forall>a \<in> set as. \<exists>op. map_of (eg_operations (sk_graph sk)) (oa_id a) = Some op \<and> executes a op"
    "fst ` set (eg_operations (sk_graph sk)) = iw_id ` set inits \<union> oa_id ` set as"
    using project_architecture [OF rb t] by (simp_all add: rep(2))
qed

end
