(* ===== verification/ArchFacts.thy ===== *)
theory ArchFacts
  imports ArchSearch RvwmoCheck
begin

text \<open>
  What the architectural layer computes from a graph: \<open>derive_obligations\<close> lists exactly the values and
  the edges of the graph, and the core-order filter decides \<open>core_ordered\<close>, which every execution that
  has a global memory order satisfies when addresses name locations: the filter drops no such execution.
\<close>

section \<open>Sources of reads\<close>

definition single_sources :: "exec_graph \<Rightarrow> bool" where
  "single_sources g \<longleftrightarrow> (\<forall>w w' r. (w, r) \<in> edges_of g ''rf'' \<longrightarrow> (w', r) \<in> edges_of g ''rf'' \<longrightarrow> w = w')"

lemma source_table_lookup:
  assumes "source_table g = Inr sources" "single_sources g"
  shows "map_of sources r = Some w \<longleftrightarrow> (w, r) \<in> edges_of g ''rf''"
proof -
  obtain rf where rf: "map_of (eg_relations g) ''rf'' = Some rf"
    and s: "sources = dict_of (map (\<lambda>(w, r). (r, w)) (rel_edges rf))"
    using assms(1) by (auto simp: source_table_def graph_relation_def rbind_Inr_iff or_raise_Inr_iff)
  have e: "edges_of g ''rf'' = set (rel_edges rf)" by (simp add: edges_of_def rf)
  let ?kvs = "map (\<lambda>(w, r). (r, w)) (rel_edges rf)"
  show ?thesis
  proof
    assume "map_of sources r = Some w"
    then have "(r, w) \<in> set ?kvs" by (auto simp: s map_of_dict_of dest: map_of_SomeD)
    then show "(w, r) \<in> edges_of g ''rf''" by (auto simp: e)
  next
    assume m: "(w, r) \<in> edges_of g ''rf''"
    then have "r \<in> fst ` set (rev ?kvs)" by (force simp: e)
    then obtain w' where w': "map_of sources r = Some w'" by (cases "map_of sources r") (auto simp: s map_of_dict_of map_of_eq_None_iff)
    then have "(r, w') \<in> set ?kvs" by (auto simp: s map_of_dict_of dest: map_of_SomeD)
    then have "w' = w" using m assms(2) by (auto simp: e single_sources_def)
    then show "map_of sources r = Some w" using w' by simp
  qed
qed

section \<open>Obligations\<close>

definition ORDER_KINDS :: "(string \<times> string) list" where
  "ORDER_KINDS = [(''po'', ''program_order''), (''co'', ''coherence_order''), (''fr'', ''from_read''), (''ppo'', ''preserved_order'')]"

definition required :: "exec_graph \<Rightarrow> obligation \<Rightarrow> bool" where
  "required g ob \<longleftrightarrow> (\<exists>m \<in> snd ` set (eg_operations g).
       mo_kind m = INIT_WRITE \<and> ob = \<lparr>ag_kind = ''initial_value'',
         ag_data = [(''op_id'', VStr (mo_id m)), (''address'', mo_address m), (''value'', mo_value m)]\<rparr> \<or>
       is_read m \<and> (\<exists>w. (w, mo_id m) \<in> edges_of g ''rf'' \<and> ob = \<lparr>ag_kind = ''read_from'',
         ag_data = [(''read'', VStr (mo_id m)), (''write'', VStr w), (''address'', mo_address m), (''value'', mo_value m)]\<rparr>) \<or>
       mo_kind m = WRITE \<and> ob = \<lparr>ag_kind = ''write_value'',
         ag_data = [(''op_id'', VStr (mo_id m)), (''address'', mo_address m), (''value'', mo_value m)]\<rparr>) \<or>
     (\<exists>(n, k) \<in> set ORDER_KINDS. \<exists>(a, b) \<in> edges_of g n.
       ob = \<lparr>ag_kind = k, ag_data = [(''from'', VStr a), (''to'', VStr b)]\<rparr>)"

lemma relation_obligations_iff:
  "ob \<in> set (relation_obligations g p) \<longleftrightarrow>
     (\<exists>(a, b) \<in> edges_of g (fst p). ob = \<lparr>ag_kind = snd p, ag_data = [(''from'', VStr a), (''to'', VStr b)]\<rparr>)"
  by (cases p) (auto simp: relation_obligations_def edges_of_def sorted_edges_def split: option.splits)

lemma operation_obligations_set:
  assumes "operation_obligations sources m = Inr os" and "\<And>w. map_of sources (mo_id m) = Some w \<longleftrightarrow> (w, mo_id m) \<in> rf"
  shows "ob \<in> set os \<longleftrightarrow>
     mo_kind m = INIT_WRITE \<and> ob = \<lparr>ag_kind = ''initial_value'',
       ag_data = [(''op_id'', VStr (mo_id m)), (''address'', mo_address m), (''value'', mo_value m)]\<rparr> \<or>
     is_read m \<and> (\<exists>w. (w, mo_id m) \<in> rf \<and> ob = \<lparr>ag_kind = ''read_from'',
       ag_data = [(''read'', VStr (mo_id m)), (''write'', VStr w), (''address'', mo_address m), (''value'', mo_value m)]\<rparr>) \<or>
     mo_kind m = WRITE \<and> ob = \<lparr>ag_kind = ''write_value'',
       ag_data = [(''op_id'', VStr (mo_id m)), (''address'', mo_address m), (''value'', mo_value m)]\<rparr>"
proof -
  have "w = x" if "(w, mo_id m) \<in> rf" "(x, mo_id m) \<in> rf" for w x using that assms(2) by (metis option.inject)
  then show ?thesis using assms(1)
  by (cases "mo_kind m") (auto simp: operation_obligations_def rbind_Inr_iff or_raise_Inr_iff read_value_def stored_value_def
      is_read_def is_read_kind_def is_write_def assms(2))
qed

lemma obligations_exact:
  assumes "derive_obligations g = Inr obs" "single_sources g"
  shows "ob \<in> set obs \<longleftrightarrow> required g ob"
proof -
  obtain sources oss where s: "source_table g = Inr sources"
    and oss: "traverse (operation_obligations sources) (sort_key mo_id (map snd (eg_operations g))) = Inr oss"
    and obs: "obs = concat oss @ concat (map (relation_obligations g) ORDER_KINDS)"
    using assms(1) by (auto simp: derive_obligations_def rbind_Inr_iff ORDER_KINDS_def)
  define P where "P = (\<lambda>m. mo_kind m = INIT_WRITE \<and> ob = \<lparr>ag_kind = ''initial_value'',
       ag_data = [(''op_id'', VStr (mo_id m)), (''address'', mo_address m), (''value'', mo_value m)]\<rparr> \<or>
     is_read m \<and> (\<exists>w. (w, mo_id m) \<in> edges_of g ''rf'' \<and> ob = \<lparr>ag_kind = ''read_from'',
       ag_data = [(''read'', VStr (mo_id m)), (''write'', VStr w), (''address'', mo_address m), (''value'', mo_value m)]\<rparr>) \<or>
     mo_kind m = WRITE \<and> ob = \<lparr>ag_kind = ''write_value'',
       ag_data = [(''op_id'', VStr (mo_id m)), (''address'', mo_address m), (''value'', mo_value m)]\<rparr>)"
  have ms: "set (sort_key mo_id (map snd (eg_operations g))) = snd ` set (eg_operations g)" by simp
  have op: "ob \<in> set os \<longleftrightarrow> P m" if "operation_obligations sources m = Inr os" for m os
    unfolding P_def by (rule operation_obligations_set [OF that source_table_lookup [OF s assms(2)]])
  have "ob \<in> set (concat oss) \<longleftrightarrow> (\<exists>m \<in> snd ` set (eg_operations g). P m)"
  proof
    assume "ob \<in> set (concat oss)"
    then obtain os where os: "os \<in> set oss" "ob \<in> set os" by auto
    then obtain m where "m \<in> snd ` set (eg_operations g)" "operation_obligations sources m = Inr os"
      using traverse_Inr_imageD [OF oss] ms by metis
    then show "\<exists>m \<in> snd ` set (eg_operations g). P m" using op os(2) by blast
  next
    assume "\<exists>m \<in> snd ` set (eg_operations g). P m"
    then obtain m where m: "m \<in> snd ` set (eg_operations g)" "P m" by blast
    then obtain os where "os \<in> set oss" "operation_obligations sources m = Inr os"
      using traverse_Inr_memD [OF oss] ms by metis
    then show "ob \<in> set (concat oss)" using op m(2) by auto
  qed
  moreover have "ob \<in> set (concat (map (relation_obligations g) ORDER_KINDS)) \<longleftrightarrow>
      (\<exists>(n, k) \<in> set ORDER_KINDS. \<exists>(a, b) \<in> edges_of g n. ob = \<lparr>ag_kind = k, ag_data = [(''from'', VStr a), (''to'', VStr b)]\<rparr>)"
    by (simp add: relation_obligations_iff case_prod_unfold)
  ultimately show ?thesis unfolding obs set_append Un_iff required_def P_def by (rule arg_cong2 [where f = "(\<or>)"])
qed

section \<open>The core-order filter\<close>

definition core_ordered :: "op_map \<Rightarrow> edge set \<Rightarrow> edge set \<Rightarrow> bool" where
  "core_ordered ops rf co \<longleftrightarrow>
     (\<forall>(w, r) \<in> rf. \<forall>x y. map_of ops w = Some x \<longrightarrow> map_of ops r = Some y \<longrightarrow> is_read y \<longrightarrow>
        (mo_kind x \<noteq> INIT_WRITE \<longrightarrow> \<not> (mo_hart x = mo_hart y \<and> index_less y x)) \<and>
        (mo_kind x = INIT_WRITE \<longrightarrow> \<not> (\<exists>z \<in> snd ` set ops. mo_kind z = WRITE \<and> mo_hart z = mo_hart y \<and>
           py_eq (mo_address z) (mo_address y) \<and> index_less z y))) \<and>
     (\<forall>x \<in> snd ` set ops. \<forall>y \<in> snd ` set ops. mo_kind x = WRITE \<longrightarrow> mo_kind y = WRITE \<longrightarrow> mo_hart x = mo_hart y \<longrightarrow>
        py_eq (mo_address x) (mo_address y) \<longrightarrow> index_less x y \<longrightarrow> (mo_id y, mo_id x) \<notin> co)"

lemma all_true_Inr: "all_true p xs = Inr b \<Longrightarrow> b \<longleftrightarrow> (\<forall>x \<in> set xs. p x = Inr True)"
  by (induction xs) (auto simp: rbind_Inr_iff split: if_splits)

lemma all_true_total: "\<forall>x \<in> set xs. \<exists>b. p x = Inr b \<Longrightarrow> \<exists>b. all_true p xs = Inr b"
proof (induction xs)
  case (Cons x xs)
  then obtain b c where "p x = Inr b" "all_true p xs = Inr c" by auto
  then show ?case by (cases b) (auto intro: exI [of _ False])
qed auto

definition sourced_reads :: "exec_graph \<Rightarrow> bool" where
  "sourced_reads g \<longleftrightarrow> single_sources g \<and> map_of (eg_relations g) ''rf'' \<noteq> None \<and>
     (\<forall>r y. map_of (eg_operations g) r = Some y \<longrightarrow> is_read y \<longrightarrow> (\<exists>w. (w, r) \<in> edges_of g ''rf'')) \<and>
     (\<forall>(w, r) \<in> edges_of g ''rf''. map_of (eg_operations g) w \<noteq> None \<and> map_of (eg_operations g) r \<noteq> None)"

lemma core_order_decides:
  assumes wf: "wf_graph g" and sr: "sourced_reads g"
  shows "core_order_possible g = Inr (core_ordered (eg_operations g) (edges_of g ''rf'') (edges_of g ''co''))"
proof -
  let ?ops = "eg_operations g" and ?rf = "edges_of g ''rf''" and ?ms = "map snd (eg_operations g)"
  let ?ws = "filter (\<lambda>m. mo_kind m = WRITE) ?ms"
  obtain sources where s: "source_table g = Inr sources"
    using sr by (auto simp: sourced_reads_def source_table_def graph_relation_def rbind_Inr_iff or_raise_Inr_iff)
  have look: "map_of sources r = Some w \<longleftrightarrow> (w, r) \<in> ?rf" for r w
    using source_table_lookup [OF s] sr by (simp add: sourced_reads_def)
  have id: "map_of ?ops (mo_id m) = Some m" if "m \<in> set ?ms" for m
    using wf that by (auto simp: wf_graph_def intro!: map_of_is_SomeI)
  have read: "\<exists>w x. (w, mo_id m) \<in> ?rf \<and> map_of ?ops w = Some x \<and> read_possible g sources ?ws m =
      Inr (\<not> (mo_kind x \<noteq> INIT_WRITE \<and> mo_hart x = mo_hart m \<and> index_less m x) \<and>
           \<not> (mo_kind x = INIT_WRITE \<and> older_store ?ws m))" if m: "m \<in> set ?ms" "is_read m" for m
  proof -
    obtain w where rf: "(w, mo_id m) \<in> ?rf" using id [OF m(1)] m(2) sr unfolding sourced_reads_def by blast
    then obtain x where w: "(w, mo_id m) \<in> ?rf" "map_of ?ops w = Some x" using sr unfolding sourced_reads_def by fastforce
    then show ?thesis by (auto simp: read_possible_def look [symmetric] or_raise_def intro!: exI [of _ w] exI [of _ x])
  qed
  obtain b where b: "all_true (read_possible g sources ?ws) (filter is_read ?ms) = Inr b"
    using all_true_total [of "filter is_read ?ms" "read_possible g sources ?ws"] read by fastforce
  have "b \<longleftrightarrow> (\<forall>(w, r) \<in> ?rf. \<forall>x y. map_of ?ops w = Some x \<longrightarrow> map_of ?ops r = Some y \<longrightarrow> is_read y \<longrightarrow>
        \<not> (mo_kind x \<noteq> INIT_WRITE \<and> mo_hart x = mo_hart y \<and> index_less y x) \<and>
        \<not> (mo_kind x = INIT_WRITE \<and> older_store ?ws y))" (is "_ \<longleftrightarrow> ?R")
  proof
    assume b: b
    show ?R
    proof (intro ballI, clarify, intro conjI)
      fix w r x y assume rf: "(w, r) \<in> ?rf" and x: "map_of ?ops w = Some x" and y: "map_of ?ops r = Some y" "is_read y"
      have y': "y \<in> set ?ms" "mo_id y = r" using wf y(1) by (force simp: wf_graph_def dest!: map_of_SomeD)+
      then obtain w' x' where w': "(w', r) \<in> ?rf" "map_of ?ops w' = Some x'" "read_possible g sources ?ws y =
        Inr (\<not> (mo_kind x' \<noteq> INIT_WRITE \<and> mo_hart x' = mo_hart y \<and> index_less y x') \<and>
           \<not> (mo_kind x' = INIT_WRITE \<and> older_store ?ws y))" using read y(2) by blast
      then have "w' = w" using rf sr unfolding sourced_reads_def single_sources_def by blast
      then have "x' = x" using w'(2) x by simp
      moreover have "read_possible g sources ?ws y = Inr True" using all_true_Inr [OF \<open>all_true _ _ = Inr b\<close>] b y(2) y'(1) by auto
      ultimately show "\<not> (mo_kind x \<noteq> INIT_WRITE \<and> mo_hart x = mo_hart y \<and> index_less y x)"
        "\<not> (mo_kind x = INIT_WRITE \<and> older_store ?ws y)" using w'(3) by auto
    qed
  next
    assume R: ?R
    have "read_possible g sources ?ws m = Inr True" if m: "m \<in> set ?ms" "is_read m" for m
    proof -
      obtain w x where "(w, mo_id m) \<in> ?rf" "map_of ?ops w = Some x" and eq: "read_possible g sources ?ws m =
        Inr (\<not> (mo_kind x \<noteq> INIT_WRITE \<and> mo_hart x = mo_hart m \<and> index_less m x) \<and>
           \<not> (mo_kind x = INIT_WRITE \<and> older_store ?ws m))" using read [OF m] by blast
      then show ?thesis using R id [OF m(1)] m(2) by fastforce
    qed
    then show b using all_true_Inr [OF b] by auto
  qed
  moreover have "older_store ?ws y \<longleftrightarrow> (\<exists>z \<in> snd ` set ?ops. mo_kind z = WRITE \<and> mo_hart z = mo_hart y \<and>
      py_eq (mo_address z) (mo_address y) \<and> index_less z y)" for y
    by (auto simp: older_store_def list_ex_iff)
  moreover have "(case map_of (eg_relations g) ''co'' of None \<Rightarrow> True | Some co \<Rightarrow> stores_possible co ?ws) \<longleftrightarrow>
     (\<forall>x \<in> snd ` set ?ops. \<forall>y \<in> snd ` set ?ops. mo_kind x = WRITE \<longrightarrow> mo_kind y = WRITE \<longrightarrow> mo_hart x = mo_hart y \<longrightarrow>
        py_eq (mo_address x) (mo_address y) \<longrightarrow> index_less x y \<longrightarrow> (mo_id y, mo_id x) \<notin> edges_of g ''co'')"
    by (auto simp: stores_possible_def list_all_iff edges_of_def split: option.split)
  ultimately show ?thesis
    using b by (simp add: core_order_possible_def Let_def s core_ordered_def) blast
qed

text \<open>An execution with a global memory order passes.\<close>

definition addresses_located :: "op_map \<Rightarrow> bool" where
  "addresses_located ops \<longleftrightarrow> (\<forall>x \<in> snd ` set ops. \<forall>y \<in> snd ` set ops. py_eq (mo_address x) (mo_address y) \<longrightarrow> fp x = fp y \<and> fp x \<noteq> {})"

lemma gmo_core_ordered:
  assumes g: "rvwmo_graph ops po rf co ppo srcs" and gmo: "global_memory_order ops po rf co ppo gmo"
    and loc: "addresses_located ops"
  shows "core_ordered ops rf co"
proof -
  have coh: "coherent_reads po rf co" by (rule gmo_coherent [OF g gmo])
  have wo: "wf_ops ops" by (rule rvwmo_graphD(1) [OF g])
  have po: "(a, b) \<in> po \<longleftrightarrow> (\<exists>s t. map_of ops a = Some s \<and> map_of ops b = Some t \<and> po_before s t)" for a b
    using rvwmo_graphD(5) [OF g] by auto
  have st: "strict_total (fst ` set ops) gmo" and sub: "ppo \<subseteq> gmo" "co \<subseteq> gmo"
    using gmo by (auto simp: global_memory_order_def)
  have known: "map_of ops (mo_id m) = Some m" if "m \<in> snd ` set ops" for m
    using wo that by (auto simp: wf_ops_def intro!: map_of_is_SomeI)
  have hart: "mo_hart m \<noteq> None" if "m \<in> snd ` set ops" "mo_kind m \<noteq> INIT_WRITE" for m
    using wo that by (auto simp: wf_ops_def wf_op_iff)
  have mem: "m \<in> snd ` set ops" if "map_of ops i = Some m" for i m using that by (force dest: map_of_SomeD)
  show ?thesis unfolding core_ordered_def
  proof (intro conjI ballI impI allI, clarify, intro conjI impI notI)
    fix w r x y assume rf: "(w, r) \<in> rf" and x: "map_of ops w = Some x" and y: "map_of ops r = Some y" "is_read y"
    have c: "(r, w) \<notin> po" "\<And>w'. (w, w') \<in> co \<Longrightarrow> (w', r) \<notin> po" using coh rf by (auto simp: coherent_reads_def)
    {
      assume k: "mo_kind x \<noteq> INIT_WRITE" "mo_hart x = mo_hart y \<and> index_less y x"
      then have "po_before y x" using hart [OF mem [OF x]] by (simp add: po_before_def)
      then have "(r, w) \<in> po" using x y(1) po [of r w] by simp
      then show False using c(1) by simp
    next
      assume k: "mo_kind x = INIT_WRITE" and "\<exists>z \<in> snd ` set ops. mo_kind z = WRITE \<and> mo_hart z = mo_hart y \<and>
        py_eq (mo_address z) (mo_address y) \<and> index_less z y"
      then obtain z where z: "z \<in> snd ` set ops" "mo_kind z = WRITE" "mo_hart z = mo_hart y"
        "py_eq (mo_address z) (mo_address y)" "index_less z y" by blast
      have fpz: "fp z = fp y" using loc z(1,4) mem [OF y(1)] by (auto simp: addresses_located_def)
      obtain x' y' where "map_of ops w = Some x'" "map_of ops r = Some y'" "is_write x'" "fp x' = fp y'"
        by (rule rf_ops [OF g rf])
      then have fpx: "fp x = fp y" using x y by simp
      have "w \<noteq> mo_id z" using known [OF z(1)] x z(2) k by auto
      moreover have "is_write z" using z(2) by (simp add: is_write_def)
      ultimately have "(w, mo_id z) \<in> co"
        using rvwmo_graphD(3) [OF g] x known [OF z(1)] k fpx fpz unfolding co_valid_def by metis
      moreover have "po_before z y" using z hart [OF z(1)] by (simp add: po_before_def)
      then have "(mo_id z, r) \<in> po" using po [of "mo_id z" r] known [OF z(1)] y(1) by simp
      ultimately show False using c(2) by simp
    }
  next
    fix x y assume m: "x \<in> snd ` set ops" "y \<in> snd ` set ops" "mo_kind x = WRITE" "mo_kind y = WRITE"
      and h: "mo_hart x = mo_hart y" "py_eq (mo_address x) (mo_address y)" "index_less x y"
    have "po_before x y" using h hart [OF m(1)] m(3) by (simp add: po_before_def)
    then have p: "(mo_id x, mo_id y) \<in> po" using po [of "mo_id x" "mo_id y"] known m(1,2) by simp
    have fpe: "fp x = fp y" using loc m(1,2) h(2) unfolding addresses_located_def by blast
    show "(mo_id y, mo_id x) \<notin> co"
    proof
      assume co: "(mo_id y, mo_id x) \<in> co"
      have "fp x \<noteq> {}" using loc m(1,2) h(2) unfolding addresses_located_def by blast
      then have "(mo_id x, mo_id y) \<in> ppo"
        using graph_rule1 [OF g p known [OF m(1)] known [OF m(2)]] m(4) fpe by (simp add: is_write_def)
      then show False using sub co strict_total_asym [OF st] by blast
    qed
  qed
qed

end
