(* ===== verification/Realize.thy ===== *)
theory Realize
  imports ArchFacts Compose
begin

text \<open>
  The second layer of \<open>src/src/umcm/search/engine.py\<close> for a \<open>coherence_access\<close> stage: schedules, the public
  input trace, the obligations on public output events, and the search for a schedule whose bounded
  problem is feasible. The texts of reasons are not modelled; a reason says where it comes from.
\<close>

section \<open>Results\<close>

datatype stage_status = Realizable | Unrealizable | Blocked | StageUnknown

definition stage_status_value :: "stage_status \<Rightarrow> string" where
  "stage_status_value s = (case s of Realizable \<Rightarrow> ''realizable'' | Unrealizable \<Rightarrow> ''unrealizable''
     | Blocked \<Rightarrow> ''blocked'' | StageUnknown \<Rightarrow> ''unknown'')"

datatype stage_reason =
    Declared string | NothingTried | Realized | Unsolved completion_status "solve_reason option"
  | NotComposed | Projected string

record stage_result =
  sr_name :: string
  sr_kind :: string
  sr_required :: bool
  sr_status :: stage_status
  sr_reason :: stage_reason
  sr_attempts :: int
  sr_schedule :: "string list"
  sr_observations :: "pyval list"
  sr_evidence :: "pyval list"
  sr_missing :: "string list"
  sr_witness :: "trace option"
  sr_path :: string

text \<open>The text of a reason is a parameter.\<close>

definition stage_result_to_dict :: "(stage_reason \<Rightarrow> string) \<Rightarrow> stage_result \<Rightarrow> pyval" where
  "stage_result_to_dict reason_text r = VMap ([(''name'', VStr (sr_name r)), (''kind'', VStr (sr_kind r)),
       (''required'', VBool (sr_required r)), (''status'', VStr (stage_status_value (sr_status r))),
       (''attempts'', VInt (sr_attempts r))]
     @ (if reason_text (sr_reason r) = [] then [] else [(''reason'', VStr (reason_text (sr_reason r)))])
     @ (if sr_schedule r = [] then [] else [(''schedule'', VList (map VStr (sr_schedule r)))])
     @ (if sr_observations r = [] then [] else [(''public_observations'', VList (sr_observations r))])
     @ (if sr_evidence r = [] then [] else [(''path_evidence'', VList (sr_evidence r))])
     @ (if sr_missing r = [] then [] else [(''missing_interfaces'', VList (map VStr (sr_missing r)))])
     @ (if sr_path r = [] then [] else [(''witness_path'', VStr (sr_path r))]))"

definition stage_type :: "stage_spec \<Rightarrow> string \<Rightarrow> string res" where
  "stage_type st k = or_raise (map_of (rs_types st) k) PyKeyError"

section \<open>Schedules\<close>

definition dynamic_ops :: "exec_graph \<Rightarrow> memory_op list" where
  "dynamic_ops g = filter (\<lambda>m. mo_kind m \<noteq> INIT_WRITE) (map snd (eg_operations g))"

definition init_ids :: "exec_graph \<Rightarrow> string list" where
  "init_ids g = map mo_id (filter (\<lambda>m. mo_kind m = INIT_WRITE) (map snd (eg_operations g)))"

definition preferred_edges :: "exec_graph \<Rightarrow> edge list" where
  "preferred_edges g = remdups (concat (map (\<lambda>n. case map_of (eg_relations g) n of
       None \<Rightarrow> []
     | Some r \<Rightarrow> filter (\<lambda>(a, b). a \<notin> set (init_ids g) \<and> b \<notin> set (init_ids g)) (rel_edges r)) [''rf'', ''co'', ''fr'']))"

text \<open>\<open>positions[op_id]\<close>; both ends of a preferred edge are operations of the graph, so they are in the order.\<close>

definition order_position :: "string list \<Rightarrow> string \<Rightarrow> nat" where
  "order_position order i = length (takeWhile (\<lambda>x. x \<noteq> i) order)"

definition order_violations :: "edge list \<Rightarrow> string list \<Rightarrow> nat" where
  "order_violations es order = length (filter (\<lambda>(a, b). order_position order b \<le> order_position order a) es)"

definition candidate_schedules :: "exec_graph \<Rightarrow> int \<Rightarrow> string list list" where
  "candidate_schedules g limit =
     take (nat limit) (sort_key (\<lambda>order. (order_violations (preferred_edges g) order, order))
       (permutations (sort (map mo_id (dynamic_ops g)))))"

section \<open>Python dictionaries keyed by values\<close>

fun pydict_set :: "(pyval \<times> 'v) list \<Rightarrow> pyval \<Rightarrow> 'v \<Rightarrow> (pyval \<times> 'v) list" where
  "pydict_set [] k v = [(k, v)]"
| "pydict_set ((a, w) # d) k v = (if py_eq a k then (a, v) # d else (a, w) # pydict_set d k v)"

fun pydict_get :: "(pyval \<times> 'v) list \<Rightarrow> pyval \<Rightarrow> 'v option" where
  "pydict_get [] k = None"
| "pydict_get ((a, w) # d) k = (if py_eq a k then Some w else pydict_get d k)"

section \<open>The public input\<close>

definition number_or_none :: "int option \<Rightarrow> pyval" where
  "number_or_none i = (case i of Some i \<Rightarrow> VInt i | None \<Rightarrow> VNone)"

definition coherence_line :: "stage_spec \<Rightarrow> nat \<times> memory_op \<Rightarrow> event_instance res" where
  "coherence_line st im = (case im of (i, m) \<Rightarrow>
     rbind (stage_type st ''line_init'') (\<lambda>t.
       new_event (''search_line_'' @ dec_nat i @ ''_'' @ mo_id m) t
         [(''line_id'', VStr (py_str (mo_address m))), (''address'', mo_address m), (''value'', mo_value m),
          (''version'', VInt 0), (''source_op_id'', VStr (mo_id m))] 0))"

definition indexed_inits :: "exec_graph \<Rightarrow> (nat \<times> memory_op) list" where
  "indexed_inits g = filter (\<lambda>(i, m). mo_kind m = INIT_WRITE)
     (let ms = sort_key mo_id (map snd (eg_operations g)) in zip [0..<length ms] ms)"

definition coherence_lines :: "stage_spec \<Rightarrow> exec_graph \<Rightarrow> ((pyval \<times> memory_op) list \<times> event_instance list) res" where
  "coherence_lines st g =
     fold_res (\<lambda>(d, es) (i, m).
       rbind (require (hashable (mo_address m)) PyTypeError) (\<lambda>_.
       rbind (coherence_line st (i, m)) (\<lambda>e. Inr (pydict_set d (mo_address m) m, es @ [e])))) ([], []) (indexed_inits g)"

definition initial_value_at :: "(pyval \<times> memory_op) list \<Rightarrow> memory_op \<Rightarrow> memory_op res" where
  "initial_value_at inits m =
     rbind (require (hashable (mo_address m)) PyTypeError) (\<lambda>_. or_raise (pydict_get inits (mo_address m)) SearchError)"

definition coherence_access :: "stage_spec \<Rightarrow> exec_graph \<Rightarrow> (pyval \<times> memory_op) list \<Rightarrow> nat \<times> string \<times> string \<Rightarrow> event_instance res" where
  "coherence_access st g inits x = (case x of (i, previous, op) \<Rightarrow>
     rbind (or_raise (map_of (eg_operations g) op) PyKeyError) (\<lambda>m.
     rbind (initial_value_at inits m) (\<lambda>init.
     rbind (if mo_kind m = WRITE then stored_value m else Inr (mo_value init)) (\<lambda>w.
     rbind (stage_type st ''access'') (\<lambda>t.
       new_event (''search_access_'' @ dec_nat i @ ''_'' @ op) t
         [(''op_id'', VStr (mo_id m)), (''hart'', number_or_none (mo_hart m)),
          (''program_index'', number_or_none (mo_index m)), (''line_id'', VStr (py_str (mo_address m))),
          (''address'', mo_address m), (''mem_kind'', VStr (if is_read m then ''load'' else ''store'')),
          (''write_value'', w), (''after_op_id'', VStr previous)] (rs_start st + int i * rs_stride st))))))"

text \<open>\<open>previous\<close> is the operation before in the schedule, \<open>"NONE"\<close> for the first.\<close>

definition scheduled :: "string list \<Rightarrow> (nat \<times> string \<times> string) list" where
  "scheduled schedule = zip [0..<length schedule] (zip (''NONE'' # schedule) schedule)"

definition coherence_input_trace :: "stage_spec \<Rightarrow> exec_graph \<Rightarrow> string list \<Rightarrow> trace res" where
  "coherence_input_trace st g schedule =
     rbind (coherence_lines st g) (\<lambda>(inits, lines).
     rbind (traverse (coherence_access st g inits) (scheduled schedule)) (\<lambda>accesses.
       mk_trace \<lparr>tr_events = lines @ accesses, tr_constraints = [], tr_partial = True,
         tr_metadata = [(''generated_by'', VStr ''umcm.search.coherence_access''), (''schedule'', str_list schedule),
           (''input_contract'', VStr (''public line/access requests only; no hit, miss, probe, grant, ''
              @ ''MSHR, queue index, or result event is supplied''))],
         tr_version = TRACE_SCHEMA_VERSION\<rparr>))"

section \<open>Interfaces\<close>

definition validate_adapter_surface :: "event_catalog \<Rightarrow> stage_spec \<Rightarrow> unit res" where
  "validate_adapter_surface c st =
     rbind (traverse (stage_type st) ([''line_init'', ''access''] @
       (if rs_kind st = ''boom_end_to_end'' then [''init_write'', ''memory_instruction'', ''page_map''] else []))) (\<lambda>generated.
     rbind (require (set generated \<subseteq> set (rs_inputs st)) SearchError) (\<lambda>_.
     rbind (traverse (\<lambda>t. rbind (resolve c t) (\<lambda>d. require (et_visibility d \<noteq> INTERNAL) SearchError))
       (rs_inputs st @ map snd (rs_types st))) (\<lambda>_. Inr ())))"

definition output_types :: "composition_result \<Rightarrow> string list" where
  "output_types r = concat (map (\<lambda>l. map po_type (filter (\<lambda>p. po_direction p = OUTPUT) (mo_ports (lm_spec l)))) (co_modules r))"

definition validate_public_outputs :: "composition_result \<Rightarrow> stage_spec \<Rightarrow> unit res" where
  "validate_public_outputs r st =
     rbind (traverse (stage_type st) ([''load_result'', ''store_result''] @
       (if rs_kind st = ''boom_end_to_end'' then [''arch_load'', ''arch_store'', ''commit_read''] else []))) (\<lambda>ts.
     let needed = ts @ (if rs_kind st = ''boom_end_to_end'' then [''Core.MemoryComplete''] else []) in
     require (set needed \<subseteq> set (output_types r)) SearchError)"

definition observation_key :: "event_instance \<Rightarrow> int \<times> string" where
  "observation_key e = (case as_int (ei_cycle e) of Some i \<Rightarrow> i | None \<Rightarrow> 10 ^ 18, ei_id e)"

definition public_observations :: "trace \<Rightarrow> string list \<Rightarrow> pyval list" where
  "public_observations t types = map event_to_dict (sort_key observation_key
     (filter (\<lambda>e. ei_type e \<in> set types \<and> ei_occurs e = VBool True) (tr_events t)))"

section \<open>Obligations\<close>

definition field_equals :: "event_type \<Rightarrow> event_instance \<Rightarrow> string \<times> pyval \<Rightarrow> expr res" where
  "field_equals schema e fv = (case fv of (f, v) \<Rightarrow>
     rbind (or_raise (map_of (field_map schema) f) SearchError) (\<lambda>s.
     rbind (mk_literal v (Some (fs_sort s))) (\<lambda>l.
       Inr (Binary ''eq'' (EventField (ei_id e) f (fs_sort s)) l))))"

definition matching_event :: "event_type \<Rightarrow> (string \<times> pyval) list \<Rightarrow> event_instance \<Rightarrow> expr res" where
  "matching_event schema expected e =
     rbind (traverse (field_equals schema e) expected) (\<lambda>es.
       Inr (conjunction (EventField (ei_id e) ''occurs'' BOOL_SORT # es)))"

definition matching_public_event :: "bounded_problem \<Rightarrow> string \<Rightarrow> (string \<times> pyval) list \<Rightarrow> expr res" where
  "matching_public_event p t expected =
     rbind (resolve (bp_catalog p) t) (\<lambda>schema.
     rbind (traverse (matching_event schema expected) (filter (\<lambda>e. ei_type e = t) (bp_events p))) (\<lambda>alternatives.
     rbind (require (alternatives \<noteq> []) SearchError) (\<lambda>_. Inr (disjunction alternatives))))"

definition coherence_obligation :: "bounded_problem \<Rightarrow> stage_spec \<Rightarrow> (string \<times> string) list \<Rightarrow> memory_op \<Rightarrow> named_constraint res" where
  "coherence_obligation p st sources m =
     (if is_read m then
        rbind (stage_type st ''load_result'') (\<lambda>t.
        rbind (read_value m) (\<lambda>v.
        rbind (or_raise (map_of sources (mo_id m)) PyKeyError) (\<lambda>w.
        rbind (matching_public_event p t [(''op_id'', VStr (mo_id m)), (''address'', mo_address m), (''value'', v),
          (''source_op_id'', VStr w)]) (\<lambda>e.
          Inr \<lparr>nc_name = ''search.obligation.read_from.'' @ mo_id m @ ''.'' @ w, nc_expr = e,
            nc_origin = ''hierarchical-search:architectural-obligation''\<rparr>))))
      else
        rbind (stage_type st ''store_result'') (\<lambda>t.
        rbind (stored_value m) (\<lambda>v.
        rbind (matching_public_event p t [(''op_id'', VStr (mo_id m)), (''address'', mo_address m), (''value'', v),
          (''source_op_id'', VStr (mo_id m))]) (\<lambda>e.
          Inr \<lparr>nc_name = ''search.obligation.write_value.'' @ mo_id m, nc_expr = e,
            nc_origin = ''hierarchical-search:architectural-obligation''\<rparr>))))"

definition add_constraints :: "bounded_problem \<Rightarrow> named_constraint list \<Rightarrow> bounded_problem" where
  "add_constraints p ks = p\<lparr>bp_constraints := bp_constraints p @ ks\<rparr>"

definition add_coherence_obligations :: "bounded_problem \<Rightarrow> stage_spec \<Rightarrow> exec_graph \<Rightarrow> bounded_problem res" where
  "add_coherence_obligations p st g =
     rbind (source_table g) (\<lambda>sources.
     rbind (traverse (coherence_obligation p st sources) (dynamic_ops g)) (\<lambda>ks. Inr (add_constraints p ks)))"

section \<open>Searching for a schedule\<close>

definition load_composition :: "environment \<Rightarrow> search_spec \<Rightarrow> string \<Rightarrow> composition res" where
  "load_composition env s path =
     (let source = ev_real env (resolve_path (ev_real env) (ev_cwd env) s path) in
      rbind (load_data (ev_read env) source) (\<lambda>v.
      rbind (composition_from_dict v) (\<lambda>cp. Inr (cp\<lparr>cp_source := Some source\<rparr>))))"

definition compose_in :: "environment \<Rightarrow> event_catalog \<Rightarrow> composition \<Rightarrow> trace \<Rightarrow> composition_result res" where
  "compose_in env c cp t = compose_modules (ev_read env) (ev_real env) (ev_cwd env) c cp (Some t)"

definition complete_in :: "environment \<Rightarrow> bool \<Rightarrow> bounded_problem \<Rightarrow> completion_result res" where
  "complete_in env minimize p = complete_problem (ev_fuel env) (ev_z3 env) (ev_backend env) (ev_limit env) minimize p"

definition coherence_attempt :: "environment \<Rightarrow> stage_spec \<Rightarrow> exec_graph \<Rightarrow> event_catalog \<Rightarrow> composition \<Rightarrow> string list \<Rightarrow>
    completion_result res" where
  "coherence_attempt env st g c cp schedule =
     rbind (coherence_input_trace st g schedule) (\<lambda>t.
     rbind (validate_trace c None t) (\<lambda>_.
     rbind (compose_in env c cp t) (\<lambda>composed.
     rbind (validate_public_outputs composed st) (\<lambda>_.
     rbind (build_problem c t (co_completion composed)) (\<lambda>p.
     rbind (add_coherence_obligations p st g) (\<lambda>p.
       complete_in env True p))))))"

definition stage_outcome :: "stage_spec \<Rightarrow> stage_status \<Rightarrow> stage_reason \<Rightarrow> int \<Rightarrow> stage_result" where
  "stage_outcome st status reason attempts = \<lparr>sr_name = rs_name st, sr_kind = rs_kind st, sr_required = rs_required st,
     sr_status = status, sr_reason = reason, sr_attempts = attempts, sr_schedule = [], sr_observations = [],
     sr_evidence = [], sr_missing = [], sr_witness = None, sr_path = []\<rparr>"

text \<open>
  The loop over the schedules. A feasible result carries its completed trace: the code asserts it.
\<close>

fun try_schedules :: "environment \<Rightarrow> stage_spec \<Rightarrow> exec_graph \<Rightarrow> event_catalog \<Rightarrow> composition \<Rightarrow> string list list \<Rightarrow> int \<Rightarrow>
    stage_reason \<Rightarrow> bool \<Rightarrow> stage_result res" where
  "try_schedules env st g c cp [] attempts reason unknown =
     Inr (stage_outcome st (if unknown then StageUnknown else Unrealizable) reason attempts)"
| "try_schedules env st g c cp (schedule # rest) attempts reason unknown =
     rbind (coherence_attempt env st g c cp schedule) (\<lambda>solved.
       if cr_status solved = Feasible then
         rbind (or_raise (cr_trace solved) PyAssertionError) (\<lambda>t.
         rbind (stage_type st ''load_result'') (\<lambda>lt.
         rbind (stage_type st ''store_result'') (\<lambda>stt.
           Inr ((stage_outcome st Realizable Realized (attempts + 1))\<lparr>sr_schedule := schedule,
             sr_observations := public_observations t (rs_inputs st @ [lt, stt]), sr_witness := Some t\<rparr>))))
       else try_schedules env st g c cp rest (attempts + 1) (Unsolved (cr_status solved) (cr_reason solved))
         (unknown \<or> cr_status solved = CompletionUnknown))"

definition realize_coherence :: "environment \<Rightarrow> search_spec \<Rightarrow> stage_spec \<Rightarrow> skeleton \<Rightarrow> stage_result res" where
  "realize_coherence env s st sk =
     rbind (or_raise (rs_catalog st) PyAssertionError) (\<lambda>cpath.
     rbind (or_raise (rs_composition st) PyAssertionError) (\<lambda>mpath.
     rbind (load_catalog env s cpath) (\<lambda>c.
     rbind (load_composition env s mpath) (\<lambda>cp.
     rbind (validate_adapter_surface c st) (\<lambda>_.
       try_schedules env st (sk_graph sk) c cp (candidate_schedules (sk_graph sk) (rs_schedules st)) 0 NothingTried False)))))"

end
