(* ===== verification/Boom.thy ===== *)
theory Boom
  imports Realize
begin

text \<open>
  The second layer of \<open>src/src/umcm/search/engine.py\<close> for a \<open>boom_end_to_end\<close> stage: the finite initial
  states, the input trace, the constraints that close the coherence child and the core, and the search
  over schedules and initial states, in which a child is solved, retimed and passed on to the core.
\<close>

section \<open>Initial states\<close>

record boom_config =
  bc_h0 :: string
  bc_h1 :: string
  bc_l2 :: string
  bc_owner :: int
  bc_tlb :: "(int \<times> bool) list"

definition used_harts :: "memory_op list \<Rightarrow> int list" where
  "used_harts ms = sort (remdups (List.map_filter mo_hart ms))"

definition line_state :: "int \<Rightarrow> (int \<times> bool) list \<Rightarrow> boom_config" where
  "line_state h tlb = \<lparr>bc_h0 = (if h = 0 then ''B'' else ''N''), bc_h1 = (if h = 1 then ''B'' else ''N''),
     bc_l2 = ''BRANCH'', bc_owner = -1, bc_tlb = tlb\<rparr>"

definition cold_state :: "(int \<times> bool) list \<Rightarrow> boom_config" where
  "cold_state tlb = \<lparr>bc_h0 = ''N'', bc_h1 = ''N'', bc_l2 = ''INVALID'', bc_owner = -1, bc_tlb = tlb\<rparr>"

definition preferred_harts :: "exec_graph \<Rightarrow> int list" where
  "preferred_harts g =
     (let used = used_harts (dynamic_ops g); loads = used_harts (filter is_read (dynamic_ops g)) in
      if loads \<noteq> [] then loads else if used \<noteq> [] then used else [0])"

definition tlb_states :: "exec_graph \<Rightarrow> (int \<times> bool) list list" where
  "tlb_states g = (let used = used_harts (dynamic_ops g) in
     map (\<lambda>delayed. map (\<lambda>h. (h, h \<noteq> delayed)) used) (preferred_harts g) @ [map (\<lambda>h. (h, True)) used])"

definition initial_configurations :: "exec_graph \<Rightarrow> boom_config list" where
  "initial_configurations g =
     concat (map (\<lambda>line. map line (tlb_states g)) (map line_state (preferred_harts g) @ [cold_state]))"

text \<open>The dictionary from harts to flags is keyed by numbers; a mapping of the model is keyed by their texts.\<close>

definition config_to_dict :: "boom_config \<Rightarrow> pyval" where
  "config_to_dict k = VMap [(''h0_perm'', VStr (bc_h0 k)), (''h1_perm'', VStr (bc_h1 k)), (''l2_state'', VStr (bc_l2 k)),
     (''owner'', VInt (bc_owner k)), (''tlb_initial_valid_by_hart'', VMap (map (\<lambda>(h, b). (dec_int h, VBool b)) (bc_tlb k)))]"

section \<open>The input\<close>

record boom_tables =
  bt_inits :: "(pyval \<times> memory_op) list"
  bt_indexes :: "(pyval \<times> nat) list"
  bt_events :: "event_instance list"

definition boom_init :: "stage_spec \<Rightarrow> boom_config \<Rightarrow> boom_tables \<Rightarrow> nat \<times> memory_op \<Rightarrow> boom_tables res" where
  "boom_init st k d im = (case im of (i, m) \<Rightarrow>
     rbind (require (hashable (mo_address m)) PyTypeError) (\<lambda>_.
     rbind (stage_type st ''init_write'') (\<lambda>t.
     rbind (new_event (''blind_arch_init_'' @ dec_nat i @ ''_'' @ mo_id m) t
       [(''op_id'', VStr (mo_id m)), (''address'', mo_address m), (''value'', mo_value m)] 0) (\<lambda>e1.
     rbind (stage_type st ''line_init'') (\<lambda>t.
     rbind (new_event (''blind_line_'' @ dec_nat i @ ''_'' @ mo_id m) t
       [(''line_id'', VStr (py_str (mo_address m))), (''address'', mo_address m), (''value'', mo_value m),
        (''version'', VInt 0), (''source_op_id'', VStr (mo_id m)), (''h0_perm'', VStr (bc_h0 k)),
        (''h1_perm'', VStr (bc_h1 k)), (''l2_state'', VStr (bc_l2 k)), (''owner'', VInt (bc_owner k))] 0) (\<lambda>e2.
       Inr \<lparr>bt_inits = pydict_set (bt_inits d) (mo_address m) m,
         bt_indexes = pydict_set (bt_indexes d) (mo_address m) (length (bt_indexes d)),
         bt_events = bt_events d @ [e1, e2]\<rparr>))))))"

definition at_address :: "(pyval \<times> 'v) list \<Rightarrow> pyval \<Rightarrow> 'v res" where
  "at_address d a = rbind (require (hashable a) PyTypeError) (\<lambda>_. or_raise (pydict_get d a) PyKeyError)"

text \<open>\<open>operation.read_value if operation.is_read else initial.value\<close> and the value written, the other way round.\<close>

definition value_of_read :: "memory_op \<Rightarrow> memory_op \<Rightarrow> pyval res" where
  "value_of_read init m = (if is_read m then read_value m else Inr (mo_value init))"

definition value_of_write :: "memory_op \<Rightarrow> memory_op \<Rightarrow> pyval res" where
  "value_of_write init m = (if is_read m then Inr (mo_value init) else stored_value m)"

definition mem_kind :: "memory_op \<Rightarrow> pyval" where
  "mem_kind m = VStr (if is_read m then ''load'' else ''store'')"

definition boom_instruction :: "stage_spec \<Rightarrow> boom_tables \<Rightarrow> nat \<times> memory_op \<Rightarrow> event_instance res" where
  "boom_instruction st d im = (case im of (i, m) \<Rightarrow>
     rbind (at_address (bt_inits d) (mo_address m)) (\<lambda>init.
     rbind (at_address (bt_indexes d) (mo_address m)) (\<lambda>k.
     rbind (stage_type st ''memory_instruction'') (\<lambda>t.
     rbind (value_of_read init m) (\<lambda>v.
     rbind (value_of_write init m) (\<lambda>w.
       new_event (''blind_instruction_'' @ dec_nat i @ ''_'' @ mo_id m) t
         [(''op_id'', VStr (mo_id m)), (''hart'', number_or_none (mo_hart m)),
          (''program_index'', number_or_none (mo_index m)), (''rob_idx'', VInt (int i)), (''mem_kind'', mem_kind m),
          (''vaddr'', mo_address m), (''address'', mo_address m), (''vpn'', VInt (int k)), (''value'', v),
          (''write_value'', w), (''byte_mask'', VInt 255), (''cacheable'', VBool True), (''io_id'', VInt (-1)),
          (''reservation_id'', VStr ''NONE''), (''uses_tlb'', VBool True), (''execution_class'', VStr ''ordinary'')]
         (int i + 1)))))))"

text \<open>An operation that is not an initial write has a hart and a program index (\<^const>\<open>mk_operation\<close>).\<close>

definition number :: "int option \<Rightarrow> int" where
  "number i = (case i of Some n \<Rightarrow> n | None \<Rightarrow> 0)"

definition program_sorted :: "memory_op list \<Rightarrow> memory_op list" where
  "program_sorted ms = sort_key (\<lambda>m. (number (mo_hart m), number (mo_index m), mo_id m)) ms"

text \<open>
  The set of pairs of a hart and an address, sorted by hart and text. Two addresses of one hart with the
  same text keep the order of their operations here; the order of the set is not specified.
\<close>

fun new_keys :: "(int \<times> pyval) list \<Rightarrow> (int \<times> pyval) list \<Rightarrow> (int \<times> pyval) list" where
  "new_keys seen [] = []"
| "new_keys seen ((h, a) # ks) =
     (if list_ex (\<lambda>(h', a'). h' = h \<and> py_eq a' a) seen then new_keys seen ks else (h, a) # new_keys ((h, a) # seen) ks)"

definition page_keys :: "memory_op list \<Rightarrow> (int \<times> pyval) list" where
  "page_keys ms = sort_key (\<lambda>(h, a). (h, py_str a)) (new_keys [] (map (\<lambda>m. (number (mo_hart m), mo_address m)) ms))"

definition boom_page :: "stage_spec \<Rightarrow> boom_config \<Rightarrow> boom_tables \<Rightarrow> nat \<times> int \<times> pyval \<Rightarrow> event_instance res" where
  "boom_page st k d x = (case x of (i, h, a) \<Rightarrow>
     rbind (at_address (bt_indexes d) a) (\<lambda>n.
     rbind (stage_type st ''page_map'') (\<lambda>t.
       new_event (''blind_page_'' @ dec_nat i @ ''_h'' @ dec_int h @ ''_'' @ py_str a) t
         [(''map_id'', VStr (''MapH'' @ dec_int h @ ''A'' @ dec_nat n)), (''hart'', VInt h),
          (''entry_id'', VStr (''h'' @ dec_int h @ ''_a'' @ dec_nat n)), (''vpn'', VInt (int n)), (''paddr'', a),
          (''initial_valid'', VBool (case map_of (bc_tlb k) h of None \<Rightarrow> True | Some b \<Rightarrow> b)),
          (''accessible'', VBool True)] 0)))"

definition boom_access :: "stage_spec \<Rightarrow> exec_graph \<Rightarrow> boom_tables \<Rightarrow> nat \<times> string \<times> string \<Rightarrow> event_instance res" where
  "boom_access st g d x = (case x of (i, previous, op) \<Rightarrow>
     rbind (or_raise (map_of (eg_operations g) op) PyKeyError) (\<lambda>m.
     rbind (at_address (bt_inits d) (mo_address m)) (\<lambda>init.
     rbind (stage_type st ''access'') (\<lambda>t.
     rbind (value_of_write init m) (\<lambda>w.
       new_event (''blind_access_'' @ dec_nat i @ ''_'' @ op) t
         [(''op_id'', VStr (mo_id m)), (''hart'', number_or_none (mo_hart m)),
          (''program_index'', number_or_none (mo_index m)), (''line_id'', VStr (py_str (mo_address m))),
          (''address'', mo_address m), (''mem_kind'', mem_kind m), (''write_value'', w),
          (''after_op_id'', VStr previous)] (rs_start st + int i * rs_stride st))))))"

definition enumerated :: "'a list \<Rightarrow> (nat \<times> 'a) list" where
  "enumerated xs = zip [0..<length xs] xs"

definition boom_input_trace :: "stage_spec \<Rightarrow> exec_graph \<Rightarrow> string list \<Rightarrow> boom_config \<Rightarrow> trace res" where
  "boom_input_trace st g schedule k =
     (let dynamic = program_sorted (dynamic_ops g) in
      rbind (fold_res (boom_init st k) \<lparr>bt_inits = [], bt_indexes = [], bt_events = []\<rparr> (indexed_inits g)) (\<lambda>d.
      rbind (traverse (boom_instruction st d) (enumerated dynamic)) (\<lambda>instructions.
      rbind (require (list_all (\<lambda>m. hashable (mo_address m)) dynamic) PyTypeError) (\<lambda>_.
      rbind (traverse (boom_page st k d) (enumerated (page_keys dynamic))) (\<lambda>pages.
      rbind (traverse (boom_access st g d) (scheduled schedule)) (\<lambda>accesses.
        mk_trace \<lparr>tr_events = bt_events d @ instructions @ pages @ accesses, tr_constraints = [], tr_partial = True,
          tr_metadata = [(''generated_by'', VStr ''umcm.search.blind_v021''), (''schedule'', str_list schedule),
            (''finite_initial_state'', config_to_dict k),
            (''input_contract'', VStr (''bounds-derived public instructions/configuration/accesses only; ''
               @ ''no dynamic TLB/cache/MSHR/probe/result event is supplied''))],
          tr_version = TRACE_SCHEMA_VERSION\<rparr>))))))"

end
