(* ===== verification/BoomProblem.thy ===== *)
theory BoomProblem
  imports Boom
begin

text \<open>
  The constraints that a \<open>boom_end_to_end\<close> stage adds to the problems of its children
  (\<open>src/src/umcm/search/engine.py\<close>): retired operations, public protocol traffic only with a refill, recovery
  events only with an input, one TLB miss per entry, miss-handling activity only for refills, and monitor
  evidence only for a real pair of an older and a younger operation.
\<close>

section \<open>Expressions over events\<close>

definition occurring :: "event_instance \<Rightarrow> expr" where
  "occurring e = EventField (ei_id e) ''occurs'' BOOL_SORT"

definition field_ref :: "event_type \<Rightarrow> event_instance \<Rightarrow> string \<Rightarrow> expr res" where
  "field_ref schema e f =
     rbind (or_raise (map_of (field_map schema) f) PyKeyError) (\<lambda>s. Inr (EventField (ei_id e) f (fs_sort s)))"

definition compare_fields :: "string \<Rightarrow> event_type \<Rightarrow> event_instance \<Rightarrow> string \<Rightarrow> event_type \<Rightarrow> event_instance \<Rightarrow> string \<Rightarrow> expr res" where
  "compare_fields op s1 e1 f1 s2 e2 f2 =
     rbind (field_ref s1 e1 f1) (\<lambda>a. rbind (field_ref s2 e2 f2) (\<lambda>b. mk_binary op a b))"

definition field_is :: "event_type \<Rightarrow> event_instance \<Rightarrow> string \<Rightarrow> pyval \<Rightarrow> expr res" where
  "field_is schema e f v =
     rbind (or_raise (map_of (field_map schema) f) PyKeyError) (\<lambda>s.
     rbind (mk_literal v (Some (fs_sort s))) (\<lambda>l. mk_binary ''eq'' (EventField (ei_id e) f (fs_sort s)) l))"

definition events_of :: "bounded_problem \<Rightarrow> string list \<Rightarrow> event_instance list" where
  "events_of p ts = filter (\<lambda>e. ei_type e \<in> set ts) (bp_events p)"

definition only_if :: "string \<Rightarrow> string \<Rightarrow> event_instance \<Rightarrow> expr \<Rightarrow> named_constraint" where
  "only_if label origin e x =
     \<lparr>nc_name = label @ ei_id e, nc_expr = Binary ''implies'' (occurring e) x, nc_origin = origin\<rparr>"

text \<open>A result event that took the refill path for the operation in the field \<open>f\<close> of \<open>e\<close>.\<close>

definition refill_of :: "bounded_problem \<Rightarrow> event_type \<Rightarrow> event_instance \<Rightarrow> string \<Rightarrow> event_instance \<Rightarrow> expr res" where
  "refill_of p schema e f r =
     rbind (resolve (bp_catalog p) (ei_type r)) (\<lambda>rs.
     rbind (compare_fields ''eq'' schema e f rs r ''op_id'') (\<lambda>same.
     rbind (field_is rs r ''path'' (VStr ''refill'')) (\<lambda>refill.
       Inr (conjunction [occurring r, same, refill]))))"

definition needs_refill :: "bounded_problem \<Rightarrow> string \<Rightarrow> string \<Rightarrow> string \<Rightarrow> event_instance list \<Rightarrow> event_type \<Rightarrow> event_instance \<Rightarrow>
    named_constraint res" where
  "needs_refill p label origin f results schema e =
     rbind (traverse (refill_of p schema e f) results) (\<lambda>xs. Inr (only_if label origin e (disjunction xs)))"

section \<open>Retired operations\<close>

definition retired_operation :: "bounded_problem \<Rightarrow> stage_spec \<Rightarrow> memory_op \<Rightarrow> expr res" where
  "retired_operation p st m =
     (let base = [(''op_id'', VStr (mo_id m)), (''hart'', number_or_none (mo_hart m)),
        (''program_index'', number_or_none (mo_index m)), (''address'', mo_address m)] in
      if is_read m then
        rbind (stage_type st ''arch_load'') (\<lambda>t.
        rbind (matching_public_event p t base) (\<lambda>arch.
        rbind (stage_type st ''commit_read'') (\<lambda>t.
        rbind (read_value m) (\<lambda>v.
        rbind (matching_public_event p t [(''op_id'', VStr (mo_id m)), (''value'', v)]) (\<lambda>commit.
          Inr (conjunction [arch, commit]))))))
      else
        rbind (stage_type st ''arch_store'') (\<lambda>t.
        rbind (stored_value m) (\<lambda>v.
          matching_public_event p t (base @ [(''value'', v)]))))"

definition add_retirement_obligations :: "bounded_problem \<Rightarrow> stage_spec \<Rightarrow> exec_graph \<Rightarrow> bounded_problem res" where
  "add_retirement_obligations p st g =
     rbind (traverse (\<lambda>m. rbind (retired_operation p st m) (\<lambda>x.
       Inr \<lparr>nc_name = ''search.retirement.'' @ mo_id m, nc_expr = x,
         nc_origin = ''hierarchical-search:retired-architectural-obligation''\<rparr>)) (dynamic_ops g)) (\<lambda>ks.
       Inr (add_constraints p ks))"

section \<open>Public protocol\<close>

definition protocol_origin :: string where
  "protocol_origin = ''hierarchical-search:public-protocol-well-formedness''"

definition transaction_refills :: "bounded_problem \<Rightarrow> event_instance list \<Rightarrow> string \<Rightarrow> named_constraint list res" where
  "transaction_refills p results t =
     rbind (resolve (bp_catalog p) t) (\<lambda>schema.
       traverse (needs_refill p ''search.protocol.transaction_requires_refill.'' protocol_origin ''txn_id'' results schema)
         (events_of p [t]))"

definition no_self_probes :: "bounded_problem \<Rightarrow> named_constraint list res" where
  "no_self_probes p =
     rbind (resolve (bp_catalog p) ''TL.Probe'') (\<lambda>schema.
       traverse (\<lambda>e. rbind (compare_fields ''ne'' schema e ''requester_hart'' schema e ''target_hart'') (\<lambda>x.
         Inr (only_if ''search.protocol.no_self_probe.'' protocol_origin e x))) (events_of p [''TL.Probe'']))"

definition add_protocol_constraints :: "bounded_problem \<Rightarrow> stage_spec \<Rightarrow> bounded_problem res" where
  "add_protocol_constraints p st =
     rbind (stage_type st ''load_result'') (\<lambda>lt.
     rbind (stage_type st ''store_result'') (\<lambda>stt.
     rbind (traverse (transaction_refills p (events_of p [lt, stt])) [''TL.Acquire'', ''TL.Probe'', ''TL.Grant'']) (\<lambda>kss.
     rbind (no_self_probes p) (\<lambda>ks.
       Inr (add_constraints p (concat kss @ ks))))))"

section \<open>The core\<close>

definition absent_event :: "event_instance \<Rightarrow> named_constraint" where
  "absent_event e = \<lparr>nc_name = ''search.core.no_unsourced_recovery.'' @ ei_id e,
     nc_expr = Binary ''eq'' (occurring e) (Literal (SBool False) BOOL_SORT),
     nc_origin = ''hierarchical-search:ordinary-program-well-formedness''\<rparr>"

definition recovery_types :: "string list" where
  "recovery_types = [''Core.MemoryFault'', ''ROB.ExceptionRecord'', ''ROB.PreciseException'', ''Core.SquashMemory'',
     ''Core.BranchKill'']"

definition refill_only_types :: "string list" where
  "refill_only_types = [''DCache.MSHRRequest'', ''MSHR.PrimaryMissAccept'', ''MSHR.AcquireBlock'', ''MSHR.GrantData'',
     ''MSHR.RefillComplete'', ''DCache.LongLatencyLoadResponse'']"

definition monitor_types :: "string list" where
  "monitor_types = [''LSU.LDLDConflict'', ''LSU.AssertViolation'']"

definition distinct_entries :: "string \<Rightarrow> event_type \<Rightarrow> event_instance \<times> event_instance \<Rightarrow> named_constraint res" where
  "distinct_entries t schema lr = (case lr of (l, r) \<Rightarrow>
     rbind (compare_fields ''ne'' schema l ''hart'' schema r ''hart'') (\<lambda>a.
     rbind (compare_fields ''ne'' schema l ''vpn'' schema r ''vpn'') (\<lambda>b.
       Inr \<lparr>nc_name = ''search.core.one_'' @ t @ ''.'' @ ei_id l @ ''.'' @ ei_id r,
         nc_expr = Binary ''implies'' (conjunction [occurring l, occurring r]) (disjunction [a, b]),
         nc_origin = ''hierarchical-search:finite-resource-cardinality''\<rparr>)))"

definition one_per_entry :: "bounded_problem \<Rightarrow> string \<Rightarrow> named_constraint list res" where
  "one_per_entry p t =
     rbind (resolve (bp_catalog p) t) (\<lambda>schema. traverse (distinct_entries t schema) (ordered_pairs (events_of p [t])))"

definition refill_sources :: "bounded_problem \<Rightarrow> named_constraint list res" where
  "refill_sources p =
     traverse (\<lambda>e. rbind (resolve (bp_catalog p) (ei_type e)) (\<lambda>schema.
       needs_refill p ''search.core.refill_sources_mshr.'' ''hierarchical-search:cacheable-path-well-formedness'' ''op_id''
         (events_of p [''Coherence.LoadResult'']) schema e))
       (events_of p refill_only_types)"

definition real_pair :: "event_type \<Rightarrow> event_instance \<Rightarrow> event_type \<Rightarrow> event_instance \<times> event_instance \<Rightarrow> expr res" where
  "real_pair schema e is oy = (case oy of (older, younger) \<Rightarrow>
     rbind (compare_fields ''eq'' schema e ''older_op_id'' is older ''op_id'') (\<lambda>a.
     rbind (compare_fields ''eq'' schema e ''younger_op_id'' is younger ''op_id'') (\<lambda>b.
     rbind (compare_fields ''eq'' is older ''hart'' is younger ''hart'') (\<lambda>c.
     rbind (compare_fields ''eq'' is older ''address'' is younger ''address'') (\<lambda>d.
     rbind (compare_fields ''lt'' is older ''program_index'' is younger ''program_index'') (\<lambda>f.
       Inr (conjunction [occurring older, occurring younger, a, b, c, d, f])))))))"

definition real_ldld_pairs :: "bounded_problem \<Rightarrow> named_constraint list res" where
  "real_ldld_pairs p =
     rbind (resolve (bp_catalog p) ''Core.MemoryInstruction'') (\<lambda>is.
       traverse (\<lambda>e. rbind (resolve (bp_catalog p) (ei_type e)) (\<lambda>schema.
         rbind (traverse (real_pair schema e is)
           (List.product (events_of p [''Core.MemoryInstruction'']) (events_of p [''Core.MemoryInstruction'']))) (\<lambda>xs.
           Inr (only_if ''search.core.real_ldld_pair.'' ''hierarchical-search:lsq-monitor-well-formedness'' e (disjunction xs)))))
         (events_of p monitor_types))"

definition add_core_constraints :: "bounded_problem \<Rightarrow> bounded_problem res" where
  "add_core_constraints p =
     rbind (traverse (one_per_entry p) [''TLB.Miss'', ''TLB.Retry'']) (\<lambda>ones.
     rbind (refill_sources p) (\<lambda>refills.
     rbind (real_ldld_pairs p) (\<lambda>pairs.
       Inr (add_constraints p (map absent_event (events_of p recovery_types) @ concat ones @ refills @ pairs)))))"

section \<open>Traces passed between the children\<close>

definition coherence_child_input :: "trace \<Rightarrow> trace res" where
  "coherence_child_input t = mk_trace \<lparr>
     tr_events = filter (\<lambda>e. ei_type e \<in> {''Coherence.LineInit'', ''Coherence.Access''}) (tr_events t),
     tr_constraints = [], tr_partial = True,
     tr_metadata = dict_update (tr_metadata t) [(''hierarchical_child'', VStr ''coherence'')],
     tr_version = TRACE_SCHEMA_VERSION\<rparr>"

definition retimed_cycle :: "int \<Rightarrow> pyval \<Rightarrow> pyval" where
  "retimed_cycle offset v = (case as_int v of Some i \<Rightarrow> if 0 < i then VInt (i + offset) else v | None \<Rightarrow> v)"

definition retime_event :: "int \<Rightarrow> event_instance \<Rightarrow> event_instance res" where
  "retime_event offset e = mk_event_instance \<lparr>ei_id = ei_id e, ei_type = ei_type e, ei_fields = ei_fields e,
     ei_cycle = retimed_cycle offset (ei_cycle e), ei_occurs = ei_occurs e, ei_annotations = ei_annotations e\<rparr>"

definition retime_trace :: "trace \<Rightarrow> int \<Rightarrow> trace res" where
  "retime_trace t offset =
     rbind (traverse (retime_event offset) (tr_events t)) (\<lambda>es.
       mk_trace \<lparr>tr_events = es, tr_constraints = [], tr_partial = tr_partial t,
         tr_metadata = dict_update (tr_metadata t) [(''hierarchical_cycle_offset'', VInt offset)],
         tr_version = TRACE_SCHEMA_VERSION\<rparr>)"

definition bridge_types :: "string list" where
  "bridge_types = [''Coherence.Access'', ''Coherence.LoadResult'', ''Coherence.StorePerformed'', ''TL.Acquire'', ''TL.Grant'',
     ''TL.Probe'']"

definition core_input_from_coherence :: "trace \<Rightarrow> trace \<Rightarrow> trace res" where
  "core_input_from_coherence source coherence =
     (let events = filter (\<lambda>e. ei_type e \<in> {''Arch.InitWrite'', ''Core.MemoryInstruction'', ''Core.PageMap''}) (tr_events source);
        known = set (map ei_id events) in
      mk_trace \<lparr>
        tr_events = events @ filter (\<lambda>e. ei_type e \<in> set bridge_types \<and> ei_occurs e = VBool True \<and> ei_id e \<notin> known)
          (tr_events coherence),
        tr_constraints = [], tr_partial = True,
        tr_metadata = dict_update (tr_metadata source) [(''derived_interface_events'', str_list bridge_types),
          (''interface_source'', VStr ''sifive-inclusive-coherence-v021'')],
        tr_version = TRACE_SCHEMA_VERSION\<rparr>)"

definition merge_event :: "(string \<times> event_instance) list \<Rightarrow> event_instance \<Rightarrow> (string \<times> event_instance) list res" where
  "merge_event d e =
     rbind (require (case map_of d (ei_id e) of
         None \<Rightarrow> True
       | Some q \<Rightarrow> ei_type q = ei_type e \<and> py_eq (VMap (ei_fields q)) (VMap (ei_fields e)) \<and> py_eq (ei_cycle q) (ei_cycle e))
       SearchError) (\<lambda>_. Inr (AList.update (ei_id e) e d))"

definition merge_completed_traces :: "trace list \<Rightarrow> trace res" where
  "merge_completed_traces ts =
     rbind (fold_res merge_event [] (concat (map tr_events ts))) (\<lambda>d.
       mk_trace \<lparr>tr_events = sort_key observation_key (map snd d), tr_constraints = [], tr_partial = False,
         tr_metadata = [(''generated_by'', VStr ''umcm.search.hierarchical_merge_v021''),
           (''child_witnesses'', VInt (int (length ts))),
           (''input_contract'', VStr ''all dynamic interface events originate in a solved child model'')],
         tr_version = TRACE_SCHEMA_VERSION\<rparr>)"

section \<open>Checks of the result\<close>

definition validate_boom_outputs :: "composition_result \<Rightarrow> composition_result \<Rightarrow> stage_spec \<Rightarrow> unit res" where
  "validate_boom_outputs coherence core st =
     rbind (traverse (stage_type st) [''load_result'', ''store_result'', ''arch_load'', ''arch_store'', ''commit_read'']) (\<lambda>ts.
       require (set (ts @ [''Core.MemoryComplete'']) \<subseteq> set (output_types coherence @ output_types core)) SearchError)"

definition retired_projection :: "search_spec \<Rightarrow> trace \<Rightarrow> trace res" where
  "retired_projection s t =
     (let m = sa_events (hs_arch s) in
      mk_trace \<lparr>tr_events = filter (\<lambda>e. ei_type e \<in> {en_init m, en_load m, en_store m, en_commit m}) (tr_events t),
        tr_constraints = [], tr_partial = False,
        tr_metadata = [(''generated_by'', VStr ''umcm.search.retired_projection'')],
        tr_version = TRACE_SCHEMA_VERSION\<rparr>)"

definition check_completed_architecture :: "environment \<Rightarrow> search_spec \<Rightarrow> trace \<Rightarrow> string res" where
  "check_completed_architecture env s t =
     rbind (retired_projection s t) (\<lambda>projected.
     rbind (load_graph_model env s (sa_model (hs_arch s))) (\<lambda>m.
     rbind (check_trace_memory_model projected m (sb_candidates (hs_bounds s))) (\<lambda>chk.
       Inr (model_status_value (mc_status chk)))))"

definition evidence_types :: "string list" where
  "evidence_types = [''TLB.Miss'', ''TLB.Retry'', ''Core.TranslatedMemory'', ''Coherence.LoadResult'',
     ''Coherence.StorePerformed'', ''DCache.LoadResponse'', ''DCache.LongLatencyLoadResponse'', ''DCache.ProbeRelease'',
     ''MSHR.PrimaryMissAccept'', ''MSHR.AcquireBlock'', ''MSHR.GrantData'', ''MSHR.RefillWrite'', ''TL.Acquire'',
     ''TL.Probe'', ''TL.Grant'', ''LSU.LoadObserved'', ''LSU.LDLDConflict'', ''LSU.AssertViolation'', ''ROB.Commit'']"

definition path_evidence :: "trace \<Rightarrow> pyval list" where
  "path_evidence t = public_observations t evidence_types"

end
