(* ===== verification/BoomRun.thy ===== *)
theory BoomRun
  imports BoomProblem
begin

text \<open>The search of a \<open>boom_end_to_end\<close> stage over schedules and initial states, and the whole search.\<close>

section \<open>One schedule and one initial state\<close>

record boom_models =
  bm_catalog :: event_catalog
  bm_coherence :: composition
  bm_core :: composition

definition coherence_child :: "environment \<Rightarrow> stage_spec \<Rightarrow> exec_graph \<Rightarrow> boom_models \<Rightarrow> trace \<Rightarrow>
    (composition_result \<times> completion_result) res" where
  "coherence_child env st g ms t =
     rbind (coherence_child_input t) (\<lambda>input.
     rbind (compose_in env (bm_catalog ms) (bm_coherence ms) input) (\<lambda>model.
     rbind (build_problem (bm_catalog ms) input (co_completion model)) (\<lambda>p.
     rbind (add_coherence_obligations p st g) (\<lambda>p.
     rbind (add_protocol_constraints p st) (\<lambda>p.
     rbind (complete_in env False p) (\<lambda>solved. Inr (model, solved)))))))"

definition core_child :: "environment \<Rightarrow> stage_spec \<Rightarrow> exec_graph \<Rightarrow> boom_models \<Rightarrow> composition_result \<Rightarrow> trace \<Rightarrow>
    completion_result res" where
  "core_child env st g ms coherence t =
     rbind (compose_in env (bm_catalog ms) (bm_core ms) t) (\<lambda>model.
     rbind (validate_boom_outputs coherence model st) (\<lambda>_.
     rbind (build_problem (bm_catalog ms) t (co_completion model)) (\<lambda>p.
     rbind (add_retirement_obligations p st g) (\<lambda>p.
     rbind (add_core_constraints p) (\<lambda>p. complete_in env False p)))))"

datatype attempt = Failed stage_reason bool | Completed trace

definition unsolved :: "completion_result \<Rightarrow> attempt" where
  "unsolved r = Failed (Unsolved (cr_status r) (cr_reason r)) (cr_status r = CompletionUnknown)"

definition finish_attempt :: "environment \<Rightarrow> search_spec \<Rightarrow> trace \<Rightarrow> trace \<Rightarrow> attempt res" where
  "finish_attempt env s coherence core =
     rbind (merge_completed_traces [coherence, core]) (\<lambda>completed.
     rbind (check_completed_architecture env s completed) (\<lambda>checked.
       Inr (if checked \<noteq> sa_target (hs_arch s) then Failed (Projected checked) False else Completed completed)))"

definition core_attempt :: "environment \<Rightarrow> search_spec \<Rightarrow> stage_spec \<Rightarrow> exec_graph \<Rightarrow> boom_models \<Rightarrow> trace \<Rightarrow>
    composition_result \<Rightarrow> completion_result \<Rightarrow> attempt res" where
  "core_attempt env s st g ms t model solved =
     rbind (or_raise (cr_trace solved) PyAssertionError) (\<lambda>child.
     rbind (retime_trace child 20) (\<lambda>coherence.
     rbind (core_input_from_coherence t coherence) (\<lambda>core_input.
     rbind (core_child env st g ms model core_input) (\<lambda>core.
       if cr_status core \<noteq> Feasible then Inr (unsolved core)
       else rbind (or_raise (cr_trace core) PyAssertionError) (\<lambda>u. finish_attempt env s coherence u)))))"

definition boom_attempt :: "environment \<Rightarrow> search_spec \<Rightarrow> stage_spec \<Rightarrow> exec_graph \<Rightarrow> boom_models \<Rightarrow> string list \<Rightarrow> boom_config \<Rightarrow>
    attempt res" where
  "boom_attempt env s st g ms schedule k =
     rbind (boom_input_trace st g schedule k) (\<lambda>t.
     rbind (validate_trace (bm_catalog ms) None t) (\<lambda>_.
       case coherence_child env st g ms t of
         Inl e \<Rightarrow> if e = CompositionError then Inr (Failed NotComposed False) else Inl e
       | Inr (model, solved) \<Rightarrow>
           if cr_status solved \<noteq> Feasible then Inr (unsolved solved) else core_attempt env s st g ms t model solved))"

section \<open>The stage\<close>

definition observed_types :: "stage_spec \<Rightarrow> string list" where
  "observed_types st = rs_inputs st @ map snd (rs_types st) @
     [''Core.TranslatedMemory'', ''Core.MemoryComplete'', ''ROB.Commit'', ''TL.Acquire'', ''TL.Probe'', ''TL.ProbeAck'',
      ''TL.Grant'', ''TL.GrantAck'', ''DCache.ProbeRelease'']"

fun try_boom :: "environment \<Rightarrow> search_spec \<Rightarrow> stage_spec \<Rightarrow> exec_graph \<Rightarrow> boom_models \<Rightarrow> (string list \<times> boom_config) list \<Rightarrow> int \<Rightarrow>
    stage_reason \<Rightarrow> bool \<Rightarrow> stage_result res" where
  "try_boom env s st g ms [] attempts reason unknown =
     Inr (stage_outcome st (if unknown then StageUnknown else Unrealizable) reason attempts)"
| "try_boom env s st g ms ((schedule, k) # rest) attempts reason unknown =
     rbind (boom_attempt env s st g ms schedule k) (\<lambda>a.
       case a of
         Completed t \<Rightarrow> Inr ((stage_outcome st Realizable Realized (attempts + 1))\<lparr>sr_schedule := schedule,
           sr_observations := public_observations t (observed_types st), sr_evidence := path_evidence t,
           sr_witness := Some t\<rparr>)
       | Failed r u \<Rightarrow> try_boom env s st g ms rest (attempts + 1) r (unknown \<or> u))"

definition load_boom_models :: "environment \<Rightarrow> search_spec \<Rightarrow> stage_spec \<Rightarrow> boom_models res" where
  "load_boom_models env s st =
     rbind (or_raise (rs_catalog st) PyAssertionError) (\<lambda>cpath.
     rbind (or_raise (rs_composition st) PyAssertionError) (\<lambda>mpath.
     rbind (load_catalog env s cpath) (\<lambda>c.
     rbind (load_composition env s mpath) (\<lambda>cp.
     rbind (or_raise (rs_core st) PyAssertionError) (\<lambda>kpath.
     rbind (load_composition env s kpath) (\<lambda>core.
       Inr \<lparr>bm_catalog = c, bm_coherence = cp, bm_core = core\<rparr>))))))"

definition realize_boom :: "environment \<Rightarrow> search_spec \<Rightarrow> stage_spec \<Rightarrow> skeleton \<Rightarrow> stage_result res" where
  "realize_boom env s st sk =
     rbind (load_boom_models env s st) (\<lambda>ms.
     rbind (validate_adapter_surface (bm_catalog ms) st) (\<lambda>_.
       try_boom env s st (sk_graph sk) ms
         (List.product (candidate_schedules (sk_graph sk) (rs_schedules st)) (initial_configurations (sk_graph sk)))
         0 NothingTried False))"

section \<open>Reports\<close>

datatype search_status = SearchWitness | SearchPartial | SearchBlocked | SearchUnrealizable | SearchNotFound

definition search_status_value :: "search_status \<Rightarrow> string" where
  "search_status_value s = (case s of SearchWitness \<Rightarrow> ''witness'' | SearchPartial \<Rightarrow> ''partial''
     | SearchBlocked \<Rightarrow> ''blocked'' | SearchUnrealizable \<Rightarrow> ''unrealizable'' | SearchNotFound \<Rightarrow> ''not_found'')"

record search_report =
  hr_name :: string
  hr_status :: search_status
  hr_skeleton :: "skeleton option"
  hr_stages :: "stage_result list"
  hr_examined :: int
  hr_rejected :: int
  hr_estimated :: int
  hr_exhausted :: bool
  hr_metadata :: "(string \<times> pyval) list"

definition end_to_end :: "search_report \<Rightarrow> bool" where
  "end_to_end r \<longleftrightarrow> hr_status r = SearchWitness"

definition search_report_to_dict :: "(stage_reason \<Rightarrow> string) \<Rightarrow> search_report \<Rightarrow> pyval" where
  "search_report_to_dict reason_text r = VMap [
     (''schema_version'', VStr ''umcm.search_report.v0.21.0''), (''name'', VStr (hr_name r)),
     (''status'', VStr (search_status_value (hr_status r))), (''end_to_end'', VBool (end_to_end r)),
     (''metadata'', VMap (hr_metadata r)),
     (''architecture'', VMap [(''assignments_examined'', VInt (hr_examined r)), (''assignments_rejected'', VInt (hr_rejected r)),
       (''estimated_assignments'', VInt (hr_estimated r)), (''exhausted'', VBool (hr_exhausted r)),
       (''skeleton'', case hr_skeleton r of None \<Rightarrow> VNone | Some sk \<Rightarrow> skeleton_to_dict sk)]),
     (''realization'', VMap [(''stages'', VList (map (stage_result_to_dict reason_text) (hr_stages r)))])]"

definition overall_status :: "stage_result list \<Rightarrow> search_status" where
  "overall_status stages =
     (let needed = filter sr_required stages in
      if needed = [] \<or> list_all (\<lambda>r. sr_status r = Realizable) needed then SearchWitness
      else if list_ex (\<lambda>r. sr_status r = Realizable) stages then SearchPartial
      else if list_ex (\<lambda>r. sr_status r = Blocked) needed then SearchBlocked
      else if list_ex (\<lambda>r. sr_status r = StageUnknown) needed then SearchPartial
      else SearchUnrealizable)"

definition gap_outcome :: "stage_spec \<Rightarrow> stage_result" where
  "gap_outcome st = (stage_outcome st Blocked (Declared (rs_reason st)) 0)\<lparr>sr_missing := rs_missing st\<rparr>"

definition realize_stage :: "environment \<Rightarrow> search_spec \<Rightarrow> skeleton \<Rightarrow> stage_spec \<Rightarrow> stage_result res" where
  "realize_stage env s sk st =
     (if rs_kind st = ''interface_gap'' then Inr (gap_outcome st)
      else if rs_kind st = ''boom_end_to_end'' then realize_boom env s st sk
      else realize_coherence env s st sk)"

section \<open>The search\<close>

definition report_of :: "search_spec \<Rightarrow> search_status \<Rightarrow> skeleton option \<Rightarrow> stage_result list \<Rightarrow> counters \<Rightarrow> bool \<Rightarrow>
    (string \<times> pyval) list \<Rightarrow> search_report" where
  "report_of s status sk stages ct exhausted md = \<lparr>hr_name = hs_name s, hr_status = status, hr_skeleton = sk,
     hr_stages = stages, hr_examined = ct_examined ct, hr_rejected = ct_rejected ct, hr_estimated = ct_estimated ct,
     hr_exhausted = exhausted, hr_metadata = md\<rparr>"

definition layered_search :: "environment \<Rightarrow> search_spec \<Rightarrow> search_report res" where
  "layered_search env s =
     rbind (search_architecture env s) (\<lambda>a.
       let ct = \<lparr>ct_examined = ao_examined a, ct_rejected = ao_rejected a, ct_estimated = ao_estimated a, ct_candidates = 0\<rparr> in
       case ao_skeleton a of
         None \<Rightarrow> Inr (report_of s SearchNotFound None [] ct (ao_exhausted a) (hs_metadata s))
       | Some sk \<Rightarrow> rbind (traverse (realize_stage env s sk) (hs_stages s)) (\<lambda>stages.
           Inr (report_of s (overall_status stages) (Some sk) stages ct (ao_exhausted a) (hs_metadata s))))"

text \<open>The loop over the candidates of the generator, with the last skeleton and its stages.\<close>

definition blind_metadata :: "search_spec \<Rightarrow> counters \<Rightarrow> (string \<times> pyval) list" where
  "blind_metadata s ct = dict_update (hs_metadata s) [(''architecture_candidates_realized'', VInt (ct_candidates ct))]"

lemma next_candidate_shorter:
  "next_candidate s c m todo ct = Inr (Some (sk, rest), ct') \<Longrightarrow> length rest < length todo"
  by (induction todo arbitrary: ct) (auto simp: rbind_Inr_iff verdict_Inr Let_def split: if_splits dest!: less_SucI)

function blind_loop :: "environment \<Rightarrow> search_spec \<Rightarrow> event_catalog \<Rightarrow> graph_model \<Rightarrow> raw_op list list \<Rightarrow> counters \<Rightarrow>
    skeleton option \<Rightarrow> stage_result list \<Rightarrow> search_report res" where
  "blind_loop env s c m todo ct previous stages =
     (case next_candidate s c m todo ct of
        Inl e \<Rightarrow> Inl e
      | Inr (None, ct) \<Rightarrow> Inr (report_of s SearchNotFound previous stages ct (ct_examined ct < sb_assignments (hs_bounds s))
          (blind_metadata s ct))
      | Inr (Some (sk, rest), ct) \<Rightarrow>
          (case traverse (realize_stage env s sk) (hs_stages s) of
             Inl e \<Rightarrow> Inl e
           | Inr stages \<Rightarrow>
               if overall_status stages = SearchWitness then
                 Inr (report_of s SearchWitness (Some sk) stages ct False (blind_metadata s ct))
               else blind_loop env s c m rest ct (Some sk) stages))"
  by pat_completeness auto
termination
  by (relation "measure (\<lambda>(env, s, c, m, todo, ct, previous, stages). length todo)") (auto dest: next_candidate_shorter)

declare blind_loop.simps [simp del]

definition blind_search :: "environment \<Rightarrow> search_spec \<Rightarrow> search_report res" where
  "blind_search env s =
     rbind (load_catalog env s (hs_catalog s)) (\<lambda>c.
     rbind (load_graph_model env s (sa_model (hs_arch s))) (\<lambda>m.
       blind_loop env s c m (bounded_programs (hs_bounds s)) (start_counters s) None []))"

definition run_hierarchical_search :: "environment \<Rightarrow> search_spec \<Rightarrow> search_report res" where
  "run_hierarchical_search env s =
     (if sa_generation (hs_arch s) = ''bounded'' \<and> list_ex (\<lambda>st. rs_kind st = ''boom_end_to_end'') (hs_stages s)
      then blind_search env s else layered_search env s)"

end
