(* ===== verification/RealizeFacts.thy ===== *)
theory RealizeFacts
  imports Realize ComposeFacts GraphBuilderFacts
begin

text \<open>
  What a realized \<open>coherence_access\<close> stage guarantees: the schedule is a permutation of the dynamic
  operations among the best ones, and its witness is a valid trace in which every read has a public
  result event with the value and the source write that the architectural execution gives it, and
  every write one with its value.
\<close>

section \<open>Schedules\<close>

lemma candidate_schedules_perm:
  "order \<in> set (candidate_schedules g limit) \<Longrightarrow> mset order = mset (map mo_id (dynamic_ops g))"
  by (auto simp: candidate_schedules_def set_permutations dest!: in_set_takeD)

lemma candidate_schedules_best:
  assumes "order \<in> set (candidate_schedules g limit)" and "mset other = mset (map mo_id (dynamic_ops g))"
    and "other \<notin> set (candidate_schedules g limit)"
  shows "order_violations (preferred_edges g) order \<le> order_violations (preferred_edges g) other"
proof -
  let ?key = "\<lambda>order. (order_violations (preferred_edges g) order, order)"
  let ?xs = "sort_key ?key (permutations (sort (map mo_id (dynamic_ops g))))"
  have "sorted (map ?key ?xs)" by (rule sorted_sort_key)
  then have le: "?key a \<le> ?key b" if "a \<in> set (take n ?xs)" "b \<in> set (drop n ?xs)" for a b n
    using that by (metis (no_types, lifting) append_take_drop_id image_eqI list.set_map map_append sorted_append)
  have "other \<in> set ?xs" using assms(2) by (simp add: set_permutations)
  moreover have "other \<notin> set (take (nat limit) ?xs)" using assms(3) by (simp add: candidate_schedules_def)
  ultimately have "other \<in> set (drop (nat limit) ?xs)" by (metis Un_iff append_take_drop_id set_append)
  then show ?thesis using le [of order "nat limit" other] assms(1) by (auto simp: candidate_schedules_def less_eq_prod_def)
qed

section \<open>True formulas\<close>

lemma holds_conjunctionD: "holds n c (conjunction es) \<Longrightarrow> e \<in> set es \<Longrightarrow> holds n c e"
proof -
  assume h: "holds n c (conjunction es)" and e: "e \<in> set es"
  show ?thesis
  proof (cases "length es = 1")
    case True
    then show ?thesis using h e by (cases es) (auto simp: conjunction_def)
  next
    case False
    then have "eval_at n c (Nary ''and'' es) = Inr (Some (VBool True))"
      using h e by (cases es) (auto simp: conjunction_def holds_def split: list.splits)
    then obtain vs where vs: "traverse (eval_at n c) es = Inr vs" and "list_all is_True vs"
      by (auto simp: rbind_Inr_iff eval_nary_def split: if_splits)
    then show ?thesis using traverse_Inr_memD [OF vs e] by (auto simp: list_all_iff is_True_def holds_def)
  qed
qed

lemma holds_disjunctionD: "holds n c (disjunction es) \<Longrightarrow> \<exists>e \<in> set es. holds n c e"
proof -
  assume h: "holds n c (disjunction es)"
  show ?thesis
  proof (cases "length es \<le> 1")
    case True
    then show ?thesis using h by (cases es) (auto simp: disjunction_def holds_def)
  next
    case False
    then have "eval_at n c (Nary ''or'' es) = Inr (Some (VBool True))"
      using h by (cases es) (auto simp: disjunction_def holds_def split: list.splits)
    then obtain vs where vs: "traverse (eval_at n c) es = Inr vs" and "list_ex is_True vs"
      by (auto simp: rbind_Inr_iff eval_nary_def split: if_splits)
    then obtain v where "v \<in> set vs" "v = Some (VBool True)" by (auto simp: list_ex_iff is_True_def)
    then show ?thesis using traverse_Inr_imageD [OF vs] by (auto simp: holds_def)
  qed
qed

lemma holds_field_equals:
  assumes "field_equals schema e (f, v) = Inr x" and "holds n c x"
  shows "\<exists>w s. eval_at n c (EventField (ei_id e) f s) = Inr (Some w) \<and> py_eq w v"
proof -
  obtain s l where x: "x = Binary ''eq'' (EventField (ei_id e) f s) l" and l: "mk_literal v (Some s) = Inr l"
    using assms(1) by (auto simp: field_equals_def rbind_Inr_iff)
  then obtain k where k: "v = VScalar k" "l = Literal k s" by (auto simp: mk_literal_Inr_iff)
  have eq: "rbind r (\<lambda>y. rbind (Inr (Some (VScalar k))) (\<lambda>z. eval_binary ''eq'' y z)) = Inr (Some (VBool True)) \<longleftrightarrow>
      (\<exists>w. r = Inr (Some w) \<and> py_eq w (VScalar k))" for r
    by (cases r) (auto simp: eval_binary_def eval_strict_def split: option.splits)
  have "\<exists>w. eval_at n c (EventField (ei_id e) f s) = Inr (Some w) \<and> py_eq w (VScalar k)"
    using assms(2) unfolding holds_def x k(2) eval_at.simps(5) eval_at.simps(1) eq .
  then show ?thesis using k(1) by blast
qed

section \<open>From a solved problem to its trace\<close>

lemma build_problem_ids:
  assumes "build_problem c t s = Inr p" "distinct (map sl_id (cs_slots s))"
  shows "distinct (map ei_id (bp_events p))"
proof -
  obtain observed slots where vt: "validate_trace c None t = Inr ()" and vs: "validate_spec c t s = Inr ()"
    and o: "traverse (materialize_partial_event c) (tr_events t) = Inr observed"
    and sl: "traverse (materialize_slot c) (cs_slots s) = Inr slots" and ev: "bp_events p = observed @ slots"
    by (rule build_problem_cases [OF assms(1)])
  have "map ei_id observed = map ei_id (tr_events t)"
    by (rule traverse_same_ids [OF o]) (auto simp: materialize_partial_event_def rbind_Inr_iff mk_event_instance_Inr_iff)
  moreover have "map ei_id slots = map sl_id (cs_slots s)"
    by (rule traverse_same_ids [OF sl]) (auto simp: materialize_slot_def rbind_Inr_iff mk_event_instance_Inr_iff Let_def)
  moreover have "distinct (map ei_id (tr_events t))"
    using vt by (auto simp: validate_trace_def rbind_Inr_iff validate_structure_Inr)
  moreover have "set (map ei_id (tr_events t)) \<inter> set (map sl_id (cs_slots s)) = {}"
    using vs by (auto simp: validate_spec_def rbind_Inr_iff require_Inr_iff)
  ultimately show ?thesis using assms(2) by (simp add: ev)
qed

text \<open>A completed event has the values its problem event evaluates to.\<close>

definition shows_event :: "trace \<Rightarrow> string \<Rightarrow> (string \<times> pyval) list \<Rightarrow> bool" where
  "shows_event t ty expected \<longleftrightarrow> (\<exists>e \<in> set (tr_events t). ei_type e = ty \<and> ei_occurs e = VBool True \<and>
     (\<forall>(f, v) \<in> set expected. \<exists>w. map_of (ei_fields e) f = Some w \<and> py_eq w v))"

lemma eval_field_concrete:
  assumes "eval_at n c (EventField i f s) = Inr (Some w)" and "map_of (ctx_events c) i = Some e"
    and "stored_attribute e f = Some u"
  shows "evaluates_to n c u w"
proof -
  have r: "(case u of VExpr x \<Rightarrow> (case n of 0 \<Rightarrow> Inl PyRecursionError | Suc m \<Rightarrow> eval_at m c x) | _ \<Rightarrow> Inr (Some u)) = Inr (Some w)"
    using assms by (simp add: event_attribute_def or_raise_def)
  show ?thesis
  proof (cases "\<exists>x. u = VExpr x")
    case True
    then obtain x m where x: "u = VExpr x" "n = Suc m" "eval_at m c x = Inr (Some w)" using r by (auto split: nat.splits)
    then have "eval_at n c x = Inr (Some w)" using eval_at_fuel [of m c x n] by simp
    then show ?thesis by (simp add: evaluates_to_def concrete_value_def x(1))
  next
    case False
    then show ?thesis using r by (cases u) (auto simp: evaluates_to_def concrete_value_def)
  qed
qed

lemma map_of_list_all2:
  "list_all2 (\<lambda>(k, v) (k', w). k' = k \<and> P v w) xs ys \<Longrightarrow> map_of xs k = Some v \<Longrightarrow> \<exists>w. map_of ys k = Some w \<and> P v w"
proof (induction rule: list_all2_induct)
  case (Cons x xs y ys)
  then show ?case by (cases x; cases y) (auto split: if_splits)
qed simp

text \<open>The events of a problem with distinct ids under an assignment, and the event completed from one.\<close>

lemma problem_event:
  assumes "distinct (map ei_id (bp_events p))" "e \<in> set (bp_events p)"
  shows "map_of (ctx_events (problem_context p f)) (ei_id e) = Some e"
proof -
  have "dict_of (map (\<lambda>e. (ei_id e, e)) (bp_events p)) = map (\<lambda>e. (ei_id e, e)) (bp_events p)"
    using assms(1) by (rule dict_of_map_fst)
  then show ?thesis using assms by (simp add: problem_context_def problem_event_map_def map_of_eq_Some_iff o_def)
qed

lemma completed_member:
  assumes d: "distinct (map ei_id (bp_events p))" and comp: "completes n p a ys" and e: "e \<in> set (bp_events p)"
    and h: "holds n (problem_context p (map_of a)) (EventField (ei_id e) ''occurs'' BOOL_SORT)"
  shows "\<exists>y \<in> set ys. completed_event n (problem_context p (map_of a)) e y"
proof -
  let ?c = "problem_context p (map_of a)"
  have occ: "evaluates_to n ?c (ei_occurs e) (VBool True)"
    using h unfolding holds_def by (rule eval_field_concrete [OF _ problem_event [OF d e]]) (simp add: stored_attribute_def)
  have "\<exists>y \<in> set ys. completed_event n ?c z y" if "list_all2 (completed_event n ?c) zs ys" "z \<in> set zs" for zs ys z
    using that by (induction rule: list_all2_induct) auto
  moreover have "list_all2 (completed_event n ?c)
      (filter (\<lambda>e. evaluates_to n ?c (ei_occurs e) (VBool True)) (bp_events p)) ys"
    using comp unfolding completes_def by (rule conjunct2)
  moreover have "e \<in> set (filter (\<lambda>e. evaluates_to n ?c (ei_occurs e) (VBool True)) (bp_events p))" using e occ by simp
  ultimately show ?thesis by blast
qed

lemma completed_field:
  assumes d: "distinct (map ei_id (bp_events p))" and e: "e \<in> set (bp_events p)"
    and y: "completed_event n (problem_context p (map_of a)) e y"
    and w: "eval_at n (problem_context p (map_of a)) (EventField (ei_id e) f s) = Inr (Some w)"
    and f: "f \<noteq> ''occurs'' \<and> f \<noteq> ''cycle''"
  shows "map_of (ei_fields y) f = Some w"
proof -
  let ?c = "problem_context p (map_of a)"
  note look = problem_event [OF d e, of "map_of a"]
  obtain u where u: "stored_attribute e f = Some u"
    using w look by (cases "stored_attribute e f") (auto simp: event_attribute_def or_raise_def)
  have ev: "evaluates_to n ?c u w" by (rule eval_field_concrete [OF w look u])
  have "map_of (ei_fields e) f = Some u" using u f by (auto simp: stored_attribute_def)
  moreover have "list_all2 (\<lambda>(k, v) (k', w). k' = k \<and> evaluates_to n ?c v w) (ei_fields e) (ei_fields y)"
    using y unfolding completed_event_def by (elim conjE)
  ultimately obtain w' where "map_of (ei_fields y) f = Some w'" "evaluates_to n ?c u w'"
    using map_of_list_all2 [of "evaluates_to n ?c" "ei_fields e" "ei_fields y" f u] by auto
  then show ?thesis using ev by (simp add: evaluates_to_def)
qed

lemma matching_event_shown:
  assumes d: "distinct (map ei_id (bp_events p))" and comp: "completes n p a (tr_events t)"
    and e: "e \<in> set (bp_events p)" "ei_type e = ty"
    and m: "matching_event schema expected e = Inr x" "holds n (problem_context p (map_of a)) x"
    and f: "\<forall>(f, v) \<in> set expected. f \<noteq> ''occurs'' \<and> f \<noteq> ''cycle''"
  shows "shows_event t ty expected"
proof -
  let ?c = "problem_context p (map_of a)"
  obtain es where es: "traverse (field_equals schema e) expected = Inr es"
    and x: "x = conjunction (EventField (ei_id e) ''occurs'' BOOL_SORT # es)"
    using m(1) by (auto simp: matching_event_def rbind_Inr_iff)
  have "holds n ?c (EventField (ei_id e) ''occurs'' BOOL_SORT)" using holds_conjunctionD m(2) x by simp
  then obtain y where y: "y \<in> set (tr_events t)" "completed_event n ?c e y" using completed_member [OF d comp e(1)] by blast
  have "\<exists>w. map_of (ei_fields y) f = Some w \<and> py_eq w v" if fv: "(f, v) \<in> set expected" for f v
  proof -
    obtain q where q: "q \<in> set es" "field_equals schema e (f, v) = Inr q" using traverse_Inr_memD [OF es fv] by blast
    then have "holds n ?c q" using holds_conjunctionD m(2) x by simp
    then obtain w s where w: "eval_at n ?c (EventField (ei_id e) f s) = Inr (Some w)" "py_eq w v"
      using holds_field_equals q(2) by blast
    then show ?thesis using completed_field [OF d e(1) y(2) w(1)] f fv by auto
  qed
  then show ?thesis using y e(2) by (auto simp: shows_event_def completed_event_def)
qed

lemma matching_public_shown:
  assumes d: "distinct (map ei_id (bp_events p))" and comp: "completes n p a (tr_events t)"
    and m: "matching_public_event p ty expected = Inr x" "holds n (problem_context p (map_of a)) x"
    and f: "\<forall>(f, v) \<in> set expected. f \<noteq> ''occurs'' \<and> f \<noteq> ''cycle''"
  shows "shows_event t ty expected"
proof -
  obtain schema xs where xs: "traverse (matching_event schema expected) (filter (\<lambda>e. ei_type e = ty) (bp_events p)) = Inr xs"
    and x: "x = disjunction xs" using m(1) by (auto simp: matching_public_event_def rbind_Inr_iff)
  obtain q where q: "q \<in> set xs" "holds n (problem_context p (map_of a)) q" using holds_disjunctionD m(2) x by blast
  obtain e where "e \<in> set (bp_events p)" "ei_type e = ty" "matching_event schema expected e = Inr q"
    using traverse_Inr_imageD [OF xs q(1)] by auto
  then show ?thesis using matching_event_shown [OF d comp _ _ _ q(2) f] by blast
qed

section \<open>The stage\<close>

text \<open>What the public events of a trace have to show of an execution.\<close>

definition realizes_graph :: "stage_spec \<Rightarrow> exec_graph \<Rightarrow> trace \<Rightarrow> bool" where
  "realizes_graph st g t \<longleftrightarrow> (\<forall>m \<in> set (dynamic_ops g).
     if is_read m
     then \<exists>lt w. map_of (rs_types st) ''load_result'' = Some lt \<and> (w, mo_id m) \<in> edges_of g ''rf'' \<and>
       shows_event t lt [(''op_id'', VStr (mo_id m)), (''address'', mo_address m), (''value'', mo_value m), (''source_op_id'', VStr w)]
     else \<exists>ty v. map_of (rs_types st) ''store_result'' = Some ty \<and> stored_value m = Inr v \<and>
       shows_event t ty [(''op_id'', VStr (mo_id m)), (''address'', mo_address m), (''value'', v), (''source_op_id'', VStr (mo_id m))])"

lemma obligations_realized:
  assumes p: "build_problem c tr sp = Inr p" "distinct (map sl_id (cs_slots sp))"
    and add: "add_coherence_obligations p st g = Inr q" and ss: "single_sources g"
    and sol: "\<forall>k \<in> set (bp_constraints q). holds n (problem_context q (map_of a)) (nc_expr k)"
    and comp: "completes n q a (tr_events t)"
  shows "realizes_graph st g t"
proof -
  obtain sources ks where s: "source_table g = Inr sources"
    and ks: "traverse (coherence_obligation p st sources) (dynamic_ops g) = Inr ks" and q: "q = add_constraints p ks"
    using add by (auto simp: add_coherence_obligations_def rbind_Inr_iff)
  have d: "distinct (map ei_id (bp_events p))" by (rule build_problem_ids [OF p])
  have ctx: "problem_context q f = problem_context p f" for f
    by (simp add: q add_constraints_def problem_context_def problem_event_map_def)
  have comp': "completes n p a (tr_events t)"
    using comp by (simp add: completes_def ctx) (simp add: q add_constraints_def)
  have "k \<in> set (bp_constraints q)" if "k \<in> set ks" for k using that by (simp add: q add_constraints_def)
  then have all: "holds n (problem_context p (map_of a)) (nc_expr k)" if "k \<in> set ks" for k
    using sol that by (simp flip: ctx)
  show ?thesis unfolding realizes_graph_def
  proof
    fix m assume m: "m \<in> set (dynamic_ops g)"
    obtain k where k: "k \<in> set ks" "coherence_obligation p st sources m = Inr k" using traverse_Inr_memD [OF ks m] by blast
    show "if is_read m
     then \<exists>lt w. map_of (rs_types st) ''load_result'' = Some lt \<and> (w, mo_id m) \<in> edges_of g ''rf'' \<and>
       shows_event t lt [(''op_id'', VStr (mo_id m)), (''address'', mo_address m), (''value'', mo_value m), (''source_op_id'', VStr w)]
     else \<exists>ty v. map_of (rs_types st) ''store_result'' = Some ty \<and> stored_value m = Inr v \<and>
       shows_event t ty [(''op_id'', VStr (mo_id m)), (''address'', mo_address m), (''value'', v), (''source_op_id'', VStr (mo_id m))]"
    proof (cases "is_read m")
      case True
      then obtain lt w where h: "map_of (rs_types st) ''load_result'' = Some lt" "map_of sources (mo_id m) = Some w"
        "matching_public_event p lt [(''op_id'', VStr (mo_id m)), (''address'', mo_address m), (''value'', mo_value m),
          (''source_op_id'', VStr w)] = Inr (nc_expr k)"
        using k(2) by (auto simp: coherence_obligation_def stage_type_def rbind_Inr_iff or_raise_Inr_iff read_value_def)
      then show ?thesis using True source_table_lookup [OF s ss] matching_public_shown [OF d comp' h(3) all [OF k(1)]] by auto
    next
      case False
      then obtain ty v where h: "map_of (rs_types st) ''store_result'' = Some ty" "stored_value m = Inr v"
        "matching_public_event p ty [(''op_id'', VStr (mo_id m)), (''address'', mo_address m), (''value'', v),
          (''source_op_id'', VStr (mo_id m))] = Inr (nc_expr k)"
        using k(2) by (auto simp: coherence_obligation_def stage_type_def rbind_Inr_iff or_raise_Inr_iff)
      then show ?thesis using False matching_public_shown [OF d comp' h(3) all [OF k(1)]] by auto
    qed
  qed
qed

lemma add_coherence_catalog: "add_coherence_obligations p st g = Inr q \<Longrightarrow> bp_catalog q = bp_catalog p"
  by (auto simp: add_coherence_obligations_def add_constraints_def rbind_Inr_iff)

lemma coherence_attempt_sound:
  assumes a: "coherence_attempt env st g c cp schedule = Inr solved" and f: "cr_status solved = Feasible"
    and b: "py_lower (ev_backend env) \<noteq> ''z3''" and ss: "single_sources g"
  shows "\<exists>t. cr_trace solved = Some t \<and> validate_trace c (Some False) t = Inr () \<and> realizes_graph st g t"
proof -
  obtain tr composed p q where cm: "compose_in env c cp tr = Inr composed"
    and p: "build_problem c tr (co_completion composed) = Inr p" and q: "add_coherence_obligations p st g = Inr q"
    and s: "complete_in env True q = Inr solved"
    using a by (auto simp: coherence_attempt_def rbind_Inr_iff)
  have ids: "distinct (map sl_id (cs_slots (co_completion composed)))"
    using cm by (auto simp: compose_in_def compose_modules_def rbind_Inr_iff Let_def mk_completion_spec_Inr)
  have "bp_catalog p = c" by (rule build_problem_cases [OF p])
  moreover obtain t where "solution (ev_fuel env) q (cr_assignment solved)" "cr_trace solved = Some t"
    "completes (ev_fuel env) q (cr_assignment solved) (tr_events t)" "validate_trace (bp_catalog q) (Some False) t = Inr ()"
    using complete_problem_finite [OF s [unfolded complete_in_def] f b] by blast
  ultimately show ?thesis using obligations_realized [OF p ids q ss] add_coherence_catalog [OF q] by (auto simp: solution_def)
qed

lemma try_schedules_realized:
  assumes "try_schedules env st g c cp scheds k reason unknown = Inr r" and "sr_status r = Realizable"
  obtains schedule solved where "schedule \<in> set scheds" "sr_schedule r = schedule"
    "coherence_attempt env st g c cp schedule = Inr solved" "cr_status solved = Feasible" "sr_witness r = cr_trace solved"
  using assms
proof (induction scheds arbitrary: k reason unknown thesis)
  case Nil
  then show ?case by (auto simp: stage_outcome_def split: if_splits)
next
  case (Cons x xs)
  obtain solved where s: "coherence_attempt env st g c cp x = Inr solved" using Cons.prems(2) by (auto simp: rbind_Inr_iff)
  show ?case
  proof (cases "cr_status solved = Feasible")
    case True
    then obtain t lt stt where "cr_trace solved = Some t" and r: "r = (stage_outcome st Realizable Realized (k + 1))\<lparr>sr_schedule := x,
             sr_observations := public_observations t (rs_inputs st @ [lt, stt]), sr_witness := Some t\<rparr>"
      using Cons.prems(2) s by (auto simp: rbind_Inr_iff or_raise_Inr_iff)
    then show ?thesis using Cons.prems(1) [of x solved] s True by simp
  next
    case False
    then have "try_schedules env st g c cp xs (k + 1) (Unsolved (cr_status solved) (cr_reason solved))
         (unknown \<or> cr_status solved = CompletionUnknown) = Inr r" using Cons.prems(2) s by simp
    then show ?thesis using Cons.IH Cons.prems(1,3) by (metis list.set_intros(2))
  qed
qed

lemma realize_coherence_sound:
  assumes r: "realize_coherence env s st sk = Inr r" and f: "sr_status r = Realizable"
    and b: "py_lower (ev_backend env) \<noteq> ''z3''" and ss: "single_sources (sk_graph sk)"
  shows "\<exists>c t. rbind (or_raise (rs_catalog st) PyAssertionError) (load_catalog env s) = Inr c \<and> sr_witness r = Some t \<and>
    sr_schedule r \<in> set (candidate_schedules (sk_graph sk) (rs_schedules st)) \<and>
    validate_trace c (Some False) t = Inr () \<and> realizes_graph st (sk_graph sk) t"
proof -
  obtain cpath mpath c cp where c: "rs_catalog st = Some cpath" "load_catalog env s cpath = Inr c"
    and t: "try_schedules env st (sk_graph sk) c cp (candidate_schedules (sk_graph sk) (rs_schedules st)) 0 NothingTried False = Inr r"
    using r by (auto simp: realize_coherence_def rbind_Inr_iff or_raise_Inr_iff)
  obtain schedule solved where "schedule \<in> set (candidate_schedules (sk_graph sk) (rs_schedules st))" "sr_schedule r = schedule"
    "coherence_attempt env st (sk_graph sk) c cp schedule = Inr solved" "cr_status solved = Feasible" "sr_witness r = cr_trace solved"
    by (rule try_schedules_realized [OF t f])
  then show ?thesis using coherence_attempt_sound [OF _ _ b ss] c by auto
qed

end
