(* ===== verification/BoomFacts.thy ===== *)
theory BoomFacts
  imports BoomRun RealizeFacts
begin

text \<open>
  What a realized \<open>boom_end_to_end\<close> stage guarantees, and what the report of the whole search means.
\<close>

section \<open>What the added constraints say of a completed trace\<close>

definition fields_agree :: "event_instance \<Rightarrow> string \<Rightarrow> event_instance \<Rightarrow> string \<Rightarrow> bool" where
  "fields_agree y f z h \<longleftrightarrow> (\<exists>u v. map_of (ei_fields y) f = Some u \<and> map_of (ei_fields z) h = Some v \<and> py_eq u v)"

definition fields_differ :: "event_instance \<Rightarrow> string \<Rightarrow> event_instance \<Rightarrow> string \<Rightarrow> bool" where
  "fields_differ y f z h \<longleftrightarrow> (\<exists>u v. map_of (ei_fields y) f = Some u \<and> map_of (ei_fields z) h = Some v \<and> \<not> py_eq u v)"

definition field_less :: "event_instance \<Rightarrow> string \<Rightarrow> event_instance \<Rightarrow> string \<Rightarrow> bool" where
  "field_less y f z h \<longleftrightarrow> (\<exists>u v. map_of (ei_fields y) f = Some u \<and> map_of (ei_fields z) h = Some v \<and> py_lt u v = Inr True)"

lemma holds_binaryD:
  assumes "holds n c (Binary op a b)" "op \<in> {''eq'', ''ne'', ''lt''}"
  shows "\<exists>u v. eval_at n c a = Inr (Some u) \<and> eval_at n c b = Inr (Some v) \<and>
    (op = ''eq'' \<longrightarrow> py_eq u v) \<and> (op = ''ne'' \<longrightarrow> \<not> py_eq u v) \<and> (op = ''lt'' \<longrightarrow> py_lt u v = Inr True)"
proof -
  have eq: "rbind r (\<lambda>y. rbind q (\<lambda>z. eval_binary op y z)) = Inr (Some (VBool True)) \<longleftrightarrow>
      (\<exists>u v. r = Inr (Some u) \<and> q = Inr (Some v) \<and> eval_strict op u v = Inr (VBool True))" for r q
    using assms(2) by (cases r; cases q) (auto simp: eval_binary_def rbind_Inr_iff split: option.splits)
  obtain u v where e: "eval_at n c a = Inr (Some u)" "eval_at n c b = Inr (Some v)" "eval_strict op u v = Inr (VBool True)"
    using assms(1) unfolding holds_def eval_at.simps(5) eq by blast
  then show ?thesis by (auto simp: eval_strict_def rbind_Inr_iff Let_def)
qed

lemma holds_impliesD: "holds n c (Binary ''implies'' a b) \<Longrightarrow> holds n c a \<Longrightarrow> holds n c b"
  by (auto simp: holds_def rbind_Inr_iff eval_binary_def is_True_def is_False_def split: if_splits)

lemma field_ref_Inr: "field_ref schema e f = Inr x \<Longrightarrow> \<exists>s. x = EventField (ei_id e) f s"
  by (auto simp: field_ref_def rbind_Inr_iff)

lemma compare_shown:
  assumes d: "distinct (map ei_id (bp_events p))"
    and c: "compare_fields op s1 e1 f1 s2 e2 f2 = Inr x" "holds n (problem_context p (map_of a)) x" "op \<in> {''eq'', ''ne'', ''lt''}"
    and e: "e1 \<in> set (bp_events p)" "e2 \<in> set (bp_events p)"
    and y: "completed_event n (problem_context p (map_of a)) e1 y1" "completed_event n (problem_context p (map_of a)) e2 y2"
    and f: "f1 \<noteq> ''occurs'' \<and> f1 \<noteq> ''cycle''" "f2 \<noteq> ''occurs'' \<and> f2 \<noteq> ''cycle''"
  shows "op = ''eq'' \<Longrightarrow> fields_agree y1 f1 y2 f2" "op = ''ne'' \<Longrightarrow> fields_differ y1 f1 y2 f2"
    "op = ''lt'' \<Longrightarrow> field_less y1 f1 y2 f2"
proof -
  obtain s t where x: "x = Binary op (EventField (ei_id e1) f1 s) (EventField (ei_id e2) f2 t)"
    using c(1) by (auto simp: compare_fields_def rbind_Inr_iff mk_binary_def dest!: field_ref_Inr split: if_splits)
  obtain u v where uv: "eval_at n (problem_context p (map_of a)) (EventField (ei_id e1) f1 s) = Inr (Some u)"
    "eval_at n (problem_context p (map_of a)) (EventField (ei_id e2) f2 t) = Inr (Some v)"
    "op = ''eq'' \<longrightarrow> py_eq u v" "op = ''ne'' \<longrightarrow> \<not> py_eq u v" "op = ''lt'' \<longrightarrow> py_lt u v = Inr True"
    using holds_binaryD [OF c(2) [unfolded x] c(3)] by blast
  have m: "map_of (ei_fields y1) f1 = Some u" "map_of (ei_fields y2) f2 = Some v"
    by (rule completed_field [OF d e(1) y(1) uv(1) f(1)], rule completed_field [OF d e(2) y(2) uv(2) f(2)])
  show "op = ''eq'' \<Longrightarrow> fields_agree y1 f1 y2 f2" using m uv(3) by (auto simp: fields_agree_def)
  show "op = ''ne'' \<Longrightarrow> fields_differ y1 f1 y2 f2" using m uv(4) by (auto simp: fields_differ_def)
  show "op = ''lt'' \<Longrightarrow> field_less y1 f1 y2 f2" using m uv(5) by (auto simp: field_less_def)
qed

lemma completed_origin:
  assumes "completes n p a ys" "y \<in> set ys"
  obtains e where "e \<in> set (bp_events p)" "completed_event n (problem_context p (map_of a)) e y"
    "evaluates_to n (problem_context p (map_of a)) (ei_occurs e) (VBool True)"
proof -
  let ?c = "problem_context p (map_of a)"
  have "\<exists>z \<in> set zs. completed_event n ?c z y" if "list_all2 (completed_event n ?c) zs ys" "y \<in> set ys" for zs ys y
    using that by (induction rule: list_all2_induct) auto
  then obtain e where e: "e \<in> set (filter (\<lambda>e. evaluates_to n ?c (ei_occurs e) (VBool True)) (bp_events p))"
    "completed_event n ?c e y" using assms unfolding completes_def by blast
  show thesis by (rule that [OF _ e(2)]) (use e(1) in simp_all)
qed

lemma occurring_next:
  assumes d: "distinct (map ei_id (bp_events p))" and e: "e \<in> set (bp_events p)"
    and o: "evaluates_to n (problem_context p f) (ei_occurs e) (VBool True)"
    and i: "eval_at n (problem_context p f) (occurring e) = Inr u"
  shows "u = Some (VBool True)"
proof -
  have "stored_attribute e ''occurs'' = Some (ei_occurs e)" by (simp add: stored_attribute_def)
  then have "eval_at (Suc n) (problem_context p f) (occurring e) = Inr (Some (VBool True))" using o problem_event [OF d e, of f]
    by (cases "ei_occurs e") (auto simp: occurring_def event_attribute_def evaluates_to_def concrete_value_def or_raise_def)
  then show ?thesis using i eval_at_fuel [of n "problem_context p f" "occurring e" "Suc n"] by simp
qed

lemma only_if_holds:
  assumes d: "distinct (map ei_id (bp_events p))" and e: "e \<in> set (bp_events p)"
    and o: "evaluates_to n (problem_context p f) (ei_occurs e) (VBool True)"
    and h: "holds n (problem_context p f) (Binary ''implies'' (occurring e) x)"
  shows "holds n (problem_context p f) x"
proof -
  obtain u where "eval_at n (problem_context p f) (occurring e) = Inr u" using h by (auto simp: holds_def rbind_Inr_iff)
  then have "holds n (problem_context p f) (occurring e)" using occurring_next [OF d e o] by (simp add: holds_def)
  then show ?thesis by (rule holds_impliesD [OF h])
qed

section \<open>The core\<close>

definition real_evidence :: "event_instance list \<Rightarrow> bool" where
  "real_evidence ys \<longleftrightarrow> (\<forall>y \<in> set ys. ei_type y \<in> set monitor_types \<longrightarrow>
     (\<exists>older \<in> set ys. \<exists>younger \<in> set ys. ei_type older = ''Core.MemoryInstruction'' \<and> ei_type younger = ''Core.MemoryInstruction'' \<and>
        fields_agree y ''older_op_id'' older ''op_id'' \<and> fields_agree y ''younger_op_id'' younger ''op_id'' \<and>
        fields_agree older ''hart'' younger ''hart'' \<and> fields_agree older ''address'' younger ''address'' \<and>
        field_less older ''program_index'' younger ''program_index''))"

definition refills_sourced :: "event_instance list \<Rightarrow> bool" where
  "refills_sourced ys \<longleftrightarrow> (\<forall>y \<in> set ys. ei_type y \<in> set refill_only_types \<longrightarrow>
     (\<exists>r \<in> set ys. ei_type r = ''Coherence.LoadResult'' \<and> fields_agree y ''op_id'' r ''op_id'' \<and>
        (\<exists>v. map_of (ei_fields r) ''path'' = Some v \<and> py_eq v (VStr ''refill''))))"

definition no_recovery :: "event_instance list \<Rightarrow> bool" where
  "no_recovery ys \<longleftrightarrow> (\<forall>y \<in> set ys. ei_type y \<notin> set recovery_types)"

lemma eq_False_absurd:
  assumes d: "distinct (map ei_id (bp_events p))" and e: "e \<in> set (bp_events p)"
    and o: "evaluates_to n (problem_context p f) (ei_occurs e) (VBool True)"
  shows "\<not> holds n (problem_context p f) (Binary ''eq'' (occurring e) (Literal (SBool False) BOOL_SORT))"
proof
  assume "holds n (problem_context p f) (Binary ''eq'' (occurring e) (Literal (SBool False) BOOL_SORT))"
  then obtain u where "eval_at n (problem_context p f) (occurring e) = Inr (Some u)" "py_eq u (VBool False)"
    using holds_binaryD by fastforce
  then show False using occurring_next [OF d e o] by fastforce
qed

lemma field_is_shown:
  assumes d: "distinct (map ei_id (bp_events p))"
    and c: "field_is schema e f v = Inr x" "holds n (problem_context p (map_of a)) x"
    and e: "e \<in> set (bp_events p)" "completed_event n (problem_context p (map_of a)) e y"
    and f: "f \<noteq> ''occurs'' \<and> f \<noteq> ''cycle''"
  shows "\<exists>w. map_of (ei_fields y) f = Some w \<and> py_eq w v"
proof -
  obtain s l where x: "x = Binary ''eq'' (EventField (ei_id e) f s) l" and l: "mk_literal v (Some s) = Inr l"
    using c(1) by (auto simp: field_is_def rbind_Inr_iff mk_binary_def split: if_splits)
  then obtain k where k: "v = VScalar k" "l = Literal k s" by (auto simp: mk_literal_Inr_iff)
  obtain w where "eval_at n (problem_context p (map_of a)) (EventField (ei_id e) f s) = Inr (Some w)" "py_eq w v"
    using holds_binaryD [OF c(2) [unfolded x]] k by auto
  then show ?thesis using completed_field [OF d e _ f] by blast
qed

lemma refill_shown:
  assumes d: "distinct (map ei_id (bp_events p))" and comp: "completes n p a ys"
    and r: "refill_of p schema e f r = Inr x" "holds n (problem_context p (map_of a)) x"
    and e: "e \<in> set (bp_events p)" "completed_event n (problem_context p (map_of a)) e y" "r \<in> set (bp_events p)"
    and f: "f \<noteq> ''occurs'' \<and> f \<noteq> ''cycle''"
  shows "\<exists>z \<in> set ys. ei_type z = ei_type r \<and> fields_agree y f z ''op_id'' \<and>
    (\<exists>v. map_of (ei_fields z) ''path'' = Some v \<and> py_eq v (VStr ''refill''))"
proof -
  let ?c = "problem_context p (map_of a)"
  obtain rs same refill where s: "compare_fields ''eq'' schema e f rs r ''op_id'' = Inr same"
    "field_is rs r ''path'' (VStr ''refill'') = Inr refill" "x = conjunction [occurring r, same, refill]"
    using r(1) by (auto simp: refill_of_def rbind_Inr_iff)
  have h: "holds n ?c (occurring r)" "holds n ?c same" "holds n ?c refill"
    using holds_conjunctionD r(2) s(3) by simp_all
  obtain z where z: "z \<in> set ys" "completed_event n ?c r z"
    using completed_member [OF d comp e(3)] h(1) by (auto simp: occurring_def)
  have "fields_agree y f z ''op_id''" by (rule compare_shown(1) [OF d s(1) h(2) _ e(1) e(3) e(2) z(2) f]) simp_all
  moreover have "\<exists>v. map_of (ei_fields z) ''path'' = Some v \<and> py_eq v (VStr ''refill'')"
    by (rule field_is_shown [OF d s(2) h(3) e(3) z(2)]) simp
  ultimately show ?thesis using z by (auto simp: completed_event_def)
qed

lemma add_constraints_simps [simp]:
  "problem_context (add_constraints p ks) f = problem_context p f" "bp_events (add_constraints p ks) = bp_events p"
  "bp_catalog (add_constraints p ks) = bp_catalog p" "bp_constraints (add_constraints p ks) = bp_constraints p @ ks"
  "completes n (add_constraints p ks) a ys = completes n p a ys"
  by (simp_all add: add_constraints_def problem_context_def problem_event_map_def completes_def)

lemma pair_shown:
  assumes d: "distinct (map ei_id (bp_events p))" and comp: "completes n p a ys"
    and r: "real_pair schema e is (older, younger) = Inr x" "holds n (problem_context p (map_of a)) x"
    and e: "e \<in> set (bp_events p)" "completed_event n (problem_context p (map_of a)) e y"
      "older \<in> set (bp_events p)" "younger \<in> set (bp_events p)"
  shows "\<exists>o' \<in> set ys. \<exists>y' \<in> set ys. ei_type o' = ei_type older \<and> ei_type y' = ei_type younger \<and>
    fields_agree y ''older_op_id'' o' ''op_id'' \<and> fields_agree y ''younger_op_id'' y' ''op_id'' \<and>
    fields_agree o' ''hart'' y' ''hart'' \<and> fields_agree o' ''address'' y' ''address'' \<and>
    field_less o' ''program_index'' y' ''program_index''"
proof -
  let ?c = "problem_context p (map_of a)"
  obtain c1 c2 c3 c4 c5 where s: "compare_fields ''eq'' schema e ''older_op_id'' is older ''op_id'' = Inr c1"
    "compare_fields ''eq'' schema e ''younger_op_id'' is younger ''op_id'' = Inr c2"
    "compare_fields ''eq'' is older ''hart'' is younger ''hart'' = Inr c3"
    "compare_fields ''eq'' is older ''address'' is younger ''address'' = Inr c4"
    "compare_fields ''lt'' is older ''program_index'' is younger ''program_index'' = Inr c5"
    "x = conjunction [occurring older, occurring younger, c1, c2, c3, c4, c5]"
    using r(1) by (auto simp: real_pair_def rbind_Inr_iff)
  have h: "holds n ?c (occurring older)" "holds n ?c (occurring younger)" "holds n ?c c1" "holds n ?c c2" "holds n ?c c3"
    "holds n ?c c4" "holds n ?c c5"
    using holds_conjunctionD r(2) s(6) by simp_all
  obtain o' where o: "o' \<in> set ys" "completed_event n ?c older o'"
    using completed_member [OF d comp e(3)] h(1) by (auto simp: occurring_def)
  obtain y' where z: "y' \<in> set ys" "completed_event n ?c younger y'"
    using completed_member [OF d comp e(4)] h(2) by (auto simp: occurring_def)
  have "fields_agree y ''older_op_id'' o' ''op_id''" by (rule compare_shown(1) [OF d s(1) h(3) _ e(1,3,2) o(2)]) simp_all
  moreover have "fields_agree y ''younger_op_id'' y' ''op_id''"
    by (rule compare_shown(1) [OF d s(2) h(4) _ e(1,4,2) z(2)]) simp_all
  moreover have "fields_agree o' ''hart'' y' ''hart''" by (rule compare_shown(1) [OF d s(3) h(5) _ e(3,4) o(2) z(2)]) simp_all
  moreover have "fields_agree o' ''address'' y' ''address''"
    by (rule compare_shown(1) [OF d s(4) h(6) _ e(3,4) o(2) z(2)]) simp_all
  moreover have "field_less o' ''program_index'' y' ''program_index''"
    by (rule compare_shown(3) [OF d s(5) h(7) _ e(3,4) o(2) z(2)]) simp_all
  ultimately show ?thesis using o z by (auto simp: completed_event_def)
qed

lemma core_constraints_shown:
  assumes d: "distinct (map ei_id (bp_events p))" and comp: "completes n p a ys"
    and q: "add_core_constraints p = Inr q" and h: "\<forall>k \<in> set (bp_constraints q). holds n (problem_context p (map_of a)) (nc_expr k)"
  shows "real_evidence ys" "refills_sourced ys" "no_recovery ys"
proof -
  let ?c = "problem_context p (map_of a)"
  obtain ones refills pairs where rf: "refill_sources p = Inr refills" and pr: "real_ldld_pairs p = Inr pairs"
    and q': "q = add_constraints p (map absent_event (events_of p recovery_types) @ concat ones @ refills @ pairs)"
    using q by (auto simp: add_core_constraints_def rbind_Inr_iff)
  have ks: "holds n ?c (nc_expr k)" if "k \<in> set (map absent_event (events_of p recovery_types)) \<union> set refills \<union> set pairs" for k
    using h that by (auto simp: q')
  show "no_recovery ys" unfolding no_recovery_def
  proof (intro ballI notI)
    fix y assume y: "y \<in> set ys" and ty: "ei_type y \<in> set recovery_types"
    obtain e where e: "e \<in> set (bp_events p)" "completed_event n ?c e y" "evaluates_to n ?c (ei_occurs e) (VBool True)"
      by (rule completed_origin [OF comp y])
    then have "e \<in> set (events_of p recovery_types)" using ty by (auto simp: events_of_def completed_event_def)
    then have "holds n ?c (nc_expr (absent_event e))" using ks by simp
    then show False using eq_False_absurd [OF d e(1,3)] by (simp add: absent_event_def)
  qed
  have only: "holds n ?c x" if "e \<in> set (bp_events p)" "evaluates_to n ?c (ei_occurs e) (VBool True)"
    "only_if l u e x \<in> set refills \<union> set pairs" for e l u x
  proof -
    have "holds n ?c (Binary ''implies'' (occurring e) x)" using ks [of "only_if l u e x"] that(3) by (auto simp: only_if_def)
    then show ?thesis by (rule only_if_holds [OF d that(1,2)])
  qed
  show "refills_sourced ys" unfolding refills_sourced_def
  proof (intro ballI impI)
    fix y assume y: "y \<in> set ys" and ty: "ei_type y \<in> set refill_only_types"
    obtain e where e: "e \<in> set (bp_events p)" "completed_event n ?c e y" "evaluates_to n ?c (ei_occurs e) (VBool True)"
      by (rule completed_origin [OF comp y])
    have m: "e \<in> set (events_of p refill_only_types)"
      using e ty by (auto simp: events_of_def completed_event_def)
    let ?rs = "events_of p [''Coherence.LoadResult'']"
    obtain schema xs l u where xs: "traverse (refill_of p schema e ''op_id'') ?rs = Inr xs"
      and k: "only_if l u e (disjunction xs) \<in> set refills"
      using traverse_Inr_memD [OF rf [unfolded refill_sources_def] m] by (auto simp: rbind_Inr_iff needs_refill_def)
    have "holds n ?c (disjunction xs)" using only [OF e(1,3)] k by blast
    then obtain x where x: "x \<in> set xs" "holds n ?c x" using holds_disjunctionD by blast
    obtain r where r: "r \<in> set ?rs" "refill_of p schema e ''op_id'' r = Inr x" using traverse_Inr_imageD [OF xs x(1)] by blast
    then show "\<exists>r \<in> set ys. ei_type r = ''Coherence.LoadResult'' \<and> fields_agree y ''op_id'' r ''op_id'' \<and>
        (\<exists>v. map_of (ei_fields r) ''path'' = Some v \<and> py_eq v (VStr ''refill''))"
      using refill_shown [OF d comp r(2) x(2) e(1,2)] by (auto simp: events_of_def)
  qed
  show "real_evidence ys" unfolding real_evidence_def
  proof (intro ballI impI)
    fix y assume y: "y \<in> set ys" and ty: "ei_type y \<in> set monitor_types"
    obtain e where e: "e \<in> set (bp_events p)" "completed_event n ?c e y" "evaluates_to n ?c (ei_occurs e) (VBool True)"
      by (rule completed_origin [OF comp y])
    have m: "e \<in> set (events_of p monitor_types)"
      using e ty by (auto simp: events_of_def completed_event_def)
    let ?is = "events_of p [''Core.MemoryInstruction'']"
    obtain is' where "traverse (\<lambda>e. rbind (resolve (bp_catalog p) (ei_type e)) (\<lambda>schema.
         rbind (traverse (real_pair schema e is') (List.product ?is ?is)) (\<lambda>xs.
           Inr (only_if ''search.core.real_ldld_pair.'' ''hierarchical-search:lsq-monitor-well-formedness'' e (disjunction xs)))))
         (events_of p monitor_types) = Inr pairs"
      using pr by (auto simp: real_ldld_pairs_def rbind_Inr_iff)
    from traverse_Inr_memD [OF this m] obtain schema xs l u where xs: "traverse (real_pair schema e is') (List.product ?is ?is) = Inr xs"
      and k: "only_if l u e (disjunction xs) \<in> set pairs" by (auto simp: rbind_Inr_iff)
    have "holds n ?c (disjunction xs)" using only [OF e(1,3)] k by blast
    then obtain x where x: "x \<in> set xs" "holds n ?c x" using holds_disjunctionD by blast
    obtain o1 y1 where r: "(o1, y1) \<in> set (List.product ?is ?is)" "real_pair schema e is' (o1, y1) = Inr x"
      using traverse_Inr_imageD [OF xs x(1)] by auto
    then show "\<exists>older \<in> set ys. \<exists>younger \<in> set ys. ei_type older = ''Core.MemoryInstruction'' \<and>
        ei_type younger = ''Core.MemoryInstruction'' \<and>
        fields_agree y ''older_op_id'' older ''op_id'' \<and> fields_agree y ''younger_op_id'' younger ''op_id'' \<and>
        fields_agree older ''hart'' younger ''hart'' \<and> fields_agree older ''address'' younger ''address'' \<and>
        field_less older ''program_index'' younger ''program_index''"
      using pair_shown [OF d comp r(2) x(2) e(1,2)] by (auto simp: events_of_def)
  qed
qed

section \<open>Retired operations\<close>

definition retires_graph :: "stage_spec \<Rightarrow> exec_graph \<Rightarrow> trace \<Rightarrow> bool" where
  "retires_graph st g t \<longleftrightarrow> (\<forall>m \<in> set (dynamic_ops g).
     let base = [(''op_id'', VStr (mo_id m)), (''hart'', number_or_none (mo_hart m)),
       (''program_index'', number_or_none (mo_index m)), (''address'', mo_address m)] in
     if is_read m
     then \<exists>al cm. map_of (rs_types st) ''arch_load'' = Some al \<and> map_of (rs_types st) ''commit_read'' = Some cm \<and>
       shows_event t al base \<and> shows_event t cm [(''op_id'', VStr (mo_id m)), (''value'', mo_value m)]
     else \<exists>ty v. map_of (rs_types st) ''arch_store'' = Some ty \<and> stored_value m = Inr v \<and> shows_event t ty (base @ [(''value'', v)]))"

lemma shows_event_mono: "shows_event t ty xs \<Longrightarrow> set (tr_events t) \<subseteq> set (tr_events u) \<Longrightarrow> shows_event u ty xs"
  by (auto simp: shows_event_def)

lemma retires_graph_mono: "retires_graph st g t \<Longrightarrow> set (tr_events t) \<subseteq> set (tr_events u) \<Longrightarrow> retires_graph st g u"
  unfolding retires_graph_def Let_def by (meson shows_event_mono)

lemma retirement_shown:
  assumes d: "distinct (map ei_id (bp_events p))" and comp: "completes n p a (tr_events t)"
    and q: "add_retirement_obligations p st g = Inr q" and h: "\<forall>k \<in> set (bp_constraints q). holds n (problem_context p (map_of a)) (nc_expr k)"
  shows "retires_graph st g t"
  unfolding retires_graph_def Let_def
proof
  fix m assume m: "m \<in> set (dynamic_ops g)"
  let ?base = "[(''op_id'', VStr (mo_id m)), (''hart'', number_or_none (mo_hart m)),
       (''program_index'', number_or_none (mo_index m)), (''address'', mo_address m)]"
  obtain ks where ks: "traverse (\<lambda>m. rbind (retired_operation p st m) (\<lambda>x.
       Inr \<lparr>nc_name = ''search.retirement.'' @ mo_id m, nc_expr = x,
         nc_origin = ''hierarchical-search:retired-architectural-obligation''\<rparr>)) (dynamic_ops g) = Inr ks"
    and q': "q = add_constraints p ks" using q by (auto simp: add_retirement_obligations_def rbind_Inr_iff)
  obtain k x where k: "k \<in> set ks" "nc_expr k = x" "retired_operation p st m = Inr x"
    using traverse_Inr_memD [OF ks m] by (auto simp: rbind_Inr_iff)
  then have x: "holds n (problem_context p (map_of a)) x" using h by (auto simp: q')
  show "if is_read m
     then \<exists>al cm. map_of (rs_types st) ''arch_load'' = Some al \<and> map_of (rs_types st) ''commit_read'' = Some cm \<and>
       shows_event t al ?base \<and> shows_event t cm [(''op_id'', VStr (mo_id m)), (''value'', mo_value m)]
     else \<exists>ty v. map_of (rs_types st) ''arch_store'' = Some ty \<and> stored_value m = Inr v \<and> shows_event t ty (?base @ [(''value'', v)])"
  proof (cases "is_read m")
    case True
    then obtain al cm arch commit where s: "map_of (rs_types st) ''arch_load'' = Some al" "map_of (rs_types st) ''commit_read'' = Some cm"
      "matching_public_event p al ?base = Inr arch"
      "matching_public_event p cm [(''op_id'', VStr (mo_id m)), (''value'', mo_value m)] = Inr commit" "x = conjunction [arch, commit]"
      using k(3) by (auto simp: retired_operation_def stage_type_def rbind_Inr_iff or_raise_Inr_iff read_value_def)
    have "holds n (problem_context p (map_of a)) arch" "holds n (problem_context p (map_of a)) commit"
      using holds_conjunctionD x s(5) by simp_all
    then show ?thesis using True s matching_public_shown [OF d comp s(3)] matching_public_shown [OF d comp s(4)] by auto
  next
    case False
    then obtain ty v where s: "map_of (rs_types st) ''arch_store'' = Some ty" "stored_value m = Inr v"
      "matching_public_event p ty (?base @ [(''value'', v)]) = Inr x"
      using k(3) by (auto simp: retired_operation_def stage_type_def rbind_Inr_iff or_raise_Inr_iff)
    then show ?thesis using False matching_public_shown [OF d comp s(3) x] by auto
  qed
qed

end
