(* ===== verification/SearchFacts.thy ===== *)
theory SearchFacts
  imports BoomFacts ArchFacts
begin

text \<open>
  The stages and the report of a hierarchical search: what a realized stage and an end-to-end witness
  guarantee, and what the search has excluded when it reports none.
\<close>

section \<open>The children of a core stage\<close>

lemma add_coherence_added: "add_coherence_obligations p st g = Inr q \<Longrightarrow> \<exists>ks. q = add_constraints p ks"
  by (auto simp: add_coherence_obligations_def rbind_Inr_iff)

lemma add_protocol_added: "add_protocol_constraints p st = Inr q \<Longrightarrow> \<exists>ks. q = add_constraints p ks"
  by (auto simp: add_protocol_constraints_def rbind_Inr_iff)

lemma add_retirement_added: "add_retirement_obligations p st g = Inr q \<Longrightarrow> \<exists>ks. q = add_constraints p ks"
  by (auto simp: add_retirement_obligations_def rbind_Inr_iff)

lemma add_core_added: "add_core_constraints p = Inr q \<Longrightarrow> \<exists>ks. q = add_constraints p ks"
  by (auto simp: add_core_constraints_def rbind_Inr_iff)

lemma compose_in_ids: "compose_in env c cp t = Inr r \<Longrightarrow> distinct (map sl_id (cs_slots (co_completion r)))"
  by (auto simp: compose_in_def compose_modules_def rbind_Inr_iff Let_def mk_completion_spec_Inr)

lemma coherence_child_sound:
  assumes a: "coherence_child env st g ms t = Inr (model, solved)" and f: "cr_status solved = Feasible"
    and b: "py_lower (ev_backend env) \<noteq> ''z3''" and ss: "single_sources g"
  shows "\<exists>u. cr_trace solved = Some u \<and> validate_trace (bm_catalog ms) (Some False) u = Inr () \<and> realizes_graph st g u"
proof -
  obtain input p q r where cm: "compose_in env (bm_catalog ms) (bm_coherence ms) input = Inr model"
    and p: "build_problem (bm_catalog ms) input (co_completion model) = Inr p"
    and q: "add_coherence_obligations p st g = Inr q" and r: "add_protocol_constraints q st = Inr r"
    and s: "complete_in env False r = Inr solved"
    using a by (auto simp: coherence_child_def rbind_Inr_iff)
  obtain ks ls where k: "q = add_constraints p ks" "r = add_constraints q ls"
    using add_coherence_added [OF q] add_protocol_added [OF r] by blast
  obtain u where u: "solution (ev_fuel env) r (cr_assignment solved)" "cr_trace solved = Some u"
    "completes (ev_fuel env) r (cr_assignment solved) (tr_events u)" "validate_trace (bp_catalog r) (Some False) u = Inr ()"
    using complete_problem_finite [OF s [unfolded complete_in_def] f b] by blast
  have c: "bp_catalog p = bm_catalog ms" by (rule build_problem_cases [OF p])
  have "completes (ev_fuel env) q (cr_assignment solved) (tr_events u)"
    "\<forall>k \<in> set (bp_constraints q). holds (ev_fuel env) (problem_context q (map_of (cr_assignment solved))) (nc_expr k)"
    using u(1,3) by (simp_all add: k(2) solution_def)
  then have "realizes_graph st g u" using obligations_realized [OF p compose_in_ids [OF cm] q ss] by blast
  then show ?thesis using u c by (auto simp: k)
qed

lemma core_child_sound:
  assumes a: "core_child env st g ms coherence t = Inr solved" and f: "cr_status solved = Feasible"
    and b: "py_lower (ev_backend env) \<noteq> ''z3''"
  shows "\<exists>u. cr_trace solved = Some u \<and> validate_trace (bm_catalog ms) (Some False) u = Inr () \<and> retires_graph st g u \<and>
    real_evidence (tr_events u) \<and> refills_sourced (tr_events u) \<and> no_recovery (tr_events u)"
proof -
  obtain model p q r where cm: "compose_in env (bm_catalog ms) (bm_core ms) t = Inr model"
    and p: "build_problem (bm_catalog ms) t (co_completion model) = Inr p"
    and q: "add_retirement_obligations p st g = Inr q" and r: "add_core_constraints q = Inr r"
    and s: "complete_in env False r = Inr solved"
    using a by (auto simp: core_child_def rbind_Inr_iff)
  obtain ks ls where k: "q = add_constraints p ks" "r = add_constraints q ls"
    using add_retirement_added [OF q] add_core_added [OF r] by blast
  obtain u where u: "solution (ev_fuel env) r (cr_assignment solved)" "cr_trace solved = Some u"
    "completes (ev_fuel env) r (cr_assignment solved) (tr_events u)" "validate_trace (bp_catalog r) (Some False) u = Inr ()"
    using complete_problem_finite [OF s [unfolded complete_in_def] f b] by blast
  have d: "distinct (map ei_id (bp_events p))" by (rule build_problem_ids [OF p compose_in_ids [OF cm]])
  have dq: "distinct (map ei_id (bp_events q))" using d by (simp add: k)
  have comp: "completes (ev_fuel env) p (cr_assignment solved) (tr_events u)"
    "completes (ev_fuel env) q (cr_assignment solved) (tr_events u)"
    using u(3) by (simp_all add: k)
  have hr: "\<forall>k \<in> set (bp_constraints r). holds (ev_fuel env) (problem_context q (map_of (cr_assignment solved))) (nc_expr k)"
    using u(1) by (simp add: k solution_def)
  then have hq: "\<forall>k \<in> set (bp_constraints q). holds (ev_fuel env) (problem_context p (map_of (cr_assignment solved))) (nc_expr k)"
    by (auto simp: k)
  have "bp_catalog p = bm_catalog ms" by (rule build_problem_cases [OF p])
  then show ?thesis using u(2,4) retirement_shown [OF d comp(1) q hq] core_constraints_shown [OF dq comp(2) r hr] by (auto simp: k)
qed

section \<open>Merging\<close>

lemma merge_event_Inr:
  "merge_event d e = Inr d' \<longleftrightarrow> d' = AList.update (ei_id e) e d \<and> (\<forall>q. map_of d (ei_id e) = Some q \<longrightarrow>
     ei_type q = ei_type e \<and> py_eq (VMap (ei_fields q)) (VMap (ei_fields e)) \<and> py_eq (ei_cycle q) (ei_cycle e))"
  by (auto simp: merge_event_def rbind_require split: option.splits)

lemma merge_fold:
  assumes "fold_res merge_event d es = Inr d'"
  shows "distinct (map fst d) \<Longrightarrow> distinct (map fst d')"
    and "map_of d' i = Some e \<Longrightarrow> map_of d i = Some e \<or> e \<in> set es"
    and "map_of d i = Some q \<Longrightarrow> \<exists>e. map_of d' i = Some e \<and> ei_type e = ei_type q"
    and "i \<notin> ei_id ` set es \<Longrightarrow> map_of d' i = map_of d i"
  using assms
proof (induction es arbitrary: d q)
  case (Cons x xs)
  {
    case 1
    then obtain d1 where "merge_event d x = Inr d1" "fold_res merge_event d1 xs = Inr d'" by (auto simp: rbind_Inr_iff)
    then show ?case using Cons.IH(1) [of d1] 1(1) by (auto simp: merge_event_Inr distinct_update)
  next
    case 2
    then show ?case using Cons.IH(2) by (fastforce simp: rbind_Inr_iff merge_event_Inr update_conv' split: if_splits)
  next
    case 3
    then obtain d1 where d1: "merge_event d x = Inr d1" "fold_res merge_event d1 xs = Inr d'" by (auto simp: rbind_Inr_iff)
    obtain q1 where "map_of d1 i = Some q1" "ei_type q1 = ei_type q"
      using d1(1) 3(1) by (cases "i = ei_id x") (auto simp: merge_event_Inr update_conv')
    then show ?case using Cons.IH(3) [OF _ d1(2), of q1] by auto
  next
    case 4
    then show ?case using Cons.IH(4) by (fastforce simp: rbind_Inr_iff merge_event_Inr update_conv')
  }
qed auto

lemma merge_fold_last:
  "fold_res merge_event d es = Inr d' \<Longrightarrow> distinct (map ei_id es) \<Longrightarrow> e \<in> set es \<Longrightarrow> map_of d' (ei_id e) = Some e"
proof (induction es arbitrary: d)
  case (Cons x xs)
  obtain d1 where d1: "merge_event d x = Inr d1" "fold_res merge_event d1 xs = Inr d'" using Cons.prems(1) by (auto simp: rbind_Inr_iff)
  show ?case
  proof (cases "e = x")
    case True
    then show ?thesis using merge_fold(4) [OF d1(2), of "ei_id x"] d1(1) Cons.prems(2) by (auto simp: merge_event_Inr update_conv')
  qed (use Cons d1(2) in auto)
qed simp

lemma merged_traces:
  assumes m: "merge_completed_traces [u, v] = Inr t" and d: "distinct (map ei_id (tr_events v))" "distinct (map ei_id (tr_events u))"
  shows "set (tr_events v) \<subseteq> set (tr_events t)" "set (tr_events t) \<subseteq> set (tr_events u) \<union> set (tr_events v)"
    "\<forall>e \<in> set (tr_events u). \<exists>e' \<in> set (tr_events t). ei_type e' = ei_type e" "distinct (map ei_id (tr_events t))"
proof -
  obtain d1 d2 where f: "fold_res merge_event [] (tr_events u) = Inr d1" "fold_res merge_event d1 (tr_events v) = Inr d2"
    and t: "tr_events t = sort_key observation_key (map snd d2)" "distinct (map ei_id (tr_events t))"
    using m by (auto simp: merge_completed_traces_def rbind_Inr_iff fold_res_append mk_trace_Inr)
  have dist: "distinct (map fst d2)" using merge_fold(1) [OF f(2)] merge_fold(1) [OF f(1)] by simp
  have mem: "e \<in> set (tr_events t) \<longleftrightarrow> (\<exists>i. map_of d2 i = Some e)" for e
    using dist by (force simp: t(1) map_of_eq_Some_iff)
  show "set (tr_events v) \<subseteq> set (tr_events t)" using merge_fold_last [OF f(2) d(1)] mem by blast
  show "set (tr_events t) \<subseteq> set (tr_events u) \<union> set (tr_events v)"
    using merge_fold(2) [OF f(2)] merge_fold(2) [OF f(1)] by (fastforce simp: mem)
  show "\<forall>e \<in> set (tr_events u). \<exists>e' \<in> set (tr_events t). ei_type e' = ei_type e"
    using merge_fold_last [OF f(1) d(2)] merge_fold(3) [OF f(2)] mem by blast
  show "distinct (map ei_id (tr_events t))" by (rule t(2))
qed

section \<open>The stages\<close>

text \<open>Retiming keeps everything but the cycles.\<close>

lemma retimed_trace:
  assumes r: "retime_trace t k = Inr u"
  shows "list_all2 (\<lambda>e e'. ei_id e' = ei_id e \<and> ei_type e' = ei_type e \<and> ei_fields e' = ei_fields e \<and> ei_occurs e' = ei_occurs e \<and>
      ei_cycle e' = retimed_cycle k (ei_cycle e)) (tr_events t) (tr_events u)" "distinct (map ei_id (tr_events u))"
proof -
  obtain es where es: "traverse (retime_event k) (tr_events t) = Inr es" "tr_events u = es"
    using r by (auto simp: retime_trace_def rbind_Inr_iff mk_trace_Inr)
  have "list_all2 (\<lambda>e e'. retime_event k e = Inr e') (tr_events t) (tr_events u)" using es by (simp add: traverse_Inr_iff)
  then show "list_all2 (\<lambda>e e'. ei_id e' = ei_id e \<and> ei_type e' = ei_type e \<and> ei_fields e' = ei_fields e \<and> ei_occurs e' = ei_occurs e \<and>
      ei_cycle e' = retimed_cycle k (ei_cycle e)) (tr_events t) (tr_events u)"
    by (rule list.rel_mono_strong) (auto simp: retime_event_def rbind_Inr_iff mk_event_instance_Inr_iff)
  show "distinct (map ei_id (tr_events u))" using r by (auto simp: retime_trace_def rbind_Inr_iff mk_trace_Inr)
qed

lemma list_all2_pick: "list_all2 P xs ys \<Longrightarrow> x \<in> set xs \<Longrightarrow> \<exists>y \<in> set ys. P x y"
  by (induction rule: list_all2_induct) auto

lemma retimed_shows: "retime_trace t k = Inr u \<Longrightarrow> shows_event t ty xs \<Longrightarrow> shows_event u ty xs"
proof -
  assume r: "retime_trace t k = Inr u" and s: "shows_event t ty xs"
  then obtain e where e: "e \<in> set (tr_events t)" "ei_type e = ty \<and> ei_occurs e = VBool True \<and>
    (\<forall>(f, v) \<in> set xs. \<exists>w. map_of (ei_fields e) f = Some w \<and> py_eq w v)" unfolding shows_event_def by blast
  obtain e' where "e' \<in> set (tr_events u)" "ei_type e' = ei_type e" "ei_fields e' = ei_fields e" "ei_occurs e' = ei_occurs e"
    using list_all2_pick [OF retimed_trace(1) [OF r] e(1)] by blast
  then show ?thesis using e(2) unfolding shows_event_def by (intro bexI [of _ e']) simp_all
qed

lemma realizes_graph_retimed: "retime_trace t k = Inr u \<Longrightarrow> realizes_graph st g t \<Longrightarrow> realizes_graph st g u"
  unfolding realizes_graph_def by (meson retimed_shows)

text \<open>What the trace of a realized core stage is made of.\<close>

definition boom_witness :: "event_catalog \<Rightarrow> stage_spec \<Rightarrow> exec_graph \<Rightarrow> trace \<Rightarrow> bool" where
  "boom_witness c st g t \<longleftrightarrow> retires_graph st g t \<and> (\<exists>coherence core.
     realizes_graph st g coherence \<and> validate_trace c (Some False) core = Inr () \<and> retires_graph st g core \<and>
     real_evidence (tr_events core) \<and> refills_sourced (tr_events core) \<and> no_recovery (tr_events core) \<and>
     set (tr_events core) \<subseteq> set (tr_events t) \<and> set (tr_events t) \<subseteq> set (tr_events coherence) \<union> set (tr_events core))"

lemma boom_attempt_cases:
  assumes "boom_attempt env s st g ms schedule k = Inr (Completed t)"
  obtains t0 model solved where "coherence_child env st g ms t0 = Inr (model, solved)" "cr_status solved = Feasible"
    "core_attempt env s st g ms t0 model solved = Inr (Completed t)"
proof -
  obtain t0 where t0: "(case coherence_child env st g ms t0 of
         Inl e \<Rightarrow> if e = CompositionError then Inr (Failed NotComposed False) else Inl e
       | Inr (model, solved) \<Rightarrow>
           if cr_status solved \<noteq> Feasible then Inr (unsolved solved) else core_attempt env s st g ms t0 model solved) =
       Inr (Completed t)"
    using assms by (auto simp: boom_attempt_def rbind_Inr_iff)
  show thesis
  proof (cases "coherence_child env st g ms t0")
    case (Inr r)
    obtain model solved where "r = (model, solved)" by (cases r)
    then show thesis using that [of t0 model solved] t0 Inr by (auto simp: unsolved_def split: if_splits)
  qed (use t0 in \<open>auto split: if_splits\<close>)
qed

lemma boom_attempt_sound:
  assumes a: "boom_attempt env s st g ms schedule k = Inr (Completed t)" and b: "py_lower (ev_backend env) \<noteq> ''z3''"
    and ss: "single_sources g"
  shows "boom_witness (bm_catalog ms) st g t \<and> check_completed_architecture env s t = Inr (sa_target (hs_arch s))"
proof -
  obtain t0 model solved where c: "coherence_child env st g ms t0 = Inr (model, solved)" "cr_status solved = Feasible"
    and rest: "core_attempt env s st g ms t0 model solved = Inr (Completed t)"
    by (rule boom_attempt_cases [OF a])
  obtain child coherence input core u where d: "cr_trace solved = Some child" "retime_trace child 20 = Inr coherence"
    "core_child env st g ms model input = Inr core" "cr_status core = Feasible" "cr_trace core = Some u"
    and fin: "finish_attempt env s coherence u = Inr (Completed t)"
    using rest by (auto simp: core_attempt_def rbind_Inr_iff or_raise_Inr_iff unsolved_def split: if_splits)
  have m: "merge_completed_traces [coherence, u] = Inr t" and chk: "check_completed_architecture env s t = Inr (sa_target (hs_arch s))"
    using fin by (auto simp: finish_attempt_def rbind_Inr_iff split: if_splits)
  have r: "realizes_graph st g child" using coherence_child_sound [OF c b ss] d(1) by auto
  have k: "validate_trace (bm_catalog ms) (Some False) u = Inr ()" "retires_graph st g u" "real_evidence (tr_events u)"
    "refills_sourced (tr_events u)" "no_recovery (tr_events u)"
    using core_child_sound [OF d(3,4) b] d(5) by auto
  have "distinct (map ei_id (tr_events u))" using k(1) by (auto simp: validate_trace_def rbind_Inr_iff validate_structure_Inr)
  note mg = merged_traces [OF m this retimed_trace(2) [OF d(2)]]
  have "retires_graph st g t" by (rule retires_graph_mono [OF k(2) mg(1)])
  then show ?thesis using realizes_graph_retimed [OF d(2) r] k mg(1,2) chk unfolding boom_witness_def by blast
qed

lemma try_boom_realized:
  assumes "try_boom env s st g ms todo k reason unknown = Inr r" and "sr_status r = Realizable"
  shows "\<exists>schedule cfg t. (schedule, cfg) \<in> set todo \<and> sr_schedule r = schedule \<and> sr_witness r = Some t \<and>
    boom_attempt env s st g ms schedule cfg = Inr (Completed t)"
  using assms
proof (induction todo arbitrary: k reason unknown)
  case Nil
  then show ?case by (auto simp: stage_outcome_def split: if_splits)
next
  case (Cons x xs)
  obtain schedule cfg where x: "x = (schedule, cfg)" by (cases x)
  obtain a where a: "boom_attempt env s st g ms schedule cfg = Inr a" using Cons.prems by (auto simp: x rbind_Inr_iff)
  show ?case
  proof (cases a)
    case (Failed q u)
    then have "try_boom env s st g ms xs (k + 1) q (unknown \<or> u) = Inr r" using Cons.prems a by (simp add: x)
    then show ?thesis using Cons.IH Cons.prems(2) by fastforce
  next
    case (Completed t)
    then show ?thesis using Cons.prems a by (auto simp: x)
  qed
qed

lemma realize_boom_sound:
  assumes r: "realize_boom env s st sk = Inr r" and f: "sr_status r = Realizable"
    and b: "py_lower (ev_backend env) \<noteq> ''z3''" and ss: "single_sources (sk_graph sk)"
  shows "\<exists>c t. rbind (or_raise (rs_catalog st) PyAssertionError) (load_catalog env s) = Inr c \<and> sr_witness r = Some t \<and>
    sr_schedule r \<in> set (candidate_schedules (sk_graph sk) (rs_schedules st)) \<and>
    boom_witness c st (sk_graph sk) t \<and> check_completed_architecture env s t = Inr (sa_target (hs_arch s))"
proof -
  obtain ms where ms: "load_boom_models env s st = Inr ms"
    and t: "try_boom env s st (sk_graph sk) ms
         (List.product (candidate_schedules (sk_graph sk) (rs_schedules st)) (initial_configurations (sk_graph sk)))
         0 NothingTried False = Inr r"
    using r by (auto simp: realize_boom_def rbind_Inr_iff)
  obtain u where "sr_witness r = Some u" "boom_witness (bm_catalog ms) st (sk_graph sk) u"
    "check_completed_architecture env s u = Inr (sa_target (hs_arch s))"
    "sr_schedule r \<in> set (candidate_schedules (sk_graph sk) (rs_schedules st))"
    using try_boom_realized [OF t f] boom_attempt_sound [OF _ b ss] by auto
  moreover have "rbind (or_raise (rs_catalog st) PyAssertionError) (load_catalog env s) = Inr (bm_catalog ms)"
    using ms by (auto simp: load_boom_models_def rbind_Inr_iff)
  ultimately show ?thesis by blast
qed

section \<open>Skeletons have one source per read\<close>

lemma found_single_sources:
  assumes f: "finds filtered s c m inits as sk" and m: "wf_graph_model m"
  shows "single_sources (sk_graph sk)"
proof -
  obtain t chk rep where chk: "check_trace_memory_model t m (sb_candidates (hs_bounds s)) = Inr chk"
    and rep: "representative chk = Inr rep" "sk_graph sk = cc_graph rep"
    using examine_found [OF f] by metis
  obtain sp po n srcs cos where p: "prepare_candidates t m (sb_candidates (hs_bounds s)) = Inr (sp, po)"
    and c: "(n, srcs, cos) \<in> set (candidates sp)" and rf: "edges_of (cc_graph rep) ''rf'' = chosen_rf srcs"
    by (rule checked_graph [OF m chk representative_member [OF rep(1)]]) blast
  have ok: "space_ok sp" by (rule prepare_ok(1) [OF m p])
  have "(srcs, cos) \<in> snd ` set (candidates sp)" using c by force
  then have "rf_assignment_of sp srcs" using candidates_iff [OF ok] by blast
  then have "list_all2 (\<lambda>x y. fst x = fst y) srcs (cs_rf_choices sp)"
    unfolding rf_assignment_of_def by (rule list.rel_mono_strong) auto
  then have "map fst srcs = map fst (cs_rf_choices sp)" by (induction rule: list_all2_induct) auto
  then have "distinct (map fst srcs)" using read_ids_eq(2) [OF ok] by simp
  then show ?thesis unfolding single_sources_def rep(2) rf chosen_rf_def by (auto dest: eq_key_imp_eq_value)
qed

section \<open>Reports\<close>

lemma overall_status_iff:
  "overall_status rs = SearchWitness \<longleftrightarrow> (\<forall>r \<in> set rs. sr_required r \<longrightarrow> sr_status r = Realizable)"
  "overall_status rs = SearchUnrealizable \<longleftrightarrow> (\<exists>r \<in> set rs. sr_required r) \<and> (\<forall>r \<in> set rs. sr_status r \<noteq> Realizable) \<and>
     (\<forall>r \<in> set rs. sr_required r \<longrightarrow> sr_status r = Unrealizable)"
  "overall_status rs \<noteq> SearchNotFound"
proof -
  note expand = overall_status_def Let_def list_all_iff list_ex_iff filter_empty_conv
  show "overall_status rs = SearchWitness \<longleftrightarrow> (\<forall>r \<in> set rs. sr_required r \<longrightarrow> sr_status r = Realizable)"
    by (auto simp: overall_status_def Let_def list_all_iff filter_empty_conv)
  show "overall_status rs = SearchUnrealizable \<longleftrightarrow> (\<exists>r \<in> set rs. sr_required r) \<and> (\<forall>r \<in> set rs. sr_status r \<noteq> Realizable) \<and>
     (\<forall>r \<in> set rs. sr_required r \<longrightarrow> sr_status r = Unrealizable)"
  proof
    assume "overall_status rs = SearchUnrealizable"
    then have "\<not> (\<forall>r \<in> set rs. \<not> sr_required r)" "\<forall>r \<in> set rs. sr_status r \<noteq> Realizable"
      "\<forall>r \<in> set rs. sr_required r \<longrightarrow> sr_status r \<noteq> Blocked \<and> sr_status r \<noteq> StageUnknown"
      by (auto simp: expand split: if_splits)
    then show "(\<exists>r \<in> set rs. sr_required r) \<and> (\<forall>r \<in> set rs. sr_status r \<noteq> Realizable) \<and>
       (\<forall>r \<in> set rs. sr_required r \<longrightarrow> sr_status r = Unrealizable)"
      by (metis stage_status.exhaust)
  qed (auto simp: expand)
  show "overall_status rs \<noteq> SearchNotFound" by (simp add: overall_status_def Let_def)
qed

lemma try_schedules_required: "try_schedules env st g c cp scheds k reason unknown = Inr r \<Longrightarrow> sr_required r = rs_required st"
  by (induction scheds arbitrary: k reason unknown) (auto simp: stage_outcome_def rbind_Inr_iff split: if_splits)

lemma try_boom_required: "try_boom env s st g ms todo k reason unknown = Inr r \<Longrightarrow> sr_required r = rs_required st"
proof (induction todo arbitrary: k reason unknown)
  case (Cons x xs)
  obtain schedule cfg where x: "x = (schedule, cfg)" by (cases x)
  obtain a where a: "boom_attempt env s st g ms schedule cfg = Inr a" using Cons.prems by (auto simp: x rbind_Inr_iff)
  show ?case using Cons a by (cases a) (auto simp: x stage_outcome_def)
qed (auto simp: stage_outcome_def)

lemma realize_stage_required: "realize_stage env s sk st = Inr r \<Longrightarrow> sr_required r = rs_required st"
  by (auto simp: realize_stage_def gap_outcome_def stage_outcome_def realize_boom_def realize_coherence_def rbind_Inr_iff
      dest: try_schedules_required try_boom_required split: if_splits)

definition stage_realized :: "environment \<Rightarrow> search_spec \<Rightarrow> skeleton \<Rightarrow> stage_spec \<Rightarrow> stage_result \<Rightarrow> bool" where
  "stage_realized env s sk st r \<longleftrightarrow> rs_kind st \<noteq> ''interface_gap'' \<and>
     sr_schedule r \<in> set (candidate_schedules (sk_graph sk) (rs_schedules st)) \<and>
     (\<exists>c t. rbind (or_raise (rs_catalog st) PyAssertionError) (load_catalog env s) = Inr c \<and> sr_witness r = Some t \<and>
        (if rs_kind st = ''boom_end_to_end''
         then boom_witness c st (sk_graph sk) t \<and> check_completed_architecture env s t = Inr (sa_target (hs_arch s))
         else validate_trace c (Some False) t = Inr () \<and> realizes_graph st (sk_graph sk) t))"

lemma realize_stage_sound:
  assumes "realize_stage env s sk st = Inr r" and "sr_status r = Realizable"
    and b: "py_lower (ev_backend env) \<noteq> ''z3''" and ss: "single_sources (sk_graph sk)"
  shows "stage_realized env s sk st r"
proof (cases "rs_kind st = ''interface_gap''")
  case True
  then show ?thesis using assms(1,2) by (auto simp: realize_stage_def gap_outcome_def stage_outcome_def)
next
  case False
  show ?thesis
  proof (cases "rs_kind st = ''boom_end_to_end''")
    case True
    then have "realize_boom env s st sk = Inr r" using assms(1) by (simp add: realize_stage_def)
    from realize_boom_sound [OF this assms(2) b ss] show ?thesis using False True unfolding stage_realized_def by auto
  next
    case nb: False
    then have "realize_coherence env s st sk = Inr r" using assms(1) False by (simp add: realize_stage_def)
    from realize_coherence_sound [OF this assms(2) b ss] show ?thesis using False nb unfolding stage_realized_def by auto
  qed
qed

text \<open>The programs a search covers.\<close>

definition searched :: "search_spec \<Rightarrow> bool \<Rightarrow> init_write list \<Rightarrow> op_assignment list \<Rightarrow> bool" where
  "searched s filtered inits as \<longleftrightarrow>
     (if sa_generation (hs_arch s) = ''bounded''
      then filtered \<and> inits = bounded_init_writes (hs_bounds s) \<and>
        (\<exists>raw \<in> set (bounded_programs (hs_bounds s)). canonical s raw \<and> as = materialize_bounded raw)
      else \<not> filtered \<and> inits = sa_init (hs_arch s) \<and> as \<in> set (slot_assignments s) \<and> valid_program_assignment as)"

lemma search_architecture_result:
  assumes "search_architecture env s = Inr oc"
  obtains c m where "load_catalog env s (hs_catalog s) = Inr c" "load_graph_model env s (sa_model (hs_arch s)) = Inr m"
    "case ao_skeleton oc of
       Some sk \<Rightarrow> \<exists>filtered inits as. searched s filtered inits as \<and> finds filtered s c m inits as sk
     | None \<Rightarrow> ao_exhausted oc \<longrightarrow> (\<forall>filtered inits as. searched s filtered inits as \<longrightarrow> refutes filtered s c m inits as)"
proof -
  obtain c m where cm: "load_catalog env s (hs_catalog s) = Inr c" "load_graph_model env s (sa_model (hs_arch s)) = Inr m"
    and r: "(if sa_generation (hs_arch s) = ''bounded'' then bounded_search s c m else explicit_search s c m) = Inr oc"
    using assms by (auto simp: search_architecture_def rbind_Inr_iff)
  show thesis
  proof (rule that [OF cm], cases "sa_generation (hs_arch s) = ''bounded''")
    case True
    then obtain q ct where n: "next_candidate s c m (bounded_programs (hs_bounds s)) (start_counters s) = Inr (q, ct)"
      and oc: "oc = \<lparr>ao_skeleton = map_option fst q, ao_examined = ct_examined ct, ao_rejected = ct_rejected ct,
         ao_estimated = ct_estimated ct,
         ao_exhausted = (case q of None \<Rightarrow> ct_examined ct < sb_assignments (hs_bounds s) | Some _ \<Rightarrow> False)\<rparr>"
      using r by (auto simp: bounded_search_def rbind_Inr_iff)
    show "case ao_skeleton oc of
       Some sk \<Rightarrow> \<exists>filtered inits as. searched s filtered inits as \<and> finds filtered s c m inits as sk
     | None \<Rightarrow> ao_exhausted oc \<longrightarrow> (\<forall>filtered inits as. searched s filtered inits as \<longrightarrow> refutes filtered s c m inits as)"
    proof (cases q)
      case None
      then show ?thesis using next_candidate_result(1) [OF n] True by (auto simp: oc searched_def)
    next
      case (Some x)
      obtain sk rest where x: "x = (sk, rest)" by (cases x)
      obtain pre raw where "bounded_programs (hs_bounds s) = pre @ raw # rest" "canonical s raw"
        "finds True s c m (bounded_init_writes (hs_bounds s)) (materialize_bounded raw) sk"
        using next_candidate_result(1) [OF n] by (auto simp: Some x)
      then have "searched s True (bounded_init_writes (hs_bounds s)) (materialize_bounded raw) \<and>
        finds True s c m (bounded_init_writes (hs_bounds s)) (materialize_bounded raw) sk"
        using True by (auto simp: searched_def)
      then show ?thesis by (auto simp: oc Some x)
    qed
  next
    case False
    then have e: "explicit_search s c m = Inr oc" using r by simp
    show "case ao_skeleton oc of
       Some sk \<Rightarrow> \<exists>filtered inits as. searched s filtered inits as \<and> finds filtered s c m inits as sk
     | None \<Rightarrow> ao_exhausted oc \<longrightarrow> (\<forall>filtered inits as. searched s filtered inits as \<longrightarrow> refutes filtered s c m inits as)"
    proof (cases "ao_skeleton oc")
      case None
      then show ?thesis using explore_result(1) [OF e [unfolded explicit_search_def Let_def]] False
        by (auto simp: searched_def)
    next
      case (Some sk)
      then obtain pre as post where "slot_assignments s = pre @ as # post" "valid_program_assignment as"
        "finds False s c m (sa_init (hs_arch s)) as sk"
        using explore_result(1) [OF e [unfolded explicit_search_def Let_def]] by auto
      then have "searched s False (sa_init (hs_arch s)) as \<and> finds False s c m (sa_init (hs_arch s)) as sk"
        using False by (auto simp: searched_def)
      then show ?thesis by (auto simp: Some)
    qed
  qed
qed

section \<open>What a report means\<close>

lemma layered_report:
  assumes "layered_search env s = Inr r"
  obtains oc where "search_architecture env s = Inr oc" "hr_skeleton r = ao_skeleton oc" "hr_exhausted r = ao_exhausted oc"
    "case ao_skeleton oc of None \<Rightarrow> hr_status r = SearchNotFound
     | Some sk \<Rightarrow> traverse (realize_stage env s sk) (hs_stages s) = Inr (hr_stages r) \<and> hr_status r = overall_status (hr_stages r)"
proof -
  obtain oc where oc: "search_architecture env s = Inr oc" using assms by (auto simp: layered_search_def rbind_Inr_iff)
  show thesis
    by (rule that [OF oc]; cases "ao_skeleton oc")
      (use assms oc in \<open>auto simp: layered_search_def Let_def rbind_Inr_iff report_of_def\<close>)
qed

text \<open>A program the loop has passed over: it is refuted, or its skeleton is not realized end to end.\<close>

definition passed_over :: "environment \<Rightarrow> search_spec \<Rightarrow> event_catalog \<Rightarrow> graph_model \<Rightarrow> raw_op list \<Rightarrow> bool" where
  "passed_over env s c m raw \<longleftrightarrow> refuted_program s c m raw \<or>
     (\<exists>sk stages. finds True s c m (bounded_init_writes (hs_bounds s)) (materialize_bounded raw) sk \<and>
        traverse (realize_stage env s sk) (hs_stages s) = Inr stages \<and> overall_status stages \<noteq> SearchWitness)"

lemma blind_loop_result:
  assumes "blind_loop env s c m todo ct previous stages = Inr r"
  shows "if hr_status r = SearchWitness
    then \<exists>sk. hr_skeleton r = Some sk \<and> (\<exists>raw \<in> set todo. canonical s raw \<and>
        finds True s c m (bounded_init_writes (hs_bounds s)) (materialize_bounded raw) sk) \<and>
      traverse (realize_stage env s sk) (hs_stages s) = Inr (hr_stages r) \<and> overall_status (hr_stages r) = SearchWitness
    else hr_status r = SearchNotFound \<and>
      (hr_exhausted r \<longrightarrow> (\<forall>raw \<in> set todo. canonical s raw \<longrightarrow> passed_over env s c m raw))"
  using assms
proof (induction "length todo" arbitrary: todo ct previous stages rule: less_induct)
  case less
  obtain q ct' where n: "next_candidate s c m todo ct = Inr (q, ct')"
    using less.prems by (cases "next_candidate s c m todo ct") (auto simp: blind_loop.simps)
  note nr = next_candidate_result(1) [OF n]
  show ?case
  proof (cases q)
    case None
    then have r: "r = report_of s SearchNotFound previous stages ct' (ct_examined ct' < sb_assignments (hs_bounds s))
          (blind_metadata s ct')" using less.prems n by (simp add: blind_loop.simps)
    show ?thesis using nr by (auto simp: r report_of_def None passed_over_def)
  next
    case (Some x)
    obtain sk rest where x: "x = (sk, rest)" by (cases x)
    obtain found where st: "traverse (realize_stage env s sk) (hs_stages s) = Inr found"
      using less.prems n by (cases "traverse (realize_stage env s sk) (hs_stages s)") (auto simp: blind_loop.simps Some x)
    obtain pre raw where todo: "todo = pre @ raw # rest" and can: "canonical s raw"
      and f: "finds True s c m (bounded_init_writes (hs_bounds s)) (materialize_bounded raw) sk"
      and pre: "\<forall>x \<in> set pre. canonical s x \<longrightarrow> refuted_program s c m x"
      using nr by (auto simp: Some x)
    show ?thesis
    proof (cases "overall_status found = SearchWitness")
      case True
      then have r: "r = report_of s SearchWitness (Some sk) found ct' False (blind_metadata s ct')"
        using less.prems n st by (simp add: blind_loop.simps Some x)
      show ?thesis using todo can f st True by (auto simp: r report_of_def)
    next
      case False
      then have rest: "blind_loop env s c m rest ct' (Some sk) found = Inr r"
        using less.prems n st by (simp add: blind_loop.simps Some x)
      have here: "passed_over env s c m raw" using f st False unfolding passed_over_def by blast
      have "length rest < length todo" by (simp add: todo)
      from less.hyps [OF this rest] show ?thesis using here pre by (auto simp: todo passed_over_def split: if_splits)
    qed
  qed
qed

text \<open>
  The two results of the whole search. A report with status \<open>witness\<close> names a program within the bounds, an
  execution of it with the target status, and a realization of every required stage; a report with status
  \<open>not_found\<close> that says exhausted has decided every program, or its stages were not realized.
\<close>

lemma run_search_witness:
  assumes r: "run_hierarchical_search env s = Inr r" and w: "hr_status r = SearchWitness"
    and b: "py_lower (ev_backend env) \<noteq> ''z3''"
  shows "\<exists>c m filtered inits as sk. load_catalog env s (hs_catalog s) = Inr c \<and>
    load_graph_model env s (sa_model (hs_arch s)) = Inr m \<and> hr_skeleton r = Some sk \<and>
    searched s filtered inits as \<and> finds filtered s c m inits as sk \<and>
    list_all2 (\<lambda>st res. rs_required st \<longrightarrow> stage_realized env s sk st res) (hs_stages s) (hr_stages r)"
proof -
  have stages: "list_all2 (\<lambda>st res. rs_required st \<longrightarrow> stage_realized env s sk st res) (hs_stages s) rs"
    if "traverse (realize_stage env s sk) (hs_stages s) = Inr rs" "overall_status rs = SearchWitness" "single_sources (sk_graph sk)"
    for sk rs
  proof -
    have *: "list_all2 (\<lambda>st res. realize_stage env s sk st = Inr res) (hs_stages s) rs" using that(1) by (simp add: traverse_Inr_iff)
    have "\<forall>res \<in> set rs. sr_required res \<longrightarrow> sr_status res = Realizable" using that(2) by (simp add: overall_status_iff(1))
    with * show ?thesis
    proof (induction rule: list_all2_induct)
      case (Cons st sts res rs)
      then show ?case using realize_stage_sound [OF _ _ b that(3), of s st res] realize_stage_required [of env s sk st res] by auto
    qed simp
  qed
  have wf: "wf_graph_model m" if "load_graph_model env s path = Inr m" for m path
    using that by (auto simp: load_graph_model_def rbind_Inr_iff intro: graph_model_dec_wf)
  show ?thesis
  proof (cases "sa_generation (hs_arch s) = ''bounded'' \<and> list_ex (\<lambda>st. rs_kind st = ''boom_end_to_end'') (hs_stages s)")
    case True
    then obtain c m where cm: "load_catalog env s (hs_catalog s) = Inr c" "load_graph_model env s (sa_model (hs_arch s)) = Inr m"
      and l: "blind_loop env s c m (bounded_programs (hs_bounds s)) (start_counters s) None [] = Inr r"
      using r by (auto simp: run_hierarchical_search_def blind_search_def rbind_Inr_iff)
    obtain sk raw where f: "hr_skeleton r = Some sk" "raw \<in> set (bounded_programs (hs_bounds s))" "canonical s raw"
      "finds True s c m (bounded_init_writes (hs_bounds s)) (materialize_bounded raw) sk"
      "traverse (realize_stage env s sk) (hs_stages s) = Inr (hr_stages r)" "overall_status (hr_stages r) = SearchWitness"
      using blind_loop_result [OF l] w by auto
    have "searched s True (bounded_init_writes (hs_bounds s)) (materialize_bounded raw)" using True f(2,3) by (auto simp: searched_def)
    then show ?thesis using cm f(1,4) stages [OF f(5,6) found_single_sources [OF f(4) wf [OF cm(2)]]] by blast
  next
    case False
    then have l: "layered_search env s = Inr r" using r by (auto simp: run_hierarchical_search_def)
    obtain oc where oc: "search_architecture env s = Inr oc" "hr_skeleton r = ao_skeleton oc"
      "case ao_skeleton oc of None \<Rightarrow> hr_status r = SearchNotFound
       | Some sk \<Rightarrow> traverse (realize_stage env s sk) (hs_stages s) = Inr (hr_stages r) \<and> hr_status r = overall_status (hr_stages r)"
      by (rule layered_report [OF l])
    then obtain sk where sk: "ao_skeleton oc = Some sk" "traverse (realize_stage env s sk) (hs_stages s) = Inr (hr_stages r)"
      "overall_status (hr_stages r) = SearchWitness" using w by (auto split: option.splits)
    obtain c m where cm: "load_catalog env s (hs_catalog s) = Inr c" "load_graph_model env s (sa_model (hs_arch s)) = Inr m"
      and res: "case ao_skeleton oc of
       Some sk \<Rightarrow> \<exists>filtered inits as. searched s filtered inits as \<and> finds filtered s c m inits as sk
     | None \<Rightarrow> ao_exhausted oc \<longrightarrow> (\<forall>filtered inits as. searched s filtered inits as \<longrightarrow> refutes filtered s c m inits as)"
      by (rule search_architecture_result [OF oc(1)])
    then obtain filtered inits as where f: "searched s filtered inits as" "finds filtered s c m inits as sk" by (auto simp: sk(1))
    show ?thesis
      using cm f oc(2) sk(1) stages [OF sk(2,3) found_single_sources [OF f(2) wf [OF cm(2)]]]
      by (intro exI [of _ c] exI [of _ m] exI [of _ filtered] exI [of _ inits] exI [of _ as] exI [of _ sk]) simp
  qed
qed

lemma run_search_exhausted:
  assumes r: "run_hierarchical_search env s = Inr r" and w: "hr_status r = SearchNotFound" and e: "hr_exhausted r"
    and p: "searched s filtered inits as"
  shows "\<exists>c m. load_catalog env s (hs_catalog s) = Inr c \<and> load_graph_model env s (sa_model (hs_arch s)) = Inr m \<and>
    (refutes filtered s c m inits as \<or> (\<exists>sk stages. finds filtered s c m inits as sk \<and>
       traverse (realize_stage env s sk) (hs_stages s) = Inr stages \<and> overall_status stages \<noteq> SearchWitness))"
proof (cases "sa_generation (hs_arch s) = ''bounded'' \<and> list_ex (\<lambda>st. rs_kind st = ''boom_end_to_end'') (hs_stages s)")
  case True
  then obtain c m where cm: "load_catalog env s (hs_catalog s) = Inr c" "load_graph_model env s (sa_model (hs_arch s)) = Inr m"
    and l: "blind_loop env s c m (bounded_programs (hs_bounds s)) (start_counters s) None [] = Inr r"
    using r by (auto simp: run_hierarchical_search_def blind_search_def rbind_Inr_iff)
  have "\<forall>raw \<in> set (bounded_programs (hs_bounds s)). canonical s raw \<longrightarrow> passed_over env s c m raw"
    using blind_loop_result [OF l] w e by simp
  then show ?thesis using cm p True unfolding searched_def passed_over_def by auto
next
  case False
  then have l: "layered_search env s = Inr r" using r by (auto simp: run_hierarchical_search_def)
  obtain oc where oc: "search_architecture env s = Inr oc" "hr_exhausted r = ao_exhausted oc"
    "case ao_skeleton oc of None \<Rightarrow> hr_status r = SearchNotFound
       | Some sk \<Rightarrow> traverse (realize_stage env s sk) (hs_stages s) = Inr (hr_stages r) \<and> hr_status r = overall_status (hr_stages r)"
    by (rule layered_report [OF l])
  then have n: "ao_skeleton oc = None" using w overall_status_iff(3) [of "hr_stages r"] by (auto split: option.splits)
  obtain c m where cm: "load_catalog env s (hs_catalog s) = Inr c" "load_graph_model env s (sa_model (hs_arch s)) = Inr m"
    and res: "case ao_skeleton oc of
       Some sk \<Rightarrow> \<exists>filtered inits as. searched s filtered inits as \<and> finds filtered s c m inits as sk
     | None \<Rightarrow> ao_exhausted oc \<longrightarrow> (\<forall>filtered inits as. searched s filtered inits as \<longrightarrow> refutes filtered s c m inits as)"
    by (rule search_architecture_result [OF oc(1)])
  then show ?thesis using cm e oc(2) p by (auto simp: n)
qed

end
