(* ===== verification/CoverageIR.thy ===== *)
theory CoverageIR
  imports SearchIR
begin

text \<open>
  Coverage suites (\<open>src/src/umcm/coverage/model.py\<close>): inputs, models, probes, goals, selectors of automatic
  goals and suites, with reading, printing and validation.
\<close>

definition COVERAGE_SCHEMA_VERSION :: string where
  "COVERAGE_SCHEMA_VERSION = ''umcm.coverage.v0.19.0''"

record coverage_input =
  vi_name :: string
  vi_path :: string

definition coverage_input_to_dict :: "coverage_input \<Rightarrow> pyval" where
  "coverage_input_to_dict i = VMap [(''name'', VStr (vi_name i)), (''path'', VStr (vi_path i))]"

definition coverage_input_from_dict :: "pyval \<Rightarrow> coverage_input res" where
  "coverage_input_from_dict v = with_map v (\<lambda>d.
     rbind (get_key d ''name'' SerializationError) (\<lambda>n.
     rbind (get_key d ''path'' SerializationError) (\<lambda>p.
       Inr \<lparr>vi_name = py_str n, vi_path = py_str p\<rparr>)))"

record coverage_model =
  vm_name :: string
  vm_composition :: string
  vm_inputs :: "coverage_input list"
  vm_types :: "string list"

definition coverage_model_to_dict :: "coverage_model \<Rightarrow> pyval" where
  "coverage_model_to_dict m = VMap [(''name'', VStr (vm_name m)), (''composition'', VStr (vm_composition m)),
     (''input_event_types'', VList (map VStr (vm_types m))),
     (''inputs'', VList (map coverage_input_to_dict (vm_inputs m)))]"

definition coverage_model_from_dict :: "pyval \<Rightarrow> coverage_model res" where
  "coverage_model_from_dict v = with_map v (\<lambda>d.
     rbind (list_field d ''inputs'' []) (\<lambda>raw.
     rbind (get_key d ''name'' SerializationError) (\<lambda>n.
     rbind (get_key d ''composition'' SerializationError) (\<lambda>c.
     rbind (traverse coverage_input_from_dict raw) (\<lambda>inputs.
     rbind (string_items (get_default d ''input_event_types'' (VList []))) (\<lambda>types.
     rbind (require (inputs \<noteq> []) CoverageError) (\<lambda>_.
     rbind (require (types \<noteq> []) CoverageError) (\<lambda>_.
       Inr \<lparr>vm_name = py_str n, vm_composition = py_str c, vm_inputs = inputs, vm_types = types\<rparr>))))))))"

record coverage_probe =
  vp_kind :: string
  vp_value :: pyval

definition PROBE_KINDS :: "string list" where
  "PROBE_KINDS = [''event'', ''transformation'', ''state_transition'', ''interface'']"

definition probe_to_dict :: "coverage_probe \<Rightarrow> pyval" where
  "probe_to_dict p = VMap [(vp_kind p, vp_value p)]"

definition probe_from_dict :: "pyval \<Rightarrow> coverage_probe res" where
  "probe_from_dict v = with_map v (\<lambda>d.
     case filter (\<lambda>k. k \<in> fst ` set d) PROBE_KINDS of
       [k] \<Rightarrow> Inr \<lparr>vp_kind = k, vp_value = get_default d k VNone\<rparr>
     | _ \<Rightarrow> Inl SerializationError)"

record coverage_goal =
  vg_id :: string
  vg_model :: string
  vg_probes :: "coverage_probe list"
  vg_description :: string
  vg_category :: string
  vg_required :: bool
  vg_inputs :: "string list"

definition strings_entry :: "string \<Rightarrow> string list \<Rightarrow> (string \<times> pyval) list" where
  "strings_entry k xs = (if xs = [] then [] else [(k, VList (map VStr xs))])"

definition goal_to_dict :: "coverage_goal \<Rightarrow> pyval" where
  "goal_to_dict g = VMap ([(''id'', VStr (vg_id g)), (''model'', VStr (vg_model g)), (''category'', VStr (vg_category g)),
       (''required'', VBool (vg_required g)), (''require'', VList (map probe_to_dict (vg_probes g)))]
     @ (if vg_description g = [] then [] else [(''description'', VStr (vg_description g))])
     @ strings_entry ''inputs'' (vg_inputs g))"

definition goal_from_dict :: "pyval \<Rightarrow> coverage_goal res" where
  "goal_from_dict v = with_map v (\<lambda>d.
     rbind (list_field d ''require'' []) (\<lambda>raw.
     rbind (require (raw \<noteq> []) SerializationError) (\<lambda>_.
     rbind (get_key d ''id'' SerializationError) (\<lambda>i.
     rbind (get_key d ''model'' SerializationError) (\<lambda>m.
     rbind (traverse probe_from_dict raw) (\<lambda>probes.
     rbind (string_items (get_default d ''inputs'' (VList []))) (\<lambda>inputs.
       Inr \<lparr>vg_id = py_str i, vg_model = py_str m, vg_probes = probes,
         vg_description = str_default d ''description'' [], vg_category = str_default d ''category'' ''uncategorized'',
         vg_required = truthy (get_default d ''required'' (VBool True)), vg_inputs = inputs\<rparr>)))))))"

record goal_selector =
  va_model :: string
  va_kind :: string
  va_include :: "string list"
  va_exclude :: "string list"
  va_category :: string
  va_required :: bool
  va_inputs :: "string list"

definition selector_to_dict :: "goal_selector \<Rightarrow> pyval" where
  "selector_to_dict a = VMap ([(''model'', VStr (va_model a)), (''kind'', VStr (va_kind a)),
       (''include'', VList (map VStr (va_include a))), (''exclude'', VList (map VStr (va_exclude a))),
       (''category'', VStr (va_category a)), (''required'', VBool (va_required a))]
     @ strings_entry ''inputs'' (va_inputs a))"

definition SELECTOR_KINDS :: "string list" where
  "SELECTOR_KINDS = [''transformation'', ''public_interface'', ''private_event'']"

definition selector_from_dict :: "pyval \<Rightarrow> goal_selector res" where
  "selector_from_dict v = with_map v (\<lambda>d.
     rbind (get_key d ''kind'' SerializationError) (\<lambda>k.
     rbind (require (py_str k \<in> set SELECTOR_KINDS) CoverageError) (\<lambda>_.
     rbind (get_key d ''model'' SerializationError) (\<lambda>m.
     rbind (string_items (get_default d ''include'' (VList [VStr ''*'']))) (\<lambda>inc.
     rbind (string_items (get_default d ''exclude'' (VList []))) (\<lambda>exc.
     rbind (string_items (get_default d ''inputs'' (VList []))) (\<lambda>inputs.
       Inr \<lparr>va_model = py_str m, va_kind = py_str k, va_include = inc, va_exclude = exc,
         va_category = str_default d ''category'' ''auto'', va_required = truthy (get_default d ''required'' (VBool False)),
         va_inputs = inputs\<rparr>)))))))"

record coverage_suite =
  vs_name :: string
  vs_catalog :: string
  vs_models :: "coverage_model list"
  vs_goals :: "coverage_goal list"
  vs_auto :: "goal_selector list"
  vs_metadata :: "(string \<times> pyval) list"
  vs_source :: "string option"
  vs_version :: string

definition suite_to_dict :: "coverage_suite \<Rightarrow> pyval" where
  "suite_to_dict s = VMap [(''schema_version'', VStr (vs_version s)), (''name'', VStr (vs_name s)),
     (''catalog'', VStr (vs_catalog s)), (''metadata'', VMap (vs_metadata s)),
     (''models'', VList (map coverage_model_to_dict (vs_models s))),
     (''goals'', VList (map goal_to_dict (vs_goals s))), (''auto_goals'', VList (map selector_to_dict (vs_auto s)))]"

definition model_map :: "coverage_suite \<Rightarrow> (string \<times> coverage_model) list" where
  "model_map s = dict_of (map (\<lambda>m. (vm_name m, m)) (vs_models s))"

definition names_inputs :: "coverage_suite \<Rightarrow> string \<Rightarrow> string list \<Rightarrow> unit res" where
  "names_inputs s m inputs =
     rbind (or_raise (map_of (model_map s) m) CoverageError) (\<lambda>model.
       require (set inputs \<subseteq> set (map vi_name (vm_inputs model))) CoverageError)"

definition validate_suite :: "coverage_suite \<Rightarrow> unit res" where
  "validate_suite s =
     rbind (require (distinct (map vm_name (vs_models s))) CoverageError) (\<lambda>_.
     rbind (require (distinct (map vg_id (vs_goals s))) CoverageError) (\<lambda>_.
     rbind (traverse (\<lambda>g. names_inputs s (vg_model g) (vg_inputs g)) (vs_goals s)) (\<lambda>_.
     rbind (traverse (\<lambda>a. names_inputs s (va_model a) (va_inputs a)) (vs_auto s)) (\<lambda>_. Inr ()))))"

definition suite_from_dict :: "pyval \<Rightarrow> coverage_suite res" where
  "suite_from_dict v = with_map v (\<lambda>d.
     rbind (list_field d ''models'' []) (\<lambda>raw_models.
     rbind (list_field d ''goals'' []) (\<lambda>raw_goals.
     rbind (list_field d ''auto_goals'' []) (\<lambda>raw_auto.
     rbind (map_field d ''metadata'') (\<lambda>metadata.
     rbind (get_key d ''name'' SerializationError) (\<lambda>n.
     rbind (get_key d ''catalog'' SerializationError) (\<lambda>c.
     rbind (traverse coverage_model_from_dict raw_models) (\<lambda>models.
     rbind (traverse goal_from_dict raw_goals) (\<lambda>goals.
     rbind (traverse selector_from_dict raw_auto) (\<lambda>auto.
       let s = \<lparr>vs_name = py_str n, vs_catalog = py_str c, vs_models = models, vs_goals = goals, vs_auto = auto,
         vs_metadata = metadata, vs_source = None,
         vs_version = str_default d ''schema_version'' COVERAGE_SCHEMA_VERSION\<rparr> in
       rbind (validate_suite s) (\<lambda>_. Inr s)))))))))))"

definition load_suite :: "(string \<Rightarrow> pyval res option) \<Rightarrow> (string \<Rightarrow> string) \<Rightarrow> string \<Rightarrow> coverage_suite res" where
  "load_suite read real_path path =
     (let source = real_path path in
      rbind (load_data read source) (\<lambda>v.
      rbind (suite_from_dict v) (\<lambda>s. Inr (s\<lparr>vs_source := Some source\<rparr>))))"

definition suite_path :: "(string \<Rightarrow> string) \<Rightarrow> coverage_suite \<Rightarrow> string \<Rightarrow> string" where
  "suite_path real_path s path =
     (case vs_source s of None \<Rightarrow> path | Some p \<Rightarrow> real_path (join_path (parent_dir p) path))"

section \<open>Validation\<close>

lemma names_inputs_Inr:
  assumes "distinct (map vm_name (vs_models s))"
  shows "names_inputs s m inputs = Inr u \<longleftrightarrow>
    (\<exists>model \<in> set (vs_models s). vm_name model = m \<and> set inputs \<subseteq> vi_name ` set (vm_inputs model))"
proof -
  have "map_of (model_map s) m = Some model \<longleftrightarrow> model \<in> set (vs_models s) \<and> vm_name model = m" for model
    using assms by (auto simp: model_map_def dict_of_map_fst map_of_eq_Some_iff o_def)
  then show ?thesis by (auto simp: names_inputs_def rbind_Inr_iff or_raise_Inr_iff require_Inr_iff)
qed

definition inputs_named :: "coverage_suite \<Rightarrow> string \<Rightarrow> string list \<Rightarrow> bool" where
  "inputs_named s m inputs \<longleftrightarrow>
     (\<exists>model \<in> set (vs_models s). vm_name model = m \<and> set inputs \<subseteq> vi_name ` set (vm_inputs model))"

definition wf_suite :: "coverage_suite \<Rightarrow> bool" where
  "wf_suite s \<longleftrightarrow> distinct (map vm_name (vs_models s)) \<and> distinct (map vg_id (vs_goals s)) \<and>
     (\<forall>g \<in> set (vs_goals s). inputs_named s (vg_model g) (vg_inputs g)) \<and>
     (\<forall>a \<in> set (vs_auto s). inputs_named s (va_model a) (va_inputs a))"

lemma validate_suite_iff: "validate_suite s = Inr () \<longleftrightarrow> wf_suite s"
proof (cases "distinct (map vm_name (vs_models s))")
  case True
  have tr: "(\<exists>us. traverse f xs = Inr us) \<longleftrightarrow> (\<forall>x \<in> set xs. f x = Inr ())" for f :: "'x \<Rightarrow> unit res" and xs
    by (induction xs) (auto simp: rbind_Inr_iff)
  show ?thesis
    by (auto simp: validate_suite_def wf_suite_def inputs_named_def rbind_Inr_iff require_Inr_iff True tr names_inputs_Inr [OF True])
qed (simp add: validate_suite_def wf_suite_def rbind_Inr_iff require_Inr_iff)

section \<open>Round trips\<close>

interpretation coverage_input_codec: codec coverage_input_to_dict coverage_input_from_dict "\<lambda>_. True"
  by unfold_locales (simp_all add: coverage_input_from_dict_def coverage_input_to_dict_def)

definition wf_coverage_model :: "coverage_model \<Rightarrow> bool" where
  "wf_coverage_model m \<longleftrightarrow> vm_inputs m \<noteq> [] \<and> vm_types m \<noteq> []"

interpretation coverage_model_codec: codec coverage_model_to_dict coverage_model_from_dict wf_coverage_model
proof unfold_locales
  show "coverage_model_from_dict (coverage_model_to_dict m) = Inr m" if "wf_coverage_model m" for m
    using that by (cases m) (simp add: coverage_model_from_dict_def coverage_model_to_dict_def wf_coverage_model_def
        list_field_def coverage_input_codec.traverse_enc)
  show "wf_coverage_model m" if "coverage_model_from_dict v = Inr m" for v m
    using that by (auto simp: coverage_model_from_dict_def wf_coverage_model_def with_map_Inr rbind_Inr_iff require_Inr_iff)
qed

definition wf_probe :: "coverage_probe \<Rightarrow> bool" where
  "wf_probe p \<longleftrightarrow> vp_kind p \<in> set PROBE_KINDS"

lemma single_case_Inr: "(case xs of [k] \<Rightarrow> f k | _ \<Rightarrow> Inl e) = Inr p \<longleftrightarrow> (\<exists>k. xs = [k] \<and> f k = Inr p)"
  by (auto split: list.splits)

interpretation probe_codec: codec probe_to_dict probe_from_dict wf_probe
proof unfold_locales
  show "probe_from_dict (probe_to_dict p) = Inr p" if "wf_probe p" for p
    using that by (cases p) (auto simp: probe_from_dict_def probe_to_dict_def wf_probe_def PROBE_KINDS_def)
  show "wf_probe p" if dec: "probe_from_dict v = Inr p" for v p
  proof -
    obtain d :: "(string \<times> pyval) list" and k where "filter (\<lambda>k. k \<in> fst ` set d) PROBE_KINDS = [k]" "vp_kind p = k"
      using dec unfolding probe_from_dict_def with_map_Inr single_case_Inr by auto
    then have "k \<in> set (filter (\<lambda>k. k \<in> fst ` set d) PROBE_KINDS)" "vp_kind p = k" by simp_all
    then show ?thesis by (simp add: wf_probe_def)
  qed
qed

definition wf_goal :: "coverage_goal \<Rightarrow> bool" where
  "wf_goal g \<longleftrightarrow> vg_probes g \<noteq> [] \<and> (\<forall>p \<in> set (vg_probes g). wf_probe p)"

lemma get_default_strings_entry [simp]:
  "get_default (strings_entry k xs) k' v = (if k = k' \<and> xs \<noteq> [] then VList (map VStr xs) else v)"
  by (simp add: strings_entry_def)

interpretation goal_codec: codec goal_to_dict goal_from_dict wf_goal
proof unfold_locales
  show "goal_from_dict (goal_to_dict g) = Inr g" if "wf_goal g" for g
    using that by (cases g) (simp add: goal_from_dict_def goal_to_dict_def wf_goal_def list_field_def str_default_def
        probe_codec.traverse_enc)
  show "wf_goal g" if dec: "goal_from_dict v = Inr g" for v g
  proof -
    obtain raw probes where "raw \<noteq> []" "traverse probe_from_dict raw = Inr probes" "vg_probes g = probes"
      using dec by (auto simp: goal_from_dict_def with_map_Inr rbind_Inr_iff require_Inr_iff)
    then show ?thesis using probe_codec.traverse_wf [of raw probes] traverse_length [of probe_from_dict raw probes]
      by (auto simp: wf_goal_def)
  qed
qed

definition wf_selector :: "goal_selector \<Rightarrow> bool" where
  "wf_selector a \<longleftrightarrow> va_kind a \<in> set SELECTOR_KINDS"

interpretation selector_codec: codec selector_to_dict selector_from_dict wf_selector
proof unfold_locales
  show "selector_from_dict (selector_to_dict a) = Inr a" if "wf_selector a" for a
    using that by (cases a) (simp add: selector_from_dict_def selector_to_dict_def wf_selector_def str_default_def)
  show "wf_selector a" if "selector_from_dict v = Inr a" for v a
    using that by (auto simp: selector_from_dict_def wf_selector_def with_map_Inr rbind_Inr_iff require_Inr_iff)
qed

definition printable_suite :: "coverage_suite \<Rightarrow> bool" where
  "printable_suite s \<longleftrightarrow> wf_suite s \<and> (\<forall>m \<in> set (vs_models s). wf_coverage_model m) \<and> (\<forall>g \<in> set (vs_goals s). wf_goal g) \<and>
     (\<forall>a \<in> set (vs_auto s). wf_selector a) \<and> vs_source s = None"

interpretation suite_codec: codec suite_to_dict suite_from_dict printable_suite
proof unfold_locales
  show "suite_from_dict (suite_to_dict s) = Inr s" if p: "printable_suite s" for s
  proof -
    have v: "validate_suite s = Inr ()" using p by (simp add: printable_suite_def validate_suite_iff)
    show ?thesis using p v by (cases s) (simp add: suite_from_dict_def suite_to_dict_def printable_suite_def list_field_def
        map_field_def str_default_def coverage_model_codec.traverse_enc goal_codec.traverse_enc selector_codec.traverse_enc)
  qed
  show "printable_suite s" if dec: "suite_from_dict v = Inr s" for v s
  proof -
    obtain rm rg ra models goals auto where "traverse coverage_model_from_dict rm = Inr models" "vs_models s = models"
      "traverse goal_from_dict rg = Inr goals" "vs_goals s = goals" "traverse selector_from_dict ra = Inr auto" "vs_auto s = auto"
      "validate_suite s = Inr ()" "vs_source s = None"
      using dec by (auto simp: suite_from_dict_def with_map_Inr rbind_Inr_iff Let_def)
    then show ?thesis using coverage_model_codec.traverse_wf goal_codec.traverse_wf selector_codec.traverse_wf
      by (simp add: printable_suite_def flip: validate_suite_iff)
  qed
qed

end
