(* ===== verification/Glob.thy ===== *)
theory Glob
  imports Prelude
begin

text \<open>
  \<open>fnmatch.fnmatchcase\<close>, which the coverage engine uses for names: a pattern is parsed into tokens as
  \<open>fnmatch.translate\<close> does (an unclosed bracket is a plain character, an empty range is dropped), and the
  matcher agrees with the language of the tokens.
\<close>

datatype class_item = One char | Span char char

datatype glob_token = Star | AnyChar | Exactly char | OneOf "class_item list" | NoneOf "class_item list"

fun class_items :: "string \<Rightarrow> class_item list" where
  "class_items (c # m # d # rest) =
     (if m = CHR ''-'' then Span c d # class_items rest else One c # class_items (m # d # rest))"
| "class_items cs = map One cs"

definition nonempty_item :: "class_item \<Rightarrow> bool" where
  "nonempty_item i = (case i of One c \<Rightarrow> True | Span c d \<Rightarrow> c \<le> d)"

definition in_item :: "char \<Rightarrow> class_item \<Rightarrow> bool" where
  "in_item c i = (case i of One d \<Rightarrow> c = d | Span a b \<Rightarrow> a \<le> c \<and> c \<le> b)"

text \<open>
  The text between the brackets. An exclamation mark negates; it also does where only empty ranges stand
  before it, since they are removed first.
\<close>

definition class_token :: "string \<Rightarrow> glob_token" where
  "class_token body =
     (if take 1 body = ''!'' then NoneOf (filter nonempty_item (class_items (drop 1 body)))
      else let items = filter nonempty_item (class_items body) in
        case items of
          One c # r \<Rightarrow> if c = CHR ''!'' then NoneOf r else OneOf items
        | Span c d # r \<Rightarrow> if c = CHR ''!'' then NoneOf (One (CHR ''-'') # One d # r) else OneOf items
        | [] \<Rightarrow> OneOf [])"

definition bracket :: "string \<Rightarrow> (string \<times> string) option" where
  "bracket s =
     (let (pre, s) = (if take 1 s = ''!'' then (''!'', drop 1 s) else ([], s));
          (pre, s) = (if take 1 s = '']'' then (pre @ '']'', drop 1 s) else (pre, s));
          rest = dropWhile (\<lambda>c. c \<noteq> CHR '']'') s in
      if rest = [] then None else Some (pre @ takeWhile (\<lambda>c. c \<noteq> CHR '']'') s, tl rest))"

lemma length_dropWhile_less: "length (tl (dropWhile P s)) \<le> length s"
  using length_dropWhile_le [of P s] by simp

lemma bracket_shorter: "bracket s = Some (body, rest) \<Longrightarrow> length rest \<le> length s"
proof -
  have "length (tl (dropWhile P (drop n s))) \<le> length s" for P n
    using length_dropWhile_less [of P "drop n s"] by simp
  from this [of _ 0] this [of _ 1] this [of _ 2] show "bracket s = Some (body, rest) \<Longrightarrow> length rest \<le> length s"
    by (auto simp: bracket_def Let_def numeral_2_eq_2 drop_Suc tl_drop split: if_splits)
qed

function parse_glob :: "string \<Rightarrow> glob_token list" where
  "parse_glob [] = []"
| "parse_glob (c # s) =
     (if c = CHR ''*'' then Star # parse_glob s
      else if c = CHR ''?'' then AnyChar # parse_glob s
      else if c = CHR ''['' then (case bracket s of
          None \<Rightarrow> Exactly c # parse_glob s
        | Some (body, rest) \<Rightarrow> class_token body # parse_glob rest)
      else Exactly c # parse_glob s)"
  by pat_completeness auto
termination by (relation "measure length") (auto dest: bracket_shorter)

definition token_accepts :: "glob_token \<Rightarrow> char \<Rightarrow> bool" where
  "token_accepts t c = (case t of Star \<Rightarrow> False | AnyChar \<Rightarrow> True | Exactly d \<Rightarrow> c = d
     | OneOf is \<Rightarrow> list_ex (in_item c) is | NoneOf is \<Rightarrow> \<not> list_ex (in_item c) is)"

function glob_match :: "glob_token list \<Rightarrow> string \<Rightarrow> bool" where
  "glob_match [] s = (s = [])"
| "glob_match (t # ts) s =
     (if t = Star then glob_match ts s \<or> (case s of [] \<Rightarrow> False | c # cs \<Rightarrow> glob_match (t # ts) cs)
      else case s of [] \<Rightarrow> False | c # cs \<Rightarrow> token_accepts t c \<and> glob_match ts cs)"
  by pat_completeness auto
termination by (relation "measure (\<lambda>(ts, s). length ts + length s)") auto

declare glob_match.simps(2) [simp del]

definition matches_pattern :: "string \<Rightarrow> string \<Rightarrow> bool" where
  "matches_pattern value pattern \<longleftrightarrow> value = pattern \<or> glob_match (parse_glob pattern) value"

section \<open>The language of a pattern\<close>

fun glob_language :: "glob_token list \<Rightarrow> string set" where
  "glob_language [] = {[]}"
| "glob_language (t # ts) =
     (if t = Star then {u @ v |u v. v \<in> glob_language ts} else {c # v |c v. token_accepts t c \<and> v \<in> glob_language ts})"

lemma glob_match_iff: "glob_match ts s \<longleftrightarrow> s \<in> glob_language ts"
proof (induction ts s rule: glob_match.induct)
  case (2 t ts s)
  show ?case
  proof (cases "t = Star")
    case True
    have "(\<exists>u v. s = u @ v \<and> v \<in> L) \<longleftrightarrow> s \<in> L \<or> (\<exists>c cs. s = c # cs \<and> (\<exists>u v. cs = u @ v \<and> v \<in> L))" for L :: "string set"
      by (cases s) (auto simp: append_eq_Cons_conv Cons_eq_append_conv)
    from this [of "glob_language ts"] show ?thesis
      using 2 True by (cases s) (simp_all add: glob_match.simps(2))
  next
    case False
    then show ?thesis using 2 by (cases s) (simp_all add: glob_match.simps(2))
  qed
qed simp

lemma star_matches: "matches_pattern v ''*''"
  by (simp add: matches_pattern_def glob_match_iff)

lemma parse_plain: "set s \<inter> set ''*?['' = {} \<Longrightarrow> parse_glob s = map Exactly s"
  by (induction s) auto

lemma plain_matches: "set s \<inter> set ''*?['' = {} \<Longrightarrow> matches_pattern v s \<longleftrightarrow> v = s"
proof -
  have "glob_match (map Exactly s) v \<longleftrightarrow> v = s"
    unfolding glob_match_iff by (induction s arbitrary: v) (auto simp: token_accepts_def)
  then show "set s \<inter> set ''*?['' = {} \<Longrightarrow> matches_pattern v s \<longleftrightarrow> v = s"
    by (auto simp: matches_pattern_def parse_plain)
qed

end
