(* ===== verification/CoverageRun.thy ===== *)
theory CoverageRun
  imports CoverageIR Glob Realize
begin

text \<open>
  The coverage engine (\<open>src/src/umcm/coverage/engine.py\<close>): preparing the input cases of a suite, compiling a
  goal into a constraint and state requirements of a case, searching its witness, the structural
  inventory and the goals generated from it, and the report. A problem is copied before a goal changes
  it; here it is a value. The texts of reasons are not modelled, a reason holds what they are made of.
\<close>

section \<open>Results\<close>

datatype coverage_status = Covered | Uncovered | Unreachable | CoverageUnknown

definition coverage_status_value :: "coverage_status \<Rightarrow> string" where
  "coverage_status_value s = (case s of Covered \<Rightarrow> ''covered'' | Uncovered \<Rightarrow> ''uncovered''
     | Unreachable \<Rightarrow> ''unreachable'' | CoverageUnknown \<Rightarrow> ''unknown'')"

datatype probe_reason = NoBinding string | UnknownInterface string string | NoSlot string | NoWriter string pyval

datatype solve_note = Raised py_error | Stopped "solve_reason option"

datatype goal_reason =
    NoCases | WitnessFound
  | NoProducer "(string \<times> probe_reason list) list"
  | Inconclusive "(string \<times> solve_note) list"
  | Rejecting "(string \<times> probe_reason list) list" "(string \<times> solve_note) list"

record goal_result =
  gr_goal :: coverage_goal
  gr_status :: coverage_status
  gr_reason :: goal_reason
  gr_input :: "string option"
  gr_witness :: "trace option"
  gr_hidden :: nat
  gr_active :: "string list"
  gr_explored :: int
  gr_path :: "string option"

text \<open>A path is stored into the \<open>witness\<close> entry, which is there only with a witness.\<close>

definition witness_entry :: "goal_result \<Rightarrow> (string \<times> pyval) list res" where
  "witness_entry r =
     (case gr_witness r of
        None \<Rightarrow> (case gr_path r of None \<Rightarrow> Inr [] | Some _ \<Rightarrow> Inl PyKeyError)
      | Some t \<Rightarrow> Inr [(''witness'', VMap ([(''event_count'', VInt (int (length (tr_events t)))),
          (''hidden_event_count'', VInt (int (gr_hidden r))), (''active_transformations'', str_list (gr_active r))]
          @ option_entry ''path'' (gr_path r)))])"

definition goal_result_to_dict :: "(goal_reason \<Rightarrow> string) \<Rightarrow> goal_result \<Rightarrow> pyval res" where
  "goal_result_to_dict reason_text r = (let g = gr_goal r in
     rbind (witness_entry r) (\<lambda>w.
       Inr (VMap ([(''id'', VStr (vg_id g)), (''model'', VStr (vg_model g)), (''category'', VStr (vg_category g)),
           (''required'', VBool (vg_required g)), (''status'', VStr (coverage_status_value (gr_status r))),
           (''reason'', VStr (reason_text (gr_reason r)))]
         @ (if vg_description g = [] then [] else [(''description'', VStr (vg_description g))])
         @ option_entry ''input'' (gr_input r) @ w
         @ (if gr_explored r = 0 then [] else [(''explored_nodes'', VInt (gr_explored r))])))))"

section \<open>Input cases\<close>

record prepared_case =
  pc_catalog :: event_catalog
  pc_model :: coverage_model
  pc_name :: string
  pc_path :: string
  pc_trace :: trace
  pc_composed :: composition_result
  pc_problem :: bounded_problem

definition composition_at :: "environment \<Rightarrow> string \<Rightarrow> composition res" where
  "composition_at env path =
     (let source = ev_real env path in
      rbind (load_data (ev_read env) source) (\<lambda>v.
      rbind (composition_from_dict v) (\<lambda>cp. Inr (cp\<lparr>cp_source := Some source\<rparr>))))"

definition prepare_case :: "environment \<Rightarrow> coverage_suite \<Rightarrow> event_catalog \<Rightarrow> coverage_model \<Rightarrow> composition \<Rightarrow> coverage_input \<Rightarrow>
    prepared_case res" where
  "prepare_case env s c m cp i =
     (let path = suite_path (ev_real env) s (vi_path i) in
      rbind (load_data (ev_read env) path) (\<lambda>v.
      rbind (trace_from_dict v) (\<lambda>t.
      rbind (validate_trace c None t) (\<lambda>_.
      rbind (require (ei_type ` set (tr_events t) \<subseteq> set (vm_types m)) CoverageError) (\<lambda>_.
      rbind (compose_in env c cp t) (\<lambda>composed.
      rbind (build_problem c t (co_completion composed)) (\<lambda>p.
        Inr \<lparr>pc_catalog = c, pc_model = m, pc_name = vi_name i, pc_path = path, pc_trace = t, pc_composed = composed,
          pc_problem = p\<rparr>)))))))"

definition prepare_cases :: "environment \<Rightarrow> coverage_suite \<Rightarrow> event_catalog \<Rightarrow> prepared_case list res" where
  "prepare_cases env s c =
     rbind (traverse (\<lambda>m.
       rbind (composition_at env (suite_path (ev_real env) s (vm_composition m))) (\<lambda>cp.
         traverse (prepare_case env s c m cp) (vm_inputs m))) (vs_models s)) (\<lambda>css. Inr (concat css))"

section \<open>Probes\<close>

text \<open>
  A probe gives either the reason it has nothing to match, or an expression, together with the problem it
  may have added state requirements to.
\<close>

type_synonym compiled = "bounded_problem \<times> (probe_reason + expr)"

definition probe_mapping :: "pyval \<Rightarrow> (string \<times> pyval) list res" where
  "probe_mapping v = (case v of VMap d \<Rightarrow> Inr d | _ \<Rightarrow> Inl CoverageError)"

definition event_query :: "pyval \<Rightarrow> (string \<times> (string \<times> pyval) list) res" where
  "event_query v = (case v of
       VMap d \<Rightarrow> rbind (probe_mapping (get_default d ''fields'' (VMap []))) (\<lambda>fs. Inr (str_default d ''type'' ''*'', fs))
     | _ \<Rightarrow> Inr (py_str v, []))"

text \<open>The sort a field is compared at; \<open>None\<close> where the event cannot match.\<close>

definition query_sort :: "event_type \<Rightarrow> event_instance \<Rightarrow> string \<Rightarrow> pysort option" where
  "query_sort ty e f =
     (if f = ''cycle'' then
        (if ei_cycle e = VNone then None else Some (case ei_cycle e of VExpr x \<Rightarrow> expr_sort x | _ \<Rightarrow> INT_SORT))
      else (case map_of (field_map ty) f of
          None \<Rightarrow> None
        | Some s \<Rightarrow> if map_of (ei_fields e) f = None then None else Some (fs_sort s)))"

fun query_predicates :: "event_type \<Rightarrow> event_instance \<Rightarrow> (string \<times> pyval) list \<Rightarrow> expr list option res" where
  "query_predicates ty e [] = Inr (Some [])"
| "query_predicates ty e ((f, v) # rest) =
     (case query_sort ty e f of
        None \<Rightarrow> Inr None
      | Some s \<Rightarrow>
          rbind (mk_literal v (Some s)) (\<lambda>l.
          rbind (mk_binary ''eq'' (EventField (ei_id e) f s) l) (\<lambda>x.
          rbind (query_predicates ty e rest) (\<lambda>xs. Inr (map_option (\<lambda>xs. x # xs) xs)))))"

definition event_alternative :: "bounded_problem \<Rightarrow> (string \<times> pyval) list \<Rightarrow> event_instance \<Rightarrow> expr option res" where
  "event_alternative p fs e =
     rbind (resolve (bp_catalog p) (ei_type e)) (\<lambda>ty.
     rbind (query_predicates ty e fs) (\<lambda>xs.
       Inr (map_option (\<lambda>xs. conjunction (EventField (ei_id e) ''occurs'' BOOL_SORT # xs)) xs)))"

definition event_probe :: "bounded_problem \<Rightarrow> pyval \<Rightarrow> (probe_reason + expr) res" where
  "event_probe p v =
     rbind (event_query v) (\<lambda>(pattern, fs).
     rbind (traverse (event_alternative p fs) (filter (\<lambda>e. matches_pattern (ei_type e) pattern) (bp_events p))) (\<lambda>xs.
       let alternatives = List.map_filter (\<lambda>x. x) xs in
       Inr (if alternatives = [] then Inl (NoSlot pattern) else Inr (disjunction alternatives))))"

definition activation_requirements :: "string \<Rightarrow> nat \<times> activation \<Rightarrow> requirement_instance list" where
  "activation_requirements prefix ia = (case ia of (i, a) \<Rightarrow>
     map (\<lambda>(j, g). \<lparr>ri_name = prefix @ ''.activation.'' @ dec_nat i @ ''.state.'' @ dec_nat j, ri_state = gp_state g,
         ri_cycle = gp_cycle g, ri_activation = ac_expr a, ri_op = gp_op g, ri_expected = gp_expected g, ri_origin = prefix\<rparr>)
       (enumerate 0 (ac_predicates a)))"

definition add_requirements :: "bounded_problem \<Rightarrow> requirement_instance list \<Rightarrow> bounded_problem" where
  "add_requirements p rs = p\<lparr>bp_requirements := bp_requirements p @ rs\<rparr>"

definition transformation_pattern :: "pyval \<Rightarrow> string" where
  "transformation_pattern v = (case v of VMap d \<Rightarrow> str_default d ''name'' ''*'' | _ \<Rightarrow> py_str v)"

definition transformation_probe :: "bounded_problem \<Rightarrow> pyval \<Rightarrow> string \<Rightarrow> compiled" where
  "transformation_probe p v prefix =
     (let pattern = transformation_pattern v;
          candidates = filter (\<lambda>a. matches_pattern (ac_transformation a) pattern) (bp_activations p) in
      if candidates = [] then (p, Inl (NoBinding pattern))
      else (add_requirements p (concat (map (activation_requirements prefix) (enumerate 0 candidates))),
        Inr (disjunction (map ac_expr candidates))))"

definition interface_probe :: "bounded_problem \<Rightarrow> composition_result \<Rightarrow> pyval \<Rightarrow> (probe_reason + expr) res" where
  "interface_probe p composed v =
     rbind (probe_mapping v) (\<lambda>d.
       let m = str_default d ''module'' []; port = str_default d ''port'' [] in
       case find (\<lambda>l. lm_reference l = m) (co_modules composed) of
         None \<Rightarrow> Inr (Inl (UnknownInterface m port))
       | Some l \<Rightarrow> (case map_of (port_map (lm_spec l)) port of
             None \<Rightarrow> Inr (Inl (UnknownInterface m port))
           | Some po \<Rightarrow> event_probe p (VMap [(''type'', VStr (po_type po))])))"

definition transition_step :: "(string \<times> pyval) list \<Rightarrow> pyval \<Rightarrow> (string \<times> state_variable) list \<Rightarrow> string \<Rightarrow>
    requirement_instance list \<times> expr list \<Rightarrow> nat \<times> update_instance \<Rightarrow> (requirement_instance list \<times> expr list) res" where
  "transition_step d target states prefix acc iu = (case acc of (rs, alternatives) \<Rightarrow> case iu of (i, u) \<Rightarrow>
     rbind (or_raise (map_of states (ui_state u)) PyKeyError) (\<lambda>sv.
     rbind (mk_literal target (Some (sv_sort sv))) (\<lambda>l.
     rbind (mk_binary ''eq'' (ui_value u) l) (\<lambda>x.
       let reaches = conjunction [ui_activation u, x] in
       rbind (case map_of d ''from'' of
           None \<Rightarrow> Inr []
         | Some v \<Rightarrow> rbind (mk_literal v (Some (sv_sort sv))) (\<lambda>l.
             Inr [\<lparr>ri_name = prefix @ ''.from.'' @ dec_nat i, ri_state = ui_state u, ri_cycle = ui_cycle u,
               ri_activation = reaches, ri_op = ''eq'', ri_expected = l, ri_origin = prefix\<rparr>])) (\<lambda>new.
         Inr (rs @ new, alternatives @ [reaches]))))))"

definition state_transition_probe :: "bounded_problem \<Rightarrow> pyval \<Rightarrow> string \<Rightarrow> compiled res" where
  "state_transition_probe p v prefix =
     rbind (probe_mapping v) (\<lambda>d.
     rbind (or_raise (map_of d ''state'') CoverageError) (\<lambda>sv.
     rbind (or_raise (map_of d ''to'') CoverageError) (\<lambda>target.
       let pattern = py_str sv; states = dict_of (map (\<lambda>x. (sv_name x, x)) (cs_state_variables (bp_spec p))) in
       rbind (fold_res (transition_step d target states prefix) ([], [])
           (filter (\<lambda>(i, u). matches_pattern (ui_state u) pattern) (enumerate 0 (bp_updates p)))) (\<lambda>(rs, alternatives).
         Inr (add_requirements p rs,
           if alternatives = [] then Inl (NoWriter pattern target) else Inr (disjunction alternatives))))))"

definition compile_probe :: "bounded_problem \<Rightarrow> composition_result \<Rightarrow> coverage_probe \<Rightarrow> string \<Rightarrow> compiled res" where
  "compile_probe p composed probe prefix =
     (if vp_kind probe = ''event'' then rbind (event_probe p (vp_value probe)) (\<lambda>x. Inr (p, x))
      else if vp_kind probe = ''transformation'' then Inr (transformation_probe p (vp_value probe) prefix)
      else if vp_kind probe = ''interface'' then rbind (interface_probe p composed (vp_value probe)) (\<lambda>x. Inr (p, x))
      else if vp_kind probe = ''state_transition'' then state_transition_probe p (vp_value probe) prefix
      else Inl CoverageError)"

fun compile_probes :: "composition_result \<Rightarrow> string \<Rightarrow> bounded_problem \<Rightarrow> (nat \<times> coverage_probe) list \<Rightarrow>
    (bounded_problem \<times> probe_reason list \<times> expr list) res" where
  "compile_probes composed prefix p [] = Inr (p, [], [])"
| "compile_probes composed prefix p ((i, probe) # rest) =
     rbind (compile_probe p composed probe (prefix @ ''.'' @ dec_nat i)) (\<lambda>(p, x).
     rbind (compile_probes composed prefix p rest) (\<lambda>(p, reasons, xs).
       Inr (case x of Inl r \<Rightarrow> (p, r # reasons, xs) | Inr e \<Rightarrow> (p, reasons, e # xs))))"

definition compile_goal :: "bounded_problem \<Rightarrow> composition_result \<Rightarrow> coverage_goal \<Rightarrow> (bounded_problem \<times> (probe_reason list + expr)) res" where
  "compile_goal p composed g =
     rbind (compile_probes composed (''coverage.'' @ vg_id g) p (enumerate 0 (vg_probes g))) (\<lambda>(p, reasons, xs).
       Inr (p, if reasons \<noteq> [] then Inl reasons else Inr (conjunction xs)))"

section \<open>One goal\<close>

datatype case_result = CaseMissing "probe_reason list" | CaseRaised py_error | CaseSolved completion_result

definition goal_constraint :: "coverage_goal \<Rightarrow> expr \<Rightarrow> named_constraint" where
  "goal_constraint g e = \<lparr>nc_name = ''coverage.goal.'' @ vg_id g, nc_expr = e, nc_origin = ''coverage:'' @ vg_id g\<rparr>"

definition solve_case :: "environment \<Rightarrow> coverage_goal \<Rightarrow> prepared_case \<Rightarrow> case_result res" where
  "solve_case env g pc =
     rbind (compile_goal (pc_problem pc) (pc_composed pc) g) (\<lambda>(p, compiled).
       case compiled of
         Inl reasons \<Rightarrow> Inr (CaseMissing reasons)
       | Inr e \<Rightarrow> rbind (complete_in env True (add_constraints p [goal_constraint g e])) (\<lambda>r. Inr (CaseSolved r)))"

text \<open>\<open>except UMCMError\<close>\<close>

definition cover_case :: "environment \<Rightarrow> coverage_goal \<Rightarrow> prepared_case \<Rightarrow> case_result res" where
  "cover_case env g pc = (case solve_case env g pc of
     Inl e \<Rightarrow> if is_umcm_error e then Inr (CaseRaised e) else Inl e | Inr r \<Rightarrow> Inr r)"

definition cycle_or_zero :: "event_instance \<Rightarrow> int" where
  "cycle_or_zero e = (case as_int (ei_cycle e) of Some i \<Rightarrow> i | None \<Rightarrow> 0)"

definition max_cycle :: "trace \<Rightarrow> int" where
  "max_cycle t = (case map cycle_or_zero (tr_events t) of [] \<Rightarrow> 0 | i # is \<Rightarrow> fold max is i)"

type_synonym candidate_witness = "(nat \<times> nat \<times> int) \<times> prepared_case \<times> completion_result"

record cover_state =
  cv_feasible :: "candidate_witness list"
  cv_missing :: "(string \<times> probe_reason list) list"
  cv_notes :: "(string \<times> solve_note) list"
  cv_unknown :: bool
  cv_nodes :: int

definition note_case :: "cover_state \<Rightarrow> string \<Rightarrow> solve_note \<Rightarrow> cover_state" where
  "note_case s name n = s\<lparr>cv_notes := cv_notes s @ [(name, n)]\<rparr>"

definition cover_step :: "environment \<Rightarrow> coverage_goal \<Rightarrow> cover_state \<Rightarrow> prepared_case \<Rightarrow> cover_state res" where
  "cover_step env g s pc =
     rbind (cover_case env g pc) (\<lambda>r.
       case r of
         CaseMissing reasons \<Rightarrow> Inr (s\<lparr>cv_missing := cv_missing s @ [(pc_name pc, reasons)]\<rparr>)
       | CaseRaised e \<Rightarrow> Inr (note_case s (pc_name pc) (Raised e))
       | CaseSolved res \<Rightarrow>
           let s = s\<lparr>cv_nodes := cv_nodes s + cr_explored res\<rparr> in
           if cr_status res = Feasible then
             rbind (or_raise (cr_trace res) PyAssertionError) (\<lambda>t.
               Inr (s\<lparr>cv_feasible := cv_feasible s
                 @ [((length (cr_added res), length (tr_events t), max_cycle t), pc, res)]\<rparr>))
           else Inr (note_case (s\<lparr>cv_unknown := cv_unknown s \<or> cr_status res = CompletionUnknown\<rparr>) (pc_name pc)
             (Stopped (cr_reason res))))"

definition plain_result :: "coverage_goal \<Rightarrow> coverage_status \<Rightarrow> goal_reason \<Rightarrow> int \<Rightarrow> goal_result" where
  "plain_result g status reason nodes = \<lparr>gr_goal = g, gr_status = status, gr_reason = reason, gr_input = None, gr_witness = None,
     gr_hidden = 0, gr_active = [], gr_explored = nodes, gr_path = None\<rparr>"

definition covered_result :: "coverage_goal \<Rightarrow> int \<Rightarrow> candidate_witness \<Rightarrow> goal_result res" where
  "covered_result g nodes w = (case w of (score, pc, res) \<Rightarrow>
     rbind (or_raise (cr_trace res) PyAssertionError) (\<lambda>t.
       Inr ((plain_result g Covered WitnessFound nodes)\<lparr>gr_input := Some (pc_name pc), gr_witness := Some t,
         gr_hidden := length (cr_added res),
         gr_active := sort (remdups (map at_transformation (cr_active res)))\<rparr>)))"

text \<open>\<open>min(feasible, key=...)\<close> is the first of the least.\<close>

definition least_witness :: "candidate_witness list \<Rightarrow> candidate_witness" where
  "least_witness ws = hd (sort_key fst ws)"

definition cover_goal :: "environment \<Rightarrow> coverage_goal \<Rightarrow> prepared_case list \<Rightarrow> goal_result res" where
  "cover_goal env g cases =
     (if cases = [] then Inr (plain_result g Unreachable NoCases 0)
      else rbind (fold_res (cover_step env g)
          \<lparr>cv_feasible = [], cv_missing = [], cv_notes = [], cv_unknown = False, cv_nodes = 0\<rparr> cases) (\<lambda>s.
        if cv_feasible s \<noteq> [] then covered_result g (cv_nodes s) (least_witness (cv_feasible s))
        else if cv_missing s \<noteq> [] \<and> cv_notes s = [] then
          Inr (plain_result g Unreachable (NoProducer (cv_missing s)) (cv_nodes s))
        else if cv_unknown s then Inr (plain_result g CoverageUnknown (Inconclusive (cv_notes s)) (cv_nodes s))
        else Inr (plain_result g Uncovered (Rejecting (cv_missing s) (cv_notes s)) (cv_nodes s))))"

end
