(* ===== verification/CoverageReport.thy ===== *)
theory CoverageReport
  imports CoverageRun
begin

text \<open>
  The structural inventory of the prepared cases, the goals generated from it, the report and the whole
  coverage run (\<open>src/src/umcm/coverage/engine.py\<close>).
\<close>

section \<open>The structural inventory\<close>

definition sorted_set :: "string list \<Rightarrow> string list" where
  "sorted_set xs = sort (remdups xs)"

definition case_producers :: "prepared_case \<Rightarrow> (string \<times> string) list" where
  "case_producers pc = concat (map (\<lambda>t. map (\<lambda>r. (ro_type r, tf_name t)) (tf_outputs t))
     (cs_transformations (co_completion (pc_composed pc))))"

definition module_private :: "loaded_module \<Rightarrow> string list" where
  "module_private l = mo_internal (lm_spec l) @
     filter (\<lambda>t. t \<notin> set (map po_type (mo_ports (lm_spec l)))) (map sl_type (mo_slots (lm_spec l)))"

record inventory =
  iv_inputs :: "string list"
  iv_transformations :: "string list"
  iv_states :: "string list"
  iv_interfaces :: "string list"
  iv_private :: "string list"
  iv_producers :: "(string \<times> string list) list"
  iv_orphans :: "string list"
  iv_unbound :: "string list"

text \<open>The sets of a model are collected over its cases.\<close>

definition model_inventory :: "prepared_case list \<Rightarrow> inventory" where
  "model_inventory cases =
     (let completions = map (\<lambda>pc. co_completion (pc_composed pc)) cases;
          modules = concat (map (\<lambda>pc. co_modules (pc_composed pc)) cases);
          transformations = concat (map (\<lambda>c. map tf_name (cs_transformations c)) completions);
          bound = concat (map (\<lambda>pc. map ac_transformation (bp_activations (pc_problem pc))) cases);
          private = concat (map module_private modules);
          producers = concat (map case_producers cases) in
      \<lparr>iv_inputs = sort (map pc_name cases),
        iv_transformations = sorted_set transformations,
        iv_states = sorted_set (concat (map (\<lambda>c. map sv_name (cs_state_variables c)) completions)),
        iv_interfaces = sorted_set (concat (map (\<lambda>l. map (\<lambda>po. lm_reference l @ ''.'' @ po_name po) (mo_ports (lm_spec l))) modules)),
        iv_private = sorted_set private,
        iv_producers = map (\<lambda>t. (t, sorted_set (map snd (filter (\<lambda>x. fst x = t) producers)))) (sorted_set (map fst producers)),
        iv_orphans = sorted_set (filter (\<lambda>t. t \<notin> set (map fst producers)) private),
        iv_unbound = sorted_set (filter (\<lambda>t. t \<notin> set bound) transformations)\<rparr>)"

definition structural_inventory :: "prepared_case list \<Rightarrow> (string \<times> inventory) list" where
  "structural_inventory cases =
     map (\<lambda>n. (n, model_inventory (filter (\<lambda>pc. vm_name (pc_model pc) = n) cases)))
       (sorted_set (map (\<lambda>pc. vm_name (pc_model pc)) cases))"

definition inventory_to_dict :: "inventory \<Rightarrow> pyval" where
  "inventory_to_dict i = VMap [(''inputs'', str_list (iv_inputs i)), (''transformations'', str_list (iv_transformations i)),
     (''state_variables'', str_list (iv_states i)), (''public_interfaces'', str_list (iv_interfaces i)),
     (''private_events'', str_list (iv_private i)),
     (''event_producers'', VMap (map (\<lambda>(t, ns). (t, str_list ns)) (iv_producers i))),
     (''orphan_private_event_types'', str_list (iv_orphans i)),
     (''no_bounded_transformation_binding'', str_list (iv_unbound i))]"

definition structural_to_dict :: "(string \<times> inventory) list \<Rightarrow> pyval" where
  "structural_to_dict st = VMap [(''models'', VMap (map (\<lambda>(n, i). (n, inventory_to_dict i)) st))]"

section \<open>Automatic goals\<close>

definition selected :: "goal_selector \<Rightarrow> string \<Rightarrow> bool" where
  "selected a v \<longleftrightarrow> list_ex (matches_pattern v) (va_include a) \<and> \<not> list_ex (matches_pattern v) (va_exclude a)"

text \<open>\<open>str.isalnum\<close> on ASCII names, and \<open>strip("_")\<close>.\<close>

definition safe_name :: "string \<Rightarrow> string" where
  "safe_name v =
     (let u = dropWhile (\<lambda>c. c = CHR ''_'') (map (\<lambda>c. if is_alnum c then c else CHR ''_'') v) in
      rev (dropWhile (\<lambda>c. c = CHR ''_'') (rev u)))"

definition split_interface :: "string \<Rightarrow> (string \<times> string) res" where
  "split_interface v =
     (let m = takeWhile (\<lambda>c. c \<noteq> CHR ''.'') v; rest = dropWhile (\<lambda>c. c \<noteq> CHR ''.'') v in
      rbind (require (rest \<noteq> []) PyValueError) (\<lambda>_. Inr (m, tl rest)))"

definition auto_probe :: "goal_selector \<Rightarrow> string \<Rightarrow> coverage_probe res" where
  "auto_probe a v =
     (if va_kind a = ''public_interface'' then
        rbind (split_interface v) (\<lambda>(m, port).
          Inr \<lparr>vp_kind = ''interface'', vp_value = VMap [(''module'', VStr m), (''port'', VStr port)]\<rparr>)
      else Inr \<lparr>vp_kind = (if va_kind a = ''transformation'' then ''transformation'' else ''event''), vp_value = VStr v\<rparr>)"

definition auto_goal :: "goal_selector \<Rightarrow> string \<Rightarrow> coverage_goal res" where
  "auto_goal a v =
     rbind (auto_probe a v) (\<lambda>probe.
       Inr \<lparr>vg_id = ''auto_'' @ va_model a @ ''_'' @ va_kind a @ ''_'' @ safe_name v, vg_model = va_model a, vg_probes = [probe],
         vg_description = ''Automatically generated '' @ va_kind a @ '' reachability goal'', vg_category = va_category a,
         vg_required = va_required a, vg_inputs = va_inputs a\<rparr>)"

definition selector_values :: "goal_selector \<Rightarrow> inventory \<Rightarrow> string list res" where
  "selector_values a i =
     (if va_kind a = ''transformation'' then Inr (iv_transformations i)
      else if va_kind a = ''public_interface'' then Inr (iv_interfaces i)
      else if va_kind a = ''private_event'' then Inr (iv_private i)
      else Inl PyKeyError)"

definition expand_selector :: "(string \<times> inventory) list \<Rightarrow> goal_selector \<Rightarrow> coverage_goal list res" where
  "expand_selector structural a =
     rbind (or_raise (map_of structural (va_model a)) PyKeyError) (\<lambda>i.
     rbind (selector_values a i) (\<lambda>vs. traverse (auto_goal a) (filter (selected a) vs)))"

definition expand_auto_goals :: "goal_selector list \<Rightarrow> (string \<times> inventory) list \<Rightarrow> coverage_goal list res" where
  "expand_auto_goals selectors structural =
     rbind (traverse (expand_selector structural) selectors) (\<lambda>gss. Inr (concat gss))"

section \<open>The run\<close>

record coverage_report =
  vr_suite :: string
  vr_results :: "goal_result list"
  vr_structural :: "(string \<times> inventory) list"
  vr_metadata :: "(string \<times> pyval) list"

definition required_complete :: "coverage_report \<Rightarrow> bool" where
  "required_complete r \<longleftrightarrow> list_all (\<lambda>x. vg_required (gr_goal x) \<longrightarrow> gr_status x = Covered) (vr_results r)"

definition count_status :: "coverage_status \<Rightarrow> goal_result list \<Rightarrow> pyval" where
  "count_status s rs = VInt (int (length (filter (\<lambda>r. gr_status r = s) rs)))"

definition coverage_report_to_dict :: "(goal_reason \<Rightarrow> string) \<Rightarrow> coverage_report \<Rightarrow> pyval res" where
  "coverage_report_to_dict reason_text r =
     (let rs = vr_results r; needed = filter (\<lambda>x. vg_required (gr_goal x)) rs in
      rbind (traverse (goal_result_to_dict reason_text) rs) (\<lambda>goals.
        Inr (VMap [(''schema_version'', VStr ''umcm.coverage-report.v0.19.0''), (''suite'', VStr (vr_suite r)),
          (''status'', VStr (if required_complete r then ''complete'' else ''incomplete'')),
          (''summary'', VMap (map (\<lambda>s. (coverage_status_value s, count_status s rs)) [Covered, Uncovered, Unreachable, CoverageUnknown]
            @ [(''total'', VInt (int (length rs))), (''required'', VInt (int (length needed))),
               (''required_covered'', count_status Covered needed)])),
          (''metadata'', VMap (vr_metadata r)), (''goals'', VList goals),
          (''structural'', structural_to_dict (vr_structural r))])))"

definition goal_cases :: "coverage_goal \<Rightarrow> prepared_case list \<Rightarrow> prepared_case list" where
  "goal_cases g prepared = filter (\<lambda>pc. vm_name (pc_model pc) = vg_model g \<and> (vg_inputs g = [] \<or> pc_name pc \<in> set (vg_inputs g))) prepared"

definition run_coverage :: "environment \<Rightarrow> coverage_suite \<Rightarrow> coverage_report res" where
  "run_coverage env s =
     rbind (load_data (ev_read env) (suite_path (ev_real env) s (vs_catalog s))) (\<lambda>v.
     rbind (catalog_from_dict v) (\<lambda>c.
     rbind (prepare_cases env s c) (\<lambda>prepared.
     let structural = structural_inventory prepared in
     rbind (expand_auto_goals (vs_auto s) structural) (\<lambda>auto_goals.
     let goals = vs_goals s @ auto_goals in
     rbind (require (distinct (map vg_id goals)) CoverageError) (\<lambda>_.
     rbind (traverse (\<lambda>g. cover_goal env g (goal_cases g prepared)) goals) (\<lambda>results.
       Inr \<lparr>vr_suite = vs_name s, vr_results = results, vr_structural = structural,
         vr_metadata = dict_update (vs_metadata s) [(''backend'', VStr (ev_backend env)),
           (''input_policy'', VStr ''declared-public-events-only'')]\<rparr>))))))"

end
