(* ===== verification/CoverageFacts.thy ===== *)
theory CoverageFacts
  imports CoverageReport RealizeFacts
begin

text \<open>
  What a coverage result means: the status is determined by the outcomes of the cases, and the witness of a
  covered goal is a valid trace of one case in which every probe of the goal is shown.
\<close>

section \<open>The status of a goal\<close>

definition feasible_outcome :: "case_result \<Rightarrow> bool" where
  "feasible_outcome r \<longleftrightarrow> (\<exists>res. r = CaseSolved res \<and> cr_status res = Feasible)"

definition unknown_outcome :: "case_result \<Rightarrow> bool" where
  "unknown_outcome r \<longleftrightarrow> (\<exists>res. r = CaseSolved res \<and> cr_status res = CompletionUnknown)"

definition missing_outcome :: "case_result \<Rightarrow> bool" where
  "missing_outcome r \<longleftrightarrow> (\<exists>reasons. r = CaseMissing reasons)"

lemma case_result_Inr:
  "(case r of CaseMissing x \<Rightarrow> f x | CaseRaised e \<Rightarrow> g e | CaseSolved res \<Rightarrow> h res) = Inr y \<longleftrightarrow>
     (\<exists>x. r = CaseMissing x \<and> f x = Inr y) \<or> (\<exists>e. r = CaseRaised e \<and> g e = Inr y) \<or> (\<exists>res. r = CaseSolved res \<and> h res = Inr y)"
  by (cases r) auto

lemma cover_step_Inr:
  assumes "cover_step env g s pc = Inr s'"
  obtains r where "cover_case env g pc = Inr r"
    "cv_feasible s' = cv_feasible s @ (case r of CaseSolved res \<Rightarrow> if cr_status res = Feasible
       then (case cr_trace res of Some t \<Rightarrow> [((length (cr_added res), length (tr_events t), max_cycle t), pc, res)] | None \<Rightarrow> []) else [] | _ \<Rightarrow> [])"
    "feasible_outcome r \<longleftrightarrow> cv_feasible s' \<noteq> cv_feasible s"
    "cv_missing s' \<noteq> [] \<longleftrightarrow> cv_missing s \<noteq> [] \<or> missing_outcome r"
    "cv_notes s' \<noteq> [] \<longleftrightarrow> cv_notes s \<noteq> [] \<or> \<not> missing_outcome r \<and> \<not> feasible_outcome r"
    "cv_unknown s' \<longleftrightarrow> cv_unknown s \<or> unknown_outcome r"
proof -
  obtain r where r: "cover_case env g pc = Inr r" using assms by (auto simp: cover_step_def rbind_Inr_iff)
  note defs = feasible_outcome_def unknown_outcome_def missing_outcome_def note_case_def
  show thesis
  proof (cases r)
    case (CaseMissing x)
    then show ?thesis using that [OF r] assms r by (auto simp: cover_step_def defs)
  next
    case (CaseRaised x)
    then show ?thesis using that [OF r] assms r by (auto simp: cover_step_def defs)
  next
    case (CaseSolved res)
    then show ?thesis using that [OF r] assms r
      by (cases "cr_status res = Feasible"; cases "cr_trace res")
        (auto simp: cover_step_def defs Let_def or_raise_def)
  qed
qed

definition score_of :: "completion_result \<Rightarrow> trace \<Rightarrow> nat \<times> nat \<times> int" where
  "score_of res t = (length (cr_added res), length (tr_events t), max_cycle t)"

text \<open>The feasible outcomes are exactly the recorded witnesses.\<close>

lemma cover_step_feasible:
  assumes "cover_step env g s pc = Inr s'"
  shows "w \<in> set (cv_feasible s') \<longleftrightarrow> w \<in> set (cv_feasible s) \<or>
    (\<exists>res t. w = (score_of res t, pc, res) \<and> cover_case env g pc = Inr (CaseSolved res) \<and> cr_status res = Feasible \<and> cr_trace res = Some t)"
proof -
  obtain r where r: "cover_case env g pc = Inr r"
    "cv_feasible s' = cv_feasible s @ (case r of CaseSolved res \<Rightarrow> if cr_status res = Feasible
       then (case cr_trace res of Some t \<Rightarrow> [((length (cr_added res), length (tr_events t), max_cycle t), pc, res)] | None \<Rightarrow> []) else [] | _ \<Rightarrow> [])"
    by (rule cover_step_Inr [OF assms]) blast
  show ?thesis
  proof (cases r)
    case (CaseSolved res)
    show ?thesis
      by (cases "cr_status res = Feasible"; cases "cr_trace res") (use r in \<open>auto simp: CaseSolved score_of_def\<close>)
  qed (use r in auto)
qed

lemma cover_fold_feasible:
  assumes "fold_res (cover_step env g) s cases = Inr s'"
  shows "w \<in> set (cv_feasible s') \<longleftrightarrow> w \<in> set (cv_feasible s) \<or>
    (\<exists>pc \<in> set cases. \<exists>res t. w = (score_of res t, pc, res) \<and> cover_case env g pc = Inr (CaseSolved res) \<and> cr_status res = Feasible \<and>
       cr_trace res = Some t)"
  using assms
proof (induction cases arbitrary: s)
  case (Cons pc cases)
  then obtain s1 where s1: "cover_step env g s pc = Inr s1" "fold_res (cover_step env g) s1 cases = Inr s'"
    by (auto simp: rbind_Inr_iff)
  show ?case unfolding Cons.IH [OF s1(2)] cover_step_feasible [OF s1(1)] by auto
qed simp

lemma cover_fold:
  assumes "fold_res (cover_step env g) s cases = Inr s'"
  shows "\<exists>rs. traverse (cover_case env g) cases = Inr rs \<and>
    (cv_feasible s' \<noteq> [] \<longleftrightarrow> cv_feasible s \<noteq> [] \<or> (\<exists>r \<in> set rs. feasible_outcome r)) \<and>
    (cv_missing s' \<noteq> [] \<longleftrightarrow> cv_missing s \<noteq> [] \<or> (\<exists>r \<in> set rs. missing_outcome r)) \<and>
    (cv_notes s' \<noteq> [] \<longleftrightarrow> cv_notes s \<noteq> [] \<or> (\<exists>r \<in> set rs. \<not> missing_outcome r \<and> \<not> feasible_outcome r)) \<and>
    (cv_unknown s' \<longleftrightarrow> cv_unknown s \<or> (\<exists>r \<in> set rs. unknown_outcome r))"
  using assms
proof (induction cases arbitrary: s)
  case (Cons pc cases)
  obtain s1 where s1: "cover_step env g s pc = Inr s1" "fold_res (cover_step env g) s1 cases = Inr s'"
    using Cons.prems by (auto simp: rbind_Inr_iff)
  obtain r where r: "cover_case env g pc = Inr r" "\<exists>ws. cv_feasible s1 = cv_feasible s @ ws"
    "feasible_outcome r \<longleftrightarrow> cv_feasible s1 \<noteq> cv_feasible s"
    "cv_missing s1 \<noteq> [] \<longleftrightarrow> cv_missing s \<noteq> [] \<or> missing_outcome r"
    "cv_notes s1 \<noteq> [] \<longleftrightarrow> cv_notes s \<noteq> [] \<or> \<not> missing_outcome r \<and> \<not> feasible_outcome r"
    "cv_unknown s1 \<longleftrightarrow> cv_unknown s \<or> unknown_outcome r"
    by (rule cover_step_Inr [OF s1(1)]) blast
  then have f: "cv_feasible s1 \<noteq> [] \<longleftrightarrow> cv_feasible s \<noteq> [] \<or> feasible_outcome r" by auto
  obtain rs where rs: "traverse (cover_case env g) cases = Inr rs"
    and eqs: "(cv_feasible s' \<noteq> [] \<longleftrightarrow> cv_feasible s1 \<noteq> [] \<or> (\<exists>r \<in> set rs. feasible_outcome r)) \<and>
    (cv_missing s' \<noteq> [] \<longleftrightarrow> cv_missing s1 \<noteq> [] \<or> (\<exists>r \<in> set rs. missing_outcome r)) \<and>
    (cv_notes s' \<noteq> [] \<longleftrightarrow> cv_notes s1 \<noteq> [] \<or> (\<exists>r \<in> set rs. \<not> missing_outcome r \<and> \<not> feasible_outcome r)) \<and>
    (cv_unknown s' \<longleftrightarrow> cv_unknown s1 \<or> (\<exists>r \<in> set rs. unknown_outcome r))"
    using Cons.IH [OF s1(2)] by blast
  have "traverse (cover_case env g) (pc # cases) = Inr (r # rs)" using r(1) rs by simp
  then show ?case using eqs unfolding f r(4-6) by (intro exI [of _ "r # rs"]) simp
qed simp

lemma least_witness_spec:
  assumes "ws \<noteq> []"
  shows "least_witness ws \<in> set ws" "\<forall>w \<in> set ws. fst (least_witness ws) \<le> fst w"
proof -
  obtain x xs where e: "sort_key fst ws = x # xs" using assms by (cases "sort_key fst ws") (auto dest: arg_cong [of _ _ length])
  have s: "set ws = set (x # xs)" using set_sort [of fst ws] by (simp add: e)
  show "least_witness ws \<in> set ws" by (simp add: least_witness_def e s)
  have "sorted (map fst (x # xs))" using sorted_sort_key [of fst ws] by (simp only: e)
  then show "\<forall>w \<in> set ws. fst (least_witness ws) \<le> fst w" by (auto simp: least_witness_def e s)
qed

lemma cover_goal_status:
  assumes c: "cover_goal env g cases = Inr r"
  shows "\<exists>rs. traverse (cover_case env g) cases = Inr rs \<and> gr_goal r = g \<and>
    gr_status r = (if \<exists>x \<in> set rs. feasible_outcome x then Covered
      else if \<forall>x \<in> set rs. missing_outcome x then Unreachable
      else if \<exists>x \<in> set rs. unknown_outcome x then CoverageUnknown else Uncovered)"
proof (cases "cases = []")
  case True
  then show ?thesis using c by (auto simp: cover_goal_def plain_result_def)
next
  case False
  obtain s where s: "fold_res (cover_step env g)
          \<lparr>cv_feasible = [], cv_missing = [], cv_notes = [], cv_unknown = False, cv_nodes = 0\<rparr> cases = Inr s"
    using c False by (auto simp: cover_goal_def rbind_Inr_iff)
  obtain rs where rs: "traverse (cover_case env g) cases = Inr rs"
    "cv_feasible s \<noteq> [] \<longleftrightarrow> (\<exists>r \<in> set rs. feasible_outcome r)" "cv_missing s \<noteq> [] \<longleftrightarrow> (\<exists>r \<in> set rs. missing_outcome r)"
    "cv_notes s \<noteq> [] \<longleftrightarrow> (\<exists>r \<in> set rs. \<not> missing_outcome r \<and> \<not> feasible_outcome r)"
    "cv_unknown s \<longleftrightarrow> (\<exists>r \<in> set rs. unknown_outcome r)"
    using cover_fold [OF s] by auto
  have ne: "rs \<noteq> []" using traverse_length [OF rs(1)] False by auto
  show ?thesis
  proof (intro exI conjI)
    show "traverse (cover_case env g) cases = Inr rs" by (rule rs(1))
    show "gr_goal r = g" using c s False
      by (auto simp: cover_goal_def rbind_Inr_iff covered_result_def plain_result_def split: if_splits prod.splits)
    show "gr_status r = (if \<exists>x \<in> set rs. feasible_outcome x then Covered
      else if \<forall>x \<in> set rs. missing_outcome x then Unreachable
      else if \<exists>x \<in> set rs. unknown_outcome x then CoverageUnknown else Uncovered)"
    proof (cases "\<exists>x \<in> set rs. feasible_outcome x")
      case True
      then have "covered_result g (cv_nodes s) (least_witness (cv_feasible s)) = Inr r" using c s False rs(2) by (simp add: cover_goal_def)
      then show ?thesis using True by (auto simp: covered_result_def plain_result_def rbind_Inr_iff split: prod.splits)
    next
      case nf: False
      then have f: "cv_feasible s = []" using rs(2) by blast
      have "cv_missing s \<noteq> [] \<and> cv_notes s = [] \<longleftrightarrow> (\<forall>x \<in> set rs. missing_outcome x)"
        using rs(3,4) nf ne by (metis list.set_sel(1))
      then show ?thesis using c s False nf f rs(5) by (auto simp: cover_goal_def plain_result_def split: if_splits)
    qed
  qed
qed

lemma cover_goal_covered:
  assumes c: "cover_goal env g cases = Inr r" and st: "gr_status r = Covered"
  obtains pc res t where "pc \<in> set cases" "cover_case env g pc = Inr (CaseSolved res)" "cr_status res = Feasible"
    "cr_trace res = Some t" "gr_input r = Some (pc_name pc)" "gr_witness r = Some t"
    "\<forall>pc' \<in> set cases. \<forall>res' t'. cover_case env g pc' = Inr (CaseSolved res') \<longrightarrow> cr_status res' = Feasible \<longrightarrow>
       cr_trace res' = Some t' \<longrightarrow> score_of res t \<le> score_of res' t'"
proof -
  have ne: "cases \<noteq> []" using c st by (auto simp: cover_goal_def plain_result_def)
  then obtain s where s: "fold_res (cover_step env g)
          \<lparr>cv_feasible = [], cv_missing = [], cv_notes = [], cv_unknown = False, cv_nodes = 0\<rparr> cases = Inr s"
    using c by (auto simp: cover_goal_def rbind_Inr_iff)
  then have f: "cv_feasible s \<noteq> []" and r: "covered_result g (cv_nodes s) (least_witness (cv_feasible s)) = Inr r"
    using c st ne by (auto simp: cover_goal_def plain_result_def split: if_splits)
  note mem = cover_fold_feasible [OF s, simplified]
  obtain pc res t where w: "least_witness (cv_feasible s) = (score_of res t, pc, res)" "pc \<in> set cases"
    "cover_case env g pc = Inr (CaseSolved res)" "cr_status res = Feasible" "cr_trace res = Some t"
    using least_witness_spec(1) [OF f] unfolding mem by blast
  have "score_of res t \<le> score_of res' t'" if "pc' \<in> set cases" "cover_case env g pc' = Inr (CaseSolved res')"
    "cr_status res' = Feasible" "cr_trace res' = Some t'" for pc' res' t'
  proof -
    have "(score_of res' t', pc', res') \<in> set (cv_feasible s)" unfolding mem using that by blast
    then show ?thesis using least_witness_spec(2) [OF f] by (force simp: w(1))
  qed
  moreover have "gr_input r = Some (pc_name pc)" "gr_witness r = Some t"
    using r w(5) by (auto simp: w(1) covered_result_def)
  ultimately show thesis using that [of pc res t] w(2-5) by blast
qed

section \<open>What a covered goal shows\<close>

lemma add_requirements_simps [simp]:
  "problem_context (add_requirements p rs) f = problem_context p f" "bp_events (add_requirements p rs) = bp_events p"
  "bp_catalog (add_requirements p rs) = bp_catalog p" "bp_constraints (add_requirements p rs) = bp_constraints p"
  "bp_activations (add_requirements p rs) = bp_activations p" "bp_updates (add_requirements p rs) = bp_updates p"
  "bp_spec (add_requirements p rs) = bp_spec p"
  "completes n (add_requirements p rs) a ys = completes n p a ys"
  "add_requirements (add_requirements p rs) qs = add_requirements p (rs @ qs)" "add_requirements p [] = p"
  by (simp_all add: add_requirements_def problem_context_def problem_event_map_def completes_def)

definition query_shown :: "trace \<Rightarrow> string \<Rightarrow> (string \<times> pyval) list \<Rightarrow> bool" where
  "query_shown t pattern fs \<longleftrightarrow> (\<exists>e \<in> set (tr_events t). matches_pattern (ei_type e) pattern \<and> ei_occurs e = VBool True \<and>
     (\<forall>(f, v) \<in> set fs. \<exists>w. stored_attribute e f = Some w \<and> py_eq w v))"

definition probe_shown :: "nat \<Rightarrow> bounded_problem \<Rightarrow> eval_context \<Rightarrow> composition_result \<Rightarrow> trace \<Rightarrow> coverage_probe \<Rightarrow> bool" where
  "probe_shown n p c mods t probe \<longleftrightarrow>
     (if vp_kind probe = ''event'' then \<exists>pattern fs. event_query (vp_value probe) = Inr (pattern, fs) \<and> query_shown t pattern fs
      else if vp_kind probe = ''transformation'' then \<exists>a \<in> set (bp_activations p). holds n c (ac_expr a) \<and>
        matches_pattern (ac_transformation a) (transformation_pattern (vp_value probe))
      else if vp_kind probe = ''interface'' then \<exists>d l po. vp_value probe = VMap d \<and> l \<in> set (co_modules mods) \<and>
        lm_reference l = str_default d ''module'' [] \<and> map_of (port_map (lm_spec l)) (str_default d ''port'' []) = Some po \<and>
        query_shown t (po_type po) []
      else \<exists>d sv target u w. vp_value probe = VMap d \<and> map_of d ''state'' = Some sv \<and> map_of d ''to'' = Some target \<and>
        u \<in> set (bp_updates p) \<and> matches_pattern (ui_state u) (py_str sv) \<and> holds n c (ui_activation u) \<and>
        eval_at n c (ui_value u) = Inr (Some w) \<and> py_eq w target)"

lemma completed_attribute:
  assumes d: "distinct (map ei_id (bp_events p))" and e: "e \<in> set (bp_events p)"
    and y: "completed_event n (problem_context p (map_of a)) e y"
    and w: "eval_at n (problem_context p (map_of a)) (EventField (ei_id e) f s) = Inr (Some w)"
  shows "stored_attribute y f = Some w"
proof -
  let ?c = "problem_context p (map_of a)"
  note look = problem_event [OF d e, of "map_of a"]
  consider "f = ''occurs''" | "f = ''cycle''" | "f \<noteq> ''occurs'' \<and> f \<noteq> ''cycle''" by blast
  then show ?thesis
  proof cases
    case 1
    have "evaluates_to n ?c (ei_occurs e) w" by (rule eval_field_concrete [OF w look]) (simp add: 1 stored_attribute_def)
    then show ?thesis using y by (simp add: 1 stored_attribute_def completed_event_def evaluates_to_def)
  next
    case 2
    have v: "evaluates_to n ?c (ei_cycle e) w" by (rule eval_field_concrete [OF w look]) (simp add: 2 stored_attribute_def)
    then have "ei_cycle e = VNone \<longrightarrow> w = VNone" by (auto simp: evaluates_to_def concrete_value_def)
    then show ?thesis using y v by (auto simp: 2 stored_attribute_def completed_event_def evaluates_to_def split: if_splits)
  next
    case 3
    then show ?thesis using completed_field [OF d e y w] by (simp add: stored_attribute_def)
  qed
qed

lemma holds_eq_literal:
  assumes "mk_literal v (Some s) = Inr l" "mk_binary ''eq'' x l = Inr b" "holds n c b"
  shows "\<exists>w. eval_at n c x = Inr (Some w) \<and> py_eq w v"
proof -
  obtain k where k: "v = VScalar k" "l = Literal k s" using assms(1) by (auto simp: mk_literal_Inr_iff)
  have b: "b = Binary ''eq'' x l" using assms(2) by (auto simp: mk_binary_def split: if_splits)
  have eq: "rbind r (\<lambda>y. rbind (Inr (Some (VScalar k))) (\<lambda>z. eval_binary ''eq'' y z)) = Inr (Some (VBool True)) \<longleftrightarrow>
      (\<exists>w. r = Inr (Some w) \<and> py_eq w (VScalar k))" for r
    by (cases r) (auto simp: eval_binary_def eval_strict_def split: option.splits)
  show ?thesis using assms(3) unfolding holds_def b k eval_at.simps(5) eval_at.simps(1) eq .
qed

lemma query_predicates_member:
  assumes "query_predicates ty e fs = Inr (Some xs)" "(f, v) \<in> set fs"
  shows "\<exists>s l x. x \<in> set xs \<and> mk_literal v (Some s) = Inr l \<and> mk_binary ''eq'' (EventField (ei_id e) f s) l = Inr x"
  using assms
proof (induction fs arbitrary: xs)
  case (Cons fv fs)
  obtain f' v' where fv: "fv = (f', v')" by (cases fv)
  obtain s l x ys where s: "query_sort ty e f' = Some s" "mk_literal v' (Some s) = Inr l"
    "mk_binary ''eq'' (EventField (ei_id e) f' s) l = Inr x" "query_predicates ty e fs = Inr (Some ys)" "xs = x # ys"
    using Cons.prems(1) by (auto simp: fv rbind_Inr_iff split: option.splits)
  show ?case
  proof (cases "(f, v) = (f', v')")
    case True
    then show ?thesis using s by auto
  next
    case False
    then show ?thesis using Cons.IH [OF s(4)] Cons.prems(2) s(5) by (auto simp: fv)
  qed
qed simp

lemma event_probe_shown:
  assumes d: "distinct (map ei_id (bp_events p))" and comp: "completes n p a (tr_events t)"
    and q: "event_probe p v = Inr (Inr x)" "holds n (problem_context p (map_of a)) x"
  shows "\<exists>pattern fs. event_query v = Inr (pattern, fs) \<and> query_shown t pattern fs"
proof -
  let ?c = "problem_context p (map_of a)"
  obtain pattern fs xs where eq: "event_query v = Inr (pattern, fs)"
    and xs: "traverse (event_alternative p fs) (filter (\<lambda>e. matches_pattern (ei_type e) pattern) (bp_events p)) = Inr xs"
    and x: "x = disjunction (List.map_filter (\<lambda>x. x) xs)"
    using q(1) by (auto simp: event_probe_def rbind_Inr_iff Let_def split: if_splits)
  obtain q' where q': "q' \<in> set (List.map_filter (\<lambda>x. x) xs)" "holds n ?c q'" using holds_disjunctionD q(2) x by blast
  then have "Some q' \<in> set xs" by (auto simp: List.map_filter_def)
  from traverse_Inr_imageD [OF xs this] obtain e where e: "e \<in> set (bp_events p)" "matches_pattern (ei_type e) pattern"
    and al: "event_alternative p fs e = Inr (Some q')" by auto
  then obtain ty ys where ys: "query_predicates ty e fs = Inr (Some ys)"
    and q'': "q' = conjunction (EventField (ei_id e) ''occurs'' BOOL_SORT # ys)"
    by (auto simp: event_alternative_def rbind_Inr_iff)
  have h: "holds n ?c (EventField (ei_id e) ''occurs'' BOOL_SORT)" "\<forall>y \<in> set ys. holds n ?c y"
    using holds_conjunctionD q'(2) unfolding q'' by (meson list.set_intros)+
  obtain y where y: "y \<in> set (tr_events t)" "completed_event n ?c e y" using completed_member [OF d comp e(1) h(1)] by blast
  have "\<exists>w. stored_attribute y f = Some w \<and> py_eq w u" if fu: "(f, u) \<in> set fs" for f u
  proof -
    obtain s l b where b: "b \<in> set ys" "mk_literal u (Some s) = Inr l" "mk_binary ''eq'' (EventField (ei_id e) f s) l = Inr b"
      using query_predicates_member [OF ys fu] by blast
    obtain w where "eval_at n ?c (EventField (ei_id e) f s) = Inr (Some w)" "py_eq w u"
      using holds_eq_literal [OF b(2,3)] h(2) b(1) by blast
    then show ?thesis using completed_attribute [OF d e(1) y(2)] by blast
  qed
  then have "query_shown t pattern fs" using y e(2) unfolding query_shown_def completed_event_def by (intro bexI [of _ y]) auto
  then show ?thesis using eq by blast
qed

lemma enumerate_mem: "(i, x) \<in> set (enumerate 0 xs) \<Longrightarrow> x \<in> set xs"
  by (auto simp: enumerate_eq_zip dest: set_zip_rightD)

lemma enumerate_position: "x \<in> set xs \<Longrightarrow> \<exists>i. (i, x) \<in> set (enumerate 0 xs)"
proof -
  assume "x \<in> set xs"
  then obtain i where i: "i < length xs" "xs ! i = x" by (auto simp: in_set_conv_nth)
  then have "enumerate 0 xs ! i \<in> set (enumerate 0 xs)" by (intro nth_mem) simp
  then show ?thesis using i by (auto simp: nth_enumerate_eq)
qed

lemma transition_fold:
  assumes "fold_res (transition_step d target states prefix) acc us = Inr (rs, alts)" "x \<in> set alts"
  shows "x \<in> set (snd acc) \<or> (\<exists>(i, u) \<in> set us. \<exists>s l b. mk_literal target (Some s) = Inr l \<and> mk_binary ''eq'' (ui_value u) l = Inr b \<and>
    x = conjunction [ui_activation u, b])"
  using assms
proof (induction us arbitrary: acc)
  case (Cons iu us)
  obtain i u where iu: "iu = (i, u)" by (cases iu)
  obtain rs0 al0 where acc: "acc = (rs0, al0)" by (cases acc)
  obtain acc1 where a1: "transition_step d target states prefix acc iu = Inr acc1"
    "fold_res (transition_step d target states prefix) acc1 us = Inr (rs, alts)" using Cons.prems(1) by (auto simp: rbind_Inr_iff)
  then obtain s l b where "mk_literal target (Some s) = Inr l" "mk_binary ''eq'' (ui_value u) l = Inr b"
    "snd acc1 = al0 @ [conjunction [ui_activation u, b]]"
    by (auto simp: transition_step_def acc iu rbind_Inr_iff Let_def)
  then show ?case using Cons.IH [OF a1(2) Cons.prems(2)] by (auto simp: acc iu)
qed auto

lemma transition_probe_shown:
  assumes q: "state_transition_probe p v prefix = Inr (p', Inr x)" "holds n c x"
  shows "(\<exists>d sv target u w. v = VMap d \<and> map_of d ''state'' = Some sv \<and> map_of d ''to'' = Some target \<and>
        u \<in> set (bp_updates p) \<and> matches_pattern (ui_state u) (py_str sv) \<and> holds n c (ui_activation u) \<and>
        eval_at n c (ui_value u) = Inr (Some w) \<and> py_eq w target)"
proof -
  obtain d sv target states rs alts where v: "v = VMap d" "map_of d ''state'' = Some sv" "map_of d ''to'' = Some target"
    and f: "fold_res (transition_step d target states prefix) ([], [])
      (filter (\<lambda>(i, u). matches_pattern (ui_state u) (py_str sv)) (enumerate 0 (bp_updates p))) = Inr (rs, alts)"
    and x: "x = disjunction alts"
    using q(1) by (auto simp: state_transition_probe_def probe_mapping_def rbind_Inr_iff or_raise_Inr_iff Let_def
        split: pyval.splits if_splits)
  obtain y where y: "y \<in> set alts" "holds n c y" using holds_disjunctionD q(2) x by blast
  obtain i u s l b where u: "(i, u) \<in> set (enumerate 0 (bp_updates p))" "matches_pattern (ui_state u) (py_str sv)"
    "mk_literal target (Some s) = Inr l" "mk_binary ''eq'' (ui_value u) l = Inr b" "y = conjunction [ui_activation u, b]"
    using transition_fold [OF f y(1)] by auto
  have "holds n c (ui_activation u)" "holds n c b" using holds_conjunctionD y(2) unfolding u(5) by (meson list.set_intros)+
  moreover obtain w where "eval_at n c (ui_value u) = Inr (Some w)" "py_eq w target"
    using holds_eq_literal [OF u(3,4) \<open>holds n c b\<close>] by blast
  moreover have "u \<in> set (bp_updates p)" using u(1) by (rule enumerate_mem)
  ultimately show ?thesis using v u(2) by blast
qed

lemma compile_probe_adds: "compile_probe p mods probe prefix = Inr (p', x) \<Longrightarrow> \<exists>rs. p' = add_requirements p rs"
  by (auto simp: compile_probe_def transformation_probe_def state_transition_probe_def rbind_Inr_iff Let_def
      intro: exI [of _ "[]"] split: if_splits)

lemma event_probe_base: "event_probe (add_requirements p rs) v = event_probe p v"
  by (simp add: event_probe_def event_alternative_def [abs_def])

lemma interface_probe_base: "interface_probe (add_requirements p rs) mods v = interface_probe p mods v"
  unfolding interface_probe_def event_probe_base by (rule refl)

lemma find_member: "find P xs = Some x \<Longrightarrow> x \<in> set xs \<and> P x"
  by (auto simp: find_Some_iff)

lemma compile_probe_shown:
  assumes d: "distinct (map ei_id (bp_events p))" and comp: "completes n p a (tr_events t)"
    and q: "compile_probe (add_requirements p rs) mods probe prefix = Inr (p', Inr x)"
    and h: "holds n (problem_context p (map_of a)) x"
  shows "probe_shown n p (problem_context p (map_of a)) mods t probe"
proof -
  let ?c = "problem_context p (map_of a)"
  consider (event) "vp_kind probe = ''event''" | (trans) "vp_kind probe = ''transformation''" | (iface) "vp_kind probe = ''interface''"
    | (state) "vp_kind probe = ''state_transition''"
    using q by (auto simp: compile_probe_def split: if_splits)
  then show ?thesis
  proof cases
    case event
    then have "event_probe p (vp_value probe) = Inr (Inr x)" using q by (auto simp: compile_probe_def event_probe_base rbind_Inr_iff)
    then show ?thesis using event_probe_shown [OF d comp _ h] event by (simp add: probe_shown_def)
  next
    case trans
    let ?pat = "transformation_pattern (vp_value probe)"
    have x: "x = disjunction (map ac_expr (filter (\<lambda>a. matches_pattern (ac_transformation a) ?pat) (bp_activations p)))"
      using q trans by (auto simp: compile_probe_def transformation_probe_def Let_def split: if_splits)
    obtain y where "y \<in> set (map ac_expr (filter (\<lambda>a. matches_pattern (ac_transformation a) ?pat) (bp_activations p)))" "holds n ?c y"
      using holds_disjunctionD h unfolding x by blast
    then show ?thesis using trans by (auto simp: probe_shown_def)
  next
    case iface
    then have "interface_probe p mods (vp_value probe) = Inr (Inr x)"
      using q by (auto simp: compile_probe_def interface_probe_base rbind_Inr_iff)
    then obtain d l po where v: "vp_value probe = VMap d" and l: "l \<in> set (co_modules mods)"
      "lm_reference l = str_default d ''module'' []" "map_of (port_map (lm_spec l)) (str_default d ''port'' []) = Some po"
      and e: "event_probe p (VMap [(''type'', VStr (po_type po))]) = Inr (Inr x)"
      by (auto simp: interface_probe_def probe_mapping_def rbind_Inr_iff Let_def dest!: find_member split: pyval.splits option.splits)
    have "query_shown t (po_type po) []" using event_probe_shown [OF d comp e h]
      by (auto simp: event_query_def probe_mapping_def str_default_def)
    then show ?thesis using iface v l by (auto simp: probe_shown_def)
  next
    case state
    then have "state_transition_probe (add_requirements p rs) (vp_value probe) prefix = Inr (p', Inr x)"
      using q by (simp add: compile_probe_def)
    from transition_probe_shown [OF this h] show ?thesis using state by (simp add: probe_shown_def)
  qed
qed

lemma compile_probes_member:
  assumes "compile_probes mods prefix (add_requirements p rs) ips = Inr (p', [], xs)"
  shows "(\<exists>qs. p' = add_requirements p qs) \<and> (\<forall>(i, probe) \<in> set ips. \<exists>qs q x. x \<in> set xs \<and>
    compile_probe (add_requirements p qs) mods probe (prefix @ ''.'' @ dec_nat i) = Inr (q, Inr x))"
  using assms
proof (induction ips arbitrary: rs xs)
  case (Cons ip ips)
  obtain i probe where ip: "ip = (i, probe)" by (cases ip)
  obtain p1 y p2 reasons ys where c: "compile_probe (add_requirements p rs) mods probe (prefix @ ''.'' @ dec_nat i) = Inr (p1, y)"
    "compile_probes mods prefix p1 ips = Inr (p2, reasons, ys)"
    "(case y of Inl r \<Rightarrow> (p2, r # reasons, ys) | Inr e \<Rightarrow> (p2, reasons, e # ys)) = (p', [], xs)"
    using Cons.prems by (auto simp: ip rbind_Inr_iff)
  then obtain e where e: "y = Inr e" "p2 = p'" "reasons = []" "xs = e # ys" by (cases y) auto
  obtain qs where p1: "p1 = add_requirements p qs" using compile_probe_adds [OF c(1)] by auto
  have IH: "(\<exists>qs. p' = add_requirements p qs) \<and> (\<forall>(i, probe) \<in> set ips. \<exists>qs q x. x \<in> set ys \<and>
    compile_probe (add_requirements p qs) mods probe (prefix @ ''.'' @ dec_nat i) = Inr (q, Inr x))"
    using Cons.IH c(2) unfolding p1 e by blast
  then show ?case using c(1) unfolding ip e by fastforce
qed (auto intro: exI [of _ "rs" for rs])

text \<open>A prepared case holds the problem of its trace and its composition.\<close>

definition prepared_ok :: "prepared_case \<Rightarrow> bool" where
  "prepared_ok pc \<longleftrightarrow> bp_catalog (pc_problem pc) = pc_catalog pc \<and> distinct (map ei_id (bp_events (pc_problem pc)))"

lemma prepare_case_ok: "prepare_case env s c m cp i = Inr pc \<Longrightarrow> prepared_ok pc \<and> pc_catalog pc = c \<and> pc_model pc = m \<and> pc_name pc = vi_name i"
proof -
  assume a: "prepare_case env s c m cp i = Inr pc"
  then obtain t r p where r: "compose_in env c cp t = Inr r" and p: "build_problem c t (co_completion r) = Inr p"
    and pc: "pc_problem pc = p" "pc_catalog pc = c" "pc_model pc = m" "pc_name pc = vi_name i"
    by (auto simp: prepare_case_def rbind_Inr_iff Let_def)
  have "distinct (map sl_id (cs_slots (co_completion r)))"
    using r by (auto simp: compose_in_def compose_modules_def rbind_Inr_iff Let_def mk_completion_spec_Inr)
  from build_problem_ids [OF p this] have "distinct (map ei_id (bp_events p))" .
  moreover have "bp_catalog p = c" by (rule build_problem_cases [OF p])
  ultimately show ?thesis using pc by (simp add: prepared_ok_def)
qed

lemma prepare_cases_ok: "prepare_cases env s c = Inr pcs \<Longrightarrow> pc \<in> set pcs \<Longrightarrow> prepared_ok pc \<and> pc_catalog pc = c"
proof -
  assume "prepare_cases env s c = Inr pcs" and m: "pc \<in> set pcs"
  then obtain css where css: "traverse (\<lambda>m. rbind (composition_at env (suite_path (ev_real env) s (vm_composition m))) (\<lambda>cp.
         traverse (prepare_case env s c m cp) (vm_inputs m))) (vs_models s) = Inr css" "pcs = concat css"
    by (auto simp: prepare_cases_def rbind_Inr_iff)
  obtain cs where cs: "cs \<in> set css" "pc \<in> set cs" using m css(2) by auto
  obtain m cp where "traverse (prepare_case env s c m cp) (vm_inputs m) = Inr cs"
    using traverse_Inr_imageD [OF css(1) cs(1)] by (auto simp: rbind_Inr_iff)
  from traverse_Inr_imageD [OF this cs(2)] show ?thesis using prepare_case_ok by blast
qed

text \<open>The witness of a covered case.\<close>

definition shows_goal :: "environment \<Rightarrow> coverage_goal \<Rightarrow> prepared_case \<Rightarrow> trace \<Rightarrow> bool" where
  "shows_goal env g pc t \<longleftrightarrow> validate_trace (pc_catalog pc) (Some False) t = Inr () \<and>
     (\<exists>a. (\<forall>k \<in> set (bp_constraints (pc_problem pc)).
          holds (ev_fuel env) (problem_context (pc_problem pc) (map_of a)) (nc_expr k)) \<and>
        completes (ev_fuel env) (pc_problem pc) a (tr_events t) \<and>
        (\<forall>probe \<in> set (vg_probes g).
          probe_shown (ev_fuel env) (pc_problem pc) (problem_context (pc_problem pc) (map_of a)) (pc_composed pc) t probe))"

lemma covered_case_shows:
  assumes c: "cover_case env g pc = Inr (CaseSolved res)" and f: "cr_status res = Feasible" and t: "cr_trace res = Some t"
    and b: "py_lower (ev_backend env) \<noteq> ''z3''" and ok: "prepared_ok pc"
  shows "shows_goal env g pc t"
proof -
  let ?p = "pc_problem pc"
  have "solve_case env g pc = Inr (CaseSolved res)" using c by (auto simp: cover_case_def split: sum.splits if_splits)
  then obtain p y where cg': "compile_goal ?p (pc_composed pc) g = Inr (p, y)"
    and s': "(case y of Inl reasons \<Rightarrow> Inr (CaseMissing reasons)
       | Inr e \<Rightarrow> rbind (complete_in env True (add_constraints p [goal_constraint g e])) (\<lambda>r. Inr (CaseSolved r))) = Inr (CaseSolved res)"
    unfolding solve_case_def rbind_Inr_iff by auto
  obtain e where y: "y = Inr e" using s' by (cases y) auto
  have cg: "compile_goal ?p (pc_composed pc) g = Inr (p, Inr e)" using cg' y by simp
  have s: "complete_in env True (add_constraints p [goal_constraint g e]) = Inr res" using s' by (auto simp: y rbind_Inr_iff)
  obtain xs where cp: "compile_probes (pc_composed pc) (''coverage.'' @ vg_id g) (add_requirements ?p []) (enumerate 0 (vg_probes g)) =
      Inr (p, [], xs)" and e: "e = conjunction xs"
    using cg by (auto simp: compile_goal_def rbind_Inr_iff split: if_splits)
  obtain rs where p: "p = add_requirements ?p rs" using compile_probes_member [OF cp] by blast
  let ?a = "cr_assignment res"
  let ?c = "problem_context ?p (map_of ?a)"
  have "solution (ev_fuel env) (add_constraints p [goal_constraint g e]) ?a \<and>
    completes (ev_fuel env) (add_constraints p [goal_constraint g e]) ?a (tr_events t) \<and>
    validate_trace (bp_catalog p) (Some False) t = Inr ()"
    using complete_problem_finite [OF s [unfolded complete_in_def] f b] t by (auto simp: add_constraints_def)
  then have hs: "\<forall>k \<in> set (bp_constraints ?p) \<union> {goal_constraint g e}. holds (ev_fuel env) ?c (nc_expr k)"
    and comp: "completes (ev_fuel env) ?p ?a (tr_events t)" and v: "validate_trace (pc_catalog pc) (Some False) t = Inr ()"
    using ok by (auto simp: solution_def p add_constraints_def problem_context_def problem_event_map_def completes_def
        add_requirements_def prepared_ok_def)
  have he: "holds (ev_fuel env) ?c e" using hs by (simp add: goal_constraint_def)
  have "probe_shown (ev_fuel env) ?p ?c (pc_composed pc) t probe" if pr: "probe \<in> set (vg_probes g)" for probe
  proof -
    obtain i where "(i, probe) \<in> set (enumerate 0 (vg_probes g))" using enumerate_position [OF pr] by blast
    then obtain qs q x where x: "x \<in> set xs"
      "compile_probe (add_requirements ?p qs) (pc_composed pc) probe ((''coverage.'' @ vg_id g) @ ''.'' @ dec_nat i) = Inr (q, Inr x)"
      using compile_probes_member [OF cp] by blast
    have "holds (ev_fuel env) ?c x" using holds_conjunctionD he e x(1) by blast
    then show ?thesis using compile_probe_shown [OF _ comp x(2)] ok by (simp add: prepared_ok_def)
  qed
  then show ?thesis using v hs comp unfolding shows_goal_def by blast
qed

section \<open>The report\<close>

lemma run_coverage_cases:
  assumes r: "run_coverage env s = Inr r"
  obtains c prepared goals where "prepare_cases env s c = Inr prepared"
    "expand_auto_goals (vs_auto s) (structural_inventory prepared) = Inr goals"
    "distinct (map vg_id (vs_goals s @ goals))"
    "traverse (\<lambda>g. cover_goal env g (goal_cases g prepared)) (vs_goals s @ goals) = Inr (vr_results r)"
  using r unfolding run_coverage_def Let_def rbind_Inr_iff require_Inr_iff by (elim exE conjE) (rule that, auto)

lemma run_coverage_goals:
  assumes r: "run_coverage env s = Inr r"
  shows "distinct (map (\<lambda>x. vg_id (gr_goal x)) (vr_results r))" "take (length (vs_goals s)) (map gr_goal (vr_results r)) = vs_goals s"
proof -
  obtain prepared goals where g: "distinct (map vg_id (vs_goals s @ goals))"
    "traverse (\<lambda>g. cover_goal env g (goal_cases g prepared)) (vs_goals s @ goals) = Inr (vr_results r)"
    by (rule run_coverage_cases [OF r])
  have "list_all2 (\<lambda>g x. cover_goal env g (goal_cases g prepared) = Inr x) (vs_goals s @ goals) (vr_results r)"
    using g(2) by (simp add: traverse_Inr_iff)
  then have "list_all2 (\<lambda>g x. gr_goal x = g) (vs_goals s @ goals) (vr_results r)"
    by (rule list.rel_mono_strong) (use cover_goal_status in blast)
  then have m: "map gr_goal (vr_results r) = vs_goals s @ goals"
    by (induction rule: list_all2_induct) auto
  show "distinct (map (\<lambda>x. vg_id (gr_goal x)) (vr_results r))" using g(1) unfolding m [symmetric] by (simp add: o_def)
  show "take (length (vs_goals s)) (map gr_goal (vr_results r)) = vs_goals s" by (simp add: m)
qed

lemma run_coverage_covered:
  assumes r: "run_coverage env s = Inr r" and x: "x \<in> set (vr_results r)" and st: "gr_status x = Covered"
    and b: "py_lower (ev_backend env) \<noteq> ''z3''"
  shows "\<exists>pc t. gr_input x = Some (pc_name pc) \<and> vm_name (pc_model pc) = vg_model (gr_goal x) \<and> gr_witness x = Some t \<and>
    shows_goal env (gr_goal x) pc t"
proof -
  obtain c prepared goals where p: "prepare_cases env s c = Inr prepared"
    and g: "traverse (\<lambda>g. cover_goal env g (goal_cases g prepared)) (vs_goals s @ goals) = Inr (vr_results r)"
    by (rule run_coverage_cases [OF r])
  obtain g' where c: "cover_goal env g' (goal_cases g' prepared) = Inr x" using traverse_Inr_imageD [OF g x] by blast
  have gg: "gr_goal x = g'" using cover_goal_status [OF c] by blast
  obtain pc res t where w: "pc \<in> set (goal_cases g' prepared)" "cover_case env g' pc = Inr (CaseSolved res)" "cr_status res = Feasible"
    "cr_trace res = Some t" "gr_input x = Some (pc_name pc)" "gr_witness x = Some t"
    by (rule cover_goal_covered [OF c st])
  have pc: "pc \<in> set prepared" "vm_name (pc_model pc) = vg_model g'" using w(1) by (auto simp: goal_cases_def)
  have "shows_goal env g' pc t" using covered_case_shows [OF w(2-4) b] prepare_cases_ok [OF p pc(1)] by blast
  then show ?thesis using w(5,6) pc(2) gg by blast
qed

end
