(* ===== verification/Spec2Isabelle.thy ===== *)
theory Spec2Isabelle
  imports Litmus CompositionExamples SearchFacts CoverageFacts
begin

text \<open>
  The program (\<open>src/src/umcm/\<close>) is a tool for micro-architectural memory models: traces of typed events are
  completed by a bounded solver, projected to execution graphs and checked against a memory model.
  This library models its Python code and proves what makes it correct.

  Values and results. \<open>Prelude\<close> has the exceptions of \<open>errors.py\<close> (\<open>py_error\<close>, classes without messages),
  results as sums (\<open>Inl\<close> an exception), loops that may raise (\<open>traverse\<close>, \<open>fold_res\<close>) and Python
  dictionaries as association lists in insertion order. \<open>PyValues\<close> has Python values with \<open>==\<close>
  (\<open>True == 1\<close>), order, hashing, \<open>str\<close> and \<open>repr\<close>, and the accessors of the parsers. Where the code
  would go on with a value outside the declared type of a field, a definition returns \<open>Unmodelled\<close>.

  Data. \<open>SortIR\<close>, \<open>ExprIR\<close>, \<open>EventIR\<close>, \<open>TraceIR\<close>, \<open>StateIR\<close>, \<open>TransformIR\<close>, \<open>CompletionIR\<close> (package \<open>ir\<close>):
  a record or datatype per class, \<open>mk_...\<close> for \<open>__post_init__\<close>, \<open>..._to_dict\<close> and \<open>..._from_dict\<close>, the
  validation methods. Lemmas: parsing inverts printing and yields well-formed data (the contracts
  \<open>encoder\<close> and \<open>codec\<close>, interpreted on each class), validation decides the typing predicates.

  Evaluation. \<open>Evaluator\<close> is \<open>solver/evaluator.py\<close>; UNKNOWN is \<open>None\<close>. Fuel counts the event fields
  followed on a path: a context whose fields mention events in a ranked way, and any flat context,
  needs no more fuel than ranks (\<open>eval_enough_fuel\<close>). \<open>EvalMono\<close> shows that more knowledge never changes a known result.

  Graphs. \<open>RelAlg\<close>, \<open>CycleSearch\<close>, \<open>TopoOrder\<close>, \<open>ExecGraph\<close>, \<open>Rvwmo\<close>, \<open>GraphModel\<close>, \<open>GraphBuilder\<close>,
  \<open>GraphChecker\<close> (package \<open>graph\<close>). Lemmas: closure and cycle search against the library's relations,
  RVWMO's rules against a set-based specification (\<open>RvwmoSpec\<close>, \<open>RvwmoPpo\<close>, \<open>RvwmoFacts\<close>, \<open>RvwmoCheck\<close>),
  candidates against the choices of sources and orders (\<open>GraphBuilderFacts\<close>, \<open>CandidateGraphs\<close>,
  \<open>CandidateChecks\<close>). The worklist loops terminate by measures.

  Completion. \<open>BoundedProblem\<close> is \<open>solver/problem.py\<close>, \<open>StateSim\<close> is \<open>solver/state.py\<close>, \<open>FiniteSolver\<close> is
  \<open>solver/finite.py\<close>, \<open>CompletionRun\<close> is \<open>solver/completion.py\<close>. \<open>ProblemFacts\<close> reads the generated
  constraints as the rules of the transformations; \<open>StateSteps\<close> states the state semantics as an
  inductive step relation, which the simulation refines; \<open>FiniteFacts\<close> and \<open>FiniteTyped\<close> show the
  search sound, complete for its domains and bounded. The node limit is a parameter; a limit of
  \<open>tree_size\<close> nodes is enough. \<open>solve_z3\<close> is a parameter of completion.

  Hierarchy. \<open>AbstractionIR\<close> is \<open>hierarchy/model.py\<close> (summary rules with field patterns), \<open>AbstractionRun\<close> is
  \<open>hierarchy/engine.py\<close>, \<open>Projection\<close> is \<open>hierarchy/interface.py\<close>. \<open>AbstractionFacts\<close> reads rule matches as
  unification and justifies every abstract event; \<open>Projection\<close> shows that hiding private events keeps
  a trace valid. The hash of the certificates is a parameter.

  Composition. \<open>Template\<close>, \<open>TraceRoles\<close> and \<open>Repeats\<close> are \<open>composition/parameterization.py\<close> (placeholders,
  roles that bind trace values, repeated fragments), \<open>CompositionIR\<close> is \<open>composition/model.py\<close>, \<open>Compose\<close> is
  \<open>composition/engine.py\<close>; reading a file, resolving a path and the working directory are parameters.
  \<open>RoleFacts\<close>: round trips, bounded queue indices, what a role binds. \<open>ComposeFacts\<close>: a composition of
  valid modules is a typed completion specification in which modules are isolated, and a generated
  connection transformation carries the mapped fields.

  Examples. \<open>Litmus\<close>, \<open>CompletionExamples\<close>, \<open>AbstractionExamples\<close> and \<open>CompositionExamples\<close> hold the inputs
  the properties are applied to.

  Not modelled: the SMT backend (\<open>solver/z3ctypes.py\<close>: it prints SMT-LIB for libz3, foreign code),
  reading and writing files (\<open>load\<close>, \<open>dump\<close>), provenance (hashes of source files), the command line,
  the documentation tool, the texts of messages, and, not yet, the packages \<open>coverage\<close> and \<open>search\<close>.
\<close>

section \<open>The RVWMO memory model\<close>

text \<open>
  C1. For a well-formed graph that \<open>complete_rvwmo_relations\<close> completes and \<open>check_rvwmo\<close> checks,
  the first two outcomes (global memory order, load value) are both satisfied iff some strict total
  order of all operations contains preserved program order and coherence and satisfies the load
  value axiom. The code builds and inspects one candidate order only.
\<close>

theorem rvwmo_order_refines:
  assumes "wf_graph g" and "complete_rvwmo_relations g = Inr g'" and "check_rvwmo g' = Inr ocs"
  shows "oc_satisfied (ocs ! 0) \<and> oc_satisfied (ocs ! 1) \<longleftrightarrow>
    (\<exists>gmo. global_memory_order (eg_operations g) (edges_of g' ''po'') (edges_of g ''rf'')
      (edges_of g ''co'') (edges_of g' ''ppo'') gmo)"
proof -
  obtain srcs orders gmo_order where "completed g g' srcs orders gmo_order"
    by (rule complete_completed [OF assms(1,2)])
  then show ?thesis by (rule order_and_load_value [OF assms(1) _ assms(3)])
qed

theorem rvwmo_order_refines_witness:
  "\<exists>g' gmo. complete_rvwmo_relations litmus_graph = Inr g' \<and>
     global_memory_order (eg_operations litmus_graph) (edges_of g' ''po'') (edges_of litmus_graph ''rf'')
       (edges_of litmus_graph ''co'') (edges_of g' ''ppo'') gmo"
proof -
  obtain g' ocs where r: "complete_rvwmo_relations litmus_graph = Inr g'" "check_rvwmo g' = Inr ocs"
    "map oc_satisfied ocs = [True, True, True, True, True]" by (rule litmus_runs)
  have "oc_satisfied (ocs ! 0)" "oc_satisfied (ocs ! 1)" using r(3) by (auto intro: litmus_run_nth)
  then show ?thesis using rvwmo_order_refines [OF litmus_wf r(1,2)] r(1) by blast
qed

text \<open>
  C2. The third outcome of the check says that every operation marked \<open>amo\<close> reads and writes, and
  that its own write follows the write it reads from immediately in the coherence order.
\<close>

theorem rvwmo_amo_atomicity:
  assumes "wf_graph g" and "complete_rvwmo_relations g = Inr g'" and "check_rvwmo g' = Inr ocs"
  shows "oc_satisfied (ocs ! 2) \<longleftrightarrow> amo_atomic (eg_operations g) (edges_of g ''rf'') (edges_of g ''co'')"
proof -
  obtain srcs orders gmo_order where "completed g g' srcs orders gmo_order"
    by (rule complete_completed [OF assms(1,2)])
  then show ?thesis by (rule amo_outcome [OF _ assms(3)])
qed

theorem rvwmo_amo_atomicity_witness:
  "amo_atomic (eg_operations litmus_graph) (edges_of litmus_graph ''rf'') (edges_of litmus_graph ''co'')"
proof -
  obtain g' ocs where r: "complete_rvwmo_relations litmus_graph = Inr g'" "check_rvwmo g' = Inr ocs"
    "map oc_satisfied ocs = [True, True, True, True, True]" by (rule litmus_runs)
  have "oc_satisfied (ocs ! 2)" using r(3) by (auto intro: litmus_run_nth)
  then show ?thesis using rvwmo_amo_atomicity [OF litmus_wf r(1,2)] by blast
qed

text \<open>
  C3. The fourth outcome says that every store-conditional has exactly one load-reserved partner
  and that no overlapping write of another hart lies, in coherence order, between the write the
  load-reserved read and the store-conditional.
\<close>

theorem rvwmo_lr_sc_atomicity:
  assumes "wf_graph g" and "complete_rvwmo_relations g = Inr g'" and "check_rvwmo g' = Inr ocs"
  shows "oc_satisfied (ocs ! 3) \<longleftrightarrow>
    lr_sc_atomic (eg_operations g) (edges_of g ''rf'') (edges_of g ''co'') (edges_of g' ''pair'')"
proof -
  obtain srcs orders gmo_order where "completed g g' srcs orders gmo_order"
    by (rule complete_completed [OF assms(1,2)])
  then show ?thesis by (rule lr_sc_outcome [OF _ complete_wf [OF assms(1,2)] assms(3)])
qed

theorem rvwmo_lr_sc_atomicity_witness:
  "\<exists>g'. complete_rvwmo_relations litmus_graph = Inr g' \<and>
     lr_sc_atomic (eg_operations litmus_graph) (edges_of litmus_graph ''rf'')
       (edges_of litmus_graph ''co'') (edges_of g' ''pair'')"
proof -
  obtain g' ocs where r: "complete_rvwmo_relations litmus_graph = Inr g'" "check_rvwmo g' = Inr ocs"
    "map oc_satisfied ocs = [True, True, True, True, True]" by (rule litmus_runs)
  have "oc_satisfied (ocs ! 3)" using r(3) by (auto intro: litmus_run_nth)
  then show ?thesis using rvwmo_lr_sc_atomicity [OF litmus_wf r(1,2)] r(1) by blast
qed

text \<open>
  C4. Completion keeps the graph invariant and the operations, leaves reads-from and coherence as
  they were, and adds the derived relations: \<open>rfe\<close> the reads-from edges between harts, \<open>fr\<close>
  from each read to the writes after its source, \<open>ppo\<close> within program order, and program order
  itself by hart and index.
\<close>

theorem rvwmo_completion:
  assumes "wf_graph g" and "complete_rvwmo_relations g = Inr g'"
  shows "wf_graph g' \<and> eg_operations g' = eg_operations g \<and>
    edges_of g' ''rf'' = edges_of g ''rf'' \<and> edges_of g' ''co'' = edges_of g ''co'' \<and>
    edges_of g' ''rfe'' = external (eg_operations g) (edges_of g ''rf'') \<and>
    edges_of g' ''fr'' = from_reads (edges_of g ''rf'') (edges_of g ''co'') \<and>
    edges_of g' ''ppo'' \<subseteq> edges_of g' ''po'' \<and>
    edges_of g' ''po'' = {(a, b). \<exists>s t. map_of (eg_operations g) a = Some s \<and>
      map_of (eg_operations g) b = Some t \<and> po_before s t}"
proof -
  obtain srcs orders gmo_order where c: "completed g g' srcs orders gmo_order"
    by (rule complete_completed [OF assms])
  note d = completedD [OF c]
  show ?thesis using complete_wf [OF assms] d(1-5) rvwmo_graphD(4,5) [OF d(6)] by simp
qed

theorem rvwmo_completion_witness:
  "\<exists>g'. complete_rvwmo_relations litmus_graph = Inr g' \<and> wf_graph g' \<and>
     edges_of g' ''ppo'' \<subseteq> edges_of g' ''po''"
proof -
  obtain g' where r: "complete_rvwmo_relations litmus_graph = Inr g'" by (rule litmus_runs)
  show ?thesis using rvwmo_completion [OF litmus_wf r] r by blast
qed

text \<open>
  C5. \<open>derive_ppo\<close> returns the thirteen rule relations and their union: relation \<open>i\<close> holds
  exactly the program-order edges for which rule \<open>i\<close>, read declaratively over byte sets and input
  relations, holds between two regular-memory operations.
\<close>

theorem derive_ppo_rules:
  assumes "derive_ppo ops rels rf = Inr rs"
  shows "length rs = 14 \<and>
    (\<forall>i<13. rel_name (rs ! i) = ppo_rule_name (Suc i) \<and> set (rel_edges (rs ! i)) =
      {e \<in> set (rel_edges (rel_or_empty rels ''po'')). ppo_holds ops rels rf i e}) \<and>
    rel_name (rs ! 13) = ''ppo'' \<and> set (rel_edges (rs ! 13)) =
      {e \<in> set (rel_edges (rel_or_empty rels ''po'')). \<exists>i<13. ppo_holds ops rels rf i e}"
  using derive_ppo_edges [OF assms] by blast

theorem derive_ppo_rules_witness:
  "\<exists>rs. derive_ppo litmus_ops [litmus_rel ''po'' [(''l'', ''s'')], litmus_rel ''pair'' [(''l'', ''s'')]]
      [(''l'', ''i''), (''a'', ''s'')] = Inr rs \<and> length rs = 14"
proof -
  let ?r = "derive_ppo litmus_ops [litmus_rel ''po'' [(''l'', ''s'')], litmus_rel ''pair'' [(''l'', ''s'')]]
      [(''l'', ''i''), (''a'', ''s'')]"
  have "(case ?r of Inl _ \<Rightarrow> False | Inr _ \<Rightarrow> True)" by code_simp
  then obtain rs where "?r = Inr rs" by (auto split: sum.splits)
  then show ?thesis using derive_ppo_rules [OF \<open>?r = Inr rs\<close>] by blast
qed

section \<open>Relations\<close>

text \<open>
  C6. \<open>find_labeled_cycle\<close> returns \<open>None\<close> exactly when the union of the relations is acyclic;
  what it returns otherwise is a closed, connected, non-empty sequence of edges of the union, each
  labelled with the first relation that holds it.
\<close>

theorem find_labeled_cycle_correct:
  "(find_labeled_cycle rs = Inr None \<longleftrightarrow> acyclic (edge_set rs)) \<and>
   (\<forall>c. find_labeled_cycle rs = Inr (Some c) \<longrightarrow> labeled_cycle rs c)"
  using dfs.find_none_iff dfs.find_cycle by blast

theorem find_labeled_cycle_correct_witness:
  "labeled_cycle [\<lparr>rel_name = ''r'', rel_edges = [(''a'', ''b''), (''b'', ''a'')]\<rparr>]
     [\<lparr>le_source = ''a'', le_relation = ''r'', le_target = ''b''\<rparr>,
      \<lparr>le_source = ''b'', le_relation = ''r'', le_target = ''a''\<rparr>]"
proof -
  have "find_labeled_cycle [\<lparr>rel_name = ''r'', rel_edges = [(''a'', ''b''), (''b'', ''a'')]\<rparr>] =
    Inr (Some [\<lparr>le_source = ''a'', le_relation = ''r'', le_target = ''b''\<rparr>,
      \<lparr>le_source = ''b'', le_relation = ''r'', le_target = ''a''\<rparr>])" by code_simp
  then show ?thesis using find_labeled_cycle_correct by blast
qed

text \<open>
  C7. The cycle search always ends with an answer: the recursion depth never exceeds the number of
  nodes and no lookup of a label or a stack position fails.
\<close>

theorem find_labeled_cycle_terminates: "\<exists>r. find_labeled_cycle rs = Inr r"
  by (rule dfs.find_total)

text \<open>
  C8. Transitive closure, by depth-first search from every node, is the transitive closure of the
  edges, whatever extra nodes and name are passed, and never fails on a well-formed relation.
\<close>

theorem transitive_closure_trancl:
  assumes "wf_relation r"
  shows "\<exists>s. transitive_closure r nodes name = Inr s \<and> wf_relation s \<and>
    rel_name s = name_or name (rel_name r @ ''+'') \<and> set (rel_edges s) = (set (rel_edges r))\<^sup>+"
  using transitive_closure_edges [OF assms, of nodes name] unfolding yields_def .

theorem transitive_closure_trancl_witness:
  "\<exists>s. transitive_closure \<lparr>rel_name = ''r'', rel_edges = [(''a'', ''b''), (''b'', ''c'')]\<rparr> [] None = Inr s \<and>
     (''a'', ''c'') \<in> set (rel_edges s)"
proof -
  let ?r = "\<lparr>rel_name = ''r'', rel_edges = [(''a'', ''b''), (''b'', ''c'')]\<rparr>"
  have "wf_relation ?r" by code_simp
  moreover have "(''a'', ''c'') \<in> (set (rel_edges ?r))\<^sup>+"
    by (rule trancl_into_trancl [OF r_into_trancl [of _ "''b''"]]) simp_all
  ultimately show ?thesis using transitive_closure_trancl [of ?r "[]" None] by blast
qed

text \<open>
  C9. Kahn's algorithm, on relations over the given nodes, returns an order exactly when their union
  is acyclic, and the order lists every node once and respects every edge.
\<close>

theorem topological_total_order_correct:
  assumes "edge_set rs \<subseteq> set nodes \<times> set nodes"
  shows "((\<exists>xs. topological_total_order nodes rs = Inr (Some xs)) \<longleftrightarrow> acyclic (edge_set rs)) \<and>
    (\<forall>xs. topological_total_order nodes rs = Inr (Some xs) \<longrightarrow> total_order_of nodes (edge_set rs) xs) \<and>
    (\<exists>r. topological_total_order nodes rs = Inr r)"
  using kahn.tsort_some_iff [OF assms] kahn.tsort_some [OF assms] kahn.tsort_total [OF assms] by blast

theorem topological_total_order_correct_witness:
  "total_order_of [''a'', ''b''] (edge_set [\<lparr>rel_name = ''r'', rel_edges = [(''b'', ''a'')]\<rparr>]) [''b'', ''a'']"
proof -
  have "topological_total_order [''a'', ''b''] [\<lparr>rel_name = ''r'', rel_edges = [(''b'', ''a'')]\<rparr>] =
    Inr (Some [''b'', ''a''])" by code_simp
  moreover have "edge_set [\<lparr>rel_name = ''r'', rel_edges = [(''b'', ''a'')]\<rparr>] \<subseteq> set [''a'', ''b''] \<times> set [''a'', ''b'']"
    by (simp add: edge_set_def)
  ultimately show ?thesis using topological_total_order_correct by blast
qed

section \<open>Evaluation\<close>





text \<open>
  C12. When the stored expressions of a context are ranked, fuel above the ranks of the fields an
  expression reads is enough: evaluation does not run out of recursion depth.
\<close>

theorem eval_enough_fuel:
  assumes "ranked rk c" and "ctx_functions c = default_functions"
    and "\<forall>(i, f, s) \<in> set (iter_event_fields e). rk i f < n"
  shows "eval_at n c e \<noteq> Inl PyRecursionError"
  using assms by (rule eval_at_enough_fuel)

theorem eval_enough_fuel_witness:
  "eval_at 1 (sample_context a_is_three) sample_expr \<noteq> Inl PyRecursionError"
proof (rule eval_enough_fuel)
  show "ranked (\<lambda>_ _. 0) (sample_context a_is_three)" by (rule flat_ranked [OF sample_flat])
  show "ctx_functions (sample_context a_is_three) = default_functions" by (simp add: sample_context_def)
  show "\<forall>(i, f, s) \<in> set (iter_event_fields sample_expr). 0 < (1::nat)" by simp
qed

section \<open>Serialisation and validation\<close>

text \<open>
  C13. A well-formed execution graph whose non-AMO operations carry no \<open>write_value\<close> is written and
  read back as the same graph with its dictionaries in key order and its edges sorted; and whatever
  \<open>ExecutionGraph.from_dict\<close> accepts satisfies the graph invariant.
\<close>

theorem execution_graph_codec:
  assumes "wf_graph g" and "\<forall>(k, m) \<in> set (eg_operations g). storable_op m"
  shows "graph_from_dict (graph_to_dict g) = Inr (sort_graph g) \<and> (\<forall>v h. graph_from_dict v = Inr h \<longrightarrow> wf_graph h)"
  using graph_roundtrip [OF assms] graph_from_dict_wf by blast

theorem execution_graph_codec_witness:
  "graph_from_dict (graph_to_dict litmus_graph) = Inr (sort_graph litmus_graph) \<and> wf_graph (sort_graph litmus_graph)"
  using execution_graph_codec [OF litmus_wf litmus_storable] by blast

text \<open>C14. Well-formed expressions survive serialisation, and every parsed expression is well-formed.\<close>

theorem expression_codec:
  "(wf_expr e \<longrightarrow> expr_from_dict (expr_to_dict e) = Inr e) \<and> (expr_from_dict v = Inr x \<longrightarrow> wf_expr x)"
  using expr_codec.dec_enc expr_codec.dec_wf by blast

theorem expression_codec_witness:
  "expr_from_dict (expr_to_dict sample_expr) = Inr sample_expr \<and> wf_expr sample_expr"
proof -
  have "wf_expr sample_expr" by code_simp
  then show ?thesis using expression_codec [of sample_expr "expr_to_dict sample_expr" sample_expr] by blast
qed

text \<open>
  C15. Events and traces survive serialisation when their values do: expressions in them are
  well-formed and no mapping has \<open>$expr\<close> as its only key.
\<close>

theorem trace_codec:
  "(encodable_event ev \<longrightarrow> event_from_dict (event_to_dict ev) = Inr ev) \<and>
   (encodable_trace t \<longrightarrow> trace_from_dict (trace_to_dict t) = Inr t)"
  using event_dec_enc trace_roundtrip by blast

theorem trace_codec_witness:
  "event_from_dict (event_to_dict sample_event) = Inr sample_event \<and>
   trace_from_dict (trace_to_dict litmus_trace) = Inr litmus_trace"
  using trace_codec [of sample_event litmus_trace] sample_event_encodable litmus_trace_wf(2) by blast

text \<open>
  C16. Validation against a well-formed catalog succeeds exactly when every event names a known type
  and conforms to it: its fields are declared, their values fit the declared sorts, and no required
  field is missing unless the trace is partial.
\<close>

theorem validate_events_correct:
  assumes "wf_catalog c"
  shows "validate_events c partial evs = Inr () \<longleftrightarrow>
    (\<forall>e \<in> set evs. \<exists>t. map_of (ec_types c) (ei_type e) = Some t \<and> event_conforms t partial e)"
  using assms by (rule validate_events_iff)

theorem validate_events_correct_witness:
  "\<exists>t. map_of (ec_types sample_catalog) ''core.load'' = Some t \<and> event_conforms t False sample_event"
proof -
  have "\<exists>t. map_of (ec_types sample_catalog) (ei_type sample_event) = Some t \<and> event_conforms t False sample_event"
    using validate_events_correct [OF sample_catalog_wf, of False "[sample_event]"] sample_event_valid by simp
  then show ?thesis by (simp add: sample_event_def)
qed

section \<open>From traces to verdicts\<close>

text \<open>
  C17. Every graph built from a candidate of a trace satisfies the graph invariant, holds the
  projected operations, and its program order, reads-from and coherence are exactly the canonical
  program order, the chosen sources and the chosen orders; neither hints, derived relations nor the
  built-in model change them.
\<close>

theorem candidate_graph_sound:
  assumes "wf_graph_model m" and "prepare_candidates t m k = Inr (s, po)"
    and "build_graph m s po (n, srcs, cos) = Inr g"
  shows "wf_graph g \<and> eg_operations g = cs_operations s \<and> edges_of g ''rf'' = chosen_rf srcs \<and>
    edges_of g ''co'' = chosen_co cos \<and> edges_of g ''po'' = set (rel_edges po)"
  using built_graph_ok [OF assms] by blast

theorem candidate_graph_sound_witness:
  "\<exists>s po c g. prepare_candidates litmus_trace sample_model 10 = Inr (s, po) \<and>
     build_graph sample_model s po c = Inr g \<and> wf_graph g"
proof -
  obtain s po c g where h: "prepare_candidates litmus_trace sample_model 10 = Inr (s, po)"
    "build_graph sample_model s po c = Inr g" by (rule litmus_spaceE)
  obtain n srcs cos where c: "c = (n, srcs, cos)" by (cases c)
  have "wf_graph g" using candidate_graph_sound [OF sample_model_wf h(1) h(2) [unfolded c]] by blast
  then show ?thesis using h by blast
qed

text \<open>
  C18. The enumeration is complete and bounded: the candidates are all pairs of one listed source per
  read and one listed order per address, there are exactly as many as estimated, at least one, and
  at most the limit.
\<close>

theorem candidate_enumeration:
  assumes "wf_graph_model m" and "prepare_candidates t m k = Inr (s, po)"
  shows "((srcs, cos) \<in> snd ` set (candidates s) \<longleftrightarrow> rf_assignment_of s srcs \<and> co_selection_of s cos) \<and>
    length (candidates s) = estimated_candidates s \<and> 0 < length (candidates s) \<and> int (length (candidates s)) \<le> k"
  using candidates_iff [OF prepare_ok(1) [OF assms]] length_candidates_estimate [OF prepare_ok(1) [OF assms]]
    candidates_nonempty [OF prepare_ok(1) [OF assms]] prepare_ok(3) [OF assms]
  by (simp flip: length_greater_0_conv)

theorem candidate_enumeration_witness:
  "\<exists>s po. prepare_candidates litmus_trace sample_model 10 = Inr (s, po) \<and> 0 < estimated_candidates s"
proof -
  obtain s po where h: "prepare_candidates litmus_trace sample_model 10 = Inr (s, po)" by (rule litmus_spaceE)
  show ?thesis using candidate_enumeration [OF sample_model_wf h, of "[]" "[]"] h by metis
qed

text \<open>
  C19. A trace is allowed iff some choice of sources and coherence orders gives a graph that
  satisfies the built-in outcomes and every axiom of the model.
\<close>

theorem memory_model_verdict:
  assumes "wf_graph_model m" and "check_trace_memory_model t m k = Inr mc"
    and "prepare_candidates t m k = Inr (s, po)"
  shows "mc_status mc = ALLOWED \<longleftrightarrow>
    (\<exists>srcs cos n g. rf_assignment_of s srcs \<and> co_selection_of s cos \<and> (n, srcs, cos) \<in> set (candidates s) \<and>
       build_graph m s po (n, srcs, cos) = Inr g \<and> passes m g)"
  using assms by (rule check_trace_iff)

theorem memory_model_verdict_witness:
  "\<exists>s po srcs cos n g. prepare_candidates litmus_trace sample_model 10 = Inr (s, po) \<and>
     rf_assignment_of s srcs \<and> co_selection_of s cos \<and>
     build_graph sample_model s po (n, srcs, cos) = Inr g \<and> passes sample_model g"
proof -
  obtain s po where h: "prepare_candidates litmus_trace sample_model 10 = Inr (s, po)" by (rule litmus_spaceE)
  obtain mc where mc: "check_trace_memory_model litmus_trace sample_model 10 = Inr mc" "mc_status mc = ALLOWED"
    using litmus_status_allowed by (auto simp: litmus_status_def rbind_Inr_iff)
  show ?thesis using memory_model_verdict [OF sample_model_wf mc(1) h] mc(2) h by blast
qed

text \<open>
  C20. \<open>check_axiom\<close> succeeds on a well-formed graph that has the relations of the axiom, and reports
  it satisfied exactly when the union of the relations is acyclic, irreflexive or empty, as the kind
  of the axiom says.
\<close>

theorem check_axiom_correct:
  assumes "wf_graph g" and "wf_axiom a" and "\<forall>n \<in> set (ax_relations a). map_of (eg_relations g) n \<noteq> None"
  shows "\<exists>r. check_axiom g a = Inr r \<and> (ar_status r = SATISFIED \<longleftrightarrow> axiom_holds g a)"
  using check_axiom_total [OF assms] check_axiom_iff by blast

theorem check_axiom_correct_witness:
  "\<exists>r. check_axiom litmus_graph \<lparr>ax_name = ''a'', ax_kind = ''acyclic'', ax_relations = [''rf'', ''co''],
     ax_description = []\<rparr> = Inr r \<and> (ar_status r = SATISFIED \<longleftrightarrow>
       acyclic (edges_of litmus_graph ''rf'' \<union> edges_of litmus_graph ''co''))"
proof -
  let ?a = "\<lparr>ax_name = ''a'', ax_kind = ''acyclic'', ax_relations = [''rf'', ''co''], ax_description = []\<rparr>"
  have "wf_axiom ?a" "\<forall>n \<in> set (ax_relations ?a). map_of (eg_relations litmus_graph) n \<noteq> None" by code_simp+
  from check_axiom_correct [OF litmus_wf this] show ?thesis by (simp add: axiom_holds_def)
qed

text \<open>
  C21. Under the built-in RVWMO model a trace with an atomic memory operation is never checked: every
  candidate graph is rejected with an error, because the builder leaves atomic operations out of the
  coherence orders and the RVWMO validation requires them there.
\<close>

theorem rvwmo_amo_trace_rejected:
  assumes "wf_graph_model m" and "gm_builtin m = Some ''rvwmo''" and "prepare_candidates t m k = Inr (s, po)"
    and "c \<in> set (candidates s)" and "map_of (cs_operations s) a = Some x" and "mo_kind x = AMO"
  shows "\<exists>e. build_graph m s po c = Inl e"
  using assms by (rule amo_candidate_rejected)

theorem rvwmo_amo_trace_rejected_witness:
  "\<exists>s po c e. prepare_candidates amo_trace amo_model 10 = Inr (s, po) \<and> c \<in> set (candidates s) \<and>
     build_graph amo_model s po c = Inl e"
proof -
  obtain s po where h: "prepare_candidates amo_trace amo_model 10 = Inr (s, po)"
    and n: "length (candidates s) = 1" and k: "map (\<lambda>(i, m). (i, mo_kind m)) (cs_operations s) = [(''i'', INIT_WRITE), (''a'', AMO)]"
    using amo_facts_val by (auto simp: amo_facts_def amo_prepared_def rbind_Inr_iff)
  obtain c where c: "c \<in> set (candidates s)" using n by (cases "candidates s") auto
  obtain x where x: "map_of (cs_operations s) ''a'' = Some x" "mo_kind x = AMO"
    using k by (auto simp: map_eq_Cons_conv)
  have "gm_builtin amo_model = Some ''rvwmo''" by (simp add: amo_model_def)
  then obtain e where "build_graph amo_model s po c = Inl e"
    using rvwmo_amo_trace_rejected [OF amo_model_wf _ h c x] by blast
  then show ?thesis using h c by blast
qed

text \<open>
  C22. The sources of a read are the writes with its address and value: all of them without a hint,
  the hinted one, which must be among them, with a hint; there is always at least one. The coherence
  orders of an address are the initial write followed by every permutation of the ordinary writes in
  which each hint's write precedes the write it is hinted to precede.
\<close>

theorem candidate_choices_correct:
  assumes "wf_ops ops" and "is_read r" and "rf_choice ops hints r = Inr (i, sources)"
    and "co_choice ops order_hints (addr, ws) = Inr (a, orders)" and "distinct (map mo_id ws)"
  shows "i = mo_id r \<and> sources \<noteq> [] \<and> (\<forall>w \<in> set sources. matching_write ops r w) \<and>
    (map_of hints i = None \<longrightarrow> set sources = {w. matching_write ops r w}) \<and>
    (\<forall>e. map_of hints i = Some e \<longrightarrow> sources = [re_write e]) \<and>
    a = addr \<and> orders \<noteq> [] \<and> length (inits_of ws) \<le> 1 \<and>
    set orders = {inits_of ws @ p |p. mset p = mset (stores_of ws) \<and>
      (\<forall>h \<in> set order_hints. py_eq (ce_address h) addr \<longrightarrow>
        (ce_before h, ce_after h) \<in> set (ordered_pairs (inits_of ws @ p)))}"
  using rf_choice_spec [OF assms(1-3)] co_choice_spec [OF assms(4,5)] by blast

theorem candidate_choices_correct_witness:
  "matching_write litmus_ops (litmus_op ''a'' AMO 1 (VInt 2) (Some 1) (Some 0) []) ''s'' \<and>
   (\<exists>orders. co_choice litmus_ops [] (VInt 0, map snd litmus_ops) = Inr (VInt 0, orders) \<and>
     set orders = {[''i''] @ p |p. mset p = mset [''s'']})"
proof -
  let ?r = "litmus_op ''a'' AMO 1 (VInt 2) (Some 1) (Some 0) []"
  have rf: "wf_ops litmus_ops" "is_read ?r" "rf_choice litmus_ops [] ?r = Inr (''a'', [''s''])" by code_simp+
  have co: "co_choice litmus_ops [] (VInt 0, map snd litmus_ops) = Inr (VInt 0, [[''i'', ''s'']])" by code_simp
  have "distinct (map mo_id (map snd litmus_ops))" by code_simp
  from candidate_choices_correct [OF rf co this] show ?thesis
    using co by (simp add: inits_of_def stores_of_def litmus_ops_def litmus_op_def)
qed



section \<open>Transformations and completion problems\<close>

text \<open>
  C24. Validation of a transformation succeeds exactly when every role has a known event type,
  every event field its conditions and effects read is declared for the type of the role with the
  declared sort, the output condition reads output roles only, and every effect names a known cell,
  a known role and a value of the cell's sort.
\<close>

theorem validate_transformation_correct:
  assumes "wf_catalog c" and "distinct (map ro_name (tf_roles t))"
  shows "validate_transformation c vars t = Inr () \<longleftrightarrow> transformation_typed c vars t"
  using assms by (rule validate_transformation_iff)

theorem validate_transformation_correct_witness:
  "transformation_typed handshake_catalog (state_map handshake_spec) answer"
  using validate_transformation_correct [OF handshake_catalog_wf answer_roles] answer_typed by blast



text \<open>
  C26. In the problem built from a trace and a specification, the events are the trace's followed by
  the slots', with distinct identifiers and every required field filled with a value or symbol of
  its sort, and every constraint is a boolean expression whose references name an event of the
  problem and an attribute of its type with the declared sort.
\<close>

theorem build_problem_well_typed:
  assumes "wf_input c t s" and "build_problem c t s = Inr p"
  shows "map ei_id (bp_events p) = map ei_id (tr_events t) @ map sl_id (cs_slots s) \<and>
    distinct (map ei_id (bp_events p)) \<and> (\<forall>e \<in> set (bp_events p). event_complete c e) \<and>
    (\<forall>k \<in> set (bp_constraints p). condition_valid c (bp_events p) (nc_expr k))"
  using problem_events [OF assms] build_problem_typed [OF assms] by blast

theorem build_problem_well_typed_witness:
  "list_all (\<lambda>k. condition_valid handshake_catalog (bp_events handshake_problem) (nc_expr k))
     (bp_constraints handshake_problem)"
  using build_problem_well_typed [OF handshake_input handshake_built] by (simp add: list_all_iff)

section \<open>State semantics\<close>

text \<open>
  C27. \<open>check_state_semantics\<close> accepts an assignment exactly when the declared cells have a run
  through all cycles of the horizon in which the active requirements of a cycle hold before it and
  its active updates agree and are applied together, and no guarded rule is violated by the states
  of the run; its initial and final states are those of the run.
\<close>

theorem check_state_refines:
  assumes "0 \<le> cs_horizon (bp_spec p)"
  shows "(\<exists>r. check_state_semantics n p asg = Inr r \<and> st_feasible r \<and> st_initial r = ini \<and> map_of (st_final r) = final) \<longleftrightarrow>
    (\<exists>pre. state_run n p asg ini pre final)"
  using check_state_sound [OF _ _ assms] check_state_complete [OF _ assms] by blast

theorem check_state_refines_witness:
  "\<exists>pre. state_run 3 handshake_problem (map_of acknowledged) [(''core.busy'', VInt 0)] pre
     (map_of [(''core.busy'', VInt 1)])"
proof -
  have h: "0 \<le> cs_horizon (bp_spec handshake_problem)" by (simp add: handshake_horizon)
  obtain r where r: "check_state_semantics 3 handshake_problem (map_of acknowledged) = Inr r" "st_feasible r"
    "st_initial r = [(''core.busy'', VInt 0)]" "st_final r = [(''core.busy'', VInt 1)]" by (rule handshake_checked)
  show ?thesis by (rule check_state_refines [OF h, THEN iffD1]) (use r in simp)
qed

text \<open>
  C28. The state before a cycle that \<open>completion.py\<close> replays from the recorded steps is the state
  the simulation of \<open>state.py\<close> had before that cycle.
\<close>

theorem replayed_state_correct:
  assumes "check_state_semantics n p asg = Inr r" and "st_feasible r" and "0 \<le> cs_horizon (bp_spec p)"
  shows "\<exists>pre. state_run n p asg (st_initial r) pre (map_of (st_final r)) \<and>
    (\<forall>j < length pre. state_before r (int j) = pre ! j)"
  using assms by (rule state_before_run)

theorem replayed_state_correct_witness:
  "\<exists>r pre. check_state_semantics 3 handshake_problem (map_of acknowledged) = Inr r \<and>
     state_run 3 handshake_problem (map_of acknowledged) (st_initial r) pre (map_of (st_final r)) \<and>
     state_before r 0 = pre ! 0"
proof -
  have h: "0 \<le> cs_horizon (bp_spec handshake_problem)" by (simp add: handshake_horizon)
  obtain r where r: "check_state_semantics 3 handshake_problem (map_of acknowledged) = Inr r" "st_feasible r"
    by (rule handshake_checked)
  obtain pre where pre: "state_run 3 handshake_problem (map_of acknowledged) (st_initial r) pre (map_of (st_final r))"
    "\<forall>j < length pre. state_before r (int j) = pre ! j"
    using replayed_state_correct [OF r h] by blast
  have "length pre = 1" using pre(1) by (simp add: state_run_def Let_def handshake_horizon)
  then have "state_before r 0 = pre ! 0" using pre(2) by auto
  then show ?thesis using pre(1) r(1) by blast
qed

section \<open>The finite solver and completion\<close>

text \<open>
  C29. An answer \<open>UNSAT\<close> of the finite solver is right: no choice of one value per variable from its
  domain satisfies every constraint and passes the state semantics. Pruning loses nothing.
\<close>

theorem solve_finite_unsat_sound:
  assumes "solve_finite n limit p = Inr r" and "fs_status r = Unsat" and "typed_problem p"
    and "build_variables p = Inr vars"
  shows "\<not> (\<exists>a \<in> completions vars []. solution n p a)"
  using solve_finite_Unsat [OF assms] by blast

theorem solve_finite_unsat_sound_witness:
  "\<not> solution 3 (lone_problem [wrong_tag] optional) [(''s'', VBool True)]"
proof -
  obtain r where r: "solve_finite 3 100 (lone_problem [wrong_tag] optional) = Inr r" "fs_status r = Unsat"
    by (rule lone_unsolved)
  show ?thesis using solve_finite_unsat_sound [OF r lone_typed(2) lone_variables(2)] by simp
qed



text \<open>
  C31. A feasible completion with the finite backend comes with an assignment that solves the
  problem, and its trace consists of exactly the events of the problem that occur under it, with
  every value replaced by what it evaluates to; the trace keeps the source's constraints, is not
  partial and validates against the catalog.
\<close>

theorem completion_sound:
  assumes "complete_problem n solve_z3 backend limit minimize p = Inr res" and "cr_status res = Feasible"
    and "py_lower backend \<noteq> ''z3''"
  shows "solution n p (cr_assignment res) \<and> (\<exists>t. cr_trace res = Some t \<and> completes n p (cr_assignment res) (tr_events t) \<and>
    tr_partial t = False \<and> tr_constraints t = tr_constraints (bp_trace p) \<and>
    validate_trace (bp_catalog p) (Some False) t = Inr ())"
  using assms by (rule complete_problem_finite)

theorem completion_sound_witness:
  "\<exists>a. solution 3 (lone_problem [] (VBool True)) a"
proof -
  obtain r where r: "complete_problem 3 no_backend ''auto'' 100 True (lone_problem [] (VBool True)) = Inr r"
    "cr_status r = Feasible" by (rule lone_completed)
  have b: "py_lower ''auto'' \<noteq> ''z3''" by code_simp
  show ?thesis using completion_sound [OF r b] by blast
qed

text \<open>
  C32. Completion of a satisfiable problem raises when a constraint of the source trace mentions an
  event that does not occur in the solution found: the event is left out of the completed trace, the
  constraint is kept, and validating the trace rejects the reference.
\<close>

theorem completion_rejects_absent_events:
  assumes "solve_finite n limit p = Inr solved" and "fs_status solved = Sat" and "py_lower backend \<noteq> ''z3''"
    and "e \<in> set (tr_constraints (bp_trace p))" and "(i, f, s) \<in> set (iter_event_fields e)"
    and "\<forall>ev \<in> set (bp_events p). ei_id ev = i \<longrightarrow>
      evaluates_to n (problem_context p (map_of (fs_assignment solved))) (ei_occurs ev) (VBool False)"
  shows "\<exists>err. complete_problem n solve_z3 backend limit minimize p = Inl err"
  using assms by (rule complete_problem_absent)

theorem completion_rejects_absent_events_witness:
  "\<exists>err. complete_problem 3 no_backend ''auto'' 100 True (lone_problem [] optional) = Inl err"
proof -
  obtain r where r: "solve_finite 3 100 (lone_problem [] optional) = Inr r" "fs_status r = Sat"
    "fs_assignment r = [(''s'', VBool False)]" by (rule lone_solved)
  have b: "py_lower ''auto'' \<noteq> ''z3''" by code_simp
  have e: "Binary ''eq'' (EventField ''r'' ''tag'' INT_SORT) (Literal (SInt 1) INT_SORT)
      \<in> set (tr_constraints (bp_trace (lone_problem [] optional)))" by code_simp
  have f: "(''r'', ''tag'', INT_SORT) \<in> set (iter_event_fields
      (Binary ''eq'' (EventField ''r'' ''tag'' INT_SORT) (Literal (SInt 1) INT_SORT)))" by simp
  have "list_all (\<lambda>ev. ei_id ev = ''r'' \<longrightarrow> concrete_value 3 (problem_context (lone_problem [] optional)
      (map_of [(''s'', VBool False)])) (ei_occurs ev) = Inr (Some (VBool False))) (bp_events (lone_problem [] optional))"
    by code_simp
  then have a: "\<forall>ev \<in> set (bp_events (lone_problem [] optional)). ei_id ev = ''r'' \<longrightarrow>
      evaluates_to 3 (problem_context (lone_problem [] optional) (map_of (fs_assignment r))) (ei_occurs ev) (VBool False)"
    by (simp add: r(3) evaluates_to_def list_all_iff)
  show ?thesis by (rule completion_rejects_absent_events [OF r(1,2) b e f a])
qed



section \<open>Hierarchical abstraction\<close>

text \<open>
  C34. For events with known cycles the matches of a summary rule are exactly the selections of one
  event per role, of the role's type, in strict or weak cycle order and without repetition when the
  rule says so, whose fields unify with the role patterns; each comes with a unifier.
\<close>

theorem summary_matches_correct:
  assumes "\<forall>e \<in> set events. known_cycle e"
  shows "\<exists>found. rule_matches (events_by_type events) rule (su_roles rule) [] [] = Inr found \<and>
    (\<forall>sel. (\<exists>b. (sel, b) \<in> set found) \<longleftrightarrow> matches_rule events rule sel) \<and>
    (\<forall>(sel, b) \<in> set found. unifies (map_of b) (su_roles rule) sel)"
  using assms by (rule rule_matches_correct)

theorem summary_matches_correct_witness:
  "\<exists>found. rule_matches (events_by_type [request_event (VBool True), ack_event]) serve_rule (su_roles serve_rule) [] [] =
     Inr found \<and> (\<forall>sel. (\<exists>b. (sel, b) \<in> set found) \<longleftrightarrow>
       matches_rule [request_event (VBool True), ack_event] serve_rule sel)"
  using summary_matches_correct [OF served_cycles, of serve_rule] by blast

text \<open>
  C35. Every event of an abstract trace is justified: it copies an occurring concrete event or
  summarises a match of a rule of the specification, with its evidence in the certificate, and every
  piece of evidence has its event. The certificate partitions the concrete events into retained and
  hidden ones, identifiers are distinct, constraints come from the concrete trace, and the abstract
  trace validates.
\<close>

theorem abstract_trace_sound:
  assumes "abstract_trace sha256 t c spec = Inr r"
  shows "\<exists>events. concrete_events t = Inr events \<and>
    (\<forall>e \<in> set (tr_events (ab_trace r)). (\<exists>e0 \<in> set events. copy_event e0 = Inr e) \<or>
       (\<exists>ev \<in> set (ct_summaries (ab_certificate r)). summarises spec events ev e)) \<and>
    (\<forall>ev \<in> set (ct_summaries (ab_certificate r)). \<exists>e \<in> set (tr_events (ab_trace r)). summarises spec events ev e) \<and>
    set (ct_retained (ab_certificate r)) \<union> set (ct_hidden (ab_certificate r)) = ei_id ` set events \<and>
    set (ct_retained (ab_certificate r)) \<inter> set (ct_hidden (ab_certificate r)) = {} \<and>
    distinct (map ei_id (tr_events (ab_trace r))) \<and>
    set (tr_constraints (ab_trace r)) \<subseteq> set (tr_constraints t) \<and>
    validate_trace c (Some False) (ab_trace r) = Inr ()"
  by (rule abstract_trace_justified [OF assms]) blast

theorem abstract_trace_sound_witness:
  "\<exists>r. abstract_trace short_digest served_trace handshake_catalog serve_spec = Inr r \<and>
     map ei_id (tr_events (ab_trace r)) = [''served1''] \<and>
     set (ct_retained (ab_certificate r)) \<union> set (ct_hidden (ab_certificate r)) = {''r'', ''a''} \<and>
     set (ct_retained (ab_certificate r)) \<inter> set (ct_hidden (ab_certificate r)) = {}"
proof -
  obtain r where r: "abstract_trace short_digest served_trace handshake_catalog serve_spec = Inr r"
    "map ei_id (tr_events (ab_trace r)) = [''served1'']" by (rule served_abstraction)
  have "ei_id ` set [request_event (VBool True), ack_event] = {''r'', ''a''}" by code_simp
  then show ?thesis using abstract_trace_sound [OF r(1)] r served_events by auto
qed



section \<open>Composition\<close>

text \<open>
  C37. Trace roles are resolved into a context that keeps the parameters and gets one new name per
  role; a role for one event binds every exported name to the value its path has in the one
  observed event that the role selects.
\<close>

theorem trace_roles_correct:
  assumes "resolve_trace_roles t roles ctx = Inr ctx'" and "r \<in> set roles" and "tl_cardinality r = ''one''"
    and "mk_trace_role r = Inr r" and "distinct (map fst (tl_exports r))"
  shows "map_of ctx \<subseteq>\<^sub>m map_of ctx' \<and> dom (map_of ctx') = dom (map_of ctx) \<union> tl_name ` set roles \<and>
    distinct (map tl_name roles) \<and>
    (\<exists>c e. map_of c \<subseteq>\<^sub>m map_of ctx' \<and> selects_event t c r e \<and>
      (\<forall>(a, path) \<in> set (tl_exports r). walk (VMap ctx') [tl_name r, a] = resolve_event_path e path))"
  using resolve_roles_keep [OF assms(1)] resolve_roles_singular [OF assms] by blast

theorem trace_roles_correct_witness:
  "\<exists>e. e \<in> set (tr_events (request_trace (VBool True))) \<and> walk (VMap link_context) [''q'', ''tag''] = resolve_event_path e ''fields.tag''"
proof -
  have r: "resolve_trace_roles (request_trace (VBool True)) [request_role] [] = Inr link_context"
    using link_context_ok by (simp add: composition_context_def or_raise_def link_composition_def)
  have m: "request_role \<in> set [request_role]" by simp
  obtain c e where "selects_event (request_trace (VBool True)) c request_role e"
    "\<forall>(a, path) \<in> set (tl_exports request_role). walk (VMap link_context) [tl_name request_role, a] = resolve_event_path e path"
    using trace_roles_correct [OF r m request_role_ok(3,1,2)] by blast
  moreover from this(1) have "e \<in> set (tr_events (request_trace (VBool True)))"
    by (auto simp: selects_event_def)
  moreover have "tl_exports request_role = [(''tag'', ''fields.tag'')]" and "tl_name request_role = ''q''"
    by (simp_all add: request_role_def)
  ultimately show ?thesis by (intro exI [of _ e], simp del: walk.simps)
qed





text \<open>
  C40. Projecting a valid trace to the interfaces of a composition succeeds, keeps the visible events
  as they are and in order, reports the others as hidden, keeps exactly the constraints about
  visible events, and gives a valid trace.
\<close>

theorem interface_projection_correct:
  assumes "\<forall>e \<in> set (tr_events t). wf_event e" and "validate_trace c p t = Inr ()"
  shows "\<exists>res. project_interface_trace t r = Inr res \<and> tr_events (pj_trace res) = filter (visible r) (tr_events t) \<and>
    pj_hidden (pj_certificate res) = map ei_id (filter (\<lambda>e. \<not> visible r e) (tr_events t)) \<and>
    tr_constraints (pj_trace res) = filter (\<lambda>e. \<forall>x \<in> set (iter_event_fields e).
      fst x \<in> ei_id ` {ev \<in> set (tr_events t). visible r ev}) (tr_constraints t) \<and>
    validate_trace c p (pj_trace res) = Inr ()"
  using assms by (rule project_correct)

theorem interface_projection_correct_witness:
  "\<exists>r res. link_result = Inr r \<and> project_interface_trace (request_trace (VBool True)) r = Inr res \<and>
     validate_trace handshake_catalog None (pj_trace res) = Inr ()"
proof -
  obtain r where r: "link_result = Inr r" by (rule link_composed)
  have v: "list_all wf_event (tr_events (request_trace (VBool True)))"
    "validate_trace handshake_catalog None (request_trace (VBool True)) = Inr ()" by code_simp+
  then show ?thesis using interface_projection_correct [of "request_trace (VBool True)" handshake_catalog None r] r
    by (auto simp: list_all_iff)
qed

end
